(* ===== verification/Prelude.thy ===== *)
theory Prelude
  imports Main "HOL-Library.Word"
begin

text \<open>
  What every contract of the suite shares: the host environment a Soroban entry point runs in,
  failures and results, the combinators the handlers are written with, machine integers, and
  the generic lemmas on maps and sums that the component proofs use.

  The workspace is built with \<open>overflow-checks = true\<close> (\<open>Cargo.toml\<close>, profile
  \<open>release\<close>), so plain \<open>+\<close>, \<open>-\<close>, \<open>*\<close> on an integer panic when the result leaves
  the range of the type. Values of type \<open>i128\<close> are \<open>int\<close>, values of type \<open>u32\<close> and
  \<open>u64\<close> are \<open>nat\<close>, and every operation checks the range of its width. The theory
  \<open>SafeMath\<close> shows that this agrees with two's complement words.
\<close>

section \<open>Addresses, hashes, the host environment\<close>

text \<open>
  Addresses, symbols and 32-byte hashes are compared for equality only. The XDR encoding that
  feeds \<open>env.crypto().sha256\<close> is kept as the list of the encoded items.
\<close>

type_synonym addr = nat
type_synonym symbol = string
type_synonym hash32 = nat

datatype val = VAddr addr | VU32 nat | VU64 nat | VI128 int | VSym symbol | VBool bool

datatype xdr =
    XAddr addr | XSym symbol | XU32 nat | XU64 nat | XI128 int | XHash hash32 | XVals "val list"

text \<open>
  The environment of one invocation: ledger time and sequence number, the address of the
  running contract, which addresses have authorised the invocation (\<open>require_auth\<close>
  succeeds exactly for these), and the host's SHA-256.
\<close>

record env =
  ledger_ts :: nat
  ledger_seq :: nat
  self_addr :: addr
  auth_by :: "addr \<Rightarrow> bool"
  sha :: "xdr list \<Rightarrow> hash32"

text \<open>
  A contract that calls another contract is the direct invoker there, so its own address is
  authorised in the callee.
\<close>

definition as_invoker :: "env \<Rightarrow> env" where
  "as_invoker env = env\<lparr>auth_by := (\<lambda>a. a = self_addr env \<or> auth_by env a)\<rparr>"

lemma as_invoker_simps [simp]:
  "auth_by (as_invoker env) a \<longleftrightarrow> a = self_addr env \<or> auth_by env a"
  "ledger_ts (as_invoker env) = ledger_ts env"
  "ledger_seq (as_invoker env) = ledger_seq env"
  "self_addr (as_invoker env) = self_addr env"
  "sha (as_invoker env) = sha env"
  by (simp_all add: as_invoker_def)


text \<open>A concrete environment for the witnesses: the time and the signers.\<close>

definition demo_env :: "nat \<Rightarrow> addr list \<Rightarrow> env" where
  "demo_env t signers = \<lparr>ledger_ts = t, ledger_seq = 0, self_addr = 0,
     auth_by = (\<lambda>a. a \<in> set signers), sha = (\<lambda>_. 0)\<rparr>"

lemma demo_env_simps [simp]:
  "ledger_ts (demo_env t g) = t" "ledger_seq (demo_env t g) = 0" "self_addr (demo_env t g) = 0"
  "auth_by (demo_env t g) a \<longleftrightarrow> a \<in> set g" "sha (demo_env t g) x = 0"
  by (simp_all add: demo_env_def)


section \<open>Failures and results\<close>

text \<open>
  A failing invocation is rolled back by the host, so a failure carries no state:
  \<open>Panic\<close> is a \<open>panic!\<close>, \<open>expect\<close> or \<open>unwrap\<close> with its message, \<open>Err\<close> an
  error value of the contract (\<open>Err(e)\<close> or \<open>panic_with_error!\<close>), \<open>SharedErr\<close> one
  of the error codes of \<open>contracts/shared/src/lib.rs\<close>, \<open>AuthDenied\<close> a failed \<open>require_auth\<close>, \<open>Overflow\<close> checked arithmetic, \<open>HostError\<close> a trap of the
  host, \<open>CalleeTrapped\<close> a failure inside a contract called without \<open>try_\<close>.
\<close>

datatype shared_error =
    SAlreadyInitialized | SNotInitialized | SUnauthorized | SNotFound | SInvalidAmount
  | SInvalidState | SDuplicateEntry | SUnsupportedOperation | SOverflow | SUnderflow
  | SValidationError | SUnauthorizedContract | SDivisionByZero | SContentAccessDenied
  | SIPOwnershipInvalid | SUsageRightsViolation | SEncryptionError | SPiracyDetected

datatype 'e fail =
    Panic string | Err 'e | SharedErr shared_error | AuthDenied | Overflow | HostError
  | CalleeTrapped

definition rbind :: "'f + 'a \<Rightarrow> ('a \<Rightarrow> 'f + 'b) \<Rightarrow> 'f + 'b" where
  "rbind r k = (case r of Inl e \<Rightarrow> Inl e | Inr a \<Rightarrow> k a)"

definition ensure :: "bool \<Rightarrow> 'f \<Rightarrow> 'f + 'a \<Rightarrow> 'f + 'a" where
  "ensure b e k = (if b then k else Inl e)"

definition expect :: "'a option \<Rightarrow> 'f \<Rightarrow> ('a \<Rightarrow> 'f + 'b) \<Rightarrow> 'f + 'b" where
  "expect x e k = (case x of None \<Rightarrow> Inl e | Some a \<Rightarrow> k a)"

text \<open>A call into another contract: any failure of the callee traps the caller.\<close>

definition call_ext :: "'f fail + 'a \<Rightarrow> 'e fail + 'a" where
  "call_ext r = (case r of Inl _ \<Rightarrow> Inl CalleeTrapped | Inr a \<Rightarrow> Inr a)"

text \<open>
  \<open>res_simps\<close> turns "this handler returned \<open>Inr\<close>" into the conjunction of the guards
  it passed; every inversion of a handler in the development rests on it.
\<close>

named_theorems res_simps \<open>inversion of handler results\<close>

lemma rbind_Inr [res_simps]: "rbind r k = Inr b \<longleftrightarrow> (\<exists>a. r = Inr a \<and> k a = Inr b)"
  by (auto simp: rbind_def split: sum.splits)

lemma ensure_Inr [res_simps]: "ensure b e k = Inr x \<longleftrightarrow> b \<and> k = Inr x"
  by (simp add: ensure_def)

lemma expect_Inr [res_simps]: "expect v e k = Inr x \<longleftrightarrow> (\<exists>a. v = Some a \<and> k a = Inr x)"
  by (cases v) (auto simp: expect_def)

lemma call_ext_Inr [res_simps]: "call_ext r = Inr x \<longleftrightarrow> r = Inr x"
  by (auto simp: call_ext_def split: sum.splits)

lemma rbind_simps [simp]:
  "rbind (Inr a) k = k a" "rbind (Inl e) k = Inl e"
  by (simp_all add: rbind_def)

lemma ensure_simps [simp]: "ensure True e k = k" "ensure False e k = Inl e"
  by (simp_all add: ensure_def)

lemma expect_simps [simp]: "expect (Some a) e k = k a" "expect None e k = Inl e"
  by (simp_all add: expect_def)

lemma call_ext_simps [simp]: "call_ext (Inr a) = Inr a" "call_ext (Inl e) = Inl CalleeTrapped"
  by (simp_all add: call_ext_def)

text \<open>A stored value read with a default, \<open>storage.get(key).unwrap_or(d)\<close>.\<close>

definition get_or :: "'a \<Rightarrow> 'a option \<Rightarrow> 'a" where
  "get_or d x = (case x of None \<Rightarrow> d | Some a \<Rightarrow> a)"

lemma get_or_simps [simp]: "get_or d None = d" "get_or d (Some a) = a"
  by (simp_all add: get_or_def)


section \<open>Machine integers\<close>

definition i128_min :: int where "i128_min = - (2 ^ 127)"
definition i128_max :: int where "i128_max = 2 ^ 127 - 1"
definition u32_max :: nat where "u32_max = 2 ^ 32 - 1"
definition u64_max :: nat where "u64_max = 2 ^ 64 - 1"

definition in_i128 :: "int \<Rightarrow> bool" where
  "in_i128 x \<longleftrightarrow> i128_min \<le> x \<and> x \<le> i128_max"

text \<open>The Rust standard library's checked and saturating operations on \<open>i128\<close>.\<close>

definition checked_i128 :: "int \<Rightarrow> int option" where
  "checked_i128 x = (if in_i128 x then Some x else None)"

definition sat_i128 :: "int \<Rightarrow> int" where
  "sat_i128 x = max i128_min (min i128_max x)"

text \<open>Rust's \<open>/\<close> truncates towards zero.\<close>

definition trunc_div :: "int \<Rightarrow> int \<Rightarrow> int" where
  "trunc_div a b = sgn a * sgn b * (\<bar>a\<bar> div \<bar>b\<bar>)"

definition checked_div_i128 :: "int \<Rightarrow> int \<Rightarrow> int option" where
  "checked_div_i128 a b = (if b = 0 then None else checked_i128 (trunc_div a b))"

text \<open>Plain arithmetic under \<open>overflow-checks\<close>.\<close>

definition arith_i128 :: "int \<Rightarrow> 'e fail + int" where
  "arith_i128 x = (if in_i128 x then Inr x else Inl Overflow)"

definition checked_u64 :: "nat \<Rightarrow> nat option" where
  "checked_u64 x = (if x \<le> u64_max then Some x else None)"

definition checked_u32 :: "nat \<Rightarrow> nat option" where
  "checked_u32 x = (if x \<le> u32_max then Some x else None)"

definition arith_u64 :: "nat \<Rightarrow> 'e fail + nat" where
  "arith_u64 x = (if x \<le> u64_max then Inr x else Inl Overflow)"

definition arith_u32 :: "nat \<Rightarrow> 'e fail + nat" where
  "arith_u32 x = (if x \<le> u32_max then Inr x else Inl Overflow)"

definition sub_u64 :: "nat \<Rightarrow> nat \<Rightarrow> 'e fail + nat" where
  "sub_u64 a b = (if b \<le> a then Inr (a - b) else Inl Overflow)"

definition sub_u32 :: "nat \<Rightarrow> nat \<Rightarrow> 'e fail + nat" where
  "sub_u32 a b = (if b \<le> a then Inr (a - b) else Inl Overflow)"

definition sat_u64 :: "nat \<Rightarrow> nat" where "sat_u64 x = min u64_max x"
definition sat_u32 :: "nat \<Rightarrow> nat" where "sat_u32 x = min u32_max x"

lemma checked_i128_Some [res_simps]: "checked_i128 x = Some y \<longleftrightarrow> y = x \<and> in_i128 x"
  by (auto simp: checked_i128_def)

lemma arith_i128_Inr [res_simps]: "arith_i128 x = Inr y \<longleftrightarrow> y = x \<and> in_i128 x"
  by (auto simp: arith_i128_def)

lemma checked_u64_Some [res_simps]: "checked_u64 x = Some y \<longleftrightarrow> y = x \<and> x \<le> u64_max"
  by (auto simp: checked_u64_def)

lemma checked_u32_Some [res_simps]: "checked_u32 x = Some y \<longleftrightarrow> y = x \<and> x \<le> u32_max"
  by (auto simp: checked_u32_def)

lemma arith_u64_Inr [res_simps]: "arith_u64 x = Inr y \<longleftrightarrow> y = x \<and> x \<le> u64_max"
  by (auto simp: arith_u64_def)

lemma arith_u32_Inr [res_simps]: "arith_u32 x = Inr y \<longleftrightarrow> y = x \<and> x \<le> u32_max"
  by (auto simp: arith_u32_def)

lemma sub_u64_Inr [res_simps]: "sub_u64 a b = Inr y \<longleftrightarrow> b \<le> a \<and> y = a - b"
  by (auto simp: sub_u64_def)

lemma sub_u32_Inr [res_simps]: "sub_u32 a b = Inr y \<longleftrightarrow> b \<le> a \<and> y = a - b"
  by (auto simp: sub_u32_def)

text \<open>Facts that evaluate the width checks on numerals.\<close>

lemmas width_defs =
  in_i128_def i128_min_def i128_max_def u32_max_def u64_max_def
  checked_i128_def arith_i128_def checked_u64_def arith_u64_def arith_u32_def checked_u32_def
  sub_u64_def sub_u32_def sat_u64_def sat_u32_def sat_i128_def

lemma trunc_div_nonneg: "0 \<le> a \<Longrightarrow> 0 < b \<Longrightarrow> trunc_div a b = a div b"
  by (cases "a = 0") (auto simp: trunc_div_def sgn_if)

lemma checked_div_pos: "0 < b \<Longrightarrow> 0 \<le> a \<Longrightarrow> in_i128 a \<Longrightarrow> checked_div_i128 a b = Some (a div b)"
proof -
  assume b: "0 < b" and a: "0 \<le> a" "in_i128 a"
  have nonneg: "0 \<le> a div b"
    using a b by (simp add: pos_imp_zdiv_nonneg_iff)
  have "a div b \<le> a div 1"
    using a b by (intro zdiv_mono2) auto
  with nonneg have "0 \<le> a div b" and "a div b \<le> a" by simp_all
  then have "in_i128 (a div b)"
    using a by (auto simp: in_i128_def i128_min_def)
  then show ?thesis
    using a b by (simp add: checked_div_i128_def checked_i128_def trunc_div_nonneg)
qed


section \<open>Sums over finite maps\<close>

text \<open>The sum of \<open>f v\<close> over the values \<open>v\<close> a map stores.\<close>

definition wsum :: "('v \<Rightarrow> int) \<Rightarrow> ('k \<rightharpoonup> 'v) \<Rightarrow> int" where
  "wsum f m = (\<Sum>k \<in> dom m. f (the (m k)))"

definition wat :: "('v \<Rightarrow> int) \<Rightarrow> 'v option \<Rightarrow> int" where
  "wat f x = (case x of None \<Rightarrow> 0 | Some v \<Rightarrow> f v)"

lemma wat_simps [simp]: "wat f None = 0" "wat f (Some v) = f v"
  by (simp_all add: wat_def)

lemma wsum_empty [simp]: "wsum f Map.empty = 0"
  by (simp add: wsum_def)

lemma wsum_upd:
  assumes "finite (dom m)"
  shows "wsum f (m(k \<mapsto> v)) = wsum f m - wat f (m k) + f v"
proof -
  have others: "(\<Sum>x \<in> dom m - {k}. f (the ((m(k \<mapsto> v)) x))) = (\<Sum>x \<in> dom m - {k}. f (the (m x)))"
    by (rule sum.cong) auto
  have "wsum f (m(k \<mapsto> v)) = f v + (\<Sum>x \<in> dom m - {k}. f (the (m x)))"
    using assms others by (simp add: wsum_def sum.insert_remove)
  moreover have "wsum f m = wat f (m k) + (\<Sum>x \<in> dom m - {k}. f (the (m x)))"
  proof (cases "m k")
    case None
    then have "dom m - {k} = dom m" by auto
    with None show ?thesis by (simp add: wsum_def)
  next
    case (Some a)
    with assms have "(\<Sum>x \<in> dom m. f (the (m x))) = f a + (\<Sum>x \<in> dom m - {k}. f (the (m x)))"
      using sum.remove [of "dom m" k "\<lambda>x. f (the (m x))"] by auto
    with Some show ?thesis by (simp add: wsum_def)
  qed
  ultimately show ?thesis by simp
qed

lemma wsum_del:
  assumes "finite (dom m)"
  shows "wsum f (m(k := None)) = wsum f m - wat f (m k)"
proof (cases "m k")
  case None
  then have "m(k := None) = m" by auto
  with None show ?thesis by simp
next
  case (Some v)
  then have "m = (m(k := None))(k \<mapsto> v)" by auto
  then have "wsum f m = wsum f (m(k := None)) + f v"
    using wsum_upd [of "m(k := None)" f k v] assms by simp
  with Some show ?thesis by simp
qed

lemma wsum_nonneg:
  assumes "\<And>k v. m k = Some v \<Longrightarrow> 0 \<le> f v"
  shows "0 \<le> wsum f m"
  using assms by (auto simp: wsum_def intro!: sum_nonneg)

lemma wsum_member_le:
  assumes "finite (dom m)" "\<And>k v. m k = Some v \<Longrightarrow> 0 \<le> f v" "m k = Some v"
  shows "f v \<le> wsum f m"
proof -
  have "f (the (m k)) \<le> (\<Sum>x \<in> dom m. f (the (m x)))"
    using assms by (intro member_le_sum) auto
  then show ?thesis using assms by (simp add: wsum_def)
qed

lemma wsum_cong:
  assumes "\<And>k v. m k = Some v \<Longrightarrow> f v = g v"
  shows "wsum f m = wsum g m"
  using assms by (auto simp: wsum_def intro!: sum.cong)

end
