(* ===== verification/SafeMath.thy ===== *)
theory SafeMath
  imports Prelude
begin

text \<open>
  The trait \<open>SafeMath\<close> of \<open>contracts/shared/src/safe_math.rs\<close> for \<open>i128\<close>, \<open>u64\<close>
  and \<open>u32\<close>: checked arithmetic that panics with an error code. The second half relates the
  mathematical integers of the development to two's complement words: the checked operations
  on 128-bit and 64-bit words read as integers are the checked operations used here.
\<close>

section \<open>The trait\<close>

definition safe_add :: "int \<Rightarrow> int \<Rightarrow> 'e fail + int" where
  "safe_add a b = expect (checked_i128 (a + b)) (SharedErr SOverflow) Inr"

definition safe_sub :: "int \<Rightarrow> int \<Rightarrow> 'e fail + int" where
  "safe_sub a b = expect (checked_i128 (a - b)) (SharedErr SUnderflow) Inr"

definition safe_mul :: "int \<Rightarrow> int \<Rightarrow> 'e fail + int" where
  "safe_mul a b = expect (checked_i128 (a * b)) (SharedErr SOverflow) Inr"

definition safe_div :: "int \<Rightarrow> int \<Rightarrow> 'e fail + int" where
  "safe_div a b = expect (checked_div_i128 a b) (SharedErr SDivisionByZero) Inr"

definition safe_add_u64 :: "nat \<Rightarrow> nat \<Rightarrow> 'e fail + nat" where
  "safe_add_u64 a b = expect (checked_u64 (a + b)) (SharedErr SOverflow) Inr"

definition safe_sub_u64 :: "nat \<Rightarrow> nat \<Rightarrow> 'e fail + nat" where
  "safe_sub_u64 a b =
     expect (if b \<le> a then Some (a - b) else None) (SharedErr SUnderflow) Inr"

definition safe_mul_u64 :: "nat \<Rightarrow> nat \<Rightarrow> 'e fail + nat" where
  "safe_mul_u64 a b = expect (checked_u64 (a * b)) (SharedErr SOverflow) Inr"

definition safe_div_u64 :: "nat \<Rightarrow> nat \<Rightarrow> 'e fail + nat" where
  "safe_div_u64 a b =
     expect (if b = 0 then None else Some (a div b)) (SharedErr SDivisionByZero) Inr"

definition safe_add_u32 :: "nat \<Rightarrow> nat \<Rightarrow> 'e fail + nat" where
  "safe_add_u32 a b = expect (checked_u32 (a + b)) (SharedErr SOverflow) Inr"

definition safe_sub_u32 :: "nat \<Rightarrow> nat \<Rightarrow> 'e fail + nat" where
  "safe_sub_u32 a b =
     expect (if b \<le> a then Some (a - b) else None) (SharedErr SUnderflow) Inr"

definition safe_mul_u32 :: "nat \<Rightarrow> nat \<Rightarrow> 'e fail + nat" where
  "safe_mul_u32 a b = expect (checked_u32 (a * b)) (SharedErr SOverflow) Inr"

definition safe_div_u32 :: "nat \<Rightarrow> nat \<Rightarrow> 'e fail + nat" where
  "safe_div_u32 a b =
     expect (if b = 0 then None else Some (a div b)) (SharedErr SDivisionByZero) Inr"

lemma safe_add_Inr [res_simps]: "safe_add a b = Inr c \<longleftrightarrow> c = a + b \<and> in_i128 c"
  by (auto simp: safe_add_def res_simps)

lemma safe_sub_Inr [res_simps]: "safe_sub a b = Inr c \<longleftrightarrow> c = a - b \<and> in_i128 c"
  by (auto simp: safe_sub_def res_simps)

lemma safe_mul_Inr [res_simps]: "safe_mul a b = Inr c \<longleftrightarrow> c = a * b \<and> in_i128 c"
  by (auto simp: safe_mul_def res_simps)

lemma safe_div_Inr [res_simps]: "safe_div a b = Inr c \<longleftrightarrow> checked_div_i128 a b = Some c"
  by (auto simp: safe_div_def res_simps)

lemma safe_div_pos_Inr:
  "0 < b \<Longrightarrow> 0 \<le> a \<Longrightarrow> in_i128 a \<Longrightarrow> safe_div a b = Inr (a div b)"
  by (simp add: safe_div_def checked_div_pos)

lemma safe_add_u64_Inr [res_simps]:
  "safe_add_u64 a b = Inr c \<longleftrightarrow> c = a + b \<and> c \<le> u64_max"
  by (auto simp: safe_add_u64_def res_simps)

lemma safe_add_u32_Inr [res_simps]:
  "safe_add_u32 a b = Inr c \<longleftrightarrow> c = a + b \<and> c \<le> u32_max"
  by (auto simp: safe_add_u32_def res_simps)

lemma safe_mul_u32_Inr [res_simps]:
  "safe_mul_u32 a b = Inr c \<longleftrightarrow> c = a * b \<and> c \<le> u32_max"
  by (auto simp: safe_mul_u32_def res_simps)

lemma safe_div_u32_Inr [res_simps]:
  "safe_div_u32 a b = Inr c \<longleftrightarrow> 0 < b \<and> c = a div b"
  by (auto simp: safe_div_u32_def res_simps)

lemmas safe_math_defs =
  safe_add_def safe_sub_def safe_mul_def safe_div_def
  safe_add_u64_def safe_sub_u64_def safe_mul_u64_def safe_div_u64_def
  safe_add_u32_def safe_sub_u32_def safe_mul_u32_def safe_div_u32_def

section \<open>Agreement with machine words\<close>

text \<open>
  Rust's \<open>checked_add\<close> returns the wrapped sum unless the overflow flag is set, that is,
  unless the wrapped result read as a signed number differs from the exact one.
\<close>

definition w_checked :: "int \<Rightarrow> 128 word \<Rightarrow> 128 word option" where
  "w_checked exact c = (if sint c = exact then Some c else None)"

definition w_safe_add :: "128 word \<Rightarrow> 128 word \<Rightarrow> 'e fail + 128 word" where
  "w_safe_add a b = expect (w_checked (sint a + sint b) (a + b)) (SharedErr SOverflow) Inr"

definition w_safe_sub :: "128 word \<Rightarrow> 128 word \<Rightarrow> 'e fail + 128 word" where
  "w_safe_sub a b = expect (w_checked (sint a - sint b) (a - b)) (SharedErr SUnderflow) Inr"

definition w_safe_mul :: "128 word \<Rightarrow> 128 word \<Rightarrow> 'e fail + 128 word" where
  "w_safe_mul a b = expect (w_checked (sint a * sint b) (a * b)) (SharedErr SOverflow) Inr"

definition w_safe_add_u64 :: "64 word \<Rightarrow> 64 word \<Rightarrow> 'e fail + 64 word" where
  "w_safe_add_u64 a b = (if a \<le> a + b then Inr (a + b) else Inl (SharedErr SOverflow))"

definition w_safe_sub_u64 :: "64 word \<Rightarrow> 64 word \<Rightarrow> 'e fail + 64 word" where
  "w_safe_sub_u64 a b = (if b \<le> a then Inr (a - b) else Inl (SharedErr SUnderflow))"

text \<open>Reading a word result as an integer result.\<close>

definition read_res :: "('w \<Rightarrow> 'i) \<Rightarrow> 'f + 'w \<Rightarrow> 'f + 'i" where
  "read_res f r = (case r of Inl e \<Rightarrow> Inl e | Inr w \<Rightarrow> Inr (f w))"

lemma read_res_simps [simp]:
  "read_res f (Inl e) = Inl e" "read_res f (Inr w) = Inr (f w)"
  by (simp_all add: read_res_def)

lemma w_checked_read:
  assumes "sint c = signed_take_bit 127 x"
  shows "map_option sint (w_checked x c) = checked_i128 x"
proof -
  have "sint c = x \<longleftrightarrow> in_i128 x"
    using assms by (auto simp: in_i128_def i128_min_def i128_max_def signed_take_bit_int_eq_self_iff)
  then show ?thesis by (auto simp: w_checked_def checked_i128_def)
qed

lemma sint_wrap_arith:
  "sint (a + b :: 128 word) = signed_take_bit 127 (sint a + sint b)"
  "sint (a - b :: 128 word) = signed_take_bit 127 (sint a - sint b)"
  "sint (a * b :: 128 word) = signed_take_bit 127 (sint a * sint b)"
  by (simp_all add: sint_word_ariths)

lemma expect_read:
  assumes "map_option f x = y"
  shows "read_res f (expect x e Inr) = expect y e Inr"
  using assms by (cases x) auto

text \<open>
  The trait implementation on 128-bit two's complement words, read as integers, is
  exactly the integer model the development uses: same value, same error, for addition,
  subtraction and multiplication.
\<close>

theorem safe_math_refines_words:
  "read_res sint (w_safe_add a b) = (safe_add (sint a) (sint b) :: 'e fail + int) \<and>
   read_res sint (w_safe_sub a b) = (safe_sub (sint a) (sint b) :: 'e fail + int) \<and>
   read_res sint (w_safe_mul a b) = (safe_mul (sint a) (sint b) :: 'e fail + int)"
  unfolding w_safe_add_def w_safe_sub_def w_safe_mul_def safe_add_def safe_sub_def safe_mul_def
  by (intro conjI expect_read w_checked_read sint_wrap_arith)

lemma u64_add_carry: "(a :: 64 word) \<le> a + b \<longleftrightarrow> unat a + unat b \<le> u64_max"
proof -
  have "(a :: 64 word) \<le> a + b \<longleftrightarrow> unat a + unat b < 2 ^ 64"
    using no_olen_add_nat [of a b] by simp
  then show ?thesis by (auto simp: u64_max_def)
qed

lemma safe_math_refines_u64_words:
  "read_res unat (w_safe_add_u64 a b) = (safe_add_u64 (unat a) (unat b) :: 'e fail + nat) \<and>
   read_res unat (w_safe_sub_u64 a b) = (safe_sub_u64 (unat a) (unat b) :: 'e fail + nat)"
proof
  show "read_res unat (w_safe_add_u64 a b) = (safe_add_u64 (unat a) (unat b) :: 'e fail + nat)"
  proof (cases "unat a + unat b \<le> u64_max")
    case True
    then have "unat (a + b) = unat a + unat b"
      by (intro unat_add_lem [THEN iffD1]) (simp add: u64_max_def)
    with True show ?thesis
      by (simp add: w_safe_add_u64_def u64_add_carry safe_add_u64_def checked_u64_def)
  next
    case False
    then show ?thesis
      by (simp add: w_safe_add_u64_def u64_add_carry safe_add_u64_def checked_u64_def)
  qed
  show "read_res unat (w_safe_sub_u64 a b) = (safe_sub_u64 (unat a) (unat b) :: 'e fail + nat)"
    by (auto simp: w_safe_sub_u64_def safe_sub_u64_def word_le_nat_alt unat_sub)
qed

end
