(* ===== verification/MntToken.thy ===== *)
theory MntToken
  imports SafeMath
begin

text \<open>
  The MNT token, \<open>contracts/mnt-token/src/lib.rs\<close>: storage, every entry point in the order
  of the source, the invariant of the token, and how far the sum of the balances can drift from
  the recorded supply. Events are not modelled: nothing in the contract reads them.
\<close>

section \<open>Storage\<close>

text \<open>One field for each constructor of \<open>DataKey\<close>; a map for those with an argument.\<close>

record token_metadata =
  md_decimal :: nat
  md_name :: string
  md_symbol :: string

record mnt =
  m_admin :: "addr option"
  m_metadata :: "token_metadata option"
  m_supply :: "int option"
  m_bal :: "addr \<rightharpoonup> int"
  m_allow :: "addr \<times> addr \<rightharpoonup> int"
  m_guardian :: "addr option"
  m_paused :: "bool option"

definition mnt_empty :: mnt where
  "mnt_empty = \<lparr>m_admin = None, m_metadata = None, m_supply = None, m_bal = Map.empty,
     m_allow = Map.empty, m_guardian = None, m_paused = None\<rparr>"

type_synonym 'a mnt_res = "unit fail + 'a"

definition SUPPLY_CAP :: int where "SUPPLY_CAP = 100000000 * 10000000"

section \<open>Entry points\<close>

definition mnt_initialize :: "env \<Rightarrow> addr \<Rightarrow> mnt \<Rightarrow> mnt mnt_res" where
  "mnt_initialize env admin s =
    ensure (m_admin s = None) (Panic ''Already initialized'')
      (Inr (s\<lparr>m_admin := Some admin,
              m_metadata := Some \<lparr>md_decimal = 7, md_name = ''MentorMinds Token'', md_symbol = ''MNT''\<rparr>,
              m_supply := Some 0\<rparr>))"

definition mnt_balance :: "addr \<Rightarrow> mnt \<Rightarrow> int" where
  "mnt_balance a s = get_or 0 (m_bal s a)"

definition mnt_allowance :: "addr \<Rightarrow> addr \<Rightarrow> mnt \<Rightarrow> int" where
  "mnt_allowance from spender s = get_or 0 (m_allow s (from, spender))"

definition mnt_total_supply :: "mnt \<Rightarrow> int" where
  "mnt_total_supply s = get_or 0 (m_supply s)"

definition mnt_is_paused :: "mnt \<Rightarrow> bool" where
  "mnt_is_paused s = get_or False (m_paused s)"

definition mnt_get_pause_guardian :: "mnt \<Rightarrow> addr option" where
  "mnt_get_pause_guardian s = m_guardian s"

definition mnt_require_admin :: "env \<Rightarrow> addr \<Rightarrow> mnt \<Rightarrow> unit mnt_res" where
  "mnt_require_admin env admin s =
    expect (m_admin s) (Panic ''Not initialized'') (\<lambda>stored.
    ensure (admin = stored) (Panic ''Unauthorized'') (
    ensure (auth_by env admin) AuthDenied (Inr ())))"

definition mnt_require_pause_guardian :: "env \<Rightarrow> addr \<Rightarrow> mnt \<Rightarrow> unit mnt_res" where
  "mnt_require_pause_guardian env guardian s =
    expect (m_guardian s) (Panic ''Pause guardian not set'') (\<lambda>stored.
    ensure (guardian = stored) (Panic ''Unauthorized'') (
    ensure (auth_by env guardian) AuthDenied (Inr ())))"

definition mnt_require_not_paused :: "mnt \<Rightarrow> unit mnt_res" where
  "mnt_require_not_paused s = ensure (\<not> mnt_is_paused s) (Panic ''Contract is paused'') (Inr ())"

definition mnt_mint :: "env \<Rightarrow> addr \<Rightarrow> int \<Rightarrow> mnt \<Rightarrow> mnt mnt_res" where
  "mnt_mint env to amount s =
    expect (m_admin s) (Panic ''Not initialized'') (\<lambda>admin.
    ensure (auth_by env admin) AuthDenied (
    rbind (mnt_require_not_paused s) (\<lambda>_.
    ensure (0 < amount) (Panic ''Amount must be positive'') (
    let total_supply = get_or 0 (m_supply s) in
    expect (checked_i128 (total_supply + amount)) (Panic ''Overflow'') (\<lambda>new_total_supply.
    ensure (new_total_supply \<le> SUPPLY_CAP) (Panic ''Supply cap exceeded'') (
    let balance = mnt_balance to s in
    rbind (arith_i128 (balance + amount)) (\<lambda>new_balance.
    Inr (s\<lparr>m_bal := (m_bal s)(to \<mapsto> new_balance), m_supply := Some new_total_supply\<rparr>))))))))"

definition mnt_do_burn :: "env \<Rightarrow> addr \<Rightarrow> int \<Rightarrow> mnt \<Rightarrow> mnt mnt_res" where
  "mnt_do_burn env from amount s =
    ensure (auth_by env from) AuthDenied (
    rbind (mnt_require_not_paused s) (\<lambda>_.
    ensure (0 < amount) (Panic ''Amount must be positive'') (
    let balance = mnt_balance from s in
    ensure (amount \<le> balance) (Panic ''Insufficient balance'') (
    let total_supply = mnt_total_supply s in
    rbind (arith_i128 (balance - amount)) (\<lambda>new_balance.
    rbind (arith_i128 (total_supply - amount)) (\<lambda>new_supply.
    Inr (s\<lparr>m_bal := (m_bal s)(from \<mapsto> new_balance), m_supply := Some new_supply\<rparr>)))))))"

definition mnt_set_pause_guardian :: "env \<Rightarrow> addr \<Rightarrow> addr \<Rightarrow> mnt \<Rightarrow> mnt mnt_res" where
  "mnt_set_pause_guardian env admin guardian s =
    rbind (mnt_require_admin env admin s) (\<lambda>_. Inr (s\<lparr>m_guardian := Some guardian\<rparr>))"

definition mnt_pause :: "env \<Rightarrow> addr \<Rightarrow> mnt \<Rightarrow> mnt mnt_res" where
  "mnt_pause env guardian s =
    rbind (mnt_require_pause_guardian env guardian s) (\<lambda>_. Inr (s\<lparr>m_paused := Some True\<rparr>))"

definition mnt_unpause :: "env \<Rightarrow> addr \<Rightarrow> mnt \<Rightarrow> mnt mnt_res" where
  "mnt_unpause env guardian s =
    rbind (mnt_require_pause_guardian env guardian s) (\<lambda>_. Inr (s\<lparr>m_paused := Some False\<rparr>))"

definition mnt_approve :: "env \<Rightarrow> addr \<Rightarrow> addr \<Rightarrow> int \<Rightarrow> mnt \<Rightarrow> mnt mnt_res" where
  "mnt_approve env from spender amount s =
    ensure (auth_by env from) AuthDenied (
    ensure (0 \<le> amount) (Panic ''Amount must be non-negative'') (
    Inr (s\<lparr>m_allow := (m_allow s)((from, spender) \<mapsto> amount)\<rparr>)))"

text \<open>
  Both balances are read before either is written, and the recipient's is written last.
\<close>

definition mnt_transfer :: "env \<Rightarrow> addr \<Rightarrow> addr \<Rightarrow> int \<Rightarrow> mnt \<Rightarrow> mnt mnt_res" where
  "mnt_transfer env from to amount s =
    ensure (auth_by env from) AuthDenied (
    rbind (mnt_require_not_paused s) (\<lambda>_.
    ensure (0 < amount) (Panic ''Amount must be positive'') (
    let from_balance = mnt_balance from s in
    ensure (amount \<le> from_balance) (Panic ''Insufficient balance'') (
    let to_balance = mnt_balance to s in
    rbind (arith_i128 (from_balance - amount)) (\<lambda>new_from.
    let s1 = s\<lparr>m_bal := (m_bal s)(from \<mapsto> new_from)\<rparr> in
    rbind (arith_i128 (to_balance + amount)) (\<lambda>new_to.
    Inr (s1\<lparr>m_bal := (m_bal s1)(to \<mapsto> new_to)\<rparr>)))))))"

definition mnt_transfer_from :: "env \<Rightarrow> addr \<Rightarrow> addr \<Rightarrow> addr \<Rightarrow> int \<Rightarrow> mnt \<Rightarrow> mnt mnt_res" where
  "mnt_transfer_from env spender from to amount s =
    ensure (auth_by env spender) AuthDenied (
    rbind (mnt_require_not_paused s) (\<lambda>_.
    ensure (0 < amount) (Panic ''Amount must be positive'') (
    let allowance = mnt_allowance from spender s in
    ensure (amount \<le> allowance) (Panic ''Insufficient allowance'') (
    let from_balance = mnt_balance from s in
    ensure (amount \<le> from_balance) (Panic ''Insufficient balance'') (
    let to_balance = mnt_balance to s in
    rbind (arith_i128 (allowance - amount)) (\<lambda>new_allowance.
    let s1 = s\<lparr>m_allow := (m_allow s)((from, spender) \<mapsto> new_allowance)\<rparr> in
    rbind (arith_i128 (from_balance - amount)) (\<lambda>new_from.
    let s2 = s1\<lparr>m_bal := (m_bal s1)(from \<mapsto> new_from)\<rparr> in
    rbind (arith_i128 (to_balance + amount)) (\<lambda>new_to.
    Inr (s2\<lparr>m_bal := (m_bal s2)(to \<mapsto> new_to)\<rparr>)))))))))"

definition mnt_burn :: "env \<Rightarrow> addr \<Rightarrow> int \<Rightarrow> mnt \<Rightarrow> mnt mnt_res" where
  "mnt_burn env from amount s = mnt_do_burn env from amount s"

definition mnt_burn_from :: "env \<Rightarrow> addr \<Rightarrow> addr \<Rightarrow> int \<Rightarrow> mnt \<Rightarrow> mnt mnt_res" where
  "mnt_burn_from env spender from amount s =
    ensure (auth_by env spender) AuthDenied (
    rbind (mnt_require_not_paused s) (\<lambda>_.
    ensure (0 < amount) (Panic ''Amount must be positive'') (
    let allowance = mnt_allowance from spender s in
    ensure (amount \<le> allowance) (Panic ''Insufficient allowance'') (
    let from_balance = mnt_balance from s in
    ensure (amount \<le> from_balance) (Panic ''Insufficient balance'') (
    let total_supply = get_or 0 (m_supply s) in
    rbind (arith_i128 (allowance - amount)) (\<lambda>new_allowance.
    rbind (arith_i128 (from_balance - amount)) (\<lambda>new_from.
    rbind (arith_i128 (total_supply - amount)) (\<lambda>new_supply.
    Inr (s\<lparr>m_allow := (m_allow s)((from, spender) \<mapsto> new_allowance),
            m_bal := (m_bal s)(from \<mapsto> new_from), m_supply := Some new_supply\<rparr>)))))))))"

definition mnt_decimals :: nat where "mnt_decimals = 7"

definition mnt_name :: "mnt \<Rightarrow> string mnt_res" where
  "mnt_name s = expect (m_metadata s) (Panic ''Not initialized'') (\<lambda>m. Inr (md_name m))"

definition mnt_symbol :: "mnt \<Rightarrow> string mnt_res" where
  "mnt_symbol s = expect (m_metadata s) (Panic ''Not initialized'') (\<lambda>m. Inr (md_symbol m))"


section \<open>What a successful call has done\<close>

lemma mnt_require_not_paused_Inr [res_simps]:
  "mnt_require_not_paused s = Inr u \<longleftrightarrow> \<not> mnt_is_paused s"
  by (simp add: mnt_require_not_paused_def res_simps)

lemma mnt_require_admin_Inr [res_simps]:
  "mnt_require_admin env a s = Inr u \<longleftrightarrow> m_admin s = Some a \<and> auth_by env a"
  by (auto simp: mnt_require_admin_def res_simps)

lemma mnt_require_pause_guardian_Inr [res_simps]:
  "mnt_require_pause_guardian env g s = Inr u \<longleftrightarrow> m_guardian s = Some g \<and> auth_by env g"
  by (auto simp: mnt_require_pause_guardian_def res_simps)

lemma mnt_mint_Inr:
  "mnt_mint env to amt s = Inr s' \<longleftrightarrow>
    (\<exists>a. m_admin s = Some a \<and> auth_by env a) \<and> \<not> mnt_is_paused s \<and> 0 < amt \<and>
    in_i128 (mnt_total_supply s + amt) \<and> mnt_total_supply s + amt \<le> SUPPLY_CAP \<and>
    in_i128 (mnt_balance to s + amt) \<and>
    s' = s\<lparr>m_bal := (m_bal s)(to \<mapsto> mnt_balance to s + amt),
           m_supply := Some (mnt_total_supply s + amt)\<rparr>"
  by (auto simp: mnt_mint_def mnt_total_supply_def res_simps Let_def)

lemma mnt_burn_Inr:
  "mnt_burn env from amt s = Inr s' \<longleftrightarrow>
    auth_by env from \<and> \<not> mnt_is_paused s \<and> 0 < amt \<and> amt \<le> mnt_balance from s \<and>
    in_i128 (mnt_balance from s - amt) \<and> in_i128 (mnt_total_supply s - amt) \<and>
    s' = s\<lparr>m_bal := (m_bal s)(from \<mapsto> mnt_balance from s - amt),
           m_supply := Some (mnt_total_supply s - amt)\<rparr>"
  by (auto simp: mnt_burn_def mnt_do_burn_def res_simps Let_def)

lemma mnt_transfer_Inr:
  "mnt_transfer env from to amt s = Inr s' \<longleftrightarrow>
    auth_by env from \<and> \<not> mnt_is_paused s \<and> 0 < amt \<and> amt \<le> mnt_balance from s \<and>
    in_i128 (mnt_balance from s - amt) \<and> in_i128 (mnt_balance to s + amt) \<and>
    s' = s\<lparr>m_bal := (m_bal s)(from \<mapsto> mnt_balance from s - amt, to \<mapsto> mnt_balance to s + amt)\<rparr>"
  by (auto simp: mnt_transfer_def res_simps Let_def)

lemma mnt_transfer_from_Inr:
  "mnt_transfer_from env sp from to amt s = Inr s' \<longleftrightarrow>
    auth_by env sp \<and> \<not> mnt_is_paused s \<and> 0 < amt \<and> amt \<le> mnt_allowance from sp s \<and>
    amt \<le> mnt_balance from s \<and> in_i128 (mnt_allowance from sp s - amt) \<and>
    in_i128 (mnt_balance from s - amt) \<and> in_i128 (mnt_balance to s + amt) \<and>
    s' = s\<lparr>m_allow := (m_allow s)((from, sp) \<mapsto> mnt_allowance from sp s - amt),
           m_bal := (m_bal s)(from \<mapsto> mnt_balance from s - amt, to \<mapsto> mnt_balance to s + amt)\<rparr>"
  by (auto simp: mnt_transfer_from_def res_simps Let_def)

lemma mnt_burn_from_Inr:
  "mnt_burn_from env sp from amt s = Inr s' \<longleftrightarrow>
    auth_by env sp \<and> \<not> mnt_is_paused s \<and> 0 < amt \<and> amt \<le> mnt_allowance from sp s \<and>
    amt \<le> mnt_balance from s \<and> in_i128 (mnt_allowance from sp s - amt) \<and>
    in_i128 (mnt_balance from s - amt) \<and> in_i128 (mnt_total_supply s - amt) \<and>
    s' = s\<lparr>m_allow := (m_allow s)((from, sp) \<mapsto> mnt_allowance from sp s - amt),
           m_bal := (m_bal s)(from \<mapsto> mnt_balance from s - amt),
           m_supply := Some (mnt_total_supply s - amt)\<rparr>"
  by (auto simp: mnt_burn_from_def mnt_total_supply_def res_simps Let_def)


section \<open>Calls, executions, the invariant\<close>

datatype mnt_call =
    MInit addr
  | MMint addr int
  | MBurn addr int
  | MBurnFrom addr addr addr int
  | MTransfer addr addr int
  | MTransferFrom addr addr addr int
  | MApprove addr addr int
  | MSetGuardian addr addr
  | MPause addr
  | MUnpause addr

fun mnt_exec :: "env \<Rightarrow> mnt_call \<Rightarrow> mnt \<Rightarrow> mnt mnt_res" where
  "mnt_exec env (MInit a) s = mnt_initialize env a s"
| "mnt_exec env (MMint to amt) s = mnt_mint env to amt s"
| "mnt_exec env (MBurn from amt) s = mnt_burn env from amt s"
| "mnt_exec env (MBurnFrom sp from _ amt) s = mnt_burn_from env sp from amt s"
| "mnt_exec env (MTransfer from to amt) s = mnt_transfer env from to amt s"
| "mnt_exec env (MTransferFrom sp from to amt) s = mnt_transfer_from env sp from to amt s"
| "mnt_exec env (MApprove from sp amt) s = mnt_approve env from sp amt s"
| "mnt_exec env (MSetGuardian a g) s = mnt_set_pause_guardian env a g s"
| "mnt_exec env (MPause g) s = mnt_pause env g s"
| "mnt_exec env (MUnpause g) s = mnt_unpause env g s"

text \<open>
  \<open>mnt_run cs s s'\<close>: the successful calls \<open>cs\<close>, each in its own environment, lead from
  \<open>s\<close> to \<open>s'\<close>. Failed calls are rolled back and leave no trace.
\<close>

inductive mnt_run :: "(env \<times> mnt_call) list \<Rightarrow> mnt \<Rightarrow> mnt \<Rightarrow> bool" where
  mnt_run_nil: "mnt_run [] s s"
| mnt_run_step:
    "mnt_run cs s s' \<Longrightarrow> mnt_exec env c s' = Inr s'' \<Longrightarrow> mnt_run (cs @ [(env, c)]) s s''"

inductive_cases mnt_run_nilE: "mnt_run [] s s'"

text \<open>The amount a call moves from an account to itself.\<close>

fun self_moved :: "mnt_call \<Rightarrow> int" where
  "self_moved (MTransfer from to amt) = (if from = to then amt else 0)"
| "self_moved (MTransferFrom sp from to amt) = (if from = to then amt else 0)"
| "self_moved _ = 0"

definition mnt_circulating :: "mnt \<Rightarrow> int" where
  "mnt_circulating s = wsum id (m_bal s)"

definition mnt_drift :: "mnt \<Rightarrow> int" where
  "mnt_drift s = mnt_circulating s - mnt_total_supply s"

definition mnt_inv :: "mnt \<Rightarrow> bool" where
  "mnt_inv s \<longleftrightarrow>
    finite (dom (m_bal s)) \<and>
    (\<forall>a v. m_bal s a = Some v \<longrightarrow> 0 \<le> v) \<and>
    (\<forall>k v. m_allow s k = Some v \<longrightarrow> 0 \<le> v) \<and>
    mnt_total_supply s \<le> SUPPLY_CAP \<and>
    (m_admin s = None \<longrightarrow> m_bal s = Map.empty \<and> m_supply s = None)"

lemma mnt_inv_empty [simp]: "mnt_inv mnt_empty"
  by (simp add: mnt_inv_def mnt_empty_def mnt_total_supply_def SUPPLY_CAP_def)

lemma mnt_balance_nonneg: "mnt_inv s \<Longrightarrow> 0 \<le> mnt_balance a s"
  by (cases "m_bal s a") (auto simp: mnt_inv_def mnt_balance_def)

lemma mnt_no_admin_no_balance: "mnt_inv s \<Longrightarrow> m_admin s = None \<Longrightarrow> mnt_balance a s = 0"
  by (simp add: mnt_inv_def mnt_balance_def)

lemma mnt_positive_admin: "mnt_inv s \<Longrightarrow> 0 < amt \<Longrightarrow> amt \<le> mnt_balance a s \<Longrightarrow> \<exists>adm. m_admin s = Some adm"
  using mnt_no_admin_no_balance [of s a] by (cases "m_admin s") auto

lemma wat_balance: "wat id (m_bal s a) = mnt_balance a s"
  by (cases "m_bal s a") (simp_all add: mnt_balance_def)

text \<open>Writing one balance moves the circulating amount by the difference.\<close>

lemma circulating_upd:
  "finite (dom (m_bal s)) \<Longrightarrow>
   wsum id ((m_bal s)(a \<mapsto> v)) = mnt_circulating s - mnt_balance a s + v"
  by (simp add: wsum_upd wat_balance mnt_circulating_def)

lemma circulating_move:
  assumes "finite (dom (m_bal s))"
  shows "wsum id ((m_bal s)(from \<mapsto> mnt_balance from s - amt, to \<mapsto> mnt_balance to s + amt)) =
    mnt_circulating s + (if from = to then amt else 0)"
proof (cases "from = to")
  case True
  then show ?thesis by (simp add: circulating_upd assms)
next
  case False
  then have "wat id (((m_bal s)(from \<mapsto> mnt_balance from s - amt)) to) = mnt_balance to s"
    by (simp add: wat_balance)
  then show ?thesis
    using False assms by (simp add: wsum_upd wat_balance mnt_circulating_def)
qed

text \<open>Every call preserves the invariant, shown operation by operation.\<close>

lemma mnt_initialize_inv:
  "mnt_inv s \<Longrightarrow> mnt_initialize env a s = Inr s' \<Longrightarrow> mnt_inv s' \<and> mnt_drift s' = mnt_drift s"
  by (auto simp: mnt_initialize_def res_simps mnt_inv_def mnt_total_supply_def mnt_drift_def
      mnt_circulating_def SUPPLY_CAP_def)

lemma mnt_mint_inv:
  assumes "mnt_inv s" "mnt_mint env to amt s = Inr s'"
  shows "mnt_inv s' \<and> mnt_drift s' = mnt_drift s"
  using assms mnt_balance_nonneg [OF assms(1), of to]
  by (auto simp: mnt_mint_Inr mnt_inv_def mnt_drift_def mnt_total_supply_def mnt_circulating_def
      wsum_upd wat_balance)

lemma mnt_burn_inv:
  assumes "mnt_inv s" "mnt_burn env from amt s = Inr s'"
  shows "mnt_inv s' \<and> mnt_drift s' = mnt_drift s"
  using assms mnt_positive_admin [OF assms(1), of amt "from"]
  by (auto simp: mnt_burn_Inr mnt_inv_def mnt_drift_def mnt_total_supply_def mnt_circulating_def
      wsum_upd wat_balance)

lemma mnt_burn_from_inv:
  assumes "mnt_inv s" "mnt_burn_from env sp from amt s = Inr s'"
  shows "mnt_inv s' \<and> mnt_drift s' = mnt_drift s"
  using assms mnt_positive_admin [OF assms(1), of amt "from"]
  by (auto simp: mnt_burn_from_Inr mnt_inv_def mnt_drift_def mnt_total_supply_def
      mnt_circulating_def wsum_upd wat_balance)

lemma mnt_transfer_inv:
  assumes "mnt_inv s" "mnt_transfer env from to amt s = Inr s'"
  shows "mnt_inv s' \<and> mnt_drift s' = mnt_drift s + (if from = to then amt else 0)"
proof -
  have "finite (dom (m_bal s))" using assms(1) by (simp add: mnt_inv_def)
  note move = circulating_move [OF this, of "from" amt to]
  then show ?thesis
    using assms mnt_positive_admin [OF assms(1), of amt "from"] mnt_balance_nonneg [OF assms(1), of to]
    by (auto simp: mnt_transfer_Inr mnt_inv_def mnt_drift_def mnt_total_supply_def
        mnt_circulating_def)
qed

lemma mnt_transfer_from_inv:
  assumes "mnt_inv s" "mnt_transfer_from env sp from to amt s = Inr s'"
  shows "mnt_inv s' \<and> mnt_drift s' = mnt_drift s + (if from = to then amt else 0)"
proof -
  have "finite (dom (m_bal s))" using assms(1) by (simp add: mnt_inv_def)
  note move = circulating_move [OF this, of "from" amt to]
  then show ?thesis
    using assms mnt_positive_admin [OF assms(1), of amt "from"] mnt_balance_nonneg [OF assms(1), of to]
    by (auto simp: mnt_transfer_from_Inr mnt_inv_def mnt_drift_def mnt_total_supply_def
        mnt_circulating_def)
qed

lemma mnt_admin_ops_inv:
  "mnt_inv s \<Longrightarrow> mnt_approve env a b amt s = Inr s' \<Longrightarrow> mnt_inv s' \<and> mnt_drift s' = mnt_drift s"
  "mnt_inv s \<Longrightarrow> mnt_set_pause_guardian env a b s = Inr s' \<Longrightarrow> mnt_inv s' \<and> mnt_drift s' = mnt_drift s"
  "mnt_inv s \<Longrightarrow> mnt_pause env a s = Inr s' \<Longrightarrow> mnt_inv s' \<and> mnt_drift s' = mnt_drift s"
  "mnt_inv s \<Longrightarrow> mnt_unpause env a s = Inr s' \<Longrightarrow> mnt_inv s' \<and> mnt_drift s' = mnt_drift s"
  by (auto simp: mnt_approve_def mnt_set_pause_guardian_def mnt_pause_def mnt_unpause_def res_simps
      mnt_inv_def mnt_drift_def mnt_total_supply_def mnt_circulating_def split: if_splits)

lemma mnt_exec_inv:
  assumes "mnt_inv s" "mnt_exec env c s = Inr s'"
  shows "mnt_inv s' \<and> mnt_drift s' = mnt_drift s + self_moved c"
  using assms
  by (cases c)
    (auto dest: mnt_initialize_inv mnt_mint_inv mnt_burn_inv mnt_burn_from_inv mnt_transfer_inv
      mnt_transfer_from_inv mnt_admin_ops_inv split: if_splits)

lemma mnt_run_inv:
  assumes "mnt_run cs s s'" "mnt_inv s"
  shows "mnt_inv s' \<and> mnt_drift s' = mnt_drift s + (\<Sum>c \<leftarrow> cs. self_moved (snd c))"
  using assms by (induction rule: mnt_run.induct) (auto dest: mnt_exec_inv)

text \<open>A run in executable form, used to build witnesses.\<close>

fun mnt_exec_all :: "(env \<times> mnt_call) list \<Rightarrow> mnt \<Rightarrow> mnt mnt_res" where
  "mnt_exec_all [] s = Inr s"
| "mnt_exec_all ((env, c) # cs) s = rbind (mnt_exec env c s) (\<lambda>s'. mnt_exec_all cs s')"

lemma mnt_run_append: "mnt_run cs' s' s'' \<Longrightarrow> mnt_run cs s s' \<Longrightarrow> mnt_run (cs @ cs') s s''"
proof (induction rule: mnt_run.induct)
  case (mnt_run_step cs' s' s'' env c s3)
  then have "mnt_run (cs @ cs') s s''" by blast
  from mnt_run.mnt_run_step [OF this mnt_run_step.hyps(2)] show ?case by simp
qed simp

lemma mnt_exec_all_run: "mnt_exec_all cs s = Inr s' \<Longrightarrow> mnt_run cs s s'"
proof (induction cs s rule: mnt_exec_all.induct)
  case (1 s)
  then show ?case by (simp add: mnt_run_nil)
next
  case (2 env c cs st)
  then obtain s1 where s1: "mnt_exec env c st = Inr s1" "mnt_exec_all cs s1 = Inr s'"
    by (auto simp: res_simps)
  have "mnt_run [(env, c)] st s1"
    using mnt_run_step [OF mnt_run_nil s1(1)] by simp
  from mnt_run_append [OF "2.IH" [OF s1(2)] this] show ?case by simp
qed


section \<open>Properties of the token\<close>

text \<open>
  Balances against the recorded supply. After any sequence of successful calls on a fresh token, the sum of
  all balances exceeds the recorded total supply by exactly the total amount that accounts
  transferred to themselves: \<open>transfer\<close> and \<open>transfer_from\<close> read both balances before they
  write, so a transfer from an account to itself creates the amount. All other calls keep the
  two in step.
\<close>

theorem mnt_drift_exact:
  assumes "mnt_run cs mnt_empty s"
  shows "mnt_circulating s = mnt_total_supply s + (\<Sum>c \<leftarrow> cs. self_moved (snd c))"
  using mnt_run_inv [OF assms mnt_inv_empty]
  by (simp add: mnt_drift_def mnt_empty_def mnt_circulating_def mnt_total_supply_def)

definition mint_script :: "(env \<times> mnt_call) list" where
  "mint_script = [(demo_env 0 [], MInit 1), (demo_env 0 [1], MMint 2 500),
     (demo_env 0 [2], MTransfer 2 3 200), (demo_env 0 [2], MTransfer 2 2 100)]"

definition mint_result :: mnt where
  "mint_result = \<lparr>m_admin = Some 1,
     m_metadata = Some \<lparr>md_decimal = 7, md_name = ''MentorMinds Token'', md_symbol = ''MNT''\<rparr>,
     m_supply = Some 500, m_bal = [2 \<mapsto> 400, 3 \<mapsto> 200], m_allow = Map.empty,
     m_guardian = None, m_paused = None\<rparr>"

lemma mint_script_runs: "mnt_exec_all mint_script mnt_empty = Inr mint_result"
  by (simp add: mint_script_def mint_result_def mnt_empty_def mnt_initialize_def mnt_mint_def
      mnt_transfer_def mnt_require_not_paused_def mnt_is_paused_def mnt_balance_def SUPPLY_CAP_def
      width_defs Let_def fun_upd_twist)

lemma mint_script_run: "mnt_run mint_script mnt_empty mint_result"
  by (rule mnt_exec_all_run [OF mint_script_runs])

theorem mnt_drift_exact_witness:
  "mnt_circulating mint_result = 600 \<and> mnt_total_supply mint_result = 500"
  using mnt_drift_exact [OF mint_script_run]
  by (simp add: mint_script_def) (simp add: mint_result_def mnt_total_supply_def)

text \<open>
  C38. Supply cap and conservation. As long as nobody transfers to their own account, the recorded supply is the sum
  of all balances, every balance is non-negative, and supply and balances stay within the cap
  of 100 million MNT.
\<close>

theorem mnt_supply_conserved:
  assumes "mnt_run cs mnt_empty s" "\<forall>c \<in> set cs. self_moved (snd c) = 0"
  shows "mnt_circulating s = mnt_total_supply s \<and> 0 \<le> mnt_total_supply s \<and>
    mnt_total_supply s \<le> SUPPLY_CAP \<and> 0 \<le> mnt_balance a s \<and> mnt_balance a s \<le> SUPPLY_CAP"
proof -
  have inv: "mnt_inv s" and "mnt_drift s = mnt_drift mnt_empty + (\<Sum>c \<leftarrow> cs. self_moved (snd c))"
    using mnt_run_inv [OF assms(1) mnt_inv_empty] by simp_all
  moreover have "(\<Sum>c \<leftarrow> cs. self_moved (snd c)) = 0"
    using assms(2) by (induction cs) auto
  ultimately have eq: "mnt_circulating s = mnt_total_supply s"
    by (simp add: mnt_drift_def mnt_empty_def mnt_circulating_def mnt_total_supply_def)
  have nonneg: "\<And>a v. m_bal s a = Some v \<Longrightarrow> 0 \<le> id v" and fin: "finite (dom (m_bal s))"
    using inv by (auto simp: mnt_inv_def)
  have "mnt_balance a s \<le> mnt_circulating s"
    using wsum_member_le [where f = id and k = a, OF fin nonneg] wsum_nonneg [of "m_bal s" id] nonneg
    by (cases "m_bal s a") (auto simp: mnt_balance_def mnt_circulating_def)
  moreover have "0 \<le> mnt_circulating s"
    using wsum_nonneg [of "m_bal s" id] nonneg by (simp add: mnt_circulating_def)
  moreover have "mnt_total_supply s \<le> SUPPLY_CAP"
    using inv by (simp add: mnt_inv_def)
  ultimately show ?thesis
    using eq mnt_balance_nonneg [OF inv, of a] by simp
qed

lemma mint_script_prefix_run:
  "mnt_run (take 3 mint_script) mnt_empty (mint_result\<lparr>m_bal := [2 \<mapsto> 300, 3 \<mapsto> 200]\<rparr>)"
  by (rule mnt_exec_all_run)
    (simp add: mint_script_def mint_result_def mnt_empty_def mnt_initialize_def mnt_mint_def
      mnt_transfer_def mnt_require_not_paused_def mnt_is_paused_def mnt_balance_def SUPPLY_CAP_def
      width_defs Let_def fun_upd_twist)

theorem mnt_supply_conserved_witness:
  "mnt_circulating (mint_result\<lparr>m_bal := [2 \<mapsto> 300, 3 \<mapsto> 200]\<rparr>) = 500"
  using mnt_supply_conserved [OF mint_script_prefix_run]
  by (simp add: mint_script_def) (simp add: mint_result_def mnt_total_supply_def)

text \<open>
  Who may move or destroy tokens. The balance of an account decreases only in a call that the account itself has
  authorised, or that a spender authorised within an allowance the account gave, which is
  reduced by the amount; and never while the token is paused.
\<close>

theorem mnt_debit_authorised:
  assumes "mnt_exec env c s = Inr s'" "mnt_balance a s' < mnt_balance a s"
  shows "\<not> mnt_is_paused s \<and>
    (auth_by env a \<or>
     (\<exists>sp. auth_by env sp \<and>
        mnt_allowance a sp s' = mnt_allowance a sp s - (mnt_balance a s - mnt_balance a s') \<and>
        0 \<le> mnt_allowance a sp s'))"
  using assms
  by (cases c)
    (auto simp: mnt_initialize_def mnt_mint_Inr mnt_burn_Inr mnt_burn_from_Inr mnt_transfer_Inr
      mnt_transfer_from_Inr mnt_approve_def mnt_set_pause_guardian_def mnt_pause_def mnt_unpause_def
      res_simps mnt_balance_def mnt_allowance_def split: if_splits)

theorem mnt_debit_authorised_witness:
  "\<not> mnt_is_paused mint_result \<and>
    (auth_by (demo_env 0 [3]) 3 \<or>
     (\<exists>sp. auth_by (demo_env 0 [3]) sp \<and> mnt_allowance 3 sp mint_result = 50))"
  using mnt_debit_authorised [of "demo_env 0 [3]" "MBurn 3 50" mint_result
      "mint_result\<lparr>m_bal := [2 \<mapsto> 400, 3 \<mapsto> 150], m_supply := Some 450\<rparr>" 3]
  by (simp add: mnt_burn_Inr mint_result_def mnt_balance_def mnt_total_supply_def mnt_is_paused_def
      width_defs fun_upd_twist)

end
