(* ===== verification/Sep41.thy ===== *)
theory Sep41
  imports MntToken
begin

text \<open>
  The token interface (SEP-41) that the escrow and vesting contracts call: \<open>balance\<close> and
  \<open>transfer\<close> on a state that holds every token contract. The locale states what a client
  relies on, and is interpreted on the MNT token of this repository.

  The laws for a transfer between different accounts are the documented ones. For a transfer
  from an account to itself only "does not lose" is assumed, since the MNT token increases the
  balance then.
\<close>

record 't token_ops =
  tk_balance :: "addr \<Rightarrow> addr \<Rightarrow> 't \<Rightarrow> int"
  tk_transfer :: "env \<Rightarrow> addr \<Rightarrow> addr \<Rightarrow> addr \<Rightarrow> int \<Rightarrow> 't \<Rightarrow> unit fail + 't"

locale sep41 =
  fixes bal :: "addr \<Rightarrow> addr \<Rightarrow> 't \<Rightarrow> int"
    and xfer :: "env \<Rightarrow> addr \<Rightarrow> addr \<Rightarrow> addr \<Rightarrow> int \<Rightarrow> 't \<Rightarrow> unit fail + 't"
  assumes xfer_auth: "xfer env tk f t a w = Inr w' \<Longrightarrow> auth_by env f"
    and xfer_amount: "xfer env tk f t a w = Inr w' \<Longrightarrow> 0 \<le> a \<and> a \<le> bal tk f w"
    and xfer_from: "xfer env tk f t a w = Inr w' \<Longrightarrow> f \<noteq> t \<Longrightarrow> bal tk f w' = bal tk f w - a"
    and xfer_to: "xfer env tk f t a w = Inr w' \<Longrightarrow> f \<noteq> t \<Longrightarrow> bal tk t w' = bal tk t w + a"
    and xfer_self: "xfer env tk f f a w = Inr w' \<Longrightarrow> bal tk f w \<le> bal tk f w'"
    and xfer_other: "xfer env tk f t a w = Inr w' \<Longrightarrow> x \<noteq> f \<Longrightarrow> x \<noteq> t \<Longrightarrow> bal tk x w' = bal tk x w"
    and xfer_token: "xfer env tk f t a w = Inr w' \<Longrightarrow> tk' \<noteq> tk \<Longrightarrow> bal tk' x w' = bal tk' x w"
begin

lemma payer_keeps_rest: "xfer env tk f t a w = Inr w' \<Longrightarrow> bal tk f w - a \<le> bal tk f w'"
  using xfer_amount [of env tk f t a w w'] xfer_from [of env tk f t a w w']
    xfer_self [of env tk f a w w']
  by (cases "f = t") auto

text \<open>A payment out of \<open>c\<close> costs it at most the amount in that token, nothing in others.\<close>

lemma pay_out_bound:
  "xfer env tk c t a w = Inr w' \<Longrightarrow> bal tk' c w - (if tk' = tk then a else 0) \<le> bal tk' c w'"
  using payer_keeps_rest [of env tk c t a w w'] xfer_token [of env tk c t a w w' tk' c] by auto

lemma pay_in_exact:
  "xfer env tk f c a w = Inr w' \<Longrightarrow> f \<noteq> c \<Longrightarrow>
   bal tk' c w' = bal tk' c w + (if tk' = tk then a else 0)"
  using xfer_to [of env tk f c a w w'] xfer_token [of env tk f c a w w' tk' c] by auto

lemma receiver_never_loses: "xfer env tk f t a w = Inr w' \<Longrightarrow> x \<noteq> f \<Longrightarrow> bal tk' x w \<le> bal tk' x w'"
  using xfer_amount [of env tk f t a w w'] xfer_to [of env tk f t a w w']
    xfer_other [of env tk f t a w w' x] xfer_token [of env tk f t a w w' tk' x]
  by (cases "tk' = tk"; cases "x = t") auto

end

section \<open>The MNT token provides the interface\<close>

text \<open>A state with one MNT instance for each token address.\<close>

type_synonym mnt_world = "addr \<Rightarrow> mnt"

definition mnt_w_balance :: "addr \<Rightarrow> addr \<Rightarrow> mnt_world \<Rightarrow> int" where
  "mnt_w_balance tk a w = mnt_balance a (w tk)"

definition mnt_w_transfer ::
    "env \<Rightarrow> addr \<Rightarrow> addr \<Rightarrow> addr \<Rightarrow> int \<Rightarrow> mnt_world \<Rightarrow> unit fail + mnt_world" where
  "mnt_w_transfer env tk f t a w =
     rbind (mnt_transfer env f t a (w tk)) (\<lambda>s. Inr (w(tk := s)))"

definition mnt_ops :: "mnt_world token_ops" where
  "mnt_ops = \<lparr>tk_balance = mnt_w_balance, tk_transfer = mnt_w_transfer\<rparr>"

lemma mnt_ops_simps [simp]:
  "tk_balance mnt_ops = mnt_w_balance" "tk_transfer mnt_ops = mnt_w_transfer"
  by (simp_all add: mnt_ops_def)

interpretation mntw: sep41 mnt_w_balance mnt_w_transfer
  by unfold_locales
    (auto simp: mnt_w_transfer_def mnt_w_balance_def mnt_transfer_Inr res_simps mnt_balance_def)

lemma sep41_mnt_ops: "sep41 (tk_balance mnt_ops) (tk_transfer mnt_ops)"
  by (simp add: mntw.sep41_axioms)

text \<open>A world in which account \<open>a\<close> holds \<open>v\<close> of token \<open>tk\<close>, for witnesses.\<close>

definition mnt_holding :: "addr \<Rightarrow> addr \<Rightarrow> int \<Rightarrow> mnt_world" where
  "mnt_holding tk a v = (\<lambda>_. mnt_empty)(tk := mnt_empty\<lparr>m_bal := [a \<mapsto> v]\<rparr>)"


section \<open>Clients\<close>

text \<open>A payment out of the contract; a failing token call traps.\<close>

definition pay_self ::
    "'t token_ops \<Rightarrow> env \<Rightarrow> addr \<Rightarrow> addr \<Rightarrow> int \<Rightarrow> 't \<Rightarrow> 'e fail + 't" where
  "pay_self T env tk to amt w = call_ext (tk_transfer T (as_invoker env) tk (self_addr env) to amt w)"

lemma pay_self_Inr [res_simps]:
  "pay_self T env tk to amt w = Inr w' \<longleftrightarrow>
   tk_transfer T (as_invoker env) tk (self_addr env) to amt w = Inr w'"
  by (simp add: pay_self_def res_simps)

locale token_client = sep41 "tk_balance T" "tk_transfer T" for T :: "'t token_ops"

interpretation mnt_client: token_client mnt_ops
  by unfold_locales (auto simp: mnt_w_transfer_def mnt_w_balance_def mnt_transfer_Inr res_simps
      mnt_balance_def)

lemma token_client_mnt: "token_client mnt_ops"
  by (rule mnt_client.token_client_axioms)

text \<open>The environment of a call from outside: nobody signs for the contract itself.\<close>

definition external :: "env \<Rightarrow> bool" where
  "external env \<longleftrightarrow> \<not> auth_by env (self_addr env)"

context token_client
begin

lemma pay_self_bound:
  assumes "pay_self T env tk x a w = (Inr w' :: 'e fail + 't)"
  shows "tk_balance T tk' (self_addr env) w - (if tk' = tk then a else 0) \<le> tk_balance T tk' (self_addr env) w'"
  using assms pay_out_bound [of "as_invoker env" tk "self_addr env" x a w w' tk'] by (simp add: res_simps)

lemma pull_exact:
  assumes "tk_transfer T env tk f c a w = Inr w'" "f \<noteq> c"
  shows "tk_balance T tk' c w' = tk_balance T tk' c w + (if tk' = tk then a else 0)"
  using assms by (rule pay_in_exact)

end

end
