(* ===== verification/Protections.thy ===== *)
theory Protections
  imports Prelude
begin

text \<open>
  The pure decision functions of \<open>contracts/shared/src\<close> the escrow contract consults:
  escrow status and its transition relation (\<open>escrow.rs\<close>, \<open>state_machine.rs\<close>), evidence and
  timing checks (\<open>payment_integrity.rs\<close>), replay checks (\<open>session_uniqueness.rs\<close>), bypass
  and evasion checks (\<open>platform_authenticity.rs\<close>), load-dependent fees (\<open>dynamic_fees.rs\<close>),
  page windows (\<open>pagination.rs\<close>) and the input validator (\<open>validation.rs\<close>).
\<close>

section \<open>Escrow status\<close>

datatype escrow_status = ESPending | ESActive | ESReleased | ESDisputed | ESRefunded | ESResolved

fun escrow_valid_transition :: "escrow_status \<Rightarrow> escrow_status \<Rightarrow> bool" where
  "escrow_valid_transition ESPending ESActive = True"
| "escrow_valid_transition ESActive ESReleased = True"
| "escrow_valid_transition ESActive ESDisputed = True"
| "escrow_valid_transition ESDisputed ESResolved = True"
| "escrow_valid_transition ESDisputed ESRefunded = True"
| "escrow_valid_transition ESActive ESRefunded = True"
| "escrow_valid_transition ESPending ESRefunded = True"
| "escrow_valid_transition _ _ = False"

datatype subscription_status = SubTrial | SubActive | SubGracePeriod | SubPaused | SubCancelled | SubExpired

fun subscription_valid_transition :: "subscription_status \<Rightarrow> subscription_status \<Rightarrow> bool" where
  "subscription_valid_transition SubTrial SubActive = True"
| "subscription_valid_transition SubTrial SubCancelled = True"
| "subscription_valid_transition SubActive SubGracePeriod = True"
| "subscription_valid_transition SubActive SubPaused = True"
| "subscription_valid_transition SubActive SubCancelled = True"
| "subscription_valid_transition SubGracePeriod SubActive = True"
| "subscription_valid_transition SubGracePeriod SubExpired = True"
| "subscription_valid_transition SubPaused SubActive = True"
| "subscription_valid_transition SubPaused SubCancelled = True"
| "subscription_valid_transition _ _ = False"

datatype loan_status = LoanPending | LoanActive | LoanRepaid | LoanDefaulted | LoanCancelled

fun loan_valid_transition :: "loan_status \<Rightarrow> loan_status \<Rightarrow> bool" where
  "loan_valid_transition LoanPending LoanActive = True"
| "loan_valid_transition LoanPending LoanCancelled = True"
| "loan_valid_transition LoanActive LoanRepaid = True"
| "loan_valid_transition LoanActive LoanDefaulted = True"
| "loan_valid_transition _ _ = False"

datatype isa_status = ISAPending | ISAStudyPeriod | ISAGracePeriod | ISARepayment | ISACompleted | ISADefaulted

fun isa_valid_transition :: "isa_status \<Rightarrow> isa_status \<Rightarrow> bool" where
  "isa_valid_transition ISAPending ISAStudyPeriod = True"
| "isa_valid_transition ISAStudyPeriod ISAGracePeriod = True"
| "isa_valid_transition ISAGracePeriod ISARepayment = True"
| "isa_valid_transition ISARepayment ISACompleted = True"
| "isa_valid_transition ISARepayment ISADefaulted = True"
| "isa_valid_transition _ _ = False"

text \<open>The trait's \<open>transition\<close>, for any validity predicate.\<close>

definition sm_transition :: "('s \<Rightarrow> 's \<Rightarrow> bool) \<Rightarrow> 's \<Rightarrow> 's \<Rightarrow> 'e fail + 's" where
  "sm_transition valid from to = ensure (valid from to) (Panic ''Invalid state transition'') (Inr to)"

definition terminal_status :: "escrow_status \<Rightarrow> bool" where
  "terminal_status s \<longleftrightarrow> s \<in> {ESReleased, ESRefunded, ESResolved}"

text \<open>
  The trait's interface: a validity predicate with a rank that every valid transition out of
  the live part increases. Paths in such a machine are bounded.
\<close>

locale ranked_machine =
  fixes valid :: "'s \<Rightarrow> 's \<Rightarrow> bool" and rank :: "'s \<Rightarrow> nat" and top :: nat
  assumes rank_step: "valid s t \<Longrightarrow> rank s < rank t"
    and rank_top: "rank s \<le> top"
begin

lemma path_rank:
  "successively valid (s # path) \<Longrightarrow> rank s + length path \<le> rank (last (s # path))"
proof (induction path arbitrary: s)
  case (Cons t path)
  then have "rank s < rank t" "rank t + length path \<le> rank (last (t # path))"
    by (auto dest: rank_step)
  then show ?case by simp
qed simp

lemma path_bounded: "successively valid (s # path) \<Longrightarrow> length path \<le> top"
  using path_rank [of s path] rank_top [of "last (s # path)"] by simp

lemma no_return: "successively valid (s # path) \<Longrightarrow> path \<noteq> [] \<Longrightarrow> last path \<noteq> s"
  using path_rank [of s path] by (cases path) auto

end

fun escrow_rank :: "escrow_status \<Rightarrow> nat" where
  "escrow_rank ESPending = 0" | "escrow_rank ESActive = 1" | "escrow_rank ESDisputed = 2"
| "escrow_rank ESReleased = 3" | "escrow_rank ESRefunded = 3" | "escrow_rank ESResolved = 3"

fun loan_rank :: "loan_status \<Rightarrow> nat" where
  "loan_rank LoanPending = 0" | "loan_rank LoanActive = 1" | "loan_rank _ = 2"

fun isa_rank :: "isa_status \<Rightarrow> nat" where
  "isa_rank ISAPending = 0" | "isa_rank ISAStudyPeriod = 1" | "isa_rank ISAGracePeriod = 2"
| "isa_rank ISARepayment = 3" | "isa_rank _ = 4"

interpretation escrow_sm: ranked_machine escrow_valid_transition escrow_rank 3
proof unfold_locales
  show "escrow_valid_transition s t \<Longrightarrow> escrow_rank s < escrow_rank t" for s t
    by (cases s; cases t) auto
  show "escrow_rank s \<le> 3" for s by (cases s) auto
qed

interpretation loan_sm: ranked_machine loan_valid_transition loan_rank 2
proof unfold_locales
  show "loan_valid_transition s t \<Longrightarrow> loan_rank s < loan_rank t" for s t
    by (cases s; cases t) auto
  show "loan_rank s \<le> 2" for s by (cases s) auto
qed

interpretation isa_sm: ranked_machine isa_valid_transition isa_rank 4
proof unfold_locales
  show "isa_valid_transition s t \<Longrightarrow> isa_rank s < isa_rank t" for s t
    by (cases s; cases t) auto
  show "isa_rank s \<le> 4" for s by (cases s) auto
qed

lemma escrow_terminal: "terminal_status s \<longleftrightarrow> (\<forall>t. \<not> escrow_valid_transition s t)"
proof (cases s)
  case ESPending
  then show ?thesis by (auto simp: terminal_status_def intro: exI [of _ ESActive])
next
  case ESActive
  then show ?thesis by (auto simp: terminal_status_def intro: exI [of _ ESReleased])
next
  case ESDisputed
  then show ?thesis by (auto simp: terminal_status_def intro: exI [of _ ESResolved])
qed (simp_all add: terminal_status_def)


section \<open>Payment integrity\<close>

definition MIN_EVIDENCE_ITEMS :: nat where "MIN_EVIDENCE_ITEMS = 1"
definition MIN_DISPUTE_COOLDOWN_SECS :: nat where "MIN_DISPUTE_COOLDOWN_SECS = 24 * 3600"
definition ESCROW_MULTISIG_THRESHOLD :: nat where "ESCROW_MULTISIG_THRESHOLD = 2"
definition PAYMENT_TIMING_RISK_THRESHOLD :: nat where "PAYMENT_TIMING_RISK_THRESHOLD = 60"
definition RAPID_ACTION_WINDOW_SECS :: nat where "RAPID_ACTION_WINDOW_SECS = 600"

record evidence_sufficiency =
  ev_sufficient :: bool
  ev_count :: nat
  ev_cooldown_elapsed :: bool

record payment_timing_check =
  pt_manipulation_suspected :: bool
  pt_risk_score :: nat
  pt_rapid_action_count :: nat

record escrow_multisig_approval =
  mu_approvals :: nat
  mu_threshold_met :: bool

record emergency_fund_lock =
  fl_isolate :: bool
  fl_reason :: symbol
  fl_locked_at :: nat

record payment_audit_entry =
  pa_escrow_id :: nat
  pa_dispute_opened_at :: nat
  pa_evidence_count :: nat
  pa_resolved_at :: nat
  pa_isolated :: bool

definition validate_evidence_sufficiency :: "env \<Rightarrow> nat \<Rightarrow> nat \<Rightarrow> evidence_sufficiency" where
  "validate_evidence_sufficiency env evidence_count dispute_opened_at =
    (let cooldown_elapsed = MIN_DISPUTE_COOLDOWN_SECS \<le> ledger_ts env - dispute_opened_at in
     \<lparr>ev_sufficient = (MIN_EVIDENCE_ITEMS \<le> evidence_count \<and> cooldown_elapsed),
      ev_count = evidence_count, ev_cooldown_elapsed = cooldown_elapsed\<rparr>)"

definition verify_completion_criteria :: "nat \<Rightarrow> nat \<Rightarrow> bool \<Rightarrow> bool" where
  "verify_completion_criteria now session_end_time is_disputed \<longleftrightarrow>
    session_end_time \<le> now \<and> \<not> is_disputed"

text \<open>The loop over consecutive timestamps, \<open>i\<close> from 1.\<close>

fun count_rapid :: "nat list \<Rightarrow> nat \<Rightarrow> nat" where
  "count_rapid (prev # cur # rest) k =
    count_rapid (cur # rest) (if cur - prev < RAPID_ACTION_WINDOW_SECS then sat_u32 (k + 1) else k)"
| "count_rapid _ k = k"

definition detect_payment_timing_manipulation :: "nat list \<Rightarrow> payment_timing_check" where
  "detect_payment_timing_manipulation action_timestamps =
    (let rapid_action_count = (if 2 \<le> length action_timestamps then count_rapid action_timestamps 0 else 0);
         risk_score = min (sat_u32 (rapid_action_count * 25)) 100 in
     \<lparr>pt_manipulation_suspected = (PAYMENT_TIMING_RISK_THRESHOLD \<le> risk_score),
      pt_risk_score = risk_score, pt_rapid_action_count = rapid_action_count\<rparr>)"

fun dedup_approvers :: "addr list \<Rightarrow> addr list \<Rightarrow> addr list" where
  "dedup_approvers [] seen = seen"
| "dedup_approvers (a # as) seen = dedup_approvers as (if a \<in> set seen then seen else seen @ [a])"

definition check_multisig_threshold :: "addr list \<Rightarrow> escrow_multisig_approval" where
  "check_multisig_threshold distinct_approvers =
    (let approvals = length (dedup_approvers distinct_approvers []) in
     \<lparr>mu_approvals = approvals, mu_threshold_met = (ESCROW_MULTISIG_THRESHOLD \<le> approvals)\<rparr>)"

definition compute_emergency_isolation ::
    "env \<Rightarrow> payment_timing_check \<Rightarrow> evidence_sufficiency \<Rightarrow> symbol \<Rightarrow> emergency_fund_lock" where
  "compute_emergency_isolation env timing evidence reason =
    \<lparr>fl_isolate = (pt_manipulation_suspected timing \<and> \<not> ev_sufficient evidence),
     fl_reason = reason, fl_locked_at = ledger_ts env\<rparr>"

lemma dedup_approvers_distinct:
  "distinct seen \<Longrightarrow> distinct (dedup_approvers as seen) \<and>
   set (dedup_approvers as seen) = set as \<union> set seen"
  by (induction as seen rule: dedup_approvers.induct) auto

lemma check_multisig_card:
  "mu_approvals (check_multisig_threshold as) = card (set as)"
  using dedup_approvers_distinct [of "[]" as] distinct_card [of "dedup_approvers as []"]
  by (simp add: check_multisig_threshold_def Let_def)


section \<open>Session uniqueness\<close>

definition MAX_SESSION_TIME_DRIFT_SECS :: nat where "MAX_SESSION_TIME_DRIFT_SECS = 300"

record replay_detection_result =
  rd_is_replay :: bool
  rd_original_session_id :: "symbol option"
  rd_temporal_delta_secs :: nat
  rd_confidence_score :: nat

record session_audit_record =
  sa_session_id :: symbol
  sa_integrity_score :: nat
  sa_is_tampered :: bool
  sa_verified_at :: nat

definition validate_session_nonce :: "nat \<Rightarrow> nat \<Rightarrow> bool \<Rightarrow> bool" where
  "validate_session_nonce nonce expected_nonce is_used \<longleftrightarrow>
    \<not> is_used \<and> nonce = expected_nonce \<and> 0 < nonce"

definition verify_content_checksum :: "hash32 \<Rightarrow> hash32 \<Rightarrow> bool" where
  "verify_content_checksum h expected \<longleftrightarrow> h = expected"

text \<open>\<open>max_drift_secs * 5\<close> is evaluated only for a replay; it panics when it overflows.\<close>

definition detect_temporal_replay :: "nat \<Rightarrow> nat \<Rightarrow> nat \<Rightarrow> 'e fail + replay_detection_result" where
  "detect_temporal_replay session_timestamp current_timestamp max_drift_secs =
    (let drift = (if session_timestamp \<le> current_timestamp then current_timestamp - session_timestamp
                  else session_timestamp - current_timestamp);
         is_replay = max_drift_secs < drift in
     rbind (if is_replay
            then rbind (arith_u64 (max_drift_secs * 5)) (\<lambda>far. Inr (if far < drift then 9500 else 8000))
            else Inr 1000) (\<lambda>confidence_score.
     Inr \<lparr>rd_is_replay = is_replay, rd_original_session_id = None,
          rd_temporal_delta_secs = drift, rd_confidence_score = confidence_score\<rparr>))"

definition audit_session_integrity ::
    "hash32 \<Rightarrow> hash32 \<Rightarrow> bool \<Rightarrow> nat \<Rightarrow> symbol \<Rightarrow> session_audit_record" where
  "audit_session_integrity content_hash expected_hash nonce_valid timestamp session_id =
    (let hash_matches = verify_content_checksum content_hash expected_hash;
         is_tampered = (\<not> hash_matches \<or> \<not> nonce_valid);
         integrity_score = (if \<not> is_tampered then 10000 else if hash_matches then 5000 else 0) in
     \<lparr>sa_session_id = session_id, sa_integrity_score = integrity_score,
      sa_is_tampered = is_tampered, sa_verified_at = timestamp\<rparr>)"


section \<open>Platform authenticity\<close>

definition MAX_LOW_FEE_SESSIONS_PER_PAIR :: nat where "MAX_LOW_FEE_SESSIONS_PER_PAIR = 5"
definition LOW_FEE_THRESHOLD :: int where "LOW_FEE_THRESHOLD = 100000"
definition REQUIRED_INTERACTION_MINUTES :: nat where "REQUIRED_INTERACTION_MINUTES = 10"
definition FEE_EVASION_TOLERANCE_BPS :: nat where "FEE_EVASION_TOLERANCE_BPS = 2000"

datatype penalty_tier = PT_None | PT_Warning | PT_TemporarySuspension | PT_PermanentBan | PT_Permanent

record authenticity_result =
  au_is_authentic :: bool
  au_reason :: symbol

record collusion_result =
  co_is_colluding :: bool
  co_low_fee_count :: nat
  co_penalty_tier :: penalty_tier

record economic_audit_result =
  ec_is_evading :: bool
  ec_deviation_bps :: nat
  ec_penalty_tier :: penalty_tier

definition verify_session_authenticity :: "nat \<Rightarrow> bool \<Rightarrow> authenticity_result" where
  "verify_session_authenticity interaction_minutes has_valid_signature =
    (if \<not> has_valid_signature then \<lparr>au_is_authentic = False, au_reason = ''missing_sig''\<rparr>
     else if interaction_minutes < REQUIRED_INTERACTION_MINUTES
     then \<lparr>au_is_authentic = False, au_reason = ''too_short''\<rparr>
     else \<lparr>au_is_authentic = True, au_reason = ''ok''\<rparr>)"

definition detect_platform_bypass :: "nat \<Rightarrow> int \<Rightarrow> collusion_result" where
  "detect_platform_bypass current_low_fee_count session_price =
    (let new_count = (if session_price < LOW_FEE_THRESHOLD then sat_u32 (current_low_fee_count + 1)
                      else current_low_fee_count);
         is_colluding = MAX_LOW_FEE_SESSIONS_PER_PAIR < new_count;
         penalty = (if MAX_LOW_FEE_SESSIONS_PER_PAIR * 2 < new_count then PT_PermanentBan
                    else if is_colluding then PT_TemporarySuspension
                    else if new_count = MAX_LOW_FEE_SESSIONS_PER_PAIR then PT_Warning
                    else PT_None) in
     \<lparr>co_is_colluding = is_colluding, co_low_fee_count = new_count, co_penalty_tier = penalty\<rparr>)"

text \<open>\<open>dev as u32\<close> keeps the low 32 bits.\<close>

definition detect_fee_evasion :: "int \<Rightarrow> int \<Rightarrow> 'e fail + economic_audit_result" where
  "detect_fee_evasion expected_average_fee actual_average_fee =
    (if expected_average_fee = 0 \<or> expected_average_fee \<le> actual_average_fee
     then Inr \<lparr>ec_is_evading = False, ec_deviation_bps = 0, ec_penalty_tier = PT_None\<rparr>
     else rbind (arith_i128 (expected_average_fee - actual_average_fee)) (\<lambda>diff.
       rbind (arith_i128 (trunc_div (sat_i128 (diff * 10000)) expected_average_fee)) (\<lambda>dev.
       let deviation_bps = nat (dev mod 2 ^ 32);
           is_evading = FEE_EVASION_TOLERANCE_BPS < deviation_bps;
           penalty = (if 8000 \<le> deviation_bps then PT_Permanent
                      else if 5000 < deviation_bps then PT_TemporarySuspension
                      else if is_evading then PT_Warning else PT_None) in
       Inr \<lparr>ec_is_evading = is_evading, ec_deviation_bps = deviation_bps, ec_penalty_tier = penalty\<rparr>)))"


section \<open>Load-dependent fees\<close>

definition BASE_FEE_BPS :: nat where "BASE_FEE_BPS = 200"
definition DYN_MAX_FEE_BPS :: nat where "DYN_MAX_FEE_BPS = 1000"
definition MIN_FEE_BPS :: nat where "MIN_FEE_BPS = 100"
definition HIGH_LOAD_THRESHOLD :: nat where "HIGH_LOAD_THRESHOLD = 1000"

record dynamic_fee_result =
  df_fee_bps :: nat
  df_is_emergency :: bool

definition calculate_dynamic_fee :: "nat \<Rightarrow> nat \<Rightarrow> dynamic_fee_result" where
  "calculate_dynamic_fee system_load reputation_score =
    (let (fee, is_emergency) =
           (if HIGH_LOAD_THRESHOLD * 2 < system_load then (DYN_MAX_FEE_BPS, True)
            else if HIGH_LOAD_THRESHOLD < system_load then (BASE_FEE_BPS + 300, False)
            else (BASE_FEE_BPS, False));
         fee = (if 80 \<le> reputation_score then fee - 100
                else if 50 \<le> reputation_score then fee - 50 else fee);
         fee = (if fee < MIN_FEE_BPS then MIN_FEE_BPS else fee);
         fee = (if DYN_MAX_FEE_BPS < fee then DYN_MAX_FEE_BPS else fee) in
     \<lparr>df_fee_bps = fee, df_is_emergency = is_emergency\<rparr>)"

record fee_evasion_result =
  fe_is_evading :: bool
  fe_evasion_score :: nat

definition detect_fee_gaming :: "nat \<Rightarrow> int \<Rightarrow> fee_evasion_result" where
  "detect_fee_gaming recent_transactions total_volume =
    (if 20 < recent_transactions \<and> total_volume < 500000
     then \<lparr>fe_is_evading = True, fe_evasion_score = 90\<rparr>
     else \<lparr>fe_is_evading = False, fe_evasion_score = 0\<rparr>)"


section \<open>Page windows\<close>

definition MAX_PAGE_SIZE :: nat where "MAX_PAGE_SIZE = 50"

definition clamp_limit :: "nat \<Rightarrow> nat" where
  "clamp_limit limit =
    (if limit = 0 then 1 else if MAX_PAGE_SIZE < limit then MAX_PAGE_SIZE else limit)"

definition page_bounds :: "nat \<Rightarrow> nat \<Rightarrow> nat \<Rightarrow> nat \<times> nat" where
  "page_bounds tot offset limit =
    (let limit = clamp_limit limit in
     if tot \<le> offset then (tot, tot)
     else let remaining = tot - offset;
              end = (if remaining \<le> limit then tot else offset + limit)
          in (offset, end))"

lemma page_bounds_ok:
  "page_bounds tot offset limit = (a, b) \<Longrightarrow>
   a \<le> b \<and> b \<le> tot \<and> b - a \<le> MAX_PAGE_SIZE \<and> (offset < tot \<longrightarrow> a = offset \<and> a < b)"
  by (auto simp: page_bounds_def clamp_limit_def MAX_PAGE_SIZE_def Let_def split: if_splits)

text \<open>
  Paging: a client that asks for page after page, each starting where the last one ended,
  visits the indices \<open>offset, offset + 1, ..., total - 1\<close> in order, each exactly once.
\<close>

function pages :: "nat \<Rightarrow> nat \<Rightarrow> nat \<Rightarrow> nat list" where
  "pages tot offset limit =
    (if tot \<le> offset then []
     else let (a, b) = page_bounds tot offset limit in [a..<b] @ pages tot b limit)"
  by pat_completeness auto

termination
proof (relation "measure (\<lambda>(tot, offset, limit). tot - offset)")
  show "((tot, y, limit), tot, offset, limit) \<in> measure (\<lambda>(tot, offset, limit). tot - offset)"
    if "\<not> tot \<le> offset" "x = page_bounds tot offset limit" "(xa, y) = x" for tot offset limit x xa y
    using page_bounds_ok [of tot offset limit xa y] that by auto
qed simp

lemma pages_all: "pages tot offset limit = [offset..<tot]"
proof (induction tot offset limit rule: pages.induct)
  case (1 tot offset limit)
  show ?case
  proof (cases "tot \<le> offset")
    case False
    obtain a b where ab: "page_bounds tot offset limit = (a, b)" by force
    note bnd = page_bounds_ok [OF this]
    from 1 False ab have "pages tot b limit = [b..<tot]" by auto
    moreover have "[offset..<tot] = [offset..<b] @ [b..<tot]"
      using bnd False upt_add_eq_append [of offset b "tot - b"] by auto
    ultimately show ?thesis
      using ab bnd False by (subst pages.simps) simp
  qed (simp add: pages.simps)
qed

declare pages.simps [simp del]


section \<open>The input validator\<close>

definition MAX_FINANCIAL_AMOUNT :: int where "MAX_FINANCIAL_AMOUNT = 1000000000000000"

record validation_error =
  ve_field :: symbol
  ve_constraint :: symbol
  ve_value :: int

text \<open>The builder collects errors; each rule appends at most one, except \<open>require_valid_amount\<close>.\<close>

type_synonym validator = "validation_error list"

definition v_check :: "bool \<Rightarrow> symbol \<Rightarrow> symbol \<Rightarrow> int \<Rightarrow> validator \<Rightarrow> validator" where
  "v_check bad c field v errs =
    (if bad then errs @ [\<lparr>ve_field = field, ve_constraint = c, ve_value = v\<rparr>] else errs)"

definition require_positive :: "int \<Rightarrow> symbol \<Rightarrow> validator \<Rightarrow> validator" where
  "require_positive v f = v_check (v \<le> 0) ''positive'' f v"

definition require_non_negative :: "int \<Rightarrow> symbol \<Rightarrow> validator \<Rightarrow> validator" where
  "require_non_negative v f = v_check (v < 0) ''non_negative'' f v"

definition require_future_timestamp :: "env \<Rightarrow> nat \<Rightarrow> symbol \<Rightarrow> validator \<Rightarrow> validator" where
  "require_future_timestamp env t f = v_check (t \<le> ledger_ts env) ''future'' f (int t)"

definition require_range :: "int \<Rightarrow> int \<Rightarrow> int \<Rightarrow> symbol \<Rightarrow> validator \<Rightarrow> validator" where
  "require_range v mn mx f = v_check (v < mn \<or> mx < v) ''range'' f v"

definition require_nonzero :: "int \<Rightarrow> symbol \<Rightarrow> validator \<Rightarrow> validator" where
  "require_nonzero v f = v_check (v = 0) ''nonzero'' f 0"

definition require_max :: "int \<Rightarrow> int \<Rightarrow> symbol \<Rightarrow> validator \<Rightarrow> validator" where
  "require_max v mx f = v_check (mx < v) ''max'' f v"

definition require_min :: "int \<Rightarrow> int \<Rightarrow> symbol \<Rightarrow> validator \<Rightarrow> validator" where
  "require_min v mn f = v_check (v < mn) ''min'' f v"

definition require_valid_amount :: "int \<Rightarrow> symbol \<Rightarrow> validator \<Rightarrow> validator" where
  "require_valid_amount v f errs =
    v_check (MAX_FINANCIAL_AMOUNT < v) ''max'' f v (v_check (v \<le> 0) ''positive'' f v errs)"

definition require_valid_bps :: "nat \<Rightarrow> symbol \<Rightarrow> validator \<Rightarrow> validator" where
  "require_valid_bps bps f = v_check (10000 < bps) ''bps_range'' f (int bps)"

definition require_sufficient_for_division :: "int \<Rightarrow> int \<Rightarrow> symbol \<Rightarrow> validator \<Rightarrow> validator" where
  "require_sufficient_for_division tot parts f =
    v_check (parts \<le> 0 \<or> tot < parts) ''divisible'' f parts"

definition v_validate :: "validator \<Rightarrow> validation_error option" where
  "v_validate errs = (case errs of [] \<Rightarrow> None | e # _ \<Rightarrow> Some e)"

definition v_message :: "symbol \<Rightarrow> string" where
  "v_message c =
    (if c = ''positive'' then ''validation failed: value must be greater than zero''
     else if c = ''non_negative'' then ''validation failed: value must not be negative''
     else if c = ''future'' then ''validation failed: timestamp must be in the future''
     else if c = ''range'' then ''validation failed: value is outside the allowed range''
     else if c = ''nonzero'' then ''validation failed: value must be nonzero''
     else if c = ''max'' then ''validation failed: value exceeds the maximum allowed amount''
     else if c = ''min'' then ''validation failed: value is below the minimum required amount''
     else if c = ''bps_range'' then ''validation failed: basis-points value must be between 0 and 10000''
     else if c = ''divisible'' then ''validation failed: amount too small to split without rounding a share to zero''
     else ''validation failed'')"

definition validate_or_panic :: "validator \<Rightarrow> 'e fail + unit" where
  "validate_or_panic errs =
    (case errs of [] \<Rightarrow> Inr () | e # _ \<Rightarrow> Inl (Panic (v_message (ve_constraint e))))"

lemma validate_or_panic_Inr [res_simps]: "validate_or_panic errs = Inr u \<longleftrightarrow> errs = []"
  by (cases errs) (auto simp: validate_or_panic_def)

lemma v_check_Nil [simp]: "v_check b c f v errs = [] \<longleftrightarrow> \<not> b \<and> errs = []"
  by (simp add: v_check_def)

lemmas validator_defs =
  require_positive_def require_non_negative_def require_future_timestamp_def require_range_def
  require_nonzero_def require_max_def require_min_def require_valid_amount_def
  require_valid_bps_def require_sufficient_for_division_def

end
