(* ===== verification/FailureTracking.thy ===== *)
theory FailureTracking
  imports Prelude
begin

text \<open>
  \<open>contracts/shared/src/failure_tracking.rs\<close>: how failed auto-releases of an escrow are
  classified and retried with exponential backoff.
\<close>

datatype failure_classification =
    FC_Temporary | FC_Authorization | FC_PolicyViolation | FC_StateError | FC_FundsUnavailable
  | FC_Unknown

datatype recovery_state = RS_Retrying | RS_AwaitingManualRecovery | RS_Escalated | RS_Recovered

record release_failure =
  rf_escrow_id :: nat
  rf_attempt_number :: nat
  rf_max_attempts :: nat
  rf_classification :: failure_classification
  rf_last_failure_time :: nat
  rf_next_retry_time :: nat
  rf_error_hash :: hash32
  rf_recovery_state :: recovery_state
  rf_manual_recovery_at :: nat
  rf_manual_recovery_reason :: hash32

definition MAX_AUTO_RELEASE_ATTEMPTS :: nat where "MAX_AUTO_RELEASE_ATTEMPTS = 10"
definition MANUAL_RECOVERY_THRESHOLD :: nat where "MANUAL_RECOVERY_THRESHOLD = 5"
definition BACKOFF_INITIAL_SECS :: nat where "BACKOFF_INITIAL_SECS = 60 * 60"
definition BACKOFF_MULTIPLIER :: nat where "BACKOFF_MULTIPLIER = 2"
definition BACKOFF_MAX_SECS :: nat where "BACKOFF_MAX_SECS = 8 * 60 * 60"

lemmas failure_consts =
  MAX_AUTO_RELEASE_ATTEMPTS_def MANUAL_RECOVERY_THRESHOLD_def BACKOFF_INITIAL_SECS_def
  BACKOFF_MULTIPLIER_def BACKOFF_MAX_SECS_def

text \<open>
  The loop of \<open>calculate_backoff_delay\<close>: multiply \<open>n\<close> times, saturating, and leave as soon
  as the factor exceeds \<open>max_delay_secs / initial_delay_secs\<close>. The quotient is computed in the
  loop body, so an initial delay of zero panics there (and only there).
\<close>

fun backoff_factor :: "nat \<Rightarrow> nat \<Rightarrow> nat \<Rightarrow> nat \<Rightarrow> nat \<Rightarrow> 'e fail + nat" where
  "backoff_factor multiplier initial mx factor 0 = Inr factor"
| "backoff_factor multiplier initial mx factor (Suc n) =
    (let factor' = sat_u64 (factor * multiplier) in
     ensure (initial \<noteq> 0) (Panic ''attempt to divide by zero'')
       (if mx div initial < factor' then Inr factor'
        else backoff_factor multiplier initial mx factor' n))"

definition calculate_backoff_delay :: "nat \<Rightarrow> nat \<Rightarrow> nat \<Rightarrow> nat \<Rightarrow> 'e fail + nat" where
  "calculate_backoff_delay attempt_number initial multiplier mx =
    rbind (backoff_factor multiplier initial mx 1 (attempt_number - 1)) (\<lambda>factor.
    Inr (min (sat_u64 (initial * factor)) mx))"

definition classify_failure :: "nat \<Rightarrow> failure_classification" where
  "classify_failure c =
    (if 100 \<le> c \<and> c \<le> 199 then FC_Temporary
     else if 200 \<le> c \<and> c \<le> 299 then FC_Authorization
     else if 300 \<le> c \<and> c \<le> 399 then FC_PolicyViolation
     else if 400 \<le> c \<and> c \<le> 499 then FC_StateError
     else if 500 \<le> c \<and> c \<le> 599 then FC_FundsUnavailable
     else FC_Unknown)"

definition calculate_next_retry :: "env \<Rightarrow> release_failure \<Rightarrow> 'e fail + nat" where
  "calculate_next_retry env failure =
    rbind (calculate_backoff_delay (rf_attempt_number failure) BACKOFF_INITIAL_SECS
             BACKOFF_MULTIPLIER BACKOFF_MAX_SECS) (\<lambda>backoff.
    Inr (sat_u64 (ledger_ts env + backoff)))"

definition should_offer_manual_recovery :: "nat \<Rightarrow> bool" where
  "should_offer_manual_recovery attempt_number \<longleftrightarrow> MANUAL_RECOVERY_THRESHOLD \<le> attempt_number"

definition is_max_attempts_exceeded :: "nat \<Rightarrow> bool" where
  "is_max_attempts_exceeded attempt_number \<longleftrightarrow> MAX_AUTO_RELEASE_ATTEMPTS \<le> attempt_number"


section \<open>The loop computes the documented formula\<close>

text \<open>Once the factor is above the quotient, the product is above the cap.\<close>

lemma above_quotient: "0 < (i :: nat) \<Longrightarrow> mx div i < f \<Longrightarrow> mx < i * f"
  using dividend_less_times_div [of i mx] by (metis div_less_iff_less_mult mult.commute)

lemma min_sat_u64: "mx \<le> u64_max \<Longrightarrow> min (sat_u64 x) mx = min x mx"
  by (simp add: sat_u64_def min_def)

lemma capped_by_saturation:
  assumes "mx \<le> u64_max" "0 < i"
  shows "min (i * sat_u64 f) mx = min (i * f) mx"
proof (cases "f \<le> u64_max")
  case False
  have "mx \<le> i * u64_max" using assms by (metis le_trans mult_le_mono1 nat_mult_1 Suc_leI One_nat_def)
  moreover have "i * u64_max \<le> i * f" using False by (intro mult_le_mono2) simp
  ultimately have "mx \<le> i * u64_max" "mx \<le> i * f" by (simp, rule order_trans)
  then show ?thesis using False by (simp add: sat_u64_def min_absorb2)
qed (simp add: sat_u64_def)

lemma backoff_factor_total:
  assumes "0 < i" "mx \<le> u64_max" "1 \<le> m"
  shows "\<exists>f'. backoff_factor m i mx f n = (Inr f' :: 'e fail + nat) \<and> min (i * f') mx = min (i * f * m ^ n) mx"
proof (induction n arbitrary: f)
  case (Suc n)
  let ?f' = "sat_u64 (f * m)"
  have sat: "min (i * ?f') mx = min (i * (f * m)) mx"
    by (rule capped_by_saturation [OF assms(2,1)])
  have pow: "i * (f * m) \<le> i * f * m ^ Suc n"
    using assms(3) by simp
  show ?case
  proof (cases "mx div i < ?f'")
    case True
    then have "mx < i * ?f'" by (rule above_quotient [OF assms(1)])
    then have "mx \<le> i * (f * m)" using sat by (auto simp: min_def split: if_splits)
    then have "min (i * f * m ^ Suc n) mx = mx" and "min (i * ?f') mx = mx"
      using pow sat by linarith+
    then show ?thesis using True assms(1) by (simp add: Let_def)
  next
    case False
    obtain f'' where f'': "backoff_factor m i mx ?f' n = (Inr f'' :: 'e fail + nat)"
      "min (i * f'') mx = min (i * ?f' * m ^ n) mx"
      using Suc.IH by blast
    have "min (i * ?f' * m ^ n) mx = min (i * f * m ^ Suc n) mx"
    proof (cases "f * m \<le> u64_max")
      case True
      then show ?thesis by (simp add: sat_u64_def algebra_simps)
    next
      case big: False
      have "mx \<le> i * u64_max" using assms by (metis le_trans mult_le_mono1 nat_mult_1 Suc_leI One_nat_def)
      then have "mx \<le> i * ?f'" using big by (simp add: sat_u64_def)
      moreover have "i * ?f' \<le> i * ?f' * m ^ n" using assms(3) by simp
      moreover have "mx \<le> i * (f * m)" using sat calculation(1) by linarith
      ultimately show ?thesis using pow by linarith
    qed
    with f'' False assms(1) show ?thesis by (simp add: Let_def)
  qed
qed simp

text \<open>
  The retry delay. For a positive initial delay and multiplier the loop with its saturating multiplications
  and early exit always returns, and returns \<open>min (initial * multiplier ^ (attempt - 1)) max\<close>.
\<close>

theorem backoff_delay_formula:
  assumes "0 < initial" "1 \<le> multiplier" "mx \<le> u64_max"
  shows "calculate_backoff_delay attempt initial multiplier mx =
    (Inr (min (initial * multiplier ^ (attempt - 1)) mx) :: 'e fail + nat)"
proof -
  obtain f' where "backoff_factor multiplier initial mx 1 (attempt - 1) = (Inr f' :: 'e fail + nat)"
    "min (initial * f') mx = min (initial * 1 * multiplier ^ (attempt - 1)) mx"
    using backoff_factor_total [OF assms(1,3,2), of 1 "attempt - 1"] by blast
  then show ?thesis by (simp add: calculate_backoff_delay_def min_sat_u64 [OF assms(3)])
qed

theorem backoff_delay_formula_witness:
  "calculate_backoff_delay 3 3600 2 28800 = (Inr 14400 :: unit fail + nat) \<and>
   calculate_backoff_delay 10 3600 2 28800 = (Inr 28800 :: unit fail + nat)"
  using backoff_delay_formula [of 3600 2 28800 3]
    backoff_delay_formula [of 3600 2 28800 10]
  by (simp add: u64_max_def)

lemma next_retry_value:
  "calculate_next_retry env failure =
     (Inr (sat_u64 (ledger_ts env + min (3600 * 2 ^ (rf_attempt_number failure - 1)) 28800)) :: 'e fail + nat)"
proof -
  obtain f' where "backoff_factor 2 3600 28800 1 (rf_attempt_number failure - 1) = (Inr f' :: 'e fail + nat)"
    "min (3600 * f') 28800 = min (3600 * 1 * 2 ^ (rf_attempt_number failure - 1)) (28800 :: nat)"
    using backoff_factor_total [of 3600 28800 2 1 "rf_attempt_number failure - 1"]
    by (auto simp: u64_max_def)
  then show ?thesis
    by (simp add: calculate_next_retry_def calculate_backoff_delay_def failure_consts min_sat_u64
        u64_max_def)
qed

lemma next_retry_bounds:
  assumes "calculate_next_retry env failure = Inr t" "ledger_ts env + 28800 \<le> u64_max"
  shows "ledger_ts env + 3600 \<le> t" and "t \<le> ledger_ts env + 28800"
proof -
  have "(3600 :: nat) \<le> 3600 * 2 ^ (rf_attempt_number failure - 1)" by simp
  then show "ledger_ts env + 3600 \<le> t" "t \<le> ledger_ts env + 28800"
    using assms by (auto simp: next_retry_value sat_u64_def min_def)
qed

end
