(* ===== verification/Emergency.thy ===== *)
theory Emergency
  imports Prelude
begin

text \<open>
  \<open>contracts/shared/src/emergency.rs\<close>: the 4-of-7 signer model, the 24-hour timelock, the
  circuit breaker on emergency releases and the 72-hour emergency-admin role. The functions of
  \<open>MultisigValidation\<close> come first, then what they guarantee: approvals are four different
  registered signers, and how much the circuit breaker lets through in any 24 hours.
\<close>

section \<open>Constants and types\<close>

definition EMERGENCY_TIMELOCK_SECS :: nat where "EMERGENCY_TIMELOCK_SECS = 24 * 60 * 60"
definition EMERGENCY_ADMIN_TTL_SECS :: nat where "EMERGENCY_ADMIN_TTL_SECS = 72 * 60 * 60"
definition EMERGENCY_CIRCUIT_WINDOW_SECS :: nat where
  "EMERGENCY_CIRCUIT_WINDOW_SECS = 24 * 60 * 60"
definition EMERGENCY_RELEASE_CAP_BPS :: int where "EMERGENCY_RELEASE_CAP_BPS = 1000"
definition EMERGENCY_BPS_DENOM :: int where "EMERGENCY_BPS_DENOM = 10000"
definition EMERGENCY_MSIG_THRESHOLD :: nat where "EMERGENCY_MSIG_THRESHOLD = 4"
definition EMERGENCY_MSIG_SIGNERS :: nat where "EMERGENCY_MSIG_SIGNERS = 7"

lemmas emergency_consts =
  EMERGENCY_TIMELOCK_SECS_def EMERGENCY_ADMIN_TTL_SECS_def EMERGENCY_CIRCUIT_WINDOW_SECS_def
  EMERGENCY_RELEASE_CAP_BPS_def EMERGENCY_BPS_DENOM_def EMERGENCY_MSIG_THRESHOLD_def
  EMERGENCY_MSIG_SIGNERS_def

record emergency_multisig =
  em_signers :: "addr list"
  em_threshold :: nat

record emergency_admin_role =
  er_admin :: addr
  er_granted_at :: nat
  er_expires_at :: nat
  er_scope :: symbol

record emergency_action =
  ea_id :: nat
  ea_action_type :: symbol
  ea_escrow_id :: nat
  ea_amount :: int
  ea_proposer :: addr
  ea_reason_hash :: hash32
  ea_params_hash :: hash32
  ea_proposed_at :: nat
  ea_execute_after :: nat
  ea_approval_count :: nat
  ea_signers :: "addr list"
  ea_executed :: bool
  ea_failed :: bool

record emergency_audit_record =
  eu_action_id :: nat
  eu_action_type :: symbol
  eu_escrow_id :: nat
  eu_amount :: int
  eu_proposer :: addr
  eu_participant_signers :: "addr list"
  eu_reason_hash :: hash32
  eu_params_hash :: hash32
  eu_timestamp :: nat
  eu_success :: bool

record circuit_breaker =
  cb_window_start :: nat
  cb_released :: int


section \<open>MultisigValidation\<close>

definition is_valid_emergency_config :: "addr list \<Rightarrow> nat \<Rightarrow> bool" where
  "is_valid_emergency_config signers threshold =
    (if length signers \<noteq> EMERGENCY_MSIG_SIGNERS then False
     else if threshold \<noteq> EMERGENCY_MSIG_THRESHOLD then False
     else let n = length signers in
       list_all (\<lambda>i. list_all (\<lambda>j. signers ! i \<noteq> signers ! j) [i + 1..<n]) [0..<n])"

definition is_emergency_signer :: "addr list \<Rightarrow> addr \<Rightarrow> bool" where
  "is_emergency_signer signers signer = list_ex (\<lambda>s. s = signer) signers"

definition validate_emergency_signatures :: "addr list \<Rightarrow> addr list \<Rightarrow> bool" where
  "validate_emergency_signatures registered approvals =
    (if length approvals \<noteq> EMERGENCY_MSIG_THRESHOLD then False
     else let n = length approvals in
       list_all (\<lambda>i. is_emergency_signer registered (approvals ! i) \<and>
         list_all (\<lambda>j. approvals ! i \<noteq> approvals ! j) [i + 1..<n]) [0..<n])"

text \<open>The mutated vector and the returned count.\<close>

definition aggregate_signatures :: "addr list \<Rightarrow> addr \<Rightarrow> addr list \<times> nat" where
  "aggregate_signatures approvals signer =
    (let approvals' = if list_ex (\<lambda>s. s = signer) approvals then approvals else approvals @ [signer]
     in (approvals', length approvals'))"

definition timelock_elapsed :: "nat \<Rightarrow> nat \<Rightarrow> bool" where
  "timelock_elapsed now execute_after \<longleftrightarrow> execute_after \<le> now"

definition compute_execute_after :: "nat \<Rightarrow> nat option" where
  "compute_execute_after proposed_at = checked_u64 (proposed_at + EMERGENCY_TIMELOCK_SECS)"

definition is_emergency_admin_active :: "emergency_admin_role \<Rightarrow> nat \<Rightarrow> bool" where
  "is_emergency_admin_active role now \<longleftrightarrow> now < er_expires_at role"

definition compute_admin_expiry :: "nat \<Rightarrow> nat option" where
  "compute_admin_expiry granted_at = checked_u64 (granted_at + EMERGENCY_ADMIN_TTL_SECS)"

definition max_releasable :: "int \<Rightarrow> int" where
  "max_releasable pool_total =
    (if pool_total \<le> 0 then 0
     else trunc_div (sat_i128 (pool_total * EMERGENCY_RELEASE_CAP_BPS)) EMERGENCY_BPS_DENOM)"

definition check_circuit_breaker :: "circuit_breaker \<Rightarrow> nat \<Rightarrow> int \<Rightarrow> int \<Rightarrow> circuit_breaker option" where
  "check_circuit_breaker state now pool_total additional =
    (let expired = EMERGENCY_CIRCUIT_WINDOW_SECS \<le> now - cb_window_start state;
         window_start = if expired then now else cb_window_start state;
         released = if expired then 0 else cb_released state;
         mx = max_releasable pool_total;
         new_total = sat_i128 (released + additional)
     in if mx < new_total then None
        else Some \<lparr>cb_window_start = window_start, cb_released = new_total\<rparr>)"

definition compute_params_hash :: "env \<Rightarrow> symbol \<Rightarrow> nat \<Rightarrow> int \<Rightarrow> hash32 \<Rightarrow> hash32" where
  "compute_params_hash env action_type escrow_id amount reason_hash =
    sha env [XSym action_type, XU64 escrow_id, XI128 amount, XHash reason_hash]"


section \<open>Signer sets\<close>

lemma pairwise_loop_distinct:
  "list_all (\<lambda>i. list_all (\<lambda>j. xs ! i \<noteq> xs ! j) [i + 1..<length xs]) [0..<length xs] \<longleftrightarrow> distinct xs"
  (is "?loop \<longleftrightarrow> _")
proof
  assume loop: ?loop
  have "xs ! i \<noteq> xs ! j" if "i < length xs" "j < length xs" "i \<noteq> j" for i j
  proof (cases "i < j")
    case True
    with loop that show ?thesis by (auto simp: list_all_iff)
  next
    case False
    with that have "j < i" by simp
    with loop that have "xs ! j \<noteq> xs ! i" by (auto simp: list_all_iff)
    then show ?thesis by simp
  qed
  then show "distinct xs" by (auto simp: distinct_conv_nth)
qed (auto simp: list_all_iff distinct_conv_nth)

lemma is_emergency_signer_iff [simp]: "is_emergency_signer xs a \<longleftrightarrow> a \<in> set xs"
  by (auto simp: is_emergency_signer_def list_ex_iff)

lemma valid_config_iff:
  "is_valid_emergency_config xs t \<longleftrightarrow> length xs = 7 \<and> t = 4 \<and> distinct xs"
  using pairwise_loop_distinct [of xs]
  by (cases "length xs = 7") (simp_all add: is_valid_emergency_config_def emergency_consts Let_def)

lemma validate_signatures_iff:
  "validate_emergency_signatures reg ap \<longleftrightarrow> length ap = 4 \<and> distinct ap \<and> set ap \<subseteq> set reg"
proof -
  have "list_all (\<lambda>i. is_emergency_signer reg (ap ! i) \<and>
          list_all (\<lambda>j. ap ! i \<noteq> ap ! j) [i + 1..<length ap]) [0..<length ap] \<longleftrightarrow>
        list_all (\<lambda>i. ap ! i \<in> set reg) [0..<length ap] \<and> distinct ap"
    unfolding pairwise_loop_distinct [symmetric] by (auto simp: list_all_iff)
  moreover have "list_all (\<lambda>i. ap ! i \<in> set reg) [0..<length ap] \<longleftrightarrow> set ap \<subseteq> set reg"
    unfolding list_all_iff subset_code(1) all_set_conv_all_nth by auto
  ultimately show ?thesis
    by (auto simp: validate_emergency_signatures_def emergency_consts Let_def)
qed

lemma aggregate_signatures_set [simp]:
  "set (fst (aggregate_signatures ap s)) = insert s (set ap)"
  by (auto simp: aggregate_signatures_def Let_def list_ex_iff)

lemma aggregate_signatures_distinct:
  "distinct ap \<Longrightarrow> distinct (fst (aggregate_signatures ap s))"
  by (auto simp: aggregate_signatures_def Let_def list_ex_iff)

lemma aggregate_signatures_count:
  "snd (aggregate_signatures ap s) = length (fst (aggregate_signatures ap s))"
  by (simp add: aggregate_signatures_def Let_def)

text \<open>
  C39. The emergency quorum. A configuration passes exactly when it is seven different signers with threshold four; and
  a set of approvals passes exactly when it is four different registered signers, so the
  validation loops compute the 4-of-7 rule.
\<close>

theorem emergency_quorum_sound:
  "(is_valid_emergency_config reg t \<longleftrightarrow> card (set reg) = 7 \<and> length reg = 7 \<and> t = 4) \<and>
   (validate_emergency_signatures reg ap \<longleftrightarrow>
      length ap = 4 \<and> card (set ap \<inter> set reg) = 4)"
proof
  show "is_valid_emergency_config reg t \<longleftrightarrow> card (set reg) = 7 \<and> length reg = 7 \<and> t = 4"
    using card_distinct [of reg] distinct_card [of reg] by (auto simp: valid_config_iff)
  show "validate_emergency_signatures reg ap \<longleftrightarrow> length ap = 4 \<and> card (set ap \<inter> set reg) = 4"
  proof
    assume "validate_emergency_signatures reg ap"
    then have "length ap = 4" "distinct ap" "set ap \<inter> set reg = set ap"
      by (auto simp: validate_signatures_iff)
    then show "length ap = 4 \<and> card (set ap \<inter> set reg) = 4"
      using distinct_card [of ap] by simp
  next
    assume *: "length ap = 4 \<and> card (set ap \<inter> set reg) = 4"
    have "card (set ap) \<le> 4" using * card_length [of ap] by simp
    with * have "set ap \<inter> set reg = set ap"
      by (intro card_seteq) auto
    with * have "set ap \<subseteq> set reg" "card (set ap) = length ap" by auto
    with * show "validate_emergency_signatures reg ap"
      using card_distinct [of ap] by (auto simp: validate_signatures_iff)
  qed
qed


section \<open>The circuit breaker\<close>

lemma max_releasable_nonneg: "0 \<le> max_releasable p"
proof (cases "0 < p")
  case True
  then have "0 \<le> sat_i128 (p * 1000)"
    by (auto simp: sat_i128_def i128_min_def i128_max_def)
  then show ?thesis
    using True by (simp add: max_releasable_def emergency_consts trunc_div_nonneg
        pos_imp_zdiv_nonneg_iff)
qed (simp add: max_releasable_def)

lemma max_releasable_tenth: "0 < p \<Longrightarrow> max_releasable p * 10 \<le> p"
proof -
  assume p: "0 < p"
  have sat: "0 \<le> sat_i128 (p * 1000)" "sat_i128 (p * 1000) \<le> p * 1000"
    using p by (auto simp: sat_i128_def i128_min_def i128_max_def)
  have "sat_i128 (p * 1000) div 10000 * 10000 \<le> sat_i128 (p * 1000)"
    by simp
  with sat p show ?thesis
    by (simp add: max_releasable_def emergency_consts trunc_div_nonneg)
qed

text \<open>Accepted releases, oldest first: time, pool, amount.\<close>

fun cb_run :: "circuit_breaker \<Rightarrow> (nat \<times> int \<times> int) list \<Rightarrow> circuit_breaker option" where
  "cb_run st [] = Some st"
| "cb_run st ((now, pool, amt) # evs) =
    (case check_circuit_breaker st now pool amt of None \<Rightarrow> None | Some st' \<Rightarrow> cb_run st' evs)"

definition released_between :: "nat \<Rightarrow> nat \<Rightarrow> (nat \<times> int \<times> int) list \<Rightarrow> int" where
  "released_between a b evs = (\<Sum>(t, p, x) \<leftarrow> evs. if a \<le> t \<and> t < b then x else 0)"

lemma released_between_simps [simp]:
  "released_between a b [] = 0"
  "released_between a b (evs @ [(t, p, x)]) =
     released_between a b evs + (if a \<le> t \<and> t < b then x else 0)"
  by (simp_all add: released_between_def)

lemma cb_run_snoc:
  "cb_run st (evs @ [(now, pool, amt)]) =
    (case cb_run st evs of None \<Rightarrow> None | Some st' \<Rightarrow> check_circuit_breaker st' now pool amt)"
  by (induction st evs rule: cb_run.induct) (auto split: option.splits)

abbreviation "cb_day \<equiv> EMERGENCY_CIRCUIT_WINDOW_SECS"

text \<open>
  What the state says about the past \<open>evs\<close>: the counter is what was released since the
  window opened, earlier releases lie before it, and the tail of the previous window within a
  day of this one is below the cap.
\<close>

definition cb_ok :: "int \<Rightarrow> circuit_breaker \<Rightarrow> (nat \<times> int \<times> int) list \<Rightarrow> bool" where
  "cb_ok cap st evs \<longleftrightarrow>
    (\<forall>(t, p, x) \<in> set evs. 0 \<le> x \<and> t < cb_window_start st + cb_day) \<and>
    (\<forall>b. released_between (cb_window_start st) b evs \<le> cb_released st) \<and>
    0 \<le> cb_released st \<and> cb_released st \<le> cap \<and>
    (\<forall>a. cb_window_start st < a + cb_day \<longrightarrow> released_between a (cb_window_start st) evs \<le> cap)"

lemma released_between_mono:
  assumes "\<forall>(t, p, x) \<in> set evs. 0 \<le> x" "a' \<le> a" "b \<le> b'"
  shows "released_between a b evs \<le> released_between a' b' evs"
  unfolding released_between_def using assms
  by (intro sum_list_mono) auto

lemma released_between_split:
  assumes "a \<le> m" "m \<le> b"
  shows "released_between a b evs = released_between a m evs + released_between m b evs"
  using assms by (induction evs) (auto simp: released_between_def)

lemma released_between_empty: "b \<le> a \<Longrightarrow> released_between a b evs = 0"
  by (induction evs) (auto simp: released_between_def)


lemma max_releasable_lt_max: "max_releasable p < i128_max"
proof -
  have "sat_i128 (p * 1000) div 10000 \<le> i128_max div 10000"
    by (intro zdiv_mono1) (auto simp: sat_i128_def i128_min_def i128_max_def)
  then show ?thesis
    by (auto simp: max_releasable_def emergency_consts trunc_div_nonneg sat_i128_def i128_min_def
        i128_max_def)
qed

text \<open>An accepted release, with the two cases of the window.\<close>

lemma check_circuit_breaker_Some:
  assumes "check_circuit_breaker st now pool amt = Some st'" "0 \<le> cb_released st" "0 \<le> amt"
  shows "cb_released st' \<le> max_releasable pool \<and>
    (if cb_day \<le> now - cb_window_start st
     then cb_window_start st' = now \<and> cb_released st' = amt
     else cb_window_start st' = cb_window_start st \<and> cb_released st' = cb_released st + amt)"
proof -
  have exact: "sat_i128 x = x" if "0 \<le> x" "sat_i128 x \<le> max_releasable pool" for x
    using that max_releasable_lt_max [of pool]
    by (auto simp: sat_i128_def i128_min_def i128_max_def min_def max_def split: if_splits)
  show ?thesis
    using assms exact [of amt] exact [of "cb_released st + amt"]
    by (auto simp: check_circuit_breaker_def Let_def split: if_splits)
qed

lemma cb_ok_step:
  assumes ok: "cb_ok cap st evs"
    and step: "check_circuit_breaker st now pool amt = Some st'"
    and amt: "0 \<le> amt" and cap: "max_releasable pool \<le> cap"
    and now: "cb_window_start st \<le> now" "\<forall>(t, p, x) \<in> set evs. t \<le> now"
  shows "cb_ok cap st' (evs @ [(now, pool, amt)])"
proof -
  let ?ws = "cb_window_start st"
  have pos: "\<forall>(t, p, x) \<in> set evs. 0 \<le> x" and early: "\<forall>(t, p, x) \<in> set evs. t < ?ws + cb_day"
    and cnt: "\<And>b. released_between ?ws b evs \<le> cb_released st"
    and bound: "0 \<le> cb_released st" "cb_released st \<le> cap"
    and tail: "\<And>a. ?ws < a + cb_day \<Longrightarrow> released_between a ?ws evs \<le> cap"
    using ok by (auto simp: cb_ok_def)
  note st' = check_circuit_breaker_Some [OF step bound(1) amt]
  have day: "0 < cb_day" by (simp add: emergency_consts)
  show ?thesis
  proof (cases "cb_day \<le> now - ?ws")
    case True
    then have new: "cb_window_start st' = now" "cb_released st' = amt" "?ws + cb_day \<le> now"
      using st' now day by auto
    have past: "released_between now b evs = 0" for b
    proof -
      have "\<forall>(t, p, x) \<in> set evs. t < now" using early new(3) by fastforce
      then show ?thesis by (induction evs) (auto simp: released_between_def)
    qed
    have "released_between a now evs \<le> cap" if "now < a + cb_day" for a
    proof -
      have "released_between a now evs \<le> released_between ?ws now evs"
        using that new(3) pos by (intro released_between_mono) auto
      then show ?thesis using cnt [of now] bound(2) by simp
    qed
    moreover have "\<forall>(t, p, x) \<in> set evs. t < now + cb_day"
      using now day by fastforce
    ultimately show ?thesis
      using new st' amt cap day pos past by (auto simp: cb_ok_def)
  next
    case False
    then have same: "cb_window_start st' = ?ws" "cb_released st' = cb_released st + amt"
      "now < ?ws + cb_day"
      using st' by auto
    have "released_between ?ws b evs + (if ?ws \<le> now \<and> now < b then amt else 0)
        \<le> cb_released st + amt" for b
      using cnt [of b] amt by auto
    moreover have "released_between a ?ws evs + (if a \<le> now \<and> now < ?ws then amt else 0) \<le> cap"
      if "?ws < a + cb_day" for a
      using tail [OF that] now by auto
    ultimately show ?thesis
      using same st' amt cap bound now day pos early
      by (auto simp: cb_ok_def)
  qed
qed

text \<open>
  One window passes at most the cap; an arbitrary day meets at most two windows.
\<close>

lemma cb_day_bound:
  assumes ok: "cb_ok cap st evs" and before: "\<And>a. released_between a (a + cb_day) evs0 \<le> 2 * cap"
    and evs: "evs = evs0 @ [(now, pool, amt)]" and now: "cb_window_start st \<le> now"
  shows "released_between a (a + cb_day) evs \<le> 2 * cap"
proof (cases "cb_window_start st < a + cb_day")
  case True
  let ?ws = "cb_window_start st"
  have pos: "\<forall>(t, p, x) \<in> set evs. 0 \<le> x" using ok by (auto simp: cb_ok_def)
  have "released_between ?ws b evs \<le> cap" for b
    using ok unfolding cb_ok_def by (meson order_trans)
  moreover have "released_between a ?ws evs \<le> cap"
    using ok True by (simp add: cb_ok_def)
  moreover have "released_between a (a + cb_day) evs \<le>
      released_between a ?ws evs + released_between ?ws (a + cb_day) evs"
  proof (cases "a \<le> ?ws")
    case True
    then show ?thesis using released_between_split [of a ?ws "a + cb_day" evs] \<open>?ws < a + cb_day\<close> by simp
  next
    case False
    then show ?thesis
      using released_between_mono [OF pos, of ?ws a "a + cb_day" "a + cb_day"]
      by (simp add: released_between_empty)
  qed
  ultimately show ?thesis by (smt (verit))
next
  case False
  then have "\<not> (a \<le> now \<and> now < a + cb_day)" using now by simp
  then show ?thesis using before [of a] evs by auto
qed

definition cb_history :: "int \<Rightarrow> nat \<Rightarrow> (nat \<times> int \<times> int) list \<Rightarrow> bool" where
  "cb_history cap start evs \<longleftrightarrow>
    sorted (start # map fst evs) \<and> (\<forall>(t, p, x) \<in> set evs. 0 \<le> x \<and> max_releasable p \<le> cap)"

lemma cb_run_ok:
  assumes "cb_run st evs = Some st'" "cb_released st = 0" "cb_history cap (cb_window_start st) evs" "0 \<le> cap"
  shows "cb_ok cap st' evs \<and> cb_window_start st' \<in> set (cb_window_start st # map fst evs) \<and>
    (\<forall>a. released_between a (a + cb_day) evs \<le> 2 * cap)"
  using assms
proof (induction evs arbitrary: st' rule: rev_induct)
  case Nil
  then show ?case by (auto simp: cb_ok_def)
next
  case (snoc e evs)
  obtain now pool amt where e: "e = (now, pool, amt)" by (cases e) auto
  from snoc.prems(1) e obtain st1 where
    st1: "cb_run st evs = Some st1" "check_circuit_breaker st1 now pool amt = Some st'"
    by (auto simp: cb_run_snoc split: option.splits)
  have hist: "cb_history cap (cb_window_start st) evs" "0 \<le> amt" "max_releasable pool \<le> cap"
    "\<forall>t \<in> set (cb_window_start st # map fst evs). t \<le> now"
    using snoc.prems(3) e by (auto simp: cb_history_def sorted_append)
  note IH = snoc.IH [OF st1(1) snoc.prems(2) hist(1) snoc.prems(4)]
  then have ws1: "cb_window_start st1 \<le> now" and bnd: "\<forall>(t, p, x) \<in> set evs. t \<le> now"
    and nn: "0 \<le> cb_released st1"
    using hist(4) by (force simp: cb_ok_def)+
  from IH have ok1: "cb_ok cap st1 evs" by simp
  have ok': "cb_ok cap st' (evs @ [(now, pool, amt)])"
    by (rule cb_ok_step [OF ok1 st1(2) hist(2,3) ws1 bnd])
  have ws': "cb_window_start st' = now \<or> cb_window_start st' = cb_window_start st1"
    using check_circuit_breaker_Some [OF st1(2) nn hist(2)] by (auto split: if_splits)
  then have "cb_window_start st' \<le> now" using ws1 by auto
  from cb_day_bound [OF ok' _ refl this] IH
  have "\<forall>a. released_between a (a + cb_day) (evs @ [(now, pool, amt)]) \<le> 2 * cap" by blast
  moreover have "cb_window_start st' \<in> set (cb_window_start st # map fst (evs @ [(now, pool, amt)]))"
    using ws' conjunct1 [OF conjunct2 [OF IH]] by (elim disjE) (simp, simp, blast)
  ultimately show ?case using ok' e by simp
qed

text \<open>
  What the circuit breaker lets through. Starting from a fresh breaker, if no pool snapshot allows more than \<open>cap\<close> per window, then
  the releases accepted within any 24 hours add up to at most twice the cap, and those since
  the current window opened to at most the cap. The window restarts at the first release after
  it expired, so the limit of one cap holds per window and not for every span of 24 hours.
\<close>

theorem circuit_breaker_daily_bound:
  assumes "cb_run st evs = Some st'" "cb_released st = 0" "0 \<le> cap"
    "cb_history cap (cb_window_start st) evs"
  shows "released_between a (a + 24 * 60 * 60) evs \<le> 2 * cap \<and>
    released_between (cb_window_start st') b evs \<le> cap"
proof -
  note ok = cb_run_ok [OF assms(1,2,4,3)]
  then have "released_between a (a + cb_day) evs \<le> 2 * cap" by blast
  moreover have "released_between (cb_window_start st') b evs \<le> cap"
    using ok unfolding cb_ok_def by (meson order_trans)
  ultimately show ?thesis by (simp add: emergency_consts)
qed

text \<open>
  The bound is reached: with a pool of 1000, 100 just before the window expires and 100 just
  after are 200 within two seconds.
\<close>

theorem circuit_breaker_daily_bound_witness:
  "released_between 86399 (86399 + 24 * 60 * 60) [(0, 1000, 0), (86399, 1000, 100), (86400, 1000, 100)]
     \<le> 2 * 100 \<and>
   released_between 86399 (86399 + 24 * 60 * 60) [(0, 1000, 0), (86399, 1000, 100), (86400, 1000, 100)]
     = 200"
  using circuit_breaker_daily_bound [of "\<lparr>cb_window_start = 0, cb_released = 0\<rparr>"
      "[(0, 1000, 0), (86399, 1000, 100), (86400, 1000, 100)]"
      "\<lparr>cb_window_start = 86400, cb_released = 100\<rparr>" 100 86399 0]
  by (simp add: check_circuit_breaker_def max_releasable_def emergency_consts sat_i128_def
      i128_min_def i128_max_def trunc_div_def cb_history_def released_between_def)

end
