(* ===== verification/Reentrancy.thy ===== *)
theory Reentrancy
  imports Prelude
begin

text \<open>
  \<open>contracts/shared/src/reentrancy_guard.rs\<close>: the storage lock with its caller stack and
  its "emergency pause". A guarded entry point takes the lock, runs, and releases it when the
  guard is dropped. A panic rolls the whole invocation back, the guard's own writes included;
  the model keeps what the code had written when it panicked, and then applies the rollback.
\<close>

section \<open>The guard's storage\<close>

definition MAX_CALLER_DEPTH :: nat where "MAX_CALLER_DEPTH = 8"

record guard_state =
  g_locks :: "symbol \<rightharpoonup> bool"
  g_depth :: "nat option"
  g_stack :: "nat \<rightharpoonup> addr"
  g_paused :: "symbol \<rightharpoonup> bool"
  g_attacker :: "symbol \<rightharpoonup> addr"

definition guard_init :: guard_state where
  "guard_init = \<lparr>g_locks = Map.empty, g_depth = None, g_stack = Map.empty, g_paused = Map.empty,
     g_attacker = Map.empty\<rparr>"

definition rg_is_paused :: "symbol option \<Rightarrow> guard_state \<Rightarrow> bool" where
  "rg_is_paused lock_name g =
    (case lock_name of Some name \<Rightarrow> get_or False (g_paused g name)
     | None \<Rightarrow> get_or False (g_paused g ''global''))"

definition rg_trigger_emergency_pause :: "symbol \<Rightarrow> addr option \<Rightarrow> guard_state \<Rightarrow> guard_state" where
  "rg_trigger_emergency_pause lock_name attacker g =
    (let g1 = g\<lparr>g_paused := (g_paused g)(lock_name \<mapsto> True, ''global'' \<mapsto> True)\<rparr> in
     case attacker of Some a \<Rightarrow> g1\<lparr>g_attacker := (g_attacker g1)(lock_name \<mapsto> a)\<rparr> | None \<Rightarrow> g1)"

definition rg_admin_resume :: "env \<Rightarrow> addr \<Rightarrow> symbol option \<Rightarrow> guard_state \<Rightarrow> 'e fail + guard_state" where
  "rg_admin_resume env admin lock_name g =
    ensure (auth_by env admin) AuthDenied
      (Inr (g\<lparr>g_paused := (g_paused g)((case lock_name of Some name \<Rightarrow> name | None \<Rightarrow> ''global'') := None)\<rparr>))"

definition rg_get_last_attacker :: "symbol \<Rightarrow> guard_state \<Rightarrow> addr option" where
  "rg_get_last_attacker lock_name g = g_attacker g lock_name"

definition rg_push_caller :: "addr \<Rightarrow> guard_state \<Rightarrow> guard_state" where
  "rg_push_caller caller g =
    (let depth = get_or 0 (g_depth g) in
     g\<lparr>g_stack := (g_stack g)(depth \<mapsto> caller), g_depth := Some (get_or MAX_CALLER_DEPTH (checked_u32 (depth + 1)))\<rparr>)"

definition rg_pop_caller :: "guard_state \<Rightarrow> guard_state" where
  "rg_pop_caller g =
    (let depth = get_or 0 (g_depth g) in
     if 0 < depth then g\<lparr>g_stack := (g_stack g)(depth - 1 := None), g_depth := Some (depth - 1)\<rparr> else g)"

text \<open>
  What a run has written, and the panic that ends it, if any.
\<close>

type_synonym raw = "guard_state \<times> string option"

definition rg_validate_caller_stack :: "addr \<Rightarrow> guard_state \<Rightarrow> raw" where
  "rg_validate_caller_stack new_caller g =
    (let depth = get_or 0 (g_depth g) in
     if MAX_CALLER_DEPTH \<le> depth then (g, Some ''maximum cross-contract caller depth exceeded'')
     else if list_ex (\<lambda>i. g_stack g i = Some new_caller \<and> 2 \<le> depth) [0..<depth]
     then (rg_trigger_emergency_pause ''call_loop'' (Some new_caller) g,
           Some ''circular caller pattern detected - possible reentrancy'')
     else (g, None))"

definition rg_enter_raw :: "symbol \<Rightarrow> addr option \<Rightarrow> guard_state \<Rightarrow> raw" where
  "rg_enter_raw lock_name caller g =
    (if get_or False (g_paused g lock_name)
     then (g, Some ''reentrancy guard is in emergency pause for this lock - admin review required'')
     else if get_or False (g_paused g ''global'')
     then (g, Some ''reentrancy guard is in global emergency pause - admin review required'')
     else if get_or False (g_locks g lock_name)
     then (rg_trigger_emergency_pause lock_name caller g,
           Some ''reentrant call detected - emergency pause triggered'')
     else
       let (g1, p) = (case caller of None \<Rightarrow> (g, None)
                      | Some a \<Rightarrow> (case rg_validate_caller_stack a g of
                                    (g', Some m) \<Rightarrow> (g', Some m)
                                  | (g', None) \<Rightarrow> (rg_push_caller a g', None)))
       in case p of Some m \<Rightarrow> (g1, Some m) | None \<Rightarrow> (g1\<lparr>g_locks := (g_locks g1)(lock_name \<mapsto> True)\<rparr>, None))"

text \<open>The host keeps the writes only if the invocation does not panic.\<close>

definition rg_commit :: "raw \<Rightarrow> 'e fail + guard_state" where
  "rg_commit r = (case r of (g, None) \<Rightarrow> Inr g | (g, Some m) \<Rightarrow> Inl (Panic m))"

definition rg_enter :: "symbol \<Rightarrow> addr option \<Rightarrow> guard_state \<Rightarrow> 'e fail + guard_state" where
  "rg_enter lock_name caller g = rg_commit (rg_enter_raw lock_name caller g)"

definition rg_release :: "symbol \<Rightarrow> addr option \<Rightarrow> guard_state \<Rightarrow> guard_state" where
  "rg_release lock_name caller g =
    (let g1 = g\<lparr>g_locks := (g_locks g)(lock_name := None)\<rparr> in
     case caller of Some _ \<Rightarrow> rg_pop_caller g1 | None \<Rightarrow> g1)"


section \<open>Mutual exclusion, and the fate of the pause\<close>

lemma rg_enter_Inr:
  assumes "rg_enter l c g = (Inr g' :: 'e fail + guard_state)"
  shows "\<not> get_or False (g_locks g l) \<and> \<not> get_or False (g_paused g ''global'') \<and>
    \<not> get_or False (g_paused g l) \<and>
    g' = (case c of None \<Rightarrow> g | Some a \<Rightarrow> rg_push_caller a g)\<lparr>g_locks := (g_locks g)(l \<mapsto> True)\<rparr> \<and>
    (\<forall>a. c = Some a \<longrightarrow> get_or 0 (g_depth g) < MAX_CALLER_DEPTH)"
  using assms
  by (auto simp: rg_enter_def rg_enter_raw_def rg_commit_def rg_validate_caller_stack_def
      rg_push_caller_def Let_def split: if_splits option.splits)

definition guard_ok :: "guard_state \<Rightarrow> bool" where
  "guard_ok g \<longleftrightarrow> (\<forall>i. get_or 0 (g_depth g) \<le> i \<longrightarrow> g_stack g i = None)"

lemma rg_enter_release:
  assumes "rg_enter l c g = (Inr g' :: 'e fail + guard_state)" "guard_ok g"
  shows "get_or 0 (g_depth (rg_release l c g')) = get_or 0 (g_depth g) \<and>
    g_stack (rg_release l c g') = g_stack g \<and> g_paused (rg_release l c g') = g_paused g \<and>
    g_attacker (rg_release l c g') = g_attacker g \<and>
    g_locks (rg_release l c g') = (g_locks g)(l := None) \<and> guard_ok (rg_release l c g')"
proof -
  have "g_stack g (get_or 0 (g_depth g)) = None" using assms(2) by (simp add: guard_ok_def)
  then have "(g_stack g)(get_or 0 (g_depth g) := None) = g_stack g" by auto
  then show ?thesis
    using rg_enter_Inr [OF assms(1)] assms(2)
    by (cases c)
      (auto simp: rg_release_def rg_push_caller_def rg_pop_caller_def guard_ok_def Let_def
        checked_u32_def u32_max_def MAX_CALLER_DEPTH_def)
qed

text \<open>
  A guarded call in a state that contains the guard: the body runs with the lock held.
  \<open>get\<close> and \<open>put\<close> access the guard's storage.
\<close>

definition guarded ::
    "('s \<Rightarrow> guard_state) \<Rightarrow> (guard_state \<Rightarrow> 's \<Rightarrow> 's) \<Rightarrow> symbol \<Rightarrow> addr option \<Rightarrow> 's \<Rightarrow>
     ('s \<Rightarrow> 'e fail + 'r \<times> 's) \<Rightarrow> 'e fail + 'r \<times> 's" where
  "guarded get put lock_name caller s body =
    rbind (rg_enter lock_name caller (get s)) (\<lambda>g.
    rbind (body (put g s)) (\<lambda>(r, s').
    Inr (r, put (rg_release lock_name caller (get s')) s')))"

lemma guarded_Inr:
  "guarded get put l c s body = (Inr (r, s2) :: 'e fail + 'r \<times> 's) \<longleftrightarrow>
    (\<exists>g s1. rg_enter l c (get s) = (Inr g :: 'e fail + guard_state) \<and> body (put g s) = Inr (r, s1) \<and>
       s2 = put (rg_release l c (get s1)) s1)"
  by (auto simp: guarded_def res_simps split: prod.splits)

text \<open>
  The guard excludes nesting and never stays paused. While a lock is held, entering it again
  fails, whoever the caller is. The failing call does write the emergency pause and the
  attacker before it panics, but the panic rolls these writes back: an entry that
  succeeds leaves the pause flags as they were, so no sequence of successful or failed calls
  ever pauses the guard.
\<close>

theorem reentrancy_guard_exclusive:
  "(rg_enter l c g = (Inr g' :: 'e fail + guard_state) \<longrightarrow>
      g_paused g' = g_paused g \<and> (\<exists>m. rg_enter l c' g' = (Inl (Panic m) :: 'e fail + guard_state))) \<and>
   (get_or False (g_locks g l) \<and> \<not> get_or False (g_paused g l) \<and>
      \<not> get_or False (g_paused g ''global'') \<longrightarrow>
      rg_is_paused None (fst (rg_enter_raw l c g)) \<and> (\<exists>m. rg_enter l c g = (Inl (Panic m) :: 'e fail + guard_state)))"
proof (intro conjI impI)
  assume "rg_enter l c g = (Inr g' :: 'e fail + guard_state)"
  note e = rg_enter_Inr [OF this]
  then show "g_paused g' = g_paused g" by (auto simp: rg_push_caller_def Let_def split: option.splits)
  have "g_locks g' l = Some True" using e by auto
  then show "\<exists>m. rg_enter l c' g' = (Inl (Panic m) :: 'e fail + guard_state)"
    by (auto simp: rg_enter_def rg_enter_raw_def rg_commit_def)
next
  assume *: "get_or False (g_locks g l) \<and> \<not> get_or False (g_paused g l) \<and>
    \<not> get_or False (g_paused g ''global'')"
  then show "rg_is_paused None (fst (rg_enter_raw l c g))"
    by (auto simp: rg_enter_raw_def rg_is_paused_def rg_trigger_emergency_pause_def Let_def
        split: option.splits)
  show "\<exists>m. rg_enter l c g = (Inl (Panic m) :: 'e fail + guard_state)"
    using * by (auto simp: rg_enter_def rg_enter_raw_def rg_commit_def)
qed

theorem reentrancy_guard_exclusive_witness:
  "\<exists>g m. rg_enter ''release'' (Some 5) guard_init = (Inr g :: unit fail + guard_state) \<and>
     rg_enter ''release'' (Some 6) g = (Inl (Panic m) :: unit fail + guard_state)"
proof -
  obtain g where g: "rg_enter ''release'' (Some 5) guard_init = (Inr g :: unit fail + guard_state)"
    by (simp add: rg_enter_def rg_enter_raw_def rg_commit_def guard_init_def
        rg_validate_caller_stack_def MAX_CALLER_DEPTH_def rg_push_caller_def checked_u32_def
        u32_max_def)
  then show ?thesis
    using reentrancy_guard_exclusive [of "''release''" "Some 5" guard_init g "Some 6", where 'e = unit]
    by blast
qed

end
