(* ===== verification/Recovery.thy ===== *)
theory Recovery
  imports Emergency
begin

text \<open>
  \<open>contracts/shared/src/admin.rs\<close>, \<open>disaster_recovery.rs\<close> and \<open>emergency_rollback.rs\<close>: the
  two-step admin transfer, snapshots with their rolling index, and the rules for emergency
  rollbacks.
\<close>

section \<open>Admin transfer\<close>

datatype admin_change_proposal = AC_Proposed | AC_Accepted | AC_Revoked

record admin_transfer =
  at_new_admin :: addr
  at_effective_at :: nat
  at_status :: admin_change_proposal

definition MIN_ADMIN_TIMELOCK_SECS :: nat where "MIN_ADMIN_TIMELOCK_SECS = 48 * 60 * 60"
definition ADMIN_COOLING_OFF_SECS :: nat where "ADMIN_COOLING_OFF_SECS = 24 * 60 * 60"


section \<open>Snapshots\<close>

record snapshot_meta =
  sn_created_at :: nat
  sn_block_height :: nat
  sn_version :: hash32
  sn_admin :: addr
  sn_checksum :: hash32
  sn_record_count :: nat
  sn_index :: nat

record verification_report =
  vr_fields_checked :: nat
  vr_mismatches :: "string list"

record rollback_proposal =
  rb_id :: nat
  rb_snapshot :: nat
  rb_old_wasm :: hash32
  rb_count :: nat
  rb_executed :: bool
  rb_created_at :: nat
  rb_proposer :: addr

definition MAX_SNAPSHOTS :: nat where "MAX_SNAPSHOTS = 3"
definition EMERGENCY_THRESHOLD :: nat where "EMERGENCY_THRESHOLD = 4"

text \<open>The mutated index and the evicted number.\<close>

definition push_snapshot_index :: "nat list \<Rightarrow> nat \<Rightarrow> nat list \<times> nat option" where
  "push_snapshot_index index new_id =
    (let index' = index @ [new_id] in
     if MAX_SNAPSHOTS < length index' then (tl index', Some (hd index')) else (index', None))"

lemma push_snapshot_index_window:
  "length index \<le> MAX_SNAPSHOTS \<Longrightarrow> length (fst (push_snapshot_index index i)) \<le> MAX_SNAPSHOTS"
  by (simp add: push_snapshot_index_def MAX_SNAPSHOTS_def Let_def)


section \<open>Rollback authorisation\<close>

definition ROLLBACK_MAX_WINDOW_SECS :: nat where "ROLLBACK_MAX_WINDOW_SECS = 24 * 60 * 60"
definition ROLLBACK_COMMUNITY_REVIEW_SECS :: nat where "ROLLBACK_COMMUNITY_REVIEW_SECS = 48 * 60 * 60"

datatype rollback_scope = RS_Escrow | RS_Governance | RS_Contract addr

record rollback_justification =
  rj_evidence :: hash32
  rj_incident :: hash32
  rj_description :: hash32

record emergency_rollback =
  er_id :: nat
  er_snapshot :: nat
  er_old_wasm :: hash32
  er_rscope :: rollback_scope
  er_justification :: rollback_justification
  er_proposer :: addr
  er_proposed_at :: nat
  er_review_ends :: nat
  er_tech_count :: nat
  er_tech_signers :: "addr list"
  er_gov_id :: "nat option"
  er_gov_approved :: bool
  er_executed :: bool
  er_rejected :: bool

text \<open>The hash of 32 zero bytes is the number 0.\<close>

definition validate_justification :: "rollback_justification \<Rightarrow> bool" where
  "validate_justification j \<longleftrightarrow> rj_evidence j \<noteq> 0 \<and> rj_incident j \<noteq> 0"

definition validate_scope_window :: "nat \<Rightarrow> nat \<Rightarrow> bool" where
  "validate_scope_window now snapshot_created_at =
    (if now < snapshot_created_at then False else now - snapshot_created_at \<le> ROLLBACK_MAX_WINDOW_SECS)"

definition compute_review_ends_at :: "nat \<Rightarrow> nat option" where
  "compute_review_ends_at proposed_at = checked_u64 (proposed_at + ROLLBACK_COMMUNITY_REVIEW_SECS)"

definition community_review_elapsed :: "nat \<Rightarrow> nat \<Rightarrow> bool" where
  "community_review_elapsed now review_ends_at \<longleftrightarrow> review_ends_at \<le> now"

definition technical_threshold_met :: "nat \<Rightarrow> bool" where
  "technical_threshold_met count \<longleftrightarrow> EMERGENCY_THRESHOLD \<le> count \<and> count \<le> EMERGENCY_MSIG_SIGNERS"

definition exact_technical_threshold_met :: "nat \<Rightarrow> bool" where
  "exact_technical_threshold_met count \<longleftrightarrow> count = EMERGENCY_MSIG_THRESHOLD"

definition is_registered_signer :: "addr list \<Rightarrow> addr \<Rightarrow> bool" where
  "is_registered_signer signers candidate = list_ex (\<lambda>s. s = candidate) signers"

definition aggregate_technical_approval :: "addr list \<Rightarrow> addr \<Rightarrow> addr list \<times> nat" where
  "aggregate_technical_approval approvals signer =
    (let approvals' = if \<not> list_ex (\<lambda>s. s = signer) approvals then approvals @ [signer] else approvals
     in (approvals', length approvals'))"

definition validate_technical_signatures :: "addr list \<Rightarrow> addr list \<Rightarrow> bool" where
  "validate_technical_signatures registered approvals =
    (if length approvals \<noteq> EMERGENCY_MSIG_THRESHOLD then False
     else let n = length approvals in
       list_all (\<lambda>i. is_registered_signer registered (approvals ! i) \<and>
         list_all (\<lambda>j. approvals ! i \<noteq> approvals ! j) [i + 1..<n]) [0..<n])"

definition ready_to_execute :: "emergency_rollback \<Rightarrow> nat \<Rightarrow> bool" where
  "ready_to_execute r now \<longleftrightarrow>
    \<not> er_executed r \<and> \<not> er_rejected r \<and> er_gov_approved r \<and>
    exact_technical_threshold_met (er_tech_count r) \<and> community_review_elapsed now (er_review_ends r)"

text \<open>The two copies of the signature check in the shared library agree.\<close>

lemma technical_signatures_agree:
  "validate_technical_signatures = validate_emergency_signatures"
  by (intro ext) (simp add: validate_technical_signatures_def validate_emergency_signatures_def
      is_registered_signer_def list_ex_iff)

end
