(* ===== verification/EscrowState.thy ===== *)
theory EscrowState
  imports Sep41 Protections FailureTracking Emergency Reentrancy Recovery
begin

text \<open>
  Data and storage of the escrow contract, \<open>escrow/src/lib.rs\<close>, with the helpers every entry
  point uses: reading an entry, paying out of the contract, logging a status transition.

  Storage is one record with a field for each storage key that the modelled entry points use,
  a map where the key has an argument; it is built in three layers so that the fee functions
  only mention the fee fields. Time-to-live of entries is not modelled, except that
  \<open>extend_ttl\<close> on a missing entry traps.
\<close>

section \<open>Types\<close>

datatype escrow_error = SessionAuthFailed | EDuplicateEntry

datatype milestone_status = MSPending | MSCompleted | MSDisputed

record milestone_spec =
  ms_description_hash :: hash32
  ms_amount :: int

record milestone_escrow =
  me_id :: nat
  me_mentor :: addr
  me_learner :: addr
  me_total_amount :: int
  me_milestones :: "milestone_spec list"
  me_statuses :: "milestone_status list"
  me_status :: escrow_status
  me_created_at :: nat
  me_token :: addr
  me_platform_fee :: int
  me_net_amount :: int

record escrow_rec =
  e_id :: nat
  e_mentor :: addr
  e_learner :: addr
  e_amount :: int
  e_session_id :: symbol
  e_status :: escrow_status
  e_created_at :: nat
  e_token :: addr
  e_platform_fee :: int
  e_net_amount :: int
  e_session_end :: nat
  e_auto_delay :: nat
  e_dispute_reason :: symbol
  e_resolved_at :: nat
  e_usd_amount :: int
  e_quoted :: int
  e_send_asset :: addr
  e_dest_asset :: addr
  e_total_sessions :: nat
  e_completed :: nat

record escrow_legacy =
  l_id :: nat
  l_mentor :: addr
  l_learner :: addr
  l_amount :: int
  l_session_id :: symbol
  l_status :: escrow_status
  l_created_at :: nat
  l_token :: addr
  l_platform_fee :: int
  l_net_amount :: int
  l_session_end :: nat
  l_auto_delay :: nat
  l_dispute_reason :: symbol
  l_resolved_at :: nat

record transition_log =
  tl_from :: escrow_status
  tl_to :: escrow_status
  tl_actor :: addr
  tl_timestamp :: nat

record fee_schedule =
  fs_tier0 :: nat
  fs_tier1 :: nat
  fs_tier2 :: nat
  fs_tier3 :: nat
  fs_threshold :: int
  fs_discount :: nat

record invariant_report =
  ir_escrow_id :: nat
  ir_funds_conserved :: bool
  ir_transition_consistent :: bool
  ir_terminal_state_immutable :: bool
  ir_treasury_consistent :: bool
  ir_violation_count :: nat
  ir_checked_at :: nat


section \<open>Storage\<close>

record fee_state =
  f_admin :: "addr option"
  f_treasury :: "addr option"
  f_fee_bps :: "nat option"
  f_schedule :: "fee_schedule option"
  f_staking :: "addr option"
  f_dyn_enabled :: "bool option"
  f_pool :: "addr option"
  f_price_cache :: "int option"
  f_price_time :: "nat option"

record core_state = fee_state +
  x_count :: "nat option"
  x_mcount :: "nat option"
  x_delay :: "nat option"
  x_escrows :: "nat \<rightharpoonup> escrow_rec"
  x_legacy :: "nat \<rightharpoonup> escrow_legacy"
  x_mescrows :: "nat \<rightharpoonup> milestone_escrow"
  x_approved :: "addr \<rightharpoonup> bool"
  x_sessions :: "symbol \<rightharpoonup> bool"
  x_nonces :: "hash32 \<rightharpoonup> bool"
  x_mentor_idx :: "addr \<rightharpoonup> nat list"
  x_learner_idx :: "addr \<rightharpoonup> nat list"
  x_tlog :: "nat \<rightharpoonup> transition_log list"
  x_low_fee :: "addr \<times> addr \<rightharpoonup> nat"
  x_failures :: "nat \<rightharpoonup> release_failure"
  x_isolated :: "nat \<rightharpoonup> bool"
  x_guard :: guard_state
  x_reputation :: "addr option"
  x_insurance :: "addr option"
  x_registry :: "addr option"
  x_oracle :: "addr option"
  x_oracle_max_age :: "nat option"
  x_reviews :: "nat \<rightharpoonup> symbol"

record escrow_state = core_state +
  y_multisig :: "addr option"
  y_governance :: "addr option"
  y_pending_admin :: "admin_transfer option"
  y_last_admin_change :: "nat option"
  y_stuck :: "nat list option"
  y_signers :: "addr list option"
  y_msig_config :: "emergency_multisig option"
  y_proposals :: "nat \<rightharpoonup> emergency_action"
  y_approvals :: "nat \<times> addr \<rightharpoonup> bool"
  y_prop_count :: "nat option"
  y_audits :: "nat \<rightharpoonup> emergency_audit_record"
  y_failed_params :: "hash32 \<rightharpoonup> bool"
  y_emerg_admin :: "emergency_admin_role option"
  y_circuit :: "circuit_breaker option"
  y_action_log :: "nat \<rightharpoonup> nat list"
  y_evidence :: "nat \<rightharpoonup> nat"
  y_res_approvals :: "nat \<rightharpoonup> addr list"
  y_payment_audit :: "nat \<rightharpoonup> payment_audit_entry"
  y_reports :: "nat \<rightharpoonup> invariant_report"
  y_state_lock :: "nat \<rightharpoonup> bool"

definition escrow_empty :: escrow_state where
  "escrow_empty = \<lparr>f_admin = None, f_treasury = None, f_fee_bps = None, f_schedule = None,
     f_staking = None, f_dyn_enabled = None, f_pool = None, f_price_cache = None,
     f_price_time = None, x_count = None, x_mcount = None, x_delay = None,
     x_escrows = Map.empty, x_legacy = Map.empty, x_mescrows = Map.empty,
     x_approved = Map.empty, x_sessions = Map.empty, x_nonces = Map.empty,
     x_mentor_idx = Map.empty, x_learner_idx = Map.empty, x_tlog = Map.empty,
     x_low_fee = Map.empty, x_failures = Map.empty, x_isolated = Map.empty,
     x_guard = guard_init, x_reputation = None, x_insurance = None, x_registry = None,
     x_oracle = None, x_oracle_max_age = None, x_reviews = Map.empty,
     y_multisig = None, y_governance = None, y_pending_admin = None,
     y_last_admin_change = None, y_stuck = None, y_signers = None, y_msig_config = None,
     y_proposals = Map.empty, y_approvals = Map.empty, y_prop_count = None,
     y_audits = Map.empty, y_failed_params = Map.empty, y_emerg_admin = None,
     y_circuit = None, y_action_log = Map.empty, y_evidence = Map.empty,
     y_res_approvals = Map.empty, y_payment_audit = Map.empty, y_reports = Map.empty,
     y_state_lock = Map.empty\<rparr>"

text \<open>
  The contracts the escrow calls besides the token, as functions of the contract's address and
  the call's arguments: staking tier, reputation callback, insurance coverage, the interface
  registry's verification, the price oracle. The host forbids re-entering the escrow, so
  such a call cannot change the escrow's storage.
\<close>

record peers =
  p_get_tier :: "addr \<Rightarrow> addr \<Rightarrow> unit fail + nat"
  p_session_released :: "addr \<Rightarrow> nat \<Rightarrow> addr \<Rightarrow> addr \<Rightarrow> int \<Rightarrow> unit fail + unit"
  p_coverage_ratio :: "addr \<Rightarrow> unit fail + nat"
  p_verify :: "addr \<Rightarrow> addr \<Rightarrow> symbol \<Rightarrow> unit fail + bool"
  p_price :: "addr \<Rightarrow> symbol \<Rightarrow> unit fail + int \<times> nat"

definition quiet_peers :: peers where
  "quiet_peers = \<lparr>p_get_tier = (\<lambda>_ _. Inr 0), p_session_released = (\<lambda>_ _ _ _ _. Inr ()),
     p_coverage_ratio = (\<lambda>_. Inr 100), p_verify = (\<lambda>_ _ _. Inr True), p_price = (\<lambda>_ _. Inr (10000000, 0))\<rparr>"


section \<open>Constants\<close>

definition ESC_MAX_FEE_BPS :: nat where "ESC_MAX_FEE_BPS = 1000"
definition DEFAULT_FEE_BPS :: nat where "DEFAULT_FEE_BPS = 500"
definition DEFAULT_AUTO_RELEASE_DELAY :: nat where "DEFAULT_AUTO_RELEASE_DELAY = 72 * 60 * 60"
definition GRACE_PERIOD_SECS :: nat where "GRACE_PERIOD_SECS = 7 * 24 * 60 * 60"

lemmas escrow_consts =
  ESC_MAX_FEE_BPS_def DEFAULT_FEE_BPS_def DEFAULT_AUTO_RELEASE_DELAY_def GRACE_PERIOD_SECS_def
  MIN_ADMIN_TIMELOCK_SECS_def ADMIN_COOLING_OFF_SECS_def


section \<open>Shared helpers\<close>

text \<open>\<open>require_auth\<close> of an address.\<close>

definition need_auth :: "env \<Rightarrow> addr \<Rightarrow> 'e fail + 'a \<Rightarrow> 'e fail + 'a" where
  "need_auth env a k = ensure (auth_by env a) AuthDenied k"

text \<open>Fee to the treasury when positive, then the net amount to the mentor.\<close>

definition pay_fee_and_net ::
    "'t token_ops \<Rightarrow> env \<Rightarrow> addr \<Rightarrow> addr \<Rightarrow> int \<Rightarrow> addr \<Rightarrow> int \<Rightarrow> 't \<Rightarrow> 'e fail + 't" where
  "pay_fee_and_net T env tk treasury fee mentor net w =
    rbind (if 0 < fee then pay_self T env tk treasury fee w else Inr w) (\<lambda>w1.
    pay_self T env tk mentor net w1)"

definition set_token_approved :: "addr \<Rightarrow> bool \<Rightarrow> 'a core_state_scheme \<Rightarrow> 'a core_state_scheme" where
  "set_token_approved token_address approved s =
    s\<lparr>x_approved := (x_approved s)(token_address \<mapsto> approved)\<rparr>"

definition is_token_approved :: "addr \<Rightarrow> 'a core_state_scheme \<Rightarrow> bool" where
  "is_token_approved token_address s = get_or False (x_approved s token_address)"

definition is_isolated :: "nat \<Rightarrow> 'a core_state_scheme \<Rightarrow> bool" where
  "is_isolated escrow_id s = get_or False (x_isolated s escrow_id)"

definition transition_status ::
    "env \<Rightarrow> nat \<Rightarrow> escrow_status \<Rightarrow> escrow_status \<Rightarrow> addr \<Rightarrow> 'a core_state_scheme \<Rightarrow>
     'e fail + escrow_status \<times> 'a core_state_scheme" where
  "transition_status env escrow_id old_status new_status actor s =
    rbind (sm_transition escrow_valid_transition old_status new_status) (\<lambda>final_status.
    let log_entry = \<lparr>tl_from = old_status, tl_to = final_status, tl_actor = actor,
                     tl_timestamp = ledger_ts env\<rparr>;
        logs = get_or [] (x_tlog s escrow_id) @ [log_entry]
    in Inr (final_status, s\<lparr>x_tlog := (x_tlog s)(escrow_id \<mapsto> logs)\<rparr>))"

definition legacy_to_current :: "escrow_legacy \<Rightarrow> escrow_rec" where
  "legacy_to_current old =
    \<lparr>e_id = l_id old, e_mentor = l_mentor old, e_learner = l_learner old, e_amount = l_amount old,
     e_session_id = l_session_id old, e_status = l_status old, e_created_at = l_created_at old,
     e_token = l_token old, e_platform_fee = l_platform_fee old, e_net_amount = l_net_amount old,
     e_session_end = l_session_end old, e_auto_delay = l_auto_delay old,
     e_dispute_reason = l_dispute_reason old, e_resolved_at = l_resolved_at old,
     e_usd_amount = 0, e_quoted = l_amount old, e_send_asset = l_token old,
     e_dest_asset = l_token old, e_total_sessions = 1, e_completed = 0\<rparr>"

definition load_escrow :: "nat \<Rightarrow> 'a core_state_scheme \<Rightarrow> 'e fail + escrow_rec" where
  "load_escrow escrow_id s =
    (case x_escrows s escrow_id of Some current \<Rightarrow> Inr current
     | None \<Rightarrow> (case x_legacy s escrow_id of Some old \<Rightarrow> Inr (legacy_to_current old)
                | None \<Rightarrow> Inl (Panic ''Escrow not found'')))"

text \<open>
  \<open>extend_ttl\<close> on the entry, then \<open>get\<close>: the first traps when the entry is missing, so the
  \<open>expect\<close> on the second is never reached.
\<close>

definition touch :: "'v option \<Rightarrow> ('v \<Rightarrow> 'e fail + 'a) \<Rightarrow> 'e fail + 'a" where
  "touch v k = expect v HostError k"

abbreviation put_guard :: "guard_state \<Rightarrow> 'a core_state_scheme \<Rightarrow> 'a core_state_scheme" where
  "put_guard g s \<equiv> s\<lparr>x_guard := g\<rparr>"

text \<open>
  A guarded entry point on the escrow's storage \<open>s\<close> and the tokens \<open>w\<close>; the body returns a
  value and the new state.
\<close>

definition with_guard ::
    "symbol \<Rightarrow> addr option \<Rightarrow> 'a core_state_scheme \<times> 't \<Rightarrow>
     ('a core_state_scheme \<times> 't \<Rightarrow> 'e fail + 'r \<times> 'a core_state_scheme \<times> 't) \<Rightarrow>
     'e fail + 'r \<times> 'a core_state_scheme \<times> 't" where
  "with_guard lock_name caller sw body =
    guarded (\<lambda>(s, w). x_guard s) (\<lambda>g (s, w). (put_guard g s, w)) lock_name caller sw body"

lemma need_auth_Inr [res_simps]: "need_auth env a k = Inr x \<longleftrightarrow> auth_by env a \<and> k = Inr x"
  by (simp add: need_auth_def res_simps)

lemma need_auth_simps [simp]: "auth_by env a \<Longrightarrow> need_auth env a k = k"
  by (simp add: need_auth_def)

lemma touch_Inr [res_simps]: "touch v k = Inr x \<longleftrightarrow> (\<exists>a. v = Some a \<and> k a = Inr x)"
  by (simp add: touch_def res_simps)

lemma touch_simps [simp]: "touch (Some a) k = k a" "touch None k = Inl HostError"
  by (simp_all add: touch_def)

text \<open>The log with one more entry for the escrow \<open>i\<close>.\<close>

definition append_log ::
    "env \<Rightarrow> nat \<Rightarrow> escrow_status \<Rightarrow> escrow_status \<Rightarrow> addr \<Rightarrow> (nat \<rightharpoonup> transition_log list) \<Rightarrow>
     (nat \<rightharpoonup> transition_log list)" where
  "append_log env i old new a m =
    m(i \<mapsto> get_or [] (m i) @ [\<lparr>tl_from = old, tl_to = new, tl_actor = a, tl_timestamp = ledger_ts env\<rparr>])"

lemma transition_status_Inr [res_simps]:
  "transition_status env i old new a s = Inr (st, s') \<longleftrightarrow>
    escrow_valid_transition old new \<and> st = new \<and>
    s' = s\<lparr>x_tlog := append_log env i old new a (x_tlog s)\<rparr>"
  by (auto simp: transition_status_def sm_transition_def append_log_def res_simps Let_def)

lemma with_guard_Inr [res_simps]:
  "with_guard l c (s, w) body = (Inr (r, s2, w2) :: 'e fail + 'r \<times> 'a core_state_scheme \<times> 't) \<longleftrightarrow>
    (\<exists>g s1. rg_enter l c (x_guard s) = (Inr g :: 'e fail + guard_state) \<and>
       body (put_guard g s, w) = Inr (r, s1, w2) \<and>
       s2 = put_guard (rg_release l c (x_guard s1)) s1)"
  by (auto simp: with_guard_def guarded_Inr)

end
