(* ===== verification/EscrowFees.thy ===== *)
theory EscrowFees
  imports EscrowState
begin

text \<open>
  Platform fees of \<open>escrow/src/lib.rs\<close>: the flat fee, the graduated schedule by staking tier,
  the price multiplier, the volume discount; the entry points that configure them; bounds on
  every fee the contract can charge.
\<close>

section \<open>Prices\<close>

definition price_multiplier_bps :: "int \<Rightarrow> nat" where
  "price_multiplier_bps price =
    (if price \<le> 0 then 10000
     else if price < 1000000 then 12500
     else if price < 5000000 then 11000
     else if price < 10000000 then 10000
     else 9000)"

definition legacy_fee_from_price :: "int \<Rightarrow> nat" where
  "legacy_fee_from_price price =
    (if price \<le> 0 then DEFAULT_FEE_BPS
     else if price < 1000000 then 500
     else if price < 5000000 then 400
     else if price < 10000000 then 300
     else 200)"

text \<open>The pool is not queried: the source returns a placeholder when one is configured.\<close>

definition fetch_mnt_usdc_price :: "'a fee_state_scheme \<Rightarrow> int" where
  "fetch_mnt_usdc_price s = (case f_pool s of Some _ \<Rightarrow> 7500000 | None \<Rightarrow> 0)"

text \<open>The price of the current ledger, cached in instance storage.\<close>

definition cached_price :: "env \<Rightarrow> 'a fee_state_scheme \<Rightarrow> int \<times> 'a fee_state_scheme" where
  "cached_price env s =
    (let current_ledger = ledger_seq env; cached_ledger = get_or 0 (f_price_time s) in
     if cached_ledger = current_ledger then (get_or 0 (f_price_cache s), s)
     else let p = fetch_mnt_usdc_price s
          in (p, s\<lparr>f_price_cache := Some p, f_price_time := Some current_ledger\<rparr>))"

definition get_dynamic_fee :: "env \<Rightarrow> 'a fee_state_scheme \<Rightarrow> 'e fail + nat \<times> 'a fee_state_scheme" where
  "get_dynamic_fee env s =
    (if \<not> get_or True (f_dyn_enabled s) then Inr (get_or DEFAULT_FEE_BPS (f_fee_bps s), s)
     else let (price, s1) = cached_price env s in
       case f_schedule s1 of
         Some schedule \<Rightarrow>
           rbind (safe_mul_u32 (fs_tier0 schedule) (price_multiplier_bps price)) (\<lambda>m.
           rbind (safe_div_u32 m 10000) (\<lambda>fee. Inr (fee, s1)))
       | None \<Rightarrow> Inr (legacy_fee_from_price price, s1))"


section \<open>The fee of a release\<close>

definition mentor_tier :: "peers \<Rightarrow> addr \<Rightarrow> 'a fee_state_scheme \<Rightarrow> 'e fail + nat" where
  "mentor_tier P mentor s =
    (case f_staking s of Some staking \<Rightarrow> call_ext (p_get_tier P staking mentor) | None \<Rightarrow> Inr 0)"

definition tier_bps :: "fee_schedule \<Rightarrow> nat \<Rightarrow> nat" where
  "tier_bps schedule tier =
    (if tier = 1 then fs_tier1 schedule else if tier = 2 then fs_tier2 schedule
     else if tier = 3 then fs_tier3 schedule else fs_tier0 schedule)"

definition compute_fee_with_meta ::
    "peers \<Rightarrow> env \<Rightarrow> fee_schedule \<Rightarrow> addr \<Rightarrow> int \<Rightarrow> 'a fee_state_scheme \<Rightarrow>
     'e fail + (int \<times> nat \<times> nat \<times> nat) \<times> 'a fee_state_scheme" where
  "compute_fee_with_meta P env schedule mentor amount s =
    rbind (mentor_tier P mentor s) (\<lambda>tier.
    let tier_base = tier_bps schedule tier in
    rbind (if get_or True (f_dyn_enabled s)
           then let (price, s1) = cached_price env s;
                    multiplier = price_multiplier_bps price in
                rbind (safe_mul_u32 tier_base multiplier) (\<lambda>m.
                rbind (safe_div_u32 m 10000) (\<lambda>scaled.
                Inr (min scaled ESC_MAX_FEE_BPS, s1)))
           else Inr (tier_base, s)) (\<lambda>(base_bps, s1).
    let discounted = (if fs_threshold schedule < amount then base_bps - fs_discount schedule
                      else base_bps);
        effective_bps = min discounted ESC_MAX_FEE_BPS in
    rbind (safe_mul amount (int effective_bps)) (\<lambda>p.
    rbind (safe_div p 10000) (\<lambda>fee.
    Inr ((fee, tier, base_bps, effective_bps), s1)))))"

definition compute_fee_unified ::
    "peers \<Rightarrow> env \<Rightarrow> addr \<Rightarrow> int \<Rightarrow> 'a fee_state_scheme \<Rightarrow>
     'e fail + (int \<times> (nat \<times> nat \<times> nat) option) \<times> 'a fee_state_scheme" where
  "compute_fee_unified P env mentor amount s =
    (case f_schedule s of
       Some schedule \<Rightarrow>
         rbind (compute_fee_with_meta P env schedule mentor amount s)
           (\<lambda>((fee, tier, base_bps, effective_bps), s1).
         Inr ((fee, Some (tier, base_bps, effective_bps)), s1))
     | None \<Rightarrow>
         let fee_bps = get_or DEFAULT_FEE_BPS (f_fee_bps s) in
         touch (f_fee_bps s) (\<lambda>_.
         rbind (safe_mul amount (int fee_bps)) (\<lambda>p.
         rbind (safe_div p 10000) (\<lambda>fee.
         Inr ((fee, None), s)))))"

definition compute_platform_fee ::
    "peers \<Rightarrow> env \<Rightarrow> addr \<Rightarrow> int \<Rightarrow> 'a fee_state_scheme \<Rightarrow> 'e fail + int \<times> 'a fee_state_scheme" where
  "compute_platform_fee P env mentor amount s =
    rbind (compute_fee_unified P env mentor amount s) (\<lambda>((fee, _), s1). Inr (fee, s1))"


section \<open>Fee configuration\<close>

text \<open>
  Entry points that name the caller compare it with the stored admin; the others only
  require the stored admin's authorisation.
\<close>

definition by_admin :: "env \<Rightarrow> 'a fee_state_scheme \<Rightarrow> (addr \<Rightarrow> 'e fail + 'b) \<Rightarrow> 'e fail + 'b" where
  "by_admin env s k =
    expect (f_admin s) (Panic ''Not initialized'') (\<lambda>admin. need_auth env admin (k admin))"

definition by_caller_admin :: "env \<Rightarrow> addr \<Rightarrow> 'a fee_state_scheme \<Rightarrow> 'e fail + 'b \<Rightarrow> 'e fail + 'b" where
  "by_caller_admin env admin s k =
    expect (f_admin s) (Panic ''Not initialized'') (\<lambda>stored_admin.
    need_auth env admin (
    ensure (admin = stored_admin) (Panic ''Caller not authorized'') k))"

lemma by_admin_Inr [res_simps]:
  "by_admin env s k = Inr x \<longleftrightarrow> (\<exists>a. f_admin s = Some a \<and> auth_by env a \<and> k a = Inr x)"
  by (auto simp: by_admin_def res_simps)

lemma by_caller_admin_Inr [res_simps]:
  "by_caller_admin env admin s k = Inr x \<longleftrightarrow>
   f_admin s = Some admin \<and> auth_by env admin \<and> k = Inr x"
  by (auto simp: by_caller_admin_def res_simps)

definition validate_fee_schedule :: "fee_schedule \<Rightarrow> 'e fail + 'a \<Rightarrow> 'e fail + 'a" where
  "validate_fee_schedule schedule k =
    ensure (\<not> (ESC_MAX_FEE_BPS < fs_tier0 schedule \<or> ESC_MAX_FEE_BPS < fs_tier1 schedule \<or>
               ESC_MAX_FEE_BPS < fs_tier2 schedule \<or> ESC_MAX_FEE_BPS < fs_tier3 schedule))
      (Panic ''Fee exceeds maximum (1000 bps)'') (
    ensure (fs_discount schedule \<le> ESC_MAX_FEE_BPS)
      (Panic ''Volume discount exceeds maximum (1000 bps)'') (
    ensure (0 \<le> fs_threshold schedule)
      (Panic ''Volume discount threshold must be non-negative'') k))"

definition update_fee :: "env \<Rightarrow> nat \<Rightarrow> 'a fee_state_scheme \<Rightarrow> 'e fail + 'a fee_state_scheme" where
  "update_fee env new_fee_bps s =
    by_admin env s (\<lambda>_.
    ensure (new_fee_bps \<le> ESC_MAX_FEE_BPS) (Panic ''Fee exceeds maximum (1000 bps)'')
      (Inr (s\<lparr>f_fee_bps := Some new_fee_bps\<rparr>)))"

definition set_liquidity_pool :: "env \<Rightarrow> addr \<Rightarrow> 'a fee_state_scheme \<Rightarrow> 'e fail + 'a fee_state_scheme" where
  "set_liquidity_pool env pool_address s =
    by_admin env s (\<lambda>_. Inr (s\<lparr>f_pool := Some pool_address\<rparr>))"

definition set_dynamic_fee_enabled ::
    "env \<Rightarrow> bool \<Rightarrow> 'a fee_state_scheme \<Rightarrow> 'e fail + 'a fee_state_scheme" where
  "set_dynamic_fee_enabled env enabled s =
    by_admin env s (\<lambda>_. Inr (s\<lparr>f_dyn_enabled := Some enabled\<rparr>))"

definition update_treasury :: "env \<Rightarrow> addr \<Rightarrow> 'a fee_state_scheme \<Rightarrow> 'e fail + 'a fee_state_scheme" where
  "update_treasury env new_treasury s =
    by_admin env s (\<lambda>_. Inr (s\<lparr>f_treasury := Some new_treasury\<rparr>))"

definition set_fee_schedule ::
    "env \<Rightarrow> addr \<Rightarrow> fee_schedule \<Rightarrow> 'a fee_state_scheme \<Rightarrow> 'e fail + 'a fee_state_scheme" where
  "set_fee_schedule env admin schedule s =
    by_caller_admin env admin s (
    validate_fee_schedule schedule (Inr (s\<lparr>f_schedule := Some schedule\<rparr>)))"

definition update_fee_schedule ::
    "env \<Rightarrow> addr \<Rightarrow> nat option \<Rightarrow> nat option \<Rightarrow> nat option \<Rightarrow> nat option \<Rightarrow> int option \<Rightarrow> nat option \<Rightarrow>
     'a fee_state_scheme \<Rightarrow> 'e fail + 'a fee_state_scheme" where
  "update_fee_schedule env admin tier0 tier1 tier2 tier3 threshold discount s =
    by_caller_admin env admin s (
    expect (f_schedule s) (Panic ''No fee schedule set; call set_fee_schedule first'') (\<lambda>old.
    let schedule = \<lparr>fs_tier0 = get_or (fs_tier0 old) tier0, fs_tier1 = get_or (fs_tier1 old) tier1,
                    fs_tier2 = get_or (fs_tier2 old) tier2, fs_tier3 = get_or (fs_tier3 old) tier3,
                    fs_threshold = get_or (fs_threshold old) threshold,
                    fs_discount = get_or (fs_discount old) discount\<rparr>
    in validate_fee_schedule schedule (Inr (s\<lparr>f_schedule := Some schedule\<rparr>))))"


section \<open>Bounds\<close>

text \<open>The configuration invariant: a stored flat fee is at most the maximum.\<close>

definition fee_cfg_ok :: "'a fee_state_scheme \<Rightarrow> bool" where
  "fee_cfg_ok s \<longleftrightarrow> (\<forall>b. f_fee_bps s = Some b \<longrightarrow> b \<le> ESC_MAX_FEE_BPS)"

lemma fee_config_ops_ok:
  "fee_cfg_ok s \<Longrightarrow> update_fee env b s = Inr s' \<Longrightarrow> fee_cfg_ok s'"
  "fee_cfg_ok s \<Longrightarrow> set_liquidity_pool env a s = Inr s' \<Longrightarrow> fee_cfg_ok s'"
  "fee_cfg_ok s \<Longrightarrow> set_dynamic_fee_enabled env en s = Inr s' \<Longrightarrow> fee_cfg_ok s'"
  "fee_cfg_ok s \<Longrightarrow> update_treasury env a s = Inr s' \<Longrightarrow> fee_cfg_ok s'"
  "fee_cfg_ok s \<Longrightarrow> set_fee_schedule env a sch s = Inr s' \<Longrightarrow> fee_cfg_ok s'"
  "fee_cfg_ok s \<Longrightarrow> update_fee_schedule env a t0 t1 t2 t3 th d s = Inr s' \<Longrightarrow> fee_cfg_ok s'"
  by (auto simp: update_fee_def set_liquidity_pool_def set_dynamic_fee_enabled_def
      update_treasury_def set_fee_schedule_def update_fee_schedule_def validate_fee_schedule_def
      res_simps fee_cfg_ok_def Let_def)

text \<open>The exact fee as a function of the rate, and its bounds.\<close>

definition bps_of :: "int \<Rightarrow> nat \<Rightarrow> int" where
  "bps_of amount bps = amount * int bps div 10000"

lemma bps_fee:
  assumes "in_i128 (a * int b)" "checked_div_i128 (a * int b) 10000 = Some f" "0 \<le> a"
  shows "f = bps_of a b"
  using assms checked_div_pos [of 10000 "a * int b"] by (simp add: bps_of_def)

lemma bps_of_bounds:
  assumes "0 \<le> a" "b \<le> ESC_MAX_FEE_BPS"
  shows "0 \<le> bps_of a b" "10 * bps_of a b \<le> a"
proof -
  have "int b \<le> 1000" using assms by (simp add: ESC_MAX_FEE_BPS_def)
  then have "a * int b \<le> a * 1000" using assms by (intro mult_left_mono) auto
  then have "a * int b div 10000 \<le> a * 1000 div 10000" by (rule zdiv_mono1) simp
  then show "10 * bps_of a b \<le> a" by (simp add: bps_of_def)
  show "0 \<le> bps_of a b" using assms by (simp add: bps_of_def pos_imp_zdiv_nonneg_iff)
qed

lemma cached_price_fst:
  "cached_price env s = (price, s') \<Longrightarrow>
   f_fee_bps s' = f_fee_bps s \<and> f_schedule s' = f_schedule s \<and> f_admin s' = f_admin s \<and>
   f_treasury s' = f_treasury s \<and> f_staking s' = f_staking s \<and> f_dyn_enabled s' = f_dyn_enabled s \<and>
   f_pool s' = f_pool s"
  by (auto simp: cached_price_def Let_def split: if_splits)

text \<open>
  A successful fee computation: the fee is \<open>amount * bps div 10000\<close> for a rate of at most
  1000 bps, and only the price cache changes.
\<close>

lemma compute_fee_unified_ok:
  assumes "compute_fee_unified P env mentor amount s = Inr ((fee, meta), s')" "0 \<le> amount" "fee_cfg_ok s"
  shows "\<exists>b \<le> ESC_MAX_FEE_BPS. fee = bps_of amount b \<and> (\<forall>t bb e. meta = Some (t, bb, e) \<longrightarrow> e = b)"
proof (cases "f_schedule s")
  case None
  with assms obtain b where "f_fee_bps s = Some b" "in_i128 (amount * int b)"
    "checked_div_i128 (amount * int b) 10000 = Some fee" "meta = None"
    by (auto simp: compute_fee_unified_def res_simps Let_def)
  then show ?thesis
    using bps_fee [of amount b fee] assms by (auto simp: fee_cfg_ok_def)
next
  case (Some sch)
  with assms obtain tier base eff s1 where eff: "eff = min (if fs_threshold sch < amount then base - fs_discount sch else base) ESC_MAX_FEE_BPS"
    "in_i128 (amount * int eff)" "checked_div_i128 (amount * int eff) 10000 = Some fee"
    "meta = Some (tier, base, eff)"
    by (auto simp: compute_fee_unified_def compute_fee_with_meta_def rbind_Inr safe_mul_Inr
        safe_div_Inr Let_def split: prod.splits)
  then show ?thesis using bps_fee [of amount eff fee] assms(2) by auto
qed

lemma compute_fee_unified_frame:
  assumes "compute_fee_unified P env mentor amount s = Inr ((fee, meta), s')"
  shows "s' = s \<or> s' = snd (cached_price env s)"
  using assms
  by (auto simp: compute_fee_unified_def compute_fee_with_meta_def rbind_Inr res_simps Let_def
      split: prod.splits option.splits if_splits)

lemma compute_fee_unified_range:
  assumes "compute_fee_unified P env mentor amount s = Inr ((fee, meta), s')" "0 \<le> amount" "fee_cfg_ok s"
  shows "0 \<le> fee" "10 * fee \<le> amount"
  using compute_fee_unified_ok [OF assms] bps_of_bounds [OF assms(2)] by auto

end
