(* ===== verification/EscrowLifecycle.thy ===== *)
theory EscrowLifecycle
  imports EscrowFees
begin

text \<open>
  The life of an escrow in \<open>escrow/src/lib.rs\<close>: creation, full and partial release, batch and
  administrative release, automatic release with its failure record, dispute, resolution,
  refund, review, and the escrows paid out milestone by milestone. Each definition is the
  handler of that name, guards in the order of the source.
\<close>

section \<open>Creation\<close>

definition create_escrow_internal ::
    "'t token_ops \<Rightarrow> env \<Rightarrow> addr \<Rightarrow> addr \<Rightarrow> int \<Rightarrow> symbol \<Rightarrow> addr \<Rightarrow> nat \<Rightarrow> int \<Rightarrow> int \<Rightarrow> addr \<Rightarrow> addr \<Rightarrow> nat \<Rightarrow>
     'a core_state_scheme \<times> 't \<Rightarrow> escrow_error fail + nat \<times> 'a core_state_scheme \<times> 't" where
  "create_escrow_internal T env mentor learner amount session_id token_address session_end_time
      usd_amount quoted_token_amount send_asset dest_asset total_sessions sw =
    (let (s, w) = sw in
    rbind (validate_or_panic
      (require_sufficient_for_division amount (int total_sessions) ''amount''
      (require_positive (int total_sessions) ''total_sessions''
      (require_max amount MAX_FINANCIAL_AMOUNT ''amount''
      (require_positive amount ''amount'' []))))) (\<lambda>_.
    ensure (is_token_approved token_address s) (Panic ''Token not approved'') (
    ensure (\<not> (send_asset \<noteq> token_address \<and> \<not> is_token_approved send_asset s))
      (Panic ''Send asset token not approved'') (
    ensure (\<not> (dest_asset \<noteq> token_address \<and> \<not> is_token_approved dest_asset s))
      (Panic ''Dest asset token not approved'') (
    need_auth env learner (
    ensure (amount \<le> tk_balance T token_address learner w) (Panic ''Insufficient token balance'') (
    let session_bytes = sha env [XSym session_id];
        is_used = (x_nonces s session_bytes \<noteq> None) in
    ensure (validate_session_nonce 1 1 is_used) (Err EDuplicateEntry) (
    let now = ledger_ts env in
    rbind (if 0 < session_end_time \<and> session_end_time < now
           then rbind (detect_temporal_replay session_end_time now MAX_SESSION_TIME_DRIFT_SECS) (\<lambda>r.
             ensure (\<not> (rd_is_replay r \<and> MAX_SESSION_TIME_DRIFT_SECS < now - session_end_time))
               (Panic ''Session timestamp too old'') (Inr ()))
           else Inr ()) (\<lambda>_.
    let s1 = s\<lparr>x_nonces := (x_nonces s)(session_bytes \<mapsto> True)\<rparr> in
    ensure (x_sessions s1 session_id = None) (Panic ''Session already exists'') (
    let s2 = s1\<lparr>x_sessions := (x_sessions s1)(session_id \<mapsto> True)\<rparr>;
        auto_release_delay = get_or DEFAULT_AUTO_RELEASE_DELAY (x_delay s2) in
    rbind (arith_u64 (get_or 0 (x_count s2) + 1)) (\<lambda>count.
    let s3 = s2\<lparr>x_count := Some count\<rparr> in
    rbind (call_ext (tk_transfer T (as_invoker env) token_address learner (self_addr env) amount w)) (\<lambda>w1.
    rbind (transition_status env count ESPending ESActive learner s3) (\<lambda>(status, s4).
    let escrow = \<lparr>e_id = count, e_mentor = mentor, e_learner = learner, e_amount = amount,
                  e_session_id = session_id, e_status = status, e_created_at = ledger_ts env,
                  e_token = token_address, e_platform_fee = 0, e_net_amount = 0,
                  e_session_end = session_end_time, e_auto_delay = auto_release_delay,
                  e_dispute_reason = '''', e_resolved_at = 0, e_usd_amount = usd_amount,
                  e_quoted = quoted_token_amount, e_send_asset = send_asset,
                  e_dest_asset = dest_asset, e_total_sessions = total_sessions, e_completed = 0\<rparr>;
        s5 = s4\<lparr>x_escrows := (x_escrows s4)(count \<mapsto> escrow)\<rparr>;
        s6 = s5\<lparr>x_mentor_idx := (x_mentor_idx s5)(mentor \<mapsto> get_or [] (x_mentor_idx s5 mentor) @ [count])\<rparr>;
        s7 = s6\<lparr>x_learner_idx := (x_learner_idx s6)(learner \<mapsto> get_or [] (x_learner_idx s6 learner) @ [count])\<rparr>
    in Inr (count, s7, w1))))))))))))))"

definition create_escrow ::
    "'t token_ops \<Rightarrow> env \<Rightarrow> addr \<Rightarrow> addr \<Rightarrow> int \<Rightarrow> symbol \<Rightarrow> addr \<Rightarrow> nat \<Rightarrow> nat \<Rightarrow>
     'a core_state_scheme \<times> 't \<Rightarrow> escrow_error fail + nat \<times> 'a core_state_scheme \<times> 't" where
  "create_escrow T env mentor learner amount session_id token_address session_end_time total_sessions sw =
    with_guard ''create'' (Some learner) sw
      (create_escrow_internal T env mentor learner amount session_id token_address session_end_time
        0 amount token_address token_address total_sessions)"

definition create_escrow_usd ::
    "'t token_ops \<Rightarrow> peers \<Rightarrow> env \<Rightarrow> addr \<Rightarrow> addr \<Rightarrow> int \<Rightarrow> addr \<Rightarrow> nat \<Rightarrow>
     'a core_state_scheme \<times> 't \<Rightarrow> escrow_error fail + nat \<times> 'a core_state_scheme \<times> 't" where
  "create_escrow_usd T P env mentor learner usd_amount token_address total_sessions sw =
    (let (s, w) = sw in
    rbind (validate_or_panic
      (require_max usd_amount MAX_FINANCIAL_AMOUNT ''usd_amount''
      (require_positive usd_amount ''usd_amount'' []))) (\<lambda>_.
    expect (x_oracle s) (Panic ''oracle not set'') (\<lambda>oracle.
    let max_age = get_or 300 (x_oracle_max_age s) in
    rbind (call_ext (p_price P oracle ''USD'')) (\<lambda>(price, updated_at).
    let now = ledger_ts env in
    ensure (\<not> (max_age < now - updated_at \<or> price \<le> 0)) (Panic ''stale oracle'') (
    rbind (safe_mul usd_amount 10000000) (\<lambda>p.
    rbind (safe_div p price) (\<lambda>token_amount.
    create_escrow_internal T env mentor learner token_amount ''USD_SES'' token_address now
      usd_amount token_amount token_address token_address total_sessions (s, w))))))))"

definition create_escrow_with_path_payment ::
    "'t token_ops \<Rightarrow> env \<Rightarrow> addr \<Rightarrow> addr \<Rightarrow> addr \<Rightarrow> int \<Rightarrow> addr \<Rightarrow> int \<Rightarrow> nat \<Rightarrow>
     'a core_state_scheme \<times> 't \<Rightarrow> escrow_error fail + nat \<times> 'a core_state_scheme \<times> 't" where
  "create_escrow_with_path_payment T env learner mentor send_asset send_max dest_asset dest_amount
      total_sessions sw =
    (let (s, w) = sw in
    ensure (is_token_approved send_asset s) (Panic ''Send asset token not approved'') (
    ensure (is_token_approved dest_asset s) (Panic ''Dest asset token not approved'') (
    rbind (validate_or_panic
      (require_max send_max MAX_FINANCIAL_AMOUNT ''send_max''
      (require_positive send_max ''send_max''
      (require_max dest_amount MAX_FINANCIAL_AMOUNT ''dest_amount''
      (require_positive dest_amount ''dest_amount'' []))))) (\<lambda>_.
    ensure (dest_amount \<le> send_max) (Panic ''path slippage exceeded'') (
    rbind (if dest_amount = 0 then Inr 0
           else rbind (arith_i128 (send_max * 10000000)) (\<lambda>x. Inr (trunc_div x dest_amount)))
      (\<lambda>rate_scaled.
    create_escrow_internal T env mentor learner dest_amount ''PATHPAY'' dest_asset 0 0 dest_amount
      send_asset dest_asset total_sessions (s, w)))))))"


section \<open>Release\<close>

definition do_release ::
    "'t token_ops \<Rightarrow> peers \<Rightarrow> env \<Rightarrow> escrow_rec \<Rightarrow> nat \<Rightarrow> addr \<Rightarrow> 'a core_state_scheme \<times> 't \<Rightarrow>
     'e fail + 'a core_state_scheme \<times> 't" where
  "do_release T P env escrow key actor sw =
    (let (s, w) = sw; release_amount = e_amount escrow in
    rbind (compute_fee_unified P env (e_mentor escrow) release_amount s) (\<lambda>((platform_fee, _), s1).
    rbind (safe_sub release_amount platform_fee) (\<lambda>net_amount.
    expect (f_treasury s1) (Panic ''Treasury not found'') (\<lambda>treasury.
    rbind (pay_fee_and_net T env (e_token escrow) treasury platform_fee (e_mentor escrow) net_amount w) (\<lambda>w1.
    rbind (transition_status env (e_id escrow) (e_status escrow) ESReleased actor s1) (\<lambda>(status, s2).
    rbind (safe_add (e_platform_fee escrow) platform_fee) (\<lambda>platform_fee'.
    rbind (safe_add (e_net_amount escrow) net_amount) (\<lambda>net_amount'.
    let escrow' = escrow\<lparr>e_status := status, e_platform_fee := platform_fee',
                         e_net_amount := net_amount', e_amount := 0\<rparr>
    in Inr (s2\<lparr>x_escrows := (x_escrows s2)(key \<mapsto> escrow')\<rparr>, w1)))))))))"

definition release_funds_body ::
    "'t token_ops \<Rightarrow> peers \<Rightarrow> env \<Rightarrow> addr \<Rightarrow> nat \<Rightarrow> 'a core_state_scheme \<times> 't \<Rightarrow>
     escrow_error fail + unit \<times> 'a core_state_scheme \<times> 't" where
  "release_funds_body T P env caller escrow_id sw =
    (let (s, w) = sw in
    touch (x_escrows s escrow_id) (\<lambda>escrow.
    ensure (e_status escrow = ESActive) (Panic ''Escrow not active'') (
    ensure (\<not> is_isolated escrow_id s) (Panic ''Escrow isolated pending manual review'') (
    expect (f_admin s) (Panic ''Admin not found'') (\<lambda>admin.
    need_auth env caller (
    ensure (\<not> (caller \<noteq> e_learner escrow \<and> caller \<noteq> admin))
      (Panic ''release_funds: caller is neither the learner nor the admin for escrow {}'') (
    let interaction_minutes =
          (if e_created_at escrow < e_session_end escrow
           then ((e_session_end escrow - e_created_at escrow) div 60) mod 2 ^ 32
           else REQUIRED_INTERACTION_MINUTES);
        authenticity = verify_session_authenticity interaction_minutes True;
        low_fee_key = (e_mentor escrow, e_learner escrow);
        current_low_fee_count = get_or 0 (x_low_fee s low_fee_key);
        bypass = detect_platform_bypass current_low_fee_count (e_amount escrow) in
    ensure (\<not> (\<not> au_is_authentic authenticity \<or> co_is_colluding bypass)) (Err SessionAuthFailed) (
    let s1 = s\<lparr>x_low_fee := (x_low_fee s)(low_fee_key \<mapsto> co_low_fee_count bypass)\<rparr> in
    rbind (do_release T P env escrow escrow_id caller (s1, w)) (\<lambda>(s2, w2). Inr ((), s2, w2))))))))))"

definition release_funds ::
    "'t token_ops \<Rightarrow> peers \<Rightarrow> env \<Rightarrow> addr \<Rightarrow> nat \<Rightarrow> 'a core_state_scheme \<times> 't \<Rightarrow>
     escrow_error fail + unit \<times> 'a core_state_scheme \<times> 't" where
  "release_funds T P env caller escrow_id sw =
    with_guard ''release'' (Some caller) sw (release_funds_body T P env caller escrow_id)"

text \<open>
  The common tail of \<open>release_partial\<close> and \<open>batch_release\<close>: price \<open>amount_to_release\<close>, pay it
  out, and count \<open>n\<close> more sessions.
\<close>

definition settle_sessions ::
    "'t token_ops \<Rightarrow> peers \<Rightarrow> env \<Rightarrow> escrow_rec \<Rightarrow> nat \<Rightarrow> nat \<Rightarrow> int \<Rightarrow> addr \<Rightarrow> 'a core_state_scheme \<times> 't \<Rightarrow>
     'e fail + unit \<times> 'a core_state_scheme \<times> 't" where
  "settle_sessions T P env escrow key n amount_to_release actor sw =
    (let (s, w) = sw in
    rbind (compute_fee_unified P env (e_mentor escrow) amount_to_release s) (\<lambda>((platform_fee, _), s1).
    rbind (safe_sub amount_to_release platform_fee) (\<lambda>net_amount.
    expect (f_treasury s1) (Panic ''Treasury not found'') (\<lambda>treasury.
    rbind (pay_fee_and_net T env (e_token escrow) treasury platform_fee (e_mentor escrow) net_amount w) (\<lambda>w1.
    rbind (arith_u32 (e_completed escrow + n)) (\<lambda>completed.
    rbind (safe_sub (e_amount escrow) amount_to_release) (\<lambda>amount'.
    rbind (safe_add (e_platform_fee escrow) platform_fee) (\<lambda>platform_fee'.
    rbind (safe_add (e_net_amount escrow) net_amount) (\<lambda>net_amount'.
    let escrow' = escrow\<lparr>e_completed := completed, e_amount := amount',
                         e_platform_fee := platform_fee', e_net_amount := net_amount'\<rparr> in
    rbind (if completed = e_total_sessions escrow
           then rbind (transition_status env (e_id escrow) (e_status escrow) ESReleased actor s1)
                  (\<lambda>(status, s2).
                Inr (escrow'\<lparr>e_status := status\<rparr>,
                     s2\<lparr>x_sessions := (x_sessions s2)(e_session_id escrow := None)\<rparr>))
           else Inr (escrow', s1)) (\<lambda>(escrow'', s3).
    Inr ((), s3\<lparr>x_escrows := (x_escrows s3)(key \<mapsto> escrow'')\<rparr>, w1)))))))))))"

definition release_partial_body ::
    "'t token_ops \<Rightarrow> peers \<Rightarrow> env \<Rightarrow> addr \<Rightarrow> nat \<Rightarrow> 'a core_state_scheme \<times> 't \<Rightarrow>
     escrow_error fail + unit \<times> 'a core_state_scheme \<times> 't" where
  "release_partial_body T P env caller escrow_id sw =
    (let (s, w) = sw in
    touch (x_escrows s escrow_id) (\<lambda>escrow.
    ensure (e_status escrow = ESActive) (Panic ''Escrow not active'') (
    ensure (e_completed escrow < e_total_sessions escrow) (Panic ''All sessions already released'') (
    expect (f_admin s) (Panic ''Admin not found'') (\<lambda>admin.
    need_auth env caller (
    ensure (\<not> (caller \<noteq> e_learner escrow \<and> caller \<noteq> admin)) (Panic ''Caller not authorized'') (
    rbind (if e_completed escrow + 1 = e_total_sessions escrow then Inr (e_amount escrow)
           else safe_div (e_quoted escrow) (int (e_total_sessions escrow))) (\<lambda>amount_to_release.
    settle_sessions T P env escrow escrow_id 1 amount_to_release caller (s, w)))))))))"

definition release_partial ::
    "'t token_ops \<Rightarrow> peers \<Rightarrow> env \<Rightarrow> addr \<Rightarrow> nat \<Rightarrow> 'a core_state_scheme \<times> 't \<Rightarrow>
     escrow_error fail + unit \<times> 'a core_state_scheme \<times> 't" where
  "release_partial T P env caller escrow_id sw =
    with_guard ''partial'' (Some caller) sw (release_partial_body T P env caller escrow_id)"

definition batch_release ::
    "'t token_ops \<Rightarrow> peers \<Rightarrow> env \<Rightarrow> addr \<Rightarrow> nat \<Rightarrow> nat \<Rightarrow> 'a core_state_scheme \<times> 't \<Rightarrow>
     escrow_error fail + unit \<times> 'a core_state_scheme \<times> 't" where
  "batch_release T P env admin escrow_id sessions_to_release sw =
    (let (s, w) = sw in
    touch (x_escrows s escrow_id) (\<lambda>escrow.
    expect (f_admin s) (Panic ''Admin not found'') (\<lambda>stored_admin.
    need_auth env admin (
    ensure (admin = stored_admin) (Panic ''Only admin can batch release'') (
    ensure (e_status escrow = ESActive) (Panic ''Escrow not active'') (
    ensure (sessions_to_release \<noteq> 0) (Panic ''Must release at least one session'') (
    rbind (sub_u32 (e_total_sessions escrow) (e_completed escrow)) (\<lambda>remaining_sessions.
    ensure (sessions_to_release \<le> remaining_sessions)
      (Panic ''Cannot release more sessions than remaining'') (
    rbind (safe_div (e_quoted escrow) (int (e_total_sessions escrow))) (\<lambda>per_session_amount.
    rbind (if e_completed escrow + sessions_to_release = e_total_sessions escrow
           then Inr (e_amount escrow)
           else safe_mul per_session_amount (int sessions_to_release)) (\<lambda>amount_to_release.
    settle_sessions T P env escrow escrow_id sessions_to_release amount_to_release admin (s, w))))))))))))"

definition admin_release ::
    "'t token_ops \<Rightarrow> peers \<Rightarrow> env \<Rightarrow> nat \<Rightarrow> 'a core_state_scheme \<times> 't \<Rightarrow>
     escrow_error fail + unit \<times> 'a core_state_scheme \<times> 't" where
  "admin_release T P env escrow_id sw =
    (let (s, w) = sw in
    ensure (x_escrows s escrow_id \<noteq> None \<or> x_legacy s escrow_id \<noteq> None) HostError (
    rbind (load_escrow escrow_id s) (\<lambda>escrow.
    ensure (e_status escrow = ESActive) (Panic ''Escrow not active'') (
    expect (f_admin s) (Panic ''Admin not found'') (\<lambda>admin.
    need_auth env admin (
    rbind (do_release T P env escrow escrow_id admin (s, w)) (\<lambda>(s2, w2). Inr ((), s2, w2))))))))"


section \<open>Automatic release\<close>

definition get_or_init_failure_record :: "nat \<Rightarrow> 'a core_state_scheme \<Rightarrow> release_failure" where
  "get_or_init_failure_record escrow_id s =
    (case x_failures s escrow_id of Some record \<Rightarrow> record
     | None \<Rightarrow> \<lparr>rf_escrow_id = escrow_id, rf_attempt_number = 0,
         rf_max_attempts = MAX_AUTO_RELEASE_ATTEMPTS, rf_classification = FC_Unknown,
         rf_last_failure_time = 0, rf_next_retry_time = 0, rf_error_hash = 0,
         rf_recovery_state = RS_Retrying, rf_manual_recovery_at = 0,
         rf_manual_recovery_reason = 0\<rparr>)"

definition set_failure_record :: "nat \<Rightarrow> release_failure \<Rightarrow> 'a core_state_scheme \<Rightarrow> 'a core_state_scheme" where
  "set_failure_record escrow_id failure s = s\<lparr>x_failures := (x_failures s)(escrow_id \<mapsto> failure)\<rparr>"

definition clear_failure_record :: "nat \<Rightarrow> 'a core_state_scheme \<Rightarrow> 'a core_state_scheme" where
  "clear_failure_record escrow_id s = s\<lparr>x_failures := (x_failures s)(escrow_id := None)\<rparr>"

text \<open>\<open>try_\<close> calls turn a failure of the peer into a value.\<close>

definition run_auto_release_prechecks :: "peers \<Rightarrow> escrow_rec \<Rightarrow> 'a core_state_scheme \<Rightarrow> bool" where
  "run_auto_release_prechecks P escrow s =
    (if (case x_reputation s of None \<Rightarrow> False
         | Some reputation \<Rightarrow> isl (p_session_released P reputation (e_id escrow) (e_mentor escrow)
                                   (e_learner escrow) (e_amount escrow))) then False
     else if (case x_insurance s of None \<Rightarrow> False
         | Some insurance \<Rightarrow> (case p_coverage_ratio P insurance of Inr ratio \<Rightarrow> \<not> 0 < ratio | Inl _ \<Rightarrow> True))
       then False
     else if f_schedule s \<noteq> None \<and>
         (case f_staking s of None \<Rightarrow> False | Some staking \<Rightarrow> isl (p_get_tier P staking (e_mentor escrow)))
       then False
     else True)"

definition try_auto_release ::
    "'t token_ops \<Rightarrow> peers \<Rightarrow> env \<Rightarrow> nat \<Rightarrow> 'a core_state_scheme \<times> 't \<Rightarrow>
     escrow_error fail + unit \<times> 'a core_state_scheme \<times> 't" where
  "try_auto_release T P env escrow_id sw =
    (let (s, w) = sw in
    touch (x_escrows s escrow_id) (\<lambda>escrow.
    ensure (e_status escrow = ESActive) (Panic ''Escrow not active'') (
    let now = ledger_ts env in
    rbind (safe_add_u64 (e_session_end escrow) (e_auto_delay escrow)) (\<lambda>release_after.
    ensure (release_after \<le> now) (Panic ''Auto-release window has not elapsed'') (
    let failure = get_or_init_failure_record escrow_id s in
    ensure (rf_attempt_number failure < MAX_AUTO_RELEASE_ATTEMPTS)
      (Panic ''Auto-release permanently disabled: {} attempts exhausted; manual recovery required'') (
    ensure (rf_next_retry_time failure \<le> now)
      (Panic ''Auto-release in exponential backoff; next retry at {}'') (
    if \<not> run_auto_release_prechecks P escrow s
    then
      let failure1 = failure\<lparr>rf_attempt_number := rf_attempt_number failure + 1,
                             rf_last_failure_time := now\<rparr> in
      rbind (calculate_next_retry env failure1) (\<lambda>next.
      let failure2 = failure1\<lparr>rf_next_retry_time := next,
            rf_recovery_state := (if MAX_AUTO_RELEASE_ATTEMPTS \<le> rf_attempt_number failure1
                                  then RS_AwaitingManualRecovery else RS_Retrying)\<rparr>
      in Inr ((), set_failure_record escrow_id failure2 s, w))
    else
      rbind (do_release T P env escrow escrow_id (self_addr env) (s, w)) (\<lambda>(s2, w2).
      Inr ((), clear_failure_record escrow_id s2, w2)))))))))"


section \<open>Dispute, resolution, refund, review\<close>

definition dispute_body ::
    "env \<Rightarrow> addr \<Rightarrow> nat \<Rightarrow> symbol \<Rightarrow> 'a core_state_scheme \<times> 't \<Rightarrow>
     escrow_error fail + unit \<times> 'a core_state_scheme \<times> 't" where
  "dispute_body env caller escrow_id reason sw =
    (let (s, w) = sw in
    touch (x_escrows s escrow_id) (\<lambda>escrow.
    ensure (e_status escrow = ESActive) (Panic ''Escrow not active'') (
    need_auth env caller (
    ensure (\<not> (caller \<noteq> e_mentor escrow \<and> caller \<noteq> e_learner escrow))
      (Panic ''Caller not authorized to dispute'') (
    rbind (transition_status env (e_id escrow) (e_status escrow) ESDisputed caller s) (\<lambda>(status, s1).
    let escrow' = escrow\<lparr>e_status := status, e_dispute_reason := reason\<rparr>
    in Inr ((), s1\<lparr>x_escrows := (x_escrows s1)(escrow_id \<mapsto> escrow')\<rparr>, w)))))))"

definition dispute ::
    "env \<Rightarrow> addr \<Rightarrow> nat \<Rightarrow> symbol \<Rightarrow> 'a core_state_scheme \<times> 't \<Rightarrow>
     escrow_error fail + unit \<times> 'a core_state_scheme \<times> 't" where
  "dispute env caller escrow_id reason sw =
    with_guard ''dispute'' (Some caller) sw (dispute_body env caller escrow_id reason)"

definition resolve_dispute_body ::
    "'t token_ops \<Rightarrow> env \<Rightarrow> nat \<Rightarrow> nat \<Rightarrow> 'a core_state_scheme \<times> 't \<Rightarrow>
     escrow_error fail + unit \<times> 'a core_state_scheme \<times> 't" where
  "resolve_dispute_body T env escrow_id mentor_pct sw =
    (let (s, w) = sw in
    by_admin env s (\<lambda>admin.
    ensure (mentor_pct \<le> 100) (Panic ''mentor_pct must be 0-100'') (
    ensure (\<not> is_isolated escrow_id s) (Panic ''Escrow isolated pending manual review'') (
    touch (x_escrows s escrow_id) (\<lambda>escrow.
    ensure (e_status escrow = ESDisputed) (Panic ''Escrow is not in Disputed status'') (
    let now = ledger_ts env in
    rbind (safe_mul (e_amount escrow) (int mentor_pct)) (\<lambda>p.
    rbind (safe_div p 100) (\<lambda>mentor_amount.
    rbind (safe_sub (e_amount escrow) mentor_amount) (\<lambda>learner_amount.
    rbind (if 0 < mentor_amount
           then pay_self T env (e_token escrow) (e_mentor escrow) mentor_amount w else Inr w) (\<lambda>w1.
    rbind (if 0 < learner_amount
           then pay_self T env (e_token escrow) (e_learner escrow) learner_amount w1 else Inr w1) (\<lambda>w2.
    rbind (transition_status env (e_id escrow) (e_status escrow) ESResolved admin s) (\<lambda>(status, s1).
    let escrow' = escrow\<lparr>e_status := status, e_net_amount := mentor_amount,
                         e_platform_fee := learner_amount, e_resolved_at := now\<rparr>
    in Inr ((), s1\<lparr>x_escrows := (x_escrows s1)(escrow_id \<mapsto> escrow')\<rparr>, w2)))))))))))))"

definition resolve_dispute ::
    "'t token_ops \<Rightarrow> env \<Rightarrow> nat \<Rightarrow> nat \<Rightarrow> 'a core_state_scheme \<times> 't \<Rightarrow>
     escrow_error fail + unit \<times> 'a core_state_scheme \<times> 't" where
  "resolve_dispute T env escrow_id mentor_pct sw =
    with_guard ''resolve'' None sw (resolve_dispute_body T env escrow_id mentor_pct)"

definition refund ::
    "'t token_ops \<Rightarrow> env \<Rightarrow> nat \<Rightarrow> 'a core_state_scheme \<times> 't \<Rightarrow>
     escrow_error fail + unit \<times> 'a core_state_scheme \<times> 't" where
  "refund T env escrow_id sw =
    (let (s, w) = sw in
    expect (f_admin s) (Panic ''Admin not found'') (\<lambda>admin.
    need_auth env admin (
    touch (x_escrows s escrow_id) (\<lambda>escrow.
    ensure (\<not> (e_status escrow = ESReleased \<or> e_status escrow = ESRefunded \<or>
               e_status escrow = ESResolved)) (Panic ''Cannot refund'') (
    rbind (pay_self T env (e_token escrow) (e_learner escrow) (e_amount escrow) w) (\<lambda>w1.
    rbind (transition_status env (e_id escrow) (e_status escrow) ESRefunded admin s) (\<lambda>(status, s1).
    let escrow' = escrow\<lparr>e_status := status\<rparr>
    in Inr ((), s1\<lparr>x_escrows := (x_escrows s1)(escrow_id \<mapsto> escrow')\<rparr>, w1))))))))"

definition submit_review ::
    "env \<Rightarrow> addr \<Rightarrow> nat \<Rightarrow> symbol \<Rightarrow> 'a core_state_scheme \<times> 't \<Rightarrow>
     escrow_error fail + unit \<times> 'a core_state_scheme \<times> 't" where
  "submit_review env caller escrow_id reason sw =
    (let (s, w) = sw in
    touch (x_escrows s escrow_id) (\<lambda>escrow.
    need_auth env caller (
    ensure (caller = e_learner escrow) (Panic ''Only learner can submit review'') (
    ensure (e_status escrow = ESReleased) (Panic ''Can only review released escrows'') (
    Inr ((), s\<lparr>x_reviews := (x_reviews s)(escrow_id \<mapsto> reason)\<rparr>, w))))))"


section \<open>Milestone escrows\<close>

fun validate_milestones :: "milestone_spec list \<Rightarrow> 'e fail + unit" where
  "validate_milestones [] = Inr ()"
| "validate_milestones (m # ms) =
    rbind (validate_or_panic
      (require_max (ms_amount m) MAX_FINANCIAL_AMOUNT ''milestone_amount''
      (require_positive (ms_amount m) ''milestone_amount'' []))) (\<lambda>_. validate_milestones ms)"

fun sum_milestones :: "int \<Rightarrow> milestone_spec list \<Rightarrow> 'e fail + int" where
  "sum_milestones acc [] = Inr acc"
| "sum_milestones acc (m # ms) = rbind (safe_add acc (ms_amount m)) (\<lambda>acc'. sum_milestones acc' ms)"

definition create_milestone_escrow ::
    "'t token_ops \<Rightarrow> env \<Rightarrow> addr \<Rightarrow> addr \<Rightarrow> milestone_spec list \<Rightarrow> addr \<Rightarrow> 'a core_state_scheme \<times> 't \<Rightarrow>
     escrow_error fail + nat \<times> 'a core_state_scheme \<times> 't" where
  "create_milestone_escrow T env mentor learner milestones token_address sw =
    (let (s, w) = sw in
    ensure (milestones \<noteq> []) (Panic ''At least one milestone required'') (
    ensure (is_token_approved token_address s) (Panic ''Token not approved'') (
    rbind (validate_milestones milestones) (\<lambda>_.
    rbind (sum_milestones 0 milestones) (\<lambda>total_amount.
    rbind (validate_or_panic
      (require_max total_amount MAX_FINANCIAL_AMOUNT ''total_amount''
      (require_positive total_amount ''total_amount'' []))) (\<lambda>_.
    need_auth env learner (
    ensure (total_amount \<le> tk_balance T token_address learner w) (Panic ''Insufficient token balance'') (
    rbind (arith_u64 (get_or 0 (x_mcount s) + 1)) (\<lambda>count.
    let s1 = s\<lparr>x_mcount := Some count\<rparr> in
    rbind (call_ext (tk_transfer T (as_invoker env) token_address learner (self_addr env) total_amount w)) (\<lambda>w1.
    rbind (transition_status env count ESPending ESActive learner s1) (\<lambda>(status, s2).
    let me = \<lparr>me_id = count, me_mentor = mentor, me_learner = learner,
              me_total_amount = total_amount, me_milestones = milestones,
              me_statuses = map (\<lambda>_. MSPending) milestones, me_status = status,
              me_created_at = ledger_ts env, me_token = token_address, me_platform_fee = 0,
              me_net_amount = 0\<rparr>
    in Inr (count, s2\<lparr>x_mescrows := (x_mescrows s2)(count \<mapsto> me)\<rparr>, w1))))))))))))"

definition list_get :: "'v list \<Rightarrow> nat \<Rightarrow> 'v option" where
  "list_get xs i = (if i < length xs then Some (xs ! i) else None)"

definition complete_milestone ::
    "'t token_ops \<Rightarrow> peers \<Rightarrow> env \<Rightarrow> nat \<Rightarrow> nat \<Rightarrow> 'a core_state_scheme \<times> 't \<Rightarrow>
     escrow_error fail + unit \<times> 'a core_state_scheme \<times> 't" where
  "complete_milestone T P env escrow_id milestone_index sw =
    (let (s, w) = sw in
    touch (x_mescrows s escrow_id) (\<lambda>me.
    ensure (me_status me = ESActive) (Panic ''Milestone escrow not active'') (
    ensure (milestone_index < length (me_milestones me)) (Panic ''Invalid milestone index'') (
    expect (list_get (me_statuses me) milestone_index) (Panic ''unwrap'') (\<lambda>current_status.
    ensure (current_status = MSPending) (Panic ''Milestone not pending'') (
    need_auth env (me_learner me) (
    let amount = ms_amount (me_milestones me ! milestone_index) in
    rbind (compute_fee_unified P env (me_mentor me) amount s) (\<lambda>((platform_fee, _), s1).
    rbind (safe_sub amount platform_fee) (\<lambda>net_amount.
    expect (f_treasury s1) (Panic ''Treasury not found'') (\<lambda>treasury.
    rbind (pay_fee_and_net T env (me_token me) treasury platform_fee (me_mentor me) net_amount w) (\<lambda>w1.
    let statuses = (me_statuses me)[milestone_index := MSCompleted] in
    rbind (safe_add (me_platform_fee me) platform_fee) (\<lambda>platform_fee'.
    rbind (safe_add (me_net_amount me) net_amount) (\<lambda>net_amount'.
    let me' = me\<lparr>me_statuses := statuses, me_platform_fee := platform_fee',
                 me_net_amount := net_amount'\<rparr> in
    rbind (if list_all (\<lambda>x. x = MSCompleted) statuses
           then rbind (transition_status env (me_id me) (me_status me) ESReleased (me_learner me) s1)
                  (\<lambda>(status, s2). Inr (me'\<lparr>me_status := status\<rparr>, s2))
           else Inr (me', s1)) (\<lambda>(me'', s3).
    Inr ((), s3\<lparr>x_mescrows := (x_mescrows s3)(escrow_id \<mapsto> me'')\<rparr>, w1)))))))))))))))"

definition dispute_milestone ::
    "env \<Rightarrow> nat \<Rightarrow> nat \<Rightarrow> symbol \<Rightarrow> 'a core_state_scheme \<times> 't \<Rightarrow>
     escrow_error fail + unit \<times> 'a core_state_scheme \<times> 't" where
  "dispute_milestone env escrow_id milestone_index reason sw =
    (let (s, w) = sw in
    touch (x_mescrows s escrow_id) (\<lambda>me.
    ensure (me_status me = ESActive) (Panic ''Milestone escrow not active'') (
    ensure (milestone_index < length (me_milestones me)) (Panic ''Invalid milestone index'') (
    expect (list_get (me_statuses me) milestone_index) (Panic ''unwrap'') (\<lambda>current_status.
    ensure (current_status = MSPending) (Panic ''Milestone not pending'') (
    need_auth env (me_mentor me) (
    need_auth env (me_learner me) (
    let me' = me\<lparr>me_statuses := (me_statuses me)[milestone_index := MSDisputed]\<rparr> in
    rbind (transition_status env (me_id me) (me_status me) ESDisputed (me_learner me) s) (\<lambda>(status, s1).
    Inr ((), s1\<lparr>x_mescrows := (x_mescrows s1)(escrow_id \<mapsto> me'\<lparr>me_status := status\<rparr>)\<rparr>, w))))))))))"

end
