(* ===== verification/EscrowInv.thy ===== *)
theory EscrowInv
  imports EscrowLifecycle
begin

text \<open>
  What every entry point of the escrow preserves: each stored record is well formed and
  accounts for every token it was funded with, records only move along the status machine,
  and the contract holds at least what it owes in every token.
\<close>

section \<open>Obligations\<close>

definition live :: "escrow_status \<Rightarrow> bool" where
  "live st \<longleftrightarrow> st = ESActive \<or> st = ESDisputed"

text \<open>What an escrow, or a milestone escrow, still has to pay out.\<close>

definition owed :: "escrow_rec \<Rightarrow> int" where
  "owed e = (if live (e_status e) then e_amount e else 0)"

fun open_amount :: "milestone_spec list \<Rightarrow> milestone_status list \<Rightarrow> int" where
  "open_amount (m # ms) (st # sts) = (if st = MSCompleted then 0 else ms_amount m) + open_amount ms sts"
| "open_amount _ _ = 0"

definition m_owed :: "milestone_escrow \<Rightarrow> int" where
  "m_owed m = (if live (me_status m) then open_amount (me_milestones m) (me_statuses m) else 0)"

definition owed_in :: "addr \<Rightarrow> escrow_rec \<Rightarrow> int" where
  "owed_in tk e = (if e_token e = tk then owed e else 0)"

definition m_owed_in :: "addr \<Rightarrow> milestone_escrow \<Rightarrow> int" where
  "m_owed_in tk m = (if me_token m = tk then m_owed m else 0)"

definition liabilities :: "addr \<Rightarrow> 'a core_state_scheme \<Rightarrow> int" where
  "liabilities tk s = wsum (owed_in tk) (x_escrows s) + wsum (m_owed_in tk) (x_mescrows s)"

definition surplus :: "'t token_ops \<Rightarrow> addr \<Rightarrow> addr \<Rightarrow> 'a core_state_scheme \<Rightarrow> 't \<Rightarrow> int" where
  "surplus T self tk s w = tk_balance T tk self w - liabilities tk s"


section \<open>Well-formed records\<close>

text \<open>
  The quoted amount is the amount the escrow was funded with. While the escrow is live, each
  completed session has taken the quotient of the amount and the number of sessions; what was
  paid as fee and net amount and what remains always add up to the quoted amount.
\<close>

definition rec_ok :: "nat \<Rightarrow> escrow_rec \<Rightarrow> bool" where
  "rec_ok k e \<longleftrightarrow>
    e_id e = k \<and> e_status e \<noteq> ESPending \<and> 0 < e_total_sessions e \<and>
    int (e_total_sessions e) \<le> e_quoted e \<and> e_quoted e \<le> MAX_FINANCIAL_AMOUNT \<and>
    0 \<le> e_amount e \<and> 0 \<le> e_platform_fee e \<and> 0 \<le> e_net_amount e \<and>
    (live (e_status e) \<longrightarrow>
       e_completed e < e_total_sessions e \<and>
       e_amount e = e_quoted e - int (e_completed e) * (e_quoted e div int (e_total_sessions e)) \<and>
       e_amount e + e_platform_fee e + e_net_amount e = e_quoted e) \<and>
    (e_status e = ESReleased \<longrightarrow> e_amount e = 0 \<and> e_platform_fee e + e_net_amount e = e_quoted e) \<and>
    (e_status e = ESRefunded \<longrightarrow> e_amount e + e_platform_fee e + e_net_amount e = e_quoted e) \<and>
    (e_status e = ESResolved \<longrightarrow> e_platform_fee e + e_net_amount e = e_amount e \<and> e_amount e \<le> e_quoted e)"

definition mrec_ok :: "nat \<Rightarrow> milestone_escrow \<Rightarrow> bool" where
  "mrec_ok k m \<longleftrightarrow>
    me_id m = k \<and> length (me_statuses m) = length (me_milestones m) \<and>
    (\<forall>x \<in> set (me_milestones m). 0 < ms_amount x) \<and>
    (me_status m = ESActive \<longrightarrow> MSDisputed \<notin> set (me_statuses m)) \<and>
    (me_status m \<in> {ESActive, ESDisputed, ESReleased}) \<and>
    (me_status m = ESReleased \<longrightarrow> set (me_statuses m) \<subseteq> {MSCompleted}) \<and>
    0 \<le> me_platform_fee m \<and> 0 \<le> me_net_amount m \<and>
    open_amount (me_milestones m) (me_statuses m) + me_platform_fee m + me_net_amount m = me_total_amount m"

definition store_ok :: "'a core_state_scheme \<Rightarrow> bool" where
  "store_ok s \<longleftrightarrow>
    finite (dom (x_escrows s)) \<and> finite (dom (x_mescrows s)) \<and> x_legacy s = Map.empty \<and>
    fee_cfg_ok s \<and>
    (\<forall>k e. x_escrows s k = Some e \<longrightarrow> rec_ok k e \<and> 1 \<le> k \<and> k \<le> get_or 0 (x_count s)) \<and>
    (\<forall>k m. x_mescrows s k = Some m \<longrightarrow> mrec_ok k m \<and> 1 \<le> k \<and> k \<le> get_or 0 (x_mcount s))"

text \<open>How one call may change a record.\<close>

definition rec_step :: "escrow_rec \<Rightarrow> escrow_rec \<Rightarrow> bool" where
  "rec_step e e' \<longleftrightarrow>
    (e_id e', e_mentor e', e_learner e', e_token e', e_quoted e', e_total_sessions e', e_session_id e') =
    (e_id e, e_mentor e, e_learner e, e_token e, e_quoted e, e_total_sessions e, e_session_id e) \<and>
    (e_status e' = e_status e \<or> escrow_valid_transition (e_status e) (e_status e')) \<and>
    e_completed e \<le> e_completed e' \<and> e_amount e' \<le> e_amount e \<and>
    (terminal_status (e_status e) \<longrightarrow> e' = e)"

definition mrec_step :: "milestone_escrow \<Rightarrow> milestone_escrow \<Rightarrow> bool" where
  "mrec_step m m' \<longleftrightarrow>
    (me_id m', me_mentor m', me_learner m', me_token m', me_milestones m', me_total_amount m') =
    (me_id m, me_mentor m, me_learner m, me_token m, me_milestones m, me_total_amount m) \<and>
    (me_status m' = me_status m \<or> escrow_valid_transition (me_status m) (me_status m')) \<and>
    (me_status m \<noteq> ESActive \<longrightarrow> m' = m)"

text \<open>
  The fields of the store that no entry point assigns, and the used session nonces, which are
  never removed.
\<close>

abbreviation meta_kept :: "'a core_state_scheme \<Rightarrow> 'a core_state_scheme \<Rightarrow> bool" where
  "meta_kept s s' \<equiv> x_legacy s' = x_legacy s \<and> x_oracle s' = x_oracle s \<and>
     dom (x_nonces s) \<subseteq> dom (x_nonces s')"

lemma meta_kept_trans: "meta_kept s s1 \<Longrightarrow> meta_kept s1 s2 \<Longrightarrow> meta_kept s s2"
  by (auto dest: subsetD)

definition good_step ::
    "'t token_ops \<Rightarrow> addr \<Rightarrow> 'a core_state_scheme \<times> 't \<Rightarrow> 'a core_state_scheme \<times> 't \<Rightarrow> bool" where
  "good_step T self sw sw' \<longleftrightarrow>
    (let (s, w) = sw; (s', w') = sw' in
     store_ok s' \<and> (f_admin s \<noteq> None \<longrightarrow> f_admin s' \<noteq> None) \<and> meta_kept s s' \<and> (\<forall>tk. surplus T self tk s w \<le> surplus T self tk s' w') \<and>
     (\<forall>k e. x_escrows s k = Some e \<longrightarrow> (\<exists>e'. x_escrows s' k = Some e' \<and> rec_step e e')) \<and>
     (\<forall>k m. x_mescrows s k = Some m \<longrightarrow> (\<exists>m'. x_mescrows s' k = Some m' \<and> mrec_step m m')))"

lemma rec_step_refl [simp]: "rec_step e e"
  by (simp add: rec_step_def)

lemma mrec_step_refl [simp]: "mrec_step m m"
  by (simp add: mrec_step_def)

lemma rec_ok_live_positive:
  assumes "rec_ok k e" "live (e_status e)"
  shows "0 < e_amount e"
proof -
  let ?q = "e_quoted e" and ?n = "int (e_total_sessions e)" and ?c = "int (e_completed e)"
  have n: "0 < ?n" "?n \<le> ?q" "?c < ?n" and amt: "e_amount e = ?q - ?c * (?q div ?n)"
    using assms by (auto simp: rec_ok_def)
  have pos: "0 < ?q div ?n" using n by (simp add: pos_imp_zdiv_pos_iff)
  have "?c * (?q div ?n) \<le> (?n - 1) * (?q div ?n)"
    using n pos by (intro mult_right_mono) auto
  also have "\<dots> = ?n * (?q div ?n) - ?q div ?n" by (simp add: algebra_simps)
  also have "\<dots> < ?q"
    using pos n mult_div_mod_eq [of ?n ?q] pos_mod_sign [of ?n ?q] by linarith
  finally show ?thesis using amt by simp
qed


lemma store_ok_rec:
  "store_ok s \<Longrightarrow> x_escrows s k = Some e \<Longrightarrow> rec_ok k e \<and> 1 \<le> k \<and> k \<le> get_or 0 (x_count s)"
  by (simp add: store_ok_def)

lemma store_ok_mrec:
  "store_ok s \<Longrightarrow> x_mescrows s k = Some m \<Longrightarrow> mrec_ok k m \<and> 1 \<le> k \<and> k \<le> get_or 0 (x_mcount s)"
  by (simp add: store_ok_def)

lemma store_ok_cfg: "store_ok s \<Longrightarrow> fee_cfg_ok s \<and> x_legacy s = Map.empty"
  by (simp add: store_ok_def)


section \<open>Generic steps\<close>

lemma owed_in_upd:
  assumes "finite (dom m)" "m k = Some e" "e_token e' = e_token e"
  shows "wsum (owed_in tk) (m(k \<mapsto> e')) =
    wsum (owed_in tk) m - (if tk = e_token e then owed e - owed e' else 0)"
  using assms by (auto simp: wsum_upd owed_in_def)

lemma m_owed_in_upd:
  assumes "finite (dom m)" "m k = Some e" "me_token e' = me_token e"
  shows "wsum (m_owed_in tk) (m(k \<mapsto> e')) =
    wsum (m_owed_in tk) m - (if tk = me_token e then m_owed e - m_owed e' else 0)"
  using assms by (auto simp: wsum_upd m_owed_in_def)

text \<open>A call that touches neither escrows nor what the store invariant mentions.\<close>

lemma good_step_frame:
  assumes "store_ok s" "x_escrows s' = x_escrows s" "x_mescrows s' = x_mescrows s"
    "x_count s' = x_count s" "x_mcount s' = x_mcount s" "meta_kept s s'" "fee_cfg_ok s'"
      "f_admin s \<noteq> None \<Longrightarrow> f_admin s' \<noteq> None"
    "\<And>tk. tk_balance T tk self w \<le> tk_balance T tk self w'"
  shows "good_step T self (s, w) (s', w')"
  using assms by (auto simp: good_step_def store_ok_def surplus_def liabilities_def)

text \<open>A call that replaces one escrow and pays for the difference.\<close>

lemma good_step_escrow:
  assumes ok: "store_ok s" and e: "x_escrows s k = Some e"
    and e': "rec_ok k e'" "rec_step e e'"
    and s': "x_escrows s' = (x_escrows s)(k \<mapsto> e')" "x_mescrows s' = x_mescrows s"
      "x_count s' = x_count s" "x_mcount s' = x_mcount s" "meta_kept s s'" "fee_cfg_ok s'"
      "f_admin s \<noteq> None \<Longrightarrow> f_admin s' \<noteq> None"
    and pay: "\<And>tk. tk_balance T tk self w - (if tk = e_token e then owed e - owed e' else 0)
      \<le> tk_balance T tk self w'"
  shows "good_step T self (s, w) (s', w')"
proof -
  have "finite (dom (x_escrows s))" using ok by (simp add: store_ok_def)
  moreover have "e_token e' = e_token e" using e'(2) by (simp add: rec_step_def)
  ultimately have "surplus T self tk s w \<le> surplus T self tk s' w'" for tk
    using owed_in_upd [of "x_escrows s" k e e' tk] e pay [of tk] s' by (simp add: surplus_def liabilities_def)
  moreover have "store_ok s'" using ok e e' s' by (auto simp: store_ok_def)
  ultimately show ?thesis using e e' s' by (auto simp: good_step_def)
qed

lemma good_step_milestone:
  assumes ok: "store_ok s" and m: "x_mescrows s k = Some m"
    and m': "mrec_ok k m'" "mrec_step m m'"
    and s': "x_mescrows s' = (x_mescrows s)(k \<mapsto> m')" "x_escrows s' = x_escrows s"
      "x_count s' = x_count s" "x_mcount s' = x_mcount s" "meta_kept s s'" "fee_cfg_ok s'"
      "f_admin s \<noteq> None \<Longrightarrow> f_admin s' \<noteq> None"
    and pay: "\<And>tk. tk_balance T tk self w - (if tk = me_token m then m_owed m - m_owed m' else 0)
      \<le> tk_balance T tk self w'"
  shows "good_step T self (s, w) (s', w')"
proof -
  have "finite (dom (x_mescrows s))" using ok by (simp add: store_ok_def)
  moreover have "me_token m' = me_token m" using m'(2) by (simp add: mrec_step_def)
  ultimately have "surplus T self tk s w \<le> surplus T self tk s' w'" for tk
    using m_owed_in_upd [of "x_mescrows s" k m m' tk] m pay [of tk] s' by (simp add: surplus_def liabilities_def)
  moreover have "store_ok s'" using ok m m' s' by (auto simp: store_ok_def)
  ultimately show ?thesis using m m' s' by (auto simp: good_step_def)
qed

text \<open>A call that funds a new escrow under a fresh number.\<close>

lemma good_step_create:
  assumes ok: "store_ok s" and new: "rec_ok k e" "k = get_or 0 (x_count s) + 1"
    and s': "x_escrows s' = (x_escrows s)(k \<mapsto> e)" "x_mescrows s' = x_mescrows s"
      "x_count s' = Some k" "x_mcount s' = x_mcount s" "meta_kept s s'" "fee_cfg_ok s'"
      "f_admin s \<noteq> None \<Longrightarrow> f_admin s' \<noteq> None"
    and pay: "\<And>tk. tk_balance T tk self w + (if tk = e_token e then owed e else 0) \<le> tk_balance T tk self w'"
  shows "good_step T self (s, w) (s', w')"
proof -
  have fresh: "x_escrows s k = None"
    using store_ok_rec [OF ok, of k] new(2) by (cases "x_escrows s k") auto
  have "finite (dom (x_escrows s))" using ok by (simp add: store_ok_def)
  then have "wsum (owed_in tk) (x_escrows s') = wsum (owed_in tk) (x_escrows s) + owed_in tk e" for tk
    using s' fresh by (simp add: wsum_upd)
  then have "surplus T self tk s w \<le> surplus T self tk s' w'" for tk
    using pay [of tk] s' by (auto simp: surplus_def liabilities_def owed_in_def)
  moreover have "store_ok s'"
    unfolding store_ok_def
  proof (intro conjI allI impI)
    show "finite (dom (x_escrows s'))" "finite (dom (x_mescrows s'))" "x_legacy s' = Map.empty" "fee_cfg_ok s'"
      using ok s' by (auto simp: store_ok_def)
    show "rec_ok i r" "1 \<le> i" "i \<le> get_or 0 (x_count s')" if "x_escrows s' i = Some r" for i r
      using ok new s' that by (auto simp: store_ok_def split: if_splits) (metis le_SucI)+
    show "mrec_ok i r" "1 \<le> i" "i \<le> get_or 0 (x_mcount s')" if "x_mescrows s' i = Some r" for i r
      using ok s' that by (auto simp: store_ok_def)
  qed
  ultimately show ?thesis using s' fresh by (auto simp: good_step_def)
qed

lemma good_step_mcreate:
  assumes ok: "store_ok s" and new: "mrec_ok k m" "k = get_or 0 (x_mcount s) + 1"
    and s': "x_mescrows s' = (x_mescrows s)(k \<mapsto> m)" "x_escrows s' = x_escrows s"
      "x_mcount s' = Some k" "x_count s' = x_count s" "meta_kept s s'" "fee_cfg_ok s'"
      "f_admin s \<noteq> None \<Longrightarrow> f_admin s' \<noteq> None"
    and pay: "\<And>tk. tk_balance T tk self w + (if tk = me_token m then m_owed m else 0) \<le> tk_balance T tk self w'"
  shows "good_step T self (s, w) (s', w')"
proof -
  have fresh: "x_mescrows s k = None"
    using store_ok_mrec [OF ok, of k] new(2) by (cases "x_mescrows s k") auto
  have "finite (dom (x_mescrows s))" using ok by (simp add: store_ok_def)
  then have "wsum (m_owed_in tk) (x_mescrows s') = wsum (m_owed_in tk) (x_mescrows s) + m_owed_in tk m" for tk
    using s' fresh by (simp add: wsum_upd)
  then have "surplus T self tk s w \<le> surplus T self tk s' w'" for tk
    using pay [of tk] s' by (auto simp: surplus_def liabilities_def m_owed_in_def)
  moreover have "store_ok s'"
    unfolding store_ok_def
  proof (intro conjI allI impI)
    show "finite (dom (x_escrows s'))" "finite (dom (x_mescrows s'))" "x_legacy s' = Map.empty" "fee_cfg_ok s'"
      using ok s' by (auto simp: store_ok_def)
    show "mrec_ok i r" "1 \<le> i" "i \<le> get_or 0 (x_mcount s')" if "x_mescrows s' i = Some r" for i r
      using ok new s' that by (auto simp: store_ok_def split: if_splits) (metis le_SucI)+
    show "rec_ok i r" "1 \<le> i" "i \<le> get_or 0 (x_count s')" if "x_escrows s' i = Some r" for i r
      using ok s' that by (auto simp: store_ok_def)
  qed
  ultimately show ?thesis using s' fresh by (auto simp: good_step_def)
qed

end
