(* ===== verification/EscrowSafety.thy ===== *)
theory EscrowSafety
  imports EscrowInv
begin

text \<open>
  Every entry point of \<open>EscrowLifecycle\<close> is a good step: proved once for any token that
  satisfies the SEP-41 laws, in the locale \<open>token_client\<close>.
\<close>

section \<open>Frames\<close>

lemma guard_irrelevant [simp]:
  "store_ok (put_guard g s) = store_ok s"
  "liabilities tk (put_guard g s) = liabilities tk s"
  "surplus T self tk (put_guard g s) w = surplus T self tk s w"
  by (simp_all add: store_ok_def liabilities_def surplus_def fee_cfg_ok_def)

lemma good_step_guard:
  "good_step T self (put_guard g s, w) (s1, w1) \<Longrightarrow> good_step T self (s, w) (put_guard g' s1, w1)"
  by (simp add: good_step_def)

lemma fee_price_frame:
  assumes "compute_fee_unified P env m a s = Inr ((fee, meta), s1)"
  shows "\<exists>p t. s1 = s\<lparr>f_price_cache := p, f_price_time := t\<rparr>"
proof -
  have same: "\<exists>p t. s = s\<lparr>f_price_cache := p, f_price_time := t\<rparr>"
    by (intro exI [of _ "f_price_cache s"] exI [of _ "f_price_time s"]) simp
  then have "\<exists>p t. snd (cached_price env s) = s\<lparr>f_price_cache := p, f_price_time := t\<rparr>"
    by (auto simp: cached_price_def Let_def)
  with same show ?thesis using compute_fee_unified_frame [OF assms] by blast
qed

text \<open>What a successful release does.\<close>

definition released_rec :: "int \<Rightarrow> escrow_rec \<Rightarrow> escrow_rec" where
  "released_rec fee e = e\<lparr>e_status := ESReleased, e_platform_fee := e_platform_fee e + fee,
     e_net_amount := e_net_amount e + (e_amount e - fee), e_amount := 0\<rparr>"

lemma do_release_spec:
  assumes "do_release T P env e key actor (s, w) = (Inr (s', w') :: 'e fail + _)" "0 \<le> e_amount e" "fee_cfg_ok s"
  obtains fee p t tr where "0 \<le> fee" "10 * fee \<le> e_amount e"
    "pay_fee_and_net T env (e_token e) tr fee (e_mentor e) (e_amount e - fee) w = (Inr w' :: 'e fail + _)"
    "escrow_valid_transition (e_status e) ESReleased" "f_treasury s = Some tr"
    "s' = s\<lparr>f_price_cache := p, f_price_time := t,
       x_tlog := append_log env (e_id e) (e_status e) ESReleased actor (x_tlog s),
       x_escrows := (x_escrows s)(key \<mapsto> released_rec fee e)\<rparr>"
proof -
  from assms(1) obtain fee meta s1 tr where
    c: "compute_fee_unified P env (e_mentor e) (e_amount e) s = (Inr ((fee, meta), s1) :: 'e fail + _)"
    and tr: "f_treasury s1 = Some tr"
    and pay: "pay_fee_and_net T env (e_token e) tr fee (e_mentor e) (e_amount e - fee) w = (Inr w' :: 'e fail + _)"
    and tv: "escrow_valid_transition (e_status e) ESReleased"
    and s': "s' = s1\<lparr>x_tlog := append_log env (e_id e) (e_status e) ESReleased actor (x_tlog s1),
       x_escrows := (x_escrows s1)(key \<mapsto> released_rec fee e)\<rparr>"
    by (auto simp: do_release_def released_rec_def res_simps Let_def split: prod.splits)
  from fee_price_frame [OF c] obtain p t where s1: "s1 = s\<lparr>f_price_cache := p, f_price_time := t\<rparr>" by blast
  show ?thesis
    by (rule that [of fee tr t p])
      (use s' s1 pay tv tr compute_fee_unified_range [OF c assms(2,3)] in auto)
qed

lemma released_rec_ok:
  assumes "rec_ok k e" "e_status e = ESActive" "0 \<le> fee" "10 * fee \<le> e_amount e"
  shows "rec_ok k (released_rec fee e)" "rec_step e (released_rec fee e)"
    "owed e - owed (released_rec fee e) = e_amount e"
  using assms by (auto simp: released_rec_def rec_ok_def rec_step_def owed_def live_def terminal_status_def)

context token_client
begin

lemma pay_fee_and_net_bound:
  assumes "pay_fee_and_net T env tk tr fee m net w = (Inr w' :: 'e fail + 't)" "0 \<le> fee"
  shows "tk_balance T tk' (self_addr env) w - (if tk' = tk then fee + net else 0)
    \<le> tk_balance T tk' (self_addr env) w'"
proof -
  obtain w1 where w1: "(if 0 < fee then pay_self T env tk tr fee w else Inr w) = (Inr w1 :: 'e fail + 't)"
    "pay_self T env tk m net w1 = (Inr w' :: 'e fail + 't)"
    using assms(1) by (auto simp: pay_fee_and_net_def res_simps)
  have "tk_balance T tk' (self_addr env) w - (if tk' = tk then fee else 0) \<le> tk_balance T tk' (self_addr env) w1"
    using w1(1) pay_out_bound [of "as_invoker env" tk "self_addr env" tr fee w w1 tk'] assms(2)
    by (auto simp: res_simps split: if_splits)
  moreover have "tk_balance T tk' (self_addr env) w1 - (if tk' = tk then net else 0) \<le> tk_balance T tk' (self_addr env) w'"
    using w1(2) pay_out_bound [of "as_invoker env" tk "self_addr env" m net w1 w' tk']
    by (auto simp: res_simps)
  ultimately show ?thesis by auto
qed

lemma do_release_good:
  assumes "store_ok s" "x_escrows s k = Some e" "e_status e = ESActive"
    "do_release T P env e k actor (s, w) = (Inr (s', w') :: 'e fail + _)"
  shows "good_step T (self_addr env) (s, w) (s', w')"
proof -
  have ok: "rec_ok k e" using store_ok_rec [OF assms(1,2)] by simp
  then have amt: "0 \<le> e_amount e" by (simp add: rec_ok_def)
  have cfg: "fee_cfg_ok s" using store_ok_cfg [OF assms(1)] by simp
  show ?thesis
  proof (rule do_release_spec [OF assms(4) amt cfg])
    fix fee p t tr
    assume fee: "0 \<le> fee" "10 * fee \<le> e_amount e"
      and pay: "pay_fee_and_net T env (e_token e) tr fee (e_mentor e) (e_amount e - fee) w = (Inr w' :: 'e fail + _)"
      and s': "s' = s\<lparr>f_price_cache := p, f_price_time := t,
       x_tlog := append_log env (e_id e) (e_status e) ESReleased actor (x_tlog s),
       x_escrows := (x_escrows s)(k \<mapsto> released_rec fee e)\<rparr>"
    note rel = released_rec_ok [OF ok assms(3) fee]
    show ?thesis
    proof (rule good_step_escrow [OF assms(1,2) rel(1,2)])
      show "tk_balance T tk (self_addr env) w - (if tk = e_token e then owed e - owed (released_rec fee e) else 0)
        \<le> tk_balance T tk (self_addr env) w'" for tk
        using pay_fee_and_net_bound [OF pay fee(1), of tk] rel(3) by auto
      show "fee_cfg_ok s'" using cfg by (simp add: s' fee_cfg_ok_def)
    qed (simp_all add: s')
  qed
qed

end


section \<open>Release, dispute, refund\<close>

lemma good_step_same_start:
  "good_step T self (s1, w) X \<Longrightarrow> x_escrows s1 = x_escrows s \<Longrightarrow> x_mescrows s1 = x_mescrows s \<Longrightarrow>
   f_admin s1 = f_admin s \<Longrightarrow> meta_kept s s1 \<Longrightarrow> good_step T self (s, w) X"
  by (cases X) (simp add: good_step_def surplus_def liabilities_def, blast)

lemma good_step_same_end:
  assumes "good_step T self X (s1, w)" "x_escrows s2 = x_escrows s1" "x_mescrows s2 = x_mescrows s1"
   "x_count s2 = x_count s1" "x_mcount s2 = x_mcount s1" "meta_kept s1 s2"
   "f_fee_bps s2 = f_fee_bps s1" "f_admin s2 = f_admin s1"
  shows "good_step T self X (s2, w)"
proof (cases X)
  case (Pair s0 w0)
  have "store_ok s2" using assms by (simp add: good_step_def Pair store_ok_def fee_cfg_ok_def)
  moreover have "meta_kept s0 s1" using assms(1) by (simp add: good_step_def Pair)
  from meta_kept_trans [OF this assms(6)] have "meta_kept s0 s2" .
  ultimately show ?thesis
    using assms by (simp add: good_step_def surplus_def liabilities_def Pair)
qed

text \<open>The record after \<open>n\<close> more sessions took \<open>r\<close>.\<close>

definition settled_rec :: "int \<Rightarrow> nat \<Rightarrow> int \<Rightarrow> escrow_rec \<Rightarrow> escrow_rec" where
  "settled_rec fee n r e = e\<lparr>e_completed := e_completed e + n, e_amount := e_amount e - r,
     e_platform_fee := e_platform_fee e + fee, e_net_amount := e_net_amount e + (r - fee),
     e_status := (if e_completed e + n = e_total_sessions e then ESReleased else e_status e)\<rparr>"

lemma settle_sessions_spec:
  assumes "settle_sessions T P env e key n r actor (s, w) = (Inr (u, s', w') :: 'e fail + _)"
    "0 \<le> r" "fee_cfg_ok s"
  shows "\<exists>fee tr. f_treasury s = Some tr \<and> 0 \<le> fee \<and> 10 * fee \<le> r \<and>
    pay_fee_and_net T env (e_token e) tr fee (e_mentor e) (r - fee) w = (Inr w' :: 'e fail + _) \<and>
    (e_completed e + n = e_total_sessions e \<longrightarrow> escrow_valid_transition (e_status e) ESReleased) \<and>
    x_escrows s' = (x_escrows s)(key \<mapsto> settled_rec fee n r e) \<and> x_mescrows s' = x_mescrows s \<and>
    x_count s' = x_count s \<and> x_mcount s' = x_mcount s \<and> meta_kept s s' \<and>
    f_fee_bps s' = f_fee_bps s \<and> f_admin s' = f_admin s"
proof -
  have "\<exists>fee meta s1 tr. f_treasury s1 = Some tr \<and> compute_fee_unified P env (e_mentor e) r s = (Inr ((fee, meta), s1) :: 'e fail + _) \<and>
    pay_fee_and_net T env (e_token e) tr fee (e_mentor e) (r - fee) w = (Inr w' :: 'e fail + _) \<and>
    (e_completed e + n = e_total_sessions e \<longrightarrow> escrow_valid_transition (e_status e) ESReleased) \<and>
    x_escrows s' = (x_escrows s1)(key \<mapsto> settled_rec fee n r e) \<and> x_mescrows s' = x_mescrows s1 \<and>
    x_count s' = x_count s1 \<and> x_mcount s' = x_mcount s1 \<and> meta_kept s1 s' \<and>
    f_fee_bps s' = f_fee_bps s1 \<and> f_admin s' = f_admin s1"
  proof (cases "e_completed e + n = e_total_sessions e")
    case True
    with assms(1) show ?thesis
      by (clarsimp simp: settle_sessions_def settled_rec_def res_simps Let_def)
  next
    case False
    with assms(1) show ?thesis
      by (clarsimp simp: settle_sessions_def settled_rec_def res_simps Let_def)
  qed
  then obtain fee meta s1 tr where
    tr: "f_treasury s1 = Some tr"
    and c: "compute_fee_unified P env (e_mentor e) r s = (Inr ((fee, meta), s1) :: 'e fail + _)"
    and pay: "pay_fee_and_net T env (e_token e) tr fee (e_mentor e) (r - fee) w = (Inr w' :: 'e fail + _)"
    and res: "(e_completed e + n = e_total_sessions e \<longrightarrow> escrow_valid_transition (e_status e) ESReleased) \<and>
      x_escrows s' = (x_escrows s1)(key \<mapsto> settled_rec fee n r e) \<and> x_mescrows s' = x_mescrows s1 \<and>
      x_count s' = x_count s1 \<and> x_mcount s' = x_mcount s1 \<and> meta_kept s1 s' \<and>
      f_fee_bps s' = f_fee_bps s1 \<and> f_admin s' = f_admin s1"
    by blast
  from fee_price_frame [OF c] obtain p t where "s1 = s\<lparr>f_price_cache := p, f_price_time := t\<rparr>" by blast
  then have same: "x_escrows s1 = x_escrows s" "x_mescrows s1 = x_mescrows s" "x_count s1 = x_count s"
    "x_mcount s1 = x_mcount s" "meta_kept s s1" "f_fee_bps s1 = f_fee_bps s" "f_admin s1 = f_admin s"
    "f_treasury s1 = f_treasury s" by simp_all
  have "meta_kept s1 s'" using res by blast
  from meta_kept_trans [OF same(5) this] have "meta_kept s s'" .
  with tr pay res compute_fee_unified_range [OF c assms(2,3)] same show ?thesis
    by (intro exI [of _ fee] exI [of _ tr]) simp
qed

lemma settled_rec_ok:
  assumes "rec_ok k e" "e_status e = ESActive" "0 \<le> fee" "10 * fee \<le> r" "1 \<le> n"
    "e_completed e + n \<le> e_total_sessions e"
    "r = (if e_completed e + n = e_total_sessions e then e_amount e
          else int n * (e_quoted e div int (e_total_sessions e)))"
  shows "rec_ok k (settled_rec fee n r e)" "rec_step e (settled_rec fee n r e)"
    "owed e - owed (settled_rec fee n r e) = r" "0 \<le> r"
proof -
  let ?d = "e_quoted e div int (e_total_sessions e)"
  have n: "0 < int (e_total_sessions e)" "0 \<le> e_quoted e" using assms(1) by (simp_all add: rec_ok_def)
  then have d: "0 \<le> ?d" by (simp add: pos_imp_zdiv_nonneg_iff)
  have "int (e_total_sessions e) * ?d + e_quoted e mod int (e_total_sessions e) = e_quoted e" by simp
  then have dust: "int (e_total_sessions e) * ?d \<le> e_quoted e"
    using pos_mod_sign [OF n(1), of "e_quoted e"] by linarith
  have amt: "e_amount e = e_quoted e - int (e_completed e) * ?d"
    and "0 \<le> e_amount e" using assms(1,2) by (auto simp: rec_ok_def live_def)
  have le: "(int (e_completed e) + int n) * ?d \<le> int (e_total_sessions e) * ?d"
    using assms(6) d by (intro mult_right_mono) auto
  show r: "0 \<le> r" using assms(7) d \<open>0 \<le> e_amount e\<close> by simp
  have rest: "0 \<le> e_amount e - r"
    using assms(7) amt le dust by (auto simp: algebra_simps)
  show "rec_step e (settled_rec fee n r e)"
    using assms r by (auto simp: settled_rec_def rec_step_def terminal_status_def)
  show "owed e - owed (settled_rec fee n r e) = r"
    using assms by (auto simp: settled_rec_def owed_def live_def)
  show "rec_ok k (settled_rec fee n r e)"
    using assms r rest amt by (auto simp: settled_rec_def rec_ok_def live_def algebra_simps)
qed

lemma disputed_rec_ok:
  assumes "rec_ok k e" "e_status e = ESActive"
  shows "rec_ok k (e\<lparr>e_status := ESDisputed, e_dispute_reason := r\<rparr>)"
    "rec_step e (e\<lparr>e_status := ESDisputed, e_dispute_reason := r\<rparr>)"
    "owed (e\<lparr>e_status := ESDisputed, e_dispute_reason := r\<rparr>) = owed e"
  using assms by (auto simp: rec_ok_def rec_step_def owed_def live_def terminal_status_def)

lemma refunded_rec_ok:
  assumes "rec_ok k e" "live (e_status e)"
  shows "rec_ok k (e\<lparr>e_status := ESRefunded\<rparr>)" "rec_step e (e\<lparr>e_status := ESRefunded\<rparr>)"
    "owed e - owed (e\<lparr>e_status := ESRefunded\<rparr>) = e_amount e"
  using assms
  by (cases "e_status e"; simp add: rec_ok_def rec_step_def owed_def live_def terminal_status_def)+

definition resolved_rec :: "int \<Rightarrow> nat \<Rightarrow> escrow_rec \<Rightarrow> escrow_rec" where
  "resolved_rec m now e = e\<lparr>e_status := ESResolved, e_net_amount := m,
     e_platform_fee := e_amount e - m, e_resolved_at := now\<rparr>"

lemma resolved_rec_ok:
  assumes "rec_ok k e" "e_status e = ESDisputed" "0 \<le> m" "m \<le> e_amount e"
  shows "rec_ok k (resolved_rec m now e)" "rec_step e (resolved_rec m now e)"
    "owed e - owed (resolved_rec m now e) = e_amount e"
  using assms by (auto simp: resolved_rec_def rec_ok_def rec_step_def owed_def live_def terminal_status_def)

text \<open>The mentor's share of a resolved dispute.\<close>

lemma mentor_share:
  assumes "safe_mul a (int pct) = (Inr p :: 'e fail + int)" "safe_div p 100 = (Inr m :: 'e fail + int)"
    "0 \<le> a" "pct \<le> 100"
  shows "m = a * int pct div 100" "0 \<le> m" "m \<le> a"
proof -
  have p: "p = a * int pct" "in_i128 p" using assms(1) by (auto simp: res_simps)
  have "0 \<le> p" using p assms(3) by simp
  then show m: "m = a * int pct div 100"
    using assms(2) p checked_div_pos [of 100 p] by (simp add: res_simps)
  have "a * int pct \<le> a * 100" using assms(3,4) by (intro mult_left_mono) auto
  then have "a * int pct div 100 \<le> a * 100 div 100" by (rule zdiv_mono1) simp
  then show "m \<le> a" using m by simp
  show "0 \<le> m" using m \<open>0 \<le> p\<close> p by (simp add: pos_imp_zdiv_nonneg_iff)
qed



lemma resolve_dispute_elim:
  assumes "resolve_dispute_body T env k pct (s, w) = Inr (u, s', w')"
  obtains e adm p m w1 where "x_escrows s k = Some e" "e_status e = ESDisputed" "f_admin s = Some adm"
    "auth_by env adm" "pct \<le> 100" "\<not> is_isolated k s"
    "safe_mul (e_amount e) (int pct) = (Inr p :: escrow_error fail + int)"
    "safe_div p 100 = (Inr m :: escrow_error fail + int)"
    "(if 0 < m then pay_self T env (e_token e) (e_mentor e) m w else Inr w) = (Inr w1 :: escrow_error fail + _)"
    "(if 0 < e_amount e - m then pay_self T env (e_token e) (e_learner e) (e_amount e - m) w1 else Inr w1)
      = (Inr w' :: escrow_error fail + _)"
    "s' = s\<lparr>x_tlog := append_log env (e_id e) ESDisputed ESResolved adm (x_tlog s),
      x_escrows := (x_escrows s)(k \<mapsto> resolved_rec m (ledger_ts env) e)\<rparr>"
  using assms(1)
  unfolding resolve_dispute_body_def Let_def prod.case by_admin_Inr ensure_Inr touch_Inr
        rbind_Inr transition_status_Inr safe_sub_Inr split_paired_Ex
  unfolding prod.case transition_status_Inr sum.inject prod.inject
  apply clarify
  apply (rule that)
  apply (assumption | simp (no_asm_simp) add: resolved_rec_def)+
  done

text \<open>The quotient the code computes is the one of the invariant.\<close>

lemma per_session_quotient:
  assumes "rec_ok k e" "safe_div (e_quoted e) (int (e_total_sessions e)) = (Inr d :: 'e fail + int)"
  shows "d = e_quoted e div int (e_total_sessions e)"
proof -
  have q: "0 < int (e_total_sessions e)" "0 \<le> e_quoted e" using assms(1) by (simp_all add: rec_ok_def)
  have "in_i128 (e_quoted e)"
    using assms(1) q by (auto simp: rec_ok_def in_i128_def i128_min_def i128_max_def MAX_FINANCIAL_AMOUNT_def)
  then show ?thesis using assms(2) q by (simp add: safe_div_pos_Inr)
qed

context token_client
begin

lemma release_funds_good:
  assumes "store_ok s" "release_funds T P env caller k (s, w) = Inr (u, s', w')"
  shows "good_step T (self_addr env) (s, w) (s', w')"
proof -
  from assms(2) obtain g s1 where b: "release_funds_body T P env caller k (put_guard g s, w) = Inr (u, s1, w')"
    and s': "s' = put_guard (rg_release ''release'' (Some caller) (x_guard s1)) s1"
    unfolding release_funds_def with_guard_Inr by blast
  from b obtain e lf where e: "x_escrows s k = Some e" "e_status e = ESActive"
    and r: "do_release T P env e k caller ((put_guard g s)\<lparr>x_low_fee := lf\<rparr>, w) =
        (Inr (s1, w') :: escrow_error fail + _)"
    unfolding release_funds_body_def Let_def
    by (clarsimp simp: touch_Inr ensure_Inr expect_Inr need_auth_Inr rbind_Inr)
  have "store_ok ((put_guard g s)\<lparr>x_low_fee := lf\<rparr>)"
    using assms(1) by (simp add: store_ok_def fee_cfg_ok_def)
  from do_release_good [OF this _ e(2) r] e(1)
  have "good_step T (self_addr env) (s, w) (s1, w')" by (simp add: good_step_same_start)
  then show ?thesis unfolding s' by (rule good_step_same_end) simp_all
qed

lemma settle_sessions_good:
  assumes "store_ok s" "x_escrows s k = Some e" "e_status e = ESActive" "1 \<le> n"
    "e_completed e + n \<le> e_total_sessions e"
    "r = (if e_completed e + n = e_total_sessions e then e_amount e
          else int n * (e_quoted e div int (e_total_sessions e)))"
    "settle_sessions T P env e k n r actor (s, w) = (Inr (u, s', w') :: 'e fail + _)"
  shows "good_step T (self_addr env) (s, w) (s', w')"
proof -
  have ok: "rec_ok k e" using store_ok_rec [OF assms(1,2)] by simp
  have cfg: "fee_cfg_ok s" using store_ok_cfg [OF assms(1)] by simp
  have r: "0 \<le> r"
    using settled_rec_ok(4) [OF ok assms(3) order_refl _ assms(4-6)]
      ok assms(6) by (auto simp: rec_ok_def pos_imp_zdiv_nonneg_iff)
  from settle_sessions_spec [OF assms(7) r cfg] obtain fee tr where fee: "0 \<le> fee" "10 * fee \<le> r"
    and pay: "pay_fee_and_net T env (e_token e) tr fee (e_mentor e) (r - fee) w = (Inr w' :: 'e fail + _)"
    and s': "x_escrows s' = (x_escrows s)(k \<mapsto> settled_rec fee n r e)" "x_mescrows s' = x_mescrows s"
      "x_count s' = x_count s" "x_mcount s' = x_mcount s" "meta_kept s s'" "f_fee_bps s' = f_fee_bps s"
      "f_admin s' = f_admin s"
    by blast
  note rel = settled_rec_ok [OF ok assms(3) fee assms(4-6)]
  show ?thesis
  proof (rule good_step_escrow [OF assms(1,2) rel(1,2) s'(1-5)])
    show "tk_balance T tk (self_addr env) w - (if tk = e_token e then owed e - owed (settled_rec fee n r e) else 0)
      \<le> tk_balance T tk (self_addr env) w'" for tk
      using pay_fee_and_net_bound [OF pay fee(1), of tk] rel(3) by auto
    show "fee_cfg_ok s'" using cfg s'(6) by (simp add: fee_cfg_ok_def)
    show "f_admin s \<noteq> None \<Longrightarrow> f_admin s' \<noteq> None" using s'(7) by simp
  qed
qed

lemma release_partial_good:
  assumes "store_ok s" "release_partial T P env caller k (s, w) = Inr (u, s', w')"
  shows "good_step T (self_addr env) (s, w) (s', w')"
proof -
  from assms(2) obtain g s1 where b: "release_partial_body T P env caller k (put_guard g s, w) = Inr (u, s1, w')"
    and s': "s' = put_guard (rg_release ''partial'' (Some caller) (x_guard s1)) s1"
    unfolding release_partial_def with_guard_Inr by blast
  from b obtain e r where e: "x_escrows s k = Some e" "e_status e = ESActive" "e_completed e < e_total_sessions e"
    and r: "(if e_completed e + 1 = e_total_sessions e then Inr (e_amount e)
           else safe_div (e_quoted e) (int (e_total_sessions e))) = (Inr r :: escrow_error fail + _)"
    and st: "settle_sessions T P env e k 1 r caller (put_guard g s, w) = (Inr (u, s1, w') :: escrow_error fail + _)"
    unfolding release_partial_body_def Let_def
    by (clarsimp simp: touch_Inr ensure_Inr expect_Inr need_auth_Inr rbind_Inr simp del: if_split)
  have ok: "rec_ok k e" using store_ok_rec [OF assms(1) e(1)] by simp
  have "r = (if e_completed e + 1 = e_total_sessions e then e_amount e
          else int 1 * (e_quoted e div int (e_total_sessions e)))"
    using r per_session_quotient [OF ok] by (auto split: if_splits)
  then have "good_step T (self_addr env) (put_guard g s, w) (s1, w')"
    using assms(1) e st by (intro settle_sessions_good [of "put_guard g s" k e 1]) auto
  then show ?thesis unfolding s' by (rule good_step_guard)
qed

lemma batch_release_good:
  assumes "store_ok s" "batch_release T P env admin k n (s, w) = Inr (u, s', w')"
  shows "good_step T (self_addr env) (s, w) (s', w')"
proof -
  from assms(2) obtain e d r where e: "x_escrows s k = Some e" "e_status e = ESActive" "n \<noteq> 0"
      "e_completed e \<le> e_total_sessions e" "n \<le> e_total_sessions e - e_completed e"
    and d: "safe_div (e_quoted e) (int (e_total_sessions e)) = (Inr d :: escrow_error fail + _)"
    and r: "(if e_completed e + n = e_total_sessions e then Inr (e_amount e)
           else safe_mul d (int n)) = (Inr r :: escrow_error fail + _)"
    and st: "settle_sessions T P env e k n r admin (s, w) = (Inr (u, s', w') :: escrow_error fail + _)"
    unfolding batch_release_def Let_def
    by (clarsimp simp: touch_Inr ensure_Inr expect_Inr need_auth_Inr rbind_Inr sub_u32_Inr simp del: if_split)
  have ok: "rec_ok k e" using store_ok_rec [OF assms(1) e(1)] by simp
  have "r = (if e_completed e + n = e_total_sessions e then e_amount e
          else int n * (e_quoted e div int (e_total_sessions e)))"
    using r per_session_quotient [OF ok d] by (auto simp: safe_mul_Inr split: if_splits)
  then show ?thesis
    using assms(1) e st by (intro settle_sessions_good [of s k e n]) auto
qed

lemma admin_release_good:
  assumes "store_ok s" "admin_release T P env k (s, w) = Inr (u, s', w')"
  shows "good_step T (self_addr env) (s, w) (s', w')"
proof -
  have leg: "x_legacy s = Map.empty" using store_ok_cfg [OF assms(1)] by simp
  from assms(2) obtain e adm where e: "load_escrow k s = (Inr e :: escrow_error fail + _)" "e_status e = ESActive"
    and r: "do_release T P env e k adm (s, w) = (Inr (s', w') :: escrow_error fail + _)"
    unfolding admin_release_def Let_def
    by (clarsimp simp: touch_Inr ensure_Inr expect_Inr need_auth_Inr rbind_Inr)
  have "x_escrows s k = Some e" using e leg by (auto simp: load_escrow_def split: option.splits)
  from do_release_good [OF assms(1) this e(2) r] show ?thesis .
qed

lemma try_auto_release_good:
  assumes "store_ok s" "try_auto_release T P env k (s, w) = Inr (u, s', w')"
  shows "good_step T (self_addr env) (s, w) (s', w')"
proof -
  have cfg: "fee_cfg_ok s" using store_ok_cfg [OF assms(1)] by simp
  from assms(2) obtain e where e: "x_escrows s k = Some e" "e_status e = ESActive"
    and c: "(\<exists>f. s' = set_failure_record k f s \<and> w' = w) \<or>
      (\<exists>s2. do_release T P env e k (self_addr env) (s, w) = (Inr (s2, w') :: escrow_error fail + _) \<and>
        s' = clear_failure_record k s2)"
    unfolding try_auto_release_def Let_def
    by (cases "x_escrows s k")
      (auto simp: touch_Inr ensure_Inr expect_Inr need_auth_Inr rbind_Inr split: if_splits)
  from c show ?thesis
  proof
    assume "\<exists>f. s' = set_failure_record k f s \<and> w' = w"
    then show ?thesis using assms(1) cfg
      by (auto intro!: good_step_frame simp: set_failure_record_def fee_cfg_ok_def)
  next
    assume "\<exists>s2. do_release T P env e k (self_addr env) (s, w) = (Inr (s2, w') :: escrow_error fail + _) \<and>
        s' = clear_failure_record k s2"
    then obtain s2 where r: "do_release T P env e k (self_addr env) (s, w) = (Inr (s2, w') :: escrow_error fail + _)"
      and s': "s' = clear_failure_record k s2" by blast
    from do_release_good [OF assms(1) e r] show ?thesis
      unfolding s' by (rule good_step_same_end) (simp_all add: clear_failure_record_def)
  qed
qed

lemma dispute_good:
  assumes "store_ok s" "dispute env caller k reason (s, w) = Inr (u, s', w')"
  shows "good_step T (self_addr env) (s, w) (s', w')"
proof -
  have cfg: "fee_cfg_ok s" using store_ok_cfg [OF assms(1)] by simp
  from assms(2) obtain g s1 where b: "dispute_body env caller k reason (put_guard g s, w) = Inr (u, s1, w')"
    and s': "s' = put_guard (rg_release ''dispute'' (Some caller) (x_guard s1)) s1"
    unfolding dispute_def with_guard_Inr by blast
  from b obtain e where e: "x_escrows s k = Some e" "e_status e = ESActive" and w': "w' = w"
    and s1: "s1 = (put_guard g s)\<lparr>x_tlog := append_log env (e_id e) ESActive ESDisputed caller (x_tlog s),
      x_escrows := (x_escrows s)(k \<mapsto> e\<lparr>e_status := ESDisputed, e_dispute_reason := reason\<rparr>)\<rparr>"
    unfolding dispute_body_def Let_def
    by (clarsimp simp: touch_Inr ensure_Inr need_auth_Inr rbind_Inr transition_status_Inr)
  have ok: "rec_ok k e" using store_ok_rec [OF assms(1) e(1)] by simp
  note d = disputed_rec_ok [OF ok e(2), of reason]
  have "good_step T (self_addr env) (s, w) (s1, w')"
    by (rule good_step_escrow [OF assms(1) e(1) d(1,2)])
      (use cfg d(3) in \<open>simp_all add: s1 w' fee_cfg_ok_def\<close>)
  then show ?thesis unfolding s' by (rule good_step_same_end) simp_all
qed

lemma resolve_dispute_good:
  assumes "store_ok s" "resolve_dispute T env k pct (s, w) = Inr (u, s', w')"
  shows "good_step T (self_addr env) (s, w) (s', w')"
proof -
  have cfg: "fee_cfg_ok s" using store_ok_cfg [OF assms(1)] by simp
  from assms(2) obtain g s1 where b: "resolve_dispute_body T env k pct (put_guard g s, w) = Inr (u, s1, w')"
    and s': "s' = put_guard (rg_release ''resolve'' None (x_guard s1)) s1"
    unfolding resolve_dispute_def with_guard_Inr by blast
  have "good_step T (self_addr env) (s, w) (s1, w')"
  proof (rule resolve_dispute_elim [OF b])
    fix e adm p m w1
    assume e: "x_escrows (put_guard g s) k = Some e" "e_status e = ESDisputed" and pct: "pct \<le> 100"
      and p: "safe_mul (e_amount e) (int pct) = (Inr p :: escrow_error fail + int)"
        "safe_div p 100 = (Inr m :: escrow_error fail + int)"
      and pay1: "(if 0 < m then pay_self T env (e_token e) (e_mentor e) m w else Inr w) = (Inr w1 :: escrow_error fail + _)"
      and pay2: "(if 0 < e_amount e - m then pay_self T env (e_token e) (e_learner e) (e_amount e - m) w1 else Inr w1)
        = (Inr w' :: escrow_error fail + _)"
      and s1: "s1 = (put_guard g s)\<lparr>x_tlog := append_log env (e_id e) ESDisputed ESResolved adm (x_tlog (put_guard g s)),
        x_escrows := (x_escrows (put_guard g s))(k \<mapsto> resolved_rec m (ledger_ts env) e)\<rparr>"
    have es: "x_escrows s k = Some e" using e by simp
    have ok: "rec_ok k e" using store_ok_rec [OF assms(1) es] by simp
    then have "0 \<le> e_amount e" by (simp add: rec_ok_def)
    note share = mentor_share [OF p this pct]
    note res = resolved_rec_ok [OF ok e(2) share(2,3), of "ledger_ts env"]
    have b1: "tk_balance T tk (self_addr env) w - (if tk = e_token e then m else 0) \<le> tk_balance T tk (self_addr env) w1" for tk
      using pay1 pay_self_bound [of env "e_token e" "e_mentor e" m w w1 tk] share(2) by (auto split: if_splits)
    have b2: "tk_balance T tk (self_addr env) w1 - (if tk = e_token e then e_amount e - m else 0) \<le> tk_balance T tk (self_addr env) w'" for tk
      using pay2 pay_self_bound [of env "e_token e" "e_learner e" "e_amount e - m" w1 w' tk] share(3)
      by (auto split: if_splits)
    show ?thesis
    proof (rule good_step_escrow [OF assms(1) es res(1,2)])
      show "tk_balance T tk (self_addr env) w - (if tk = e_token e then owed e - owed (resolved_rec m (ledger_ts env) e) else 0)
        \<le> tk_balance T tk (self_addr env) w'" for tk
        using b1 [of tk] b2 [of tk] res(3) by auto
    qed (use cfg in \<open>simp_all add: s1 fee_cfg_ok_def\<close>)
  qed
  then show ?thesis unfolding s' by (rule good_step_same_end) simp_all
qed

lemma refund_good:
  assumes "store_ok s" "refund T env k (s, w) = Inr (u, s', w')"
  shows "good_step T (self_addr env) (s, w) (s', w')"
proof -
  have cfg: "fee_cfg_ok s" using store_ok_cfg [OF assms(1)] by simp
  from assms(2) obtain e adm where e: "x_escrows s k = Some e"
    "\<not> (e_status e = ESReleased \<or> e_status e = ESRefunded \<or> e_status e = ESResolved)"
    and pay: "pay_self T env (e_token e) (e_learner e) (e_amount e) w = (Inr w' :: escrow_error fail + _)"
    and s': "s' = s\<lparr>x_tlog := append_log env (e_id e) (e_status e) ESRefunded adm (x_tlog s),
      x_escrows := (x_escrows s)(k \<mapsto> e\<lparr>e_status := ESRefunded\<rparr>)\<rparr>"
    unfolding refund_def Let_def
    by (clarsimp simp: touch_Inr ensure_Inr expect_Inr need_auth_Inr rbind_Inr transition_status_Inr)
  have ok: "rec_ok k e" using store_ok_rec [OF assms(1) e(1)] by simp
  have "live (e_status e)" using ok e(2) by (cases "e_status e") (auto simp: rec_ok_def live_def)
  note ref = refunded_rec_ok [OF ok this]
  show ?thesis
  proof (rule good_step_escrow [OF assms(1) e(1) ref(1,2)])
    show "tk_balance T tk (self_addr env) w - (if tk = e_token e then owed e - owed (e\<lparr>e_status := ESRefunded\<rparr>) else 0)
      \<le> tk_balance T tk (self_addr env) w'" for tk
      using pay_self_bound [OF pay, of tk] ref(3) by auto
  qed (use cfg in \<open>simp_all add: s' fee_cfg_ok_def\<close>)
qed

end

end
