(* ===== verification/EscrowFunding.thy ===== *)
theory EscrowFunding
  imports EscrowSafety
begin

text \<open>
  Good steps, continued: the entry points that bring tokens into the escrow contract, and the
  milestone escrows.
\<close>

section \<open>Milestone sums\<close>

lemma open_amount_complete:
  assumes "length sts = length ms" "i < length ms" "sts ! i \<noteq> MSCompleted"
  shows "open_amount ms (sts[i := MSCompleted]) = open_amount ms sts - ms_amount (ms ! i)"
  using assms
proof (induction ms sts arbitrary: i rule: open_amount.induct)
  case (1 m ms st sts)
  then show ?case by (cases i) auto
qed auto

lemma open_amount_other:
  assumes "length sts = length ms" "i < length ms" "sts ! i \<noteq> MSCompleted" "x \<noteq> MSCompleted"
  shows "open_amount ms (sts[i := x]) = open_amount ms sts"
  using assms
proof (induction ms sts arbitrary: i rule: open_amount.induct)
  case (1 m ms st sts)
  then show ?case by (cases i) auto
qed auto

lemma open_amount_done: "set sts \<subseteq> {MSCompleted} \<Longrightarrow> open_amount ms sts = 0"
  by (induction ms sts rule: open_amount.induct) auto

lemma open_amount_nonneg: "\<forall>x \<in> set ms. 0 < ms_amount x \<Longrightarrow> 0 \<le> open_amount ms sts"
  by (induction ms sts rule: open_amount.induct) auto

lemma open_amount_fresh: "open_amount ms (map (\<lambda>_. MSPending) ms) = (\<Sum>m \<leftarrow> ms. ms_amount m)"
  by (induction ms) auto

lemma validate_milestones_Inr:
  "validate_milestones ms = Inr u \<Longrightarrow> \<forall>x \<in> set ms. 0 < ms_amount x \<and> ms_amount x \<le> MAX_FINANCIAL_AMOUNT"
  by (induction ms) (auto simp: res_simps validator_defs)

lemma sum_milestones_Inr: "sum_milestones acc ms = Inr t \<Longrightarrow> t = acc + (\<Sum>m \<leftarrow> ms. ms_amount m)"
  by (induction ms arbitrary: acc) (auto simp: res_simps, metis add.assoc)


section \<open>Creation\<close>

text \<open>The record a creation stores, and what a successful creation has checked and written.\<close>

definition new_rec ::
    "env \<Rightarrow> nat \<Rightarrow> addr \<Rightarrow> addr \<Rightarrow> int \<Rightarrow> symbol \<Rightarrow> addr \<Rightarrow> nat \<Rightarrow> nat \<Rightarrow> int \<Rightarrow> int \<Rightarrow> addr \<Rightarrow> addr \<Rightarrow> nat \<Rightarrow> escrow_rec" where
  "new_rec env k mentor learner amount sid tk send delay usd quoted sa da n =
     \<lparr>e_id = k, e_mentor = mentor, e_learner = learner, e_amount = amount,
       e_session_id = sid, e_status = ESActive, e_created_at = ledger_ts env,
       e_token = tk, e_platform_fee = 0, e_net_amount = 0, e_session_end = send,
       e_auto_delay = delay, e_dispute_reason = '''', e_resolved_at = 0, e_usd_amount = usd,
       e_quoted = quoted, e_send_asset = sa, e_dest_asset = da, e_total_sessions = n,
       e_completed = 0\<rparr>"

lemma create_internal_inv:
  assumes "create_escrow_internal T env mentor learner amount sid tk send usd quoted sa da n (s, w) = Inr (k, s', w')"
  shows "k = get_or 0 (x_count s) + 1 \<and> 0 < amount \<and> amount \<le> MAX_FINANCIAL_AMOUNT \<and> 0 < n \<and>
    int n \<le> amount \<and> is_token_approved tk s \<and> auth_by env learner \<and>
    x_nonces s (sha env [XSym sid]) = None \<and> x_sessions s sid = None \<and>
    tk_transfer T (as_invoker env) tk learner (self_addr env) amount w = Inr w' \<and>
    x_escrows s' = (x_escrows s)(k \<mapsto> new_rec env k mentor learner amount sid tk send
      (get_or DEFAULT_AUTO_RELEASE_DELAY (x_delay s)) usd quoted sa da n) \<and>
    x_mescrows s' = x_mescrows s \<and> x_count s' = Some k \<and> x_mcount s' = x_mcount s \<and>
    meta_kept s s' \<and> f_fee_bps s' = f_fee_bps s \<and> f_admin s' = f_admin s \<and>
    x_nonces s' = (x_nonces s)(sha env [XSym sid] \<mapsto> True)"
  using assms(1)
  unfolding create_escrow_internal_def Let_def prod.case ensure_Inr expect_Inr need_auth_Inr rbind_Inr
    transition_status_Inr arith_u64_Inr call_ext_Inr validate_or_panic_Inr split_paired_Ex
  unfolding prod.case transition_status_Inr sum.inject prod.inject validator_defs v_check_Nil
    validate_session_nonce_def
  apply (elim exE conjE)
  apply hypsubst
  apply (intro conjI)
  apply (assumption | linarith | simp (no_asm_simp) add: new_rec_def subset_insertI | simp (no_asm_use))+
  done

lemma fresh_rec_ok:
  assumes "0 < amount" "amount \<le> MAX_FINANCIAL_AMOUNT" "0 < n" "int n \<le> amount"
    "e_id e = k" "e_amount e = amount" "e_quoted e = amount" "e_status e = ESActive"
    "e_platform_fee e = 0" "e_net_amount e = 0" "e_total_sessions e = n" "e_completed e = 0"
  shows "rec_ok k e" "owed e = amount"
  using assms by (auto simp: rec_ok_def live_def owed_def)

context token_client
begin

lemma create_internal_good:
  assumes "store_ok s" "external env"
    "create_escrow_internal T env mentor learner amount sid tk send usd amount sa da n (s, w) = Inr (k, s', w')"
  shows "good_step T (self_addr env) (s, w) (s', w')"
proof -
  note c = create_internal_inv [OF assms(3)]
  let ?rec = "new_rec env k mentor learner amount sid tk send
      (get_or DEFAULT_AUTO_RELEASE_DELAY (x_delay s)) usd amount sa da n"
  have ne: "learner \<noteq> self_addr env" using c assms(2) by (auto simp: external_def)
  have tr: "tk_transfer T (as_invoker env) tk learner (self_addr env) amount w = Inr w'" using c by blast
  have ro: "rec_ok k ?rec" "owed ?rec = amount" "e_token ?rec = tk"
    using c fresh_rec_ok [of amount n ?rec k] by (simp_all add: new_rec_def)
  show ?thesis
  proof (rule good_step_create [OF assms(1) ro(1)])
    show "fee_cfg_ok s'" using store_ok_cfg [OF assms(1)] c by (simp add: fee_cfg_ok_def)
    show "f_admin s \<noteq> None \<Longrightarrow> f_admin s' \<noteq> None" using c by simp
    show "tk_balance T tk' (self_addr env) w + (if tk' = e_token ?rec then owed ?rec else 0)
      \<le> tk_balance T tk' (self_addr env) w'" for tk'
      using pay_in_exact [OF tr ne, of tk'] ro by simp
  qed (use c in blast)+
qed

lemma create_escrow_good:
  assumes "store_ok s" "external env"
    "create_escrow T env mentor learner amount sid tk send n (s, w) = Inr (k, s', w')"
  shows "good_step T (self_addr env) (s, w) (s', w')"
proof -
  from assms(3) obtain g s1 where
    b: "create_escrow_internal T env mentor learner amount sid tk send 0 amount tk tk n (put_guard g s, w) = Inr (k, s1, w')"
    and s': "s' = put_guard (rg_release ''create'' (Some learner) (x_guard s1)) s1"
    unfolding create_escrow_def with_guard_Inr by blast
  have "store_ok (put_guard g s)" using assms(1) by simp
  from create_internal_good [OF this assms(2) b] show ?thesis unfolding s' by (rule good_step_guard)
qed

lemma create_usd_good:
  assumes "store_ok s" "external env"
    "create_escrow_usd T P env mentor learner usd tk n (s, w) = Inr (k, s', w')"
  shows "good_step T (self_addr env) (s, w) (s', w')"
proof -
  from assms(3) obtain amt now where
    "create_escrow_internal T env mentor learner amt ''USD_SES'' tk now usd amt tk tk n (s, w) = Inr (k, s', w')"
    unfolding create_escrow_usd_def Let_def by (auto simp: ensure_Inr expect_Inr rbind_Inr)
  from create_internal_good [OF assms(1,2) this] show ?thesis .
qed

lemma create_path_good:
  assumes "store_ok s" "external env"
    "create_escrow_with_path_payment T env learner mentor sa smax da amt n (s, w) = Inr (k, s', w')"
  shows "good_step T (self_addr env) (s, w) (s', w')"
proof -
  from assms(3) have
    "create_escrow_internal T env mentor learner amt ''PATHPAY'' da 0 0 amt sa da n (s, w) = Inr (k, s', w')"
    unfolding create_escrow_with_path_payment_def Let_def by (auto simp: ensure_Inr expect_Inr rbind_Inr)
  from create_internal_good [OF assms(1,2) this] show ?thesis .
qed

end


section \<open>Milestones\<close>

definition new_mrec ::
    "env \<Rightarrow> nat \<Rightarrow> addr \<Rightarrow> addr \<Rightarrow> int \<Rightarrow> milestone_spec list \<Rightarrow> addr \<Rightarrow> milestone_escrow" where
  "new_mrec env k mentor learner total_amount milestones tk =
     \<lparr>me_id = k, me_mentor = mentor, me_learner = learner,
      me_total_amount = total_amount, me_milestones = milestones,
      me_statuses = map (\<lambda>_. MSPending) milestones, me_status = ESActive,
      me_created_at = ledger_ts env, me_token = tk, me_platform_fee = 0, me_net_amount = 0\<rparr>"

lemma create_milestone_inv:
  assumes "create_milestone_escrow T env mentor learner ms tk (s, w) = Inr (k, s', w')"
  shows "\<exists>tot. sum_milestones 0 ms = (Inr tot :: escrow_error fail + int) \<and> k = get_or 0 (x_mcount s) + 1 \<and> ms \<noteq> [] \<and>
    validate_milestones ms = (Inr () :: escrow_error fail + unit) \<and> auth_by env learner \<and>
    tk_transfer T (as_invoker env) tk learner (self_addr env) tot w = Inr w' \<and>
    x_mescrows s' = (x_mescrows s)(k \<mapsto> new_mrec env k mentor learner tot ms tk) \<and>
    x_escrows s' = x_escrows s \<and> x_mcount s' = Some k \<and> x_count s' = x_count s \<and>
    meta_kept s s' \<and> f_fee_bps s' = f_fee_bps s \<and> f_admin s' = f_admin s"
  using assms(1)
  unfolding create_milestone_escrow_def Let_def prod.case ensure_Inr expect_Inr need_auth_Inr rbind_Inr
    transition_status_Inr arith_u64_Inr call_ext_Inr validate_or_panic_Inr split_paired_Ex
  unfolding prod.case transition_status_Inr sum.inject prod.inject
  apply (elim exE conjE)
  apply hypsubst
  apply (rule exI, intro conjI)
  apply (assumption | simp (no_asm_simp) add: new_mrec_def | simp (no_asm_use))+
  done

text \<open>The record after milestone \<open>i\<close> was paid.\<close>

definition paid_mrec :: "int \<Rightarrow> nat \<Rightarrow> milestone_escrow \<Rightarrow> milestone_escrow" where
  "paid_mrec fee i m = (let sts = (me_statuses m)[i := MSCompleted];
     m' = m\<lparr>me_statuses := sts, me_platform_fee := me_platform_fee m + fee,
            me_net_amount := me_net_amount m + (ms_amount (me_milestones m ! i) - fee)\<rparr>
   in if list_all (\<lambda>x. x = MSCompleted) sts then m'\<lparr>me_status := ESReleased\<rparr> else m')"

lemma complete_milestone_inv:
  assumes "complete_milestone T P env k i (s, w) = Inr (u, s', w')"
  shows "\<exists>m fee meta s1 tr. x_mescrows s k = Some m \<and> me_status m = ESActive \<and>
    i < length (me_milestones m) \<and> list_get (me_statuses m) i = Some MSPending \<and> auth_by env (me_learner m) \<and>
    compute_fee_unified P env (me_mentor m) (ms_amount (me_milestones m ! i)) s =
      (Inr ((fee, meta), s1) :: escrow_error fail + _) \<and>
    pay_fee_and_net T env (me_token m) tr fee (me_mentor m) (ms_amount (me_milestones m ! i) - fee) w =
      (Inr w' :: escrow_error fail + _) \<and>
    x_mescrows s' = (x_mescrows s1)(k \<mapsto> paid_mrec fee i m) \<and>
    x_escrows s' = x_escrows s1 \<and> x_mcount s' = x_mcount s1 \<and> x_count s' = x_count s1 \<and>
    meta_kept s1 s' \<and> f_fee_bps s' = f_fee_bps s1 \<and> f_admin s' = f_admin s1"
proof -
  from assms obtain m where m: "x_mescrows s k = Some m"
    unfolding complete_milestone_def Let_def by (auto simp: touch_Inr)
  show ?thesis
  proof (cases "list_all (\<lambda>x. x = MSCompleted) ((me_statuses m)[i := MSCompleted])")
    case True
    with assms m show ?thesis
      by (clarsimp simp: complete_milestone_def paid_mrec_def touch_Inr ensure_Inr expect_Inr
          need_auth_Inr rbind_Inr transition_status_Inr safe_sub_Inr safe_add_Inr Let_def) blast
  next
    case False
    with assms m show ?thesis
      by (clarsimp simp: complete_milestone_def paid_mrec_def touch_Inr ensure_Inr expect_Inr
          need_auth_Inr rbind_Inr transition_status_Inr safe_sub_Inr safe_add_Inr Let_def) blast
  qed
qed

lemma paid_mrec_ok:
  assumes "mrec_ok k m" "me_status m = ESActive" "i < length (me_milestones m)"
    "list_get (me_statuses m) i = Some MSPending" "0 \<le> fee" "10 * fee \<le> ms_amount (me_milestones m ! i)"
  shows "mrec_ok k (paid_mrec fee i m)" "mrec_step m (paid_mrec fee i m)"
    "m_owed m - m_owed (paid_mrec fee i m) = ms_amount (me_milestones m ! i)"
proof -
  let ?sts = "(me_statuses m)[i := MSCompleted]" and ?a = "ms_amount (me_milestones m ! i)"
  have len: "length (me_statuses m) = length (me_milestones m)" using assms(1) by (simp add: mrec_ok_def)
  have pend: "me_statuses m ! i = MSPending"
    using assms(4) by (auto simp: list_get_def split: if_splits)
  have upd: "open_amount (me_milestones m) ?sts = open_amount (me_milestones m) (me_statuses m) - ?a"
    using open_amount_complete [OF len assms(3)] pend by simp
  have all0: "list_all (\<lambda>x. x = MSCompleted) ?sts \<Longrightarrow> set ?sts \<subseteq> {MSCompleted}"
    by (auto simp: list_all_iff)
  have nodisp: "MSDisputed \<notin> set ?sts"
    using assms(1,2) set_update_subset_insert [of "me_statuses m" i MSCompleted] by (auto simp: mrec_ok_def)
  show "mrec_step m (paid_mrec fee i m)"
    using assms(2) by (simp add: paid_mrec_def mrec_step_def Let_def)
  show "m_owed m - m_owed (paid_mrec fee i m) = ?a"
    using assms(2) upd open_amount_done [OF all0] by (auto simp: paid_mrec_def m_owed_def live_def Let_def)
  show "mrec_ok k (paid_mrec fee i m)"
    using assms upd nodisp all0 len by (auto simp: paid_mrec_def mrec_ok_def Let_def)
qed

lemma dispute_milestone_inv:
  assumes "dispute_milestone env k i reason (s, w) = Inr (u, s', w')"
  shows "\<exists>m. x_mescrows s k = Some m \<and> me_status m = ESActive \<and> i < length (me_milestones m) \<and>
    list_get (me_statuses m) i = Some MSPending \<and> auth_by env (me_mentor m) \<and> auth_by env (me_learner m) \<and>
    w' = w \<and>
    s' = s\<lparr>x_tlog := append_log env (me_id m) ESActive ESDisputed (me_learner m) (x_tlog s),
      x_mescrows := (x_mescrows s)(k \<mapsto> m\<lparr>me_statuses := (me_statuses m)[i := MSDisputed], me_status := ESDisputed\<rparr>)\<rparr>"
  using assms
  unfolding dispute_milestone_def Let_def prod.case ensure_Inr expect_Inr touch_Inr need_auth_Inr rbind_Inr
    transition_status_Inr split_paired_Ex
  unfolding prod.case transition_status_Inr sum.inject prod.inject
  apply (elim exE conjE)
  apply hypsubst
  apply (rule exI, intro conjI)
  apply (assumption | simp (no_asm_simp))+
  done

context token_client
begin

lemma create_milestone_good:
  assumes "store_ok s" "external env"
    "create_milestone_escrow T env mentor learner ms tk (s, w) = Inr (k, s', w')"
  shows "good_step T (self_addr env) (s, w) (s', w')"
proof -
  from create_milestone_inv [OF assms(3)] obtain tot where
    tot: "sum_milestones 0 ms = (Inr tot :: escrow_error fail + int)" and k: "k = get_or 0 (x_mcount s) + 1"
    and v: "validate_milestones ms = (Inr () :: escrow_error fail + unit)" and au: "auth_by env learner"
    and tr: "tk_transfer T (as_invoker env) tk learner (self_addr env) tot w = Inr w'"
    and s': "x_mescrows s' = (x_mescrows s)(k \<mapsto> new_mrec env k mentor learner tot ms tk)"
      "x_escrows s' = x_escrows s" "x_mcount s' = Some k" "x_count s' = x_count s"
      "meta_kept s s'" "f_fee_bps s' = f_fee_bps s" "f_admin s' = f_admin s" by blast
  let ?m = "new_mrec env k mentor learner tot ms tk"
  have ne: "learner \<noteq> self_addr env" using au assms(2) by (auto simp: external_def)
  have sum: "tot = (\<Sum>m \<leftarrow> ms. ms_amount m)" using sum_milestones_Inr [OF tot] by simp
  have ro: "mrec_ok k ?m" "m_owed ?m = tot" "me_token ?m = tk"
    using validate_milestones_Inr [OF v] sum
    by (auto simp: new_mrec_def mrec_ok_def m_owed_def live_def open_amount_fresh)
  show ?thesis
  proof (rule good_step_mcreate [OF assms(1) ro(1) k s'(1-5)])
    show "fee_cfg_ok s'" using store_ok_cfg [OF assms(1)] s'(6) by (simp add: fee_cfg_ok_def)
    show "f_admin s \<noteq> None \<Longrightarrow> f_admin s' \<noteq> None" using s'(7) by simp
    show "tk_balance T tk' (self_addr env) w + (if tk' = me_token ?m then m_owed ?m else 0)
      \<le> tk_balance T tk' (self_addr env) w'" for tk'
      using pay_in_exact [OF tr ne, of tk'] ro by simp
  qed
qed

lemma complete_milestone_good:
  assumes "store_ok s" "complete_milestone T P env k i (s, w) = Inr (u, s', w')"
  shows "good_step T (self_addr env) (s, w) (s', w')"
proof -
  have cfg: "fee_cfg_ok s" using store_ok_cfg [OF assms(1)] by simp
  from complete_milestone_inv [OF assms(2)] obtain m fee meta s1 tr where
    m: "x_mescrows s k = Some m" "me_status m = ESActive" "i < length (me_milestones m)"
      "list_get (me_statuses m) i = Some MSPending"
    and c: "compute_fee_unified P env (me_mentor m) (ms_amount (me_milestones m ! i)) s =
      (Inr ((fee, meta), s1) :: escrow_error fail + _)"
    and pay: "pay_fee_and_net T env (me_token m) tr fee (me_mentor m) (ms_amount (me_milestones m ! i) - fee) w =
      (Inr w' :: escrow_error fail + _)"
    and s': "x_mescrows s' = (x_mescrows s1)(k \<mapsto> paid_mrec fee i m)" "x_escrows s' = x_escrows s1"
      "x_mcount s' = x_mcount s1" "x_count s' = x_count s1" "meta_kept s1 s'" "f_fee_bps s' = f_fee_bps s1"
      "f_admin s' = f_admin s1"
    by blast
  from fee_price_frame [OF c] obtain p t where s1: "s1 = s\<lparr>f_price_cache := p, f_price_time := t\<rparr>" by blast
  have ok: "mrec_ok k m" using store_ok_mrec [OF assms(1) m(1)] by simp
  then have "0 \<le> ms_amount (me_milestones m ! i)" using m(3) by (auto simp: mrec_ok_def less_imp_le)
  note fee = compute_fee_unified_range [OF c this cfg]
  note rel = paid_mrec_ok [OF ok m(2-4) fee]
  show ?thesis
  proof (rule good_step_milestone [OF assms(1) m(1) rel(1,2)])
    show "tk_balance T tk (self_addr env) w - (if tk = me_token m then m_owed m - m_owed (paid_mrec fee i m) else 0)
      \<le> tk_balance T tk (self_addr env) w'" for tk
      using pay_fee_and_net_bound [OF pay fee(1), of tk] rel(3) by auto
    show "fee_cfg_ok s'" using cfg s'(6) by (simp add: fee_cfg_ok_def s1)
  qed (use s' in \<open>simp_all add: s1\<close>)
qed

lemma dispute_milestone_good:
  assumes "store_ok s" "dispute_milestone env k i reason (s, w) = Inr (u, s', w')"
  shows "good_step T (self_addr env) (s, w) (s', w')"
proof -
  have cfg: "fee_cfg_ok s" using store_ok_cfg [OF assms(1)] by simp
  from dispute_milestone_inv [OF assms(2)] obtain m where
    m: "x_mescrows s k = Some m" "me_status m = ESActive" "i < length (me_milestones m)"
      "list_get (me_statuses m) i = Some MSPending" and w': "w' = w"
    and s': "s' = s\<lparr>x_tlog := append_log env (me_id m) ESActive ESDisputed (me_learner m) (x_tlog s),
      x_mescrows := (x_mescrows s)(k \<mapsto> m\<lparr>me_statuses := (me_statuses m)[i := MSDisputed], me_status := ESDisputed\<rparr>)\<rparr>"
    by blast
  let ?m = "m\<lparr>me_statuses := (me_statuses m)[i := MSDisputed], me_status := ESDisputed\<rparr>"
  have ok: "mrec_ok k m" using store_ok_mrec [OF assms(1) m(1)] by simp
  have pend: "me_statuses m ! i \<noteq> MSCompleted"
    using m(4) by (auto simp: list_get_def split: if_splits)
  have same: "open_amount (me_milestones m) ((me_statuses m)[i := MSDisputed]) = open_amount (me_milestones m) (me_statuses m)"
    using open_amount_other [OF _ m(3) pend, of MSDisputed] ok by (simp add: mrec_ok_def)
  have d: "mrec_ok k ?m" "mrec_step m ?m" "m_owed ?m = m_owed m"
    using ok m(2) same by (auto simp: mrec_ok_def mrec_step_def m_owed_def live_def)
  show ?thesis
    by (rule good_step_milestone [OF assms(1) m(1) d(1,2)])
      (use cfg d(3) in \<open>simp_all add: s' w' fee_cfg_ok_def\<close>)
qed

end

end
