(* ===== verification/EscrowAdmin.thy ===== *)
theory EscrowAdmin
  imports EscrowFunding
begin

text \<open>
  Administration and break-glass paths of \<open>escrow/src/lib.rs\<close>: initialisation, the two-step
  admin change, wiring of peer contracts, the stuck-escrow watchlist, the emergency proposals
  with their 4-of-7 approval, manual recovery, the runtime invariant monitor, and the
  payment-integrity entry points.
\<close>

section \<open>Initialisation and administration\<close>

definition esc_initialize ::
    "addr \<Rightarrow> addr \<Rightarrow> nat \<Rightarrow> addr list \<Rightarrow> nat \<Rightarrow> 'a core_state_scheme \<Rightarrow> escrow_error fail + 'a core_state_scheme" where
  "esc_initialize admin treasury fee_bps approved_tokens auto_release_delay_secs s =
    ensure (f_admin s = None) (Panic ''Already initialized'') (
    ensure (fee_bps \<le> ESC_MAX_FEE_BPS) (Panic ''Fee exceeds maximum (1000 bps)'') (
    let delay = (if auto_release_delay_secs = 0 then DEFAULT_AUTO_RELEASE_DELAY
                 else auto_release_delay_secs);
        s1 = s\<lparr>f_admin := Some admin, f_treasury := Some treasury, f_fee_bps := Some fee_bps,
               x_count := Some 0, x_mcount := Some 0, x_delay := Some delay\<rparr>
    in Inr (fold (\<lambda>token_addr. set_token_approved token_addr True) approved_tokens s1)))"

definition propose_admin_change ::
    "env \<Rightarrow> addr \<Rightarrow> 'a escrow_state_scheme \<Rightarrow> escrow_error fail + 'a escrow_state_scheme" where
  "propose_admin_change env new_admin s =
    by_admin env s (\<lambda>current_admin.
    let last_change = get_or 0 (y_last_admin_change s); current_time = ledger_ts env in
    rbind (arith_u64 (last_change + ADMIN_COOLING_OFF_SECS)) (\<lambda>cool.
    ensure (\<not> current_time < cool) (Panic ''Cooling-off period active'') (
    expect (checked_u64 (current_time + MIN_ADMIN_TIMELOCK_SECS)) (Panic ''unwrap'') (\<lambda>effective_at.
    Inr (s\<lparr>y_pending_admin := Some \<lparr>at_new_admin = new_admin, at_effective_at = effective_at,
                                     at_status = AC_Proposed\<rparr>\<rparr>)))))"

definition accept_admin_role ::
    "env \<Rightarrow> addr \<Rightarrow> 'a escrow_state_scheme \<Rightarrow> escrow_error fail + 'a escrow_state_scheme" where
  "accept_admin_role env new_admin s =
    need_auth env new_admin (
    expect (y_pending_admin s) (Panic ''No pending admin transfer'') (\<lambda>pending.
    ensure (at_new_admin pending = new_admin) (Panic ''Unauthorized to accept role'') (
    ensure (\<not> ledger_ts env < at_effective_at pending) (Panic ''Timelock not expired'') (
    ensure (at_status pending = AC_Proposed) (Panic ''Invalid proposal state'') (
    Inr (s\<lparr>f_admin := Some new_admin, y_last_admin_change := Some (ledger_ts env),
            y_pending_admin := None\<rparr>))))))"

definition revoke_admin_emergency ::
    "env \<Rightarrow> addr \<Rightarrow> 'a escrow_state_scheme \<Rightarrow> escrow_error fail + 'a escrow_state_scheme" where
  "revoke_admin_emergency env new_admin s =
    expect (y_multisig s) (Panic ''Multisig not configured'') (\<lambda>multisig.
    need_auth env multisig (
    Inr (s\<lparr>f_admin := Some new_admin, y_pending_admin := None\<rparr>)))"

definition set_approved_token ::
    "env \<Rightarrow> addr \<Rightarrow> bool \<Rightarrow> 'a core_state_scheme \<Rightarrow> escrow_error fail + 'a core_state_scheme" where
  "set_approved_token env token_address approved s =
    by_admin env s (\<lambda>_. Inr (set_token_approved token_address approved s))"

definition set_interface_registry ::
    "env \<Rightarrow> addr \<Rightarrow> addr \<Rightarrow> 'a core_state_scheme \<Rightarrow> escrow_error fail + 'a core_state_scheme" where
  "set_interface_registry env admin registry s =
    by_caller_admin env admin s (Inr (s\<lparr>x_registry := Some registry\<rparr>))"

definition require_authorized_peer ::
    "peers \<Rightarrow> addr \<Rightarrow> symbol \<Rightarrow> 'a core_state_scheme \<Rightarrow> escrow_error fail + 'b \<Rightarrow> escrow_error fail + 'b" where
  "require_authorized_peer P candidate interface_id s k =
    (case x_registry s of
       Some registry \<Rightarrow> rbind (call_ext (p_verify P registry candidate interface_id)) (\<lambda>authorized.
         ensure authorized (Panic ''cross-contract caller not authorized'') k)
     | None \<Rightarrow> k)"

definition set_staking_contract ::
    "peers \<Rightarrow> env \<Rightarrow> addr \<Rightarrow> addr \<Rightarrow> 'a core_state_scheme \<Rightarrow> escrow_error fail + 'a core_state_scheme" where
  "set_staking_contract P env admin staking s =
    by_caller_admin env admin s (
    require_authorized_peer P staking ''staking_v1'' s (Inr (s\<lparr>f_staking := Some staking\<rparr>)))"

definition set_reputation_contract ::
    "peers \<Rightarrow> env \<Rightarrow> addr \<Rightarrow> addr \<Rightarrow> 'a core_state_scheme \<Rightarrow> escrow_error fail + 'a core_state_scheme" where
  "set_reputation_contract P env admin reputation s =
    by_caller_admin env admin s (
    require_authorized_peer P reputation ''reputation_v1'' s (Inr (s\<lparr>x_reputation := Some reputation\<rparr>)))"

definition set_insurance_contract ::
    "peers \<Rightarrow> env \<Rightarrow> addr \<Rightarrow> addr \<Rightarrow> 'a core_state_scheme \<Rightarrow> escrow_error fail + 'a core_state_scheme" where
  "set_insurance_contract P env admin insurance s =
    by_caller_admin env admin s (
    require_authorized_peer P insurance ''insurance_v1'' s (Inr (s\<lparr>x_insurance := Some insurance\<rparr>)))"

definition set_multisig_admin ::
    "env \<Rightarrow> addr \<Rightarrow> addr \<Rightarrow> 'a escrow_state_scheme \<Rightarrow> escrow_error fail + 'a escrow_state_scheme" where
  "set_multisig_admin env admin multisig_admin s =
    by_caller_admin env admin s (Inr (s\<lparr>y_multisig := Some multisig_admin\<rparr>))"

definition set_governance_contract ::
    "env \<Rightarrow> addr \<Rightarrow> addr \<Rightarrow> 'a escrow_state_scheme \<Rightarrow> escrow_error fail + 'a escrow_state_scheme" where
  "set_governance_contract env admin governance s =
    by_caller_admin env admin s (Inr (s\<lparr>y_governance := Some governance\<rparr>))"

definition grant_emergency_admin ::
    "env \<Rightarrow> addr \<Rightarrow> addr \<Rightarrow> 'a escrow_state_scheme \<Rightarrow> escrow_error fail + 'a escrow_state_scheme" where
  "grant_emergency_admin env admin emergency_admin s =
    by_caller_admin env admin s (
    let now = ledger_ts env in
    expect (compute_admin_expiry now) (Panic ''emergency admin expiry overflow'') (\<lambda>expires_at.
    Inr (s\<lparr>y_emerg_admin := Some \<lparr>er_admin = emergency_admin, er_granted_at = now,
             er_expires_at = expires_at, er_scope = ''emergency_release''\<rparr>\<rparr>)))"

definition set_emergency_signers ::
    "env \<Rightarrow> addr \<Rightarrow> addr list \<Rightarrow> 'a escrow_state_scheme \<Rightarrow> escrow_error fail + 'a escrow_state_scheme" where
  "set_emergency_signers env admin signers s =
    by_caller_admin env admin s (
    ensure (is_valid_emergency_config signers EMERGENCY_MSIG_THRESHOLD)
      (Panic ''Must provide exactly 7 distinct emergency signers with threshold 4'') (
    let config = \<lparr>em_signers = signers, em_threshold = EMERGENCY_MSIG_THRESHOLD\<rparr>
    in Inr (s\<lparr>y_signers := Some signers, y_msig_config := Some config\<rparr>)))"


section \<open>Stuck escrows\<close>

definition report_stuck_escrow ::
    "env \<Rightarrow> addr \<Rightarrow> nat \<Rightarrow> 'a escrow_state_scheme \<Rightarrow> escrow_error fail + 'a escrow_state_scheme" where
  "report_stuck_escrow env reporter escrow_id s =
    need_auth env reporter (
    touch (x_escrows s escrow_id) (\<lambda>escrow.
    ensure (e_status escrow = ESActive) (Panic ''Escrow is not active; cannot be reported as stuck'') (
    rbind (safe_add_u64 (e_session_end escrow) (e_auto_delay escrow)) (\<lambda>stuck_since.
    rbind (safe_add_u64 stuck_since GRACE_PERIOD_SECS) (\<lambda>reportable_after.
    let now = ledger_ts env in
    ensure (\<not> now < reportable_after) (Panic ''Stuck-report grace period not elapsed: {} < {}'') (
    let watchlist = get_or [] (y_stuck s) in
    Inr (if list_ex (\<lambda>i. i = escrow_id) watchlist then s
         else s\<lparr>y_stuck := Some (watchlist @ [escrow_id])\<rparr>)))))))"

definition remove_from_stuck_watchlist :: "nat \<Rightarrow> 'a escrow_state_scheme \<Rightarrow> 'a escrow_state_scheme" where
  "remove_from_stuck_watchlist escrow_id s =
    (case y_stuck s of None \<Rightarrow> s
     | Some watchlist \<Rightarrow> s\<lparr>y_stuck := Some (filter (\<lambda>i. i \<noteq> escrow_id) watchlist)\<rparr>)"


section \<open>Emergency actions\<close>

definition propose_emergency_action ::
    "env \<Rightarrow> addr \<Rightarrow> nat \<Rightarrow> hash32 \<Rightarrow> 'a escrow_state_scheme \<Rightarrow> escrow_error fail + nat \<times> 'a escrow_state_scheme" where
  "propose_emergency_action env proposer escrow_id reason_hash s =
    need_auth env proposer (
    expect (y_signers s) (Panic ''Emergency signers not configured'') (\<lambda>signers.
    ensure (is_emergency_signer signers proposer) (Panic ''Proposer is not an emergency signer'') (
    expect (x_failures s escrow_id)
      (Panic ''No failure record found; emergency release requires {} failed auto-release attempts'') (\<lambda>failure.
    ensure (\<not> rf_attempt_number failure < MAX_AUTO_RELEASE_ATTEMPTS)
      (Panic ''Emergency release requires {} failed attempts; have {}'') (
    expect (x_escrows s escrow_id) (Panic ''Escrow not found'') (\<lambda>escrow.
    ensure (e_status escrow = ESActive) (Panic ''Escrow not active'') (
    let action_type = ''emergency_release'';
        params_hash = compute_params_hash env action_type escrow_id (e_amount escrow) reason_hash in
    ensure (\<not> get_or False (y_failed_params s params_hash))
      (Panic ''Emergency attempt with these parameters permanently failed; cannot retry'') (
    let now = ledger_ts env in
    expect (compute_execute_after now) (Panic ''execute_after overflow'') (\<lambda>execute_after.
    let count = get_or 0 (y_prop_count s) in
    rbind (safe_add_u32 count 1) (\<lambda>new_id.
    let (approvals, _) = aggregate_signatures [] proposer;
        action = \<lparr>ea_id = new_id, ea_action_type = action_type, ea_escrow_id = escrow_id,
                  ea_amount = e_amount escrow, ea_proposer = proposer, ea_reason_hash = reason_hash,
                  ea_params_hash = params_hash, ea_proposed_at = now, ea_execute_after = execute_after,
                  ea_approval_count = 1, ea_signers = approvals, ea_executed = False, ea_failed = False\<rparr>
    in Inr (new_id, s\<lparr>y_prop_count := Some new_id,
                      y_proposals := (y_proposals s)(new_id \<mapsto> action),
                      y_approvals := (y_approvals s)((new_id, proposer) \<mapsto> True)\<rparr>)))))))))))"

definition approve_emergency_action ::
    "env \<Rightarrow> addr \<Rightarrow> nat \<Rightarrow> 'a escrow_state_scheme \<Rightarrow> escrow_error fail + 'a escrow_state_scheme" where
  "approve_emergency_action env signer action_id s =
    need_auth env signer (
    expect (y_signers s) (Panic ''Emergency signers not configured'') (\<lambda>registered.
    ensure (is_emergency_signer registered signer) (Panic ''Signer is not an emergency signer'') (
    expect (y_proposals s action_id) (Panic ''Emergency proposal not found'') (\<lambda>action.
    ensure (\<not> ea_executed action) (Panic ''Emergency action already executed'') (
    ensure (\<not> ea_failed action) (Panic ''Emergency action permanently failed'') (
    ensure (\<not> get_or False (y_approvals s (action_id, signer))) (Panic ''Already approved'') (
    ensure (\<not> EMERGENCY_MSIG_THRESHOLD \<le> ea_approval_count action)
      (Panic ''Emergency action already has exact 4-of-7 approvals'') (
    let (signers, n) = aggregate_signatures (ea_signers action) signer;
        action' = action\<lparr>ea_signers := signers, ea_approval_count := n\<rparr>
    in Inr (s\<lparr>y_approvals := (y_approvals s)((action_id, signer) \<mapsto> True),
               y_proposals := (y_proposals s)(action_id \<mapsto> action')\<rparr>)))))))))"

definition action_audit :: "env \<Rightarrow> nat \<Rightarrow> emergency_action \<Rightarrow> bool \<Rightarrow> emergency_audit_record" where
  "action_audit env action_id action success =
    \<lparr>eu_action_id = action_id, eu_action_type = ea_action_type action,
     eu_escrow_id = ea_escrow_id action, eu_amount = ea_amount action,
     eu_proposer = ea_proposer action, eu_participant_signers = ea_signers action,
     eu_reason_hash = ea_reason_hash action, eu_params_hash = ea_params_hash action,
     eu_timestamp = ledger_ts env, eu_success = success\<rparr>"

definition record_emergency_failure ::
    "env \<Rightarrow> emergency_action \<Rightarrow> 'a escrow_state_scheme \<Rightarrow> 'a escrow_state_scheme" where
  "record_emergency_failure env action s =
    (let action' = action\<lparr>ea_failed := True\<rparr> in
     s\<lparr>y_proposals := (y_proposals s)(ea_id action \<mapsto> action'),
       y_failed_params := (y_failed_params s)(ea_params_hash action \<mapsto> True),
       y_audits := (y_audits s)(ea_id action \<mapsto> action_audit env (ea_id action) action' False)\<rparr>)"

text \<open>The loop over all escrow numbers.\<close>

fun pool_loop :: "(nat \<rightharpoonup> escrow_rec) \<Rightarrow> nat list \<Rightarrow> int \<Rightarrow> 'e fail + int" where
  "pool_loop m [] tot = Inr tot"
| "pool_loop m (i # is) tot =
    (case m i of
       Some escrow \<Rightarrow>
         if e_status escrow = ESActive \<and> 0 < e_amount escrow
         then rbind (safe_add tot (e_amount escrow)) (\<lambda>tot'. pool_loop m is tot')
         else pool_loop m is tot
     | None \<Rightarrow> pool_loop m is tot)"

definition active_pool_total :: "'a core_state_scheme \<Rightarrow> 'e fail + int" where
  "active_pool_total s = pool_loop (x_escrows s) [1..<get_or 0 (x_count s) + 1] 0"

text \<open>The release of the emergency and recovery paths: flat fee, no schedule, no pre-checks.\<close>

definition do_release_simple ::
    "'t token_ops \<Rightarrow> env \<Rightarrow> escrow_rec \<Rightarrow> nat \<Rightarrow> addr \<Rightarrow> 'a core_state_scheme \<times> 't \<Rightarrow>
     'e fail + 'a core_state_scheme \<times> 't" where
  "do_release_simple T env escrow key actor sw =
    (let (s, w) = sw; release_amount = e_amount escrow;
         fee_bps = get_or DEFAULT_FEE_BPS (f_fee_bps s) in
    touch (f_fee_bps s) (\<lambda>_.
    rbind (safe_mul release_amount (int fee_bps)) (\<lambda>p.
    rbind (safe_div p 10000) (\<lambda>platform_fee.
    rbind (safe_sub release_amount platform_fee) (\<lambda>net_amount.
    expect (f_treasury s) (Panic ''Treasury not found'') (\<lambda>treasury.
    rbind (pay_fee_and_net T env (e_token escrow) treasury platform_fee (e_mentor escrow) net_amount w) (\<lambda>w1.
    rbind (transition_status env (e_id escrow) (e_status escrow) ESReleased actor s) (\<lambda>(status, s2).
    rbind (safe_add (e_platform_fee escrow) platform_fee) (\<lambda>platform_fee'.
    rbind (safe_add (e_net_amount escrow) net_amount) (\<lambda>net_amount'.
    let escrow' = escrow\<lparr>e_status := status, e_platform_fee := platform_fee',
                         e_net_amount := net_amount', e_amount := 0\<rparr>
    in Inr (s2\<lparr>x_escrows := (x_escrows s2)(key \<mapsto> escrow')\<rparr>, w1)))))))))))"

text \<open>
  A failed attempt is recorded and returns \<open>false\<close>; it does not panic, so the record is kept.
\<close>

definition execute_emergency_action ::
    "'t token_ops \<Rightarrow> env \<Rightarrow> addr \<Rightarrow> nat \<Rightarrow> 'a escrow_state_scheme \<times> 't \<Rightarrow>
     escrow_error fail + bool \<times> 'a escrow_state_scheme \<times> 't" where
  "execute_emergency_action T env caller action_id sw =
    (let (s, w) = sw in
    need_auth env caller (
    expect (y_proposals s action_id) (Panic ''Emergency proposal not found'') (\<lambda>action.
    ensure (\<not> ea_executed action) (Panic ''Emergency action already executed'') (
    ensure (\<not> ea_failed action) (Panic ''Emergency action permanently failed'') (
    ensure (\<not> get_or False (y_failed_params s (ea_params_hash action)))
      (Panic ''Emergency attempt with these parameters permanently failed; cannot retry'') (
    expect (y_signers s) (Panic ''Emergency signers not configured'') (\<lambda>registered.
    let failed = Inr (False, record_emergency_failure env action s, w); now = ledger_ts env in
    if \<not> validate_emergency_signatures registered (ea_signers action) then failed
    else if \<not> timelock_elapsed now (ea_execute_after action) then failed
    else case y_emerg_admin s of None \<Rightarrow> failed | Some role \<Rightarrow>
      if er_admin role \<noteq> caller \<or> \<not> is_emergency_admin_active role now \<or>
         er_scope role \<noteq> ''emergency_release'' then failed
      else
        rbind (active_pool_total s) (\<lambda>pool_total.
        let circuit = get_or \<lparr>cb_window_start = now, cb_released = 0\<rparr> (y_circuit s) in
        case check_circuit_breaker circuit now pool_total (ea_amount action) of
          None \<Rightarrow> failed
        | Some updated_circuit \<Rightarrow>
            touch (x_escrows s (ea_escrow_id action)) (\<lambda>escrow.
            if e_status escrow \<noteq> ESActive \<or> e_amount escrow \<noteq> ea_amount action then failed
            else
              rbind (do_release_simple T env escrow (ea_escrow_id action) caller (s, w)) (\<lambda>(s1, w1).
              let action' = action\<lparr>ea_executed := True\<rparr>;
                  s2 = s1\<lparr>y_proposals := (y_proposals s1)(action_id \<mapsto> action'),
                          y_circuit := Some updated_circuit\<rparr>;
                  s3 = s2\<lparr>x_failures := (x_failures s2)(ea_escrow_id action := None)\<rparr>;
                  s4 = remove_from_stuck_watchlist (ea_escrow_id action) s3;
                  s5 = s4\<lparr>y_audits := (y_audits s4)(action_id \<mapsto> action_audit env action_id action' True)\<rparr>
              in Inr (True, s5, w1)))))))))))"

definition emergency_release ::
    "'t token_ops \<Rightarrow> env \<Rightarrow> addr \<Rightarrow> nat \<Rightarrow> hash32 \<Rightarrow> nat \<Rightarrow> 'a escrow_state_scheme \<times> 't \<Rightarrow>
     escrow_error fail + bool \<times> 'a escrow_state_scheme \<times> 't" where
  "emergency_release T env caller escrow_id reason_hash emergency_action_id sw =
    with_guard ''emer'' (Some caller) sw (\<lambda>(s, w).
    expect (y_proposals s emergency_action_id) (Panic ''Emergency proposal not found'') (\<lambda>action.
    ensure (ea_escrow_id action = escrow_id) (Panic ''Emergency action escrow_id mismatch'') (
    ensure (ea_reason_hash action = reason_hash) (Panic ''Emergency action reason_hash mismatch'') (
    execute_emergency_action T env caller emergency_action_id (s, w)))))"

definition manual_recovery_release ::
    "'t token_ops \<Rightarrow> env \<Rightarrow> nat \<Rightarrow> hash32 \<Rightarrow> 'a core_state_scheme \<times> 't \<Rightarrow>
     escrow_error fail + unit \<times> 'a core_state_scheme \<times> 't" where
  "manual_recovery_release T env escrow_id recovery_reason_hash sw =
    (let (s, w) = sw in
    by_admin env s (\<lambda>admin.
    expect (x_failures s escrow_id)
      (Panic ''No failure record found; escrow may not have auto-release issues'') (\<lambda>failure.
    ensure (\<not> rf_attempt_number failure < MANUAL_RECOVERY_THRESHOLD)
      (Panic ''Manual recovery not yet available; {} more failures required'') (
    ensure (\<not> MAX_AUTO_RELEASE_ATTEMPTS \<le> rf_attempt_number failure)
      (Panic ''Escrow permanently blocked; max attempts ({}) reached'') (
    touch (x_escrows s escrow_id) (\<lambda>escrow.
    ensure (e_status escrow = ESActive)
      (Panic ''Escrow not active; manual recovery only for active escrows'') (
    rbind (do_release_simple T env escrow escrow_id admin (s, w)) (\<lambda>(s1, w1).
    let failure' = failure\<lparr>rf_recovery_state := RS_Recovered, rf_manual_recovery_at := ledger_ts env,
                           rf_manual_recovery_reason := recovery_reason_hash\<rparr>
    in Inr ((), set_failure_record escrow_id failure' s1, w1)))))))))"

end
