(* ===== verification/EscrowMonitor.thy ===== *)
theory EscrowMonitor
  imports EscrowAdmin
begin

text \<open>
  Runtime monitoring and payment-integrity entry points of \<open>escrow/src/lib.rs\<close>, and its views.
\<close>

section \<open>The invariant monitor\<close>

definition monitor_escrow_invariants ::
    "env \<Rightarrow> nat \<Rightarrow> 'a escrow_state_scheme \<Rightarrow> escrow_error fail + invariant_report \<times> 'a escrow_state_scheme" where
  "monitor_escrow_invariants env escrow_id s =
    touch (x_escrows s escrow_id) (\<lambda>escrow.
    let released_amount = sat_i128 (e_platform_fee escrow + e_net_amount escrow);
        funds_conserved = (0 \<le> e_amount escrow \<and> 0 \<le> e_platform_fee escrow \<and>
                           0 \<le> e_net_amount escrow \<and> released_amount \<le> e_amount escrow);
        transition_consistent = (e_completed escrow \<le> e_total_sessions escrow \<and>
          e_status escrow \<in> {ESPending, ESActive, ESReleased, ESDisputed, ESRefunded, ESResolved});
        terminal_state_immutable =
          (if terminal_status (e_status escrow) then y_state_lock s escrow_id = None else True);
        treasury_consistent =
          (if e_status escrow = ESReleased then 0 < released_amount \<or> e_amount escrow = 0
           else e_platform_fee escrow \<le> e_amount escrow);
        violation_count = length (filter Not
          [funds_conserved, transition_consistent, terminal_state_immutable, treasury_consistent]);
        report = \<lparr>ir_escrow_id = escrow_id, ir_funds_conserved = funds_conserved,
                  ir_transition_consistent = transition_consistent,
                  ir_terminal_state_immutable = terminal_state_immutable,
                  ir_treasury_consistent = treasury_consistent,
                  ir_violation_count = violation_count, ir_checked_at = ledger_ts env\<rparr>
    in Inr (report, s\<lparr>y_reports := (y_reports s)(escrow_id \<mapsto> report)\<rparr>))"


section \<open>Payment integrity\<close>

definition get_payment_audit :: "nat \<Rightarrow> 'a escrow_state_scheme \<Rightarrow> payment_audit_entry" where
  "get_payment_audit escrow_id s =
    get_or \<lparr>pa_escrow_id = escrow_id, pa_dispute_opened_at = 0, pa_evidence_count = 0,
            pa_resolved_at = 0, pa_isolated = False\<rparr> (y_payment_audit s escrow_id)"

text \<open>The log keeps the last 20 timestamps; the first one opens an audit entry.\<close>

definition log_dispute_action :: "env \<Rightarrow> nat \<Rightarrow> 'a escrow_state_scheme \<Rightarrow> 'a escrow_state_scheme" where
  "log_dispute_action env escrow_id s =
    (let log = get_or [] (y_action_log s escrow_id); now = ledger_ts env;
         first_action = (log = []);
         log1 = log @ [now];
         log2 = drop (length log1 - 20) log1;
         s1 = s\<lparr>y_action_log := (y_action_log s)(escrow_id \<mapsto> log2)\<rparr>
     in if first_action
        then s1\<lparr>y_payment_audit := (y_payment_audit s1)(escrow_id \<mapsto>
               \<lparr>pa_escrow_id = escrow_id, pa_dispute_opened_at = now, pa_evidence_count = 0,
                pa_resolved_at = 0, pa_isolated = False\<rparr>)\<rparr>
        else s1)"

definition dispute_payment ::
    "env \<Rightarrow> addr \<Rightarrow> nat \<Rightarrow> symbol \<Rightarrow> 'a escrow_state_scheme \<times> 't \<Rightarrow>
     escrow_error fail + unit \<times> 'a escrow_state_scheme \<times> 't" where
  "dispute_payment env caller escrow_id reason sw =
    rbind (dispute env caller escrow_id reason sw) (\<lambda>(_, s, w).
    Inr ((), log_dispute_action env escrow_id s, w))"

definition approve_dispute_resolution ::
    "env \<Rightarrow> addr \<Rightarrow> nat \<Rightarrow> 'a escrow_state_scheme \<Rightarrow>
     escrow_error fail + escrow_multisig_approval \<times> 'a escrow_state_scheme" where
  "approve_dispute_resolution env approver escrow_id s =
    need_auth env approver (
    let approvers = get_or [] (y_res_approvals s escrow_id);
        approvers' = (if approver \<in> set approvers then approvers else approvers @ [approver])
    in Inr (check_multisig_threshold approvers',
            s\<lparr>y_res_approvals := (y_res_approvals s)(escrow_id \<mapsto> approvers')\<rparr>))"

definition require_admin_for_escrow ::
    "env \<Rightarrow> addr \<Rightarrow> 'a core_state_scheme \<Rightarrow> escrow_error fail + 'b \<Rightarrow> escrow_error fail + 'b" where
  "require_admin_for_escrow env caller s k =
    expect (f_admin s) (Panic ''{}: escrow contract not initialized (no admin set)'') (\<lambda>stored_admin.
    need_auth env caller (
    ensure (caller = stored_admin) (Panic ''{}: caller is not the admin for escrow {}'') k))"

definition record_evidence_count ::
    "env \<Rightarrow> addr \<Rightarrow> nat \<Rightarrow> nat \<Rightarrow> 'a escrow_state_scheme \<Rightarrow> escrow_error fail + 'a escrow_state_scheme" where
  "record_evidence_count env admin escrow_id evidence_count s =
    require_admin_for_escrow env admin s (
    Inr (s\<lparr>y_evidence := (y_evidence s)(escrow_id \<mapsto> evidence_count)\<rparr>))"

definition resolve_dispute_secure ::
    "'t token_ops \<Rightarrow> env \<Rightarrow> addr \<Rightarrow> nat \<Rightarrow> nat \<Rightarrow> 'a escrow_state_scheme \<times> 't \<Rightarrow>
     escrow_error fail + unit \<times> 'a escrow_state_scheme \<times> 't" where
  "resolve_dispute_secure T env admin escrow_id mentor_pct sw =
    (let (s, w) = sw in
    require_admin_for_escrow env admin s (
    ensure (\<not> is_isolated escrow_id s) (Panic ''Escrow isolated pending manual review'') (
    let opened_at = (case y_action_log s escrow_id of None \<Rightarrow> 0
                     | Some log \<Rightarrow> get_or 0 (list_get log 0));
        evidence_count = get_or 0 (y_evidence s escrow_id);
        evidence = validate_evidence_sufficiency env evidence_count opened_at in
    ensure (ev_sufficient evidence) (Panic ''Insufficient evidence or cooldown not elapsed'') (
    let approval = check_multisig_threshold (get_or [] (y_res_approvals s escrow_id)) in
    ensure (mu_threshold_met approval) (Panic ''Multi-signature approval threshold not met'') (
    let s1 = log_dispute_action env escrow_id s in
    rbind (resolve_dispute T env escrow_id mentor_pct (s1, w)) (\<lambda>(_, s2, w2).
    let audit = (get_payment_audit escrow_id s2)\<lparr>pa_resolved_at := ledger_ts env,
                                                 pa_evidence_count := evidence_count\<rparr>
    in Inr ((), s2\<lparr>y_payment_audit := (y_payment_audit s2)(escrow_id \<mapsto> audit)\<rparr>, w2)))))))"

definition emergency_isolate_escrow ::
    "env \<Rightarrow> addr \<Rightarrow> nat \<Rightarrow> symbol \<Rightarrow> 'a escrow_state_scheme \<Rightarrow>
     escrow_error fail + emergency_fund_lock \<times> 'a escrow_state_scheme" where
  "emergency_isolate_escrow env admin escrow_id reason s =
    require_admin_for_escrow env admin s (
    let lock = \<lparr>fl_isolate = True, fl_reason = reason, fl_locked_at = ledger_ts env\<rparr>;
        s1 = s\<lparr>x_isolated := (x_isolated s)(escrow_id \<mapsto> True)\<rparr>;
        audit = (get_payment_audit escrow_id s1)\<lparr>pa_isolated := True\<rparr>
    in Inr (lock, s1\<lparr>y_payment_audit := (y_payment_audit s1)(escrow_id \<mapsto> audit)\<rparr>))"

definition assess_payment_manipulation_risk :: "nat \<Rightarrow> 'a escrow_state_scheme \<Rightarrow> payment_timing_check" where
  "assess_payment_manipulation_risk escrow_id s =
    detect_payment_timing_manipulation (get_or [] (y_action_log s escrow_id))"

definition recover_isolated_escrow ::
    "env \<Rightarrow> addr \<Rightarrow> nat \<Rightarrow> 'a core_state_scheme \<Rightarrow> escrow_error fail + 'a core_state_scheme" where
  "recover_isolated_escrow env admin escrow_id s =
    require_admin_for_escrow env admin s (
    Inr (s\<lparr>x_isolated := (x_isolated s)(escrow_id \<mapsto> False)\<rparr>))"


section \<open>Views\<close>

definition get_escrow :: "nat \<Rightarrow> 'a core_state_scheme \<Rightarrow> escrow_error fail + escrow_rec" where
  "get_escrow escrow_id s = touch (x_escrows s escrow_id) Inr"

definition get_auto_release_attempts :: "nat \<Rightarrow> 'a core_state_scheme \<Rightarrow> nat" where
  "get_auto_release_attempts escrow_id s =
    (case x_failures s escrow_id of Some f \<Rightarrow> rf_attempt_number f | None \<Rightarrow> 0)"

definition is_escrow_in_backoff :: "env \<Rightarrow> nat \<Rightarrow> 'a core_state_scheme \<Rightarrow> bool" where
  "is_escrow_in_backoff env escrow_id s =
    (case x_failures s escrow_id of
       Some failure \<Rightarrow> ledger_ts env < rf_next_retry_time failure \<and> 0 < rf_attempt_number failure
     | None \<Rightarrow> False)"

definition is_manual_recovery_available :: "nat \<Rightarrow> 'a core_state_scheme \<Rightarrow> bool" where
  "is_manual_recovery_available escrow_id s =
    (case x_failures s escrow_id of
       Some failure \<Rightarrow> MANUAL_RECOVERY_THRESHOLD \<le> rf_attempt_number failure \<and>
         rf_attempt_number failure < MAX_AUTO_RELEASE_ATTEMPTS
     | None \<Rightarrow> False)"

definition get_next_retry_time :: "nat \<Rightarrow> 'a core_state_scheme \<Rightarrow> nat option" where
  "get_next_retry_time escrow_id s = map_option rf_next_retry_time (x_failures s escrow_id)"

definition escrows_page :: "nat list \<Rightarrow> nat \<Rightarrow> nat \<Rightarrow> 'a core_state_scheme \<Rightarrow> escrow_error fail + escrow_rec list" where
  "escrows_page ids page page_size s =
    (let page_size = (if 50 < page_size then 50 else page_size) in
    rbind (safe_mul_u32 page page_size) (\<lambda>start.
    if length ids \<le> start then Inr []
    else rbind (arith_u32 (start + page_size)) (\<lambda>stop.
      Inr (List.map_filter (\<lambda>i. x_escrows s (ids ! i)) [start..<min stop (length ids)]))))"

definition get_escrows_by_mentor ::
    "addr \<Rightarrow> nat \<Rightarrow> nat \<Rightarrow> 'a core_state_scheme \<Rightarrow> escrow_error fail + escrow_rec list" where
  "get_escrows_by_mentor mentor page page_size s =
    escrows_page (get_or [] (x_mentor_idx s mentor)) page page_size s"

definition get_escrows_by_learner ::
    "addr \<Rightarrow> nat \<Rightarrow> nat \<Rightarrow> 'a core_state_scheme \<Rightarrow> escrow_error fail + escrow_rec list" where
  "get_escrows_by_learner learner page page_size s =
    escrows_page (get_or [] (x_learner_idx s learner)) page page_size s"

definition get_escrows_by_status ::
    "escrow_status \<Rightarrow> nat \<Rightarrow> nat \<Rightarrow> 'a core_state_scheme \<Rightarrow> nat list" where
  "get_escrows_by_status status offset limit s =
    (let count = get_or 0 (x_count s); count_u32 = min count u32_max;
         (start, stop) = page_bounds count_u32 offset limit
     in filter (\<lambda>i. case x_escrows s i of Some escrow \<Rightarrow> e_status escrow = status | None \<Rightarrow> False)
          [start + 1..<stop + 1])"

definition get_transition_log :: "nat \<Rightarrow> 'a core_state_scheme \<Rightarrow> transition_log list" where
  "get_transition_log escrow_id s = get_or [] (x_tlog s escrow_id)"

end
