(* ===== verification/EscrowGovern.thy ===== *)
theory EscrowGovern
  imports EscrowMonitor
begin

text \<open>
  Good steps of the administration, break-glass and monitoring entry points of
  \<open>EscrowAdmin\<close> and \<open>EscrowMonitor\<close>, with the inversion of the two that pay out.
\<close>

section \<open>The flat-fee release\<close>

lemma do_release_simple_spec:
  assumes "do_release_simple T env e key actor (s, w) = (Inr (s', w') :: 'e fail + _)" "0 \<le> e_amount e" "fee_cfg_ok s"
  obtains b tr where "f_fee_bps s = Some b" "f_treasury s = Some tr"
    "0 \<le> bps_of (e_amount e) b" "10 * bps_of (e_amount e) b \<le> e_amount e"
    "pay_fee_and_net T env (e_token e) tr (bps_of (e_amount e) b) (e_mentor e)
       (e_amount e - bps_of (e_amount e) b) w = (Inr w' :: 'e fail + _)"
    "escrow_valid_transition (e_status e) ESReleased"
    "s' = s\<lparr>x_tlog := append_log env (e_id e) (e_status e) ESReleased actor (x_tlog s),
       x_escrows := (x_escrows s)(key \<mapsto> released_rec (bps_of (e_amount e) b) e)\<rparr>"
proof -
  from assms(1) have "\<exists>b fee tr. f_fee_bps s = Some b \<and>
      in_i128 (e_amount e * int (get_or DEFAULT_FEE_BPS (f_fee_bps s))) \<and>
      checked_div_i128 (e_amount e * int (get_or DEFAULT_FEE_BPS (f_fee_bps s))) 10000 = Some fee \<and>
      f_treasury s = Some tr \<and>
      pay_fee_and_net T env (e_token e) tr fee (e_mentor e) (e_amount e - fee) w = (Inr w' :: 'e fail + _) \<and>
      escrow_valid_transition (e_status e) ESReleased \<and>
      s' = s\<lparr>x_tlog := append_log env (e_id e) (e_status e) ESReleased actor (x_tlog s),
        x_escrows := (x_escrows s)(key \<mapsto> released_rec fee e)\<rparr>"
    unfolding do_release_simple_def Let_def prod.case touch_Inr rbind_Inr expect_Inr transition_status_Inr
      safe_mul_Inr safe_div_Inr safe_sub_Inr safe_add_Inr split_paired_Ex
    unfolding prod.case transition_status_Inr sum.inject prod.inject
    apply (elim exE conjE)
    apply hypsubst
    apply (rule exI)+
    apply (intro conjI)
    apply (assumption | simp (no_asm_simp) add: released_rec_def | simp (no_asm_use))+
    done
  then obtain b fee tr where
    b: "f_fee_bps s = Some b" "in_i128 (e_amount e * int b)"
      "checked_div_i128 (e_amount e * int b) 10000 = Some fee"
    and tr: "f_treasury s = Some tr"
    and pay: "pay_fee_and_net T env (e_token e) tr fee (e_mentor e) (e_amount e - fee) w = (Inr w' :: 'e fail + _)"
    and tv: "escrow_valid_transition (e_status e) ESReleased"
    and s': "s' = s\<lparr>x_tlog := append_log env (e_id e) (e_status e) ESReleased actor (x_tlog s),
       x_escrows := (x_escrows s)(key \<mapsto> released_rec fee e)\<rparr>"
    by (elim exE conjE) (simp only: get_or_simps)
  have fee: "fee = bps_of (e_amount e) b" using bps_fee [OF b(2,3) assms(2)] .
  have "b \<le> ESC_MAX_FEE_BPS" using assms(3) b(1) by (simp add: fee_cfg_ok_def)
  note bounds = bps_of_bounds [OF assms(2) this]
  show ?thesis
    by (rule that [OF b(1) tr bounds pay [unfolded fee] tv s' [unfolded fee]])
qed

context token_client
begin

lemma do_release_simple_good:
  assumes "store_ok s" "x_escrows s k = Some e" "e_status e = ESActive"
    "do_release_simple T env e k actor (s, w) = (Inr (s', w') :: 'e fail + _)"
  shows "good_step T (self_addr env) (s, w) (s', w')"
proof -
  have ok: "rec_ok k e" using store_ok_rec [OF assms(1,2)] by simp
  then have amt: "0 \<le> e_amount e" by (simp add: rec_ok_def)
  have cfg: "fee_cfg_ok s" using store_ok_cfg [OF assms(1)] by simp
  show ?thesis
  proof (rule do_release_simple_spec [OF assms(4) amt cfg])
    fix b tr
    let ?fee = "bps_of (e_amount e) b"
    assume fee: "0 \<le> ?fee" "10 * ?fee \<le> e_amount e"
      and pay: "pay_fee_and_net T env (e_token e) tr ?fee (e_mentor e) (e_amount e - ?fee) w = (Inr w' :: 'e fail + _)"
      and s': "s' = s\<lparr>x_tlog := append_log env (e_id e) (e_status e) ESReleased actor (x_tlog s),
       x_escrows := (x_escrows s)(k \<mapsto> released_rec ?fee e)\<rparr>"
    note rel = released_rec_ok [OF ok assms(3) fee]
    show ?thesis
    proof (rule good_step_escrow [OF assms(1,2) rel(1,2)])
      show "tk_balance T tk (self_addr env) w - (if tk = e_token e then owed e - owed (released_rec ?fee e) else 0)
        \<le> tk_balance T tk (self_addr env) w'" for tk
        using pay_fee_and_net_bound [OF pay fee(1), of tk] rel(3) by auto
      show "fee_cfg_ok s'" using cfg by (simp add: s' fee_cfg_ok_def)
    qed (simp_all add: s')
  qed
qed

end


section \<open>Emergency execution and manual recovery\<close>

text \<open>What a successful emergency execution has checked.\<close>

definition emergency_passed ::
    "env \<Rightarrow> addr \<Rightarrow> emergency_action \<Rightarrow> addr list \<Rightarrow> emergency_admin_role \<Rightarrow> int \<Rightarrow> escrow_rec \<Rightarrow>
     'a escrow_state_scheme \<Rightarrow> circuit_breaker \<Rightarrow> bool" where
  "emergency_passed env caller a reg role pool e s cb \<longleftrightarrow>
    auth_by env caller \<and> \<not> ea_executed a \<and> \<not> ea_failed a \<and> y_signers s = Some reg \<and>
    validate_emergency_signatures reg (ea_signers a) \<and> ea_execute_after a \<le> ledger_ts env \<and>
    y_emerg_admin s = Some role \<and> er_admin role = caller \<and> ledger_ts env < er_expires_at role \<and>
    active_pool_total s = (Inr pool :: escrow_error fail + int) \<and>
    check_circuit_breaker (get_or \<lparr>cb_window_start = ledger_ts env, cb_released = 0\<rparr> (y_circuit s))
      (ledger_ts env) pool (ea_amount a) = Some cb \<and>
    x_escrows s (ea_escrow_id a) = Some e \<and> e_status e = ESActive \<and> e_amount e = ea_amount a"

lemma remove_watchlist_frame:
  obtains st where "remove_from_stuck_watchlist k s = s\<lparr>y_stuck := st\<rparr>"
proof (cases "y_stuck s")
  case None
  then show ?thesis by (intro that [of None]) (simp add: remove_from_stuck_watchlist_def)
next
  case (Some xs)
  then show ?thesis
    by (intro that [of "Some (filter (\<lambda>i. i \<noteq> k) xs)"]) (simp add: remove_from_stuck_watchlist_def)
qed

text \<open>The state after a successful emergency release, from the state \<open>s1\<close> of the payout.\<close>

definition emergency_done ::
    "env \<Rightarrow> nat \<Rightarrow> emergency_action \<Rightarrow> circuit_breaker \<Rightarrow> 'a escrow_state_scheme \<Rightarrow> 'a escrow_state_scheme" where
  "emergency_done env i a cb s1 =
    (let a' = a\<lparr>ea_executed := True\<rparr>;
         s2 = s1\<lparr>y_proposals := (y_proposals s1)(i \<mapsto> a'), y_circuit := Some cb\<rparr>;
         s3 = s2\<lparr>x_failures := (x_failures s2)(ea_escrow_id a := None)\<rparr>;
         s4 = remove_from_stuck_watchlist (ea_escrow_id a) s3
     in s4\<lparr>y_audits := (y_audits s4)(i \<mapsto> action_audit env i a' True)\<rparr>)"

lemma emergency_done_frame:
  "x_escrows (emergency_done env i a cb s1) = x_escrows s1 \<and>
   x_mescrows (emergency_done env i a cb s1) = x_mescrows s1 \<and>
   x_count (emergency_done env i a cb s1) = x_count s1 \<and>
   x_mcount (emergency_done env i a cb s1) = x_mcount s1 \<and>
   meta_kept s1 (emergency_done env i a cb s1) \<and>
   f_fee_bps (emergency_done env i a cb s1) = f_fee_bps s1 \<and>
   f_admin (emergency_done env i a cb s1) = f_admin s1"
  by (cases "y_stuck s1") (simp_all add: emergency_done_def remove_from_stuck_watchlist_def Let_def)

lemma execute_emergency_inv:
  assumes "execute_emergency_action T env caller i (s, w) = Inr (b, s', w')"
  shows "\<exists>a. y_proposals s i = Some a \<and> auth_by env caller \<and> \<not> ea_executed a \<and> \<not> ea_failed a \<and>
    (\<not> b \<and> s' = record_emergency_failure env a s \<and> w' = w \<or>
     b \<and> (\<exists>reg role pool e cb s1. emergency_passed env caller a reg role pool e s cb \<and>
       do_release_simple T env e (ea_escrow_id a) caller (s, w) = (Inr (s1, w') :: escrow_error fail + _) \<and>
       s' = emergency_done env i a cb s1))"
proof -
  from assms obtain a reg where a: "y_proposals s i = Some a" "y_signers s = Some reg"
      "auth_by env caller" "\<not> ea_executed a" "\<not> ea_failed a" "\<not> get_or False (y_failed_params s (ea_params_hash a))"
    unfolding execute_emergency_action_def Let_def by (auto simp: need_auth_Inr expect_Inr ensure_Inr)
  show ?thesis
  proof (cases b)
    case False
    then have "s' = record_emergency_failure env a s \<and> w' = w"
      using assms a unfolding execute_emergency_action_def Let_def
      by (auto simp: need_auth_Inr expect_Inr ensure_Inr rbind_Inr touch_Inr split: if_splits option.splits)
    with a False show ?thesis by auto
  next
    case True
    with assms a show ?thesis
      unfolding execute_emergency_action_def Let_def
      by (clarsimp simp: need_auth_Inr expect_Inr ensure_Inr rbind_Inr touch_Inr emergency_passed_def
          emergency_done_def timelock_elapsed_def is_emergency_admin_active_def Let_def
          split: if_splits option.splits)
  qed
qed


lemma record_emergency_failure_frame:
  "x_escrows (record_emergency_failure env a s) = x_escrows s \<and>
   x_mescrows (record_emergency_failure env a s) = x_mescrows s \<and>
   x_count (record_emergency_failure env a s) = x_count s \<and>
   x_mcount (record_emergency_failure env a s) = x_mcount s \<and>
   meta_kept s (record_emergency_failure env a s) \<and>
   x_approved (record_emergency_failure env a s) = x_approved s \<and>
   f_fee_bps (record_emergency_failure env a s) = f_fee_bps s \<and>
   f_admin (record_emergency_failure env a s) = f_admin s"
  by (simp add: record_emergency_failure_def Let_def)

context token_client
begin

lemma execute_emergency_good:
  assumes "store_ok s" "execute_emergency_action T env caller i (s, w) = Inr (b, s', w')"
  shows "good_step T (self_addr env) (s, w) (s', w')"
proof -
  have cfg: "fee_cfg_ok s" using store_ok_cfg [OF assms(1)] by simp
  from execute_emergency_inv [OF assms(2)] obtain a where
    "s' = record_emergency_failure env a s \<and> w' = w \<or>
     (\<exists>reg role pool e cb s1. emergency_passed env caller a reg role pool e s cb \<and>
       do_release_simple T env e (ea_escrow_id a) caller (s, w) = (Inr (s1, w') :: escrow_error fail + _) \<and>
       s' = emergency_done env i a cb s1)" by blast
  then show ?thesis
  proof
    assume "s' = record_emergency_failure env a s \<and> w' = w"
    then show ?thesis
      using assms(1) cfg record_emergency_failure_frame [of env a s]
      by (intro good_step_frame) (simp_all add: fee_cfg_ok_def)
  next
    assume "\<exists>reg role pool e cb s1. emergency_passed env caller a reg role pool e s cb \<and>
       do_release_simple T env e (ea_escrow_id a) caller (s, w) = (Inr (s1, w') :: escrow_error fail + _) \<and>
       s' = emergency_done env i a cb s1"
    then obtain reg role pool e cb s1 where p: "emergency_passed env caller a reg role pool e s cb"
      and r: "do_release_simple T env e (ea_escrow_id a) caller (s, w) = (Inr (s1, w') :: escrow_error fail + _)"
      and s': "s' = emergency_done env i a cb s1" by blast
    have "x_escrows s (ea_escrow_id a) = Some e" "e_status e = ESActive"
      using p by (simp_all add: emergency_passed_def)
    from do_release_simple_good [OF assms(1) this r] show ?thesis
      unfolding s' by (rule good_step_same_end) (simp_all add: emergency_done_frame)
  qed
qed

lemma emergency_release_good:
  assumes "store_ok s" "emergency_release T env caller k h i (s, w) = Inr (b, s', w')"
  shows "good_step T (self_addr env) (s, w) (s', w')"
proof -
  from assms(2) obtain g s1 where
    b: "execute_emergency_action T env caller i (put_guard g s, w) = Inr (b, s1, w')"
    and s': "s' = put_guard (rg_release ''emer'' (Some caller) (x_guard s1)) s1"
    unfolding emergency_release_def with_guard_Inr
    by (auto simp: expect_Inr ensure_Inr simp del: split_paired_Ex)
  have "store_ok (put_guard g s)" using assms(1) by simp
  from execute_emergency_good [OF this b] show ?thesis unfolding s' by (rule good_step_guard)
qed

lemma manual_recovery_good:
  assumes "store_ok s" "manual_recovery_release T env k h (s, w) = Inr (u, s', w')"
  shows "good_step T (self_addr env) (s, w) (s', w')"
proof -
  from assms(2) obtain e adm s1 f where e: "x_escrows s k = Some e" "e_status e = ESActive"
    and r: "do_release_simple T env e k adm (s, w) = (Inr (s1, w') :: escrow_error fail + _)"
    and s': "s' = set_failure_record k f s1"
    unfolding manual_recovery_release_def Let_def
    by (clarsimp simp: by_admin_Inr expect_Inr ensure_Inr touch_Inr rbind_Inr)
  from do_release_simple_good [OF assms(1) e r] show ?thesis
    unfolding s' by (rule good_step_same_end) (simp_all add: set_failure_record_def)
qed

end


section \<open>Calls that leave the books alone\<close>

text \<open>
  Escrow records, counters and approved tokens stay as they are, except that a call made after
  initialisation may change which tokens are approved; the fee configuration stays legal.
\<close>

definition books_kept :: "'a core_state_scheme \<Rightarrow> 'a core_state_scheme \<Rightarrow> bool" where
  "books_kept s s' \<longleftrightarrow>
    x_escrows s' = x_escrows s \<and> x_mescrows s' = x_mescrows s \<and> x_count s' = x_count s \<and>
    x_mcount s' = x_mcount s \<and> meta_kept s s' \<and> (fee_cfg_ok s \<longrightarrow> fee_cfg_ok s') \<and>
    (f_admin s \<noteq> None \<longrightarrow> f_admin s' \<noteq> None) \<and> (f_admin s' = None \<longrightarrow> x_approved s' = x_approved s)"

lemma books_kept_good: "store_ok s \<Longrightarrow> books_kept s s' \<Longrightarrow> good_step T self (s, w) (s', w)"
  by (rule good_step_frame) (simp_all add: books_kept_def store_ok_cfg)

lemma books_kept_emergency_failure: "books_kept s (record_emergency_failure env a s)"
  by (simp add: record_emergency_failure_frame books_kept_def fee_cfg_ok_def)

lemma books_kept_fee_ops:
  "update_fee env b s = (Inr s' :: escrow_error fail + 'a core_state_scheme) \<Longrightarrow> books_kept s s'"
  "set_liquidity_pool env a s = (Inr s' :: escrow_error fail + 'a core_state_scheme) \<Longrightarrow> books_kept s s'"
  "set_dynamic_fee_enabled env en s = (Inr s' :: escrow_error fail + 'a core_state_scheme) \<Longrightarrow> books_kept s s'"
  "update_treasury env a s = (Inr s' :: escrow_error fail + 'a core_state_scheme) \<Longrightarrow> books_kept s s'"
  "set_fee_schedule env a sch s = (Inr s' :: escrow_error fail + 'a core_state_scheme) \<Longrightarrow> books_kept s s'"
  by (auto simp: update_fee_def set_liquidity_pool_def set_dynamic_fee_enabled_def
      update_treasury_def set_fee_schedule_def validate_fee_schedule_def
      res_simps fee_cfg_ok_def books_kept_def)

lemma books_kept_update_schedule:
  "update_fee_schedule env a t0 t1 t2 t3 th d s = (Inr s' :: escrow_error fail + 'a core_state_scheme) \<Longrightarrow> books_kept s s'"
  by (auto simp: update_fee_schedule_def validate_fee_schedule_def Let_def
      by_caller_admin_Inr ensure_Inr expect_Inr fee_cfg_ok_def books_kept_def)

lemma books_kept_dynamic_fee:
  assumes "get_dynamic_fee env s = (Inr (b, s') :: escrow_error fail + nat \<times> 'a core_state_scheme)"
  shows "books_kept s s'"
proof -
  have "s' = s \<or> s' = snd (cached_price env s)"
    using assms by (auto simp: get_dynamic_fee_def Let_def rbind_Inr split: if_splits prod.splits option.splits)
  then show ?thesis
    by (cases "get_or 0 (f_price_time s) = ledger_seq env")
      (auto simp: cached_price_def Let_def books_kept_def fee_cfg_ok_def)
qed

lemma books_kept_wiring:
  "set_approved_token env a ap s = Inr s' \<Longrightarrow> books_kept s s'"
  "set_interface_registry env a b s = Inr s' \<Longrightarrow> books_kept s s'"
  "set_staking_contract P env a b s = Inr s' \<Longrightarrow> books_kept s s'"
  "set_reputation_contract P env a b s = Inr s' \<Longrightarrow> books_kept s s'"
  "set_insurance_contract P env a b s = Inr s' \<Longrightarrow> books_kept s s'"
  by (auto simp: set_approved_token_def set_interface_registry_def set_staking_contract_def
      set_reputation_contract_def set_insurance_contract_def require_authorized_peer_def
      set_token_approved_def res_simps books_kept_def fee_cfg_ok_def split: option.splits)

lemma books_kept_roles:
  "propose_admin_change env a s = Inr s' \<Longrightarrow> books_kept s s'"
  "accept_admin_role env a s = Inr s' \<Longrightarrow> books_kept s s'"
  "revoke_admin_emergency env a s = Inr s' \<Longrightarrow> books_kept s s'"
  "set_multisig_admin env a b s = Inr s' \<Longrightarrow> books_kept s s'"
  "set_governance_contract env a b s = Inr s' \<Longrightarrow> books_kept s s'"
  "grant_emergency_admin env a b s = Inr s' \<Longrightarrow> books_kept s s'"
  "set_emergency_signers env a sg s = Inr s' \<Longrightarrow> books_kept s s'"
  by (auto simp: propose_admin_change_def accept_admin_role_def revoke_admin_emergency_def
      set_multisig_admin_def set_governance_contract_def grant_emergency_admin_def
      set_emergency_signers_def res_simps books_kept_def fee_cfg_ok_def Let_def)

lemma books_kept_report: "report_stuck_escrow env a k s = Inr s' \<Longrightarrow> books_kept s s'"
  by (cases "list_ex (\<lambda>i. i = k) (get_or [] (y_stuck s))")
    (auto simp: report_stuck_escrow_def need_auth_Inr touch_Inr ensure_Inr rbind_Inr
      books_kept_def fee_cfg_ok_def Let_def)

lemma books_kept_emergency:
  "propose_emergency_action env a k h s = Inr (i, s') \<Longrightarrow> books_kept s s'"
  "approve_emergency_action env a i s = Inr s' \<Longrightarrow> books_kept s s'"
  by (auto simp: propose_emergency_action_def approve_emergency_action_def
      need_auth_Inr touch_Inr ensure_Inr expect_Inr rbind_Inr books_kept_def fee_cfg_ok_def Let_def
      case_prod_unfold)

lemma log_dispute_action_frame:
  "books_kept s (log_dispute_action env k s)" "x_isolated (log_dispute_action env k s) = x_isolated s"
  by (simp_all add: log_dispute_action_def books_kept_def fee_cfg_ok_def Let_def)

lemma books_kept_monitor:
  "monitor_escrow_invariants env k s = Inr (r, s') \<Longrightarrow> books_kept s s'"
  "approve_dispute_resolution env a k s = Inr (ap, s') \<Longrightarrow> books_kept s s'"
  "record_evidence_count env a k n s = Inr s' \<Longrightarrow> books_kept s s'"
  "emergency_isolate_escrow env a k rs s = Inr (lk, s') \<Longrightarrow> books_kept s s'"
  "recover_isolated_escrow env a k s = Inr s' \<Longrightarrow> books_kept s s'"
  by (auto simp: monitor_escrow_invariants_def approve_dispute_resolution_def
      record_evidence_count_def emergency_isolate_escrow_def recover_isolated_escrow_def
      require_admin_for_escrow_def need_auth_Inr touch_Inr ensure_Inr expect_Inr
      books_kept_def fee_cfg_ok_def Let_def)

lemma submit_review_books:
  "submit_review env a k r (s, w) = Inr (u, s', w') \<Longrightarrow> books_kept s s' \<and> w' = w"
  by (auto simp: submit_review_def need_auth_Inr touch_Inr ensure_Inr books_kept_def fee_cfg_ok_def)

context token_client
begin

lemma dispute_payment_good:
  assumes "store_ok s" "dispute_payment env caller k r (s, w) = Inr (u, s', w')"
  shows "good_step T (self_addr env) (s, w) (s', w')"
proof -
  from assms(2) obtain s1 where d: "dispute env caller k r (s, w) = Inr ((), s1, w')"
    and s': "s' = log_dispute_action env k s1"
    by (auto simp: dispute_payment_def rbind_Inr)
  from dispute_good [OF assms(1) d] show ?thesis
    unfolding s' by (rule good_step_same_end) (simp_all add: log_dispute_action_def Let_def)
qed

lemma resolve_secure_good:
  assumes "store_ok s" "resolve_dispute_secure T env a k pct (s, w) = Inr (u, s', w')"
  shows "good_step T (self_addr env) (s, w) (s', w')"
proof -
  let ?s1 = "log_dispute_action env k s"
  from assms(2) obtain s2 where r: "resolve_dispute T env k pct (?s1, w) = Inr ((), s2, w')"
    and s': "\<exists>m. s' = s2\<lparr>y_payment_audit := m\<rparr>"
    unfolding resolve_dispute_secure_def Let_def
    by (auto simp: require_admin_for_escrow_def expect_Inr need_auth_Inr ensure_Inr rbind_Inr)
  have "good_step T (self_addr env) (s, w) (?s1, w)"
    using books_kept_good [OF assms(1) log_dispute_action_frame(1)] .
  then have "store_ok ?s1" by (simp add: good_step_def)
  from resolve_dispute_good [OF this r] have "good_step T (self_addr env) (s, w) (s2, w')"
    by (rule good_step_same_start) (simp_all add: log_dispute_action_def Let_def)
  then show ?thesis using s' by (auto elim!: good_step_same_end)
qed

end

end
