(* ===== verification/EscrowSystem.thy ===== *)
theory EscrowSystem
  imports EscrowGovern
begin

text \<open>
  The escrow contract as a transition system: one datatype of calls for its entry points, the
  step a call makes, the states reachable from an empty contract, and the invariant they
  satisfy.
\<close>

section \<open>Calls\<close>

datatype life_call =
    CCreate addr addr int symbol addr nat nat
  | CCreateUsd addr addr int addr nat
  | CCreatePath addr addr addr int addr int nat
  | CCreateMilestones addr addr "milestone_spec list" addr
  | CRelease addr nat
  | CReleasePartial addr nat
  | CBatchRelease addr nat nat
  | CAdminRelease nat
  | CAutoRelease nat
  | CDispute addr nat symbol
  | CResolve nat nat
  | CRefund nat
  | CReview addr nat symbol
  | CCompleteMilestone nat nat
  | CDisputeMilestone nat nat symbol

datatype admin_call =
    CInitialize addr addr nat "addr list" nat
  | CUpdateFee nat
  | CUpdateTreasury addr
  | CSetPool addr
  | CSetDynamic bool
  | CSetSchedule addr fee_schedule
  | CUpdateSchedule addr "nat option" "nat option" "nat option" "nat option" "int option" "nat option"
  | CGetDynamicFee
  | CApproveToken addr bool
  | CSetRegistry addr addr
  | CSetStaking addr addr
  | CSetReputation addr addr
  | CSetInsurance addr addr
  | CProposeAdmin addr
  | CAcceptAdmin addr
  | CRevokeAdmin addr
  | CSetMultisig addr addr
  | CSetGovernance addr addr
  | CGrantEmergency addr addr
  | CSetSigners addr "addr list"

datatype glass_call =
    CReportStuck addr nat
  | CProposeEmergency addr nat hash32
  | CApproveEmergency addr nat
  | CExecuteEmergency addr nat
  | CEmergencyRelease addr nat hash32 nat
  | CManualRecovery nat hash32
  | CMonitor nat
  | CDisputePayment addr nat symbol
  | CApproveResolution addr nat
  | CRecordEvidence addr nat nat
  | CResolveSecure addr nat nat
  | CIsolate addr nat symbol
  | CRecoverIsolated addr nat

datatype esc_call = Life life_call | Admin admin_call | Glass glass_call

text \<open>The state after a call, without the value it returns.\<close>

definition drop_value :: "'e fail + 'r \<times> 's \<times> 't \<Rightarrow> 'e fail + 's \<times> 't" where
  "drop_value r = rbind r (\<lambda>(_, s, w). Inr (s, w))"

definition keep_tokens :: "'t \<Rightarrow> 'e fail + 's \<Rightarrow> 'e fail + 's \<times> 't" where
  "keep_tokens w r = rbind r (\<lambda>s. Inr (s, w))"

definition drop_first :: "'e fail + 'r \<times> 's \<Rightarrow> 'e fail + 's" where
  "drop_first r = rbind r (\<lambda>(_, s). Inr s)"

lemma drop_value_Inr [res_simps]: "drop_value r = Inr (s, w) \<longleftrightarrow> (\<exists>v. r = Inr (v, s, w))"
  by (auto simp: drop_value_def rbind_Inr)

lemma keep_tokens_Inr [res_simps]: "keep_tokens w r = Inr (s, w') \<longleftrightarrow> r = Inr s \<and> w' = w"
  by (auto simp: keep_tokens_def rbind_Inr)

lemma drop_first_Inr [res_simps]: "drop_first r = Inr s \<longleftrightarrow> (\<exists>v. r = Inr (v, s))"
  by (auto simp: drop_first_def rbind_Inr)

fun life_exec ::
    "'t token_ops \<Rightarrow> peers \<Rightarrow> env \<Rightarrow> life_call \<Rightarrow> escrow_state \<times> 't \<Rightarrow> escrow_error fail + escrow_state \<times> 't" where
  "life_exec T P env (CCreate m l a sid tk se n) sw = drop_value (create_escrow T env m l a sid tk se n sw)"
| "life_exec T P env (CCreateUsd m l u tk n) sw = drop_value (create_escrow_usd T P env m l u tk n sw)"
| "life_exec T P env (CCreatePath l m sa smax da amt n) sw =
     drop_value (create_escrow_with_path_payment T env l m sa smax da amt n sw)"
| "life_exec T P env (CCreateMilestones m l ms tk) sw = drop_value (create_milestone_escrow T env m l ms tk sw)"
| "life_exec T P env (CRelease c k) sw = drop_value (release_funds T P env c k sw)"
| "life_exec T P env (CReleasePartial c k) sw = drop_value (release_partial T P env c k sw)"
| "life_exec T P env (CBatchRelease a k n) sw = drop_value (batch_release T P env a k n sw)"
| "life_exec T P env (CAdminRelease k) sw = drop_value (admin_release T P env k sw)"
| "life_exec T P env (CAutoRelease k) sw = drop_value (try_auto_release T P env k sw)"
| "life_exec T P env (CDispute c k r) sw = drop_value (dispute env c k r sw)"
| "life_exec T P env (CResolve k pct) sw = drop_value (resolve_dispute T env k pct sw)"
| "life_exec T P env (CRefund k) sw = drop_value (refund T env k sw)"
| "life_exec T P env (CReview c k r) sw = drop_value (submit_review env c k r sw)"
| "life_exec T P env (CCompleteMilestone k i) sw = drop_value (complete_milestone T P env k i sw)"
| "life_exec T P env (CDisputeMilestone k i r) sw = drop_value (dispute_milestone env k i r sw)"

fun admin_exec ::
    "peers \<Rightarrow> env \<Rightarrow> admin_call \<Rightarrow> escrow_state \<Rightarrow> escrow_error fail + escrow_state" where
  "admin_exec P env (CInitialize a tr b tks d) s = esc_initialize a tr b tks d s"
| "admin_exec P env (CUpdateFee b) s = update_fee env b s"
| "admin_exec P env (CUpdateTreasury a) s = update_treasury env a s"
| "admin_exec P env (CSetPool a) s = set_liquidity_pool env a s"
| "admin_exec P env (CSetDynamic b) s = set_dynamic_fee_enabled env b s"
| "admin_exec P env (CSetSchedule a sch) s = set_fee_schedule env a sch s"
| "admin_exec P env (CUpdateSchedule a t0 t1 t2 t3 th d) s = update_fee_schedule env a t0 t1 t2 t3 th d s"
| "admin_exec P env CGetDynamicFee s = drop_first (get_dynamic_fee env s)"
| "admin_exec P env (CApproveToken a ap) s = set_approved_token env a ap s"
| "admin_exec P env (CSetRegistry a r) s = set_interface_registry env a r s"
| "admin_exec P env (CSetStaking a b) s = set_staking_contract P env a b s"
| "admin_exec P env (CSetReputation a b) s = set_reputation_contract P env a b s"
| "admin_exec P env (CSetInsurance a b) s = set_insurance_contract P env a b s"
| "admin_exec P env (CProposeAdmin a) s = propose_admin_change env a s"
| "admin_exec P env (CAcceptAdmin a) s = accept_admin_role env a s"
| "admin_exec P env (CRevokeAdmin a) s = revoke_admin_emergency env a s"
| "admin_exec P env (CSetMultisig a b) s = set_multisig_admin env a b s"
| "admin_exec P env (CSetGovernance a b) s = set_governance_contract env a b s"
| "admin_exec P env (CGrantEmergency a b) s = grant_emergency_admin env a b s"
| "admin_exec P env (CSetSigners a sg) s = set_emergency_signers env a sg s"

fun glass_exec ::
    "'t token_ops \<Rightarrow> env \<Rightarrow> glass_call \<Rightarrow> escrow_state \<times> 't \<Rightarrow> escrow_error fail + escrow_state \<times> 't" where
  "glass_exec T env (CReportStuck a k) (s, w) = keep_tokens w (report_stuck_escrow env a k s)"
| "glass_exec T env (CProposeEmergency a k h) (s, w) = keep_tokens w (drop_first (propose_emergency_action env a k h s))"
| "glass_exec T env (CApproveEmergency a i) (s, w) = keep_tokens w (approve_emergency_action env a i s)"
| "glass_exec T env (CExecuteEmergency c i) (s, w) = drop_value (execute_emergency_action T env c i (s, w))"
| "glass_exec T env (CEmergencyRelease c k h i) (s, w) = drop_value (emergency_release T env c k h i (s, w))"
| "glass_exec T env (CManualRecovery k h) (s, w) = drop_value (manual_recovery_release T env k h (s, w))"
| "glass_exec T env (CMonitor k) (s, w) = keep_tokens w (drop_first (monitor_escrow_invariants env k s))"
| "glass_exec T env (CDisputePayment c k r) (s, w) = drop_value (dispute_payment env c k r (s, w))"
| "glass_exec T env (CApproveResolution a k) (s, w) = keep_tokens w (drop_first (approve_dispute_resolution env a k s))"
| "glass_exec T env (CRecordEvidence a k n) (s, w) = keep_tokens w (record_evidence_count env a k n s)"
| "glass_exec T env (CResolveSecure a k pct) (s, w) = drop_value (resolve_dispute_secure T env a k pct (s, w))"
| "glass_exec T env (CIsolate a k r) (s, w) = keep_tokens w (drop_first (emergency_isolate_escrow env a k r s))"
| "glass_exec T env (CRecoverIsolated a k) (s, w) = keep_tokens w (recover_isolated_escrow env a k s)"

fun esc_exec ::
    "'t token_ops \<Rightarrow> peers \<Rightarrow> env \<Rightarrow> esc_call \<Rightarrow> escrow_state \<times> 't \<Rightarrow> escrow_error fail + escrow_state \<times> 't" where
  "esc_exec T P env (Life c) sw = life_exec T P env c sw"
| "esc_exec T P env (Admin c) (s, w) = keep_tokens w (admin_exec P env c s)"
| "esc_exec T P env (Glass c) sw = glass_exec T env c sw"


section \<open>Before initialisation\<close>

text \<open>
  Until \<open>initialize\<close> no token is approved, so no escrow can exist; this is what makes it sound
  for \<open>initialize\<close> to reset the counters.
\<close>

definition blank :: "escrow_state \<Rightarrow> bool" where
  "blank s \<longleftrightarrow> (f_admin s = None \<longrightarrow>
     x_approved s = Map.empty \<and> x_escrows s = Map.empty \<and> x_mescrows s = Map.empty)"

definition sys_ok :: "escrow_state \<Rightarrow> bool" where
  "sys_ok s \<longleftrightarrow> store_ok s \<and> blank s"

lemma blank_initialized: "f_admin s \<noteq> None \<Longrightarrow> blank s"
  by (auto simp: blank_def)

lemma blank_escrow: "blank s \<Longrightarrow> x_escrows s k = Some e \<Longrightarrow> f_admin s \<noteq> None"
  by (auto simp: blank_def)

lemma blank_milestones: "blank s \<Longrightarrow> x_mescrows s k = Some e \<Longrightarrow> f_admin s \<noteq> None"
  by (auto simp: blank_def)

lemma blank_approved: "blank s \<Longrightarrow> is_token_approved tk s \<Longrightarrow> f_admin s \<noteq> None"
  by (auto simp: blank_def is_token_approved_def)

lemma blank_books: "blank s \<Longrightarrow> books_kept s s' \<Longrightarrow> blank s'"
  by (auto simp: blank_def books_kept_def)

text \<open>A good step from an initialised state, or one that keeps the books.\<close>

lemma sys_step:
  assumes "sys_ok s" "good_step T self (s, w) (s', w')" "f_admin s \<noteq> None"
  shows "sys_ok s' \<and> good_step T self (s, w) (s', w')"
  using assms by (auto simp: sys_ok_def good_step_def blank_def)

lemma sys_books:
  assumes "sys_ok s" "books_kept s s'"
  shows "sys_ok s' \<and> good_step T self (s, w) (s', w)"
  using assms blank_books [of s s'] books_kept_good [of s s' T self w]
  by (auto simp: sys_ok_def good_step_def)

text \<open>A creation needs an approved token, every other call of the life cycle an escrow.\<close>

lemma create_internal_needs:
  "create_escrow_internal T env m l amt sid tk se usd q sa da n (s, w) = Inr r \<Longrightarrow> is_token_approved tk s"
  by (cases r) (blast dest: create_internal_inv)

lemma creation_needs:
  "create_escrow T env m l a sid tk se n (s, w) = Inr r \<Longrightarrow> is_token_approved tk s"
  "create_escrow_usd T P env m l u tk n (s, w) = Inr r \<Longrightarrow> is_token_approved tk s"
  "create_escrow_with_path_payment T env l m sa smax da amt n (s, w) = Inr r \<Longrightarrow> is_token_approved da s"
  "create_milestone_escrow T env m l ms tk (s, w) = Inr r \<Longrightarrow> is_token_approved tk s"
proof -
  show "is_token_approved tk s" if "create_escrow T env m l a sid tk se n (s, w) = Inr r"
    using that by (cases r)
      (auto simp: create_escrow_def with_guard_Inr is_token_approved_def dest: create_internal_needs)
  show "is_token_approved tk s" if "create_escrow_usd T P env m l u tk n (s, w) = Inr r"
    using that by (auto simp: create_escrow_usd_def Let_def rbind_Inr expect_Inr ensure_Inr
        dest!: create_internal_needs)
  show "is_token_approved da s" if "create_escrow_with_path_payment T env l m sa smax da amt n (s, w) = Inr r"
    using that by (auto simp: create_escrow_with_path_payment_def Let_def ensure_Inr)
  show "is_token_approved tk s" if "create_milestone_escrow T env m l ms tk (s, w) = Inr r"
    using that by (auto simp: create_milestone_escrow_def Let_def ensure_Inr)
qed

lemma escrow_needs:
  "release_funds T P env c k (s, w) = Inr r \<Longrightarrow> \<exists>e. x_escrows s k = Some e"
  "release_partial T P env c k (s, w) = Inr r \<Longrightarrow> \<exists>e. x_escrows s k = Some e"
  "dispute env c k rs (s, w) = Inr r \<Longrightarrow> \<exists>e. x_escrows s k = Some e"
  "batch_release T P env a k n (s, w) = Inr r \<Longrightarrow> \<exists>e. x_escrows s k = Some e"
  "try_auto_release T P env k (s, w) = Inr r \<Longrightarrow> \<exists>e. x_escrows s k = Some e"
  by (cases r; auto simp: release_funds_def release_funds_body_def release_partial_def
      release_partial_body_def dispute_def dispute_body_def batch_release_def try_auto_release_def
      with_guard_Inr touch_Inr Let_def)+

lemma admin_needs:
  "admin_release T P env k (s, w) = Inr r \<Longrightarrow> f_admin s \<noteq> None"
  "resolve_dispute T env k pct (s, w) = Inr r \<Longrightarrow> f_admin s \<noteq> None"
  "refund T env k (s, w) = Inr r \<Longrightarrow> f_admin s \<noteq> None"
  "manual_recovery_release T env k h (s, w) = Inr r \<Longrightarrow> f_admin s \<noteq> None"
  "resolve_dispute_secure T env a k pct (s, w) = Inr r \<Longrightarrow> f_admin s \<noteq> None"
  by (cases r; auto simp: admin_release_def resolve_dispute_def resolve_dispute_body_def refund_def
      manual_recovery_release_def resolve_dispute_secure_def require_admin_for_escrow_def
      with_guard_Inr by_admin_Inr expect_Inr ensure_Inr rbind_Inr Let_def)+

lemma milestone_needs:
  "complete_milestone T P env k i (s, w) = Inr r \<Longrightarrow> \<exists>m. x_mescrows s k = Some m"
  "dispute_milestone env k i rs (s, w) = Inr r \<Longrightarrow> \<exists>m. x_mescrows s k = Some m"
  by (auto simp: complete_milestone_def dispute_milestone_def touch_Inr Let_def)

lemma life_initialized:
  assumes "blank s" "life_exec T P env c (s, w) = Inr (s', w')" "\<forall>a k r. c \<noteq> CReview a k r"
  shows "f_admin s \<noteq> None"
  using assms
  by (cases c)
    (auto simp: drop_value_Inr dest: creation_needs escrow_needs admin_needs milestone_needs
      blank_escrow blank_milestones blank_approved)

section \<open>Every call is a good step\<close>

context token_client
begin

lemma life_good:
  assumes "store_ok s" "external env" "life_exec T P env c (s, w) = Inr (s', w')" "\<forall>a k r. c \<noteq> CReview a k r"
  shows "good_step T (self_addr env) (s, w) (s', w')"
  using assms
  by (cases c)
    (auto simp: drop_value_Inr intro: create_escrow_good create_usd_good create_path_good
      create_milestone_good release_funds_good release_partial_good batch_release_good
      admin_release_good try_auto_release_good dispute_good resolve_dispute_good refund_good
      complete_milestone_good dispute_milestone_good)

lemma life_sys:
  assumes "sys_ok s" "external env" "life_exec T P env c (s, w) = Inr (s', w')"
  shows "sys_ok s' \<and> good_step T (self_addr env) (s, w) (s', w')"
proof (cases "\<forall>a k r. c \<noteq> CReview a k r")
  case True
  have "store_ok s" "blank s" using assms(1) by (simp_all add: sys_ok_def)
  from life_good [OF this(1) assms(2,3) True] life_initialized [OF this(2) assms(3) True]
  show ?thesis by (rule sys_step [OF assms(1)])
next
  case False
  then obtain a k r where "c = CReview a k r" by blast
  then have "books_kept s s' \<and> w' = w"
    using assms(3) submit_review_books [of env a k r s w] by (auto simp: drop_value_Inr)
  then show ?thesis using sys_books [OF assms(1), of s'] by simp
qed

end

text \<open>Initialisation, from a blank contract.\<close>

lemma approve_tokens_frame:
  "\<exists>ap. fold (\<lambda>t. set_token_approved t True) tks s = s\<lparr>x_approved := ap\<rparr>"
proof (induction tks arbitrary: s)
  case Nil
  show ?case by (rule exI [of _ "x_approved s"]) simp
next
  case (Cons t tks)
  from Cons.IH [of "set_token_approved t True s"] show ?case
    by (auto simp: set_token_approved_def)
qed

lemma initialize_good:
  assumes "sys_ok s" "esc_initialize a tr b tks d s = Inr s'"
  shows "sys_ok s' \<and> good_step T self (s, w) (s', w)"
proof -
  let ?s1 = "s\<lparr>f_admin := Some a, f_treasury := Some tr, f_fee_bps := Some b, x_count := Some 0,
      x_mcount := Some 0, x_delay := Some (if d = 0 then DEFAULT_AUTO_RELEASE_DELAY else d)\<rparr>"
  have init: "f_admin s = None" "b \<le> ESC_MAX_FEE_BPS"
    and fold: "s' = fold (\<lambda>t. set_token_approved t True) tks ?s1"
    using assms(2) by (simp_all add: esc_initialize_def ensure_Inr Let_def)
  from approve_tokens_frame [of tks ?s1] fold obtain ap where s': "s' = ?s1\<lparr>x_approved := ap\<rparr>" by auto
  have "x_escrows s = Map.empty" "x_mescrows s = Map.empty" "store_ok s"
    using assms(1) init by (simp_all add: sys_ok_def blank_def)
  with init show ?thesis unfolding s'
    by (simp add: sys_ok_def blank_def good_step_def store_ok_def fee_cfg_ok_def surplus_def liabilities_def)
qed

lemma admin_sys:
  assumes "sys_ok s" "admin_exec P env c s = Inr s'"
  shows "sys_ok s' \<and> good_step T self (s, w) (s', w)"
proof (cases "\<exists>a tr b tks d. c = CInitialize a tr b tks d")
  case True
  then show ?thesis using assms by (auto dest: initialize_good)
next
  case False
  then have "books_kept s s'"
    using assms(2)
    by (cases c) (auto simp: drop_first_Inr intro: books_kept_fee_ops books_kept_update_schedule
        books_kept_dynamic_fee books_kept_wiring books_kept_roles)
  then show ?thesis by (rule sys_books [OF assms(1)])
qed

lemma execute_needs:
  "execute_emergency_action T env c i (s, w) = Inr (b, s', w') \<Longrightarrow>
   books_kept s s' \<and> w' = w \<or> (\<exists>k e. x_escrows s k = Some e)"
  by (drule execute_emergency_inv)
    (auto simp: emergency_passed_def simp del: not_None_eq intro: books_kept_emergency_failure)

context token_client
begin

lemma execute_sys:
  assumes "sys_ok s" "execute_emergency_action T env c i (s, w) = Inr (b, s', w')"
  shows "sys_ok s' \<and> good_step T (self_addr env) (s, w) (s', w')"
  using execute_needs [OF assms(2)]
proof
  assume "books_kept s s' \<and> w' = w"
  then show ?thesis using sys_books [OF assms(1), of s'] by simp
next
  assume "\<exists>k e. x_escrows s k = Some e"
  then have "f_admin s \<noteq> None" using assms(1) blank_escrow by (auto simp: sys_ok_def)
  moreover have "good_step T (self_addr env) (s, w) (s', w')"
    using execute_emergency_good [OF _ assms(2)] assms(1) by (simp add: sys_ok_def)
  ultimately show ?thesis by (rule sys_step [OF assms(1), rotated])
qed

lemma sys_put_guard [simp]: "sys_ok (put_guard g s) = sys_ok s"
  by (simp add: sys_ok_def blank_def)

lemma emergency_release_sys:
  assumes "sys_ok s" "emergency_release T env c k h i (s, w) = Inr (b, s', w')"
  shows "sys_ok s' \<and> good_step T (self_addr env) (s, w) (s', w')"
proof -
  from assms(2) obtain g s1 where
    x: "execute_emergency_action T env c i (put_guard g s, w) = Inr (b, s1, w')"
    and s': "s' = put_guard (rg_release ''emer'' (Some c) (x_guard s1)) s1"
    unfolding emergency_release_def with_guard_Inr
    by (auto simp: expect_Inr ensure_Inr simp del: split_paired_Ex)
  have "sys_ok (put_guard g s)" using assms(1) by simp
  from execute_sys [OF this x] show ?thesis unfolding s' by (auto intro: good_step_guard)
qed

lemma dispute_payment_needs:
  "dispute_payment env c k r (s, w) = Inr x \<Longrightarrow> \<exists>e. x_escrows s k = Some e"
  by (auto simp: dispute_payment_def rbind_Inr dest: escrow_needs)

lemma glass_sys:
  assumes "sys_ok s" "glass_exec T env c (s, w) = Inr (s', w')"
  shows "sys_ok s' \<and> good_step T (self_addr env) (s, w) (s', w')"
proof -
  have so: "store_ok s" and bl: "blank s" using assms(1) by (simp_all add: sys_ok_def)
  note books = sys_books [OF assms(1)]
  show ?thesis
  proof (cases c)
    case (CExecuteEmergency a i)
    with assms show ?thesis using execute_sys by (auto simp: drop_value_Inr)
  next
    case (CEmergencyRelease a k h i)
    with assms show ?thesis using emergency_release_sys by (auto simp: drop_value_Inr)
  next
    case (CManualRecovery k h)
    with assms(2) obtain v where "manual_recovery_release T env k h (s, w) = Inr (v, s', w')"
      by (auto simp: drop_value_Inr)
    with sys_step [OF assms(1) manual_recovery_good [OF so this]] admin_needs(4) [OF this]
    show ?thesis by blast
  next
    case (CDisputePayment a k r)
    with assms(2) obtain v where d: "dispute_payment env a k r (s, w) = Inr (v, s', w')"
      by (auto simp: drop_value_Inr)
    with dispute_payment_needs [OF d] blank_escrow [OF bl] sys_step [OF assms(1) dispute_payment_good [OF so d]]
    show ?thesis by blast
  next
    case (CResolveSecure a k pct)
    with assms(2) obtain v where "resolve_dispute_secure T env a k pct (s, w) = Inr (v, s', w')"
      by (auto simp: drop_value_Inr)
    with sys_step [OF assms(1) resolve_secure_good [OF so this]] admin_needs(5) [OF this]
    show ?thesis by blast
  qed (use assms(2) in \<open>auto simp: keep_tokens_Inr drop_first_Inr intro!: books
      dest: books_kept_report books_kept_emergency books_kept_monitor\<close>)
qed

text \<open>The step of the system.\<close>

lemma exec_sys:
  assumes "sys_ok s" "external env" "esc_exec T P env c (s, w) = Inr (s', w')"
  shows "sys_ok s' \<and> good_step T (self_addr env) (s, w) (s', w')"
  using assms
  by (cases c) (auto simp: keep_tokens_Inr dest: life_sys admin_sys glass_sys)

end

end
