(* ===== verification/EscrowReach.thy ===== *)
theory EscrowReach
  imports EscrowSystem
begin

text \<open>
  Reachable states of the escrow contract and what holds in all of them: the contract can pay
  what it owes, every record accounts for its funding, finished records never change.
\<close>

section \<open>Steps and reachable states\<close>

text \<open>
  A step is a successful call from outside (a failing one is rolled back and changes nothing), or
  anything that happens elsewhere and does not take tokens from the contract: only the
  contract itself can authorise a payment from its own account.
\<close>

inductive esc_step ::
    "'t token_ops \<Rightarrow> addr \<Rightarrow> escrow_state \<times> 't \<Rightarrow> escrow_state \<times> 't \<Rightarrow> bool"
  for T self where
  call: "external env \<Longrightarrow> self_addr env = self \<Longrightarrow> esc_exec T P env c (s, w) = Inr (s', w') \<Longrightarrow>
    esc_step T self (s, w) (s', w')"
| elsewhere: "\<forall>tk. tk_balance T tk self w \<le> tk_balance T tk self w' \<Longrightarrow>
    esc_step T self (s, w) (s, w')"

inductive esc_reach :: "'t token_ops \<Rightarrow> addr \<Rightarrow> escrow_state \<times> 't \<Rightarrow> bool"
  for T self where
  start: "\<forall>tk. 0 \<le> tk_balance T tk self w \<Longrightarrow> esc_reach T self (escrow_empty, w)"
| step: "esc_reach T self x \<Longrightarrow> esc_step T self x y \<Longrightarrow> esc_reach T self y"

inductive_cases esc_stepE: "esc_step T self x y"
inductive_simps esc_step_iff: "esc_step T self (s, w) (s', w')"

text \<open>The same as a run over a list of calls, in which a failing call changes nothing.\<close>

fun esc_run ::
    "'t token_ops \<Rightarrow> (peers \<times> env \<times> esc_call) list \<Rightarrow> escrow_state \<times> 't \<Rightarrow> escrow_state \<times> 't" where
  "esc_run T [] sw = sw"
| "esc_run T ((P, env, c) # cs) sw =
    (case esc_exec T P env c sw of Inl _ \<Rightarrow> esc_run T cs sw | Inr sw' \<Rightarrow> esc_run T cs sw')"

lemma esc_run_steps:
  assumes "\<forall>(P, env, c) \<in> set cs. external env \<and> self_addr env = self"
  shows "(esc_step T self)\<^sup>*\<^sup>* sw (esc_run T cs sw)"
  using assms
proof (induction cs arbitrary: sw)
  case (Cons x cs)
  obtain P env c where x: "x = (P, env, c)" by (cases x)
  obtain s w where sw: "sw = (s, w)" by (cases sw)
  show ?case
  proof (cases "esc_exec T P env c sw")
    case (Inl a)
    then show ?thesis using Cons x by simp
  next
    case (Inr b)
    obtain s' w' where b: "b = (s', w')" by (cases b)
    have "esc_step T self sw b"
      unfolding sw b by (rule esc_step.call [where P = P and c = c]) (use Cons.prems x Inr sw b in auto)
    moreover have "(esc_step T self)\<^sup>*\<^sup>* b (esc_run T cs b)"
      using Cons.prems by (intro Cons.IH) auto
    ultimately show ?thesis using x Inr by (simp add: converse_rtranclp_into_rtranclp)
  qed
qed simp

lemma esc_reach_steps: "esc_reach T self x \<Longrightarrow> (esc_step T self)\<^sup>*\<^sup>* x y \<Longrightarrow> esc_reach T self y"
  by (rotate_tac, induction rule: rtranclp_induct) (auto intro: esc_reach.step)

lemma esc_reach_run:
  "\<forall>tk. 0 \<le> tk_balance T tk self w \<Longrightarrow> \<forall>(P, env, c) \<in> set cs. external env \<and> self_addr env = self \<Longrightarrow>
   esc_reach T self (esc_run T cs (escrow_empty, w))"
  by (rule esc_reach_steps [OF esc_reach.start esc_run_steps])

lemma sys_ok_empty: "sys_ok escrow_empty"
  by (simp add: sys_ok_def blank_def store_ok_def escrow_empty_def fee_cfg_ok_def)

lemma empty_owes_nothing: "liabilities tk escrow_empty = 0"
  by (simp add: liabilities_def escrow_empty_def)

lemma good_step_recD:
  "good_step T self x y \<Longrightarrow> x_escrows (fst x) k = Some e \<Longrightarrow>
   \<exists>e'. x_escrows (fst y) k = Some e' \<and> rec_step e e'"
  by (cases x, cases y) (simp add: good_step_def)

lemma good_step_mrecD:
  "good_step T self x y \<Longrightarrow> x_mescrows (fst x) k = Some m \<Longrightarrow>
   \<exists>m'. x_mescrows (fst y) k = Some m' \<and> mrec_step m m'"
  by (cases x, cases y) (simp add: good_step_def)

context token_client
begin

lemma step_sys:
  assumes "esc_step T self x y" "sys_ok (fst x)"
  shows "sys_ok (fst y) \<and> good_step T self x y"
  using assms(1)
proof cases
  case (call env P c s w s' w')
  then show ?thesis using exec_sys [of s env P c w s' w'] assms(2) by auto
next
  case (elsewhere w w' s)
  then show ?thesis using assms(2) books_kept_good [of s s T self w]
    by (auto simp: good_step_def sys_ok_def surplus_def)
qed

lemma reach_inv:
  assumes "esc_reach T self x"
  shows "sys_ok (fst x) \<and> x_oracle (fst x) = None \<and> (\<forall>tk. 0 \<le> surplus T self tk (fst x) (snd x))"
  using assms
proof induction
  case (start w)
  then show ?case by (simp add: sys_ok_empty surplus_def empty_owes_nothing) (simp add: escrow_empty_def)
next
  case (step x y)
  obtain s w s' w' where xy: "x = (s, w)" "y = (s', w')" by (cases x, cases y)
  from step_sys [OF step.hyps(2)] step.IH have st: "sys_ok s'" "good_step T self (s, w) (s', w')"
    by (auto simp: xy)
  have "x_oracle s' = x_oracle s" "\<And>tk. surplus T self tk s w \<le> surplus T self tk s' w'"
    using st(2) by (auto simp: good_step_def)
  with st(1) step.IH show ?case by (simp add: xy) (meson order_trans)
qed

lemma owed_nonneg:
  assumes "sys_ok s"
  shows "x_escrows s k = Some e \<Longrightarrow> 0 \<le> owed_in tk e" "x_mescrows s k = Some m \<Longrightarrow> 0 \<le> m_owed_in tk m"
  using assms store_ok_rec [of s k e] store_ok_mrec [of s k m]
    open_amount_nonneg [of "me_milestones m" "me_statuses m"]
  by (auto simp: sys_ok_def owed_in_def owed_def m_owed_in_def m_owed_def rec_ok_def mrec_ok_def)

lemma solvent_pays:
  assumes ok: "sys_ok s" and sp: "\<forall>tk. 0 \<le> surplus T self tk s w"
  shows "liabilities tk s \<le> tk_balance T tk self w"
    "x_escrows s k = Some e \<Longrightarrow> live (e_status e) \<Longrightarrow> e_amount e \<le> tk_balance T (e_token e) self w"
proof -
  show "liabilities tk s \<le> tk_balance T tk self w" for tk using sp by (simp add: surplus_def)
  note pays = this [of "e_token e"]
  assume e: "x_escrows s k = Some e" "live (e_status e)"
  have fin: "finite (dom (x_escrows s))" using ok by (simp add: sys_ok_def store_ok_def)
  have "e_amount e = owed_in (e_token e) e" using e by (simp add: owed_in_def owed_def)
  also have "\<dots> \<le> wsum (owed_in (e_token e)) (x_escrows s)"
    by (rule wsum_member_le [OF fin _ e(1)]) (rule owed_nonneg [OF ok])
  also have "\<dots> \<le> liabilities (e_token e) s"
    using wsum_nonneg [of "x_mescrows s" "m_owed_in (e_token e)"] owed_nonneg(2) [OF ok]
    by (simp add: liabilities_def)
  finally show "e_amount e \<le> tk_balance T (e_token e) self w" using pays by simp
qed

lemma reach_pays:
  assumes "esc_reach T self (s, w)"
  shows "liabilities tk s \<le> tk_balance T tk self w"
    "x_escrows s k = Some e \<Longrightarrow> live (e_status e) \<Longrightarrow> e_amount e \<le> tk_balance T (e_token e) self w"
  using solvent_pays [of s self w] reach_inv [OF assms] by auto

text \<open>What any number of steps may do to a record.\<close>

lemma rec_future:
  assumes "(esc_step T self)\<^sup>*\<^sup>* x y" "esc_reach T self x" "x_escrows (fst x) k = Some e"
  shows "\<exists>e'. x_escrows (fst y) k = Some e' \<and> (terminal_status (e_status e) \<longrightarrow> e' = e) \<and>
    (e_id e', e_mentor e', e_learner e', e_token e', e_quoted e', e_total_sessions e') =
    (e_id e, e_mentor e, e_learner e, e_token e, e_quoted e, e_total_sessions e) \<and>
    escrow_valid_transition\<^sup>*\<^sup>* (e_status e) (e_status e') \<and>
    e_completed e \<le> e_completed e' \<and> e_amount e' \<le> e_amount e"
  using assms(1)
proof induction
  case base
  then show ?case using assms(3) by simp
next
  case (step y z)
  from step.IH obtain e' where e': "x_escrows (fst y) k = Some e'" "terminal_status (e_status e) \<longrightarrow> e' = e"
    "(e_id e', e_mentor e', e_learner e', e_token e', e_quoted e', e_total_sessions e') =
     (e_id e, e_mentor e, e_learner e, e_token e, e_quoted e, e_total_sessions e)"
    "escrow_valid_transition\<^sup>*\<^sup>* (e_status e) (e_status e')"
    "e_completed e \<le> e_completed e'" "e_amount e' \<le> e_amount e" by blast
  have "sys_ok (fst y)" using reach_inv esc_reach_steps [OF assms(2) step.hyps(1)] by blast
  from step_sys [OF step.hyps(2) this] have "good_step T self y z" by simp
  with e'(1) obtain e'' where e'': "x_escrows (fst z) k = Some e''" "rec_step e' e''"
    using good_step_recD by blast
  have "escrow_valid_transition\<^sup>*\<^sup>* (e_status e) (e_status e'')"
    using e'(4) e''(2) by (auto simp: rec_step_def intro: rtranclp.rtrancl_into_rtrancl)
  then show ?case using e' e'' by (auto simp: rec_step_def)
qed

lemma mrec_future:
  assumes "(esc_step T self)\<^sup>*\<^sup>* x y" "esc_reach T self x" "x_mescrows (fst x) k = Some m" "me_status m \<noteq> ESActive"
  shows "x_mescrows (fst y) k = Some m"
  using assms(1)
proof induction
  case base
  then show ?case using assms(3) by simp
next
  case (step y z)
  have "sys_ok (fst y)" using reach_inv esc_reach_steps [OF assms(2) step.hyps(1)] by blast
  from step_sys [OF step.hyps(2) this] have "good_step T self y z" by simp
  with step.IH obtain m' where "x_mescrows (fst z) k = Some m'" "mrec_step m m'"
    using good_step_mrecD by blast
  then show ?case using assms(4) by (simp add: mrec_step_def)
qed

lemma nonces_kept:
  assumes "(esc_step T self)\<^sup>*\<^sup>* x y" "esc_reach T self x"
  shows "dom (x_nonces (fst x)) \<subseteq> dom (x_nonces (fst y))"
  using assms(1)
proof induction
  case (step y z)
  have "sys_ok (fst y)" using reach_inv esc_reach_steps [OF assms(2) step.hyps(1)] by blast
  from step_sys [OF step.hyps(2) this] have "good_step T self y z" by simp
  then have "dom (x_nonces (fst y)) \<subseteq> dom (x_nonces (fst z))"
    by (cases y, cases z) (simp add: good_step_def)
  with step.IH show ?case by (rule order_trans)
qed simp

end

end
