(* ===== verification/EscrowProps.thy ===== *)
theory EscrowProps
  imports EscrowReach
begin

text \<open>
  What the escrow contract promises, as properties of its reachable states and of its entry
  points, each with a concrete instance on the MNT token.
\<close>

section \<open>A concrete run\<close>

text \<open>
  Admin 1 initialises the contract (address 0) with a flat fee of 500 bps, treasury 9 and the
  token 50; learner 2 funds an escrow of 1000 in four sessions for mentor 3.
\<close>

definition demo_s1 :: escrow_state where
  "demo_s1 = escrow_empty\<lparr>f_admin := Some 1, f_treasury := Some 9, f_fee_bps := Some 500,
     x_count := Some 0, x_mcount := Some 0, x_delay := Some 259200, x_approved := [50 \<mapsto> True]\<rparr>"

definition demo_rec :: escrow_rec where
  "demo_rec = \<lparr>e_id = 1, e_mentor = 3, e_learner = 2, e_amount = 1000, e_session_id = ''s1'',
     e_status = ESActive, e_created_at = 1000, e_token = 50, e_platform_fee = 0, e_net_amount = 0,
     e_session_end = 1000, e_auto_delay = 259200, e_dispute_reason = '''', e_resolved_at = 0,
     e_usd_amount = 0, e_quoted = 1000, e_send_asset = 50, e_dest_asset = 50,
     e_total_sessions = 4, e_completed = 0\<rparr>"

definition demo_log :: "transition_log list" where
  "demo_log = [\<lparr>tl_from = ESPending, tl_to = ESActive, tl_actor = 2, tl_timestamp = 1000\<rparr>]"

definition demo_s2 :: escrow_state where
  "demo_s2 = demo_s1\<lparr>x_count := Some 1, x_escrows := [1 \<mapsto> demo_rec], x_sessions := [''s1'' \<mapsto> True],
     x_nonces := [0 \<mapsto> True], x_mentor_idx := [3 \<mapsto> [1]], x_learner_idx := [2 \<mapsto> [1]],
     x_tlog := [1 \<mapsto> demo_log], x_guard := guard_init\<lparr>g_depth := Some 0\<rparr>\<rparr>"

definition demo_w1 :: mnt_world where
  "demo_w1 = mnt_holding 50 2 100000"

definition demo_w2 :: mnt_world where
  "demo_w2 = (\<lambda>_. mnt_empty)(50 := mnt_empty\<lparr>m_bal := [2 \<mapsto> 99000, 0 \<mapsto> 1000]\<rparr>)"

lemmas demo_defs = demo_s1_def demo_s2_def demo_w1_def demo_w2_def demo_rec_def demo_log_def
  escrow_empty_def guard_init_def mnt_empty_def mnt_holding_def

lemmas token_eval = mnt_w_transfer_def mnt_transfer_def mnt_w_balance_def mnt_balance_def
  mnt_require_not_paused_def mnt_is_paused_def pay_fee_and_net_def pay_self_def

lemmas guard_eval = with_guard_def guarded_def rg_enter_def rg_enter_raw_def rg_commit_def
  rg_validate_caller_stack_def rg_push_caller_def rg_pop_caller_def rg_release_def MAX_CALLER_DEPTH_def

lemmas create_eval = create_escrow_def create_escrow_internal_def is_token_approved_def validator_defs
  validate_or_panic_def v_check_def validate_session_nonce_def transition_status_def sm_transition_def
  width_defs Let_def MAX_FINANCIAL_AMOUNT_def escrow_consts

lemma demo_init:
  "esc_exec mnt_ops quiet_peers (demo_env 1000 [1]) (Admin (CInitialize 1 9 500 [50] 0))
     (escrow_empty, demo_w1) = Inr (demo_s1, demo_w1)"
  by (simp add: esc_initialize_def keep_tokens_def set_token_approved_def demo_defs escrow_consts)

lemma demo_create:
  "esc_exec mnt_ops quiet_peers (demo_env 1000 [2]) (Life (CCreate 3 2 1000 ''s1'' 50 1000 4))
     (demo_s1, demo_w1) = Inr (demo_s2, demo_w2)"
  by (simp add: drop_value_def create_eval guard_eval token_eval demo_defs)

lemma demo_env_external: "0 \<notin> set g \<Longrightarrow> external (demo_env t g)"
  by (simp add: external_def)

lemma demo_reach1: "esc_reach mnt_ops 0 (demo_s1, demo_w1)"
proof (rule esc_reach.step)
  show "esc_reach mnt_ops 0 (escrow_empty, demo_w1)"
    by (rule esc_reach.start) (simp add: demo_defs mnt_w_balance_def mnt_balance_def)
  show "esc_step mnt_ops 0 (escrow_empty, demo_w1) (demo_s1, demo_w1)"
    by (rule esc_step.call [OF _ _ demo_init]) (simp_all add: demo_env_external)
qed

lemma demo_reach2: "esc_reach mnt_ops 0 (demo_s2, demo_w2)"
  by (rule esc_reach.step [OF demo_reach1 esc_step.call [OF _ _ demo_create]])
    (simp_all add: demo_env_external)


section \<open>Reachable states\<close>

text \<open>
  Solvency of the escrow contract. In every state reachable without a disaster-recovery rollback and for every token, the
  contract holds at least the sum of what all live escrows and milestone escrows in that token
  still owe; in particular any live escrow can be paid out in full. It holds for every token
  contract that satisfies the SEP-41 laws, whatever the staking, reputation, insurance and
  oracle contracts answer.
\<close>

theorem escrow_solvent:
  assumes "token_client T" "esc_reach T self (s, w)"
  shows "liabilities tk s \<le> tk_balance T tk self w \<and>
    (\<forall>k e. x_escrows s k = Some e \<longrightarrow> live (e_status e) \<longrightarrow>
       e_amount e \<le> tk_balance T (e_token e) self w)"
  using token_client.reach_pays [OF assms] by blast

lemma escrow_solvent_witness:
  "liabilities 50 demo_s2 = 1000 \<and> liabilities 50 demo_s2 \<le> mnt_w_balance 50 0 demo_w2"
proof -
  have "liabilities 50 demo_s2 = 1000"
    by (simp add: demo_s2_def demo_s1_def demo_rec_def escrow_empty_def liabilities_def wsum_upd
        owed_in_def owed_def live_def)
  then show ?thesis using escrow_solvent [OF token_client_mnt demo_reach2, of 50] by simp
qed

text \<open>
  C2. Every record accounts for its funding. In a reachable state a stored escrow carries its
  own number, which the counter covers; while it is active or disputed, what is left is the
  quoted amount less one quotient per completed session, is positive, and together with the fees and net amounts
  paid makes up the quoted amount; a released escrow has paid out all of it as fee and net
  amount; a refunded one has split it between refund and earlier payments; a resolved one has
  split what was left.
\<close>

theorem escrow_record_accounts:
  assumes "token_client T" "esc_reach T self (s, w)" "x_escrows s k = Some e"
  shows "e_id e = k \<and> 1 \<le> k \<and> k \<le> get_or 0 (x_count s) \<and>
    0 \<le> e_amount e \<and> 0 \<le> e_platform_fee e \<and> 0 \<le> e_net_amount e \<and> e_status e \<noteq> ESPending \<and>
    (e_status e \<in> {ESActive, ESDisputed} \<longrightarrow> 0 < e_amount e \<and>
      e_amount e = e_quoted e - int (e_completed e) * (e_quoted e div int (e_total_sessions e))) \<and>
    (e_status e \<noteq> ESResolved \<longrightarrow> e_amount e + e_platform_fee e + e_net_amount e = e_quoted e) \<and>
    (e_status e = ESReleased \<longrightarrow> e_amount e = 0) \<and>
    (e_status e = ESResolved \<longrightarrow> e_platform_fee e + e_net_amount e = e_amount e \<and> e_amount e \<le> e_quoted e)"
proof -
  have "sys_ok s" using token_client.reach_inv [OF assms(1,2)] by simp
  then have ok: "rec_ok k e" "1 \<le> k \<and> k \<le> get_or 0 (x_count s)"
    using store_ok_rec [OF _ assms(3)] by (simp_all add: sys_ok_def)
  then show ?thesis
    using rec_ok_live_positive [OF ok(1)] by (cases "e_status e") (auto simp: rec_ok_def live_def)
qed

lemma escrow_record_accounts_witness:
  "e_status demo_rec = ESActive \<and> 0 < e_amount demo_rec \<and>
   e_amount demo_rec + e_platform_fee demo_rec + e_net_amount demo_rec = e_quoted demo_rec"
proof -
  have "x_escrows demo_s2 1 = Some demo_rec" by (simp add: demo_s2_def)
  from escrow_record_accounts [OF token_client_mnt demo_reach2 this] show ?thesis
    by (simp add: demo_rec_def)
qed

text \<open>
  C3. What the future may do to an escrow. From a reachable state, after any number of steps (a
  disaster-recovery rollback apart), a stored escrow is still stored under its number with the same parties, token, quoted amount
  and session count; its status has moved along the declared transitions, sessions were only
  added, the open amount only fell; and a released, refunded or resolved escrow is unchanged
  for ever.
\<close>

theorem escrow_future:
  assumes "token_client T" "esc_reach T self x" "(esc_step T self)\<^sup>*\<^sup>* x y" "x_escrows (fst x) k = Some e"
  shows "\<exists>e'. x_escrows (fst y) k = Some e' \<and> (terminal_status (e_status e) \<longrightarrow> e' = e) \<and>
    (e_id e', e_mentor e', e_learner e', e_token e', e_quoted e', e_total_sessions e') =
    (e_id e, e_mentor e, e_learner e, e_token e, e_quoted e, e_total_sessions e) \<and>
    escrow_valid_transition\<^sup>*\<^sup>* (e_status e) (e_status e') \<and>
    e_completed e \<le> e_completed e' \<and> e_amount e' \<le> e_amount e"
  by (rule token_client.rec_future [OF assms(1,3,2,4)])

text \<open>A later step for the witness: the learner disputes.\<close>

definition demo_s3 :: escrow_state where
  "demo_s3 = demo_s2\<lparr>x_escrows := [1 \<mapsto> demo_rec\<lparr>e_status := ESDisputed, e_dispute_reason := ''late''\<rparr>],
     x_tlog := [1 \<mapsto> demo_log @ [\<lparr>tl_from = ESActive, tl_to = ESDisputed, tl_actor = 2, tl_timestamp = 2000\<rparr>]]\<rparr>"

lemma demo_dispute:
  "esc_exec mnt_ops quiet_peers (demo_env 2000 [2]) (Life (CDispute 2 1 ''late''))
     (demo_s2, demo_w2) = Inr (demo_s3, demo_w2)"
  by (simp add: drop_value_def dispute_def dispute_body_def guard_eval transition_status_def
      sm_transition_def demo_s3_def demo_defs width_defs Let_def)

lemma demo_step3: "esc_step mnt_ops 0 (demo_s2, demo_w2) (demo_s3, demo_w2)"
  by (rule esc_step.call [OF _ _ demo_dispute]) (simp_all add: demo_env_external)

lemma escrow_future_witness:
  "\<exists>e'. x_escrows demo_s3 1 = Some e' \<and> e_status e' = ESDisputed \<and> e_quoted e' = e_quoted demo_rec \<and>
    escrow_valid_transition\<^sup>*\<^sup>* ESActive (e_status e')"
proof -
  have "x_escrows (fst (demo_s2, demo_w2)) 1 = Some demo_rec" by (simp add: demo_s2_def)
  from escrow_future [OF token_client_mnt demo_reach2 r_into_rtranclp [of "esc_step mnt_ops 0", OF demo_step3] this]
  show ?thesis by (auto simp: demo_s3_def demo_rec_def)
qed


section \<open>Payments\<close>

context token_client
begin

text \<open>Between different accounts, fee and net amount arrive exactly.\<close>

lemma pay_fee_and_net_exact:
  assumes "pay_fee_and_net T env tk tr fee m net w = (Inr w' :: 'e fail + 't)" "0 \<le> fee"
    "distinct [self_addr env, m, tr]"
  shows "tk_balance T tk m w' = tk_balance T tk m w + net"
    "tk_balance T tk tr w' = tk_balance T tk tr w + fee"
    "tk_balance T tk (self_addr env) w' = tk_balance T tk (self_addr env) w - fee - net"
proof -
  let ?c = "self_addr env"
  obtain w1 where 1: "(if 0 < fee then pay_self T env tk tr fee w else Inr w) = (Inr w1 :: 'e fail + 't)"
    and 2: "tk_transfer T (as_invoker env) tk ?c m net w1 = Inr w'"
    using assms(1) by (auto simp: pay_fee_and_net_def res_simps)
  have w1: "tk_balance T tk m w1 = tk_balance T tk m w" "tk_balance T tk tr w1 = tk_balance T tk tr w + fee"
    "tk_balance T tk ?c w1 = tk_balance T tk ?c w - fee"
    using 1 assms(2,3) xfer_from [of "as_invoker env" tk ?c tr fee w w1]
      xfer_to [of "as_invoker env" tk ?c tr fee w w1] xfer_other [of "as_invoker env" tk ?c tr fee w w1 m]
    by (auto simp: res_simps split: if_splits)
  show "tk_balance T tk m w' = tk_balance T tk m w + net"
    "tk_balance T tk tr w' = tk_balance T tk tr w + fee"
    "tk_balance T tk ?c w' = tk_balance T tk ?c w - fee - net"
    using w1 assms(3) xfer_from [OF 2] xfer_to [OF 2] xfer_other [OF 2, of tr] by auto
qed

lemma release_funds_inv:
  assumes "release_funds T P env caller k (s, w) = Inr (u, s', w')" "store_ok s"
  shows "\<exists>e fee tr. x_escrows s k = Some e \<and> e_status e = ESActive \<and> \<not> is_isolated k s \<and>
    auth_by env caller \<and> (caller = e_learner e \<or> f_admin s = Some caller) \<and> f_treasury s = Some tr \<and>
    0 \<le> fee \<and> 10 * fee \<le> e_amount e \<and> x_escrows s' k = Some (released_rec fee e) \<and>
    pay_fee_and_net T env (e_token e) tr fee (e_mentor e) (e_amount e - fee) w = (Inr w' :: escrow_error fail + _)"
proof -
  from assms(1) obtain g s1 where b: "release_funds_body T P env caller k (put_guard g s, w) = Inr (u, s1, w')"
    and s': "s' = put_guard (rg_release ''release'' (Some caller) (x_guard s1)) s1"
    unfolding release_funds_def with_guard_Inr by blast
  from b obtain e lf where e: "x_escrows s k = Some e" "e_status e = ESActive" "\<not> is_isolated k s"
      "auth_by env caller" "caller = e_learner e \<or> f_admin s = Some caller"
    and r: "do_release T P env e k caller ((put_guard g s)\<lparr>x_low_fee := lf\<rparr>, w) =
        (Inr (s1, w') :: escrow_error fail + _)"
    unfolding release_funds_body_def Let_def is_isolated_def
    by (clarsimp simp: touch_Inr ensure_Inr expect_Inr need_auth_Inr rbind_Inr) blast
  have amt: "0 \<le> e_amount e" using store_ok_rec [OF assms(2) e(1)] by (simp add: rec_ok_def)
  have cfg: "fee_cfg_ok ((put_guard g s)\<lparr>x_low_fee := lf\<rparr>)"
    using store_ok_cfg [OF assms(2)] by (simp add: fee_cfg_ok_def)
  show ?thesis
  proof (rule do_release_spec [OF r amt cfg])
    fix fee p t tr
    assume fee: "0 \<le> fee" "10 * fee \<le> e_amount e"
      and pay: "pay_fee_and_net T env (e_token e) tr fee (e_mentor e) (e_amount e - fee) w = (Inr w' :: escrow_error fail + _)"
      and tr: "f_treasury ((put_guard g s)\<lparr>x_low_fee := lf\<rparr>) = Some tr"
      and s1: "s1 = (put_guard g s)\<lparr>x_low_fee := lf, f_price_cache := p, f_price_time := t,
         x_tlog := append_log env (e_id e) (e_status e) ESReleased caller (x_tlog ((put_guard g s)\<lparr>x_low_fee := lf\<rparr>)),
         x_escrows := (x_escrows ((put_guard g s)\<lparr>x_low_fee := lf\<rparr>))(k \<mapsto> released_rec fee e)\<rparr>"
    have "x_escrows s' k = Some (released_rec fee e)" by (simp add: s' s1)
    then show ?thesis using e fee pay tr by (intro exI [of _ e] exI [of _ fee] exI [of _ tr]) simp
  qed
qed

end

text \<open>
  C4. A successful release pays exactly what the escrow holds. The escrow was active and not
  isolated, the caller signed and is the learner or the admin; the treasury receives a fee of
  at most a tenth, the mentor everything else, the contract's balance falls by the whole
  amount, and the record is marked released with nothing left.
\<close>

theorem release_pays_out:
  assumes "token_client T" "store_ok s" "release_funds T P env caller k (s, w) = Inr (u, s', w')"
  shows "\<exists>e fee tr. x_escrows s k = Some e \<and> e_status e = ESActive \<and> \<not> is_isolated k s \<and>
    auth_by env caller \<and> (caller = e_learner e \<or> f_admin s = Some caller) \<and> f_treasury s = Some tr \<and>
    0 \<le> fee \<and> 10 * fee \<le> e_amount e \<and> x_escrows s' k = Some (released_rec fee e) \<and>
    (distinct [self_addr env, e_mentor e, tr] \<longrightarrow>
      tk_balance T (e_token e) (e_mentor e) w' = tk_balance T (e_token e) (e_mentor e) w + (e_amount e - fee) \<and>
      tk_balance T (e_token e) tr w' = tk_balance T (e_token e) tr w + fee \<and>
      tk_balance T (e_token e) (self_addr env) w' = tk_balance T (e_token e) (self_addr env) w - e_amount e)"
proof -
  from token_client.release_funds_inv [OF assms(1,3,2)] obtain e fee tr where
    r: "x_escrows s k = Some e \<and> e_status e = ESActive \<and> \<not> is_isolated k s \<and>
    auth_by env caller \<and> (caller = e_learner e \<or> f_admin s = Some caller) \<and> f_treasury s = Some tr \<and>
    0 \<le> fee \<and> 10 * fee \<le> e_amount e \<and> x_escrows s' k = Some (released_rec fee e)"
    and pay: "pay_fee_and_net T env (e_token e) tr fee (e_mentor e) (e_amount e - fee) w = (Inr w' :: escrow_error fail + _)"
    by blast
  have "0 \<le> fee" using r by simp
  with r token_client.pay_fee_and_net_exact [OF assms(1) pay] show ?thesis
    by (intro exI [of _ e] exI [of _ fee] exI [of _ tr]) simp
qed

lemma demo_store_ok: "store_ok demo_s2" "store_ok demo_s3"
proof -
  have "sys_ok demo_s2" using token_client.reach_inv [OF token_client_mnt demo_reach2] by simp
  then show "store_ok demo_s2" by (simp add: sys_ok_def)
  have "sys_ok demo_s3"
    using token_client.reach_inv [OF token_client_mnt esc_reach.step [OF demo_reach2 demo_step3]] by simp
  then show "store_ok demo_s3" by (simp add: sys_ok_def)
qed

lemmas fee_eval = compute_fee_unified_def safe_mul_def safe_div_def safe_sub_def safe_add_def
  checked_div_i128_def trunc_div_def

lemmas release_eval = release_funds_def release_funds_body_def is_isolated_def do_release_def
  verify_session_authenticity_def detect_platform_bypass_def REQUIRED_INTERACTION_MINUTES_def
  MAX_LOW_FEE_SESSIONS_PER_PAIR_def LOW_FEE_THRESHOLD_def fee_eval

lemmas run_eval = guard_eval token_eval create_eval release_eval demo_defs

lemma demo_release:
  "\<exists>s' w'. release_funds mnt_ops quiet_peers (demo_env 5000 [2]) 2 1 (demo_s2, demo_w2) = Inr ((), s', w') \<and>
     mnt_w_balance 50 3 w' = 950 \<and> mnt_w_balance 50 9 w' = 50"
  by (simp add: run_eval)


lemma release_pays_out_witness:
  "\<exists>s' w' fee. release_funds mnt_ops quiet_peers (demo_env 5000 [2]) 2 1 (demo_s2, demo_w2) = Inr ((), s', w') \<and>
     10 * fee \<le> 1000 \<and> x_escrows s' 1 = Some (released_rec fee demo_rec) \<and>
     mnt_w_balance 50 9 w' = mnt_w_balance 50 9 demo_w2 + fee"
proof -
  from demo_release obtain s' w' where
    r: "release_funds mnt_ops quiet_peers (demo_env 5000 [2]) 2 1 (demo_s2, demo_w2) = Inr ((), s', w')" by blast
  from release_pays_out [OF token_client_mnt demo_store_ok(1) r] obtain e fee tr where
    "x_escrows demo_s2 1 = Some e" "f_treasury demo_s2 = Some tr" "10 * fee \<le> e_amount e"
    "x_escrows s' 1 = Some (released_rec fee e)"
    "distinct [0, e_mentor e, tr] \<longrightarrow> mnt_w_balance (e_token e) tr w' = mnt_w_balance (e_token e) tr demo_w2 + fee"
    by auto
  then have "10 * fee \<le> 1000 \<and> x_escrows s' 1 = Some (released_rec fee demo_rec) \<and>
     mnt_w_balance 50 9 w' = mnt_w_balance 50 9 demo_w2 + fee"
    by (auto simp: demo_s2_def demo_rec_def demo_s1_def)
  with r show ?thesis by blast
qed

context token_client
begin

lemma resolve_pays:
  assumes "store_ok s" "resolve_dispute T env k pct (s, w) = Inr (u, s', w')"
  shows "\<exists>e adm m. x_escrows s k = Some e \<and> e_status e = ESDisputed \<and> f_admin s = Some adm \<and>
    auth_by env adm \<and> pct \<le> 100 \<and> m = e_amount e * int pct div 100 \<and> 0 \<le> m \<and> m \<le> e_amount e \<and>
    x_escrows s' k = Some (resolved_rec m (ledger_ts env) e) \<and>
    (distinct [self_addr env, e_mentor e, e_learner e] \<longrightarrow>
      tk_balance T (e_token e) (e_mentor e) w' = tk_balance T (e_token e) (e_mentor e) w + m \<and>
      tk_balance T (e_token e) (e_learner e) w' = tk_balance T (e_token e) (e_learner e) w + (e_amount e - m) \<and>
      tk_balance T (e_token e) (self_addr env) w' = tk_balance T (e_token e) (self_addr env) w - e_amount e)"
proof -
  from assms(2) obtain g s1 where b: "resolve_dispute_body T env k pct (put_guard g s, w) = Inr (u, s1, w')"
    and s': "s' = put_guard (rg_release ''resolve'' None (x_guard s1)) s1"
    unfolding resolve_dispute_def with_guard_Inr by blast
  show ?thesis
  proof (rule resolve_dispute_elim [OF b])
    fix e adm p m w1
    let ?c = "self_addr env"
    assume e: "x_escrows (put_guard g s) k = Some e" "e_status e = ESDisputed" and pct: "pct \<le> 100"
      and adm: "f_admin (put_guard g s) = Some adm" "auth_by env adm"
      and p: "safe_mul (e_amount e) (int pct) = (Inr p :: escrow_error fail + int)"
        "safe_div p 100 = (Inr m :: escrow_error fail + int)"
      and pay1: "(if 0 < m then pay_self T env (e_token e) (e_mentor e) m w else Inr w) = (Inr w1 :: escrow_error fail + _)"
      and pay2: "(if 0 < e_amount e - m then pay_self T env (e_token e) (e_learner e) (e_amount e - m) w1 else Inr w1)
        = (Inr w' :: escrow_error fail + _)"
      and s1: "s1 = (put_guard g s)\<lparr>x_tlog := append_log env (e_id e) ESDisputed ESResolved adm (x_tlog (put_guard g s)),
        x_escrows := (x_escrows (put_guard g s))(k \<mapsto> resolved_rec m (ledger_ts env) e)\<rparr>"
    have "0 \<le> e_amount e" using store_ok_rec [OF assms(1)] e(1) by (auto simp: rec_ok_def)
    note share = mentor_share [OF p this pct]
    have "tk_balance T (e_token e) (e_mentor e) w' = tk_balance T (e_token e) (e_mentor e) w + m \<and>
      tk_balance T (e_token e) (e_learner e) w' = tk_balance T (e_token e) (e_learner e) w + (e_amount e - m) \<and>
      tk_balance T (e_token e) ?c w' = tk_balance T (e_token e) ?c w - e_amount e"
      if d: "distinct [?c, e_mentor e, e_learner e]"
    proof -
      have "tk_balance T (e_token e) (e_mentor e) w1 = tk_balance T (e_token e) (e_mentor e) w + m \<and>
        tk_balance T (e_token e) (e_learner e) w1 = tk_balance T (e_token e) (e_learner e) w \<and>
        tk_balance T (e_token e) ?c w1 = tk_balance T (e_token e) ?c w - m"
        using pay1 d share(2) xfer_from [of "as_invoker env" "e_token e" ?c "e_mentor e" m w w1]
          xfer_to [of "as_invoker env" "e_token e" ?c "e_mentor e" m w w1]
          xfer_other [of "as_invoker env" "e_token e" ?c "e_mentor e" m w w1 "e_learner e"]
        by (auto simp: pay_self_Inr split: if_splits)
      moreover have "tk_balance T (e_token e) (e_mentor e) w' = tk_balance T (e_token e) (e_mentor e) w1 \<and>
        tk_balance T (e_token e) (e_learner e) w' = tk_balance T (e_token e) (e_learner e) w1 + (e_amount e - m) \<and>
        tk_balance T (e_token e) ?c w' = tk_balance T (e_token e) ?c w1 - (e_amount e - m)"
        using pay2 d share(3) xfer_from [of "as_invoker env" "e_token e" ?c "e_learner e" "e_amount e - m" w1 w']
          xfer_to [of "as_invoker env" "e_token e" ?c "e_learner e" "e_amount e - m" w1 w']
          xfer_other [of "as_invoker env" "e_token e" ?c "e_learner e" "e_amount e - m" w1 w' "e_mentor e"]
        by (auto simp: pay_self_Inr split: if_splits)
      ultimately show ?thesis by simp
    qed
    moreover have "x_escrows s' k = Some (resolved_rec m (ledger_ts env) e)" by (simp add: s' s1)
    ultimately show ?thesis using e adm pct share
      by (intro exI [of _ e] exI [of _ adm] exI [of _ m]) simp
  qed
qed

end

text \<open>
  C5. Resolving a dispute splits what is left exactly. Only the admin can, only with a share of
  at most 100 percent, and only a disputed escrow: the mentor gets the rounded-down percentage,
  the learner the rest, and nothing of the open amount stays in the contract.
\<close>

theorem resolve_splits_exactly:
  assumes "token_client T" "store_ok s" "resolve_dispute T env k pct (s, w) = Inr (u, s', w')"
  shows "\<exists>e adm m. x_escrows s k = Some e \<and> e_status e = ESDisputed \<and> f_admin s = Some adm \<and>
    auth_by env adm \<and> pct \<le> 100 \<and> m = e_amount e * int pct div 100 \<and> 0 \<le> m \<and> m \<le> e_amount e \<and>
    x_escrows s' k = Some (resolved_rec m (ledger_ts env) e) \<and>
    (distinct [self_addr env, e_mentor e, e_learner e] \<longrightarrow>
      tk_balance T (e_token e) (e_mentor e) w' = tk_balance T (e_token e) (e_mentor e) w + m \<and>
      tk_balance T (e_token e) (e_learner e) w' = tk_balance T (e_token e) (e_learner e) w + (e_amount e - m) \<and>
      tk_balance T (e_token e) (self_addr env) w' = tk_balance T (e_token e) (self_addr env) w - e_amount e)"
  by (rule token_client.resolve_pays [OF assms])

lemma demo_resolve:
  "\<exists>s' w'. resolve_dispute mnt_ops (demo_env 5000 [1]) 1 33 (demo_s3, demo_w2) = Inr ((), s', w') \<and>
     mnt_w_balance 50 3 w' = 330 \<and> mnt_w_balance 50 2 w' = 99670"
  by (simp add: run_eval resolve_dispute_def resolve_dispute_body_def by_admin_def demo_s3_def)

lemma resolve_splits_exactly_witness:
  "\<exists>s' w' m. resolve_dispute mnt_ops (demo_env 5000 [1]) 1 33 (demo_s3, demo_w2) = Inr ((), s', w') \<and>
     m = 1000 * 33 div 100 \<and> mnt_w_balance 50 3 w' = mnt_w_balance 50 3 demo_w2 + m"
proof -
  from demo_resolve obtain s' w' where
    r: "resolve_dispute mnt_ops (demo_env 5000 [1]) 1 33 (demo_s3, demo_w2) = Inr ((), s', w')" by blast
  from resolve_splits_exactly [OF token_client_mnt demo_store_ok(2) r]
  have "mnt_w_balance 50 3 w' = mnt_w_balance 50 3 demo_w2 + 330"
    by (auto simp: demo_s3_def demo_rec_def)
  with r show ?thesis by (intro exI [of _ s'] exI [of _ w'] exI [of _ 330]) simp
qed

end
