(* ===== verification/EscrowRules.thy ===== *)
theory EscrowRules
  imports EscrowProps
begin

text \<open>
  Rules of the escrow's single entry points: partial release, automatic release, emergency
  release, USD and path-payment creation, milestone disputes, the invariant monitor.
\<close>

section \<open>Partial release\<close>

lemma release_partial_inv:
  assumes "release_partial T P env caller k (s, w) = Inr (u, s', w')" "store_ok s"
  shows "\<exists>e r fee tr. x_escrows s k = Some e \<and> e_status e = ESActive \<and> e_completed e < e_total_sessions e \<and>
    auth_by env caller \<and> (caller = e_learner e \<or> f_admin s = Some caller) \<and> f_treasury s = Some tr \<and>
    r = (if e_completed e + 1 = e_total_sessions e then e_amount e
         else e_quoted e div int (e_total_sessions e)) \<and>
    0 \<le> fee \<and> 10 * fee \<le> r \<and> x_escrows s' k = Some (settled_rec fee 1 r e) \<and>
    pay_fee_and_net T env (e_token e) tr fee (e_mentor e) (r - fee) w = (Inr w' :: escrow_error fail + _)"
proof -
  from assms(1) obtain g s1 where b: "release_partial_body T P env caller k (put_guard g s, w) = Inr (u, s1, w')"
    and s': "s' = put_guard (rg_release ''partial'' (Some caller) (x_guard s1)) s1"
    unfolding release_partial_def with_guard_Inr by blast
  from b obtain e r where e: "x_escrows s k = Some e" "e_status e = ESActive" "e_completed e < e_total_sessions e"
      "auth_by env caller" "caller = e_learner e \<or> f_admin s = Some caller"
    and r: "(if e_completed e + 1 = e_total_sessions e then Inr (e_amount e)
           else safe_div (e_quoted e) (int (e_total_sessions e))) = (Inr r :: escrow_error fail + _)"
    and st: "settle_sessions T P env e k 1 r caller (put_guard g s, w) = (Inr (u, s1, w') :: escrow_error fail + _)"
    unfolding release_partial_body_def Let_def
    by (clarsimp simp: touch_Inr ensure_Inr expect_Inr need_auth_Inr rbind_Inr simp del: if_split) blast
  have ok: "rec_ok k e" using store_ok_rec [OF assms(2) e(1)] by simp
  have r': "r = (if e_completed e + 1 = e_total_sessions e then e_amount e
          else e_quoted e div int (e_total_sessions e))"
    using r per_session_quotient [OF ok] by (auto split: if_splits)
  have "0 \<le> r"
    using r' ok by (auto simp: rec_ok_def pos_imp_zdiv_nonneg_iff)
  moreover have "fee_cfg_ok (put_guard g s)" using store_ok_cfg [OF assms(2)] by (simp add: fee_cfg_ok_def)
  ultimately obtain fee tr where "f_treasury s = Some tr" "0 \<le> fee" "10 * fee \<le> r"
    "pay_fee_and_net T env (e_token e) tr fee (e_mentor e) (r - fee) w = (Inr w' :: escrow_error fail + _)"
    "x_escrows s1 = (x_escrows s)(k \<mapsto> settled_rec fee 1 r e)"
    using settle_sessions_spec [OF st] by auto
  then show ?thesis using e r' s'
    by (intro exI [of _ e] exI [of _ r] exI [of _ fee] exI [of _ tr]) simp
qed

text \<open>A payment is two transfers of the contract, the fee first.\<close>

lemma pay_fee_and_net_steps:
  assumes "pay_fee_and_net T env tk tr fee m net w = (Inr w' :: 'e fail + 't)"
  obtains w1 where "if 0 < fee then tk_transfer T (as_invoker env) tk (self_addr env) tr fee w = Inr w1 else w1 = w"
    "tk_transfer T (as_invoker env) tk (self_addr env) m net w1 = Inr w'"
  using assms by (auto simp: pay_fee_and_net_def res_simps split: if_splits)

text \<open>What the last session finds in the escrow: its share and the remainder of the division.\<close>

lemma last_session_amount:
  assumes "rec_ok k e" "e_status e = ESActive" "e_completed e + 1 = e_total_sessions e"
  shows "e_amount e = e_quoted e div int (e_total_sessions e) + e_quoted e mod int (e_total_sessions e)"
proof -
  let ?n = "int (e_total_sessions e)" and ?q = "e_quoted e"
  have "int (e_completed e) = ?n - 1" using assms(3) by linarith
  then have "e_amount e = ?q - (?n - 1) * (?q div ?n)"
    using assms(1,2) by (simp add: rec_ok_def live_def)
  also have "\<dots> = ?q - ?n * (?q div ?n) + ?q div ?n" by (simp add: left_diff_distrib)
  also have "?q - ?n * (?q div ?n) = ?q mod ?n" by (rule minus_mult_div_eq_mod)
  finally show ?thesis by simp
qed

text \<open>
  C6. Partial releases pay session by session and leave nothing behind. Only the learner or the
  admin can make one. Each one before the last pays the quotient of the quoted amount and the
  number of sessions and keeps the escrow active; the last one pays the quotient together with the
  remainder of the division, and releases the escrow with nothing left. What is paid is transferred
  by the escrow contract in the token of the escrow: a fee of at most a tenth to the configured
  treasury first, then all the rest to the mentor; between distinct parties the balances of the
  treasury and the mentor rise by exactly these two amounts and the contract's falls by their sum.
  The record counts the session and adds the same two amounts to its totals.
\<close>

theorem partial_release_schedule:
  assumes "token_client T" "store_ok s" "release_partial T P env caller k (s, w) = Inr (u, s', w')"
  shows "\<exists>e e' r fee tr w1. x_escrows s k = Some e \<and> x_escrows s' k = Some e' \<and> e_status e = ESActive \<and>
    auth_by env caller \<and> (caller = e_learner e \<or> f_admin s = Some caller) \<and>
    e_completed e' = e_completed e + 1 \<and> e_amount e' = e_amount e - r \<and>
    e_platform_fee e' = e_platform_fee e + fee \<and> e_net_amount e' = e_net_amount e + (r - fee) \<and>
    (if e_completed e' < e_total_sessions e
     then r = e_quoted e div int (e_total_sessions e) \<and> e_status e' = ESActive
     else r = e_quoted e div int (e_total_sessions e) + e_quoted e mod int (e_total_sessions e) \<and>
          e_status e' = ESReleased \<and> e_amount e' = 0) \<and>
    f_treasury s = Some tr \<and> 0 \<le> fee \<and> 10 * fee \<le> r \<and>
    (if 0 < fee then tk_transfer T (as_invoker env) (e_token e) (self_addr env) tr fee w = Inr w1 else w1 = w) \<and>
    tk_transfer T (as_invoker env) (e_token e) (self_addr env) (e_mentor e) (r - fee) w1 = Inr w' \<and>
    (distinct [self_addr env, e_mentor e, tr] \<longrightarrow>
      tk_balance T (e_token e) (e_mentor e) w' = tk_balance T (e_token e) (e_mentor e) w + (r - fee) \<and>
      tk_balance T (e_token e) tr w' = tk_balance T (e_token e) tr w + fee \<and>
      tk_balance T (e_token e) (self_addr env) w' = tk_balance T (e_token e) (self_addr env) w - r)"
proof -
  from release_partial_inv [OF assms(3,2)] obtain e r fee tr where
    e: "x_escrows s k = Some e" "e_status e = ESActive" "e_completed e < e_total_sessions e"
      "auth_by env caller" "caller = e_learner e \<or> f_admin s = Some caller" "f_treasury s = Some tr"
      "r = (if e_completed e + 1 = e_total_sessions e then e_amount e
         else e_quoted e div int (e_total_sessions e))"
      "0 \<le> fee" "10 * fee \<le> r" "x_escrows s' k = Some (settled_rec fee 1 r e)"
    and pay: "pay_fee_and_net T env (e_token e) tr fee (e_mentor e) (r - fee) w = (Inr w' :: escrow_error fail + _)"
    by blast
  have ok: "rec_ok k e" using store_ok_rec [OF assms(2) e(1)] by simp
  obtain w1 where w1: "if 0 < fee then tk_transfer T (as_invoker env) (e_token e) (self_addr env) tr fee w = Inr w1 else w1 = w"
      "tk_transfer T (as_invoker env) (e_token e) (self_addr env) (e_mentor e) (r - fee) w1 = Inr w'"
    by (rule pay_fee_and_net_steps [OF pay])
  show ?thesis
    by (rule exI [of _ e], rule exI [of _ "settled_rec fee 1 r e"], rule exI [of _ r], rule exI [of _ fee],
        rule exI [of _ tr], rule exI [of _ w1])
      (use e w1 last_session_amount [OF ok e(2)] token_client.pay_fee_and_net_exact [OF assms(1) pay e(8)]
        in \<open>auto simp: settled_rec_def\<close>)
qed

lemma demo_partial:
  "\<exists>s' w'. release_partial mnt_ops quiet_peers (demo_env 5000 [2]) 2 1 (demo_s2, demo_w2) = Inr ((), s', w') \<and>
     mnt_w_balance 50 0 w' = 750"
  by (simp add: run_eval release_partial_def release_partial_body_def settle_sessions_def)

lemma partial_release_schedule_witness:
  "\<exists>s' w' e' fee. release_partial mnt_ops quiet_peers (demo_env 5000 [2]) 2 1 (demo_s2, demo_w2) = Inr ((), s', w') \<and>
     x_escrows s' 1 = Some e' \<and> e_completed e' = 1 \<and> e_amount e' = 750 \<and> e_status e' = ESActive \<and>
     10 * fee \<le> 250 \<and> mnt_w_balance 50 9 w' = mnt_w_balance 50 9 demo_w2 + fee \<and>
     mnt_w_balance 50 3 w' = mnt_w_balance 50 3 demo_w2 + (250 - fee) \<and> mnt_w_balance 50 0 w' = 750"
proof -
  from demo_partial obtain s' w' where
    r: "release_partial mnt_ops quiet_peers (demo_env 5000 [2]) 2 1 (demo_s2, demo_w2) = Inr ((), s', w')"
      "mnt_w_balance 50 0 w' = 750" by blast
  have d: "x_escrows demo_s2 1 = Some demo_rec" "f_treasury demo_s2 = Some 9"
    by (simp_all add: demo_s2_def demo_s1_def)
  from partial_release_schedule [OF token_client_mnt demo_store_ok(1) r(1)] d obtain e' fee where
    "x_escrows s' 1 = Some e'" "e_completed e' = 1" "e_amount e' = 750" "e_status e' = ESActive"
    "10 * fee \<le> 250" "mnt_w_balance 50 9 w' = mnt_w_balance 50 9 demo_w2 + fee"
    "mnt_w_balance 50 3 w' = mnt_w_balance 50 3 demo_w2 + (250 - fee)"
    by (auto simp: demo_rec_def)
  with r show ?thesis by blast
qed


section \<open>Automatic release\<close>

text \<open>
  The gate of the automatic release. Anyone may call it, but it only succeeds on an active
  escrow whose session end plus delay has passed, with attempts left and outside the backoff.
  When a pre-check fails no token moves, the attempt is counted and, clock permitting, the next one is at least an
  hour and at most eight hours away; otherwise the whole escrow is released and its failure
  record is gone.
\<close>

theorem auto_release_gate:
  assumes "try_auto_release T P env k (s, w) = Inr (u, s', w')" "store_ok s" "ledger_ts env + 28800 \<le> u64_max"
  shows "\<exists>e. x_escrows s k = Some e \<and> e_status e = ESActive \<and>
    e_session_end e + e_auto_delay e \<le> ledger_ts env \<and>
    rf_attempt_number (get_or_init_failure_record k s) < MAX_AUTO_RELEASE_ATTEMPTS \<and>
    rf_next_retry_time (get_or_init_failure_record k s) \<le> ledger_ts env \<and>
    (if run_auto_release_prechecks P e s
     then x_failures s' k = None \<and> (\<exists>fee. x_escrows s' k = Some (released_rec fee e) \<and> 10 * fee \<le> e_amount e)
     else w' = w \<and> x_escrows s' = x_escrows s \<and> (\<exists>f. x_failures s' k = Some f \<and>
        rf_attempt_number f = rf_attempt_number (get_or_init_failure_record k s) + 1 \<and>
        ledger_ts env + 3600 \<le> rf_next_retry_time f \<and> rf_next_retry_time f \<le> ledger_ts env + 28800))"
proof -
  from assms(1) obtain e where e: "x_escrows s k = Some e"
    by (auto simp: try_auto_release_def Let_def touch_Inr)
  have amt: "0 \<le> e_amount e" using store_ok_rec [OF assms(2) e] by (simp add: rec_ok_def)
  have cfg: "fee_cfg_ok s" using store_ok_cfg [OF assms(2)] by simp
  show ?thesis
  proof (cases "run_auto_release_prechecks P e s")
    case True
    with assms(1) e obtain s2 where g: "e_status e = ESActive" "e_session_end e + e_auto_delay e \<le> ledger_ts env"
        "rf_attempt_number (get_or_init_failure_record k s) < MAX_AUTO_RELEASE_ATTEMPTS"
        "rf_next_retry_time (get_or_init_failure_record k s) \<le> ledger_ts env"
      and r: "do_release T P env e k (self_addr env) (s, w) = (Inr (s2, w') :: escrow_error fail + _)"
      and s': "s' = clear_failure_record k s2"
      by (auto simp: try_auto_release_def Let_def touch_Inr ensure_Inr rbind_Inr safe_add_u64_Inr)
    have "\<exists>fee. x_escrows s2 k = Some (released_rec fee e) \<and> 10 * fee \<le> e_amount e"
      by (rule do_release_spec [OF r amt cfg]) auto
    with True e g s' show ?thesis by (auto simp: clear_failure_record_def)
  next
    case False
    with assms(1) e show ?thesis
      by (auto simp: try_auto_release_def Let_def touch_Inr ensure_Inr rbind_Inr safe_add_u64_Inr
          set_failure_record_def dest: next_retry_bounds [OF _ assms(3)])
  qed
qed


lemmas auto_eval = try_auto_release_def run_auto_release_prechecks_def get_or_init_failure_record_def
  set_failure_record_def clear_failure_record_def safe_add_u64_def failure_consts

lemma demo_auto:
  "\<exists>s' w'. try_auto_release mnt_ops quiet_peers (demo_env 300000 []) 1 (demo_s2, demo_w2) = Inr ((), s', w') \<and>
     mnt_w_balance 50 0 w' = 0"
  by (simp add: run_eval auto_eval)

lemma auto_release_gate_witness:
  "\<exists>s' w' fee. try_auto_release mnt_ops quiet_peers (demo_env 300000 []) 1 (demo_s2, demo_w2) = Inr ((), s', w') \<and>
     x_escrows s' 1 = Some (released_rec fee demo_rec) \<and> 10 * fee \<le> 1000"
proof -
  from demo_auto obtain s' w' where
    r: "try_auto_release mnt_ops quiet_peers (demo_env 300000 []) 1 (demo_s2, demo_w2) = Inr ((), s', w')" by blast
  have "run_auto_release_prechecks quiet_peers demo_rec demo_s2"
    by (simp add: run_auto_release_prechecks_def demo_defs)
  with auto_release_gate [OF r demo_store_ok(1)] show ?thesis
    by (rule_tac exI [of _ s'], rule_tac exI [of _ w'], use r in \<open>auto simp: demo_s2_def demo_rec_def u64_max_def\<close>)
qed


section \<open>Emergency release\<close>

text \<open>The pool the code adds up is the sum over the active escrows.\<close>

definition active_amount :: "escrow_rec \<Rightarrow> int" where
  "active_amount e = (if e_status e = ESActive then e_amount e else 0)"

lemma pool_loop_sum:
  assumes "pool_loop m is tot = (Inr p :: 'e fail + int)" "\<And>k e. m k = Some e \<Longrightarrow> 0 \<le> e_amount e"
  shows "p = tot + (\<Sum>i \<leftarrow> is. wat active_amount (m i))"
  using assms(1)
proof (induction "is" arbitrary: tot)
  case (Cons i js)
  show ?case
  proof (cases "m i")
    case (Some e)
    have "0 \<le> e_amount e" by (rule assms(2) [OF Some])
    then have "pool_loop m js (tot + active_amount e) = (Inr p :: 'e fail + int)"
      using Cons.prems Some by (auto simp: rbind_Inr safe_add_Inr active_amount_def split: if_splits)
    from Cons.IH [OF this] Some show ?thesis by simp
  qed (use Cons in simp)
qed simp

lemma active_pool_sum:
  assumes "store_ok s" "active_pool_total s = Inr p"
  shows "p = wsum active_amount (x_escrows s)"
proof -
  let ?m = "x_escrows s" and ?is = "[1..<get_or 0 (x_count s) + 1]"
  have "0 \<le> e_amount e" if "?m k = Some e" for k e
    using store_ok_rec [OF assms(1) that] by (simp add: rec_ok_def)
  from pool_loop_sum [OF assms(2) [unfolded active_pool_total_def] this]
  have "p = (\<Sum>i \<leftarrow> ?is. wat active_amount (?m i))" by simp
  also have "\<dots> = (\<Sum>i \<in> set ?is. wat active_amount (?m i))" by (simp add: sum_list_distinct_conv_sum_set)
  also have "\<dots> = (\<Sum>i \<in> dom ?m. wat active_amount (?m i))"
  proof (rule sum.mono_neutral_right)
    show "dom ?m \<subseteq> set ?is" using store_ok_rec [OF assms(1)] by (force simp: less_Suc_eq_le)
    show "\<forall>i \<in> set ?is - dom ?m. wat active_amount (?m i) = 0" by (auto simp: wat_def split: option.splits)
  qed simp
  also have "\<dots> = wsum active_amount ?m"
    unfolding wsum_def by (rule sum.cong) auto
  finally show ?thesis .
qed

text \<open>
  C7. The gate of the emergency release. When an emergency action executes, four different
  registered signers have approved it, its timelock has passed, the caller signed and holds the
  unexpired emergency role, the escrow is active with the proposed amount, and that amount is
  at most a tenth of all active escrows together; so an escrow that holds more than a tenth of
  the pool can never be released this way.
\<close>

theorem emergency_release_gate:
  assumes "store_ok s" "execute_emergency_action T env caller i (s, w) = Inr (True, s', w')"
    "\<forall>c. y_circuit s = Some c \<longrightarrow> 0 \<le> cb_released c"
  shows "\<exists>a reg role e. y_proposals s i = Some a \<and> \<not> ea_executed a \<and> \<not> ea_failed a \<and>
    y_signers s = Some reg \<and> length (ea_signers a) = 4 \<and> card (set (ea_signers a) \<inter> set reg) = 4 \<and>
    ea_execute_after a \<le> ledger_ts env \<and>
    y_emerg_admin s = Some role \<and> er_admin role = caller \<and> ledger_ts env < er_expires_at role \<and>
    auth_by env caller \<and> x_escrows s (ea_escrow_id a) = Some e \<and> e_status e = ESActive \<and>
    e_amount e = ea_amount a \<and> 10 * e_amount e \<le> wsum active_amount (x_escrows s)"
proof -
  from execute_emergency_inv [OF assms(2)] obtain a reg role pool e cb where
    a: "y_proposals s i = Some a" and p: "emergency_passed env caller a reg role pool e s cb" by blast
  have e: "x_escrows s (ea_escrow_id a) = Some e" "e_status e = ESActive" "e_amount e = ea_amount a"
    and pool: "pool = wsum active_amount (x_escrows s)"
    and sg: "length (ea_signers a) = 4" "distinct (ea_signers a)" "set (ea_signers a) \<subseteq> set reg"
    and cb: "check_circuit_breaker (get_or \<lparr>cb_window_start = ledger_ts env, cb_released = 0\<rparr> (y_circuit s))
      (ledger_ts env) pool (ea_amount a) = Some cb"
    using p active_pool_sum [OF assms(1)] by (auto simp: emergency_passed_def validate_signatures_iff)
  let ?st = "get_or \<lparr>cb_window_start = ledger_ts env, cb_released = 0\<rparr> (y_circuit s)"
  have ok: "rec_ok (ea_escrow_id a) e" using store_ok_rec [OF assms(1) e(1)] by simp
  then have pos: "0 < ea_amount a" using rec_ok_live_positive [OF ok] e by (simp add: live_def)
  have st: "0 \<le> cb_released ?st" using assms(3) by (cases "y_circuit s") auto
  have "ea_amount a \<le> max_releasable pool"
    using check_circuit_breaker_Some [OF cb st less_imp_le [OF pos]] st by (auto split: if_splits)
  moreover from this pos have "0 < pool" by (auto simp: max_releasable_def split: if_splits)
  ultimately have "10 * ea_amount a \<le> pool" using max_releasable_tenth [of pool] by linarith
  moreover have "card (set (ea_signers a) \<inter> set reg) = 4"
    using sg distinct_card [OF sg(2)] by (simp add: Int_absorb2)
  ultimately show ?thesis
    using a p e sg pool execute_emergency_inv [OF assms(2)] by (auto simp: emergency_passed_def)
qed


definition demo_action :: emergency_action where
  "demo_action = \<lparr>ea_id = 1, ea_action_type = ''emergency_release'', ea_escrow_id = 1, ea_amount = 1000,
     ea_proposer = 11, ea_reason_hash = 0, ea_params_hash = 0, ea_proposed_at = 1000,
     ea_execute_after = 87400, ea_approval_count = 4, ea_signers = [11, 12, 13, 14],
     ea_executed = False, ea_failed = False\<rparr>"

definition demo_s4 :: escrow_state where
  "demo_s4 = demo_s2\<lparr>x_count := Some 2,
     x_escrows := [1 \<mapsto> demo_rec, 2 \<mapsto> demo_rec\<lparr>e_id := 2, e_amount := 20000, e_quoted := 20000\<rparr>],
     y_signers := Some [11, 12, 13, 14, 15, 16, 17], y_proposals := [1 \<mapsto> demo_action],
     y_emerg_admin := Some \<lparr>er_admin = 5, er_granted_at = 1000, er_expires_at = 260200,
       er_scope = ''emergency_release''\<rparr>\<rparr>"

definition demo_w4 :: mnt_world where
  "demo_w4 = (\<lambda>_. mnt_empty)(50 := mnt_empty\<lparr>m_bal := [0 \<mapsto> 21000]\<rparr>)"

lemmas emergency_eval = execute_emergency_action_def active_pool_total_def check_circuit_breaker_def
  max_releasable_def validate_emergency_signatures_def is_emergency_signer_def timelock_elapsed_def
  is_emergency_admin_active_def emergency_consts do_release_simple_def remove_from_stuck_watchlist_def

lemma demo_emergency:
  "\<exists>s' w'. execute_emergency_action mnt_ops (demo_env 90000 [5]) 5 1 (demo_s4, demo_w4) = Inr (True, s', w') \<and>
     mnt_w_balance 50 3 w' = 950"
  by (simp add: emergency_eval run_eval demo_s4_def demo_action_def demo_w4_def list_ex_iff upt_rec)

lemma emergency_release_gate_witness:
  "\<exists>s' w'. execute_emergency_action mnt_ops (demo_env 90000 [5]) 5 1 (demo_s4, demo_w4) = Inr (True, s', w') \<and>
     10 * 1000 \<le> wsum active_amount (x_escrows demo_s4)"
proof -
  from demo_emergency obtain s' w' where
    r: "execute_emergency_action mnt_ops (demo_env 90000 [5]) 5 1 (demo_s4, demo_w4) = Inr (True, s', w')" by blast
  have ok: "store_ok demo_s4" using demo_store_ok(1)
    by (simp add: store_ok_def demo_s4_def fee_cfg_ok_def rec_ok_def live_def demo_defs MAX_FINANCIAL_AMOUNT_def)
  have "\<forall>c. y_circuit demo_s4 = Some c \<longrightarrow> 0 \<le> cb_released c" by (simp add: demo_s4_def demo_defs)
  from emergency_release_gate [OF ok r this] show ?thesis
    by (rule_tac exI [of _ s'], rule_tac exI [of _ w'], use r in \<open>auto simp: demo_s4_def demo_action_def demo_rec_def\<close>)
qed

end
