(* ===== verification/EscrowLimits.thy ===== *)
theory EscrowLimits
  imports EscrowRules
begin

text \<open>
  Fees, and behaviour that follows from the whole contract rather than from one guard: the USD
  path can never succeed, the path payment succeeds once, a disputed milestone escrow keeps its
  tokens for ever, the runtime monitor flags every released escrow.
\<close>

section \<open>Fees\<close>

text \<open>
  C37. No fee takes more than a tenth. In a reachable state, whatever tier the staking contract
  reports and whatever the schedule and the price cache hold, a computed fee is the amount
  times a rate of at most 1000 basis points, rounded down, and the computation changes nothing
  but the price cache.
\<close>

theorem fee_at_most_tenth:
  assumes "token_client T" "esc_reach T self (s, w)" "0 \<le> amount"
    "compute_fee_unified P env mentor amount s = (Inr ((fee, meta), s') :: escrow_error fail + _)"
  shows "(\<exists>b \<le> 1000. fee = amount * int b div 10000) \<and> 0 \<le> fee \<and> 10 * fee \<le> amount \<and>
    (\<exists>p t. s' = s\<lparr>f_price_cache := p, f_price_time := t\<rparr>)"
proof -
  have "sys_ok s" using token_client.reach_inv [OF assms(1,2)] by simp
  then have cfg: "fee_cfg_ok s" by (simp add: sys_ok_def store_ok_cfg)
  show ?thesis
    using compute_fee_unified_ok [OF assms(4,3) cfg] compute_fee_unified_range [OF assms(4,3) cfg]
      fee_price_frame [OF assms(4)] by (auto simp: bps_of_def ESC_MAX_FEE_BPS_def)
qed

lemma fee_at_most_tenth_witness:
  "compute_fee_unified quiet_peers (demo_env 5000 []) 3 999 demo_s2 =
     (Inr ((49, None), demo_s2) :: escrow_error fail + _) \<and> 10 * (49 :: int) \<le> 999"
proof -
  have "compute_fee_unified quiet_peers (demo_env 5000 []) 3 999 demo_s2 =
    (Inr ((49, None), demo_s2) :: escrow_error fail + _)"
    by (simp add: fee_eval demo_defs width_defs)
  with fee_at_most_tenth [OF token_client_mnt demo_reach2 _ this] show ?thesis by simp
qed

definition neutral_cache :: "'a fee_state_scheme \<Rightarrow> bool" where
  "neutral_cache s \<longleftrightarrow> f_price_cache s \<in> {None, Some 0, Some 7500000}"

text \<open>
  The dynamic price never changes a fee. The price query is a placeholder, so the cache only
  ever holds no price or 0.75, and for both the multiplier is 10000 basis points: with a valid
  schedule the base rate of every release is the rate of the tier, whether dynamic fees are
  enabled or not, and the cache stays as described.
\<close>

theorem dynamic_price_neutral:
  assumes "neutral_cache s" "\<forall>t. tier_bps sch t \<le> ESC_MAX_FEE_BPS"
    "compute_fee_with_meta P env sch mentor amount s = (Inr ((fee, tier, base, eff), s') :: escrow_error fail + _)"
  shows "base = tier_bps sch tier \<and> neutral_cache s' \<and>
    eff = (if fs_threshold sch < amount then base - fs_discount sch else base)"
proof -
  have price: "price_multiplier_bps (fst (cached_price env s)) = 10000 \<and> neutral_cache (snd (cached_price env s))"
    using assms(1)
    by (auto simp: cached_price_def neutral_cache_def price_multiplier_bps_def fetch_mnt_usdc_price_def
        Let_def split: option.splits)
  have max: "tier_bps sch t \<le> 1000" for t using assms(2) by (simp add: ESC_MAX_FEE_BPS_def)
  show ?thesis
  proof (cases "get_or True (f_dyn_enabled s)")
    case True
    with assms(3) price max show ?thesis
      by (auto simp: compute_fee_with_meta_def rbind_Inr Let_def safe_mul_u32_Inr safe_div_u32_Inr
          ESC_MAX_FEE_BPS_def case_prod_unfold min_absorb1 intro!: min_absorb1 le_trans [OF diff_le_self])
  next
    case False
    with assms(1,3) max show ?thesis
      by (auto simp: compute_fee_with_meta_def rbind_Inr Let_def ESC_MAX_FEE_BPS_def
          intro!: min_absorb1 le_trans [OF diff_le_self])
  qed
qed

definition demo_schedule :: fee_schedule where
  "demo_schedule = \<lparr>fs_tier0 = 500, fs_tier1 = 400, fs_tier2 = 300, fs_tier3 = 200,
     fs_threshold = 5000, fs_discount = 50\<rparr>"

lemma dynamic_price_neutral_witness:
  "\<exists>s'. compute_fee_with_meta quiet_peers (demo_env 5000 []) demo_schedule 3 10000 demo_s2 =
     (Inr ((450, 0, 500, 450), s') :: escrow_error fail + _) \<and> neutral_cache s'"
proof -
  have "\<exists>s'. compute_fee_with_meta quiet_peers (demo_env 5000 []) demo_schedule 3 10000 demo_s2 =
     (Inr ((450, 0, 500, 450), s') :: escrow_error fail + _)"
    by (simp add: compute_fee_with_meta_def mentor_tier_def tier_bps_def demo_schedule_def
        cached_price_def price_multiplier_bps_def fetch_mnt_usdc_price_def safe_mul_u32_def
        safe_div_u32_def fee_eval demo_defs width_defs ESC_MAX_FEE_BPS_def Let_def)
  then obtain s' where r: "compute_fee_with_meta quiet_peers (demo_env 5000 []) demo_schedule 3 10000 demo_s2 =
     (Inr ((450, 0, 500, 450), s') :: escrow_error fail + _)" by blast
  have "neutral_cache demo_s2" by (simp add: neutral_cache_def demo_defs)
  moreover have "\<forall>t. tier_bps demo_schedule t \<le> ESC_MAX_FEE_BPS"
    by (simp add: tier_bps_def demo_schedule_def ESC_MAX_FEE_BPS_def)
  ultimately show ?thesis using dynamic_price_neutral [OF _ _ r] r by blast
qed


section \<open>USD and path payments\<close>

text \<open>
  Funding in USD is impossible. No entry point ever writes the oracle's address, so in
  every reachable state and for all arguments \<open>create_escrow_usd\<close> fails.
\<close>

theorem usd_creation_impossible:
  assumes "token_client T" "esc_reach T self (s, w)"
  shows "isl (create_escrow_usd T P env mentor learner usd tk n (s, w))"
proof (cases "create_escrow_usd T P env mentor learner usd tk n (s, w)")
  case (Inr r)
  have "x_oracle s = None" using token_client.reach_inv [OF assms] by simp
  with Inr show ?thesis by (auto simp: create_escrow_usd_def rbind_Inr expect_Inr)
qed simp

lemma usd_creation_impossible_witness:
  "isl (create_escrow_usd mnt_ops quiet_peers (demo_env 5000 [2]) 3 2 100 50 1 (demo_s2, demo_w2))"
  by (rule usd_creation_impossible [OF token_client_mnt demo_reach2])

lemma create_path_nonce:
  assumes "create_escrow_with_path_payment T env l m sa smax da amt n (s, w) = Inr (k, s', w')"
  shows "x_nonces s (sha env [XSym ''PATHPAY'']) = None" "x_nonces s' (sha env [XSym ''PATHPAY'']) \<noteq> None"
proof -
  from assms have "create_escrow_internal T env m l amt ''PATHPAY'' da 0 0 amt sa da n (s, w) = Inr (k, s', w')"
    unfolding create_escrow_with_path_payment_def Let_def by (auto simp: ensure_Inr expect_Inr rbind_Inr)
  note c = create_internal_inv [OF this]
  show "x_nonces s (sha env [XSym ''PATHPAY'']) = None" using c by blast
  have "x_nonces s' = (x_nonces s)(sha env [XSym ''PATHPAY''] \<mapsto> True)" using c by blast
  then show "x_nonces s' (sha env [XSym ''PATHPAY'']) \<noteq> None" by simp
qed

text \<open>
  At most one path payment ever succeeds. Every path payment uses the same session
  identifier, whose nonce is never freed: once one has succeeded, every other one fails, for
  all parties, assets and amounts, in every later state.
\<close>

theorem path_payment_once:
  assumes "token_client T" "esc_reach T self x" "external env" "self_addr env = self"
    "create_escrow_with_path_payment T env l m sa smax da amt n x = Inr (k, y)"
    "(esc_step T self)\<^sup>*\<^sup>* y z" "sha env' [XSym ''PATHPAY''] = sha env [XSym ''PATHPAY'']"
  shows "isl (create_escrow_with_path_payment T env' l' m' sa' smax' da' amt' n' z)"
proof (cases "create_escrow_with_path_payment T env' l' m' sa' smax' da' amt' n' z")
  case (Inr r)
  obtain s w s1 w1 s2 w2 where xyz: "x = (s, w)" "y = (s1, w1)" "z = (s2, w2)"
    by (cases x, cases y, cases z)
  obtain k' s3 w3 where r: "r = (k', s3, w3)" by (cases r)
  have "esc_exec T P env (Life (CCreatePath l m sa smax da amt n)) (s, w) = Inr (s1, w1)" for P
    using assms(5) by (simp add: xyz drop_value_def)
  from esc_step.call [OF assms(3,4) this] assms(2) have y: "esc_reach T self y"
    unfolding xyz by (rule_tac esc_reach.step)
  from assms(5) have "sha env [XSym ''PATHPAY''] \<in> dom (x_nonces s1)"
    unfolding xyz by (auto dest: create_path_nonce(2))
  with token_client.nonces_kept [OF assms(1,6) y] have "sha env [XSym ''PATHPAY''] \<in> dom (x_nonces s2)"
    by (auto simp: xyz)
  moreover have "x_nonces s2 (sha env' [XSym ''PATHPAY'']) = None"
    using Inr unfolding xyz r by (rule create_path_nonce)
  ultimately show ?thesis using assms(7) by auto
qed simp

lemma demo_path:
  "\<exists>k y. create_escrow_with_path_payment mnt_ops (demo_env 1000 [2]) 2 3 50 1000 50 900 1 (demo_s1, demo_w1) = Inr (k, y)"
  by (simp add: create_escrow_with_path_payment_def run_eval trunc_div_def)

lemma path_payment_once_witness:
  "\<exists>k y. create_escrow_with_path_payment mnt_ops (demo_env 1000 [2]) 2 3 50 1000 50 900 1 (demo_s1, demo_w1) = Inr (k, y) \<and>
     isl (create_escrow_with_path_payment mnt_ops (demo_env 2000 [2]) 2 4 50 10 50 5 1 y)"
proof -
  from demo_path obtain k y where
    r: "create_escrow_with_path_payment mnt_ops (demo_env 1000 [2]) 2 3 50 1000 50 900 1 (demo_s1, demo_w1) = Inr (k, y)"
    by blast
  have "external (demo_env 1000 [2])" by (simp add: demo_env_external)
  from path_payment_once [OF token_client_mnt demo_reach1 this _ r] r show ?thesis by auto
qed


section \<open>Milestone disputes and the monitor\<close>

text \<open>
  A disputed milestone escrow is stuck. No entry point leads out of a milestone dispute: in
  every later state the escrow is exactly as it was, and its unpaid milestones are still among
  the tokens the contract must hold.
\<close>

theorem disputed_milestones_stuck:
  assumes "token_client T" "esc_reach T self x" "(esc_step T self)\<^sup>*\<^sup>* x y"
    "x_mescrows (fst x) k = Some m" "me_status m = ESDisputed"
  shows "x_mescrows (fst y) k = Some m \<and>
    open_amount (me_milestones m) (me_statuses m) \<le> tk_balance T (me_token m) self (snd y)"
proof -
  have m: "x_mescrows (fst y) k = Some m"
    by (rule token_client.mrec_future [OF assms(1,3,2,4)]) (simp add: assms(5))
  have "esc_reach T self (fst y, snd y)" using esc_reach_steps [OF assms(2,3)] by simp
  note pays = token_client.reach_pays(1) [OF assms(1) this]
  have ok: "sys_ok (fst y)"
    using token_client.reach_inv [OF assms(1) esc_reach_steps [OF assms(2,3)]] by simp
  have fin: "finite (dom (x_mescrows (fst y)))" using ok by (simp add: sys_ok_def store_ok_def)
  have "open_amount (me_milestones m) (me_statuses m) = m_owed_in (me_token m) m"
    using assms(5) by (simp add: m_owed_in_def m_owed_def live_def)
  also have "\<dots> \<le> wsum (m_owed_in (me_token m)) (x_mescrows (fst y))"
    by (rule wsum_member_le [OF fin _ m]) (rule token_client.owed_nonneg(2) [OF assms(1) ok])
  also have "\<dots> \<le> liabilities (me_token m) (fst y)"
    using wsum_nonneg [of "x_escrows (fst y)" "owed_in (me_token m)"] token_client.owed_nonneg(1) [OF assms(1) ok]
    by (simp add: liabilities_def)
  finally show ?thesis using m pays [of "me_token m"] by simp
qed

definition demo_milestones :: "milestone_spec list" where
  "demo_milestones = [\<lparr>ms_description_hash = 7, ms_amount = 600\<rparr>, \<lparr>ms_description_hash = 8, ms_amount = 400\<rparr>]"

definition demo_mrec :: milestone_escrow where
  "demo_mrec = \<lparr>me_id = 1, me_mentor = 3, me_learner = 2, me_total_amount = 1000,
     me_milestones = demo_milestones, me_statuses = [MSPending, MSDisputed], me_status = ESDisputed,
     me_created_at = 1000, me_token = 50, me_platform_fee = 0, me_net_amount = 0\<rparr>"

lemma demo_milestone_dispute:
  "\<exists>s' w'. esc_reach mnt_ops 0 (s', w') \<and> x_mescrows s' 1 = Some demo_mrec"
proof -
  have "\<exists>s' w'. esc_exec mnt_ops quiet_peers (demo_env 1000 [2])
      (Life (CCreateMilestones 3 2 demo_milestones 50)) (demo_s1, demo_w1) = Inr (s', w') \<and>
      x_mescrows s' 1 = Some (demo_mrec\<lparr>me_statuses := [MSPending, MSPending], me_status := ESActive\<rparr>)"
    by (simp add: drop_value_def create_milestone_escrow_def demo_milestones_def demo_mrec_def run_eval)
  then obtain s1 w1 where c: "esc_exec mnt_ops quiet_peers (demo_env 1000 [2])
      (Life (CCreateMilestones 3 2 demo_milestones 50)) (demo_s1, demo_w1) = Inr (s1, w1)"
    and m: "x_mescrows s1 1 = Some (demo_mrec\<lparr>me_statuses := [MSPending, MSPending], me_status := ESActive\<rparr>)"
    by blast
  have "\<exists>s' w'. esc_exec mnt_ops quiet_peers (demo_env 2000 [2, 3])
      (Life (CDisputeMilestone 1 1 ''bad'')) (s1, w1) = Inr (s', w') \<and> x_mescrows s' 1 = Some demo_mrec"
    using m by (simp add: drop_value_def dispute_milestone_def list_get_def transition_status_def
        sm_transition_def demo_mrec_def demo_milestones_def Let_def)
  then obtain s2 w2 where d: "esc_exec mnt_ops quiet_peers (demo_env 2000 [2, 3])
      (Life (CDisputeMilestone 1 1 ''bad'')) (s1, w1) = Inr (s2, w2)" "x_mescrows s2 1 = Some demo_mrec"
    by blast
  have "esc_step mnt_ops 0 (demo_s1, demo_w1) (s1, w1)" "esc_step mnt_ops 0 (s1, w1) (s2, w2)"
    by (rule esc_step.call [OF _ _ c], simp_all add: demo_env_external)
      (rule esc_step.call [OF _ _ d(1)], simp_all add: demo_env_external)
  then show ?thesis using d(2) demo_reach1 by (meson esc_reach.step)
qed

lemma disputed_milestones_stuck_witness:
  "\<exists>s w. esc_reach mnt_ops 0 (s, w) \<and> x_mescrows s 1 = Some demo_mrec \<and> 1000 \<le> mnt_w_balance 50 0 w"
proof -
  from demo_milestone_dispute obtain s w where
    r: "esc_reach mnt_ops 0 (s, w)" and m: "x_mescrows (fst (s, w)) 1 = Some demo_mrec" by auto
  have "me_status demo_mrec = ESDisputed" by (simp add: demo_mrec_def)
  from disputed_milestones_stuck [OF token_client_mnt r rtranclp.rtrancl_refl m this] r m
  show ?thesis by (intro exI [of _ s] exI [of _ w]) (auto simp: demo_mrec_def demo_milestones_def)
qed

text \<open>
  The runtime monitor reports a violation for every escrow that was released normally. In
  every reachable state it returns, for a released escrow, a report whose conservation check
  fails, because it compares what was paid with an amount that the release has set to zero.
\<close>

theorem monitor_flags_released:
  assumes "token_client T" "esc_reach T self (s, w)" "x_escrows s k = Some e" "e_status e = ESReleased"
  shows "\<exists>r s'. monitor_escrow_invariants env k s = Inr (r, s') \<and>
    \<not> ir_funds_conserved r \<and> 1 \<le> ir_violation_count r"
proof -
  have "sys_ok s" using token_client.reach_inv [OF assms(1,2)] by simp
  then have ok: "rec_ok k e" using store_ok_rec [OF _ assms(3)] by (simp add: sys_ok_def)
  then have "0 < e_platform_fee e + e_net_amount e" "e_amount e = 0"
    using assms(4) by (auto simp: rec_ok_def)
  then have "e_amount e < sat_i128 (e_platform_fee e + e_net_amount e)"
    by (auto simp: sat_i128_def i128_min_def i128_max_def)
  then show ?thesis using assms(3) by (simp add: monitor_escrow_invariants_def Let_def)
qed

lemma demo_released:
  "\<exists>s w fee. esc_reach mnt_ops 0 (s, w) \<and> x_escrows s 1 = Some (released_rec fee demo_rec)"
proof -
  from demo_release obtain s' w' where
    r: "release_funds mnt_ops quiet_peers (demo_env 5000 [2]) 2 1 (demo_s2, demo_w2) = Inr ((), s', w')" by blast
  then have c: "esc_exec mnt_ops quiet_peers (demo_env 5000 [2]) (Life (CRelease 2 1)) (demo_s2, demo_w2) = Inr (s', w')"
    by (simp add: drop_value_def)
  have "esc_reach mnt_ops 0 (s', w')"
    by (rule esc_reach.step [OF demo_reach2 esc_step.call [OF _ _ c]]) (simp_all add: demo_env_external)
  moreover obtain fee where "x_escrows s' 1 = Some (released_rec fee demo_rec)"
    using token_client.release_funds_inv [OF token_client_mnt r demo_store_ok(1)] by (auto simp: demo_s2_def)
  ultimately show ?thesis by blast
qed

lemma monitor_flags_released_witness:
  "\<exists>s w r s'. esc_reach mnt_ops 0 (s, w) \<and>
     monitor_escrow_invariants (demo_env 6000 []) 1 s = Inr (r, s') \<and> \<not> ir_funds_conserved r"
proof -
  from demo_released obtain s w fee where r: "esc_reach mnt_ops 0 (s, w)"
    and e: "x_escrows s 1 = Some (released_rec fee demo_rec)" by blast
  have "e_status (released_rec fee demo_rec) = ESReleased" by (simp add: released_rec_def)
  from monitor_flags_released [OF token_client_mnt r e this, of "demo_env 6000 []"] r show ?thesis by blast
qed

end
