(* ===== verification/Multisig.thy ===== *)
theory Multisig
  imports Recovery
begin

text \<open>
  The multisig admin contract, \<open>contracts/multisig_admin/src/lib.rs\<close>: proposals with a
  threshold of signers, self-administration, the emergency signers with their snapshots and
  rollbacks, the two-step admin transfer. A call to another contract is the parameter \<open>I\<close>
  acting on the rest of the world \<open>'w\<close>; the host forbids that it re-enters this contract.

  Not modelled: the justice-oversight audits, key management and intent scoring, which store
  records under their own keys that no function here reads.
\<close>

section \<open>State\<close>

datatype msig_error =
    MsAlreadyInitialized | MsNotInitialized | MsNotAdmin | MsNotSigner | MsAlreadySigner
  | MsProposalNotFound | MsAlreadySigned | MsBelowThreshold | MsAlreadyExecuted | MsCancelled
  | MsExpired | MsInvalidThreshold | MsInvalidEmergencySignatures | MsInvalidEmergencySigner
  | MsProposalArgsTampered

record proposal_record =
  pr_id :: nat
  pr_proposer :: addr
  pr_target :: addr
  pr_function :: symbol
  pr_args :: "val list"
  pr_approvals :: nat
  pr_expiry :: nat
  pr_executed :: bool
  pr_cancelled :: bool

record gov_config =
  gc_threshold :: nat
  gc_signer_count :: nat
  gc_proposal_count :: nat

record msig =
  ms_threshold :: "nat option"
  ms_signer_count :: "nat option"
  ms_proposal_count :: "nat option"
  ms_active :: "nat option"
  ms_signer :: "addr \<rightharpoonup> bool"
  ms_proposal :: "nat \<rightharpoonup> proposal_record"
  ms_checksum :: "nat \<rightharpoonup> hash32"
  ms_approval :: "nat \<times> addr \<rightharpoonup> bool"
  ms_snapshot :: "nat \<rightharpoonup> gov_config"
  ms_snapshot_meta :: "nat \<rightharpoonup> snapshot_meta"
  ms_snapshot_index :: "nat list option"
  ms_emergency :: "addr list option"
  ms_rollback :: "nat \<rightharpoonup> rollback_proposal"
  ms_rollback_approval :: "nat \<times> addr \<rightharpoonup> bool"
  ms_rollback_count :: "nat option"
  ms_pending :: "admin_transfer option"
  ms_wasm :: "hash32 option"

definition msig_empty :: msig where
  "msig_empty = \<lparr>ms_threshold = None, ms_signer_count = None, ms_proposal_count = None,
     ms_active = None, ms_signer = Map.empty, ms_proposal = Map.empty, ms_checksum = Map.empty,
     ms_approval = Map.empty, ms_snapshot = Map.empty, ms_snapshot_meta = Map.empty,
     ms_snapshot_index = None, ms_emergency = None, ms_rollback = Map.empty,
     ms_rollback_approval = Map.empty, ms_rollback_count = None, ms_pending = None, ms_wasm = None\<rparr>"

definition EXPIRY_SECONDS :: nat where "EXPIRY_SECONDS = 7 * 24 * 60 * 60"

type_synonym 'a msig_res = "msig_error fail + 'a"

definition msig_is_signer :: "addr \<Rightarrow> msig \<Rightarrow> bool" where
  "msig_is_signer a s = get_or False (ms_signer s a)"

definition msig_initialized :: "msig \<Rightarrow> 'a msig_res \<Rightarrow> 'a msig_res" where
  "msig_initialized s k = ensure (ms_threshold s \<noteq> None) (Err MsNotInitialized) k"


section \<open>Proposals\<close>

text \<open>The loop of \<open>initialize\<close> over the signers.\<close>

fun register_signers :: "addr list \<Rightarrow> msig \<Rightarrow> msig msig_res" where
  "register_signers [] s = Inr s"
| "register_signers (a # as) s =
    ensure (ms_signer s a = None) (Err MsAlreadySigner)
      (register_signers as (s\<lparr>ms_signer := (ms_signer s)(a \<mapsto> True)\<rparr>))"

definition msig_initialize :: "addr list \<Rightarrow> nat \<Rightarrow> msig \<Rightarrow> msig msig_res" where
  "msig_initialize signers threshold s =
    ensure (ms_threshold s = None) (Err MsAlreadyInitialized) (
    ensure (\<not> (signers = [] \<or> threshold = 0)) (Err MsInvalidThreshold) (
    ensure (\<not> length signers < threshold) (Err MsInvalidThreshold) (
    rbind (register_signers signers s) (\<lambda>s1.
    Inr (s1\<lparr>ms_threshold := Some threshold, ms_signer_count := Some (length signers),
             ms_proposal_count := Some 0, ms_active := Some 0\<rparr>)))))"

definition msig_propose_action ::
    "env \<Rightarrow> addr \<Rightarrow> addr \<Rightarrow> symbol \<Rightarrow> val list \<Rightarrow> msig \<Rightarrow> (nat \<times> msig) msig_res" where
  "msig_propose_action env proposer target function args s =
    msig_initialized s (
    ensure (msig_is_signer proposer s) (Err MsNotSigner) (
    ensure (auth_by env proposer) AuthDenied (
    let args_checksum = sha env [XVals args]; count = get_or 0 (ms_proposal_count s) in
    expect (checked_u32 (count + 1)) (Panic ''proposal count overflow'') (\<lambda>new_id.
    let active_count = get_or 0 (ms_active s) in
    expect (checked_u32 (active_count + 1)) (Panic ''active proposal count overflow'') (\<lambda>new_active.
    expect (checked_u64 (ledger_ts env + EXPIRY_SECONDS)) (Panic ''expiry overflow'') (\<lambda>expiry.
    let proposal = \<lparr>pr_id = new_id, pr_proposer = proposer, pr_target = target,
                    pr_function = function, pr_args = args, pr_approvals = 1, pr_expiry = expiry,
                    pr_executed = False, pr_cancelled = False\<rparr>
    in Inr (new_id, s\<lparr>ms_proposal_count := Some new_id, ms_active := Some new_active,
                      ms_proposal := (ms_proposal s)(new_id \<mapsto> proposal),
                      ms_checksum := (ms_checksum s)(new_id \<mapsto> args_checksum),
                      ms_approval := (ms_approval s)((new_id, proposer) \<mapsto> True)\<rparr>)))))))"

definition msig_sign_action :: "env \<Rightarrow> addr \<Rightarrow> nat \<Rightarrow> msig \<Rightarrow> msig msig_res" where
  "msig_sign_action env signer action_id s =
    msig_initialized s (
    ensure (msig_is_signer signer s) (Err MsNotSigner) (
    expect (ms_proposal s action_id) (Err MsProposalNotFound) (\<lambda>proposal.
    ensure (\<not> pr_executed proposal) (Err MsAlreadyExecuted) (
    ensure (\<not> pr_cancelled proposal) (Err MsCancelled) (
    ensure (\<not> pr_expiry proposal < ledger_ts env) (Err MsExpired) (
    ensure (\<not> get_or False (ms_approval s (action_id, signer))) (Err MsAlreadySigned) (
    ensure (auth_by env signer) AuthDenied (
    expect (checked_u32 (pr_approvals proposal + 1)) (Panic ''approval count overflow'') (\<lambda>n.
    Inr (s\<lparr>ms_approval := (ms_approval s)((action_id, signer) \<mapsto> True),
            ms_proposal := (ms_proposal s)(action_id \<mapsto> proposal\<lparr>pr_approvals := n\<rparr>)\<rparr>))))))))))"

definition apply_add_signer :: "addr \<Rightarrow> msig \<Rightarrow> msig msig_res" where
  "apply_add_signer new_signer s =
    ensure (\<not> msig_is_signer new_signer s) (Err MsAlreadySigner) (
    expect (checked_u32 (get_or 0 (ms_signer_count s) + 1)) (Panic ''Signer count overflow'') (\<lambda>n.
    Inr (s\<lparr>ms_signer := (ms_signer s)(new_signer \<mapsto> True), ms_signer_count := Some n\<rparr>)))"

definition apply_remove_signer :: "addr \<Rightarrow> msig \<Rightarrow> msig msig_res" where
  "apply_remove_signer signer s =
    ensure (msig_is_signer signer s) (Err MsNotSigner) (
    let count = get_or 0 (ms_signer_count s); threshold = get_or 0 (ms_threshold s) in
    ensure (1 \<le> count) (Panic ''Signer count underflow'') (
    let new_count = count - 1 in
    ensure (\<not> new_count < threshold) (Err MsInvalidThreshold) (
    Inr (s\<lparr>ms_signer := (ms_signer s)(signer := None), ms_signer_count := Some new_count\<rparr>))))"

definition apply_update_threshold :: "nat \<Rightarrow> msig \<Rightarrow> msig msig_res" where
  "apply_update_threshold new_threshold s =
    ensure (new_threshold \<noteq> 0) (Err MsInvalidThreshold) (
    ensure (\<not> get_or 0 (ms_signer_count s) < new_threshold) (Err MsInvalidThreshold) (
    Inr (s\<lparr>ms_threshold := Some new_threshold\<rparr>)))"

text \<open>\<open>args.get(0)\<close> converted to the type of the parameter.\<close>

definition first_addr :: "val list \<Rightarrow> (addr \<Rightarrow> 'a msig_res) \<Rightarrow> 'a msig_res" where
  "first_addr args k = (case args of VAddr a # _ \<Rightarrow> k a | _ \<Rightarrow> Inl (Err MsProposalNotFound))"

definition first_u32 :: "val list \<Rightarrow> (nat \<Rightarrow> 'a msig_res) \<Rightarrow> 'a msig_res" where
  "first_u32 args k = (case args of VU32 n # _ \<Rightarrow> k n | _ \<Rightarrow> Inl (Err MsProposalNotFound))"

definition msig_self_call :: "symbol \<Rightarrow> val list \<Rightarrow> msig \<Rightarrow> msig msig_res" where
  "msig_self_call function args s =
    (if function = ''add_signer'' then first_addr args (\<lambda>a. apply_add_signer a s)
     else if function = ''remove_signer'' then first_addr args (\<lambda>a. apply_remove_signer a s)
     else if function = ''update_threshold'' then first_u32 args (\<lambda>n. apply_update_threshold n s)
     else Inl (Err MsProposalNotFound))"

type_synonym 'w invoke = "env \<Rightarrow> addr \<Rightarrow> symbol \<Rightarrow> val list \<Rightarrow> 'w \<Rightarrow> unit fail + 'w"

definition msig_execute_action ::
    "'w invoke \<Rightarrow> env \<Rightarrow> nat \<Rightarrow> msig \<times> 'w \<Rightarrow> (msig \<times> 'w) msig_res" where
  "msig_execute_action I env action_id sw =
    (let (s, w) = sw in
    msig_initialized s (
    expect (ms_proposal s action_id) (Err MsProposalNotFound) (\<lambda>proposal.
    ensure (\<not> pr_executed proposal) (Err MsAlreadyExecuted) (
    ensure (\<not> pr_cancelled proposal) (Err MsCancelled) (
    ensure (\<not> pr_expiry proposal < ledger_ts env) (Err MsExpired) (
    expect (ms_threshold s) (Panic ''unwrap'') (\<lambda>threshold.
    ensure (\<not> pr_approvals proposal < threshold) (Err MsBelowThreshold) (
    expect (ms_checksum s action_id) (Err MsProposalArgsTampered) (\<lambda>stored_checksum.
    let computed_checksum = sha env [XVals (pr_args proposal)] in
    ensure (computed_checksum = stored_checksum) (Err MsProposalArgsTampered) (
    let s1 = s\<lparr>ms_proposal := (ms_proposal s)(action_id \<mapsto> proposal\<lparr>pr_executed := True\<rparr>)\<rparr> in
    rbind (if pr_target proposal = self_addr env
           then rbind (msig_self_call (pr_function proposal) (pr_args proposal) s1) (\<lambda>s2. Inr (s2, w))
           else rbind (call_ext (I (as_invoker env) (pr_target proposal) (pr_function proposal)
                                  (pr_args proposal) w)) (\<lambda>w2. Inr (s1, w2))) (\<lambda>(s2, w2).
    Inr (s2\<lparr>ms_active := Some (get_or 0 (ms_active s2) - 1)\<rparr>, w2))))))))))))"

definition msig_cancel_action :: "env \<Rightarrow> addr \<Rightarrow> nat \<Rightarrow> msig \<Rightarrow> msig msig_res" where
  "msig_cancel_action env caller action_id s =
    msig_initialized s (
    expect (ms_proposal s action_id) (Err MsProposalNotFound) (\<lambda>proposal.
    ensure (\<not> (pr_proposer proposal \<noteq> caller \<and> \<not> msig_is_signer caller s)) (Err MsNotSigner) (
    ensure (\<not> pr_executed proposal) (Err MsAlreadyExecuted) (
    ensure (\<not> pr_cancelled proposal) (Err MsCancelled) (
    ensure (\<not> pr_expiry proposal < ledger_ts env) (Err MsExpired) (
    ensure (auth_by env caller) AuthDenied (
    Inr (s\<lparr>ms_proposal := (ms_proposal s)(action_id \<mapsto> proposal\<lparr>pr_cancelled := True\<rparr>),
            ms_active := Some (get_or 0 (ms_active s) - 1)\<rparr>))))))))"

definition msig_get_threshold :: "msig \<Rightarrow> nat msig_res" where
  "msig_get_threshold s = expect (ms_threshold s) (Err MsNotInitialized) Inr"

definition msig_get_signer_count :: "msig \<Rightarrow> nat msig_res" where
  "msig_get_signer_count s = expect (ms_signer_count s) (Err MsNotInitialized) Inr"


section \<open>Emergency signers, snapshots and rollback\<close>

definition msig_validate_emergency_signatures :: "addr list \<Rightarrow> msig \<Rightarrow> bool msig_res" where
  "msig_validate_emergency_signatures approvals s =
    expect (ms_emergency s) (Err MsNotInitialized) (\<lambda>registered.
    ensure (validate_emergency_signatures registered approvals) (Err MsInvalidEmergencySignatures)
      (Inr True))"

definition msig_aggregate_signatures :: "env \<Rightarrow> addr \<Rightarrow> addr list \<Rightarrow> msig \<Rightarrow> addr list msig_res" where
  "msig_aggregate_signatures env signer approvals s =
    expect (ms_emergency s) (Err MsNotInitialized) (\<lambda>registered.
    ensure (is_emergency_signer registered signer) (Err MsInvalidEmergencySigner) (
    ensure (auth_by env signer) AuthDenied (
    let (approvals', _) = aggregate_signatures approvals signer in
    ensure (\<not> EMERGENCY_MSIG_THRESHOLD < length approvals') (Err MsInvalidEmergencySignatures)
      (Inr approvals'))))"

definition msig_set_emergency_signers :: "env \<Rightarrow> addr \<Rightarrow> addr list \<Rightarrow> msig \<Rightarrow> msig msig_res" where
  "msig_set_emergency_signers env caller signers s =
    msig_initialized s (
    ensure (msig_is_signer caller s) (Err MsNotSigner) (
    ensure (auth_by env caller) AuthDenied (
    ensure (is_valid_emergency_config signers EMERGENCY_MSIG_THRESHOLD) (Err MsInvalidThreshold)
      (Inr (s\<lparr>ms_emergency := Some signers\<rparr>)))))"

definition msig_snapshot_state :: "env \<Rightarrow> addr \<Rightarrow> nat \<Rightarrow> msig \<Rightarrow> msig msig_res" where
  "msig_snapshot_state env caller snapshot_id s =
    msig_initialized s (
    ensure (msig_is_signer caller s) (Err MsNotSigner) (
    ensure (auth_by env caller) AuthDenied (
    let threshold = get_or 0 (ms_threshold s); signer_count = get_or 0 (ms_signer_count s);
        proposal_count = get_or 0 (ms_proposal_count s);
        checksum = sha env [XU32 threshold, XU32 signer_count, XU32 proposal_count];
        config = \<lparr>gc_threshold = threshold, gc_signer_count = signer_count,
                  gc_proposal_count = proposal_count\<rparr>;
        index = get_or [] (ms_snapshot_index s);
        snapshot_pos = length index;
        (index', evicted) = push_snapshot_index index snapshot_id;
        s1 = (case evicted of None \<Rightarrow> s
              | Some old_id \<Rightarrow> s\<lparr>ms_snapshot := (ms_snapshot s)(old_id := None),
                                 ms_snapshot_meta := (ms_snapshot_meta s)(old_id := None)\<rparr>);
        meta = \<lparr>sn_created_at = ledger_ts env, sn_block_height = ledger_seq env, sn_version = 0,
                sn_admin = caller, sn_checksum = checksum, sn_record_count = signer_count,
                sn_index = min snapshot_pos (MAX_SNAPSHOTS - 1)\<rparr>
    in Inr (s1\<lparr>ms_snapshot_index := Some index',
               ms_snapshot := (ms_snapshot s1)(snapshot_id \<mapsto> config),
               ms_snapshot_meta := (ms_snapshot_meta s1)(snapshot_id \<mapsto> meta)\<rparr>))))"

definition msig_verify_post_upgrade_state :: "nat \<Rightarrow> msig \<Rightarrow> verification_report msig_res" where
  "msig_verify_post_upgrade_state snapshot_id s =
    expect (ms_snapshot s snapshot_id) (Err MsProposalNotFound) (\<lambda>config.
    let m1 = (if get_or 0 (ms_threshold s) \<noteq> gc_threshold config then [''Threshold mismatch''] else []);
        m2 = (if get_or 0 (ms_signer_count s) \<noteq> gc_signer_count config
              then m1 @ [''SignerCount mismatch''] else m1);
        m3 = (if get_or 0 (ms_proposal_count s) \<noteq> gc_proposal_count config
              then m2 @ [''ProposalCount mismatch''] else m2)
    in Inr \<lparr>vr_fields_checked = 3, vr_mismatches = m3\<rparr>)"

definition msig_propose_rollback ::
    "env \<Rightarrow> addr \<Rightarrow> nat \<Rightarrow> hash32 \<Rightarrow> msig \<Rightarrow> (nat \<times> msig) msig_res" where
  "msig_propose_rollback env proposer snapshot_id old_wasm_hash s =
    expect (ms_emergency s) (Err MsNotInitialized) (\<lambda>signers.
    ensure (list_ex (\<lambda>x. x = proposer) signers) (Err MsNotSigner) (
    ensure (ms_snapshot_meta s snapshot_id \<noteq> None) (Err MsProposalNotFound) (
    ensure (auth_by env proposer) AuthDenied (
    expect (checked_u32 (get_or 0 (ms_rollback_count s) + 1))
      (Panic ''Governance rollback count overflow'') (\<lambda>new_id.
    let proposal = \<lparr>rb_id = new_id, rb_snapshot = snapshot_id, rb_old_wasm = old_wasm_hash,
                    rb_count = 1, rb_executed = False, rb_created_at = ledger_ts env,
                    rb_proposer = proposer\<rparr>
    in Inr (new_id, s\<lparr>ms_rollback_count := Some new_id,
                      ms_rollback := (ms_rollback s)(new_id \<mapsto> proposal),
                      ms_rollback_approval := (ms_rollback_approval s)((new_id, proposer) \<mapsto> True)\<rparr>))))))"

definition msig_approve_rollback :: "env \<Rightarrow> addr \<Rightarrow> nat \<Rightarrow> msig \<Rightarrow> msig msig_res" where
  "msig_approve_rollback env signer proposal_id s =
    expect (ms_emergency s) (Err MsNotInitialized) (\<lambda>signers.
    ensure (list_ex (\<lambda>x. x = signer) signers) (Err MsNotSigner) (
    expect (ms_rollback s proposal_id) (Err MsProposalNotFound) (\<lambda>proposal.
    ensure (\<not> rb_executed proposal) (Err MsAlreadyExecuted) (
    ensure (\<not> get_or False (ms_rollback_approval s (proposal_id, signer))) (Err MsAlreadySigned) (
    ensure (auth_by env signer) AuthDenied (
    expect (checked_u32 (rb_count proposal + 1)) (Panic ''Approval count overflow'') (\<lambda>n.
    Inr (s\<lparr>ms_rollback_approval := (ms_rollback_approval s)((proposal_id, signer) \<mapsto> True),
            ms_rollback := (ms_rollback s)(proposal_id \<mapsto> proposal\<lparr>rb_count := n\<rparr>)\<rparr>))))))))"

text \<open>Anyone may execute; the code hash must have been uploaded, or the host traps.\<close>

definition msig_execute_rollback :: "(hash32 \<Rightarrow> bool) \<Rightarrow> nat \<Rightarrow> msig \<Rightarrow> msig msig_res" where
  "msig_execute_rollback uploaded proposal_id s =
    expect (ms_rollback s proposal_id) (Err MsProposalNotFound) (\<lambda>proposal.
    ensure (\<not> rb_executed proposal) (Err MsAlreadyExecuted) (
    ensure (\<not> rb_count proposal < EMERGENCY_THRESHOLD) (Err MsBelowThreshold) (
    expect (ms_snapshot s (rb_snapshot proposal)) (Err MsProposalNotFound) (\<lambda>config.
    ensure (uploaded (rb_old_wasm proposal)) HostError (
    Inr (s\<lparr>ms_threshold := Some (gc_threshold config),
            ms_signer_count := Some (gc_signer_count config),
            ms_proposal_count := Some (gc_proposal_count config),
            ms_wasm := Some (rb_old_wasm proposal),
            ms_rollback := (ms_rollback s)(proposal_id \<mapsto> proposal\<lparr>rb_executed := True\<rparr>)\<rparr>))))))"

definition msig_validate_rollback_evidence :: "hash32 \<Rightarrow> hash32 \<Rightarrow> unit msig_res" where
  "msig_validate_rollback_evidence evidence_hash incident_hash =
    (let justification = \<lparr>rj_evidence = evidence_hash, rj_incident = incident_hash, rj_description = 0\<rparr>
     in if validate_justification justification then Inr () else Inl (Err MsInvalidEmergencySignatures))"

definition msig_validate_rollback_scope :: "env \<Rightarrow> nat \<Rightarrow> unit msig_res" where
  "msig_validate_rollback_scope env snapshot_created_at =
    (if validate_scope_window (ledger_ts env) snapshot_created_at then Inr ()
     else Inl (Err MsInvalidEmergencySignatures))"


section \<open>Admin transfer\<close>

definition msig_propose_admin_change ::
    "env \<Rightarrow> addr \<Rightarrow> addr \<Rightarrow> msig \<Rightarrow> (admin_transfer \<times> msig) msig_res" where
  "msig_propose_admin_change env current_admin new_admin s =
    ensure (auth_by env current_admin) AuthDenied (
    ensure (ms_pending s = None) (Err MsAlreadyInitialized) (
    rbind (arith_u64 (ledger_ts env + MIN_ADMIN_TIMELOCK_SECS)) (\<lambda>effective_at.
    let transfer = \<lparr>at_new_admin = new_admin, at_effective_at = effective_at, at_status = AC_Proposed\<rparr>
    in Inr (transfer, s\<lparr>ms_pending := Some transfer\<rparr>))))"

definition msig_accept_admin_change :: "env \<Rightarrow> addr \<Rightarrow> msig \<Rightarrow> msig msig_res" where
  "msig_accept_admin_change env new_admin s =
    ensure (auth_by env new_admin) AuthDenied (
    expect (ms_pending s) (Err MsProposalNotFound) (\<lambda>transfer.
    ensure (\<not> ledger_ts env < at_effective_at transfer) (Err MsExpired) (
    ensure (at_new_admin transfer = new_admin) (Err MsNotAdmin) (
    Inr (s\<lparr>ms_pending := None\<rparr>)))))"

definition msig_cancel_admin_change :: "env \<Rightarrow> addr \<Rightarrow> msig \<Rightarrow> msig msig_res" where
  "msig_cancel_admin_change env current_admin s =
    ensure (auth_by env current_admin) AuthDenied (
    expect (ms_pending s) (Err MsProposalNotFound) (\<lambda>transfer.
    ensure (at_status transfer = AC_Proposed) (Err MsProposalNotFound) (
    Inr (s\<lparr>ms_pending := None\<rparr>))))"

end
