(* ===== verification/MultisigRules.thy ===== *)
theory MultisigRules
  imports Multisig
begin

text \<open>
  What the multisig admin contract promises over every history of its calls: the votes behind
  an executed proposal, the shape of its governance configuration, that its signers can always
  act, and what an emergency rollback does to that.
\<close>

section \<open>Histories\<close>

datatype msig_call =
    MInit "addr list" nat
  | MPropose addr addr symbol "val list"
  | MSign addr nat
  | MExecute nat
  | MCancel addr nat
  | MSetEmergency addr "addr list"
  | MSnapshot addr nat
  | MProposeRollback addr nat hash32
  | MApproveRollback addr nat
  | MExecuteRollback nat
  | MProposeAdmin addr addr
  | MAcceptAdmin addr
  | MCancelAdmin addr

definition with_world :: "'w \<Rightarrow> msig msig_res \<Rightarrow> (msig \<times> 'w) msig_res" where
  "with_world w r = rbind r (\<lambda>s. Inr (s, w))"

lemma with_world_Inr [res_simps]: "with_world w r = Inr (s, w') \<longleftrightarrow> r = Inr s \<and> w' = w"
  by (auto simp: with_world_def res_simps)

lemma with_world_simps [simp]:
  "with_world w (Inr s) = Inr (s, w)" "with_world w (Inl e) = Inl e"
  by (simp_all add: with_world_def)

fun msig_exec ::
    "'w invoke \<Rightarrow> (hash32 \<Rightarrow> bool) \<Rightarrow> env \<Rightarrow> msig_call \<Rightarrow> msig \<times> 'w \<Rightarrow> (msig \<times> 'w) msig_res" where
  "msig_exec I up env (MInit as t) (s, w) = with_world w (msig_initialize as t s)"
| "msig_exec I up env (MPropose a x f vs) (s, w) =
     with_world w (rbind (msig_propose_action env a x f vs s) (\<lambda>(_, s'). Inr s'))"
| "msig_exec I up env (MSign a i) (s, w) = with_world w (msig_sign_action env a i s)"
| "msig_exec I up env (MExecute i) (s, w) = msig_execute_action I env i (s, w)"
| "msig_exec I up env (MCancel a i) (s, w) = with_world w (msig_cancel_action env a i s)"
| "msig_exec I up env (MSetEmergency a as) (s, w) = with_world w (msig_set_emergency_signers env a as s)"
| "msig_exec I up env (MSnapshot a i) (s, w) = with_world w (msig_snapshot_state env a i s)"
| "msig_exec I up env (MProposeRollback a i h) (s, w) =
     with_world w (rbind (msig_propose_rollback env a i h s) (\<lambda>(_, s'). Inr s'))"
| "msig_exec I up env (MApproveRollback a i) (s, w) = with_world w (msig_approve_rollback env a i s)"
| "msig_exec I up env (MExecuteRollback i) (s, w) = with_world w (msig_execute_rollback up i s)"
| "msig_exec I up env (MProposeAdmin a b) (s, w) =
     with_world w (rbind (msig_propose_admin_change env a b s) (\<lambda>(_, s'). Inr s'))"
| "msig_exec I up env (MAcceptAdmin a) (s, w) = with_world w (msig_accept_admin_change env a s)"
| "msig_exec I up env (MCancelAdmin a) (s, w) = with_world w (msig_cancel_admin_change env a s)"

text \<open>
  A history lists the accepted calls, the latest first, each with its environment and the
  contract's state before it. Between the calls the rest of the world changes freely.
\<close>

type_synonym msig_entry = "env \<times> msig \<times> msig_call"

inductive msig_hist ::
    "'w invoke \<Rightarrow> (hash32 \<Rightarrow> bool) \<Rightarrow> msig_entry list \<Rightarrow> msig \<Rightarrow> 'w \<Rightarrow> bool"
  for I :: "'w invoke" and up :: "hash32 \<Rightarrow> bool" where
  hist_empty: "msig_hist I up [] msig_empty w"
| hist_call: "msig_hist I up h s w \<Longrightarrow> msig_exec I up env c (s, w) = Inr (s', w') \<Longrightarrow>
     msig_hist I up ((env, s, c) # h) s' w'"
| hist_world: "msig_hist I up h s w \<Longrightarrow> msig_hist I up h s w'"

inductive_cases msig_hist_ConsE: "msig_hist I up (e # h) s w"

text \<open>The signers who voted for proposal \<open>i\<close> since the proposal of that number was made.\<close>

fun ballot :: "msig_entry list \<Rightarrow> nat \<Rightarrow> addr list" where
  "ballot [] i = []"
| "ballot ((env, s, MPropose a x f vs) # h) i =
     (if i = get_or 0 (ms_proposal_count s) + 1 then [a] else ballot h i)"
| "ballot ((env, s, MSign a j) # h) i = (if i = j then a # ballot h i else ballot h i)"
| "ballot (_ # h) i = ballot h i"

definition voted :: "msig_entry \<Rightarrow> nat \<Rightarrow> addr \<Rightarrow> bool" where
  "voted e i a = (case e of (env, s, c) \<Rightarrow> auth_by env a \<and> msig_is_signer a s \<and>
     (case c of MPropose b x f vs \<Rightarrow> b = a \<and> i = get_or 0 (ms_proposal_count s) + 1
      | MSign b j \<Rightarrow> b = a \<and> i = j | _ \<Rightarrow> False))"

definition rolled_back :: "msig_entry list \<Rightarrow> bool" where
  "rolled_back h = list_ex (\<lambda>(env, s, c). case c of MExecuteRollback i \<Rightarrow> True | _ \<Rightarrow> False) h"

lemma rolled_back_simps [simp]:
  "\<not> rolled_back []"
  "rolled_back ((env, s, c) # h) \<longleftrightarrow> (\<exists>i. c = MExecuteRollback i) \<or> rolled_back h"
  by (auto simp: rolled_back_def split: msig_call.splits)


section \<open>Inversion of the operations\<close>

lemmas msig_ops =
  msig_initialize_def msig_propose_action_def msig_sign_action_def msig_cancel_action_def
  msig_set_emergency_signers_def msig_propose_rollback_def
  msig_approve_rollback_def msig_execute_rollback_def msig_propose_admin_change_def
  msig_accept_admin_change_def msig_cancel_admin_change_def
  msig_initialized_def Let_def

lemmas self_ops =
  msig_self_call_def first_addr_def first_u32_def apply_add_signer_def apply_remove_signer_def
  apply_update_threshold_def Let_def

lemma propose_Inr:
  assumes "msig_propose_action env a x f vs s = Inr (i, s')"
  shows "i = get_or 0 (ms_proposal_count s) + 1" "msig_is_signer a s" "auth_by env a"
    "ms_threshold s \<noteq> None"
    "s' = s\<lparr>ms_proposal_count := Some i, ms_active := Some (get_or 0 (ms_active s) + 1),
       ms_proposal := (ms_proposal s)(i \<mapsto> \<lparr>pr_id = i, pr_proposer = a, pr_target = x,
         pr_function = f, pr_args = vs, pr_approvals = 1, pr_expiry = ledger_ts env + EXPIRY_SECONDS,
         pr_executed = False, pr_cancelled = False\<rparr>),
       ms_checksum := (ms_checksum s)(i \<mapsto> sha env [XVals vs]),
       ms_approval := (ms_approval s)((i, a) \<mapsto> True)\<rparr>"
  using assms by (auto simp: msig_ops res_simps)

lemma register_signers_Inr:
  "register_signers as s = Inr s' \<Longrightarrow>
     distinct as \<and> (\<forall>a \<in> set as. ms_signer s a = None) \<and>
     s' = s\<lparr>ms_signer := (\<lambda>a. if a \<in> set as then Some True else ms_signer s a)\<rparr>"
proof (induction as arbitrary: s)
  case (Cons a as)
  then have none: "ms_signer s a = None"
    and reg: "register_signers as (s\<lparr>ms_signer := (ms_signer s)(a \<mapsto> True)\<rparr>) = Inr s'"
    by (auto simp: res_simps)
  from Cons.IH [OF reg] none show ?case
    by (auto simp: fun_eq_iff intro!: msig.equality split: if_splits)
qed simp

text \<open>The three outcomes of a self-administration.\<close>

lemma msig_self_call_cases:
  assumes "msig_self_call f vs s = Inr s'"
  obtains (add) a where "\<not> msig_is_signer a s" "get_or 0 (ms_signer_count s) + 1 \<le> u32_max"
      "s' = s\<lparr>ms_signer := (ms_signer s)(a \<mapsto> True),
              ms_signer_count := Some (get_or 0 (ms_signer_count s) + 1)\<rparr>"
  | (remove) a where "msig_is_signer a s" "1 \<le> get_or 0 (ms_signer_count s)"
      "get_or 0 (ms_threshold s) \<le> get_or 0 (ms_signer_count s) - 1"
      "s' = s\<lparr>ms_signer := (ms_signer s)(a := None),
              ms_signer_count := Some (get_or 0 (ms_signer_count s) - 1)\<rparr>"
  | (threshold) t where "t \<noteq> 0" "t \<le> get_or 0 (ms_signer_count s)"
      "s' = s\<lparr>ms_threshold := Some t\<rparr>"
  using assms
  by (auto simp: self_ops res_simps not_less split: if_splits list.splits val.splits)

lemma msig_execute_cases:
  assumes "msig_execute_action I env i (s, w) = Inr (s', w')"
  obtains (self) p t s2 where "ms_proposal s i = Some p" "ms_threshold s = Some t"
      "\<not> pr_executed p" "\<not> pr_cancelled p" "ledger_ts env \<le> pr_expiry p" "t \<le> pr_approvals p"
      "msig_self_call (pr_function p) (pr_args p)
         (s\<lparr>ms_proposal := (ms_proposal s)(i \<mapsto> p\<lparr>pr_executed := True\<rparr>)\<rparr>) = Inr s2"
      "s' = s2\<lparr>ms_active := Some (get_or 0 (ms_active s2) - 1)\<rparr>"
  | (ext) p t where "ms_proposal s i = Some p" "ms_threshold s = Some t"
      "\<not> pr_executed p" "\<not> pr_cancelled p" "ledger_ts env \<le> pr_expiry p" "t \<le> pr_approvals p"
      "I (as_invoker env) (pr_target p) (pr_function p) (pr_args p) w = Inr w'"
      "s' = s\<lparr>ms_proposal := (ms_proposal s)(i \<mapsto> p\<lparr>pr_executed := True\<rparr>),
              ms_active := Some (get_or 0 (ms_active s) - 1)\<rparr>"
  using assms
  unfolding msig_execute_action_def msig_initialized_def Let_def prod.case res_simps split_paired_Ex
  by (force simp: res_simps not_less split: if_splits)


text \<open>Both ways of dispatching an executed proposal in one rule.\<close>

lemma msig_execute_dispatch:
  assumes "msig_execute_action I env i (s, w) = Inr (s', w')"
  obtains p t s1 s2 where "ms_proposal s i = Some p" "ms_threshold s = Some t" "t \<le> pr_approvals p"
    "\<not> pr_executed p" "\<not> pr_cancelled p" "ledger_ts env \<le> pr_expiry p"
    "s1 = s\<lparr>ms_proposal := (ms_proposal s)(i \<mapsto> p\<lparr>pr_executed := True\<rparr>)\<rparr>"
    "if pr_target p = self_addr env then w' = w \<and> msig_self_call (pr_function p) (pr_args p) s1 = Inr s2
     else I (as_invoker env) (pr_target p) (pr_function p) (pr_args p) w = Inr w' \<and> s2 = s1"
    "s' = s2\<lparr>ms_active := Some (get_or 0 (ms_active s2) - 1)\<rparr>"
  using assms
  unfolding msig_execute_action_def msig_initialized_def Let_def prod.case res_simps split_paired_Ex
  by (cases "pr_target (the (ms_proposal s i)) = self_addr env") (force simp: res_simps not_less)+


section \<open>The governance configuration\<close>

text \<open>
  The recorded threshold is between one and the recorded number of signers, in the running
  configuration and in every snapshot a rollback could restore.
\<close>

definition gov_ok :: "msig \<Rightarrow> bool" where
  "gov_ok s \<longleftrightarrow>
     (\<forall>t. ms_threshold s = Some t \<longrightarrow> (\<exists>n. ms_signer_count s = Some n \<and> 1 \<le> t \<and> t \<le> n)) \<and>
     (\<forall>k c. ms_snapshot s k = Some c \<longrightarrow> 1 \<le> gc_threshold c \<and> gc_threshold c \<le> gc_signer_count c)"

lemma gov_ok_cong:
  "ms_threshold s' = ms_threshold s \<Longrightarrow> ms_signer_count s' = ms_signer_count s \<Longrightarrow>
   ms_snapshot s' = ms_snapshot s \<Longrightarrow> gov_ok s' \<longleftrightarrow> gov_ok s"
  by (simp add: gov_ok_def)

lemma self_call_gov:
  assumes "msig_self_call f vs s = Inr s'" "gov_ok s" "ms_threshold s = Some t"
  shows "gov_ok s'"
  using assms(1)
  by (cases rule: msig_self_call_cases) (use assms(2,3) in \<open>auto simp: gov_ok_def\<close>)

lemma execute_gov:
  assumes "msig_execute_action I env i (s, w) = Inr (s', w')" "gov_ok s"
  shows "gov_ok s'"
  using assms(1)
proof (cases rule: msig_execute_cases)
  case (self p t s2)
  let ?s1 = "s\<lparr>ms_proposal := (ms_proposal s)(i \<mapsto> p\<lparr>pr_executed := True\<rparr>)\<rparr>"
  have "gov_ok ?s1" using assms(2) by (simp add: gov_ok_def)
  with self(7) have "gov_ok s2" by (rule self_call_gov) (simp add: self(2))
  then show ?thesis unfolding self(8) by (simp add: gov_ok_def)
next
  case (ext p t)
  show ?thesis unfolding ext(8) using assms(2) by (simp add: gov_ok_def)
qed

definition gov_config_of :: "msig \<Rightarrow> gov_config" where
  "gov_config_of s = \<lparr>gc_threshold = get_or 0 (ms_threshold s),
     gc_signer_count = get_or 0 (ms_signer_count s),
     gc_proposal_count = get_or 0 (ms_proposal_count s)\<rparr>"

lemma snapshot_Inr:
  assumes "msig_snapshot_state env a k s = Inr s'"
  obtains S M x where "msig_is_signer a s" "auth_by env a" "ms_threshold s \<noteq> None"
    "\<And>j c. S j = Some c \<Longrightarrow> ms_snapshot s j = Some c"
    "s' = s\<lparr>ms_snapshot := S(k \<mapsto> gov_config_of s), ms_snapshot_meta := M, ms_snapshot_index := x\<rparr>"
proof (cases "snd (push_snapshot_index (get_or [] (ms_snapshot_index s)) k)")
  case None
  with assms show ?thesis
    unfolding msig_snapshot_state_def msig_initialized_def Let_def case_prod_unfold res_simps
    by (intro that [of "ms_snapshot s" "ms_snapshot_index s'" "ms_snapshot_meta s'"])
      (auto simp: gov_config_of_def intro!: msig.equality)
next
  case (Some j)
  with assms show ?thesis
    unfolding msig_snapshot_state_def msig_initialized_def Let_def case_prod_unfold res_simps
    by (intro that [of "(ms_snapshot s)(j := None)" "ms_snapshot_index s'" "ms_snapshot_meta s'"])
      (auto simp: gov_config_of_def intro!: msig.equality split: if_splits)
qed

lemma exec_gov:
  assumes "msig_exec I up env c (s, w) = Inr (s', w')" "gov_ok s"
  shows "gov_ok s'"
proof (cases c)
  case (MInit as t)
  with assms show ?thesis
    by (fastforce simp: msig_ops res_simps gov_ok_def dest!: register_signers_Inr)
next
  case (MExecute i)
  with assms show ?thesis using execute_gov by fastforce
next
  case (MSnapshot a k)
  with assms(1) have "msig_snapshot_state env a k s = Inr s'" by (simp add: res_simps)
  then show ?thesis
  proof (rule snapshot_Inr)
    fix S M x
    assume s': "s' = s\<lparr>ms_snapshot := S(k \<mapsto> gov_config_of s), ms_snapshot_meta := M,
                       ms_snapshot_index := x\<rparr>"
      and old: "\<And>j c. S j = Some c \<Longrightarrow> ms_snapshot s j = Some c" and init: "ms_threshold s \<noteq> None"
    from init assms(2) have "1 \<le> gc_threshold (gov_config_of s) \<and>
        gc_threshold (gov_config_of s) \<le> gc_signer_count (gov_config_of s)"
      by (auto simp: gov_ok_def gov_config_of_def)
    with assms(2) show "gov_ok s'" by (auto simp: s' gov_ok_def dest!: old)
  qed
next
  case (MExecuteRollback i)
  with assms show ?thesis by (auto simp: msig_ops res_simps gov_ok_def)
qed (use assms in \<open>auto simp: msig_ops res_simps gov_ok_def\<close>)

lemma hist_gov: "msig_hist I up h s w \<Longrightarrow> gov_ok s"
proof (induction rule: msig_hist.induct)
  case (hist_empty w)
  then show ?case by (simp add: gov_ok_def msig_empty_def)
qed (auto intro: exec_gov)


section \<open>The votes behind a proposal\<close>

text \<open>What the last proposal of number \<open>i\<close> asked for.\<close>

fun motion :: "msig_entry list \<Rightarrow> nat \<Rightarrow> (addr \<times> addr \<times> symbol \<times> val list) option" where
  "motion [] i = None"
| "motion ((env, s, MPropose a x f vs) # h) i =
     (if i = get_or 0 (ms_proposal_count s) + 1 then Some (a, x, f, vs) else motion h i)"
| "motion (_ # h) i = motion h i"

definition votes_ok :: "msig_entry list \<Rightarrow> msig \<Rightarrow> bool" where
  "votes_ok h s \<longleftrightarrow> (\<forall>i p. ms_proposal s i = Some p \<longrightarrow>
     pr_approvals p = length (ballot h i) \<and> distinct (ballot h i) \<and>
     (\<forall>a \<in> set (ballot h i). ms_approval s (i, a) = Some True) \<and>
     motion h i = Some (pr_proposer p, pr_target p, pr_function p, pr_args p))"

lemma self_call_frame:
  assumes "msig_self_call f vs s = Inr s'"
  shows "ms_proposal s' = ms_proposal s" "ms_approval s' = ms_approval s"
    "ms_proposal_count s' = ms_proposal_count s" "ms_active s' = ms_active s"
    "ms_emergency s' = ms_emergency s" "ms_snapshot s' = ms_snapshot s"
  using assms by (auto elim: msig_self_call_cases)

lemma execute_frame:
  assumes "msig_execute_action I env i (s, w) = Inr (s', w')"
  obtains p where "ms_proposal s i = Some p" "\<not> pr_executed p" "\<not> pr_cancelled p"
    "ms_proposal s' = (ms_proposal s)(i \<mapsto> p\<lparr>pr_executed := True\<rparr>)"
    "ms_approval s' = ms_approval s" "ms_proposal_count s' = ms_proposal_count s"
    "ms_active s' = Some (get_or 0 (ms_active s) - 1)"
  using assms
proof (cases rule: msig_execute_cases)
  case (self p t s2)
  from self_call_frame [OF self(7)] self that show thesis by simp
qed (use that in simp)

lemma votes_frame:
  assumes "votes_ok h s" "ms_proposal s' = ms_proposal s" "ms_approval s' = ms_approval s"
    "\<And>i. ballot h' i = ballot h i" "\<And>i. motion h' i = motion h i"
  shows "votes_ok h' s'"
  using assms by (simp add: votes_ok_def)

lemma exec_votes:
  assumes "msig_exec I up env c (s, w) = Inr (s', w')" "votes_ok h s"
  shows "votes_ok ((env, s, c) # h) s'"
proof (cases c)
  case (MInit as t)
  with assms show ?thesis
    by (fastforce simp: msig_ops res_simps votes_ok_def dest!: register_signers_Inr)
next
  case (MPropose a x f vs)
  with assms show ?thesis by (auto simp: msig_ops res_simps votes_ok_def)
next
  case (MSign a i)
  with assms(1) obtain p n where p: "ms_proposal s i = Some p"
      and a: "\<not> get_or False (ms_approval s (i, a))"
      and s': "s' = s\<lparr>ms_approval := (ms_approval s)((i, a) \<mapsto> True),
                     ms_proposal := (ms_proposal s)(i \<mapsto> p\<lparr>pr_approvals := pr_approvals p + 1\<rparr>)\<rparr>"
    by (auto simp: msig_ops res_simps)
  have "a \<notin> set (ballot h i)" using assms(2) p a by (auto simp: votes_ok_def)
  with assms(2) p s' MSign show ?thesis by (auto simp: votes_ok_def)
next
  case (MExecute i)
  with assms(1) have "msig_execute_action I env i (s, w) = Inr (s', w')" by simp
  then show ?thesis
    by (rule execute_frame) (use assms(2) MExecute in \<open>auto simp: votes_ok_def\<close>)
next
  case (MCancel a i)
  with assms show ?thesis by (auto simp: msig_ops res_simps votes_ok_def split: if_splits)
next
  case (MSnapshot a k)
  with assms(1) have "msig_snapshot_state env a k s = Inr s'" by (simp add: res_simps)
  then show ?thesis
    by (rule snapshot_Inr) (use MSnapshot in \<open>auto intro!: votes_frame [OF assms(2)]\<close>)
qed (rule votes_frame [OF assms(2)]; use assms(1) in \<open>auto simp: msig_ops res_simps\<close>)+

lemma hist_votes: "msig_hist I up h s w \<Longrightarrow> votes_ok h s"
proof (induction rule: msig_hist.induct)
  case (hist_empty w)
  then show ?case by (simp add: votes_ok_def msig_empty_def)
qed (auto intro: exec_votes)

lemma hist_voters:
  assumes "msig_hist I up h s w" "a \<in> set (ballot h i)"
  shows "\<exists>e \<in> set h. voted e i a"
  using assms
proof (induction arbitrary: i rule: msig_hist.induct)
  case (hist_call h s w env c s' w')
  have new: "voted (env, s, c) i b"
    if "c = MSign b i \<or> (\<exists>x f vs. c = MPropose b x f vs \<and> i = get_or 0 (ms_proposal_count s) + 1)" for b
    using hist_call(2) that by (auto simp: voted_def msig_ops res_simps)
  show ?case
  proof (cases "a \<in> set (ballot h i)")
    case True
    with hist_call(3) show ?thesis by auto
  next
    case False
    with hist_call(4) have "c = MSign a i \<or>
        (\<exists>x f vs. c = MPropose a x f vs \<and> i = get_or 0 (ms_proposal_count s) + 1)"
      by (cases c) (auto split: if_splits)
    with new [of a] show ?thesis by auto
  qed
qed auto


section \<open>Signers and open proposals, as long as no rollback was executed\<close>

definition signers_of :: "msig \<Rightarrow> addr set" where
  "signers_of s = {a. msig_is_signer a s}"

definition open_ids :: "msig \<Rightarrow> nat set" where
  "open_ids s = {i. \<exists>p. ms_proposal s i = Some p \<and> \<not> pr_executed p \<and> \<not> pr_cancelled p}"

definition signers_ok :: "msig \<Rightarrow> bool" where
  "signers_ok s \<longleftrightarrow> finite (signers_of s) \<and> (\<forall>a. ms_signer s a \<noteq> Some False) \<and>
     (case ms_threshold s of
        None \<Rightarrow> signers_of s = {} \<and> ms_proposal s = Map.empty \<and> ms_approval s = Map.empty
      | Some t \<Rightarrow> ms_signer_count s = Some (card (signers_of s)))"

definition tally_ok :: "msig \<Rightarrow> bool" where
  "tally_ok s \<longleftrightarrow>
     (\<forall>i. ms_proposal s i \<noteq> None \<longrightarrow> i \<le> get_or 0 (ms_proposal_count s)) \<and>
     (\<forall>i a. ms_approval s (i, a) \<noteq> None \<longrightarrow> i \<le> get_or 0 (ms_proposal_count s)) \<and>
     (ms_threshold s \<noteq> None \<longrightarrow> ms_active s = Some (card (open_ids s)))"

lemma tally_le:
  assumes "tally_ok s"
  shows "ms_proposal s i = Some p \<Longrightarrow> i \<le> get_or 0 (ms_proposal_count s)"
    "ms_approval s (i, a) = Some y \<Longrightarrow> i \<le> get_or 0 (ms_proposal_count s)"
  using assms unfolding tally_ok_def by blast+

lemma signer_none:
  assumes "signers_ok s"
  shows "ms_signer s a = None \<longleftrightarrow> a \<notin> signers_of s"
proof -
  have "ms_signer s a \<noteq> Some False" using assms by (simp add: signers_ok_def)
  then show ?thesis
    by (cases "ms_signer s a") (auto simp: signers_of_def msig_is_signer_def)
qed

lemma signers_frame:
  assumes "signers_ok s" "ms_signer s' = ms_signer s" "ms_threshold s' = ms_threshold s"
    "ms_signer_count s' = ms_signer_count s"
    "ms_threshold s = None \<Longrightarrow> ms_proposal s' = ms_proposal s \<and> ms_approval s' = ms_approval s"
  shows "signers_ok s'"
proof -
  have "signers_of s' = signers_of s" using assms(2) by (simp add: signers_of_def msig_is_signer_def)
  with assms show ?thesis by (cases "ms_threshold s") (auto simp: signers_ok_def)
qed

lemma tally_frame:
  assumes "tally_ok s" "ms_proposal s' = ms_proposal s" "ms_approval s' = ms_approval s"
    "ms_proposal_count s' = ms_proposal_count s" "ms_active s' = ms_active s"
    "ms_threshold s' = None \<longleftrightarrow> ms_threshold s = None"
  shows "tally_ok s'"
proof -
  have "open_ids s' = open_ids s" using assms(2) by (simp add: open_ids_def)
  with assms show ?thesis by (simp add: tally_ok_def)
qed

lemma init_ok:
  assumes "msig_initialize as t s = Inr s'" "signers_ok s"
  shows "signers_ok s'" "tally_ok s \<Longrightarrow> tally_ok s'"
proof -
  have t: "ms_threshold s = None"
    and reg: "register_signers as s = Inr (s\<lparr>ms_signer := (\<lambda>a. if a \<in> set as then Some True else ms_signer s a)\<rparr>)"
    and s': "s' = s\<lparr>ms_signer := (\<lambda>a. if a \<in> set as then Some True else ms_signer s a),
        ms_threshold := Some t, ms_signer_count := Some (length as), ms_proposal_count := Some 0,
        ms_active := Some 0\<rparr>"
    using assms(1) by (auto simp: msig_ops res_simps dest: register_signers_Inr)
  have none: "signers_of s = {}" "ms_proposal s = Map.empty" "ms_approval s = Map.empty"
    using assms(2) t by (auto simp: signers_ok_def)
  with assms(2) have old: "ms_signer s a = None" for a by (simp add: signer_none)
  have new: "signers_of s' = set as"
    using old by (auto simp: s' signers_of_def msig_is_signer_def split: if_splits)
  show "signers_ok s'" unfolding signers_ok_def new
    using register_signers_Inr [OF reg] old by (auto simp: s' distinct_card)
  have "open_ids s' = {}" by (simp add: s' open_ids_def none)
  then show "tally_ok s'" if "tally_ok s"
    using that none unfolding tally_ok_def s' by auto
qed

lemma self_call_signers:
  assumes "msig_self_call f vs s = Inr s'" "signers_ok s" "ms_threshold s = Some t"
  shows "signers_ok s' \<and> ms_threshold s' \<noteq> None"
  using assms(1)
proof (cases rule: msig_self_call_cases)
  case (add a)
  then have "a \<notin> signers_of s" by (simp add: signers_of_def)
  moreover have "signers_of s' = insert a (signers_of s)"
    by (auto simp: add(3) signers_of_def msig_is_signer_def split: if_splits)
  ultimately show ?thesis using assms(2,3) by (auto simp: add(3) signers_ok_def)
next
  case (remove a)
  then have "a \<in> signers_of s" by (simp add: signers_of_def)
  moreover have "signers_of s' = signers_of s - {a}"
    by (auto simp: remove(4) signers_of_def msig_is_signer_def split: if_splits)
  ultimately show ?thesis using assms(2,3) by (auto simp: remove(4) signers_ok_def)
next
  case (threshold t')
  with assms(2,3) show ?thesis
    by (auto simp: signers_ok_def signers_of_def msig_is_signer_def)
qed


lemma execute_signers:
  assumes "msig_execute_action I env i (s, w) = Inr (s', w')" "signers_ok s"
  shows "signers_ok s' \<and> (ms_threshold s' = None \<longleftrightarrow> ms_threshold s = None)"
  using assms(1)
proof (cases rule: msig_execute_cases)
  case (self p t s2)
  let ?s1 = "s\<lparr>ms_proposal := (ms_proposal s)(i \<mapsto> p\<lparr>pr_executed := True\<rparr>)\<rparr>"
  have "signers_ok ?s1" by (rule signers_frame [OF assms(2)]) (simp_all add: self(2))
  with self(7) have s2: "signers_ok s2 \<and> ms_threshold s2 \<noteq> None"
    by (rule self_call_signers) (simp add: self(2))
  then have "signers_ok s2" by blast
  then have "signers_ok s'" by (rule signers_frame) (simp_all add: self(8))
  with s2 self(2,8) show ?thesis by simp
next
  case (ext p t)
  have "signers_ok s'" by (rule signers_frame [OF assms(2)]) (simp_all add: ext(2,8))
  with ext(2,8) show ?thesis by simp
qed

lemma open_finite: "tally_ok s \<Longrightarrow> finite (open_ids s)"
  by (rule finite_subset [of _ "{.. get_or 0 (ms_proposal_count s)}"])
     (auto simp: tally_ok_def open_ids_def)

lemma execute_tally:
  assumes "msig_execute_action I env i (s, w) = Inr (s', w')" "signers_ok s" "tally_ok s"
  shows "tally_ok s'"
  using assms(1)
proof (rule execute_frame)
  fix p
  assume p: "ms_proposal s i = Some p" "\<not> pr_executed p" "\<not> pr_cancelled p"
    and s': "ms_proposal s' = (ms_proposal s)(i \<mapsto> p\<lparr>pr_executed := True\<rparr>)"
      "ms_approval s' = ms_approval s" "ms_proposal_count s' = ms_proposal_count s"
      "ms_active s' = Some (get_or 0 (ms_active s) - 1)"
  have "open_ids s' = open_ids s - {i}" "i \<in> open_ids s"
    using p by (auto simp: s' open_ids_def split: if_splits)
  moreover have "ms_threshold s' \<noteq> None \<Longrightarrow> ms_threshold s \<noteq> None"
    using execute_signers [OF assms(1,2)] by simp
  ultimately show ?thesis
    using assms(3) open_finite [OF assms(3)] p by (auto simp: tally_ok_def s')
qed

lemma exec_signers:
  assumes "msig_exec I up env c (s, w) = Inr (s', w')" "signers_ok s"
    "\<not> (\<exists>i. c = MExecuteRollback i)"
  shows "signers_ok s'"
proof (cases c)
  case (MInit as t)
  with assms init_ok(1) show ?thesis by (auto simp: res_simps)
next
  case (MExecute i)
  with assms execute_signers show ?thesis by fastforce
next
  case (MSnapshot a k)
  with assms(1) have "msig_snapshot_state env a k s = Inr s'" by (simp add: res_simps)
  then show ?thesis by (rule snapshot_Inr) (simp add: signers_frame [OF assms(2)])
qed (rule signers_frame [OF assms(2)]; use assms in \<open>auto simp: msig_ops res_simps\<close>)+

lemma exec_tally:
  assumes "msig_exec I up env c (s, w) = Inr (s', w')" "signers_ok s" "tally_ok s"
    "\<not> (\<exists>i. c = MExecuteRollback i)"
  shows "tally_ok s'"
proof (cases c)
  case (MInit as t)
  with assms init_ok(2) show ?thesis by (auto simp: res_simps)
next
  case (MPropose a x f vs)
  with assms(1) obtain i where op: "msig_propose_action env a x f vs s = Inr (i, s')"
    by (auto simp: res_simps)
  note i = propose_Inr(1) [OF op] and s' = propose_Inr(5) [OF op]
  have "open_ids s' = insert i (open_ids s)" "i \<notin> open_ids s"
    using assms(3) i by (fastforce simp: s' tally_ok_def open_ids_def)+
  moreover have le: "ms_proposal s j = Some p \<Longrightarrow> j \<le> i" "ms_approval s (j, b) = Some y \<Longrightarrow> j \<le> i"
    for j b p y using tally_le [OF assms(3)] i by (fastforce simp: le_Suc_eq)+
  moreover have "ms_active s = Some (card (open_ids s))"
    using assms(3) propose_Inr(4) [OF op] by (simp add: tally_ok_def)
  ultimately show ?thesis
    using open_finite [OF assms(3)] unfolding s' tally_ok_def
    by (intro conjI allI impI) (auto split: if_splits dest: le)
next
  case (MSign a i)
  with assms(1) obtain p n where p: "ms_proposal s i = Some p"
      and s': "s' = s\<lparr>ms_approval := (ms_approval s)((i, a) \<mapsto> True),
                     ms_proposal := (ms_proposal s)(i \<mapsto> p\<lparr>pr_approvals := pr_approvals p + 1\<rparr>)\<rparr>"
    by (auto simp: msig_ops res_simps)
  have "open_ids s' = open_ids s" using p by (auto simp: s' open_ids_def)
  moreover have "ms_threshold s \<noteq> None \<Longrightarrow> ms_active s = Some (card (open_ids s))"
    using assms(3) by (simp add: tally_ok_def)
  ultimately show ?thesis using p unfolding tally_ok_def
    by (intro conjI allI impI) (auto simp: s' split: if_splits dest: tally_le [OF assms(3)])
next
  case (MExecute i)
  with assms execute_tally show ?thesis by fastforce
next
  case (MCancel a i)
  with assms(1) obtain p t where p: "ms_proposal s i = Some p" "\<not> pr_executed p" "\<not> pr_cancelled p"
      and t: "ms_threshold s = Some t"
      and s': "s' = s\<lparr>ms_proposal := (ms_proposal s)(i \<mapsto> p\<lparr>pr_cancelled := True\<rparr>),
                     ms_active := Some (get_or 0 (ms_active s) - 1)\<rparr>"
    by (auto simp: msig_ops res_simps)
  have "open_ids s' = open_ids s - {i}" "i \<in> open_ids s"
    using p by (auto simp: s' open_ids_def split: if_splits)
  with assms(3) open_finite [OF assms(3)] p t show ?thesis by (auto simp: tally_ok_def s')
next
  case (MSnapshot a k)
  with assms(1) have "msig_snapshot_state env a k s = Inr s'" by (simp add: res_simps)
  then show ?thesis by (rule snapshot_Inr) (simp add: tally_frame [OF assms(3)])
qed (rule tally_frame [OF assms(3)]; use assms in \<open>auto simp: msig_ops res_simps\<close>)+

lemma hist_signers:
  "msig_hist I up h s w \<Longrightarrow> \<not> rolled_back h \<Longrightarrow> signers_ok s \<and> tally_ok s"
proof (induction rule: msig_hist.induct)
  case (hist_empty w)
  then show ?case
    by (simp add: signers_ok_def tally_ok_def signers_of_def msig_is_signer_def msig_empty_def)
next
  case (hist_call h s w env c s' w')
  then have ok: "signers_ok s" "tally_ok s" "\<not> (\<exists>i. c = MExecuteRollback i)" by auto
  from exec_signers [OF hist_call(2) ok(1,3)] exec_tally [OF hist_call(2) ok(1,2,3)]
  show ?case ..
qed auto


section \<open>Signing in turn\<close>

fun sign_all :: "(addr \<Rightarrow> env) \<Rightarrow> nat \<Rightarrow> addr list \<Rightarrow> msig \<Rightarrow> msig msig_res" where
  "sign_all es i [] s = Inr s"
| "sign_all es i (a # as) s = rbind (msig_sign_action (es a) a i s) (sign_all es i as)"

lemma sign_all_ok:
  assumes "ms_threshold s \<noteq> None" "ms_proposal s i = Some p" "\<not> pr_executed p" "\<not> pr_cancelled p"
    "distinct as" "set as \<subseteq> signers_of s"
    "\<And>a. a \<in> set as \<Longrightarrow> ms_approval s (i, a) = None \<and> auth_by (es a) a \<and> ledger_ts (es a) \<le> pr_expiry p"
    "pr_approvals p + length as \<le> u32_max"
  shows "\<exists>s'. sign_all es i as s = Inr s' \<and>
     ms_proposal s' i = Some (p\<lparr>pr_approvals := pr_approvals p + length as\<rparr>) \<and>
     ms_threshold s' = ms_threshold s \<and> ms_checksum s' = ms_checksum s"
  using assms
proof (induction as arbitrary: s p)
  case (Cons a as)
  let ?p = "p\<lparr>pr_approvals := pr_approvals p + 1\<rparr>"
  let ?s = "s\<lparr>ms_approval := (ms_approval s)((i, a) \<mapsto> True), ms_proposal := (ms_proposal s)(i \<mapsto> ?p)\<rparr>"
  have a: "msig_is_signer a s" "ms_approval s (i, a) = None" "auth_by (es a) a"
      "ledger_ts (es a) \<le> pr_expiry p"
    using Cons.prems(6,7) by (auto simp: signers_of_def)
  have step: "msig_sign_action (es a) a i s = Inr ?s"
    using Cons.prems(1-4,8) a by (auto simp: msig_ops checked_u32_def not_less)
  have same: "signers_of ?s = signers_of s" by (simp add: signers_of_def msig_is_signer_def)
  have "\<exists>s'. sign_all es i as ?s = Inr s' \<and>
     ms_proposal s' i = Some (?p\<lparr>pr_approvals := pr_approvals ?p + length as\<rparr>) \<and>
     ms_threshold s' = ms_threshold ?s \<and> ms_checksum s' = ms_checksum ?s"
    by (rule Cons.IH) (use Cons.prems same in \<open>auto split: if_splits\<close>)
  with step show ?case by simp
qed (auto intro!: proposal_record.equality)


section \<open>Votes for an emergency rollback\<close>

fun rb_votes :: "msig_entry list \<Rightarrow> nat \<Rightarrow> addr list" where
  "rb_votes [] i = []"
| "rb_votes ((env, s, MProposeRollback a k x) # h) i =
     (if i = get_or 0 (ms_rollback_count s) + 1 then [a] else rb_votes h i)"
| "rb_votes ((env, s, MApproveRollback a j) # h) i = (if i = j then a # rb_votes h i else rb_votes h i)"
| "rb_votes (_ # h) i = rb_votes h i"

definition rb_voted :: "msig_entry \<Rightarrow> nat \<Rightarrow> addr \<Rightarrow> bool" where
  "rb_voted e i a = (case e of (env, s, c) \<Rightarrow> auth_by env a \<and> a \<in> set (get_or [] (ms_emergency s)) \<and>
     (case c of MProposeRollback b k x \<Rightarrow> b = a \<and> i = get_or 0 (ms_rollback_count s) + 1
      | MApproveRollback b j \<Rightarrow> b = a \<and> i = j | _ \<Rightarrow> False))"

definition rb_ok :: "msig_entry list \<Rightarrow> msig \<Rightarrow> bool" where
  "rb_ok h s \<longleftrightarrow> (\<forall>i p. ms_rollback s i = Some p \<longrightarrow>
     rb_count p = length (rb_votes h i) \<and> distinct (rb_votes h i) \<and>
     (\<forall>a \<in> set (rb_votes h i). ms_rollback_approval s (i, a) = Some True))"

lemma rb_frame:
  assumes "rb_ok h s" "ms_rollback s' = ms_rollback s"
    "ms_rollback_approval s' = ms_rollback_approval s" "\<And>i. rb_votes h' i = rb_votes h i"
  shows "rb_ok h' s'"
  using assms by (simp add: rb_ok_def)

lemma exec_rb:
  assumes "msig_exec I up env c (s, w) = Inr (s', w')" "rb_ok h s"
  shows "rb_ok ((env, s, c) # h) s'"
proof (cases c)
  case (MInit as t)
  with assms show ?thesis
    by (fastforce simp: msig_ops res_simps rb_ok_def dest!: register_signers_Inr)
next
  case (MExecute i)
  with assms(1) have "msig_execute_action I env i (s, w) = Inr (s', w')" by simp
  then have "ms_rollback s' = ms_rollback s \<and> ms_rollback_approval s' = ms_rollback_approval s"
    by (cases rule: msig_execute_cases) (auto elim: msig_self_call_cases)
  with MExecute show ?thesis by (auto intro: rb_frame [OF assms(2)])
next
  case (MSnapshot a k)
  with assms(1) have "msig_snapshot_state env a k s = Inr s'" by (simp add: res_simps)
  then show ?thesis
    by (rule snapshot_Inr) (use MSnapshot in \<open>auto intro!: rb_frame [OF assms(2)]\<close>)
next
  case (MProposeRollback a k x)
  with assms show ?thesis by (auto simp: msig_ops res_simps rb_ok_def)
next
  case (MApproveRollback a i)
  with assms(1) obtain p where p: "ms_rollback s i = Some p"
      and a: "\<not> get_or False (ms_rollback_approval s (i, a))"
      and s': "s' = s\<lparr>ms_rollback_approval := (ms_rollback_approval s)((i, a) \<mapsto> True),
                     ms_rollback := (ms_rollback s)(i \<mapsto> p\<lparr>rb_count := rb_count p + 1\<rparr>)\<rparr>"
    by (auto simp: msig_ops res_simps)
  have "a \<notin> set (rb_votes h i)" using assms(2) p a by (auto simp: rb_ok_def)
  with assms(2) p s' MApproveRollback show ?thesis by (auto simp: rb_ok_def)
next
  case (MExecuteRollback i)
  with assms show ?thesis by (auto simp: msig_ops res_simps rb_ok_def split: if_splits)
qed (rule rb_frame [OF assms(2)]; use assms(1) in \<open>auto simp: msig_ops res_simps\<close>)+

lemma hist_rb: "msig_hist I up h s w \<Longrightarrow> rb_ok h s"
proof (induction rule: msig_hist.induct)
  case (hist_empty w)
  then show ?case by (simp add: rb_ok_def msig_empty_def)
qed (auto intro: exec_rb)

lemma hist_rb_voters:
  assumes "msig_hist I up h s w" "a \<in> set (rb_votes h i)"
  shows "\<exists>e \<in> set h. rb_voted e i a"
  using assms
proof (induction arbitrary: i rule: msig_hist.induct)
  case (hist_call h s w env c s' w')
  have new: "rb_voted (env, s, c) i b"
    if "c = MApproveRollback b i \<or>
        (\<exists>k x. c = MProposeRollback b k x \<and> i = get_or 0 (ms_rollback_count s) + 1)" for b
    using hist_call(2) that by (auto simp: rb_voted_def msig_ops res_simps list_ex_iff)
  show ?case
  proof (cases "a \<in> set (rb_votes h i)")
    case True
    with hist_call(3) show ?thesis by auto
  next
    case False
    with hist_call(4) have "c = MApproveRollback a i \<or>
        (\<exists>k x. c = MProposeRollback a k x \<and> i = get_or 0 (ms_rollback_count s) + 1)"
      by (cases c) (auto split: if_splits)
    with new [of a] show ?thesis by auto
  qed
qed auto

end
