(* ===== verification/MultisigProps.thy ===== *)
theory MultisigProps
  imports MultisigRules
begin

text \<open>
  The properties of the multisig admin contract over its histories, with concrete runs.
\<close>

section \<open>Runs\<close>

text \<open>A failing call is rolled back and leaves no entry in the history.\<close>

fun msig_run ::
    "'w invoke \<Rightarrow> (hash32 \<Rightarrow> bool) \<Rightarrow> (env \<times> msig_call) list \<Rightarrow>
     msig_entry list \<times> msig \<times> 'w \<Rightarrow> msig_entry list \<times> msig \<times> 'w" where
  "msig_run I up [] x = x"
| "msig_run I up ((env, c) # cs) (h, s, w) =
    (case msig_exec I up env c (s, w) of
       Inl _ \<Rightarrow> msig_run I up cs (h, s, w)
     | Inr (s', w') \<Rightarrow> msig_run I up cs ((env, s, c) # h, s', w'))"

lemma run_hist:
  "msig_run I up cs (h, s, w) = (h', s', w') \<Longrightarrow> msig_hist I up h s w \<Longrightarrow> msig_hist I up h' s' w'"
proof (induction cs arbitrary: h s w)
  case (Cons x cs)
  obtain env c where x: "x = (env, c)" by (cases x)
  show ?case
  proof (cases "msig_exec I up env c (s, w)")
    case (Inl e)
    with Cons x show ?thesis by simp
  next
    case (Inr sw)
    obtain s1 w1 where "sw = (s1, w1)" by (cases sw)
    with Cons x Inr show ?thesis by (auto intro: hist_call)
  qed
qed simp

lemma run_from_empty: "msig_run I up cs ([], msig_empty, w) = (h, s, w') \<Longrightarrow> msig_hist I up h s w'"
  by (rule run_hist [OF _ hist_empty])

lemma msig_run_append: "msig_run I up (cs @ ds) x = msig_run I up ds (msig_run I up cs x)"
  by (induction I up cs x rule: msig_run.induct) (auto split: sum.splits)

lemmas msig_eval =
  msig_empty_def msig_initialize_def msig_propose_action_def msig_sign_action_def
  msig_execute_action_def msig_set_emergency_signers_def msig_snapshot_state_def
  msig_propose_rollback_def msig_approve_rollback_def msig_execute_rollback_def
  msig_initialized_def msig_is_signer_def self_ops valid_config_iff emergency_consts
  EXPIRY_SECONDS_def EMERGENCY_THRESHOLD_def push_snapshot_index_def MAX_SNAPSHOTS_def
  checked_u32_def checked_u64_def u32_max_def u64_max_def

text \<open>Other contracts that accept every call.\<close>

definition accept_all :: "nat invoke" where
  "accept_all env x f vs w = Inr (w + 1)"

text \<open>Three signers with a threshold of two; the first proposes, the second signs.\<close>

definition demo_setup :: "(env \<times> msig_call) list" where
  "demo_setup = [(demo_env 0 [], MInit [1, 2, 3] 2)]"

definition demo_vote :: "(env \<times> msig_call) list" where
  "demo_vote = demo_setup @ [(demo_env 10 [1], MPropose 1 9 ''upgrade'' [VU32 5]), (demo_env 20 [2], MSign 2 1)]"

definition demo_initial :: msig where
  "demo_initial = msig_empty\<lparr>ms_signer := (\<lambda>a. if a \<in> {1, 2, 3} then Some True else None),
     ms_threshold := Some 2, ms_signer_count := Some 3, ms_proposal_count := Some 0, ms_active := Some 0\<rparr>"

definition demo_proposed :: msig where
  "demo_proposed = demo_initial\<lparr>ms_proposal_count := Some 1, ms_active := Some 1,
     ms_proposal := [1 \<mapsto> \<lparr>pr_id = 1, pr_proposer = 1, pr_target = 9, pr_function = ''upgrade'',
        pr_args = [VU32 5], pr_approvals = 1, pr_expiry = 604810, pr_executed = False,
        pr_cancelled = False\<rparr>],
     ms_checksum := [1 \<mapsto> 0], ms_approval := [(1, 1) \<mapsto> True]\<rparr>"

lemma demo_run_setup:
  "msig_run accept_all up demo_setup ([], msig_empty, 0) =
     ([(demo_env 0 [], msig_empty, MInit [1, 2, 3] 2)], demo_initial, 0)"
  by (auto simp: demo_setup_def demo_initial_def msig_eval fun_eq_iff)


definition demo_voted :: msig where
  "demo_voted = demo_proposed\<lparr>ms_approval := [(1, 1) \<mapsto> True, (1, 2) \<mapsto> True],
     ms_proposal := [1 \<mapsto> (the (ms_proposal demo_proposed 1))\<lparr>pr_approvals := 2\<rparr>]\<rparr>"

definition demo_history :: "msig_entry list" where
  "demo_history = [(demo_env 20 [2], demo_proposed, MSign 2 1),
     (demo_env 10 [1], demo_initial, MPropose 1 9 ''upgrade'' [VU32 5]),
     (demo_env 0 [], msig_empty, MInit [1, 2, 3] 2)]"

lemma demo_run_vote:
  "msig_run accept_all up demo_vote ([], msig_empty, 0) = (demo_history, demo_voted, 0)"
  unfolding demo_vote_def msig_run_append demo_run_setup
  by (auto simp: demo_history_def demo_voted_def demo_proposed_def demo_initial_def msig_eval fun_eq_iff)

lemmas demo_states = demo_initial_def demo_proposed_def demo_voted_def demo_history_def

lemma demo_hist_vote: "msig_hist accept_all up demo_history demo_voted 0"
  by (rule run_from_empty [OF demo_run_vote])


section \<open>Properties\<close>

text \<open>
  What governance asks of a call of the contract to itself: the name of the function picks one of
  three changes, and the first argument says which signer or which threshold.
\<close>

definition self_administered :: "symbol \<Rightarrow> val list \<Rightarrow> msig \<Rightarrow> msig \<Rightarrow> bool" where
  "self_administered fn args s s' \<longleftrightarrow>
     (fn = ''add_signer'' \<and> (\<exists>a. args \<noteq> [] \<and> hd args = VAddr a \<and> \<not> msig_is_signer a s \<and>
        s' = s\<lparr>ms_signer := (ms_signer s)(a \<mapsto> True),
               ms_signer_count := Some (get_or 0 (ms_signer_count s) + 1)\<rparr>)) \<or>
     (fn = ''remove_signer'' \<and> (\<exists>a. args \<noteq> [] \<and> hd args = VAddr a \<and> msig_is_signer a s \<and>
        s' = s\<lparr>ms_signer := (ms_signer s)(a := None),
               ms_signer_count := Some (get_or 0 (ms_signer_count s) - 1)\<rparr>)) \<or>
     (fn = ''update_threshold'' \<and> (\<exists>n. args \<noteq> [] \<and> hd args = VU32 n \<and> s' = s\<lparr>ms_threshold := Some n\<rparr>))"

lemma self_call_administers:
  assumes "msig_self_call fn args s = Inr s'"
  shows "self_administered fn args s s'" "ms_active s' = ms_active s"
  using assms
  by (auto simp: self_administered_def self_ops res_simps split: if_splits list.splits val.splits)

text \<open>
  C25. Quorum. In every history of the multisig admin contract, if \<open>execute_action\<close> executes
  proposal \<open>i\<close> then the proposal was open and not expired, and at least the current threshold of
  distinct addresses voted for it since it was proposed; each of them was a registered signer and
  authorised the call at the time of its vote. What is executed is the target, function and
  arguments of the motion they voted on: a call to another contract is made by this contract with
  exactly these, it succeeds, and nothing else changes; a call to the contract itself registers the
  signer, removes the signer or sets the threshold that the arguments name, and calls nobody. In
  both cases the proposal is marked executed and the counter of active proposals falls by one, if it is not zero.
\<close>

theorem msig_quorum:
  assumes "msig_hist I up h s w" "msig_execute_action I env i (s, w) = Inr (s', w')"
  shows "\<exists>t p target fn args s1 s2. ms_threshold s = Some t \<and> ms_proposal s i = Some p \<and> 1 \<le> t \<and>
    \<not> pr_executed p \<and> \<not> pr_cancelled p \<and> ledger_ts env \<le> pr_expiry p \<and>
    t \<le> card (set (ballot h i)) \<and>
    (\<forall>a \<in> set (ballot h i). \<exists>e \<in> set h. voted e i a) \<and>
    motion h i = Some (pr_proposer p, target, fn, args) \<and>
    (pr_target p, pr_function p, pr_args p) = (target, fn, args) \<and>
    s1 = s\<lparr>ms_proposal := (ms_proposal s)(i \<mapsto> p\<lparr>pr_executed := True\<rparr>)\<rparr> \<and>
    (if target = self_addr env then w' = w \<and> self_administered fn args s1 s2
     else I (as_invoker env) target fn args w = Inr w' \<and> s2 = s1) \<and>
    s' = s2\<lparr>ms_active := Some (get_or 0 (ms_active s) - 1)\<rparr>"
proof -
  obtain p t s1 s2 where p: "ms_proposal s i = Some p" "ms_threshold s = Some t" "t \<le> pr_approvals p"
      "\<not> pr_executed p" "\<not> pr_cancelled p" "ledger_ts env \<le> pr_expiry p"
    and d: "s1 = s\<lparr>ms_proposal := (ms_proposal s)(i \<mapsto> p\<lparr>pr_executed := True\<rparr>)\<rparr>"
      "if pr_target p = self_addr env then w' = w \<and> msig_self_call (pr_function p) (pr_args p) s1 = Inr s2
       else I (as_invoker env) (pr_target p) (pr_function p) (pr_args p) w = Inr w' \<and> s2 = s1"
      "s' = s2\<lparr>ms_active := Some (get_or 0 (ms_active s2) - 1)\<rparr>"
    by (rule msig_execute_dispatch [OF assms(2)])
  have votes: "1 \<le> t" "t \<le> card (set (ballot h i))" "\<forall>a \<in> set (ballot h i). \<exists>e \<in> set h. voted e i a"
      "motion h i = Some (pr_proposer p, pr_target p, pr_function p, pr_args p)"
    using hist_gov [OF assms(1)] hist_votes [OF assms(1)] hist_voters [OF assms(1)] p(1,2,3)
    by (auto simp: gov_ok_def votes_ok_def distinct_card)
  have "if pr_target p = self_addr env then w' = w \<and> self_administered (pr_function p) (pr_args p) s1 s2
      else I (as_invoker env) (pr_target p) (pr_function p) (pr_args p) w = Inr w' \<and> s2 = s1"
    and "ms_active s2 = ms_active s"
    using d(1,2) by (auto dest: self_call_administers split: if_splits)
  then show ?thesis
    using p votes d(1,3) by (intro exI [of _ t] exI [of _ p] exI [of _ "pr_target p"]
      exI [of _ "pr_function p"] exI [of _ "pr_args p"] exI [of _ s1] exI [of _ s2]) (simp del: if_split)
qed

theorem msig_quorum_witness:
  "\<exists>s'. msig_execute_action accept_all (demo_env 30 []) 1 (demo_voted, 0) = Inr (s', 1) \<and>
     2 \<le> card (set (ballot demo_history 1)) \<and>
     motion demo_history 1 = Some (1, 9, ''upgrade'', [VU32 5]) \<and>
     accept_all (as_invoker (demo_env 30 [])) 9 ''upgrade'' [VU32 5] 0 = Inr 1 \<and>
     ms_active s' = Some 0"
proof -
  obtain s' where run: "msig_execute_action accept_all (demo_env 30 []) 1 (demo_voted, 0) = Inr (s', 1)"
    by (simp add: demo_states msig_eval accept_all_def)
  from msig_quorum [OF demo_hist_vote run] have
    "2 \<le> card (set (ballot demo_history 1)) \<and> motion demo_history 1 = Some (1, 9, ''upgrade'', [VU32 5]) \<and>
     accept_all (as_invoker (demo_env 30 [])) 9 ''upgrade'' [VU32 5] 0 = Inr 1 \<and> ms_active s' = Some 0"
    by (auto simp: demo_states)
  with run show ?thesis by blast
qed

text \<open>
  C26. Governance cannot be locked out by its own operations. In every history without an executed
  emergency rollback the recorded signer count is the number of registered signers, the threshold is
  between one and that number, and the active-proposal counter is the number of proposals neither
  executed nor cancelled.
\<close>

theorem msig_configuration:
  assumes "msig_hist I up h s w" "\<not> rolled_back h" "ms_threshold s = Some t"
  shows "ms_signer_count s = Some (card (signers_of s)) \<and> 1 \<le> t \<and> t \<le> card (signers_of s) \<and>
    ms_active s = Some (card (open_ids s))"
  using hist_signers [OF assms(1,2)] hist_gov [OF assms(1)] assms(3)
  by (auto simp: signers_ok_def tally_ok_def gov_ok_def)

theorem msig_configuration_witness:
  "card (signers_of demo_voted) = 3 \<and> card (open_ids demo_voted) = 1"
  using msig_configuration [OF demo_hist_vote, of 2] by (simp add: demo_states)

text \<open>
  The signers can always act. In every history without an executed rollback, any list of
  distinct signers as long as the threshold can carry a call to another contract: the first
  proposes it, the others sign within seven days, and the execution goes through whenever the
  called contract accepts (counters below their \<open>u32\<close> limits).
\<close>

theorem msig_signers_can_act:
  assumes hist: "msig_hist I up h s w" "\<not> rolled_back h" "ms_threshold s = Some (length as)"
    and voters: "distinct as" "set as \<subseteq> signers_of s" "length as \<le> u32_max"
    and room: "get_or 0 (ms_proposal_count s) < u32_max" "get_or 0 (ms_active s) < u32_max"
      "ledger_ts env + EXPIRY_SECONDS \<le> u64_max"
    and auth: "auth_by env (hd as)"
      "\<forall>a \<in> set as. auth_by (es a) a \<and> ledger_ts (es a) \<le> ledger_ts env + EXPIRY_SECONDS"
    and exec: "ledger_ts env' \<le> ledger_ts env + EXPIRY_SECONDS" "sha env' = sha env"
      "x \<noteq> self_addr env'" "I (as_invoker env') x f vs w = Inr w'"
  shows "\<exists>i s1 s2 s3. msig_propose_action env (hd as) x f vs s = Inr (i, s1) \<and>
    sign_all es i (tl as) s1 = Inr s2 \<and> msig_execute_action I env' i (s2, w) = Inr (s3, w')"
proof -
  let ?i = "get_or 0 (ms_proposal_count s) + 1"
  have "1 \<le> length as" using hist_gov [OF hist(1)] hist(3) by (auto simp: gov_ok_def)
  then obtain a bs where ab: "as = a # bs" by (cases "as") auto
  have sig: "msig_is_signer a s" using voters(2) ab by (simp add: signers_of_def)
  then obtain s1 where propose: "msig_propose_action env a x f vs s = Inr (?i, s1)"
    using room auth(1) hist(3) ab by (simp add: msig_ops checked_u32_def checked_u64_def)
  note s1 = propose_Inr(5) [OF propose]
  define p where "p = the (ms_proposal s1 ?i)"
  have p: "ms_proposal s1 ?i = Some p" "pr_approvals p = 1" "\<not> pr_executed p" "\<not> pr_cancelled p"
      "pr_expiry p = ledger_ts env + EXPIRY_SECONDS" "pr_target p = x" "pr_function p = f" "pr_args p = vs"
    by (simp_all add: p_def s1)
  have fresh: "ms_approval s1 (?i, b) = None" if "b \<noteq> a" for b
    using tally_le(2) [OF hist_signers [OF hist(1,2), THEN conjunct2], of ?i b] that
    by (cases "ms_approval s (?i, b)") (auto simp: s1)
  have same: "signers_of s1 = signers_of s" by (simp add: s1 signers_of_def msig_is_signer_def)
  have "\<exists>s2. sign_all es ?i bs s1 = Inr s2 \<and>
      ms_proposal s2 ?i = Some (p\<lparr>pr_approvals := pr_approvals p + length bs\<rparr>) \<and>
      ms_threshold s2 = ms_threshold s1 \<and> ms_checksum s2 = ms_checksum s1"
  proof (rule sign_all_ok)
    fix b assume "b \<in> set bs"
    with voters(1) ab have "b \<noteq> a" by auto
    with fresh \<open>b \<in> set bs\<close> auth(2) ab p
    show "ms_approval s1 (?i, b) = None \<and> auth_by (es b) b \<and> ledger_ts (es b) \<le> pr_expiry p" by simp
  qed (use p voters ab same hist(3) in \<open>simp_all add: s1\<close>)
  then obtain s2 where sign: "sign_all es ?i bs s1 = Inr s2"
    and s2: "ms_proposal s2 ?i = Some (p\<lparr>pr_approvals := length as\<rparr>)"
      "ms_threshold s2 = Some (length as)" "ms_checksum s2 ?i = Some (sha env [XVals vs])"
    using p(2) ab hist(3) by (auto simp: s1)
  have "\<exists>s3. msig_execute_action I env' ?i (s2, w) = Inr (s3, w')"
    using s2 p exec by (simp add: msig_execute_action_def msig_initialized_def not_less)
  with propose sign ab show ?thesis by auto
qed

theorem msig_signers_can_act_witness:
  "\<exists>i s1 s2 s3. msig_propose_action (demo_env 50 [3]) 3 8 ''pause'' [] demo_voted = Inr (i, s1) \<and>
    sign_all (\<lambda>a. demo_env 60 [a]) i [1] s1 = Inr s2 \<and>
    msig_execute_action accept_all (demo_env 70 []) i (s2, 0) = Inr (s3, 1)"
proof -
  have ok: "set [3, 1] \<subseteq> signers_of demo_voted" "ms_threshold demo_voted = Some (length [3::nat, 1])"
    by (auto simp: signers_of_def msig_is_signer_def demo_states)
  have "\<not> rolled_back demo_history" by (simp add: demo_states)
  then have "\<exists>i s1 s2 s3. msig_propose_action (demo_env 50 [3]) (hd [3, 1]) 8 ''pause'' [] demo_voted = Inr (i, s1) \<and>
      sign_all (\<lambda>a. demo_env 60 [a]) i (tl [3, 1]) s1 = Inr s2 \<and>
      msig_execute_action accept_all (demo_env 70 []) i (s2, 0) = Inr (s3, 1)"
    by (rule msig_signers_can_act [OF demo_hist_vote _ ok(2) _ ok(1)])
       (simp_all add: demo_states u32_max_def u64_max_def EXPIRY_SECONDS_def accept_all_def demo_env_def)
  then show ?thesis by simp
qed

text \<open>
  An executed rollback was voted for by at least four distinct addresses, each of which was an
  emergency signer and authorised its vote when it cast it; the rollback restores exactly the
  recorded threshold, signer count and proposal count of the snapshot it names, and leaves the
  registered signers, the proposals and their approvals as they are.
\<close>

theorem msig_rollback:
  assumes "msig_hist I up h s w" "msig_execute_rollback up i s = Inr s'"
  shows "\<exists>p c. ms_rollback s i = Some p \<and> ms_snapshot s (rb_snapshot p) = Some c \<and>
    4 \<le> card (set (rb_votes h i)) \<and> (\<forall>a \<in> set (rb_votes h i). \<exists>e \<in> set h. rb_voted e i a) \<and>
    1 \<le> gc_threshold c \<and> gc_threshold c \<le> gc_signer_count c \<and>
    s' = s\<lparr>ms_threshold := Some (gc_threshold c), ms_signer_count := Some (gc_signer_count c),
            ms_proposal_count := Some (gc_proposal_count c), ms_wasm := Some (rb_old_wasm p),
            ms_rollback := (ms_rollback s)(i \<mapsto> p\<lparr>rb_executed := True\<rparr>)\<rparr>"
proof -
  obtain p c where p: "ms_rollback s i = Some p" "ms_snapshot s (rb_snapshot p) = Some c"
      "4 \<le> rb_count p"
      "s' = s\<lparr>ms_threshold := Some (gc_threshold c), ms_signer_count := Some (gc_signer_count c),
            ms_proposal_count := Some (gc_proposal_count c), ms_wasm := Some (rb_old_wasm p),
            ms_rollback := (ms_rollback s)(i \<mapsto> p\<lparr>rb_executed := True\<rparr>)\<rparr>"
    using assms(2) by (auto simp: msig_ops res_simps EMERGENCY_THRESHOLD_def not_less)
  moreover have "rb_count p = card (set (rb_votes h i))"
    using hist_rb [OF assms(1)] p(1) by (auto simp: rb_ok_def distinct_card)
  moreover have "1 \<le> gc_threshold c \<and> gc_threshold c \<le> gc_signer_count c"
    using hist_gov [OF assms(1)] p(2) by (auto simp: gov_ok_def)
  ultimately show ?thesis using hist_rb_voters [OF assms(1)] by auto
qed


text \<open>A sequence of calls all of which are accepted.\<close>

fun msig_play ::
    "'w invoke \<Rightarrow> (hash32 \<Rightarrow> bool) \<Rightarrow> (env \<times> msig_call) list \<Rightarrow> msig \<times> 'w \<Rightarrow> (msig \<times> 'w) msig_res" where
  "msig_play I up [] x = Inr x"
| "msig_play I up ((env, c) # cs) x = rbind (msig_exec I up env c x) (msig_play I up cs)"

lemma play_hist:
  "msig_play I up cs (s, w) = Inr (s', w') \<Longrightarrow> msig_hist I up h s w \<Longrightarrow>
   \<exists>h'. msig_hist I up h' s' w'"
proof (induction cs arbitrary: h s w)
  case (Cons x cs)
  obtain env c where "x = (env, c)" by (cases x)
  with Cons.prems(1) obtain s1 w1 where "msig_exec I up env c (s, w) = Inr (s1, w1)"
      "msig_play I up cs (s1, w1) = Inr (s', w')"
    by (auto simp: res_simps)
  with Cons.IH Cons.prems(2) show ?case by (blast intro: hist_call)
qed auto

text \<open>
  Three signers with threshold three take a snapshot, lower the threshold to two and remove
  signer 3; then four emergency signers roll back.
\<close>

definition brick_calls :: "(env \<times> msig_call) list" where
  "brick_calls =
    [(demo_env 0 [], MInit [1, 2, 3] 3),
     (demo_env 1 [1], MSetEmergency 1 [11, 12, 13, 14, 15, 16, 17]),
     (demo_env 2 [1], MSnapshot 1 5),
     (demo_env 3 [1], MPropose 1 0 ''update_threshold'' [VU32 2]),
     (demo_env 4 [2], MSign 2 1), (demo_env 4 [3], MSign 3 1), (demo_env 5 [], MExecute 1),
     (demo_env 6 [1], MPropose 1 0 ''remove_signer'' [VAddr 3]),
     (demo_env 7 [2], MSign 2 2), (demo_env 8 [], MExecute 2),
     (demo_env 9 [11], MProposeRollback 11 5 77), (demo_env 9 [12], MApproveRollback 12 1),
     (demo_env 9 [13], MApproveRollback 13 1), (demo_env 9 [14], MApproveRollback 14 1)]"

lemma brick_play:
  "\<exists>s. msig_play accept_all (\<lambda>_. True) brick_calls (msig_empty, 0) = Inr (s, 0) \<and>
     signers_of s = {1, 2} \<and> (\<exists>p. ms_rollback s 1 = Some p \<and> rb_count p = 4 \<and> rb_snapshot p = 5 \<and>
       \<not> rb_executed p) \<and> ms_snapshot s 5 = Some \<lparr>gc_threshold = 3, gc_signer_count = 3, gc_proposal_count = 0\<rparr> \<and>
     ms_approval s (1, 2) = Some True \<and> ms_threshold s = Some 2"
  by (auto simp: brick_calls_def msig_eval signers_of_def split: if_splits)


lemma brick_state:
  obtains h s p where "msig_hist accept_all (\<lambda>_. True) h s 0" "signers_of s = {1, 2}"
    "ms_rollback s 1 = Some p" "rb_count p = 4" "rb_snapshot p = 5" "\<not> rb_executed p"
    "ms_snapshot s 5 = Some \<lparr>gc_threshold = 3, gc_signer_count = 3, gc_proposal_count = 0\<rparr>"
proof -
  obtain s p where play: "msig_play accept_all (\<lambda>_. True) brick_calls (msig_empty, 0) = Inr (s, 0)"
    and s: "signers_of s = {1, 2}" "ms_rollback s 1 = Some p" "rb_count p = 4" "rb_snapshot p = 5"
      "\<not> rb_executed p"
      "ms_snapshot s 5 = Some \<lparr>gc_threshold = 3, gc_signer_count = 3, gc_proposal_count = 0\<rparr>"
    using brick_play by (elim exE conjE)
  obtain h where "msig_hist accept_all (\<lambda>_. True) h s 0"
    using play_hist [OF play hist_empty] ..
  from that [OF this s] show thesis .
qed

theorem msig_rollback_witness:
  "\<exists>h. 4 \<le> card (set (rb_votes h 1)) \<and> (\<forall>a \<in> set (rb_votes h 1). \<exists>e \<in> set h. rb_voted e 1 a)"
proof -
  obtain h s p where s: "msig_hist accept_all (\<lambda>_. True) h s 0" "ms_rollback s 1 = Some p"
      "rb_count p = 4" "rb_snapshot p = 5" "\<not> rb_executed p"
      "ms_snapshot s 5 = Some \<lparr>gc_threshold = 3, gc_signer_count = 3, gc_proposal_count = 0\<rparr>"
    by (rule brick_state)
  then obtain s' where "msig_execute_rollback (\<lambda>_. True) 1 s = Inr s'"
    by (simp add: msig_execute_rollback_def EMERGENCY_THRESHOLD_def)
  from msig_rollback [OF s(1) this] show ?thesis by blast
qed

text \<open>
  An emergency rollback can lock governance: there is a history after which the executed
  rollback sets the threshold to three while only two signers are registered, so no proposal can
  collect the votes of registered signers it needs.
\<close>

theorem msig_rollback_locks:
  "\<exists>h s s'. msig_hist accept_all (\<lambda>_. True) h s 0 \<and>
     msig_execute_rollback (\<lambda>_. True) 1 s = Inr s' \<and>
     ms_threshold s' = Some 3 \<and> card (signers_of s') = 2"
proof -
  obtain h s p where s: "msig_hist accept_all (\<lambda>_. True) h s 0" "signers_of s = {1, 2}"
      "ms_rollback s 1 = Some p" "rb_count p = 4" "rb_snapshot p = 5" "\<not> rb_executed p"
      "ms_snapshot s 5 = Some \<lparr>gc_threshold = 3, gc_signer_count = 3, gc_proposal_count = 0\<rparr>"
    by (rule brick_state)
  then obtain s' where s': "msig_execute_rollback (\<lambda>_. True) 1 s = Inr s'"
      "ms_threshold s' = Some 3" "ms_signer s' = ms_signer s"
    by (simp add: msig_execute_rollback_def EMERGENCY_THRESHOLD_def)
  from s'(3) s(2) have "card (signers_of s') = 2" by (simp add: signers_of_def msig_is_signer_def)
  with s(1) s'(1,2) show ?thesis by blast
qed

end
