(* ===== verification/Timelock.thy ===== *)
theory Timelock
  imports Protections Multisig
begin

text \<open>
  The timelock controller, \<open>contracts/timelock/src/lib.rs\<close>: delayed operations, cancellation by
  the admin, emergency cancellation by a guardian multisig with its limit and audit trail, and the
  paged views. The rotation records and veto powers are read by views and written by no function.
\<close>

section \<open>State\<close>

datatype timelock_error =
    TlAlreadyInitialized | TlNotInitialized | TlNotAdmin | TlOperationNotFound | TlAlreadyDone
  | TlNotReady | TlInvalidDelay | TlNotGuardian | TlInvalidGuardianConfig | TlGuardianLimitExceeded
  | TlMissingJustification | TlVetoPeriodActive | TlActionVetoed | TlOperationExpired

definition TL_MIN_DELAY :: nat where "TL_MIN_DELAY = 48 * 60 * 60"
definition TL_MAX_DELAY :: nat where "TL_MAX_DELAY = 30 * 24 * 60 * 60"
definition OPERATION_EXPIRY_SECS :: nat where "OPERATION_EXPIRY_SECS = 14 * 24 * 60 * 60"
definition TIMESTAMP_TOLERANCE_SECS :: nat where "TIMESTAMP_TOLERANCE_SECS = 60"
definition MIN_GUARDIAN_THRESHOLD :: nat where "MIN_GUARDIAN_THRESHOLD = 4"
definition MIN_GUARDIAN_SIGNERS :: nat where "MIN_GUARDIAN_SIGNERS = 7"
definition MAX_GUARDIAN_OVERRIDES_PER_PERIOD :: nat where "MAX_GUARDIAN_OVERRIDES_PER_PERIOD = 3"
definition GUARDIAN_OVERRIDE_PERIOD_SECS :: nat where "GUARDIAN_OVERRIDE_PERIOD_SECS = 30 * 24 * 60 * 60"
definition GUARDIAN_VETO_PERIOD_SECS :: nat where "GUARDIAN_VETO_PERIOD_SECS = 48 * 60 * 60"
definition GUARDIAN_ROLE_ROTATION_SECS :: nat where
  "GUARDIAN_ROLE_ROTATION_SECS = 6 * 30 * 24 * 60 * 60"

record tl_operation =
  op_proposer :: addr
  op_target :: addr
  op_function :: symbol
  op_args :: "val list"
  op_ready_at :: nat
  op_done :: bool

record tl_entry =
  te_operation_id :: hash32
  te_operation :: tl_operation
  te_cancelled :: bool

record guardian_audit =
  ga_action_id :: hash32
  ga_guardian :: addr
  ga_operation_id :: hash32
  ga_justification :: hash32
  ga_timestamp :: nat
  ga_veto_end :: nat
  ga_veto_power :: int
  ga_veto_count :: nat
  ga_vetoed :: bool

record guardian_rotation =
  gr_rotation_id :: nat
  gr_old :: addr
  gr_new :: addr
  gr_time :: nat
  gr_next :: nat

record timelock =
  tl_admin :: "addr option"
  tl_op_count :: "nat option"
  tl_operation_count :: "nat option"
  tl_index :: "nat \<rightharpoonup> hash32"
  tl_op :: "hash32 \<rightharpoonup> tl_operation"
  tl_cancelled :: "hash32 \<rightharpoonup> bool"
  tl_guardian :: "addr option"
  tl_overrides :: "addr \<rightharpoonup> nat list"
  tl_audit :: "hash32 \<rightharpoonup> guardian_audit"
  tl_audit_count :: "nat option"
  tl_rotation :: "nat \<rightharpoonup> guardian_rotation"
  tl_rotation_count :: "nat option"
  tl_last_rotation :: "nat option"
  tl_veto_power :: "hash32 \<rightharpoonup> int"

definition timelock_empty :: timelock where
  "timelock_empty = \<lparr>tl_admin = None, tl_op_count = None, tl_operation_count = None,
     tl_index = Map.empty, tl_op = Map.empty, tl_cancelled = Map.empty, tl_guardian = None,
     tl_overrides = Map.empty, tl_audit = Map.empty, tl_audit_count = None,
     tl_rotation = Map.empty, tl_rotation_count = None, tl_last_rotation = None,
     tl_veto_power = Map.empty\<rparr>"

type_synonym 'a tl_res = "timelock_error fail + 'a"


section \<open>The pure rules of \<open>logic\<close>\<close>

definition tl_is_valid_delay :: "nat \<Rightarrow> bool" where
  "tl_is_valid_delay delay \<longleftrightarrow> TL_MIN_DELAY \<le> delay \<and> delay \<le> TL_MAX_DELAY"

definition tl_compute_ready_at :: "nat \<Rightarrow> nat \<Rightarrow> nat option" where
  "tl_compute_ready_at now delay = checked_u64 (now + delay)"

definition tl_is_executable :: "nat \<Rightarrow> nat \<Rightarrow> bool" where
  "tl_is_executable now ready_at =
    (let ready = sat_u64 (ready_at + TIMESTAMP_TOLERANCE_SECS) \<le> now;
         not_expired = (case checked_u64 (ready_at + OPERATION_EXPIRY_SECS) of
            Some expiry \<Rightarrow> now < expiry | None \<Rightarrow> False)
     in ready \<and> not_expired)"

definition tl_can_transition :: "bool \<Rightarrow> bool" where "tl_can_transition done \<longleftrightarrow> \<not> done"

definition tl_can_cancel :: "bool \<Rightarrow> bool \<Rightarrow> bool" where
  "tl_can_cancel is_proposer is_admin \<longleftrightarrow> is_proposer \<or> is_admin"

definition tl_override_within_limit :: "nat \<Rightarrow> bool" where
  "tl_override_within_limit override_count \<longleftrightarrow> override_count < MAX_GUARDIAN_OVERRIDES_PER_PERIOD"

definition tl_override_period_start :: "nat \<Rightarrow> nat" where
  "tl_override_period_start now = now - GUARDIAN_OVERRIDE_PERIOD_SECS"

definition tl_veto_period_active :: "nat \<Rightarrow> nat \<Rightarrow> bool" where
  "tl_veto_period_active veto_end_time now \<longleftrightarrow> now < veto_end_time"


section \<open>Operations\<close>

definition tl_initialize :: "addr \<Rightarrow> timelock \<Rightarrow> timelock tl_res" where
  "tl_initialize admin s =
    ensure (tl_admin s = None) (Err TlAlreadyInitialized)
      (Inr (s\<lparr>tl_admin := Some admin, tl_op_count := Some 0, tl_operation_count := Some 0\<rparr>))"

definition tl_schedule ::
    "env \<Rightarrow> addr \<Rightarrow> addr \<Rightarrow> symbol \<Rightarrow> val list \<Rightarrow> nat \<Rightarrow> hash32 \<Rightarrow> timelock \<Rightarrow>
     (hash32 \<times> timelock) tl_res" where
  "tl_schedule env caller target function args delay salt s =
    ensure (tl_admin s \<noteq> None) (Err TlNotInitialized) (
    ensure (\<not> (delay < TL_MIN_DELAY \<or> TL_MAX_DELAY < delay)) (Err TlInvalidDelay) (
    ensure (auth_by env caller) AuthDenied (
    rbind (arith_u64 (get_or 0 (tl_op_count s) + 1)) (\<lambda>count.
    let now = ledger_ts env in
    expect (checked_u64 (now + delay)) (Panic ''timestamp overflow'') (\<lambda>ready_at.
    let op_id = sha env [XAddr caller, XAddr target, XSym function, XVals args, XU64 ready_at,
                         XU64 count, XHash salt];
        op = \<lparr>op_proposer = caller, op_target = target, op_function = function, op_args = args,
              op_ready_at = ready_at, op_done = False\<rparr>;
        operation_index = get_or 0 (tl_operation_count s) in
    expect (checked_u32 (operation_index + 1)) (Panic ''operation count overflow'') (\<lambda>next_index.
    Inr (op_id, s\<lparr>tl_op_count := Some count, tl_op := (tl_op s)(op_id \<mapsto> op),
                  tl_index := (tl_index s)(operation_index \<mapsto> op_id),
                  tl_operation_count := Some next_index\<rparr>)))))))"

text \<open>The host refuses a call that re-enters the running contract.\<close>

definition tl_execute :: "'w invoke \<Rightarrow> env \<Rightarrow> hash32 \<Rightarrow> timelock \<times> 'w \<Rightarrow> (timelock \<times> 'w) tl_res" where
  "tl_execute I env operation_id sw =
    (let (s, w) = sw in
    expect (tl_op s operation_id) (Panic ''operation not found'') (\<lambda>op.
    ensure (\<not> op_done op) (Panic ''operation already done'') (
    let now = ledger_ts env in
    ensure (\<not> now < sat_u64 (op_ready_at op + TIMESTAMP_TOLERANCE_SECS)) (Panic ''operation not ready'') (
    expect (checked_u64 (op_ready_at op + OPERATION_EXPIRY_SECS)) (Panic ''timestamp overflow'') (\<lambda>expiry.
    ensure (\<not> expiry \<le> now) (Err TlOperationExpired) (
    ensure (op_target op \<noteq> self_addr env) HostError (
    rbind (call_ext (I (as_invoker env) (op_target op) (op_function op) (op_args op) w)) (\<lambda>w2.
    Inr (s\<lparr>tl_op := (tl_op s)(operation_id \<mapsto> op\<lparr>op_done := True\<rparr>)\<rparr>, w2)))))))))"

definition tl_cancel :: "env \<Rightarrow> hash32 \<Rightarrow> timelock \<Rightarrow> timelock tl_res" where
  "tl_cancel env operation_id s =
    expect (tl_op s operation_id) (Panic ''operation not found'') (\<lambda>op.
    ensure (\<not> op_done op) (Panic ''operation already done'') (
    expect (tl_admin s) (Panic ''not initialized'') (\<lambda>admin.
    ensure (if op_proposer op \<noteq> admin then auth_by env admin else auth_by env (op_proposer op))
      AuthDenied (
    Inr (s\<lparr>tl_op := (tl_op s)(operation_id \<mapsto> op\<lparr>op_done := True\<rparr>),
            tl_cancelled := (tl_cancelled s)(operation_id \<mapsto> True)\<rparr>)))))"

definition validate_guardian_override_limit :: "addr \<Rightarrow> nat \<Rightarrow> timelock \<Rightarrow> timelock tl_res" where
  "validate_guardian_override_limit guardian now s =
    (let period_start = tl_override_period_start now;
         stored_timestamps = get_or [] (tl_overrides s guardian);
         count = fold (\<lambda>timestamp n. if period_start \<le> timestamp then n + 1 else n) stored_timestamps 0
     in ensure (tl_override_within_limit count) (Err TlGuardianLimitExceeded) (
        let new_timestamps = filter (\<lambda>timestamp. period_start \<le> timestamp) stored_timestamps @ [now]
        in Inr (s\<lparr>tl_overrides := (tl_overrides s)(guardian \<mapsto> new_timestamps)\<rparr>)))"

definition record_guardian_action ::
    "env \<Rightarrow> addr \<Rightarrow> hash32 \<Rightarrow> hash32 \<Rightarrow> nat \<Rightarrow> timelock \<Rightarrow> (hash32 \<times> timelock) tl_res" where
  "record_guardian_action env guardian operation_id justification_hash now s =
    (let veto_end_time = sat_u64 (now + GUARDIAN_VETO_PERIOD_SECS) in
     rbind (arith_u32 (get_or 0 (tl_audit_count s) + 1)) (\<lambda>audit_count.
     let action_id = sha env [XAddr guardian, XHash operation_id, XU32 audit_count];
         audit = \<lparr>ga_action_id = action_id, ga_guardian = guardian, ga_operation_id = operation_id,
                  ga_justification = justification_hash, ga_timestamp = now,
                  ga_veto_end = veto_end_time, ga_veto_power = 0, ga_veto_count = 0,
                  ga_vetoed = False\<rparr>
     in Inr (action_id, s\<lparr>tl_audit := (tl_audit s)(action_id \<mapsto> audit),
                          tl_audit_count := Some audit_count\<rparr>)))"

definition tl_emergency_cancel ::
    "env \<Rightarrow> addr \<Rightarrow> hash32 \<Rightarrow> hash32 \<Rightarrow> timelock \<Rightarrow> timelock tl_res" where
  "tl_emergency_cancel env guardian_multisig operation_id reason_hash s =
    expect (tl_guardian s) (Err TlNotGuardian) (\<lambda>stored_guardian.
    ensure (guardian_multisig = stored_guardian) (Err TlNotGuardian) (
    ensure (auth_by env guardian_multisig) AuthDenied (
    ensure (reason_hash \<noteq> 0) (Err TlMissingJustification) (
    expect (tl_op s operation_id) (Err TlOperationNotFound) (\<lambda>op.
    ensure (tl_can_transition (op_done op)) (Err TlAlreadyDone) (
    let now = ledger_ts env in
    rbind (validate_guardian_override_limit guardian_multisig now s) (\<lambda>s1.
    rbind (record_guardian_action env guardian_multisig operation_id reason_hash now s1) (\<lambda>(_, s2).
    Inr (s2\<lparr>tl_op := (tl_op s2)(operation_id \<mapsto> op\<lparr>op_done := True\<rparr>),
             tl_cancelled := (tl_cancelled s2)(operation_id \<mapsto> True)\<rparr>)))))))))"

text \<open>
  The candidate guardian is asked for its threshold and its number of signers; \<open>peers\<close> gives the
  state of the contract at an address.
\<close>

definition tl_set_guardian_multisig ::
    "('m \<Rightarrow> 'g fail + nat) \<Rightarrow> ('m \<Rightarrow> 'g fail + nat) \<Rightarrow> (addr \<Rightarrow> 'm) \<Rightarrow> env \<Rightarrow> addr \<Rightarrow> addr \<Rightarrow>
     timelock \<Rightarrow> timelock tl_res" where
  "tl_set_guardian_multisig get_threshold get_signer_count peers env admin new_guardian s =
    rbind (case tl_guardian s of
        Some current_guardian \<Rightarrow>
          ensure (admin = current_guardian) (Err TlNotGuardian) (
          ensure (auth_by env admin) AuthDenied (Inr ()))
      | None \<Rightarrow>
          expect (tl_admin s) (Err TlNotInitialized) (\<lambda>stored_admin.
          ensure (admin = stored_admin) (Err TlNotAdmin) (
          ensure (auth_by env admin) AuthDenied (Inr ())))) (\<lambda>_.
    rbind (call_ext (get_threshold (peers new_guardian))) (\<lambda>threshold.
    rbind (call_ext (get_signer_count (peers new_guardian))) (\<lambda>signer_count.
    ensure (\<not> (threshold < MIN_GUARDIAN_THRESHOLD \<or> signer_count < MIN_GUARDIAN_SIGNERS))
      (Err TlInvalidGuardianConfig) (
    Inr (s\<lparr>tl_guardian := Some new_guardian\<rparr>)))))"

definition tl_transfer_admin :: "env \<Rightarrow> addr \<Rightarrow> timelock \<Rightarrow> timelock tl_res" where
  "tl_transfer_admin env new_admin s =
    expect (tl_admin s) (Panic ''not initialized'') (\<lambda>admin.
    ensure (auth_by env admin) AuthDenied (Inr (s\<lparr>tl_admin := Some new_admin\<rparr>)))"


section \<open>Views\<close>

definition tl_is_operation_ready :: "env \<Rightarrow> hash32 \<Rightarrow> timelock \<Rightarrow> bool tl_res" where
  "tl_is_operation_ready env operation_id s =
    expect (tl_op s operation_id) (Panic ''operation not found'') (\<lambda>op.
    if op_done op then Inr False else Inr (tl_is_executable (ledger_ts env) (op_ready_at op)))"

definition tl_is_operation_expired :: "env \<Rightarrow> hash32 \<Rightarrow> timelock \<Rightarrow> bool tl_res" where
  "tl_is_operation_expired env operation_id s =
    expect (tl_op s operation_id) (Panic ''operation not found'') (\<lambda>op.
    if op_done op then Inr False else
    expect (checked_u64 (op_ready_at op + OPERATION_EXPIRY_SECS)) (Panic ''timestamp overflow'')
      (\<lambda>expiry. Inr (expiry \<le> ledger_ts env)))"

definition tl_is_operation_done :: "hash32 \<Rightarrow> timelock \<Rightarrow> bool" where
  "tl_is_operation_done operation_id s =
    (case tl_op s operation_id of Some op \<Rightarrow> op_done op | None \<Rightarrow> False)"

definition tl_get_operation_count :: "timelock \<Rightarrow> nat" where
  "tl_get_operation_count s = get_or 0 (tl_operation_count s)"

fun tl_page_loop :: "nat list \<Rightarrow> timelock \<Rightarrow> tl_entry list tl_res" where
  "tl_page_loop [] s = Inr []"
| "tl_page_loop (index # rest) s =
    expect (tl_index s index) (Panic ''operation index is inconsistent'') (\<lambda>operation_id.
    expect (tl_op s operation_id) (Panic ''operation history is inconsistent'') (\<lambda>operation.
    let cancelled = get_or False (tl_cancelled s operation_id);
        entry = \<lparr>te_operation_id = operation_id, te_operation = operation, te_cancelled = cancelled\<rparr>
    in rbind (tl_page_loop rest s) (\<lambda>page. Inr (entry # page))))"

definition tl_get_operations_page :: "nat \<Rightarrow> nat \<Rightarrow> timelock \<Rightarrow> tl_entry list tl_res" where
  "tl_get_operations_page offset limit s =
    (let total = tl_get_operation_count s;
         (start, end) = page_bounds total offset (min limit MAX_PAGE_SIZE)
     in tl_page_loop [start..<end] s)"

definition tl_is_guardian_rotation_due :: "env \<Rightarrow> timelock \<Rightarrow> bool" where
  "tl_is_guardian_rotation_due env s =
    (let last_rotation = get_or 0 (tl_last_rotation s)
     in GUARDIAN_ROLE_ROTATION_SECS \<le> ledger_ts env - last_rotation)"

definition tl_get_guardian_audit :: "hash32 \<Rightarrow> timelock \<Rightarrow> guardian_audit option" where
  "tl_get_guardian_audit action_id s = tl_audit s action_id"

definition tl_get_guardian_audit_count :: "timelock \<Rightarrow> nat" where
  "tl_get_guardian_audit_count s = get_or 0 (tl_audit_count s)"

definition tl_get_guardian_action_veto_power :: "hash32 \<Rightarrow> timelock \<Rightarrow> int" where
  "tl_get_guardian_action_veto_power action_id s = get_or 0 (tl_veto_power s action_id)"

end
