(* ===== verification/TimelockRules.thy ===== *)
theory TimelockRules
  imports Timelock MultisigRules
begin

text \<open>
  Histories of the timelock controller: where a stored operation comes from, that it is finalised
  once, the index of operations, the limit on guardian overrides, and the guardian's interface as
  a locale interpreted on the multisig admin contract.
\<close>

section \<open>The guardian's interface\<close>

locale guardian_contract =
  fixes valid :: "'m \<Rightarrow> bool"
    and get_threshold :: "'m \<Rightarrow> 'g fail + nat"
    and get_signer_count :: "'m \<Rightarrow> 'g fail + nat"
  assumes config: "valid m \<Longrightarrow> get_threshold m = Inr t \<Longrightarrow>
    \<exists>n. get_signer_count m = Inr n \<and> 1 \<le> t \<and> t \<le> n"
begin

lemma registered_guardian:
  assumes "tl_set_guardian_multisig get_threshold get_signer_count peers env a g s = Inr s'"
    "valid (peers g)"
  shows "\<exists>t n. get_threshold (peers g) = Inr t \<and> get_signer_count (peers g) = Inr n \<and>
    4 \<le> t \<and> t \<le> n \<and> 7 \<le> n \<and> s' = s\<lparr>tl_guardian := Some g\<rparr>"
  using assms config [OF assms(2)]
  by (auto simp: tl_set_guardian_multisig_def res_simps not_less MIN_GUARDIAN_THRESHOLD_def
      MIN_GUARDIAN_SIGNERS_def)

end

interpretation msig_guardian: guardian_contract gov_ok msig_get_threshold msig_get_signer_count
  by unfold_locales
     (auto simp: gov_ok_def msig_get_threshold_def msig_get_signer_count_def res_simps)


section \<open>Histories\<close>

datatype tl_call =
    TInit addr
  | TSchedule addr addr symbol "val list" nat hash32
  | TExecute hash32
  | TCancel hash32
  | TEmergency addr hash32 hash32
  | TGuardian addr addr
  | TTransfer addr

definition tl_world :: "'w \<Rightarrow> timelock tl_res \<Rightarrow> (timelock \<times> 'w) tl_res" where
  "tl_world w r = rbind r (\<lambda>s. Inr (s, w))"

lemma tl_world_Inr [res_simps]: "tl_world w r = Inr (s, w') \<longleftrightarrow> r = Inr s \<and> w' = w"
  by (auto simp: tl_world_def res_simps)

text \<open>\<open>P w a\<close> is the state of the multisig at address \<open>a\<close> when the world is \<open>w\<close>.\<close>

fun tl_exec ::
    "'w invoke \<Rightarrow> ('w \<Rightarrow> addr \<Rightarrow> msig) \<Rightarrow> env \<Rightarrow> tl_call \<Rightarrow> timelock \<times> 'w \<Rightarrow> (timelock \<times> 'w) tl_res" where
  "tl_exec I P env (TInit a) (s, w) = tl_world w (tl_initialize a s)"
| "tl_exec I P env (TSchedule a x f vs d salt) (s, w) =
     tl_world w (rbind (tl_schedule env a x f vs d salt s) (\<lambda>(_, s'). Inr s'))"
| "tl_exec I P env (TExecute k) (s, w) = tl_execute I env k (s, w)"
| "tl_exec I P env (TCancel k) (s, w) = tl_world w (tl_cancel env k s)"
| "tl_exec I P env (TEmergency g k r) (s, w) = tl_world w (tl_emergency_cancel env g k r s)"
| "tl_exec I P env (TGuardian a g) (s, w) =
     tl_world w (tl_set_guardian_multisig msig_get_threshold msig_get_signer_count (P w) env a g s)"
| "tl_exec I P env (TTransfer a) (s, w) = tl_world w (tl_transfer_admin env a s)"

type_synonym tl_log = "(env \<times> timelock \<times> tl_call) list"

inductive tl_hist ::
    "'w invoke \<Rightarrow> ('w \<Rightarrow> addr \<Rightarrow> msig) \<Rightarrow> tl_log \<Rightarrow> timelock \<Rightarrow> 'w \<Rightarrow> bool"
  for I :: "'w invoke" and P :: "'w \<Rightarrow> addr \<Rightarrow> msig" where
  tl_empty: "tl_hist I P [] timelock_empty w"
| tl_step: "tl_hist I P h s w \<Longrightarrow> tl_exec I P env c (s, w) = Inr (s', w') \<Longrightarrow>
     tl_hist I P ((env, s, c) # h) s' w'"
| tl_other: "tl_hist I P h s w \<Longrightarrow> tl_hist I P h s w'"

definition tl_payload ::
    "env \<Rightarrow> timelock \<Rightarrow> addr \<Rightarrow> addr \<Rightarrow> symbol \<Rightarrow> val list \<Rightarrow> nat \<Rightarrow> hash32 \<Rightarrow> xdr list" where
  "tl_payload env s a x f vs d salt = [XAddr a, XAddr x, XSym f, XVals vs, XU64 (ledger_ts env + d),
     XU64 (get_or 0 (tl_op_count s) + 1), XHash salt]"

text \<open>The payloads and the identifiers of the scheduled operations, the oldest first.\<close>

fun payloads :: "tl_log \<Rightarrow> xdr list list" where
  "payloads [] = []"
| "payloads ((env, s, TSchedule a x f vs d salt) # h) = payloads h @ [tl_payload env s a x f vs d salt]"
| "payloads (_ # h) = payloads h"

fun scheduled :: "tl_log \<Rightarrow> hash32 list" where
  "scheduled [] = []"
| "scheduled ((env, s, TSchedule a x f vs d salt) # h) =
     scheduled h @ [sha env (tl_payload env s a x f vs d salt)]"
| "scheduled (_ # h) = scheduled h"

text \<open>How often operation \<open>k\<close> was finalised: executed or cancelled.\<close>

fun finalised :: "tl_log \<Rightarrow> hash32 \<Rightarrow> nat" where
  "finalised [] k = 0"
| "finalised ((env, s, TExecute j) # h) k = finalised h k + (if j = k then 1 else 0)"
| "finalised ((env, s, TCancel j) # h) k = finalised h k + (if j = k then 1 else 0)"
| "finalised ((env, s, TEmergency g j r) # h) k = finalised h k + (if j = k then 1 else 0)"
| "finalised (_ # h) k = finalised h k"

text \<open>The times of the emergency cancellations by guardian \<open>g\<close>, the latest first.\<close>

fun overrides :: "tl_log \<Rightarrow> addr \<Rightarrow> nat list" where
  "overrides [] g = []"
| "overrides ((env, s, TEmergency j k r) # h) g =
     (if j = g then ledger_ts env # overrides h g else overrides h g)"
| "overrides (_ # h) g = overrides h g"


section \<open>Inversion of the operations\<close>

lemma tl_schedule_Inr:
  assumes "tl_schedule env a x f vs d salt s = Inr (k, s')"
  shows "tl_admin s \<noteq> None" "TL_MIN_DELAY \<le> d" "d \<le> TL_MAX_DELAY" "auth_by env a"
    "k = sha env (tl_payload env s a x f vs d salt)"
    "s' = s\<lparr>tl_op_count := Some (get_or 0 (tl_op_count s) + 1),
       tl_op := (tl_op s)(k \<mapsto> \<lparr>op_proposer = a, op_target = x, op_function = f, op_args = vs,
                              op_ready_at = ledger_ts env + d, op_done = False\<rparr>),
       tl_index := (tl_index s)(get_or 0 (tl_operation_count s) \<mapsto> k),
       tl_operation_count := Some (get_or 0 (tl_operation_count s) + 1)\<rparr>"
  using assms by (auto simp: tl_schedule_def Let_def res_simps tl_payload_def)

lemma tl_execute_Inr:
  assumes "tl_execute I env k (s, w) = Inr (s', w')"
  obtains p where "tl_op s k = Some p" "\<not> op_done p"
    "sat_u64 (op_ready_at p + 60) \<le> ledger_ts env" "ledger_ts env < op_ready_at p + 14 * 86400"
    "I (as_invoker env) (op_target p) (op_function p) (op_args p) w = Inr w'"
    "s' = s\<lparr>tl_op := (tl_op s)(k \<mapsto> p\<lparr>op_done := True\<rparr>)\<rparr>"
  using assms
  by (auto simp: tl_execute_def Let_def res_simps not_less not_le TIMESTAMP_TOLERANCE_SECS_def
      OPERATION_EXPIRY_SECS_def)

lemma tl_cancel_Inr:
  assumes "tl_cancel env k s = Inr s'"
  obtains p a where "tl_op s k = Some p" "\<not> op_done p" "tl_admin s = Some a" "auth_by env a"
    "s' = s\<lparr>tl_op := (tl_op s)(k \<mapsto> p\<lparr>op_done := True\<rparr>),
            tl_cancelled := (tl_cancelled s)(k \<mapsto> True)\<rparr>"
  using assms by (auto simp: tl_cancel_def res_simps split: if_splits)

lemma count_fold: "fold (\<lambda>t n. if p \<le> t then n + 1 else n) ts n = n + length (filter (\<lambda>t. p \<le> t) ts)"
  by (induction ts arbitrary: n) auto

definition override_start :: "nat \<Rightarrow> nat" where "override_start now = now - 30 * 86400"

lemma tl_emergency_Inr:
  assumes "tl_emergency_cancel env g k r s = Inr s'"
  obtains p A n where "tl_op s k = Some p" "\<not> op_done p" "tl_guardian s = Some g" "auth_by env g" "r \<noteq> 0"
    "length (filter (\<lambda>t. override_start (ledger_ts env) \<le> t) (get_or [] (tl_overrides s g))) < 3"
    "s' = s\<lparr>tl_overrides := (tl_overrides s)(g \<mapsto>
              filter (\<lambda>t. override_start (ledger_ts env) \<le> t) (get_or [] (tl_overrides s g)) @ [ledger_ts env]),
            tl_audit := A, tl_audit_count := n,
            tl_op := (tl_op s)(k \<mapsto> p\<lparr>op_done := True\<rparr>),
            tl_cancelled := (tl_cancelled s)(k \<mapsto> True)\<rparr>"
  using assms
  by (auto simp: tl_emergency_cancel_def validate_guardian_override_limit_def record_guardian_action_def
      tl_can_transition_def tl_override_within_limit_def tl_override_period_start_def override_start_def
      MAX_GUARDIAN_OVERRIDES_PER_PERIOD_def GUARDIAN_OVERRIDE_PERIOD_SECS_def Let_def res_simps count_fold)

lemma tl_guardian_Inr:
  assumes "tl_set_guardian_multisig th n peers env a g s = Inr s'"
  shows "s' = s\<lparr>tl_guardian := Some g\<rparr>" "auth_by env a"
    "tl_guardian s = Some a \<or> tl_guardian s = None \<and> tl_admin s = Some a"
  using assms by (auto simp: tl_set_guardian_multisig_def res_simps split: option.splits)

lemmas tl_small = tl_initialize_def tl_transfer_admin_def


section \<open>The effect of a call on operations and index\<close>

text \<open>
  Every accepted call schedules one operation, finalises one pending operation, or leaves
  operations and index as they are.
\<close>

lemma tl_effect:
  assumes "tl_exec I P env c (s, w) = Inr (s', w')"
  obtains (schedule) a x f vs d salt k where "c = TSchedule a x f vs d salt"
      "tl_schedule env a x f vs d salt s = Inr (k, s')"
  | (finalise) k p where "finalised ((env, s, c) # h) = (finalised h)(k := finalised h k + 1)"
      "scheduled ((env, s, c) # h) = scheduled h" "payloads ((env, s, c) # h) = payloads h"
      "tl_op s k = Some p" "\<not> op_done p"
      "tl_op s' = (tl_op s)(k \<mapsto> p\<lparr>op_done := True\<rparr>)" "tl_index s' = tl_index s"
      "tl_operation_count s' = tl_operation_count s" "tl_op_count s' = tl_op_count s"
      "tl_admin s' = tl_admin s"
  | (start) a where "c = TInit a" "tl_admin s = None"
      "s' = s\<lparr>tl_admin := Some a, tl_op_count := Some 0, tl_operation_count := Some 0\<rparr>"
  | (other) "finalised ((env, s, c) # h) = finalised h"
      "scheduled ((env, s, c) # h) = scheduled h" "payloads ((env, s, c) # h) = payloads h"
      "tl_op s' = tl_op s" "tl_index s' = tl_index s"
      "tl_operation_count s' = tl_operation_count s" "tl_op_count s' = tl_op_count s"
      "tl_admin s' = None \<longleftrightarrow> tl_admin s = None"
proof (cases c)
  case (TInit a)
  with assms start show thesis by (auto simp: tl_small res_simps)
next
  case (TSchedule a x f vs d salt)
  with assms schedule show thesis by (auto simp: res_simps)
next
  case (TExecute k)
  with assms have "tl_execute I env k (s, w) = Inr (s', w')" by simp
  then show thesis
    by (rule tl_execute_Inr) (rule finalise; auto simp: TExecute fun_eq_iff)
next
  case (TCancel k)
  with assms have "tl_cancel env k s = Inr s'" by (simp add: res_simps)
  then show thesis
    by (rule tl_cancel_Inr) (rule finalise; auto simp: TCancel fun_eq_iff)
next
  case (TEmergency g k r)
  with assms have "tl_emergency_cancel env g k r s = Inr s'" by (simp add: res_simps)
  then show thesis
    by (rule tl_emergency_Inr) (rule finalise; auto simp: TEmergency fun_eq_iff)
next
  case (TGuardian a g)
  with assms have "tl_set_guardian_multisig msig_get_threshold msig_get_signer_count (P w) env a g s = Inr s'"
    by (simp add: res_simps)
  from tl_guardian_Inr(1) [OF this] show thesis by (intro other) (auto simp: TGuardian fun_eq_iff)
next
  case (TTransfer a)
  with assms show thesis by (intro other) (auto simp: tl_small res_simps)
qed


section \<open>Where a stored operation comes from\<close>

definition sourced :: "tl_log \<Rightarrow> timelock \<Rightarrow> bool" where
  "sourced h s \<longleftrightarrow> (\<forall>k p. tl_op s k = Some p \<longrightarrow> (\<exists>env s0 d salt.
     (env, s0, TSchedule (op_proposer p) (op_target p) (op_function p) (op_args p) d salt) \<in> set h \<and>
     auth_by env (op_proposer p) \<and> TL_MIN_DELAY \<le> d \<and> d \<le> TL_MAX_DELAY \<and>
     op_ready_at p = ledger_ts env + d))"

lemma sourcedD:
  assumes "sourced h s" "tl_op s k = Some p"
  obtains env s0 d salt where
    "(env, s0, TSchedule (op_proposer p) (op_target p) (op_function p) (op_args p) d salt) \<in> set h"
    "auth_by env (op_proposer p)" "TL_MIN_DELAY \<le> d" "d \<le> TL_MAX_DELAY" "op_ready_at p = ledger_ts env + d"
  using assms unfolding sourced_def by blast

lemma sourced_mono:
  assumes "sourced h s" "set h \<subseteq> set h'" "\<And>k p. tl_op s' k = Some p \<Longrightarrow>
    \<exists>q. tl_op s k = Some q \<and> op_proposer p = op_proposer q \<and> op_target p = op_target q \<and>
      op_function p = op_function q \<and> op_args p = op_args q \<and> op_ready_at p = op_ready_at q"
  shows "sourced h' s'"
  unfolding sourced_def
proof (intro allI impI)
  fix k p assume "tl_op s' k = Some p"
  from assms(3) [OF this] obtain q where q: "tl_op s k = Some q" "op_proposer p = op_proposer q"
      "op_target p = op_target q" "op_function p = op_function q" "op_args p = op_args q"
      "op_ready_at p = op_ready_at q" by blast
  from assms(1) q(1) show "\<exists>env s0 d salt.
     (env, s0, TSchedule (op_proposer p) (op_target p) (op_function p) (op_args p) d salt) \<in> set h' \<and>
     auth_by env (op_proposer p) \<and> TL_MIN_DELAY \<le> d \<and> d \<le> TL_MAX_DELAY \<and>
     op_ready_at p = ledger_ts env + d"
    unfolding q(2-6) by (rule sourcedD) (use assms(2) in blast)
qed

lemma exec_sourced:
  assumes "tl_exec I P env c (s, w) = Inr (s', w')" "sourced h s"
  shows "sourced ((env, s, c) # h) s'"
  using assms(1)
proof (cases rule: tl_effect [where h = h])
  case (schedule a x f vs d salt k)
  note op = tl_schedule_Inr [OF schedule(2)]
  show ?thesis unfolding sourced_def
  proof (intro allI impI)
    fix j p assume p: "tl_op s' j = Some p"
    show "\<exists>e s0 d salt.
     (e, s0, TSchedule (op_proposer p) (op_target p) (op_function p) (op_args p) d salt) \<in> set ((env, s, c) # h) \<and>
     auth_by e (op_proposer p) \<and> TL_MIN_DELAY \<le> d \<and> d \<le> TL_MAX_DELAY \<and>
     op_ready_at p = ledger_ts e + d"
    proof (cases "j = k")
      case True
      with p op show ?thesis
        by (intro exI [of _ env] exI [of _ s] exI [of _ d] exI [of _ salt]) (auto simp: schedule(1))
    next
      case False
      with p op(6) have "tl_op s j = Some p" by simp
      with assms(2) show ?thesis by (rule sourcedD) auto
    qed
  qed
qed (rule sourced_mono [OF assms(2)]; auto split: if_splits)+

lemma hist_sourced: "tl_hist I P h s w \<Longrightarrow> sourced h s"
proof (induction rule: tl_hist.induct)
  case (tl_empty w)
  then show ?case by (simp add: sourced_def timelock_empty_def)
qed (auto intro: exec_sourced)


section \<open>The index of operations\<close>

definition indexed :: "tl_log \<Rightarrow> timelock \<Rightarrow> bool" where
  "indexed h s \<longleftrightarrow> get_or 0 (tl_operation_count s) = length (scheduled h) \<and>
     get_or 0 (tl_op_count s) = length (payloads h) \<and>
     (tl_admin s = None \<longrightarrow> scheduled h = [] \<and> payloads h = []) \<and>
     (\<forall>i < length (scheduled h). tl_index s i = Some (scheduled h ! i)) \<and>
     (\<forall>k. tl_op s k \<noteq> None \<longleftrightarrow> k \<in> set (scheduled h))"

lemma exec_indexed:
  assumes "tl_exec I P env c (s, w) = Inr (s', w')" "indexed h s"
  shows "indexed ((env, s, c) # h) s'"
  using assms(1)
proof (cases rule: tl_effect [where h = h])
  case (schedule a x f vs d salt k)
  note op = tl_schedule_Inr [OF schedule(2)]
  have [simp]: "scheduled ((env, s, c) # h) = scheduled h @ [k]"
    "payloads ((env, s, c) # h) = payloads h @ [tl_payload env s a x f vs d salt]"
    by (simp_all add: schedule(1) op(5))
  from assms(2) op(1) show ?thesis
    by (auto simp: op(6) indexed_def nth_append less_Suc_eq)
next
  case (start a)
  with assms(2) show ?thesis by (auto simp: indexed_def)
qed (use assms(2) in \<open>auto simp: indexed_def\<close>)

lemma hist_indexed: "tl_hist I P h s w \<Longrightarrow> indexed h s"
proof (induction rule: tl_hist.induct)
  case (tl_empty w)
  then show ?case by (simp add: indexed_def timelock_empty_def)
qed (auto intro: exec_indexed)

lemma page_loop_total:
  "indexed h s \<Longrightarrow> \<forall>i \<in> set is. i < length (scheduled h) \<Longrightarrow>
   tl_page_loop is s = Inr (map (\<lambda>i. let k = scheduled h ! i in
     \<lparr>te_operation_id = k, te_operation = the (tl_op s k), te_cancelled = get_or False (tl_cancelled s k)\<rparr>) is)"
proof (induction "is")
  case (Cons i "is")
  then have "tl_index s i = Some (scheduled h ! i)" by (simp add: indexed_def)
  moreover obtain p where "tl_op s (scheduled h ! i) = Some p"
    using Cons.prems by (force simp: indexed_def)
  ultimately show ?case using Cons by (simp add: Let_def)
qed simp


section \<open>Finalisation\<close>

text \<open>
  Operation identifiers are hashes of the payloads. Payloads contain a counter, so they differ;
  identifiers differ when the hash does not collide on them.
\<close>

definition same_hash :: "(xdr list \<Rightarrow> hash32) \<Rightarrow> tl_log \<Rightarrow> bool" where
  "same_hash H h \<longleftrightarrow> (\<forall>(env, s, c) \<in> set h. sha env = H)"

lemma same_hash_simps [simp]:
  "same_hash H []" "same_hash H ((env, s, c) # h) \<longleftrightarrow> sha env = H \<and> same_hash H h"
  by (auto simp: same_hash_def)

lemma scheduled_hashes: "same_hash H h \<Longrightarrow> scheduled h = map H (payloads h)"
proof (induction h)
  case (Cons e h)
  obtain env s c where "e = (env, s, c)" by (cases e)
  with Cons show ?case by (cases c) auto
qed simp

definition payload_count :: "xdr list \<Rightarrow> xdr" where "payload_count x = x ! 5"

lemma hist_payloads:
  "tl_hist I P h s w \<Longrightarrow> map payload_count (payloads h) = map XU64 [1..<length (payloads h) + 1]"
proof (induction rule: tl_hist.induct)
  case (tl_step h s w env c s' w')
  show ?case
    using tl_step(2)
  proof (cases rule: tl_effect [where h = h])
    case (schedule a x f vs d salt k)
    have "get_or 0 (tl_op_count s) = length (payloads h)"
      using hist_indexed [OF tl_step(1)] by (simp add: indexed_def)
    then have "payload_count (tl_payload env s a x f vs d salt) = XU64 (length (payloads h) + 1)"
      by (simp add: payload_count_def tl_payload_def)
    with tl_step(3) schedule(1) show ?thesis by simp
  qed (use tl_step(3) in auto)
qed simp_all

lemma hist_distinct:
  assumes "tl_hist I P h s w" "same_hash H h" "inj_on H (set (payloads h))"
  shows "distinct (scheduled h)"
proof -
  have "distinct (map payload_count (payloads h))"
    unfolding hist_payloads [OF assms(1)] by (simp add: distinct_map inj_on_def del: upt_Suc)
  then have "distinct (payloads h)" by (simp only: distinct_map)
  with assms(2,3) show ?thesis by (simp add: scheduled_hashes distinct_map)
qed

definition final_ok :: "tl_log \<Rightarrow> timelock \<Rightarrow> bool" where
  "final_ok h s \<longleftrightarrow> (\<forall>k. finalised h k =
     (case tl_op s k of Some p \<Rightarrow> (if op_done p then 1 else 0) | None \<Rightarrow> 0))"

lemma exec_final:
  assumes "tl_exec I P env c (s, w) = Inr (s', w')" "indexed h s" "final_ok h s"
    "distinct (scheduled ((env, s, c) # h))"
  shows "final_ok ((env, s, c) # h) s'"
  using assms(1)
proof (cases rule: tl_effect [where h = h])
  case (schedule a x f vs d salt k)
  note op = tl_schedule_Inr [OF schedule(2)]
  have "k \<notin> set (scheduled h)" using assms(4) by (simp add: schedule(1) op(5))
  then have new: "tl_op s k = None" using assms(2) unfolding indexed_def by blast
  show ?thesis unfolding final_ok_def
  proof
    fix j
    have "finalised ((env, s, c) # h) j = finalised h j" by (simp add: schedule(1))
    moreover have "tl_op s' j = (if j = k then Some \<lparr>op_proposer = a, op_target = x, op_function = f,
        op_args = vs, op_ready_at = ledger_ts env + d, op_done = False\<rparr> else tl_op s j)"
      using op(6) by simp
    ultimately show "finalised ((env, s, c) # h) j =
        (case tl_op s' j of None \<Rightarrow> 0 | Some p \<Rightarrow> if op_done p then 1 else 0)"
      using assms(3) new by (simp add: final_ok_def)
  qed
next
  case (finalise k p)
  show ?thesis unfolding final_ok_def finalise(1,6)
    using assms(3) finalise(4,5) by (simp add: final_ok_def)
next
  case (start a)
  with assms(3) show ?thesis by (simp add: final_ok_def)
qed (use assms(3) in \<open>simp add: final_ok_def\<close>)

lemma scheduled_prefix: "distinct (scheduled (e # h)) \<Longrightarrow> distinct (scheduled h)"
proof -
  obtain env s c where "e = (env, s, c)" by (cases e)
  then show "distinct (scheduled (e # h)) \<Longrightarrow> distinct (scheduled h)" by (cases c) auto
qed

lemma hist_final: "tl_hist I P h s w \<Longrightarrow> distinct (scheduled h) \<Longrightarrow> final_ok h s"
proof (induction rule: tl_hist.induct)
  case (tl_empty w)
  then show ?case by (simp add: final_ok_def timelock_empty_def)
next
  case (tl_step h s w env c s' w')
  from scheduled_prefix [OF tl_step(4)] tl_step(3) have "final_ok h s" by simp
  with tl_step(4) show ?case by (intro exec_final [OF tl_step(2) hist_indexed [OF tl_step(1)]])
qed


section \<open>The guardian's limit\<close>

text \<open>Ledger time never decreases along a history.\<close>

fun timed :: "tl_log \<Rightarrow> bool" where
  "timed [] = True"
| "timed ((env, s, c) # h) = (list_all (\<lambda>(e, _, _). ledger_ts e \<le> ledger_ts env) h \<and> timed h)"

definition limit_ok :: "tl_log \<Rightarrow> timelock \<Rightarrow> bool" where
  "limit_ok h s \<longleftrightarrow> (\<forall>g. (overrides h g = [] \<longrightarrow> get_or [] (tl_overrides s g) = []) \<and>
     (\<forall>b. overrides h g \<noteq> [] \<longrightarrow> override_start (hd (overrides h g)) \<le> b \<longrightarrow>
        length (filter (\<lambda>t. b \<le> t) (get_or [] (tl_overrides s g))) =
        length (filter (\<lambda>t. b \<le> t) (overrides h g))))"

lemma limit_okD:
  assumes "limit_ok h s"
  shows "overrides h g = [] \<Longrightarrow> get_or [] (tl_overrides s g) = []"
    "overrides h g \<noteq> [] \<Longrightarrow> override_start (hd (overrides h g)) \<le> b \<Longrightarrow>
      length (filter (\<lambda>t. b \<le> t) (get_or [] (tl_overrides s g))) =
      length (filter (\<lambda>t. b \<le> t) (overrides h g))"
  using assms unfolding limit_ok_def by blast+

lemma limit_count:
  assumes "limit_ok h s" "\<forall>t \<in> set (overrides h g). t \<le> now" "override_start now \<le> b"
  shows "length (filter (\<lambda>t. b \<le> t) (get_or [] (tl_overrides s g))) =
     length (filter (\<lambda>t. b \<le> t) (overrides h g))"
proof (cases "overrides h g")
  case Nil
  with limit_okD(1) [OF assms(1)] show ?thesis by simp
next
  case (Cons t ts)
  then have "override_start (hd (overrides h g)) \<le> b"
    using assms(2,3) by (auto simp: override_start_def)
  with limit_okD(2) [OF assms(1)] Cons show ?thesis by simp
qed

lemma overrides_timed:
  "timed ((env, s, c) # h) \<Longrightarrow> \<forall>t \<in> set (overrides h g). t \<le> ledger_ts env"
proof (induction h)
  case (Cons e h)
  obtain env1 s1 c1 where "e = (env1, s1, c1)" by (cases e)
  with Cons show ?case by (cases c1) auto
qed simp

lemma exec_limit:
  assumes "tl_exec I P env c (s, w) = Inr (s', w')" "limit_ok h s" "timed ((env, s, c) # h)"
  shows "limit_ok ((env, s, c) # h) s'"
proof (cases "\<exists>g k r. c = TEmergency g k r")
  case True
  then obtain g k r where c: "c = TEmergency g k r" by blast
  with assms(1) have "tl_emergency_cancel env g k r s = Inr s'" by (simp add: res_simps)
  then have s': "tl_overrides s' = (tl_overrides s)(g \<mapsto>
      filter (\<lambda>t. override_start (ledger_ts env) \<le> t) (get_or [] (tl_overrides s g)) @ [ledger_ts env])"
    by (rule tl_emergency_Inr) simp
  have new: "length (filter (\<lambda>t. b \<le> t) (filter (\<lambda>t. override_start (ledger_ts env) \<le> t)
        (get_or [] (tl_overrides s g)))) = length (filter (\<lambda>t. b \<le> t) (overrides h g))"
    if "override_start (ledger_ts env) \<le> b" for b
  proof -
    have "filter (\<lambda>t. b \<le> t) (filter (\<lambda>t. override_start (ledger_ts env) \<le> t) xs) = filter (\<lambda>t. b \<le> t) xs" for xs
      using that by (auto simp: filter_filter intro!: filter_cong)
    with limit_count [OF assms(2) overrides_timed [OF assms(3)] that] show ?thesis by simp
  qed
  show ?thesis unfolding limit_ok_def
  proof (intro allI conjI impI)
    fix j assume "overrides ((env, s, c) # h) j = []"
    then have "j \<noteq> g" "overrides h j = []" by (simp_all add: c split: if_splits)
    then show "get_or [] (tl_overrides s' j) = []"
      using limit_okD(1) [OF assms(2), of j] by (simp add: s')
  next
    fix j b assume j: "overrides ((env, s, c) # h) j \<noteq> []"
      and b: "override_start (hd (overrides ((env, s, c) # h) j)) \<le> b"
    show "length (filter (\<lambda>t. b \<le> t) (get_or [] (tl_overrides s' j))) =
        length (filter (\<lambda>t. b \<le> t) (overrides ((env, s, c) # h) j))"
    proof (cases "j = g")
      case True
      with b new [of b] show ?thesis by (simp add: c s')
    next
      case False
      with j b limit_okD(2) [OF assms(2), of j b] show ?thesis by (simp add: c s')
    qed
  qed
next
  case False
  then have "overrides ((env, s, c) # h) = overrides h" by (cases c) auto
  moreover have "tl_overrides s' = tl_overrides s"
  proof (cases c)
    case (TSchedule a x f vs d salt)
    with assms(1) obtain k where "tl_schedule env a x f vs d salt s = Inr (k, s')"
      by (auto simp: res_simps)
    from tl_schedule_Inr(6) [OF this] show ?thesis by simp
  next
    case (TExecute k)
    with assms(1) have "tl_execute I env k (s, w) = Inr (s', w')" by simp
    then show ?thesis by (rule tl_execute_Inr) simp
  next
    case (TCancel k)
    with assms(1) have "tl_cancel env k s = Inr s'" by (simp add: res_simps)
    then show ?thesis by (rule tl_cancel_Inr) simp
  next
    case (TGuardian a g)
    with assms(1) show ?thesis by (auto simp: res_simps dest: tl_guardian_Inr(1))
  qed (use assms(1) False in \<open>auto simp: tl_small res_simps\<close>)
  ultimately show ?thesis using assms(2) by (simp add: limit_ok_def)
qed

lemma hist_limit: "tl_hist I P h s w \<Longrightarrow> timed h \<Longrightarrow> limit_ok h s"
proof (induction rule: tl_hist.induct)
  case (tl_empty w)
  then show ?case by (simp add: limit_ok_def timelock_empty_def)
next
  case (tl_step h s w env c s' w')
  then show ?case by (intro exec_limit [OF tl_step(2)]) auto
qed

end
