(* ===== verification/TimelockProps.thy ===== *)
theory TimelockProps
  imports TimelockRules MultisigProps
begin

text \<open>The properties of the timelock controller, with concrete runs.\<close>

section \<open>A concrete run\<close>

definition tl_demo_env :: "nat \<Rightarrow> addr list \<Rightarrow> env" where
  "tl_demo_env t signers = (demo_env t signers)\<lparr>sha := (\<lambda>x. case x ! 5 of XU64 n \<Rightarrow> n + 100 | _ \<Rightarrow> 0)\<rparr>"

definition tl_demo_op :: tl_operation where
  "tl_demo_op = \<lparr>op_proposer = 5, op_target = 9, op_function = ''set_fee'', op_args = [VU32 7],
     op_ready_at = 173000, op_done = False\<rparr>"

definition tl_demo_state :: timelock where
  "tl_demo_state = timelock_empty\<lparr>tl_admin := Some 1, tl_op_count := Some 1,
     tl_operation_count := Some 1, tl_op := [101 \<mapsto> tl_demo_op], tl_index := [0 \<mapsto> 101]\<rparr>"

definition tl_demo_started :: timelock where
  "tl_demo_started = timelock_empty\<lparr>tl_admin := Some 1, tl_op_count := Some 0,
     tl_operation_count := Some 0\<rparr>"

definition tl_demo_log :: tl_log where
  "tl_demo_log =
     [(tl_demo_env 200 [5], tl_demo_started, TSchedule 5 9 ''set_fee'' [VU32 7] 172800 3),
      (tl_demo_env 100 [], timelock_empty, TInit 1)]"

lemmas tl_eval =
  tl_demo_env_def demo_env_def tl_schedule_def tl_initialize_def tl_execute_def Let_def
  TL_MIN_DELAY_def TL_MAX_DELAY_def OPERATION_EXPIRY_SECS_def TIMESTAMP_TOLERANCE_SECS_def
  width_defs timelock_empty_def tl_demo_started_def tl_demo_state_def tl_demo_op_def tl_demo_log_def

lemma tl_demo_hist: "tl_hist accept_all P tl_demo_log tl_demo_state 0"
proof -
  have "tl_hist accept_all P [(tl_demo_env 100 [], timelock_empty, TInit 1)] tl_demo_started 0"
    by (rule tl_step [OF tl_empty]) (simp add: tl_eval tl_world_def)
  from tl_step [OF this, of "tl_demo_env 200 [5]" "TSchedule 5 9 ''set_fee'' [VU32 7] 172800 3"
      tl_demo_state 0]
  show ?thesis by (simp add: tl_eval tl_world_def)
qed

lemma tl_demo_execute:
  "tl_execute accept_all (tl_demo_env 180000 []) 101 (tl_demo_state, 0) =
     Inr (tl_demo_state\<lparr>tl_op := [101 \<mapsto> tl_demo_op\<lparr>op_done := True\<rparr>]\<rparr>, 1)"
  by (simp add: tl_eval accept_all_def)


section \<open>Properties\<close>

text \<open>
  C27. Delay. In every history of the timelock, an operation that executes was scheduled by an
  address that authorised it, with the same target, function and arguments as are dispatched, and
  it runs no earlier than 48 hours and one minute and before 44 days after that call.
\<close>

theorem timelock_delay:
  assumes "tl_hist I P h s w" "tl_execute I env k (s, w) = Inr (s', w')" "ledger_ts env < u64_max"
  shows "\<exists>p e s0 d salt.
    (e, s0, TSchedule (op_proposer p) (op_target p) (op_function p) (op_args p) d salt) \<in> set h \<and>
    auth_by e (op_proposer p) \<and> tl_op s k = Some p \<and> \<not> op_done p \<and>
    I (as_invoker env) (op_target p) (op_function p) (op_args p) w = Inr w' \<and>
    ledger_ts e + 48 * 3600 + 60 \<le> ledger_ts env \<and> ledger_ts env < ledger_ts e + 44 * 86400"
proof -
  obtain p where p: "tl_op s k = Some p" "\<not> op_done p" "sat_u64 (op_ready_at p + 60) \<le> ledger_ts env"
      "ledger_ts env < op_ready_at p + 14 * 86400"
      "I (as_invoker env) (op_target p) (op_function p) (op_args p) w = Inr w'"
    using assms(2) by (rule tl_execute_Inr)
  obtain e s0 d salt where e:
      "(e, s0, TSchedule (op_proposer p) (op_target p) (op_function p) (op_args p) d salt) \<in> set h"
      "auth_by e (op_proposer p)" "TL_MIN_DELAY \<le> d" "d \<le> TL_MAX_DELAY" "op_ready_at p = ledger_ts e + d"
    using hist_sourced [OF assms(1)] p(1) by (rule sourcedD)
  have "op_ready_at p + 60 \<le> ledger_ts env"
    using p(3) assms(3) by (simp add: sat_u64_def min_def split: if_splits)
  with e p(4) have "ledger_ts e + 48 * 3600 + 60 \<le> ledger_ts env \<and> ledger_ts env < ledger_ts e + 44 * 86400"
    by (simp add: TL_MIN_DELAY_def TL_MAX_DELAY_def)
  with e(1,2) p(1,2,5) show ?thesis by blast
qed

theorem timelock_delay_witness:
  "\<exists>p. tl_op tl_demo_state 101 = Some p \<and> \<not> op_done p"
  using timelock_delay [OF tl_demo_hist tl_demo_execute] by (auto simp: tl_eval)

text \<open>
  C28. Every operation is finalised at most once. In every history with one hash function that does
  not collide on the payloads scheduled in it, each operation identifier is executed, cancelled or
  emergency-cancelled at most once in total, and it is marked done exactly when that has happened.
\<close>

theorem timelock_final_once:
  assumes "tl_hist I P h s w" "same_hash H h" "inj_on H (set (payloads h))"
  shows "finalised h k \<le> 1 \<and> (finalised h k = 1 \<longleftrightarrow> tl_is_operation_done k s)"
  using hist_final [OF assms(1) hist_distinct [OF assms]]
  by (auto simp: final_ok_def tl_is_operation_done_def split: option.splits)

theorem timelock_final_once_witness:
  "\<exists>h s. finalised h 101 = 1 \<and> tl_is_operation_done 101 s \<and> tl_hist accept_all (\<lambda>_ _. msig_empty) h s 1"
proof -
  let ?h = "(tl_demo_env 180000 [], tl_demo_state, TExecute 101) # tl_demo_log"
  let ?s = "tl_demo_state\<lparr>tl_op := [101 \<mapsto> tl_demo_op\<lparr>op_done := True\<rparr>]\<rparr>"
  have hist: "tl_hist accept_all (\<lambda>_ _. msig_empty) ?h ?s 1"
    by (rule tl_step [OF tl_demo_hist]) (simp add: tl_demo_execute)
  moreover have "same_hash (sha (tl_demo_env 0 [])) ?h" by (simp add: tl_demo_log_def tl_demo_env_def)
  moreover have "inj_on H (set (payloads ?h))" for H by (simp add: tl_demo_log_def)
  ultimately have "finalised ?h 101 \<le> 1 \<and> (finalised ?h 101 = 1 \<longleftrightarrow> tl_is_operation_done 101 ?s)"
    by (rule timelock_final_once)
  moreover have "tl_is_operation_done 101 ?s" by (simp add: tl_is_operation_done_def)
  ultimately show ?thesis using hist by blast
qed

lemma filter_length_mono:
  "(\<And>x. x \<in> set xs \<Longrightarrow> A x \<Longrightarrow> B x) \<Longrightarrow> length (filter A xs) \<le> length (filter B xs)"
  by (induction xs) (auto simp: le_Suc_eq)

lemma override_window:
  assumes "tl_hist I P h s w" "timed h"
  shows "length (filter (\<lambda>t. b \<le> t \<and> t \<le> b + 30 * 86400) (overrides h g)) \<le> 3"
  using assms
proof (induction rule: tl_hist.induct)
  case (tl_step h s w env c s' w')
  then have IH: "length (filter (\<lambda>t. b \<le> t \<and> t \<le> b + 30 * 86400) (overrides h g)) \<le> 3" by simp
  show ?case
  proof (cases "\<exists>k r. c = TEmergency g k r \<and> b \<le> ledger_ts env \<and> ledger_ts env \<le> b + 30 * 86400")
    case True
    then obtain k r where c: "c = TEmergency g k r" "ledger_ts env \<le> b + 30 * 86400" by blast
    with tl_step(2) have "tl_emergency_cancel env g k r s = Inr s'" by (simp add: res_simps)
    then have "length (filter (\<lambda>t. override_start (ledger_ts env) \<le> t) (get_or [] (tl_overrides s g))) < 3"
      by (rule tl_emergency_Inr)
    moreover have "limit_ok h s" using hist_limit [OF tl_step(1)] tl_step(4) by simp
    ultimately have "length (filter (\<lambda>t. override_start (ledger_ts env) \<le> t) (overrides h g)) < 3"
      using limit_count [OF _ overrides_timed [OF tl_step(4)] order_refl, of s g] by simp
    moreover have "length (filter (\<lambda>t. b \<le> t \<and> t \<le> b + 30 * 86400) (overrides h g)) \<le>
        length (filter (\<lambda>t. override_start (ledger_ts env) \<le> t) (overrides h g))"
      using c(2) by (intro filter_length_mono) (auto simp: override_start_def)
    ultimately show ?thesis by (simp add: c)
  next
    case False
    with IH show ?thesis by (cases c) auto
  qed
qed simp_all

text \<open>
  The guardian's power is bounded. In every history with non-decreasing ledger time, a guardian
  address carries out at most three emergency cancellations in any window of thirty days.
\<close>

theorem timelock_guardian_limit:
  assumes "tl_hist I P h s w" "timed h"
  shows "length (filter (\<lambda>t. b \<le> t \<and> t \<le> b + GUARDIAN_OVERRIDE_PERIOD_SECS) (overrides h g)) \<le>
    MAX_GUARDIAN_OVERRIDES_PER_PERIOD"
  using override_window [OF assms, of b g]
  by (simp add: GUARDIAN_OVERRIDE_PERIOD_SECS_def MAX_GUARDIAN_OVERRIDES_PER_PERIOD_def)


definition tl_guarded :: timelock where
  "tl_guarded = tl_demo_state\<lparr>tl_guardian := Some 8\<rparr>"

lemma timelock_guarded_hist:
  "tl_hist accept_all (\<lambda>_ _. m) ((tl_demo_env 300 [1], tl_demo_state, TGuardian 1 8) # tl_demo_log) tl_guarded 0"
  if "msig_get_threshold m = Inr 4" "msig_get_signer_count m = Inr 7"
proof (rule tl_step [OF tl_demo_hist])
  show "tl_exec accept_all (\<lambda>_ _. m) (tl_demo_env 300 [1]) (TGuardian 1 8) (tl_demo_state, 0) = Inr (tl_guarded, 0)"
    using that by (simp add: tl_world_def tl_set_guardian_multisig_def tl_guarded_def tl_eval
        MIN_GUARDIAN_THRESHOLD_def MIN_GUARDIAN_SIGNERS_def)
qed

definition tl_cancelled_state :: timelock where
  "tl_cancelled_state = tl_guarded\<lparr>tl_overrides := [8 \<mapsto> [400]], tl_audit := [0 \<mapsto>
     \<lparr>ga_action_id = 0, ga_guardian = 8, ga_operation_id = 101, ga_justification = 77,
      ga_timestamp = 400, ga_veto_end = 173200, ga_veto_power = 0, ga_veto_count = 0, ga_vetoed = False\<rparr>],
     tl_audit_count := Some 1, tl_op := [101 \<mapsto> tl_demo_op\<lparr>op_done := True\<rparr>],
     tl_cancelled := [101 \<mapsto> True]\<rparr>"

theorem timelock_guardian_limit_witness:
  "\<exists>h. overrides h 8 = [400] \<and>
     length (filter (\<lambda>t. 400 \<le> t \<and> t \<le> 400 + GUARDIAN_OVERRIDE_PERIOD_SECS) (overrides h 8)) \<le>
       MAX_GUARDIAN_OVERRIDES_PER_PERIOD"
proof -
  let ?m = "msig_empty\<lparr>ms_threshold := Some 4, ms_signer_count := Some 7\<rparr>"
  let ?h = "(demo_env 400 [8], tl_guarded, TEmergency 8 101 77) #
    (tl_demo_env 300 [1], tl_demo_state, TGuardian 1 8) # tl_demo_log"
  have "tl_hist accept_all (\<lambda>_ _. ?m) ?h tl_cancelled_state 0"
    by (rule tl_step [OF timelock_guarded_hist])
       (simp_all add: msig_get_threshold_def msig_get_signer_count_def tl_world_def tl_cancelled_state_def
          tl_emergency_cancel_def validate_guardian_override_limit_def record_guardian_action_def
          tl_can_transition_def tl_override_within_limit_def tl_guarded_def
          MAX_GUARDIAN_OVERRIDES_PER_PERIOD_def GUARDIAN_VETO_PERIOD_SECS_def tl_eval)
  moreover have "timed ?h" by (simp add: tl_demo_log_def tl_demo_env_def demo_env_def)
  ultimately have "length (filter (\<lambda>t. 400 \<le> t \<and> t \<le> 400 + GUARDIAN_OVERRIDE_PERIOD_SECS) (overrides ?h 8)) \<le>
      MAX_GUARDIAN_OVERRIDES_PER_PERIOD"
    by (rule timelock_guardian_limit)
  moreover have "overrides ?h 8 = [400]" by (simp add: tl_demo_log_def)
  ultimately show ?thesis by blast
qed

text \<open>
  Who guards. Replacing a registered guardian needs the authorisation of that guardian, setting
  the first one that of the admin; and when the candidate is a multisig admin contract in a state its
  histories can reach, its threshold is at least four, its signer count at least seven, and the
  threshold does not exceed the signer count.
\<close>

theorem timelock_guardian_change:
  assumes "tl_set_guardian_multisig msig_get_threshold msig_get_signer_count peers env a g s = Inr s'"
    "msig_hist I up h (peers g) w"
  shows "auth_by env a \<and> (tl_guardian s = Some a \<or> tl_guardian s = None \<and> tl_admin s = Some a) \<and>
    s' = s\<lparr>tl_guardian := Some g\<rparr> \<and>
    (\<exists>t n. ms_threshold (peers g) = Some t \<and> ms_signer_count (peers g) = Some n \<and> 4 \<le> t \<and> t \<le> n \<and> 7 \<le> n)"
  using tl_guardian_Inr [OF assms(1)] msig_guardian.registered_guardian [OF assms(1) hist_gov [OF assms(2)]]
  by (auto simp: msig_get_threshold_def msig_get_signer_count_def res_simps)

theorem timelock_guardian_change_witness:
  "\<exists>m. \<exists>h. msig_hist accept_all (\<lambda>_. True) h m 0 \<and> (\<exists>t n. ms_threshold m = Some t \<and> ms_signer_count m = Some n \<and> 4 \<le> t \<and> t \<le> n)"
proof -
  obtain m where m: "msig_initialize [21, 22, 23, 24, 25, 26, 27] 4 msig_empty = Inr m"
      "ms_threshold m = Some 4" "ms_signer_count m = Some 7"
    by (simp add: msig_eval)
  have hist: "msig_hist accept_all (\<lambda>_. True) [(demo_env 0 [], msig_empty, MInit [21, 22, 23, 24, 25, 26, 27] 4)] m 0"
    by (rule hist_call [OF hist_empty]) (simp add: m(1))
  have "tl_set_guardian_multisig msig_get_threshold msig_get_signer_count (\<lambda>_. m) (demo_env 300 [1]) 1 8
      tl_demo_state = Inr tl_guarded"
    using m by (simp add: tl_set_guardian_multisig_def tl_guarded_def tl_eval
        msig_get_threshold_def msig_get_signer_count_def MIN_GUARDIAN_THRESHOLD_def MIN_GUARDIAN_SIGNERS_def)
  from timelock_guardian_change [OF this, where w = 0] hist show ?thesis by blast
qed

function tl_all_pages :: "nat \<Rightarrow> nat \<Rightarrow> timelock \<Rightarrow> tl_entry list tl_res" where
  "tl_all_pages offset limit s =
    (if tl_get_operation_count s \<le> offset then Inr []
     else rbind (tl_get_operations_page offset limit s) (\<lambda>page.
       if page = [] then Inr []
       else rbind (tl_all_pages (offset + length page) limit s) (\<lambda>rest. Inr (page @ rest))))"
  by pat_completeness auto

termination
  by (relation "measure (\<lambda>(offset, limit, s). tl_get_operation_count s - offset)")
     (auto simp: diff_less_mono2 length_greater_0_conv [symmetric] simp del: length_greater_0_conv)

declare tl_all_pages.simps [simp del]

definition entry_of :: "timelock \<Rightarrow> hash32 \<Rightarrow> tl_entry" where
  "entry_of s k = \<lparr>te_operation_id = k, te_operation = the (tl_op s k),
     te_cancelled = get_or False (tl_cancelled s k)\<rparr>"

lemma page_total:
  assumes "indexed h s" "offset < length (scheduled h)"
  obtains b where "tl_get_operations_page offset limit s =
      Inr (map (\<lambda>i. entry_of s (scheduled h ! i)) [offset..<b])"
    "offset < b" "b \<le> length (scheduled h)"
proof -
  have tot: "tl_get_operation_count s = length (scheduled h)"
    using assms(1) by (simp add: indexed_def tl_get_operation_count_def)
  obtain a b where ab: "page_bounds (length (scheduled h)) offset (min limit MAX_PAGE_SIZE) = (a, b)"
    by force
  note bnd = page_bounds_ok [OF ab]
  have "tl_get_operations_page offset limit s = Inr (map (\<lambda>i. entry_of s (scheduled h ! i)) [offset..<b])"
    using bnd assms page_loop_total [OF assms(1), of "[offset..<b]"]
    by (simp add: tl_get_operations_page_def tot ab entry_of_def Let_def)
  with bnd assms(2) show thesis by (intro that) auto
qed

lemma all_pages_total:
  "indexed h s \<Longrightarrow> offset \<le> length (scheduled h) \<Longrightarrow>
   tl_all_pages offset limit s = Inr (map (entry_of s) (drop offset (scheduled h)))"
proof (induction "length (scheduled h) - offset" arbitrary: offset rule: less_induct)
  case less
  have tot: "tl_get_operation_count s = length (scheduled h)"
    using less.prems(1) by (simp add: indexed_def tl_get_operation_count_def)
  show ?case
  proof (cases "offset < length (scheduled h)")
    case True
    obtain b where b: "tl_get_operations_page offset limit s =
        Inr (map (\<lambda>i. entry_of s (scheduled h ! i)) [offset..<b])"
      "offset < b" "b \<le> length (scheduled h)"
      by (rule page_total [OF less.prems(1) True])
    have "tl_all_pages b limit s = Inr (map (entry_of s) (drop b (scheduled h)))"
      by (rule less.hyps) (use b less.prems in auto)
    moreover have "map (\<lambda>i. entry_of s (scheduled h ! i)) [offset..<b] @ map (entry_of s) (drop b (scheduled h)) =
        map (entry_of s) (drop offset (scheduled h))"
      using b(2,3) by (intro nth_equalityI) (auto simp: nth_append add.commute)
    ultimately show ?thesis
      using True b by (subst tl_all_pages.simps) (simp add: tot)
  qed (use less.prems in \<open>simp add: tl_all_pages.simps tot\<close>)
qed

text \<open>
  C29. Paging over the operations. In every history a client that asks for page after page, each
  starting where the last one ended, never hits the inconsistency panics, needs no more than the
  recorded number of operations of requests, and receives every scheduled operation exactly once, in
  the order of scheduling, with its stored record and cancellation flag.
\<close>

theorem timelock_paging:
  assumes "tl_hist I P h s w"
  shows "tl_all_pages 0 limit s = Inr (map (entry_of s) (scheduled h))"
  using all_pages_total [OF hist_indexed [OF assms], of 0 limit] by simp

theorem timelock_paging_witness:
  "tl_all_pages 0 10 tl_demo_state =
     Inr [\<lparr>te_operation_id = 101, te_operation = tl_demo_op, te_cancelled = False\<rparr>]"
  using timelock_paging [OF tl_demo_hist, of 10]
  by (simp add: tl_demo_log_def entry_of_def tl_demo_state_def timelock_empty_def tl_demo_env_def
      tl_payload_def tl_demo_started_def)

end
