(* ===== verification/Rbac.thy ===== *)
theory Rbac
  imports Recovery
begin

text \<open>
  The role registry, \<open>contracts/rbac/src/lib.rs\<close>: roles with their member lists and counts, the
  two-step change of the super admin; and its refinement of an abstract registry, a set of pairs
  of role and account.
\<close>

section \<open>Model\<close>

datatype rbac_error =
    RbAlreadyInitialized | RbUnauthorized | RbRoleNotGranted | RbNoPendingTransfer
  | RbTimelockActive | RbWrongNewAdmin

record rbac =
  rb_super_admin :: "addr option"
  rb_member :: "symbol \<times> addr \<rightharpoonup> bool"
  rb_members :: "symbol \<rightharpoonup> addr list"
  rb_member_count :: "symbol \<rightharpoonup> nat"
  rb_pending :: "admin_transfer option"

definition rbac_empty :: rbac where
  "rbac_empty = \<lparr>rb_super_admin = None, rb_member = Map.empty, rb_members = Map.empty,
     rb_member_count = Map.empty, rb_pending = None\<rparr>"

type_synonym 'a rbac_res = "rbac_error fail + 'a"

definition super_admin_role :: symbol where "super_admin_role = ''SUPER_ADMIN''"

definition rbac_has_role :: "symbol \<Rightarrow> addr \<Rightarrow> rbac \<Rightarrow> bool" where
  "rbac_has_role role account s = get_or False (rb_member s (role, account))"

definition require_super_admin :: "env \<Rightarrow> addr \<Rightarrow> rbac \<Rightarrow> 'a rbac_res \<Rightarrow> 'a rbac_res" where
  "require_super_admin env caller s k =
    ensure (auth_by env caller) AuthDenied (
    expect (rb_super_admin s) (Err RbUnauthorized) (\<lambda>super_admin.
    ensure (\<not> (super_admin \<noteq> caller \<and> \<not> rbac_has_role super_admin_role caller s)) (Err RbUnauthorized) k))"

definition grant_internal :: "symbol \<Rightarrow> addr \<Rightarrow> rbac \<Rightarrow> rbac rbac_res" where
  "grant_internal role account s =
    (if rb_member s (role, account) \<noteq> None then Inr s
     else rbind (arith_u32 (get_or 0 (rb_member_count s role) + 1)) (\<lambda>count.
       Inr (s\<lparr>rb_member := (rb_member s)((role, account) \<mapsto> True),
               rb_members := (rb_members s)(role \<mapsto> get_or [] (rb_members s role) @ [account]),
               rb_member_count := (rb_member_count s)(role \<mapsto> count)\<rparr>)))"

definition rbac_initialize :: "env \<Rightarrow> addr \<Rightarrow> rbac \<Rightarrow> rbac rbac_res" where
  "rbac_initialize env super_admin s =
    ensure (rb_super_admin s = None) (Err RbAlreadyInitialized) (
    ensure (auth_by env super_admin) AuthDenied (
    grant_internal super_admin_role super_admin (s\<lparr>rb_super_admin := Some super_admin\<rparr>)))"

definition rbac_grant_role :: "env \<Rightarrow> addr \<Rightarrow> symbol \<Rightarrow> addr \<Rightarrow> rbac \<Rightarrow> rbac rbac_res" where
  "rbac_grant_role env caller role account s =
    require_super_admin env caller s (grant_internal role account s)"

definition rbac_revoke_role :: "env \<Rightarrow> addr \<Rightarrow> symbol \<Rightarrow> addr \<Rightarrow> rbac \<Rightarrow> rbac rbac_res" where
  "rbac_revoke_role env caller role account s =
    require_super_admin env caller s (
    ensure (rb_member s (role, account) \<noteq> None) (Err RbRoleNotGranted) (
    let members = get_or [] (rb_members s role);
        next_members = filter (\<lambda>member. member \<noteq> account) members;
        count = get_or 1 (rb_member_count s role)
    in Inr (s\<lparr>rb_member := (rb_member s)((role, account) := None),
               rb_members := (rb_members s)(role \<mapsto> next_members),
               rb_member_count := (rb_member_count s)(role \<mapsto> count - 1)\<rparr>)))"

definition rbac_require_role :: "env \<Rightarrow> symbol \<Rightarrow> addr \<Rightarrow> rbac \<Rightarrow> unit rbac_res" where
  "rbac_require_role env role account s =
    ensure (auth_by env account) AuthDenied (
    ensure (rbac_has_role role account s) (Err RbUnauthorized) (Inr ()))"

definition rbac_get_role_members :: "symbol \<Rightarrow> rbac \<Rightarrow> addr list" where
  "rbac_get_role_members role s = get_or [] (rb_members s role)"

definition rbac_get_role_member_count :: "symbol \<Rightarrow> rbac \<Rightarrow> nat" where
  "rbac_get_role_member_count role s = get_or 0 (rb_member_count s role)"

definition rbac_propose_admin_change :: "env \<Rightarrow> addr \<Rightarrow> addr \<Rightarrow> rbac \<Rightarrow> rbac rbac_res" where
  "rbac_propose_admin_change env current_admin new_admin s =
    require_super_admin env current_admin s (
    expect (checked_u64 (ledger_ts env + MIN_ADMIN_TIMELOCK_SECS)) (Panic ''timestamp overflow'')
      (\<lambda>effective_at.
    Inr (s\<lparr>rb_pending := Some \<lparr>at_new_admin = new_admin, at_effective_at = effective_at,
                                 at_status = AC_Proposed\<rparr>\<rparr>)))"

definition rbac_accept_admin_change :: "env \<Rightarrow> addr \<Rightarrow> rbac \<Rightarrow> rbac rbac_res" where
  "rbac_accept_admin_change env new_admin s =
    ensure (auth_by env new_admin) AuthDenied (
    expect (rb_pending s) (Err RbNoPendingTransfer) (\<lambda>transfer.
    ensure (at_new_admin transfer = new_admin) (Err RbWrongNewAdmin) (
    ensure (\<not> ledger_ts env < at_effective_at transfer) (Err RbTimelockActive) (
    rbind (grant_internal super_admin_role new_admin (s\<lparr>rb_super_admin := Some new_admin\<rparr>)) (\<lambda>s1.
    Inr (s1\<lparr>rb_pending := Some (transfer\<lparr>at_status := AC_Accepted\<rparr>)\<rparr>))))))"

definition rbac_cancel_admin_change :: "env \<Rightarrow> addr \<Rightarrow> rbac \<Rightarrow> rbac rbac_res" where
  "rbac_cancel_admin_change env current_admin s =
    require_super_admin env current_admin s (
    expect (rb_pending s) (Err RbNoPendingTransfer) (\<lambda>transfer.
    Inr (s\<lparr>rb_pending := None\<rparr>)))"


section \<open>Refinement of a set of grants\<close>

datatype rbac_call =
    RInit addr | RGrant addr symbol addr | RRevoke addr symbol addr
  | RPropose addr addr | RAccept addr | RCancel addr

fun rbac_exec :: "env \<Rightarrow> rbac_call \<Rightarrow> rbac \<Rightarrow> rbac rbac_res" where
  "rbac_exec env (RInit a) s = rbac_initialize env a s"
| "rbac_exec env (RGrant c r a) s = rbac_grant_role env c r a s"
| "rbac_exec env (RRevoke c r a) s = rbac_revoke_role env c r a s"
| "rbac_exec env (RPropose c a) s = rbac_propose_admin_change env c a s"
| "rbac_exec env (RAccept a) s = rbac_accept_admin_change env a s"
| "rbac_exec env (RCancel c) s = rbac_cancel_admin_change env c s"

text \<open>The abstract registry: who holds which role, and how a call changes that.\<close>

type_synonym grants = "(symbol \<times> addr) set"

definition grants_of :: "rbac \<Rightarrow> grants" where
  "grants_of s = {(r, a). rbac_has_role r a s}"

fun grants_step :: "rbac_call \<Rightarrow> grants \<Rightarrow> grants" where
  "grants_step (RInit a) G = insert (super_admin_role, a) G"
| "grants_step (RGrant c r a) G = insert (r, a) G"
| "grants_step (RRevoke c r a) G = G - {(r, a)}"
| "grants_step (RPropose c a) G = G"
| "grants_step (RAccept a) G = insert (super_admin_role, a) G"
| "grants_step (RCancel c) G = G"

definition rbac_ok :: "rbac \<Rightarrow> bool" where
  "rbac_ok s \<longleftrightarrow> (\<forall>k. rb_member s k \<noteq> Some False) \<and>
     (\<forall>r. distinct (rbac_get_role_members r s) \<and>
        set (rbac_get_role_members r s) = {a. rbac_has_role r a s} \<and>
        rbac_get_role_member_count r s = length (rbac_get_role_members r s))"

inductive rbac_reach :: "rbac \<Rightarrow> bool" where
  rbac_start: "rbac_reach rbac_empty"
| rbac_step: "rbac_reach s \<Longrightarrow> rbac_exec env c s = Inr s' \<Longrightarrow> rbac_reach s'"

lemma rbac_okD:
  assumes "rbac_ok s"
  shows "rb_member s k \<noteq> Some False" "distinct (get_or [] (rb_members s r))"
    "set (get_or [] (rb_members s r)) = {a. rbac_has_role r a s}"
    "get_or 0 (rb_member_count s r) = length (get_or [] (rb_members s r))"
  using assms unfolding rbac_ok_def rbac_get_role_members_def rbac_get_role_member_count_def by blast+

lemma rbac_okI:
  assumes "\<And>k. rb_member s k \<noteq> Some False"
    "\<And>r. distinct (get_or [] (rb_members s r)) \<and>
      set (get_or [] (rb_members s r)) = {a. rbac_has_role r a s} \<and>
      get_or 0 (rb_member_count s r) = length (get_or [] (rb_members s r))"
  shows "rbac_ok s"
  using assms unfolding rbac_ok_def rbac_get_role_members_def rbac_get_role_member_count_def by blast

lemma grant_internal_ok:
  assumes "grant_internal r a s = Inr s'" "rbac_ok s"
  shows "rbac_ok s'" "grants_of s' = insert (r, a) (grants_of s)"
    "rb_super_admin s' = rb_super_admin s" "rb_pending s' = rb_pending s"
proof -
  note ok = rbac_okD [OF assms(2)]
  have "rb_member s (r, a) \<noteq> Some False" by (rule ok)
  then have new: "rb_member s (r, a) = None \<longleftrightarrow> \<not> rbac_has_role r a s"
    by (cases "rb_member s (r, a)") (auto simp: rbac_has_role_def)
  have "rbac_ok s' \<and> grants_of s' = insert (r, a) (grants_of s) \<and>
     rb_super_admin s' = rb_super_admin s \<and> rb_pending s' = rb_pending s"
  proof (cases "rbac_has_role r a s")
    case True
    with assms new show ?thesis by (simp add: grant_internal_def grants_of_def insert_absorb)
  next
    case False
    let ?m = "get_or [] (rb_members s r)"
    have s': "s' = s\<lparr>rb_member := (rb_member s)((r, a) \<mapsto> True),
        rb_members := (rb_members s)(r \<mapsto> ?m @ [a]),
        rb_member_count := (rb_member_count s)(r \<mapsto> get_or 0 (rb_member_count s r) + 1)\<rparr>"
      using assms(1) new False by (auto simp: grant_internal_def res_simps)
    have m: "distinct ?m" "set ?m = {x. rbac_has_role r x s}" "get_or 0 (rb_member_count s r) = length ?m"
      by (simp_all add: ok)
    with False have "a \<notin> set ?m" by simp
    have "rbac_ok s'"
    proof (rule rbac_okI)
      fix k show "rb_member s' k \<noteq> Some False" using ok(1) [of k] by (simp add: s')
    next
      fix q
      have "rbac_has_role q x s' \<longleftrightarrow> rbac_has_role q x s \<or> (q = r \<and> x = a)" for x
        by (auto simp: s' rbac_has_role_def)
      then show "distinct (get_or [] (rb_members s' q)) \<and>
          set (get_or [] (rb_members s' q)) = {x. rbac_has_role q x s'} \<and>
          get_or 0 (rb_member_count s' q) = length (get_or [] (rb_members s' q))"
        using ok(2-4) [of q] m \<open>a \<notin> set ?m\<close> by (auto simp: s')
    qed
    moreover have "grants_of s' = insert (r, a) (grants_of s)"
      by (auto simp: s' grants_of_def rbac_has_role_def split: if_splits)
    ultimately show ?thesis by (simp add: s')
  qed
  then show "rbac_ok s'" "grants_of s' = insert (r, a) (grants_of s)"
    "rb_super_admin s' = rb_super_admin s" "rb_pending s' = rb_pending s" by simp_all
qed

lemma rbac_ok_cong:
  "rb_member s' = rb_member s \<Longrightarrow> rb_members s' = rb_members s \<Longrightarrow>
   rb_member_count s' = rb_member_count s \<Longrightarrow> rbac_ok s' = rbac_ok s \<and> grants_of s' = grants_of s"
  by (simp add: rbac_ok_def grants_of_def rbac_has_role_def rbac_get_role_members_def
      rbac_get_role_member_count_def)

lemma filter_out_length:
  "distinct xs \<Longrightarrow> a \<in> set xs \<Longrightarrow> length (filter (\<lambda>x. x \<noteq> a) xs) = length xs - 1"
proof (induction xs)
  case (Cons y xs)
  show ?case
  proof (cases "y = a")
    case True
    with Cons.prems have "a \<notin> set xs" by simp
    then have "filter (\<lambda>x. x \<noteq> a) xs = xs" by (auto intro: filter_True)
    with True show ?thesis by simp
  next
    case False
    with Cons have "length (filter (\<lambda>x. x \<noteq> a) xs) = length xs - 1" "a \<in> set xs" by simp_all
    with False show ?thesis by (cases xs) auto
  qed
qed simp

lemma revoke_ok:
  assumes "rbac_revoke_role env c r a s = Inr s'" "rbac_ok s"
  shows "rbac_ok s' \<and> grants_of s' = grants_of s - {(r, a)}"
proof -
  let ?m = "get_or [] (rb_members s r)"
  have mem: "rb_member s (r, a) \<noteq> None"
    and s': "s' = s\<lparr>rb_member := (rb_member s)((r, a) := None),
       rb_members := (rb_members s)(r \<mapsto> filter (\<lambda>m. m \<noteq> a) ?m),
       rb_member_count := (rb_member_count s)(r \<mapsto> get_or 1 (rb_member_count s r) - 1)\<rparr>"
    using assms(1) by (auto simp: rbac_revoke_role_def require_super_admin_def Let_def res_simps)
  note ok = rbac_okD [OF assms(2)]
  have "rb_member s (r, a) \<noteq> Some False" by (rule ok)
  with mem have has: "rbac_has_role r a s"
    by (cases "rb_member s (r, a)") (auto simp: rbac_has_role_def)
  have m: "distinct ?m" "set ?m = {x. rbac_has_role r x s}" "get_or 0 (rb_member_count s r) = length ?m"
    by (simp_all add: ok)
  with has have a: "a \<in> set ?m" by simp
  then have pos: "get_or 0 (rb_member_count s r) \<noteq> 0" using m(3) by auto
  then have cnt: "get_or 1 (rb_member_count s r) = length ?m"
    using m(3) by (cases "rb_member_count s r") auto
  have len: "length (filter (\<lambda>x. x \<noteq> a) ?m) = length ?m - 1"
    using filter_out_length [OF m(1) a] .
  have "rbac_ok s'"
  proof (rule rbac_okI)
    fix k show "rb_member s' k \<noteq> Some False" using ok(1) [of k] by (simp add: s')
  next
    fix q
    have "rbac_has_role q x s' \<longleftrightarrow> rbac_has_role q x s \<and> \<not> (q = r \<and> x = a)" for x
      by (simp add: s' rbac_has_role_def)
    then show "distinct (get_or [] (rb_members s' q)) \<and>
        set (get_or [] (rb_members s' q)) = {x. rbac_has_role q x s'} \<and>
        get_or 0 (rb_member_count s' q) = length (get_or [] (rb_members s' q))"
      using ok(2-4) [of q] m(1,2) len cnt by (cases "q = r") (auto simp: s')
  qed
  moreover have "grants_of s' = grants_of s - {(r, a)}"
    by (auto simp: s' grants_of_def rbac_has_role_def split: if_splits)
  ultimately show ?thesis ..
qed

lemma rbac_step_ok:
  assumes "rbac_exec env c s = Inr s'" "rbac_ok s"
  shows "rbac_ok s' \<and> grants_of s' = grants_step c (grants_of s)"
proof (cases c)
  case (RInit a)
  with assms have g: "grant_internal super_admin_role a (s\<lparr>rb_super_admin := Some a\<rparr>) = Inr s'"
    by (auto simp: rbac_initialize_def res_simps)
  have "rbac_ok (s\<lparr>rb_super_admin := Some a\<rparr>)" "grants_of (s\<lparr>rb_super_admin := Some a\<rparr>) = grants_of s"
    using assms(2) rbac_ok_cong [of "s\<lparr>rb_super_admin := Some a\<rparr>" s] by simp_all
  with grant_internal_ok [OF g] RInit show ?thesis by simp
next
  case (RGrant b r a)
  with assms have "grant_internal r a s = Inr s'"
    by (auto simp: rbac_grant_role_def require_super_admin_def res_simps)
  from grant_internal_ok [OF this assms(2)] RGrant show ?thesis by simp
next
  case (RRevoke b r a)
  with assms revoke_ok show ?thesis by simp
next
  case (RAccept a)
  with assms obtain s1 t where g: "grant_internal super_admin_role a (s\<lparr>rb_super_admin := Some a\<rparr>) = Inr s1"
      and s': "s' = s1\<lparr>rb_pending := Some t\<rparr>"
    by (auto simp: rbac_accept_admin_change_def res_simps)
  have "rbac_ok (s\<lparr>rb_super_admin := Some a\<rparr>)" "grants_of (s\<lparr>rb_super_admin := Some a\<rparr>) = grants_of s"
    using assms(2) rbac_ok_cong [of "s\<lparr>rb_super_admin := Some a\<rparr>" s] by simp_all
  with grant_internal_ok [OF g] rbac_ok_cong [of s' s1] RAccept show ?thesis by (simp add: s')
next
  case (RPropose b a)
  with assms rbac_ok_cong [of s' s] show ?thesis
    by (auto simp: rbac_propose_admin_change_def require_super_admin_def res_simps)
next
  case (RCancel b)
  with assms rbac_ok_cong [of s' s] show ?thesis
    by (auto simp: rbac_cancel_admin_change_def require_super_admin_def res_simps)
qed

lemma rbac_reach_ok: "rbac_reach s \<Longrightarrow> rbac_ok s"
proof (induction rule: rbac_reach.induct)
  case rbac_start
  then show ?case
    by (simp add: rbac_ok_def rbac_empty_def rbac_has_role_def rbac_get_role_members_def
        rbac_get_role_member_count_def)
qed (use rbac_step_ok in blast)


section \<open>Properties\<close>

text \<open>
  C36. The registry refines a set of grants. In every reachable state each accepted call changes who
  holds which role exactly as the abstract step on a set of pairs does, the member list of every role
  lists each holder exactly once and nobody else, the stored count is the number of holders, and a
  grant or revocation was authorised by the super admin or a holder of the super admin role.
\<close>

theorem rbac_refines_grants:
  assumes "rbac_reach s" "rbac_exec env c s = Inr s'"
  shows "grants_of s' = grants_step c (grants_of s) \<and>
    (\<forall>r. distinct (rbac_get_role_members r s') \<and> set (rbac_get_role_members r s') = {a. (r, a) \<in> grants_of s'} \<and>
       rbac_get_role_member_count r s' = card {a. (r, a) \<in> grants_of s'}) \<and>
    (case c of RGrant b r a \<Rightarrow> auth_by env b \<and> (rb_super_admin s = Some b \<or> (super_admin_role, b) \<in> grants_of s)
     | RRevoke b r a \<Rightarrow> auth_by env b \<and> (rb_super_admin s = Some b \<or> (super_admin_role, b) \<in> grants_of s)
     | _ \<Rightarrow> True)"
proof (intro conjI)
  note ok = rbac_step_ok [OF assms(2) rbac_reach_ok [OF assms(1)]]
  show "grants_of s' = grants_step c (grants_of s)" using ok ..
  show "\<forall>r. distinct (rbac_get_role_members r s') \<and> set (rbac_get_role_members r s') = {a. (r, a) \<in> grants_of s'} \<and>
       rbac_get_role_member_count r s' = card {a. (r, a) \<in> grants_of s'}"
  proof
    fix r
    note ok' = rbac_okD(2-4) [OF conjunct1 [OF ok], of r]
    have "card {a. rbac_has_role r a s'} = length (get_or [] (rb_members s' r))"
      using distinct_card [OF ok'(1)] ok'(2) by simp
    with ok' show "distinct (rbac_get_role_members r s') \<and> set (rbac_get_role_members r s') = {a. (r, a) \<in> grants_of s'} \<and>
       rbac_get_role_member_count r s' = card {a. (r, a) \<in> grants_of s'}"
      by (simp add: rbac_get_role_members_def rbac_get_role_member_count_def grants_of_def)
  qed
  show "case c of RGrant b r a \<Rightarrow> auth_by env b \<and> (rb_super_admin s = Some b \<or> (super_admin_role, b) \<in> grants_of s)
     | RRevoke b r a \<Rightarrow> auth_by env b \<and> (rb_super_admin s = Some b \<or> (super_admin_role, b) \<in> grants_of s)
     | _ \<Rightarrow> True"
    using assms(2)
    by (auto simp: rbac_grant_role_def rbac_revoke_role_def require_super_admin_def grants_of_def
        res_simps split: rbac_call.splits)
qed

definition rbac_demo :: rbac where
  "rbac_demo = rbac_empty\<lparr>rb_super_admin := Some 1, rb_member := [(super_admin_role, 1) \<mapsto> True],
     rb_members := [super_admin_role \<mapsto> [1]], rb_member_count := [super_admin_role \<mapsto> 1]\<rparr>"

lemma rbac_demo_reach: "rbac_reach rbac_demo"
  by (rule rbac_step [OF rbac_start, of "demo_env 0 [1]" "RInit 1"])
     (simp add: rbac_initialize_def grant_internal_def rbac_demo_def rbac_empty_def arith_u32_def u32_max_def)

theorem rbac_refines_grants_witness:
  "\<exists>s'. rbac_exec (demo_env 5 [1]) (RGrant 1 ''GOVERNANCE_ADMIN'' 7) rbac_demo = Inr s' \<and>
     rbac_get_role_member_count ''GOVERNANCE_ADMIN'' s' = card {7::addr}"
proof -
  obtain s' where s': "rbac_exec (demo_env 5 [1]) (RGrant 1 ''GOVERNANCE_ADMIN'' 7) rbac_demo = Inr s'"
    by (simp add: rbac_grant_role_def require_super_admin_def grant_internal_def rbac_demo_def
        rbac_empty_def arith_u32_def u32_max_def super_admin_role_def)
  have "{a. (''GOVERNANCE_ADMIN'', a) \<in> grants_of s'} = {7}"
    using rbac_refines_grants [OF rbac_demo_reach s']
    by (auto simp: grants_of_def rbac_has_role_def rbac_demo_def rbac_empty_def super_admin_role_def
        split: if_splits)
  with rbac_refines_grants [OF rbac_demo_reach s'] s' show ?thesis by auto
qed

end
