(* ===== verification/Params.thy ===== *)
theory Params
  imports Rbac
begin

text \<open>
  The protocol parameter registry, \<open>contracts/shared/src/params.rs\<close>, which a contract embeds in
  its own storage; updates ask the role registry for the role \<open>GOVERNANCE_ADMIN\<close>.
\<close>

section \<open>Model\<close>

record params =
  pp_param :: "symbol \<rightharpoonup> int"
  pp_keys :: "symbol list option"
  pp_rbac :: "addr option"

definition params_empty :: params where
  "params_empty = \<lparr>pp_param = Map.empty, pp_keys = None, pp_rbac = None\<rparr>"

definition key_min_bond :: symbol where "key_min_bond = ''MIN_BOND''"
definition key_min_credit_score :: symbol where "key_min_credit_score = ''MIN_SCORE''"
definition key_interest_rate_bps :: symbol where "key_interest_rate_bps = ''INT_RATE''"
definition key_platform_fee_bps :: symbol where "key_platform_fee_bps = ''PLAT_FEE''"
definition key_cooldown_days :: symbol where "key_cooldown_days = ''COOLDOWN''"
definition key_tier_bronze :: symbol where "key_tier_bronze = ''TIER_BRZ''"
definition key_tier_silver :: symbol where "key_tier_silver = ''TIER_SLV''"
definition key_tier_gold :: symbol where "key_tier_gold = ''TIER_GLD''"
definition key_sub_expiry_grace :: symbol where "key_sub_expiry_grace = ''SUB_EXP''"

definition DEFAULT_MIN_BOND :: int where "DEFAULT_MIN_BOND = 100000000"
definition DEFAULT_MIN_CREDIT_SCORE :: int where "DEFAULT_MIN_CREDIT_SCORE = 600"
definition DEFAULT_INTEREST_RATE_BPS :: int where "DEFAULT_INTEREST_RATE_BPS = 200"
definition DEFAULT_PLATFORM_FEE_BPS :: int where "DEFAULT_PLATFORM_FEE_BPS = 200"
definition DEFAULT_COOLDOWN_DAYS :: int where "DEFAULT_COOLDOWN_DAYS = 30"
definition DEFAULT_TIER_BRONZE :: int where "DEFAULT_TIER_BRONZE = 100"
definition DEFAULT_TIER_SILVER :: int where "DEFAULT_TIER_SILVER = 500"
definition DEFAULT_TIER_GOLD :: int where "DEFAULT_TIER_GOLD = 2000"
definition DEFAULT_SUB_EXPIRY_GRACE :: int where "DEFAULT_SUB_EXPIRY_GRACE = 7 * 24 * 60 * 60"

definition governance_admin_role :: symbol where "governance_admin_role = ''GOVERNANCE_ADMIN''"

definition canonical_keys :: "(symbol \<times> int) list" where
  "canonical_keys =
    [(key_min_bond, DEFAULT_MIN_BOND), (key_min_credit_score, DEFAULT_MIN_CREDIT_SCORE),
     (key_interest_rate_bps, DEFAULT_INTEREST_RATE_BPS), (key_platform_fee_bps, DEFAULT_PLATFORM_FEE_BPS),
     (key_cooldown_days, DEFAULT_COOLDOWN_DAYS), (key_tier_bronze, DEFAULT_TIER_BRONZE),
     (key_tier_silver, DEFAULT_TIER_SILVER), (key_tier_gold, DEFAULT_TIER_GOLD),
     (key_sub_expiry_grace, DEFAULT_SUB_EXPIRY_GRACE)]"

definition init_protocol_params :: "addr \<Rightarrow> params \<Rightarrow> params" where
  "init_protocol_params rbac_contract s =
    (if pp_rbac s \<noteq> None then s
     else s\<lparr>pp_rbac := Some rbac_contract,
            pp_keys := Some [key_min_bond, key_min_credit_score, key_interest_rate_bps,
              key_platform_fee_bps, key_cooldown_days, key_tier_bronze, key_tier_silver,
              key_tier_gold, key_sub_expiry_grace]\<rparr>)"

definition get_param :: "symbol \<Rightarrow> int \<Rightarrow> params \<Rightarrow> int" where
  "get_param key dflt s = get_or dflt (pp_param s key)"

text \<open>\<open>R\<close> is the state of the role registry at an address.\<close>

definition set_param :: "(addr \<Rightarrow> rbac) \<Rightarrow> env \<Rightarrow> addr \<Rightarrow> symbol \<Rightarrow> int \<Rightarrow> params \<Rightarrow> 'e fail + params" where
  "set_param R env caller key value s =
    ensure (auth_by env caller) AuthDenied (
    ensure (\<not> value < 0) (Panic ''protocol parameter values must be non-negative'') (
    expect (pp_rbac s) (Panic ''protocol params not initialized'') (\<lambda>rbac_address.
    ensure (rbac_has_role governance_admin_role caller (R rbac_address)) (Panic ''unauthorized'') (
    let keys = get_or [] (pp_keys s);
        s1 = s\<lparr>pp_param := (pp_param s)(key \<mapsto> value)\<rparr>
    in Inr (if key \<notin> set keys then s1\<lparr>pp_keys := Some (keys @ [key])\<rparr> else s1)))))"

definition get_all_params :: "params \<Rightarrow> (symbol \<times> int) list" where
  "get_all_params s =
    (let keys = get_or [] (pp_keys s);
         fixed = map (\<lambda>(k, dflt). (k, get_param k dflt s)) canonical_keys
     in fixed @ concat (map (\<lambda>k.
          let already = list_ex (\<lambda>(c, _). c = k) canonical_keys
          in if already then [] else (case pp_param s k of Some v \<Rightarrow> [(k, v)] | None \<Rightarrow> [])) keys))"


section \<open>The report is complete\<close>

definition params_ok :: "params \<Rightarrow> bool" where
  "params_ok s \<longleftrightarrow> distinct (get_or [] (pp_keys s)) \<and>
     (\<forall>k v. pp_param s k = Some v \<longrightarrow> k \<in> set (get_or [] (pp_keys s)) \<and> 0 \<le> v) \<and> (pp_rbac s = None \<longrightarrow> pp_param s = Map.empty)"

lemmas key_defs =
  key_min_bond_def key_min_credit_score_def key_interest_rate_bps_def key_platform_fee_bps_def
  key_cooldown_days_def key_tier_bronze_def key_tier_silver_def key_tier_gold_def
  key_sub_expiry_grace_def

lemma params_empty_ok: "params_ok params_empty"
  by (simp add: params_ok_def params_empty_def)

lemma init_params_ok: "params_ok s \<Longrightarrow> params_ok (init_protocol_params r s)"
  by (auto simp: params_ok_def init_protocol_params_def key_defs)

lemma set_param_ok:
  assumes "set_param R env a k v s = Inr s'" "params_ok s"
  shows "params_ok s' \<and> pp_param s' = (pp_param s)(k \<mapsto> v) \<and> pp_rbac s' = pp_rbac s \<and> auth_by env a \<and> 0 \<le> v \<and>
    (\<exists>r. pp_rbac s = Some r \<and> rbac_has_role governance_admin_role a (R r))"
  using assms by (auto simp: set_param_def params_ok_def Let_def res_simps split: if_splits)

lemma canonical_fst: "map fst canonical_keys =
    [key_min_bond, key_min_credit_score, key_interest_rate_bps, key_platform_fee_bps,
     key_cooldown_days, key_tier_bronze, key_tier_silver, key_tier_gold, key_sub_expiry_grace]"
  by (simp add: canonical_keys_def)

lemma canonical_distinct: "distinct (map fst canonical_keys)"
  by (simp add: canonical_fst key_defs)

lemma all_params_keys:
  "map fst (get_all_params s) = map fst canonical_keys @
     filter (\<lambda>k. k \<notin> fst ` set canonical_keys \<and> pp_param s k \<noteq> None) (get_or [] (pp_keys s))"
proof -
  have already: "list_ex (\<lambda>p. fst p = k) canonical_keys \<longleftrightarrow> k \<in> fst ` set canonical_keys" for k
    by (force simp: list_ex_iff)
  have "map fst (concat (map (\<lambda>k. if k \<in> fst ` set canonical_keys then []
        else case pp_param s k of None \<Rightarrow> [] | Some v \<Rightarrow> [(k, v)]) ks)) =
      filter (\<lambda>k. k \<notin> fst ` set canonical_keys \<and> pp_param s k \<noteq> None) ks" for ks
    by (induction ks) (auto split: option.splits)
  then show ?thesis
    by (simp add: get_all_params_def already case_prod_unfold comp_def Let_def del: not_None_eq)
qed

lemma all_params_value:
  assumes "(k, v) \<in> set (get_all_params s)"
  shows "pp_param s k = Some v \<or> pp_param s k = None \<and> (k, v) \<in> set canonical_keys"
  using assms
  by (auto simp: get_all_params_def get_param_def Let_def split: if_splits option.splits)
     (case_tac "pp_param s k"; simp)+

text \<open>
  The parameter report is complete. Whenever a parameter update succeeds, the caller authorised it
  and holds the governance role in the registry, the new value is non-negative, and afterwards the
  report of all parameters names each key once, contains the updated key with its new value and
  every other stored parameter with its value, and gives the compiled default for a canonical key
  never set.
\<close>

theorem params_report:
  assumes "params_ok s" "set_param R env a k v s = Inr s'"
  shows "auth_by env a \<and> 0 \<le> v \<and> (\<exists>r. pp_rbac s = Some r \<and> rbac_has_role governance_admin_role a (R r)) \<and>
    params_ok s' \<and> distinct (map fst (get_all_params s')) \<and>
    (k, v) \<in> set (get_all_params s') \<and>
    (\<forall>j x. j \<noteq> k \<and> pp_param s j = Some x \<longrightarrow> (j, x) \<in> set (get_all_params s')) \<and>
    (\<forall>j x. (j, x) \<in> set canonical_keys \<and> j \<noteq> k \<and> pp_param s j = None \<longrightarrow> (j, x) \<in> set (get_all_params s'))"
proof -
  note ok = set_param_ok [OF assms(2,1)]
  then have s': "params_ok s'" "pp_param s' = (pp_param s)(k \<mapsto> v)" by simp_all
  have dist: "distinct (map fst (get_all_params s'))"
    using s'(1) canonical_distinct unfolding all_params_keys by (auto simp: params_ok_def)
  have shown: "(j, x) \<in> set (get_all_params s')" if "pp_param s' j = Some x" for j x
  proof -
    have "j \<in> set (get_or [] (pp_keys s'))" using s'(1) that by (auto simp: params_ok_def)
    then have "j \<in> fst ` set (get_all_params s')"
      using that by (auto simp: all_params_keys simp flip: set_map)
    then obtain y where y: "(j, y) \<in> set (get_all_params s')" by force
    with all_params_value [OF y] that show ?thesis by simp
  qed
  have dflt: "(j, x) \<in> set (get_all_params s')" if "(j, x) \<in> set canonical_keys" "pp_param s' j = None" for j x
    using that by (force simp: get_all_params_def get_param_def Let_def)
  show ?thesis using ok s' dist shown dflt by (auto simp del: all_params_keys)
qed


definition rbac_granted :: rbac where
  "rbac_granted = rbac_empty\<lparr>rb_member := [(governance_admin_role, 7) \<mapsto> True]\<rparr>"

theorem params_report_witness:
  "\<exists>s'. set_param (\<lambda>_. rbac_granted) (demo_env 5 [7]) 7 ''PLAT_FEE'' 150
      (init_protocol_params 40 params_empty) = (Inr s' :: unit fail + params) \<and>
     (''PLAT_FEE'', 150) \<in> set (get_all_params s')"
proof -
  obtain s' where s': "set_param (\<lambda>_. rbac_granted) (demo_env 5 [7]) 7 ''PLAT_FEE'' 150
      (init_protocol_params 40 params_empty) = (Inr s' :: unit fail + params)"
    by (simp add: set_param_def init_protocol_params_def params_empty_def rbac_granted_def
        rbac_has_role_def rbac_empty_def Let_def)
  from params_report [OF init_params_ok [OF params_empty_ok] this] s' show ?thesis by blast
qed

end
