(* ===== verification/LendingPool.thy ===== *)
theory LendingPool
  imports Sep41 Params
begin

text \<open>
  The lending pool, \<open>contracts/lending_pool/src/lib.rs\<close>: deposits and withdrawals of lenders,
  session loans with a fee, repayment, liquidation by auction or by the admin, yield. Instance and
  persistent storage are separate key spaces: \<open>deposit\<close> writes the ledger of the last deposit to the
  former (\<open>lp_deposit_ledger_inst\<close>), \<open>withdraw\<close> reads the latter (\<open>lp_deposit_ledger\<close>). The
  best-effort report of large loans ignores its result and is left out.
\<close>

section \<open>State\<close>

datatype lending_error =
    LpNotInitialized | LpAlreadyInitialized | LpInsufficientBalance | LpInsufficientLiquidity
  | LpLowCreditScore | LpBorrowLimitExceeded | LpLoanNotFound | LpLoanAlreadyRepaid | LpNotAdmin
  | LpInvalidAmount | LpSameBlockDepositWithdraw | LpPerBlockBorrowLimitExceeded | LpLoanNotDue
  | LpAuctionNotFound | LpAuctionAlreadyActive | LpAuctionAlreadySettled

record loan_record =
  ln_borrower :: addr
  ln_amount :: int
  ln_fee :: int
  ln_session :: symbol
  ln_borrowed_at :: nat
  ln_due_at :: nat
  ln_repaid :: bool

record auction_record =
  au_loan :: loan_record
  au_started_at :: nat
  au_discount_bps :: int
  au_liquidator :: "addr option"

record lpool =
  lp_admin :: "addr option"
  lp_usdc :: "addr option"
  lp_credit :: "addr option"
  lp_total_liquidity :: "int option"
  lp_total_lp :: "int option"
  lp_lender_balance :: "addr \<rightharpoonup> int"
  lp_loan :: "addr \<rightharpoonup> loan_record"
  lp_loan_count :: "int option"
  lp_deposit_ledger_inst :: "addr \<rightharpoonup> nat"
  lp_deposit_ledger :: "addr \<rightharpoonup> nat"
  lp_block_total :: "addr \<rightharpoonup> int"
  lp_block_ledger :: "addr \<rightharpoonup> nat"
  lp_snapshot :: "int option"
  lp_snapshot_ledger :: "nat option"
  lp_base_rate :: "int option"
  lp_kink :: "int option"
  lp_slope1 :: "int option"
  lp_slope2 :: "int option"
  lp_min_score :: "nat option"
  lp_reporting :: "addr option"
  lp_auction :: "addr \<rightharpoonup> auction_record"
  lp_bad_debt :: "int option"
  lp_params :: params

definition lpool_empty :: lpool where
  "lpool_empty = \<lparr>lp_admin = None, lp_usdc = None, lp_credit = None, lp_total_liquidity = None,
     lp_total_lp = None, lp_lender_balance = Map.empty, lp_loan = Map.empty, lp_loan_count = None,
     lp_deposit_ledger_inst = Map.empty, lp_deposit_ledger = Map.empty, lp_block_total = Map.empty,
     lp_block_ledger = Map.empty, lp_snapshot = None, lp_snapshot_ledger = None,
     lp_base_rate = None, lp_kink = None, lp_slope1 = None, lp_slope2 = None, lp_min_score = None,
     lp_reporting = None, lp_auction = Map.empty, lp_bad_debt = None, lp_params = params_empty\<rparr>"

definition DEFAULT_BASE_RATE_BPS :: int where "DEFAULT_BASE_RATE_BPS = 100"
definition DEFAULT_KINK_BPS :: int where "DEFAULT_KINK_BPS = 8000"
definition DEFAULT_SLOPE1_BPS :: int where "DEFAULT_SLOPE1_BPS = 400"
definition DEFAULT_SLOPE2_BPS :: int where "DEFAULT_SLOPE2_BPS = 3000"
definition LIQUIDATION_SECONDS :: nat where "LIQUIDATION_SECONDS = 30 * 86400"
definition PER_BLOCK_BORROW_CAP_BPS :: int where "PER_BLOCK_BORROW_CAP_BPS = 1000"
definition AUCTION_DURATION_SECS :: nat where "AUCTION_DURATION_SECS = 24 * 60 * 60"
definition MAX_AUCTION_DISCOUNT_BPS :: int where "MAX_AUCTION_DISCOUNT_BPS = 2000"

type_synonym 'a lp_res = "lending_error fail + 'a"


section \<open>Administration\<close>

definition lp_initialize :: "addr \<Rightarrow> addr \<Rightarrow> addr \<Rightarrow> addr \<Rightarrow> lpool \<Rightarrow> lpool lp_res" where
  "lp_initialize admin usdc_token credit_score_contract rbac_contract s =
    ensure (lp_admin s = None) (Err LpAlreadyInitialized)
      (Inr (s\<lparr>lp_admin := Some admin, lp_usdc := Some usdc_token,
              lp_credit := Some credit_score_contract, lp_total_liquidity := Some 0,
              lp_total_lp := Some 0, lp_base_rate := Some DEFAULT_BASE_RATE_BPS,
              lp_kink := Some DEFAULT_KINK_BPS, lp_slope1 := Some DEFAULT_SLOPE1_BPS,
              lp_slope2 := Some DEFAULT_SLOPE2_BPS, lp_reporting := Some admin,
              lp_params := init_protocol_params rbac_contract (lp_params s)\<rparr>))"

definition lp_set_regulatory_reporting :: "env \<Rightarrow> addr \<Rightarrow> lpool \<Rightarrow> lpool lp_res" where
  "lp_set_regulatory_reporting env reporting_address s =
    expect (lp_admin s) (Err LpNotInitialized) (\<lambda>admin.
    ensure (auth_by env admin) AuthDenied (Inr (s\<lparr>lp_reporting := Some reporting_address\<rparr>)))"

definition lp_set_param :: "(addr \<Rightarrow> rbac) \<Rightarrow> env \<Rightarrow> addr \<Rightarrow> symbol \<Rightarrow> int \<Rightarrow> lpool \<Rightarrow> lpool lp_res" where
  "lp_set_param R env caller key value s =
    rbind (set_param R env caller key value (lp_params s)) (\<lambda>p. Inr (s\<lparr>lp_params := p\<rparr>))"

definition lp_set_rate_model :: "env \<Rightarrow> int \<Rightarrow> int \<Rightarrow> int \<Rightarrow> int \<Rightarrow> lpool \<Rightarrow> lpool lp_res" where
  "lp_set_rate_model env base_rate_bps kink_bps slope1_bps slope2_bps s =
    expect (lp_admin s) (Err LpNotInitialized) (\<lambda>admin.
    ensure (auth_by env admin) AuthDenied (
    ensure (\<not> (base_rate_bps < 0 \<or> 10000 < base_rate_bps)) (Panic ''base_rate_bps must be 0-10000'') (
    ensure (\<not> (kink_bps < 0 \<or> 10000 < kink_bps)) (Panic ''kink_bps must be 0-10000'') (
    ensure (\<not> (slope1_bps < 0 \<or> 10000 < slope1_bps)) (Panic ''slope1_bps must be 0-10000'') (
    ensure (\<not> (slope2_bps < 0 \<or> 10000 < slope2_bps)) (Panic ''slope2_bps must be 0-10000'') (
    Inr (s\<lparr>lp_base_rate := Some base_rate_bps, lp_kink := Some kink_bps,
            lp_slope1 := Some slope1_bps, lp_slope2 := Some slope2_bps\<rparr>)))))))"

definition lp_set_min_credit_score :: "env \<Rightarrow> addr \<Rightarrow> nat \<Rightarrow> lpool \<Rightarrow> lpool lp_res" where
  "lp_set_min_credit_score env admin new_min s =
    expect (lp_admin s) (Err LpNotInitialized) (\<lambda>stored_admin.
    ensure (auth_by env admin) AuthDenied (
    ensure (stored_admin = admin) (Err LpNotAdmin) (Inr (s\<lparr>lp_min_score := Some new_min\<rparr>))))"

definition lp_get_min_credit_score :: "lpool \<Rightarrow> nat" where
  "lp_get_min_credit_score s = get_or (nat DEFAULT_MIN_CREDIT_SCORE) (lp_min_score s)"

definition lp_min_credit_score :: "lpool \<Rightarrow> int" where
  "lp_min_credit_score s = get_param key_min_credit_score DEFAULT_MIN_CREDIT_SCORE (lp_params s)"


section \<open>Rates and fees\<close>

definition or_i128_max :: "int option \<Rightarrow> int" where "or_i128_max x = get_or i128_max x"

definition lp_get_current_rate :: "lpool \<Rightarrow> int lp_res" where
  "lp_get_current_rate s =
    (let total_liquidity = get_or 0 (lp_total_liquidity s);
         total_borrowed = get_or 0 (lp_loan_count s) in
     rbind (arith_i128 (total_borrowed + total_liquidity)) (\<lambda>total_supply.
     if total_supply = 0 then Inr (get_or DEFAULT_BASE_RATE_BPS (lp_base_rate s))
     else
       let utilization_bps = get_or 0 (checked_div_i128 (or_i128_max (checked_i128 (total_borrowed * 10000))) total_supply);
           base_rate = get_or DEFAULT_BASE_RATE_BPS (lp_base_rate s);
           kink = get_or DEFAULT_KINK_BPS (lp_kink s);
           slope1 = get_or DEFAULT_SLOPE1_BPS (lp_slope1 s);
           slope2 = get_or DEFAULT_SLOPE2_BPS (lp_slope2 s) in
       if utilization_bps \<le> kink then
         let rate_increase = get_or 0 (checked_div_i128 (or_i128_max (checked_i128 (utilization_bps * slope1))) kink)
         in Inr (or_i128_max (checked_i128 (base_rate + rate_increase)))
       else
         rbind (arith_i128 (utilization_bps - kink)) (\<lambda>excess_util.
         rbind (arith_i128 (10000 - kink)) (\<lambda>denominator.
         let rate_increase_2 = get_or 0 (checked_div_i128 (or_i128_max (checked_i128 (excess_util * slope2))) denominator)
         in Inr (or_i128_max (checked_i128 (or_i128_max (checked_i128 (base_rate + slope1)) + rate_increase_2)))))))"

definition lp_compute_fee :: "int \<Rightarrow> lpool \<Rightarrow> int lp_res" where
  "lp_compute_fee amount s =
    (let gov_rate = get_or 0 (pp_param (lp_params s) key_interest_rate_bps) in
     rbind (if 0 < gov_rate then Inr gov_rate else lp_get_current_rate s) (\<lambda>rate.
     expect (checked_i128 (amount * rate)) (Panic ''Overflow'') (\<lambda>x.
     expect (checked_div_i128 x 10000) (Panic ''Division error'') Inr)))"


section \<open>Lenders\<close>

definition lp_deposit ::
    "'t token_ops \<Rightarrow> env \<Rightarrow> addr \<Rightarrow> int \<Rightarrow> lpool \<times> 't \<Rightarrow> (int \<times> lpool \<times> 't) lp_res" where
  "lp_deposit T env lender amount sw =
    (let (s, w) = sw in
    ensure (lp_admin s \<noteq> None) (Err LpNotInitialized) (
    ensure (\<not> amount \<le> 0) (Err LpInvalidAmount) (
    ensure (auth_by env lender) AuthDenied (
    expect (lp_usdc s) (Panic ''unwrap'') (\<lambda>usdc_token.
    rbind (call_ext (tk_transfer T (as_invoker env) usdc_token lender (self_addr env) amount w)) (\<lambda>w1.
    let lp_tokens = amount in
    expect (checked_i128 (get_or 0 (lp_total_liquidity s) + amount)) (Panic ''Overflow'') (\<lambda>total_liquidity.
    expect (checked_i128 (get_or 0 (lp_total_lp s) + lp_tokens)) (Panic ''Overflow'') (\<lambda>total_lp.
    expect (checked_i128 (get_or 0 (lp_lender_balance s lender) + lp_tokens)) (Panic ''Overflow'') (\<lambda>lender_balance.
    Inr (lp_tokens, s\<lparr>lp_total_liquidity := Some total_liquidity, lp_total_lp := Some total_lp,
                      lp_lender_balance := (lp_lender_balance s)(lender \<mapsto> lender_balance),
                      lp_deposit_ledger_inst := (lp_deposit_ledger_inst s)(lender \<mapsto> ledger_seq env)\<rparr>, w1))))))))))"

definition lp_withdraw ::
    "'t token_ops \<Rightarrow> env \<Rightarrow> addr \<Rightarrow> int \<Rightarrow> lpool \<times> 't \<Rightarrow> (int \<times> lpool \<times> 't) lp_res" where
  "lp_withdraw T env lender lp_amount sw =
    (let (s, w) = sw in
    ensure (lp_admin s \<noteq> None) (Err LpNotInitialized) (
    ensure (\<not> lp_amount \<le> 0) (Err LpInvalidAmount) (
    ensure (auth_by env lender) AuthDenied (
    let deposit_ledger = get_or 0 (lp_deposit_ledger s lender) in
    ensure (deposit_ledger \<noteq> ledger_seq env) (Err LpSameBlockDepositWithdraw) (
    let lender_balance = get_or 0 (lp_lender_balance s lender) in
    ensure (\<not> lender_balance < lp_amount) (Err LpInsufficientBalance) (
    let usdc_amount = lp_amount in
    expect (lp_usdc s) (Panic ''unwrap'') (\<lambda>usdc_token.
    rbind (pay_self T env usdc_token lender usdc_amount w) (\<lambda>w1.
    expect (checked_i128 (get_or 0 (lp_total_liquidity s) - usdc_amount)) (Panic ''Underflow'') (\<lambda>total_liquidity.
    expect (checked_i128 (get_or 0 (lp_total_lp s) - lp_amount)) (Panic ''Underflow'') (\<lambda>total_lp.
    expect (checked_i128 (lender_balance - lp_amount)) (Panic ''Underflow'') (\<lambda>new_balance.
    Inr (usdc_amount, s\<lparr>lp_total_liquidity := Some total_liquidity, lp_total_lp := Some total_lp,
      lp_lender_balance := (lp_lender_balance s)
        (lender := if new_balance = 0 then None else Some new_balance)\<rparr>, w1))))))))))))"


section \<open>Borrowers\<close>

text \<open>The liquidity at the first loan of the current ledger, recorded when this is the first one.\<close>

definition lp_block_liquidity :: "env \<Rightarrow> int \<Rightarrow> lpool \<Rightarrow> int \<times> lpool" where
  "lp_block_liquidity env total_liquidity s =
    (if get_or 0 (lp_snapshot_ledger s) = ledger_seq env
     then (get_or total_liquidity (lp_snapshot s), s)
     else (total_liquidity, s\<lparr>lp_snapshot := Some total_liquidity,
                              lp_snapshot_ledger := Some (ledger_seq env)\<rparr>))"

text \<open>\<open>C\<close> is the credit score contract: the score at a contract address of an account.\<close>

definition lp_borrow ::
    "'t token_ops \<Rightarrow> (addr \<Rightarrow> addr \<Rightarrow> unit fail + nat) \<Rightarrow> env \<Rightarrow> addr \<Rightarrow> int \<Rightarrow> symbol \<Rightarrow>
     lpool \<times> 't \<Rightarrow> (lpool \<times> 't) lp_res" where
  "lp_borrow T C env borrower amount session_id sw =
    (let (s, w) = sw in
    ensure (lp_admin s \<noteq> None) (Err LpNotInitialized) (
    ensure (\<not> amount \<le> 0) (Err LpInvalidAmount) (
    ensure (auth_by env borrower) AuthDenied (
    expect (lp_credit s) (Err LpNotInitialized) (\<lambda>credit_contract.
    let min_credit_score = get_or (nat DEFAULT_MIN_CREDIT_SCORE) (lp_min_score s) in
    rbind (call_ext (C credit_contract borrower)) (\<lambda>credit_score.
    ensure (\<not> credit_score < min_credit_score) (Err LpLowCreditScore) (
    let total_liquidity = get_or 0 (lp_total_liquidity s) in
    ensure (\<not> total_liquidity < amount) (Err LpInsufficientLiquidity) (
    let current_seq = ledger_seq env;
        (liquidity_snapshot, s1) = lp_block_liquidity env total_liquidity s;
        per_block_cap = or_i128_max (checked_div_i128
          (or_i128_max (checked_i128 (liquidity_snapshot * PER_BLOCK_BORROW_CAP_BPS))) 10000);
        borrow_ledger = get_or 0 (lp_block_ledger s1 borrower);
        block_total = (if borrow_ledger = current_seq then get_or 0 (lp_block_total s1 borrower) else 0);
        new_block_total = or_i128_max (checked_i128 (block_total + amount)) in
    ensure (\<not> per_block_cap < new_block_total) (Err LpPerBlockBorrowLimitExceeded) (
    let s2 = s1\<lparr>lp_block_total := (lp_block_total s1)(borrower \<mapsto> new_block_total),
                lp_block_ledger := (lp_block_ledger s1)(borrower \<mapsto> current_seq)\<rparr> in
    rbind (lp_compute_fee amount s2) (\<lambda>fee.
    expect (lp_usdc s2) (Panic ''unwrap'') (\<lambda>usdc_token.
    rbind (pay_self T env usdc_token borrower amount w) (\<lambda>w1.
    let now = ledger_ts env in
    expect (checked_u64 (now + LIQUIDATION_SECONDS)) (Panic ''Timestamp overflow'') (\<lambda>due_at.
    let loan = \<lparr>ln_borrower = borrower, ln_amount = amount, ln_fee = fee, ln_session = session_id,
                ln_borrowed_at = now, ln_due_at = due_at, ln_repaid = False\<rparr> in
    expect (checked_i128 (total_liquidity - amount)) (Panic ''Underflow'') (\<lambda>new_liquidity.
    Inr (s2\<lparr>lp_loan := (lp_loan s2)(borrower \<mapsto> loan),
            lp_total_liquidity := Some new_liquidity\<rparr>, w1)))))))))))))))"

definition lp_repay ::
    "'t token_ops \<Rightarrow> env \<Rightarrow> addr \<Rightarrow> int \<Rightarrow> lpool \<times> 't \<Rightarrow> (lpool \<times> 't) lp_res" where
  "lp_repay T env borrower amount sw =
    (let (s, w) = sw in
    ensure (lp_admin s \<noteq> None) (Err LpNotInitialized) (
    ensure (\<not> amount \<le> 0) (Err LpInvalidAmount) (
    ensure (auth_by env borrower) AuthDenied (
    expect (lp_loan s borrower) (Err LpLoanNotFound) (\<lambda>loan.
    ensure (\<not> ln_repaid loan) (Err LpLoanAlreadyRepaid) (
    rbind (arith_i128 (ln_amount loan + ln_fee loan)) (\<lambda>total_owed.
    ensure (\<not> amount < total_owed) (Err LpInvalidAmount) (
    expect (lp_usdc s) (Panic ''unwrap'') (\<lambda>usdc_token.
    rbind (call_ext (tk_transfer T (as_invoker env) usdc_token borrower (self_addr env) total_owed w)) (\<lambda>w1.
    expect (checked_i128 (get_or 0 (lp_total_liquidity s) + total_owed)) (Panic ''Overflow'') (\<lambda>total_liquidity.
    Inr (s\<lparr>lp_loan := (lp_loan s)(borrower \<mapsto> loan\<lparr>ln_repaid := True\<rparr>),
            lp_total_liquidity := Some total_liquidity\<rparr>, w1))))))))))))"

definition lp_get_loan :: "addr \<Rightarrow> lpool \<Rightarrow> loan_record lp_res" where
  "lp_get_loan borrower s = expect (lp_loan s borrower) (Err LpLoanNotFound) Inr"

definition lp_get_block_borrow_total :: "env \<Rightarrow> addr \<Rightarrow> lpool \<Rightarrow> int" where
  "lp_get_block_borrow_total env borrower s =
    (if get_or 0 (lp_block_ledger s borrower) = ledger_seq env
     then get_or 0 (lp_block_total s borrower) else 0)"

definition lp_get_liquidity_snapshot :: "env \<Rightarrow> lpool \<Rightarrow> int" where
  "lp_get_liquidity_snapshot env s =
    (if get_or 0 (lp_snapshot_ledger s) = ledger_seq env then get_or 0 (lp_snapshot s)
     else get_or 0 (lp_total_liquidity s))"


section \<open>Liquidation\<close>

definition lp_liquidate :: "env \<Rightarrow> addr \<Rightarrow> lpool \<Rightarrow> lpool lp_res" where
  "lp_liquidate env borrower s =
    expect (lp_admin s) (Err LpNotInitialized) (\<lambda>admin.
    ensure (auth_by env admin) AuthDenied (
    expect (lp_loan s borrower) (Err LpLoanNotFound) (\<lambda>loan.
    ensure (\<not> ln_repaid loan) (Err LpLoanAlreadyRepaid) (
    ensure (\<not> ledger_ts env \<le> ln_due_at loan) (Panic ''loan not yet due'') (
    Inr (s\<lparr>lp_loan := (lp_loan s)(borrower \<mapsto> loan\<lparr>ln_repaid := True\<rparr>)\<rparr>))))))"

definition lp_start_auction :: "env \<Rightarrow> addr \<Rightarrow> lpool \<Rightarrow> lpool lp_res" where
  "lp_start_auction env borrower s =
    expect (lp_loan s borrower) (Err LpLoanNotFound) (\<lambda>loan.
    ensure (\<not> ln_repaid loan) (Err LpLoanAlreadyRepaid) (
    ensure (\<not> ledger_ts env \<le> ln_due_at loan) (Err LpLoanNotDue) (
    ensure (lp_auction s borrower = None) (Err LpAuctionAlreadyActive) (
    Inr (s\<lparr>lp_auction := (lp_auction s)(borrower \<mapsto> \<lparr>au_loan = loan, au_started_at = ledger_ts env,
            au_discount_bps = 0, au_liquidator = None\<rparr>)\<rparr>)))))"

definition lp_get_auction_discount :: "env \<Rightarrow> addr \<Rightarrow> lpool \<Rightarrow> int lp_res" where
  "lp_get_auction_discount env borrower s =
    expect (lp_auction s borrower) (Err LpAuctionNotFound) (\<lambda>auction.
    let elapsed = ledger_ts env - au_started_at auction in
    if AUCTION_DURATION_SECS \<le> elapsed then Inr MAX_AUCTION_DISCOUNT_BPS
    else
      expect (checked_i128 (MAX_AUCTION_DISCOUNT_BPS * int elapsed)) (Panic ''Overflow'') (\<lambda>x.
      expect (checked_div_i128 x (int AUCTION_DURATION_SECS)) (Panic ''Division error'') Inr))"

definition lp_execute_liquidation ::
    "'t token_ops \<Rightarrow> env \<Rightarrow> addr \<Rightarrow> addr \<Rightarrow> lpool \<times> 't \<Rightarrow> (lpool \<times> 't) lp_res" where
  "lp_execute_liquidation T env liquidator borrower sw =
    (let (s, w) = sw in
    ensure (auth_by env liquidator) AuthDenied (
    expect (lp_auction s borrower) (Err LpAuctionNotFound) (\<lambda>auction.
    ensure (au_liquidator auction = None) (Err LpAuctionAlreadySettled) (
    rbind (lp_get_auction_discount env borrower s) (\<lambda>discount_bps.
    rbind (arith_i128 (ln_amount (au_loan auction) + ln_fee (au_loan auction))) (\<lambda>total_owed.
    expect (checked_i128 (total_owed * discount_bps)) (Panic ''Overflow'') (\<lambda>x.
    expect (checked_div_i128 x 10000) (Panic ''Division error'') (\<lambda>discount_amount.
    rbind (arith_i128 (total_owed - discount_amount)) (\<lambda>payment.
    expect (lp_usdc s) (Panic ''unwrap'') (\<lambda>usdc_token.
    rbind (call_ext (tk_transfer T (as_invoker env) usdc_token liquidator (self_addr env) payment w)) (\<lambda>w1.
    expect (checked_i128 (get_or 0 (lp_total_liquidity s) + payment)) (Panic ''Overflow'') (\<lambda>total_liquidity.
    Inr (s\<lparr>lp_total_liquidity := Some total_liquidity,
            lp_loan := (lp_loan s)(borrower \<mapsto> (au_loan auction)\<lparr>ln_repaid := True\<rparr>),
            lp_auction := (lp_auction s)(borrower := None)\<rparr>, w1)))))))))))))"

definition lp_force_liquidate :: "env \<Rightarrow> addr \<Rightarrow> addr \<Rightarrow> lpool \<Rightarrow> lpool lp_res" where
  "lp_force_liquidate env admin borrower s =
    expect (lp_admin s) (Err LpNotInitialized) (\<lambda>stored_admin.
    ensure (auth_by env admin) AuthDenied (
    ensure (admin = stored_admin) (Err LpNotAdmin) (
    expect (lp_loan s borrower) (Err LpLoanNotFound) (\<lambda>loan.
    ensure (\<not> ln_repaid loan) (Err LpLoanAlreadyRepaid) (
    rbind (arith_i128 (ln_amount loan + ln_fee loan)) (\<lambda>total_owed.
    expect (checked_i128 (get_or 0 (lp_bad_debt s) + total_owed)) (Panic ''Overflow'') (\<lambda>bad_debt.
    Inr (s\<lparr>lp_loan := (lp_loan s)(borrower \<mapsto> loan\<lparr>ln_repaid := True\<rparr>),
            lp_auction := (lp_auction s)(borrower := None), lp_bad_debt := Some bad_debt\<rparr>))))))))"

definition lp_get_bad_debt :: "lpool \<Rightarrow> int" where
  "lp_get_bad_debt s = get_or 0 (lp_bad_debt s)"


section \<open>Yield\<close>

definition lp_accrue_yield :: "env \<Rightarrow> addr \<Rightarrow> int \<Rightarrow> lpool \<Rightarrow> lpool lp_res" where
  "lp_accrue_yield env admin amount s =
    ensure (\<not> amount \<le> 0) (Err LpInvalidAmount) (
    expect (lp_admin s) (Err LpNotInitialized) (\<lambda>stored_admin.
    ensure (auth_by env admin) AuthDenied (
    ensure (stored_admin = admin) (Err LpNotAdmin) (
    expect (checked_i128 (get_or 0 (lp_total_liquidity s) + amount)) (Panic ''Overflow'') (\<lambda>total_liquidity.
    Inr (s\<lparr>lp_total_liquidity := Some total_liquidity\<rparr>))))))"

definition lp_distribute_yield :: "env \<Rightarrow> addr \<Rightarrow> addr \<Rightarrow> int \<Rightarrow> lpool \<Rightarrow> lpool lp_res" where
  "lp_distribute_yield env admin lender amount s =
    ensure (\<not> amount \<le> 0) (Err LpInvalidAmount) (
    expect (lp_admin s) (Err LpNotInitialized) (\<lambda>stored_admin.
    ensure (auth_by env admin) AuthDenied (
    ensure (stored_admin = admin) (Err LpNotAdmin) (
    expect (checked_i128 (get_or 0 (lp_lender_balance s lender) + amount)) (Panic ''Overflow'') (\<lambda>lender_balance.
    expect (checked_i128 (get_or 0 (lp_total_lp s) + amount)) (Panic ''Overflow'') (\<lambda>total_lp.
    Inr (s\<lparr>lp_lender_balance := (lp_lender_balance s)(lender \<mapsto> lender_balance),
            lp_total_lp := Some total_lp\<rparr>)))))))"

end
