(* ===== verification/LendingRules.thy ===== *)
theory LendingRules
  imports LendingPool
begin

text \<open>
  The lending pool over all its reachable states: what the recorded totals mean, which rate is
  charged, and two ways in which the pool loses money.
\<close>

section \<open>Calls and reachable states\<close>

datatype lp_call =
    LInit addr addr addr addr
  | LReporting addr
  | LParam addr symbol int
  | LRates int int int int
  | LMinScore addr nat
  | LDeposit addr int
  | LWithdraw addr int
  | LBorrow addr int symbol
  | LRepay addr int
  | LLiquidate addr
  | LStart addr
  | LExecute addr addr
  | LForce addr addr
  | LAccrue addr int
  | LDistribute addr addr int

definition lp_world :: "'t \<Rightarrow> lpool lp_res \<Rightarrow> (lpool \<times> 't) lp_res" where
  "lp_world w r = rbind r (\<lambda>s. Inr (s, w))"

lemma lp_world_Inr [res_simps]: "lp_world w r = Inr (s, w') \<longleftrightarrow> r = Inr s \<and> w' = w"
  by (auto simp: lp_world_def res_simps)

fun lp_exec ::
    "'t token_ops \<Rightarrow> (addr \<Rightarrow> addr \<Rightarrow> unit fail + nat) \<Rightarrow> (addr \<Rightarrow> rbac) \<Rightarrow> env \<Rightarrow> lp_call \<Rightarrow>
     lpool \<times> 't \<Rightarrow> (lpool \<times> 't) lp_res" where
  "lp_exec T C R env (LInit a u c r) (s, w) = lp_world w (lp_initialize a u c r s)"
| "lp_exec T C R env (LReporting a) (s, w) = lp_world w (lp_set_regulatory_reporting env a s)"
| "lp_exec T C R env (LParam a k v) (s, w) = lp_world w (lp_set_param R env a k v s)"
| "lp_exec T C R env (LRates b k x y) (s, w) = lp_world w (lp_set_rate_model env b k x y s)"
| "lp_exec T C R env (LMinScore a n) (s, w) = lp_world w (lp_set_min_credit_score env a n s)"
| "lp_exec T C R env (LDeposit a n) (s, w) = rbind (lp_deposit T env a n (s, w)) (\<lambda>(_, sw). Inr sw)"
| "lp_exec T C R env (LWithdraw a n) (s, w) = rbind (lp_withdraw T env a n (s, w)) (\<lambda>(_, sw). Inr sw)"
| "lp_exec T C R env (LBorrow a n k) (s, w) = lp_borrow T C env a n k (s, w)"
| "lp_exec T C R env (LRepay a n) (s, w) = lp_repay T env a n (s, w)"
| "lp_exec T C R env (LLiquidate b) (s, w) = lp_world w (lp_liquidate env b s)"
| "lp_exec T C R env (LStart b) (s, w) = lp_world w (lp_start_auction env b s)"
| "lp_exec T C R env (LExecute l b) (s, w) = lp_execute_liquidation T env l b (s, w)"
| "lp_exec T C R env (LForce a b) (s, w) = lp_world w (lp_force_liquidate env a b s)"
| "lp_exec T C R env (LAccrue a n) (s, w) = lp_world w (lp_accrue_yield env a n s)"
| "lp_exec T C R env (LDistribute a b n) (s, w) = lp_world w (lp_distribute_yield env a b n s)"

text \<open>The yield the admin has recorded so far is carried along.\<close>

fun recorded_yield :: "lp_call \<Rightarrow> int" where
  "recorded_yield (LAccrue a n) = n"
| "recorded_yield _ = 0"

inductive lp_reach :: "'t token_ops \<Rightarrow> addr \<Rightarrow> int \<Rightarrow> lpool \<Rightarrow> 't \<Rightarrow> bool" for T self where
  lp_start: "\<forall>tk. 0 \<le> tk_balance T tk self w \<Longrightarrow> lp_reach T self 0 lpool_empty w"
| lp_call: "lp_reach T self y s w \<Longrightarrow> external env \<Longrightarrow> self_addr env = self \<Longrightarrow>
     lp_exec T C R env c (s, w) = Inr (s', w') \<Longrightarrow> lp_reach T self (y + recorded_yield c) s' w'"
| lp_other: "lp_reach T self y s w \<Longrightarrow> \<forall>tk. tk_balance T tk self w \<le> tk_balance T tk self w' \<Longrightarrow>
     lp_reach T self y s w'"


section \<open>Invariant\<close>

definition lp_rates_ok :: "lpool \<Rightarrow> bool" where
  "lp_rates_ok s \<longleftrightarrow> lp_loan_count s = None \<and> 0 \<le> get_or 0 (lp_base_rate s) \<and>
     get_or 0 (lp_base_rate s) \<le> 10000 \<and> 0 \<le> get_or 0 (lp_kink s) \<and>
     (lp_admin s \<noteq> None \<longrightarrow> lp_base_rate s \<noteq> None \<and> lp_kink s \<noteq> None) \<and>
     in_i128 (get_or 0 (lp_total_liquidity s)) \<and> params_ok (lp_params s) \<and>
     lp_deposit_ledger s = Map.empty"

definition lp_shares_ok :: "lpool \<Rightarrow> bool" where
  "lp_shares_ok s \<longleftrightarrow> finite (dom (lp_lender_balance s)) \<and>
     (\<forall>a v. lp_lender_balance s a = Some v \<longrightarrow> 0 < v) \<and>
     get_or 0 (lp_total_lp s) = wsum id (lp_lender_balance s) \<and>
     (lp_admin s = None \<longrightarrow> lp_lender_balance s = Map.empty)"

definition lp_funds_ok :: "'t token_ops \<Rightarrow> addr \<Rightarrow> int \<Rightarrow> lpool \<Rightarrow> 't \<Rightarrow> bool" where
  "lp_funds_ok T self y s w \<longleftrightarrow>
     (if lp_admin s = None then y = 0 \<and> lp_usdc s = None \<and> get_or 0 (lp_total_liquidity s) = 0 \<and>
        (\<forall>tk. 0 \<le> tk_balance T tk self w)
      else \<exists>tk. lp_usdc s = Some tk \<and> get_or 0 (lp_total_liquidity s) \<le> tk_balance T tk self w + y)"

lemmas lp_admin_ops =
  lp_initialize_def lp_set_regulatory_reporting_def lp_set_param_def lp_set_rate_model_def
  lp_set_min_credit_score_def lp_liquidate_def lp_start_auction_def lp_force_liquidate_def
  lp_accrue_yield_def lp_distribute_yield_def

lemma get_or_wat: "get_or 0 (m k) = wat id (m k)"
  by (cases "m k") simp_all


section \<open>Inversion of the operations that move tokens\<close>

lemma lp_deposit_Inr:
  assumes "lp_deposit T env a n (s, w) = Inr (m, s', w')"
  obtains tk where "lp_usdc s = Some tk" "lp_admin s \<noteq> None" "auth_by env a" "0 < n" "m = n"
    "tk_transfer T (as_invoker env) tk a (self_addr env) n w = Inr w'"
    "in_i128 (get_or 0 (lp_total_liquidity s) + n)" "in_i128 (get_or 0 (lp_total_lp s) + n)"
    "in_i128 (get_or 0 (lp_lender_balance s a) + n)"
    "s' = s\<lparr>lp_total_liquidity := Some (get_or 0 (lp_total_liquidity s) + n),
            lp_total_lp := Some (get_or 0 (lp_total_lp s) + n),
            lp_lender_balance := (lp_lender_balance s)(a \<mapsto> get_or 0 (lp_lender_balance s a) + n),
            lp_deposit_ledger_inst := (lp_deposit_ledger_inst s)(a \<mapsto> ledger_seq env)\<rparr>"
  using assms by (auto simp: lp_deposit_def Let_def res_simps not_le)

lemma lp_withdraw_Inr:
  assumes "lp_withdraw T env a n (s, w) = Inr (m, s', w')"
  obtains tk where "lp_usdc s = Some tk" "lp_admin s \<noteq> None" "auth_by env a" "0 < n" "m = n"
    "n \<le> get_or 0 (lp_lender_balance s a)" "in_i128 (get_or 0 (lp_total_liquidity s) - n)"
    "pay_self T env tk a n w = (Inr w' :: lending_error fail + 'a)"
    "s' = s\<lparr>lp_total_liquidity := Some (get_or 0 (lp_total_liquidity s) - n),
            lp_total_lp := Some (get_or 0 (lp_total_lp s) - n),
            lp_lender_balance := (lp_lender_balance s)
              (a := if get_or 0 (lp_lender_balance s a) - n = 0 then None
                    else Some (get_or 0 (lp_lender_balance s a) - n))\<rparr>"
  using assms by (auto simp: lp_withdraw_def Let_def res_simps not_le not_less)

text \<open>The record of a new loan, and what \<open>borrow\<close> leaves of the state outside its guards.\<close>

definition new_loan :: "env \<Rightarrow> addr \<Rightarrow> int \<Rightarrow> int \<Rightarrow> symbol \<Rightarrow> loan_record" where
  "new_loan env b n fee k = \<lparr>ln_borrower = b, ln_amount = n, ln_fee = fee, ln_session = k,
     ln_borrowed_at = ledger_ts env, ln_due_at = ledger_ts env + LIQUIDATION_SECONDS, ln_repaid = False\<rparr>"

lemma lp_fee_frame:
  assumes "lp_total_liquidity s' = lp_total_liquidity s" "lp_loan_count s' = lp_loan_count s"
    "lp_base_rate s' = lp_base_rate s" "lp_kink s' = lp_kink s" "lp_slope1 s' = lp_slope1 s"
    "lp_slope2 s' = lp_slope2 s" "lp_params s' = lp_params s"
  shows "lp_compute_fee n s' = lp_compute_fee n s"
  unfolding lp_compute_fee_def lp_get_current_rate_def assms ..

lemma lp_borrow_Inr:
  assumes "lp_borrow T C env b n k (s, w) = Inr (s', w')"
  obtains tk fee sn sl bt bl where "lp_usdc s = Some tk" "lp_admin s \<noteq> None" "auth_by env b" "0 < n"
    "n \<le> get_or 0 (lp_total_liquidity s)" "in_i128 (get_or 0 (lp_total_liquidity s) - n)"
    "pay_self T env tk b n w = (Inr w' :: lending_error fail + 'a)" "lp_compute_fee n s = Inr fee"
    "s' = s\<lparr>lp_snapshot := sn, lp_snapshot_ledger := sl, lp_block_total := bt, lp_block_ledger := bl,
            lp_loan := (lp_loan s)(b \<mapsto> new_loan env b n fee k),
            lp_total_liquidity := Some (get_or 0 (lp_total_liquidity s) - n)\<rparr>"
proof -
  obtain sn sl where s1: "snd (lp_block_liquidity env (get_or 0 (lp_total_liquidity s)) s) =
      s\<lparr>lp_snapshot := sn, lp_snapshot_ledger := sl\<rparr>"
  proof (cases "get_or 0 (lp_snapshot_ledger s) = ledger_seq env")
    case True
    then show thesis
      by (intro that [where sn = "lp_snapshot s" and sl = "lp_snapshot_ledger s"]) (simp add: lp_block_liquidity_def)
  next
    case False
    then show thesis by (intro that) (simp add: lp_block_liquidity_def)
  qed
  have fee: "lp_compute_fee n (s\<lparr>lp_snapshot := sn, lp_snapshot_ledger := sl, lp_block_total := x,
      lp_block_ledger := y\<rparr>) = lp_compute_fee n s" for x y
    by (rule lp_fee_frame) simp_all
  from assms show thesis
    unfolding lp_borrow_def Let_def prod.case case_prod_unfold fst_conv snd_conv s1
    by (auto simp: res_simps not_le not_less fee new_loan_def intro!: that)
qed

lemma lp_repay_Inr:
  assumes "lp_repay T env b n (s, w) = Inr (s', w')"
  obtains tk ln where "lp_usdc s = Some tk" "lp_admin s \<noteq> None" "auth_by env b"
    "lp_loan s b = Some ln" "\<not> ln_repaid ln" "ln_amount ln + ln_fee ln \<le> n"
    "tk_transfer T (as_invoker env) tk b (self_addr env) (ln_amount ln + ln_fee ln) w = Inr w'"
    "in_i128 (get_or 0 (lp_total_liquidity s) + (ln_amount ln + ln_fee ln))"
    "s' = s\<lparr>lp_loan := (lp_loan s)(b \<mapsto> ln\<lparr>ln_repaid := True\<rparr>),
            lp_total_liquidity := Some (get_or 0 (lp_total_liquidity s) + (ln_amount ln + ln_fee ln))\<rparr>"
  using assms by (auto simp: lp_repay_def Let_def res_simps not_le not_less)

lemma lp_execute_Inr:
  assumes "lp_execute_liquidation T env l b (s, w) = Inr (s', w')"
  obtains tk au d n where "lp_usdc s = Some tk" "auth_by env l" "lp_auction s b = Some au"
    "lp_get_auction_discount env b s = Inr d"
    "tk_transfer T (as_invoker env) tk l (self_addr env) n w = Inr w'"
    "checked_div_i128 ((ln_amount (au_loan au) + ln_fee (au_loan au)) * d) 10000 =
       Some (ln_amount (au_loan au) + ln_fee (au_loan au) - n)"
    "in_i128 (get_or 0 (lp_total_liquidity s) + n)"
    "s' = s\<lparr>lp_total_liquidity := Some (get_or 0 (lp_total_liquidity s) + n),
            lp_loan := (lp_loan s)(b \<mapsto> (au_loan au)\<lparr>ln_repaid := True\<rparr>),
            lp_auction := (lp_auction s)(b := None)\<rparr>"
  using assms by (auto simp: lp_execute_liquidation_def Let_def res_simps)


section \<open>Every call keeps the invariant\<close>

lemma shares_add:
  assumes "lp_shares_ok s" "0 < n" "lp_admin s \<noteq> None" "lp_admin s' = lp_admin s"
    "lp_lender_balance s' = (lp_lender_balance s)(a \<mapsto> get_or 0 (lp_lender_balance s a) + n)"
    "lp_total_lp s' = Some (get_or 0 (lp_total_lp s) + n)"
  shows "lp_shares_ok s'"
proof -
  have "0 \<le> get_or 0 (lp_lender_balance s a)"
    using assms(1) by (cases "lp_lender_balance s a") (auto simp: lp_shares_ok_def intro: less_imp_le)
  with assms show ?thesis
    by (auto simp: lp_shares_ok_def wsum_upd get_or_wat)
qed

lemma shares_sub:
  assumes "lp_shares_ok s" "0 < n" "n \<le> get_or 0 (lp_lender_balance s a)"
    "lp_admin s \<noteq> None" "lp_admin s' = lp_admin s"
    "lp_lender_balance s' = (lp_lender_balance s)
      (a := if get_or 0 (lp_lender_balance s a) - n = 0 then None
            else Some (get_or 0 (lp_lender_balance s a) - n))"
    "lp_total_lp s' = Some (get_or 0 (lp_total_lp s) - n)"
  shows "lp_shares_ok s'"
  using assms by (auto simp: lp_shares_ok_def wsum_upd wsum_del get_or_wat split: if_splits)

lemma shares_frame:
  assumes "lp_shares_ok s" "lp_lender_balance s' = lp_lender_balance s" "lp_total_lp s' = lp_total_lp s"
    "lp_admin s' = None \<Longrightarrow> lp_admin s = None"
  shows "lp_shares_ok s'"
  using assms by (auto simp: lp_shares_ok_def)

lemma rates_frame:
  assumes "lp_rates_ok s" "lp_loan_count s' = lp_loan_count s" "lp_base_rate s' = lp_base_rate s"
    "lp_kink s' = lp_kink s" "lp_admin s' = lp_admin s" "in_i128 (get_or 0 (lp_total_liquidity s'))"
    "lp_params s' = lp_params s" "lp_deposit_ledger s' = lp_deposit_ledger s"
  shows "lp_rates_ok s'"
  using assms by (simp add: lp_rates_ok_def)

lemma rates_liquidity: "lp_rates_ok s \<Longrightarrow> in_i128 (get_or 0 (lp_total_liquidity s))"
  by (simp add: lp_rates_ok_def)

lemma exec_rates:
  assumes "lp_exec T C R env c (s, w) = Inr (s', w')" "lp_rates_ok s"
  shows "lp_rates_ok s'"
proof (cases c)
  case (LInit a u d r)
  with assms init_params_ok show ?thesis
    by (auto simp: lp_admin_ops lp_rates_ok_def res_simps DEFAULT_BASE_RATE_BPS_def DEFAULT_KINK_BPS_def
        in_i128_def i128_min_def i128_max_def)
next
  case (LParam a k v)
  with assms obtain p where p: "set_param R env a k v (lp_params s) = (Inr p :: lending_error fail + _)" "s' = s\<lparr>lp_params := p\<rparr>"
    by (auto simp: lp_admin_ops res_simps)
  from set_param_ok [OF p(1)] assms(2) show ?thesis by (simp add: p(2) lp_rates_ok_def)
next
  case (LRates b k x y)
  with assms show ?thesis by (auto simp: lp_admin_ops lp_rates_ok_def res_simps)
next
  case (LDeposit a n)
  with assms(1) obtain m where "lp_deposit T env a n (s, w) = Inr (m, s', w')" by (auto simp: res_simps)
  then show ?thesis by (rule lp_deposit_Inr) (simp add: rates_frame [OF assms(2)])
next
  case (LWithdraw a n)
  with assms(1) obtain m where "lp_withdraw T env a n (s, w) = Inr (m, s', w')" by (auto simp: res_simps)
  then show ?thesis by (rule lp_withdraw_Inr) (simp add: rates_frame [OF assms(2)])
next
  case (LBorrow b n k)
  with assms(1) have "lp_borrow T C env b n k (s, w) = Inr (s', w')" by simp
  then show ?thesis by (rule lp_borrow_Inr) (simp add: rates_frame [OF assms(2)])
next
  case (LRepay b n)
  with assms(1) have "lp_repay T env b n (s, w) = Inr (s', w')" by simp
  then show ?thesis by (rule lp_repay_Inr) (simp add: rates_frame [OF assms(2)])
next
  case (LExecute l b)
  with assms(1) have "lp_execute_liquidation T env l b (s, w) = Inr (s', w')" by simp
  then show ?thesis by (rule lp_execute_Inr) (simp add: rates_frame [OF assms(2)])
qed (rule rates_frame [OF assms(2)];
     use assms(1) rates_liquidity [OF assms(2)] in \<open>auto simp: lp_admin_ops res_simps\<close>)+

lemma exec_shares:
  assumes "lp_exec T C R env c (s, w) = Inr (s', w')" "lp_shares_ok s"
  shows "lp_shares_ok s'"
proof (cases c)
  case (LInit a u d r)
  with assms show ?thesis by (auto simp: lp_admin_ops lp_shares_ok_def res_simps)
next
  case (LDeposit a n)
  with assms(1) obtain m where "lp_deposit T env a n (s, w) = Inr (m, s', w')" by (auto simp: res_simps)
  then show ?thesis by (rule lp_deposit_Inr) (rule shares_add [OF assms(2)]; simp)
next
  case (LWithdraw a n)
  with assms(1) obtain m where "lp_withdraw T env a n (s, w) = Inr (m, s', w')" by (auto simp: res_simps)
  then show ?thesis by (rule lp_withdraw_Inr) (rule shares_sub [OF assms(2)]; simp)
next
  case (LDistribute a b n)
  with assms(1) have adm: "lp_admin s \<noteq> None" "0 < n" and
    s': "s' = s\<lparr>lp_lender_balance := (lp_lender_balance s)(b \<mapsto> get_or 0 (lp_lender_balance s b) + n),
            lp_total_lp := Some (get_or 0 (lp_total_lp s) + n)\<rparr>"
    by (auto simp: lp_admin_ops res_simps)
  show ?thesis by (rule shares_add [OF assms(2) adm(2,1)]) (simp_all add: s')
next
  case (LBorrow b n k)
  with assms(1) have "lp_borrow T C env b n k (s, w) = Inr (s', w')" by simp
  then show ?thesis by (rule lp_borrow_Inr) (rule shares_frame [OF assms(2)]; simp)
next
  case (LRepay b n)
  with assms(1) have "lp_repay T env b n (s, w) = Inr (s', w')" by simp
  then show ?thesis by (rule lp_repay_Inr) (rule shares_frame [OF assms(2)]; simp)
next
  case (LExecute l b)
  with assms(1) have "lp_execute_liquidation T env l b (s, w) = Inr (s', w')" by simp
  then show ?thesis by (rule lp_execute_Inr) (rule shares_frame [OF assms(2)]; simp)
qed (rule shares_frame [OF assms(2)]; use assms(1) in \<open>auto simp: lp_admin_ops res_simps\<close>)+

context token_client
begin

lemma funds_pull:
  assumes "lp_funds_ok T self y s w" "external env" "self_addr env = self" "auth_by env a"
    "lp_usdc s = Some tk" "lp_admin s \<noteq> None"
    "tk_transfer T (as_invoker env) tk a (self_addr env) n w = Inr w'"
    "lp_usdc s' = lp_usdc s" "lp_admin s' = lp_admin s"
    "lp_total_liquidity s' = Some (get_or 0 (lp_total_liquidity s) + n)"
  shows "lp_funds_ok T self y s' w'"
proof -
  have "a \<noteq> self" using assms(2-4) by (auto simp: external_def)
  then have "tk_balance T tk self w' = tk_balance T tk self w + n"
    using pull_exact [of "as_invoker env" tk a self n w w' tk] assms(3,7) by simp
  with assms show ?thesis by (auto simp: lp_funds_ok_def)
qed

lemma funds_pay:
  assumes "lp_funds_ok T self y s w" "self_addr env = self" "lp_usdc s = Some tk" "lp_admin s \<noteq> None"
    "pay_self T env tk a n w = (Inr w' :: 'e fail + _)" "lp_usdc s' = lp_usdc s" "lp_admin s' = lp_admin s"
    "lp_total_liquidity s' = Some (get_or 0 (lp_total_liquidity s) - n)"
  shows "lp_funds_ok T self y s' w'"
  using assms pay_self_bound [OF assms(5), of tk] by (auto simp: lp_funds_ok_def)

lemma funds_frame:
  assumes "lp_funds_ok T self y s w" "lp_usdc s' = lp_usdc s" "lp_admin s' = lp_admin s"
    "lp_total_liquidity s' = lp_total_liquidity s" "w' = w" "y' = y"
  shows "lp_funds_ok T self y' s' w'"
  using assms by (auto simp: lp_funds_ok_def)

lemma exec_funds:
  assumes "lp_exec T C R env c (s, w) = Inr (s', w')" "lp_funds_ok T self y s w"
    "external env" "self_addr env = self"
  shows "lp_funds_ok T self (y + recorded_yield c) s' w'"
proof (cases c)
  case (LInit a u d r)
  with assms(1,2) show ?thesis by (auto simp: lp_admin_ops lp_funds_ok_def res_simps)
next
  case (LDeposit a n)
  with assms(1) obtain m where "lp_deposit T env a n (s, w) = Inr (m, s', w')" by (auto simp: res_simps)
  then show ?thesis by (rule lp_deposit_Inr) (use LDeposit in \<open>simp add: funds_pull [OF assms(2-4)]\<close>)
next
  case (LWithdraw a n)
  with assms(1) obtain m where "lp_withdraw T env a n (s, w) = Inr (m, s', w')" by (auto simp: res_simps)
  then show ?thesis by (rule lp_withdraw_Inr) (use LWithdraw in \<open>simp add: funds_pay [OF assms(2,4)]\<close>)
next
  case (LBorrow b n k)
  with assms(1) have "lp_borrow T C env b n k (s, w) = Inr (s', w')" by simp
  then show ?thesis by (rule lp_borrow_Inr) (use LBorrow in \<open>simp add: funds_pay [OF assms(2,4)]\<close>)
next
  case (LRepay b n)
  with assms(1) have "lp_repay T env b n (s, w) = Inr (s', w')" by simp
  then show ?thesis by (rule lp_repay_Inr) (use LRepay in \<open>simp add: funds_pull [OF assms(2-4)]\<close>)
next
  case (LExecute l b)
  with assms(1) have "lp_execute_liquidation T env l b (s, w) = Inr (s', w')" by simp
  then show ?thesis
  proof (rule lp_execute_Inr)
    fix tk au d n
    assume *: "lp_usdc s = Some tk" "auth_by env l"
      "tk_transfer T (as_invoker env) tk l (self_addr env) n w = Inr w'"
      "s' = s\<lparr>lp_total_liquidity := Some (get_or 0 (lp_total_liquidity s) + n),
            lp_loan := (lp_loan s)(b \<mapsto> (au_loan au)\<lparr>ln_repaid := True\<rparr>),
            lp_auction := (lp_auction s)(b := None)\<rparr>"
    from assms(2) *(1) have "lp_admin s \<noteq> None" by (auto simp: lp_funds_ok_def split: if_splits)
    with * LExecute show ?thesis by (simp add: funds_pull [OF assms(2-4) *(2,1) _ *(3)])
  qed
next
  case (LAccrue a n)
  with assms(1,2) show ?thesis by (auto simp: lp_admin_ops lp_funds_ok_def res_simps)
qed (rule funds_frame [OF assms(2)]; use assms(1) in \<open>auto simp: lp_admin_ops res_simps\<close>)+

lemma reach_lending:
  "lp_reach T self y s w \<Longrightarrow> lp_rates_ok s \<and> lp_shares_ok s \<and> lp_funds_ok T self y s w"
proof (induction rule: lp_reach.induct)
  case (lp_start w)
  then show ?case
    by (simp add: lp_rates_ok_def lp_shares_ok_def lp_funds_ok_def lpool_empty_def params_empty_ok
        in_i128_def i128_min_def i128_max_def)
next
  case (lp_call y s w env C R c s' w')
  then show ?case
    using exec_rates [OF lp_call(4)] exec_shares [OF lp_call(4)] exec_funds [OF lp_call(4) _ lp_call(2,3)]
    by simp
next
  case (lp_other y s w w')
  then have le: "tk_balance T tk self w \<le> tk_balance T tk self w'" for tk by simp
  have "lp_funds_ok T self y s w'"
  proof (cases "lp_admin s = None")
    case True
    with lp_other(3) have "\<forall>tk. 0 \<le> tk_balance T tk self w" by (simp add: lp_funds_ok_def)
    with le have "\<forall>tk. 0 \<le> tk_balance T tk self w'" using order_trans by blast
    with True lp_other(3) show ?thesis by (simp add: lp_funds_ok_def)
  next
    case False
    with lp_other(3) obtain tk where "lp_usdc s = Some tk"
        "get_or 0 (lp_total_liquidity s) \<le> tk_balance T tk self w + y" by (auto simp: lp_funds_ok_def)
    with False le [of tk] show ?thesis by (simp add: lp_funds_ok_def)
  qed
  with lp_other(3) show ?case by simp
qed

end

end
