(* ===== verification/LendingProps.thy ===== *)
theory LendingProps
  imports LendingRules
begin

text \<open>The properties of the lending pool, with concrete runs on the MNT token.\<close>

section \<open>A concrete pool\<close>

definition lp_env :: "nat \<Rightarrow> nat \<Rightarrow> addr list \<Rightarrow> env" where
  "lp_env t q signers = (demo_env t signers)\<lparr>ledger_seq := q\<rparr>"

lemma lp_env_simps [simp]:
  "ledger_ts (lp_env t q g) = t" "ledger_seq (lp_env t q g) = q" "self_addr (lp_env t q g) = 0"
  "auth_by (lp_env t q g) a \<longleftrightarrow> a \<in> set g"
  by (simp_all add: lp_env_def)

lemma lp_env_external: "0 \<notin> set g \<Longrightarrow> external (lp_env t q g)"
  by (simp add: external_def)

fun lp_play ::
    "'t token_ops \<Rightarrow> (addr \<Rightarrow> addr \<Rightarrow> unit fail + nat) \<Rightarrow> (addr \<Rightarrow> rbac) \<Rightarrow> (env \<times> lp_call) list \<Rightarrow>
     lpool \<times> 't \<Rightarrow> (lpool \<times> 't) lp_res" where
  "lp_play T C R [] x = Inr x"
| "lp_play T C R ((env, c) # cs) x = rbind (lp_exec T C R env c x) (lp_play T C R cs)"

lemma lp_play_reach:
  "lp_play T C R cs (s, w) = Inr (s', w') \<Longrightarrow> lp_reach T self y s w \<Longrightarrow>
   \<forall>(env, c) \<in> set cs. external env \<and> self_addr env = self \<Longrightarrow>
   lp_reach T self (y + sum_list (map (\<lambda>(env, c). recorded_yield c) cs)) s' w'"
proof (induction cs arbitrary: s w y)
  case (Cons x cs)
  obtain env c where x: "x = (env, c)" by (cases x)
  with Cons.prems(1) obtain s1 w1 where 1: "lp_exec T C R env c (s, w) = Inr (s1, w1)"
      "lp_play T C R cs (s1, w1) = Inr (s', w')"
    by (auto simp: res_simps)
  have "lp_reach T self (y + recorded_yield c) s1 w1"
    by (rule lp_call [OF Cons.prems(2) _ _ 1(1)]) (use Cons.prems(3) x in auto)
  from Cons.IH [OF 1(2) this] Cons.prems(3) show ?case by (simp add: x add.assoc)
qed simp

text \<open>Lender 2 holds 100000 units of the token 50, borrower 3 holds 100; every score is 700.\<close>

definition lp_tokens :: mnt_world where
  "lp_tokens = (\<lambda>_. mnt_empty)(50 := mnt_empty\<lparr>m_bal := [2 \<mapsto> 100000, 3 \<mapsto> 100]\<rparr>)"

definition good_score :: "addr \<Rightarrow> addr \<Rightarrow> unit fail + nat" where
  "good_score c a = Inr 700"

definition lp_opening :: "(env \<times> lp_call) list" where
  "lp_opening = [(lp_env 0 1 [], LInit 1 50 60 70), (lp_env 5 1 [2], LDeposit 2 100000)]"

text \<open>A loan falls due, its auction starts, the borrower repays it and borrows again.\<close>

definition lp_second_loan :: "(env \<times> lp_call) list" where
  "lp_second_loan = lp_opening @
    [(lp_env 10 2 [3], LBorrow 3 1000 ''first''), (lp_env 2678400 3 [], LStart 3),
     (lp_env 2678410 4 [3], LRepay 3 1010), (lp_env 2678420 5 [3], LBorrow 3 5000 ''second'')]"

lemmas lp_eval =
  lpool_empty_def lp_initialize_def lp_deposit_def lp_withdraw_def lp_borrow_def lp_block_liquidity_def
  lp_repay_def lp_start_auction_def lp_execute_liquidation_def lp_get_auction_discount_def
  lp_compute_fee_def lp_get_current_rate_def lp_world_def Let_def or_i128_max_def checked_div_i128_def
  trunc_div_def width_defs init_protocol_params_def params_empty_def DEFAULT_BASE_RATE_BPS_def
  DEFAULT_KINK_BPS_def DEFAULT_SLOPE1_BPS_def DEFAULT_SLOPE2_BPS_def DEFAULT_MIN_CREDIT_SCORE_def
  PER_BLOCK_BORROW_CAP_BPS_def LIQUIDATION_SECONDS_def AUCTION_DURATION_SECS_def
  MAX_AUCTION_DISCOUNT_BPS_def good_score_def
  pay_self_def mnt_w_transfer_def mnt_transfer_def mnt_require_not_paused_def mnt_is_paused_def
  mnt_balance_def mnt_empty_def lp_tokens_def mnt_w_balance_def

lemma lp_opened:
  "\<exists>s w. lp_play mnt_ops good_score (\<lambda>_. rbac_empty) lp_opening (lpool_empty, lp_tokens) = Inr (s, w) \<and>
     lp_usdc s = Some 50 \<and> lp_total_liquidity s = Some 100000 \<and> lp_admin s = Some 1 \<and>
     lp_total_lp s = Some 100000 \<and> lp_lender_balance s = [2 \<mapsto> 100000] \<and> mnt_w_balance 50 0 w = 100000"
  by (simp add: lp_opening_def lp_eval)


lemma lp_tokens_start: "lp_reach mnt_ops 0 0 lpool_empty lp_tokens"
  by (rule lp_start) (auto simp: lp_tokens_def mnt_w_balance_def mnt_balance_def mnt_empty_def get_or_def
      split: option.splits)

lemma lp_opened_reach:
  obtains s w where "lp_reach mnt_ops 0 0 s w" "lp_usdc s = Some 50" "lp_total_liquidity s = Some 100000"
    "lp_admin s = Some 1" "lp_lender_balance s = [2 \<mapsto> 100000]" "mnt_w_balance 50 0 w = 100000"
proof -
  obtain s w where play: "lp_play mnt_ops good_score (\<lambda>_. rbac_empty) lp_opening (lpool_empty, lp_tokens) = Inr (s, w)"
    and s: "lp_usdc s = Some 50" "lp_total_liquidity s = Some 100000" "lp_admin s = Some 1"
      "lp_lender_balance s = [2 \<mapsto> 100000]" "mnt_w_balance 50 0 w = 100000"
    using lp_opened by (elim exE conjE)
  have "lp_reach mnt_ops 0 (0 + sum_list (map (\<lambda>(env, c). recorded_yield c) lp_opening)) s w"
    by (rule lp_play_reach [OF play lp_tokens_start]) (simp add: lp_opening_def lp_env_external)
  then have "lp_reach mnt_ops 0 0 s w" by (simp add: lp_opening_def)
  from that [OF this s] show thesis .
qed


section \<open>Properties\<close>

text \<open>
  C34. The books of the lending pool. In every reachable state, for any token that obeys the SEP-41
  laws, the recorded total of pool shares is the sum of the lenders' balances, every recorded balance
  is positive, and the recorded liquidity is at most the tokens the pool holds plus the yield the
  admin has recorded without paying it in.
\<close>

theorem lending_accounts:
  assumes "token_client T" "lp_reach T self y s w" "lp_usdc s = Some tk"
  shows "get_or 0 (lp_total_lp s) = (\<Sum>a \<in> dom (lp_lender_balance s). the (lp_lender_balance s a)) \<and>
    (\<forall>a \<in> dom (lp_lender_balance s). 0 < the (lp_lender_balance s a)) \<and>
    get_or 0 (lp_total_liquidity s) \<le> tk_balance T tk self w + y"
proof -
  note inv = token_client.reach_lending [OF assms(1,2)]
  then have "get_or 0 (lp_total_lp s) = wsum id (lp_lender_balance s)"
      "\<forall>a \<in> dom (lp_lender_balance s). 0 < the (lp_lender_balance s a)"
    by (auto simp: lp_shares_ok_def)
  moreover have "get_or 0 (lp_total_liquidity s) \<le> tk_balance T tk self w + y"
    using inv assms(3) by (auto simp: lp_funds_ok_def split: if_splits)
  ultimately show ?thesis by (simp add: wsum_def)
qed

theorem lending_accounts_witness:
  "\<exists>(s :: lpool) w. lp_usdc s = Some 50 \<and> get_or 0 (lp_total_lp s) = 100000 \<and>
     get_or 0 (lp_total_liquidity s) \<le> mnt_w_balance 50 0 w"
proof -
  obtain s w where s: "lp_reach mnt_ops 0 0 s w" "lp_usdc s = Some 50" "lp_lender_balance s = [2 \<mapsto> 100000]"
    by (rule lp_opened_reach)
  from lending_accounts [OF token_client_mnt s(1,2)] s(2,3) show ?thesis
    by (intro exI [of _ s] exI [of _ w]) auto
qed

text \<open>
  What a loan costs. In every reachable state of an initialised pool the fee of a loan is the
  amount times the rate over 10000, rounded down, where the rate is the governance parameter when
  it is positive and the base rate otherwise: the utilisation-dependent part of the rate model is
  never in effect, because the borrowed total it reads is never written.
\<close>

theorem lending_fee_rule:
  assumes "token_client T" "lp_reach T self y s w" "lp_admin s \<noteq> None"
    "0 \<le> n" "lp_compute_fee n s = Inr fee"
  shows "\<exists>rate. rate = (if 0 < get_param key_interest_rate_bps 0 (lp_params s)
      then get_param key_interest_rate_bps 0 (lp_params s) else the (lp_base_rate s)) \<and>
    0 \<le> rate \<and> fee = n * rate div 10000 \<and> lp_get_current_rate s = Inr (the (lp_base_rate s))"
proof -
  have ok: "lp_rates_ok s" using token_client.reach_lending [OF assms(1,2)] by simp
  then obtain b k where b: "lp_base_rate s = Some b" "0 \<le> b" "b \<le> 10000" "lp_kink s = Some k" "0 \<le> k"
    using assms(3) by (auto simp: lp_rates_ok_def)
  have zero: "checked_div_i128 0 x = None \<or> checked_div_i128 0 x = Some 0" for x
    by (simp add: checked_div_i128_def trunc_div_def checked_i128_def in_i128_def i128_min_def i128_max_def)
  then have div0: "get_or 0 (checked_div_i128 0 x) = 0" for x using get_or_simps by metis
  have range: "in_i128 b" "in_i128 0" using b by (auto simp: in_i128_def i128_min_def i128_max_def)
  have rate: "lp_get_current_rate s = Inr b"
    using ok b range
    by (simp add: lp_get_current_rate_def lp_rates_ok_def arith_i128_def Let_def div0 or_i128_max_def
        checked_i128_def)
  define r where "r = (if 0 < get_param key_interest_rate_bps 0 (lp_params s)
      then get_param key_interest_rate_bps 0 (lp_params s) else b)"
  then have "0 \<le> r" using b by simp
  have fee: "in_i128 (n * r)" "checked_div_i128 (n * r) 10000 = Some fee"
    using assms(5) rate
    by (auto simp: lp_compute_fee_def r_def get_param_def Let_def res_simps split: if_splits)
  then have "fee = n * r div 10000"
    using checked_div_pos [of 10000 "n * r"] assms(4) \<open>0 \<le> r\<close> by simp
  with \<open>0 \<le> r\<close> rate b(1,2) show ?thesis by (simp add: r_def)
qed

theorem lending_fee_rule_witness:
  "\<exists>s :: lpool. lp_compute_fee 1000 s = Inr 10 \<and> lp_get_current_rate s = Inr 100"
proof -
  let ?s = "lpool_empty\<lparr>lp_admin := Some 1, lp_usdc := Some 50, lp_credit := Some 60,
    lp_total_liquidity := Some 0, lp_total_lp := Some 0, lp_base_rate := Some 100, lp_kink := Some 8000,
    lp_slope1 := Some 400, lp_slope2 := Some 3000, lp_reporting := Some 1,
    lp_params := init_protocol_params 70 params_empty\<rparr>"
  have "lp_exec mnt_ops good_score (\<lambda>_. rbac_empty) (lp_env 0 1 []) (LInit 1 50 60 70) (lpool_empty, lp_tokens) =
      Inr (?s, lp_tokens)"
    by (simp add: lp_eval)
  from lp_call [OF lp_tokens_start _ _ this] have reach: "lp_reach mnt_ops 0 0 ?s lp_tokens"
    by (simp add: lp_env_external)
  have fee: "lp_compute_fee 1000 ?s = Inr 10" by (simp add: lp_eval)
  from lending_fee_rule [OF token_client_mnt reach _ _ fee] fee show ?thesis
    by (intro exI [of _ ?s]) simp
qed

text \<open>
  The same-ledger guard does not guard. After a deposit in any reachable state, a withdrawal of
  the same amount in the same ledger succeeds as soon as the token transfer does, and restores the
  lender's balance and both totals: \<open>deposit\<close> writes the guard to instance storage and \<open>withdraw\<close>
  reads it from persistent storage.
\<close>

theorem lending_guard_inert:
  assumes "token_client T" "lp_reach T self y s w" "lp_deposit T env a n (s, w) = Inr (m, s1, w1)"
    "ledger_seq env \<noteq> 0" "lp_usdc s = Some tk"
    "pay_self T env tk a n w1 = (Inr w2 :: lending_error fail + _)"
  shows "\<exists>s2. lp_withdraw T env a n (s1, w1) = Inr (n, s2, w2) \<and>
    lp_lender_balance s2 = lp_lender_balance s \<and>
    get_or 0 (lp_total_liquidity s2) = get_or 0 (lp_total_liquidity s) \<and>
    get_or 0 (lp_total_lp s2) = get_or 0 (lp_total_lp s)"
proof -
  have inv: "lp_rates_ok s" "lp_shares_ok s" using token_client.reach_lending [OF assms(1,2)] by simp_all
  have bal: "0 \<le> get_or 0 (lp_lender_balance s a)" "get_or 0 (lp_lender_balance s a) = 0 \<longleftrightarrow> lp_lender_balance s a = None"
    using inv(2) by (cases "lp_lender_balance s a"; force simp: lp_shares_ok_def)+
  have tot: "0 \<le> get_or 0 (lp_total_lp s)"
  proof -
    have "0 \<le> wsum id (lp_lender_balance s)"
      by (rule wsum_nonneg) (use inv(2) in \<open>auto simp: lp_shares_ok_def intro: less_imp_le\<close>)
    with inv(2) show ?thesis by (simp add: lp_shares_ok_def)
  qed
  from assms(3) show ?thesis
  proof (rule lp_deposit_Inr)
    fix tk'
    assume d: "lp_admin s \<noteq> None" "auth_by env a" "0 < n"
      "in_i128 (get_or 0 (lp_total_lp s) + n)" "in_i128 (get_or 0 (lp_lender_balance s a) + n)"
      "s1 = s\<lparr>lp_total_liquidity := Some (get_or 0 (lp_total_liquidity s) + n),
            lp_total_lp := Some (get_or 0 (lp_total_lp s) + n),
            lp_lender_balance := (lp_lender_balance s)(a \<mapsto> get_or 0 (lp_lender_balance s a) + n),
            lp_deposit_ledger_inst := (lp_deposit_ledger_inst s)(a \<mapsto> ledger_seq env)\<rparr>"
    have range: "in_i128 (get_or 0 (lp_total_liquidity s))" "in_i128 (get_or 0 (lp_total_lp s))"
        "in_i128 (get_or 0 (lp_lender_balance s a))"
      using rates_liquidity [OF inv(1)] d(3-5) tot bal(1) by (auto simp: in_i128_def i128_min_def)
    show ?thesis
      using assms(4-6) d range bal inv(1)
      by (auto simp: lp_withdraw_def checked_i128_def Let_def lp_rates_ok_def fun_eq_iff)
  qed
qed

theorem lending_guard_inert_witness:
  "\<exists>s s2 w2. lp_withdraw mnt_ops (lp_env 7 9 [2]) 2 40 s = Inr (40, s2, w2)"
proof -
  define w0 where "w0 = lp_tokens"
  let ?s = "lpool_empty\<lparr>lp_admin := Some 1, lp_usdc := Some 50, lp_credit := Some 60,
    lp_total_liquidity := Some 0, lp_total_lp := Some 0, lp_base_rate := Some 100, lp_kink := Some 8000,
    lp_slope1 := Some 400, lp_slope2 := Some 3000, lp_reporting := Some 1,
    lp_params := init_protocol_params 70 params_empty\<rparr>"
  have "lp_exec mnt_ops good_score (\<lambda>_. rbac_empty) (lp_env 0 1 []) (LInit 1 50 60 70) (lpool_empty, lp_tokens) =
      Inr (?s, lp_tokens)"
    by (simp add: lp_eval)
  from lp_call [OF lp_tokens_start _ _ this] have reach: "lp_reach mnt_ops 0 0 ?s lp_tokens"
    by (simp add: lp_env_external)
  obtain m s1 w1 where dep: "lp_deposit mnt_ops (lp_env 7 9 [2]) 2 40 (?s, lp_tokens) = Inr (m, s1, w1)"
      and pay: "\<exists>w2. pay_self mnt_ops (lp_env 7 9 [2]) 50 2 40 w1 = (Inr w2 :: lending_error fail + _)"
    by (simp add: lp_eval)
  then obtain w2 where "pay_self mnt_ops (lp_env 7 9 [2]) 50 2 40 w1 = (Inr w2 :: lending_error fail + _)" by blast
  from lending_guard_inert [OF token_client_mnt reach dep _ _ this] show ?thesis by auto
qed


lemma lp_second_loan_run:
  "\<exists>s w l a. lp_play mnt_ops good_score (\<lambda>_. rbac_empty) lp_second_loan (lpool_empty, lp_tokens) = Inr (s, w) \<and>
     lp_loan s 3 = Some l \<and> \<not> ln_repaid l \<and> ln_amount l = 5000 \<and>
     lp_auction s 3 = Some a \<and> au_loan a = new_loan (lp_env 10 2 []) 3 1000 10 ''first'' \<and>
     au_started_at a = 2678400 \<and> au_liquidator a = None \<and> lp_usdc s = Some 50 \<and> lp_bad_debt s = None \<and>
     lp_total_liquidity s = Some 95010 \<and> m_bal (w 50) 3 = Some 5090 \<and> m_bal (w 50) 0 = Some 95010 \<and>
     m_paused (w 50) = None"
  by (simp add: lp_second_loan_def lp_opening_def lp_eval new_loan_def)

text \<open>
  A stale auction forgives a new loan. There is a reachable state in which a borrower owes 5000 on
  an open loan, and an auction of an earlier loan of 1000 that has been repaid is still recorded;
  buying that auction for 808 replaces the record of the open loan by the old one marked repaid: the
  5000 can no longer be repaid or liquidated and no bad debt is recorded.
\<close>

theorem lending_stale_auction:
  "\<exists>s w l s' w' l'. lp_reach mnt_ops 0 0 s w \<and>
     lp_loan s 3 = Some l \<and> \<not> ln_repaid l \<and> ln_amount l = 5000 \<and>
     lp_execute_liquidation mnt_ops (lp_env 2764800 6 [3]) 3 3 (s, w) = Inr (s', w') \<and>
     mnt_w_balance 50 0 w' = mnt_w_balance 50 0 w + 808 \<and>
     lp_loan s' 3 = Some l' \<and> ln_repaid l' \<and> ln_amount l' = 1000 \<and> lp_get_bad_debt s' = 0"
proof -
  obtain s w l a where play: "lp_play mnt_ops good_score (\<lambda>_. rbac_empty) lp_second_loan (lpool_empty, lp_tokens) = Inr (s, w)"
    and s: "lp_loan s 3 = Some l" "\<not> ln_repaid l" "ln_amount l = 5000" "lp_auction s 3 = Some a"
      "au_loan a = new_loan (lp_env 10 2 []) 3 1000 10 ''first''" "au_started_at a = 2678400"
      "au_liquidator a = None" "lp_usdc s = Some 50" "lp_bad_debt s = None"
      "lp_total_liquidity s = Some 95010" "m_bal (w 50) 3 = Some 5090" "m_bal (w 50) 0 = Some 95010"
      "m_paused (w 50) = None"
    using lp_second_loan_run by (elim exE conjE)
  have "lp_reach mnt_ops 0 (0 + sum_list (map (\<lambda>(env, c). recorded_yield c) lp_second_loan)) s w"
    by (rule lp_play_reach [OF play lp_tokens_start])
       (simp add: lp_second_loan_def lp_opening_def lp_env_external)
  then have reach: "lp_reach mnt_ops 0 0 s w" by (simp add: lp_second_loan_def lp_opening_def)
  have "\<exists>s' w'. lp_execute_liquidation mnt_ops (lp_env 2764800 6 [3]) 3 3 (s, w) = Inr (s', w') \<and>
      mnt_w_balance 50 0 w' = mnt_w_balance 50 0 w + 808 \<and>
      lp_loan s' 3 = Some ((new_loan (lp_env 10 2 []) 3 1000 10 ''first'')\<lparr>ln_repaid := True\<rparr>) \<and>
      lp_get_bad_debt s' = 0"
    using s by (simp add: lp_eval new_loan_def lp_get_bad_debt_def)
  with reach s(1-3) show ?thesis by (force simp: new_loan_def)
qed

end
