(* ===== verification/Vesting.thy ===== *)
theory Vesting
  imports Sep41
begin

text \<open>
  Vesting of tokens, \<open>contracts/vesting/src/lib.rs\<close>: schedules created by the admin or claimed with
  a Merkle proof, linear release after a cliff, revocation. No function returns a value of the
  contract's error enumeration; every failure is a panic.

  The order on hashes that pairs the nodes of a proof is the lexicographic order of 32 bytes, which
  is the order of the numbers they denote.
\<close>

section \<open>State\<close>

datatype vest_error =
    VAlreadyInitialized | VNotInitialized | VUnauthorized | VInvalidSchedule | VNothingToClaim
  | VScheduleNotFound | VInsufficientBalance | VAlreadyClaimed | VInvalidProof

definition MIN_CLIFF_SECS :: nat where "MIN_CLIFF_SECS = 60 * 60"
definition MIN_VESTING_SECS :: nat where "MIN_VESTING_SECS = 24 * 60 * 60"
definition MAX_VESTING_SECS :: nat where "MAX_VESTING_SECS = 10 * 365 * 24 * 60 * 60"
definition VEST_TOLERANCE_SECS :: nat where "VEST_TOLERANCE_SECS = 60"
definition MAX_PAST_START_SECS :: nat where "MAX_PAST_START_SECS = 5 * 60"

record vest_schedule =
  vs_beneficiary :: addr
  vs_total :: int
  vs_claimed :: int
  vs_cliff_end :: nat
  vs_vesting_end :: nat
  vs_start :: nat

record vesting =
  v_admin :: "addr option"
  v_token :: "addr option"
  v_next :: "nat option"
  v_schedule :: "nat \<rightharpoonup> vest_schedule"
  v_list :: "addr \<rightharpoonup> nat list"
  v_root :: "hash32 option"
  v_leaf :: "hash32 \<rightharpoonup> bool"

definition vesting_empty :: vesting where
  "vesting_empty = \<lparr>v_admin = None, v_token = None, v_next = None, v_schedule = Map.empty,
     v_list = Map.empty, v_root = None, v_leaf = Map.empty\<rparr>"

type_synonym 'a vest_res = "vest_error fail + 'a"


section \<open>Operations\<close>

definition v_initialize :: "addr \<Rightarrow> addr \<Rightarrow> vesting \<Rightarrow> vesting vest_res" where
  "v_initialize admin token s =
    ensure (v_admin s = None) (Panic ''Already initialized'')
      (Inr (s\<lparr>v_admin := Some admin, v_token := Some token, v_next := Some 0\<rparr>))"

text \<open>A schedule under the given number, appended to the list of its beneficiary.\<close>

definition v_store :: "nat \<Rightarrow> vest_schedule \<Rightarrow> vesting \<Rightarrow> vesting" where
  "v_store i sch s = s\<lparr>v_schedule := (v_schedule s)(i \<mapsto> sch),
     v_list := (v_list s)(vs_beneficiary sch \<mapsto> get_or [] (v_list s (vs_beneficiary sch)) @ [i])\<rparr>"

definition v_create_schedule ::
    "env \<Rightarrow> addr \<Rightarrow> int \<Rightarrow> nat \<Rightarrow> nat \<Rightarrow> nat \<Rightarrow> vesting \<Rightarrow> (nat \<times> vesting) vest_res" where
  "v_create_schedule env beneficiary total_amount cliff_seconds vesting_seconds start s =
    expect (v_admin s) (Panic ''Not initialized'') (\<lambda>admin.
    ensure (auth_by env admin) AuthDenied (
    ensure (\<not> total_amount \<le> 0) (Panic ''Total amount must be positive'') (
    ensure (\<not> vesting_seconds < MIN_VESTING_SECS) (Panic ''Vesting duration too short'') (
    ensure (\<not> MAX_VESTING_SECS < vesting_seconds) (Panic ''Vesting duration too long'') (
    ensure (\<not> (cliff_seconds \<noteq> 0 \<and> cliff_seconds < MIN_CLIFF_SECS))
      (Panic ''Cliff duration too short; use 0 for no cliff'') (
    ensure (\<not> vesting_seconds < cliff_seconds)
      (Panic ''Cliff cannot be longer than total vesting period'') (
    let current_time = ledger_ts env in
    rbind (if start = 0 then Inr current_time
           else ensure (\<not> start < current_time - MAX_PAST_START_SECS)
                  (Panic ''start timestamp too far in the past'') (
                ensure (\<not> sat_u64 (current_time + MAX_PAST_START_SECS) < start)
                  (Panic ''start timestamp too far in the future'') (Inr start))) (\<lambda>schedule_start.
    rbind (arith_u64 (schedule_start + cliff_seconds)) (\<lambda>cliff_end.
    rbind (arith_u64 (cliff_end + vesting_seconds)) (\<lambda>vesting_end.
    let schedule = \<lparr>vs_beneficiary = beneficiary, vs_total = total_amount, vs_claimed = 0,
          vs_cliff_end = cliff_end, vs_vesting_end = vesting_end, vs_start = schedule_start\<rparr> in
    rbind (arith_u32 (get_or 0 (v_next s) + 1)) (\<lambda>schedule_id.
    Inr (schedule_id, v_store schedule_id schedule (s\<lparr>v_next := Some schedule_id\<rparr>)))))))))))))"

definition v_claimable :: "nat \<Rightarrow> vest_schedule \<Rightarrow> int vest_res" where
  "v_claimable current_time schedule =
    (if current_time < sat_u64 (vs_cliff_end schedule + VEST_TOLERANCE_SECS) then Inr 0
     else if vs_vesting_end schedule \<le> current_time
     then arith_i128 (vs_total schedule - vs_claimed schedule)
     else
       let effective_start = sat_u64 (vs_cliff_end schedule + VEST_TOLERANCE_SECS);
           vested_period = current_time - effective_start in
       rbind (sub_u64 (vs_vesting_end schedule) (vs_cliff_end schedule)) (\<lambda>total_period.
       rbind (arith_i128 (vs_total schedule * int vested_period)) (\<lambda>x.
       expect (checked_div_i128 x (int total_period)) Overflow (\<lambda>vested_amount.
       arith_i128 (vested_amount - vs_claimed schedule)))))"

definition v_claimable_amount :: "env \<Rightarrow> nat \<Rightarrow> vesting \<Rightarrow> int vest_res" where
  "v_claimable_amount env schedule_id s =
    expect (v_schedule s schedule_id) (Panic ''Schedule not found'') (v_claimable (ledger_ts env))"

definition v_claim :: "'t token_ops \<Rightarrow> env \<Rightarrow> nat \<Rightarrow> vesting \<times> 't \<Rightarrow> (vesting \<times> 't) vest_res" where
  "v_claim T env schedule_id sw =
    (let (s, w) = sw in
    expect (v_schedule s schedule_id) (Panic ''Schedule not found'') (\<lambda>schedule.
    ensure (auth_by env (vs_beneficiary schedule)) AuthDenied (
    rbind (v_claimable (ledger_ts env) schedule) (\<lambda>claimable.
    ensure (\<not> claimable \<le> 0) (Panic ''Nothing to claim'') (
    expect (v_token s) (Panic ''Not initialized'') (\<lambda>token.
    ensure (\<not> tk_balance T token (self_addr env) w < claimable)
      (Panic ''Insufficient balance in vesting contract'') (
    rbind (arith_i128 (vs_claimed schedule + claimable)) (\<lambda>claimed.
    let schedule = schedule\<lparr>vs_claimed := claimed\<rparr>;
        s = s\<lparr>v_schedule := (v_schedule s)(schedule_id \<mapsto> schedule)\<rparr> in
    rbind (pay_self T env token (vs_beneficiary schedule) claimable w) (\<lambda>w1.
    Inr (s, w1))))))))))"

definition v_revoke :: "'t token_ops \<Rightarrow> env \<Rightarrow> nat \<Rightarrow> vesting \<times> 't \<Rightarrow> (vesting \<times> 't) vest_res" where
  "v_revoke T env schedule_id sw =
    (let (s, w) = sw in
    expect (v_admin s) (Panic ''Not initialized'') (\<lambda>admin.
    ensure (auth_by env admin) AuthDenied (
    expect (v_schedule s schedule_id) (Panic ''Schedule not found'') (\<lambda>schedule.
    let current_time = ledger_ts env in
    rbind (if current_time < sat_u64 (vs_cliff_end schedule + VEST_TOLERANCE_SECS) then Inr 0
           else if vs_vesting_end schedule \<le> current_time then Inr (vs_total schedule)
           else
             let effective_start = sat_u64 (vs_cliff_end schedule + VEST_TOLERANCE_SECS);
                 vested_period = current_time - effective_start in
             expect (if vs_cliff_end schedule \<le> vs_vesting_end schedule
                     then Some (vs_vesting_end schedule - vs_cliff_end schedule) else None)
               (Panic ''Underflow'') (\<lambda>total_period.
             expect (checked_i128 (vs_total schedule * int vested_period)) (Panic ''Overflow'') (\<lambda>x.
             expect (checked_div_i128 x (int total_period)) (Panic ''Division error'') Inr))) (\<lambda>vested_amount.
    expect (checked_i128 (vs_total schedule - vested_amount)) (Panic ''Underflow'') (\<lambda>unvested_amount.
    expect (checked_i128 (vested_amount - vs_claimed schedule)) (Panic ''Underflow'') (\<lambda>refund_amount.
    expect (v_token s) (Panic ''Not initialized'') (\<lambda>token.
    rbind (if 0 < unvested_amount then pay_self T env token admin unvested_amount w else Inr w) (\<lambda>w1.
    let b = vs_beneficiary schedule in
    Inr (s\<lparr>v_schedule := (v_schedule s)(schedule_id := None),
           v_list := (v_list s)(b \<mapsto> filter (\<lambda>i. i \<noteq> schedule_id) (get_or [] (v_list s b)))\<rparr>, w1))))))))))"

definition v_get_schedules_by_beneficiary :: "addr \<Rightarrow> vesting \<Rightarrow> nat list" where
  "v_get_schedules_by_beneficiary a s = get_or [] (v_list s a)"

definition v_get_schedule :: "nat \<Rightarrow> vesting \<Rightarrow> vest_schedule vest_res" where
  "v_get_schedule schedule_id s = expect (v_schedule s schedule_id) (Panic ''Schedule not found'') Inr"

definition v_set_merkle_root :: "env \<Rightarrow> hash32 \<Rightarrow> vesting \<Rightarrow> vesting vest_res" where
  "v_set_merkle_root env merkle_root s =
    expect (v_admin s) (Panic ''Not initialized'') (\<lambda>admin.
    ensure (auth_by env admin) AuthDenied (Inr (s\<lparr>v_root := Some merkle_root\<rparr>)))"

definition v_leaf_hash :: "env \<Rightarrow> addr \<Rightarrow> int \<Rightarrow> nat \<Rightarrow> nat \<Rightarrow> nat \<Rightarrow> hash32" where
  "v_leaf_hash env beneficiary total_amount cliff_seconds vesting_seconds start =
    sha env [XAddr beneficiary, XI128 total_amount, XU64 cliff_seconds, XU64 vesting_seconds, XU64 start]"

definition v_merkle_path :: "env \<Rightarrow> hash32 \<Rightarrow> hash32 list \<Rightarrow> hash32" where
  "v_merkle_path env leaf proof_nodes =
    foldl (\<lambda>current node. if current < node then sha env [XHash current, XHash node]
                          else sha env [XHash node, XHash current]) leaf proof_nodes"

definition v_claim_merkle ::
    "env \<Rightarrow> addr \<Rightarrow> int \<Rightarrow> nat \<Rightarrow> nat \<Rightarrow> nat \<Rightarrow> hash32 list \<Rightarrow> vesting \<Rightarrow> (nat \<times> vesting) vest_res" where
  "v_claim_merkle env beneficiary total_amount cliff_seconds vesting_seconds start proof_nodes s =
    ensure (auth_by env beneficiary) AuthDenied (
    expect (v_root s) (Panic ''Merkle root not set'') (\<lambda>merkle_root.
    let leaf = v_leaf_hash env beneficiary total_amount cliff_seconds vesting_seconds start in
    ensure (v_leaf s leaf = None) (Panic ''Merkle leaf already claimed'') (
    ensure (v_merkle_path env leaf proof_nodes = merkle_root) (Panic ''Invalid Merkle proof'') (
    let schedule_id = get_or 0 (v_next s) in
    expect (checked_u32 (schedule_id + 1)) (Panic ''Overflow'') (\<lambda>next_id.
    let actual_start = (if start = 0 then ledger_ts env else start);
        schedule = \<lparr>vs_beneficiary = beneficiary, vs_total = total_amount, vs_claimed = 0,
          vs_cliff_end = sat_u64 (actual_start + cliff_seconds),
          vs_vesting_end = sat_u64 (actual_start + vesting_seconds), vs_start = actual_start\<rparr> in
    Inr (schedule_id, v_store schedule_id schedule
      (s\<lparr>v_leaf := (v_leaf s)(leaf \<mapsto> True), v_next := Some next_id\<rparr>)))))))"


section \<open>Calls and reachable states\<close>

datatype v_call =
    VInit addr addr | VCreate addr int nat nat nat | VClaim nat | VRevoke nat | VRoot hash32
  | VMerkle addr int nat nat nat "hash32 list"

definition v_world :: "'t \<Rightarrow> vesting vest_res \<Rightarrow> (vesting \<times> 't) vest_res" where
  "v_world w r = rbind r (\<lambda>s. Inr (s, w))"

fun v_exec :: "'t token_ops \<Rightarrow> env \<Rightarrow> v_call \<Rightarrow> vesting \<times> 't \<Rightarrow> (vesting \<times> 't) vest_res" where
  "v_exec T env (VInit a tk) (s, w) = v_world w (v_initialize a tk s)"
| "v_exec T env (VCreate b n c d t) (s, w) =
     v_world w (rbind (v_create_schedule env b n c d t s) (\<lambda>(_, s). Inr s))"
| "v_exec T env (VClaim i) (s, w) = v_claim T env i (s, w)"
| "v_exec T env (VRevoke i) (s, w) = v_revoke T env i (s, w)"
| "v_exec T env (VRoot r) (s, w) = v_world w (v_set_merkle_root env r s)"
| "v_exec T env (VMerkle b n c d t p) (s, w) =
     v_world w (rbind (v_claim_merkle env b n c d t p s) (\<lambda>(_, s). Inr s))"

text \<open>
  The states reachable up to a time: calls at times that do not decrease and that are 64-bit values,
  and steps of other contracts that change the tokens only.
\<close>

inductive v_reach :: "'t token_ops \<Rightarrow> nat \<Rightarrow> vesting \<Rightarrow> 't \<Rightarrow> bool" for T where
  v_begin: "v_reach T 0 vesting_empty w"
| v_step: "v_reach T t s w \<Longrightarrow> t \<le> ledger_ts env \<Longrightarrow> ledger_ts env \<le> u64_max \<Longrightarrow>
     v_exec T env c (s, w) = Inr (s', w') \<Longrightarrow> v_reach T (ledger_ts env) s' w'"
| v_else: "v_reach T t s w \<Longrightarrow> v_reach T t s w'"

end
