(* ===== verification/VestingProps.thy ===== *)
theory VestingProps
  imports Vesting
begin

text \<open>
  What the vesting contract pays: the vested part of a schedule as a function of time, the invariant
  that a schedule never pays more than that, and the properties of claims, revocations and Merkle
  claims with concrete runs on the MNT token.
\<close>

section \<open>The vested amount\<close>

definition v_from :: "vest_schedule \<Rightarrow> nat" where
  "v_from sch = sat_u64 (vs_cliff_end sch + VEST_TOLERANCE_SECS)"

definition v_vested :: "nat \<Rightarrow> vest_schedule \<Rightarrow> int" where
  "v_vested now sch =
    (if now < v_from sch then 0 else if vs_vesting_end sch \<le> now then vs_total sch
     else trunc_div (vs_total sch * int (now - v_from sch))
            (int (vs_vesting_end sch - vs_cliff_end sch)))"

lemma v_from_le: "now < vs_vesting_end sch \<Longrightarrow> v_from sch \<le> now \<Longrightarrow> vs_vesting_end sch \<le> u64_max \<Longrightarrow>
   vs_cliff_end sch < vs_vesting_end sch \<and> now - v_from sch \<le> vs_vesting_end sch - vs_cliff_end sch"
  by (auto simp: v_from_def sat_u64_def min_def VEST_TOLERANCE_SECS_def split: if_splits)

lemma v_vested_update [simp]: "v_vested now (sch\<lparr>vs_claimed := x\<rparr>) = v_vested now sch"
  by (simp add: v_vested_def v_from_def)

lemma v_vested_linear:
  assumes "v_from sch \<le> now" "now < vs_vesting_end sch" "vs_vesting_end sch \<le> u64_max" "0 \<le> vs_total sch"
  shows "v_vested now sch = vs_total sch * int (now - v_from sch) div int (vs_vesting_end sch - vs_cliff_end sch)"
  using assms v_from_le [OF assms(2,1,3)] by (simp add: v_vested_def trunc_div_nonneg)

lemma v_vested_range:
  assumes "vs_vesting_end sch \<le> u64_max" "0 \<le> vs_total sch"
  shows "0 \<le> v_vested now sch \<and> v_vested now sch \<le> vs_total sch"
proof (cases "v_from sch \<le> now \<and> now < vs_vesting_end sch")
  case True
  let ?d = "int (vs_vesting_end sch - vs_cliff_end sch)"
  note le = v_from_le [of now sch] True assms
  then have d: "0 < ?d" "int (now - v_from sch) \<le> ?d" by auto
  have "vs_total sch * int (now - v_from sch) div ?d \<le> vs_total sch * ?d div ?d"
    by (rule zdiv_mono1) (use d assms in \<open>auto intro: mult_left_mono\<close>)
  moreover have "0 \<le> vs_total sch * int (now - v_from sch) div ?d"
    using d assms by (simp add: pos_imp_zdiv_nonneg_iff)
  ultimately show ?thesis using True assms d by (simp add: v_vested_linear)
next
  case False
  with assms show ?thesis by (auto simp: v_vested_def)
qed

lemma v_vested_none: "vs_total sch \<le> 0 \<Longrightarrow> v_vested now sch \<le> 0"
  by (auto simp: v_vested_def trunc_div_def sgn_if mult_le_0_iff pos_imp_zdiv_nonneg_iff zero_less_mult_iff)

lemma v_vested_mono:
  assumes "vs_vesting_end sch \<le> u64_max" "0 \<le> vs_total sch" "t \<le> now"
  shows "v_vested t sch \<le> v_vested now sch"
proof (cases "v_from sch \<le> t \<and> now < vs_vesting_end sch")
  case True
  have d: "0 < int (vs_vesting_end sch - vs_cliff_end sch)" using v_from_le [of now sch] True assms by simp
  have "vs_total sch * int (t - v_from sch) \<le> vs_total sch * int (now - v_from sch)"
    using assms by (intro mult_left_mono) auto
  then show ?thesis using True assms d by (simp add: v_vested_linear zdiv_mono1)
next
  case False
  then have "v_vested t sch = 0 \<or> v_vested now sch = vs_total sch"
    using assms(3) by (auto simp: v_vested_def)
  then show ?thesis using v_vested_range [OF assms(1,2)] by auto
qed


section \<open>Invariant\<close>

definition v_sched_ok :: "nat \<Rightarrow> vest_schedule \<Rightarrow> bool" where
  "v_sched_ok t sch \<longleftrightarrow> vs_vesting_end sch \<le> u64_max \<and> 0 \<le> vs_claimed sch \<and>
     (if 0 < vs_total sch then vs_claimed sch \<le> v_vested t sch else vs_claimed sch = 0)"

definition v_ok :: "nat \<Rightarrow> vesting \<Rightarrow> bool" where
  "v_ok t s \<longleftrightarrow> (\<forall>i sch. v_schedule s i = Some sch \<longrightarrow> v_sched_ok t sch)"

lemma v_okD: "v_ok t s \<Longrightarrow> v_schedule s i = Some sch \<Longrightarrow> v_sched_ok t sch"
  by (simp add: v_ok_def)

lemma v_ok_next [simp]: "v_ok t (s\<lparr>v_next := x\<rparr>) = v_ok t s"
  by (simp add: v_ok_def)

lemma v_sched_ok_mono: "v_sched_ok t sch \<Longrightarrow> t \<le> now \<Longrightarrow> v_sched_ok now sch"
  using v_vested_mono [of sch t now] by (auto simp: v_sched_ok_def intro: order_trans)

lemma v_ok_mono: "v_ok t s \<Longrightarrow> t \<le> now \<Longrightarrow> v_ok now s"
  by (auto simp: v_ok_def intro: v_sched_ok_mono)

lemma v_ok_upd: "v_ok t s \<Longrightarrow> v_schedule s' = (v_schedule s)(i := x) \<Longrightarrow>
   (\<And>sch. x = Some sch \<Longrightarrow> v_sched_ok t sch) \<Longrightarrow> v_ok t s'"
  by (auto simp: v_ok_def)

lemma v_fresh_ok: "vs_claimed sch = 0 \<Longrightarrow> vs_vesting_end sch \<le> u64_max \<Longrightarrow> v_sched_ok t sch"
  using v_vested_range [of sch t] by (simp add: v_sched_ok_def)

lemma v_claimable_Inr:
  assumes "v_claimable now sch = Inr x" "0 < x"
  shows "x = v_vested now sch - vs_claimed sch"
  using assms
  by (auto simp: v_claimable_def v_vested_def v_from_def Let_def res_simps checked_div_i128_def split: if_splits)

lemma v_claim_Inr:
  assumes "v_claim T env i (s, w) = Inr (s', w')"
  obtains sch tk where "v_schedule s i = Some sch" "v_token s = Some tk" "auth_by env (vs_beneficiary sch)"
    "vs_claimed sch < v_vested (ledger_ts env) sch"
    "v_vested (ledger_ts env) sch - vs_claimed sch \<le> tk_balance T tk (self_addr env) w"
    "pay_self T env tk (vs_beneficiary sch) (v_vested (ledger_ts env) sch - vs_claimed sch) w =
       (Inr w' :: vest_error fail + _)"
    "s' = s\<lparr>v_schedule := (v_schedule s)(i \<mapsto> sch\<lparr>vs_claimed := v_vested (ledger_ts env) sch\<rparr>)\<rparr>"
proof -
  obtain sch x tk where c: "v_schedule s i = Some sch" "v_token s = Some tk" "auth_by env (vs_beneficiary sch)"
      "v_claimable (ledger_ts env) sch = Inr x" "\<not> x \<le> 0" "\<not> tk_balance T tk (self_addr env) w < x"
      "pay_self T env tk (vs_beneficiary sch) x w = (Inr w' :: vest_error fail + _)"
      "s' = s\<lparr>v_schedule := (v_schedule s)(i \<mapsto> sch\<lparr>vs_claimed := vs_claimed sch + x\<rparr>)\<rparr>"
    using assms by (auto simp: v_claim_def Let_def res_simps(1-4) arith_i128_Inr)
  have "x = v_vested (ledger_ts env) sch - vs_claimed sch" using v_claimable_Inr [OF c(4)] c(5) by simp
  with c show thesis by (intro that [of sch tk]) auto
qed

lemma v_create_Inr:
  assumes "v_create_schedule env b n c d t s = Inr (i, s')"
  shows "\<exists>sch. s' = v_store i sch (s\<lparr>v_next := Some i\<rparr>) \<and> i = get_or 0 (v_next s) + 1 \<and>
    vs_beneficiary sch = b \<and> vs_total sch = n \<and> 0 < n \<and> vs_claimed sch = 0 \<and> vs_vesting_end sch \<le> u64_max \<and>
    vs_vesting_end sch = vs_cliff_end sch + d \<and> vs_cliff_end sch = vs_start sch + c"
  using assms unfolding v_create_schedule_def Let_def res_simps arith_u64_Inr arith_u32_Inr
  by (auto simp: res_simps)

lemma v_merkle_Inr:
  assumes "v_claim_merkle env b n c d t p s = Inr (i, s')"
  shows "\<exists>sch s1. s' = v_store i sch s1 \<and> v_schedule s1 = v_schedule s \<and> i = get_or 0 (v_next s) \<and>
    vs_beneficiary sch = b \<and> vs_total sch = n \<and> vs_claimed sch = 0 \<and> vs_vesting_end sch \<le> u64_max"
proof -
  let ?sch = "\<lambda>t. \<lparr>vs_beneficiary = b, vs_total = n, vs_claimed = 0, vs_cliff_end = sat_u64 (t + c),
    vs_vesting_end = sat_u64 (t + d), vs_start = t\<rparr>"
  obtain t' l where "s' = v_store i (?sch t') (s\<lparr>v_leaf := (v_leaf s)(l \<mapsto> True), v_next := Some (i + 1)\<rparr>)"
      "i = get_or 0 (v_next s)"
    using assms unfolding v_claim_merkle_def Let_def res_simps checked_u32_Some Inr_inject prod.inject by blast
  then show ?thesis
    by (intro exI [of _ "?sch t'"] exI [of _ "s\<lparr>v_leaf := (v_leaf s)(l \<mapsto> True), v_next := Some (i + 1)\<rparr>"])
      (simp add: sat_u64_def)
qed

lemma v_revoke_Inr:
  assumes "v_revoke T env i (s, w) = Inr (s', w')"
  obtains sch tk a where "v_schedule s i = Some sch" "v_token s = Some tk" "v_admin s = Some a" "auth_by env a"
    "(if v_vested (ledger_ts env) sch < vs_total sch
      then pay_self T env tk a (vs_total sch - v_vested (ledger_ts env) sch) w else Inr w) =
       (Inr w' :: vest_error fail + _)"
    "s' = s\<lparr>v_schedule := (v_schedule s)(i := None),
       v_list := (v_list s)(vs_beneficiary sch \<mapsto>
         filter (\<lambda>j. j \<noteq> i) (get_or [] (v_list s (vs_beneficiary sch))))\<rparr>"
proof -
  obtain a sch v tk where c: "v_admin s = Some a" "auth_by env a" "v_schedule s i = Some sch" "v_token s = Some tk"
      "(if ledger_ts env < sat_u64 (vs_cliff_end sch + VEST_TOLERANCE_SECS) then Inr 0
           else if vs_vesting_end sch \<le> ledger_ts env then Inr (vs_total sch)
           else expect (if vs_cliff_end sch \<le> vs_vesting_end sch
                     then Some (vs_vesting_end sch - vs_cliff_end sch) else None)
               (Panic ''Underflow'') (\<lambda>total_period.
             expect (checked_i128 (vs_total sch * int (ledger_ts env - sat_u64 (vs_cliff_end sch + VEST_TOLERANCE_SECS))))
               (Panic ''Overflow'') (\<lambda>x.
             expect (checked_div_i128 x (int total_period)) (Panic ''Division error'') Inr))) = (Inr v :: vest_error fail + _)"
      "(if 0 < vs_total sch - v then pay_self T env tk a (vs_total sch - v) w else Inr w) = (Inr w' :: vest_error fail + _)"
      "s' = s\<lparr>v_schedule := (v_schedule s)(i := None),
         v_list := (v_list s)(vs_beneficiary sch \<mapsto>
           filter (\<lambda>j. j \<noteq> i) (get_or [] (v_list s (vs_beneficiary sch))))\<rparr>"
    using assms unfolding v_revoke_def Let_def prod.case res_simps(1-4) checked_i128_Some by blast
  have v: "v = v_vested (ledger_ts env) sch"
    using c(5) by (auto simp: v_vested_def v_from_def res_simps checked_div_i128_def split: if_splits)
  show thesis by (rule that [OF c(3,4,1,2) _ c(7)]) (use c(6) in \<open>simp only: v diff_gt_0_iff_gt\<close>)
qed

lemma v_store_ok: "v_ok t s \<Longrightarrow> v_sched_ok t sch \<Longrightarrow> v_schedule s1 = v_schedule s \<Longrightarrow>
   s' = v_store i sch s1 \<Longrightarrow> v_ok t s'"
  by (rule v_ok_upd [where i = i and x = "Some sch"]) (auto simp: v_store_def)

lemma v_exec_ok:
  assumes "v_exec T env c (s, w) = Inr (s', w')" "v_ok (ledger_ts env) s"
  shows "v_ok (ledger_ts env) s'"
proof (cases c)
  case (VCreate b n c d t)
  with assms(1) obtain k where "v_create_schedule env b n c d t s = Inr (k, s')"
    by (auto simp: v_world_def res_simps)
  from v_create_Inr [OF this] show ?thesis
    by (elim exE conjE) (rule v_store_ok [OF assms(2) v_fresh_ok]; simp)
next
  case (VClaim i)
  with assms(1) have "v_claim T env i (s, w) = Inr (s', w')" by simp
  then show ?thesis
  proof (rule v_claim_Inr)
    fix sch tk
    assume c: "v_schedule s i = Some sch" "vs_claimed sch < v_vested (ledger_ts env) sch"
      "s' = s\<lparr>v_schedule := (v_schedule s)(i \<mapsto> sch\<lparr>vs_claimed := v_vested (ledger_ts env) sch\<rparr>)\<rparr>"
    note ok = v_okD [OF assms(2) c(1)]
    show ?thesis
      by (rule v_ok_upd [OF assms(2), where i = i])
        (use c ok v_vested_none [of sch "ledger_ts env"] in \<open>auto simp: v_sched_ok_def split: if_splits\<close>)
  qed
next
  case (VRevoke i)
  with assms(1) have "v_revoke T env i (s, w) = Inr (s', w')" by simp
  then show ?thesis
    by (rule v_revoke_Inr) (rule v_ok_upd [OF assms(2), where i = i and x = None]; simp)
next
  case (VMerkle b n c d t p)
  with assms(1) obtain k where "v_claim_merkle env b n c d t p s = Inr (k, s')"
    by (auto simp: v_world_def res_simps)
  from v_merkle_Inr [OF this] show ?thesis
    by (elim exE conjE) (rule v_store_ok [OF assms(2) v_fresh_ok]; assumption)
qed (use assms in \<open>auto simp: v_world_def res_simps v_initialize_def v_set_merkle_root_def v_ok_def\<close>)

lemma v_reach_ok: "v_reach T t s w \<Longrightarrow> v_ok t s"
proof (induction rule: v_reach.induct)
  case (v_step t s w env c s' w')
  from v_exec_ok [OF v_step.hyps(4)] v_ok_mono [OF v_step.IH v_step.hyps(2)] show ?case by simp
qed (simp_all add: v_ok_def vesting_empty_def)


section \<open>Concrete runs\<close>

fun v_play :: "'t token_ops \<Rightarrow> (env \<times> v_call) list \<Rightarrow> vesting \<times> 't \<Rightarrow> (vesting \<times> 't) vest_res" where
  "v_play T [] x = Inr x"
| "v_play T ((env, c) # cs) x = rbind (v_exec T env c x) (v_play T cs)"

lemma v_play_reach:
  "v_play T cs (s, w) = Inr (s', w') \<Longrightarrow> v_reach T t s w \<Longrightarrow> sorted (t # map (ledger_ts \<circ> fst) cs) \<Longrightarrow>
   (\<forall>x \<in> set cs. ledger_ts (fst x) \<le> u64_max) \<Longrightarrow>
   v_reach T (last (t # map (ledger_ts \<circ> fst) cs)) s' w'"
proof (induction cs arbitrary: t s w)
  case (Cons x cs)
  obtain env c where x: "x = (env, c)" by (cases x)
  with Cons.prems(1) obtain s1 w1 where 1: "v_exec T env c (s, w) = Inr (s1, w1)"
      "v_play T cs (s1, w1) = Inr (s', w')"
    by (auto simp: res_simps)
  have "v_reach T (ledger_ts env) s1 w1"
    by (rule v_step [OF Cons.prems(2) _ _ 1(1)]) (use Cons.prems(3,4) x in auto)
  from Cons.IH [OF 1(2) this] Cons.prems(3,4) show ?case by (simp add: x)
qed simp

text \<open>
  The contract holds 1000 units of token 50; the admin 1 grants 1000 units to 2 at time 1000, with a
  cliff of an hour and a vesting period of 100000 seconds after it.
\<close>

definition v_tokens :: mnt_world where "v_tokens = mnt_holding 50 0 1000"

definition v_opening :: "(env \<times> v_call) list" where
  "v_opening = [(demo_env 0 [], VInit 1 50), (demo_env 1000 [1], VCreate 2 1000 3600 100000 0)]"

definition v_demo_schedule :: "int \<Rightarrow> vest_schedule" where
  "v_demo_schedule c = \<lparr>vs_beneficiary = 2, vs_total = 1000, vs_claimed = c, vs_cliff_end = 4600,
     vs_vesting_end = 104600, vs_start = 1000\<rparr>"

definition v_demo_state :: "int \<Rightarrow> vesting" where
  "v_demo_state c = vesting_empty\<lparr>v_admin := Some 1, v_token := Some 50, v_next := Some 1,
     v_schedule := [1 \<mapsto> v_demo_schedule c], v_list := [2 \<mapsto> [1]]\<rparr>"

lemmas v_eval =
  v_initialize_def v_create_schedule_def v_store_def v_world_def v_claim_def v_claimable_def v_revoke_def
  v_claim_merkle_def v_set_merkle_root_def v_leaf_hash_def v_merkle_path_def
  vesting_empty_def MIN_CLIFF_SECS_def MIN_VESTING_SECS_def MAX_VESTING_SECS_def VEST_TOLERANCE_SECS_def
  MAX_PAST_START_SECS_def v_demo_state_def v_demo_schedule_def Let_def width_defs checked_div_i128_def trunc_div_def
  pay_self_def mnt_w_transfer_def mnt_transfer_def mnt_require_not_paused_def mnt_is_paused_def
  mnt_balance_def mnt_empty_def v_tokens_def mnt_holding_def mnt_w_balance_def

lemma v_opened: "v_play mnt_ops v_opening (vesting_empty, v_tokens) = Inr (v_demo_state 0, v_tokens)"
  by (simp add: v_opening_def v_eval)

lemma v_opened_reach: "v_reach mnt_ops 1000 (v_demo_state 0) v_tokens"
  using v_play_reach [OF v_opened v_begin] by (simp add: v_opening_def u64_max_def)


section \<open>Properties\<close>

text \<open>
  C35. A claim pays the vested part and no more. In every reachable state, a successful claim is
  signed by the beneficiary, pays exactly the difference between the vested amount at that time and what
  has been claimed, a positive amount, and records the vested amount as claimed; the vested
  amount lies between 0 and the total and never decreases, so the payments of a schedule never exceed
  its vested part.
\<close>

theorem vesting_claim_exact:
  assumes "v_reach T t s w" "t \<le> ledger_ts env" "v_claim T env i (s, w) = Inr (s', w')"
  shows "\<exists>sch tk. v_schedule s i = Some sch \<and> v_token s = Some tk \<and> auth_by env (vs_beneficiary sch) \<and>
    0 \<le> vs_claimed sch \<and> vs_claimed sch < v_vested (ledger_ts env) sch \<and>
    v_vested (ledger_ts env) sch \<le> vs_total sch \<and>
    tk_transfer T (as_invoker env) tk (self_addr env) (vs_beneficiary sch)
      (v_vested (ledger_ts env) sch - vs_claimed sch) w = Inr w' \<and>
    v_schedule s' = (v_schedule s)(i \<mapsto> sch\<lparr>vs_claimed := v_vested (ledger_ts env) sch\<rparr>) \<and>
    (\<forall>u v. u \<le> v \<longrightarrow> v_vested u sch \<le> v_vested v sch)"
  using assms(3)
proof (rule v_claim_Inr)
  fix sch tk
  assume c: "v_schedule s i = Some sch" "v_token s = Some tk" "auth_by env (vs_beneficiary sch)"
    "vs_claimed sch < v_vested (ledger_ts env) sch"
    "pay_self T env tk (vs_beneficiary sch) (v_vested (ledger_ts env) sch - vs_claimed sch) w =
       (Inr w' :: vest_error fail + _)"
    "s' = s\<lparr>v_schedule := (v_schedule s)(i \<mapsto> sch\<lparr>vs_claimed := v_vested (ledger_ts env) sch\<rparr>)\<rparr>"
  have ok: "v_sched_ok t sch" by (rule v_okD [OF v_reach_ok [OF assms(1)] c(1)])
  then have "0 < vs_total sch"
    using c(4) v_vested_none [of sch "ledger_ts env"] by (force simp: v_sched_ok_def)
  with ok c show ?thesis
    using v_vested_range [of sch "ledger_ts env"] v_vested_mono [of sch]
    by (intro exI [of _ sch] exI [of _ tk]) (auto simp: v_sched_ok_def res_simps)
qed

theorem vesting_claim_exact_witness:
  "\<exists>s' w' sch. v_claim mnt_ops (demo_env 54660 [2]) 1 (v_demo_state 0, v_tokens) = Inr (s', w') \<and>
     v_schedule s' 1 = Some sch \<and> vs_claimed sch = 500 \<and> vs_total sch = 1000"
proof -
  obtain s' w' where claim: "v_claim mnt_ops (demo_env 54660 [2]) 1 (v_demo_state 0, v_tokens) = Inr (s', w')"
    by (simp add: v_eval)
  have "v_vested 54660 (v_demo_schedule 0) = 500"
    by (simp add: v_vested_def v_from_def v_eval)
  with vesting_claim_exact [OF v_opened_reach _ claim] claim show ?thesis
    by (auto simp: v_demo_state_def v_demo_schedule_def)
qed

text \<open>
  Everything vests. In every reachable state, from the end of the vesting period (and of the cliff
  with its tolerance) on, the beneficiary's claim of a schedule that is not fully paid succeeds as soon
  as the contract holds the tokens and the token transfer goes through, and the whole total is then
  claimed; before the end of the cliff no claim succeeds.
\<close>

theorem vesting_completes:
  assumes "v_reach T t s w" "v_schedule s i = Some sch" "v_token s = Some tk"
    "vs_claimed sch < vs_total sch" "in_i128 (vs_total sch)" "auth_by env (vs_beneficiary sch)"
    "t \<le> ledger_ts env"
    "vs_total sch - vs_claimed sch \<le> tk_balance T tk (self_addr env) w"
    "pay_self T env tk (vs_beneficiary sch) (vs_total sch - vs_claimed sch) w = (Inr w' :: vest_error fail + _)"
  shows "(vs_vesting_end sch \<le> ledger_ts env \<and> v_from sch \<le> ledger_ts env \<longrightarrow>
      v_claim T env i (s, w) = Inr (s\<lparr>v_schedule := (v_schedule s)(i \<mapsto> sch\<lparr>vs_claimed := vs_total sch\<rparr>)\<rparr>, w')) \<and>
    (ledger_ts env < v_from sch \<longrightarrow> v_claim T env i (s, w) = Inl (Panic ''Nothing to claim''))"
proof -
  have "0 \<le> vs_claimed sch"
    using v_okD [OF v_reach_ok [OF assms(1)] assms(2)] by (simp add: v_sched_ok_def)
  then have "in_i128 (vs_total sch - vs_claimed sch)"
    using assms(4,5) by (auto simp: in_i128_def i128_min_def i128_max_def)
  with assms show ?thesis
    by (simp add: v_claim_def v_claimable_def v_from_def arith_i128_def Let_def)
qed

theorem vesting_completes_witness:
  "\<exists>w'. v_claim mnt_ops (demo_env 104700 [2]) 1 (v_demo_state 0, v_tokens) = Inr (v_demo_state 1000, w')"
proof -
  obtain w' where pay: "pay_self mnt_ops (demo_env 104700 [2]) 50 2 1000 v_tokens = (Inr w' :: vest_error fail + _)"
    by (simp add: v_eval)
  have tk: "v_token (v_demo_state 0) = Some 50" "v_schedule (v_demo_state 0) 1 = Some (v_demo_schedule 0)"
      "v_from (v_demo_schedule 0) = 4660"
    by (simp_all add: v_eval v_from_def)
  from vesting_completes [OF v_opened_reach tk(2,1), of "demo_env 104700 [2]" w'] pay tk(3)
  have "v_claim mnt_ops (demo_env 104700 [2]) 1 (v_demo_state 0, v_tokens) =
      Inr ((v_demo_state 0)\<lparr>v_schedule := (v_schedule (v_demo_state 0))(1 \<mapsto> (v_demo_schedule 0)\<lparr>vs_claimed := 1000\<rparr>)\<rparr>, w')"
    by (simp add: v_demo_schedule_def in_i128_def i128_min_def i128_max_def v_tokens_def mnt_holding_def
        mnt_w_balance_def mnt_balance_def)
  then show ?thesis by (simp add: v_demo_state_def v_demo_schedule_def)
qed

text \<open>
  Revoking forfeits what has vested. A successful revocation is signed by the admin, pays the unvested
  part to the admin and deletes the schedule: what had vested but was not claimed stays in the contract,
  the beneficiary is paid nothing, and every later claim of that schedule fails.
\<close>

theorem vesting_revoke_forfeits:
  assumes "v_revoke T env i (s, w) = Inr (s', w')"
  shows "(\<exists>sch tk a. v_schedule s i = Some sch \<and> v_token s = Some tk \<and> v_admin s = Some a \<and> auth_by env a \<and>
      (if v_vested (ledger_ts env) sch < vs_total sch
       then tk_transfer T (as_invoker env) tk (self_addr env) a
              (vs_total sch - v_vested (ledger_ts env) sch) w = Inr w'
       else w' = w)) \<and>
    v_claim T env' i (s', w'') = Inl (Panic ''Schedule not found'')"
  using assms
  by (rule v_revoke_Inr) (auto simp: res_simps v_claim_def split: if_splits)

theorem vesting_revoke_forfeits_witness:
  "\<exists>s' w'. v_revoke mnt_ops (demo_env 54660 [1]) 1 (v_demo_state 0, v_tokens) = Inr (s', w') \<and>
     v_vested 54660 (v_demo_schedule 0) = 500 \<and> mnt_w_balance 50 1 w' = 500 \<and> mnt_w_balance 50 2 w' = 0 \<and>
     v_claim mnt_ops (demo_env 54661 [2]) 1 (s', w') = Inl (Panic ''Schedule not found'')"
proof -
  obtain s' w' where run: "v_revoke mnt_ops (demo_env 54660 [1]) 1 (v_demo_state 0, v_tokens) = Inr (s', w')"
      and bal: "mnt_w_balance 50 1 w' = 500" "mnt_w_balance 50 2 w' = 0"
    by (simp add: v_eval)
  moreover have "v_vested 54660 (v_demo_schedule 0) = 500"
    by (simp add: v_vested_def v_from_def v_eval)
  ultimately show ?thesis using vesting_revoke_forfeits [OF run, of "demo_env 54661 [2]" w'] by blast
qed

text \<open>
  A Merkle claim overwrites a schedule. The number a successful Merkle claim takes is that of the
  schedule the admin created just before: the new schedule replaces it, whoever its beneficiary and
  whatever is owed to it.
\<close>

theorem vesting_merkle_overwrites:
  assumes "v_create_schedule env a n c d t s = Inr (k, s1)"
    "v_claim_merkle env' b m c' d' t' p s1 = Inr (k', s2)"
  shows "k' = k \<and> (\<exists>x y. v_schedule s1 k = Some x \<and> vs_beneficiary x = a \<and> vs_total x = n \<and>
    v_schedule s2 k = Some y \<and> vs_beneficiary y = b \<and> vs_total y = m)"
  using assms by (auto dest!: v_create_Inr v_merkle_Inr simp: v_store_def)

theorem vesting_merkle_overwrites_witness:
  "\<exists>s s1 s2 x y. v_create_schedule (demo_env 1000 [1]) 2 1000 3600 100000 0 s = Inr (1, s1) \<and>
     v_claim_merkle (demo_env 2000 [3]) 3 5 0 100000 0 [] s1 = Inr (1, s2) \<and>
     v_schedule s1 1 = Some x \<and> vs_beneficiary x = 2 \<and> v_schedule s2 1 = Some y \<and> vs_beneficiary y = 3"
proof -
  let ?s = "vesting_empty\<lparr>v_admin := Some 1, v_token := Some 50, v_next := Some 0, v_root := Some 0\<rparr>"
  obtain s1 s2 where run: "v_create_schedule (demo_env 1000 [1]) 2 1000 3600 100000 0 ?s = Inr (1, s1)"
      "v_claim_merkle (demo_env 2000 [3]) 3 5 0 100000 0 [] s1 = Inr (1, s2)"
    by (simp add: v_eval)
  from vesting_merkle_overwrites [OF this] run show ?thesis by blast
qed

end
