(* ===== verification/GovShared.thy ===== *)
theory GovShared
  imports Prelude
begin

text \<open>
  The decision rules of the shared library that the governance contract applies:
  \<open>market_control_protection.rs\<close> (concentration, entry barriers, pricing coordination, intervention),
  \<open>justice_protection.rs\<close> (dispute independence), \<open>governance_voting.rs\<close> (holding period, phases,
  manipulation flags) and \<open>tokenomics_protection.rs\<close> (coordinated timing). All are functions of
  their arguments; saturating 32-bit arithmetic is written out.
\<close>

section \<open>Market control\<close>

definition HHI_HIGH_CONCENTRATION_THRESHOLD :: nat where "HHI_HIGH_CONCENTRATION_THRESHOLD = 2500"
definition HHI_CRITICAL_THRESHOLD :: nat where "HHI_CRITICAL_THRESHOLD = 5000"
definition MAX_SINGLE_NETWORK_SHARE_BPS :: nat where "MAX_SINGLE_NETWORK_SHARE_BPS = 4000"
definition MIN_COMPETITIVE_NETWORK_COUNT :: nat where "MIN_COMPETITIVE_NETWORK_COUNT = 3"
definition MARKET_PRICE_COORDINATION_WINDOW_SECS :: nat where "MARKET_PRICE_COORDINATION_WINDOW_SECS = 3600"
definition MARKET_PRICE_SIMILARITY_BPS :: nat where "MARKET_PRICE_SIMILARITY_BPS = 200"
definition PRICE_COORDINATION_RISK_THRESHOLD :: nat where "PRICE_COORDINATION_RISK_THRESHOLD = 60"
definition MARKET_CONCENTRATION_RISK_THRESHOLD :: nat where "MARKET_CONCENTRATION_RISK_THRESHOLD = 65"
definition INDEPENDENT_MENTOR_MIN_RATIO_BPS :: nat where "INDEPENDENT_MENTOR_MIN_RATIO_BPS = 3000"
definition MARKET_INTERVENTION_COOLDOWN_SECS :: nat where "MARKET_INTERVENTION_COOLDOWN_SECS = 7200"
definition MARKET_PROTECTION_INTERVENTION_THRESHOLD :: nat where "MARKET_PROTECTION_INTERVENTION_THRESHOLD = 65"

record market_monitoring =
  mm_healthy :: bool
  mm_hhi :: nat
  mm_dominant :: nat
  mm_networks :: nat
  mm_risk :: nat

record competition =
  cp_fair :: bool
  cp_ratio :: nat
  cp_barriers :: bool
  cp_risk :: nat
  cp_reason :: symbol

record market_fairness =
  mf_fair :: bool
  mf_coordination :: bool
  mf_moves :: nat
  mf_risk :: nat

record network_analysis =
  na_centralization :: nat
  na_manipulation :: bool
  na_signals :: nat
  na_health :: nat

record market_protection =
  mp_intervene :: bool
  mp_risk :: nat
  mp_reason :: symbol
  mp_eligible_at :: nat

record competition_audit =
  ca_compliant :: bool
  ca_violations :: nat
  ca_fairness :: nat
  ca_control :: bool

definition healthy_market :: market_monitoring where
  "healthy_market = \<lparr>mm_healthy = True, mm_hhi = 0, mm_dominant = 0, mm_networks = 0, mm_risk = 0\<rparr>"

definition fair_market :: market_fairness where
  "fair_market = \<lparr>mf_fair = True, mf_coordination = False, mf_moves = 0, mf_risk = 0\<rparr>"

definition share_bps :: "nat \<Rightarrow> nat \<Rightarrow> nat" where
  "share_bps total_sessions c = sat_u32 (c * 10000) div max total_sessions 1"

definition detect_network_concentration :: "nat list \<Rightarrow> nat \<Rightarrow> market_monitoring" where
  "detect_network_concentration counts total_sessions =
    (let n = length counts in
     if total_sessions = 0 \<or> n = 0 then healthy_market\<lparr>mm_networks := n\<rparr>
     else
       let (hhi, dominant) = foldl (\<lambda>(hhi, dominant) c.
             let s = share_bps total_sessions c in
             (sat_u32 (hhi + sat_u32 (s * s) div 10000), if dominant < s then s else dominant)) (0, 0) counts;
           risk = (if HHI_CRITICAL_THRESHOLD \<le> hhi then 60
                   else if HHI_HIGH_CONCENTRATION_THRESHOLD \<le> hhi then 35 else 0);
           risk = (if MAX_SINGLE_NETWORK_SHARE_BPS < dominant then risk + 30 else risk);
           risk = (if n < MIN_COMPETITIVE_NETWORK_COUNT then risk + 20 else risk);
           risk = min risk 100 in
       \<lparr>mm_healthy = risk < MARKET_CONCENTRATION_RISK_THRESHOLD, mm_hhi = hhi, mm_dominant = dominant,
        mm_networks = n, mm_risk = risk\<rparr>)"

definition prevent_market_control :: "market_monitoring \<Rightarrow> bool" where
  "prevent_market_control m \<longleftrightarrow> MARKET_CONCENTRATION_RISK_THRESHOLD \<le> mm_risk m"

definition assess_competition_barriers :: "nat \<Rightarrow> nat \<Rightarrow> nat \<Rightarrow> competition" where
  "assess_competition_barriers independent total_mentors signals =
    (if total_mentors = 0 then \<lparr>cp_fair = True, cp_ratio = 10000, cp_barriers = False, cp_risk = 0,
                        cp_reason = ''no_mentors''\<rparr>
     else
       let ratio = sat_u32 (independent * 10000) div max total_mentors 1;
           barriers = (0 < signals \<or> ratio < INDEPENDENT_MENTOR_MIN_RATIO_BPS);
           risk = (if ratio < INDEPENDENT_MENTOR_MIN_RATIO_BPS
                   then min ((INDEPENDENT_MENTOR_MIN_RATIO_BPS - ratio) div 100) 50 else 0);
           risk = (if 3 \<le> signals then risk + 40 else if 1 \<le> signals then risk + 20 else risk);
           risk = min risk 100;
           (fair, reason) = (if MARKET_CONCENTRATION_RISK_THRESHOLD \<le> risk then (False, ''barriers_high_risk'')
                             else if barriers then (False, ''barriers_detected'')
                             else (True, ''fair_access'')) in
       \<lparr>cp_fair = fair, cp_ratio = ratio, cp_barriers = barriers, cp_risk = risk, cp_reason = reason\<rparr>)"

definition support_independent_mentors :: "competition \<Rightarrow> bool" where
  "support_independent_mentors p \<longleftrightarrow> \<not> cp_fair p \<or> cp_barriers p"

text \<open>Two successive price moves that are close in time and in size.\<close>

definition similar_moves :: "nat list \<Rightarrow> nat list \<Rightarrow> nat \<Rightarrow> bool" where
  "similar_moves ts cs i \<longleftrightarrow>
     ts ! i - ts ! (i - 1) \<le> MARKET_PRICE_COORDINATION_WINDOW_SECS \<and>
     (if cs ! (i - 1) < cs ! i then cs ! i - cs ! (i - 1) else cs ! (i - 1) - cs ! i)
       \<le> MARKET_PRICE_SIMILARITY_BPS"

definition detect_pricing_coordination :: "nat list \<Rightarrow> nat list \<Rightarrow> market_fairness" where
  "detect_pricing_coordination ts cs =
    (let n = min (length ts) (length cs) in
     if n < 2 then fair_market
     else
       let moves = length (filter (similar_moves ts cs) [1..<n]);
           risk = (if 5 \<le> moves then 70 else if 3 \<le> moves then 45 else if 1 \<le> moves then 20 else 0);
           coordination = (PRICE_COORDINATION_RISK_THRESHOLD \<le> risk) in
       \<lparr>mf_fair = (\<not> coordination), mf_coordination = coordination, mf_moves = moves, mf_risk = risk\<rparr>)"

definition prevent_oligopoly :: "market_monitoring \<Rightarrow> market_fairness \<Rightarrow> bool" where
  "prevent_oligopoly m f \<longleftrightarrow> MARKET_CONCENTRATION_RISK_THRESHOLD \<le> mm_risk m \<or> mf_coordination f"

definition analyze_market_networks :: "market_monitoring \<Rightarrow> competition \<Rightarrow> market_fairness \<Rightarrow> network_analysis" where
  "analyze_market_networks m p f =
    (let signals = (if MARKET_CONCENTRATION_RISK_THRESHOLD \<le> mm_risk m then 1 else 0)
           + (if cp_barriers p then 1 else 0) + (if mf_coordination f then 1 else 0)
           + (if mm_networks m < MIN_COMPETITIVE_NETWORK_COUNT then 1 else 0);
         avg_risk = sat_u32 (sat_u32 (mm_risk m + cp_risk p) + mf_risk f) div 3 in
     \<lparr>na_centralization = sat_u32 (min (mm_hhi m div 100) 100 + mm_risk m) div 2,
      na_manipulation = (2 \<le> signals), na_signals = signals, na_health = 100 - avg_risk\<rparr>)"

definition audit_market_competition ::
    "market_monitoring \<Rightarrow> competition \<Rightarrow> market_fairness \<Rightarrow> network_analysis \<Rightarrow> competition_audit" where
  "audit_market_competition m p f a =
    (let v = (if \<not> mm_healthy m then 1 else 0) + (if \<not> cp_fair p then 1 else 0)
           + (if \<not> mf_fair f then 1 else 0) + (if na_manipulation a then 1 else 0) in
     \<lparr>ca_compliant = (v = 0), ca_violations = v, ca_fairness = min (na_health a - v * 10) 100,
      ca_control = (na_manipulation a \<or> \<not> mm_healthy m)\<rparr>)"

definition compute_market_protection ::
    "env \<Rightarrow> market_monitoring \<Rightarrow> competition \<Rightarrow> market_fairness \<Rightarrow> nat \<Rightarrow> market_protection" where
  "compute_market_protection env m p f cooldown =
    (let combined = min (sat_u32 (sat_u32 (mm_risk m + cp_risk p) + mf_risk f) div 3) 100;
         (intervene, reason) =
           (if \<not> mm_healthy m \<and> MARKET_CONCENTRATION_RISK_THRESHOLD \<le> mm_risk m
            then (True, ''high_concentration'')
            else if \<not> cp_fair p then (True, ''barriers_blocking'')
            else if mf_coordination f then (True, ''price_coordination'')
            else if MARKET_PROTECTION_INTERVENTION_THRESHOLD \<le> combined then (True, ''combined_risk'')
            else (False, ''none'')) in
     \<lparr>mp_intervene = intervene, mp_risk = combined, mp_reason = reason,
      mp_eligible_at = (if intervene then sat_u64 (ledger_ts env + cooldown) else ledger_ts env)\<rparr>)"

definition is_market_restoration_eligible :: "market_protection \<Rightarrow> nat \<Rightarrow> bool" where
  "is_market_restoration_eligible r now \<longleftrightarrow> \<not> mp_intervene r \<or> mp_eligible_at r \<le> now"


section \<open>Dispute independence\<close>

definition DISPUTE_COORDINATION_WINDOW_SECS :: nat where "DISPUTE_COORDINATION_WINDOW_SECS = 3600"
definition DISPUTE_INDEPENDENCE_RISK_THRESHOLD :: nat where "DISPUTE_INDEPENDENCE_RISK_THRESHOLD = 60"

record independence_flag =
  if_independent :: bool
  if_risk :: nat
  if_shared :: nat
  if_clustered :: nat

definition ensure_dispute_independence :: "nat list \<Rightarrow> nat \<Rightarrow> independence_flag" where
  "ensure_dispute_independence ts shared_count =
    (let n = length ts;
         clustered = length (filter (\<lambda>i. ts ! i - ts ! (i - 1) < DISPUTE_COORDINATION_WINDOW_SECS) [1..<n]);
         risk = (if 3 \<le> n then 30 else 0) + (if 2 \<le> clustered then 35 else 0)
              + (if 2 \<le> shared_count then 35 else 0);
         risk = min risk 100 in
     \<lparr>if_independent = risk < DISPUTE_INDEPENDENCE_RISK_THRESHOLD, if_risk = risk,
      if_shared = shared_count, if_clustered = clustered\<rparr>)"


section \<open>Voting\<close>

definition MIN_HOLDING_PERIOD_SECS :: nat where "MIN_HOLDING_PERIOD_SECS = 7 * 24 * 60 * 60"

datatype vote_phase = CommitPhase | RevealPhase | EndedPhase

record manipulation_flag =
  vf_proposal :: nat
  vf_voter :: addr
  vf_reason :: symbol
  vf_detected_at :: nat
  vf_stake :: int
  vf_weight :: int

definition calculate_voting_weight :: "int \<Rightarrow> int \<Rightarrow> unit fail + int" where
  "calculate_voting_weight snapshot_weight delegated_power =
    expect (checked_i128 (snapshot_weight + delegated_power)) (Panic ''voting weight overflow'') Inr"

definition get_vote_phase :: "env \<Rightarrow> nat \<Rightarrow> nat \<Rightarrow> vote_phase" where
  "get_vote_phase env commit_phase_ends_at voting_ends_at =
    (if voting_ends_at \<le> ledger_ts env then EndedPhase
     else if ledger_ts env < commit_phase_ends_at then CommitPhase else RevealPhase)"

definition validate_minimum_holding_period :: "nat \<Rightarrow> nat \<Rightarrow> bool" where
  "validate_minimum_holding_period staked_at proposal_created_at \<longleftrightarrow>
     \<not> proposal_created_at < sat_u64 (staked_at + MIN_HOLDING_PERIOD_SECS)"

definition detect_vote_manipulation :: "nat \<Rightarrow> nat \<Rightarrow> int \<Rightarrow> addr \<Rightarrow> manipulation_flag option" where
  "detect_vote_manipulation staked_at proposal_created_at snapshot_amount voter =
    (if proposal_created_at - staked_at < 24 * 60 * 60 \<and> 0 < snapshot_amount
     then Some \<lparr>vf_proposal = 0, vf_voter = voter, vf_reason = ''recent_stake_acquired'',
                vf_detected_at = proposal_created_at, vf_stake = snapshot_amount, vf_weight = snapshot_amount\<rparr>
     else None)"

definition detect_coordinated_timing :: "nat list \<Rightarrow> nat \<Rightarrow> bool" where
  "detect_coordinated_timing ts window_secs \<longleftrightarrow>
     list_ex (\<lambda>i. list_ex (\<lambda>j.
        (if ts ! j < ts ! i then ts ! i - ts ! j else ts ! j - ts ! i) < window_secs div 10)
        [i + 1..<length ts]) [0..<length ts]"


section \<open>The concentration index\<close>

text \<open>The index of a list of shares, as the loop accumulates it and as a sum.\<close>

definition hhi_of :: "nat list \<Rightarrow> nat" where
  "hhi_of shares = (\<Sum>s \<leftarrow> shares. s * s div 10000)"

lemma share_exact: "c \<le> 429496 \<Longrightarrow> 0 < n \<Longrightarrow> share_bps n c = c * 10000 div n"
  by (cases "n = 1") (simp_all add: share_bps_def sat_u32_def u32_max_def)

lemma shares_total:
  fixes n :: nat
  assumes "0 < n" "sum_list cs \<le> n"
  shows "(\<Sum>c \<leftarrow> cs. c * 10000 div n) \<le> 10000"
proof -
  have "(\<Sum>c \<leftarrow> cs. c * 10000 div n) * n \<le> sum_list cs * 10000"
  proof (induction cs)
    case (Cons c cs)
    have "c * 10000 div n * n \<le> c * 10000" by (rule div_times_less_eq_dividend)
    from add_mono [OF this Cons] show ?case by (simp add: add_mult_distrib)
  qed simp
  also have "\<dots> \<le> 10000 * n" using assms(2) by simp
  finally show ?thesis using assms(1) by simp
qed

lemma hhi_le: "\<forall>s \<in> set shares. s \<le> 10000 \<Longrightarrow> hhi_of shares \<le> sum_list shares"
proof (induction shares)
  case (Cons s shares)
  have "s * s div 10000 \<le> s * 10000 div 10000"
    by (intro div_le_mono mult_le_mono) (use Cons.prems in auto)
  with Cons show ?case by (simp add: hhi_of_def)
qed (simp add: hhi_of_def)

lemma concentration_loop:
  assumes "\<forall>c \<in> set cs. share_bps n c \<le> 10000" "h + hhi_of (map (share_bps n) cs) \<le> 10000"
  shows "foldl (\<lambda>(hhi, dominant) c.
       let s = share_bps n c in
       (sat_u32 (hhi + sat_u32 (s * s) div 10000), if dominant < s then s else dominant)) (h, d) cs =
     (h + hhi_of (map (share_bps n) cs), fold max (map (share_bps n) cs) d)"
  using assms
proof (induction cs arbitrary: h d)
  case (Cons c cs)
  have "share_bps n c * share_bps n c \<le> 10000 * 10000"
    by (intro mult_le_mono) (use Cons.prems in auto)
  then have "sat_u32 (share_bps n c * share_bps n c) = share_bps n c * share_bps n c"
    by (simp add: sat_u32_def u32_max_def)
  moreover have "sat_u32 (h + share_bps n c * share_bps n c div 10000) = h + share_bps n c * share_bps n c div 10000"
    using Cons.prems(2) by (simp add: hhi_of_def sat_u32_def u32_max_def)
  ultimately show ?case
    using Cons by (simp add: hhi_of_def Let_def max_def not_less)
qed (simp add: hhi_of_def)


section \<open>Properties\<close>

text \<open>
  The concentration index. When every network has at most 429496 sessions and together they have no
  more than the total, the loop computes exactly the sum of the squared shares, at most 10000, and the
  largest share. A larger count saturates the 32-bit product before the division: a network with half
  of twenty million sessions is given a share of two percent.
\<close>

theorem concentration_index:
  assumes "cs \<noteq> []" "sum_list cs \<le> n" "\<forall>c \<in> set cs. c \<le> 429496"
  shows "n = 0 \<or>
    mm_hhi (detect_network_concentration cs n) = hhi_of (map (\<lambda>c. c * 10000 div n) cs) \<and>
    mm_hhi (detect_network_concentration cs n) \<le> 10000 \<and>
    mm_dominant (detect_network_concentration cs n) = fold max (map (\<lambda>c. c * 10000 div n) cs) 0 \<and>
    share_bps 20000000 10000000 = 214"
proof (cases "n = 0")
  case False
  have shares: "map (share_bps n) cs = map (\<lambda>c. c * 10000 div n) cs"
    using assms(3) False by (simp add: share_exact)
  have small: "\<forall>s \<in> set (map (\<lambda>c. c * 10000 div n) cs). s \<le> 10000"
  proof
    fix s assume "s \<in> set (map (\<lambda>c. c * 10000 div n) cs)"
    then have "s \<le> (\<Sum>c \<leftarrow> cs. c * 10000 div n)" by (rule member_le_sum_list) simp
    also have "\<dots> \<le> 10000" by (rule shares_total) (use False assms(2) in auto)
    finally show "s \<le> 10000" .
  qed
  have hhi: "hhi_of (map (share_bps n) cs) \<le> 10000"
    using hhi_le [OF small] shares_total [OF _ assms(2)] False by (simp add: shares)
  have "\<forall>c \<in> set cs. share_bps n c \<le> 10000" using small assms(3) False by (auto simp: share_exact)
  from concentration_loop [OF this, of 0 0] hhi
  have loop: "foldl (\<lambda>(hhi, dominant) c.
       let s = share_bps n c in
       (sat_u32 (hhi + sat_u32 (s * s) div 10000), if dominant < s then s else dominant)) (0, 0) cs =
     (hhi_of (map (share_bps n) cs), fold max (map (share_bps n) cs) 0)" by simp
  have "share_bps 20000000 10000000 = 214" by (simp add: share_bps_def sat_u32_def u32_max_def)
  with loop hhi False assms(1) show ?thesis
    by (simp add: detect_network_concentration_def Let_def shares)
qed simp

theorem concentration_index_witness:
  "mm_hhi (detect_network_concentration [50, 30] 100) = 3400"
  using concentration_index [of "[50, 30]" 100] by (simp add: hhi_of_def)

end
