(* ===== verification/DenseIndex.thy ===== *)
theory DenseIndex
  imports Prelude
begin

text \<open>
  The storage pattern of every enumerable registry of the suite: an array of entries under the keys
  \<open>0, ..., count - 1\<close>, a reverse index from an entry to its key, and removal by moving the last entry
  into the gap. The array represents a list of distinct entries; adding appends to the list,
  removing is \<open>swap_remove\<close> on it. The locale \<open>dense_array\<close> is the contract of a component that
  stores such an array; its lemmas are proved once from the two laws on the three stored maps.
\<close>

section \<open>Removal on lists\<close>

definition swap_remove :: "nat \<Rightarrow> 'b list \<Rightarrow> 'b list" where
  "swap_remove i xs = butlast (xs[i := last xs])"

lemma swap_remove_nth:
  "i < length xs \<Longrightarrow> j < length xs - 1 \<Longrightarrow> swap_remove i xs ! j = (if j = i then last xs else xs ! j)"
  by (simp add: swap_remove_def nth_butlast)

lemma swap_remove_length: "length (swap_remove i xs) = length xs - 1"
  by (simp add: swap_remove_def)

lemma swap_remove_perm:
  assumes "distinct xs" "i < length xs"
  shows "distinct (swap_remove i xs) \<and> set (swap_remove i xs) = set xs - {xs ! i}"
proof -
  let ?ys = "swap_remove i xs"
  have last: "last xs = xs ! (length xs - 1)" using assms(2) by (intro last_conv_nth) auto
  have nth: "?ys ! j = (if j = i then xs ! (length xs - 1) else xs ! j)" if "j < length xs - 1" for j
    using swap_remove_nth [OF assms(2) that] last by simp
  have "distinct ?ys"
    unfolding distinct_conv_nth swap_remove_length
    using assms by (auto simp: nth nth_eq_iff_index_eq)
  moreover have "set ?ys = set xs - {xs ! i}"
  proof (rule set_eqI)
    fix a
    show "a \<in> set ?ys \<longleftrightarrow> a \<in> set xs - {xs ! i}"
    proof
      assume "a \<in> set ?ys"
      then obtain j where "j < length xs - 1" "a = ?ys ! j" by (auto simp: in_set_conv_nth swap_remove_length)
      with assms show "a \<in> set xs - {xs ! i}"
        by (auto simp: nth nth_eq_iff_index_eq)
    next
      assume "a \<in> set xs - {xs ! i}"
      then obtain j where j: "j < length xs" "a = xs ! j" "j \<noteq> i" by (auto simp: in_set_conv_nth)
      then have "a = ?ys ! (if j = length xs - 1 then i else j)" "(if j = length xs - 1 then i else j) < length xs - 1"
        using assms(2) by (auto simp: nth)
      then show "a \<in> set ?ys" using swap_remove_length [of i xs] by (metis nth_mem)
    qed
  qed
  ultimately show ?thesis ..
qed


section \<open>The representation\<close>

definition dense_rep :: "(nat \<rightharpoonup> 'k) \<Rightarrow> ('k \<rightharpoonup> nat) \<Rightarrow> nat \<Rightarrow> 'k list \<Rightarrow> bool" where
  "dense_rep slots pos n xs \<longleftrightarrow> distinct xs \<and> n = length xs \<and>
     (\<forall>i. slots i = (if i < length xs then Some (xs ! i) else None)) \<and>
     (\<forall>i < length xs. pos (xs ! i) = Some i) \<and> dom pos = set xs"

lemma dense_repD:
  assumes "dense_rep slots pos n xs"
  shows "distinct xs" "n = length xs" "slots i = (if i < length xs then Some (xs ! i) else None)"
    "i < length xs \<Longrightarrow> pos (xs ! i) = Some i" "dom pos = set xs"
  using assms by (simp_all add: dense_rep_def)

lemma dense_rep_index:
  assumes rep: "dense_rep slots pos n xs"
  shows "pos a = Some i \<longleftrightarrow> i < length xs \<and> xs ! i = a"
proof
  assume i: "pos a = Some i"
  then have "a \<in> set xs" using dense_repD(5) [OF rep] by blast
  then obtain j where "j < length xs" "xs ! j = a" by (auto simp: in_set_conv_nth)
  with i dense_repD(4) [OF rep, of j] show "i < length xs \<and> xs ! i = a" by simp
next
  assume "i < length xs \<and> xs ! i = a"
  then show "pos a = Some i" using dense_repD(4) [OF rep] by blast
qed

lemma dense_rep_None: "dense_rep slots pos n xs \<Longrightarrow> pos a = None \<longleftrightarrow> a \<notin> set xs"
  using dense_repD(5) by blast

lemma dense_rep_unique: "dense_rep slots pos n xs \<Longrightarrow> dense_rep slots pos n ys \<Longrightarrow> xs = ys"
  using dense_repD(2,3) [of slots pos n xs] dense_repD(2,3) [of slots pos n ys]
  by (intro nth_equalityI) (auto, metis option.inject)

lemma dense_rep_empty [simp]: "dense_rep Map.empty Map.empty 0 []"
  by (simp add: dense_rep_def)

lemma dense_rep_push:
  assumes "dense_rep slots pos n xs" "a \<notin> set xs"
  shows "dense_rep (slots(n \<mapsto> a)) (pos(a \<mapsto> n)) (n + 1) (xs @ [a])"
proof -
  have "xs ! i \<noteq> a" if "i < length xs" for i using assms(2) that nth_mem by blast
  then show ?thesis using assms by (auto simp: dense_rep_def nth_append less_Suc_eq)
qed

text \<open>The slots and the reverse index after the entry \<open>a\<close> at \<open>i\<close> has been removed.\<close>

definition slots_del :: "nat \<Rightarrow> nat \<Rightarrow> (nat \<rightharpoonup> 'k) \<Rightarrow> nat \<rightharpoonup> 'k" where
  "slots_del i l slots = (if i \<noteq> l then slots(i := slots l) else slots)(l := None)"

definition pos_del :: "'k \<Rightarrow> nat \<Rightarrow> nat \<Rightarrow> (nat \<rightharpoonup> 'k) \<Rightarrow> ('k \<rightharpoonup> nat) \<Rightarrow> 'k \<rightharpoonup> nat" where
  "pos_del a i l slots pos = (if i \<noteq> l then pos(the (slots l) \<mapsto> i) else pos)(a := None)"

lemma dense_rep_remove:
  assumes rep: "dense_rep slots pos n xs" and i: "pos a = Some i"
  shows "dense_rep (slots_del i (n - 1) slots) (pos_del a i (n - 1) slots pos) (n - 1) (swap_remove i xs)"
proof -
  note r = dense_repD [OF rep]
  have i': "i < length xs" "xs ! i = a" using i dense_rep_index [OF rep] by auto
  let ?n = "length xs - 1"
  have last: "last xs = xs ! ?n" using i' by (intro last_conv_nth) auto
  have sl: "slots ?n = Some (xs ! ?n)" using r(3) [of ?n] i' by simp
  note perm = swap_remove_perm [OF r(1) i'(1)]
  show ?thesis
    unfolding dense_rep_def swap_remove_length slots_del_def pos_del_def r(2) sl option.sel
  proof (intro conjI allI impI)
    fix j
    show "((if i \<noteq> ?n then slots(i := Some (xs ! ?n)) else slots)(?n := None)) j =
        (if j < ?n then Some (swap_remove i xs ! j) else None)"
      using r(3) [of j] i' by (auto simp: swap_remove_nth last)
  next
    fix j
    assume j: "j < ?n"
    have "xs ! j = a \<longleftrightarrow> j = i" "xs ! ?n = a \<longleftrightarrow> i = ?n" "xs ! j \<noteq> xs ! ?n"
      using r(1) i' j by (auto simp: nth_eq_iff_index_eq)
    then show "((if i \<noteq> ?n then pos(xs ! ?n \<mapsto> i) else pos)(a := None)) (swap_remove i xs ! j) = Some j"
      using r(4) [of j] i' j by (auto simp: swap_remove_nth last)
  next
    show "dom ((if i \<noteq> ?n then pos(xs ! ?n \<mapsto> i) else pos)(a := None)) = set (swap_remove i xs)"
      using perm r(5) i' by auto
  qed (use perm in auto)
qed


section \<open>Reading pages\<close>

definition dense_slice :: "(nat \<rightharpoonup> 'k) \<Rightarrow> nat \<Rightarrow> nat \<Rightarrow> 'k list" where
  "dense_slice slots a b = List.map_filter slots [a..<b]"

lemma map_filter_total: "(\<And>i. i \<in> set is \<Longrightarrow> f i = Some (g i)) \<Longrightarrow> List.map_filter f is = map g is"
  by (induction "is") (auto simp: List.map_filter_def)

lemma dense_slice_rep:
  assumes "dense_rep slots pos n xs" "b \<le> length xs"
  shows "dense_slice slots a b = take (b - a) (drop a xs)"
proof -
  have "List.map_filter slots [a..<b] = map (\<lambda>i. xs ! i) [a..<b]"
    using dense_repD(3) [OF assms(1)] assms(2)
    by (intro map_filter_total) auto
  also have "\<dots> = take (b - a) (drop a xs)"
    using assms(2) by (intro nth_equalityI) (auto simp: nth_upt)
  finally show ?thesis by (simp add: dense_slice_def)
qed


section \<open>Components that keep such an array\<close>

text \<open>
  The contract: the component has an operation that adds an entry which is not registered, and one
  that removes a registered entry, with these effects on the three stored values. Both may fail
  when the stored maps are not consistent; the clients learn that they never do.
\<close>

locale dense_array =
  fixes slots :: "'s \<Rightarrow> nat \<rightharpoonup> 'k" and pos :: "'s \<Rightarrow> 'k \<rightharpoonup> nat" and num :: "'s \<Rightarrow> nat"
    and ins :: "'k \<Rightarrow> 's \<Rightarrow> 'f + 's" and del :: "'k \<Rightarrow> 's \<Rightarrow> 'f + 's"
  assumes ins_new: "ins a s = Inr s' \<Longrightarrow> pos s a = None \<Longrightarrow>
      slots s' = (slots s)(num s \<mapsto> a) \<and> pos s' = (pos s)(a \<mapsto> num s) \<and> num s' = num s + 1"
    and del_old: "del a s = Inr s' \<Longrightarrow> pos s a = Some i \<Longrightarrow> i < num s \<Longrightarrow> slots s (num s - 1) \<noteq> None \<Longrightarrow>
      slots s' = slots_del i (num s - 1) (slots s) \<and>
      pos s' = pos_del a i (num s - 1) (slots s) (pos s) \<and> num s' = num s - 1"
begin

definition holds :: "'s \<Rightarrow> 'k list \<Rightarrow> bool" where
  "holds s xs \<longleftrightarrow> dense_rep (slots s) (pos s) (num s) xs"

lemma ins_appends: "holds s xs \<Longrightarrow> a \<notin> set xs \<Longrightarrow> ins a s = Inr s' \<Longrightarrow> holds s' (xs @ [a])"
  using ins_new [of a s s'] dense_rep_push [of "slots s" "pos s" "num s" xs a]
  by (simp add: holds_def dense_rep_None)

lemma del_swaps:
  assumes "holds s xs" "a \<in> set xs" "del a s = Inr s'"
  shows "\<exists>i < length xs. xs ! i = a \<and> holds s' (swap_remove i xs)"
proof -
  note rep = assms(1) [unfolded holds_def]
  obtain i where i: "i < length xs" "xs ! i = a" using assms(2) by (auto simp: in_set_conv_nth)
  then have pos: "pos s a = Some i" using dense_rep_index [OF rep] by simp
  have "i < num s" "slots s (num s - 1) \<noteq> None"
    using i dense_repD(2,3) [OF rep] by auto
  with del_old [OF assms(3) pos] dense_rep_remove [OF rep pos]
  have "holds s' (swap_remove i xs)" by (simp add: holds_def)
  with i show ?thesis by blast
qed

text \<open>Seen as a set, the two operations insert and delete.\<close>

lemma ins_set: "holds s xs \<Longrightarrow> a \<notin> set xs \<Longrightarrow> ins a s = Inr s' \<Longrightarrow> \<exists>ys. holds s' ys \<and> set ys = insert a (set xs)"
  using ins_appends by fastforce

lemma del_set:
  assumes "holds s xs" "a \<in> set xs" "del a s = Inr s'"
  shows "\<exists>ys. holds s' ys \<and> set ys = set xs - {a} \<and> length ys = length xs - 1"
proof -
  obtain i where i: "i < length xs" "xs ! i = a" "holds s' (swap_remove i xs)"
    using del_swaps [OF assms] by blast
  then show ?thesis
    using swap_remove_perm [of xs i] dense_repD(1) [of "slots s" "pos s" "num s" xs] assms(1) swap_remove_length [of i xs]
    by (auto simp: holds_def)
qed

end

end
