(* ===== verification/GovArbitrators.thy ===== *)
theory GovArbitrators
  imports GovShared DenseIndex
begin

text \<open>
  The first two layers of the governance contract, \<open>contracts/governance/src/lib.rs\<close>: the admin with
  its two-step change, and the registry of arbitrators with appeals. The registry is an array with a
  reverse index in storage; removal moves the last entry into the gap. It refines a list of distinct
  addresses.

  The instance and the persistent copy of the admin are kept apart, since not every function writes
  or reads both.
\<close>

section \<open>State\<close>

datatype gov_error =
    GvAlreadyInitialized | GvNotInitialized | GvUnauthorized | GvNoPendingAdminChange
  | GvAdminChangeNotYetEffective | GvInvalidAdminChange | GvArbitratorConflict
  | GvTooManyActiveProposals | GvHoldingPeriodNotMet

type_synonym 'a gov_res = "gov_error fail + 'a"

definition ADMIN_CHANGE_TIMELOCK :: nat where "ADMIN_CHANGE_TIMELOCK = 48 * 60 * 60"

record pending_admin_change =
  pa_new_admin :: addr
  pa_effective_at :: nat

record gov_base =
  gv_admin :: "addr option"
  gv_admin_p :: "addr option"
  gv_pending :: "pending_admin_change option"

record arbitrator_record =
  ar_address :: addr
  ar_active :: bool
  ar_cases :: nat

record appeal_record =
  ap_proposal :: nat
  ap_appellant :: addr
  ap_reason :: symbol
  ap_submitted_at :: nat
  ap_resolved :: bool

record gov_arbs = gov_base +
  gv_arb :: "addr \<rightharpoonup> arbitrator_record"
  gv_arb_at :: "nat \<rightharpoonup> addr"
  gv_arb_count :: "nat option"
  gv_arb_index :: "addr \<rightharpoonup> nat"
  gv_arb_list :: "addr list option"
  gv_arb_history :: "addr \<rightharpoonup> nat list"
  gv_arb_flag :: "addr \<rightharpoonup> independence_flag"
  gv_compensation :: "int option"
  gv_appeal :: "nat \<rightharpoonup> appeal_record"


section \<open>The admin\<close>

definition gv_get_admin :: "'a gov_base_scheme \<Rightarrow> addr gov_res" where
  "gv_get_admin s = expect (gv_admin s) (Err GvNotInitialized) Inr"

definition gv_require_admin :: "env \<Rightarrow> addr \<Rightarrow> 'a gov_base_scheme \<Rightarrow> 'b gov_res \<Rightarrow> 'b gov_res" where
  "gv_require_admin env admin s k =
    ensure (auth_by env admin) AuthDenied (
    expect (gv_admin s) (Err GvNotInitialized) (\<lambda>stored.
    ensure (stored = admin) (Err GvUnauthorized) k))"

definition gv_assert_admin :: "env \<Rightarrow> addr \<Rightarrow> 'a gov_base_scheme \<Rightarrow> 'b gov_res \<Rightarrow> 'b gov_res" where
  "gv_assert_admin env admin s k =
    ensure (auth_by env admin) AuthDenied (
    expect (gv_admin s) (Panic ''not initialized'') (\<lambda>stored.
    ensure (stored = admin) (Panic ''unauthorized'') k))"

definition gv_propose_admin_change ::
    "env \<Rightarrow> addr \<Rightarrow> addr \<Rightarrow> 'a gov_base_scheme \<Rightarrow> 'a gov_base_scheme gov_res" where
  "gv_propose_admin_change env current_admin new_admin s =
    gv_require_admin env current_admin s (
    rbind (gv_get_admin s) (\<lambda>old_admin.
    expect (checked_u64 (ledger_ts env + ADMIN_CHANGE_TIMELOCK)) (Err GvInvalidAdminChange) (\<lambda>effective_at.
    Inr (s\<lparr>gv_pending := Some \<lparr>pa_new_admin = new_admin, pa_effective_at = effective_at\<rparr>\<rparr>))))"

definition gv_accept_admin_change :: "env \<Rightarrow> addr \<Rightarrow> 'a gov_base_scheme \<Rightarrow> 'a gov_base_scheme gov_res" where
  "gv_accept_admin_change env new_admin s =
    ensure (auth_by env new_admin) AuthDenied (
    expect (gv_pending s) (Err GvNoPendingAdminChange) (\<lambda>pending.
    ensure (pa_new_admin pending = new_admin) (Err GvUnauthorized) (
    ensure (\<not> ledger_ts env < pa_effective_at pending) (Err GvAdminChangeNotYetEffective) (
    Inr (s\<lparr>gv_admin := Some new_admin, gv_admin_p := Some new_admin, gv_pending := None\<rparr>)))))"

definition gv_cancel_admin_change :: "env \<Rightarrow> addr \<Rightarrow> 'a gov_base_scheme \<Rightarrow> 'a gov_base_scheme gov_res" where
  "gv_cancel_admin_change env multisig s =
    ensure (auth_by env multisig) AuthDenied (
    ensure (gv_pending s \<noteq> None) (Err GvNoPendingAdminChange) (Inr (s\<lparr>gv_pending := None\<rparr>)))"

definition gv_get_pending_admin_change :: "'a gov_base_scheme \<Rightarrow> pending_admin_change option" where
  "gv_get_pending_admin_change s = gv_pending s"

lemma gv_require_admin_Inr [res_simps]:
  "gv_require_admin env a s k = Inr x \<longleftrightarrow> auth_by env a \<and> gv_admin s = Some a \<and> k = Inr x"
  by (auto simp: gv_require_admin_def res_simps)

lemma gv_assert_admin_Inr [res_simps]:
  "gv_assert_admin env a s k = Inr x \<longleftrightarrow> auth_by env a \<and> gv_admin s = Some a \<and> k = Inr x"
  by (auto simp: gv_assert_admin_def res_simps)


section \<open>Arbitrators\<close>

definition gv_register_arbitrator ::
    "env \<Rightarrow> addr \<Rightarrow> addr \<Rightarrow> 'a gov_arbs_scheme \<Rightarrow> 'a gov_arbs_scheme gov_res" where
  "gv_register_arbitrator env admin arbitrator s =
    gv_assert_admin env admin s (
    let dispute_history = get_or [] (gv_arb_history s arbitrator);
        independence_flag = ensure_dispute_independence dispute_history (length dispute_history) in
    ensure (if_independent independence_flag) (Err GvArbitratorConflict) (
    let record = \<lparr>ar_address = arbitrator, ar_active = True, ar_cases = 0\<rparr>;
        is_new = (gv_arb s arbitrator = None);
        s1 = s\<lparr>gv_arb_flag := (gv_arb_flag s)(arbitrator \<mapsto> independence_flag),
               gv_arb := (gv_arb s)(arbitrator \<mapsto> record)\<rparr> in
    if is_new then
      let count = get_or 0 (gv_arb_count s1) in
      rbind (arith_u32 (count + 1)) (\<lambda>count'.
      Inr (s1\<lparr>gv_arb_at := (gv_arb_at s1)(count \<mapsto> arbitrator),
              gv_arb_index := (gv_arb_index s1)(arbitrator \<mapsto> count), gv_arb_count := Some count'\<rparr>))
    else Inr s1))"

definition gv_unregister_arbitrator ::
    "env \<Rightarrow> addr \<Rightarrow> addr \<Rightarrow> 'a gov_arbs_scheme \<Rightarrow> 'a gov_arbs_scheme gov_res" where
  "gv_unregister_arbitrator env admin arbitrator s =
    gv_assert_admin env admin s (
    ensure (gv_arb s arbitrator \<noteq> None) (Panic ''arbitrator not found'') (
    let count = get_or 0 (gv_arb_count s) in
    ensure (count \<noteq> 0) (Panic ''no arbitrators'') (
    expect (gv_arb_index s arbitrator) (Panic ''arbitrator index not found'') (\<lambda>index.
    let last_index = count - 1 in
    rbind (if index \<noteq> last_index then
             expect (gv_arb_at s last_index) (Panic ''last arbitrator not found'') (\<lambda>last_arbitrator.
             Inr (s\<lparr>gv_arb_at := (gv_arb_at s)(index \<mapsto> last_arbitrator),
                    gv_arb_index := (gv_arb_index s)(last_arbitrator \<mapsto> index)\<rparr>))
           else Inr s) (\<lambda>s1.
    Inr (s1\<lparr>gv_arb_at := (gv_arb_at s1)(last_index := None),
            gv_arb_index := (gv_arb_index s1)(arbitrator := None),
            gv_arb := (gv_arb s1)(arbitrator := None), gv_arb_count := Some last_index\<rparr>))))))"

definition gv_get_arbitrator_count :: "'a gov_arbs_scheme \<Rightarrow> nat" where
  "gv_get_arbitrator_count s = get_or 0 (gv_arb_count s)"

definition gv_list_arbitrators_page :: "nat \<Rightarrow> nat \<Rightarrow> 'a gov_arbs_scheme \<Rightarrow> addr list gov_res" where
  "gv_list_arbitrators_page offset limit s =
    rbind (arith_u32 (offset + limit)) (\<lambda>x.
    Inr (List.map_filter (gv_arb_at s) [offset..<min x (gv_get_arbitrator_count s)]))"

text \<open>
  The search of \<open>select_arbitrator\<close> visits the entries cyclically and stops at the entry it started
  from; \<open>n\<close> bounds the number of steps, and the number of entries is enough.
\<close>

fun gv_arb_scan :: "nat \<Rightarrow> nat \<Rightarrow> nat \<Rightarrow> nat \<Rightarrow> 'a gov_arbs_scheme \<Rightarrow> addr gov_res" where
  "gv_arb_scan 0 count start idx s = Inl HostError"
| "gv_arb_scan (Suc n) count start idx s =
    expect (gv_arb_at s idx) (Panic ''invalid arbitrator index'') (\<lambda>a.
    expect (gv_arb s a) (Panic ''arbitrator record not found'') (\<lambda>record.
    if ar_active record then Inr a
    else
      let idx' = (idx + 1) mod count in
      if idx' = start then Inl (Panic ''no active arbitrators'') else gv_arb_scan n count start idx' s))"

definition gv_select_arbitrator :: "nat \<Rightarrow> 'a gov_arbs_scheme \<Rightarrow> addr gov_res" where
  "gv_select_arbitrator dispute_id s =
    (let count = gv_get_arbitrator_count s in
    ensure (count \<noteq> 0) (Panic ''no arbitrators'') (
    let start_idx = dispute_id mod count in gv_arb_scan count count start_idx start_idx s))"

definition gv_migrate_arbitrators :: "env \<Rightarrow> addr \<Rightarrow> 'a gov_arbs_scheme \<Rightarrow> 'a gov_arbs_scheme gov_res" where
  "gv_migrate_arbitrators env admin s =
    gv_assert_admin env admin s (
    case gv_arb_list s of None \<Rightarrow> Inr s
    | Some xs \<Rightarrow>
        let (count, s1) = foldl (\<lambda>(count, s) a.
              if gv_arb_index s a = None
              then (count + 1, s\<lparr>gv_arb_at := (gv_arb_at s)(count \<mapsto> a),
                                 gv_arb_index := (gv_arb_index s)(a \<mapsto> count)\<rparr>)
              else (count, s)) (get_or 0 (gv_arb_count s), s) xs in
        rbind (arith_u32 count) (\<lambda>count.
        Inr (s1\<lparr>gv_arb_count := Some count, gv_arb_list := None\<rparr>)))"

definition gv_set_arbitration_compensation ::
    "env \<Rightarrow> addr \<Rightarrow> int \<Rightarrow> 'a gov_arbs_scheme \<Rightarrow> 'a gov_arbs_scheme gov_res" where
  "gv_set_arbitration_compensation env admin amount s =
    ensure (auth_by env admin) AuthDenied (Inr (s\<lparr>gv_compensation := Some amount\<rparr>))"

definition gv_get_arbitration_compensation :: "'a gov_arbs_scheme \<Rightarrow> int" where
  "gv_get_arbitration_compensation s = get_or 0 (gv_compensation s)"

definition gv_get_arbitrator :: "addr \<Rightarrow> 'a gov_arbs_scheme \<Rightarrow> arbitrator_record gov_res" where
  "gv_get_arbitrator a s = expect (gv_arb s a) (Panic ''arbitrator not found'') Inr"


section \<open>Appeals\<close>

definition gv_submit_appeal ::
    "env \<Rightarrow> addr \<Rightarrow> nat \<Rightarrow> symbol \<Rightarrow> 'a gov_arbs_scheme \<Rightarrow> 'a gov_arbs_scheme gov_res" where
  "gv_submit_appeal env appellant proposal_id reason s =
    ensure (auth_by env appellant) AuthDenied (
    Inr (s\<lparr>gv_appeal := (gv_appeal s)(proposal_id \<mapsto>
      \<lparr>ap_proposal = proposal_id, ap_appellant = appellant, ap_reason = reason,
       ap_submitted_at = ledger_ts env, ap_resolved = False\<rparr>)\<rparr>))"

definition gv_resolve_appeal :: "env \<Rightarrow> addr \<Rightarrow> nat \<Rightarrow> 'a gov_arbs_scheme \<Rightarrow> 'a gov_arbs_scheme gov_res" where
  "gv_resolve_appeal env arbitrator proposal_id s =
    ensure (auth_by env arbitrator) AuthDenied (
    expect (gv_arb s arbitrator) (Panic ''arbitrator not found'') (\<lambda>record.
    ensure (ar_active record) (Panic ''arbitrator inactive'') (
    expect (gv_appeal s proposal_id) (Panic ''appeal not found'') (\<lambda>appeal.
    rbind (arith_u32 (ar_cases record + 1)) (\<lambda>cases.
    Inr (s\<lparr>gv_appeal := (gv_appeal s)(proposal_id \<mapsto> appeal\<lparr>ap_resolved := True\<rparr>),
           gv_arb := (gv_arb s)(arbitrator \<mapsto> record\<lparr>ar_cases := cases\<rparr>)\<rparr>))))))"

definition gv_get_appeal :: "nat \<Rightarrow> 'a gov_arbs_scheme \<Rightarrow> appeal_record gov_res" where
  "gv_get_appeal proposal_id s = expect (gv_appeal s proposal_id) (Panic ''appeal not found'') Inr"


section \<open>Refinement of a list of distinct addresses\<close>

definition arbs_rep :: "'a gov_arbs_scheme \<Rightarrow> addr list \<Rightarrow> bool" where
  "arbs_rep s xs \<longleftrightarrow> distinct xs \<and> get_or 0 (gv_arb_count s) = length xs \<and>
     (\<forall>i. gv_arb_at s i = (if i < length xs then Some (xs ! i) else None)) \<and>
     (\<forall>i < length xs. gv_arb_index s (xs ! i) = Some i) \<and> dom (gv_arb_index s) = set xs \<and>
     dom (gv_arb s) = set xs \<and> (\<forall>a r. gv_arb s a = Some r \<longrightarrow> ar_active r) \<and> gv_arb_list s = None"

lemma arbs_repD:
  assumes "arbs_rep s xs"
  shows "distinct xs" "get_or 0 (gv_arb_count s) = length xs"
    "gv_arb_at s i = (if i < length xs then Some (xs ! i) else None)"
    "i < length xs \<Longrightarrow> gv_arb_index s (xs ! i) = Some i" "dom (gv_arb_index s) = set xs"
    "dom (gv_arb s) = set xs" "gv_arb s a = Some r \<Longrightarrow> ar_active r" "gv_arb_list s = None"
  using assms by (simp_all add: arbs_rep_def)

lemma arbs_rep_frame:
  assumes "arbs_rep s xs" "gv_arb_at s' = gv_arb_at s" "gv_arb_count s' = gv_arb_count s"
    "gv_arb_index s' = gv_arb_index s" "gv_arb_list s' = gv_arb_list s" "dom (gv_arb s') = dom (gv_arb s)"
    "\<And>a r. gv_arb s' a = Some r \<Longrightarrow> ar_active r"
  shows "arbs_rep s' xs"
  using assms(1,7) unfolding arbs_rep_def assms(2-6) by blast

lemma arbs_rep_index: "arbs_rep s xs \<Longrightarrow> gv_arb_index s a = Some i \<longleftrightarrow> i < length xs \<and> xs ! i = a"
proof
  assume rep: "arbs_rep s xs" and i: "gv_arb_index s a = Some i"
  then have "a \<in> set xs" using arbs_repD(5) by blast
  then obtain j where "j < length xs" "xs ! j = a" by (auto simp: in_set_conv_nth)
  with i arbs_repD(4) [OF rep, of j] show "i < length xs \<and> xs ! i = a" by simp
next
  assume "arbs_rep s xs" "i < length xs \<and> xs ! i = a"
  then show "gv_arb_index s a = Some i" using arbs_repD(4) by blast
qed

lemma register_arbitrator_rep:
  assumes "gv_register_arbitrator env admin a s = Inr s'" "arbs_rep s xs"
  shows "arbs_rep s' (if a \<in> set xs then xs else xs @ [a])"
proof -
  note rep = arbs_repD [OF assms(2)]
  have new: "gv_arb s a = None \<longleftrightarrow> a \<notin> set xs" using rep(6) by auto
  show ?thesis
  proof (cases "a \<in> set xs")
    case True
    with assms(1) new obtain x where
      "s' = s\<lparr>gv_arb_flag := x, gv_arb := (gv_arb s)(a \<mapsto> \<lparr>ar_address = a, ar_active = True, ar_cases = 0\<rparr>)\<rparr>"
      by (auto simp: gv_register_arbitrator_def Let_def res_simps)
    moreover from this have "arbs_rep s' xs"
      using True rep(6) arbs_repD(7) [OF assms(2)]
      by (intro arbs_rep_frame [OF assms(2)]) (auto split: if_splits)
    ultimately show ?thesis using True by simp
  next
    case False
    with assms(1) new rep(2)
    have s': "gv_arb s' = (gv_arb s)(a \<mapsto> \<lparr>ar_address = a, ar_active = True, ar_cases = 0\<rparr>)"
        "gv_arb_at s' = (gv_arb_at s)(length xs \<mapsto> a)" "gv_arb_index s' = (gv_arb_index s)(a \<mapsto> length xs)"
        "gv_arb_count s' = Some (length xs + 1)" "gv_arb_list s' = gv_arb_list s"
      by (auto simp: gv_register_arbitrator_def Let_def res_simps)
    have ne: "xs ! i \<noteq> a" if "i < length xs" for i using False that nth_mem by blast
    show ?thesis
      using False rep ne by (auto simp: arbs_rep_def s' nth_append less_Suc_eq)
  qed
qed

lemma unregister_arbitrator_rep:
  assumes "gv_unregister_arbitrator env admin a s = Inr s'" "arbs_rep s xs"
  shows "\<exists>i < length xs. xs ! i = a \<and> arbs_rep s' (swap_remove i xs)"
proof -
  note rep = arbs_repD [OF assms(2)]
  obtain i where i: "i < length xs" "xs ! i = a" "gv_arb_index s a = Some i"
    using assms rep(5,6) arbs_rep_index [OF assms(2)]
    by (auto simp: gv_unregister_arbitrator_def Let_def res_simps)
  let ?n = "length xs - 1"
  have last: "last xs = xs ! ?n" using i(1) by (intro last_conv_nth) auto
  have s': "gv_arb s' = (gv_arb s)(a := None)" "gv_arb_count s' = Some ?n" "gv_arb_list s' = gv_arb_list s"
      "gv_arb_at s' = (if i \<noteq> ?n then (gv_arb_at s)(i \<mapsto> xs ! ?n) else gv_arb_at s)(?n := None)"
      "gv_arb_index s' = (if i \<noteq> ?n then (gv_arb_index s)(xs ! ?n \<mapsto> i) else gv_arb_index s)(a := None)"
    using assms(1) i rep(2,3) by (auto simp: gv_unregister_arbitrator_def Let_def res_simps split: if_splits)
  note perm = swap_remove_perm [OF rep(1) i(1)]
  have "arbs_rep s' (swap_remove i xs)"
    unfolding arbs_rep_def swap_remove_length
  proof (intro conjI allI impI)
    fix j
    show "gv_arb_at s' j = (if j < ?n then Some (swap_remove i xs ! j) else None)"
      using rep(3) [of j] i(1) by (auto simp: s' swap_remove_nth last)
  next
    fix j
    assume j: "j < ?n"
    have "xs ! j = a \<longleftrightarrow> j = i" "xs ! ?n = a \<longleftrightarrow> i = ?n" "xs ! j \<noteq> xs ! ?n"
      using rep(1) i j by (auto simp: nth_eq_iff_index_eq)
    then show "gv_arb_index s' (swap_remove i xs ! j) = Some j"
      using rep(4) [of j] i j by (auto simp: s' swap_remove_nth last)
  next
    show "dom (gv_arb_index s') = set (swap_remove i xs)"
      using perm rep(5) i by (auto simp: s')
  next
    fix b r
    assume "gv_arb s' b = Some r"
    then show "ar_active r" using rep(7) [of b r] by (auto simp: s' split: if_splits)
  qed (use perm rep i in \<open>auto simp: s'\<close>)
  with i show ?thesis by blast
qed

lemma resolve_appeal_rep:
  assumes "gv_resolve_appeal env a p s = Inr s'" "arbs_rep s xs"
  shows "arbs_rep s' xs"
proof -
  obtain r x c where "gv_arb s a = Some r" "ar_active r"
      "s' = s\<lparr>gv_appeal := x, gv_arb := (gv_arb s)(a \<mapsto> r\<lparr>ar_cases := c\<rparr>)\<rparr>"
    using assms(1) by (auto simp: gv_resolve_appeal_def res_simps)
  then show ?thesis
    using arbs_repD(7) [OF assms(2)] by (intro arbs_rep_frame [OF assms(2)]) (auto split: if_splits)
qed

lemma migrate_rep: "gv_migrate_arbitrators env a s = Inr s' \<Longrightarrow> arbs_rep s xs \<Longrightarrow> s' = s"
  by (auto simp: gv_migrate_arbitrators_def arbs_rep_def res_simps)

lemma select_arbitrator_rep:
  assumes "arbs_rep s xs" "xs \<noteq> []"
  shows "gv_select_arbitrator d s = Inr (xs ! (d mod length xs))"
proof -
  note rep = arbs_repD [OF assms(1)]
  have d: "d mod length xs < length xs" using assms(2) by simp
  then obtain r where r: "gv_arb s (xs ! (d mod length xs)) = Some r" using rep(6) nth_mem by blast
  obtain n where "length xs = Suc n" using assms(2) by (cases xs) auto
  with d r rep(2) rep(3) [of "d mod length xs"] rep(7) [OF r] assms(2) show ?thesis
    by (simp add: gv_select_arbitrator_def gv_get_arbitrator_count_def Let_def)
qed

lemma list_arbitrators_rep:
  assumes "arbs_rep s xs" "n + m \<le> u32_max"
  shows "gv_list_arbitrators_page n m s = Inr (take m (drop n xs))"
proof -
  note rep = arbs_repD [OF assms(1)]
  have "List.map_filter (gv_arb_at s) [n..<min (n + m) (length xs)] = map (\<lambda>i. xs ! i) [n..<min (n + m) (length xs)]"
    using rep(3) by (induction "[n..<min (n + m) (length xs)]") (auto simp: List.map_filter_def)
  also have "\<dots> = take m (drop n xs)"
    by (rule nth_equalityI) (auto simp: nth_upt less_diff_conv add.commute)
  finally show ?thesis
    using assms(2) rep(2) by (simp add: gv_list_arbitrators_page_def gv_get_arbitrator_count_def arith_u32_def)
qed

end
