(* ===== verification/Governance.thy ===== *)
theory Governance
  imports GovArbitrators Multisig Protections
begin

text \<open>
  Proposals and votes, \<open>contracts/governance/src/lib.rs\<close>: creation under the caps on active
  proposals, time-weighted votes with snapshot power, execution after the quorum, the timelocked
  path of \<open>ExecuteCall\<close>, cancellation with its cooldown and its escalation to the multisig wallet,
  and the market-control layer.

  The contracts that governance calls are the record \<open>gov_peers\<close>, on a state \<open>'w\<close> of the rest of
  the ledger. The persistent copies of settings that \<open>initialize\<close> writes and no function reads
  are left out, and so are the events, among them the coordination and late-vote alerts.
\<close>

section \<open>State\<close>

definition COORDINATED_VOTE_HISTORY :: nat where "COORDINATED_VOTE_HISTORY = 32"
definition DEFAULT_VOTING_PERIOD_SECS :: nat where "DEFAULT_VOTING_PERIOD_SECS = 7 * 24 * 60 * 60"
definition DEFAULT_QUORUM_BPS :: nat where "DEFAULT_QUORUM_BPS = 1000"
definition CUSTOM_PROPOSAL_QUORUM_BPS :: nat where "CUSTOM_PROPOSAL_QUORUM_BPS = 3000"
definition GOV_ROLLBACK_QUORUM_BPS :: nat where "GOV_ROLLBACK_QUORUM_BPS = 5000"
definition EXECUTE_CALL_TIMELOCK_SECS :: nat where "EXECUTE_CALL_TIMELOCK_SECS = 7 * 24 * 60 * 60"
definition CANCEL_COOLDOWN_SECS :: nat where "CANCEL_COOLDOWN_SECS = 7 * 24 * 60 * 60"
definition CANCEL_ESCALATION_WINDOW_SECS :: nat where "CANCEL_ESCALATION_WINDOW_SECS = 30 * 24 * 60 * 60"
definition CANCEL_ESCALATION_THRESHOLD :: nat where "CANCEL_ESCALATION_THRESHOLD = 3"
definition EARLY_WINDOW_END_BPS :: nat where "EARLY_WINDOW_END_BPS = 3300"
definition EARLY_WEIGHT_BPS :: nat where "EARLY_WEIGHT_BPS = 8000"
definition MID_WINDOW_END_BPS :: nat where "MID_WINDOW_END_BPS = 6600"
definition MID_WEIGHT_BPS :: nat where "MID_WEIGHT_BPS = 10000"
definition LATE_WEIGHT_BPS :: nat where "LATE_WEIGHT_BPS = 11000"

datatype prop_action =
    GaUpdateFee nat | GaUpdateAutoRelease nat | GaAddAsset addr | GaUpdateAdmin addr
  | GaExecuteCall addr symbol "nat list" | GaApproveRollback addr nat

datatype prop_status = PsActive | PsPassed | PsQueued | PsFailed | PsExecuted | PsCancelled

definition ps_valid_transition :: "prop_status \<Rightarrow> prop_status \<Rightarrow> bool" where
  "ps_valid_transition from_s to_s \<longleftrightarrow>
     (from_s, to_s) \<in> {(PsActive, PsPassed), (PsActive, PsFailed), (PsActive, PsCancelled),
        (PsPassed, PsQueued), (PsPassed, PsExecuted), (PsQueued, PsExecuted)}"

record gov_proposal =
  gp_id :: nat
  gp_proposer :: addr
  gp_title :: "nat list"
  gp_description_hash :: hash32
  gp_action :: prop_action
  gp_status :: prop_status
  gp_created_at :: nat
  gp_voting_ends_at :: nat
  gp_snapshot_ledger :: nat
  gp_supply :: int
  gp_votes_for :: int
  gp_votes_against :: int
  gp_op_id :: hash32

record gov_market = gov_arbs +
  gv_mk_total :: "nat option"
  gv_mk_independent :: "nat option"
  gv_mk_mentors :: "nat option"
  gv_mk_network :: "symbol \<rightharpoonup> nat"
  gv_mk_barriers :: "nat option"
  gv_mk_monitoring :: "market_monitoring option"
  gv_mk_competition :: "competition option"
  gv_mk_fairness :: "market_fairness option"
  gv_mk_protection :: "market_protection option"
  gv_mk_active :: "bool option"
  gv_mk_audit :: "competition_audit option"
  gv_emergency :: "bool option"

record gov_state = gov_market +
  gv_token :: "addr option"
  gv_snapshot :: "addr option"
  gv_delegation :: "addr option"
  gv_period :: "nat option"
  gv_quorum :: "nat option"
  gv_count :: "nat option"
  gv_deposit :: "int option"
  gv_min_balance :: "int option"
  gv_max_active :: "nat option"
  gv_fee :: "nat option"
  gv_auto_release :: "nat option"
  gv_timelock :: "addr option"
  gv_templates :: "addr option"
  gv_staking :: "addr option"
  gv_multisig :: "addr option"
  gv_treasury :: "int option"
  gv_proposal :: "nat \<rightharpoonup> gov_proposal"
  gv_active_total :: "nat option"
  gv_active_of :: "addr \<rightharpoonup> nat"
  gv_deposit_of :: "nat \<rightharpoonup> int"
  gv_vote_of :: "nat \<times> addr \<rightharpoonup> bool"
  gv_weight_of :: "nat \<times> addr \<rightharpoonup> int"
  gv_mult_of :: "nat \<times> addr \<rightharpoonup> nat"
  gv_vote_times :: "nat \<rightharpoonup> nat list"
  gv_weighted_for :: "nat \<rightharpoonup> int"
  gv_weighted_against :: "nat \<rightharpoonup> int"
  gv_asset :: "addr \<rightharpoonup> bool"
  gv_custom :: "nat \<rightharpoonup> bool"
  gv_allowed :: "addr \<times> symbol \<rightharpoonup> bool"
  gv_by_status :: "prop_status \<times> nat \<rightharpoonup> nat"
  gv_status_count :: "prop_status \<rightharpoonup> nat"
  gv_cooldown :: "addr \<times> prop_action \<rightharpoonup> nat"
  gv_cancels :: "addr \<rightharpoonup> nat"
  gv_cancel_times :: "addr \<rightharpoonup> nat list"

definition gov_empty :: gov_state where
  "gov_empty = \<lparr>gv_admin = None, gv_admin_p = None, gv_pending = None, gv_arb = Map.empty,
     gv_arb_at = Map.empty, gv_arb_count = None, gv_arb_index = Map.empty, gv_arb_list = None,
     gv_arb_history = Map.empty, gv_arb_flag = Map.empty, gv_compensation = None,
     gv_appeal = Map.empty, gv_mk_total = None, gv_mk_independent = None, gv_mk_mentors = None,
     gv_mk_network = Map.empty, gv_mk_barriers = None, gv_mk_monitoring = None,
     gv_mk_competition = None, gv_mk_fairness = None, gv_mk_protection = None, gv_mk_active = None,
     gv_mk_audit = None, gv_emergency = None, gv_token = None, gv_snapshot = None,
     gv_delegation = None, gv_period = None, gv_quorum = None, gv_count = None, gv_deposit = None,
     gv_min_balance = None, gv_max_active = None, gv_fee = None, gv_auto_release = None,
     gv_timelock = None, gv_templates = None, gv_staking = None, gv_multisig = None,
     gv_treasury = None, gv_proposal = Map.empty, gv_active_total = None, gv_active_of = Map.empty,
     gv_deposit_of = Map.empty, gv_vote_of = Map.empty, gv_weight_of = Map.empty,
     gv_mult_of = Map.empty, gv_vote_times = Map.empty, gv_weighted_for = Map.empty,
     gv_weighted_against = Map.empty, gv_asset = Map.empty, gv_custom = Map.empty,
     gv_allowed = Map.empty, gv_by_status = Map.empty, gv_status_count = Map.empty,
     gv_cooldown = Map.empty, gv_cancels = Map.empty, gv_cancel_times = Map.empty\<rparr>"

text \<open>
  The contracts governance calls: the snapshot contract, the delegation contract, the template
  registry, the staking contract (a failed query counts as no record), the timelock, the multisig
  wallet, and any contract a proposal names.
\<close>

record 'w gov_peers =
  pe_record_snapshot :: "env \<Rightarrow> addr \<Rightarrow> nat \<Rightarrow> 'w \<Rightarrow> unit fail + 'w"
  pe_total_supply_at :: "addr \<Rightarrow> nat \<Rightarrow> 'w \<Rightarrow> unit fail + int"
  pe_snapshot_balance :: "addr \<Rightarrow> nat \<Rightarrow> addr \<Rightarrow> 'w \<Rightarrow> unit fail + int"
  pe_voting_power :: "addr \<Rightarrow> nat \<Rightarrow> addr \<Rightarrow> 'w \<Rightarrow> unit fail + int"
  pe_delegated_power :: "addr \<Rightarrow> addr \<Rightarrow> nat \<Rightarrow> 'w \<Rightarrow> unit fail + int"
  pe_template_hash :: "addr \<Rightarrow> addr \<Rightarrow> symbol \<Rightarrow> 'w \<Rightarrow> unit fail + hash32 option"
  pe_staked_at :: "addr \<Rightarrow> addr \<Rightarrow> 'w \<Rightarrow> nat option"
  pe_schedule :: "env \<Rightarrow> addr \<Rightarrow> addr \<Rightarrow> addr \<Rightarrow> symbol \<Rightarrow> val list \<Rightarrow> nat \<Rightarrow> 'w \<Rightarrow> unit fail + hash32 \<times> 'w"
  pe_action :: "addr \<Rightarrow> nat \<Rightarrow> 'w \<Rightarrow> unit fail + proposal_record"
  pe_threshold :: "addr \<Rightarrow> 'w \<Rightarrow> unit fail + nat"
  pe_invoke :: "env \<Rightarrow> addr \<Rightarrow> symbol \<Rightarrow> val list \<Rightarrow> 'w \<Rightarrow> unit fail + 'w"


section \<open>Configuration\<close>

definition gv_initialize ::
    "addr \<Rightarrow> addr \<Rightarrow> addr \<Rightarrow> addr \<Rightarrow> nat option \<Rightarrow> nat option \<Rightarrow> int option \<Rightarrow> int option \<Rightarrow>
     nat option \<Rightarrow> gov_state \<Rightarrow> gov_state gov_res" where
  "gv_initialize admin mnt_token snapshot_contract delegation_contract voting_period quorum_bps
     proposal_deposit min_proposer_balance max_active s =
    ensure (gv_admin s = None) (Panic ''already initialized'') (
    let period = get_or DEFAULT_VOTING_PERIOD_SECS voting_period in
    ensure (period \<noteq> 0) (Panic ''invalid voting period'') (
    let quorum = get_or DEFAULT_QUORUM_BPS quorum_bps in
    ensure (\<not> (quorum = 0 \<or> 10000 < quorum)) (Panic ''invalid quorum bps'') (
    Inr (s\<lparr>gv_admin := Some admin, gv_admin_p := Some admin, gv_token := Some mnt_token,
           gv_snapshot := Some snapshot_contract, gv_delegation := Some delegation_contract,
           gv_period := Some period, gv_quorum := Some quorum, gv_count := Some 0,
           gv_deposit := Some (get_or 0 proposal_deposit),
           gv_min_balance := Some (get_or 0 min_proposer_balance),
           gv_max_active := Some (get_or 3 max_active)\<rparr>))))"

definition gv_set_timelock :: "env \<Rightarrow> addr \<Rightarrow> gov_state \<Rightarrow> gov_state gov_res" where
  "gv_set_timelock env timelock s =
    expect (gv_admin s) (Panic ''unwrap'') (\<lambda>admin.
    ensure (auth_by env admin) AuthDenied (Inr (s\<lparr>gv_timelock := Some timelock\<rparr>)))"

definition gv_add_allowed_call :: "env \<Rightarrow> addr \<Rightarrow> addr \<Rightarrow> symbol \<Rightarrow> gov_state \<Rightarrow> gov_state gov_res" where
  "gv_add_allowed_call env admin target fn s =
    gv_assert_admin env admin s (Inr (s\<lparr>gv_allowed := (gv_allowed s)((target, fn) \<mapsto> True)\<rparr>))"

definition gv_is_call_allowed :: "addr \<Rightarrow> symbol \<Rightarrow> gov_state \<Rightarrow> bool" where
  "gv_is_call_allowed target fn s = get_or False (gv_allowed s (target, fn))"

definition gv_set_templates_contract :: "env \<Rightarrow> addr \<Rightarrow> gov_state \<Rightarrow> gov_state gov_res" where
  "gv_set_templates_contract env templates s =
    expect (gv_admin_p s) (Panic ''unwrap'') (\<lambda>admin.
    ensure (auth_by env admin) AuthDenied (Inr (s\<lparr>gv_templates := Some templates\<rparr>)))"

definition gv_set_staking_contract :: "env \<Rightarrow> addr \<Rightarrow> addr \<Rightarrow> gov_state \<Rightarrow> gov_state gov_res" where
  "gv_set_staking_contract env admin staking s =
    gv_assert_admin env admin s (Inr (s\<lparr>gv_staking := Some staking\<rparr>))"

definition gv_get_staking_contract :: "gov_state \<Rightarrow> addr option" where
  "gv_get_staking_contract s = gv_staking s"

definition gv_set_multisig_admin :: "env \<Rightarrow> addr \<Rightarrow> addr \<Rightarrow> gov_state \<Rightarrow> gov_state gov_res" where
  "gv_set_multisig_admin env admin multisig s =
    gv_assert_admin env admin s (Inr (s\<lparr>gv_multisig := Some multisig\<rparr>))"


section \<open>Creation\<close>

definition gv_get_proposal :: "nat \<Rightarrow> gov_state \<Rightarrow> gov_proposal gov_res" where
  "gv_get_proposal i s = expect (gv_proposal s i) (Panic ''proposal not found'') Inr"

definition gv_holding_ok :: "'w gov_peers \<Rightarrow> env \<Rightarrow> addr \<Rightarrow> gov_state \<Rightarrow> 'w \<Rightarrow> bool" where
  "gv_holding_ok P env proposer s w \<longleftrightarrow>
    (case gv_staking s of None \<Rightarrow> True
     | Some staking \<Rightarrow>
         let now = ledger_ts env;
             staked_at = get_or now (pe_staked_at P staking proposer w) in
         validate_minimum_holding_period staked_at now)"

text \<open>A call proposal without a registered template is marked as custom.\<close>

definition gv_note_custom ::
    "'w gov_peers \<Rightarrow> nat \<Rightarrow> prop_action \<Rightarrow> gov_state \<Rightarrow> 'w \<Rightarrow> gov_state gov_res" where
  "gv_note_custom P count action s w =
    (case action of
       GaExecuteCall target fn _ \<Rightarrow>
         (case gv_templates s of None \<Rightarrow> Inr s
          | Some templates \<Rightarrow>
              rbind (call_ext (pe_template_hash P templates target fn w)) (\<lambda>opt_hash.
              Inr (if opt_hash = None then s\<lparr>gv_custom := (gv_custom s)(count \<mapsto> True)\<rparr> else s)))
     | _ \<Rightarrow> Inr s)"

text \<open>The deposit recorded for a new proposal; no tokens are moved.\<close>

definition gv_note_deposit :: "nat \<Rightarrow> gov_state \<Rightarrow> gov_state" where
  "gv_note_deposit i s =
    (let deposit = get_or 0 (gv_deposit s) in
     if 0 < deposit then s\<lparr>gv_deposit_of := (gv_deposit_of s)(i \<mapsto> deposit)\<rparr> else s)"

definition gv_create_proposal ::
    "'w gov_peers \<Rightarrow> env \<Rightarrow> addr \<Rightarrow> nat list \<Rightarrow> hash32 \<Rightarrow> prop_action \<Rightarrow> gov_state \<times> 'w \<Rightarrow>
     (nat \<times> gov_state \<times> 'w) gov_res" where
  "gv_create_proposal P env proposer title description_hash action sw =
    (let (s, w) = sw in
    ensure (auth_by env proposer) AuthDenied (
    ensure (gv_admin s \<noteq> None) (Panic ''not initialized'') (
    ensure (case action of GaExecuteCall target fn _ \<Rightarrow> gv_is_call_allowed target fn s | _ \<Rightarrow> True)
      (Panic ''call not allowlisted'') (
    ensure (gv_holding_ok P env proposer s w) (Err GvHoldingPeriodNotMet) (
    let max_active = get_or 3 (gv_max_active s);
        total_active = get_or 0 (gv_active_total s) in
    ensure (\<not> max_active \<le> total_active) (Err GvTooManyActiveProposals) (
    let current_active = get_or 0 (gv_active_of s proposer) in
    ensure (\<not> max_active \<le> current_active) (Err GvTooManyActiveProposals) (
    expect (checked_u32 (get_or 0 (gv_count s) + 1)) (Panic ''proposal overflow'') (\<lambda>count.
    rbind (gv_note_custom P count action s w) (\<lambda>s1.
    let now = ledger_ts env;
        period = get_or DEFAULT_VOTING_PERIOD_SECS (gv_period s1) in
    expect (gv_snapshot s1) (Panic ''snapshot not set'') (\<lambda>snapshot.
    rbind (call_ext (pe_record_snapshot P (as_invoker env) snapshot count w)) (\<lambda>w1.
    rbind (call_ext (pe_total_supply_at P snapshot count w1)) (\<lambda>supply.
    expect (checked_u64 (now + period)) (Panic ''voting end overflow'') (\<lambda>ends_at.
    let proposal = \<lparr>gp_id = count, gp_proposer = proposer, gp_title = title,
          gp_description_hash = description_hash, gp_action = action, gp_status = PsActive,
          gp_created_at = now, gp_voting_ends_at = ends_at, gp_snapshot_ledger = ledger_seq env,
          gp_supply = supply, gp_votes_for = 0, gp_votes_against = 0, gp_op_id = 0\<rparr>;
        min_bal = get_or 0 (gv_min_balance s1) in
    rbind (if 0 < min_bal
           then rbind (call_ext (pe_snapshot_balance P snapshot count proposer w1)) (\<lambda>balance.
                ensure (\<not> balance < min_bal) (Panic ''insufficient proposer balance at snapshot'') (Inr ()))
           else Inr ()) (\<lambda>_.
    rbind (arith_u32 (current_active + 1)) (\<lambda>current_active'.
    rbind (arith_u32 (total_active + 1)) (\<lambda>total_active'.
    let s2 = s1\<lparr>gv_count := Some count, gv_proposal := (gv_proposal s1)(count \<mapsto> proposal),
                gv_active_of := (gv_active_of s1)(proposer \<mapsto> current_active'),
                gv_active_total := Some total_active'\<rparr> in
    Inr (count, gv_note_deposit count s2, w1)
    ))))))))))))))))"


section \<open>Votes\<close>

definition gv_window :: "nat \<Rightarrow> gov_proposal \<Rightarrow> nat \<times> nat" where
  "gv_window now proposal =
    (let elapsed = now - gp_created_at proposal;
         duration = gp_voting_ends_at proposal - gp_created_at proposal in
     if duration = 0 then (1, MID_WEIGHT_BPS)
     else
       let pct_bps = get_or 0 (checked_u64 (elapsed * 10000)) div duration in
       if pct_bps \<le> EARLY_WINDOW_END_BPS then (0, EARLY_WEIGHT_BPS)
       else if pct_bps \<le> MID_WINDOW_END_BPS then (1, MID_WEIGHT_BPS)
       else (2, LATE_WEIGHT_BPS))"

definition gv_get_voting_window :: "env \<Rightarrow> nat \<Rightarrow> gov_state \<Rightarrow> (nat \<times> nat) gov_res" where
  "gv_get_voting_window env i s =
    rbind (gv_get_proposal i s) (\<lambda>proposal. Inr (gv_window (ledger_ts env) proposal))"

definition gv_vote ::
    "'w gov_peers \<Rightarrow> env \<Rightarrow> addr \<Rightarrow> nat \<Rightarrow> bool \<Rightarrow> gov_state \<times> 'w \<Rightarrow> gov_state gov_res" where
  "gv_vote P env voter proposal_id support sw =
    (let (s, w) = sw in
    ensure (auth_by env voter) AuthDenied (
    rbind (gv_get_proposal proposal_id s) (\<lambda>proposal.
    ensure (gp_status proposal = PsActive) (Panic ''proposal not active'') (
    ensure (\<not> gp_voting_ends_at proposal \<le> ledger_ts env) (Panic ''voting period ended'') (
    ensure (gv_vote_of s (proposal_id, voter) = None) (Panic ''already voted'') (
    expect (gv_snapshot s) (Panic ''snapshot not set'') (\<lambda>snapshot.
    expect (gv_delegation s) (Panic ''delegation contract not set'') (\<lambda>delegation.
    rbind (call_ext (pe_voting_power P snapshot proposal_id voter w)) (\<lambda>snapshot_weight.
    rbind (call_ext (pe_delegated_power P delegation voter (gp_snapshot_ledger proposal) w)) (\<lambda>delegated_power.
    expect (checked_i128 (snapshot_weight + delegated_power)) (Panic ''weight overflow'') (\<lambda>weight.
    ensure (\<not> weight \<le> 0) (Panic ''no voting power'') (
    rbind (gv_get_voting_window env proposal_id s) (\<lambda>(_, weight_bps).
    expect (checked_i128 (weight * int weight_bps)) (Panic ''weighted overflow'') (\<lambda>x.
    expect (checked_div_i128 x 10000) (Panic ''weighted div error'') (\<lambda>weighted.
    rbind (if support
           then expect (checked_i128 (gp_votes_for proposal + weight)) (Panic ''votes for overflow'')
                  (\<lambda>n. Inr (proposal\<lparr>gp_votes_for := n\<rparr>))
           else expect (checked_i128 (gp_votes_against proposal + weight)) (Panic ''votes against overflow'')
                  (\<lambda>n. Inr (proposal\<lparr>gp_votes_against := n\<rparr>))) (\<lambda>proposal'.
    let history = get_or [] (gv_vote_times s proposal_id);
        history = (if COORDINATED_VOTE_HISTORY \<le> length history then tl history else history);
        k = (proposal_id, voter);
        s1 = s\<lparr>gv_vote_times := (gv_vote_times s)(proposal_id \<mapsto> history @ [ledger_ts env]),
               gv_vote_of := (gv_vote_of s)(k \<mapsto> support), gv_weight_of := (gv_weight_of s)(k \<mapsto> weight),
               gv_mult_of := (gv_mult_of s)(k \<mapsto> weight_bps)\<rparr> in
    rbind (if support
           then expect (checked_i128 (get_or 0 (gv_weighted_for s1 proposal_id) + weighted))
                  (Panic ''weighted for overflow'')
                  (\<lambda>n. Inr (s1\<lparr>gv_weighted_for := (gv_weighted_for s1)(proposal_id \<mapsto> n)\<rparr>))
           else expect (checked_i128 (get_or 0 (gv_weighted_against s1 proposal_id) + weighted))
                  (Panic ''weighted against overflow'')
                  (\<lambda>n. Inr (s1\<lparr>gv_weighted_against := (gv_weighted_against s1)(proposal_id \<mapsto> n)\<rparr>))) (\<lambda>s2.
    Inr (s2\<lparr>gv_proposal := (gv_proposal s2)(proposal_id \<mapsto> proposal')\<rparr>))))))))))))))))))"


section \<open>Execution\<close>

definition gv_transition :: "prop_status \<Rightarrow> gov_proposal \<Rightarrow> gov_state \<Rightarrow> (gov_proposal \<times> gov_state) gov_res" where
  "gv_transition to_s proposal s =
    ensure (ps_valid_transition (gp_status proposal) to_s) (Panic ''invalid transition'') (
    let new_count = get_or 0 (gv_status_count s to_s) in
    rbind (arith_u32 (new_count + 1)) (\<lambda>n.
    Inr (proposal\<lparr>gp_status := to_s\<rparr>,
         s\<lparr>gv_by_status := (gv_by_status s)((to_s, new_count) \<mapsto> gp_id proposal),
           gv_status_count := (gv_status_count s)(to_s \<mapsto> n)\<rparr>)))"

definition gv_decrement :: "addr \<Rightarrow> gov_state \<Rightarrow> gov_state" where
  "gv_decrement proposer s =
    (let total_active = get_or 0 (gv_active_total s);
         s1 = (if 0 < total_active then s\<lparr>gv_active_total := Some (total_active - 1)\<rparr> else s);
         proposer_active = get_or 0 (gv_active_of s1 proposer) in
     if 0 < proposer_active
     then s1\<lparr>gv_active_of := (gv_active_of s1)(proposer \<mapsto> proposer_active - 1)\<rparr> else s1)"

text \<open>A closed proposal: stored, no longer counted as active, its deposit record removed.\<close>

definition gv_close :: "nat \<Rightarrow> gov_proposal \<Rightarrow> gov_state \<Rightarrow> gov_state" where
  "gv_close i proposal s =
    (let s1 = gv_decrement (gp_proposer proposal) (s\<lparr>gv_proposal := (gv_proposal s)(i \<mapsto> proposal)\<rparr>)
     in s1\<lparr>gv_deposit_of := (gv_deposit_of s1)(i := None)\<rparr>)"

definition gv_apply_action ::
    "'w gov_peers \<Rightarrow> env \<Rightarrow> prop_action \<Rightarrow> nat \<Rightarrow> gov_state \<times> 'w \<Rightarrow> (gov_state \<times> 'w) gov_res" where
  "gv_apply_action P env action proposal_id sw =
    (let (s, w) = sw in
    case action of
      GaUpdateFee n \<Rightarrow> Inr (s\<lparr>gv_fee := Some n\<rparr>, w)
    | GaUpdateAutoRelease n \<Rightarrow> Inr (s\<lparr>gv_auto_release := Some n\<rparr>, w)
    | GaAddAsset a \<Rightarrow> Inr (s\<lparr>gv_asset := (gv_asset s)(a \<mapsto> True)\<rparr>, w)
    | GaUpdateAdmin a \<Rightarrow> Inr (s\<lparr>gv_admin := Some a\<rparr>, w)
    | GaExecuteCall target fn _ \<Rightarrow>
        rbind (call_ext (pe_invoke P (as_invoker env) target fn [] w)) (\<lambda>w1. Inr (s, w1))
    | GaApproveRollback escrow rollback_id \<Rightarrow>
        rbind (call_ext (pe_invoke P (as_invoker env) escrow ''mark_gov_rollback_approved''
          [VAddr (self_addr env), VU32 rollback_id, VU32 proposal_id] w)) (\<lambda>w1. Inr (s, w1)))"

definition gv_quorum_bps :: "nat \<Rightarrow> gov_proposal \<Rightarrow> gov_state \<Rightarrow> nat" where
  "gv_quorum_bps i proposal s =
    (case gp_action proposal of
       GaApproveRollback _ _ \<Rightarrow> GOV_ROLLBACK_QUORUM_BPS
     | _ \<Rightarrow> if get_or False (gv_custom s i) then CUSTOM_PROPOSAL_QUORUM_BPS
            else get_or DEFAULT_QUORUM_BPS (gv_quorum s))"

text \<open>Whether a proposal passes: the quorum on the weighted votes, and their majority.\<close>

definition gv_passes :: "nat \<Rightarrow> gov_proposal \<Rightarrow> gov_state \<Rightarrow> bool gov_res" where
  "gv_passes i proposal s =
    (let quorum_bps = gv_quorum_bps i proposal s;
         weighted_for = get_or (gp_votes_for proposal) (gv_weighted_for s i);
         weighted_against = get_or (gp_votes_against proposal) (gv_weighted_against s i) in
     expect (checked_i128 (weighted_for + weighted_against)) (Panic ''weighted vote overflow'') (\<lambda>total_votes.
     rbind (if gp_supply proposal \<le> 0 then Inr False
            else expect (checked_i128 (total_votes * 10000)) (Panic ''quorum overflow'') (\<lambda>x.
                 expect (checked_i128 (gp_supply proposal * int quorum_bps)) (Panic ''quorum threshold overflow'')
                   (\<lambda>y. Inr (y \<le> x)))) (\<lambda>quorum_met.
     Inr (quorum_met \<and> weighted_against < weighted_for))))"

definition gv_execute_proposal ::
    "'w gov_peers \<Rightarrow> env \<Rightarrow> nat \<Rightarrow> gov_state \<times> 'w \<Rightarrow> (gov_state \<times> 'w) gov_res" where
  "gv_execute_proposal P env proposal_id sw =
    (let (s, w) = sw in
    rbind (gv_get_proposal proposal_id s) (\<lambda>proposal.
    ensure (gp_status proposal \<notin> {PsExecuted, PsQueued}) (Panic ''proposal already executed or queued'') (
    ensure (\<not> ledger_ts env < gp_voting_ends_at proposal) (Panic ''voting period not ended'') (
    ensure (gp_status proposal \<notin> {PsCancelled, PsFailed}) (Panic ''proposal not executable'') (
    rbind (gv_passes proposal_id proposal s) (\<lambda>passed.
    if \<not> passed then
      rbind (gv_transition PsFailed proposal s) (\<lambda>(proposal1, s1).
      Inr (gv_close proposal_id proposal1 s1, w))
    else
      rbind (gv_transition PsPassed proposal s) (\<lambda>(proposal1, s1).
      case gp_action proposal1 of
        GaExecuteCall _ _ _ \<Rightarrow>
          expect (checked_u64 (gp_voting_ends_at proposal1 + EXECUTE_CALL_TIMELOCK_SECS))
            (Panic ''timelock overflow'') (\<lambda>earliest.
          ensure (\<not> ledger_ts env < earliest) (Panic ''ExecuteCall timelock not elapsed'') (
          expect (gv_timelock s1) (Panic ''timelock not set'') (\<lambda>timelock.
          rbind (call_ext (pe_schedule P (as_invoker env) timelock (self_addr env) (self_addr env)
            ''execute_queued_proposal'' [VU32 proposal_id] (48 * 60 * 60) w)) (\<lambda>(op_id, w1).
          rbind (gv_transition PsQueued (proposal1\<lparr>gp_op_id := op_id\<rparr>) s1) (\<lambda>(proposal2, s2).
          Inr (s2\<lparr>gv_proposal := (gv_proposal s2)(proposal_id \<mapsto> proposal2)\<rparr>, w1))))))
      | _ \<Rightarrow>
          rbind (gv_apply_action P env (gp_action proposal1) proposal_id (s1, w)) (\<lambda>(s2, w1).
          rbind (gv_transition PsExecuted proposal1 s2) (\<lambda>(proposal2, s3).
          Inr (gv_close proposal_id proposal2 s3, w1))))))))))"

definition gv_execute_queued_proposal ::
    "'w gov_peers \<Rightarrow> env \<Rightarrow> nat \<Rightarrow> gov_state \<times> 'w \<Rightarrow> (gov_state \<times> 'w) gov_res" where
  "gv_execute_queued_proposal P env proposal_id sw =
    (let (s, w) = sw in
    expect (gv_timelock s) (Panic ''timelock not set'') (\<lambda>timelock.
    ensure (auth_by env timelock) AuthDenied (
    rbind (gv_get_proposal proposal_id s) (\<lambda>proposal.
    ensure (gp_status proposal = PsQueued) (Panic ''proposal not queued'') (
    rbind (gv_apply_action P env (gp_action proposal) proposal_id (s, w)) (\<lambda>(s1, w1).
    rbind (gv_transition PsExecuted proposal s1) (\<lambda>(proposal1, s2).
    Inr (gv_close proposal_id proposal1 s2, w1))))))))"

definition gv_propose_rollback_review ::
    "'w gov_peers \<Rightarrow> env \<Rightarrow> addr \<Rightarrow> nat list \<Rightarrow> hash32 \<Rightarrow> addr \<Rightarrow> nat \<Rightarrow> gov_state \<times> 'w \<Rightarrow>
     (nat \<times> gov_state \<times> 'w) gov_res" where
  "gv_propose_rollback_review P env proposer title description_hash escrow rollback_id sw =
    ensure (auth_by env proposer) AuthDenied (
    rbind (gv_create_proposal P env proposer title description_hash (GaApproveRollback escrow rollback_id) sw)
      (\<lambda>(proposal_id, s, w).
    let s1 = s\<lparr>gv_custom := (gv_custom s)(proposal_id \<mapsto> True)\<rparr> in
    rbind (call_ext (pe_invoke P (as_invoker env) escrow ''link_governance_rollback_review''
      [VAddr (self_addr env), VU32 rollback_id, VU32 proposal_id] w)) (\<lambda>w1.
    Inr (proposal_id, s1, w1))))"


section \<open>Cancellation\<close>

definition gv_recent_cancels :: "addr \<Rightarrow> nat \<Rightarrow> gov_state \<Rightarrow> nat list" where
  "gv_recent_cancels admin now s =
    filter (\<lambda>ts. now - CANCEL_ESCALATION_WINDOW_SECS < ts) (get_or [] (gv_cancel_times s admin))"

definition gv_count_recent_cancels :: "addr \<Rightarrow> nat \<Rightarrow> gov_state \<Rightarrow> nat" where
  "gv_count_recent_cancels admin now s = length (gv_recent_cancels admin now s)"

definition gv_record_cancel :: "addr \<Rightarrow> nat \<Rightarrow> gov_state \<Rightarrow> gov_state" where
  "gv_record_cancel admin now s =
    s\<lparr>gv_cancel_times := (gv_cancel_times s)(admin \<mapsto> gv_recent_cancels admin now s @ [now])\<rparr>"

text \<open>The approval of the multisig wallet that an admin with three recent cancellations needs.\<close>

definition gv_escalation ::
    "'w gov_peers \<Rightarrow> env \<Rightarrow> nat option \<Rightarrow> gov_state \<Rightarrow> 'w \<Rightarrow> 'w gov_res" where
  "gv_escalation P env multisig_action_id s w =
    expect (gv_multisig s) (Panic ''multisig admin contract not set for escalation'') (\<lambda>multisig.
    expect multisig_action_id (Panic ''multisig action id required after 3 cancels in 30 days'') (\<lambda>action_id.
    rbind (call_ext (pe_action P multisig action_id w)) (\<lambda>record.
    ensure (\<not> pr_executed record) (Panic ''multisig action already executed'') (
    ensure (\<not> pr_cancelled record) (Panic ''multisig action cancelled'') (
    ensure (\<not> pr_expiry record < ledger_ts env) (Panic ''multisig action expired'') (
    rbind (call_ext (pe_threshold P multisig w)) (\<lambda>threshold.
    ensure (\<not> pr_approvals record < threshold) (Panic ''multisig action below threshold'') (
    call_ext (pe_invoke P (as_invoker env) multisig ''execute_action'' [VU32 action_id] w)))))))))"

text \<open>The deposit of a cancelled proposal is booked to the treasury.\<close>

definition gv_slash_deposit :: "nat \<Rightarrow> gov_state \<Rightarrow> gov_state gov_res" where
  "gv_slash_deposit i s =
    (let deposit = get_or 0 (gv_deposit_of s i) in
     if 0 < deposit
     then expect (checked_i128 (get_or 0 (gv_treasury s) + deposit)) (Panic ''treasury overflow'') (\<lambda>tbal.
          Inr (s\<lparr>gv_treasury := Some tbal, gv_deposit_of := (gv_deposit_of s)(i := None)\<rparr>))
     else Inr s)"

definition gv_cancel_proposal ::
    "'w gov_peers \<Rightarrow> env \<Rightarrow> nat \<Rightarrow> nat option \<Rightarrow> gov_state \<times> 'w \<Rightarrow> (gov_state \<times> 'w) gov_res" where
  "gv_cancel_proposal P env proposal_id multisig_action_id sw =
    (let (s, w) = sw in
    expect (gv_admin s) (Panic ''not initialized'') (\<lambda>admin.
    ensure (auth_by env admin) AuthDenied (
    let now = ledger_ts env in
    rbind (gv_get_proposal proposal_id s) (\<lambda>proposal.
    ensure (gp_status proposal \<noteq> PsExecuted) (Panic ''cannot cancel executed proposal'') (
    ensure (gp_status proposal \<noteq> PsFailed) (Panic ''cannot cancel failed proposal'') (
    ensure (gp_status proposal \<noteq> PsCancelled) (Panic ''proposal already cancelled'') (
    let key = (admin, gp_action proposal) in
    rbind (case gv_cooldown s key of None \<Rightarrow> Inr ()
           | Some last_cancel \<Rightarrow>
               expect (checked_u64 (last_cancel + CANCEL_COOLDOWN_SECS)) (Panic ''cooldown overflow'') (\<lambda>allowed_at.
               ensure (\<not> now < allowed_at) (Panic ''cancel cooldown active'') (Inr ()))) (\<lambda>_.
    rbind (if CANCEL_ESCALATION_THRESHOLD \<le> gv_count_recent_cancels admin now s
           then gv_escalation P env multisig_action_id s w else Inr w) (\<lambda>w1.
    let s1 = s\<lparr>gv_proposal := (gv_proposal s)(proposal_id \<mapsto> proposal\<lparr>gp_status := PsCancelled\<rparr>)\<rparr> in
    rbind (gv_slash_deposit proposal_id s1) (\<lambda>s2.
    let s3 = gv_decrement (gp_proposer proposal) s2;
        s4 = s3\<lparr>gv_cooldown := (gv_cooldown s3)(key \<mapsto> now)\<rparr> in
    expect (checked_u32 (get_or 0 (gv_cancels s4 admin) + 1)) (Panic ''cancel count overflow'') (\<lambda>lifetime.
    let s5 = s4\<lparr>gv_cancels := (gv_cancels s4)(admin \<mapsto> lifetime)\<rparr> in
    expect (checked_u64 (now + CANCEL_COOLDOWN_SECS)) (Panic ''cooldown expires overflow'') (\<lambda>_.
    Inr (gv_record_cancel admin now s5, w1)))))))))))))"


section \<open>Views\<close>

definition gv_get_active_proposal_count :: "gov_state \<Rightarrow> nat" where
  "gv_get_active_proposal_count s = get_or 0 (gv_active_total s)"

definition gv_get_vote :: "nat \<Rightarrow> addr \<Rightarrow> gov_state \<Rightarrow> bool" where
  "gv_get_vote i voter s = get_or False (gv_vote_of s (i, voter))"

definition gv_get_vote_weight :: "nat \<Rightarrow> addr \<Rightarrow> gov_state \<Rightarrow> int" where
  "gv_get_vote_weight i voter s = get_or 0 (gv_weight_of s (i, voter))"

definition gv_get_proposals_by_status :: "prop_status \<Rightarrow> nat \<Rightarrow> nat \<Rightarrow> gov_state \<Rightarrow> nat list" where
  "gv_get_proposals_by_status status offset limit s =
    (let (start, end) = page_bounds (get_or 0 (gv_status_count s status)) offset limit in
     List.map_filter (\<lambda>idx. gv_by_status s (status, idx)) [start..<end])"


section \<open>Market control\<close>

definition gv_regulate_market ::
    "env \<Rightarrow> addr \<Rightarrow> symbol list \<Rightarrow> nat list \<Rightarrow> nat \<Rightarrow> nat \<Rightarrow> nat \<Rightarrow> 'a gov_market_scheme \<Rightarrow>
     (market_monitoring \<times> 'a gov_market_scheme) gov_res" where
  "gv_regulate_market env admin network_ids counts total_sessions independent mentors s =
    gv_assert_admin env admin s (
    let monitoring = detect_network_concentration counts total_sessions;
        competition = assess_competition_barriers independent mentors (get_or 0 (gv_mk_barriers s));
        fairness = get_or fair_market (gv_mk_fairness s);
        protection = compute_market_protection env monitoring competition fairness 7200;
        audit = audit_market_competition monitoring competition fairness
                  (analyze_market_networks monitoring competition fairness) in
    Inr (monitoring, s\<lparr>gv_mk_total := Some total_sessions, gv_mk_independent := Some independent,
      gv_mk_mentors := Some mentors,
      gv_mk_network := fold (\<lambda>(k, v) m. m(k \<mapsto> v)) (zip network_ids counts) (gv_mk_network s),
      gv_mk_monitoring := Some monitoring, gv_mk_competition := Some competition,
      gv_mk_protection := Some protection, gv_mk_audit := Some audit,
      gv_mk_active := (if mp_intervene protection then Some True else gv_mk_active s)\<rparr>))"

definition gv_enforce_competition ::
    "env \<Rightarrow> addr \<Rightarrow> nat \<Rightarrow> nat list \<Rightarrow> nat list \<Rightarrow> 'a gov_market_scheme \<Rightarrow>
     (competition_audit \<times> 'a gov_market_scheme) gov_res" where
  "gv_enforce_competition env admin signals price_timestamps price_changes s =
    gv_assert_admin env admin s (
    let competition = assess_competition_barriers (get_or 0 (gv_mk_independent s)) (get_or 0 (gv_mk_mentors s)) signals;
        fairness = detect_pricing_coordination price_timestamps price_changes;
        monitoring = get_or healthy_market (gv_mk_monitoring s);
        protection = compute_market_protection env monitoring competition fairness 7200;
        audit = audit_market_competition monitoring competition fairness
                  (analyze_market_networks monitoring competition fairness) in
    Inr (audit, s\<lparr>gv_mk_barriers := Some signals, gv_mk_competition := Some competition,
      gv_mk_fairness := Some fairness, gv_mk_protection := Some protection,
      gv_mk_active := (if mp_intervene protection then Some True else gv_mk_active s),
      gv_mk_audit := Some audit\<rparr>))"

definition gv_restore_market :: "env \<Rightarrow> addr \<Rightarrow> 'a gov_market_scheme \<Rightarrow> 'a gov_market_scheme gov_res" where
  "gv_restore_market env admin s =
    gv_assert_admin env admin s (
    expect (gv_mk_protection s) (Panic ''NoGovMarketProtectionRecord'') (\<lambda>r.
    ensure (is_market_restoration_eligible r (ledger_ts env)) (Panic ''GovMarketRestorationNotEligible'') (
    Inr (s\<lparr>gv_mk_protection := None, gv_mk_active := None\<rparr>))))"

definition gv_get_market_protection :: "'a gov_market_scheme \<Rightarrow> market_protection" where
  "gv_get_market_protection s =
    get_or \<lparr>mp_intervene = False, mp_risk = 0, mp_reason = ''none'', mp_eligible_at = 0\<rparr> (gv_mk_protection s)"

definition gv_get_competition_audit :: "'a gov_market_scheme \<Rightarrow> competition_audit" where
  "gv_get_competition_audit s =
    get_or \<lparr>ca_compliant = True, ca_violations = 0, ca_fairness = 100, ca_control = False\<rparr> (gv_mk_audit s)"

definition gv_get_decentralization :: "'a gov_market_scheme \<Rightarrow> market_monitoring" where
  "gv_get_decentralization s = get_or healthy_market (gv_mk_monitoring s)"

definition gv_get_market_fairness :: "'a gov_market_scheme \<Rightarrow> market_fairness" where
  "gv_get_market_fairness s = get_or fair_market (gv_mk_fairness s)"

definition gv_activate_emergency :: "env \<Rightarrow> addr \<Rightarrow> 'a gov_market_scheme \<Rightarrow> 'a gov_market_scheme gov_res" where
  "gv_activate_emergency env admin s = gv_assert_admin env admin s (Inr (s\<lparr>gv_emergency := Some True\<rparr>))"

definition gv_deactivate_emergency :: "env \<Rightarrow> addr \<Rightarrow> 'a gov_market_scheme \<Rightarrow> 'a gov_market_scheme gov_res" where
  "gv_deactivate_emergency env admin s = gv_assert_admin env admin s (Inr (s\<lparr>gv_emergency := None\<rparr>))"

definition gv_is_emergency_active :: "'a gov_market_scheme \<Rightarrow> bool" where
  "gv_is_emergency_active s = get_or False (gv_emergency s)"

end
