(* ===== verification/GovernanceRules.thy ===== *)
theory GovernanceRules
  imports Governance
begin

text \<open>
  What a call of the governance contract changes: the calls as a datatype, the step relation over time,
  the changes of the voting state a call can make (\<open>gv_change\<close>), and the invariants: the recorded
  ballots and their totals, the counts of open proposals, and the outcome of every proposal.
\<close>

section \<open>Calls\<close>

datatype gv_call =
    GInit addr addr addr addr "nat option" "nat option" "int option" "int option" "nat option"
  | GProposeAdmin addr addr | GAcceptAdmin addr | GCancelAdmin addr
  | GTimelock addr | GAllow addr addr symbol | GTemplates addr | GStaking addr addr | GMultisig addr addr
  | GCreate addr "nat list" hash32 prop_action | GVote addr nat bool | GExecute nat | GExecuteQueued nat
  | GReview addr "nat list" hash32 addr nat | GCancel nat "nat option"
  | GRegister addr addr | GUnregister addr addr | GMigrate addr | GCompensation addr int
  | GAppeal addr nat symbol | GResolve addr nat
  | GRegulate addr "symbol list" "nat list" nat nat nat | GEnforce addr nat "nat list" "nat list"
  | GRestore addr | GEmergencyOn addr | GEmergencyOff addr

definition gv_world :: "'w \<Rightarrow> gov_state gov_res \<Rightarrow> (gov_state \<times> 'w) gov_res" where
  "gv_world w r = rbind r (\<lambda>s. Inr (s, w))"

lemma gv_world_Inr [res_simps]: "gv_world w r = Inr (s, w') \<longleftrightarrow> r = Inr s \<and> w' = w"
  by (auto simp: gv_world_def res_simps)

fun gv_exec :: "'w gov_peers \<Rightarrow> env \<Rightarrow> gv_call \<Rightarrow> gov_state \<times> 'w \<Rightarrow> (gov_state \<times> 'w) gov_res" where
  "gv_exec P env (GInit a tk sn de p q d m x) (s, w) = gv_world w (gv_initialize a tk sn de p q d m x s)"
| "gv_exec P env (GProposeAdmin a b) (s, w) = gv_world w (gv_propose_admin_change env a b s)"
| "gv_exec P env (GAcceptAdmin a) (s, w) = gv_world w (gv_accept_admin_change env a s)"
| "gv_exec P env (GCancelAdmin a) (s, w) = gv_world w (gv_cancel_admin_change env a s)"
| "gv_exec P env (GTimelock a) (s, w) = gv_world w (gv_set_timelock env a s)"
| "gv_exec P env (GAllow a t f) (s, w) = gv_world w (gv_add_allowed_call env a t f s)"
| "gv_exec P env (GTemplates a) (s, w) = gv_world w (gv_set_templates_contract env a s)"
| "gv_exec P env (GStaking a b) (s, w) = gv_world w (gv_set_staking_contract env a b s)"
| "gv_exec P env (GMultisig a b) (s, w) = gv_world w (gv_set_multisig_admin env a b s)"
| "gv_exec P env (GCreate a ti h ac) (s, w) = rbind (gv_create_proposal P env a ti h ac (s, w)) (\<lambda>(_, sw). Inr sw)"
| "gv_exec P env (GVote a i b) (s, w) = gv_world w (gv_vote P env a i b (s, w))"
| "gv_exec P env (GExecute i) (s, w) = gv_execute_proposal P env i (s, w)"
| "gv_exec P env (GExecuteQueued i) (s, w) = gv_execute_queued_proposal P env i (s, w)"
| "gv_exec P env (GReview a ti h e r) (s, w) =
     rbind (gv_propose_rollback_review P env a ti h e r (s, w)) (\<lambda>(_, sw). Inr sw)"
| "gv_exec P env (GCancel i m) (s, w) = gv_cancel_proposal P env i m (s, w)"
| "gv_exec P env (GRegister a b) (s, w) = gv_world w (gv_register_arbitrator env a b s)"
| "gv_exec P env (GUnregister a b) (s, w) = gv_world w (gv_unregister_arbitrator env a b s)"
| "gv_exec P env (GMigrate a) (s, w) = gv_world w (gv_migrate_arbitrators env a s)"
| "gv_exec P env (GCompensation a n) (s, w) = gv_world w (gv_set_arbitration_compensation env a n s)"
| "gv_exec P env (GAppeal a i r) (s, w) = gv_world w (gv_submit_appeal env a i r s)"
| "gv_exec P env (GResolve a i) (s, w) = gv_world w (gv_resolve_appeal env a i s)"
| "gv_exec P env (GRegulate a ns cs n i m) (s, w) =
     gv_world w (rbind (gv_regulate_market env a ns cs n i m s) (\<lambda>(_, s). Inr s))"
| "gv_exec P env (GEnforce a n ts cs) (s, w) =
     gv_world w (rbind (gv_enforce_competition env a n ts cs s) (\<lambda>(_, s). Inr s))"
| "gv_exec P env (GRestore a) (s, w) = gv_world w (gv_restore_market env a s)"
| "gv_exec P env (GEmergencyOn a) (s, w) = gv_world w (gv_activate_emergency env a s)"
| "gv_exec P env (GEmergencyOff a) (s, w) = gv_world w (gv_deactivate_emergency env a s)"

text \<open>The states reachable up to a time, whatever the other contracts do.\<close>

inductive gv_reach :: "nat \<Rightarrow> gov_state \<Rightarrow> 'w \<Rightarrow> bool" where
  gv_begin: "gv_reach 0 gov_empty w"
| gv_step: "gv_reach t s w \<Longrightarrow> t \<le> ledger_ts env \<Longrightarrow> gv_exec P env c (s, w) = Inr (s', w') \<Longrightarrow>
     gv_reach (ledger_ts env) s' w'"
| gv_other: "gv_reach t s w \<Longrightarrow> gv_reach t s w'"


section \<open>What a call changes\<close>

definition gv_core where
  "gv_core s = (gv_proposal s, gv_vote_of s, gv_weight_of s, gv_mult_of s, gv_weighted_for s,
     gv_weighted_against s, gv_custom s, gv_quorum s, gv_count s, gv_active_total s, gv_active_of s, gv_max_active s)"

definition gv_same :: "gov_state \<Rightarrow> gov_state \<Rightarrow> bool" where
  "gv_same s s' \<longleftrightarrow> gv_core s' = gv_core s \<and> (gv_admin s \<noteq> None \<longrightarrow> gv_admin s' \<noteq> None)"

lemma gv_sameD:
  assumes "gv_same s s'"
  shows "gv_proposal s' = gv_proposal s" "gv_vote_of s' = gv_vote_of s" "gv_weight_of s' = gv_weight_of s"
    "gv_mult_of s' = gv_mult_of s" "gv_weighted_for s' = gv_weighted_for s"
    "gv_weighted_against s' = gv_weighted_against s" "gv_custom s' = gv_custom s" "gv_quorum s' = gv_quorum s"
    "gv_count s' = gv_count s" "gv_active_total s' = gv_active_total s" "gv_active_of s' = gv_active_of s"
    "gv_max_active s' = gv_max_active s" "gv_admin s \<noteq> None \<Longrightarrow> gv_admin s' \<noteq> None"
  using assms by (simp_all add: gv_same_def gv_core_def)

definition gv_fresh :: "nat \<Rightarrow> addr \<Rightarrow> gov_proposal \<Rightarrow> bool" where
  "gv_fresh i a p \<longleftrightarrow> gp_id p = i \<and> gp_proposer p = a \<and> gp_status p = PsActive \<and> gp_votes_for p = 0 \<and>
     gp_votes_against p = 0"

definition gv_opened :: "nat \<Rightarrow> addr \<Rightarrow> gov_proposal \<Rightarrow> (nat \<rightharpoonup> bool) \<Rightarrow> gov_state \<Rightarrow> gov_state" where
  "gv_opened i a p m s = s\<lparr>gv_count := Some i, gv_proposal := (gv_proposal s)(i \<mapsto> p), gv_custom := m,
     gv_active_of := (gv_active_of s)(a \<mapsto> get_or 0 (gv_active_of s a) + 1),
     gv_active_total := Some (get_or 0 (gv_active_total s) + 1)\<rparr>"

definition gv_weighted_vote :: "int \<Rightarrow> nat \<Rightarrow> int" where
  "gv_weighted_vote n m = n * int m div 10000"

definition gv_voted :: "nat \<Rightarrow> addr \<Rightarrow> bool \<Rightarrow> int \<Rightarrow> nat \<Rightarrow> gov_proposal \<Rightarrow> gov_state \<Rightarrow> gov_state" where
  "gv_voted i v b n m p s = s\<lparr>gv_vote_of := (gv_vote_of s)((i, v) \<mapsto> b),
     gv_weight_of := (gv_weight_of s)((i, v) \<mapsto> n), gv_mult_of := (gv_mult_of s)((i, v) \<mapsto> m),
     gv_weighted_for := (if b then (gv_weighted_for s)
       (i \<mapsto> get_or 0 (gv_weighted_for s i) + gv_weighted_vote n m) else gv_weighted_for s),
     gv_weighted_against := (if b then gv_weighted_against s else (gv_weighted_against s)
       (i \<mapsto> get_or 0 (gv_weighted_against s i) + gv_weighted_vote n m)),
     gv_proposal := (gv_proposal s)(i \<mapsto> (if b then p\<lparr>gp_votes_for := gp_votes_for p + n\<rparr>
       else p\<lparr>gp_votes_against := gp_votes_against p + n\<rparr>))\<rparr>"

inductive gv_change :: "nat \<Rightarrow> gov_state \<Rightarrow> gov_state \<Rightarrow> bool" for now s s' where
  ch_same: "gv_same s s' \<Longrightarrow> gv_change now s s'"
| ch_init: "gv_admin s = None \<Longrightarrow>
     gv_same (s\<lparr>gv_admin := Some a, gv_quorum := Some q, gv_count := Some 0, gv_max_active := Some m\<rparr>) s' \<Longrightarrow>
     gv_change now s s'"
| ch_create: "gv_admin s \<noteq> None \<Longrightarrow> i = get_or 0 (gv_count s) + 1 \<Longrightarrow> gv_fresh i a p \<Longrightarrow>
     get_or 0 (gv_active_total s) < get_or 3 (gv_max_active s) \<Longrightarrow>
     \<forall>j. j \<noteq> i \<longrightarrow> m j = gv_custom s j \<Longrightarrow> gv_same (gv_opened i a p m s) s' \<Longrightarrow> gv_change now s s'"
| ch_vote: "gv_proposal s i = Some p \<Longrightarrow> gp_status p = PsActive \<Longrightarrow> now < gp_voting_ends_at p \<Longrightarrow>
     gv_vote_of s (i, v) = None \<Longrightarrow> 0 < n \<Longrightarrow> m = snd (gv_window now p) \<Longrightarrow>
     gv_same (gv_voted i v b n m p s) s' \<Longrightarrow> gv_change now s s'"
| ch_queue: "gv_proposal s i = Some p \<Longrightarrow> gp_status p = PsActive \<Longrightarrow> gp_voting_ends_at p \<le> now \<Longrightarrow>
     gv_passes i p s = Inr True \<Longrightarrow> gp_action p = GaExecuteCall tg fn xs \<Longrightarrow>
     gv_same (s\<lparr>gv_proposal := (gv_proposal s)(i \<mapsto> p\<lparr>gp_status := PsQueued, gp_op_id := h\<rparr>)\<rparr>) s' \<Longrightarrow>
     gv_change now s s'"
| ch_close: "gv_proposal s i = Some p \<Longrightarrow> gp_status p \<in> {PsActive, PsPassed, PsQueued} \<Longrightarrow>
     st \<in> {PsFailed, PsExecuted, PsCancelled} \<Longrightarrow>
     (st \<noteq> PsCancelled \<Longrightarrow> gp_status p = PsQueued \<and> st = PsExecuted \<or>
        gp_status p = PsActive \<and> gp_voting_ends_at p \<le> now \<and> gv_passes i p s = Inr (st = PsExecuted)) \<Longrightarrow>
     gv_same (gv_close i (p\<lparr>gp_status := st\<rparr>) s) s' \<Longrightarrow> gv_change now s s'"

lemmas gv_frame_defs = gv_same_def gv_core_def gv_close_def gv_decrement_def Let_def

lemma note_deposit_frame [simp]:
  "gv_core (gv_note_deposit i s) = gv_core s" "gv_proposal (gv_note_deposit i s) = gv_proposal s"
  "gv_admin (gv_note_deposit i s) = gv_admin s"
  by (simp_all add: gv_note_deposit_def gv_core_def Let_def)

lemma note_custom_Inr:
  "gv_note_custom P i a s w = Inr s1 \<Longrightarrow> s1 = s \<or> s1 = s\<lparr>gv_custom := (gv_custom s)(i \<mapsto> True)\<rparr>"
  by (cases a) (auto simp: gv_note_custom_def res_simps split: option.splits if_splits)

lemma gv_create_change:
  assumes "gv_create_proposal P env a ti h ac (s, w) = Inr (i, s', w')"
  shows "\<exists>p m. gv_admin s \<noteq> None \<and> i = get_or 0 (gv_count s) + 1 \<and> gv_fresh i a p \<and> gp_action p = ac \<and>
    get_or 0 (gv_active_total s) < get_or 3 (gv_max_active s) \<and> (\<forall>j. j \<noteq> i \<longrightarrow> m j = gv_custom s j) \<and>
    gv_same (gv_opened i a p m s) s' \<and> gv_admin s' = gv_admin s"
proof -
  let ?p = "the (gv_proposal s' i)"
  obtain s1 where c: "gv_admin s \<noteq> None" "i = get_or 0 (gv_count s) + 1"
      "\<not> get_or 3 (gv_max_active s) \<le> get_or 0 (gv_active_total s)"
      "gv_note_custom P i ac s w = Inr s1"
      "gv_fresh i a ?p" "gp_action ?p = ac" "gv_admin s' = gv_admin s1"
      "gv_core s' = gv_core (s1\<lparr>gv_count := Some i, gv_proposal := (gv_proposal s1)(i \<mapsto> ?p),
                gv_active_of := (gv_active_of s1)(a \<mapsto> get_or 0 (gv_active_of s a) + 1),
                gv_active_total := Some (get_or 0 (gv_active_total s) + 1)\<rparr>)"
    using assms
    by (auto simp: gv_create_proposal_def Let_def res_simps(1-4) checked_u32_Some checked_u64_Some arith_u32_Inr
        gv_fresh_def)
  have s1: "s1 = s \<or> s1 = s\<lparr>gv_custom := (gv_custom s)(i \<mapsto> True)\<rparr>"
    by (rule note_custom_Inr [OF c(4)])
  have "gv_same (gv_opened i a ?p (gv_custom s1) s) s' \<and> gv_admin s' = gv_admin s"
    using s1 c(7,8) by (auto simp: gv_same_def gv_core_def gv_opened_def)
  moreover have "\<forall>j. j \<noteq> i \<longrightarrow> gv_custom s1 j = gv_custom s j" using s1 by auto
  ultimately show ?thesis using c(1-3,5,6) by (intro exI [of _ ?p] exI [of _ "gv_custom s1"]) auto
qed

lemma gv_review_change:
  assumes "gv_propose_rollback_review P env a ti h e r (s, w) = Inr (i, s', w')"
  shows "gv_change now s s'"
proof -
  obtain s1 w1 where c: "gv_create_proposal P env a ti h (GaApproveRollback e r) (s, w) = Inr (i, s1, w1)"
      "s' = s1\<lparr>gv_custom := (gv_custom s1)(i \<mapsto> True)\<rparr>"
    using assms by (auto simp: gv_propose_rollback_review_def Let_def res_simps)
  from gv_create_change [OF c(1)] obtain p m where
    n: "gv_admin s \<noteq> None" "i = get_or 0 (gv_count s) + 1" "gv_fresh i a p"
      "get_or 0 (gv_active_total s) < get_or 3 (gv_max_active s)" "\<forall>j. j \<noteq> i \<longrightarrow> m j = gv_custom s j"
      "gv_same (gv_opened i a p m s) s1" by blast
  show ?thesis
    by (rule ch_create [where m = "m(i \<mapsto> True)", OF n(1-4)])
      (use n(5,6) c(2) in \<open>auto simp: gv_same_def gv_core_def gv_opened_def\<close>)
qed

lemma gv_weighted_vote_div:
  "0 < n \<Longrightarrow> checked_i128 (n * int m) = Some x \<Longrightarrow> checked_div_i128 x 10000 = Some y \<Longrightarrow> y = gv_weighted_vote n m"
  using checked_div_pos [of 10000 "n * int m"] by (simp add: gv_weighted_vote_def res_simps)

lemma gv_vote_change:
  assumes "gv_vote P env v i b (s, w) = Inr s'"
  shows "\<exists>p n m. gv_proposal s i = Some p \<and> gp_status p = PsActive \<and> ledger_ts env < gp_voting_ends_at p \<and>
    gv_vote_of s (i, v) = None \<and> 0 < n \<and> m = snd (gv_window (ledger_ts env) p) \<and> auth_by env v \<and>
    gv_same (gv_voted i v b n m p s) s' \<and> gv_admin s' = gv_admin s"
proof -
  obtain p n x y where c: "gv_proposal s i = Some p" "gp_status p = PsActive" "ledger_ts env < gp_voting_ends_at p"
      "gv_vote_of s (i, v) = None" "0 < n" "auth_by env v"
      "checked_i128 (n * int (snd (gv_window (ledger_ts env) p))) = Some x" "checked_div_i128 x 10000 = Some y"
      "gv_core s' = gv_core (s\<lparr>gv_vote_of := (gv_vote_of s)((i, v) \<mapsto> b),
         gv_weight_of := (gv_weight_of s)((i, v) \<mapsto> n),
         gv_mult_of := (gv_mult_of s)((i, v) \<mapsto> snd (gv_window (ledger_ts env) p)),
         gv_weighted_for := (if b then (gv_weighted_for s)
           (i \<mapsto> get_or 0 (gv_weighted_for s i) + y) else gv_weighted_for s),
         gv_weighted_against := (if b then gv_weighted_against s else (gv_weighted_against s)
           (i \<mapsto> get_or 0 (gv_weighted_against s i) + y)),
         gv_proposal := (gv_proposal s)(i \<mapsto> (if b then p\<lparr>gp_votes_for := gp_votes_for p + n\<rparr>
           else p\<lparr>gp_votes_against := gp_votes_against p + n\<rparr>))\<rparr>)" "gv_admin s' = gv_admin s"
    using assms
    by (cases b) (force simp: gv_vote_def Let_def res_simps(1-4) checked_i128_Some gv_get_proposal_def
      gv_get_voting_window_def gv_core_def split_beta)+
  have "y = gv_weighted_vote n (snd (gv_window (ledger_ts env) p))"
    by (rule gv_weighted_vote_div [OF c(5,7,8)])
  with c show ?thesis
    by (intro exI [of _ p] exI [of _ n]) (simp add: gv_same_def gv_voted_def gv_core_def)
qed

lemma gv_apply_frame: "gv_apply_action P env a i (s, w) = Inr (s', w') \<Longrightarrow> gv_same s s'"
  by (cases a) (auto simp: gv_apply_action_def res_simps gv_same_def gv_core_def)

lemma gv_transition_Inr:
  assumes "gv_transition st p s = Inr (p', s')"
  shows "ps_valid_transition (gp_status p) st \<and> p' = p\<lparr>gp_status := st\<rparr> \<and> gv_same s s' \<and> gv_admin s' = gv_admin s"
  using assms by (auto simp: gv_transition_def res_simps Let_def gv_same_def gv_core_def)

lemma gv_same_trans: "gv_same s s' \<Longrightarrow> gv_same s' s'' \<Longrightarrow> gv_same s s''"
  by (simp add: gv_same_def)

lemma gv_same_passes:
  assumes "gv_same s s'"
  shows "gv_passes i p s' = gv_passes i p s"
  unfolding gv_passes_def gv_quorum_bps_def gv_sameD [OF assms] ..

lemma gv_same_close: "gv_same s s' \<Longrightarrow> gv_same (gv_close i p s) (gv_close i p s')"
  by (auto simp: gv_frame_defs)

lemma gv_execute_elim:
  assumes "gv_execute_proposal P env i (s, w) = Inr (s', w')"
  obtains (failed) p s1 where "gv_proposal s i = Some p" "gp_status p = PsActive" "gp_voting_ends_at p \<le> ledger_ts env"
      "gv_passes i p s = Inr False" "gv_transition PsFailed p s = Inr (p\<lparr>gp_status := PsFailed\<rparr>, s1)"
      "s' = gv_close i (p\<lparr>gp_status := PsFailed\<rparr>) s1" "w' = w"
    | (queued) p tg fn xs s1 h s2 tl where "gv_proposal s i = Some p" "gp_status p = PsActive"
      "gp_voting_ends_at p \<le> ledger_ts env" "gv_passes i p s = Inr True" "gp_action p = GaExecuteCall tg fn xs"
      "gv_transition PsPassed p s = Inr (p\<lparr>gp_status := PsPassed\<rparr>, s1)"
      "gv_transition PsQueued (p\<lparr>gp_status := PsPassed, gp_op_id := h\<rparr>) s1 =
         Inr (p\<lparr>gp_status := PsQueued, gp_op_id := h\<rparr>, s2)"
      "s' = s2\<lparr>gv_proposal := (gv_proposal s2)(i \<mapsto> p\<lparr>gp_status := PsQueued, gp_op_id := h\<rparr>)\<rparr>"
      "pe_schedule P (as_invoker env) tl (self_addr env) (self_addr env) ''execute_queued_proposal'' [VU32 i]
         (48 * 60 * 60) w = Inr (h, w')"
    | (executed) p s1 s2 s3 where "gv_proposal s i = Some p" "gp_status p = PsActive"
      "gp_voting_ends_at p \<le> ledger_ts env" "gv_passes i p s = Inr True"
      "gv_transition PsPassed p s = Inr (p\<lparr>gp_status := PsPassed\<rparr>, s1)"
      "gv_apply_action P env (gp_action p) i (s1, w) = Inr (s2, w')"
      "gv_transition PsExecuted (p\<lparr>gp_status := PsPassed\<rparr>) s2 = Inr (p\<lparr>gp_status := PsExecuted\<rparr>, s3)"
      "s' = gv_close i (p\<lparr>gp_status := PsExecuted\<rparr>) s3"
proof -
  obtain p passed where p: "gv_proposal s i = Some p" "gp_status p \<notin> {PsExecuted, PsQueued}"
      "gp_status p \<notin> {PsCancelled, PsFailed}" "gp_voting_ends_at p \<le> ledger_ts env" "gv_passes i p s = Inr passed"
      "(if \<not> passed then
      rbind (gv_transition PsFailed p s) (\<lambda>(proposal1, s1). Inr (gv_close i proposal1 s1, w))
    else
      rbind (gv_transition PsPassed p s) (\<lambda>(proposal1, s1).
      case gp_action proposal1 of
        GaExecuteCall _ _ _ \<Rightarrow>
          expect (checked_u64 (gp_voting_ends_at proposal1 + EXECUTE_CALL_TIMELOCK_SECS))
            (Panic ''timelock overflow'') (\<lambda>earliest.
          ensure (\<not> ledger_ts env < earliest) (Panic ''ExecuteCall timelock not elapsed'') (
          expect (gv_timelock s1) (Panic ''timelock not set'') (\<lambda>timelock.
          rbind (call_ext (pe_schedule P (as_invoker env) timelock (self_addr env) (self_addr env)
            ''execute_queued_proposal'' [VU32 i] (48 * 60 * 60) w)) (\<lambda>(op_id, w1).
          rbind (gv_transition PsQueued (proposal1\<lparr>gp_op_id := op_id\<rparr>) s1) (\<lambda>(proposal2, s2).
          Inr (s2\<lparr>gv_proposal := (gv_proposal s2)(i \<mapsto> proposal2)\<rparr>, w1))))))
      | _ \<Rightarrow>
          rbind (gv_apply_action P env (gp_action proposal1) i (s1, w)) (\<lambda>(s2, w1).
          rbind (gv_transition PsExecuted proposal1 s2) (\<lambda>(proposal2, s3).
          Inr (gv_close i proposal2 s3, w1))))) = (Inr (s', w') :: (gov_state \<times> _) gov_res)"
    using assms unfolding gv_execute_proposal_def prod.case Let_def
    by (auto simp: res_simps(1-4) gv_get_proposal_def not_less simp del: not_not)
  show thesis
  proof (cases passed)
    case False
    then obtain p1 s1 where t: "gv_transition PsFailed p s = Inr (p1, s1)" "s' = gv_close i p1 s1" "w' = w"
      using p(6) by (auto simp: res_simps)
    note tr = gv_transition_Inr [OF t(1)]
    then have f: "gp_status p = PsActive" "p1 = p\<lparr>gp_status := PsFailed\<rparr>" by (simp_all add: ps_valid_transition_def)
    from False p(5) have "gv_passes i p s = Inr False" by simp
    from failed [OF p(1) f(1) p(4) this t [unfolded f(2)]] show thesis .
  next
    case True
    then obtain p1 s1 where t: "gv_transition PsPassed p s = Inr (p1, s1)" using p(6) by (auto simp: res_simps)
    note tr = gv_transition_Inr [OF t]
    then have f: "gp_status p = PsActive" "p1 = p\<lparr>gp_status := PsPassed\<rparr>" by (simp_all add: ps_valid_transition_def)
    from True p(5) have pass: "gv_passes i p s = Inr True" by simp
    show thesis
    proof (cases "\<exists>tg fn xs. gp_action p = GaExecuteCall tg fn xs")
      case True
      then obtain tg fn xs where act: "gp_action p = GaExecuteCall tg fn xs" by blast
      obtain h p2 s2 tl where q: "gv_transition PsQueued (p\<lparr>gp_status := PsPassed, gp_op_id := h\<rparr>) s1 = Inr (p2, s2)"
          "s' = s2\<lparr>gv_proposal := (gv_proposal s2)(i \<mapsto> p2)\<rparr>"
          "pe_schedule P (as_invoker env) tl (self_addr env) (self_addr env) ''execute_queued_proposal'' [VU32 i]
             (48 * 60 * 60) w = Inr (h, w')"
        using p(6) \<open>passed\<close> t f(2) act by (auto simp: res_simps)
      have "p2 = p\<lparr>gp_status := PsQueued, gp_op_id := h\<rparr>" using gv_transition_Inr [OF q(1)] by simp
      from queued [OF p(1) f(1) p(4) pass act t [unfolded f(2)] q [unfolded this]] show thesis .
    next
      case False
      obtain s2 p2 s3 where q: "gv_apply_action P env (gp_action p) i (s1, w) = Inr (s2, w')"
          "gv_transition PsExecuted (p\<lparr>gp_status := PsPassed\<rparr>) s2 = Inr (p2, s3)" "s' = gv_close i p2 s3"
        using p(6) \<open>passed\<close> t f(2) False by (cases "gp_action p") (auto simp: res_simps)
      have "p2 = p\<lparr>gp_status := PsExecuted\<rparr>" using gv_transition_Inr [OF q(2)] by simp
      from executed [OF p(1) f(1) p(4) pass t [unfolded f(2)] q [unfolded this]] show thesis .
    qed
  qed
qed

lemma gv_execute_change:
  assumes "gv_execute_proposal P env i (s, w) = Inr (s', w')"
  shows "gv_change (ledger_ts env) s s'"
  using assms
proof (cases rule: gv_execute_elim)
  case (failed p s1)
  then show ?thesis
    using gv_transition_Inr [OF failed(5)]
    by (intro ch_close [where st = PsFailed, OF failed(1)]) (auto intro: gv_same_close)
next
  case (queued p tg fn xs s1 h s2 tl)
  show ?thesis
    by (rule ch_queue [OF queued(1-5), where h = h])
      (use gv_transition_Inr [OF queued(6)] gv_transition_Inr [OF queued(7)] queued(8) in \<open>auto simp: gv_same_def gv_core_def\<close>)
next
  case (executed p s1 s2 s3)
  have "gv_same s s3"
    using gv_same_trans [OF gv_same_trans [OF _ gv_apply_frame [OF executed(6)]]]
      gv_transition_Inr [OF executed(5)] gv_transition_Inr [OF executed(7)] by blast
  then show ?thesis
    using executed by (intro ch_close [where st = PsExecuted, OF executed(1)]) (auto intro: gv_same_close)
qed

lemma gv_execute_queued_change:
  assumes "gv_execute_queued_proposal P env i (s, w) = Inr (s', w')"
  shows "gv_change now s s'"
proof -
  obtain p s1 w1 p1 s2 where q: "gv_proposal s i = Some p" "gp_status p = PsQueued"
      "gv_apply_action P env (gp_action p) i (s, w) = Inr (s1, w1)" "gv_transition PsExecuted p s1 = Inr (p1, s2)"
      "s' = gv_close i p1 s2"
    using assms by (auto simp: gv_execute_queued_proposal_def gv_get_proposal_def res_simps)
  have "gv_same s s2" "p1 = p\<lparr>gp_status := PsExecuted\<rparr>"
    using gv_same_trans [OF gv_apply_frame [OF q(3)]] gv_transition_Inr [OF q(4)] by blast+
  then show ?thesis
    using q by (intro ch_close [where st = PsExecuted, OF q(1)]) (auto intro: gv_same_close)
qed

lemma gv_slash_frame: "gv_slash_deposit i s = Inr s' \<Longrightarrow> gv_core s' = gv_core s \<and> gv_admin s' = gv_admin s"
  by (auto simp: gv_slash_deposit_def gv_core_def Let_def res_simps split: if_splits)

lemma gv_decrement_core:
  assumes "gv_core s' = gv_core s" "gv_admin s' = gv_admin s"
  shows "gv_core (gv_decrement a s') = gv_core (gv_decrement a s) \<and> gv_admin (gv_decrement a s') = gv_admin s"
  using assms by (auto simp: gv_core_def gv_decrement_def Let_def)

lemma gv_close_core: "gv_core (gv_close i p s) = gv_core (gv_decrement (gp_proposer p) (s\<lparr>gv_proposal := (gv_proposal s)(i \<mapsto> p)\<rparr>))"
  by (simp add: gv_core_def gv_close_def Let_def)

lemma gv_cancel_change:
  assumes "gv_cancel_proposal P env i m (s, w) = Inr (s', w')"
  shows "gv_change now s s'"
proof -
  obtain p s2 where q: "gv_proposal s i = Some p" "gp_status p \<noteq> PsExecuted" "gp_status p \<noteq> PsFailed"
      "gp_status p \<noteq> PsCancelled"
      "gv_slash_deposit i (s\<lparr>gv_proposal := (gv_proposal s)(i \<mapsto> p\<lparr>gp_status := PsCancelled\<rparr>)\<rparr>) = Inr s2"
      "gv_core s' = gv_core (gv_decrement (gp_proposer p) s2)"
      "gv_admin s' = gv_admin (gv_decrement (gp_proposer p) s2)"
    using assms
    by (auto simp: gv_cancel_proposal_def gv_get_proposal_def gv_record_cancel_def res_simps(1-4)
        checked_u32_Some checked_u64_Some Let_def gv_core_def)
  let ?p = "p\<lparr>gp_status := PsCancelled\<rparr>"
  have "gv_core s' = gv_core (gv_close i ?p s)" "gv_admin s' = gv_admin s"
    using gv_slash_frame [OF q(5)] q(6,7) gv_decrement_core [of s2 "s\<lparr>gv_proposal := (gv_proposal s)(i \<mapsto> ?p)\<rparr>" "gp_proposer p"]
    by (simp_all add: gv_close_core)
  moreover have "gv_admin (gv_close i ?p s) = gv_admin s" by (simp add: gv_close_def gv_decrement_def Let_def)
  ultimately have same: "gv_same (gv_close i ?p s) s'" by (simp add: gv_same_def)
  have "gp_status p \<in> {PsActive, PsPassed, PsQueued}" using q(2-4) by (cases "gp_status p") auto
  from ch_close [where st = PsCancelled, OF q(1) this _ _ same] show ?thesis by simp
qed

lemmas gv_admin_ops =
  gv_initialize_def gv_propose_admin_change_def gv_accept_admin_change_def gv_cancel_admin_change_def
  gv_set_timelock_def gv_add_allowed_call_def gv_set_templates_contract_def gv_set_staking_contract_def
  gv_set_multisig_admin_def gv_set_arbitration_compensation_def gv_submit_appeal_def gv_resolve_appeal_def
  gv_regulate_market_def gv_enforce_competition_def gv_restore_market_def gv_activate_emergency_def
  gv_deactivate_emergency_def

lemma gv_migrate_same: "gv_migrate_arbitrators env a s = Inr s' \<Longrightarrow> gv_same s s'"
proof -
  assume "gv_migrate_arbitrators env a s = Inr s'"
  moreover have "gv_same s (snd (foldl (\<lambda>(count, s) a.
              if gv_arb_index s a = None
              then (count + 1, s\<lparr>gv_arb_at := (gv_arb_at s)(count \<mapsto> a),
                                 gv_arb_index := (gv_arb_index s)(a \<mapsto> count)\<rparr>)
              else (count, s)) (n, s) xs))" for n :: nat and s :: gov_state and xs
    by (induction xs arbitrary: n s) (force simp: gv_same_def gv_core_def)+
  ultimately show ?thesis
    by (auto simp: gv_migrate_arbitrators_def res_simps Let_def split_beta split: option.splits)
      (force simp: gv_same_def gv_core_def)+
qed

lemma gv_exec_change:
  assumes "gv_exec P env c (s, w) = Inr (s', w')"
  shows "gv_change (ledger_ts env) s s'"
proof (cases c)
  case (GInit a tk sn de p q d m x)
  with assms show ?thesis
    by (intro ch_init [where a = a]) (auto simp: res_simps gv_initialize_def Let_def gv_same_def gv_core_def)
next
  case (GCreate a ti h ac)
  with assms obtain i where "gv_create_proposal P env a ti h ac (s, w) = Inr (i, s', w')" by (auto simp: res_simps)
  from gv_create_change [OF this] show ?thesis by (blast intro: ch_create)
next
  case (GVote a i b)
  with assms have "gv_vote P env a i b (s, w) = Inr s'" by (simp add: res_simps)
  from gv_vote_change [OF this] show ?thesis by (blast intro: ch_vote)
next
  case (GReview a ti h e r)
  with assms obtain i where "gv_propose_rollback_review P env a ti h e r (s, w) = Inr (i, s', w')" by (auto simp: res_simps)
  then show ?thesis by (rule gv_review_change)
next
  case (GMigrate a)
  with assms show ?thesis by (auto simp: res_simps intro: ch_same gv_migrate_same)
next
  case (GRegister a b)
  with assms show ?thesis
    by (intro ch_same) (auto simp: res_simps gv_register_arbitrator_def Let_def gv_same_def gv_core_def split: if_splits)
next
  case (GUnregister a b)
  with assms show ?thesis
    by (intro ch_same) (auto simp: res_simps gv_unregister_arbitrator_def Let_def gv_same_def gv_core_def split: if_splits)
qed (use assms in \<open>auto intro: gv_execute_change gv_execute_queued_change gv_cancel_change\<close>,
     (use assms in \<open>intro ch_same; force simp: res_simps gv_admin_ops Let_def gv_same_def gv_core_def\<close>)+)

end
