(* ===== verification/GovernanceInv.thy ===== *)
theory GovernanceInv
  imports GovernanceRules
begin

text \<open>
  The invariants of the governance contract, proved once for the changes of \<open>gv_change\<close>: recorded
  ballots and their totals, the counts of open proposals, and the outcome of closed ones.
\<close>

section \<open>Ballots\<close>

definition gv_ballots :: "gov_state \<Rightarrow> nat \<Rightarrow> bool \<Rightarrow> (addr \<rightharpoonup> int \<times> nat)" where
  "gv_ballots s i b = (\<lambda>v. if gv_vote_of s (i, v) = Some b
     then Some (get_or 0 (gv_weight_of s (i, v)), get_or 0 (gv_mult_of s (i, v))) else None)"

definition gv_raw_total :: "gov_state \<Rightarrow> nat \<Rightarrow> bool \<Rightarrow> int" where
  "gv_raw_total s i b = wsum fst (gv_ballots s i b)"

definition gv_weighted_total :: "gov_state \<Rightarrow> nat \<Rightarrow> bool \<Rightarrow> int" where
  "gv_weighted_total s i b = wsum (\<lambda>(n, m). gv_weighted_vote n m) (gv_ballots s i b)"

definition gv_votes_ok :: "gov_state \<Rightarrow> bool" where
  "gv_votes_ok s \<longleftrightarrow> finite (dom (gv_vote_of s)) \<and>
     (\<forall>i v. gv_vote_of s (i, v) \<noteq> None \<longrightarrow> gv_proposal s i \<noteq> None) \<and>
     (\<forall>i b v n m. gv_ballots s i b v = Some (n, m) \<longrightarrow> 0 < n \<and> m \<in> {8000, 10000, 11000}) \<and>
     (\<forall>i. get_or 0 (gv_weighted_for s i) = gv_weighted_total s i True \<and>
          (gv_weighted_for s i = None \<longrightarrow> gv_ballots s i True = Map.empty) \<and>
          get_or 0 (gv_weighted_against s i) = gv_weighted_total s i False \<and>
          (gv_weighted_against s i = None \<longrightarrow> gv_ballots s i False = Map.empty)) \<and>
     (\<forall>i p. gv_proposal s i = Some p \<longrightarrow>
        gp_votes_for p = gv_raw_total s i True \<and> gp_votes_against p = gv_raw_total s i False)"

lemma gv_votes_okD:
  assumes "gv_votes_ok s"
  shows "finite (dom (gv_vote_of s))" "gv_vote_of s (i, v) \<noteq> None \<Longrightarrow> gv_proposal s i \<noteq> None"
    "gv_ballots s i b v = Some (n, m) \<Longrightarrow> 0 < n \<and> m \<in> {8000, 10000, 11000}"
    "get_or 0 (gv_weighted_for s i) = gv_weighted_total s i True"
    "gv_weighted_for s i = None \<Longrightarrow> gv_ballots s i True = Map.empty"
    "get_or 0 (gv_weighted_against s i) = gv_weighted_total s i False"
    "gv_weighted_against s i = None \<Longrightarrow> gv_ballots s i False = Map.empty"
    "gv_proposal s i = Some p \<Longrightarrow> gp_votes_for p = gv_raw_total s i True \<and> gp_votes_against p = gv_raw_total s i False"
  using assms unfolding gv_votes_ok_def by blast+

lemma ballots_same:
  assumes "gv_same s s'"
  shows "gv_ballots s' = gv_ballots s"
  unfolding gv_ballots_def gv_sameD [OF assms] ..

lemma gv_votes_ok_same:
  assumes "gv_same s s'" "gv_votes_ok s"
  shows "gv_votes_ok s'"
  using assms(2)
  unfolding gv_votes_ok_def gv_raw_total_def gv_weighted_total_def ballots_same [OF assms(1)] gv_sameD [OF assms(1)] .

lemma ballots_finite: "finite (dom (gv_vote_of s)) \<Longrightarrow> finite (dom (gv_ballots s i b))"
proof -
  assume "finite (dom (gv_vote_of s))"
  then have "finite (snd ` dom (gv_vote_of s))" by simp
  moreover have "dom (gv_ballots s i b) \<subseteq> snd ` dom (gv_vote_of s)"
    by (force simp: gv_ballots_def image_iff split: if_splits)
  ultimately show ?thesis by (rule rev_finite_subset)
qed

lemma ballots_unvoted: "\<forall>v. gv_vote_of s (i, v) = None \<Longrightarrow> gv_ballots s i b = Map.empty"
  by (auto simp: gv_ballots_def)

lemma ballots_voted:
  assumes "gv_vote_of s (i, v) = None"
  shows "gv_ballots (gv_voted i v b n m p s) j c =
    (if j = i \<and> c = b then (gv_ballots s i b)(v \<mapsto> (n, m)) else gv_ballots s j c)"
  using assms by (auto simp: gv_ballots_def gv_voted_def fun_eq_iff)

lemma window_weight: "snd (gv_window now p) \<in> {8000, 10000, 11000}"
  by (simp add: gv_window_def Let_def EARLY_WEIGHT_BPS_def MID_WEIGHT_BPS_def LATE_WEIGHT_BPS_def)

text \<open>Changes that leave the votes alone and keep the vote counters of every proposal.\<close>

lemma votes_ok_frame:
  assumes "gv_votes_ok s" "gv_vote_of s' = gv_vote_of s" "gv_weight_of s' = gv_weight_of s"
    "gv_mult_of s' = gv_mult_of s" "gv_weighted_for s' = gv_weighted_for s"
    "gv_weighted_against s' = gv_weighted_against s" "\<And>i. gv_proposal s i \<noteq> None \<Longrightarrow> gv_proposal s' i \<noteq> None"
    "\<And>i p. gv_proposal s' i = Some p \<Longrightarrow>
       gp_votes_for p = gv_raw_total s i True \<and> gp_votes_against p = gv_raw_total s i False"
  shows "gv_votes_ok s'"
proof -
  have b: "gv_ballots s' = gv_ballots s" unfolding gv_ballots_def assms(2-4) ..
  show ?thesis
    using assms(1,7,8) unfolding gv_votes_ok_def gv_raw_total_def gv_weighted_total_def b assms(2-6) by blast
qed

lemma votes_ok_voted:
  assumes ok: "gv_votes_ok s" and p: "gv_proposal s i = Some p" "gv_vote_of s (i, v) = None" "0 < n"
    and m: "m \<in> {8000, 10000, 11000}"
  shows "gv_votes_ok (gv_voted i v b n m p s)"
proof -
  note D = gv_votes_okD [OF ok]
  note bal = ballots_voted [OF p(2), of b n m p]
  have none: "gv_ballots s i b v = None" using p(2) by (simp add: gv_ballots_def)
  have fin: "finite (dom (gv_ballots s i b))" using ballots_finite D(1) by blast
  have raw: "gv_raw_total (gv_voted i v b n m p s) j c =
      gv_raw_total s j c + (if j = i \<and> c = b then n else 0)" for j c
    using wsum_upd [OF fin, of fst v "(n, m)"] none by (simp add: gv_raw_total_def bal)
  have wei: "gv_weighted_total (gv_voted i v b n m p s) j c =
      gv_weighted_total s j c + (if j = i \<and> c = b then gv_weighted_vote n m else 0)" for j c
    using wsum_upd [OF fin, of "\<lambda>(n, m). gv_weighted_vote n m" v "(n, m)"] none
    by (simp add: gv_weighted_total_def bal)
  have upd: "gv_vote_of (gv_voted i v b n m p s) = (gv_vote_of s)((i, v) \<mapsto> b)"
      "gv_weighted_for (gv_voted i v b n m p s) j =
        (if b \<and> j = i then Some (get_or 0 (gv_weighted_for s i) + gv_weighted_vote n m) else gv_weighted_for s j)"
      "gv_weighted_against (gv_voted i v b n m p s) j =
        (if \<not> b \<and> j = i then Some (get_or 0 (gv_weighted_against s i) + gv_weighted_vote n m) else gv_weighted_against s j)"
      "gv_proposal (gv_voted i v b n m p s) = (gv_proposal s)(i \<mapsto> (if b then p\<lparr>gp_votes_for := gp_votes_for p + n\<rparr>
       else p\<lparr>gp_votes_against := gp_votes_against p + n\<rparr>))" for j
    by (auto simp: gv_voted_def)
  show ?thesis
    unfolding gv_votes_ok_def
  proof (intro conjI allI impI)
    fix j c u k l
    assume "gv_ballots (gv_voted i v b n m p s) j c u = Some (k, l)"
    then show "0 < k" "l \<in> {8000, 10000, 11000}"
      using D(3) [of j c u k l] p(3) m by (auto simp: bal split: if_splits)
  next
    fix j u
    assume "gv_vote_of (gv_voted i v b n m p s) (j, u) \<noteq> None"
    then show "gv_proposal (gv_voted i v b n m p s) j \<noteq> None"
      using D(2) [of j u] by (auto simp: upd split: if_splits)
  next
    fix j
    show "get_or 0 (gv_weighted_for (gv_voted i v b n m p s) j) = gv_weighted_total (gv_voted i v b n m p s) j True"
      using D(4) [of j] by (auto simp: upd wei)
    show "get_or 0 (gv_weighted_against (gv_voted i v b n m p s) j) = gv_weighted_total (gv_voted i v b n m p s) j False"
      using D(6) [of j] by (auto simp: upd wei)
    show "gv_weighted_for (gv_voted i v b n m p s) j = None \<Longrightarrow> gv_ballots (gv_voted i v b n m p s) j True = Map.empty"
      using D(5) [of j] by (auto simp: upd bal split: if_splits)
    show "gv_weighted_against (gv_voted i v b n m p s) j = None \<Longrightarrow> gv_ballots (gv_voted i v b n m p s) j False = Map.empty"
      using D(7) [of j] by (auto simp: upd bal split: if_splits)
  next
    fix j q
    assume q: "gv_proposal (gv_voted i v b n m p s) j = Some q"
    show "gp_votes_for q = gv_raw_total (gv_voted i v b n m p s) j True"
      using D(8) [OF p(1)] D(8) [of j q] q by (auto simp: upd raw split: if_splits)
    show "gp_votes_against q = gv_raw_total (gv_voted i v b n m p s) j False"
      using D(8) [OF p(1)] D(8) [of j q] q by (auto simp: upd raw split: if_splits)
  qed (use D(1) upd in auto)
qed

lemma votes_ok_opened:
  assumes "gv_votes_ok s" "gv_proposal s i = None" "gv_fresh i a p"
  shows "gv_votes_ok (gv_opened i a p m s)"
proof (rule votes_ok_frame [OF assms(1)])
  note D = gv_votes_okD [OF assms(1)]
  have none: "\<forall>v. gv_vote_of s (i, v) = None" using D(2) [of i] assms(2) by blast
  then have zero: "gv_raw_total s i b = 0" for b
    unfolding gv_raw_total_def ballots_unvoted [OF none] by simp
  fix j q
  assume "gv_proposal (gv_opened i a p m s) j = Some q"
  then show "gp_votes_for q = gv_raw_total s j True \<and> gp_votes_against q = gv_raw_total s j False"
    using D(8) [of j q] assms(3) zero by (auto simp: gv_opened_def gv_fresh_def split: if_splits)
qed (auto simp: gv_opened_def)

lemma votes_ok_restate:
  assumes "gv_votes_ok s" "gv_proposal s i = Some p" "gp_votes_for q = gp_votes_for p"
    "gp_votes_against q = gp_votes_against p"
  shows "gv_votes_ok (s\<lparr>gv_proposal := (gv_proposal s)(i \<mapsto> q)\<rparr>)"
  by (rule votes_ok_frame [OF assms(1)]) (use gv_votes_okD(8) [OF assms(1)] assms(2-4) in \<open>auto split: if_splits\<close>)

lemma close_frame:
  "gv_proposal (gv_close i p s) = (gv_proposal s)(i \<mapsto> p)" "gv_vote_of (gv_close i p s) = gv_vote_of s"
  "gv_weight_of (gv_close i p s) = gv_weight_of s" "gv_mult_of (gv_close i p s) = gv_mult_of s"
  "gv_weighted_for (gv_close i p s) = gv_weighted_for s" "gv_weighted_against (gv_close i p s) = gv_weighted_against s"
  "gv_custom (gv_close i p s) = gv_custom s" "gv_quorum (gv_close i p s) = gv_quorum s"
  "gv_count (gv_close i p s) = gv_count s" "gv_max_active (gv_close i p s) = gv_max_active s"
  "gv_admin (gv_close i p s) = gv_admin s"
  "get_or 0 (gv_active_total (gv_close i p s)) = get_or 0 (gv_active_total s) - 1"
  "get_or 0 (gv_active_of (gv_close i p s) a) =
     get_or 0 (gv_active_of s a) - (if a = gp_proposer p then 1 else 0)"
  by (auto simp: gv_close_def gv_decrement_def Let_def)

lemma votes_ok_close:
  assumes "gv_votes_ok s" "gv_proposal s i = Some p"
  shows "gv_votes_ok (gv_close i (p\<lparr>gp_status := st\<rparr>) s)"
  by (rule votes_ok_frame [OF assms(1)])
    (use gv_votes_okD(8) [OF assms(1)] assms(2) in \<open>auto simp: close_frame split: if_splits\<close>)


section \<open>Counts of open proposals\<close>

definition gp_open :: "gov_proposal \<Rightarrow> bool" where
  "gp_open p \<longleftrightarrow> gp_status p \<in> {PsActive, PsQueued}"

definition gv_open_set :: "gov_state \<Rightarrow> nat set" where
  "gv_open_set s = {i. \<exists>p. gv_proposal s i = Some p \<and> gp_open p}"

definition gv_open_of :: "addr \<Rightarrow> gov_state \<Rightarrow> nat set" where
  "gv_open_of a s = {i. \<exists>p. gv_proposal s i = Some p \<and> gp_open p \<and> gp_proposer p = a}"

definition gv_counts_ok :: "gov_state \<Rightarrow> bool" where
  "gv_counts_ok s \<longleftrightarrow> dom (gv_proposal s) = {1..get_or 0 (gv_count s)} \<and>
     get_or 0 (gv_active_total s) = card (gv_open_set s) \<and>
     (\<forall>a. get_or 0 (gv_active_of s a) = card (gv_open_of a s)) \<and>
     get_or 0 (gv_active_total s) \<le> get_or 3 (gv_max_active s) \<and>
     (gv_admin s = None \<longrightarrow> gv_proposal s = Map.empty)"

lemma gv_counts_okD:
  assumes "gv_counts_ok s"
  shows "dom (gv_proposal s) = {1..get_or 0 (gv_count s)}" "get_or 0 (gv_active_total s) = card (gv_open_set s)"
    "get_or 0 (gv_active_of s a) = card (gv_open_of a s)"
    "get_or 0 (gv_active_total s) \<le> get_or 3 (gv_max_active s)"
    "gv_admin s = None \<Longrightarrow> gv_proposal s = Map.empty"
  using assms by (simp_all add: gv_counts_ok_def)

lemma counts_ok_same:
  assumes "gv_same s s'" "gv_counts_ok s"
  shows "gv_counts_ok s'"
  using assms(2) gv_sameD(13) [OF assms(1)]
  unfolding gv_counts_ok_def gv_open_set_def gv_open_of_def gv_sameD(1-12) [OF assms(1)] by blast

lemma counts_ok_admin: "gv_counts_ok s \<Longrightarrow> gv_proposal s i = Some p \<Longrightarrow> gv_admin s \<noteq> None"
  by (rule notI) (simp add: gv_counts_okD(5))

lemma gv_open_finite: "gv_counts_ok s \<Longrightarrow> finite (gv_open_set s)" "gv_counts_ok s \<Longrightarrow> finite (gv_open_of a s)"
proof -
  assume "gv_counts_ok s"
  then have fin: "finite (dom (gv_proposal s))" by (simp add: gv_counts_okD(1))
  show "finite (gv_open_set s)" by (rule rev_finite_subset [OF fin]) (auto simp: gv_open_set_def)
  show "finite (gv_open_of a s)" by (rule rev_finite_subset [OF fin]) (auto simp: gv_open_of_def)
qed

text \<open>Replacing a proposal by one that is open in the same way.\<close>

lemma counts_ok_restate:
  assumes "gv_counts_ok s" "gv_proposal s i = Some p" "gp_open q = gp_open p" "gp_proposer q = gp_proposer p"
    "gv_proposal s' = (gv_proposal s)(i \<mapsto> q)" "gv_count s' = gv_count s" "gv_active_total s' = gv_active_total s"
    "gv_active_of s' = gv_active_of s" "gv_max_active s' = gv_max_active s" "gv_admin s' = gv_admin s"
  shows "gv_counts_ok s'"
proof -
  have "gv_open_set s' = gv_open_set s" "gv_open_of a s' = gv_open_of a s" for a
    using assms(2-5) by (auto simp: gv_open_set_def gv_open_of_def)
  moreover have "dom (gv_proposal s') = dom (gv_proposal s)" using assms(2,5) by auto
  moreover have "gv_admin s \<noteq> None" by (rule counts_ok_admin [OF assms(1,2)])
  ultimately show ?thesis using assms(1) unfolding gv_counts_ok_def assms(6-10) by auto
qed

lemma counts_ok_opened:
  assumes "gv_counts_ok s" "gv_admin s \<noteq> None" "i = get_or 0 (gv_count s) + 1" "gv_fresh i a p"
    "get_or 0 (gv_active_total s) < get_or 3 (gv_max_active s)"
  shows "gv_counts_ok (gv_opened i a p m s)"
proof -
  note D = gv_counts_okD [OF assms(1)]
  have new: "gv_proposal s i = None"
    using D(1) assms(3) by (metis atLeastAtMost_iff domIff less_add_one not_le)
  have p: "gp_open p" "gp_proposer p = a" using assms(4) by (simp_all add: gv_fresh_def gp_open_def)
  have "gv_open_set (gv_opened i a p m s) = insert i (gv_open_set s)" "i \<notin> gv_open_set s"
    "gv_open_of b (gv_opened i a p m s) = (if b = a then insert i (gv_open_of a s) else gv_open_of b s)"
    "i \<notin> gv_open_of b s" for b
    using p new by (auto simp: gv_open_set_def gv_open_of_def gv_opened_def)
  then have "card (gv_open_set (gv_opened i a p m s)) = card (gv_open_set s) + 1"
    "card (gv_open_of b (gv_opened i a p m s)) = card (gv_open_of b s) + (if b = a then 1 else 0)" for b
    using gv_open_finite [OF assms(1)] by simp_all
  moreover have "dom (gv_proposal (gv_opened i a p m s)) = {1..i}"
    using D(1) assms(3) by (auto simp: gv_opened_def)
  ultimately show ?thesis
    using D(2-4) assms(2,5) by (auto simp: gv_counts_ok_def gv_opened_def)
qed

lemma counts_ok_close:
  assumes "gv_counts_ok s" "gv_proposal s i = Some p" "gp_open p" "\<not> gp_open q" "gp_proposer q = gp_proposer p"
  shows "gv_counts_ok (gv_close i q s)"
proof -
  note D = gv_counts_okD [OF assms(1)]
  have "gv_open_set (gv_close i q s) = gv_open_set s - {i}" "i \<in> gv_open_set s"
    "gv_open_of a (gv_close i q s) = gv_open_of a s - {i}"
    "i \<in> gv_open_of a s \<longleftrightarrow> a = gp_proposer p" for a
    using assms(2-5) by (auto simp: gv_open_set_def gv_open_of_def close_frame)
  then have "card (gv_open_set (gv_close i q s)) = card (gv_open_set s) - 1"
    "card (gv_open_of a (gv_close i q s)) = card (gv_open_of a s) - (if a = gp_proposer p then 1 else 0)" for a
    using gv_open_finite [OF assms(1)] by simp_all
  moreover have "dom (gv_proposal (gv_close i q s)) = dom (gv_proposal s)" using assms(2) by (auto simp: close_frame)
  moreover have "gv_admin s \<noteq> None" by (rule counts_ok_admin [OF assms(1,2)])
  ultimately show ?thesis
    using D(1-4) assms(5) by (auto simp: gv_counts_ok_def close_frame)
qed


section \<open>Outcomes\<close>

definition gv_outcome_ok :: "nat \<Rightarrow> gov_state \<Rightarrow> bool" where
  "gv_outcome_ok t s \<longleftrightarrow> (\<forall>i p. gv_proposal s i = Some p \<longrightarrow> gp_status p \<noteq> PsPassed \<and>
     (gp_status p = PsQueued \<longrightarrow> (\<exists>tg fn xs. gp_action p = GaExecuteCall tg fn xs)) \<and>
     (gp_status p \<in> {PsQueued, PsExecuted} \<longrightarrow> gp_voting_ends_at p \<le> t \<and> gv_passes i p s = Inr True) \<and>
     (gp_status p = PsFailed \<longrightarrow> gp_voting_ends_at p \<le> t \<and> gv_passes i p s = Inr False))"

lemma gv_outcome_okD:
  assumes "gv_outcome_ok t s" "gv_proposal s i = Some p"
  shows "gp_status p \<noteq> PsPassed" "gp_status p = PsQueued \<Longrightarrow> \<exists>tg fn xs. gp_action p = GaExecuteCall tg fn xs"
    "gp_status p \<in> {PsQueued, PsExecuted} \<Longrightarrow> gp_voting_ends_at p \<le> t \<and> gv_passes i p s = Inr True"
    "gp_status p = PsFailed \<Longrightarrow> gp_voting_ends_at p \<le> t \<and> gv_passes i p s = Inr False"
  using assms by (auto simp: gv_outcome_ok_def)

lemma outcome_ok_same:
  assumes "gv_same s s'" "gv_outcome_ok t s"
  shows "gv_outcome_ok t s'"
  using assms(2) unfolding gv_outcome_ok_def gv_sameD(1) [OF assms(1)] gv_same_passes [OF assms(1)] .

lemma outcome_ok_mono: "gv_outcome_ok t s \<Longrightarrow> t \<le> u \<Longrightarrow> gv_outcome_ok u s"
  unfolding gv_outcome_ok_def by (meson order_trans)

lemma passes_cong:
  assumes "gp_action q = gp_action p" "gp_votes_for q = gp_votes_for p" "gp_votes_against q = gp_votes_against p"
    "gp_supply q = gp_supply p" "gv_custom s' i = gv_custom s i" "gv_quorum s' = gv_quorum s"
    "gv_weighted_for s' i = gv_weighted_for s i" "gv_weighted_against s' i = gv_weighted_against s i"
  shows "gv_passes i q s' = gv_passes i p s"
  unfolding gv_passes_def gv_quorum_bps_def assms ..

text \<open>Changing one proposal and nothing that decides about the others.\<close>

lemma outcome_ok_upd:
  assumes "gv_outcome_ok t s" "gv_proposal s' = (gv_proposal s)(i \<mapsto> q)"
    "\<And>j p. j \<noteq> i \<Longrightarrow> gv_proposal s j = Some p \<Longrightarrow> gv_passes j p s' = gv_passes j p s"
    "gp_status q \<noteq> PsPassed" "gp_status q = PsQueued \<Longrightarrow> \<exists>tg fn xs. gp_action q = GaExecuteCall tg fn xs"
    "gp_status q \<in> {PsQueued, PsExecuted} \<Longrightarrow> gp_voting_ends_at q \<le> t \<and> gv_passes i q s' = Inr True"
    "gp_status q = PsFailed \<Longrightarrow> gp_voting_ends_at q \<le> t \<and> gv_passes i q s' = Inr False"
  shows "gv_outcome_ok t s'"
  unfolding gv_outcome_ok_def
proof (intro allI impI)
  fix j p
  assume p: "gv_proposal s' j = Some p"
  show "gp_status p \<noteq> PsPassed \<and>
     (gp_status p = PsQueued \<longrightarrow> (\<exists>tg fn xs. gp_action p = GaExecuteCall tg fn xs)) \<and>
     (gp_status p \<in> {PsQueued, PsExecuted} \<longrightarrow> gp_voting_ends_at p \<le> t \<and> gv_passes j p s' = Inr True) \<and>
     (gp_status p = PsFailed \<longrightarrow> gp_voting_ends_at p \<le> t \<and> gv_passes j p s' = Inr False)"
  proof (cases "j = i")
    case True
    with p assms(2) have "p = q" by simp
    with assms(4-7) True show ?thesis by blast
  next
    case False
    with p assms(2) have old: "gv_proposal s j = Some p" by simp
    show ?thesis
      using gv_outcome_okD [OF assms(1) old] unfolding assms(3) [OF False old] by blast
  qed
qed


section \<open>The invariant of reachable states\<close>

definition gv_inv :: "nat \<Rightarrow> gov_state \<Rightarrow> bool" where
  "gv_inv t s \<longleftrightarrow> gv_votes_ok s \<and> gv_counts_ok s \<and> gv_outcome_ok t s"

lemma inv_same: "gv_same s s' \<Longrightarrow> gv_inv t s \<Longrightarrow> gv_inv t s'"
  by (simp add: gv_inv_def gv_votes_ok_same counts_ok_same outcome_ok_same)

lemma inv_change:
  assumes "gv_change now s s'" "gv_inv now s"
  shows "gv_inv now s'"
  using assms(1)
proof cases
  case ch_same
  then show ?thesis using assms(2) by (rule inv_same)
next
  case (ch_init x y z)
  have empty: "gv_proposal s = Map.empty" using assms(2) ch_init(1) by (simp add: gv_inv_def gv_counts_ok_def)
  have "gv_inv now (s\<lparr>gv_admin := Some a, gv_quorum := Some q, gv_count := Some 0, gv_max_active := Some m\<rparr>)" for a q m
    using assms(2) empty
    by (auto simp: gv_inv_def gv_outcome_ok_def gv_counts_ok_def gv_open_set_def gv_open_of_def
        intro!: votes_ok_frame [of s] dest: gv_votes_okD(8))
  from inv_same [OF ch_init(2) this] show ?thesis .
next
  case (ch_create i a p m)
  have new: "gv_proposal s i = None"
    using assms(2) ch_create(2) by (metis atLeastAtMost_iff domIff gv_counts_okD(1) gv_inv_def less_add_one not_le)
  have "gv_inv now (gv_opened i a p m s)"
    unfolding gv_inv_def
  proof (intro conjI)
    show "gv_outcome_ok now (gv_opened i a p m s)"
      by (rule outcome_ok_upd [where s = s and i = i and q = p])
        (use assms(2) ch_create(3,5) in \<open>auto simp: gv_inv_def gv_opened_def gv_fresh_def intro: passes_cong\<close>)
  qed (use assms(2) ch_create new in \<open>auto simp: gv_inv_def intro: votes_ok_opened counts_ok_opened\<close>)
  then show ?thesis by (rule inv_same [OF ch_create(6)])
next
  case (ch_vote i p v n m b)
  let ?q = "if b then p\<lparr>gp_votes_for := gp_votes_for p + n\<rparr> else p\<lparr>gp_votes_against := gp_votes_against p + n\<rparr>"
  have "gv_inv now (gv_voted i v b n m p s)"
    unfolding gv_inv_def
  proof (intro conjI)
    show "gv_votes_ok (gv_voted i v b n m p s)"
      using assms(2) ch_vote window_weight by (auto simp: gv_inv_def intro: votes_ok_voted)
    show "gv_counts_ok (gv_voted i v b n m p s)"
      by (rule counts_ok_restate [where s = s and i = i and p = p and q = ?q])
        (use assms(2) ch_vote(1) in \<open>auto simp: gv_inv_def gv_voted_def gp_open_def\<close>)
    show "gv_outcome_ok now (gv_voted i v b n m p s)"
      by (rule outcome_ok_upd [where s = s and i = i and q = ?q])
        (use assms(2) ch_vote(2) in \<open>auto simp: gv_inv_def gv_voted_def intro: passes_cong split: if_splits\<close>)
  qed
  then show ?thesis by (rule inv_same [OF ch_vote(7)])
next
  case (ch_queue i p tg fn xs h)
  let ?q = "p\<lparr>gp_status := PsQueued, gp_op_id := h\<rparr>"
  let ?s = "s\<lparr>gv_proposal := (gv_proposal s)(i \<mapsto> ?q)\<rparr>"
  have pass: "gv_passes i ?q ?s = gv_passes i p s" by (rule passes_cong) simp_all
  have "gv_inv now ?s"
    unfolding gv_inv_def
  proof (intro conjI)
    show "gv_votes_ok ?s" using assms(2) ch_queue(1) by (auto simp: gv_inv_def intro: votes_ok_restate)
    show "gv_counts_ok ?s"
      by (rule counts_ok_restate [where s = s and i = i and p = p and q = ?q])
        (use assms(2) ch_queue(1,2) in \<open>auto simp: gv_inv_def gp_open_def\<close>)
    show "gv_outcome_ok now ?s"
      by (rule outcome_ok_upd [where s = s and i = i and q = ?q])
        (use assms(2) ch_queue pass in \<open>auto simp: gv_inv_def intro: passes_cong\<close>)
  qed
  then show ?thesis by (rule inv_same [OF ch_queue(6)])
next
  case (ch_close i p st)
  let ?q = "p\<lparr>gp_status := st\<rparr>"
  have pass: "gv_passes i ?q (gv_close i ?q s) = gv_passes i p s" by (rule passes_cong) (simp_all add: close_frame)
  have old: "gv_outcome_ok now s" using assms(2) by (simp add: gv_inv_def)
  have open_p: "gp_open p" using ch_close(2) gv_outcome_okD(1) [OF old ch_close(1)] by (auto simp: gp_open_def)
  have "gv_inv now (gv_close i ?q s)"
    unfolding gv_inv_def
  proof (intro conjI)
    show "gv_votes_ok (gv_close i ?q s)" using assms(2) ch_close(1) by (auto simp: gv_inv_def intro: votes_ok_close)
    show "gv_counts_ok (gv_close i ?q s)"
      by (rule counts_ok_close [OF _ ch_close(1) open_p]) (use assms(2) ch_close(3) in \<open>auto simp: gv_inv_def gp_open_def\<close>)
    show "gv_outcome_ok now (gv_close i ?q s)"
    proof (rule outcome_ok_upd [where s = s and i = i and q = ?q, OF old])
      show "gp_status ?q \<in> {PsQueued, PsExecuted} \<Longrightarrow> gp_voting_ends_at ?q \<le> now \<and> gv_passes i ?q (gv_close i ?q s) = Inr True"
        using ch_close(3,4) gv_outcome_okD(3) [OF old ch_close(1)] pass by auto
      show "gp_status ?q = PsFailed \<Longrightarrow> gp_voting_ends_at ?q \<le> now \<and> gv_passes i ?q (gv_close i ?q s) = Inr False"
        using ch_close(3,4) pass by auto
    qed (use ch_close(3) in \<open>auto simp: close_frame intro: passes_cong\<close>)
  qed
  then show ?thesis by (rule inv_same [OF ch_close(5)])
qed

lemma gv_reach_inv: "gv_reach t s w \<Longrightarrow> gv_inv t s"
proof (induction rule: gv_reach.induct)
  case (gv_begin w)
  show ?case
    by (simp add: gv_inv_def gv_votes_ok_def gv_counts_ok_def gv_outcome_ok_def gov_empty_def gv_open_set_def
        gv_open_of_def gv_ballots_def gv_weighted_total_def gv_raw_total_def)
next
  case (gv_step t s w env P c s' w')
  have "gv_inv (ledger_ts env) s" using gv_step.IH gv_step.hyps(2) by (auto simp: gv_inv_def intro: outcome_ok_mono)
  with gv_exec_change [OF gv_step.hyps(3)] show ?case by (rule inv_change)
qed

end
