(* ===== verification/GovernanceProps.thy ===== *)
theory GovernanceProps
  imports GovernanceInv
begin

text \<open>
  The properties of the governance contract, with a concrete vote: what decides a proposal, that
  its outcome is final, what only a passed proposal can change, the cap on open proposals, the
  arbitrator registry.
\<close>

section \<open>What a call keeps\<close>

definition gv_aux where
  "gv_aux s = (gv_arb s, gv_arb_at s, gv_arb_count s, gv_arb_index s, gv_arb_list s,
     gv_status_count s PsActive, gv_status_count s PsCancelled)"

definition gv_settings where
  "gv_settings s = (gv_fee s, gv_auto_release s, gv_asset s)"

text \<open>Updates of the voting state touch neither the registry nor the settings.\<close>

lemma aux_upd [simp]:
  "gv_aux (gv_count_update f1 s) = gv_aux s"
  "gv_aux (gv_proposal_update f2 s) = gv_aux s"
  "gv_aux (gv_active_of_update f3 s) = gv_aux s"
  "gv_aux (gv_active_total_update f4 s) = gv_aux s"
  "gv_aux (gv_custom_update f5 s) = gv_aux s"
  "gv_aux (gv_deposit_of_update f6 s) = gv_aux s"
  "gv_aux (gv_treasury_update f7 s) = gv_aux s"
  "gv_aux (gv_vote_of_update f8 s) = gv_aux s"
  "gv_aux (gv_weight_of_update f9 s) = gv_aux s"
  "gv_aux (gv_mult_of_update f10 s) = gv_aux s"
  "gv_aux (gv_vote_times_update f11 s) = gv_aux s"
  "gv_aux (gv_weighted_for_update f12 s) = gv_aux s"
  "gv_aux (gv_weighted_against_update f13 s) = gv_aux s"
  "gv_aux (gv_cooldown_update f14 s) = gv_aux s"
  "gv_aux (gv_cancels_update f15 s) = gv_aux s"
  "gv_aux (gv_cancel_times_update f16 s) = gv_aux s"
  "gv_aux (gv_by_status_update f17 s) = gv_aux s"
  by (simp_all add: gv_aux_def)

lemma settings_upd [simp]:
  "gv_settings (gv_count_update f18 s) = gv_settings s"
  "gv_settings (gv_proposal_update f19 s) = gv_settings s"
  "gv_settings (gv_active_of_update f20 s) = gv_settings s"
  "gv_settings (gv_active_total_update f21 s) = gv_settings s"
  "gv_settings (gv_custom_update f22 s) = gv_settings s"
  "gv_settings (gv_deposit_of_update f23 s) = gv_settings s"
  "gv_settings (gv_treasury_update f24 s) = gv_settings s"
  "gv_settings (gv_vote_of_update f25 s) = gv_settings s"
  "gv_settings (gv_weight_of_update f26 s) = gv_settings s"
  "gv_settings (gv_mult_of_update f27 s) = gv_settings s"
  "gv_settings (gv_vote_times_update f28 s) = gv_settings s"
  "gv_settings (gv_weighted_for_update f29 s) = gv_settings s"
  "gv_settings (gv_weighted_against_update f30 s) = gv_settings s"
  "gv_settings (gv_cooldown_update f31 s) = gv_settings s"
  "gv_settings (gv_cancels_update f32 s) = gv_settings s"
  "gv_settings (gv_cancel_times_update f33 s) = gv_settings s"
  "gv_settings (gv_by_status_update f34 s) = gv_settings s"
  "gv_settings (gv_status_count_update f35 s) = gv_settings s"
  by (simp_all add: gv_settings_def)

lemma note_deposit_aux [simp]:
  "gv_aux (gv_note_deposit i s) = gv_aux s" "gv_settings (gv_note_deposit i s) = gv_settings s"
  by (simp_all add: gv_note_deposit_def gv_aux_def gv_settings_def Let_def)

lemma close_aux [simp]: "gv_aux (gv_close i p s) = gv_aux s" "gv_settings (gv_close i p s) = gv_settings s"
  by (simp_all add: gv_close_def gv_decrement_def gv_aux_def gv_settings_def Let_def)

lemma transition_aux:
  "gv_transition st p s = Inr (p', s') \<Longrightarrow> st \<notin> {PsActive, PsCancelled} \<Longrightarrow>
   gv_aux s' = gv_aux s \<and> gv_settings s' = gv_settings s"
  by (auto simp: gv_transition_def gv_aux_def gv_settings_def Let_def res_simps)

lemma apply_aux: "gv_apply_action P env a i (s, w) = Inr (s', w') \<Longrightarrow> gv_aux s' = gv_aux s"
  by (cases a) (auto simp: gv_apply_action_def gv_aux_def res_simps)

lemma create_aux:
  assumes "gv_create_proposal P env a ti h ac (s, w) = Inr (i, s', w')"
  shows "gv_aux s' = gv_aux s \<and> gv_settings s' = gv_settings s"
proof -
  obtain s1 where s1: "gv_note_custom P i ac s w = Inr s1" "gv_aux s' = gv_aux s1" "gv_settings s' = gv_settings s1"
    using assms
    by (auto simp: gv_create_proposal_def Let_def res_simps(1-4) checked_u32_Some checked_u64_Some arith_u32_Inr)
  with note_custom_Inr [OF s1(1)] show ?thesis by auto
qed

lemma vote_aux: "gv_vote P env v i b (s, w) = Inr s' \<Longrightarrow> gv_aux s' = gv_aux s \<and> gv_settings s' = gv_settings s"
  by (cases b) (auto simp: gv_vote_def gv_get_proposal_def Let_def res_simps(1-4) split_beta)

lemma cancel_aux:
  assumes "gv_cancel_proposal P env i m (s, w) = Inr (s', w')"
  shows "gv_aux s' = gv_aux s \<and> gv_settings s' = gv_settings s"
proof -
  have slash: "gv_aux s2 = gv_aux s1 \<and> gv_settings s2 = gv_settings s1" if "gv_slash_deposit i s1 = Inr s2" for s1 s2
    using that by (auto simp: gv_slash_deposit_def gv_aux_def gv_settings_def Let_def res_simps split: if_splits)
  obtain p s2 where "gv_slash_deposit i (s\<lparr>gv_proposal := (gv_proposal s)(i \<mapsto> p\<lparr>gp_status := PsCancelled\<rparr>)\<rparr>) = Inr s2"
      "gv_aux s' = gv_aux (gv_decrement (gp_proposer p) s2)"
      "gv_settings s' = gv_settings (gv_decrement (gp_proposer p) s2)"
    using assms
    by (auto simp: gv_cancel_proposal_def gv_get_proposal_def gv_record_cancel_def res_simps(1-4)
        checked_u32_Some checked_u64_Some Let_def)
  with slash show ?thesis by (auto simp: gv_decrement_def Let_def)
qed

lemma execute_aux:
  assumes "gv_execute_proposal P env i (s, w) = Inr (s', w')"
  shows "gv_aux s' = gv_aux s"
  using assms
  by (cases rule: gv_execute_elim) (auto dest!: transition_aux apply_aux)

lemma execute_queued_aux: "gv_execute_queued_proposal P env i (s, w) = Inr (s', w') \<Longrightarrow> gv_aux s' = gv_aux s"
  by (auto simp: gv_execute_queued_proposal_def gv_get_proposal_def res_simps(1-4)
      dest!: transition_aux apply_aux)

lemma review_aux:
  assumes "gv_propose_rollback_review P env a ti h e r (s, w) = Inr (i, s', w')"
  shows "gv_aux s' = gv_aux s \<and> gv_settings s' = gv_settings s"
  using assms by (auto simp: gv_propose_rollback_review_def Let_def res_simps dest!: create_aux)

section \<open>Steps and histories\<close>

text \<open>What an applied action does to the settings.\<close>

definition gv_applied :: "prop_action \<Rightarrow> gov_state \<Rightarrow> gov_state \<Rightarrow> bool" where
  "gv_applied a s s' \<longleftrightarrow>
     (case a of
        GaUpdateFee n \<Rightarrow> gv_fee s' = Some n \<and> gv_auto_release s' = gv_auto_release s \<and> gv_asset s' = gv_asset s
      | GaUpdateAutoRelease n \<Rightarrow> gv_fee s' = gv_fee s \<and> gv_auto_release s' = Some n \<and> gv_asset s' = gv_asset s
      | GaAddAsset b \<Rightarrow> gv_fee s' = gv_fee s \<and> gv_auto_release s' = gv_auto_release s \<and>
          gv_asset s' = (gv_asset s)(b \<mapsto> True)
      | _ \<Rightarrow> gv_settings s' = gv_settings s)"

lemma apply_settings:
  "gv_apply_action P env a i (s1, w) = Inr (s2, w') \<Longrightarrow> gv_settings s1 = gv_settings s \<Longrightarrow>
   gv_settings s' = gv_settings s2 \<Longrightarrow> gv_applied a s s'"
  by (cases a) (auto simp: gv_apply_action_def gv_applied_def gv_settings_def res_simps)

lemma close_executed: "gv_proposal (gv_close i p s) i = Some p"
  by (simp add: close_frame)

lemma settings_step:
  assumes "gv_exec P env c (s, w) = Inr (s', w')"
  shows "gv_settings s' = gv_settings s \<or>
    (\<exists>i p. gv_proposal s i = Some p \<and> gp_status p \<in> {PsActive, PsQueued} \<and>
       gv_proposal s' i = Some (p\<lparr>gp_status := PsExecuted\<rparr>) \<and> gv_applied (gp_action p) s s')"
proof (cases c)
  case (GExecute i)
  with assms have "gv_execute_proposal P env i (s, w) = Inr (s', w')" by simp
  then show ?thesis
  proof (cases rule: gv_execute_elim)
    case (failed p s1)
    then show ?thesis using transition_aux [OF failed(5)] by simp
  next
    case (queued p tg fn xs s1 h s2)
    then show ?thesis using transition_aux [OF queued(6)] transition_aux [OF queued(7)] by simp
  next
    case (executed p s1 s2 s3)
    have "gv_applied (gp_action p) s s'"
      by (rule apply_settings [OF executed(6)])
        (use transition_aux [OF executed(5)] transition_aux [OF executed(7)] executed(8) in simp_all)
    then show ?thesis
      using executed(1,2,8) by (intro disjI2 exI [of _ i] exI [of _ p]) (simp add: close_executed)
  qed
next
  case (GExecuteQueued i)
  with assms obtain p s1 p1 s2 where q: "gv_proposal s i = Some p" "gp_status p = PsQueued"
      "gv_apply_action P env (gp_action p) i (s, w) = Inr (s1, w')" "gv_transition PsExecuted p s1 = Inr (p1, s2)"
      "s' = gv_close i p1 s2"
    by (auto simp: gv_execute_queued_proposal_def gv_get_proposal_def res_simps(1-4))
  have "gv_applied (gp_action p) s s'"
    by (rule apply_settings [OF q(3) refl]) (use transition_aux [OF q(4)] q(5) in simp)
  then show ?thesis
    using q(1,2,5) gv_transition_Inr [OF q(4)]
    by (intro disjI2 exI [of _ i] exI [of _ p]) (simp add: close_executed)
next
  case (GCreate a ti h ac)
  with assms show ?thesis by (auto simp: res_simps(1) dest!: create_aux)
next
  case (GVote a i b)
  with assms have "gv_vote P env a i b (s, w) = Inr s'" by (simp add: res_simps)
  from vote_aux [OF this] show ?thesis by blast
next
  case (GReview a ti h e r)
  with assms show ?thesis by (auto simp: res_simps(1) dest!: review_aux)
next
  case (GCancel i m)
  with assms have "gv_cancel_proposal P env i m (s, w) = Inr (s', w')" by simp
  from cancel_aux [OF this] show ?thesis by blast
next
  case (GMigrate a)
  have "gv_settings (snd (foldl (\<lambda>(count, s) a.
              if gv_arb_index s a = None
              then (count + 1, s\<lparr>gv_arb_at := (gv_arb_at s)(count \<mapsto> a),
                                 gv_arb_index := (gv_arb_index s)(a \<mapsto> count)\<rparr>)
              else (count, s)) (n, s) xs)) = gv_settings s" for n :: nat and s :: gov_state and xs
    by (induction xs arbitrary: n s) (simp_all add: gv_settings_def)
  with GMigrate assms show ?thesis
    by (auto simp: gv_migrate_arbitrators_def res_simps Let_def split_beta gv_settings_def split: option.splits)
next
  case (GRegister a b)
  with assms show ?thesis
    by (auto simp: res_simps gv_register_arbitrator_def Let_def gv_settings_def split: if_splits)
next
  case (GUnregister a b)
  with assms show ?thesis
    by (auto simp: res_simps gv_unregister_arbitrator_def Let_def gv_settings_def split: if_splits)
qed (use assms in \<open>force simp: res_simps gv_admin_ops Let_def gv_settings_def\<close>)+

lemma arbs_rep_aux: "gv_aux s' = gv_aux s \<Longrightarrow> arbs_rep s xs \<Longrightarrow> arbs_rep s' xs"
  by (simp add: gv_aux_def arbs_rep_def)

definition gv_unlisted :: "gov_state \<Rightarrow> bool" where
  "gv_unlisted s \<longleftrightarrow> gv_status_count s PsActive = None \<and> gv_status_count s PsCancelled = None"

lemma aux_step:
  assumes "gv_exec P env c (s, w) = Inr (s', w')" "arbs_rep s xs" "gv_unlisted s"
  shows "\<exists>ys. arbs_rep s' ys \<and> gv_unlisted s'"
proof -
  have same: "gv_aux s' = gv_aux s \<Longrightarrow> ?thesis"
    using assms(2,3) arbs_rep_aux by (auto simp: gv_unlisted_def gv_aux_def arbs_rep_def)
  show ?thesis
  proof (cases c)
    case (GRegister a b)
    with assms(1) have r: "gv_register_arbitrator env a b s = Inr s'" by (simp add: res_simps)
    then have "gv_status_count s' = gv_status_count s"
      by (auto simp: res_simps gv_register_arbitrator_def Let_def split: if_splits)
    with register_arbitrator_rep [OF r assms(2)] assms(3) show ?thesis by (auto simp: gv_unlisted_def)
  next
    case (GUnregister a b)
    with assms(1) have r: "gv_unregister_arbitrator env a b s = Inr s'" by (simp add: res_simps)
    then have "gv_status_count s' = gv_status_count s"
      by (auto simp: res_simps gv_unregister_arbitrator_def Let_def split: if_splits)
    with unregister_arbitrator_rep [OF r assms(2)] assms(3) show ?thesis by (auto simp: gv_unlisted_def)
  next
    case (GResolve a i)
    with assms(1) have r: "gv_resolve_appeal env a i s = Inr s'" by (simp add: res_simps)
    then have "gv_status_count s' = gv_status_count s" by (auto simp: res_simps gv_resolve_appeal_def)
    with resolve_appeal_rep [OF r assms(2)] assms(3) show ?thesis by (auto simp: gv_unlisted_def)
  next
    case (GMigrate a)
    with assms(1) have r: "gv_migrate_arbitrators env a s = Inr s'" by (simp add: res_simps)
    from migrate_rep [OF r assms(2)] assms(2,3) show ?thesis by blast
  next
    case (GCreate a ti h ac)
    with assms(1) have "gv_aux s' = gv_aux s" by (auto simp: res_simps(1) dest!: create_aux)
    then show ?thesis by (rule same)
  next
    case (GVote a i b)
    with assms(1) have "gv_vote P env a i b (s, w) = Inr s'" by (simp add: res_simps)
    from vote_aux [OF this] show ?thesis by (intro same) blast
  next
    case (GReview a ti h e r)
    with assms(1) have "gv_aux s' = gv_aux s" by (auto simp: res_simps(1) dest!: review_aux)
    then show ?thesis by (rule same)
  next
    case (GCancel i m)
    with assms(1) have "gv_cancel_proposal P env i m (s, w) = Inr (s', w')" by simp
    from cancel_aux [OF this] show ?thesis by (intro same) blast
  next
    case (GExecute i)
    with assms(1) have "gv_execute_proposal P env i (s, w) = Inr (s', w')" by simp
    from execute_aux [OF this] show ?thesis by (rule same)
  next
    case (GExecuteQueued i)
    with assms(1) have "gv_execute_queued_proposal P env i (s, w) = Inr (s', w')" by simp
    from execute_queued_aux [OF this] show ?thesis by (rule same)
  qed (rule same, use assms(1) in \<open>force simp: res_simps gv_admin_ops Let_def gv_aux_def\<close>)+
qed

lemma reach_aux: "gv_reach t s w \<Longrightarrow> \<exists>xs. arbs_rep s xs \<and> gv_unlisted s"
proof (induction rule: gv_reach.induct)
  case (gv_begin w)
  show ?case by (rule exI [of _ "[]"]) (simp add: arbs_rep_def gov_empty_def gv_unlisted_def)
next
  case (gv_step t s w env P c s' w')
  from gv_step.IH obtain xs where "arbs_rep s xs" "gv_unlisted s" by blast
  with aux_step [OF gv_step.hyps(3)] show ?case by blast
qed

text \<open>Histories from one state to a later one.\<close>

inductive gv_later :: "nat \<Rightarrow> gov_state \<Rightarrow> 'w \<Rightarrow> nat \<Rightarrow> gov_state \<Rightarrow> 'w \<Rightarrow> bool" where
  later_refl: "gv_later t s w t s w"
| later_step: "gv_later t s w t1 s1 w1 \<Longrightarrow> t1 \<le> ledger_ts env \<Longrightarrow> gv_exec P env c (s1, w1) = Inr (s2, w2) \<Longrightarrow>
     gv_later t s w (ledger_ts env) s2 w2"
| later_other: "gv_later t s w t1 s1 w1 \<Longrightarrow> gv_later t s w t1 s1 w2"

lemma later_reach: "gv_later t s w t' s' w' \<Longrightarrow> gv_reach t s w \<Longrightarrow> gv_reach t' s' w'"
  by (induction rule: gv_later.induct) (auto intro: gv_step gv_other)

definition ps_final :: "prop_status \<Rightarrow> bool" where
  "ps_final st \<longleftrightarrow> st \<in> {PsFailed, PsExecuted, PsCancelled}"

text \<open>How the record of a proposal can change in a step.\<close>

definition gp_next :: "gov_proposal \<Rightarrow> gov_proposal \<Rightarrow> bool" where
  "gp_next p q \<longleftrightarrow> gp_id q = gp_id p \<and> gp_proposer q = gp_proposer p \<and> gp_action q = gp_action p \<and>
     gp_supply q = gp_supply p \<and> gp_created_at q = gp_created_at p \<and> gp_voting_ends_at q = gp_voting_ends_at p \<and>
     (ps_final (gp_status p) \<longrightarrow> q = p) \<and> (gp_status p = PsQueued \<longrightarrow> gp_status q \<in> {PsQueued, PsExecuted, PsCancelled}) \<and>
     gp_votes_for p \<le> gp_votes_for q \<and> gp_votes_against p \<le> gp_votes_against q"

lemma change_next:
  assumes "gv_change now s s'" "gv_proposal s i = Some p" "gv_inv t s"
  shows "\<exists>q. gv_proposal s' i = Some q \<and> gp_next p q"
  using assms(1)
proof cases
  case ch_same
  then show ?thesis using assms(2) gv_sameD(1) by (auto simp: gp_next_def)
next
  case (ch_init x y z)
  then show ?thesis using assms(2,3) by (simp add: gv_inv_def gv_counts_ok_def)
next
  case (ch_create j a q m)
  have "j \<noteq> i"
    using assms(2,3) ch_create(2) by (metis atLeastAtMost_iff domI gv_counts_okD(1) gv_inv_def less_add_one not_le)
  then show ?thesis using assms(2) gv_sameD(1) [OF ch_create(6)] by (auto simp: gv_opened_def gp_next_def)
next
  case (ch_vote j q v n m b)
  then show ?thesis
    using assms(2) gv_sameD(1) [OF ch_vote(7)] by (cases "j = i") (auto simp: gv_voted_def gp_next_def ps_final_def)
next
  case (ch_queue j q tg fn xs h)
  then show ?thesis
    using assms(2) gv_sameD(1) [OF ch_queue(6)] by (cases "j = i") (auto simp: gp_next_def ps_final_def)
next
  case (ch_close j q st)
  then show ?thesis
    using assms(2) gv_sameD(1) [OF ch_close(5)] by (cases "j = i") (auto simp: close_frame gp_next_def ps_final_def)
qed

lemma later_next:
  "gv_later t s w t' s' w' \<Longrightarrow> gv_reach t s w \<Longrightarrow> gv_proposal s i = Some p \<Longrightarrow>
   \<exists>q. gv_proposal s' i = Some q \<and> gp_next p q"
proof (induction rule: gv_later.induct)
  case (later_step t s w t1 s1 w1 env P c s2 w2)
  then obtain q where q: "gv_proposal s1 i = Some q" "gp_next p q" by blast
  have "gv_inv t1 s1" by (rule gv_reach_inv [OF later_reach [OF later_step.hyps(1) later_step.prems(1)]])
  from change_next [OF gv_exec_change [OF later_step.hyps(3)] q(1) this] q(2)
  show ?case by (fastforce simp: gp_next_def ps_final_def)
qed (auto simp: gp_next_def)

section \<open>A concrete vote\<close>

text \<open>
  Account 1 is the admin; 1000 tokens are staked; account 2 has 200 votes, account 3 has 150.
\<close>

definition gv_demo_peers :: "unit gov_peers" where
  "gv_demo_peers = \<lparr>pe_record_snapshot = (\<lambda>env a i w. Inr w), pe_total_supply_at = (\<lambda>a i w. Inr 1000),
     pe_snapshot_balance = (\<lambda>a i v w. Inr 0),
     pe_voting_power = (\<lambda>a i v w. Inr (if v = 2 then 200 else if v = 3 then 150 else 0)),
     pe_delegated_power = (\<lambda>a v i w. Inr 0), pe_template_hash = (\<lambda>a t f w. Inr None),
     pe_staked_at = (\<lambda>a v w. None), pe_schedule = (\<lambda>env a p t f xs d w. Inr (0, w)),
     pe_action = (\<lambda>a i w. Inl HostError), pe_threshold = (\<lambda>a w. Inl HostError),
     pe_invoke = (\<lambda>env a f xs w. Inr w)\<rparr>"

fun gv_play :: "'w gov_peers \<Rightarrow> (env \<times> gv_call) list \<Rightarrow> gov_state \<times> 'w \<Rightarrow> (gov_state \<times> 'w) gov_res" where
  "gv_play P [] x = Inr x"
| "gv_play P ((env, c) # cs) x = rbind (gv_exec P env c x) (gv_play P cs)"

lemma gv_play_later:
  "gv_play P cs (s1, w1) = Inr (s2, w2) \<Longrightarrow> gv_later t s w t1 s1 w1 \<Longrightarrow> sorted (t1 # map (ledger_ts \<circ> fst) cs) \<Longrightarrow>
   gv_later t s w (last (t1 # map (ledger_ts \<circ> fst) cs)) s2 w2"
proof (induction cs arbitrary: t1 s1 w1)
  case (Cons x cs)
  obtain env c where x: "x = (env, c)" by (cases x)
  with Cons.prems(1) obtain s3 w3 where 1: "gv_exec P env c (s1, w1) = Inr (s3, w3)" "gv_play P cs (s3, w3) = Inr (s2, w2)"
    by (auto simp: res_simps)
  have "gv_later t s w (ledger_ts env) s3 w3"
    by (rule later_step [OF Cons.prems(2) _ 1(1)]) (use Cons.prems(3) x in auto)
  from Cons.IH [OF 1(2) this] Cons.prems(3) show ?case by (simp add: x)
qed simp

lemma gv_play_append: "gv_play P (xs @ ys) x = rbind (gv_play P xs x) (gv_play P ys)"
  by (induction P xs x rule: gv_play.induct) (auto simp: rbind_def split: sum.splits)

definition gv_setup :: "(env \<times> gv_call) list" where
  "gv_setup = [(demo_env 0 [], GInit 1 50 60 70 None None None None None),
     (demo_env 0 [1], GRegister 1 8), (demo_env 0 [2], GCreate 2 [] 0 (GaUpdateFee 700))]"

definition gv_ballot :: "(env \<times> gv_call) list" where
  "gv_ballot = [(demo_env 100 [2], GVote 2 1 False), (demo_env 400000 [3], GVote 3 1 True)]"

definition gv_closing :: "(env \<times> gv_call) list" where
  "gv_closing = [(demo_env 604800 [], GExecute 1)]"

lemmas gv_eval =
  gv_demo_peers_def gv_setup_def gv_ballot_def gv_closing_def gov_empty_def gv_initialize_def
  gv_register_arbitrator_def gv_assert_admin_def ensure_dispute_independence_def
  DISPUTE_INDEPENDENCE_RISK_THRESHOLD_def gv_create_proposal_def gv_holding_ok_def gv_note_custom_def
  gv_note_deposit_def gv_vote_def gv_get_proposal_def gv_get_voting_window_def gv_window_def gv_world_def
  gv_execute_proposal_def gv_passes_def gv_quorum_bps_def gv_transition_def ps_valid_transition_def
  gv_apply_action_def gv_close_def gv_decrement_def Let_def width_defs checked_div_i128_def trunc_div_def
  DEFAULT_VOTING_PERIOD_SECS_def DEFAULT_QUORUM_BPS_def EARLY_WINDOW_END_BPS_def EARLY_WEIGHT_BPS_def
  MID_WINDOW_END_BPS_def MID_WEIGHT_BPS_def LATE_WEIGHT_BPS_def COORDINATED_VOTE_HISTORY_def

lemma gv_ballot_run:
  "\<exists>s p. gv_play gv_demo_peers (gv_setup @ gv_ballot) (gov_empty, ()) = Inr (s, ()) \<and> gv_proposal s 1 = Some p \<and>
     gp_status p = PsActive \<and> gp_votes_for p = 150 \<and> gp_votes_against p = 200 \<and> gv_fee s = None \<and>
     gv_vote_of s = [(1, 2) \<mapsto> False, (1, 3) \<mapsto> True] \<and> gv_active_total s = Some 1"
  by (simp add: gv_eval)

lemma gv_full_run:
  "\<exists>s p. gv_play gv_demo_peers (gv_setup @ gv_ballot @ gv_closing) (gov_empty, ()) = Inr (s, ()) \<and>
     gv_proposal s 1 = Some p \<and> gp_status p = PsExecuted \<and> gp_votes_for p = 150 \<and> gp_votes_against p = 200 \<and>
     gv_fee s = Some 700"
  by (simp add: gv_eval)

lemma gv_ballot_reach:
  obtains s p where "gv_play gv_demo_peers (gv_setup @ gv_ballot) (gov_empty, ()) = Inr (s, ())"
    "gv_reach 400000 s ()" "gv_proposal s 1 = Some p" "gp_status p = PsActive" "gp_votes_for p = 150"
    "gp_votes_against p = 200" "gv_fee s = None" "gv_vote_of s = [(1, 2) \<mapsto> False, (1, 3) \<mapsto> True]"
    "gv_active_total s = Some 1"
proof -
  obtain s p where run: "gv_play gv_demo_peers (gv_setup @ gv_ballot) (gov_empty, ()) = Inr (s, ())"
      and s: "gv_proposal s 1 = Some p" "gp_status p = PsActive" "gp_votes_for p = 150"
        "gp_votes_against p = 200" "gv_fee s = None" "gv_vote_of s = [(1, 2) \<mapsto> False, (1, 3) \<mapsto> True]"
        "gv_active_total s = Some 1"
    using gv_ballot_run by blast
  have "gv_later 0 gov_empty () 400000 s ()"
    using gv_play_later [OF run later_refl] by (simp add: gv_setup_def gv_ballot_def)
  from later_reach [OF this gv_begin] run s show thesis by (intro that)
qed

lemma gv_closing_later:
  obtains s p s' q where "gv_reach 400000 s ()" "gv_later 400000 s () 604800 s' ()" "gv_proposal s 1 = Some p"
    "gp_votes_for p = 150" "gp_votes_against p = 200" "gv_fee s = None"
    "gv_exec gv_demo_peers (demo_env 604800 []) (GExecute 1) (s, ()) = Inr (s', ())"
    "gv_proposal s' 1 = Some q" "gp_status q = PsExecuted" "gv_fee s' = Some 700"
proof -
  obtain s p where s: "gv_play gv_demo_peers (gv_setup @ gv_ballot) (gov_empty, ()) = Inr (s, ())"
    "gv_reach 400000 s ()" "gv_proposal s 1 = Some p" "gp_votes_for p = 150" "gp_votes_against p = 200" "gv_fee s = None"
    by (rule gv_ballot_reach)
  obtain s' q where full: "gv_play gv_demo_peers (gv_setup @ gv_ballot @ gv_closing) (gov_empty, ()) = Inr (s', ())"
      and s': "gv_proposal s' 1 = Some q" "gp_status q = PsExecuted" "gv_fee s' = Some 700"
    using gv_full_run by blast
  have play: "gv_play gv_demo_peers gv_closing (s, ()) = Inr (s', ())"
    using full unfolding append_assoc [symmetric] gv_play_append [of _ "gv_setup @ gv_ballot"] s(1) by simp
  have exec: "gv_exec gv_demo_peers (demo_env 604800 []) (GExecute 1) (s, ()) = Inr (s', ())"
    using play unfolding gv_closing_def gv_play.simps by (auto simp: res_simps(1) simp del: gv_exec.simps)
  have "gv_later 400000 s () 604800 s' ()"
    using gv_play_later [OF play later_refl, of 400000] by (simp add: gv_closing_def)
  from that [OF s(2) this s(3-6) exec s'] show thesis .
qed


section \<open>What decided a proposal\<close>

lemma outcome_decided:
  assumes "gv_reach t s w" "gv_proposal s i = Some p"
  defines "votes_for \<equiv> gv_weighted_total s i True" and "votes_against \<equiv> gv_weighted_total s i False"
    and "quorum \<equiv> case gp_action p of GaApproveRollback _ _ \<Rightarrow> 5000
      | _ \<Rightarrow> if get_or False (gv_custom s i) then 3000 else get_or 1000 (gv_quorum s)"
  defines "wins \<equiv> 0 < gp_supply p \<and> gp_supply p * int quorum \<le> (votes_for + votes_against) * 10000 \<and>
      votes_against < votes_for"
  shows "(gp_status p \<in> {PsQueued, PsExecuted} \<longrightarrow> wins \<and> gp_voting_ends_at p \<le> t) \<and>
    (gp_status p = PsFailed \<longrightarrow> \<not> wins \<and> gp_voting_ends_at p \<le> t) \<and> gp_status p \<noteq> PsPassed \<and>
    (gp_status p = PsQueued \<longrightarrow> (\<exists>tg fn xs. gp_action p = GaExecuteCall tg fn xs))"
proof -
  have inv: "gv_votes_ok s" "gv_outcome_ok t s" using gv_reach_inv [OF assms(1)] by (simp_all add: gv_inv_def)
  note D = gv_votes_okD [OF inv(1)]
  have total: "get_or (gp_votes_for p) (gv_weighted_for s i) = votes_for"
      "get_or (gp_votes_against p) (gv_weighted_against s i) = votes_against"
    using D(4-7) [of i] D(8) [OF assms(2)]
    by (cases "gv_weighted_for s i"; cases "gv_weighted_against s i";
        simp add: votes_for_def votes_against_def gv_raw_total_def gv_weighted_total_def)+
  have quo: "gv_quorum_bps i p s = quorum"
    by (cases "gp_action p") (simp_all add: gv_quorum_bps_def quorum_def GOV_ROLLBACK_QUORUM_BPS_def CUSTOM_PROPOSAL_QUORUM_BPS_def
        DEFAULT_QUORUM_BPS_def)
  have pass: "gv_passes i p s = Inr b \<Longrightarrow> b = wins" for b
    unfolding gv_passes_def Let_def total quo by (auto simp: res_simps wins_def split: if_splits)
  show ?thesis using gv_outcome_okD [OF inv(2) assms(2)] pass by blast
qed

section \<open>Properties\<close>

text \<open>
  C31. Votes are counted exactly once. In every reachable state the totals of a proposal are the sums of
  the recorded voting powers on each side, the weighted totals are the sums of the powers scaled by
  the recorded multiplier (80, 100 or 110 percent) and rounded down, all over finitely many
  voters with positive power; a further vote is only accepted from an address that has not voted on the
  proposal and signs, and before the end of the voting period.
\<close>

theorem gov_votes_counted:
  assumes "gv_reach t s w" "gv_proposal s i = Some p"
  defines "voters \<equiv> \<lambda>b. {v. gv_vote_of s (i, v) = Some b}"
    and "strength \<equiv> \<lambda>v. get_or 0 (gv_weight_of s (i, v))"
    and "scale \<equiv> \<lambda>v. get_or 0 (gv_mult_of s (i, v))"
  shows "finite (voters b) \<and> (\<forall>v \<in> voters b. 0 < strength v \<and> scale v \<in> {8000, 10000, 11000}) \<and>
    gp_votes_for p = (\<Sum>v \<in> voters True. strength v) \<and> gp_votes_against p = (\<Sum>v \<in> voters False. strength v) \<and>
    get_or 0 (gv_weighted_for s i) = (\<Sum>v \<in> voters True. strength v * int (scale v) div 10000) \<and>
    get_or 0 (gv_weighted_against s i) = (\<Sum>v \<in> voters False. strength v * int (scale v) div 10000) \<and>
    (\<forall>P env v c w' s'. gv_vote P env v i c (s, w') = Inr s' \<longrightarrow>
       v \<notin> voters True \<union> voters False \<and> auth_by env v \<and> ledger_ts env < gp_voting_ends_at p)"
proof -
  have ok: "gv_votes_ok s" using gv_reach_inv [OF assms(1)] by (simp add: gv_inv_def)
  note D = gv_votes_okD [OF ok]
  have dom: "dom (gv_ballots s i c) = voters c" for c by (auto simp: gv_ballots_def voters_def split: if_splits)
  have bal: "gv_ballots s i c v = Some (strength v, scale v)" if "v \<in> voters c" for c v
    using that by (simp add: gv_ballots_def voters_def strength_def scale_def)
  have raw: "gv_raw_total s i c = (\<Sum>v \<in> voters c. strength v)" for c
    unfolding gv_raw_total_def wsum_def dom by (rule sum.cong) (simp_all add: bal)
  have wei: "gv_weighted_total s i c = (\<Sum>v \<in> voters c. strength v * int (scale v) div 10000)" for c
    unfolding gv_weighted_total_def wsum_def dom by (rule sum.cong) (simp_all add: bal gv_weighted_vote_def)
  have once: "v \<notin> voters True \<union> voters False \<and> auth_by env v \<and> ledger_ts env < gp_voting_ends_at p"
    if "gv_vote P env v i c (s, w') = Inr s'" for P env v c w' s'
    using gv_vote_change [OF that] assms(2) by (auto simp: voters_def)
  have fin: "finite (voters b)" using ballots_finite [OF D(1)] dom by metis
  have pos: "\<forall>v \<in> voters b. 0 < strength v \<and> scale v \<in> {8000, 10000, 11000}" using D(3) bal by blast
  show ?thesis
    using fin pos D(8) [OF assms(2)] D(4) [of i] D(6) [of i] once unfolding raw wei by blast
qed

theorem gov_votes_counted_witness:
  "\<exists>s p. gv_reach 400000 s () \<and> gv_proposal s 1 = Some p \<and>
     gp_votes_against p = (\<Sum>v \<in> {v. gv_vote_of s (1, v) = Some False}. get_or 0 (gv_weight_of s (1, v)))"
proof -
  obtain s p where s: "gv_reach 400000 s ()" "gv_proposal s 1 = Some p" by (rule gv_ballot_reach)
  with gov_votes_counted [OF s] show ?thesis by blast
qed

text \<open>
  C30. What decides a proposal. In every reachable state a proposal that is queued or executed has reached
  its quorum and has a strict weighted majority, a failed one has not, and in both cases its voting
  period is over; the quorum is 50 percent for a rollback, 30 percent for a call without template, and
  the configured one otherwise. Only calls are ever queued. The README of the contract gives the
  30 percent for rollback proposals; the code tests for a rollback first and applies
  \<open>ROLLBACK_GOVERNANCE_QUORUM_BPS\<close>, so a rollback needs 50 percent although it is marked as
  a custom proposal too.
\<close>

theorem gov_outcome:
  assumes "gv_reach t s w" "gv_proposal s i = Some p"
  defines "votes_for \<equiv> gv_weighted_total s i True" and "votes_against \<equiv> gv_weighted_total s i False"
    and "quorum \<equiv> case gp_action p of GaApproveRollback _ _ \<Rightarrow> 5000
      | _ \<Rightarrow> if get_or False (gv_custom s i) then 3000 else get_or 1000 (gv_quorum s)"
  defines "wins \<equiv> 0 < gp_supply p \<and> gp_supply p * int quorum \<le> (votes_for + votes_against) * 10000 \<and>
      votes_against < votes_for"
  shows "(gp_status p \<in> {PsQueued, PsExecuted} \<longrightarrow> wins \<and> gp_voting_ends_at p \<le> t) \<and>
    (gp_status p = PsFailed \<longrightarrow> \<not> wins \<and> gp_voting_ends_at p \<le> t) \<and> gp_status p \<noteq> PsPassed \<and>
    (gp_status p = PsQueued \<longrightarrow> (\<exists>tg fn xs. gp_action p = GaExecuteCall tg fn xs))"
  unfolding assms(3-6) by (rule outcome_decided [OF assms(1,2)])

theorem gov_outcome_witness:
  "\<exists>s p. gv_proposal s 1 = Some p \<and> gp_status p = PsExecuted \<and> 0 < gp_supply p \<and>
     gv_weighted_total s 1 False < gv_weighted_total s 1 True"
proof -
  obtain s p s' q where run: "gv_reach 400000 s ()" "gv_later 400000 s () 604800 s' ()"
      "gv_proposal s' 1 = Some q" "gp_status q = PsExecuted"
    by (rule gv_closing_later)
  from gov_outcome [OF later_reach [OF run(2,1)] run(3)] run(4) show ?thesis using run(3) by blast
qed

text \<open>
  C32. Outcomes are final. In every history from a reachable state a proposal stays recorded with the same
  action, proposer, supply and voting period, its vote counts never decrease, a failed, executed or
  cancelled proposal never changes again, and a queued one can only be executed or cancelled.
\<close>

theorem gov_final:
  assumes "gv_reach t s w" "gv_later t s w t' s' w'" "gv_proposal s i = Some p"
  shows "\<exists>q. gv_proposal s' i = Some q \<and> gp_action q = gp_action p \<and> gp_proposer q = gp_proposer p \<and>
    gp_supply q = gp_supply p \<and> gp_voting_ends_at q = gp_voting_ends_at p \<and>
    gp_votes_for p \<le> gp_votes_for q \<and> gp_votes_against p \<le> gp_votes_against q \<and>
    (gp_status p \<in> {PsFailed, PsExecuted, PsCancelled} \<longrightarrow> q = p) \<and>
    (gp_status p = PsQueued \<longrightarrow> gp_status q \<in> {PsQueued, PsExecuted, PsCancelled})"
  using later_next [OF assms(2,1,3)] by (auto simp: gp_next_def ps_final_def)

theorem gov_final_witness:
  "\<exists>s s' p q. gv_later 400000 s () 604800 s' () \<and> gv_proposal s 1 = Some p \<and> gv_proposal s' 1 = Some q \<and>
     gp_action q = gp_action p \<and> gp_status q = PsExecuted"
proof -
  obtain s p s' q where run: "gv_reach 400000 s ()" "gv_later 400000 s () 604800 s' ()" "gv_proposal s 1 = Some p"
      "gv_proposal s' 1 = Some q" "gp_status q = PsExecuted"
    by (rule gv_closing_later)
  from gov_final [OF run(1,2,3)] run show ?thesis by fastforce
qed

text \<open>
  Only a passed proposal changes the settings. When a call changes the fee, the release delay or the
  approved assets, it executes a proposal that was active or queued, has reached its quorum and a
  weighted majority, and the change is exactly the one its action describes.
\<close>

theorem gov_settings_change:
  assumes "gv_reach t s w" "t \<le> ledger_ts env" "gv_exec P env c (s, w) = Inr (s', w')"
    "(gv_fee s', gv_auto_release s', gv_asset s') \<noteq> (gv_fee s, gv_auto_release s, gv_asset s)"
  shows "\<exists>i p. gv_proposal s i = Some p \<and> gp_status p \<in> {PsActive, PsQueued} \<and>
    gv_proposal s' i = Some (p\<lparr>gp_status := PsExecuted\<rparr>) \<and> gp_voting_ends_at p \<le> ledger_ts env \<and>
    gv_weighted_total s' i False < gv_weighted_total s' i True \<and>
    (gv_fee s', gv_auto_release s', gv_asset s') =
      (case gp_action p of
         GaUpdateFee n \<Rightarrow> (Some n, gv_auto_release s, gv_asset s)
       | GaUpdateAutoRelease n \<Rightarrow> (gv_fee s, Some n, gv_asset s)
       | GaAddAsset a \<Rightarrow> (gv_fee s, gv_auto_release s, (gv_asset s)(a \<mapsto> True)))"
proof -
  from settings_step [OF assms(3)] assms(4) obtain i p where
    p: "gv_proposal s i = Some p" "gp_status p \<in> {PsActive, PsQueued}"
      "gv_proposal s' i = Some (p\<lparr>gp_status := PsExecuted\<rparr>)" "gv_applied (gp_action p) s s'"
    by (auto simp: gv_settings_def)
  have reach: "gv_reach (ledger_ts env) s' w'" by (rule gv_step [OF assms(1-3)])
  have inv: "gv_votes_ok s'" "gv_outcome_ok (ledger_ts env) s'"
    using gv_reach_inv [OF reach] by (simp_all add: gv_inv_def)
  note D = gv_votes_okD [OF inv(1)]
  have "gp_voting_ends_at p \<le> ledger_ts env" "gv_passes i (p\<lparr>gp_status := PsExecuted\<rparr>) s' = Inr True"
    using gv_outcome_okD(3) [OF inv(2) p(3)] by simp_all
  moreover from this(2) have "gv_weighted_total s' i False < gv_weighted_total s' i True"
    using D(4-7) [of i] D(8) [OF p(3)]
    by (cases "gv_weighted_for s' i"; cases "gv_weighted_against s' i";
        auto simp: gv_passes_def Let_def res_simps gv_raw_total_def gv_weighted_total_def)
  moreover have "(gv_fee s', gv_auto_release s', gv_asset s') =
      (case gp_action p of
         GaUpdateFee n \<Rightarrow> (Some n, gv_auto_release s, gv_asset s)
       | GaUpdateAutoRelease n \<Rightarrow> (gv_fee s, Some n, gv_asset s)
       | GaAddAsset a \<Rightarrow> (gv_fee s, gv_auto_release s, (gv_asset s)(a \<mapsto> True)))"
    using p(4) assms(4) by (cases "gp_action p") (auto simp: gv_applied_def gv_settings_def)
  ultimately show ?thesis using p(1-3) by blast
qed

theorem gov_settings_change_witness:
  "\<exists>(s :: gov_state) s' i. gv_fee s = None \<and> gv_fee s' = Some 700 \<and> gv_weighted_total s' i False < gv_weighted_total s' i True"
proof -
  obtain s p s' q where run: "gv_reach 400000 s ()" "gv_proposal s 1 = Some p" "gv_fee s = None"
      "gv_exec gv_demo_peers (demo_env 604800 []) (GExecute 1) (s, ()) = Inr (s', ())" "gv_fee s' = Some 700"
    by (rule gv_closing_later)
  have "400000 \<le> ledger_ts (demo_env 604800 [])"
    "(gv_fee s', gv_auto_release s', gv_asset s') \<noteq> (gv_fee s, gv_auto_release s, gv_asset s)"
    using run(3,5) by simp_all
  from gov_settings_change [OF run(1) this(1) run(4) this(2)]
  obtain i where "gv_weighted_total s' i False < gv_weighted_total s' i True" by (elim exE conjE)
  with run(3,5) show ?thesis by blast
qed

text \<open>
  The cap on open proposals. In every reachable state the recorded number of active proposals is the
  number of proposals that are active or queued, in total and for every proposer, it is at most the
  configured maximum, and proposal numbers run from 1 without gaps.
\<close>

theorem gov_active_cap:
  assumes "gv_reach t s w"
  shows "gv_get_active_proposal_count s = card {i. \<exists>p. gv_proposal s i = Some p \<and> gp_status p \<in> {PsActive, PsQueued}} \<and>
    get_or 0 (gv_active_of s a) =
      card {i. \<exists>p. gv_proposal s i = Some p \<and> gp_status p \<in> {PsActive, PsQueued} \<and> gp_proposer p = a} \<and>
    gv_get_active_proposal_count s \<le> get_or 3 (gv_max_active s) \<and>
    dom (gv_proposal s) = {1..get_or 0 (gv_count s)}"
proof -
  have "gv_counts_ok s" using gv_reach_inv [OF assms] by (simp add: gv_inv_def)
  from gv_counts_okD [OF this] show ?thesis
    by (simp add: gv_get_active_proposal_count_def gv_open_set_def gv_open_of_def gp_open_def)
qed

theorem gov_active_cap_witness:
  "\<exists>s. gv_get_active_proposal_count s = 1 \<and>
     card {i. \<exists>p. gv_proposal s i = Some p \<and> gp_status p \<in> {PsActive, PsQueued}} = 1"
proof -
  obtain s where s: "gv_reach 400000 s ()" "gv_active_total s = Some 1" by (rule gv_ballot_reach)
  from gov_active_cap [OF s(1)] s(2) show ?thesis
    by (auto simp: gv_get_active_proposal_count_def intro!: exI [of _ s])
qed

text \<open>
  C33. The arbitrator registry is a list. In every reachable state there is a list of distinct addresses
  that the registry represents: it holds exactly the registered arbitrators, its length is the recorded
  count, pages of the view are its sections, and a dispute is always assigned to a registered,
  active arbitrator, the one at the dispute number modulo the count.
\<close>

theorem gov_arbitrators:
  assumes "gv_reach t s w"
  shows "\<exists>xs. distinct xs \<and> set xs = dom (gv_arb s) \<and> gv_get_arbitrator_count s = length xs \<and>
    (\<forall>n m. n + m \<le> u32_max \<longrightarrow> gv_list_arbitrators_page n m s = Inr (take m (drop n xs))) \<and>
    (\<forall>d. if xs = [] then gv_select_arbitrator d s = Inl (Panic ''no arbitrators'')
         else \<exists>r. gv_select_arbitrator d s = Inr (xs ! (d mod length xs)) \<and>
                gv_arb s (xs ! (d mod length xs)) = Some r \<and> ar_active r)"
proof -
  obtain xs where xs: "arbs_rep s xs" using reach_aux [OF assms] by blast
  note rep = arbs_repD [OF xs]
  have "\<exists>r. gv_arb s (xs ! (d mod length xs)) = Some r \<and> ar_active r" if "xs \<noteq> []" for d
  proof -
    have "xs ! (d mod length xs) \<in> dom (gv_arb s)" using that rep(6) by simp
    with rep(7) show ?thesis by blast
  qed
  with rep(1,2,6) select_arbitrator_rep [OF xs] list_arbitrators_rep [OF xs] show ?thesis
    by (intro exI [of _ xs]) (auto simp: gv_get_arbitrator_count_def gv_select_arbitrator_def Let_def)
qed

theorem gov_arbitrators_witness:
  "\<exists>(s :: gov_state) xs. distinct xs \<and> set xs = dom (gv_arb s) \<and> gv_get_arbitrator_count s = length xs"
proof -
  obtain s where s: "gv_reach 400000 s ()" by (rule gv_ballot_reach)
  from gov_arbitrators [OF s] show ?thesis by blast
qed

text \<open>
  Late votes decide. There is a history in which 200 votes are cast against a proposal early, 150 for
  it late, and the proposal passes and is applied: the weights of 80 and 110 percent turn the minority
  into a majority.
\<close>

theorem gov_late_minority:
  "\<exists>s s' p q. gv_reach 400000 s () \<and> gv_proposal s 1 = Some p \<and> gp_votes_for p = 150 \<and> gp_votes_against p = 200 \<and>
     gv_fee s = None \<and> gv_exec gv_demo_peers (demo_env 604800 []) (GExecute 1) (s, ()) = Inr (s', ()) \<and>
     gv_proposal s' 1 = Some q \<and> gp_status q = PsExecuted \<and> gv_fee s' = Some 700"
  by (rule gv_closing_later) blast

text \<open>
  Two lists stay empty. In every reachable state the view of the proposals by status returns nothing
  for active and for cancelled proposals, whatever the page: creation and cancellation do not enter
  the index.
\<close>

theorem gov_status_index:
  assumes "gv_reach t s w"
  shows "gv_get_proposals_by_status PsActive offset limit s = [] \<and>
    gv_get_proposals_by_status PsCancelled offset limit s = []"
  using reach_aux [OF assms]
  by (auto simp: gv_unlisted_def gv_get_proposals_by_status_def page_bounds_def)

theorem gov_status_index_witness:
  "\<exists>s p. gv_proposal s 1 = Some p \<and> gp_status p = PsActive \<and> gv_get_proposals_by_status PsActive 0 10 s = []"
proof -
  obtain s p where s: "gv_reach 400000 s ()" "gv_proposal s 1 = Some p" "gp_status p = PsActive"
    by (rule gv_ballot_reach)
  from gov_status_index [OF s(1), of 0 10] s(2,3) show ?thesis by blast
qed

end
