(* ===== verification/EscrowRollback.thy ===== *)
theory EscrowRollback
  imports EscrowProps
begin

text \<open>
  Disaster recovery of the escrow contract, \<open>escrow/src/lib.rs\<close>: snapshots of the escrow records, the
  comparison after an upgrade, and the emergency rollback with its two layers of approval. Its
  storage keys are a record of their own beside \<open>escrow_state\<close>, since no other entry point reads
  or writes them; \<open>d_wasm\<close> is the code the host runs for the contract.

  The final audit record is kept with all its fields; events are left out.
\<close>

section \<open>State\<close>

record rollback_audit =
  ra_rollback :: nat
  ra_snapshot :: nat
  ra_evidence :: hash32
  ra_kept_audits :: nat
  ra_kept_logs :: nat
  ra_timestamp :: nat
  ra_executor :: addr
  ra_success :: bool

record dr_state =
  d_snapshot :: "nat \<rightharpoonup> escrow_rec list"
  d_meta :: "nat \<rightharpoonup> snapshot_meta"
  d_index :: "nat list option"
  d_rollback :: "nat \<rightharpoonup> emergency_rollback"
  d_count :: "nat option"
  d_kept_audit :: "nat \<rightharpoonup> emergency_audit_record"
  d_kept_log :: "nat \<rightharpoonup> transition_log list"
  d_audit :: "nat \<rightharpoonup> rollback_audit"
  d_wasm :: hash32

definition dr_empty :: "hash32 \<Rightarrow> dr_state" where
  "dr_empty code = \<lparr>d_snapshot = Map.empty, d_meta = Map.empty, d_index = None, d_rollback = Map.empty,
     d_count = None, d_kept_audit = Map.empty, d_kept_log = Map.empty, d_audit = Map.empty, d_wasm = code\<rparr>"

type_synonym 'a dr_res = "escrow_error fail + 'a"


section \<open>Snapshots\<close>

text \<open>The stored records with numbers from 1 to the counter, in order.\<close>

definition dr_records :: "'a core_state_scheme \<Rightarrow> escrow_rec list" where
  "dr_records s = List.map_filter (x_escrows s) [1..<get_or 0 (x_count s) + 1]"

definition dr_snapshot_state ::
    "env \<Rightarrow> addr \<Rightarrow> nat \<Rightarrow> 'a core_state_scheme \<Rightarrow> dr_state \<Rightarrow> dr_state dr_res" where
  "dr_snapshot_state env admin snapshot_id s d =
    expect (f_admin s) (Panic ''Not initialized'') (\<lambda>stored_admin.
    need_auth env admin (
    ensure (admin = stored_admin) (Panic ''Caller not authorized'') (
    let records = dr_records s;
        record_count = length records;
        checksum = sha env [XU64 (get_or 0 (x_count s)), XU32 (get_or 0 (f_fee_bps s)),
                            XU64 (get_or 0 (x_delay s)), XU64 record_count];
        index = get_or [] (d_index d);
        snapshot_pos = length index;
        (index', evicted) = push_snapshot_index index snapshot_id;
        d1 = (case evicted of None \<Rightarrow> d
              | Some old_id \<Rightarrow> d\<lparr>d_snapshot := (d_snapshot d)(old_id := None),
                                 d_meta := (d_meta d)(old_id := None)\<rparr>);
        meta = \<lparr>sn_created_at = ledger_ts env, sn_block_height = ledger_seq env, sn_version = 0,
                sn_admin = admin, sn_checksum = checksum, sn_record_count = record_count,
                sn_index = min snapshot_pos (MAX_SNAPSHOTS - 1)\<rparr>
    in Inr (d1\<lparr>d_index := Some index', d_snapshot := (d_snapshot d1)(snapshot_id \<mapsto> records),
               d_meta := (d_meta d1)(snapshot_id \<mapsto> meta)\<rparr>))))"

text \<open>The comparison of one record field by field.\<close>

definition dr_compare :: "escrow_rec \<Rightarrow> escrow_rec \<Rightarrow> string list" where
  "dr_compare cur snap =
    (if e_id cur \<noteq> e_id snap then [''EscrowRecord.id mismatch''] else []) @
    (if e_mentor cur \<noteq> e_mentor snap then [''EscrowRecord.mentor mismatch''] else []) @
    (if e_learner cur \<noteq> e_learner snap then [''EscrowRecord.learner mismatch''] else []) @
    (if e_amount cur \<noteq> e_amount snap then [''EscrowRecord.amount mismatch''] else []) @
    (if e_status cur \<noteq> e_status snap then [''EscrowRecord.status mismatch''] else []) @
    (if e_token cur \<noteq> e_token snap then [''EscrowRecord.token_address mismatch''] else []) @
    (if e_platform_fee cur \<noteq> e_platform_fee snap then [''EscrowRecord.platform_fee mismatch''] else []) @
    (if e_net_amount cur \<noteq> e_net_amount snap then [''EscrowRecord.net_amount mismatch''] else []) @
    (if e_session_end cur \<noteq> e_session_end snap then [''EscrowRecord.session_end_time mismatch''] else []) @
    (if e_total_sessions cur \<noteq> e_total_sessions snap then [''EscrowRecord.total_sessions mismatch''] else []) @
    (if e_completed cur \<noteq> e_completed snap then [''EscrowRecord.sessions_completed mismatch''] else [])"

text \<open>The number of fields checked for a record, and its mismatches.\<close>

definition dr_check :: "'a core_state_scheme \<Rightarrow> escrow_rec \<Rightarrow> nat \<times> string list" where
  "dr_check s snap =
    (case x_escrows s (e_id snap) of
       Some cur \<Rightarrow> (11, dr_compare cur snap)
     | None \<Rightarrow> (1, [''EscrowRecord missing in current state'']))"

definition dr_verify :: "nat \<Rightarrow> 'a core_state_scheme \<Rightarrow> dr_state \<Rightarrow> verification_report dr_res" where
  "dr_verify snapshot_id s d =
    expect (d_snapshot d snapshot_id) (Panic ''Snapshot not found'') (\<lambda>records.
    expect (d_meta d snapshot_id) (Panic ''Snapshot metadata not found'') (\<lambda>meta.
    let mismatches = (if get_or 0 (x_count s) \<noteq> sn_record_count meta then [''EscrowCount mismatch''] else [])
                     @ concat (map (snd \<circ> dr_check s) records) in
    rbind (arith_u32 (1 + sum_list (map (fst \<circ> dr_check s) records))) (\<lambda>fields_checked.
    Inr \<lparr>vr_fields_checked = fields_checked, vr_mismatches = mismatches\<rparr>)))"


section \<open>Rollback proposals\<close>

definition dr_validate_request ::
    "env \<Rightarrow> addr \<Rightarrow> nat \<Rightarrow> rollback_scope \<Rightarrow> rollback_justification \<Rightarrow> 'a escrow_state_scheme \<Rightarrow> dr_state \<Rightarrow>
     'b dr_res \<Rightarrow> 'b dr_res" where
  "dr_validate_request env proposer snapshot_id sc justification s d k =
    expect (y_signers s) (Panic ''Emergency signers not configured'') (\<lambda>signers.
    ensure (is_registered_signer signers proposer) (Panic ''Proposer is not an emergency signer'') (
    expect (d_meta d snapshot_id) (Panic ''Snapshot not found'') (\<lambda>meta.
    ensure (validate_justification justification) (Panic ''Invalid rollback justification'') (
    ensure (validate_scope_window (ledger_ts env) (sn_created_at meta))
      (Panic ''Snapshot outside 24h rollback window'') (
    case sc of
      RS_Escrow \<Rightarrow> k
    | RS_Contract a \<Rightarrow> ensure (a = self_addr env) (Panic ''Contract scope mismatch'') k
    | RS_Governance \<Rightarrow> Inl (Panic ''Governance scope not valid on escrow''))))))"

definition dr_propose ::
    "env \<Rightarrow> addr \<Rightarrow> nat \<Rightarrow> hash32 \<Rightarrow> rollback_scope \<Rightarrow> rollback_justification \<Rightarrow> 'a escrow_state_scheme \<Rightarrow> dr_state \<Rightarrow>
     (nat \<times> dr_state) dr_res" where
  "dr_propose env proposer snapshot_id old_wasm_hash sc justification s d =
    need_auth env proposer (
    dr_validate_request env proposer snapshot_id sc justification s d (
    let now = ledger_ts env in
    expect (compute_review_ends_at now) (Panic ''review period overflow'') (\<lambda>review_ends_at.
    rbind (safe_add_u32 (get_or 0 (d_count d)) 1) (\<lambda>new_id.
    let (technical_signers, approval_count) = aggregate_technical_approval [] proposer;
        rollback = \<lparr>er_id = new_id, er_snapshot = snapshot_id, er_old_wasm = old_wasm_hash, er_rscope = sc,
          er_justification = justification, er_proposer = proposer, er_proposed_at = now,
          er_review_ends = review_ends_at, er_tech_count = approval_count, er_tech_signers = technical_signers,
          er_gov_id = None, er_gov_approved = False, er_executed = False, er_rejected = False\<rparr>
    in Inr (new_id, d\<lparr>d_count := Some new_id, d_rollback := (d_rollback d)(new_id \<mapsto> rollback)\<rparr>)))))"

definition dr_propose_rollback ::
    "env \<Rightarrow> addr \<Rightarrow> nat \<Rightarrow> hash32 \<Rightarrow> 'a escrow_state_scheme \<Rightarrow> dr_state \<Rightarrow> (nat \<times> dr_state) dr_res" where
  "dr_propose_rollback env proposer snapshot_id old_wasm_hash s d =
    (let justification = \<lparr>rj_evidence = old_wasm_hash, rj_incident = old_wasm_hash, rj_description = 0\<rparr>
     in dr_propose env proposer snapshot_id old_wasm_hash RS_Escrow justification s d)"

definition dr_approve ::
    "env \<Rightarrow> addr \<Rightarrow> nat \<Rightarrow> 'a escrow_state_scheme \<Rightarrow> dr_state \<Rightarrow> dr_state dr_res" where
  "dr_approve env signer i s d =
    need_auth env signer (
    expect (y_signers s) (Panic ''Emergency signers not configured'') (\<lambda>signers.
    ensure (is_registered_signer signers signer) (Panic ''Signer is not an emergency signer'') (
    expect (d_rollback d i) (Panic ''Emergency rollback proposal not found'') (\<lambda>rollback.
    ensure (\<not> (er_executed rollback \<or> er_rejected rollback)) (Panic ''Rollback already finalized'') (
    let (technical_signers, n) = aggregate_technical_approval (er_tech_signers rollback) signer
    in Inr (d\<lparr>d_rollback := (d_rollback d)
         (i \<mapsto> rollback\<lparr>er_tech_signers := technical_signers, er_tech_count := n\<rparr>)\<rparr>))))))"

definition dr_by_governance ::
    "env \<Rightarrow> addr \<Rightarrow> nat \<Rightarrow> 'a escrow_state_scheme \<Rightarrow> dr_state \<Rightarrow> (emergency_rollback \<Rightarrow> 'b dr_res) \<Rightarrow> 'b dr_res" where
  "dr_by_governance env governance i s d k =
    need_auth env governance (
    expect (y_governance s) (Panic ''Governance contract not configured'') (\<lambda>stored.
    ensure (governance = stored) (Panic ''Unauthorized governance contract'') (
    expect (d_rollback d i) (Panic ''Emergency rollback proposal not found'') k)))"

definition dr_link ::
    "env \<Rightarrow> addr \<Rightarrow> nat \<Rightarrow> nat \<Rightarrow> 'a escrow_state_scheme \<Rightarrow> dr_state \<Rightarrow> dr_state dr_res" where
  "dr_link env governance i p s d =
    dr_by_governance env governance i s d (\<lambda>rollback.
    Inr (d\<lparr>d_rollback := (d_rollback d)(i \<mapsto> rollback\<lparr>er_gov_id := Some p\<rparr>)\<rparr>))"

definition dr_mark ::
    "env \<Rightarrow> addr \<Rightarrow> nat \<Rightarrow> nat \<Rightarrow> 'a escrow_state_scheme \<Rightarrow> dr_state \<Rightarrow> dr_state dr_res" where
  "dr_mark env governance i p s d =
    dr_by_governance env governance i s d (\<lambda>rollback.
    ensure (er_gov_id rollback = Some p) (Panic ''Governance proposal mismatch'') (
    Inr (d\<lparr>d_rollback := (d_rollback d)(i \<mapsto> rollback\<lparr>er_gov_approved := True\<rparr>)\<rparr>)))"

definition dr_validate_rollback :: "nat \<Rightarrow> dr_state \<Rightarrow> bool" where
  "dr_validate_rollback i d =
    (case d_rollback d i of None \<Rightarrow> False
     | Some rollback \<Rightarrow>
         (case d_meta d (er_snapshot rollback) of None \<Rightarrow> False
          | Some meta \<Rightarrow>
              if \<not> validate_justification (er_justification rollback) then False
              else validate_scope_window (er_proposed_at rollback) (sn_created_at meta)))"


section \<open>Execution\<close>

text \<open>
  The audit records and transition logs that are archived before records are restored, with their
  numbers; the counters cannot overflow, since they are at most the numbers of actions and records.
\<close>

definition dr_preserve :: "nat \<Rightarrow> 'a escrow_state_scheme \<Rightarrow> dr_state \<Rightarrow> (nat \<times> nat \<times> dr_state) dr_res" where
  "dr_preserve i s d =
    expect (d_rollback d i) (Panic ''Emergency rollback proposal not found'') (\<lambda>rollback.
    let ids = filter (\<lambda>j. y_audits s j \<noteq> None) [1..<get_or 0 (y_prop_count s) + 1];
        d1 = d\<lparr>d_kept_audit := fold (\<lambda>j m. m(j := y_audits s j)) ids (d_kept_audit d)\<rparr> in
    expect (d_snapshot d1 (er_snapshot rollback)) (Panic ''Snapshot data not found'') (\<lambda>records.
    let logged = filter (\<lambda>k. x_tlog s k \<noteq> None) (map e_id records) in
    Inr (length ids, length logged,
         d1\<lparr>d_kept_log := fold (\<lambda>k m. m(k := x_tlog s k)) logged (d_kept_log d1)\<rparr>)))"

definition dr_restore :: "escrow_rec list \<Rightarrow> 'a core_state_scheme \<Rightarrow> 'a core_state_scheme" where
  "dr_restore records s = s\<lparr>x_escrows := fold (\<lambda>e m. m(e_id e \<mapsto> e)) records (x_escrows s)\<rparr>"

text \<open>What has to hold before anything is changed; otherwise the call returns false.\<close>

definition dr_cleared ::
    "env \<Rightarrow> emergency_rollback \<Rightarrow> 'a escrow_state_scheme \<Rightarrow> dr_state \<Rightarrow> bool dr_res" where
  "dr_cleared env rollback s d =
    (if \<not> ready_to_execute rollback (ledger_ts env) then Inr False
     else expect (y_signers s) (Panic ''Emergency signers not configured'') (\<lambda>registered.
       if \<not> validate_technical_signatures registered (er_tech_signers rollback) then Inr False
       else (case d_meta d (er_snapshot rollback) of None \<Rightarrow> Inr False
             | Some meta \<Rightarrow> Inr (validate_scope_window (er_proposed_at rollback) (sn_created_at meta)))))"

definition dr_emergency_rollback ::
    "env \<Rightarrow> nat \<Rightarrow> addr \<Rightarrow> 'a escrow_state_scheme \<times> dr_state \<Rightarrow> (bool \<times> 'a escrow_state_scheme \<times> dr_state) dr_res" where
  "dr_emergency_rollback env i executor sd =
    (let (s, d) = sd in
    need_auth env executor (
    expect (d_rollback d i) (Panic ''Emergency rollback proposal not found'') (\<lambda>rollback.
    rbind (dr_cleared env rollback s d) (\<lambda>ok.
    if \<not> ok then Inr (False, s, d)
    else
      rbind (dr_preserve i s d) (\<lambda>(preserved_audits, preserved_logs, d1).
      expect (d_snapshot d1 (er_snapshot rollback)) (Panic ''Snapshot data not found'') (\<lambda>records.
      let audit = \<lparr>ra_rollback = i, ra_snapshot = er_snapshot rollback,
            ra_evidence = rj_evidence (er_justification rollback), ra_kept_audits = preserved_audits,
            ra_kept_logs = preserved_logs, ra_timestamp = ledger_ts env, ra_executor = executor, ra_success = True\<rparr>
      in Inr (True, dr_restore records s,
           d1\<lparr>d_wasm := er_old_wasm rollback,
              d_rollback := (d_rollback d1)(i \<mapsto> rollback\<lparr>er_executed := True\<rparr>),
              d_audit := (d_audit d1)(i \<mapsto> audit)\<rparr>)))))))"

definition dr_rollback_to_snapshot ::
    "env \<Rightarrow> nat \<Rightarrow> 'a escrow_state_scheme \<times> dr_state \<Rightarrow> ('a escrow_state_scheme \<times> dr_state) dr_res" where
  "dr_rollback_to_snapshot env i sd =
    rbind (dr_emergency_rollback env i (self_addr env) sd) (\<lambda>(ok, sd').
    ensure ok (Panic ''Emergency rollback requirements not satisfied'') (Inr sd'))"


section \<open>Calls and histories\<close>

datatype dr_call =
    DSnapshot addr nat
  | DPropose addr nat hash32 rollback_scope rollback_justification
  | DProposeRollback addr nat hash32
  | DApprove addr nat
  | DLink addr nat nat
  | DMark addr nat nat
  | DPreserve nat
  | DRollback nat addr
  | DRollbackTo nat

definition dr_keep :: "'s \<Rightarrow> dr_state dr_res \<Rightarrow> ('s \<times> dr_state) dr_res" where
  "dr_keep s r = rbind r (\<lambda>d. Inr (s, d))"

lemma dr_keep_Inr [res_simps]: "dr_keep s r = Inr (s', d) \<longleftrightarrow> r = Inr d \<and> s' = s"
  by (auto simp: dr_keep_def res_simps)

fun dr_exec :: "env \<Rightarrow> dr_call \<Rightarrow> escrow_state \<times> dr_state \<Rightarrow> (escrow_state \<times> dr_state) dr_res" where
  "dr_exec env (DSnapshot a i) (s, d) = dr_keep s (dr_snapshot_state env a i s d)"
| "dr_exec env (DPropose a i h sc j) (s, d) = dr_keep s (rbind (dr_propose env a i h sc j s d) (\<lambda>(_, d). Inr d))"
| "dr_exec env (DProposeRollback a i h) (s, d) = dr_keep s (rbind (dr_propose_rollback env a i h s d) (\<lambda>(_, d). Inr d))"
| "dr_exec env (DApprove a i) (s, d) = dr_keep s (dr_approve env a i s d)"
| "dr_exec env (DLink g i p) (s, d) = dr_keep s (dr_link env g i p s d)"
| "dr_exec env (DMark g i p) (s, d) = dr_keep s (dr_mark env g i p s d)"
| "dr_exec env (DPreserve i) (s, d) = dr_keep s (rbind (dr_preserve i s d) (\<lambda>(_, _, d). Inr d))"
| "dr_exec env (DRollback i x) (s, d) = rbind (dr_emergency_rollback env i x (s, d)) (\<lambda>(_, sd). Inr sd)"
| "dr_exec env (DRollbackTo i) (s, d) = dr_rollback_to_snapshot env i (s, d)"

text \<open>
  A step of the contract: a step of the entry points of the other theories, or a call of this one from
  outside; both need that the contract still runs the code \<open>code\<close>.
\<close>

inductive dr_step ::
    "'t token_ops \<Rightarrow> addr \<Rightarrow> hash32 \<Rightarrow> dr_call option \<Rightarrow> escrow_state \<times> dr_state \<times> 't \<Rightarrow> escrow_state \<times> dr_state \<times> 't \<Rightarrow> bool"
  for T self code where
  usual: "d_wasm d = code \<Longrightarrow> esc_step T self (s, w) (s', w') \<Longrightarrow> dr_step T self code None (s, d, w) (s', d, w')"
| recovery: "d_wasm d = code \<Longrightarrow> external env \<Longrightarrow> self_addr env = self \<Longrightarrow> dr_exec env c (s, d) = Inr (s', d') \<Longrightarrow>
    dr_step T self code (Some c) (s, d, w) (s', d', w)"

inductive dr_steps ::
    "'t token_ops \<Rightarrow> addr \<Rightarrow> hash32 \<Rightarrow> dr_call option list \<Rightarrow> escrow_state \<times> dr_state \<times> 't \<Rightarrow> escrow_state \<times> dr_state \<times> 't \<Rightarrow> bool"
  for T self code where
  stay: "dr_steps T self code [] x x"
| more: "dr_steps T self code cs x y \<Longrightarrow> dr_step T self code c y z \<Longrightarrow> dr_steps T self code (cs @ [c]) x z"

definition dr_reach :: "'t token_ops \<Rightarrow> addr \<Rightarrow> hash32 \<Rightarrow> escrow_state \<times> dr_state \<times> 't \<Rightarrow> bool" where
  "dr_reach T self code x \<longleftrightarrow> (\<exists>cs w. (\<forall>tk. 0 \<le> tk_balance T tk self w) \<and>
     dr_steps T self code cs (escrow_empty, dr_empty code, w) x)"

inductive_cases dr_stepE: "dr_step T self code c x y"

end
