(* ===== verification/EscrowRecovery.thy ===== *)
theory EscrowRecovery
  imports EscrowRollback
begin

text \<open>
  What disaster recovery keeps and what it breaks: the invariant of snapshots and rollback proposals, the
  conditions of a rollback, the round trip from a snapshot to a rollback, the solvency of the escrow
  until the first rollback, and the concrete history in which a rollback ends it.
\<close>

section \<open>Restoring records\<close>

lemma fold_restore:
  "distinct (map e_id xs) \<Longrightarrow>
   fold (\<lambda>e m. m(e_id e \<mapsto> e)) xs m k = (case find (\<lambda>e. e_id e = k) xs of Some e \<Rightarrow> Some e | None \<Rightarrow> m k)"
proof (induction xs arbitrary: m)
  case (Cons e xs)
  have "find (\<lambda>x. e_id x = e_id e) xs = None"
    using Cons.prems by (auto simp: find_None_iff) (metis imageI)
  then show ?case using Cons by (auto split: option.splits)
qed simp

lemma find_by_id: "distinct (map e_id xs) \<Longrightarrow> e \<in> set xs \<Longrightarrow> find (\<lambda>x. e_id x = e_id e) xs = Some e"
  by (induction xs) (auto simp: image_iff)

lemma restored:
  assumes "distinct (map e_id xs)"
  shows "e \<in> set xs \<Longrightarrow> x_escrows (dr_restore xs s) (e_id e) = Some e"
    "k \<notin> e_id ` set xs \<Longrightarrow> x_escrows (dr_restore xs s) k = x_escrows s k"
    "x_escrows (dr_restore xs s) k = Some e \<Longrightarrow> e \<in> set xs \<and> e_id e = k \<or> x_escrows s k = Some e"
    "dom (x_escrows (dr_restore xs s)) = dom (x_escrows s) \<union> e_id ` set xs"
proof -
  have eq: "x_escrows (dr_restore xs s) k = (case find (\<lambda>e. e_id e = k) xs of Some e \<Rightarrow> Some e | None \<Rightarrow> x_escrows s k)" for k
    by (simp add: dr_restore_def fold_restore [OF assms])
  have found: "find (\<lambda>e. e_id e = k) xs = Some e \<Longrightarrow> e \<in> set xs \<and> e_id e = k" for k e
    by (auto simp: find_Some_iff)
  have missing: "find (\<lambda>e. e_id e = k) xs = None \<longleftrightarrow> k \<notin> e_id ` set xs" for k
    by (auto simp: find_None_iff)
  show "x_escrows (dr_restore xs s) (e_id e) = Some e" if "e \<in> set xs"
    by (simp add: eq find_by_id [OF assms that])
  show "x_escrows (dr_restore xs s) k = x_escrows s k" if "k \<notin> e_id ` set xs"
    using that missing [of k, THEN iffD2] by (simp add: eq)
  show "e \<in> set xs \<and> e_id e = k \<or> x_escrows s k = Some e" if "x_escrows (dr_restore xs s) k = Some e"
    using that found [of k] by (auto simp: eq split: option.splits)
  show "dom (x_escrows (dr_restore xs s)) = dom (x_escrows s) \<union> e_id ` set xs"
    using missing by (auto simp: eq dom_def split: option.splits)
qed

text \<open>The payload of a snapshot.\<close>

lemma set_records: "set (dr_records s) = {e. \<exists>k. 1 \<le> k \<and> k \<le> get_or 0 (x_count s) \<and> x_escrows s k = Some e}"
  by (force simp: dr_records_def List.map_filter_def)

lemma ids_map_filter:
  "\<forall>k e. f k = Some e \<longrightarrow> e_id e = k \<Longrightarrow> map e_id (List.map_filter f ks) = filter (\<lambda>k. f k \<noteq> None) ks"
  by (induction ks) (auto simp: map_filter_simps split: option.splits)

lemma records_of:
  assumes "store_ok s"
  shows "distinct (map e_id (dr_records s))" "e \<in> set (dr_records s) \<longleftrightarrow> x_escrows s (e_id e) = Some e"
    "map e_id (dr_records s) = filter (\<lambda>k. x_escrows s k \<noteq> None) [1..<get_or 0 (x_count s) + 1]"
proof -
  have id: "x_escrows s k = Some e \<Longrightarrow> e_id e = k \<and> 1 \<le> k \<and> k \<le> get_or 0 (x_count s)" for k e
    using store_ok_rec [OF assms] by (auto simp: rec_ok_def)
  then show eq: "map e_id (dr_records s) = filter (\<lambda>k. x_escrows s k \<noteq> None) [1..<get_or 0 (x_count s) + 1]"
    unfolding dr_records_def by (intro ids_map_filter) blast
  show "distinct (map e_id (dr_records s))" unfolding eq by simp
  show "e \<in> set (dr_records s) \<longleftrightarrow> x_escrows s (e_id e) = Some e"
    using id unfolding set_records by fastforce
qed


section \<open>The invariant\<close>

definition snap_ok :: "'a core_state_scheme \<Rightarrow> escrow_rec list \<Rightarrow> bool" where
  "snap_ok s xs \<longleftrightarrow> distinct (map e_id xs) \<and> (\<forall>e \<in> set xs. rec_ok (e_id e) e \<and> e_id e \<in> dom (x_escrows s))"

definition rb_ok :: "emergency_rollback \<Rightarrow> bool" where
  "rb_ok r \<longleftrightarrow> distinct (er_tech_signers r) \<and> er_tech_signers r \<noteq> [] \<and>
     er_tech_count r = length (er_tech_signers r) \<and>
     er_review_ends r = er_proposed_at r + ROLLBACK_COMMUNITY_REVIEW_SECS \<and> (er_gov_approved r \<longrightarrow> er_gov_id r \<noteq> None)"

definition dr_inv :: "escrow_state \<Rightarrow> dr_state \<Rightarrow> bool" where
  "dr_inv s d \<longleftrightarrow> sys_ok s \<and> (\<forall>i xs. d_snapshot d i = Some xs \<longrightarrow> snap_ok s xs) \<and>
     (\<forall>i r. d_rollback d i = Some r \<longrightarrow> rb_ok r \<and> i \<le> get_or 0 (d_count d))"

text \<open>How one step may change a rollback proposal.\<close>

definition rb_next :: "emergency_rollback \<Rightarrow> emergency_rollback \<Rightarrow> bool" where
  "rb_next r r' \<longleftrightarrow> er_snapshot r' = er_snapshot r \<and> er_proposed_at r' = er_proposed_at r \<and>
     er_old_wasm r' = er_old_wasm r \<and> (er_executed r \<longrightarrow> er_executed r') \<and>
     set (er_tech_signers r) \<subseteq> set (er_tech_signers r')"

lemma aggregate_signers:
  "aggregate_technical_approval xs a = (xs', n) \<Longrightarrow> distinct xs \<Longrightarrow>
   distinct xs' \<and> xs' \<noteq> [] \<and> n = length xs' \<and> set xs' = insert a (set xs)"
  by (auto simp: aggregate_technical_approval_def Let_def list_ex_iff split: if_splits)

definition fresh_rollback where
  "fresh_rollback env a i h sc j n = \<lparr>er_id = n, er_snapshot = i, er_old_wasm = h, er_rscope = sc, er_justification = j,
     er_proposer = a, er_proposed_at = ledger_ts env,
     er_review_ends = ledger_ts env + ROLLBACK_COMMUNITY_REVIEW_SECS, er_tech_count = 1, er_tech_signers = [a],
     er_gov_id = None, er_gov_approved = False, er_executed = False, er_rejected = False\<rparr>"

lemma fresh_rollback_ok [simp]:
  "rb_ok (fresh_rollback env a i h sc j n)" "\<not> er_executed (fresh_rollback env a i h sc j n)"
  "\<not> er_gov_approved (fresh_rollback env a i h sc j n)"
  by (simp_all add: fresh_rollback_def rb_ok_def)

lemma dr_propose_Inr:
  assumes "dr_propose env a i h sc j s d = Inr (n, d')"
  shows "n = get_or 0 (d_count d) + 1 \<and> auth_by env a \<and>
    d' = d\<lparr>d_count := Some n, d_rollback := (d_rollback d)(n \<mapsto> fresh_rollback env a i h sc j n)\<rparr>"
  using assms
  by (cases sc)
    (auto simp: dr_propose_def dr_validate_request_def res_simps Let_def compute_review_ends_at_def
      aggregate_technical_approval_def fresh_rollback_def)

lemma dr_approve_Inr:
  assumes "dr_approve env a i s d = Inr d'"
  shows "\<exists>r. d_rollback d i = Some r \<and> \<not> er_executed r \<and> auth_by env a \<and>
    d' = d\<lparr>d_rollback := (d_rollback d)
      (i \<mapsto> r\<lparr>er_tech_signers := fst (aggregate_technical_approval (er_tech_signers r) a),
           er_tech_count := snd (aggregate_technical_approval (er_tech_signers r) a)\<rparr>)\<rparr>"
proof -
  obtain r where "d_rollback d i = Some r" "\<not> er_executed r" "auth_by env a"
      "(let (xs, n) = aggregate_technical_approval (er_tech_signers r) a
        in (Inr (d\<lparr>d_rollback := (d_rollback d) (i \<mapsto> r\<lparr>er_tech_signers := xs, er_tech_count := n\<rparr>)\<rparr>) :: dr_state dr_res)) = Inr d'"
    using assms by (auto simp: dr_approve_def res_simps)
  then show ?thesis by (auto simp: split_beta Let_def)
qed

lemma dr_link_Inr:
  assumes "dr_link env g i p s d = Inr d'"
  shows "\<exists>r. d_rollback d i = Some r \<and> auth_by env g \<and> y_governance s = Some g \<and>
    d' = d\<lparr>d_rollback := (d_rollback d)(i \<mapsto> r\<lparr>er_gov_id := Some p\<rparr>)\<rparr>"
  using assms by (auto simp: dr_link_def dr_by_governance_def res_simps)

lemma dr_mark_Inr:
  assumes "dr_mark env g i p s d = Inr d'"
  shows "\<exists>r. d_rollback d i = Some r \<and> auth_by env g \<and> y_governance s = Some g \<and> er_gov_id r = Some p \<and>
    d' = d\<lparr>d_rollback := (d_rollback d)(i \<mapsto> r\<lparr>er_gov_approved := True\<rparr>)\<rparr>"
  using assms by (auto simp: dr_mark_def dr_by_governance_def res_simps)

lemma dr_preserve_Inr:
  assumes "dr_preserve i s d = Inr (n, m, d')"
  shows "\<exists>a l. d' = d\<lparr>d_kept_audit := a, d_kept_log := l\<rparr>"
  using assms by (auto simp: dr_preserve_def res_simps Let_def)

lemma dr_rollback_Inr:
  assumes "dr_emergency_rollback env i x (s, d) = Inr (b, s', d')"
  shows "\<exists>r. d_rollback d i = Some r \<and> auth_by env x \<and> dr_cleared env r s d = Inr b \<and>
    (\<not> b \<longrightarrow> s' = s \<and> d' = d) \<and>
    (b \<longrightarrow> (\<exists>xs a l ad. d_snapshot d (er_snapshot r) = Some xs \<and> s' = dr_restore xs s \<and>
      d' = d\<lparr>d_kept_audit := a, d_kept_log := l, d_wasm := er_old_wasm r,
        d_rollback := (d_rollback d)(i \<mapsto> r\<lparr>er_executed := True\<rparr>), d_audit := ad\<rparr>))"
proof -
  have auth: "auth_by env x" using assms by (simp add: dr_emergency_rollback_def need_auth_Inr)
  with assms obtain r where r: "d_rollback d i = Some r"
    by (cases "d_rollback d i") (simp_all add: dr_emergency_rollback_def)
  show ?thesis
  proof (cases "dr_cleared env r s d")
    case (Inl e)
    then show ?thesis using assms auth r by (simp add: dr_emergency_rollback_def)
  next
    case (Inr ok)
    show ?thesis
    proof (cases ok)
      case False
      then show ?thesis using assms auth r Inr by (auto simp: dr_emergency_rollback_def)
    next
      case True
      then obtain n m d1 xs where p: "dr_preserve i s d = Inr (n, m, d1)" "d_snapshot d1 (er_snapshot r) = Some xs" "b"
          "s' = dr_restore xs s" "d' = d1\<lparr>d_wasm := er_old_wasm r,
            d_rollback := (d_rollback d1)(i \<mapsto> r\<lparr>er_executed := True\<rparr>), d_audit := d_audit d'\<rparr>"
        using assms auth r Inr by (auto simp: dr_emergency_rollback_def res_simps Let_def)
      from dr_preserve_Inr [OF p(1)] obtain a l where "d1 = d\<lparr>d_kept_audit := a, d_kept_log := l\<rparr>" by blast
      with p r auth Inr True show ?thesis
        by (intro exI [of _ r] conjI impI exI [of _ xs] exI [of _ a] exI [of _ l] exI [of _ "d_audit d'"]) simp_all
    qed
  qed
qed

lemma dr_snapshot_Inr:
  assumes "dr_snapshot_state env a i s d = Inr d'"
  shows "\<exists>idx old meta. f_admin s = Some a \<and> auth_by env a \<and> sn_created_at meta = ledger_ts env \<and>
    sn_record_count meta = length (dr_records s) \<and>
    d_snapshot d' = (case old of None \<Rightarrow> d_snapshot d | Some j \<Rightarrow> (d_snapshot d)(j := None))(i \<mapsto> dr_records s) \<and>
    d_meta d' = (case old of None \<Rightarrow> d_meta d | Some j \<Rightarrow> (d_meta d)(j := None))(i \<mapsto> meta) \<and>
    (idx, old) = push_snapshot_index (get_or [] (d_index d)) i \<and> d_index d' = Some idx \<and>
    d_rollback d' = d_rollback d \<and> d_count d' = d_count d \<and> d_wasm d' = d_wasm d"
proof -
  obtain idx old where p: "push_snapshot_index (get_or [] (d_index d)) i = (idx, old)" by fastforce
  show ?thesis
    using assms p
    by (intro exI [of _ idx] exI [of _ old] exI [of _ "the (d_meta d' i)"])
      (auto simp: dr_snapshot_state_def res_simps Let_def split: option.splits)
qed


section \<open>What a step keeps\<close>

text \<open>The calls that only touch the proposals, as one change of the map of proposals.\<close>

inductive rb_change :: "env \<Rightarrow> escrow_state \<Rightarrow> dr_state \<Rightarrow> dr_state \<Rightarrow> bool" for env s d where
  opened: "n = get_or 0 (d_count d) + 1 \<Longrightarrow> r = fresh_rollback env a i h sc j n \<Longrightarrow>
    rb_change env s d (d\<lparr>d_count := Some n, d_rollback := (d_rollback d)(n \<mapsto> r)\<rparr>)"
| signed: "d_rollback d i = Some r \<Longrightarrow> \<not> er_executed r \<Longrightarrow>
    (xs, n) = aggregate_technical_approval (er_tech_signers r) a \<Longrightarrow>
    rb_change env s d (d\<lparr>d_rollback := (d_rollback d)(i \<mapsto> r\<lparr>er_tech_signers := xs, er_tech_count := n\<rparr>)\<rparr>)"
| linked: "d_rollback d i = Some r \<Longrightarrow> auth_by env g \<Longrightarrow> y_governance s = Some g \<Longrightarrow>
    rb_change env s d (d\<lparr>d_rollback := (d_rollback d)(i \<mapsto> r\<lparr>er_gov_id := Some p\<rparr>)\<rparr>)"
| marked: "d_rollback d i = Some r \<Longrightarrow> auth_by env g \<Longrightarrow> y_governance s = Some g \<Longrightarrow> er_gov_id r = Some p \<Longrightarrow>
    rb_change env s d (d\<lparr>d_rollback := (d_rollback d)(i \<mapsto> r\<lparr>er_gov_approved := True\<rparr>)\<rparr>)"
| archived: "rb_change env s d (d\<lparr>d_kept_audit := a, d_kept_log := l\<rparr>)"

inductive_cases rb_changeE: "rb_change env s d d'"

lemma propose_plain: "dr_propose_rollback env a i h s d =
    dr_propose env a i h RS_Escrow \<lparr>rj_evidence = h, rj_incident = h, rj_description = 0\<rparr> s d"
  by (simp add: dr_propose_rollback_def)

lemma propose_change: "dr_propose env a i h sc j s d = Inr (n, d') \<Longrightarrow> rb_change env s d d'"
  by (auto dest!: dr_propose_Inr intro: opened)

lemma dr_exec_cases:
  assumes "dr_exec env c (s, d) = Inr (s', d')"
  obtains (snapshot) a i where "c = DSnapshot a i" "s' = s" "dr_snapshot_state env a i s d = Inr d'"
    | (proposal) "rb_change env s d d'" "s' = s"
    | (rollback) i x b where "dr_emergency_rollback env i x (s, d) = Inr (b, s', d')"
proof (cases c)
  case (DSnapshot a i)
  then show thesis using assms snapshot by (auto simp: res_simps)
next
  case (DPropose a i h sc j)
  then show thesis using assms proposal propose_change by (auto simp: res_simps)
next
  case (DProposeRollback a i h)
  then show thesis using assms proposal propose_change by (auto simp: res_simps propose_plain)
next
  case (DApprove a i)
  then have "dr_approve env a i s d = Inr d'" "s' = s" using assms by (auto simp: res_simps)
  from dr_approve_Inr [OF this(1)] this(2) show thesis
    using proposal signed [OF _ _ prod.collapse] by blast
next
  case (DLink g i p)
  then have "dr_link env g i p s d = Inr d'" "s' = s" using assms by (auto simp: res_simps)
  from dr_link_Inr [OF this(1)] this(2) show thesis using proposal linked by blast
next
  case (DMark g i p)
  then have "dr_mark env g i p s d = Inr d'" "s' = s" using assms by (auto simp: res_simps)
  from dr_mark_Inr [OF this(1)] this(2) show thesis using proposal marked by blast
next
  case (DPreserve i)
  then obtain n m where "dr_preserve i s d = Inr (n, m, d')" "s' = s" using assms by (auto simp: res_simps)
  from dr_preserve_Inr [OF this(1)] this(2) show thesis using proposal archived by blast
next
  case (DRollback i x)
  then show thesis using assms rollback by (auto simp: res_simps)
next
  case (DRollbackTo i)
  then show thesis using assms rollback by (auto simp: res_simps dr_rollback_to_snapshot_def)
qed

lemma rb_next_refl [simp]: "rb_next r r"
  by (simp add: rb_next_def)

lemma rb_next_trans: "rb_next r r' \<Longrightarrow> rb_next r' r'' \<Longrightarrow> rb_next r r''"
  by (auto simp: rb_next_def)

lemma rb_change_keeps:
  assumes "rb_change env s d d'" "\<forall>i r. d_rollback d i = Some r \<longrightarrow> rb_ok r \<and> i \<le> get_or 0 (d_count d)"
  shows "(\<forall>i r. d_rollback d' i = Some r \<longrightarrow> rb_ok r \<and> i \<le> get_or 0 (d_count d')) \<and>
    (\<forall>i r. d_rollback d i = Some r \<longrightarrow> (\<exists>r'. d_rollback d' i = Some r' \<and> rb_next r r' \<and> er_executed r' = er_executed r)) \<and>
    (\<forall>i r'. d_rollback d' i = Some r' \<longrightarrow> er_executed r' \<longrightarrow> (\<exists>r. d_rollback d i = Some r \<and> er_executed r)) \<and>
    d_snapshot d' = d_snapshot d \<and> d_meta d' = d_meta d \<and> d_wasm d' = d_wasm d"
  using assms(1)
proof cases
  case (opened n r a i h sc j)
  have "d_rollback d n = None" using assms(2) opened(2) by (cases "d_rollback d n") fastforce+
  then show ?thesis using assms(2) opened by (auto intro: le_SucI)
next
  case (signed i r xs n a)
  have "rb_ok r" using assms(2) signed(2) by blast
  then have "distinct xs \<and> xs \<noteq> [] \<and> n = length xs \<and> set xs = insert a (set (er_tech_signers r))"
    using aggregate_signers [OF signed(4) [symmetric]] by (simp add: rb_ok_def)
  then show ?thesis using assms(2) signed \<open>rb_ok r\<close> by (auto simp: rb_ok_def rb_next_def)
next
  case (linked i r g p)
  then show ?thesis using assms(2) by (auto simp: rb_ok_def rb_next_def)
next
  case (marked i r g p)
  then show ?thesis using assms(2) by (auto simp: rb_ok_def rb_next_def)
next
  case (archived a l)
  then show ?thesis using assms(2) by auto
qed

lemma restore_sys:
  assumes "sys_ok s" "snap_ok s xs"
  shows "sys_ok (dr_restore xs s)" "dom (x_escrows (dr_restore xs s)) = dom (x_escrows s)"
proof -
  have dist: "distinct (map e_id xs)" using assms(2) by (simp add: snap_ok_def)
  note R = restored [OF dist, where s = s]
  show dom: "dom (x_escrows (dr_restore xs s)) = dom (x_escrows s)"
    using assms(2) R(4) by (auto simp: snap_ok_def)
  have "rec_ok k e \<and> 1 \<le> k \<and> k \<le> get_or 0 (x_count s)" if "x_escrows (dr_restore xs s) k = Some e" for k e
  proof -
    have "k \<in> dom (x_escrows s)" using that dom by blast
    moreover have "rec_ok k e"
      using R(3) [OF that] assms store_ok_rec [of s k e] by (auto simp: sys_ok_def snap_ok_def)
    ultimately show ?thesis using assms(1) store_ok_rec [of s k] by (auto simp: sys_ok_def)
  qed
  moreover have "fee_cfg_ok (dr_restore xs s) = fee_cfg_ok s" by (simp add: dr_restore_def fee_cfg_ok_def)
  ultimately have "store_ok (dr_restore xs s)"
    using assms(1) dom unfolding store_ok_def sys_ok_def by (simp add: dr_restore_def)
  moreover have "blank (dr_restore xs s)"
  proof -
    have "x_escrows s = Map.empty \<Longrightarrow> x_escrows (dr_restore xs s) = Map.empty" using dom by (metis dom_eq_empty_conv)
    then show ?thesis using assms(1) by (auto simp: sys_ok_def blank_def dr_restore_def)
  qed
  ultimately show "sys_ok (dr_restore xs s)" by (simp add: sys_ok_def)
qed

lemma snap_ok_mono: "snap_ok s xs \<Longrightarrow> dom (x_escrows s) \<subseteq> dom (x_escrows s') \<Longrightarrow> snap_ok s' xs"
  unfolding snap_ok_def by blast

lemma snap_ok_records: "sys_ok s \<Longrightarrow> snap_ok s (dr_records s)"
  using records_of [of s] store_ok_rec [of s] by (auto simp: snap_ok_def sys_ok_def)

lemma dr_exec_inv:
  assumes "dr_exec env c (s, d) = Inr (s', d')" "dr_inv s d"
  shows "dr_inv s' d' \<and>
    (\<forall>i r. d_rollback d i = Some r \<longrightarrow> (\<exists>r'. d_rollback d' i = Some r' \<and> rb_next r r')) \<and>
    (s' = s \<or> (\<exists>i r. d_rollback d' i = Some r \<and> er_executed r)) \<and>
    (d_snapshot d' i = d_snapshot d i \<or> d_snapshot d' i = None \<or> (\<exists>a. c = DSnapshot a i))"
proof -
  have D: "sys_ok s" "\<And>i xs. d_snapshot d i = Some xs \<Longrightarrow> snap_ok s xs"
      "\<forall>i r. d_rollback d i = Some r \<longrightarrow> rb_ok r \<and> i \<le> get_or 0 (d_count d)"
    using assms(2) by (auto simp: dr_inv_def)
  from assms(1) show ?thesis
  proof (cases rule: dr_exec_cases)
    case (snapshot a j)
    from dr_snapshot_Inr [OF snapshot(3)] snapshot(1,2) D snap_ok_records [OF D(1)] show ?thesis
      by (auto simp: dr_inv_def split: option.splits if_splits)
  next
    case proposal
    from rb_change_keeps [OF proposal(1) D(3)] proposal(2) D(1,2) show ?thesis
      by (fastforce simp: dr_inv_def)
  next
    case (rollback j x b)
    show ?thesis
    proof (cases b)
      case False
      with dr_rollback_Inr [OF rollback] assms(2) show ?thesis by auto
    next
      case True
      with dr_rollback_Inr [OF rollback] obtain r xs a l ad where
        r: "d_rollback d j = Some r" "d_snapshot d (er_snapshot r) = Some xs" "s' = dr_restore xs s"
          "d' = d\<lparr>d_kept_audit := a, d_kept_log := l, d_wasm := er_old_wasm r,
             d_rollback := (d_rollback d)(j \<mapsto> r\<lparr>er_executed := True\<rparr>), d_audit := ad\<rparr>" by blast
      have s': "sys_ok s'" "dom (x_escrows s') = dom (x_escrows s)"
        using restore_sys [OF D(1) D(2) [OF r(2)]] r(3) by simp_all
      have "\<forall>i xs. d_snapshot d' i = Some xs \<longrightarrow> snap_ok s' xs"
        using snap_ok_mono [of s _ s'] D(2) r(4) s'(2) by simp
      moreover have "\<forall>i r. d_rollback d' i = Some r \<longrightarrow> rb_ok r \<and> i \<le> get_or 0 (d_count d')"
        using D(3) r(1,4) by (auto simp: rb_ok_def)
      ultimately have "dr_inv s' d'" using s'(1) by (simp add: dr_inv_def)
      moreover have "\<forall>i q. d_rollback d i = Some q \<longrightarrow> (\<exists>q'. d_rollback d' i = Some q' \<and> rb_next q q')"
        using r(1,4) by (auto simp: rb_next_def)
      moreover have "d_rollback d' j = Some (r\<lparr>er_executed := True\<rparr>)" "d_snapshot d' = d_snapshot d" using r(4) by simp_all
      ultimately show ?thesis by (intro conjI) (fastforce+)
    qed
  qed
qed

end
