(* ===== verification/EscrowDrProps.thy ===== *)
theory EscrowDrProps
  imports EscrowRecovery
begin

text \<open>
  Properties of disaster recovery on all histories of the escrow contract, with a concrete history: the
  conditions of a rollback, the round trip through a snapshot, solvency before the first rollback
  and its loss after one, and the signature that blocks a rollback for good.
\<close>

section \<open>Histories\<close>

definition dr_executed :: "dr_state \<Rightarrow> bool" where
  "dr_executed d \<longleftrightarrow> (\<exists>i r. d_rollback d i = Some r \<and> er_executed r)"

definition dr_good :: "'t token_ops \<Rightarrow> addr \<Rightarrow> escrow_state \<times> dr_state \<times> 't \<Rightarrow> bool" where
  "dr_good T self x \<longleftrightarrow> (case x of (s, d, w) \<Rightarrow>
     dr_inv s d \<and> (dr_executed d \<or> (\<forall>tk. 0 \<le> surplus T self tk s w)))"

definition dr_future :: "dr_call option list \<Rightarrow> dr_state \<Rightarrow> dr_state \<Rightarrow> bool" where
  "dr_future cs d d' \<longleftrightarrow>
     (\<forall>i r. d_rollback d i = Some r \<longrightarrow> (\<exists>r'. d_rollback d' i = Some r' \<and> rb_next r r')) \<and>
     (\<forall>i. (\<forall>a. Some (DSnapshot a i) \<notin> set cs) \<longrightarrow> d_snapshot d' i = d_snapshot d i \<or> d_snapshot d' i = None)"

lemma dr_future_refl [simp]: "dr_future [] d d"
  by (simp add: dr_future_def)

lemma dr_futureD:
  "dr_future cs d d' \<Longrightarrow> d_rollback d i = Some r \<Longrightarrow> \<exists>r'. d_rollback d' i = Some r' \<and> rb_next r r'"
  "dr_future cs d d' \<Longrightarrow> \<forall>a. Some (DSnapshot a i) \<notin> set cs \<Longrightarrow> d_snapshot d' i = d_snapshot d i \<or> d_snapshot d' i = None"
  by (simp_all add: dr_future_def)

lemma dr_future_trans:
  assumes "dr_future cs d1 d2" "dr_future cs' d2 d3"
  shows "dr_future (cs @ cs') d1 d3"
  unfolding dr_future_def
proof (intro conjI allI impI)
  fix i r
  assume "d_rollback d1 i = Some r"
  from dr_futureD(1) [OF assms(1) this] obtain r2 where r2: "d_rollback d2 i = Some r2" "rb_next r r2" by blast
  from dr_futureD(1) [OF assms(2) r2(1)] rb_next_trans [OF r2(2)]
  show "\<exists>r'. d_rollback d3 i = Some r' \<and> rb_next r r'" by blast
next
  fix i
  assume "\<forall>a. Some (DSnapshot a i) \<notin> set (cs @ cs')"
  then have "\<forall>a. Some (DSnapshot a i) \<notin> set cs" "\<forall>a. Some (DSnapshot a i) \<notin> set cs'" by simp_all
  from dr_futureD(2) [OF assms(1) this(1)] dr_futureD(2) [OF assms(2) this(2)]
  show "d_snapshot d3 i = d_snapshot d1 i \<or> d_snapshot d3 i = None" by argo
qed

context token_client
begin

lemma usual_inv:
  assumes "esc_step T self (s, w) (s', w')" "dr_inv s d"
  shows "dr_inv s' d \<and> (\<forall>tk. surplus T self tk s w \<le> surplus T self tk s' w') \<and> dom (x_escrows s) \<subseteq> dom (x_escrows s')"
proof -
  from step_sys [OF assms(1)] assms(2) have st: "sys_ok s'" "good_step T self (s, w) (s', w')"
    by (auto simp: dr_inv_def)
  then have "dom (x_escrows s) \<subseteq> dom (x_escrows s')" by (fastforce simp: good_step_def)
  then show ?thesis using st assms(2) snap_ok_mono [of s _ s'] by (auto simp: dr_inv_def good_step_def)
qed

lemma dr_step_good:
  assumes "dr_step T self code c x y" "dr_good T self x"
  shows "dr_good T self y \<and> dr_future [c] (fst (snd x)) (fst (snd y))"
  using assms(1)
proof cases
  case (usual d s w s' w')
  then show ?thesis
    using assms(2) usual_inv [of self s w s' w' d]
    by (auto simp: dr_good_def dr_future_def) (meson order_trans)
next
  case (recovery d env c' s s' d' w)
  have inv: "dr_inv s d" using assms(2) recovery(2) by (simp add: dr_good_def)
  note E = dr_exec_inv [OF recovery(7) inv]
  have ex: "dr_executed d \<Longrightarrow> dr_executed d'"
    using E unfolding dr_executed_def rb_next_def by blast
  have "s' = s \<or> dr_executed d'" using E unfolding dr_executed_def by blast
  then have "dr_executed d' \<or> (\<forall>tk. 0 \<le> surplus T self tk s' w)"
    using assms(2) recovery(2) ex by (auto simp: dr_good_def)
  then show ?thesis
    using E recovery unfolding dr_good_def dr_future_def by (simp add: recovery) metis
qed

lemma dr_steps_good:
  assumes "dr_steps T self code cs x y" "dr_good T self x"
  shows "dr_good T self y \<and> dr_future cs (fst (snd x)) (fst (snd y))"
  using assms
proof induction
  case (more cs x y c z)
  then show ?case using dr_step_good [OF more.hyps(2)] dr_future_trans by blast
qed simp

lemma dr_reach_good:
  assumes "dr_reach T self code x"
  shows "dr_good T self x"
proof -
  obtain cs w where w: "\<forall>tk. 0 \<le> tk_balance T tk self w" "dr_steps T self code cs (escrow_empty, dr_empty code, w) x"
    using assms by (auto simp: dr_reach_def)
  have "dr_good T self (escrow_empty, dr_empty code, w)"
    using w(1) by (simp add: dr_good_def dr_inv_def dr_empty_def sys_ok_empty surplus_def empty_owes_nothing)
  from dr_steps_good [OF w(2) this] show ?thesis by simp
qed

end

text \<open>Runs of concrete calls, and the history they make.\<close>

fun dr_play :: "hash32 \<Rightarrow> (env \<times> (esc_call + dr_call)) list \<Rightarrow> escrow_state \<times> dr_state \<times> mnt_world \<Rightarrow>
    (escrow_state \<times> dr_state \<times> mnt_world) dr_res" where
  "dr_play code [] x = Inr x"
| "dr_play code ((env, c) # cs) (s, d, w) =
    ensure (d_wasm d = code \<and> external env \<and> self_addr env = 0) HostError (
    case c of
      Inl c \<Rightarrow> rbind (esc_exec mnt_ops quiet_peers env c (s, w)) (\<lambda>(s, w). dr_play code cs (s, d, w))
    | Inr c \<Rightarrow> rbind (dr_exec env c (s, d)) (\<lambda>(s, d). dr_play code cs (s, d, w)))"

definition dr_label :: "env \<times> (esc_call + dr_call) \<Rightarrow> dr_call option" where
  "dr_label x = (case snd x of Inl _ \<Rightarrow> None | Inr c \<Rightarrow> Some c)"

lemma dr_steps_first:
  "dr_step T self code c x y \<Longrightarrow> dr_steps T self code cs y z \<Longrightarrow> dr_steps T self code (c # cs) x z"
proof (rotate_tac, induction rule: dr_steps.induct)
  case (stay y)
  then show ?case using dr_steps.more [OF dr_steps.stay, of T self code c x y] by simp
next
  case (more cs y u c' v)
  from dr_steps.more [OF more.IH [OF more.prems] more.hyps(2)] show ?case by simp
qed

lemma dr_play_steps:
  "dr_play code cs (s, d, w) = Inr y \<Longrightarrow> dr_steps mnt_ops 0 code (map dr_label cs) (s, d, w) y"
proof (induction cs arbitrary: s d w)
  case Nil
  then show ?case by (simp add: dr_steps.stay)
next
  case (Cons x cs)
  obtain env c where x: "x = (env, c)" by (cases x)
  have ok: "d_wasm d = code" "external env" "self_addr env = 0" using Cons.prems x by (auto simp: ensure_Inr)
  show ?case
  proof (cases c)
    case (Inl a)
    with Cons.prems x ok obtain s1 w1 where 1: "esc_exec mnt_ops quiet_peers env a (s, w) = Inr (s1, w1)"
        "dr_play code cs (s1, d, w1) = Inr y" by (auto simp: rbind_Inr ensure_Inr)
    have "dr_step mnt_ops 0 code None (s, d, w) (s1, d, w1)"
      by (rule dr_step.usual [OF ok(1) esc_step.call [OF ok(2,3) 1(1)]])
    from dr_steps_first [OF this Cons.IH [OF 1(2)]] show ?thesis by (simp add: x Inl dr_label_def)
  next
    case (Inr a)
    with Cons.prems x ok obtain s1 d1 where 1: "dr_exec env a (s, d) = Inr (s1, d1)"
        "dr_play code cs (s1, d1, w) = Inr y" by (auto simp: rbind_Inr ensure_Inr)
    have "dr_step mnt_ops 0 code (Some a) (s, d, w) (s1, d1, w)" by (rule dr_step.recovery [OF ok 1(1)])
    from dr_steps_first [OF this Cons.IH [OF 1(2)]] show ?thesis by (simp add: x Inr dr_label_def)
  qed
qed

lemma dr_steps_append:
  "dr_steps T self code cs x y \<Longrightarrow> dr_steps T self code cs' y z \<Longrightarrow> dr_steps T self code (cs @ cs') x z"
proof (rotate_tac, induction rule: dr_steps.induct)
  case (more cs' y u c v)
  from dr_steps.more [OF more.IH [OF more.prems] more.hyps(2)] show ?case by simp
qed simp

lemma dr_play_append: "dr_play code (cs @ cs') x = rbind (dr_play code cs x) (dr_play code cs')"
proof (induction cs arbitrary: x)
  case (Cons c cs)
  obtain env k where "c = (env, k)" by (cases c)
  moreover obtain s d w where "x = (s, d, w)" by (cases x)
  ultimately show ?case
    using Cons.IH by (auto simp: rbind_def ensure_def split: sum.splits)
qed (simp add: rbind_def)

section \<open>A concrete history\<close>

text \<open>
  After the contract and escrow 1 of \<open>EscrowProps\<close>: seven signers 11 to 17 and governance 60 are configured,
  snapshot 7 is taken, the learner releases the escrow; signer 11 proposes a rollback to snapshot 7
  and code 99, three more sign, governance approves, and after 48 hours it is executed.
\<close>

definition dr_setup :: "(env \<times> (esc_call + dr_call)) list" where
  "dr_setup = [(demo_env 1000 [1], Inl (Admin (CInitialize 1 9 500 [50] 0))),
     (demo_env 1000 [2], Inl (Life (CCreate 3 2 1000 ''s1'' 50 1000 4))),
     (demo_env 1000 [1], Inl (Admin (CSetSigners 1 [11, 12, 13, 14, 15, 16, 17]))),
     (demo_env 1000 [1], Inl (Admin (CSetGovernance 1 60)))]"

definition dr_incident :: "(env \<times> (esc_call + dr_call)) list" where
  "dr_incident = [(demo_env 5000 [2], Inl (Life (CRelease 2 1))),
     (demo_env 6000 [11], Inr (DProposeRollback 11 7 99)), (demo_env 6000 [12], Inr (DApprove 12 1)),
     (demo_env 6000 [13], Inr (DApprove 13 1)), (demo_env 6000 [14], Inr (DApprove 14 1)),
     (demo_env 6000 [60], Inr (DLink 60 1 5)), (demo_env 90000 [60], Inr (DMark 60 1 5))]"

definition dr_demo :: escrow_state where
  "dr_demo = demo_s2\<lparr>y_signers := Some [11, 12, 13, 14, 15, 16, 17],
     y_msig_config := Some \<lparr>em_signers = [11, 12, 13, 14, 15, 16, 17], em_threshold = 4\<rparr>, y_governance := Some 60\<rparr>"

lemma dr_setup_run: "dr_play 5 dr_setup (escrow_empty, dr_empty 5, demo_w1) = Inr (dr_demo, dr_empty 5, demo_w2)"
  using demo_init demo_create
  by (simp add: dr_setup_def demo_env_external dr_empty_def keep_tokens_def set_emergency_signers_def
      set_governance_contract_def by_caller_admin_def dr_demo_def EMERGENCY_MSIG_THRESHOLD_def
      is_valid_emergency_config_def EMERGENCY_MSIG_SIGNERS_def) (simp add: demo_defs)

lemmas dr_eval = drop_value_def run_eval dr_snapshot_state_def dr_records_def List.map_filter_def push_snapshot_index_def MAX_SNAPSHOTS_def
  dr_propose_rollback_def dr_propose_def dr_validate_request_def is_registered_signer_def
  validate_justification_def validate_scope_window_def ROLLBACK_MAX_WINDOW_SECS_def compute_review_ends_at_def
  ROLLBACK_COMMUNITY_REVIEW_SECS_def aggregate_technical_approval_def dr_approve_def dr_link_def dr_mark_def
  dr_by_governance_def dr_empty_def dr_demo_def dr_keep_def safe_add_u32_def width_defs

lemma dr_incident_run:
  "\<exists>s d w r. dr_play 5 ((demo_env 4000 [1], Inr (DSnapshot 1 7)) # dr_incident) (dr_demo, dr_empty 5, demo_w2) = Inr (s, d, w) \<and>
     mnt_w_balance 50 0 w = 0 \<and> x_mescrows s = Map.empty \<and> y_signers s = Some [11, 12, 13, 14, 15, 16, 17] \<and>
     x_escrows s = [1 \<mapsto> released_rec 50 demo_rec] \<and> d_snapshot d = [7 \<mapsto> [demo_rec]] \<and>
     d_rollback d 1 = Some r \<and> dom (d_rollback d) = {1} \<and> er_tech_signers r = [11, 12, 13, 14] \<and> er_tech_count r = 4 \<and> er_gov_approved r \<and>
     \<not> er_executed r \<and> \<not> er_rejected r \<and> er_review_ends r = 178800 \<and> er_snapshot r = 7 \<and> er_old_wasm r = 99 \<and>
     er_proposed_at r = 6000 \<and> (\<exists>m. d_meta d 7 = Some m \<and> sn_created_at m = 4000) \<and> d_wasm d = 5"
  by (simp add: dr_incident_def demo_env_external dr_eval released_rec_def)

lemma dr_setup_reach: "dr_reach mnt_ops 0 5 (demo_s2\<lparr>y_signers := Some [11, 12, 13, 14, 15, 16, 17],
     y_msig_config := Some \<lparr>em_signers = [11, 12, 13, 14, 15, 16, 17], em_threshold = 4\<rparr>, y_governance := Some 60\<rparr>,
     dr_empty 5, demo_w2)"
proof -
  have "\<forall>tk. 0 \<le> tk_balance mnt_ops tk 0 demo_w1" by (simp add: demo_defs mnt_w_balance_def mnt_balance_def)
  with dr_play_steps [OF dr_setup_run] show ?thesis unfolding dr_reach_def dr_demo_def by blast
qed


text \<open>The history up to the rollback, and its last call.\<close>

definition dr_opening :: "(env \<times> (esc_call + dr_call)) list" where
  "dr_opening = (demo_env 4000 [1], Inr (DSnapshot 1 7)) # dr_incident"

lemma dr_incident_reach:
  obtains s d w r s' d' where "dr_reach mnt_ops 0 5 (s, d, w)" "d_rollback d 1 = Some r" "er_tech_signers r = [11, 12, 13, 14]"
    "\<not> dr_executed d" "mnt_w_balance 50 0 w = 0" "x_mescrows s = Map.empty" "x_escrows s = [1 \<mapsto> released_rec 50 demo_rec]"
    "dr_emergency_rollback (demo_env 178800 [11]) 1 11 (s, d) = Inr (True, s', d')" "y_signers s = Some [11, 12, 13, 14, 15, 16, 17]"
    "x_escrows s' = [1 \<mapsto> demo_rec]" "x_mescrows s' = Map.empty" "dr_reach mnt_ops 0 5 (s', d', w)" "er_snapshot r = 7"
    "dr_play 5 dr_opening (dr_demo, dr_empty 5, demo_w2) = Inr (s, d, w)" "d_wasm d = 5" "er_review_ends r = 178800"
proof -
  obtain s d w r m where run: "dr_play 5 dr_opening (dr_demo, dr_empty 5, demo_w2) = Inr (s, d, w)"
    and w: "mnt_w_balance 50 0 w = 0" "x_mescrows s = Map.empty" "y_signers s = Some [11, 12, 13, 14, 15, 16, 17]"
      "x_escrows s = [1 \<mapsto> released_rec 50 demo_rec]" "d_snapshot d = [7 \<mapsto> [demo_rec]]"
    and dom: "dom (d_rollback d) = {1}"
    and r: "d_rollback d 1 = Some r" "er_tech_signers r = [11, 12, 13, 14]" "er_tech_count r = 4" "er_gov_approved r"
     "\<not> er_executed r" "\<not> er_rejected r" "er_review_ends r = 178800" "er_snapshot r = 7" "er_old_wasm r = 99"
     "er_proposed_at r = 6000" "d_meta d 7 = Some m" "sn_created_at m = 4000" "d_wasm d = 5"
    unfolding dr_opening_def using dr_incident_run by (elim exE conjE) blast
  obtain cs0 w0 where start: "\<forall>tk. 0 \<le> tk_balance mnt_ops tk 0 w0"
      "dr_steps mnt_ops 0 5 cs0 (escrow_empty, dr_empty 5, w0) (dr_demo, dr_empty 5, demo_w2)"
    using dr_setup_reach unfolding dr_reach_def dr_demo_def by blast
  have steps: "dr_steps mnt_ops 0 5 (cs0 @ map dr_label dr_opening) (escrow_empty, dr_empty 5, w0) (s, d, w)"
    by (rule dr_steps_append [OF start(2) dr_play_steps [OF run]])
  then have reach: "dr_reach mnt_ops 0 5 (s, d, w)" using start(1) unfolding dr_reach_def by blast
  have "dr_cleared (demo_env 178800 [11]) r s d = Inr True"
    using w r by (simp add: dr_cleared_def ready_to_execute_def exact_technical_threshold_met_def
        community_review_elapsed_def EMERGENCY_MSIG_THRESHOLD_def validate_technical_signatures_def
        is_registered_signer_def validate_scope_window_def ROLLBACK_MAX_WINDOW_SECS_def upt_rec)
  then obtain s' d' where roll: "dr_emergency_rollback (demo_env 178800 [11]) 1 11 (s, d) = Inr (True, s', d')"
      and s': "s' = dr_restore [demo_rec] s"
    using r w(5) by (auto simp: dr_emergency_rollback_def dr_preserve_def Let_def)
  have "dr_step mnt_ops 0 5 (Some (DRollback 1 11)) (s, d, w) (s', d', w)"
    by (rule dr_step.recovery [where env = "demo_env 178800 [11]"]) (simp_all add: r(13) roll [unfolded One_nat_def] demo_env_external)
  with steps start(1) have after: "dr_reach mnt_ops 0 5 (s', d', w)"
    unfolding dr_reach_def by (blast intro: dr_steps.more)
  have fresh: "\<not> dr_executed d" using dom r(1,5) unfolding dr_executed_def by (metis domI option.inject singletonD)
  have "x_escrows s' = [1 \<mapsto> demo_rec]" "x_mescrows s' = Map.empty"
    using w by (simp_all add: s' dr_restore_def demo_rec_def)
  from that [OF reach r(1,2) fresh w(1,2,4) roll w(3) this after r(8) run r(13,7)] show thesis .
qed


section \<open>Properties\<close>

text \<open>
  What a rollback needs. In every history a rollback that takes effect was not executed before, was
  approved by governance, carries exactly four distinct signatures, all of them of currently
  registered emergency signers, runs at least 48 hours after it was proposed, and goes back to a stored
  snapshot taken at most 24 hours before the proposal. It restores exactly the records of that
  snapshot, leaves every other escrow and every other part of the storage as they are, and
  installs the code that the proposal names.
\<close>

theorem rollback_gate:
  assumes "token_client T" "dr_reach T self code (s, d, w)" "dr_emergency_rollback env i x (s, d) = Inr (True, s', d')"
  shows "\<exists>r m xs signers. d_rollback d i = Some r \<and> \<not> er_executed r \<and> er_gov_approved r \<and> er_gov_id r \<noteq> None \<and>
    y_signers s = Some signers \<and> set (er_tech_signers r) \<subseteq> set signers \<and> card (set (er_tech_signers r)) = 4 \<and>
    er_proposed_at r + 172800 \<le> ledger_ts env \<and> auth_by env x \<and>
    d_meta d (er_snapshot r) = Some m \<and> sn_created_at m \<le> er_proposed_at r \<and> er_proposed_at r \<le> sn_created_at m + 86400 \<and>
    d_snapshot d (er_snapshot r) = Some xs \<and> d_wasm d' = er_old_wasm r \<and> s' = s\<lparr>x_escrows := x_escrows s'\<rparr> \<and>
    (\<forall>e \<in> set xs. x_escrows s' (e_id e) = Some e) \<and> (\<forall>k. k \<notin> e_id ` set xs \<longrightarrow> x_escrows s' k = x_escrows s k)"
proof -
  from dr_rollback_Inr [OF assms(3)] obtain r xs where r: "d_rollback d i = Some r" "auth_by env x"
      "dr_cleared env r s d = Inr True" "d_snapshot d (er_snapshot r) = Some xs" "s' = dr_restore xs s"
      "d_wasm d' = er_old_wasm r" by auto
  have "dr_inv s d" using token_client.dr_reach_good [OF assms(1,2)] by (simp add: dr_good_def)
  then have ok: "rb_ok r" "distinct (map e_id xs)" using r(1,4) by (auto simp: dr_inv_def snap_ok_def)
  obtain signers m where c: "ready_to_execute r (ledger_ts env)" "y_signers s = Some signers"
      "validate_emergency_signatures signers (er_tech_signers r)" "d_meta d (er_snapshot r) = Some m"
      "validate_scope_window (er_proposed_at r) (sn_created_at m)"
    using r(3) by (auto simp: dr_cleared_def res_simps technical_signatures_agree split: if_splits option.splits)
  have "length (er_tech_signers r) = 4" "set (er_tech_signers r) \<subseteq> set signers"
    using c(3) validate_signatures_iff by (auto simp: EMERGENCY_MSIG_THRESHOLD_def)
  moreover from this(1) have "card (set (er_tech_signers r)) = 4" using ok(1) by (simp add: rb_ok_def distinct_card)
  ultimately show ?thesis
    using r(1,2,4,6) c ok restored(1,2) [OF ok(2), where s = s]
    by (intro exI [of _ r] exI [of _ m] exI [of _ xs] exI [of _ signers])
      (auto simp: ready_to_execute_def rb_ok_def community_review_elapsed_def ROLLBACK_COMMUNITY_REVIEW_SECS_def
        validate_scope_window_def ROLLBACK_MAX_WINDOW_SECS_def r(5) dr_restore_def split: if_splits)
qed

theorem rollback_gate_witness:
  "\<exists>s d w r. dr_reach mnt_ops 0 5 (s, d, w) \<and> d_rollback d 1 = Some r \<and> er_gov_approved r \<and>
     card (set (er_tech_signers r)) = 4 \<and> er_proposed_at r + 172800 \<le> 178800"
proof -
  obtain s d w s' d' where run: "dr_reach mnt_ops 0 5 (s, d, w)"
      "dr_emergency_rollback (demo_env 178800 [11]) 1 11 (s, d) = Inr (True, s', d')"
    by (rule dr_incident_reach)
  from rollback_gate [OF token_client_mnt run] show ?thesis using run(1) by auto
qed

text \<open>
  C9. A rollback is the inverse of the snapshot. When snapshot n is taken, any history without another
  snapshot n follows, and a rollback to n takes effect, every escrow has exactly the record it had when
  the snapshot was taken, an escrow created later keeps its record, and the comparison with the
  snapshot finds no difference in any record.
\<close>

theorem rollback_roundtrip:
  assumes "token_client T" "dr_reach T self code (s, d, w)" "dr_snapshot_state env a n s d = Inr d1"
    "dr_steps T self code cs (s, d1, w) (s2, d2, w2)" "\<forall>a. Some (DSnapshot a n) \<notin> set cs"
    "d_rollback d2 i = Some r" "er_snapshot r = n" "dr_emergency_rollback env2 i x (s2, d2) = Inr (True, s3, d3)"
  shows "(\<forall>k e. x_escrows s k = Some e \<longrightarrow> x_escrows s3 k = Some e) \<and>
    (\<forall>k. x_escrows s k = None \<longrightarrow> x_escrows s3 k = x_escrows s2 k) \<and>
    (\<exists>xs. d_snapshot d3 n = Some xs \<and> length xs = card (dom (x_escrows s)) \<and> (\<forall>e \<in> set xs. dr_check s3 e = (11, [])))"
proof -
  have good: "dr_good T self (s, d, w)" by (rule token_client.dr_reach_good [OF assms(1,2)])
  then have inv: "dr_inv s d" "store_ok s" "sys_ok s" by (simp_all add: dr_good_def dr_inv_def sys_ok_def)
  have "dr_exec env (DSnapshot a n) (s, d) = Inr (s, d1)" using assms(3) by (simp add: dr_keep_def)
  note E = dr_exec_inv [OF this inv(1)]
  have "d_rollback d1 = d_rollback d" using dr_snapshot_Inr [OF assms(3)] by auto
  then have "dr_good T self (s, d1, w)" using good E by (auto simp: dr_good_def dr_executed_def)
  from token_client.dr_steps_good [OF assms(1,4) this] have fut: "dr_future cs d1 d2" by simp
  have "d_snapshot d1 n = Some (dr_records s)" using dr_snapshot_Inr [OF assms(3)] by auto
  with dr_futureD(2) [OF fut assms(5)] have snap: "d_snapshot d2 n = Some (dr_records s) \<or> d_snapshot d2 n = None" by simp
  from dr_rollback_Inr [OF assms(8)] assms(6,7) obtain xs where
    xs: "d_snapshot d2 n = Some xs" "s3 = dr_restore xs s2" "d_snapshot d3 = d_snapshot d2" by auto
  then have eq: "xs = dr_records s" using snap by simp
  note R = records_of [OF inv(2)]
  have dist: "distinct (map e_id xs)" using R(1) by (simp add: eq)
  note S = restored [OF dist, where s = s2]
  have id: "x_escrows s k = Some e \<Longrightarrow> e_id e = k" for k e using store_ok_rec [OF inv(2)] by (simp add: rec_ok_def)
  have kept: "x_escrows s3 k = Some e" if "x_escrows s k = Some e" for k e
  proof -
    have "e \<in> set xs" using that id [OF that] R(2) [of e] by (simp add: eq)
    from S(1) [OF this] show ?thesis using id [OF that] xs(2) by simp
  qed
  have "x_escrows s3 k = x_escrows s2 k" if "x_escrows s k = None" for k
  proof -
    have "e_id e \<noteq> k" if "e \<in> set xs" for e using that \<open>x_escrows s k = None\<close> R(2) [of e] by (auto simp: eq)
    then have "k \<notin> e_id ` set xs" by blast
    then show ?thesis using S(2) xs(2) by simp
  qed
  moreover have "length xs = card (dom (x_escrows s))"
  proof -
    have "set (map e_id xs) = dom (x_escrows s)"
    proof (intro set_eqI iffI)
      fix k assume "k \<in> dom (x_escrows s)"
      then obtain e where e: "x_escrows s k = Some e" by blast
      with id R(2) [of e] have "e \<in> set xs" "k = e_id e" by (simp_all add: eq)
      then show "k \<in> set (map e_id xs)" by simp
    qed (use R(2) in \<open>auto simp: eq\<close>)
    with distinct_card [OF dist] show ?thesis by simp
  qed
  moreover have "dr_check s3 e = (11, [])" if "e \<in> set xs" for e
    using S(1) [OF that] by (simp add: dr_check_def dr_compare_def xs(2))
  ultimately have tail: "\<forall>k. x_escrows s k = None \<longrightarrow> x_escrows s3 k = x_escrows s2 k"
      "length xs = card (dom (x_escrows s))" "\<forall>e \<in> set xs. dr_check s3 e = (11, [])" by blast+
  have "d_snapshot d3 n = Some xs" using xs(1,3) by simp
  with tail kept show ?thesis by blast
qed

theorem rollback_roundtrip_witness:
  "\<exists>(s :: escrow_state) (s2 :: escrow_state) (s3 :: escrow_state). x_escrows s 1 = Some demo_rec \<and> x_escrows s2 1 = Some (released_rec 50 demo_rec) \<and> x_escrows s3 1 = Some demo_rec"
proof -
  obtain s2 d2 w2 r s3 d3 where run: "d_rollback d2 1 = Some r" "er_snapshot r = 7"
      "dr_emergency_rollback (demo_env 178800 [11]) 1 11 (s2, d2) = Inr (True, s3, d3)"
      "dr_play 5 dr_opening (dr_demo, dr_empty 5, demo_w2) = Inr (s2, d2, w2)"
      "x_escrows s2 = [1 \<mapsto> released_rec 50 demo_rec]"
    by (rule dr_incident_reach)
  then obtain d1 where snap: "dr_snapshot_state (demo_env 4000 [1]) 1 7 dr_demo (dr_empty 5) = Inr d1"
      "dr_play 5 dr_incident (dr_demo, d1, demo_w2) = Inr (s2, d2, w2)"
    by (auto simp: dr_opening_def res_simps simp del: dr_play.simps(1))
  have fresh: "\<forall>a. Some (DSnapshot a 7) \<notin> set (map dr_label dr_incident)"
    by (simp add: dr_incident_def dr_label_def)
  have start: "dr_reach mnt_ops 0 5 (dr_demo, dr_empty 5, demo_w2)" using dr_setup_reach by (simp add: dr_demo_def)
  have old: "x_escrows dr_demo 1 = Some demo_rec" by (simp add: dr_demo_def demo_s2_def)
  with rollback_roundtrip [OF token_client_mnt start snap(1) dr_play_steps [OF snap(2)] fresh run(1-3)] run(5)
  show ?thesis by (intro exI [of _ dr_demo] exI [of _ s2] exI [of _ s3]) simp
qed

text \<open>
  C1. Solvency until the first rollback. In every history of all entry points, recovery included, as long as
  no rollback has taken effect the contract holds at least what all live escrows and milestone
  escrows in a token still owe, and can pay any live escrow in full.
\<close>

theorem solvent_until_rollback:
  assumes "token_client T" "dr_reach T self code (s, d, w)" "\<forall>i r. d_rollback d i = Some r \<longrightarrow> \<not> er_executed r"
  shows "liabilities tk s \<le> tk_balance T tk self w \<and>
    (\<forall>k e. x_escrows s k = Some e \<longrightarrow> live (e_status e) \<longrightarrow> e_amount e \<le> tk_balance T (e_token e) self w)"
proof -
  have "sys_ok s" "\<forall>tk. 0 \<le> surplus T self tk s w"
    using token_client.dr_reach_good [OF assms(1,2)] assms(3) by (auto simp: dr_good_def dr_inv_def dr_executed_def)
  from token_client.solvent_pays [OF assms(1) this] show ?thesis by blast
qed

theorem solvent_until_rollback_witness:
  "\<exists>s d w. dr_reach mnt_ops 0 5 (s, d, w) \<and> liabilities 50 s \<le> mnt_w_balance 50 0 w \<and> mnt_w_balance 50 0 w = 0"
proof -
  obtain s d w where run: "dr_reach mnt_ops 0 5 (s, d, w)" "\<not> dr_executed d" "mnt_w_balance 50 0 w = 0"
    by (rule dr_incident_reach)
  have "\<forall>i r. d_rollback d i = Some r \<longrightarrow> \<not> er_executed r" using run(2) by (auto simp: dr_executed_def)
  from solvent_until_rollback [OF token_client_mnt run(1) this, of 50] run(1,3) show ?thesis
    by (intro exI [of _ s] exI [of _ d] exI [of _ w]) simp
qed

text \<open>
  A rollback can end solvency. There is a history with the MNT token in which an escrow is paid out after the
  snapshot and the rollback, with every approval it needs, makes it active again: the contract then
  owes 1000 units of the token and holds none.
\<close>

theorem rollback_insolvent:
  "\<exists>s d w s' d'. dr_reach mnt_ops 0 5 (s, d, w) \<and> liabilities 50 s = 0 \<and>
     dr_emergency_rollback (demo_env 178800 [11]) 1 11 (s, d) = Inr (True, s', d') \<and>
     dr_reach mnt_ops 0 5 (s', d', w) \<and> liabilities 50 s' = 1000 \<and> mnt_w_balance 50 0 w = 0"
proof -
  obtain s d w s' d' where run: "dr_reach mnt_ops 0 5 (s, d, w)" "mnt_w_balance 50 0 w = 0" "x_mescrows s = Map.empty"
      "x_escrows s = [1 \<mapsto> released_rec 50 demo_rec]"
      "dr_emergency_rollback (demo_env 178800 [11]) 1 11 (s, d) = Inr (True, s', d')" "x_escrows s' = [1 \<mapsto> demo_rec]"
      "x_mescrows s' = Map.empty" "dr_reach mnt_ops 0 5 (s', d', w)"
    by (rule dr_incident_reach)
  have "liabilities 50 s = 0" "liabilities 50 s' = 1000"
    by (simp_all add: liabilities_def run(3,4,6,7) wsum_upd owed_in_def owed_def live_def released_rec_def demo_rec_def)
  with run show ?thesis by blast
qed

text \<open>
  A fifth signature blocks a rollback for good. Once more than four signers have signed a proposal, no later
  call executes it, in any continuation: the execution asks for exactly four signatures, and
  signatures are never withdrawn.
\<close>

theorem fifth_signature_blocks:
  assumes "token_client T" "dr_reach T self code (s, d, w)" "d_rollback d i = Some r" "4 < card (set (er_tech_signers r))"
    "dr_steps T self code cs (s, d, w) (s2, d2, w2)" "dr_emergency_rollback env i x (s2, d2) = Inr (b, s3, d3)"
  shows "\<not> b \<and> s3 = s2 \<and> d3 = d2"
proof -
  have good: "dr_good T self (s, d, w)" by (rule token_client.dr_reach_good [OF assms(1,2)])
  have fut: "dr_good T self (s2, d2, w2)" "dr_future cs d d2"
    using token_client.dr_steps_good [OF assms(1,5) good] by simp_all
  from dr_futureD(1) [OF fut(2) assms(3)] obtain r2 where r2: "d_rollback d2 i = Some r2" "rb_next r r2" by blast
  then have "rb_ok r2" "set (er_tech_signers r) \<subseteq> set (er_tech_signers r2)"
    using fut(1) by (auto simp: dr_good_def dr_inv_def rb_next_def)
  then have "4 < er_tech_count r2"
    using assms(4) card_mono [of "set (er_tech_signers r2)" "set (er_tech_signers r)"]
    by (simp add: rb_ok_def distinct_card)
  then have "\<not> ready_to_execute r2 t" for t
    by (simp add: ready_to_execute_def exact_technical_threshold_met_def EMERGENCY_MSIG_THRESHOLD_def)
  then have "dr_cleared env r2 s2 d2 = Inr False" by (simp add: dr_cleared_def)
  with dr_rollback_Inr [OF assms(6)] r2(1) show ?thesis by auto
qed

theorem fifth_signature_blocks_witness:
  "\<exists>s d w r. dr_reach mnt_ops 0 5 (s, d, w) \<and> d_rollback d 1 = Some r \<and> er_gov_approved r \<and> er_review_ends r = 178800 \<and>
     dr_emergency_rollback (demo_env 178800 [11]) 1 11 (s, d) = Inr (False, s, d)"
proof -
  obtain s d w r s1 d1 where run: "dr_reach mnt_ops 0 5 (s, d, w)" "d_rollback d 1 = Some r" "er_tech_signers r = [11, 12, 13, 14]"
      "y_signers s = Some [11, 12, 13, 14, 15, 16, 17]" "er_review_ends r = 178800"
      "dr_emergency_rollback (demo_env 178800 [11]) 1 11 (s, d) = Inr (True, s1, d1)" "d_wasm d = 5"
    by (rule dr_incident_reach)
  have ready: "er_gov_approved r" "\<not> er_executed r" "\<not> er_rejected r"
    using dr_rollback_Inr [OF run(6)] run(2)
    by (auto simp: dr_cleared_def ready_to_execute_def split: if_splits)
  define r' where "r' = r\<lparr>er_tech_signers := [11, 12, 13, 14, 15], er_tech_count := 5\<rparr>"
  define d' where "d' = d\<lparr>d_rollback := (d_rollback d)(1 \<mapsto> r')\<rparr>"
  have "dr_exec (demo_env 7000 [15]) (DApprove 15 1) (s, d) = Inr (s, d')"
    using run(2-4) ready
    by (simp add: dr_approve_def dr_keep_def is_registered_signer_def aggregate_technical_approval_def d'_def r'_def eval_nat_numeral)
  then have "dr_step mnt_ops 0 5 (Some (DApprove 15 1)) (s, d, w) (s, d', w)"
    by (intro dr_step.recovery [OF run(7), of "demo_env 7000 [15]"]) (simp_all add: demo_env_external)
  with run(1) have reach: "dr_reach mnt_ops 0 5 (s, d', w)" unfolding dr_reach_def by (blast intro: dr_steps.more)
  have r': "d_rollback d' 1 = Some r'" "4 < card (set (er_tech_signers r'))" by (simp_all add: d'_def r'_def)
  have "dr_emergency_rollback (demo_env 178800 [11]) 1 11 (s, d') = Inr (False, s, d')"
    using r'(1) by (simp add: dr_emergency_rollback_def dr_cleared_def ready_to_execute_def r'_def
        exact_technical_threshold_met_def EMERGENCY_MSIG_THRESHOLD_def)
  with fifth_signature_blocks [OF token_client_mnt reach r' dr_steps.stay this] show ?thesis
    using reach r'(1) ready run(5) by (intro exI [of _ s] exI [of _ d'] exI [of _ w] exI [of _ r']) (simp add: r'_def)
qed

end
