(* ===== verification/RollbackReview.thy ===== *)
theory RollbackReview
  imports GovernanceProps EscrowDrProps
begin

text \<open>
  The escrow and the governance contract together: \<open>propose_rollback_review\<close> and \<open>apply_action\<close> of
  \<open>contracts/governance/src/lib.rs\<close> call \<open>link_governance_rollback_review\<close> and
  \<open>mark_gov_rollback_approved\<close> of \<open>escrow/src/lib.rs\<close>. The state of the rest of the ledger that
  governance acts on is the escrow's storage, its recovery storage and anything else.
\<close>

section \<open>The two contracts together\<close>

text \<open>The entry points of the escrow that accept the arguments governance passes.\<close>

definition rv_entry :: "symbol \<Rightarrow> val list \<Rightarrow> dr_call option" where
  "rv_entry fn args =
    (case args of
       [VAddr g, VU32 i, VU32 p] \<Rightarrow>
         if fn = ''mark_gov_rollback_approved'' then Some (DMark g i p)
         else if fn = ''link_governance_rollback_review'' then Some (DLink g i p) else None
     | _ \<Rightarrow> None)"

text \<open>
  A change of the ledger outside governance: any call of the escrow's recovery functions that
  governance has not authorised, or any other change of the escrow's storage and of the rest that keeps
  the governance contract configured in the escrow.
\<close>

definition rv_wired :: "addr \<Rightarrow> escrow_state \<Rightarrow> bool" where
  "rv_wired gov s \<longleftrightarrow> y_governance s \<in> {None, Some gov}"

inductive rv_other :: "addr \<Rightarrow> escrow_state \<times> dr_state \<times> 'u \<Rightarrow> escrow_state \<times> dr_state \<times> 'u \<Rightarrow> bool" for gov where
  own: "dr_exec env c (s, d) = Inr (s', d') \<Longrightarrow> \<not> auth_by env gov \<Longrightarrow> rv_other gov (s, d, u) (s', d', u)"
| rest: "rv_wired gov s' \<Longrightarrow> rv_other gov (s, d, u) (s', d, u')"

text \<open>
  Peers of governance on this ledger: a call of one of the two entry points at the escrow runs it, with
  governance as the invoker; no other call can reach an entry point of the escrow that asks for
  governance's authorisation.
\<close>

definition rv_linked :: "addr \<Rightarrow> addr \<Rightarrow> (escrow_state \<times> dr_state \<times> 'u) gov_peers \<Rightarrow> bool" where
  "rv_linked gov esc P \<longleftrightarrow>
    (\<forall>env a n w w'. pe_record_snapshot P env a n w = Inr w' \<longrightarrow> (rv_other gov)\<^sup>*\<^sup>* w w') \<and>
    (\<forall>env a b c fn xs n w h w'. pe_schedule P env a b c fn xs n w = Inr (h, w') \<longrightarrow> (rv_other gov)\<^sup>*\<^sup>* w w') \<and>
    (\<forall>env target fn args s d u s' d' u'. pe_invoke P env target fn args (s, d, u) = Inr (s', d', u') \<longrightarrow>
       (case if target = esc then rv_entry fn args else None of
          Some c \<Rightarrow> dr_exec (env\<lparr>self_addr := esc\<rparr>) c (s, d) = Inr (s', d') \<and> u' = u
        | None \<Rightarrow> (rv_other gov)\<^sup>*\<^sup>* (s, d, u) (s', d', u')))"

inductive rv_reach :: "addr \<Rightarrow> addr \<Rightarrow> nat \<Rightarrow> gov_state \<Rightarrow> escrow_state \<times> dr_state \<times> 'u \<Rightarrow> bool"
  for gov esc where
  rv_begin: "rv_reach gov esc 0 gov_empty (escrow_empty, dr_empty code, u)"
| rv_gov: "rv_reach gov esc t g w \<Longrightarrow> t \<le> ledger_ts env \<Longrightarrow> self_addr env = gov \<Longrightarrow> rv_linked gov esc P \<Longrightarrow>
     gv_exec P env c (g, w) = Inr (g', w') \<Longrightarrow> rv_reach gov esc (ledger_ts env) g' w'"
| rv_out: "rv_reach gov esc t g w \<Longrightarrow> rv_other gov w w' \<Longrightarrow> rv_reach gov esc t g w'"

lemma rv_reach_gov: "rv_reach gov esc t g w \<Longrightarrow> gv_reach t g w"
  by (induction rule: rv_reach.induct) (auto intro: gv_begin gv_step gv_other)


section \<open>Where an approval comes from\<close>

definition rv_approved :: "dr_state \<Rightarrow> nat \<Rightarrow> bool" where
  "rv_approved d i \<longleftrightarrow> (\<exists>r. d_rollback d i = Some r \<and> er_gov_approved r)"

definition rv_voted :: "addr \<Rightarrow> gov_state \<Rightarrow> nat \<Rightarrow> bool" where
  "rv_voted esc g i \<longleftrightarrow> (\<exists>n p. gv_proposal g n = Some p \<and> gp_status p = PsExecuted \<and> gp_action p = GaApproveRollback esc i)"

lemma restore_governance [simp]: "y_governance (dr_restore xs s) = y_governance s"
  by (simp add: dr_restore_def)

lemma dr_exec_approved:
  assumes "dr_exec env c (s, d) = Inr (s', d')" "rv_approved d' i"
  shows "rv_approved d i \<or> (\<exists>g. auth_by env g \<and> y_governance s = Some g)"
  using assms(1)
proof (cases rule: dr_exec_cases)
  case (snapshot a j)
  then show ?thesis using assms(2) dr_snapshot_Inr [OF snapshot(3)] by (auto simp: rv_approved_def)
next
  case proposal
  from proposal(1) assms(2) show ?thesis by cases (auto simp: rv_approved_def split: if_splits)
next
  case (rollback j x b)
  then show ?thesis using assms(2) dr_rollback_Inr [OF rollback]
    by (cases b) (auto simp: rv_approved_def split: if_splits)
qed

lemma dr_exec_governance: "dr_exec env c (s, d) = Inr (s', d') \<Longrightarrow> y_governance s' = y_governance s"
proof (erule dr_exec_cases)
  fix i x b assume "dr_emergency_rollback env i x (s, d) = Inr (b, s', d')"
  from dr_rollback_Inr [OF this] show ?thesis by (cases b) auto
qed auto

text \<open>Outside governance the wiring is kept and nothing is approved.\<close>

definition rv_keeps :: "addr \<Rightarrow> escrow_state \<times> dr_state \<times> 'u \<Rightarrow> escrow_state \<times> dr_state \<times> 'u \<Rightarrow> bool" where
  "rv_keeps gov w w' \<longleftrightarrow> (rv_wired gov (fst w) \<longrightarrow> rv_wired gov (fst w') \<and>
     (\<forall>i. rv_approved (fst (snd w')) i \<longrightarrow> rv_approved (fst (snd w)) i))"

lemma other_keeps: "rv_other gov w w' \<Longrightarrow> rv_keeps gov w w'"
proof (induction rule: rv_other.induct)
  case (own env c s d s' d' u)
  from dr_exec_approved [OF own(1)] dr_exec_governance [OF own(1)] own(2) show ?case
    by (auto simp: rv_keeps_def rv_wired_def)
qed (auto simp: rv_keeps_def)

lemma others_keeps: "(rv_other gov)\<^sup>*\<^sup>* w w' \<Longrightarrow> rv_keeps gov w w'"
proof (induction rule: rtranclp_induct)
  case (step y z)
  with other_keeps [OF step.hyps(2)] show ?case by (auto simp: rv_keeps_def)
qed (simp add: rv_keeps_def)

lemma linkedD:
  assumes "rv_linked gov esc P"
  shows "pe_record_snapshot P env a n w = Inr w' \<Longrightarrow> rv_keeps gov w w'"
    "pe_schedule P env a b x fn xs m w = Inr (h, w') \<Longrightarrow> rv_keeps gov w w'"
    "pe_invoke P env target fn args w = Inr w' \<Longrightarrow> rv_entry fn args = None \<Longrightarrow> rv_keeps gov w w'"
    "pe_invoke P env target fn args w = Inr w' \<Longrightarrow> target \<noteq> esc \<Longrightarrow> rv_keeps gov w w'"
    "pe_invoke P env esc fn args (s, d, u) = Inr (s', d', u') \<Longrightarrow> rv_entry fn args = Some c \<Longrightarrow>
       dr_exec (env\<lparr>self_addr := esc\<rparr>) c (s, d) = Inr (s', d')"
proof -
  show "pe_record_snapshot P env a n w = Inr w' \<Longrightarrow> rv_keeps gov w w'"
    by (rule others_keeps, rule assms [unfolded rv_linked_def, THEN conjunct1, rule_format])
  show "pe_schedule P env a b x fn xs m w = Inr (h, w') \<Longrightarrow> rv_keeps gov w w'"
    by (rule others_keeps, rule assms [unfolded rv_linked_def, THEN conjunct2, THEN conjunct1, rule_format])
  have inv: "case if target = esc then rv_entry fn args else None of
        Some c \<Rightarrow> dr_exec (env\<lparr>self_addr := esc\<rparr>) c (s, d) = Inr (s', d') \<and> u' = u
      | None \<Rightarrow> (rv_other gov)\<^sup>*\<^sup>* (s, d, u) (s', d', u')"
    if "pe_invoke P env target fn args (s, d, u) = Inr (s', d', u')" for target s d u s' d' u'
    using that assms unfolding rv_linked_def by blast
  have others: "rv_keeps gov w w'" if "pe_invoke P env target fn args w = Inr w'" "target \<noteq> esc \<or> rv_entry fn args = None" for target
  proof -
    obtain s d u s' d' u' where w: "w = (s, d, u)" "w' = (s', d', u')" by (cases w, cases w')
    from inv [of target s d u s' d' u'] that have "(rv_other gov)\<^sup>*\<^sup>* w w'" unfolding w by (auto split: if_splits)
    then show ?thesis by (rule others_keeps)
  qed
  show "pe_invoke P env target fn args w = Inr w' \<Longrightarrow> rv_entry fn args = None \<Longrightarrow> rv_keeps gov w w'"
    by (rule others) simp_all
  show "pe_invoke P env target fn args w = Inr w' \<Longrightarrow> target \<noteq> esc \<Longrightarrow> rv_keeps gov w w'"
    by (rule others) blast+
  show "pe_invoke P env esc fn args (s, d, u) = Inr (s', d', u') \<Longrightarrow> rv_entry fn args = Some c \<Longrightarrow>
       dr_exec (env\<lparr>self_addr := esc\<rparr>) c (s, d) = Inr (s', d')"
    using inv [of esc s d u s' d' u'] by simp
qed

text \<open>An applied action approves at most the rollback it names.\<close>

lemma rv_entries [simp]:
  "rv_entry ''mark_gov_rollback_approved'' [VAddr g, VU32 i, VU32 p] = Some (DMark g i p)"
  "rv_entry ''link_governance_rollback_review'' [VAddr g, VU32 i, VU32 p] = Some (DLink g i p)"
  "rv_entry fn [] = None" "rv_entry fn [x] = None"
  by (simp_all add: rv_entry_def split: val.split)

lemma apply_approves:
  assumes "rv_linked gov esc P" "gv_apply_action P env a n (g, w) = Inr (g', w')" "rv_wired gov (fst w)"
  shows "rv_wired gov (fst w') \<and>
    (\<forall>i. rv_approved (fst (snd w')) i \<longrightarrow> rv_approved (fst (snd w)) i \<or> a = GaApproveRollback esc i)"
proof (cases a)
  case (GaExecuteCall t f xs)
  then have "pe_invoke P (as_invoker env) t f [] w = Inr w'" using assms(2) by (auto simp: gv_apply_action_def res_simps)
  from linkedD(3) [OF assms(1) this rv_entries(3)] have "rv_keeps gov w w'" .
  then show ?thesis using assms(3) by (simp add: rv_keeps_def)
next
  case (GaApproveRollback e i)
  obtain s d u s' d' u' where w: "w = (s, d, u)" "w' = (s', d', u')" by (cases w, cases w')
  have call: "pe_invoke P (as_invoker env) e ''mark_gov_rollback_approved'' [VAddr (self_addr env), VU32 i, VU32 n] w = Inr w'"
    using assms(2) GaApproveRollback by (auto simp: gv_apply_action_def res_simps)
  show ?thesis
  proof (cases "e = esc")
    case True
    from linkedD(5) [OF assms(1) call [unfolded w True]]
    have "dr_mark ((as_invoker env)\<lparr>self_addr := esc\<rparr>) (self_addr env) i n s d = Inr d'" "s' = s" by (auto simp: res_simps)
    from dr_mark_Inr [OF this(1)] this(2) show ?thesis
      using assms(3) GaApproveRollback True by (auto simp: w rv_approved_def split: if_splits)
  next
    case False
    from linkedD(4) [OF assms(1) call False] assms(3) show ?thesis by (simp add: rv_keeps_def)
  qed
qed (use assms(2,3) in \<open>auto simp: gv_apply_action_def\<close>)

text \<open>A call of governance approves only what an executed proposal names.\<close>

lemma create_keeps:
  assumes "rv_linked gov esc P" "gv_create_proposal P env a ti h ac (g, w) = Inr (n, g', w')"
  shows "rv_keeps gov w w'"
proof -
  obtain snap n where "pe_record_snapshot P (as_invoker env) snap n w = Inr w'"
    using assms(2) by (auto simp: gv_create_proposal_def Let_def res_simps(1-4) split: if_splits)
  from linkedD(1) [OF assms(1) this] show ?thesis .
qed

lemma cancel_keeps:
  assumes "rv_linked gov esc P" "gv_cancel_proposal P env i m (g, w) = Inr (g', w')"
  shows "rv_keeps gov w w'"
proof -
  have esc: "rv_keeps gov w w1" if e: "gv_escalation P env m g w = Inr w1" for w1
  proof -
    obtain a n where "pe_invoke P (as_invoker env) a ''execute_action'' [VU32 n] w = Inr w1"
      using e by (auto simp: gv_escalation_def res_simps)
    from linkedD(3) [OF assms(1) this rv_entries(4)] show ?thesis .
  qed
  have "gv_escalation P env m g w = Inr w' \<or> w' = w"
    using assms(2) by (auto simp: gv_cancel_proposal_def Let_def res_simps(1-4) split: if_splits)
  then show ?thesis
  proof
    assume "w' = w"
    then show ?thesis by (simp add: rv_keeps_def)
  qed (rule esc)
qed

lemma review_keeps:
  assumes "rv_linked gov esc P" "gv_propose_rollback_review P env a ti h e r (g, w) = Inr (n, g', w')"
  shows "rv_keeps gov w w'"
proof -
  obtain g1 w1 where c: "gv_create_proposal P env a ti h (GaApproveRollback e r) (g, w) = Inr (n, g1, w1)"
      "pe_invoke P (as_invoker env) e ''link_governance_rollback_review'' [VAddr (self_addr env), VU32 r, VU32 n] w1 = Inr w'"
    using assms(2) by (auto simp: gv_propose_rollback_review_def Let_def res_simps)
  have first: "rv_keeps gov w w1" by (rule create_keeps [OF assms(1) c(1)])
  obtain s d u s' d' u' where w: "w1 = (s, d, u)" "w' = (s', d', u')" by (cases w1, cases w')
  have "rv_keeps gov w1 w'"
  proof (cases "e = esc")
    case True
    from linkedD(5) [OF assms(1) c(2) [unfolded w True]]
    have "dr_link ((as_invoker env)\<lparr>self_addr := esc\<rparr>) (self_addr env) r n s d = Inr d'" "s' = s" by (auto simp: res_simps)
    from dr_link_Inr [OF this(1)] this(2) show ?thesis
      by (auto simp: w rv_keeps_def rv_approved_def split: if_splits)
  next
    case False
    from linkedD(4) [OF assms(1) c(2) False] show ?thesis .
  qed
  with first show ?thesis by (auto simp: rv_keeps_def)
qed

lemma executes_approves:
  assumes "rv_linked gov esc P" "gv_execute_proposal P env n (g, w) = Inr (g', w')" "rv_wired gov (fst w)"
  shows "rv_wired gov (fst w') \<and> (\<forall>i. rv_approved (fst (snd w')) i \<longrightarrow> rv_approved (fst (snd w)) i \<or> rv_voted esc g' i)"
  using assms(2)
proof (cases rule: gv_execute_elim)
  case (failed p s1)
  then show ?thesis using assms(3) by simp
next
  case (queued p tg fn xs s1 h s2 tl)
  from linkedD(2) [OF assms(1) queued(9)] assms(3) show ?thesis by (simp add: rv_keeps_def)
next
  case (executed p s1 s2 s3)
  have "gv_proposal g' n = Some (p\<lparr>gp_status := PsExecuted\<rparr>)" using executed(8) by (simp add: close_frame)
  then have "gp_action p = GaApproveRollback esc i \<Longrightarrow> rv_voted esc g' i" for i by (force simp: rv_voted_def)
  with apply_approves [OF assms(1) executed(6) assms(3)] show ?thesis by blast
qed

lemma executes_queued_approves:
  assumes "rv_linked gov esc P" "gv_execute_queued_proposal P env n (g, w) = Inr (g', w')" "rv_wired gov (fst w)"
  shows "rv_wired gov (fst w') \<and> (\<forall>i. rv_approved (fst (snd w')) i \<longrightarrow> rv_approved (fst (snd w)) i \<or> rv_voted esc g' i)"
proof -
  obtain p s1 p1 s2 where q: "gv_apply_action P env (gp_action p) n (g, w) = Inr (s1, w')"
      "gv_transition PsExecuted p s1 = Inr (p1, s2)" "g' = gv_close n p1 s2"
    using assms(2) by (auto simp: gv_execute_queued_proposal_def gv_get_proposal_def res_simps)
  have "gv_proposal g' n = Some (p\<lparr>gp_status := PsExecuted\<rparr>)"
    using gv_transition_Inr [OF q(2)] q(3) by (simp add: close_frame)
  then have "gp_action p = GaApproveRollback esc i \<Longrightarrow> rv_voted esc g' i" for i by (force simp: rv_voted_def)
  with apply_approves [OF assms(1) q(1) assms(3)] show ?thesis by blast
qed

lemma gov_approves:
  assumes "rv_linked gov esc P" "gv_exec P env c (g, w) = Inr (g', w')" "rv_wired gov (fst w)"
  shows "rv_wired gov (fst w') \<and> (\<forall>i. rv_approved (fst (snd w')) i \<longrightarrow> rv_approved (fst (snd w)) i \<or> rv_voted esc g' i)"
proof (cases "(\<exists>n. c = GExecute n) \<or> (\<exists>n. c = GExecuteQueued n)")
  case True
  then consider n where "gv_execute_proposal P env n (g, w) = Inr (g', w')"
    | n where "gv_execute_queued_proposal P env n (g, w) = Inr (g', w')"
    using assms(2) by (elim disjE exE) simp_all
  then show ?thesis using executes_approves [OF assms(1) _ assms(3)] executes_queued_approves [OF assms(1) _ assms(3)]
    by cases
next
  case False
  then have "rv_keeps gov w w'"
    using assms(2)
    by (cases c) (auto simp: gv_world_Inr rbind_Inr rv_keeps_def dest: create_keeps [OF assms(1)] cancel_keeps [OF assms(1)]
        review_keeps [OF assms(1)])
  then show ?thesis using assms(3) by (simp add: rv_keeps_def)
qed

lemma voted_kept:
  assumes "gv_exec P env c (g, w) = Inr (g', w')" "gv_reach t g w" "rv_voted esc g i"
  shows "rv_voted esc g' i"
proof -
  obtain n p where p: "gv_proposal g n = Some p" "gp_status p = PsExecuted" "gp_action p = GaApproveRollback esc i"
    using assms(3) by (auto simp: rv_voted_def)
  from change_next [OF gv_exec_change [OF assms(1)] p(1) gv_reach_inv [OF assms(2)]] p(2,3) show ?thesis
    by (auto simp: rv_voted_def gp_next_def ps_final_def)
qed

lemma reach_approved:
  "rv_reach gov esc t g w \<Longrightarrow> rv_wired gov (fst w) \<and> (\<forall>i. rv_approved (fst (snd w)) i \<longrightarrow> rv_voted esc g i)"
proof (induction rule: rv_reach.induct)
  case (rv_begin code u)
  then show ?case by (simp add: rv_wired_def escrow_empty_def rv_approved_def dr_empty_def)
next
  case (rv_gov t g w env P c g' w')
  from gov_approves [OF rv_gov.hyps(4,5)] voted_kept [OF rv_gov.hyps(5) rv_reach_gov [OF rv_gov.hyps(1)]] rv_gov.IH
  show ?case by blast
next
  case (rv_out t g w w')
  from other_keeps [OF rv_out.hyps(2)] rv_out.IH show ?case by (auto simp: rv_keeps_def)
qed


section \<open>A concrete history of both\<close>

text \<open>
  Governance is contract 60, the escrow contract 0; accounts 2 and 3 have 200 and 150 of 500 votes and the
  voting period is 100000 seconds.
\<close>

definition rv_peers :: "(escrow_state \<times> dr_state \<times> mnt_world) gov_peers" where
  "rv_peers = \<lparr>pe_record_snapshot = (\<lambda>env a i w. Inr w), pe_total_supply_at = (\<lambda>a i w. Inr 500),
     pe_snapshot_balance = (\<lambda>a i v w. Inr 0),
     pe_voting_power = (\<lambda>a i v w. Inr (if v = 2 then 200 else if v = 3 then 150 else 0)),
     pe_delegated_power = (\<lambda>a v i w. Inr 0), pe_template_hash = (\<lambda>a t f w. Inr None),
     pe_staked_at = (\<lambda>a v w. None), pe_schedule = (\<lambda>env a p t f xs d w. Inr (0, w)),
     pe_action = (\<lambda>a i w. Inl HostError), pe_threshold = (\<lambda>a w. Inl HostError),
     pe_invoke = (\<lambda>env target fn args (s, d, u).
       case if target = 0 then rv_entry fn args else None of
         None \<Rightarrow> Inr (s, d, u)
       | Some c \<Rightarrow> (case dr_exec (env\<lparr>self_addr := 0\<rparr>) c (s, d) of
             Inl _ \<Rightarrow> Inl HostError | Inr (s', d') \<Rightarrow> Inr (s', d', u)))\<rparr>"

lemma rv_peers_linked: "rv_linked 60 0 rv_peers"
  unfolding rv_linked_def
proof (intro conjI allI impI)
  fix env target fn args and s :: escrow_state and d and u :: mnt_world and s' d' u'
  assume "pe_invoke rv_peers env target fn args (s, d, u) = Inr (s', d', u')"
  then show "case if target = 0 then rv_entry fn args else None of
        None \<Rightarrow> (rv_other 60)\<^sup>*\<^sup>* (s, d, u) (s', d', u')
      | Some c \<Rightarrow> dr_exec (env\<lparr>self_addr := 0\<rparr>) c (s, d) = Inr (s', d') \<and> u' = u"
    by (auto simp: rv_peers_def split: if_splits option.splits sum.splits)
qed (simp_all add: rv_peers_def)

lemma rv_outs: "(rv_other gov)\<^sup>*\<^sup>* w w' \<Longrightarrow> rv_reach gov esc t g w \<Longrightarrow> rv_reach gov esc t g w'"
  by (induction rule: rtranclp_induct) (auto intro: rv_out)

lemma dr_play_others:
  "dr_play code (map (\<lambda>(env, c). (env, Inr c)) cs) (s, d, w) = Inr (s', d', w') \<Longrightarrow>
   \<forall>(env, c) \<in> set cs. \<not> auth_by env gov \<Longrightarrow> (rv_other gov)\<^sup>*\<^sup>* (s, d, w) (s', d', w')"
proof (induction cs arbitrary: s d)
  case (Cons x cs)
  obtain env c where x: "x = (env, c)" by (cases x)
  with Cons.prems(1) obtain s1 d1 where 1: "dr_exec env c (s, d) = Inr (s1, d1)"
      "dr_play code (map (\<lambda>(env, c). (env, Inr c)) cs) (s1, d1, w) = Inr (s', d', w')"
    by (auto simp: res_simps(1,2))
  have "rv_other gov (s, d, w) (s1, d1, w)" by (rule rv_other.own [OF 1(1)]) (use Cons.prems(2) x in auto)
  with Cons.IH [OF 1(2)] Cons.prems(2) show ?case by (auto intro: converse_rtranclp_into_rtranclp)
qed simp

lemma gv_play_rv:
  "gv_play P cs (g, w) = Inr (g', w') \<Longrightarrow> rv_reach gov esc t g w \<Longrightarrow> rv_linked gov esc P \<Longrightarrow>
   \<forall>(env, c) \<in> set cs. self_addr env = gov \<Longrightarrow> sorted (t # map (ledger_ts \<circ> fst) cs) \<Longrightarrow>
   rv_reach gov esc (last (t # map (ledger_ts \<circ> fst) cs)) g' w'"
proof (induction cs arbitrary: t g w)
  case (Cons x cs)
  obtain env c where x: "x = (env, c)" by (cases x)
  with Cons.prems(1) obtain g1 w1 where 1: "gv_exec P env c (g, w) = Inr (g1, w1)" "gv_play P cs (g1, w1) = Inr (g', w')"
    by (auto simp: res_simps(1))
  have "rv_reach gov esc (ledger_ts env) g1 w1"
    by (rule rv_gov [OF Cons.prems(2) _ _ Cons.prems(3) 1(1)]) (use Cons.prems(4,5) x in auto)
  from Cons.IH [OF 1(2) this Cons.prems(3)] Cons.prems(4,5) show ?case by (simp add: x)
qed simp

definition rv_signing :: "(env \<times> dr_call) list" where
  "rv_signing = [(demo_env 4000 [1], DSnapshot 1 7), (demo_env 6000 [11], DProposeRollback 11 7 99),
     (demo_env 6000 [12], DApprove 12 1), (demo_env 6000 [13], DApprove 13 1), (demo_env 6000 [14], DApprove 14 1)]"

lemma rv_signing_run:
  "\<exists>d r m. dr_play 5 (map (\<lambda>(env, c). (env, Inr c)) rv_signing) (dr_demo, dr_empty 5, demo_w2) = Inr (dr_demo, d, demo_w2) \<and>
     d_rollback d 1 = Some r \<and> er_tech_signers r = [11, 12, 13, 14] \<and> er_tech_count r = 4 \<and> \<not> er_executed r \<and>
     \<not> er_rejected r \<and> er_review_ends r = 178800 \<and> er_snapshot r = 7 \<and> er_proposed_at r = 6000 \<and>
     d_meta d 7 = Some m \<and> sn_created_at m = 4000 \<and> d_snapshot d 7 = Some [demo_rec]"
  by (simp add: rv_signing_def demo_env_external dr_eval)

definition gov_env :: "nat \<Rightarrow> addr list \<Rightarrow> env" where
  "gov_env t signers = (demo_env t signers)\<lparr>self_addr := 60\<rparr>"

definition rv_review :: "(env \<times> gv_call) list" where
  "rv_review = [(gov_env 6000 [], GInit 1 50 60 70 (Some 100000) None None None None),
     (gov_env 6000 [2], GReview 2 [] 0 0 1), (gov_env 50000 [2], GVote 2 1 True), (gov_env 50000 [3], GVote 3 1 True),
     (gov_env 106000 [], GExecute 1)]"

lemma rv_review_run:
  assumes "d_rollback d 1 = Some r"
  shows "\<exists>g. gv_play rv_peers rv_review (gov_empty, dr_demo, d, demo_w2) =
     Inr (g, dr_demo, d\<lparr>d_rollback := (d_rollback d)(1 \<mapsto> r\<lparr>er_gov_id := Some 1, er_gov_approved := True\<rparr>)\<rparr>, demo_w2)"
  using assms
  by (simp add: rv_review_def rv_peers_def gov_env_def gv_eval gv_propose_rollback_review_def dr_link_def dr_mark_def
      dr_by_governance_def dr_keep_def dr_demo_def GOV_ROLLBACK_QUORUM_BPS_def)

lemma rv_final:
  obtains g d s' d' where "rv_reach 60 0 106000 g (dr_demo, d, demo_w2)"
    "dr_emergency_rollback (demo_env 178800 [11]) 1 11 (dr_demo, d) = Inr (True, s', d')"
proof -
  obtain d r m where run: "dr_play 5 (map (\<lambda>(env, c). (env, Inr c)) rv_signing) (dr_demo, dr_empty 5, demo_w2) = Inr (dr_demo, d, demo_w2)"
    and r: "d_rollback d 1 = Some r" "er_tech_signers r = [11, 12, 13, 14]" "er_tech_count r = 4" "\<not> er_executed r"
     "\<not> er_rejected r" "er_review_ends r = 178800" "er_snapshot r = 7" "er_proposed_at r = 6000"
     "d_meta d 7 = Some m" "sn_created_at m = 4000" "d_snapshot d 7 = Some [demo_rec]"
    using rv_signing_run by (elim exE conjE)
  have "rv_other 60 (escrow_empty, dr_empty 5, demo_w2) (dr_demo, dr_empty 5, demo_w2)"
    by (rule rv_other.rest) (simp add: rv_wired_def dr_demo_def)
  from rv_out [OF rv_begin this] have "rv_reach 60 0 0 gov_empty (dr_demo, dr_empty 5, demo_w2)" .
  from rv_outs [OF dr_play_others [OF run] this] have "rv_reach 60 0 0 gov_empty (dr_demo, d, demo_w2)"
    by (simp add: rv_signing_def)
  note start = this
  define r' where "r' = r\<lparr>er_gov_id := Some 1, er_gov_approved := True\<rparr>"
  define d1 where "d1 = d\<lparr>d_rollback := (d_rollback d)(1 \<mapsto> r')\<rparr>"
  obtain g where g: "gv_play rv_peers rv_review (gov_empty, dr_demo, d, demo_w2) = Inr (g, dr_demo, d1, demo_w2)"
    using rv_review_run [OF r(1)] unfolding d1_def r'_def by blast
  have reach: "rv_reach 60 0 106000 g (dr_demo, d1, demo_w2)"
    using gv_play_rv [OF g start rv_peers_linked] by (simp add: rv_review_def gov_env_def)
  have sig: "y_signers dr_demo = Some [11, 12, 13, 14, 15, 16, 17]" by (simp add: dr_demo_def)
  have "dr_cleared (demo_env 178800 [11]) r' dr_demo d1 = Inr True"
    using r sig by (simp add: dr_cleared_def ready_to_execute_def exact_technical_threshold_met_def d1_def r'_def
        community_review_elapsed_def EMERGENCY_MSIG_THRESHOLD_def validate_technical_signatures_def
        is_registered_signer_def validate_scope_window_def ROLLBACK_MAX_WINDOW_SECS_def upt_rec)
  then obtain s' d' where "dr_emergency_rollback (demo_env 178800 [11]) 1 11 (dr_demo, d1) = Inr (True, s', d')"
    using r by (auto simp: dr_emergency_rollback_def dr_preserve_def Let_def d1_def r'_def)
  from that [OF reach this] show thesis .
qed


section \<open>Properties\<close>

text \<open>
  C8. A rollback needs a vote. In every joint history of the escrow and the governance contract configured in
  it, whatever every other contract does, a rollback that takes effect has an executed proposal of
  governance that names this escrow and this rollback, whose voting period is over and which was
  carried by a strict weighted majority with a weighted turnout of at least 50 percent of the
  supply in its snapshot. The README of the governance contract promises a quorum of 30 percent for
  rollback proposals; \<open>execute_proposal\<close> applies the 50 percent of
  \<open>ROLLBACK_GOVERNANCE_QUORUM_BPS\<close>, which is what is proved here.
\<close>

theorem rollback_needs_vote:
  assumes "rv_reach gov esc t g (s, d, u)" "dr_emergency_rollback env i x (s, d) = Inr (True, s', d')"
  shows "\<exists>n p. gv_proposal g n = Some p \<and> gp_status p = PsExecuted \<and> gp_action p = GaApproveRollback esc i \<and>
    gp_voting_ends_at p \<le> t \<and> 0 < gp_supply p \<and> gv_weighted_total g n False < gv_weighted_total g n True \<and>
    gp_supply p * 5000 \<le> (gv_weighted_total g n True + gv_weighted_total g n False) * 10000"
proof -
  from dr_rollback_Inr [OF assms(2)] obtain r where r: "d_rollback d i = Some r" "dr_cleared env r s d = Inr True" by blast
  then have "er_gov_approved r" by (auto simp: dr_cleared_def ready_to_execute_def split: if_splits)
  with r(1) reach_approved [OF assms(1)] have "rv_voted esc g i" by (auto simp: rv_approved_def)
  then obtain n p where p: "gv_proposal g n = Some p" "gp_status p = PsExecuted" "gp_action p = GaApproveRollback esc i"
    by (auto simp: rv_voted_def)
  from outcome_decided [OF rv_reach_gov [OF assms(1)] p(1)] p show ?thesis by (intro exI [of _ n] exI [of _ p]) simp
qed

theorem rollback_needs_vote_witness:
  "\<exists>g d s' d' n p. rv_reach 60 0 106000 g (dr_demo, d, demo_w2) \<and>
     dr_emergency_rollback (demo_env 178800 [11]) 1 11 (dr_demo, d) = Inr (True, s', d') \<and>
     gv_proposal g n = Some p \<and> gp_action p = GaApproveRollback 0 1"
proof -
  obtain g d s' d' where run: "rv_reach 60 0 106000 g (dr_demo, d, demo_w2)"
      "dr_emergency_rollback (demo_env 178800 [11]) 1 11 (dr_demo, d) = Inr (True, s', d')"
    by (rule rv_final)
  from rollback_needs_vote [OF run] run show ?thesis by blast
qed

end
