(* ===== verification/StakingMath.thy ===== *)
theory StakingMath
  imports SafeMath Protections GovShared
begin

text \<open>
  The arithmetic of staking, \<open>contracts/shared/src/staking.rs\<close>: the reward multiplier, the penalty of
  an early exit, the detector of suspicious patterns; and the two risk scores of
  \<open>contracts/shared/src/threat_intelligence.rs\<close> and the extraction cap of
  \<open>contracts/shared/src/tokenomics_protection.rs\<close> that the staking contract calls.
\<close>

section \<open>Casts\<close>

text \<open>Rust's \<open>as\<close> between integer types keeps the low bits.\<close>

definition as_u128 :: "int \<Rightarrow> int" where "as_u128 x = x mod 2 ^ 128"
definition as_u64 :: "int \<Rightarrow> int" where "as_u64 x = x mod 2 ^ 64"
definition as_u32 :: "int \<Rightarrow> nat" where "as_u32 x = nat (x mod 2 ^ 32)"
definition as_i128 :: "int \<Rightarrow> int" where "as_i128 x = (x + 2 ^ 127) mod 2 ^ 128 - 2 ^ 127"

definition arith_u128 :: "int \<Rightarrow> 'e fail + int" where
  "arith_u128 x = (if 0 \<le> x \<and> x < 2 ^ 128 then Inr x else Inl Overflow)"

lemma arith_u128_Inr [res_simps]: "arith_u128 x = Inr y \<longleftrightarrow> y = x \<and> 0 \<le> x \<and> x < 2 ^ 128"
  by (auto simp: arith_u128_def)

lemma safe_mul_u64_Inr [res_simps]: "safe_mul_u64 a b = Inr c \<longleftrightarrow> c = a * b \<and> c \<le> u64_max"
  by (auto simp: safe_mul_u64_def res_simps)

lemma as_u128_id [simp]: "0 \<le> x \<Longrightarrow> in_i128 x \<Longrightarrow> as_u128 x = x"
  by (simp add: as_u128_def in_i128_def i128_max_def)

lemma as_i128_id: "in_i128 x \<Longrightarrow> as_i128 x = x"
  by (simp add: as_i128_def in_i128_def i128_max_def i128_min_def)

lemma as_u32_id: "0 \<le> x \<Longrightarrow> x < 2 ^ 32 \<Longrightarrow> as_u32 x = nat x"
  by (simp add: as_u32_def)

lemmas cast_defs = as_u128_def as_u64_def as_u32_def as_i128_def arith_u128_def


section \<open>Constants and records\<close>

definition MIN_STAKING_DURATION_SECS :: nat where "MIN_STAKING_DURATION_SECS = 14 * 24 * 60 * 60"
definition REWARD_LOCKUP_SECS :: nat where "REWARD_LOCKUP_SECS = 30 * 24 * 60 * 60"
definition MAX_SCALING_DURATION_SECS :: nat where "MAX_SCALING_DURATION_SECS = 365 * 24 * 60 * 60"
definition REWARD_MULTIPLIER_MIN_BPS :: nat where "REWARD_MULTIPLIER_MIN_BPS = 10000"
definition REWARD_MULTIPLIER_MAX_BPS :: nat where "REWARD_MULTIPLIER_MAX_BPS = 30000"
definition EARLY_UNSTAKE_PENALTY_MIN_BPS :: nat where "EARLY_UNSTAKE_PENALTY_MIN_BPS = 1000"
definition EARLY_UNSTAKE_PENALTY_MAX_BPS :: nat where "EARLY_UNSTAKE_PENALTY_MAX_BPS = 5000"
definition BASIS_POINTS :: nat where "BASIS_POINTS = 10000"
definition PATTERN_DETECTION_WINDOW :: nat where "PATTERN_DETECTION_WINDOW = 10"
definition SUSPICIOUS_CYCLE_THRESHOLD_SECS :: nat where "SUSPICIOUS_CYCLE_THRESHOLD_SECS = 7 * 24 * 60 * 60"

lemmas staking_consts =
  MIN_STAKING_DURATION_SECS_def REWARD_LOCKUP_SECS_def MAX_SCALING_DURATION_SECS_def
  REWARD_MULTIPLIER_MIN_BPS_def REWARD_MULTIPLIER_MAX_BPS_def EARLY_UNSTAKE_PENALTY_MIN_BPS_def
  EARLY_UNSTAKE_PENALTY_MAX_BPS_def BASIS_POINTS_def PATTERN_DETECTION_WINDOW_def
  SUSPICIOUS_CYCLE_THRESHOLD_SECS_def

record stake_record =
  sr_mentor :: addr
  sr_amount :: int
  sr_staked_at :: nat
  sr_unlock_at :: nat
  sr_cooldown_until :: "nat option"
  sr_tier :: nat

record reward_lockup =
  rl_epoch :: nat
  rl_base :: int
  rl_scaled :: int
  rl_multiplier :: nat
  rl_unlocks_at :: nat
  rl_claimed :: bool

record penalty_calc =
  pc_duration :: nat
  pc_bps :: nat
  pc_penalty :: int
  pc_returned :: int
  pc_below_min :: bool

datatype pattern_flag = PF_None | PF_ShortCycle | PF_LargeLateStake | PF_RepeatedShortCycle | PF_DistributionSniping

record staking_action =
  sa_action :: symbol
  sa_timestamp :: nat
  sa_amount :: int
  sa_epoch :: nat

definition action_stake :: symbol where "action_stake = ''stake''"
definition action_unstake :: symbol where "action_unstake = ''unstake''"
definition action_claim :: symbol where "action_claim = ''claim''"


section \<open>The reward multiplier\<close>

definition compute_reward_multiplier_bps :: "nat \<Rightarrow> nat" where
  "compute_reward_multiplier_bps dur =
    (if dur < MIN_STAKING_DURATION_SECS then 0
     else if MAX_SCALING_DURATION_SECS \<le> dur then REWARD_MULTIPLIER_MAX_BPS
     else
       let elapsed = dur - MIN_STAKING_DURATION_SECS;
           tot = MAX_SCALING_DURATION_SECS - MIN_STAKING_DURATION_SECS in
       if tot = 0 then REWARD_MULTIPLIER_MIN_BPS
       else
         let range = REWARD_MULTIPLIER_MAX_BPS - REWARD_MULTIPLIER_MIN_BPS;
             addend = as_u32 (int elapsed * int range div int tot)
         in sat_u32 (REWARD_MULTIPLIER_MIN_BPS + addend))"

definition apply_bps_multiplier :: "int \<Rightarrow> nat \<Rightarrow> int" where
  "apply_bps_multiplier amount bps =
    (if bps = 0 \<or> amount \<le> 0 then 0
     else
       let divisor = int BASIS_POINTS;
           multiplier = int bps;
           quotient = amount div divisor;
           remainder = amount mod divisor
       in sat_i128 (sat_i128 (quotient * multiplier) + sat_i128 (remainder * multiplier) div divisor))"

lemma multiplier_step_le: "n < 30326400 \<Longrightarrow> n * 20000 div 30326400 \<le> (20000 :: nat)"
  using div_le_mono [of "n * 20000" "30326400 * 20000" 30326400] by linarith

lemma multiplier_step_cast:
  "n < 30326400 \<Longrightarrow> as_u32 (int n * 20000 div 30326400) = n * 20000 div 30326400"
  using multiplier_step_le [of n] zdiv_int [of "n * 20000" 30326400]
  by (simp add: as_u32_id)

lemma compute_reward_multiplier_unfold:
  "compute_reward_multiplier_bps dur =
    (if dur < 1209600 then 0 else if 31536000 \<le> dur then 30000
     else 10000 + (dur - 1209600) * 20000 div 30326400)"
proof (cases "1209600 \<le> dur \<and> dur < 31536000")
  case True
  then obtain n where dur: "dur = n + 1209600" by (metis le_add_diff_inverse2)
  with True have n: "n < 30326400" by linarith
  have "compute_reward_multiplier_bps dur = sat_u32 (10000 + as_u32 (int n * 20000 div 30326400))"
    using True by (simp add: compute_reward_multiplier_bps_def staking_consts dur)
  also have "\<dots> = 10000 + n * 20000 div 30326400"
    unfolding multiplier_step_cast [OF n] using multiplier_step_le [OF n]
    by (simp add: sat_u32_def u32_max_def)
  finally show ?thesis using True by (simp add: dur)
qed (auto simp: compute_reward_multiplier_bps_def staking_consts)

lemma reward_multiplier_bounds:
  "compute_reward_multiplier_bps dur = 0 \<and> dur < MIN_STAKING_DURATION_SECS \<or>
   10000 \<le> compute_reward_multiplier_bps dur \<and> compute_reward_multiplier_bps dur \<le> 30000 \<and>
   MIN_STAKING_DURATION_SECS \<le> dur"
  using multiplier_step_le [of "dur - 1209600"]
  by (auto simp: compute_reward_multiplier_unfold staking_consts)

lemma reward_multiplier_mono:
  "d \<le> d' \<Longrightarrow> compute_reward_multiplier_bps d \<le> compute_reward_multiplier_bps d'"
proof -
  assume le: "d \<le> d'"
  have "(d - 1209600) * 20000 div 30326400 \<le> (d' - 1209600) * 20000 div 30326400"
    using le by (intro div_le_mono) simp
  with le reward_multiplier_bounds [of d] show ?thesis
    by (auto simp: compute_reward_multiplier_unfold staking_consts)
qed

text \<open>
  The two-step product of the code loses nothing against the rounded exact product, and saturates
  exactly where that product leaves the range.
\<close>

lemma apply_bps_exact:
  assumes "0 \<le> amount" "in_i128 amount" "bps \<le> u32_max"
  shows "apply_bps_multiplier amount bps = min i128_max (amount * int bps div 10000)"
proof (cases "bps = 0 \<or> amount = 0")
  case True
  then show ?thesis by (auto simp: apply_bps_multiplier_def i128_max_def)
next
  case False
  define q r where "q = amount div 10000" and "r = amount mod 10000"
  have a: "amount = q * 10000 + r" "0 \<le> q" "0 \<le> r" "r < 10000"
    using assms(1) by (simp_all add: q_def r_def pos_imp_zdiv_nonneg_iff)
  have b: "0 < int bps" "int bps \<le> 4294967295" using False assms(3) by (simp_all add: u32_max_def)
  have rb: "0 \<le> r * int bps" "r * int bps \<le> 10000 * 4294967295"
    using a b mult_mono [of r 10000 "int bps" 4294967295] by simp_all
  have qb: "0 \<le> q * int bps" using a b by simp
  have exact: "amount * int bps div 10000 = q * int bps + r * int bps div 10000"
  proof -
    have "amount * int bps = r * int bps + q * int bps * 10000" by (simp add: a(1) algebra_simps)
    then show ?thesis by simp
  qed
  have sat_id: "sat_i128 x = min i128_max x" if "0 \<le> x" for x
    using that by (simp add: sat_i128_def i128_min_def i128_max_def)
  have small: "sat_i128 (r * int bps) = r * int bps"
    using rb by (simp add: sat_id i128_max_def)
  have rd: "0 \<le> r * int bps div 10000" using rb by (simp add: pos_imp_zdiv_nonneg_iff)
  have "apply_bps_multiplier amount bps = sat_i128 (sat_i128 (q * int bps) + r * int bps div 10000)"
    using False assms(1) small by (simp add: apply_bps_multiplier_def BASIS_POINTS_def q_def r_def Let_def)
  also have "\<dots> = min i128_max (q * int bps + r * int bps div 10000)"
    using qb rd by (simp add: sat_id i128_max_def min_def)
  finally show ?thesis by (simp add: exact)
qed

lemma sat_i128_nonneg: "0 \<le> x \<Longrightarrow> 0 \<le> sat_i128 x"
  by (simp add: sat_i128_def i128_max_def)

lemma apply_bps_nonneg: "0 \<le> apply_bps_multiplier amount bps"
  by (auto simp: apply_bps_multiplier_def Let_def BASIS_POINTS_def pos_imp_zdiv_nonneg_iff
      intro!: sat_i128_nonneg add_nonneg_nonneg mult_nonneg_nonneg)


section \<open>The early-exit penalty\<close>

definition early_unstake_bps :: "nat \<Rightarrow> nat" where
  "early_unstake_bps dur =
    (if MIN_STAKING_DURATION_SECS \<le> dur then EARLY_UNSTAKE_PENALTY_MIN_BPS
     else
       let remaining = MIN_STAKING_DURATION_SECS - dur;
           range = EARLY_UNSTAKE_PENALTY_MAX_BPS - EARLY_UNSTAKE_PENALTY_MIN_BPS;
           addend = as_u32 (int remaining * int range div int MIN_STAKING_DURATION_SECS)
       in sat_u32 (EARLY_UNSTAKE_PENALTY_MIN_BPS + addend))"

definition compute_early_unstake_penalty :: "nat \<Rightarrow> nat \<Rightarrow> nat \<Rightarrow> int \<Rightarrow> 'e fail + penalty_calc" where
  "compute_early_unstake_penalty staked_at current_time original_unlock_at stake =
    (let dur = current_time - staked_at;
         below = (dur < MIN_STAKING_DURATION_SECS) in
     if original_unlock_at \<le> current_time \<or> stake \<le> 0
     then Inr \<lparr>pc_duration = dur, pc_bps = 0, pc_penalty = 0, pc_returned = stake, pc_below_min = below\<rparr>
     else
       let bps = early_unstake_bps dur in
       rbind (arith_u128 (as_u128 stake * int bps)) (\<lambda>x.
       let penalty = as_i128 (x div int BASIS_POINTS) in
       Inr \<lparr>pc_duration = dur, pc_bps = bps, pc_penalty = penalty,
            pc_returned = sat_i128 (stake - penalty), pc_below_min = below\<rparr>))"

text \<open>The rate of the schedule, as a reference.\<close>

definition penalty_rate :: "nat \<Rightarrow> nat" where
  "penalty_rate dur =
    (if MIN_STAKING_DURATION_SECS \<le> dur then 1000
     else 1000 + (MIN_STAKING_DURATION_SECS - dur) * 4000 div MIN_STAKING_DURATION_SECS)"

lemma penalty_rate_bounds: "1000 \<le> penalty_rate dur \<and> penalty_rate dur \<le> 5000"
proof -
  have "(1209600 - dur) * 4000 div 1209600 \<le> 1209600 * 4000 div (1209600 :: nat)"
    by (intro div_le_mono) simp
  then show ?thesis by (simp add: penalty_rate_def staking_consts)
qed

lemma penalty_rate_antimono: "d \<le> d' \<Longrightarrow> penalty_rate d' \<le> penalty_rate d"
proof -
  assume "d \<le> d'"
  then have "(1209600 - d') * 4000 div 1209600 \<le> (1209600 - d) * 4000 div (1209600 :: nat)"
    by (intro div_le_mono) simp
  then show ?thesis using \<open>d \<le> d'\<close> by (simp add: penalty_rate_def staking_consts)
qed

lemma penalty_step_rate:
  "sat_u32 (1000 + as_u32 (int (1209600 - d) * 4000 div 1209600)) = 1000 + (1209600 - d) * 4000 div 1209600"
proof -
  let ?a = "(1209600 - d) * 4000 div 1209600"
  have le: "?a \<le> 1209600 * 4000 div (1209600 :: nat)" by (intro div_le_mono) simp
  have "int (1209600 - d) * 4000 div 1209600 = int ?a" by (simp add: zdiv_int)
  with le have "as_u32 (int (1209600 - d) * 4000 div 1209600) = ?a" by (simp add: as_u32_id)
  with le show ?thesis by (simp add: sat_u32_def u32_max_def)
qed

lemma early_unstake_bps_rate: "early_unstake_bps dur = penalty_rate dur"
  using penalty_step_rate [of dur]
  by (simp add: early_unstake_bps_def penalty_rate_def Let_def staking_consts del: of_nat_diff)

lemma penalty_cases:
  assumes "compute_early_unstake_penalty t0 now unlock p = Inr c"
  shows "pc_duration c = now - t0 \<and>
    (if unlock \<le> now \<or> p \<le> 0 then pc_bps c = 0 \<and> pc_penalty c = 0 \<and> pc_returned c = p
     else pc_bps c = penalty_rate (now - t0) \<and>
          pc_penalty c = as_i128 (as_u128 p * int (penalty_rate (now - t0)) div 10000) \<and>
          pc_returned c = sat_i128 (p - pc_penalty c))"
  using assms
  by (auto simp: compute_early_unstake_penalty_def early_unstake_bps_rate BASIS_POINTS_def Let_def rbind_Inr
      arith_u128_Inr split: if_splits)

lemma penalty_split:
  assumes "compute_early_unstake_penalty t0 now unlock p = Inr c" "0 \<le> p" "in_i128 p"
  shows "pc_penalty c + pc_returned c = p" "0 \<le> pc_penalty c" "2 * pc_penalty c \<le> p" "0 \<le> pc_returned c"
    "pc_penalty c = (if unlock \<le> now then 0 else p * int (penalty_rate (now - t0)) div 10000)"
proof -
  let ?x = "p * int (penalty_rate (now - t0)) div 10000"
  have x: "0 \<le> ?x" "2 * ?x \<le> p"
  proof -
    show "0 \<le> ?x" using assms(2) by (simp add: pos_imp_zdiv_nonneg_iff)
    have "p * int (penalty_rate (now - t0)) \<le> p * 5000"
      using assms(2) penalty_rate_bounds [of "now - t0"] by (intro mult_left_mono) simp_all
    then have "?x \<le> p * 5000 div 10000" by (rule zdiv_mono1) simp
    moreover have "p * 5000 div 10000 = p div 2" by simp
    ultimately show "2 * ?x \<le> p" by linarith
  qed
  then have "in_i128 ?x" "in_i128 (p - ?x)"
    using assms(2,3) by (simp_all add: in_i128_def i128_min_def i128_max_def)
  then have y: "as_i128 ?x = ?x" "sat_i128 (p - ?x) = p - ?x"
    by (simp_all add: as_i128_id sat_i128_def in_i128_def)
  show "pc_penalty c + pc_returned c = p" "0 \<le> pc_penalty c" "2 * pc_penalty c \<le> p" "0 \<le> pc_returned c"
    "pc_penalty c = (if unlock \<le> now then 0 else ?x)"
    using penalty_cases [OF assms(1)] x y assms(2,3) by (auto split: if_splits)
qed


section \<open>Suspicious patterns\<close>

text \<open>
  The loop over the log: the time of the last unmatched stake and the number of short cycles.
\<close>

fun short_cycles :: "staking_action list \<Rightarrow> nat option \<Rightarrow> nat \<Rightarrow> nat" where
  "short_cycles [] last_stake n = n"
| "short_cycles (act # acts) last_stake n =
    (if sa_action act = action_stake then short_cycles acts (Some (sa_timestamp act)) n
     else if sa_action act = action_unstake then
       (case last_stake of
          Some t \<Rightarrow> short_cycles acts None
            (if sa_timestamp act - t < SUSPICIOUS_CYCLE_THRESHOLD_SECS then sat_u32 (n + 1) else n)
        | None \<Rightarrow> short_cycles acts last_stake n)
     else short_cycles acts last_stake n)"

definition detect_suspicious_pattern ::
    "staking_action list \<Rightarrow> int \<Rightarrow> int \<Rightarrow> nat option \<Rightarrow> nat \<Rightarrow> 'e fail + pattern_flag" where
  "detect_suspicious_pattern actions current_stake total_staked next_distribution_at now =
    (if length actions < 2 then Inr PF_None
     else
       let cycles = short_cycles actions None 0;
           tail = (if 1 \<le> cycles then PF_ShortCycle else PF_None) in
       if 2 \<le> cycles then Inr PF_RepeatedShortCycle
       else case next_distribution_at of
          None \<Rightarrow> Inr tail
        | Some dist_at \<Rightarrow>
            let until = dist_at - now;
                within_window = (until < SUSPICIOUS_CYCLE_THRESHOLD_SECS) in
            rbind (if 0 < total_staked \<and> 0 < current_stake
                   then rbind (arith_u128 (as_u128 current_stake * 10)) (\<lambda>x. Inr (as_u128 total_staked \<le> x))
                   else Inr False) (\<lambda>is_large.
            if within_window \<and> is_large then Inr PF_DistributionSniping
            else if within_window \<and> is_large \<and> 1 \<le> cycles then Inr PF_LargeLateStake
            else Inr tail))"

text \<open>The detector cannot return the flag for a large late stake: the test before it is weaker.\<close>

lemma no_large_late_stake: "detect_suspicious_pattern acts c t d now \<noteq> Inr PF_LargeLateStake"
  by (auto simp: detect_suspicious_pattern_def Let_def res_simps split: option.splits)


section \<open>Extraction cap, velocity, threat vectors\<close>

definition MAX_EXTRACTION_RATE_BPS :: nat where "MAX_EXTRACTION_RATE_BPS = 500"
definition MIN_SUSTAINABILITY_RATIO :: nat where "MIN_SUSTAINABILITY_RATIO = 150"
definition GOVERNANCE_CONCENTRATION_WARN_BPS :: nat where "GOVERNANCE_CONCENTRATION_WARN_BPS = 3000"
definition ECONOMIC_VELOCITY_WARN_BPS :: nat where "ECONOMIC_VELOCITY_WARN_BPS = 2500"
definition MULTI_VECTOR_RESPONSE_THRESHOLD :: nat where "MULTI_VECTOR_RESPONSE_THRESHOLD = 70"
definition REVIEW_MANIPULATION_THRESHOLD :: nat where "REVIEW_MANIPULATION_THRESHOLD = 60"

definition arith_as_u64 :: "int \<Rightarrow> 'e fail + int" where
  "arith_as_u64 x = (if x < 2 ^ 64 then Inr x else Inl Overflow)"

text \<open>\<open>a as u64 * k / b as u64\<close>, with the panics of the product and of a zero divisor.\<close>

definition ratio_u64 :: "int \<Rightarrow> int \<Rightarrow> int \<Rightarrow> 'e fail + nat" where
  "ratio_u64 a k b =
    rbind (arith_as_u64 (as_u64 a * k)) (\<lambda>x.
    ensure (as_u64 b \<noteq> 0) Overflow (Inr (as_u32 (x div as_u64 b))))"

definition exceeds_extraction_rate :: "int \<Rightarrow> int \<Rightarrow> 'e fail + bool" where
  "exceeds_extraction_rate reward total_staked =
    (if total_staked \<le> 0 then Inr True
     else rbind (ratio_u64 reward 10000 total_staked) (\<lambda>rate_bps. Inr (MAX_EXTRACTION_RATE_BPS < rate_bps)))"

record velocity_report =
  vl_supply :: int
  vl_volume :: int
  vl_velocity_bps :: nat
  vl_concentration_bps :: nat
  vl_health :: nat
  vl_stabilize :: bool

definition assess_token_velocity :: "int \<Rightarrow> int \<Rightarrow> nat \<Rightarrow> velocity_report" where
  "assess_token_velocity circulating_supply observed_volume concentration_bps =
    (let velocity_bps = (if 0 < circulating_supply \<and> 0 < observed_volume
            then as_u32 (min (2 ^ 128 - 1) (as_u128 observed_volume * 10000) div as_u128 circulating_supply)
            else 0);
         risk = (if ECONOMIC_VELOCITY_WARN_BPS < velocity_bps then 35 else 0)
              + (if GOVERNANCE_CONCENTRATION_WARN_BPS < concentration_bps then 35 else 0)
              + (if ECONOMIC_VELOCITY_WARN_BPS * 2 < velocity_bps then 20 else 0);
         risk = min risk 100
     in \<lparr>vl_supply = circulating_supply, vl_volume = observed_volume, vl_velocity_bps = velocity_bps,
         vl_concentration_bps = concentration_bps, vl_health = 100 - risk,
         vl_stabilize = (MULTI_VECTOR_RESPONSE_THRESHOLD \<le> risk)\<rparr>)"

record threat_report =
  th_combined :: nat
  th_vectors :: nat
  th_response :: bool
  th_action :: symbol

definition correlate_attack_vectors :: "nat \<Rightarrow> nat \<Rightarrow> nat \<Rightarrow> nat \<Rightarrow> threat_report" where
  "correlate_attack_vectors governance_risk economic_risk technical_risk social_risk =
    (let risks = [governance_risk, economic_risk, technical_risk, social_risk];
         vectors = length (filter (\<lambda>r. REVIEW_MANIPULATION_THRESHOLD \<le> r) risks);
         combined = sum_list (map (min 100) risks) div 4;
         coordinated = (2 \<le> vectors \<and> MULTI_VECTOR_RESPONSE_THRESHOLD \<le> combined)
     in \<lparr>th_combined = combined, th_vectors = vectors, th_response = coordinated,
         th_action = (if coordinated then ''coordinate_response''
                      else if 0 < vectors then ''monitor_vectors'' else ''none'')\<rparr>)"

end
