(* ===== verification/StakingState.thy ===== *)
theory StakingState
  imports StakingMath DenseIndex Sep41 Reentrancy Recovery
begin

text \<open>
  The staking contract, \<open>contracts/staking/src/lib.rs\<close>: its storage, its configuration and admin, the
  tiers, the action log and the two dense arrays (stakers, pending reward lockups).

  The record has the keys of \<open>DataKey\<close> in the order of instance storage, stakers, epochs and
  rewards, liquidity providers, treasury receipts, disaster recovery and monitoring. The next
  scheduled distribution is written to instance storage; \<open>st_next_dist_p\<close> is the persistent entry of
  the same key, which one function reads. Keys that no function touches are left out, and so are
  events. The contracts that staking calls are the record \<open>staking_peers\<close>; a peer that traps answers
  \<open>None\<close>.
\<close>

section \<open>Data\<close>

datatype staking_error =
    StAlreadyInitialized | StNotInitialized | StInvalidAmount | StAlreadyStaked | StNoStakeFound
  | StStillLocked | StNoPendingAdminChange | StAdminChangeNotYetEffective | StInvalidAdminChange
  | StUnauthorized | StCallerNotTreasury | StDistributionAlreadyProcessed | StInvalidState | StOverflow
  | StDuplicateEntry | StTreasuryNotConfigured | StStateValidationFailed | StReentrancyGuardPaused
  | StLockPeriodTooShort | StRewardsStillLocked | StNoClaimableRewards | StMinDurationNotReached
  | StSnapshotNotFound

type_synonym 'a st_res = "staking_error fail + 'a"

definition ST_ADMIN_CHANGE_TIMELOCK :: nat where "ST_ADMIN_CHANGE_TIMELOCK = 48 * 60 * 60"
definition ST_MAX_FINANCIAL_AMOUNT :: int where "ST_MAX_FINANCIAL_AMOUNT = 1000000000000000"
definition MAX_STAKERS_PER_SNAPSHOT :: nat where "MAX_STAKERS_PER_SNAPSHOT = 500"
definition ST_MAX_EXTRACTION_RATE_BPS :: nat where "ST_MAX_EXTRACTION_RATE_BPS = 500"
definition ST_MIN_SUSTAINABILITY_RATIO :: nat where "ST_MIN_SUSTAINABILITY_RATIO = 150"
definition ST_GOV_ACCUMULATION_BPS :: nat where "ST_GOV_ACCUMULATION_BPS = 250"
definition MIGRATION_FAIRNESS_WINDOW :: nat where "MIGRATION_FAIRNESS_WINDOW = 7 * 24 * 60 * 60"
definition EXIT_COORDINATION_THRESHOLD :: nat where "EXIT_COORDINATION_THRESHOLD = 10"

record st_pending_admin =
  sp_new_admin :: addr
  sp_effective_at :: nat

record dist_receipt =
  tr_id :: nat
  tr_treasury :: addr
  tr_token :: addr
  tr_amount :: int
  tr_timestamp :: nat
  tr_received_at :: nat
  tr_processed :: bool

record sustainability =
  su_epoch :: nat
  su_total_staked :: int
  su_total_distributed :: int
  su_extraction_bps :: nat
  su_ratio :: nat
  su_health :: nat
  su_anomaly :: nat
  su_timestamp :: nat

record migration_record =
  mg_user :: addr
  mg_exit_amount :: int
  mg_initiated_at :: nat
  mg_fair :: bool
  mg_coordination :: bool
  mg_status :: nat

record ecosystem_health =
  eh_timestamp :: nat
  eh_participants :: nat
  eh_average :: int
  eh_gini_bps :: nat
  eh_concentration_bps :: nat
  eh_status :: nat

record stake_snapshot =
  sk_mentor :: addr
  sk_amount :: int
  sk_staked_at :: nat
  sk_unlock_at :: nat
  sk_cooldown_until :: "nat option"
  sk_tier :: nat

record lp_record =
  lr_token :: addr
  lr_amount :: int
  lr_pair :: "addr \<times> addr"
  lr_registered_at :: nat
  lr_last_reward_at :: nat

record tier_requirements =
  tq_bronze_stake :: int
  tq_silver_stake :: int
  tq_gold_stake :: int
  tq_bronze_rating :: nat
  tq_silver_rating :: nat
  tq_gold_rating :: nat
  tq_bronze_sessions :: nat
  tq_silver_sessions :: nat
  tq_gold_sessions :: nat

definition DEFAULT_TIER_REQUIREMENTS :: tier_requirements where
  "DEFAULT_TIER_REQUIREMENTS =
    \<lparr>tq_bronze_stake = 100, tq_silver_stake = 500, tq_gold_stake = 2000,
     tq_bronze_rating = 350, tq_silver_rating = 400, tq_gold_rating = 450,
     tq_bronze_sessions = 5, tq_silver_sessions = 10, tq_gold_sessions = 50\<rparr>"

record game_theory_state =
  gt_stable :: bool
  gt_defection_risk :: nat
  gt_cooperation :: nat
  gt_nash_risk :: nat


section \<open>Storage\<close>

record st_config =
  st_guard :: guard_state
  st_admin :: "addr option"
  st_mnt :: "addr option"
  st_pause_guardian :: "addr option"
  st_pending_admin :: "st_pending_admin option"
  st_anomaly :: "addr option"
  st_bypass :: "bool option"
  st_treasury :: "addr option"
  st_reputation :: "addr option"
  st_sessions :: "addr option"
  st_tiers :: "tier_requirements option"
  st_dashboard :: "addr option"
  st_next_dist :: "nat option"
  st_next_dist_p :: "nat option"

record st_stakers = st_config +
  st_stake :: "addr \<rightharpoonup> stake_record"
  st_slot :: "nat \<rightharpoonup> addr"
  st_index :: "addr \<rightharpoonup> nat"
  st_count :: "nat option"
  st_legacy :: "addr list option"
  st_total :: "int option"
  st_log :: "addr \<rightharpoonup> staking_action list"
  st_log_index :: "addr \<rightharpoonup> nat"

record st_rewards = st_stakers +
  st_pending_rewards :: "addr \<rightharpoonup> int"
  st_epoch :: "nat option"
  st_epoch_total :: "nat \<rightharpoonup> int"
  st_epoch_eligible :: "nat \<rightharpoonup> int"
  st_epoch_reward :: "nat \<rightharpoonup> int"
  st_epoch_stake :: "nat \<times> addr \<rightharpoonup> int"
  st_entry :: "addr \<rightharpoonup> nat"
  st_next_claim :: "addr \<rightharpoonup> nat"
  st_settled :: "addr \<rightharpoonup> nat"
  st_lockup :: "addr \<times> nat \<rightharpoonup> reward_lockup"
  st_pend_slot :: "nat \<rightharpoonup> addr \<times> nat"
  st_pend_pos :: "addr \<times> nat \<rightharpoonup> nat"
  st_pend_count :: "nat option"
  st_penalty_pool :: "int option"
  st_lp :: "addr \<rightharpoonup> lp_record"
  st_lp_pool :: "int option"
  st_processed :: "nat \<rightharpoonup> bool"
  st_receipt :: "nat \<rightharpoonup> dist_receipt"
  st_dist_count :: "nat option"

record staking = st_rewards +
  st_snap :: "nat \<rightharpoonup> stake_snapshot list"
  st_snap_meta :: "nat \<rightharpoonup> snapshot_meta"
  st_snap_index :: "nat list option"
  st_next_snap :: "nat option"
  st_signers :: "addr list option"
  st_rb :: "nat \<rightharpoonup> rollback_proposal"
  st_rb_approval :: "nat \<times> addr \<rightharpoonup> bool"
  st_rb_count :: "nat option"
  st_game :: "game_theory_state option"
  st_collusion :: "addr \<rightharpoonup> bool"
  st_metrics :: "nat \<rightharpoonup> sustainability"
  st_gov_acc :: "addr \<rightharpoonup> nat"
  st_migration :: "addr \<rightharpoonup> migration_record"
  st_exits :: "nat \<rightharpoonup> nat"
  st_ecosystem :: "ecosystem_health option"
  st_velocity :: "velocity_report option"
  st_threat :: "threat_report option"

definition staking_empty :: staking where
  "staking_empty =
    \<lparr>st_guard = guard_init, st_admin = None, st_mnt = None, st_pause_guardian = None,
     st_pending_admin = None, st_anomaly = None, st_bypass = None, st_treasury = None,
     st_reputation = None, st_sessions = None, st_tiers = None, st_dashboard = None,
     st_next_dist = None, st_next_dist_p = None,
     st_stake = Map.empty, st_slot = Map.empty, st_index = Map.empty, st_count = None,
     st_legacy = None, st_total = None, st_log = Map.empty, st_log_index = Map.empty,
     st_pending_rewards = Map.empty, st_epoch = None, st_epoch_total = Map.empty,
     st_epoch_eligible = Map.empty, st_epoch_reward = Map.empty, st_epoch_stake = Map.empty,
     st_entry = Map.empty, st_next_claim = Map.empty, st_settled = Map.empty, st_lockup = Map.empty,
     st_pend_slot = Map.empty, st_pend_pos = Map.empty, st_pend_count = None, st_penalty_pool = None,
     st_lp = Map.empty, st_lp_pool = None, st_processed = Map.empty, st_receipt = Map.empty,
     st_dist_count = None,
     st_snap = Map.empty, st_snap_meta = Map.empty, st_snap_index = None, st_next_snap = None,
     st_signers = None, st_rb = Map.empty, st_rb_approval = Map.empty, st_rb_count = None,
     st_game = None, st_collusion = Map.empty, st_metrics = Map.empty, st_gov_acc = Map.empty,
     st_migration = Map.empty, st_exits = Map.empty, st_ecosystem = None, st_velocity = None,
     st_threat = None\<rparr>"

text \<open>The contracts that staking calls besides its token.\<close>

record staking_peers =
  sk_is_paused :: "addr \<Rightarrow> bool option"
  sk_check_anomaly :: "addr \<Rightarrow> addr \<Rightarrow> nat \<Rightarrow> int \<Rightarrow> nat option"
  sk_mentor_rating :: "addr \<Rightarrow> addr \<Rightarrow> (nat \<times> nat) option"
  sk_mentor_sessions :: "addr \<Rightarrow> addr \<Rightarrow> symbol list option"
  sk_record_metric :: "addr \<Rightarrow> symbol \<Rightarrow> int \<Rightarrow> unit option"


section \<open>Admin and configuration\<close>

definition st_get_admin :: "staking \<Rightarrow> addr st_res" where
  "st_get_admin s = expect (st_admin s) (Err StNotInitialized) Inr"

definition st_require_admin :: "env \<Rightarrow> addr \<Rightarrow> staking \<Rightarrow> 'b st_res \<Rightarrow> 'b st_res" where
  "st_require_admin env admin s k =
    ensure (auth_by env admin) AuthDenied (
    rbind (st_get_admin s) (\<lambda>stored. ensure (stored = admin) (Err StUnauthorized) k))"

text \<open>Setters that read the admin from storage and panic without one.\<close>

definition st_as_admin :: "env \<Rightarrow> staking \<Rightarrow> 'b st_res \<Rightarrow> 'b st_res" where
  "st_as_admin env s k =
    expect (st_admin s) (Panic ''Not initialized'') (\<lambda>admin. ensure (auth_by env admin) AuthDenied k)"

definition st_initialize :: "addr \<Rightarrow> addr \<Rightarrow> addr option \<Rightarrow> staking \<Rightarrow> staking st_res" where
  "st_initialize admin mnt_token pause_guardian s =
    ensure (st_admin s = None) (Err StAlreadyInitialized) (
    let s1 = s\<lparr>st_admin := Some admin, st_mnt := Some mnt_token\<rparr> in
    Inr (case pause_guardian of Some g \<Rightarrow> s1\<lparr>st_pause_guardian := Some g\<rparr> | None \<Rightarrow> s1))"

definition st_propose_admin_change :: "env \<Rightarrow> addr \<Rightarrow> addr \<Rightarrow> staking \<Rightarrow> staking st_res" where
  "st_propose_admin_change env current_admin new_admin s =
    st_require_admin env current_admin s (
    rbind (st_get_admin s) (\<lambda>old_admin.
    expect (checked_u64 (ledger_ts env + ST_ADMIN_CHANGE_TIMELOCK)) (Err StInvalidAdminChange) (\<lambda>t.
    Inr (s\<lparr>st_pending_admin := Some \<lparr>sp_new_admin = new_admin, sp_effective_at = t\<rparr>\<rparr>))))"

definition st_accept_admin_change :: "env \<Rightarrow> addr \<Rightarrow> staking \<Rightarrow> staking st_res" where
  "st_accept_admin_change env new_admin s =
    ensure (auth_by env new_admin) AuthDenied (
    expect (st_pending_admin s) (Err StNoPendingAdminChange) (\<lambda>pending.
    ensure (sp_new_admin pending = new_admin) (Err StUnauthorized) (
    ensure (\<not> ledger_ts env < sp_effective_at pending) (Err StAdminChangeNotYetEffective) (
    rbind (st_get_admin s) (\<lambda>old_admin.
    Inr (s\<lparr>st_admin := Some new_admin, st_pending_admin := None\<rparr>))))))"

definition st_cancel_admin_change :: "env \<Rightarrow> addr \<Rightarrow> staking \<Rightarrow> staking st_res" where
  "st_cancel_admin_change env multisig s =
    ensure (auth_by env multisig) AuthDenied (
    ensure (st_pending_admin s \<noteq> None) (Err StNoPendingAdminChange) (Inr (s\<lparr>st_pending_admin := None\<rparr>)))"

definition st_get_pending_admin_change :: "staking \<Rightarrow> st_pending_admin option" where
  "st_get_pending_admin_change s = st_pending_admin s"

definition st_set_pause_guardian :: "env \<Rightarrow> addr \<Rightarrow> staking \<Rightarrow> staking st_res" where
  "st_set_pause_guardian env guardian s =
    rbind (st_get_admin s) (\<lambda>admin.
    ensure (auth_by env admin) AuthDenied (Inr (s\<lparr>st_pause_guardian := Some guardian\<rparr>)))"

definition st_set_anomaly_detector :: "env \<Rightarrow> addr \<Rightarrow> staking \<Rightarrow> staking st_res" where
  "st_set_anomaly_detector env detector s = st_as_admin env s (Inr (s\<lparr>st_anomaly := Some detector\<rparr>))"

definition st_set_bypass :: "env \<Rightarrow> bool \<Rightarrow> staking \<Rightarrow> staking st_res" where
  "st_set_bypass env bypass s = st_as_admin env s (Inr (s\<lparr>st_bypass := Some bypass\<rparr>))"

definition st_set_treasury :: "env \<Rightarrow> addr \<Rightarrow> addr \<Rightarrow> staking \<Rightarrow> staking st_res" where
  "st_set_treasury env admin treasury s = st_require_admin env admin s (Inr (s\<lparr>st_treasury := Some treasury\<rparr>))"

definition st_get_treasury :: "staking \<Rightarrow> addr option" where
  "st_get_treasury s = st_treasury s"

definition st_set_reputation :: "env \<Rightarrow> addr \<Rightarrow> staking \<Rightarrow> staking st_res" where
  "st_set_reputation env a s = st_as_admin env s (Inr (s\<lparr>st_reputation := Some a\<rparr>))"

definition st_set_sessions :: "env \<Rightarrow> addr \<Rightarrow> staking \<Rightarrow> staking st_res" where
  "st_set_sessions env a s = st_as_admin env s (Inr (s\<lparr>st_sessions := Some a\<rparr>))"

definition st_set_dashboard :: "env \<Rightarrow> addr \<Rightarrow> staking \<Rightarrow> staking st_res" where
  "st_set_dashboard env a s = st_as_admin env s (Inr (s\<lparr>st_dashboard := Some a\<rparr>))"

definition st_set_tier_requirements :: "env \<Rightarrow> addr \<Rightarrow> tier_requirements \<Rightarrow> staking \<Rightarrow> staking st_res" where
  "st_set_tier_requirements env admin requirements s =
    expect (st_admin s) (Panic ''Not initialized'') (\<lambda>stored.
    ensure (auth_by env admin) AuthDenied (
    ensure (stored = admin) (Panic ''Unauthorized'') (Inr (s\<lparr>st_tiers := Some requirements\<rparr>))))"

definition st_set_next_distribution_at :: "env \<Rightarrow> addr \<Rightarrow> nat \<Rightarrow> staking \<Rightarrow> staking st_res" where
  "st_set_next_distribution_at env admin t s = st_require_admin env admin s (Inr (s\<lparr>st_next_dist := Some t\<rparr>))"

definition st_get_next_distribution_at :: "staking \<Rightarrow> nat option" where
  "st_get_next_distribution_at s = st_next_dist s"

definition st_adjust_game_theory :: "nat \<Rightarrow> staking \<Rightarrow> staking" where
  "st_adjust_game_theory score s =
    s\<lparr>st_game := Some \<lparr>gt_stable = (score < 5000), gt_defection_risk = (if 5000 < score then 80 else 25),
        gt_cooperation = (if 5000 < score then 20 else 75), gt_nash_risk = (if 5000 < score then 60 else 15)\<rparr>\<rparr>"

text \<open>Compatible, misalignment risk, mechanism integrity, welfare.\<close>

definition st_verify_incentives :: "addr \<Rightarrow> staking \<Rightarrow> bool \<times> nat \<times> nat \<times> nat" where
  "st_verify_incentives mentor s =
    (let suspicious = get_or False (st_collusion s mentor) in
     (\<not> suspicious, if suspicious then 75 else 15, if suspicious then 25 else 95, if suspicious then 30 else 85))"

lemma st_require_admin_Inr [res_simps]:
  "st_require_admin env a s k = Inr x \<longleftrightarrow> auth_by env a \<and> st_admin s = Some a \<and> k = Inr x"
  by (auto simp: st_require_admin_def st_get_admin_def res_simps)

lemma st_as_admin_Inr [res_simps]:
  "st_as_admin env s k = Inr x \<longleftrightarrow> (\<exists>a. st_admin s = Some a \<and> auth_by env a) \<and> k = Inr x"
  by (auto simp: st_as_admin_def res_simps)


section \<open>Tiers\<close>

definition st_load_tiers :: "staking \<Rightarrow> tier_requirements" where
  "st_load_tiers s = get_or DEFAULT_TIER_REQUIREMENTS (st_tiers s)"

definition mentor_quality :: "staking_peers \<Rightarrow> addr \<Rightarrow> staking \<Rightarrow> (nat \<times> nat) option st_res" where
  "mentor_quality P mentor s =
    (case (st_reputation s, st_sessions s) of
       (Some reputation, Some session_registry) \<Rightarrow>
         expect (sk_mentor_rating P reputation mentor) CalleeTrapped (\<lambda>(rating, reviews).
         expect (sk_mentor_sessions P session_registry mentor) CalleeTrapped (\<lambda>sessions.
         Inr (Some (as_u32 (int rating), length sessions))))
     | _ \<Rightarrow> Inr None)"

definition tier_met :: "int \<Rightarrow> (nat \<times> nat) option \<Rightarrow> int \<Rightarrow> nat \<Rightarrow> nat \<Rightarrow> bool" where
  "tier_met amount quality min_stake min_rating min_sessions =
    (if amount < min_stake then False
     else case quality of Some (rating, sessions) \<Rightarrow> min_rating \<le> rating \<and> min_sessions \<le> sessions
          | None \<Rightarrow> True)"

definition tier_of :: "tier_requirements \<Rightarrow> (nat \<times> nat) option \<Rightarrow> int \<Rightarrow> nat" where
  "tier_of q quality amount =
    (if tier_met amount quality (tq_gold_stake q) (tq_gold_rating q) (tq_gold_sessions q) then 3
     else if tier_met amount quality (tq_silver_stake q) (tq_silver_rating q) (tq_silver_sessions q) then 2
     else if tier_met amount quality (tq_bronze_stake q) (tq_bronze_rating q) (tq_bronze_sessions q) then 1
     else 0)"

definition compute_tier :: "staking_peers \<Rightarrow> int \<Rightarrow> addr \<Rightarrow> staking \<Rightarrow> nat st_res" where
  "compute_tier P amount mentor s =
    rbind (mentor_quality P mentor s) (\<lambda>quality. Inr (tier_of (st_load_tiers s) quality amount))"

lemma tier_of_le: "tier_of q quality amount \<le> 3"
  by (simp add: tier_of_def)

text \<open>More stake never lowers the tier, whatever the thresholds.\<close>

lemma tier_of_mono: "a \<le> b \<Longrightarrow> tier_of q quality a \<le> tier_of q quality b"
  by (auto simp: tier_of_def tier_met_def split: option.splits)

lemma compute_tier_le: "compute_tier P a m s = Inr t \<Longrightarrow> t \<le> 3"
  by (auto simp: compute_tier_def res_simps tier_of_le)


section \<open>The action log\<close>

definition load_action_log :: "addr \<Rightarrow> staking \<Rightarrow> staking_action list" where
  "load_action_log staker s = get_or [] (st_log s staker)"

text \<open>\<open>Vec::set\<close> traps when the index is out of range.\<close>

definition append_staker_action :: "addr \<Rightarrow> symbol \<Rightarrow> nat \<Rightarrow> int \<Rightarrow> nat \<Rightarrow> staking \<Rightarrow> staking st_res" where
  "append_staker_action staker action timestamp amount epoch_id s =
    (let log = get_or [] (st_log s staker);
         next_idx = get_or 0 (st_log_index s staker);
         cap = PATTERN_DETECTION_WINDOW;
         r = \<lparr>sa_action = action, sa_timestamp = timestamp, sa_amount = amount, sa_epoch = epoch_id\<rparr> in
     rbind (if length log < cap then Inr (log @ [r])
            else ensure (next_idx < length log) HostError (Inr (log[next_idx := r]))) (\<lambda>log'.
     rbind (arith_u32 (next_idx + 1)) (\<lambda>n.
     Inr (s\<lparr>st_log := (st_log s)(staker \<mapsto> log'), st_log_index := (st_log_index s)(staker \<mapsto> n mod cap)\<rparr>))))"

definition record_stake_snapshot_index :: "staking \<Rightarrow> staking st_res" where
  "record_stake_snapshot_index s =
    (let current = get_or 0 (st_next_snap s) in
     expect (checked_u32 (current + 1)) (Panic ''snapshot index overflow'') (\<lambda>nxt.
     let index = fst (push_snapshot_index (get_or [] (st_snap_index s)) nxt) in
     Inr (s\<lparr>st_snap_index := Some index, st_next_snap := Some nxt\<rparr>)))"


section \<open>The array of stakers\<close>

definition staker_count :: "staking \<Rightarrow> nat" where
  "staker_count s = get_or 0 (st_count s)"

definition stakers_add :: "addr \<Rightarrow> staking \<Rightarrow> staking st_res" where
  "stakers_add mentor s =
    (if st_index s mentor = None then
       let count = get_or 0 (st_count s) in
       rbind (arith_u32 (count + 1)) (\<lambda>c.
       Inr (s\<lparr>st_slot := (st_slot s)(count \<mapsto> mentor), st_index := (st_index s)(mentor \<mapsto> count),
              st_count := Some c\<rparr>))
     else Inr s)"

definition stakers_remove :: "addr \<Rightarrow> staking \<Rightarrow> staking st_res" where
  "stakers_remove mentor s =
    (case st_index s mentor of
       None \<Rightarrow> Inr s
     | Some index \<Rightarrow>
         let count = get_or 0 (st_count s) in
         rbind (sub_u32 count 1) (\<lambda>last_index.
         rbind (if index \<noteq> last_index then
                  expect (st_slot s last_index) (Panic ''unwrap'') (\<lambda>last_mentor.
                  Inr (s\<lparr>st_slot := (st_slot s)(index \<mapsto> last_mentor),
                         st_index := (st_index s)(last_mentor \<mapsto> index)\<rparr>))
                else Inr s) (\<lambda>s1.
         Inr (s1\<lparr>st_slot := (st_slot s1)(last_index := None), st_index := (st_index s1)(mentor := None),
                st_count := Some last_index\<rparr>))))"

interpretation stakers: dense_array st_slot st_index staker_count stakers_add stakers_remove
  by unfold_locales
    (auto simp: stakers_add_def stakers_remove_def staker_count_def slots_del_def pos_del_def Let_def
      res_simps split: if_splits)

definition get_stakers :: "nat \<Rightarrow> nat \<Rightarrow> staking \<Rightarrow> addr list" where
  "get_stakers offset limit s =
    (let (a, b) = page_bounds (staker_count s) offset limit in List.map_filter (st_slot s) [a..<b])"

definition get_staker_at :: "nat \<Rightarrow> staking \<Rightarrow> addr option" where
  "get_staker_at i s = st_slot s i"

definition get_total_staked :: "staking \<Rightarrow> int" where
  "get_total_staked s = get_or 0 (st_total s)"

definition get_stake :: "addr \<Rightarrow> staking \<Rightarrow> stake_record st_res" where
  "get_stake mentor s = expect (st_stake s mentor) (Err StNoStakeFound) Inr"

text \<open>Extending the lifetime of a missing entry traps.\<close>

definition get_staking_tier :: "addr \<Rightarrow> staking \<Rightarrow> nat st_res" where
  "get_staking_tier mentor s =
    expect (st_stake s mentor) HostError (\<lambda>_. Inr (case st_stake s mentor of Some r \<Rightarrow> sr_tier r | None \<Rightarrow> 0))"


section \<open>The array of pending lockups\<close>

definition pend_count :: "staking \<Rightarrow> nat" where
  "pend_count s = get_or 0 (st_pend_count s)"

definition add_pending_distribution :: "addr \<times> nat \<Rightarrow> staking \<Rightarrow> staking st_res" where
  "add_pending_distribution se s =
    (let count = get_or 0 (st_pend_count s) in
     expect (checked_u32 (count + 1)) (Panic ''Overflow'') (\<lambda>c.
     Inr (s\<lparr>st_pend_slot := (st_pend_slot s)(count \<mapsto> se), st_pend_pos := (st_pend_pos s)(se \<mapsto> count),
            st_pend_count := Some c\<rparr>)))"

definition remove_pending_distribution :: "addr \<times> nat \<Rightarrow> staking \<Rightarrow> staking" where
  "remove_pending_distribution se s =
    (case st_pend_pos s se of
       None \<Rightarrow> s
     | Some position \<Rightarrow>
         let count = get_or 0 (st_pend_count s) in
         if count = 0 \<or> count \<le> position then s
         else
           let last_position = count - 1;
               s1 = (if position \<noteq> last_position then
                       case st_pend_slot s last_position of
                         Some last_se \<Rightarrow> s\<lparr>st_pend_slot := (st_pend_slot s)(position \<mapsto> last_se),
                                          st_pend_pos := (st_pend_pos s)(last_se \<mapsto> position)\<rparr>
                       | None \<Rightarrow> s
                     else s)
           in s1\<lparr>st_pend_slot := (st_pend_slot s1)(last_position := None),
                 st_pend_pos := (st_pend_pos s1)(se := None), st_pend_count := Some last_position\<rparr>)"

interpretation pend: dense_array st_pend_slot st_pend_pos pend_count add_pending_distribution
    "\<lambda>se s. Inr (remove_pending_distribution se s) :: staking st_res"
  by unfold_locales
    (auto simp: add_pending_distribution_def remove_pending_distribution_def pend_count_def slots_del_def
      pos_del_def Let_def res_simps split: if_splits option.splits)

definition get_pending_distributions_page :: "nat \<Rightarrow> nat \<Rightarrow> staking \<Rightarrow> (addr \<times> reward_lockup) list" where
  "get_pending_distributions_page offset limit s =
    (let (a, b) = page_bounds (pend_count s) offset limit in
     List.map_filter (\<lambda>i. case st_pend_slot s i of
         Some se \<Rightarrow> (case st_lockup s se of
             Some l \<Rightarrow> if \<not> rl_claimed l then Some (fst se, l) else None
           | None \<Rightarrow> None)
       | None \<Rightarrow> None) [a..<b])"

end
