(* ===== verification/Staking.thy ===== *)
theory Staking
  imports StakingState
begin

text \<open>
  The operations of the staking contract that move funds or rewards: staking and leaving, the
  distribution of revenue over epochs, the settlement of closed epochs into locked rewards, claims,
  and the rewards of liquidity providers.

  An operation that calls the token works on the storage and the state of all tokens.
\<close>

section \<open>The guard\<close>

definition st_guarded ::
    "symbol \<Rightarrow> staking \<times> 't \<Rightarrow> (staking \<times> 't \<Rightarrow> (staking \<times> 't) st_res) \<Rightarrow> (staking \<times> 't) st_res" where
  "st_guarded lock sw body =
    rbind (guarded (\<lambda>(s, w). st_guard s) (\<lambda>g (s, w). (s\<lparr>st_guard := g\<rparr>, w)) lock None sw
      (\<lambda>sw. rbind (body sw) (\<lambda>sw. Inr ((), sw)))) (\<lambda>(u, sw). Inr sw)"

definition require_not_rg_paused :: "symbol \<Rightarrow> staking \<Rightarrow> 'b st_res \<Rightarrow> 'b st_res" where
  "require_not_rg_paused lock s k =
    ensure (\<not> rg_is_paused (Some lock) (st_guard s)) (Err StReentrancyGuardPaused) k"

definition require_not_paused :: "staking_peers \<Rightarrow> staking \<Rightarrow> 'b st_res \<Rightarrow> 'b st_res" where
  "require_not_paused P s k =
    (case st_pause_guardian s of
       None \<Rightarrow> k
     | Some guardian \<Rightarrow>
         expect (sk_is_paused P guardian) CalleeTrapped (\<lambda>paused.
         ensure (\<not> paused) (Panic ''Contract is paused'') k))"

definition report_tvl :: "staking_peers \<Rightarrow> staking \<Rightarrow> 'b st_res \<Rightarrow> 'b st_res" where
  "report_tvl P s k =
    (case st_dashboard s of
       None \<Rightarrow> k
     | Some dashboard \<Rightarrow>
         expect (sk_record_metric P dashboard ''total_staked'' (get_or 0 (st_total s))) CalleeTrapped (\<lambda>_. k))"

lemma require_not_rg_paused_Inr [res_simps]:
  "require_not_rg_paused l s k = Inr x \<longleftrightarrow> \<not> rg_is_paused (Some l) (st_guard s) \<and> k = Inr x"
  by (simp add: require_not_rg_paused_def res_simps)

lemma require_not_paused_Inr [res_simps]:
  "require_not_paused P s k = Inr x \<longleftrightarrow>
   (\<forall>g. st_pause_guardian s = Some g \<longrightarrow> sk_is_paused P g = Some False) \<and> k = Inr x"
  by (auto simp: require_not_paused_def res_simps split: option.splits)

lemma report_tvl_Inr [res_simps]:
  "report_tvl P s k = Inr x \<longleftrightarrow>
   (\<forall>d. st_dashboard s = Some d \<longrightarrow> sk_record_metric P d ''total_staked'' (get_or 0 (st_total s)) \<noteq> None) \<and> k = Inr x"
  by (auto simp: report_tvl_def res_simps split: option.splits)

lemma st_guarded_Inr [res_simps]:
  "st_guarded l (s, w) body = Inr (s', w') \<longleftrightarrow>
    (\<exists>g s1. rg_enter l None (st_guard s) = (Inr g :: guard_state st_res) \<and>
       body (s\<lparr>st_guard := g\<rparr>, w) = Inr (s1, w') \<and>
       s' = s1\<lparr>st_guard := rg_release l None (st_guard s1)\<rparr>)"
  by (auto simp: st_guarded_def guarded_def res_simps split: prod.splits)


section \<open>Staking\<close>

definition st_anomaly_gate :: "staking_peers \<Rightarrow> addr \<Rightarrow> int \<Rightarrow> staking \<Rightarrow> 'b st_res \<Rightarrow> 'b st_res" where
  "st_anomaly_gate P mentor amount s k =
    (if get_or False (st_bypass s) then k
     else case st_anomaly s of
       None \<Rightarrow> k
     | Some detector \<Rightarrow>
         expect (sk_check_anomaly P detector mentor 2 amount) CalleeTrapped (\<lambda>res.
         ensure (res \<noteq> 2) (Panic ''UserOnHold'') k))"

definition stake_body ::
    "'t token_ops \<Rightarrow> staking_peers \<Rightarrow> env \<Rightarrow> addr \<Rightarrow> int \<Rightarrow> nat \<Rightarrow> staking \<times> 't \<Rightarrow> (staking \<times> 't) st_res" where
  "stake_body T P env mentor amount lock_period_days = (\<lambda>(s, w).
    ensure (st_admin s \<noteq> None) (Err StNotInitialized) (
    ensure (v_validate (require_max amount ST_MAX_FINANCIAL_AMOUNT ''amount'' (require_positive amount ''amount'' [])) = None)
      (Err StInvalidAmount) (
    ensure (\<not> lock_period_days < MIN_STAKING_DURATION_SECS div 86400) (Err StLockPeriodTooShort) (
    st_anomaly_gate P mentor amount s (
    ensure (st_stake s mentor = None) (Err StAlreadyStaked) (
    ensure (auth_by env mentor) AuthDenied (
    expect (st_mnt s) (Err StNotInitialized) (\<lambda>mnt_token.
    rbind (call_ext (tk_transfer T env mnt_token mentor (self_addr env) amount w)) (\<lambda>w.
    let now = ledger_ts env in
    rbind (safe_mul_u64 lock_period_days 86400) (\<lambda>lock_seconds.
    rbind (safe_add_u64 now lock_seconds) (\<lambda>unlock_at.
    rbind (compute_tier P amount mentor s) (\<lambda>tier.
    let record = \<lparr>sr_mentor = mentor, sr_amount = amount, sr_staked_at = now, sr_unlock_at = unlock_at,
                  sr_cooldown_until = None, sr_tier = tier\<rparr>;
        s = s\<lparr>st_stake := (st_stake s)(mentor \<mapsto> record)\<rparr> in
    rbind (stakers_add mentor s) (\<lambda>s.
    expect (checked_i128 (get_or 0 (st_total s) + amount)) (Panic ''Overflow'') (\<lambda>new_total.
    let s = s\<lparr>st_total := Some new_total\<rparr>;
        current_epoch = get_or 0 (st_epoch s) in
    rbind (safe_add_u64 current_epoch 1) (\<lambda>entry_epoch.
    let s = s\<lparr>st_entry := (st_entry s)(mentor \<mapsto> entry_epoch),
             st_next_claim := (st_next_claim s)(mentor \<mapsto> entry_epoch)\<rparr> in
    rbind (append_staker_action mentor action_stake now amount current_epoch s) (\<lambda>s.
    rbind (detect_suspicious_pattern (load_action_log mentor s) amount new_total (st_next_dist s) now) (\<lambda>flag.
    rbind (record_stake_snapshot_index s) (\<lambda>s.
    report_tvl P s (Inr (s, w))))))))))))))))))))"

definition stake ::
    "'t token_ops \<Rightarrow> staking_peers \<Rightarrow> env \<Rightarrow> addr \<Rightarrow> int \<Rightarrow> nat \<Rightarrow> staking \<times> 't \<Rightarrow> (staking \<times> 't) st_res" where
  "stake T P env mentor amount lock_period_days sw =
    require_not_paused P (fst sw) (
    st_guarded ''stake'' sw (stake_body T P env mentor amount lock_period_days))"


section \<open>Settlement of closed epochs\<close>

definition MAX_EPOCHS_PER_SETTLE :: nat where "MAX_EPOCHS_PER_SETTLE = 50"

definition settle_multiplier :: "nat \<Rightarrow> stake_record option \<Rightarrow> nat" where
  "settle_multiplier now maybe_stake =
    (case maybe_stake of
       Some r \<Rightarrow> compute_reward_multiplier_bps (now - sr_staked_at r)
     | None \<Rightarrow> REWARD_MULTIPLIER_MIN_BPS)"

definition settle_epoch :: "env \<Rightarrow> addr \<Rightarrow> stake_record option \<Rightarrow> nat \<Rightarrow> staking \<Rightarrow> staking st_res" where
  "settle_epoch env staker maybe_stake epoch s =
    (case (st_epoch_stake s (epoch, staker), st_epoch_eligible s epoch, st_epoch_reward s epoch) of
       (Some numerator, Some denominator, Some rew) \<Rightarrow>
         if 0 < denominator \<and> 0 < numerator \<and> 0 < rew then
           let now = ledger_ts env;
               mult_bps = settle_multiplier now maybe_stake in
           rbind (arith_u128 (as_u128 numerator * as_u128 rew)) (\<lambda>x.
           let base_share = as_i128 (x div as_u128 denominator) in
           if 0 < base_share \<and> 0 < mult_bps then
             let scaled_share = apply_bps_multiplier base_share mult_bps;
                 unlocks_at = sat_u64 (now + REWARD_LOCKUP_SECS);
                 lockup = \<lparr>rl_epoch = epoch, rl_base = base_share, rl_scaled = scaled_share,
                           rl_multiplier = mult_bps, rl_unlocks_at = unlocks_at, rl_claimed = False\<rparr> in
             rbind (if st_lockup s (staker, epoch) = None then add_pending_distribution (staker, epoch) s
                    else Inr s) (\<lambda>s.
             Inr (s\<lparr>st_lockup := (st_lockup s)((staker, epoch) \<mapsto> lockup)\<rparr>))
           else Inr s)
         else Inr s
     | _ \<Rightarrow> Inr s)"

function settle_loop ::
    "env \<Rightarrow> addr \<Rightarrow> stake_record option \<Rightarrow> nat \<Rightarrow> nat \<Rightarrow> staking \<Rightarrow> staking st_res" where
  "settle_loop env staker maybe_stake epoch fin s =
    (if epoch < fin then
       rbind (settle_epoch env staker maybe_stake epoch s) (settle_loop env staker maybe_stake (epoch + 1) fin)
     else Inr s)"
  by pat_completeness auto

termination
  by (relation "measure (\<lambda>(env, staker, m, epoch, fin, s). fin - epoch)") auto

declare settle_loop.simps [simp del]

text \<open>The first epoch to settle and the one after the last.\<close>

definition settle_range :: "addr \<Rightarrow> staking \<Rightarrow> nat \<times> nat \<times> nat \<times> nat" where
  "settle_range staker s =
    (let current_epoch = get_or 0 (st_epoch s);
         entry_epoch = get_or current_epoch (st_entry s staker);
         next_claim = max (get_or entry_epoch (st_next_claim s staker)) entry_epoch;
         settled_until = max (get_or entry_epoch (st_settled s staker)) entry_epoch;
         settle_start = max next_claim settled_until;
         fin = min current_epoch (sat_u64 (settle_start + MAX_EPOCHS_PER_SETTLE))
     in (next_claim, settled_until, settle_start, fin))"

definition settle_epoch_rewards :: "env \<Rightarrow> addr \<Rightarrow> staking \<Rightarrow> staking st_res" where
  "settle_epoch_rewards env staker s =
    (let (next_claim, settled_until, settle_start, fin) = settle_range staker s;
         maybe_stake = st_stake s staker in
     rbind (settle_loop env staker maybe_stake settle_start fin s) (\<lambda>s.
     let epoch = max settle_start fin;
         s = (if settled_until < epoch then s\<lparr>st_settled := (st_settled s)(staker \<mapsto> epoch)\<rparr> else s);
         s = (if next_claim < epoch then s\<lparr>st_next_claim := (st_next_claim s)(staker \<mapsto> epoch)\<rparr> else s)
     in Inr s))"


section \<open>Leaving\<close>

definition penalty_to_pool :: "penalty_calc \<Rightarrow> staking \<Rightarrow> staking st_res" where
  "penalty_to_pool pen s =
    (if 0 < pc_penalty pen then
       expect (checked_i128 (get_or 0 (st_penalty_pool s) + pc_penalty pen)) (Panic ''Overflow'') (\<lambda>pool.
       Inr (s\<lparr>st_penalty_pool := Some pool\<rparr>))
     else Inr s)"

definition pay_returned ::
    "'t token_ops \<Rightarrow> env \<Rightarrow> addr \<Rightarrow> addr \<Rightarrow> penalty_calc \<Rightarrow> 't \<Rightarrow> 't st_res" where
  "pay_returned T env mnt_token mentor pen w =
    (if 0 < pc_returned pen then pay_self T env mnt_token mentor (pc_returned pen) w else Inr w)"

definition unstake_body ::
    "'t token_ops \<Rightarrow> staking_peers \<Rightarrow> env \<Rightarrow> addr \<Rightarrow> staking \<times> 't \<Rightarrow> (staking \<times> 't) st_res" where
  "unstake_body T P env mentor = (\<lambda>(s, w).
    ensure (st_admin s \<noteq> None) (Err StNotInitialized) (
    expect (st_stake s mentor) (Err StNoStakeFound) (\<lambda>record.
    ensure (auth_by env mentor) AuthDenied (
    let now = ledger_ts env; current_epoch = get_or 0 (st_epoch s) in
    rbind (compute_early_unstake_penalty (sr_staked_at record) now (sr_unlock_at record) (sr_amount record)) (\<lambda>pen.
    rbind (compute_tier P (sr_amount record) mentor s) (\<lambda>_.
    rbind (settle_epoch_rewards env mentor s) (\<lambda>s.
    expect (st_mnt s) (Err StNotInitialized) (\<lambda>mnt_token.
    rbind (penalty_to_pool pen s) (\<lambda>s.
    rbind (pay_returned T env mnt_token mentor pen w) (\<lambda>w.
    let s = s\<lparr>st_stake := (st_stake s)(mentor := None), st_entry := (st_entry s)(mentor := None),
             st_next_claim := (st_next_claim s)(mentor := None)\<rparr> in
    rbind (stakers_remove mentor s) (\<lambda>s.
    let total_staked = get_or 0 (st_total s) in
    rbind (safe_sub total_staked (sr_amount record)) (\<lambda>new_total.
    let s = s\<lparr>st_total := Some new_total\<rparr> in
    rbind (append_staker_action mentor action_unstake now (sr_amount record) current_epoch s) (\<lambda>s.
    rbind (detect_suspicious_pattern (load_action_log mentor s) 0
             (get_or 0 (checked_i128 (total_staked - sr_amount record))) (st_next_dist s) now) (\<lambda>flag.
    rbind (record_stake_snapshot_index s) (\<lambda>s.
    report_tvl P s (Inr (s, w)))))))))))))))))"

definition unstake ::
    "'t token_ops \<Rightarrow> staking_peers \<Rightarrow> env \<Rightarrow> addr \<Rightarrow> staking \<times> 't \<Rightarrow> (staking \<times> 't) st_res" where
  "unstake T P env mentor sw =
    require_not_rg_paused ''unstake'' (fst sw) (
    st_guarded ''unstake'' sw (unstake_body T P env mentor))"

definition preview_early_unstake_penalty :: "env \<Rightarrow> addr \<Rightarrow> staking \<Rightarrow> penalty_calc st_res" where
  "preview_early_unstake_penalty env mentor s =
    expect (st_stake s mentor) (Err StNoStakeFound) (\<lambda>record.
    compute_early_unstake_penalty (sr_staked_at record) (ledger_ts env) (sr_unlock_at record) (sr_amount record))"


section \<open>Distribution\<close>

text \<open>One step of the snapshot loop: the stake in slot \<open>i\<close> and the running eligible total.\<close>

definition snapshot_slot :: "nat \<Rightarrow> nat \<Rightarrow> nat \<Rightarrow> int \<times> staking \<Rightarrow> (int \<times> staking) st_res" where
  "snapshot_slot snapshot_at epoch i es =
    (let (eligible_total, s) = es in
     case st_slot s i of
       None \<Rightarrow> Inr (eligible_total, s)
     | Some staker \<Rightarrow>
         (case st_stake s staker of
            None \<Rightarrow> Inr (eligible_total, s)
          | Some record \<Rightarrow>
              let s = s\<lparr>st_epoch_stake := (st_epoch_stake s)((epoch, staker) \<mapsto> sr_amount record)\<rparr> in
              if MIN_STAKING_DURATION_SECS \<le> snapshot_at - sr_staked_at record then
                expect (checked_i128 (eligible_total + sr_amount record)) (Panic ''Overflow'') (\<lambda>e. Inr (e, s))
              else Inr (eligible_total, s)))"

fun snapshot_loop :: "nat \<Rightarrow> nat \<Rightarrow> nat list \<Rightarrow> int \<times> staking \<Rightarrow> (int \<times> staking) st_res" where
  "snapshot_loop snapshot_at epoch [] es = Inr es"
| "snapshot_loop snapshot_at epoch (i # ks) es =
    rbind (snapshot_slot snapshot_at epoch i es) (snapshot_loop snapshot_at epoch ks)"

definition internal_distribute_revenue :: "env \<Rightarrow> int \<Rightarrow> staking \<Rightarrow> staking st_res" where
  "internal_distribute_revenue env amount s =
    (let snapshot_at = ledger_ts env;
         total_staked = get_or 0 (st_total s);
         current_epoch = get_or 0 (st_epoch s);
         n = get_or 0 (st_count s) in
     ensure (\<not> MAX_STAKERS_PER_SNAPSHOT < n)
       (Panic ''too many stakers for an atomic epoch snapshot; use distribute_revenue_batch'') (
     rbind (snapshot_loop snapshot_at current_epoch [0..<n] (0, s)) (\<lambda>(eligible_total, s).
     let s = s\<lparr>st_epoch_total := (st_epoch_total s)(current_epoch \<mapsto> total_staked),
              st_epoch_eligible := (st_epoch_eligible s)(current_epoch \<mapsto> eligible_total)\<rparr>;
         penalty_pool = get_or 0 (st_penalty_pool s) in
     expect (checked_i128 (amount + penalty_pool)) (Panic ''Overflow'') (\<lambda>combined_reward.
     let s = (if 0 < penalty_pool then s\<lparr>st_penalty_pool := Some 0\<rparr> else s);
         s = s\<lparr>st_epoch_reward := (st_epoch_reward s)(current_epoch \<mapsto> combined_reward)\<rparr> in
     rbind (safe_add_u64 current_epoch 1) (\<lambda>next_epoch.
     Inr (s\<lparr>st_epoch := Some next_epoch, st_next_dist := None\<rparr>))))))"

definition st_valid_revenue :: "int \<Rightarrow> symbol \<Rightarrow> validator" where
  "st_valid_revenue amount f = require_max amount ST_MAX_FINANCIAL_AMOUNT f (require_non_negative amount f [])"

definition distribute_revenue :: "env \<Rightarrow> addr \<Rightarrow> int \<Rightarrow> staking \<times> 't \<Rightarrow> (staking \<times> 't) st_res" where
  "distribute_revenue env token amount sw =
    ensure (\<not> rg_is_paused (Some ''distribute_revenue'') (st_guard (fst sw)))
      (Panic ''reentrancy guard paused for distribute_revenue'') (
    st_guarded ''distribute_revenue'' sw (\<lambda>(s, w).
      rbind (validate_or_panic (st_valid_revenue amount ''amount'')) (\<lambda>_.
      rbind (internal_distribute_revenue env amount s) (\<lambda>s. Inr (s, w)))))"

text \<open>
  The ledger's time and sequence number do not change during an invocation, so the check of the
  captured snapshot holds. A count that would overflow stays as it is.
\<close>

definition treasury_body ::
    "'t token_ops \<Rightarrow> env \<Rightarrow> nat \<Rightarrow> addr \<Rightarrow> addr \<Rightarrow> int \<Rightarrow> nat \<Rightarrow> staking \<times> 't \<Rightarrow> (staking \<times> 't) st_res" where
  "treasury_body T env distribution_id treasury token staker_amount treasury_timestamp = (\<lambda>(s, w).
    ensure (auth_by env treasury) AuthDenied (
    expect (st_treasury s) (Err StTreasuryNotConfigured) (\<lambda>authorized.
    ensure (treasury = authorized) (Err StCallerNotTreasury) (
    ensure (st_processed s distribution_id = None) (Err StDistributionAlreadyProcessed) (
    ensure (v_validate (st_valid_revenue staker_amount ''staker_amount'') = None) (Err StInvalidAmount) (
    ensure (0 \<le> staker_amount \<and> staker_amount \<le> ST_MAX_FINANCIAL_AMOUNT) (Err StInvalidAmount) (
    let balance_before = tk_balance T token (self_addr env) w;
        receipt = \<lparr>tr_id = distribution_id, tr_treasury = treasury, tr_token = token, tr_amount = staker_amount,
                   tr_timestamp = treasury_timestamp, tr_received_at = ledger_ts env, tr_processed = False\<rparr>;
        dist_count = get_or 0 (st_dist_count s);
        s = s\<lparr>st_processed := (st_processed s)(distribution_id \<mapsto> True),
              st_receipt := (st_receipt s)(distribution_id \<mapsto> receipt),
              st_dist_count := Some (get_or dist_count (checked_u64 (dist_count + 1)))\<rparr> in
    rbind (internal_distribute_revenue env staker_amount s) (\<lambda>s.
    let balance_after = tk_balance T token (self_addr env) w in
    ensure (\<not> balance_after < balance_before) (Err StStateValidationFailed) (
    expect (st_receipt s distribution_id) (Panic ''unwrap'') (\<lambda>final_receipt.
    Inr (s\<lparr>st_receipt := (st_receipt s)(distribution_id \<mapsto> final_receipt\<lparr>tr_processed := True\<rparr>)\<rparr>, w)))))))))))"

definition receive_treasury_distribution ::
    "'t token_ops \<Rightarrow> env \<Rightarrow> nat \<Rightarrow> addr \<Rightarrow> addr \<Rightarrow> int \<Rightarrow> nat \<Rightarrow> staking \<times> 't \<Rightarrow> (staking \<times> 't) st_res" where
  "receive_treasury_distribution T env distribution_id treasury token staker_amount treasury_timestamp sw =
    require_not_rg_paused ''treasury_dist'' (fst sw) (
    st_guarded ''treasury_dist'' sw
      (treasury_body T env distribution_id treasury token staker_amount treasury_timestamp))"

text \<open>The batch distribution: the shares of one page of stakers, then the updates.\<close>

fun batch_shares :: "int \<Rightarrow> int \<Rightarrow> nat list \<Rightarrow> staking \<Rightarrow> (addr \<times> int) list st_res" where
  "batch_shares amount total_staked [] s = Inr []"
| "batch_shares amount total_staked (i # ks) s =
    (case st_slot s i of
       None \<Rightarrow> batch_shares amount total_staked ks s
     | Some staker \<Rightarrow>
         (case st_stake s staker of
            None \<Rightarrow> batch_shares amount total_staked ks s
          | Some record \<Rightarrow>
              rbind (safe_mul (sr_amount record) amount) (\<lambda>x.
              rbind (safe_div x total_staked) (\<lambda>share.
              rbind (batch_shares amount total_staked ks s) (\<lambda>rest.
              Inr (if 0 < share then (staker, share) # rest else rest))))))"

fun batch_credit :: "(addr \<times> int) list \<Rightarrow> staking \<Rightarrow> staking st_res" where
  "batch_credit [] s = Inr s"
| "batch_credit ((staker, share) # us) s =
    rbind (safe_add (get_or 0 (st_pending_rewards s staker)) share) (\<lambda>x.
    batch_credit us (s\<lparr>st_pending_rewards := (st_pending_rewards s)(staker \<mapsto> x)\<rparr>))"

definition distribute_revenue_batch :: "addr \<Rightarrow> int \<Rightarrow> nat \<Rightarrow> nat \<Rightarrow> staking \<Rightarrow> staking st_res" where
  "distribute_revenue_batch token amount offset limit s =
    rbind (validate_or_panic (st_valid_revenue amount ''amount'')) (\<lambda>_.
    let total_staked = get_or 0 (st_total s) in
    if total_staked = 0 then Inr s
    else
      let (a, b) = page_bounds (staker_count s) offset limit in
      rbind (batch_shares amount total_staked [a..<b] s) (\<lambda>updates. batch_credit updates s))"

fun migrate_loop :: "addr list \<Rightarrow> nat \<Rightarrow> staking \<Rightarrow> (nat \<times> staking) st_res" where
  "migrate_loop [] count s = Inr (count, s)"
| "migrate_loop (a # xs) count s =
    (if st_index s a = None then
       rbind (arith_u32 (count + 1)) (\<lambda>c.
       migrate_loop xs c (s\<lparr>st_slot := (st_slot s)(count \<mapsto> a), st_index := (st_index s)(a \<mapsto> count)\<rparr>))
     else migrate_loop xs count s)"

definition migrate_stakers :: "staking \<Rightarrow> staking st_res" where
  "migrate_stakers s =
    ensure (st_admin s \<noteq> None) (Panic ''Not initialized'') (
    case st_legacy s of
      None \<Rightarrow> Inr s
    | Some xs \<Rightarrow>
        rbind (migrate_loop xs (get_or 0 (st_count s)) s) (\<lambda>(count, s).
        Inr (s\<lparr>st_count := Some count, st_legacy := None\<rparr>)))"


section \<open>Claims\<close>

definition MAX_LOCKUPS_PER_CLAIM :: nat where "MAX_LOCKUPS_PER_CLAIM = 100"

text \<open>The scan over the epochs; \<open>checked\<close> counts the lockups met, claimed or not.\<close>

fun claim_scan :: "nat \<Rightarrow> addr \<Rightarrow> nat list \<Rightarrow> nat \<Rightarrow> int \<Rightarrow> staking \<Rightarrow> (int \<times> staking) st_res" where
  "claim_scan now staker [] checked amt s = Inr (amt, s)"
| "claim_scan now staker (epoch # es) checked amt s =
    (if MAX_LOCKUPS_PER_CLAIM \<le> checked then Inr (amt, s)
     else case st_lockup s (staker, epoch) of
       None \<Rightarrow> claim_scan now staker es checked amt s
     | Some lockup \<Rightarrow>
         if \<not> rl_claimed lockup \<and> rl_unlocks_at lockup \<le> now \<and> 0 < rl_scaled lockup then
           expect (checked_i128 (amt + rl_scaled lockup)) (Panic ''Overflow'') (\<lambda>amt'.
           claim_scan now staker es (checked + 1) amt'
             (remove_pending_distribution (staker, epoch)
                (s\<lparr>st_lockup := (st_lockup s)((staker, epoch) \<mapsto> lockup\<lparr>rl_claimed := True\<rparr>)\<rparr>)))
         else claim_scan now staker es (checked + 1) amt s)"

definition claim_body ::
    "'t token_ops \<Rightarrow> env \<Rightarrow> addr \<Rightarrow> addr \<Rightarrow> staking \<times> 't \<Rightarrow> (staking \<times> 't) st_res" where
  "claim_body T env staker token = (\<lambda>(s, w).
    ensure (st_admin s \<noteq> None) (Err StNotInitialized) (
    ensure (auth_by env staker) AuthDenied (
    let now = ledger_ts env; current_epoch = get_or 0 (st_epoch s) in
    rbind (settle_epoch_rewards env staker s) (\<lambda>s.
    rbind (claim_scan now staker [0..<current_epoch] 0 0 s) (\<lambda>(amt, s).
    let legacy_pending = get_or 0 (st_pending_rewards s staker) in
    rbind (if 0 < legacy_pending then
             expect (checked_i128 (amt + legacy_pending)) (Panic ''Overflow'') (\<lambda>amt.
             Inr (amt, s\<lparr>st_pending_rewards := (st_pending_rewards s)(staker := None)\<rparr>))
           else Inr (amt, s)) (\<lambda>(amt, s).
    ensure (amt \<noteq> 0) (Err StNoClaimableRewards) (
    rbind (pay_self T env token staker amt w) (\<lambda>w.
    rbind (append_staker_action staker action_claim now amt current_epoch s) (\<lambda>s.
    rbind (detect_suspicious_pattern (load_action_log staker s)
             (case st_stake s staker of Some r \<Rightarrow> sr_amount r | None \<Rightarrow> 0)
             (get_or 0 (st_total s)) (st_next_dist s) now) (\<lambda>flag.
    rbind (record_stake_snapshot_index s) (\<lambda>s. Inr (s, w))))))))))))"

definition claim_rewards ::
    "'t token_ops \<Rightarrow> staking_peers \<Rightarrow> env \<Rightarrow> addr \<Rightarrow> addr \<Rightarrow> staking \<times> 't \<Rightarrow> (staking \<times> 't) st_res" where
  "claim_rewards T P env staker token sw =
    require_not_paused P (fst sw) (
    require_not_rg_paused ''claim_rewards'' (fst sw) (
    st_guarded ''claim_rewards'' sw (claim_body T env staker token)))"

text \<open>Additions that overflow leave the sum as it is.\<close>

definition add_or_keep :: "int \<Rightarrow> int \<Rightarrow> int" where
  "add_or_keep x y = get_or x (checked_i128 (x + y))"

fun preview_scan :: "nat \<Rightarrow> addr \<Rightarrow> nat list \<Rightarrow> int \<times> int \<Rightarrow> staking \<Rightarrow> int \<times> int" where
  "preview_scan now staker [] acc s = acc"
| "preview_scan now staker (epoch # es) (claimable, locked) s =
    (case st_lockup s (staker, epoch) of
       None \<Rightarrow> preview_scan now staker es (claimable, locked) s
     | Some l \<Rightarrow>
         if rl_claimed l then preview_scan now staker es (claimable, locked) s
         else if rl_unlocks_at l \<le> now
         then preview_scan now staker es (add_or_keep claimable (rl_scaled l), locked) s
         else preview_scan now staker es (claimable, add_or_keep locked (rl_scaled l)) s)"

definition preview_claimable_rewards :: "env \<Rightarrow> addr \<Rightarrow> staking \<Rightarrow> (int \<times> int \<times> int) st_res" where
  "preview_claimable_rewards env staker s =
    (let now = ledger_ts env; current_epoch = get_or 0 (st_epoch s);
         (claimable, locked) = preview_scan now staker [0..<current_epoch] (0, 0) s;
         claimable = add_or_keep claimable (get_or 0 (st_pending_rewards s staker)) in
     rbind (case st_stake s staker of
              None \<Rightarrow> Inr 0
            | Some record \<Rightarrow>
                let dur = now - sr_staked_at record; total_staked = get_or 0 (st_total s);
                    proxy = get_or 0 (st_epoch_reward s (current_epoch - 1)) in
                if MIN_STAKING_DURATION_SECS \<le> dur \<and> 0 < total_staked \<and> 0 < proxy then
                  rbind (arith_u128 (as_u128 (sr_amount record) * as_u128 proxy)) (\<lambda>x.
                  Inr (apply_bps_multiplier (as_i128 (x div as_u128 total_staked)) (compute_reward_multiplier_bps dur)))
                else Inr 0) (\<lambda>projected.
     Inr (claimable, locked, projected)))"

definition get_pending_rewards :: "addr \<Rightarrow> staking \<Rightarrow> int" where
  "get_pending_rewards staker s = get_or 0 (st_pending_rewards s staker)"

definition get_total_lifetime_rewards :: "addr \<Rightarrow> staking \<Rightarrow> int" where
  "get_total_lifetime_rewards staker s =
    foldl (\<lambda>acc e. case st_lockup s (staker, e) of Some l \<Rightarrow> add_or_keep acc (rl_scaled l) | None \<Rightarrow> acc)
      0 [0..<get_or 0 (st_epoch s)]"

definition get_reward_history_page :: "addr \<Rightarrow> nat \<Rightarrow> nat \<Rightarrow> staking \<Rightarrow> reward_lockup list" where
  "get_reward_history_page staker offset limit s =
    (let (a, b) = page_bounds (as_u32 (int (get_or 0 (st_epoch s)))) offset limit in
     List.map_filter (\<lambda>e. st_lockup s (staker, e)) [a..<b])"

definition get_reward_multiplier_bps :: "env \<Rightarrow> addr \<Rightarrow> staking \<Rightarrow> nat" where
  "get_reward_multiplier_bps env staker s =
    (case st_stake s staker of None \<Rightarrow> 0
     | Some r \<Rightarrow> compute_reward_multiplier_bps (ledger_ts env - sr_staked_at r))"


section \<open>Liquidity providers\<close>

definition add_to_lp_reward_pool :: "env \<Rightarrow> int \<Rightarrow> staking \<times> 't \<Rightarrow> (staking \<times> 't) st_res" where
  "add_to_lp_reward_pool env amount sw =
    require_not_rg_paused ''lp_reward_pool'' (fst sw) (
    st_guarded ''lp_reward_pool'' sw (\<lambda>(s, w).
      ensure (v_validate (require_max amount ST_MAX_FINANCIAL_AMOUNT ''amount'' (require_positive amount ''amount'' [])) = None)
        (Err StInvalidAmount) (
      ensure (1 \<le> amount \<and> amount \<le> ST_MAX_FINANCIAL_AMOUNT) (Err StInvalidAmount) (
      expect (checked_i128 (get_or 0 (st_lp_pool s) + amount)) (Err StOverflow) (\<lambda>new_pool.
      let s = s\<lparr>st_lp_pool := Some new_pool\<rparr> in
      expect (st_mnt s) (Panic ''Not initialized'') (\<lambda>mnt_token. Inr (s, w)))))))"

definition register_lp_position ::
    "env \<Rightarrow> addr \<Rightarrow> addr \<Rightarrow> int \<Rightarrow> addr \<Rightarrow> addr \<Rightarrow> staking \<Rightarrow> staking st_res" where
  "register_lp_position env lp_holder lp_token_contract lp_amount token_a token_b s =
    ensure (auth_by env lp_holder) AuthDenied (
    ensure (\<not> lp_amount \<le> 0) (Err StInvalidAmount) (
    Inr (s\<lparr>st_lp := (st_lp s)(lp_holder \<mapsto>
      \<lparr>lr_token = lp_token_contract, lr_amount = lp_amount, lr_pair = (token_a, token_b),
       lr_registered_at = ledger_ts env, lr_last_reward_at = ledger_ts env\<rparr>)\<rparr>)))"

definition verify_lp_position :: "'t token_ops \<Rightarrow> addr \<Rightarrow> staking \<times> 't \<Rightarrow> bool" where
  "verify_lp_position T lp_holder sw =
    (let (s, w) = sw in
     case st_lp s lp_holder of
       Some r \<Rightarrow> lr_amount r \<le> tk_balance T (lr_token r) lp_holder w
     | None \<Rightarrow> False)"

definition lp_staking_tier_boost :: "'t token_ops \<Rightarrow> addr \<Rightarrow> staking \<times> 't \<Rightarrow> nat st_res" where
  "lp_staking_tier_boost T lp_holder sw =
    (if \<not> verify_lp_position T lp_holder sw then Inr 0
     else expect (st_lp (fst sw) lp_holder) (Panic ''unwrap'') (\<lambda>record.
       Inr (min (as_u32 (trunc_div (lr_amount record) 1000)) 500)))"

definition claim_lp_rewards ::
    "'t token_ops \<Rightarrow> env \<Rightarrow> addr \<Rightarrow> addr \<Rightarrow> staking \<times> 't \<Rightarrow> (staking \<times> 't) st_res" where
  "claim_lp_rewards T env lp_holder mnt_token sw =
    ensure (auth_by env lp_holder) AuthDenied (
    ensure (verify_lp_position T lp_holder sw) (Err StInvalidAmount) (
    let (s, w) = sw in
    expect (st_lp s lp_holder) (Panic ''unwrap'') (\<lambda>record.
    let now = ledger_ts env in
    rbind (safe_sub_u64 now (lr_last_reward_at record)) (\<lambda>time_staked.
    if time_staked = 0 then Inr (s, w)
    else
      rbind (safe_mul (lr_amount record) (int time_staked)) (\<lambda>x.
      rbind (safe_div x (1000 * 86400)) (\<lambda>reward.
      rbind (if 0 < reward then
               let pool_balance = get_or 0 (st_lp_pool s);
                   actual_reward = (if pool_balance < reward then min reward pool_balance else reward) in
               rbind (safe_sub pool_balance actual_reward) (\<lambda>rest.
               rbind (pay_self T env mnt_token lp_holder actual_reward w) (\<lambda>w.
               Inr (s\<lparr>st_lp_pool := Some rest\<rparr>, w)))
             else Inr (s, w)) (\<lambda>(s, w).
      Inr (s\<lparr>st_lp := (st_lp s)(lp_holder \<mapsto> record\<lparr>lr_last_reward_at := now\<rparr>)\<rparr>, w))))))))"

end
