(* ===== verification/StakingWatch.thy ===== *)
theory StakingWatch
  imports Staking
begin

text \<open>
  The rest of the staking contract: disaster recovery (snapshots of the stakes, rollback by the
  emergency signers), the monitoring functions, and the fair-exit records.

  Replacing the code of the contract is the host's: \<open>installed\<close> says which hashes it accepts, and
  the rollback returns the hash with the new state.
\<close>

section \<open>Disaster recovery\<close>

definition ST_EMERGENCY_SIGNERS :: nat where "ST_EMERGENCY_SIGNERS = 7"

definition st_set_emergency_signers :: "env \<Rightarrow> addr \<Rightarrow> addr list \<Rightarrow> staking \<Rightarrow> staking st_res" where
  "st_set_emergency_signers env admin signers s =
    expect (st_admin s) (Err StNotInitialized) (\<lambda>stored_admin.
    ensure (auth_by env admin) AuthDenied (
    ensure (admin = stored_admin) (Err StNotInitialized) (
    ensure (length signers = ST_EMERGENCY_SIGNERS) (Err StInvalidAmount) (
    Inr (s\<lparr>st_signers := Some signers\<rparr>)))))"

definition snap_of :: "stake_record \<Rightarrow> stake_snapshot" where
  "snap_of r = \<lparr>sk_mentor = sr_mentor r, sk_amount = sr_amount r, sk_staked_at = sr_staked_at r,
     sk_unlock_at = sr_unlock_at r, sk_cooldown_until = sr_cooldown_until r, sk_tier = sr_tier r\<rparr>"

definition record_of :: "stake_snapshot \<Rightarrow> stake_record" where
  "record_of k = \<lparr>sr_mentor = sk_mentor k, sr_amount = sk_amount k, sr_staked_at = sk_staked_at k,
     sr_unlock_at = sk_unlock_at k, sr_cooldown_until = sk_cooldown_until k, sr_tier = sk_tier k\<rparr>"

lemma record_of_snap [simp]: "record_of (snap_of r) = r"
  by (simp add: record_of_def snap_of_def)

definition st_snapshot_state :: "env \<Rightarrow> addr \<Rightarrow> nat \<Rightarrow> staking \<Rightarrow> staking st_res" where
  "st_snapshot_state env admin snapshot_id s =
    expect (st_admin s) (Err StNotInitialized) (\<lambda>stored_admin.
    ensure (auth_by env admin) AuthDenied (
    ensure (admin = stored_admin) (Err StNotInitialized) (
    let stakers = get_or [] (st_legacy s);
        total_staked = get_or 0 (st_total s);
        snaps = List.map_filter (\<lambda>a. map_option snap_of (st_stake s a)) stakers;
        checksum = sha env [XU64 (length snaps), XI128 total_staked];
        index = get_or [] (st_snap_index s);
        snapshot_pos = length index;
        (index', evicted) = push_snapshot_index index snapshot_id;
        s = (case evicted of
               Some old_id \<Rightarrow> s\<lparr>st_snap := (st_snap s)(old_id := None),
                               st_snap_meta := (st_snap_meta s)(old_id := None)\<rparr>
             | None \<Rightarrow> s);
        meta = \<lparr>sn_created_at = ledger_ts env, sn_block_height = ledger_seq env, sn_version = 0,
                sn_admin = admin, sn_checksum = checksum, sn_record_count = length snaps,
                sn_index = min snapshot_pos (MAX_SNAPSHOTS - 1)\<rparr> in
    Inr (s\<lparr>st_snap_index := Some index', st_snap := (st_snap s)(snapshot_id \<mapsto> snaps),
           st_snap_meta := (st_snap_meta s)(snapshot_id \<mapsto> meta)\<rparr>))))"

text \<open>The fields checked for one captured stake, and the mismatches found.\<close>

definition st_compare :: "staking \<Rightarrow> stake_snapshot \<Rightarrow> nat \<times> string list" where
  "st_compare s snap =
    (case st_stake s (sk_mentor snap) of
       None \<Rightarrow> (1, [''StakeRecord missing in current state''])
     | Some current \<Rightarrow> (4,
         (if sr_amount current \<noteq> sk_amount snap then [''StakeRecord.amount mismatch''] else []) @
         (if sr_tier current \<noteq> sk_tier snap then [''StakeRecord.tier mismatch''] else []) @
         (if sr_staked_at current \<noteq> sk_staked_at snap then [''StakeRecord.staked_at mismatch''] else []) @
         (if sr_unlock_at current \<noteq> sk_unlock_at snap then [''StakeRecord.unlock_at mismatch''] else [])))"

definition st_verify_post_upgrade :: "nat \<Rightarrow> staking \<Rightarrow> verification_report st_res" where
  "st_verify_post_upgrade snapshot_id s =
    expect (st_snap s snapshot_id) (Err StNoStakeFound) (\<lambda>snaps.
    expect (st_snap_meta s snapshot_id) (Err StNoStakeFound) (\<lambda>meta.
    let checks = map (st_compare s) snaps in
    Inr \<lparr>vr_fields_checked = 1 + sum_list (map fst checks),
         vr_mismatches = (if get_or 0 (st_count s) \<noteq> sn_record_count meta then [''StakerCount mismatch''] else [])
           @ concat (map snd checks)\<rparr>))"

definition st_propose_rollback :: "env \<Rightarrow> addr \<Rightarrow> nat \<Rightarrow> hash32 \<Rightarrow> staking \<Rightarrow> (nat \<times> staking) st_res" where
  "st_propose_rollback env proposer snapshot_id old_wasm_hash s =
    expect (st_signers s) (Err StNotInitialized) (\<lambda>signers.
    ensure (proposer \<in> set signers) (Err StNoStakeFound) (
    ensure (st_snap_meta s snapshot_id \<noteq> None) (Err StNoStakeFound) (
    ensure (auth_by env proposer) AuthDenied (
    rbind (safe_add_u32 (get_or 0 (st_rb_count s)) 1) (\<lambda>new_id.
    let proposal = \<lparr>rb_id = new_id, rb_snapshot = snapshot_id, rb_old_wasm = old_wasm_hash, rb_count = 1,
                    rb_executed = False, rb_created_at = ledger_ts env, rb_proposer = proposer\<rparr> in
    Inr (new_id, s\<lparr>st_rb_count := Some new_id, st_rb := (st_rb s)(new_id \<mapsto> proposal),
           st_rb_approval := (st_rb_approval s)((new_id, proposer) \<mapsto> True)\<rparr>))))))"

definition st_approve_rollback :: "env \<Rightarrow> addr \<Rightarrow> nat \<Rightarrow> staking \<Rightarrow> staking st_res" where
  "st_approve_rollback env signer proposal_id s =
    expect (st_signers s) (Err StNotInitialized) (\<lambda>signers.
    ensure (signer \<in> set signers) (Err StNoStakeFound) (
    expect (st_rb s proposal_id) (Err StNoStakeFound) (\<lambda>proposal.
    ensure (\<not> rb_executed proposal) (Err StAlreadyStaked) (
    ensure (\<not> get_or False (st_rb_approval s (proposal_id, signer))) (Err StAlreadyStaked) (
    ensure (auth_by env signer) AuthDenied (
    rbind (safe_add_u32 (rb_count proposal) 1) (\<lambda>n.
    Inr (s\<lparr>st_rb_approval := (st_rb_approval s)((proposal_id, signer) \<mapsto> True),
           st_rb := (st_rb s)(proposal_id \<mapsto> proposal\<lparr>rb_count := n\<rparr>)\<rparr>))))))))"

definition restore_stakes :: "stake_snapshot list \<Rightarrow> staking \<Rightarrow> staking" where
  "restore_stakes snaps s =
    foldl (\<lambda>s k. s\<lparr>st_stake := (st_stake s)(sk_mentor k \<mapsto> record_of k)\<rparr>) s snaps"

definition st_rollback :: "(hash32 \<Rightarrow> bool) \<Rightarrow> nat \<Rightarrow> staking \<Rightarrow> (hash32 \<times> staking) st_res" where
  "st_rollback installed proposal_id s =
    expect (st_rb s proposal_id) (Err StNoStakeFound) (\<lambda>proposal.
    ensure (\<not> rb_executed proposal) (Err StAlreadyStaked) (
    ensure (\<not> rb_count proposal < EMERGENCY_THRESHOLD) (Err StStillLocked) (
    expect (st_snap s (rb_snapshot proposal)) (Err StNoStakeFound) (\<lambda>snaps.
    let s = restore_stakes snaps s in
    ensure (installed (rb_old_wasm proposal)) HostError (
    Inr (rb_old_wasm proposal, s\<lparr>st_rb := (st_rb s)(proposal_id \<mapsto> proposal\<lparr>rb_executed := True\<rparr>)\<rparr>))))))"


section \<open>Monitoring\<close>

text \<open>\<open>(a as u128).checked_mul(k)\<close>, divided, converted with \<open>u32::try_from\<close>, or the default.\<close>

definition ratio_or :: "int \<Rightarrow> int \<Rightarrow> int \<Rightarrow> nat \<Rightarrow> nat" where
  "ratio_or a k b d =
    (let x = as_u128 a * k in
     if x < 2 ^ 128 then
       let q = x div as_u128 b in if q \<le> int u32_max then nat q else d
     else d)"

definition st_as_signed_admin :: "env \<Rightarrow> staking \<Rightarrow> 'b st_res \<Rightarrow> 'b st_res" where
  "st_as_signed_admin env s k =
    rbind (st_get_admin s) (\<lambda>admin. ensure (auth_by env admin) AuthDenied k)"

definition monitor_tokenomics_stability :: "env \<Rightarrow> staking \<Rightarrow> (sustainability \<times> staking) st_res" where
  "monitor_tokenomics_stability env s =
    st_as_signed_admin env s (
    let current_epoch = get_or 0 (st_epoch s);
        total_staked = get_or 0 (st_total s);
        total_distributed = get_or 0 (st_epoch_reward s current_epoch);
        extraction_rate_bps = (if 0 < total_staked then min (ratio_or total_distributed 10000 total_staked 10000) 10000 else 0) in
    ensure (\<not> ST_MAX_EXTRACTION_RATE_BPS < extraction_rate_bps) (Err StInvalidState) (
    let sustainability_ratio = (if 0 < total_distributed then ratio_or total_staked 100 total_distributed 100 else 1000);
        health_score = (if ST_MIN_SUSTAINABILITY_RATIO \<le> sustainability_ratio then 100
                        else if ST_MIN_SUSTAINABILITY_RATIO div 2 \<le> sustainability_ratio then 50 else 20);
        metrics = \<lparr>su_epoch = current_epoch, su_total_staked = total_staked, su_total_distributed = total_distributed,
                   su_extraction_bps = extraction_rate_bps, su_ratio = sustainability_ratio, su_health = health_score,
                   su_anomaly = 0, su_timestamp = ledger_ts env\<rparr> in
    Inr (metrics, s\<lparr>st_metrics := (st_metrics s)(current_epoch \<mapsto> metrics)\<rparr>)))"

definition detect_extraction_attack :: "env \<Rightarrow> addr \<Rightarrow> int \<Rightarrow> staking \<Rightarrow> bool st_res" where
  "detect_extraction_attack env staker amount s =
    (let current_epoch = get_or 0 (st_epoch s);
         entry_epoch = get_or current_epoch (st_entry s staker) in
     case st_next_dist_p s of
       None \<Rightarrow> Inr False
     | Some dist_time \<Rightarrow>
         rbind (arith_u64 (ledger_ts env + 60)) (\<lambda>t.
         if dist_time \<le> t \<and> entry_epoch = current_epoch
         then Inr (trunc_div (get_total_staked s) 10 < amount) else Inr False))"

definition detect_trading_coordination :: "addr \<Rightarrow> staking \<Rightarrow> bool" where
  "detect_trading_coordination staker s =
    (let log = get_or [] (st_log s staker) in
     if 5 < length log then
       let timespan = (if 0 < length log then sa_timestamp (last log) - sa_timestamp (hd log) else u64_max)
       in 5 \<le> length log \<and> timespan < 3600
     else False)"

definition monitor_governance_accumulation :: "addr \<Rightarrow> staking \<Rightarrow> nat \<times> staking" where
  "monitor_governance_accumulation staker s =
    (let total_staked = get_total_staked s in
     case st_stake s staker of
       None \<Rightarrow> (0, s)
     | Some r \<Rightarrow>
         let bps = (if 0 < total_staked then ratio_or (sr_amount r) 10000 total_staked 10000 else 0) in
         (bps, if ST_GOV_ACCUMULATION_BPS < bps then s\<lparr>st_gov_acc := (st_gov_acc s)(staker \<mapsto> bps)\<rparr> else s))"

definition audit_token_velocity :: "int \<Rightarrow> nat \<Rightarrow> staking \<Rightarrow> (velocity_report \<times> staking) st_res" where
  "audit_token_velocity observed_volume concentration_bps s =
    ensure (v_validate (require_non_negative observed_volume ''observed_volume'' []) = None) (Err StInvalidAmount) (
    let report = assess_token_velocity (get_total_staked s) observed_volume concentration_bps in
    Inr (report, s\<lparr>st_velocity := Some report\<rparr>))"

definition correlate_threat_vectors :: "nat \<Rightarrow> nat \<Rightarrow> nat \<Rightarrow> nat \<Rightarrow> staking \<Rightarrow> threat_report \<times> staking" where
  "correlate_threat_vectors g e t h s =
    (let report = correlate_attack_vectors g e t h in (report, s\<lparr>st_threat := Some report\<rparr>))"

definition validate_sustainability_metrics :: "staking \<Rightarrow> unit st_res" where
  "validate_sustainability_metrics s =
    expect (st_metrics s (get_or 0 (st_epoch s))) (Err StInvalidState) (\<lambda>metrics.
    ensure (\<not> ST_MAX_EXTRACTION_RATE_BPS < su_extraction_bps metrics) (Err StInvalidState) (
    ensure (\<not> su_ratio metrics < ST_MIN_SUSTAINABILITY_RATIO div 2) (Err StInvalidState) (Inr ())))"

definition assess_ecosystem_health :: "env \<Rightarrow> staking \<Rightarrow> (ecosystem_health \<times> staking) st_res" where
  "assess_ecosystem_health env s =
    st_as_signed_admin env s (
    let total_stakers = get_or 0 (st_count s);
        total_staked = get_total_staked s;
        average_stake = (if 0 < total_stakers then trunc_div total_staked (int total_stakers) else 0);
        top = foldl (\<lambda>acc i. case get_staker_at i s of
                 Some a \<Rightarrow> (case st_stake s a of Some r \<Rightarrow> sat_i128 (acc + sr_amount r) | None \<Rightarrow> acc)
               | None \<Rightarrow> acc) 0 [0..<min total_stakers 10];
        gini_bps = (if 0 < total_staked then ratio_or top 10000 total_staked 10000 else 0);
        snapshot = \<lparr>eh_timestamp = ledger_ts env, eh_participants = total_stakers, eh_average = average_stake,
                    eh_gini_bps = gini_bps, eh_concentration_bps = gini_bps,
                    eh_status = (if gini_bps < 3000 then 0 else if gini_bps < 6000 then 1 else 2)\<rparr> in
    Inr (snapshot, s\<lparr>st_ecosystem := Some snapshot\<rparr>))"

definition apply_sustainability_interv :: "env \<Rightarrow> staking \<Rightarrow> unit st_res" where
  "apply_sustainability_interv env s = st_as_signed_admin env s (validate_sustainability_metrics s)"


section \<open>Fair exits\<close>

definition initiate_fair_exit :: "env \<Rightarrow> addr \<Rightarrow> staking \<Rightarrow> staking st_res" where
  "initiate_fair_exit env user s =
    ensure (auth_by env user) AuthDenied (
    Inr (s\<lparr>st_migration := (st_migration s)(user \<mapsto>
      \<lparr>mg_user = user, mg_exit_amount = 0, mg_initiated_at = ledger_ts env, mg_fair = False,
       mg_coordination = False, mg_status = 0\<rparr>)\<rparr>))"

definition detect_exit_coordination :: "env \<Rightarrow> nat \<Rightarrow> staking \<Rightarrow> bool st_res" where
  "detect_exit_coordination env epoch s =
    st_as_signed_admin env s (Inr (EXIT_COORDINATION_THRESHOLD \<le> get_or 0 (st_exits s epoch)))"

definition verify_migration_integrity :: "env \<Rightarrow> addr \<Rightarrow> staking \<Rightarrow> bool \<times> staking" where
  "verify_migration_integrity env user s =
    (case st_migration s user of
       None \<Rightarrow> (False, s)
     | Some record \<Rightarrow>
         if ledger_ts env - mg_initiated_at record \<le> MIGRATION_FAIRNESS_WINDOW \<and> \<not> mg_coordination record
         then (True, s\<lparr>st_migration := (st_migration s)(user \<mapsto> record\<lparr>mg_fair := True\<rparr>)\<rparr>)
         else (False, s))"


section \<open>Fairness\<close>

definition calculate_rewards_securely :: "addr \<Rightarrow> nat \<Rightarrow> staking \<Rightarrow> int st_res" where
  "calculate_rewards_securely staker epoch s =
    rbind (get_stake staker s) (\<lambda>stake.
    let epoch_reward = get_or 0 (st_epoch_reward s epoch); total_staked = get_or 0 (st_total s) in
    if total_staked \<le> 0 \<or> epoch_reward \<le> 0 then Inr 0
    else
      rbind (exceeds_extraction_rate epoch_reward total_staked) (\<lambda>exceeds.
      ensure (\<not> exceeds) (Err StInvalidAmount) (
      expect (checked_i128 (sr_amount stake * epoch_reward)) (Err StOverflow) (\<lambda>x.
      expect (checked_div_i128 x total_staked) (Err StOverflow) Inr))))"

text \<open>
  The log holds records; the function reads it as a vector of \<open>u64\<close>, so reading the first element of
  a non-empty log traps.
\<close>

definition detect_staking_coordination :: "addr \<Rightarrow> staking \<Rightarrow> bool st_res" where
  "detect_staking_coordination staker s =
    (if get_or [] (st_log s staker) = [] then Inr False else Inl HostError)"

definition audit_epoch_fairness :: "nat \<Rightarrow> staking \<Rightarrow> (bool \<times> nat \<times> nat) st_res" where
  "audit_epoch_fairness epoch s =
    (let epoch_reward = get_or 0 (st_epoch_reward s epoch); total_staked = get_or 0 (st_total s) in
     rbind (if 0 < total_staked then ratio_u64 epoch_reward 10000 total_staked else Inr 0) (\<lambda>extraction_rate.
     rbind (if 0 < total_staked then ratio_u64 epoch_reward 100 total_staked else Inr 0) (\<lambda>sustainability.
     Inr (extraction_rate \<le> ST_MAX_EXTRACTION_RATE_BPS \<and> ST_MIN_SUSTAINABILITY_RATIO \<le> sustainability,
          extraction_rate, sustainability))))"

end
