(* ===== verification/StakingRules.thy ===== *)
theory StakingRules
  imports StakingWatch
begin

text \<open>
  What each operation of the staking contract does when it succeeds, as equations on the storage it
  touches. A frame is an equation \<open>s' = s\<lparr>f := f s', ...\<rparr>\<close>: only the listed fields may differ.
\<close>

section \<open>Small steps\<close>

lemma st_guarded_guard:
  "st_guarded l (s, w) body = Inr (s', w') \<Longrightarrow>
   \<exists>g s1. body (s\<lparr>st_guard := g\<rparr>, w) = Inr (s1, w') \<and> s' = s1\<lparr>st_guard := rg_release l None (st_guard s1)\<rparr>"
  unfolding st_guarded_Inr by blast

lemma stakers_add_frame:
  "stakers_add m s = Inr s' \<Longrightarrow>
   s' = s\<lparr>st_slot := st_slot s', st_index := st_index s', st_count := st_count s'\<rparr>"
  by (auto simp: stakers_add_def Let_def res_simps split: if_splits)

lemma stakers_remove_frame:
  "stakers_remove m s = Inr s' \<Longrightarrow>
   s' = s\<lparr>st_slot := st_slot s', st_index := st_index s', st_count := st_count s'\<rparr>"
  by (auto simp: stakers_remove_def Let_def res_simps split: if_splits option.splits)

lemma append_action_frame:
  "append_staker_action a c t x e s = Inr s' \<Longrightarrow> s' = s\<lparr>st_log := st_log s', st_log_index := st_log_index s'\<rparr>"
  by (auto simp: append_staker_action_def Let_def res_simps)

lemma snapshot_index_frame:
  "record_stake_snapshot_index s = Inr s' \<Longrightarrow>
   s' = s\<lparr>st_snap_index := st_snap_index s', st_next_snap := st_next_snap s'\<rparr>"
  by (auto simp: record_stake_snapshot_index_def Let_def res_simps)

lemma remove_pending_frame:
  "s' = remove_pending_distribution se s \<Longrightarrow>
   s' = s\<lparr>st_pend_slot := st_pend_slot s', st_pend_pos := st_pend_pos s', st_pend_count := st_pend_count s'\<rparr>"
  by (auto simp: remove_pending_distribution_def Let_def split: option.splits)

lemma add_pending_frame:
  "add_pending_distribution se s = Inr s' \<Longrightarrow>
   s' = s\<lparr>st_pend_slot := st_pend_slot s', st_pend_pos := st_pend_pos s', st_pend_count := st_pend_count s'\<rparr>"
  by (auto simp: add_pending_distribution_def Let_def res_simps)

text \<open>The fields that the two arrays depend on.\<close>

lemma stakers_holds: "stakers.holds s xs \<longleftrightarrow> dense_rep (st_slot s) (st_index s) (get_or 0 (st_count s)) xs"
  by (simp add: stakers.holds_def staker_count_def)

lemma pend_holds: "pend.holds s xs \<longleftrightarrow> dense_rep (st_pend_slot s) (st_pend_pos s) (get_or 0 (st_pend_count s)) xs"
  by (simp add: pend.holds_def pend_count_def)

text \<open>The log of an account is filled first, then overwritten in a circle.\<close>

definition logs_ok :: "staking \<Rightarrow> bool" where
  "logs_ok s \<longleftrightarrow> (\<forall>a. let n = length (get_or [] (st_log s a)); i = get_or 0 (st_log_index s a) in
     n \<le> PATTERN_DETECTION_WINDOW \<and> i < PATTERN_DETECTION_WINDOW \<and> (n < PATTERN_DETECTION_WINDOW \<longrightarrow> i = n))"

lemma logs_okD:
  assumes "logs_ok s"
  shows "length (get_or [] (st_log s a)) \<le> 10" "get_or 0 (st_log_index s a) < 10"
    "length (get_or [] (st_log s a)) < 10 \<Longrightarrow> get_or 0 (st_log_index s a) = length (get_or [] (st_log s a))"
  using assms by (simp_all add: logs_ok_def Let_def PATTERN_DETECTION_WINDOW_def)

lemma append_action_never_traps:
  assumes "logs_ok s"
  shows "\<exists>s'. append_staker_action a c t x e s = Inr s'"
  using logs_okD [OF assms, of a]
  by (auto simp: append_staker_action_def Let_def PATTERN_DETECTION_WINDOW_def arith_u32_def u32_max_def)

lemma append_action_logs:
  assumes "append_staker_action a c t x e s = Inr s'" "logs_ok s"
  shows "logs_ok s'"
proof -
  let ?l = "get_or [] (st_log s a)" and ?i = "get_or 0 (st_log_index s a)"
  let ?r = "\<lparr>sa_action = c, sa_timestamp = t, sa_amount = x, sa_epoch = e\<rparr>"
  define l' where "l' = (if length ?l < 10 then ?l @ [?r] else ?l[?i := ?r])"
  have l': "length l' = (if length ?l < 10 then length ?l + 1 else length ?l)"
      "st_log s' = (st_log s)(a \<mapsto> l')" "st_log_index s' = (st_log_index s)(a \<mapsto> (?i + 1) mod 10)"
    using assms(1)
    by (auto simp: append_staker_action_def Let_def PATTERN_DETECTION_WINDOW_def l'_def res_simps split: if_splits)
  have "length l' \<le> 10 \<and> (?i + 1) mod 10 < 10 \<and> (length l' < 10 \<longrightarrow> (?i + 1) mod 10 = length l')"
    using l'(1) logs_okD [OF assms(2), of a] by (auto split: if_splits)
  with logs_okD [OF assms(2)] show ?thesis
    by (simp add: logs_ok_def Let_def PATTERN_DETECTION_WINDOW_def l'(2,3))
qed


section \<open>Staking\<close>

definition new_stake :: "env \<Rightarrow> addr \<Rightarrow> int \<Rightarrow> nat \<Rightarrow> nat \<Rightarrow> stake_record" where
  "new_stake env m a days tier =
    \<lparr>sr_mentor = m, sr_amount = a, sr_staked_at = ledger_ts env, sr_unlock_at = ledger_ts env + days * 86400,
     sr_cooldown_until = None, sr_tier = tier\<rparr>"

lemma st_anomaly_gate_Inr: "st_anomaly_gate P m a s k = Inr x \<Longrightarrow> k = Inr x"
  by (auto simp: st_anomaly_gate_def res_simps split: if_splits option.splits)

lemma v_validate_None [simp]: "v_validate errs = None \<longleftrightarrow> errs = []"
  by (cases errs) (auto simp: v_validate_def)

lemma compute_tier_cong:
  "st_reputation t = st_reputation s \<Longrightarrow> st_sessions t = st_sessions s \<Longrightarrow> st_tiers t = st_tiers s \<Longrightarrow>
   compute_tier P a m t = compute_tier P a m s"
  by (simp add: compute_tier_def mentor_quality_def st_load_tiers_def)

lemma stake_body_steps:
  assumes "stake_body T P env m a d (s, w) = Inr (s', w')"
  shows "\<exists>tok tier s1 s2.
    st_mnt s = Some tok \<and> tk_transfer T env tok m (self_addr env) a w = Inr w' \<and> auth_by env m \<and>
    st_admin s \<noteq> None \<and> st_stake s m = None \<and> 0 < a \<and> a \<le> ST_MAX_FINANCIAL_AMOUNT \<and> 14 \<le> d \<and>
    ledger_ts env + d * 86400 \<le> u64_max \<and> compute_tier P a m s = Inr tier \<and>
    stakers_add m (s\<lparr>st_stake := (st_stake s)(m \<mapsto> new_stake env m a d tier)\<rparr>) = Inr s1 \<and>
    append_staker_action m action_stake (ledger_ts env) a (get_or 0 (st_epoch s1))
      (s1\<lparr>st_total := Some (get_or 0 (st_total s1) + a),
          st_entry := (st_entry s1)(m \<mapsto> get_or 0 (st_epoch s1) + 1),
          st_next_claim := (st_next_claim s1)(m \<mapsto> get_or 0 (st_epoch s1) + 1)\<rparr>) = Inr s2 \<and>
    record_stake_snapshot_index s2 = Inr s'"
  using assms unfolding stake_body_def Let_def prod.case new_stake_def
  by (clarsimp simp: res_simps validator_defs staking_consts dest!: st_anomaly_gate_Inr)

lemma stake_Inr:
  assumes "stake T P env m a d (s, w) = Inr (s', w')"
  obtains tok tier g x y z l i u v where
    "st_mnt s = Some tok" "tk_transfer T env tok m (self_addr env) a w = Inr w'" "auth_by env m"
    "st_admin s \<noteq> None" "st_stake s m = None" "0 < a" "a \<le> ST_MAX_FINANCIAL_AMOUNT" "14 \<le> d"
    "ledger_ts env + d * 86400 \<le> u64_max" "compute_tier P a m s = Inr tier"
    "s' = s\<lparr>st_guard := g, st_stake := (st_stake s)(m \<mapsto> new_stake env m a d tier),
        st_slot := x, st_index := y, st_count := z, st_total := Some (get_or 0 (st_total s) + a),
        st_entry := (st_entry s)(m \<mapsto> get_or 0 (st_epoch s) + 1),
        st_next_claim := (st_next_claim s)(m \<mapsto> get_or 0 (st_epoch s) + 1),
        st_log := l, st_log_index := i, st_snap_index := u, st_next_snap := v\<rparr>"
    "\<And>xs. stakers.holds s xs \<Longrightarrow> m \<notin> set xs \<Longrightarrow> stakers.holds s' (xs @ [m])"
    "logs_ok s \<Longrightarrow> logs_ok s'"
proof -
  from assms have "st_guarded ''stake'' (s, w) (stake_body T P env m a d) = Inr (s', w')"
    by (simp add: stake_def require_not_paused_Inr)
  from st_guarded_guard [OF this] obtain g t g' where
    t: "stake_body T P env m a d (s\<lparr>st_guard := g\<rparr>, w) = Inr (t, w')" "s' = t\<lparr>st_guard := g'\<rparr>" by blast
  from stake_body_steps [OF t(1)] obtain tok tier s1 s2 where
    f: "st_mnt s = Some tok" "tk_transfer T env tok m (self_addr env) a w = Inr w'" "auth_by env m"
      "st_admin s \<noteq> None" "st_stake s m = None" "0 < a" "a \<le> ST_MAX_FINANCIAL_AMOUNT" "14 \<le> d"
      "ledger_ts env + d * 86400 \<le> u64_max" "compute_tier P a m (s\<lparr>st_guard := g\<rparr>) = Inr tier"
    and s1: "stakers_add m (s\<lparr>st_guard := g, st_stake := (st_stake s)(m \<mapsto> new_stake env m a d tier)\<rparr>) = Inr s1"
    and s2: "append_staker_action m action_stake (ledger_ts env) a (get_or 0 (st_epoch s1))
      (s1\<lparr>st_total := Some (get_or 0 (st_total s1) + a),
          st_entry := (st_entry s1)(m \<mapsto> get_or 0 (st_epoch s1) + 1),
          st_next_claim := (st_next_claim s1)(m \<mapsto> get_or 0 (st_epoch s1) + 1)\<rparr>) = Inr s2"
    and t': "record_stake_snapshot_index s2 = Inr t"
    by auto
  from stakers_add_frame [OF s1] obtain x y z where
    e1: "s1 = s\<lparr>st_guard := g, st_stake := (st_stake s)(m \<mapsto> new_stake env m a d tier),
          st_slot := x, st_index := y, st_count := z\<rparr>" by blast
  from append_action_frame [OF s2] obtain l i where
    e2: "s2 = s1\<lparr>st_total := Some (get_or 0 (st_total s) + a),
          st_entry := (st_entry s)(m \<mapsto> get_or 0 (st_epoch s) + 1),
          st_next_claim := (st_next_claim s)(m \<mapsto> get_or 0 (st_epoch s) + 1), st_log := l, st_log_index := i\<rparr>"
    by (simp add: e1)
  from snapshot_index_frame [OF t'] obtain u v where
    e3: "t = s2\<lparr>st_snap_index := u, st_next_snap := v\<rparr>" by blast
  have s': "s' = s\<lparr>st_guard := g', st_stake := (st_stake s)(m \<mapsto> new_stake env m a d tier),
        st_slot := x, st_index := y, st_count := z,
        st_total := Some (get_or 0 (st_total s) + a),
        st_entry := (st_entry s)(m \<mapsto> get_or 0 (st_epoch s) + 1),
        st_next_claim := (st_next_claim s)(m \<mapsto> get_or 0 (st_epoch s) + 1),
        st_log := l, st_log_index := i, st_snap_index := u, st_next_snap := v\<rparr>"
    by (simp add: t(2) e3 e2 e1)
  have h: "stakers.holds s' (xs @ [m])" if "stakers.holds s xs" "m \<notin> set xs" for xs
    using stakers.ins_appends [OF _ that(2) s1] that(1) by (simp add: stakers_holds s' e1)
  have l: "logs_ok s'" if "logs_ok s"
    using append_action_logs [OF s2] that by (simp add: logs_ok_def s' e2 e1)
  have tier: "compute_tier P a m s = Inr tier" using f(10) compute_tier_cong [of "s\<lparr>st_guard := g\<rparr>" s P a m] by simp
  show thesis by (rule that [OF f(1-9) tier s' h l])
qed


section \<open>Settlement\<close>

definition lockups_only :: "staking \<Rightarrow> staking \<Rightarrow> bool" where
  "lockups_only s s' \<longleftrightarrow> s' = s\<lparr>st_lockup := st_lockup s', st_pend_slot := st_pend_slot s',
     st_pend_pos := st_pend_pos s', st_pend_count := st_pend_count s'\<rparr>"

lemma lockups_only_refl [simp]: "lockups_only s s"
  by (simp add: lockups_only_def)

lemma lockups_only_trans: "lockups_only s s' \<Longrightarrow> lockups_only s' s'' \<Longrightarrow> lockups_only s s''"
proof -
  assume "lockups_only s s'" "lockups_only s' s''"
  then obtain k x y z k' x' y' z' where
    "s' = s\<lparr>st_lockup := k, st_pend_slot := x, st_pend_pos := y, st_pend_count := z\<rparr>"
    "s'' = s'\<lparr>st_lockup := k', st_pend_slot := x', st_pend_pos := y', st_pend_count := z'\<rparr>"
    unfolding lockups_only_def by blast
  then show ?thesis by (simp add: lockups_only_def)
qed

lemma lockups_onlyE:
  assumes "lockups_only s s'"
  obtains k x y z where "s' = s\<lparr>st_lockup := k, st_pend_slot := x, st_pend_pos := y, st_pend_count := z\<rparr>"
  using assms unfolding lockups_only_def by blast

lemma add_pending_only: "add_pending_distribution se s = Inr s' \<Longrightarrow> lockups_only s s'"
  by (auto simp: lockups_only_def add_pending_distribution_def Let_def res_simps)

lemma remove_pending_only: "lockups_only s (remove_pending_distribution se s)"
  by (auto simp: lockups_only_def remove_pending_distribution_def Let_def split: option.splits)

lemma set_lockup_only: "lockups_only s (s\<lparr>st_lockup := k\<rparr>)"
  by (simp add: lockups_only_def)

lemma settle_epoch_only: "settle_epoch env a ms e s = Inr s' \<Longrightarrow> lockups_only s s'"
  by (auto simp: settle_epoch_def Let_def res_simps split: option.splits if_splits
      intro: lockups_only_trans [OF _ set_lockup_only] add_pending_only set_lockup_only)

lemma settle_loop_step:
  "settle_loop env a ms e n s = Inr s' \<longleftrightarrow>
   (if e < n then \<exists>s1. settle_epoch env a ms e s = Inr s1 \<and> settle_loop env a ms (e + 1) n s1 = Inr s' else s' = s)"
  by (subst settle_loop.simps) (auto simp: res_simps)

lemma settle_loop_induct [consumes 1, case_names Stop Step]:
  assumes "settle_loop env a ms e n s = Inr s'"
    and "\<And>e s. n \<le> e \<Longrightarrow> Q e s s"
    and "\<And>e s s1 s'. e < n \<Longrightarrow> settle_epoch env a ms e s = Inr s1 \<Longrightarrow> settle_loop env a ms (e + 1) n s1 = Inr s' \<Longrightarrow>
       Q (e + 1) s1 s' \<Longrightarrow> Q e s s'"
  shows "Q e s s'"
  using assms(1)
proof (induction "n - e" arbitrary: e s)
  case 0
  then show ?case using assms(2) [of e s] by (subst (asm) settle_loop_step) auto
next
  case (Suc k)
  then have e: "e < n" by simp
  with Suc(3) obtain s1 where s1: "settle_epoch env a ms e s = Inr s1" "settle_loop env a ms (e + 1) n s1 = Inr s'"
    by (subst (asm) settle_loop_step) auto
  with assms(3) [OF e s1 Suc(1)] Suc(2) show ?case by simp
qed

lemma settle_loop_only: "settle_loop env a ms e n s = Inr s' \<Longrightarrow> lockups_only s s'"
  by (induction rule: settle_loop_induct) (auto intro: lockups_only_trans settle_epoch_only)

lemma claim_scan_only: "claim_scan t a es c x s = Inr (y, s') \<Longrightarrow> lockups_only s s'"
proof (induction es arbitrary: c x s)
  case (Cons e es)
  then show ?case
    by (auto simp: res_simps split: option.splits if_splits
        intro: lockups_only_trans [OF lockups_only_trans [OF set_lockup_only remove_pending_only]])
qed simp

text \<open>A run of the settlement: the loop, then the two pointers.\<close>

lemma settle_epoch_rewards_Inr:
  assumes "settle_epoch_rewards env a s = Inr s'"
  obtains nc su st fin k x y z s1 where
    "settle_range a s = (nc, su, st, fin)"
    "settle_loop env a (st_stake s a) st fin s = Inr s1"
    "s1 = s\<lparr>st_lockup := k, st_pend_slot := x, st_pend_pos := y, st_pend_count := z\<rparr>"
    "s' = s1\<lparr>st_settled := (if su < max st fin then (st_settled s)(a \<mapsto> max st fin) else st_settled s),
            st_next_claim := (if nc < max st fin then (st_next_claim s)(a \<mapsto> max st fin) else st_next_claim s)\<rparr>"
proof -
  obtain nc su st fin where r: "settle_range a s = (nc, su, st, fin)" by (metis prod_cases4)
  with assms obtain s1 where s1: "settle_loop env a (st_stake s a) st fin s = Inr s1"
    and s': "s' = (let s = (if su < max st fin then s1\<lparr>st_settled := (st_settled s1)(a \<mapsto> max st fin)\<rparr> else s1)
      in if nc < max st fin then s\<lparr>st_next_claim := (st_next_claim s)(a \<mapsto> max st fin)\<rparr> else s)"
    by (auto simp: settle_epoch_rewards_def Let_def res_simps)
  from settle_loop_only [OF s1] obtain k x y z where
    k: "s1 = s\<lparr>st_lockup := k, st_pend_slot := x, st_pend_pos := y, st_pend_count := z\<rparr>" by (rule lockups_onlyE)
  have "s' = s1\<lparr>st_settled := (if su < max st fin then (st_settled s)(a \<mapsto> max st fin) else st_settled s),
            st_next_claim := (if nc < max st fin then (st_next_claim s)(a \<mapsto> max st fin) else st_next_claim s)\<rparr>"
    by (simp add: s' k Let_def)
  then show thesis by (rule that [OF r s1 k])
qed


section \<open>Leaving\<close>

lemma unstake_body_steps:
  assumes "unstake_body T P env m (s, w) = Inr (s', w')"
  obtains r pen t s1 tok s2 s3 s4 where
    "st_admin s \<noteq> None" "st_stake s m = Some r" "auth_by env m"
    "compute_early_unstake_penalty (sr_staked_at r) (ledger_ts env) (sr_unlock_at r) (sr_amount r) =
      (Inr pen :: penalty_calc st_res)"
    "compute_tier P (sr_amount r) m s = Inr t" "settle_epoch_rewards env m s = Inr s1" "st_mnt s1 = Some tok"
    "penalty_to_pool pen s1 = Inr s2" "pay_returned T env tok m pen w = Inr w'"
    "stakers_remove m (s2\<lparr>st_stake := (st_stake s2)(m := None),
       st_entry := (st_entry s2)(m := None), st_next_claim := (st_next_claim s2)(m := None)\<rparr>) = Inr s3"
    "append_staker_action m action_unstake (ledger_ts env) (sr_amount r) (get_or 0 (st_epoch s))
      (s3\<lparr>st_total := Some (get_or 0 (st_total s3) - sr_amount r)\<rparr>) = Inr s4"
    "record_stake_snapshot_index s4 = Inr s'"
  using assms unfolding unstake_body_def Let_def prod.case
  by (clarsimp simp: res_simps)

lemma penalty_to_pool_Inr:
  "penalty_to_pool pen s = Inr s' \<Longrightarrow>
   s' = s\<lparr>st_penalty_pool := (if 0 < pc_penalty pen then Some (get_or 0 (st_penalty_pool s) + pc_penalty pen)
                           else st_penalty_pool s)\<rparr>"
  by (auto simp: penalty_to_pool_def res_simps split: if_splits)

lemma unstake_Inr:
  assumes "unstake T P env m (s, w) = Inr (s', w')"
  obtains r pen tok g0 s1 g x y z l i u v where
    "st_admin s \<noteq> None" "st_stake s m = Some r" "auth_by env m"
    "compute_early_unstake_penalty (sr_staked_at r) (ledger_ts env) (sr_unlock_at r) (sr_amount r) =
      (Inr pen :: penalty_calc st_res)"
    "settle_epoch_rewards env m (s\<lparr>st_guard := g0\<rparr>) = Inr s1" "st_mnt s = Some tok"
    "pay_returned T env tok m pen w = Inr w'"
    "s' = s1\<lparr>st_guard := g,
       st_penalty_pool := (if 0 < pc_penalty pen then Some (get_or 0 (st_penalty_pool s) + pc_penalty pen)
                           else st_penalty_pool s),
       st_stake := (st_stake s)(m := None), st_entry := (st_entry s)(m := None),
       st_next_claim := (st_next_claim s1)(m := None), st_slot := x, st_index := y, st_count := z,
       st_total := Some (get_or 0 (st_total s) - sr_amount r),
       st_log := l, st_log_index := i, st_snap_index := u, st_next_snap := v\<rparr>"
    "\<And>xs. stakers.holds s xs \<Longrightarrow> m \<in> set xs \<Longrightarrow> \<exists>ys. stakers.holds s' ys \<and> set ys = set xs - {m}"
    "logs_ok s \<Longrightarrow> logs_ok s'"
proof -
  from assms have "st_guarded ''unstake'' (s, w) (unstake_body T P env m) = Inr (s', w')"
    by (simp add: unstake_def res_simps del: st_guarded_Inr)
  from st_guarded_guard [OF this] obtain g0 t g where
    t: "unstake_body T P env m (s\<lparr>st_guard := g0\<rparr>, w) = Inr (t, w')" "s' = t\<lparr>st_guard := g\<rparr>" by blast
  from t(1) show thesis
  proof (cases rule: unstake_body_steps)
    case (1 r pen ti s1 tok s2 s3 s4)
    from 1(6) obtain k px py pz se nc where
      e1: "s1 = s\<lparr>st_guard := g0, st_lockup := k, st_pend_slot := px, st_pend_pos := py, st_pend_count := pz,
        st_settled := se, st_next_claim := nc\<rparr>"
      by (rule settle_epoch_rewards_Inr) simp
    define pool where "pool = (if 0 < pc_penalty pen then Some (get_or 0 (st_penalty_pool s) + pc_penalty pen)
        else st_penalty_pool s)"
    have e2: "s2 = s1\<lparr>st_penalty_pool := pool\<rparr>"
      using penalty_to_pool_Inr [OF 1(8)] by (simp add: e1 pool_def)
    from stakers_remove_frame [OF 1(10)] obtain x y z where
      e3: "s3 = s2\<lparr>st_stake := (st_stake s)(m := None), st_entry := (st_entry s)(m := None),
        st_next_claim := nc(m := None), st_slot := x, st_index := y, st_count := z\<rparr>"
      by (simp add: e2 e1)
    from append_action_frame [OF 1(11)] obtain l i where
      e4: "s4 = s3\<lparr>st_total := Some (get_or 0 (st_total s) - sr_amount r), st_log := l, st_log_index := i\<rparr>"
      by (simp add: e3 e2 e1)
    from snapshot_index_frame [OF 1(12)] obtain u v where
      e5: "t = s4\<lparr>st_snap_index := u, st_next_snap := v\<rparr>" by blast
    have s': "s' = s1\<lparr>st_guard := g, st_penalty_pool := pool,
       st_stake := (st_stake s)(m := None), st_entry := (st_entry s)(m := None),
       st_next_claim := (st_next_claim s1)(m := None), st_slot := x, st_index := y, st_count := z,
       st_total := Some (get_or 0 (st_total s) - sr_amount r),
       st_log := l, st_log_index := i, st_snap_index := u, st_next_snap := v\<rparr>"
      by (simp add: t(2) e5 e4 e3 e2 e1)
    have h: "\<exists>ys. stakers.holds s' ys \<and> set ys = set xs - {m}" if "stakers.holds s xs" "m \<in> set xs" for xs
      using stakers.del_set [OF _ that(2) 1(10)] that(1) by (auto simp: stakers_holds s' e3 e2 e1)
    have lg: "logs_ok s'" if "logs_ok s"
      using append_action_logs [OF 1(11)] that by (simp add: logs_ok_def s' e4 e3 e2 e1)
    have f: "st_admin s \<noteq> None" "st_stake s m = Some r" "st_mnt s = Some tok"
      using 1(1,2,7) by (simp_all add: e1)
    show thesis by (rule that [OF f(1,2) 1(3,4,6) f(3) 1(9) s' [unfolded pool_def] h lg])
  qed
qed


section \<open>Claims\<close>

lemma claim_body_steps:
  assumes "claim_body T env a tok (s, w) = Inr (s', w')"
  obtains s1 x s2 amt s3 s4 where
    "st_admin s \<noteq> None" "auth_by env a" "settle_epoch_rewards env a s = Inr s1"
    "claim_scan (ledger_ts env) a [0..<get_or 0 (st_epoch s)] 0 0 s1 = Inr (x, s2)"
    "amt = (if 0 < get_or 0 (st_pending_rewards s2 a) then x + get_or 0 (st_pending_rewards s2 a) else x)"
    "s3 = (if 0 < get_or 0 (st_pending_rewards s2 a)
           then s2\<lparr>st_pending_rewards := (st_pending_rewards s2)(a := None)\<rparr> else s2)"
    "amt \<noteq> 0" "tk_transfer T (as_invoker env) tok (self_addr env) a amt w = Inr w'"
    "append_staker_action a action_claim (ledger_ts env) amt (get_or 0 (st_epoch s)) s3 = Inr s4"
    "record_stake_snapshot_index s4 = Inr s'"
proof -
  from assms obtain s1 x s2 where
    1: "st_admin s \<noteq> None" "auth_by env a" "settle_epoch_rewards env a s = Inr s1"
      "claim_scan (ledger_ts env) a [0..<get_or 0 (st_epoch s)] 0 0 s1 = Inr (x, s2)"
    and rest: "rbind (if 0 < get_or 0 (st_pending_rewards s2 a) then
             expect (checked_i128 (x + get_or 0 (st_pending_rewards s2 a))) (Panic ''Overflow'') (\<lambda>amt.
             Inr (amt, s2\<lparr>st_pending_rewards := (st_pending_rewards s2)(a := None)\<rparr>))
           else Inr (x, s2)) (\<lambda>(amt, s3).
        ensure (amt \<noteq> 0) (Err StNoClaimableRewards) (
        rbind (pay_self T env tok a amt w) (\<lambda>w.
        rbind (append_staker_action a action_claim (ledger_ts env) amt (get_or 0 (st_epoch s)) s3) (\<lambda>s4.
        rbind (detect_suspicious_pattern (load_action_log a s4)
             (case st_stake s4 a of Some r \<Rightarrow> sr_amount r | None \<Rightarrow> 0)
             (get_or 0 (st_total s4)) (st_next_dist s4) (ledger_ts env)) (\<lambda>flag.
        rbind (record_stake_snapshot_index s4) (\<lambda>s5. Inr (s5, w))))))) = Inr (s', w')"
    unfolding claim_body_def Let_def prod.case by (clarsimp simp: rbind_Inr ensure_Inr split: prod.splits)
  define amt where "amt = (if 0 < get_or 0 (st_pending_rewards s2 a) then x + get_or 0 (st_pending_rewards s2 a) else x)"
  define s3 where "s3 = (if 0 < get_or 0 (st_pending_rewards s2 a)
           then s2\<lparr>st_pending_rewards := (st_pending_rewards s2)(a := None)\<rparr> else s2)"
  from rest obtain s4 where
    "amt \<noteq> 0" "tk_transfer T (as_invoker env) tok (self_addr env) a amt w = Inr w'"
    "append_staker_action a action_claim (ledger_ts env) amt (get_or 0 (st_epoch s)) s3 = Inr s4"
    "record_stake_snapshot_index s4 = Inr s'"
    by (cases "0 < get_or 0 (st_pending_rewards s2 a)") (auto simp: res_simps amt_def s3_def)
  then show thesis using that [OF 1 amt_def s3_def] by blast
qed

lemma claim_Inr:
  assumes "claim_rewards T P env a tok (s, w) = Inr (s', w')"
  obtains g0 s1 x s2 amt pr g l i u v where
    "st_admin s \<noteq> None" "auth_by env a" "settle_epoch_rewards env a (s\<lparr>st_guard := g0\<rparr>) = Inr s1"
    "claim_scan (ledger_ts env) a [0..<get_or 0 (st_epoch s)] 0 0 s1 = Inr (x, s2)"
    "amt = (if 0 < get_or 0 (st_pending_rewards s a) then x + get_or 0 (st_pending_rewards s a) else x)"
    "pr = (if 0 < get_or 0 (st_pending_rewards s a) then (st_pending_rewards s)(a := None) else st_pending_rewards s)"
    "amt \<noteq> 0" "tk_transfer T (as_invoker env) tok (self_addr env) a amt w = Inr w'"
    "s' = s2\<lparr>st_guard := g, st_pending_rewards := pr, st_log := l, st_log_index := i,
       st_snap_index := u, st_next_snap := v\<rparr>"
    "logs_ok s \<Longrightarrow> logs_ok s'"
proof -
  from assms have "st_guarded ''claim_rewards'' (s, w) (claim_body T env a tok) = Inr (s', w')"
    by (simp add: claim_rewards_def require_not_paused_Inr require_not_rg_paused_Inr)
  from st_guarded_guard [OF this] obtain g0 t g where
    t: "claim_body T env a tok (s\<lparr>st_guard := g0\<rparr>, w) = Inr (t, w')" "s' = t\<lparr>st_guard := g\<rparr>" by blast
  from t(1) show thesis
  proof (cases rule: claim_body_steps)
    case (1 s1 x s2 amt s3 s4)
    from 1(3) obtain k px py pz se nc where
      e1: "s1 = s\<lparr>st_guard := g0, st_lockup := k, st_pend_slot := px, st_pend_pos := py, st_pend_count := pz,
        st_settled := se, st_next_claim := nc\<rparr>"
      by (rule settle_epoch_rewards_Inr) simp
    from claim_scan_only [OF 1(4)] obtain k' px' py' pz' where
      e2: "s2 = s1\<lparr>st_lockup := k', st_pend_slot := px', st_pend_pos := py', st_pend_count := pz'\<rparr>"
      by (rule lockups_onlyE)
    have p: "st_pending_rewards s2 = st_pending_rewards s" by (simp add: e2 e1)
    define pr where "pr = (if 0 < get_or 0 (st_pending_rewards s a) then (st_pending_rewards s)(a := None)
       else st_pending_rewards s)"
    have e3: "s3 = s2\<lparr>st_pending_rewards := pr\<rparr>"
      unfolding 1(6) p pr_def by (simp add: p [symmetric])
    from append_action_frame [OF 1(9)] obtain l i where
      e4: "s4 = s3\<lparr>st_log := l, st_log_index := i\<rparr>" by blast
    from snapshot_index_frame [OF 1(10)] obtain u v where
      e5: "t = s4\<lparr>st_snap_index := u, st_next_snap := v\<rparr>" by blast
    have s': "s' = s2\<lparr>st_guard := g, st_pending_rewards := pr, st_log := l, st_log_index := i,
       st_snap_index := u, st_next_snap := v\<rparr>"
      by (simp add: t(2) e5 e4 e3)
    have lg: "logs_ok s'" if "logs_ok s"
      using append_action_logs [OF 1(9)] that by (simp add: logs_ok_def s' e4 e3 e2 e1)
    have f: "st_admin s \<noteq> None"
      "claim_scan (ledger_ts env) a [0..<get_or 0 (st_epoch s)] 0 0 s1 = Inr (x, s2)"
      using 1(1,4) by simp_all
    show thesis by (rule that [OF f(1) 1(2,3) f(2) 1(5) [unfolded p] pr_def 1(7,8) s' lg])
  qed
qed


section \<open>Distributions\<close>

lemma snapshot_slot_Inr:
  "snapshot_slot t e i (x, s) = Inr (y, s') \<Longrightarrow> s' = s\<lparr>st_epoch_stake := st_epoch_stake s'\<rparr>"
  by (auto simp: snapshot_slot_def Let_def res_simps split: option.splits if_splits)

lemma snapshot_loop_frame:
  "snapshot_loop t e ks (x, s) = Inr (y, s') \<Longrightarrow> \<exists>q. s' = s\<lparr>st_epoch_stake := q\<rparr>"
proof (induction ks arbitrary: x s)
  case Nil
  then have "s' = s\<lparr>st_epoch_stake := st_epoch_stake s\<rparr>" by simp
  then show ?case by blast
next
  case (Cons k ks)
  then obtain x1 s1 where s1: "snapshot_slot t e k (x, s) = Inr (x1, s1)" "snapshot_loop t e ks (x1, s1) = Inr (y, s')"
    by (auto simp: res_simps)
  from snapshot_slot_Inr [OF s1(1)] obtain q where "s1 = s\<lparr>st_epoch_stake := q\<rparr>" by blast
  with Cons.IH [OF s1(2)] show ?case by auto
qed

lemma internal_distribute_Inr:
  assumes "internal_distribute_revenue env amount s = Inr s'"
  obtains el q where
    "snapshot_loop (ledger_ts env) (get_or 0 (st_epoch s)) [0..<get_or 0 (st_count s)] (0, s) =
       (Inr (el, s\<lparr>st_epoch_stake := q\<rparr>) :: (int \<times> staking) st_res)"
    "get_or 0 (st_count s) \<le> MAX_STAKERS_PER_SNAPSHOT" "get_or 0 (st_epoch s) + 1 \<le> u64_max"
    "in_i128 (amount + get_or 0 (st_penalty_pool s))"
    "s' = s\<lparr>st_epoch_stake := q,
       st_epoch_total := (st_epoch_total s)(get_or 0 (st_epoch s) \<mapsto> get_or 0 (st_total s)),
       st_epoch_eligible := (st_epoch_eligible s)(get_or 0 (st_epoch s) \<mapsto> el),
       st_penalty_pool := (if 0 < get_or 0 (st_penalty_pool s) then Some 0 else st_penalty_pool s),
       st_epoch_reward := (st_epoch_reward s)(get_or 0 (st_epoch s) \<mapsto> amount + get_or 0 (st_penalty_pool s)),
       st_epoch := Some (get_or 0 (st_epoch s) + 1), st_next_dist := None\<rparr>"
proof -
  from assms obtain el s1 where
    1: "snapshot_loop (ledger_ts env) (get_or 0 (st_epoch s)) [0..<get_or 0 (st_count s)] (0, s) = Inr (el, s1)"
      "get_or 0 (st_count s) \<le> MAX_STAKERS_PER_SNAPSHOT" "get_or 0 (st_epoch s) + 1 \<le> u64_max"
      "in_i128 (amount + get_or 0 (st_penalty_pool s1))"
    and s': "s' = (let s2 = s1\<lparr>st_epoch_total := (st_epoch_total s1)(get_or 0 (st_epoch s) \<mapsto> get_or 0 (st_total s)),
       st_epoch_eligible := (st_epoch_eligible s1)(get_or 0 (st_epoch s) \<mapsto> el)\<rparr>;
       s3 = (if 0 < get_or 0 (st_penalty_pool s1) then s2\<lparr>st_penalty_pool := Some 0\<rparr> else s2)
       in s3\<lparr>st_epoch_reward := (st_epoch_reward s3)(get_or 0 (st_epoch s) \<mapsto> amount + get_or 0 (st_penalty_pool s1)),
       st_epoch := Some (get_or 0 (st_epoch s) + 1), st_next_dist := None\<rparr>)"
    by (clarsimp simp: internal_distribute_revenue_def Let_def res_simps split: prod.splits)
  from snapshot_loop_frame [OF 1(1)] obtain q where q: "s1 = s\<lparr>st_epoch_stake := q\<rparr>" by blast
  show thesis
    by (rule that [OF 1(1) [unfolded q] 1(2,3)]) (use 1(4) in \<open>simp_all add: s' q Let_def\<close>)
qed

end
