(* ===== verification/StakingInv.thy ===== *)
theory StakingInv
  imports StakingRules
begin

text \<open>
  The state machine of the staking contract (every call that changes storage) and the invariant of
  its reachable states: the array of stakers is dense and agrees with the stakes and their total,
  the action logs fit their windows, closed epochs are complete, and every locked reward is the
  share of a stake that the epoch recorded.
\<close>

section \<open>Calls\<close>

datatype st_call =
    SC_Initialize addr addr "addr option"
  | SC_Propose_Admin addr addr | SC_Accept_Admin addr | SC_Cancel_Admin addr
  | SC_Pause_Guardian addr | SC_Anomaly addr | SC_Bypass bool | SC_Treasury addr addr | SC_Reputation addr
  | SC_Sessions addr | SC_Dashboard addr | SC_Tiers addr tier_requirements | SC_Next_Dist addr nat | SC_Game nat
  | SC_Stake addr int nat | SC_Unstake addr | SC_Claim addr addr
  | SC_Receive nat addr addr int nat | SC_Distribute addr int | SC_Batch addr int nat nat | SC_Migrate
  | SC_Lp_Fund int | SC_Lp_Register addr addr int addr addr | SC_Lp_Claim addr addr
  | SC_Signers addr "addr list" | SC_Snapshot addr nat | SC_Rb_Propose addr nat hash32 | SC_Rb_Approve addr nat
  | SC_Rollback nat
  | SC_Monitor | SC_Gov_Monitor addr | SC_Velocity int nat | SC_Threat nat nat nat nat | SC_Ecosystem
  | SC_Fair_Exit addr | SC_Verify_Migration addr

definition st_lift :: "'t \<Rightarrow> staking st_res \<Rightarrow> (staking \<times> 't) st_res" where
  "st_lift w r = rbind r (\<lambda>s. Inr (s, w))"

lemma st_lift_Inr [res_simps]: "st_lift w r = Inr (s', w') \<longleftrightarrow> r = Inr s' \<and> w' = w"
  by (auto simp: st_lift_def res_simps)

text \<open>\<open>snd\<close> drops the value a call returns besides the new storage.\<close>

definition st_drop :: "('r \<times> staking) st_res \<Rightarrow> staking st_res" where
  "st_drop r = rbind r (\<lambda>(x, s). Inr s)"

lemma st_drop_Inr [res_simps]: "st_drop r = Inr s' \<longleftrightarrow> (\<exists>x. r = Inr (x, s'))"
  by (auto simp: st_drop_def res_simps)

fun st_exec ::
    "'t token_ops \<Rightarrow> staking_peers \<Rightarrow> (hash32 \<Rightarrow> bool) \<Rightarrow> env \<Rightarrow> st_call \<Rightarrow> staking \<times> 't \<Rightarrow> (staking \<times> 't) st_res" where
  "st_exec T P inst env (SC_Initialize a tok g) (s, w) = st_lift w (st_initialize a tok g s)"
| "st_exec T P inst env (SC_Propose_Admin a b) (s, w) = st_lift w (st_propose_admin_change env a b s)"
| "st_exec T P inst env (SC_Accept_Admin a) (s, w) = st_lift w (st_accept_admin_change env a s)"
| "st_exec T P inst env (SC_Cancel_Admin a) (s, w) = st_lift w (st_cancel_admin_change env a s)"
| "st_exec T P inst env (SC_Pause_Guardian a) (s, w) = st_lift w (st_set_pause_guardian env a s)"
| "st_exec T P inst env (SC_Anomaly a) (s, w) = st_lift w (st_set_anomaly_detector env a s)"
| "st_exec T P inst env (SC_Bypass b) (s, w) = st_lift w (st_set_bypass env b s)"
| "st_exec T P inst env (SC_Treasury a b) (s, w) = st_lift w (st_set_treasury env a b s)"
| "st_exec T P inst env (SC_Reputation a) (s, w) = st_lift w (st_set_reputation env a s)"
| "st_exec T P inst env (SC_Sessions a) (s, w) = st_lift w (st_set_sessions env a s)"
| "st_exec T P inst env (SC_Dashboard a) (s, w) = st_lift w (st_set_dashboard env a s)"
| "st_exec T P inst env (SC_Tiers a q) (s, w) = st_lift w (st_set_tier_requirements env a q s)"
| "st_exec T P inst env (SC_Next_Dist a t) (s, w) = st_lift w (st_set_next_distribution_at env a t s)"
| "st_exec T P inst env (SC_Game n) (s, w) = st_lift w (Inr (st_adjust_game_theory n s))"
| "st_exec T P inst env (SC_Stake m a d) (s, w) = stake T P env m a d (s, w)"
| "st_exec T P inst env (SC_Unstake m) (s, w) = unstake T P env m (s, w)"
| "st_exec T P inst env (SC_Claim a tok) (s, w) = claim_rewards T P env a tok (s, w)"
| "st_exec T P inst env (SC_Receive i tr tok a t) (s, w) = receive_treasury_distribution T env i tr tok a t (s, w)"
| "st_exec T P inst env (SC_Distribute tok a) (s, w) = distribute_revenue env tok a (s, w)"
| "st_exec T P inst env (SC_Batch tok a n m) (s, w) = st_lift w (distribute_revenue_batch tok a n m s)"
| "st_exec T P inst env SC_Migrate (s, w) = st_lift w (migrate_stakers s)"
| "st_exec T P inst env (SC_Lp_Fund a) (s, w) = add_to_lp_reward_pool env a (s, w)"
| "st_exec T P inst env (SC_Lp_Register h l a t1 t2) (s, w) = st_lift w (register_lp_position env h l a t1 t2 s)"
| "st_exec T P inst env (SC_Lp_Claim h tok) (s, w) = claim_lp_rewards T env h tok (s, w)"
| "st_exec T P inst env (SC_Signers a gs) (s, w) = st_lift w (st_set_emergency_signers env a gs s)"
| "st_exec T P inst env (SC_Snapshot a i) (s, w) = st_lift w (st_snapshot_state env a i s)"
| "st_exec T P inst env (SC_Rb_Propose a i h) (s, w) = st_lift w (st_drop (st_propose_rollback env a i h s))"
| "st_exec T P inst env (SC_Rb_Approve a i) (s, w) = st_lift w (st_approve_rollback env a i s)"
| "st_exec T P inst env (SC_Rollback i) (s, w) = st_lift w (st_drop (st_rollback inst i s))"
| "st_exec T P inst env SC_Monitor (s, w) = st_lift w (st_drop (monitor_tokenomics_stability env s))"
| "st_exec T P inst env (SC_Gov_Monitor a) (s, w) = st_lift w (Inr (snd (monitor_governance_accumulation a s)))"
| "st_exec T P inst env (SC_Velocity v c) (s, w) = st_lift w (st_drop (audit_token_velocity v c s))"
| "st_exec T P inst env (SC_Threat g e t h) (s, w) = st_lift w (Inr (snd (correlate_threat_vectors g e t h s)))"
| "st_exec T P inst env SC_Ecosystem (s, w) = st_lift w (st_drop (assess_ecosystem_health env s))"
| "st_exec T P inst env (SC_Fair_Exit a) (s, w) = st_lift w (initiate_fair_exit env a s)"
| "st_exec T P inst env (SC_Verify_Migration a) (s, w) = st_lift w (Inr (snd (verify_migration_integrity env a s)))"


section \<open>The invariant\<close>

definition stake_ok :: "addr \<Rightarrow> stake_record \<Rightarrow> bool" where
  "stake_ok a r \<longleftrightarrow> sr_mentor r = a \<and> 0 < sr_amount r \<and> sr_amount r \<le> ST_MAX_FINANCIAL_AMOUNT \<and> sr_tier r \<le> 3 \<and>
     sr_staked_at r + MIN_STAKING_DURATION_SECS \<le> sr_unlock_at r"

definition stakers_ok :: "staking \<Rightarrow> bool" where
  "stakers_ok s \<longleftrightarrow> st_legacy s = None \<and>
     (\<exists>xs. stakers.holds s xs \<and> set xs = dom (st_stake s)) \<and>
     get_or 0 (st_total s) = wsum sr_amount (st_stake s) \<and>
     (\<forall>a r. st_stake s a = Some r \<longrightarrow> stake_ok a r)"

definition epochs_ok :: "staking \<Rightarrow> bool" where
  "epochs_ok s \<longleftrightarrow>
     (\<forall>e. (st_epoch_reward s e \<noteq> None) = (e < get_or 0 (st_epoch s))) \<and>
     (\<forall>e. (st_epoch_eligible s e \<noteq> None) = (e < get_or 0 (st_epoch s))) \<and>
     (\<forall>e. (st_epoch_total s e \<noteq> None) = (e < get_or 0 (st_epoch s))) \<and>
     (\<forall>e r. st_epoch_reward s e = Some r \<longrightarrow> 0 \<le> r \<and> in_i128 r) \<and>
     (\<forall>e d. st_epoch_eligible s e = Some d \<longrightarrow> 0 \<le> d \<and> in_i128 d) \<and>
     (\<forall>e a x. st_epoch_stake s (e, a) = Some x \<longrightarrow> e < get_or 0 (st_epoch s) \<and> 0 < x \<and> x \<le> ST_MAX_FINANCIAL_AMOUNT) \<and>
     0 \<le> get_or 0 (st_penalty_pool s) \<and>
     (\<forall>a x. st_pending_rewards s a = Some x \<longrightarrow> 0 \<le> x)"

text \<open>A locked reward of \<open>a\<close> for epoch \<open>e\<close> is the share of the recorded stake, scaled.\<close>

definition lockup_fair :: "staking \<Rightarrow> addr \<Rightarrow> nat \<Rightarrow> reward_lockup \<Rightarrow> bool" where
  "lockup_fair s a e l \<longleftrightarrow> (\<exists>x r d. st_epoch_stake s (e, a) = Some x \<and> st_epoch_reward s e = Some r \<and>
     st_epoch_eligible s e = Some d \<and> 0 < d \<and> rl_base l = x * r div d \<and> 0 < rl_base l \<and> in_i128 (rl_base l) \<and>
     10000 \<le> rl_multiplier l \<and> rl_multiplier l \<le> 30000 \<and>
     rl_scaled l = apply_bps_multiplier (rl_base l) (rl_multiplier l) \<and> rl_epoch l = e)"

definition open_lockups :: "staking \<Rightarrow> (addr \<times> nat) set" where
  "open_lockups s = {k. \<exists>l. st_lockup s k = Some l \<and> \<not> rl_claimed l}"

definition lockups_below :: "(addr \<Rightarrow> nat) \<Rightarrow> staking \<Rightarrow> bool" where
  "lockups_below bnd s \<longleftrightarrow> (\<exists>ps. pend.holds s ps \<and> set ps = open_lockups s) \<and>
     (\<forall>a e l. st_lockup s (a, e) = Some l \<longrightarrow> e < get_or 0 (st_epoch s) \<and> e < bnd a \<and> lockup_fair s a e l)"

definition settled_upto :: "staking \<Rightarrow> addr \<Rightarrow> nat" where
  "settled_upto s a = get_or 0 (st_settled s a)"

abbreviation lockups_ok :: "staking \<Rightarrow> bool" where
  "lockups_ok s \<equiv> lockups_below (settled_upto s) s"

text \<open>The entries that no function ever writes, and the empty snapshots that follow.\<close>

definition unused_ok :: "staking \<Rightarrow> bool" where
  "unused_ok s \<longleftrightarrow> st_next_dist_p s = None \<and> st_exits s = Map.empty \<and> st_collusion s = Map.empty \<and>
     (\<forall>i xs. st_snap s i = Some xs \<longrightarrow> xs = [])"

definition st_inv :: "staking \<Rightarrow> bool" where
  "st_inv s \<longleftrightarrow> stakers_ok s \<and> logs_ok s \<and> epochs_ok s \<and> lockups_ok s \<and> unused_ok s"

lemmas inv_parts = stakers_ok_def stakers_holds pend_holds logs_ok_def epochs_ok_def lockups_below_def lockup_fair_def
  open_lockups_def settled_upto_def

lemma st_inv_empty: "st_inv staking_empty"
  by (auto simp: st_inv_def inv_parts unused_ok_def staking_empty_def PATTERN_DETECTION_WINDOW_def in_i128_def
      i128_min_def i128_max_def)

text \<open>The fields the invariant looks at; a call that keeps them keeps the invariant.\<close>

definition st_core where
  "st_core s = ((st_stake s, st_slot s, st_index s, st_count s, st_legacy s, st_total s, st_log s, st_log_index s),
     (st_pending_rewards s, st_epoch s, st_epoch_total s, st_epoch_eligible s, st_epoch_reward s, st_epoch_stake s),
     (st_entry s, st_next_claim s, st_settled s, st_lockup s, st_pend_slot s, st_pend_pos s, st_pend_count s, st_penalty_pool s),
     (st_next_dist_p s, st_exits s, st_collusion s, st_snap s), (st_processed s, st_receipt s))"

lemma st_core_inv: "st_core s' = st_core s \<Longrightarrow> st_inv s' = st_inv s"
  by (simp add: st_core_def st_inv_def inv_parts unused_ok_def)


section \<open>Calls that do not touch stakes and rewards\<close>

fun quiet :: "st_call \<Rightarrow> bool" where
  "quiet (SC_Stake m a d) = False" | "quiet (SC_Unstake m) = False" | "quiet (SC_Claim a t) = False"
| "quiet (SC_Receive i tr tok a t) = False" | "quiet (SC_Distribute t a) = False"
| "quiet (SC_Batch t a n m) = False" | "quiet (SC_Migrate) = False" | "quiet (SC_Snapshot a i) = False"
| "quiet (SC_Rollback i) = False" | "quiet _ = True"

lemma lp_fund_core: "add_to_lp_reward_pool env a (s, w) = Inr (s', w') \<Longrightarrow> st_core s' = st_core s \<and> w' = w"
  by (auto simp: add_to_lp_reward_pool_def st_core_def Let_def res_simps)

lemma lp_claim_core:
  assumes "claim_lp_rewards T env h tok (s, w) = Inr (s', w')"
  shows "st_core s' = st_core s"
proof -
  from assms obtain r t where r: "st_lp s h = Some r" "t = ledger_ts env - lr_last_reward_at r"
    and k: "(if t = 0 then Inr (s, w) else
      rbind (safe_mul (lr_amount r) (int t)) (\<lambda>x.
      rbind (safe_div x (1000 * 86400)) (\<lambda>reward.
      rbind (if 0 < reward then
               let pool_balance = get_or 0 (st_lp_pool s);
                   actual_reward = (if pool_balance < reward then min reward pool_balance else reward) in
               rbind (safe_sub pool_balance actual_reward) (\<lambda>rest.
               rbind (pay_self T env tok h actual_reward w) (\<lambda>w.
               Inr (s\<lparr>st_lp_pool := Some rest\<rparr>, w)))
             else Inr (s, w)) (\<lambda>(s, w).
      Inr (s\<lparr>st_lp := (st_lp s)(h \<mapsto> r\<lparr>lr_last_reward_at := ledger_ts env\<rparr>)\<rparr>, w))))) = (Inr (s', w') :: (staking \<times> 'a) st_res)"
    unfolding claim_lp_rewards_def Let_def by (auto simp: ensure_Inr expect_Inr rbind_Inr safe_sub_u64_def split: if_splits)
  show ?thesis
  proof (cases "t = 0")
    case True
    with k show ?thesis by simp
  next
    case False
    with k obtain s1 w1 where "s1 = s \<or> (\<exists>x. s1 = s\<lparr>st_lp_pool := Some x\<rparr>)"
        "s' = s1\<lparr>st_lp := (st_lp s1)(h \<mapsto> r\<lparr>lr_last_reward_at := ledger_ts env\<rparr>)\<rparr>"
      by (auto simp: rbind_Inr Let_def split: if_splits)
    then show ?thesis by (auto simp: st_core_def)
  qed
qed

lemma monitor_core: "monitor_tokenomics_stability env s = Inr (x, s') \<Longrightarrow> st_core s' = st_core s"
  by (auto simp: monitor_tokenomics_stability_def st_as_signed_admin_def st_core_def Let_def res_simps)

lemma ecosystem_core: "assess_ecosystem_health env s = Inr (x, s') \<Longrightarrow> st_core s' = st_core s"
  by (auto simp: assess_ecosystem_health_def st_as_signed_admin_def st_core_def Let_def res_simps)

lemma quiet_core:
  assumes "st_exec T P inst env c (s, w) = Inr (s', w')" "quiet c"
  shows "st_core s' = st_core s"
proof (cases c)
  case (SC_Lp_Fund a)
  with assms lp_fund_core [of env a s w s' w'] show ?thesis by simp
next
  case (SC_Lp_Claim h tok)
  with assms lp_claim_core [of T env h tok s w s' w'] show ?thesis by simp
next
  case SC_Monitor
  with assms monitor_core show ?thesis by (auto simp: res_simps)
next
  case SC_Ecosystem
  with assms ecosystem_core show ?thesis by (auto simp: res_simps)
next
  case (SC_Initialize a tok g)
  with assms show ?thesis by (cases g) (auto simp: st_initialize_def st_core_def Let_def res_simps)
next
  case (SC_Gov_Monitor a)
  with assms show ?thesis
    by (auto simp: monitor_governance_accumulation_def st_core_def Let_def res_simps split: option.splits)
next
  case (SC_Verify_Migration a)
  with assms show ?thesis
    by (auto simp: verify_migration_integrity_def st_core_def Let_def res_simps split: option.splits)
qed (use assms in \<open>auto simp: st_core_def Let_def res_simps st_propose_admin_change_def st_accept_admin_change_def
  st_cancel_admin_change_def st_set_pause_guardian_def st_set_anomaly_detector_def st_set_bypass_def
  st_set_treasury_def st_set_reputation_def st_set_sessions_def st_set_dashboard_def
  st_set_tier_requirements_def st_set_next_distribution_at_def st_adjust_game_theory_def
  register_lp_position_def st_set_emergency_signers_def st_propose_rollback_def st_approve_rollback_def
  audit_token_velocity_def correlate_threat_vectors_def initiate_fair_exit_def\<close>)


section \<open>Snapshots and rollback\<close>

lemma snapshot_inv:
  assumes "st_snapshot_state env a i s = Inr s'" "st_inv s"
  shows "st_inv s' \<and> st_snap s' i = Some [] \<and> st_core (s'\<lparr>st_snap := st_snap s\<rparr>) = st_core s"
proof -
  have leg: "st_legacy s = None" using assms(2) by (simp add: st_inv_def stakers_ok_def)
  obtain j ev where j: "push_snapshot_index (get_or [] (st_snap_index s)) i = (j, ev)" by force
  define q where "q = (case ev of Some k \<Rightarrow> (st_snap s)(k := None) | None \<Rightarrow> st_snap s)"
  obtain m where s': "s' = s\<lparr>st_snap_index := Some j, st_snap := q(i \<mapsto> []), st_snap_meta := m\<rparr>"
    using assms(1) leg j
    by (cases ev) (auto simp: st_snapshot_state_def Let_def List.map_filter_def res_simps q_def)
  have q: "q k = Some xs \<Longrightarrow> st_snap s k = Some xs" for k xs
    by (auto simp: q_def split: option.splits if_splits)
  have "st_core (s'\<lparr>st_snap := st_snap s\<rparr>) = st_core s" by (simp add: st_core_def s')
  moreover have "st_inv s'"
  proof -
    have parts: "stakers_ok s \<and> logs_ok s \<and> epochs_ok s \<and> lockups_ok s" "unused_ok s"
      using assms(2) by (simp_all add: st_inv_def)
    have "stakers_ok s' \<and> logs_ok s' \<and> epochs_ok s' \<and> lockups_ok s'"
      using parts(1) by (simp add: inv_parts s')
    moreover have "unused_ok s'"
      using parts(2) q by (auto simp: unused_ok_def s' split: if_splits)
    ultimately show ?thesis by (simp add: st_inv_def)
  qed
  ultimately show ?thesis by (simp add: s')
qed

lemma rollback_core:
  assumes "st_rollback inst i s = Inr (h, s')" "st_inv s"
  shows "st_core s' = st_core s"
proof -
  obtain p snaps where "st_snap s (rb_snapshot p) = Some snaps"
      and s': "s' = restore_stakes snaps s\<lparr>st_rb := (st_rb (restore_stakes snaps s))(i \<mapsto> p\<lparr>rb_executed := True\<rparr>)\<rparr>"
    using assms(1) by (auto simp: st_rollback_def Let_def res_simps)
  then have "snaps = []" using assms(2) by (simp add: st_inv_def unused_ok_def)
  then show ?thesis by (simp add: s' restore_stakes_def st_core_def)
qed

lemma migrate_same: "migrate_stakers s = Inr s' \<Longrightarrow> st_inv s \<Longrightarrow> s' = s"
  by (auto simp: migrate_stakers_def st_inv_def stakers_ok_def res_simps)


section \<open>Distributions\<close>

lemma batch_shares_pos: "batch_shares a t ks s = Inr us \<Longrightarrow> (m, x) \<in> set us \<Longrightarrow> 0 < x"
  by (induction ks arbitrary: us) (auto simp: res_simps split: option.splits if_splits)

lemma batch_credit_only:
  "batch_credit us s = Inr s' \<Longrightarrow> \<exists>p. s' = s\<lparr>st_pending_rewards := p\<rparr> \<and>
   ((\<forall>(m, x) \<in> set us. 0 < x) \<longrightarrow> (\<forall>a x. st_pending_rewards s a = Some x \<longrightarrow> 0 \<le> x) \<longrightarrow> (\<forall>a x. p a = Some x \<longrightarrow> 0 \<le> x))"
proof (induction us s rule: batch_credit.induct)
  case (1 s)
  then have "s' = s\<lparr>st_pending_rewards := st_pending_rewards s\<rparr>" by simp
  then show ?case by blast
next
  case (2 m x us s)
  let ?y = "get_or 0 (st_pending_rewards s m) + x"
  let ?s = "s\<lparr>st_pending_rewards := (st_pending_rewards s)(m \<mapsto> ?y)\<rparr>"
  from 2(2) have y: "safe_add (get_or 0 (st_pending_rewards s m)) x = (Inr ?y :: int st_res)" "batch_credit us ?s = Inr s'"
    by (auto simp: res_simps)
  from 2(1) [OF y(2)] obtain p where p: "s' = ?s\<lparr>st_pending_rewards := p\<rparr>"
    and nn: "(\<forall>(m, x) \<in> set us. 0 < x) \<longrightarrow> (\<forall>a x. st_pending_rewards ?s a = Some x \<longrightarrow> 0 \<le> x) \<longrightarrow> (\<forall>a x. p a = Some x \<longrightarrow> 0 \<le> x)"
    by blast
  have "\<forall>a z. p a = Some z \<longrightarrow> 0 \<le> z"
    if pos: "\<forall>(m, x) \<in> set ((m, x) # us). 0 < x" and old: "\<forall>a x. st_pending_rewards s a = Some x \<longrightarrow> 0 \<le> x"
  proof -
    have "0 \<le> get_or 0 (st_pending_rewards s m)" using old by (cases "st_pending_rewards s m") auto
    then have "\<forall>a x. st_pending_rewards ?s a = Some x \<longrightarrow> 0 \<le> x" using pos old by auto
    with nn pos show ?thesis by auto
  qed
  moreover have "s' = s\<lparr>st_pending_rewards := p\<rparr>" using p by simp
  ultimately show ?case by blast
qed

lemma batch_inv:
  assumes "distribute_revenue_batch tok a n m s = Inr s'" "st_inv s"
  shows "st_inv s'"
proof -
  consider "s' = s" | ks us where "batch_shares a (get_or 0 (st_total s)) ks s = Inr us" "batch_credit us s = Inr s'"
    using assms(1) by (auto simp: distribute_revenue_batch_def Let_def res_simps split: if_splits prod.splits)
  then show ?thesis
  proof cases
    case 2
    have old: "\<forall>a x. st_pending_rewards s a = Some x \<longrightarrow> 0 \<le> x"
      using assms(2) by (simp add: st_inv_def epochs_ok_def)
    from batch_credit_only [OF 2(2)] batch_shares_pos [OF 2(1)] old obtain p where
      "s' = s\<lparr>st_pending_rewards := p\<rparr>" "\<forall>a x. p a = Some x \<longrightarrow> 0 \<le> x" by blast
    then show ?thesis using assms(2) by (simp add: st_inv_def inv_parts unused_ok_def)
  qed (simp add: assms(2))
qed

end
