(* ===== verification/StakingSafety.thy ===== *)
theory StakingSafety
  imports StakingInv
begin

text \<open>
  Every call keeps the invariant of the staking contract, and what the invariant gives: closed epochs
  are final, a locked reward is created once and paid at most once.
\<close>

section \<open>Stakes\<close>

lemma stakers_ok_finite: "stakers_ok s \<Longrightarrow> finite (dom (st_stake s))"
  unfolding stakers_ok_def by (metis finite_set)

lemma stakers_okI:
  "st_legacy s = None \<Longrightarrow> stakers.holds s xs \<Longrightarrow> set xs = dom (st_stake s) \<Longrightarrow>
   get_or 0 (st_total s) = wsum sr_amount (st_stake s) \<Longrightarrow>
   (\<And>a r. st_stake s a = Some r \<Longrightarrow> stake_ok a r) \<Longrightarrow> stakers_ok s"
  unfolding stakers_ok_def by blast

lemma stakers_okD:
  assumes "stakers_ok s"
  shows "st_legacy s = None" "get_or 0 (st_total s) = wsum sr_amount (st_stake s)"
    "st_stake s a = Some r \<Longrightarrow> stake_ok a r" "finite (dom (st_stake s))"
  using assms stakers_ok_finite by (simp_all add: stakers_ok_def)

lemma stake_stakers:
  assumes "stake T P env m a d (s, w) = Inr (s', w')" "stakers_ok s"
  shows "stakers_ok s'"
proof -
  from assms(1) obtain tier g x y z l i u v where
    f: "st_stake s m = None" "0 < a" "a \<le> ST_MAX_FINANCIAL_AMOUNT" "14 \<le> d" "compute_tier P a m s = Inr tier"
    and s': "s' = s\<lparr>st_guard := g, st_stake := (st_stake s)(m \<mapsto> new_stake env m a d tier),
        st_slot := x, st_index := y, st_count := z, st_total := Some (get_or 0 (st_total s) + a),
        st_entry := (st_entry s)(m \<mapsto> get_or 0 (st_epoch s) + 1),
        st_next_claim := (st_next_claim s)(m \<mapsto> get_or 0 (st_epoch s) + 1),
        st_log := l, st_log_index := i, st_snap_index := u, st_next_snap := v\<rparr>"
    and h: "\<And>xs. stakers.holds s xs \<Longrightarrow> m \<notin> set xs \<Longrightarrow> stakers.holds s' (xs @ [m])"
    by (rule stake_Inr) blast
  obtain xs where xs: "stakers.holds s xs" "set xs = dom (st_stake s)" using assms(2) by (auto simp: stakers_ok_def)
  have "m \<notin> set xs" using xs(2) f(1) by auto
  note h [OF xs(1) this]
  moreover have "set (xs @ [m]) = dom (st_stake s')" using xs(2) by (simp add: s')
  moreover have "st_legacy s' = None" using stakers_okD(1) [OF assms(2)] by (simp add: s')
  moreover have "get_or 0 (st_total s') = wsum sr_amount (st_stake s')"
    using stakers_okD(2,4) [OF assms(2)] f(1) by (simp add: s' wsum_upd new_stake_def)
  moreover have "stake_ok m (new_stake env m a d tier)"
    using f(2-4) compute_tier_le [OF f(5)] by (simp add: stake_ok_def new_stake_def staking_consts)
  then have "\<And>b r. st_stake s' b = Some r \<Longrightarrow> stake_ok b r"
    using stakers_okD(3) [OF assms(2)] by (simp add: s' split: if_splits)
  ultimately show ?thesis by (intro stakers_okI) 
qed

lemma unstake_stakers:
  assumes "unstake T P env m (s, w) = Inr (s', w')" "stakers_ok s"
  shows "stakers_ok s'"
proof -
  from assms(1) obtain r s1 g p nc x y z l i u v g0 where
    f: "st_stake s m = Some r" "settle_epoch_rewards env m (s\<lparr>st_guard := g0\<rparr>) = Inr s1"
    and s': "s' = s1\<lparr>st_guard := g, st_penalty_pool := p,
       st_stake := (st_stake s)(m := None), st_entry := (st_entry s)(m := None),
       st_next_claim := nc, st_slot := x, st_index := y, st_count := z,
       st_total := Some (get_or 0 (st_total s) - sr_amount r),
       st_log := l, st_log_index := i, st_snap_index := u, st_next_snap := v\<rparr>"
    and h: "\<And>xs. stakers.holds s xs \<Longrightarrow> m \<in> set xs \<Longrightarrow> \<exists>ys. stakers.holds s' ys \<and> set ys = set xs - {m}"
    by (rule unstake_Inr) blast
  from f(2) have leg: "st_legacy s1 = st_legacy s" by (rule settle_epoch_rewards_Inr) simp
  obtain xs where xs: "stakers.holds s xs" "set xs = dom (st_stake s)" using assms(2) by (auto simp: stakers_ok_def)
  have "m \<in> set xs" using xs(2) f(1) by auto
  from h [OF xs(1) this] obtain ys where "stakers.holds s' ys" "set ys = dom (st_stake s')"
    using xs(2) by (auto simp: s')
  moreover have "get_or 0 (st_total s') = wsum sr_amount (st_stake s')"
    using stakers_okD(2,4) [OF assms(2)] f(1) by (simp add: s' wsum_del)
  moreover have "\<And>b r. st_stake s' b = Some r \<Longrightarrow> stake_ok b r"
    using stakers_okD(3) [OF assms(2)] by (simp add: s' split: if_splits)
  moreover have "st_legacy s' = None" using stakers_okD(1) [OF assms(2)] leg by (simp add: s')
  ultimately show ?thesis by (intro stakers_okI)
qed


section \<open>Settlement\<close>

lemma stake_share_exact:
  assumes "0 \<le> x" "x \<le> ST_MAX_FINANCIAL_AMOUNT" "0 \<le> r" "in_i128 r" "0 < d" "in_i128 d"
    and "as_u128 x * as_u128 r < 2 ^ 128" "0 < as_i128 (as_u128 x * as_u128 r div as_u128 d)"
  shows "as_i128 (as_u128 x * as_u128 r div as_u128 d) = x * r div d \<and> in_i128 (x * r div d)"
proof -
  have c: "as_u128 x = x" "as_u128 r = r" "as_u128 d = d"
    using assms(1-6) by (simp_all add: as_u128_def in_i128_def i128_max_def ST_MAX_FINANCIAL_AMOUNT_def)
  have xr: "0 \<le> x * r" "x * r < 2 ^ 128" using assms(1,3,7) by (simp_all add: c)
  have q: "0 \<le> x * r div d" using xr(1) assms(5) by (simp add: pos_imp_zdiv_nonneg_iff)
  have "x * r div d \<le> x * r div 1" using xr(1) assms(5) by (intro zdiv_mono2) auto
  with xr have q2: "x * r div d < 2 ^ 128" by simp
  have pos: "0 < as_i128 (x * r div d)" using assms(8) by (simp add: c)
  have "x * r div d < 2 ^ 127"
  proof (rule ccontr)
    assume big: "\<not> x * r div d < 2 ^ 127"
    define y where "y = x * r div d - 2 ^ 127"
    have y: "0 \<le> y" "y < 2 ^ 127" using big q2 by (simp_all add: y_def)
    have "as_i128 (x * r div d) = (y + 2 ^ 128) mod 2 ^ 128 - 2 ^ 127"
      unfolding as_i128_def y_def by (rule arg_cong [of _ _ "\<lambda>t. t mod 2 ^ 128 - 2 ^ 127"]) simp
    also have "\<dots> = y - 2 ^ 127" using y by (subst mod_add_self2) (simp add: mod_pos_pos_trivial)
    finally show False using pos y by simp
  qed
  with q have "in_i128 (x * r div d)" by (simp add: in_i128_def i128_min_def i128_max_def)
  then show ?thesis by (simp add: c as_i128_id)
qed

lemma epochs_okD:
  assumes "epochs_ok s"
  shows "(st_epoch_reward s e \<noteq> None) = (e < get_or 0 (st_epoch s))"
    "(st_epoch_eligible s e \<noteq> None) = (e < get_or 0 (st_epoch s))"
    "(st_epoch_total s e \<noteq> None) = (e < get_or 0 (st_epoch s))"
    "st_epoch_reward s e = Some r \<Longrightarrow> 0 \<le> r \<and> in_i128 r"
    "st_epoch_eligible s e = Some d \<Longrightarrow> 0 \<le> d \<and> in_i128 d"
    "st_epoch_stake s (e, a) = Some x \<Longrightarrow> e < get_or 0 (st_epoch s) \<and> 0 < x \<and> x \<le> ST_MAX_FINANCIAL_AMOUNT"
    "0 \<le> get_or 0 (st_penalty_pool s)"
    "st_pending_rewards s a = Some y \<Longrightarrow> 0 \<le> y"
  using assms unfolding epochs_ok_def by blast+

lemma settle_multiplier_bounds:
  "settle_multiplier t ms = 0 \<or> 10000 \<le> settle_multiplier t ms \<and> settle_multiplier t ms \<le> 30000"
  using reward_multiplier_bounds [of "t - sr_staked_at (the ms)"]
  by (cases ms) (auto simp: settle_multiplier_def REWARD_MULTIPLIER_MIN_BPS_def)

text \<open>One epoch either leaves the storage as it is, or adds the lockup of this epoch.\<close>

lemma settle_epoch_cases:
  assumes "settle_epoch env a ms e s = Inr s'" "epochs_ok s"
  obtains (Same) "s' = s"
  | (New) s1 l where "s1 = (if st_lockup s (a, e) = None then s1 else s)"
      "st_lockup s (a, e) = None \<Longrightarrow> add_pending_distribution (a, e) s = Inr s1"
      "s' = s1\<lparr>st_lockup := (st_lockup s1)((a, e) \<mapsto> l)\<rparr>" "lockup_fair s a e l" "\<not> rl_claimed l"
      "rl_unlocks_at l = sat_u64 (ledger_ts env + REWARD_LOCKUP_SECS)"
      "rl_multiplier l = settle_multiplier (ledger_ts env) ms"
proof -
  let ?m = "settle_multiplier (ledger_ts env) ms"
  from assms(1) consider "s' = s" | x d r base where "st_epoch_stake s (e, a) = Some x" "st_epoch_eligible s e = Some d"
      "st_epoch_reward s e = Some r" "0 < d" "0 < x" "0 < r" "as_u128 x * as_u128 r < 2 ^ 128"
      "base = as_i128 (as_u128 x * as_u128 r div as_u128 d)" "0 < base" "0 < ?m"
      "rbind (if st_lockup s (a, e) = None then add_pending_distribution (a, e) s else Inr s) (\<lambda>s.
         Inr (s\<lparr>st_lockup := (st_lockup s)((a, e) \<mapsto> \<lparr>rl_epoch = e, rl_base = base,
            rl_scaled = apply_bps_multiplier base ?m, rl_multiplier = ?m,
            rl_unlocks_at = sat_u64 (ledger_ts env + REWARD_LOCKUP_SECS), rl_claimed = False\<rparr>)\<rparr>)) = (Inr s' :: staking st_res)"
    by (auto simp: settle_epoch_def Let_def rbind_Inr arith_u128_Inr split: option.splits if_splits)
  then show thesis
  proof cases
    case 1
    then show thesis by (rule Same)
  next
    case (2 x d r base)
    have b: "0 \<le> x" "x \<le> ST_MAX_FINANCIAL_AMOUNT" "0 \<le> r" "in_i128 r" "0 < d" "in_i128 d"
      using epochs_okD(6) [OF assms(2) 2(1)] epochs_okD(4) [OF assms(2) 2(3)] epochs_okD(5) [OF assms(2) 2(2)] 2(4,5)
      by simp_all
    have base: "base = x * r div d" "in_i128 base"
      using stake_share_exact [OF b 2(7)] 2(8,9) by auto
    let ?l = "\<lparr>rl_epoch = e, rl_base = base, rl_scaled = apply_bps_multiplier base ?m, rl_multiplier = ?m,
            rl_unlocks_at = sat_u64 (ledger_ts env + REWARD_LOCKUP_SECS), rl_claimed = False\<rparr>"
    have fair: "lockup_fair s a e ?l"
      using 2(1-4,9,10) base settle_multiplier_bounds [of "ledger_ts env" ms] by (simp add: lockup_fair_def)
    from 2(11) obtain s1 where
      "(if st_lockup s (a, e) = None then add_pending_distribution (a, e) s else Inr s) = (Inr s1 :: staking st_res)"
      "s' = s1\<lparr>st_lockup := (st_lockup s1)((a, e) \<mapsto> ?l)\<rparr>"
      by (auto simp: rbind_Inr)
    then show thesis using fair by (intro New [of s1 ?l]) (auto split: if_splits)
  qed
qed

lemma lockup_fair_cong:
  "st_epoch_stake t = st_epoch_stake s \<Longrightarrow> st_epoch_reward t = st_epoch_reward s \<Longrightarrow>
   st_epoch_eligible t = st_epoch_eligible s \<Longrightarrow> lockup_fair t a e l = lockup_fair s a e l"
  by (simp add: lockup_fair_def)

lemma lockups_belowD:
  assumes "lockups_below bnd s" "st_lockup s (a, e) = Some l"
  shows "e < get_or 0 (st_epoch s)" "e < bnd a" "lockup_fair s a e l"
  using assms by (simp_all add: lockups_below_def)

lemma lockups_below_mono:
  assumes "lockups_below b s" "\<And>a. b a \<le> c a"
  shows "lockups_below c s"
proof -
  have "e < c a" if "st_lockup s (a, e) = Some l" for a e l
    using lockups_belowD(2) [OF assms(1) that] assms(2) [of a] by linarith
  with assms(1) show ?thesis unfolding lockups_below_def by blast
qed

lemma lockups_belowI:
  assumes "pend.holds s ps" "set ps = open_lockups s"
    "\<And>a e l. st_lockup s (a, e) = Some l \<Longrightarrow> e < get_or 0 (st_epoch s) \<and> e < bnd a \<and> lockup_fair s a e l"
  shows "lockups_below bnd s"
  using assms unfolding lockups_below_def by blast

lemma settle_epoch_below:
  assumes run: "settle_epoch env a ms e s = Inr s'" and ok: "epochs_ok s" and low: "lockups_below bnd s"
    and e: "bnd a \<le> e" "e < get_or 0 (st_epoch s)"
  shows "lockups_below (bnd(a := e + 1)) s'"
  using run ok
proof (cases rule: settle_epoch_cases)
  case Same
  then show ?thesis using lockups_below_mono [OF low, of "bnd(a := e + 1)"] e(1) by (simp add: fun_upd_def)
next
  case (New s1 l)
  have fresh: "st_lockup s (a, e) = None"
    using lockups_belowD(2) [OF low, of a e] e(1) by (cases "st_lockup s (a, e)") auto
  note add = New(2) [OF fresh]
  obtain ps where ps: "pend.holds s ps" "set ps = open_lockups s" using low by (auto simp: lockups_below_def)
  have "(a, e) \<notin> set ps" using fresh by (simp add: ps(2) open_lockups_def)
  from pend.ins_appends [OF ps(1) this add] have h: "pend.holds s1 (ps @ [(a, e)])" .
  obtain k x y z where
    "s1 = s\<lparr>st_lockup := k, st_pend_slot := x, st_pend_pos := y, st_pend_count := z\<rparr>"
    using add_pending_only [OF add] by (rule lockups_onlyE)
  moreover have "st_lockup s1 = st_lockup s"
    using add by (auto simp: add_pending_distribution_def Let_def res_simps)
  ultimately have s1: "s1 = s\<lparr>st_pend_slot := x, st_pend_pos := y, st_pend_count := z\<rparr>" by simp
  show ?thesis
  proof (rule lockups_belowI)
    show "pend.holds s' (ps @ [(a, e)])" using h by (simp add: New(3) pend_holds)
    show "set (ps @ [(a, e)]) = open_lockups s'"
      using ps(2) New(5) fresh by (auto simp: open_lockups_def New(3) s1)
  next
    fix a' e' l'
    assume l': "st_lockup s' (a', e') = Some l'"
    have fair: "lockup_fair s' a' e' l' = lockup_fair s a' e' l'"
      by (rule lockup_fair_cong) (simp_all add: New(3) s1)
    show "e' < get_or 0 (st_epoch s') \<and> e' < (bnd(a := e + 1)) a' \<and> lockup_fair s' a' e' l'"
    proof (cases "(a', e') = (a, e)")
      case True
      then have t: "a' = a" "e' = e" by simp_all
      have "l' = l" using l' by (simp add: New(3) t)
      then have "lockup_fair s' a' e' l'" unfolding fair using New(4) by (simp add: t)
      moreover have "st_epoch s' = st_epoch s" by (simp add: New(3) s1)
      ultimately show ?thesis using e by (simp add: t)
    next
      case False
      with l' have old: "st_lockup s (a', e') = Some l'" by (simp add: New(3) s1 split: if_splits)
      have "lockup_fair s' a' e' l'" unfolding fair by (rule lockups_belowD(3) [OF low old])
      moreover have "st_epoch s' = st_epoch s" by (simp add: New(3) s1)
      ultimately show ?thesis using lockups_belowD(1,2) [OF low old] e(1) by auto
    qed
  qed
qed

lemma epochs_ok_lockups: "lockups_only s s' \<Longrightarrow> epochs_ok s' = epochs_ok s"
  by (erule lockups_onlyE) (simp add: epochs_ok_def)

lemma settle_loop_below:
  assumes "settle_loop env a ms e n s = Inr s'"
  shows "epochs_ok s \<Longrightarrow> lockups_below bnd s \<Longrightarrow> bnd a \<le> e \<Longrightarrow> n \<le> get_or 0 (st_epoch s) \<Longrightarrow>
     lockups_below (bnd(a := max e n)) s'"
  using assms
proof (induction arbitrary: bnd rule: settle_loop_induct)
  case (Stop e s)
  then show ?case using lockups_below_mono [OF Stop(3), of "bnd(a := max e n)"] by (simp add: fun_upd_def)
next
  case (Step e s s1 s')
  note only = settle_epoch_only [OF Step(2)]
  have ep: "st_epoch s1 = st_epoch s" using only by (rule lockups_onlyE) simp
  define b1 where "b1 = bnd(a := e + 1)"
  have "lockups_below b1 s1"
    using settle_epoch_below [OF Step(2,5,6,7)] Step(1,8) by (simp add: b1_def)
  moreover have "epochs_ok s1" using Step(5) epochs_ok_lockups [OF only] by simp
  moreover have "b1 a \<le> e + 1" "n \<le> get_or 0 (st_epoch s1)" using Step(8) ep by (simp_all add: b1_def)
  ultimately have "lockups_below (b1(a := max (e + 1) n)) s'" by (intro Step(4))
  moreover have "b1(a := max (e + 1) n) = bnd(a := max e n)" using Step(1) by (simp add: b1_def)
  ultimately show ?case by (simp only:)
qed

lemma settle_range_bounds:
  assumes "settle_range a s = (nc, su, st, fin)"
  shows "settled_upto s a \<le> su" "su \<le> st" "nc \<le> st" "fin \<le> get_or 0 (st_epoch s)"
    "get_or (get_or 0 (st_epoch s)) (st_entry s a) \<le> st" "fin \<le> st + MAX_EPOCHS_PER_SETTLE"
proof -
  define en where "en = get_or (get_or 0 (st_epoch s)) (st_entry s a)"
  from assms have e: "nc = max (get_or en (st_next_claim s a)) en" "su = max (get_or en (st_settled s a)) en"
      "st = max nc su" "fin = min (get_or 0 (st_epoch s)) (sat_u64 (st + MAX_EPOCHS_PER_SETTLE))"
    unfolding settle_range_def Let_def en_def by auto
  show "su \<le> st" "nc \<le> st" "fin \<le> get_or 0 (st_epoch s)" by (simp_all add: e(3,4))
  show "get_or (get_or 0 (st_epoch s)) (st_entry s a) \<le> st"
    unfolding en_def [symmetric] using e(1,3) by simp
  show "fin \<le> st + MAX_EPOCHS_PER_SETTLE" by (simp add: e(4) sat_u64_def)
  show "settled_upto s a \<le> su" by (cases "st_settled s a") (simp_all add: settled_upto_def e(2))
qed

lemma settle_inv:
  assumes "settle_epoch_rewards env a s = Inr s'" "epochs_ok s" "lockups_ok s"
  shows "epochs_ok s' \<and> lockups_ok s'"
  using assms(1)
proof (rule settle_epoch_rewards_Inr)
  fix nc su st fin k x y z s1
  assume r: "settle_range a s = (nc, su, st, fin)" and run: "settle_loop env a (st_stake s a) st fin s = Inr s1"
    and s1: "s1 = s\<lparr>st_lockup := k, st_pend_slot := x, st_pend_pos := y, st_pend_count := z\<rparr>"
    and s': "s' = s1\<lparr>st_settled := (if su < max st fin then (st_settled s)(a \<mapsto> max st fin) else st_settled s),
            st_next_claim := (if nc < max st fin then (st_next_claim s)(a \<mapsto> max st fin) else st_next_claim s)\<rparr>"
  note b = settle_range_bounds [OF r]
  have "lockups_below (settled_upto s') s1"
  proof (cases "su < max st fin")
    case True
    have "lockups_below ((settled_upto s)(a := max st fin)) s1"
      using settle_loop_below [OF run assms(2,3)] b(1,2,4) by simp
    moreover have "settled_upto s' = (settled_upto s)(a := max st fin)"
      using True by (auto simp: settled_upto_def s' s1)
    ultimately show ?thesis by simp
  next
    case False
    then have "st = su" "fin \<le> st" using b(2) by auto
    then have "s1 = s" using run by (simp add: settle_loop_step)
    then show ?thesis using assms(3) False by (simp add: s' settled_upto_def [abs_def])
  qed
  then have "lockups_ok s'" by (simp add: lockups_below_def open_lockups_def pend_holds lockup_fair_def s')
  moreover have "epochs_ok s'" using assms(2) by (simp add: epochs_ok_def s' s1)
  ultimately show ?thesis by simp
qed

end
