(* ===== verification/StakingReach.thy ===== *)
theory StakingReach
  imports StakingSafety
begin

text \<open>
  Claims and distributions keep the invariant as well, so it holds in every reachable state; what a
  claim takes and what a distribution records, in closed form.
\<close>

section \<open>What a claim takes\<close>

definition lockup_due :: "nat \<Rightarrow> reward_lockup \<Rightarrow> bool" where
  "lockup_due now l \<longleftrightarrow> \<not> rl_claimed l \<and> rl_unlocks_at l \<le> now \<and> 0 < rl_scaled l"

text \<open>The epochs a claim looks at: the first hundred of those listed that have a lockup, paid or not.\<close>

definition claim_window :: "nat \<Rightarrow> (addr \<times> nat \<rightharpoonup> reward_lockup) \<Rightarrow> addr \<Rightarrow> nat list \<Rightarrow> nat list" where
  "claim_window k lk a es = take k (filter (\<lambda>e. lk (a, e) \<noteq> None) es)"

definition claim_due :: "nat \<Rightarrow> nat \<Rightarrow> (addr \<times> nat \<rightharpoonup> reward_lockup) \<Rightarrow> addr \<Rightarrow> nat list \<Rightarrow> nat list" where
  "claim_due now k lk a es = filter (\<lambda>e. lockup_due now (the (lk (a, e)))) (claim_window k lk a es)"

definition mark_claimed :: "addr \<Rightarrow> nat set \<Rightarrow> (addr \<times> nat \<rightharpoonup> reward_lockup) \<Rightarrow> addr \<times> nat \<rightharpoonup> reward_lockup" where
  "mark_claimed a ds lk = (\<lambda>(b, e). if b = a \<and> e \<in> ds then map_option (rl_claimed_update (\<lambda>_. True)) (lk (b, e)) else lk (b, e))"

definition lockup_sum :: "(addr \<times> nat \<rightharpoonup> reward_lockup) \<Rightarrow> addr \<Rightarrow> nat list \<Rightarrow> int" where
  "lockup_sum lk a es = sum_list (map (\<lambda>e. rl_scaled (the (lk (a, e)))) es)"

lemma claim_due_subset: "set (claim_due now k lk a es) \<subseteq> set es"
  using set_take_subset by (fastforce simp: claim_due_def claim_window_def)

lemma claim_due_some: "e \<in> set (claim_due now k lk a es) \<Longrightarrow> \<exists>l. lk (a, e) = Some l \<and> lockup_due now l"
proof -
  assume "e \<in> set (claim_due now k lk a es)"
  then have "lockup_due now (the (lk (a, e)))" "e \<in> set (take k (filter (\<lambda>e. lk (a, e) \<noteq> None) es))"
    by (simp_all add: claim_due_def claim_window_def)
  moreover from in_set_takeD [OF this(2)] have "lk (a, e) \<noteq> None" by simp
  ultimately show ?thesis by auto
qed

lemma claim_window_subset: "set (claim_window k lk a es) \<subseteq> set es"
  using set_take_subset by (fastforce simp: claim_window_def)

lemma claim_due_cong:
  assumes "\<And>e. e \<in> set es \<Longrightarrow> lk' (a, e) = lk (a, e)"
  shows "claim_due now k lk' a es = claim_due now k lk a es"
    "lockup_sum lk' a (claim_due now k lk a es) = lockup_sum lk a (claim_due now k lk a es)"
proof -
  have "filter (\<lambda>e. lk' (a, e) \<noteq> None) es = filter (\<lambda>e. lk (a, e) \<noteq> None) es"
    by (rule filter_cong) (simp_all add: assms)
  then have w: "claim_window k lk' a es = claim_window k lk a es" by (simp add: claim_window_def)
  have "x \<in> set es" if "x \<in> set (claim_window k lk a es)" for x
    using that claim_window_subset by blast
  then show "claim_due now k lk' a es = claim_due now k lk a es"
    unfolding claim_due_def w by (intro filter_cong refl) (simp add: assms)
  have "x \<in> set es" if "x \<in> set (claim_due now k lk a es)" for x
    using that claim_due_subset by blast
  then show "lockup_sum lk' a (claim_due now k lk a es) = lockup_sum lk a (claim_due now k lk a es)"
    unfolding lockup_sum_def by (intro arg_cong [of _ _ sum_list] map_cong refl) (simp add: assms)
qed

lemma claim_due_Cons:
  "claim_due now k lk a (e # es) =
   (case lk (a, e) of None \<Rightarrow> claim_due now k lk a es
    | Some l \<Rightarrow> if k = 0 then [] else if lockup_due now l then e # claim_due now (k - 1) lk a es else claim_due now (k - 1) lk a es)"
  by (cases k) (auto simp: claim_due_def claim_window_def split: option.splits)

lemma claim_due_0 [simp]: "claim_due now 0 lk a es = []" "claim_due now k lk a [] = []"
  by (simp_all add: claim_due_def claim_window_def)

lemma mark_claimed_empty [simp]: "mark_claimed a {} lk = lk"
  by (simp add: mark_claimed_def)

lemma mark_claimed_insert:
  "lk (a, e) = Some l \<Longrightarrow> e \<notin> ds \<Longrightarrow>
   mark_claimed a ds (lk((a, e) \<mapsto> l\<lparr>rl_claimed := True\<rparr>)) = mark_claimed a (insert e ds) lk"
  by (rule ext) (auto simp: mark_claimed_def)

text \<open>One payment: the lockup is marked and leaves the queue of pending ones.\<close>

definition take_lockup :: "addr \<Rightarrow> nat \<Rightarrow> reward_lockup \<Rightarrow> staking \<Rightarrow> staking" where
  "take_lockup a e l s = remove_pending_distribution (a, e) (s\<lparr>st_lockup := (st_lockup s)((a, e) \<mapsto> l\<lparr>rl_claimed := True\<rparr>)\<rparr>)"

lemma take_lockup_frame:
  obtains x y z where "take_lockup a e l s = s\<lparr>st_lockup := (st_lockup s)((a, e) \<mapsto> l\<lparr>rl_claimed := True\<rparr>),
    st_pend_slot := x, st_pend_pos := y, st_pend_count := z\<rparr>"
proof -
  have "take_lockup a e l s = (let t = take_lockup a e l s in s\<lparr>st_lockup := (st_lockup s)((a, e) \<mapsto> l\<lparr>rl_claimed := True\<rparr>),
    st_pend_slot := st_pend_slot t, st_pend_pos := st_pend_pos t, st_pend_count := st_pend_count t\<rparr>)"
    unfolding Let_def by (subst remove_pending_frame [OF take_lockup_def]) simp
  then show thesis unfolding Let_def by (rule that)
qed

lemma lockup_fair_claimed [simp]: "lockup_fair s a e (l\<lparr>rl_claimed := b\<rparr>) = lockup_fair s a e l"
  by (simp add: lockup_fair_def)

lemma take_lockup_below:
  assumes low: "lockups_below bnd s" and l: "st_lockup s (a, e) = Some l" "\<not> rl_claimed l"
  shows "lockups_below bnd (take_lockup a e l s)"
proof -
  let ?s = "s\<lparr>st_lockup := (st_lockup s)((a, e) \<mapsto> l\<lparr>rl_claimed := True\<rparr>)\<rparr>" and ?t = "take_lockup a e l s"
  obtain x y z where t: "?t = ?s\<lparr>st_pend_slot := x, st_pend_pos := y, st_pend_count := z\<rparr>"
    by (rule take_lockup_frame [of a e l s]) simp
  obtain ps where ps: "pend.holds s ps" "set ps = open_lockups s" using low by (auto simp: lockups_below_def)
  have "pend.holds ?s ps" "(a, e) \<in> set ps" using ps l by (simp_all add: pend_holds open_lockups_def)
  from pend.del_set [OF this] obtain qs where qs: "pend.holds ?t qs" "set qs = set ps - {(a, e)}"
    by (auto simp: take_lockup_def)
  show ?thesis
  proof (rule lockups_belowI [OF qs(1)])
    show "set qs = open_lockups ?t" unfolding qs(2) ps(2) by (auto simp: open_lockups_def t split: if_splits)
  next
    fix b f k
    assume k: "st_lockup ?t (b, f) = Some k"
    have fair: "lockup_fair ?t b f k = lockup_fair s b f k" by (rule lockup_fair_cong) (simp_all add: t)
    have ep: "st_epoch ?t = st_epoch s" by (simp add: t)
    show "f < get_or 0 (st_epoch ?t) \<and> f < bnd b \<and> lockup_fair ?t b f k"
    proof (cases "(b, f) = (a, e)")
      case True
      then have "k = l\<lparr>rl_claimed := True\<rparr>" using k by (simp add: t)
      then show ?thesis unfolding fair ep using lockups_belowD [OF low l(1)] True by simp
    next
      case False
      then have "st_lockup s (b, f) = Some k" using k by (simp add: t split: if_splits)
      from lockups_belowD [OF low this] show ?thesis unfolding fair ep by simp
    qed
  qed
qed

text \<open>The scan pays the due lockups of its window, and marks exactly these.\<close>

lemma claim_scan_exact:
  assumes "claim_scan now a es c x s = Inr (y, s')" "distinct es" "lockups_below bnd s"
  shows "y = x + lockup_sum (st_lockup s) a (claim_due now (MAX_LOCKUPS_PER_CLAIM - c) (st_lockup s) a es) \<and>
     st_lockup s' = mark_claimed a (set (claim_due now (MAX_LOCKUPS_PER_CLAIM - c) (st_lockup s) a es)) (st_lockup s) \<and>
     lockups_below bnd s'"
  using assms
proof (induction es arbitrary: c x s)
  case Nil
  then show ?case by (simp add: lockup_sum_def)
next
  case (Cons e es)
  let ?k = "MAX_LOCKUPS_PER_CLAIM - c"
  show ?case
  proof (cases "MAX_LOCKUPS_PER_CLAIM \<le> c")
    case True
    then show ?thesis using Cons.prems by (simp add: lockup_sum_def)
  next
    case False
    then have k: "?k \<noteq> 0" "?k - 1 = MAX_LOCKUPS_PER_CLAIM - (c + 1)" by simp_all
    show ?thesis
    proof (cases "st_lockup s (a, e)")
      case None
      then have "claim_scan now a es c x s = Inr (y, s')" using Cons.prems(1) False by simp
      from Cons.IH [OF this] Cons.prems(2,3) None show ?thesis by (simp add: claim_due_Cons)
    next
      case (Some l)
      show ?thesis
      proof (cases "lockup_due now l")
        case False
        then have "claim_scan now a es (c + 1) x s = Inr (y, s')"
          using Cons.prems(1) \<open>\<not> MAX_LOCKUPS_PER_CLAIM \<le> c\<close> Some by (auto simp: lockup_due_def)
        from Cons.IH [OF this] Cons.prems(2,3) Some False k show ?thesis by (simp add: claim_due_Cons)
      next
        case True
        let ?t = "take_lockup a e l s"
        have run: "claim_scan now a es (c + 1) (x + rl_scaled l) ?t = Inr (y, s')"
          using Cons.prems(1) \<open>\<not> MAX_LOCKUPS_PER_CLAIM \<le> c\<close> Some True
          by (auto simp: lockup_due_def take_lockup_def res_simps)
        have low: "lockups_below bnd ?t"
          using take_lockup_below [OF Cons.prems(3) Some] True by (simp add: lockup_due_def)
        have lk: "st_lockup ?t = (st_lockup s)((a, e) \<mapsto> l\<lparr>rl_claimed := True\<rparr>)"
          by (rule take_lockup_frame [of a e l s]) simp
        have e: "e \<notin> set es" "distinct es" using Cons.prems(2) by auto
        define lk' where "lk' = st_lockup ?t"
        have same: "lk' (a, f) = st_lockup s (a, f)" if "f \<in> set es" for f
          using that e(1) by (auto simp: lk lk'_def)
        define ds where "ds = claim_due now (MAX_LOCKUPS_PER_CLAIM - (c + 1)) (st_lockup s) a es"
        have due: "claim_due now ?k (st_lockup s) a (e # es) = e # ds"
          using Some True k by (simp add: claim_due_Cons ds_def)
        have "e \<notin> set ds" using claim_due_subset e(1) unfolding ds_def by blast
        have cong: "claim_due now (MAX_LOCKUPS_PER_CLAIM - (c + 1)) lk' a es = ds" "lockup_sum lk' a ds = lockup_sum (st_lockup s) a ds"
          using claim_due_cong [of es lk' a "st_lockup s", OF same] by (simp_all add: ds_def lk'_def)
        have mark: "mark_claimed a (set ds) lk' = mark_claimed a (insert e (set ds)) (st_lockup s)"
          unfolding lk'_def lk by (rule mark_claimed_insert [of "st_lockup s", OF Some \<open>e \<notin> set ds\<close>])
        have "y = x + rl_scaled l + lockup_sum (st_lockup s) a ds"
          "st_lockup s' = mark_claimed a (insert e (set ds)) (st_lockup s)" "lockups_below bnd s'"
          using Cons.IH [OF run e(2) low] unfolding lk'_def [symmetric] cong mark by blast+
        then show ?thesis unfolding due using Some by (simp add: lockup_sum_def)
      qed
    qed
  qed
qed

section \<open>What a distribution records\<close>

definition mature :: "nat \<Rightarrow> stake_record \<Rightarrow> bool" where
  "mature now r \<longleftrightarrow> MIN_STAKING_DURATION_SECS \<le> now - sr_staked_at r"

definition mature_amount :: "nat \<Rightarrow> stake_record \<Rightarrow> int" where
  "mature_amount now r = (if mature now r then sr_amount r else 0)"

definition eligible_stake :: "nat \<Rightarrow> staking \<Rightarrow> int" where
  "eligible_stake now s = wsum (mature_amount now) (st_stake s)"

text \<open>The stakes an epoch records: those of the live stakers when it closes.\<close>

definition record_stakes :: "nat \<Rightarrow> addr set \<Rightarrow> (addr \<rightharpoonup> stake_record) \<Rightarrow> (nat \<times> addr \<rightharpoonup> int) \<Rightarrow> nat \<times> addr \<rightharpoonup> int" where
  "record_stakes e as m q = (\<lambda>(f, b). if f = e \<and> b \<in> as then map_option sr_amount (m b) else q (f, b))"

lemma snapshot_loop_exact:
  assumes "snapshot_loop t e ks (x, s) = Inr (y, s')" "in_i128 x"
    "\<And>i. i \<in> set ks \<Longrightarrow> st_slot s i = Some (f i) \<and> f i \<in> dom (st_stake s)"
  shows "y = x + sum_list (map (\<lambda>i. mature_amount t (the (st_stake s (f i)))) ks) \<and>
     in_i128 y \<and> s' = s\<lparr>st_epoch_stake := record_stakes e (f ` set ks) (st_stake s) (st_epoch_stake s)\<rparr>"
  using assms
proof (induction ks arbitrary: x s)
  case Nil
  then show ?case by (simp add: record_stakes_def)
next
  case (Cons k ks)
  obtain r where r: "st_slot s k = Some (f k)" "st_stake s (f k) = Some r" using Cons.prems(3) [of k] by auto
  define s1 where "s1 = s\<lparr>st_epoch_stake := (st_epoch_stake s)((e, f k) \<mapsto> sr_amount r)\<rparr>"
  define x1 where "x1 = x + mature_amount t r"
  have run: "snapshot_loop t e ks (x1, s1) = Inr (y, s')" and x1: "in_i128 x1"
    using Cons.prems(1,2) r
    by (auto simp: snapshot_slot_def res_simps s1_def x1_def mature_amount_def mature_def in_i128_def split: if_splits)
  have same: "st_stake s1 = st_stake s" by (simp add: s1_def)
  have "st_slot s1 i = Some (f i) \<and> f i \<in> dom (st_stake s1)" if "i \<in> set ks" for i
    using Cons.prems(3) [of i] that by (simp add: s1_def)
  note ih = Cons.IH [OF run x1 this, unfolded same]
  have rec: "record_stakes e (f ` set ks) (st_stake s) (st_epoch_stake s1) =
      record_stakes e (f ` set (k # ks)) (st_stake s) (st_epoch_stake s)"
    by (rule ext) (use r in \<open>auto simp: record_stakes_def s1_def\<close>)
  have "s' = s\<lparr>st_epoch_stake := record_stakes e (f ` set (k # ks)) (st_stake s) (st_epoch_stake s)\<rparr>"
    using conjunct2 [OF conjunct2 [OF ih]] unfolding rec by (simp add: s1_def)
  moreover have "y = x + sum_list (map (\<lambda>i. mature_amount t (the (st_stake s (f i)))) (k # ks))"
    using conjunct1 [OF ih] r(2) by (simp add: x1_def)
  ultimately show ?case using ih by blast
qed

lemma sum_list_wsum:
  assumes "distinct xs" "set xs = dom m"
  shows "sum_list (map (\<lambda>a. g (the (m a))) xs) = wsum g m"
  using assms by (simp add: sum_list_distinct_conv_sum_set wsum_def)

text \<open>A distribution closes one epoch and leaves the earlier ones as they are.\<close>

lemma distribute_exact:
  assumes "internal_distribute_revenue env amount s = Inr s'" "stakers_ok s"
  shows "in_i128 (amount + get_or 0 (st_penalty_pool s)) \<and> in_i128 (eligible_stake (ledger_ts env) s) \<and>
     s' = s\<lparr>st_epoch_stake := record_stakes (get_or 0 (st_epoch s)) (dom (st_stake s)) (st_stake s) (st_epoch_stake s),
       st_epoch_total := (st_epoch_total s)(get_or 0 (st_epoch s) \<mapsto> get_or 0 (st_total s)),
       st_epoch_eligible := (st_epoch_eligible s)(get_or 0 (st_epoch s) \<mapsto> eligible_stake (ledger_ts env) s),
       st_penalty_pool := (if 0 < get_or 0 (st_penalty_pool s) then Some 0 else st_penalty_pool s),
       st_epoch_reward := (st_epoch_reward s)(get_or 0 (st_epoch s) \<mapsto> amount + get_or 0 (st_penalty_pool s)),
       st_epoch := Some (get_or 0 (st_epoch s) + 1), st_next_dist := None\<rparr>"
  using assms(1)
proof (rule internal_distribute_Inr)
  fix el q
  assume run: "snapshot_loop (ledger_ts env) (get_or 0 (st_epoch s)) [0..<get_or 0 (st_count s)] (0, s) =
       (Inr (el, s\<lparr>st_epoch_stake := q\<rparr>) :: (int \<times> staking) st_res)"
    and comb: "in_i128 (amount + get_or 0 (st_penalty_pool s))"
    and s': "s' = s\<lparr>st_epoch_stake := q,
       st_epoch_total := (st_epoch_total s)(get_or 0 (st_epoch s) \<mapsto> get_or 0 (st_total s)),
       st_epoch_eligible := (st_epoch_eligible s)(get_or 0 (st_epoch s) \<mapsto> el),
       st_penalty_pool := (if 0 < get_or 0 (st_penalty_pool s) then Some 0 else st_penalty_pool s),
       st_epoch_reward := (st_epoch_reward s)(get_or 0 (st_epoch s) \<mapsto> amount + get_or 0 (st_penalty_pool s)),
       st_epoch := Some (get_or 0 (st_epoch s) + 1), st_next_dist := None\<rparr>"
  let ?e = "get_or 0 (st_epoch s)" and ?n = "get_or 0 (st_count s)"
  obtain xs where xs: "stakers.holds s xs" "set xs = dom (st_stake s)" using assms(2) by (auto simp: stakers_ok_def)
  note rep = xs(1) [unfolded stakers_holds]
  have n: "?n = length xs" "distinct xs" using dense_repD(1,2) [OF rep] by simp_all
  have slot: "st_slot s i = Some (xs ! i) \<and> xs ! i \<in> dom (st_stake s)" if "i \<in> set [0..<?n]" for i
    using that dense_repD(3) [OF rep] xs(2) nth_mem [of i xs] by (simp add: n)
  have img: "(\<lambda>i. xs ! i) ` set [0..<?n] = dom (st_stake s)"
    unfolding xs(2) [symmetric] by (auto simp: n in_set_conv_nth)
  have mp: "map (\<lambda>i. g (xs ! i)) [0..<?n] = map g xs" for g :: "addr \<Rightarrow> int"
    by (rule nth_equalityI) (simp_all add: n)
  have z: "in_i128 0" by (simp add: in_i128_def i128_min_def i128_max_def)
  note ex = snapshot_loop_exact [of _ _ _ _ s _ _ "\<lambda>i. xs ! i", OF run z slot]
  have el: "el = eligible_stake (ledger_ts env) s" "in_i128 el"
    using conjunct1 [OF ex] conjunct1 [OF conjunct2 [OF ex]] sum_list_wsum [OF n(2) xs(2), of "mature_amount (ledger_ts env)"]
    unfolding mp [of "\<lambda>a. mature_amount (ledger_ts env) (the (st_stake s a))"]
    by (simp_all add: eligible_stake_def)
  have "s\<lparr>st_epoch_stake := q\<rparr> = s\<lparr>st_epoch_stake := record_stakes ?e (dom (st_stake s)) (st_stake s) (st_epoch_stake s)\<rparr>"
    using conjunct2 [OF conjunct2 [OF ex]] unfolding img .
  from arg_cong [OF this, of st_epoch_stake] have q: "q = record_stakes ?e (dom (st_stake s)) (st_stake s) (st_epoch_stake s)"
    by simp
  show ?thesis using comb el(2) s' unfolding el(1) q by (intro conjI)
qed

section \<open>Each call keeps the invariant\<close>

lemma st_invI: "stakers_ok s \<Longrightarrow> logs_ok s \<Longrightarrow> epochs_ok s \<Longrightarrow> lockups_ok s \<Longrightarrow> unused_ok s \<Longrightarrow> st_inv s"
  by (simp add: st_inv_def)

lemma st_invD: "st_inv s \<Longrightarrow> stakers_ok s" "st_inv s \<Longrightarrow> logs_ok s" "st_inv s \<Longrightarrow> epochs_ok s"
    "st_inv s \<Longrightarrow> lockups_ok s" "st_inv s \<Longrightarrow> unused_ok s"
  by (simp_all add: st_inv_def)

text \<open>Each part of the invariant looks at its own fields.\<close>

lemma stakers_ok_cong:
  "st_legacy t = st_legacy s \<Longrightarrow> st_slot t = st_slot s \<Longrightarrow> st_index t = st_index s \<Longrightarrow> st_count t = st_count s \<Longrightarrow>
   st_stake t = st_stake s \<Longrightarrow> st_total t = st_total s \<Longrightarrow> stakers_ok t = stakers_ok s"
  by (simp add: stakers_ok_def stakers_holds)

lemma epochs_ok_cong:
  "st_epoch t = st_epoch s \<Longrightarrow> st_epoch_reward t = st_epoch_reward s \<Longrightarrow> st_epoch_eligible t = st_epoch_eligible s \<Longrightarrow>
   st_epoch_total t = st_epoch_total s \<Longrightarrow> st_epoch_stake t = st_epoch_stake s \<Longrightarrow>
   0 \<le> get_or 0 (st_penalty_pool t) \<Longrightarrow> (\<And>a x. st_pending_rewards t a = Some x \<Longrightarrow> 0 \<le> x) \<Longrightarrow>
   epochs_ok s \<Longrightarrow> epochs_ok t"
  by (simp add: epochs_ok_def)

lemma lockups_below_cong:
  "st_epoch t = st_epoch s \<Longrightarrow> st_epoch_reward t = st_epoch_reward s \<Longrightarrow> st_epoch_eligible t = st_epoch_eligible s \<Longrightarrow>
   st_epoch_stake t = st_epoch_stake s \<Longrightarrow> st_lockup t = st_lockup s \<Longrightarrow> st_pend_slot t = st_pend_slot s \<Longrightarrow>
   st_pend_pos t = st_pend_pos s \<Longrightarrow> st_pend_count t = st_pend_count s \<Longrightarrow> lockups_below bnd t = lockups_below bnd s"
  by (simp add: lockups_below_def pend_holds open_lockups_def lockup_fair_def)

lemma unused_ok_cong:
  "st_next_dist_p t = st_next_dist_p s \<Longrightarrow> st_exits t = st_exits s \<Longrightarrow> st_collusion t = st_collusion s \<Longrightarrow>
   st_snap t = st_snap s \<Longrightarrow> unused_ok t = unused_ok s"
  by (simp add: unused_ok_def)

lemma settled_upto_cong: "st_settled t = st_settled s \<Longrightarrow> settled_upto t = settled_upto s"
  by (simp add: settled_upto_def [abs_def])

lemma stake_inv:
  assumes "stake T P env m a d (s, w) = Inr (s', w')" "st_inv s"
  shows "st_inv s'"
proof -
  from assms(1) obtain tier g x y z l i u v where
    s': "s' = s\<lparr>st_guard := g, st_stake := (st_stake s)(m \<mapsto> new_stake env m a d tier),
        st_slot := x, st_index := y, st_count := z, st_total := Some (get_or 0 (st_total s) + a),
        st_entry := (st_entry s)(m \<mapsto> get_or 0 (st_epoch s) + 1),
        st_next_claim := (st_next_claim s)(m \<mapsto> get_or 0 (st_epoch s) + 1),
        st_log := l, st_log_index := i, st_snap_index := u, st_next_snap := v\<rparr>"
    and lg: "logs_ok s \<Longrightarrow> logs_ok s'"
    by (rule stake_Inr) blast
  note p = st_invD [OF assms(2)]
  have "epochs_ok s'" by (rule epochs_ok_cong [OF _ _ _ _ _ _ _ p(3)])
      (use epochs_okD(7,8) [OF p(3)] in \<open>simp_all add: s'\<close>)
  moreover have "lockups_below (settled_upto s') s'"
    using p(4) lockups_below_cong [of s' s] settled_upto_cong [of s' s] by (simp add: s')
  moreover have "unused_ok s'" using p(5) unused_ok_cong [of s' s] by (simp add: s')
  ultimately show ?thesis using stake_stakers [OF assms(1) p(1)] lg [OF p(2)] by (intro st_invI)
qed

lemma guard_inv: "epochs_ok s \<Longrightarrow> epochs_ok (s\<lparr>st_guard := g\<rparr>)" "lockups_ok s \<Longrightarrow> lockups_ok (s\<lparr>st_guard := g\<rparr>)"
  using epochs_okD(7,8) [of s] epochs_ok_cong [of "s\<lparr>st_guard := g\<rparr>" s]
    lockups_below_cong [of "s\<lparr>st_guard := g\<rparr>" s] settled_upto_cong [of "s\<lparr>st_guard := g\<rparr>" s] by simp_all

lemma unstake_inv:
  assumes "unstake T P env m (s, w) = Inr (s', w')" "st_inv s"
  shows "st_inv s'"
proof -
  from assms(1) obtain g0 s1 g x y z l i u v and r :: stake_record and pen :: penalty_calc where
    se: "settle_epoch_rewards env m (s\<lparr>st_guard := g0\<rparr>) = Inr s1"
    and s': "s' = s1\<lparr>st_guard := g,
       st_penalty_pool := (if 0 < pc_penalty pen then Some (get_or 0 (st_penalty_pool s) + pc_penalty pen)
                           else st_penalty_pool s),
       st_stake := (st_stake s)(m := None), st_entry := (st_entry s)(m := None),
       st_next_claim := (st_next_claim s1)(m := None), st_slot := x, st_index := y, st_count := z,
       st_total := Some (get_or 0 (st_total s) - sr_amount r),
       st_log := l, st_log_index := i, st_snap_index := u, st_next_snap := v\<rparr>"
    and lg: "logs_ok s \<Longrightarrow> logs_ok s'"
    by (rule unstake_Inr) blast
  note p = st_invD [OF assms(2)]
  have s1: "epochs_ok s1 \<and> lockups_ok s1"
    by (rule settle_inv [OF se]) (simp_all add: guard_inv p)
  have un: "unused_ok s1 = unused_ok s" using se
    by (rule settle_epoch_rewards_Inr) (rule unused_ok_cong, simp_all)
  have "epochs_ok s'" by (rule epochs_ok_cong [OF _ _ _ _ _ _ _ conjunct1 [OF s1]])
      (use epochs_okD(7) [OF p(3)] epochs_okD(8) [OF conjunct1 [OF s1]] in \<open>simp_all add: s'\<close>)
  moreover have "lockups_below (settled_upto s') s'"
    using s1 lockups_below_cong [of s' s1] settled_upto_cong [of s' s1] by (simp add: s')
  moreover have "unused_ok s'" using p(5) un unused_ok_cong [of s' s1] by (simp add: s')
  ultimately show ?thesis using unstake_stakers [OF assms(1) p(1)] lg [OF p(2)] by (intro st_invI)
qed

lemma claim_inv:
  assumes "claim_rewards T P env a tok (s, w) = Inr (s', w')" "st_inv s"
  shows "st_inv s'"
proof -
  from assms(1) obtain g0 s1 x s2 pr g l i u v where
    se: "settle_epoch_rewards env a (s\<lparr>st_guard := g0\<rparr>) = Inr s1"
    and sc: "claim_scan (ledger_ts env) a [0..<get_or 0 (st_epoch s)] 0 0 s1 = Inr (x, s2)"
    and pr: "pr = (if 0 < get_or 0 (st_pending_rewards s a) then (st_pending_rewards s)(a := None) else st_pending_rewards s)"
    and s': "s' = s2\<lparr>st_guard := g, st_pending_rewards := pr, st_log := l, st_log_index := i,
       st_snap_index := u, st_next_snap := v\<rparr>"
    and lg: "logs_ok s \<Longrightarrow> logs_ok s'"
    by (rule claim_Inr) blast
  note p = st_invD [OF assms(2)]
  have s1: "epochs_ok s1" "lockups_ok s1"
    using settle_inv [OF se] by (simp_all add: guard_inv p)
  from se obtain k px py pz sp nc where
    e1: "s1 = s\<lparr>st_guard := g0, st_lockup := k, st_pend_slot := px, st_pend_pos := py, st_pend_count := pz,
        st_settled := sp, st_next_claim := nc\<rparr>"
    by (rule settle_epoch_rewards_Inr) simp
  from claim_scan_only [OF sc] obtain k' px' py' pz' where
    e2: "s2 = s1\<lparr>st_lockup := k', st_pend_slot := px', st_pend_pos := py', st_pend_count := pz'\<rparr>"
    by (rule lockups_onlyE)
  have low: "lockups_below (settled_upto s1) s2" using claim_scan_exact [OF sc _ s1(2)] by simp
  have "epochs_ok s'" by (rule epochs_ok_cong [OF _ _ _ _ _ _ _ s1(1)])
      (use epochs_okD(7,8) [OF p(3)] in \<open>simp_all add: s' e2 e1 pr split: if_splits\<close>)
  moreover have "lockups_below (settled_upto s') s'"
    using low lockups_below_cong [of s' s2] settled_upto_cong [of s' s1] by (simp add: s' e2)
  moreover have "unused_ok s'" using p(5) unused_ok_cong [of s' s] by (simp add: s' e2 e1)
  moreover have "stakers_ok s'" using p(1) stakers_ok_cong [of s' s] by (simp add: s' e2 e1)
  ultimately show ?thesis using lg [OF p(2)] by (intro st_invI)
qed

text \<open>A distribution closes the current epoch: its data is written once, earlier epochs keep theirs.\<close>

lemma distribute_inv:
  assumes "internal_distribute_revenue env amount s = Inr s'" "0 \<le> amount" "st_inv s"
  shows "st_inv s'"
proof -
  note p = st_invD [OF assms(3)]
  let ?e = "get_or 0 (st_epoch s)"
  note ex = distribute_exact [OF assms(1) p(1)]
  have comb: "in_i128 (amount + get_or 0 (st_penalty_pool s))" and el: "in_i128 (eligible_stake (ledger_ts env) s)"
    and s': "s' = s\<lparr>st_epoch_stake := record_stakes ?e (dom (st_stake s)) (st_stake s) (st_epoch_stake s),
       st_epoch_total := (st_epoch_total s)(?e \<mapsto> get_or 0 (st_total s)),
       st_epoch_eligible := (st_epoch_eligible s)(?e \<mapsto> eligible_stake (ledger_ts env) s),
       st_penalty_pool := (if 0 < get_or 0 (st_penalty_pool s) then Some 0 else st_penalty_pool s),
       st_epoch_reward := (st_epoch_reward s)(?e \<mapsto> amount + get_or 0 (st_penalty_pool s)),
       st_epoch := Some (?e + 1), st_next_dist := None\<rparr>"
    using ex by blast+
  have amt: "0 < sr_amount r \<and> sr_amount r \<le> ST_MAX_FINANCIAL_AMOUNT" if "st_stake s a = Some r" for a r
    using stakers_okD(3) [OF p(1) that] by (simp add: stake_ok_def)
  have el0: "0 \<le> eligible_stake (ledger_ts env) s"
    unfolding eligible_stake_def wsum_def
    by (rule sum_nonneg) (use amt in \<open>force simp: mature_amount_def\<close>)
  have old: "st_epoch_stake s' (f, a) = st_epoch_stake s (f, a)" if "f \<noteq> ?e" for f a
    using that by (simp add: s' record_stakes_def)
  have none: "st_epoch_stake s (?e, a) = None" for a
    using epochs_okD(6) [OF p(3), of ?e a] by (cases "st_epoch_stake s (?e, a)") auto
  have new: "st_epoch_stake s' (?e, a) = map_option sr_amount (st_stake s a)" for a
    using none [of a] by (auto simp: s' record_stakes_def)
  have ep: "get_or 0 (st_epoch s') = ?e + 1" by (simp add: s')
  have "epochs_ok s'"
    unfolding epochs_ok_def
  proof (intro conjI allI impI)
    fix e r assume "st_epoch_reward s' e = Some r"
    then show "0 \<le> r" "in_i128 r"
      using epochs_okD(4) [OF p(3)] comb assms(2) epochs_okD(7) [OF p(3)] by (auto simp: s' split: if_splits)
  next
    fix e d assume "st_epoch_eligible s' e = Some d"
    then show "0 \<le> d" "in_i128 d" using epochs_okD(5) [OF p(3)] el el0 by (auto simp: s' split: if_splits)
  next
    fix e a x assume x: "st_epoch_stake s' (e, a) = Some x"
    have "e < ?e + 1 \<and> 0 < x \<and> x \<le> ST_MAX_FINANCIAL_AMOUNT"
    proof (cases "e = ?e")
      case True
      then show ?thesis using x amt by (auto simp: new)
    next
      case False
      then show ?thesis using x old epochs_okD(6) [OF p(3), of e a x] by simp
    qed
    then show "e < get_or 0 (st_epoch s')" "0 < x" "x \<le> ST_MAX_FINANCIAL_AMOUNT" by (simp_all add: ep)
  next
    fix e
    show "(st_epoch_reward s' e \<noteq> None) = (e < get_or 0 (st_epoch s'))"
      "(st_epoch_eligible s' e \<noteq> None) = (e < get_or 0 (st_epoch s'))"
      "(st_epoch_total s' e \<noteq> None) = (e < get_or 0 (st_epoch s'))"
      using epochs_okD(1-3) [OF p(3), of e] by (auto simp: s' less_Suc_eq)
  next
    show "0 \<le> get_or 0 (st_penalty_pool s')" using epochs_okD(7) [OF p(3)] by (simp add: s')
  next
    fix a x assume "st_pending_rewards s' a = Some x"
    then show "0 \<le> x" using epochs_okD(8) [OF p(3)] by (simp add: s')
  qed
  moreover have "lockups_below (settled_upto s') s'"
  proof -
    obtain ps where ps: "pend.holds s ps" "set ps = open_lockups s" using p(4) by (auto simp: lockups_below_def)
    show ?thesis
    proof (rule lockups_belowI)
      show "pend.holds s' ps" using ps(1) by (simp add: pend_holds s')
      show "set ps = open_lockups s'" using ps(2) by (simp add: open_lockups_def s')
    next
      fix a e l assume "st_lockup s' (a, e) = Some l"
      then have l: "st_lockup s (a, e) = Some l" by (simp add: s')
      note b = lockups_belowD [OF p(4) l]
      have "lockup_fair s' a e l = lockup_fair s a e l"
        using b(1) old [of e a] by (simp add: lockup_fair_def s')
      then show "e < get_or 0 (st_epoch s') \<and> e < settled_upto s' a \<and> lockup_fair s' a e l"
        using b by (simp add: ep settled_upto_def s')
    qed
  qed
  moreover have "stakers_ok s'" using p(1) stakers_ok_cong [of s' s] by (simp add: s')
  moreover have "logs_ok s'" using p(2) by (simp add: logs_ok_def s')
  moreover have "unused_ok s'" using p(5) unused_ok_cong [of s' s] by (simp add: s')
  ultimately show ?thesis by (intro st_invI)
qed

lemma distribute_revenue_Inr:
  assumes "distribute_revenue env tok a (s, w) = Inr (s', w')"
  obtains g0 g s1 where "0 \<le> a" "a \<le> ST_MAX_FINANCIAL_AMOUNT" "w' = w"
    "internal_distribute_revenue env a (s\<lparr>st_guard := g0\<rparr>) = Inr s1" "s' = s1\<lparr>st_guard := g\<rparr>"
proof -
  from assms have "st_guarded ''distribute_revenue'' (s, w) (\<lambda>(s, w).
      rbind (validate_or_panic (st_valid_revenue a ''amount'')) (\<lambda>_.
      rbind (internal_distribute_revenue env a s) (\<lambda>s. Inr (s, w)))) = Inr (s', w')"
    by (simp add: distribute_revenue_def ensure_Inr)
  from st_guarded_guard [OF this] obtain g0 t g where
    t: "validate_or_panic (st_valid_revenue a ''amount'') = (Inr () :: unit st_res)"
      "internal_distribute_revenue env a (s\<lparr>st_guard := g0\<rparr>) = Inr t" "w' = w" "s' = t\<lparr>st_guard := g\<rparr>"
    by (auto simp: rbind_Inr)
  have "0 \<le> a" "a \<le> ST_MAX_FINANCIAL_AMOUNT"
    using t(1) by (auto simp: validate_or_panic_def st_valid_revenue_def require_max_def require_non_negative_def
        v_validate_def v_check_def split: if_splits)
  then show thesis using t by (intro that)
qed

lemma treasury_body_steps:
  assumes "treasury_body T env i tr tok a ts (s, w) = Inr (s', w')"
  obtains s1 rc rc' dc where "0 \<le> a" "a \<le> ST_MAX_FINANCIAL_AMOUNT" "w' = w" "auth_by env tr" "st_treasury s = Some tr"
    "st_processed s i = None"
    "internal_distribute_revenue env a (s\<lparr>st_processed := (st_processed s)(i \<mapsto> True),
       st_receipt := (st_receipt s)(i \<mapsto> rc), st_dist_count := dc\<rparr>) = Inr s1"
    "s' = s1\<lparr>st_receipt := (st_receipt s1)(i \<mapsto> rc')\<rparr>"
    "rc = \<lparr>tr_id = i, tr_treasury = tr, tr_token = tok, tr_amount = a,
                   tr_timestamp = ts, tr_received_at = ledger_ts env, tr_processed = False\<rparr>"
proof -
  define rc where "rc = \<lparr>tr_id = i, tr_treasury = tr, tr_token = tok, tr_amount = a,
                   tr_timestamp = ts, tr_received_at = ledger_ts env, tr_processed = False\<rparr>"
  define dc where "dc = Some (get_or (get_or 0 (st_dist_count s)) (checked_u64 (get_or 0 (st_dist_count s) + 1)))"
  define s0 where "s0 = s\<lparr>st_processed := (st_processed s)(i \<mapsto> True),
       st_receipt := (st_receipt s)(i \<mapsto> rc), st_dist_count := dc\<rparr>"
  from assms have f: "auth_by env tr" "st_treasury s = Some tr" "st_processed s i = None"
      "0 \<le> a" "a \<le> ST_MAX_FINANCIAL_AMOUNT"
    and r: "rbind (internal_distribute_revenue env a s0) (\<lambda>s. ensure (\<not> tk_balance T tok (self_addr env) w < tk_balance T tok (self_addr env) w) (Err StStateValidationFailed) (
      expect (st_receipt s i) (Panic ''unwrap'') (\<lambda>final_receipt.
      Inr (s\<lparr>st_receipt := (st_receipt s)(i \<mapsto> final_receipt\<lparr>tr_processed := True\<rparr>)\<rparr>, w)))) = Inr (s', w')"
    unfolding treasury_body_def Let_def prod.case ensure_Inr expect_Inr s0_def rc_def dc_def by auto
  from r obtain s1 q where "internal_distribute_revenue env a s0 = Inr s1"
      "s' = s1\<lparr>st_receipt := (st_receipt s1)(i \<mapsto> q)\<rparr>" "w' = w"
    by (auto simp: rbind_Inr ensure_Inr expect_Inr)
  with f show thesis unfolding s0_def rc_def by (intro that) (assumption | rule refl)+
qed

lemma treasury_Inr:
  assumes "receive_treasury_distribution T env i tr tok a ts (s, w) = Inr (s', w')"
  obtains g0 g s1 rc rc' dc where "0 \<le> a" "a \<le> ST_MAX_FINANCIAL_AMOUNT" "w' = w" "auth_by env tr" "st_treasury s = Some tr"
    "st_processed s i = None"
    "internal_distribute_revenue env a (s\<lparr>st_guard := g0, st_processed := (st_processed s)(i \<mapsto> True),
       st_receipt := (st_receipt s)(i \<mapsto> rc), st_dist_count := dc\<rparr>) = Inr s1"
    "s' = s1\<lparr>st_guard := g, st_receipt := (st_receipt s1)(i \<mapsto> rc')\<rparr>"
    "tr_amount rc = a" "tr_treasury rc = tr" "tr_token rc = tok"
proof -
  from assms have "st_guarded ''treasury_dist'' (s, w) (treasury_body T env i tr tok a ts) = Inr (s', w')"
    by (simp add: receive_treasury_distribution_def require_not_rg_paused_Inr)
  from st_guarded_guard [OF this] obtain g0 t g where
    t: "treasury_body T env i tr tok a ts (s\<lparr>st_guard := g0\<rparr>, w) = Inr (t, w')" "s' = t\<lparr>st_guard := g\<rparr>" by blast
  from t(1) show thesis
  proof (rule treasury_body_steps)
    fix s1 rc rc' dc
    assume b: "0 \<le> a" "a \<le> ST_MAX_FINANCIAL_AMOUNT" "w' = w" "auth_by env tr" "st_treasury (s\<lparr>st_guard := g0\<rparr>) = Some tr"
      "st_processed (s\<lparr>st_guard := g0\<rparr>) i = None"
      and r: "internal_distribute_revenue env a (s\<lparr>st_guard := g0, st_processed := (st_processed (s\<lparr>st_guard := g0\<rparr>))(i \<mapsto> True),
       st_receipt := (st_receipt (s\<lparr>st_guard := g0\<rparr>))(i \<mapsto> rc), st_dist_count := dc\<rparr>) = Inr s1"
      and t': "t = s1\<lparr>st_receipt := (st_receipt s1)(i \<mapsto> rc')\<rparr>"
      and rc: "rc = \<lparr>tr_id = i, tr_treasury = tr, tr_token = tok, tr_amount = a,
                   tr_timestamp = ts, tr_received_at = ledger_ts env, tr_processed = False\<rparr>"
    have b': "st_treasury s = Some tr" "st_processed s i = None"
      and r': "internal_distribute_revenue env a (s\<lparr>st_guard := g0, st_processed := (st_processed s)(i \<mapsto> True),
       st_receipt := (st_receipt s)(i \<mapsto> rc), st_dist_count := dc\<rparr>) = Inr s1"
      using b(5,6) r by simp_all
    have s': "s' = s1\<lparr>st_guard := g, st_receipt := (st_receipt s1)(i \<mapsto> rc')\<rparr>" by (simp add: t(2) t')
    have "tr_amount rc = a" "tr_treasury rc = tr" "tr_token rc = tok" by (simp_all add: rc)
    then show thesis by (rule that [OF b(1-4) b' r' s'])
  qed
qed

lemma distribute_revenue_inv:
  assumes "distribute_revenue env tok a (s, w) = Inr (s', w')" "st_inv s"
  shows "st_inv s'"
  using assms(1)
proof (rule distribute_revenue_Inr)
  fix g0 g s1
  assume a: "0 \<le> a" "internal_distribute_revenue env a (s\<lparr>st_guard := g0\<rparr>) = Inr s1" "s' = s1\<lparr>st_guard := g\<rparr>"
  have "st_inv (s\<lparr>st_guard := g0\<rparr>)" using assms(2) st_core_inv [of "s\<lparr>st_guard := g0\<rparr>" s] by (simp add: st_core_def)
  from distribute_inv [OF a(2,1) this] show ?thesis using st_core_inv [of s' s1] by (simp add: st_core_def a(3))
qed

lemma treasury_inv:
  assumes "receive_treasury_distribution T env i tr tok a ts (s, w) = Inr (s', w')" "st_inv s"
  shows "st_inv s'"
  using assms(1)
proof (rule treasury_Inr)
  fix g0 g s1 rc rc' dc
  let ?t = "s\<lparr>st_guard := g0, st_processed := (st_processed s)(i \<mapsto> True),
       st_receipt := (st_receipt s)(i \<mapsto> rc), st_dist_count := dc\<rparr>"
  assume a: "0 \<le> a" "internal_distribute_revenue env a ?t = Inr s1"
    and s': "s' = s1\<lparr>st_guard := g, st_receipt := (st_receipt s1)(i \<mapsto> rc')\<rparr>"
  have "st_inv ?t" using assms(2) by (simp add: st_inv_def inv_parts unused_ok_def)
  from distribute_inv [OF a(2,1) this] show ?thesis by (simp add: s' st_inv_def inv_parts unused_ok_def)
qed


section \<open>Reachable states\<close>

text \<open>The other contracts may change the tokens between two calls.\<close>

inductive st_reach :: "'t token_ops \<Rightarrow> staking_peers \<Rightarrow> (hash32 \<Rightarrow> bool) \<Rightarrow> staking \<Rightarrow> 't \<Rightarrow> bool"
  for T :: "'t token_ops" and P :: staking_peers and inst :: "hash32 \<Rightarrow> bool" where
  Start: "st_reach T P inst staking_empty w"
| Call: "st_reach T P inst s w \<Longrightarrow> st_exec T P inst env c (s, w) = Inr (s', w') \<Longrightarrow> st_reach T P inst s' w'"
| Outside: "st_reach T P inst s w \<Longrightarrow> st_reach T P inst s w'"

lemma st_exec_inv:
  assumes "st_exec T P inst env c (s, w) = Inr (s', w')" "st_inv s"
  shows "st_inv s'"
proof (cases "quiet c")
  case True
  from quiet_core [OF assms(1) True] st_core_inv assms(2) show ?thesis by blast
next
  case False
  show ?thesis
  proof (cases c)
    case (SC_Stake m a d)
    then show ?thesis using assms stake_inv by simp
  next
    case (SC_Unstake m)
    then show ?thesis using assms unstake_inv by simp
  next
    case (SC_Claim a tok)
    then show ?thesis using assms claim_inv by simp
  next
    case (SC_Receive i tr tok a t)
    then show ?thesis using assms treasury_inv by simp
  next
    case (SC_Distribute tok a)
    then show ?thesis using assms distribute_revenue_inv by simp
  next
    case (SC_Batch tok a n m)
    then show ?thesis using assms batch_inv by (auto simp: st_lift_Inr)
  next
    case SC_Migrate
    then show ?thesis using assms migrate_same by (auto simp: st_lift_Inr)
  next
    case (SC_Snapshot a i)
    then show ?thesis using assms snapshot_inv by (auto simp: st_lift_Inr)
  next
    case (SC_Rollback i)
    with assms obtain h where "st_rollback inst i s = Inr (h, s')" by (auto simp: st_lift_Inr st_drop_Inr)
    from rollback_core [OF this assms(2)] st_core_inv assms(2) show ?thesis by blast
  qed (use False in simp_all)
qed

lemma st_reach_inv: "st_reach T P inst s w \<Longrightarrow> st_inv s"
  by (induction rule: st_reach.induct) (simp_all add: st_inv_empty st_exec_inv)

end
