(* ===== verification/StakingLife.thy ===== *)
theory StakingLife
  imports StakingReach StakingWatch
begin

text \<open>
  How one call changes the epochs and the locked rewards: the data of a closed epoch is final, a
  locked reward is created once by the settlement of its staker, and only a claim of its staker
  touches it again, once, to mark it paid.
\<close>

section \<open>Epochs\<close>

definition epoch_data where
  "epoch_data s = (get_or 0 (st_epoch s), st_epoch_total s, st_epoch_eligible s, st_epoch_reward s, st_epoch_stake s)"

lemma st_core_parts:
  assumes "st_core s' = st_core s"
  shows "epoch_data s' = epoch_data s" "st_lockup s' = st_lockup s" "st_processed s' = st_processed s"
    "st_stake s' = st_stake s" "st_total s' = st_total s" "st_penalty_pool s' = st_penalty_pool s"
    "st_pending_rewards s' = st_pending_rewards s"
  using assms by (simp_all add: st_core_def epoch_data_def)

lemma settle_epochs: "settle_epoch_rewards env a s = Inr s' \<Longrightarrow> epoch_data s' = epoch_data s \<and> st_processed s' = st_processed s"
  by (erule settle_epoch_rewards_Inr) (simp add: epoch_data_def)

lemma stake_epochs: "stake T P env m a d (s, w) = Inr (s', w') \<Longrightarrow>
    epoch_data s' = epoch_data s \<and> st_processed s' = st_processed s \<and> st_lockup s' = st_lockup s"
  by (erule stake_Inr) (simp add: epoch_data_def)

lemma unstake_epochs: "unstake T P env m (s, w) = Inr (s', w') \<Longrightarrow>
    epoch_data s' = epoch_data s \<and> st_processed s' = st_processed s"
  by (erule unstake_Inr) (drule settle_epochs, simp add: epoch_data_def)

lemma claim_epochs: "claim_rewards T P env a tok (s, w) = Inr (s', w') \<Longrightarrow>
    epoch_data s' = epoch_data s \<and> st_processed s' = st_processed s"
proof (erule claim_Inr)
  fix g0 s1 x s2 g l i u v and pr :: "addr \<rightharpoonup> int"
  assume se: "settle_epoch_rewards env a (s\<lparr>st_guard := g0\<rparr>) = Inr s1"
    and sc: "claim_scan (ledger_ts env) a [0..<get_or 0 (st_epoch s)] 0 0 s1 = Inr (x, s2)"
    and s': "s' = s2\<lparr>st_guard := g, st_pending_rewards := pr, st_log := l, st_log_index := i,
       st_snap_index := u, st_next_snap := v\<rparr>"
  from claim_scan_only [OF sc] obtain k px py pz where
    e2: "s2 = s1\<lparr>st_lockup := k, st_pend_slot := px, st_pend_pos := py, st_pend_count := pz\<rparr>"
    by (rule lockups_onlyE)
  show ?thesis using settle_epochs [OF se] by (simp add: s' e2 epoch_data_def)
qed

lemma batch_epochs:
  assumes "distribute_revenue_batch tok a n m s = Inr s'"
  obtains p where "s' = s\<lparr>st_pending_rewards := p\<rparr>"
proof -
  consider "s' = s" | ks us where "batch_shares a (get_or 0 (st_total s)) ks s = Inr us" "batch_credit us s = Inr s'"
    using assms by (auto simp: distribute_revenue_batch_def Let_def res_simps split: if_splits prod.splits)
  then show thesis
  proof cases
    case 1
    then have "s' = s\<lparr>st_pending_rewards := st_pending_rewards s\<rparr>" by simp
    then show thesis by (rule that)
  next
    case (2 ks us)
    from batch_credit_only [OF 2(2)] obtain p where "s' = s\<lparr>st_pending_rewards := p\<rparr>" by blast
    then show thesis by (rule that)
  qed
qed

text \<open>A call either keeps all epoch data or closes one epoch.\<close>

definition closes_epoch :: "env \<Rightarrow> int \<Rightarrow> staking \<Rightarrow> staking \<Rightarrow> bool" where
  "closes_epoch env a s s' \<longleftrightarrow> 0 \<le> a \<and> epoch_data s' =
     (get_or 0 (st_epoch s) + 1, (st_epoch_total s)(get_or 0 (st_epoch s) \<mapsto> get_or 0 (st_total s)),
      (st_epoch_eligible s)(get_or 0 (st_epoch s) \<mapsto> eligible_stake (ledger_ts env) s),
      (st_epoch_reward s)(get_or 0 (st_epoch s) \<mapsto> a + get_or 0 (st_penalty_pool s)),
      record_stakes (get_or 0 (st_epoch s)) (dom (st_stake s)) (st_stake s) (st_epoch_stake s)) \<and>
     st_lockup s' = st_lockup s \<and> get_or 0 (st_penalty_pool s') = 0 \<and> st_stake s' = st_stake s \<and>
     st_pending_rewards s' = st_pending_rewards s"

lemma distribute_closes:
  assumes "internal_distribute_revenue env a t = Inr t'" "0 \<le> a" "st_inv s"
    "st_stake t = st_stake s" "st_total t = st_total s" "st_slot t = st_slot s" "st_index t = st_index s"
    "st_count t = st_count s" "st_legacy t = st_legacy s"
    "epoch_data t = epoch_data s" "st_lockup t = st_lockup s" "st_penalty_pool t = st_penalty_pool s"
    "st_pending_rewards t = st_pending_rewards s"
  shows "closes_epoch env a s t' \<and> st_processed t' = st_processed t"
proof -
  have "stakers_ok t" using st_invD(1) [OF assms(3)] stakers_ok_cong [of t s] assms(4-9) by simp
  from distribute_exact [OF assms(1) this] have e: "t' = t\<lparr>st_epoch_stake := record_stakes (get_or 0 (st_epoch t)) (dom (st_stake t)) (st_stake t) (st_epoch_stake t),
       st_epoch_total := (st_epoch_total t)(get_or 0 (st_epoch t) \<mapsto> get_or 0 (st_total t)),
       st_epoch_eligible := (st_epoch_eligible t)(get_or 0 (st_epoch t) \<mapsto> eligible_stake (ledger_ts env) t),
       st_penalty_pool := (if 0 < get_or 0 (st_penalty_pool t) then Some 0 else st_penalty_pool t),
       st_epoch_reward := (st_epoch_reward t)(get_or 0 (st_epoch t) \<mapsto> a + get_or 0 (st_penalty_pool t)),
       st_epoch := Some (get_or 0 (st_epoch t) + 1), st_next_dist := None\<rparr>" by blast
  have "0 \<le> get_or 0 (st_penalty_pool s)" by (rule epochs_okD(7) [OF st_invD(3) [OF assms(3)]])
  then show ?thesis using assms(2,4,5,10-13)
    by (simp add: closes_epoch_def epoch_data_def e eligible_stake_def)
qed

lemma distribute_revenue_closes:
  assumes "distribute_revenue env tok a (s, w) = Inr (s', w')" "st_inv s"
  shows "closes_epoch env a s s' \<and> st_processed s' = st_processed s"
  using assms(1)
proof (rule distribute_revenue_Inr)
  fix g0 g s1
  assume a: "0 \<le> a" "internal_distribute_revenue env a (s\<lparr>st_guard := g0\<rparr>) = Inr s1" "s' = s1\<lparr>st_guard := g\<rparr>"
  show ?thesis using distribute_closes [OF a(2,1) assms(2)] by (simp add: a(3) closes_epoch_def epoch_data_def)
qed

lemma treasury_closes:
  assumes "receive_treasury_distribution T env i tr tok a ts (s, w) = Inr (s', w')" "st_inv s"
  shows "closes_epoch env a s s' \<and> st_processed s' = (st_processed s)(i \<mapsto> True) \<and> st_processed s i = None"
  using assms(1)
proof (rule treasury_Inr)
  fix g0 g s1 rc rc' dc
  assume a: "0 \<le> a" "st_processed s i = None" "internal_distribute_revenue env a (s\<lparr>st_guard := g0, st_processed := (st_processed s)(i \<mapsto> True),
       st_receipt := (st_receipt s)(i \<mapsto> rc), st_dist_count := dc\<rparr>) = Inr s1"
    and s': "s' = s1\<lparr>st_guard := g, st_receipt := (st_receipt s1)(i \<mapsto> rc')\<rparr>"
  show ?thesis using distribute_closes [OF a(3,1) assms(2)] a(2) by (simp add: s' closes_epoch_def epoch_data_def)
qed

lemma exec_epochs:
  assumes "st_exec T P inst env c (s, w) = Inr (s', w')" "st_inv s"
  obtains (Keep) "epoch_data s' = epoch_data s"
  | (Close) a where "closes_epoch env a s s'"
      "(\<exists>tok. c = SC_Distribute tok a) \<or> (\<exists>i tr tok ts. c = SC_Receive i tr tok a ts)"
proof (cases "quiet c")
  case True
  from st_core_parts(1) [OF quiet_core [OF assms(1) True]] show thesis by (rule Keep)
next
  case False
  show thesis
  proof (cases c)
    case (SC_Receive i tr tok a ts)
    then show thesis using Close [of a] treasury_closes [of T env i tr tok a ts s w s' w'] assms by simp
  next
    case (SC_Distribute tok a)
    then show thesis using Close [of a] distribute_revenue_closes [of env tok a s w s' w'] assms by simp
  next
    case (SC_Stake m a d)
    then show thesis using Keep stake_epochs [of T P env m a d s w s' w'] assms by simp
  next
    case (SC_Unstake m)
    then show thesis using Keep unstake_epochs [of T P env m s w s' w'] assms by simp
  next
    case (SC_Claim a tok)
    then show thesis using Keep claim_epochs [of T P env a tok s w s' w'] assms by simp
  next
    case (SC_Batch tok a n m)
    with assms have "distribute_revenue_batch tok a n m s = Inr s'" by (simp add: st_lift_Inr)
    then show thesis by (rule batch_epochs) (rule Keep, simp add: epoch_data_def)
  next
    case SC_Migrate
    with assms migrate_same [of s s'] have "s' = s" by (simp add: st_lift_Inr)
    then show thesis by (intro Keep) simp
  next
    case (SC_Snapshot a i)
    with assms have "st_snapshot_state env a i s = Inr s'" by (simp add: st_lift_Inr)
    from snapshot_inv [OF this assms(2)] have "st_core (s'\<lparr>st_snap := st_snap s\<rparr>) = st_core s" by simp
    from st_core_parts(1) [OF this] show thesis by (intro Keep) (simp add: epoch_data_def)
  next
    case (SC_Rollback i)
    with assms obtain h where "st_rollback inst i s = Inr (h, s')" by (auto simp: st_lift_Inr st_drop_Inr)
    from st_core_parts(1) [OF rollback_core [OF this assms(2)]] show thesis by (rule Keep)
  qed (use False in simp_all)
qed

section \<open>Locked rewards\<close>

text \<open>A lockup that a settlement of \<open>a\<close> creates: locked for thirty days, not paid.\<close>

definition fresh_lockup :: "env \<Rightarrow> staking \<Rightarrow> addr \<Rightarrow> nat \<Rightarrow> reward_lockup \<Rightarrow> bool" where
  "fresh_lockup env s a e l \<longleftrightarrow> st_lockup s (a, e) = None \<and> \<not> rl_claimed l \<and>
     rl_unlocks_at l = sat_u64 (ledger_ts env + REWARD_LOCKUP_SECS)"

lemma settle_epoch_lockups:
  assumes "settle_epoch env a ms e s = Inr s'" "epochs_ok s" "st_lockup s (a, e) = None"
  shows "(\<forall>k. k \<noteq> (a, e) \<longrightarrow> st_lockup s' k = st_lockup s k) \<and>
     (\<forall>l. st_lockup s' (a, e) = Some l \<longrightarrow> fresh_lockup env s a e l)"
  using assms(1,2)
proof (cases rule: settle_epoch_cases)
  case Same
  then show ?thesis using assms(3) by simp
next
  case (New s1 l)
  have "st_lockup s1 = st_lockup s"
    using New(2) [OF assms(3)] by (auto simp: add_pending_distribution_def Let_def res_simps)
  then show ?thesis using New(3,5,6) assms(3) by (simp add: fresh_lockup_def)
qed

lemma settle_loop_lockups:
  assumes "settle_loop env a ms e n s = Inr s'"
  shows "epochs_ok s \<Longrightarrow> (\<And>f. e \<le> f \<Longrightarrow> st_lockup s (a, f) = None) \<Longrightarrow>
    (\<forall>b f. b \<noteq> a \<or> f < e \<longrightarrow> st_lockup s' (b, f) = st_lockup s (b, f)) \<and>
    (\<forall>f l. e \<le> f \<longrightarrow> st_lockup s' (a, f) = Some l \<longrightarrow> fresh_lockup env s a f l)"
  using assms
proof (induction rule: settle_loop_induct)
  case (Stop e s)
  then show ?case by simp
next
  case (Step e s s1 s')
  have one: "(\<forall>k. k \<noteq> (a, e) \<longrightarrow> st_lockup s1 k = st_lockup s k)" "(\<forall>l. st_lockup s1 (a, e) = Some l \<longrightarrow> fresh_lockup env s a e l)"
    using settle_epoch_lockups [OF Step(2,5)] Step(6) by simp_all
  have ep: "epochs_ok s1" using Step(5) epochs_ok_lockups [OF settle_epoch_only [OF Step(2)]] by simp
  have "st_lockup s1 (a, f) = None" if "e + 1 \<le> f" for f using one(1) Step(6) [of f] that by simp
  from Step(4) [OF ep this] have
    rest: "\<And>b f. b \<noteq> a \<or> f < e + 1 \<Longrightarrow> st_lockup s' (b, f) = st_lockup s1 (b, f)"
      "\<And>f l. e + 1 \<le> f \<Longrightarrow> st_lockup s' (a, f) = Some l \<Longrightarrow> fresh_lockup env s1 a f l" by blast+
  show ?case
  proof (intro conjI allI impI)
    fix b f assume "b \<noteq> a \<or> f < e"
    then show "st_lockup s' (b, f) = st_lockup s (b, f)" using rest(1) [of b f] one(1) by auto
  next
    fix f l assume f: "e \<le> f" "st_lockup s' (a, f) = Some l"
    show "fresh_lockup env s a f l"
    proof (cases "f = e")
      case True
      then show ?thesis using f rest(1) [of a e] one(2) by simp
    next
      case False
      then have "fresh_lockup env s1 a f l" using rest(2) f by simp
      moreover have "st_lockup s1 (a, f) = st_lockup s (a, f)" using one(1) False by simp
      ultimately show ?thesis by (simp add: fresh_lockup_def)
    qed
  qed
qed

lemma settle_lockups:
  assumes "settle_epoch_rewards env a s = Inr s'" "epochs_ok s" "lockups_ok s"
  shows "st_lockup s' (b, f) = st_lockup s (b, f) \<or>
    b = a \<and> (\<exists>l. st_lockup s' (b, f) = Some l \<and> fresh_lockup env s b f l)"
  using assms(1)
proof (rule settle_epoch_rewards_Inr)
  fix nc su st fin k x y z s1
  assume r: "settle_range a s = (nc, su, st, fin)" and run: "settle_loop env a (st_stake s a) st fin s = Inr s1"
    and s': "s' = s1\<lparr>st_settled := (if su < max st fin then (st_settled s)(a \<mapsto> max st fin) else st_settled s),
            st_next_claim := (if nc < max st fin then (st_next_claim s)(a \<mapsto> max st fin) else st_next_claim s)\<rparr>"
  have none: "st_lockup s (a, f) = None" if "st \<le> f" for f
    using lockups_belowD(2) [OF assms(3), of a f] settle_range_bounds(1,2) [OF r] that
    by (cases "st_lockup s (a, f)") auto
  have k: "st_lockup s' = st_lockup s1" by (simp add: s')
  note loop = settle_loop_lockups [OF run assms(2) none]
  show ?thesis
  proof (cases "b \<noteq> a \<or> f < st")
    case True
    then show ?thesis using loop by (simp add: k)
  next
    case False
    then have "b = a" "st_lockup s (b, f) = None" using none by auto
    then show ?thesis using loop False by (cases "st_lockup s' (b, f)") (auto simp: k)
  qed
qed

lemma unstake_lockups:
  assumes "unstake T P env m (s, w) = Inr (s', w')" "st_inv s"
  shows "st_lockup s' (b, f) = st_lockup s (b, f) \<or>
    b = m \<and> (\<exists>l. st_lockup s' (b, f) = Some l \<and> fresh_lockup env s b f l)"
  using assms(1)
proof (rule unstake_Inr)
  fix g0 s1 g x y z l i u v and r :: stake_record and pen :: penalty_calc
  assume se: "settle_epoch_rewards env m (s\<lparr>st_guard := g0\<rparr>) = Inr s1"
    and s': "s' = s1\<lparr>st_guard := g,
       st_penalty_pool := (if 0 < pc_penalty pen then Some (get_or 0 (st_penalty_pool s) + pc_penalty pen)
                           else st_penalty_pool s),
       st_stake := (st_stake s)(m := None), st_entry := (st_entry s)(m := None),
       st_next_claim := (st_next_claim s1)(m := None), st_slot := x, st_index := y, st_count := z,
       st_total := Some (get_or 0 (st_total s) - sr_amount r),
       st_log := l, st_log_index := i, st_snap_index := u, st_next_snap := v\<rparr>"
  from settle_lockups [OF se guard_inv(1) guard_inv(2), of b f] st_invD(3,4) [OF assms(2)]
  show ?thesis by (simp add: s' fresh_lockup_def)
qed

text \<open>A claim settles, then marks the due lockups of its window.\<close>

lemma claim_lockups:
  assumes "claim_rewards T P env a tok (s, w) = Inr (s', w')" "st_inv s"
  obtains lk ds amt where
    "\<And>b f. lk (b, f) = st_lockup s (b, f) \<or> b = a \<and> (\<exists>l. lk (b, f) = Some l \<and> fresh_lockup env s b f l)"
    "ds = claim_due (ledger_ts env) MAX_LOCKUPS_PER_CLAIM lk a [0..<get_or 0 (st_epoch s)]"
    "st_lockup s' = mark_claimed a (set ds) lk"
    "amt = lockup_sum lk a ds + get_or 0 (st_pending_rewards s a)" "amt \<noteq> 0"
    "tk_transfer T (as_invoker env) tok (self_addr env) a amt w = Inr w'" "auth_by env a"
    "get_or 0 (st_pending_rewards s' a) = 0"
proof -
  from assms(1) obtain g0 s1 x s2 amt pr g l i u v where
    au: "auth_by env a" and se: "settle_epoch_rewards env a (s\<lparr>st_guard := g0\<rparr>) = Inr s1"
    and sc: "claim_scan (ledger_ts env) a [0..<get_or 0 (st_epoch s)] 0 0 s1 = Inr (x, s2)"
    and amt: "amt = (if 0 < get_or 0 (st_pending_rewards s a) then x + get_or 0 (st_pending_rewards s a) else x)"
    and pr: "pr = (if 0 < get_or 0 (st_pending_rewards s a) then (st_pending_rewards s)(a := None) else st_pending_rewards s)"
    and pay: "amt \<noteq> 0" "tk_transfer T (as_invoker env) tok (self_addr env) a amt w = Inr w'"
    and s': "s' = s2\<lparr>st_guard := g, st_pending_rewards := pr, st_log := l, st_log_index := i,
       st_snap_index := u, st_next_snap := v\<rparr>"
    by (rule claim_Inr) blast
  note p = st_invD [OF assms(2)]
  have s1: "lockups_ok s1" using settle_inv [OF se] by (simp add: guard_inv p)
  define ds where "ds = claim_due (ledger_ts env) MAX_LOCKUPS_PER_CLAIM (st_lockup s1) a [0..<get_or 0 (st_epoch s)]"
  have "x = 0 + lockup_sum (st_lockup s1) a ds" "st_lockup s2 = mark_claimed a (set ds) (st_lockup s1)"
    using claim_scan_exact [OF sc _ s1] by (simp_all add: ds_def)
  moreover have "0 \<le> get_or 0 (st_pending_rewards s a)"
    using epochs_okD(8) [OF p(3)] by (cases "st_pending_rewards s a") auto
  ultimately have "amt = lockup_sum (st_lockup s1) a ds + get_or 0 (st_pending_rewards s a)"
      "st_lockup s' = mark_claimed a (set ds) (st_lockup s1)" "get_or 0 (st_pending_rewards s' a) = 0"
    by (auto simp: amt s' pr)
  moreover have "st_lockup s1 (b, f) = st_lockup s (b, f) \<or>
      b = a \<and> (\<exists>l. st_lockup s1 (b, f) = Some l \<and> fresh_lockup env s b f l)" for b f
    using settle_lockups [OF se guard_inv(1) guard_inv(2), of b f] p(3,4) by (simp add: fresh_lockup_def)
  ultimately show thesis using ds_def pay au by (intro that [of "st_lockup s1" ds amt])
qed

text \<open>A paid lockup has fewer than a hundred before it.\<close>

lemma claim_due_few:
  assumes "e \<in> set (claim_due now k lk a [0..<n])"
  shows "card {f. f < e \<and> lk (a, f) \<noteq> None} < k"
proof -
  let ?P = "\<lambda>e. lk (a, e) \<noteq> None"
  have e: "e \<in> set (take k (filter ?P [0..<n]))" using assms by (simp add: claim_due_def claim_window_def)
  then have "e < n" using in_set_takeD [OF e] by simp
  then have "[0..<n] = [0..<e] @ [e..<n]" using upt_add_eq_append [of 0 e "n - e"] by simp
  then have split: "filter ?P [0..<n] = filter ?P [0..<e] @ filter ?P [e..<n]" by simp
  have len: "length (filter ?P [0..<e]) = card {f. f < e \<and> ?P f}"
    using distinct_card [of "filter ?P [0..<e]"] by (simp add: conj_commute)
  show ?thesis
  proof (rule ccontr)
    assume "\<not> ?thesis"
    then have "k \<le> length (filter ?P [0..<e])" unfolding len by (rule leI)
    then have "take k (filter ?P [0..<n]) = take k (filter ?P [0..<e])" unfolding split by (simp only: take_append diff_is_0_eq [THEN iffD2] take_0 append_Nil2)
    then have "e \<in> set (take k (filter ?P [0..<e]))" using e by (simp only:)
    from in_set_takeD [OF this] show False by simp
  qed
qed

text \<open>
  One step of a locked reward: it stays as it is, or a claim of its staker pays it, after its lock
  and when fewer than a hundred lockups of the staker come before it.
\<close>

definition lockup_paid :: "env \<Rightarrow> st_call \<Rightarrow> staking \<Rightarrow> addr \<Rightarrow> nat \<Rightarrow> reward_lockup \<Rightarrow> bool" where
  "lockup_paid env c s a e l \<longleftrightarrow> (\<exists>tok. c = SC_Claim a tok) \<and> auth_by env a \<and> \<not> rl_claimed l \<and>
     rl_unlocks_at l \<le> ledger_ts env \<and> card {f. f < e \<and> st_lockup s (a, f) \<noteq> None} < MAX_LOCKUPS_PER_CLAIM"

lemma claim_lockup_step:
  assumes "claim_rewards T P env a tok (s, w) = Inr (s', w')" "st_inv s" "st_lockup s (b, e) = Some l"
  shows "st_lockup s' (b, e) = Some l \<or>
    st_lockup s' (b, e) = Some (l\<lparr>rl_claimed := True\<rparr>) \<and> lockup_paid env (SC_Claim a tok) s b e l"
  using assms(1,2)
proof (rule claim_lockups)
  fix lk ds amt
  assume lk: "\<And>b f. lk (b, f) = st_lockup s (b, f) \<or> b = a \<and> (\<exists>l. lk (b, f) = Some l \<and> fresh_lockup env s b f l)"
    and ds: "ds = claim_due (ledger_ts env) MAX_LOCKUPS_PER_CLAIM lk a [0..<get_or 0 (st_epoch s)]"
    and s': "st_lockup s' = mark_claimed a (set ds) lk" and au: "auth_by env a"
  have l: "lk (b, e) = Some l" using lk [of b e] assms(3) by (auto simp: fresh_lockup_def)
  show ?thesis
  proof (cases "b = a \<and> e \<in> set ds")
    case False
    then show ?thesis using l by (auto simp: s' mark_claimed_def)
  next
    case True
    have due: "lockup_due (ledger_ts env) l" using claim_due_some [of e] True l unfolding ds by fastforce
    have fin: "finite {f. f < e \<and> lk (a, f) \<noteq> None}" by simp
    have "{f. f < e \<and> st_lockup s (a, f) \<noteq> None} \<subseteq> {f. f < e \<and> lk (a, f) \<noteq> None}"
      using lk [of a] by (force simp: fresh_lockup_def)
    from card_mono [OF fin this] claim_due_few [of e] True
    have "card {f. f < e \<and> st_lockup s (a, f) \<noteq> None} < MAX_LOCKUPS_PER_CLAIM" unfolding ds by fastforce
    then show ?thesis using True l due au by (simp add: s' mark_claimed_def lockup_paid_def lockup_due_def)
  qed
qed

lemma claim_lockup_new:
  assumes "claim_rewards T P env a tok (s, w) = Inr (s', w')" "st_inv s" "st_lockup s (b, e) = None" "st_lockup s' (b, e) = Some l"
  shows "rl_unlocks_at l = sat_u64 (ledger_ts env + REWARD_LOCKUP_SECS) \<and> b = a"
  using assms(1,2)
proof (rule claim_lockups)
  fix lk ds amt
  assume lk: "\<And>b f. lk (b, f) = st_lockup s (b, f) \<or> b = a \<and> (\<exists>l. lk (b, f) = Some l \<and> fresh_lockup env s b f l)"
    and s': "st_lockup s' = mark_claimed a (set ds) lk"
  have "\<exists>l0. lk (b, e) = Some l0 \<and> rl_unlocks_at l = rl_unlocks_at l0"
    using assms(4) by (auto simp: s' mark_claimed_def split: if_splits)
  then show ?thesis using lk [of b e] assms(3) by (auto simp: fresh_lockup_def)
qed

lemma exec_lockups:
  assumes "st_exec T P inst env c (s, w) = Inr (s', w')" "st_inv s"
  shows "\<And>l. st_lockup s (a, e) = Some l \<Longrightarrow> st_lockup s' (a, e) = Some l \<or>
      st_lockup s' (a, e) = Some (l\<lparr>rl_claimed := True\<rparr>) \<and> lockup_paid env c s a e l"
    and "\<And>l. st_lockup s (a, e) = None \<Longrightarrow> st_lockup s' (a, e) = Some l \<Longrightarrow>
      rl_unlocks_at l = sat_u64 (ledger_ts env + REWARD_LOCKUP_SECS) \<and> (c = SC_Unstake a \<or> (\<exists>tok. c = SC_Claim a tok))"
proof -
  have "st_lockup s' = st_lockup s \<or> (\<exists>m. c = SC_Unstake m) \<or> (\<exists>m tok. c = SC_Claim m tok)"
  proof (cases "quiet c")
    case True
    from st_core_parts(2) [OF quiet_core [OF assms(1) True]] show ?thesis by blast
  next
    case False
    show ?thesis
    proof (cases c)
      case (SC_Receive i tr tok a ts)
      then show ?thesis using treasury_closes [of T env i tr tok a ts s w s' w'] assms by (simp add: closes_epoch_def)
    next
      case (SC_Distribute tok a)
      then show ?thesis using distribute_revenue_closes [of env tok a s w s' w'] assms by (simp add: closes_epoch_def)
    next
      case (SC_Stake m a d)
      then show ?thesis using stake_epochs [of T P env m a d s w s' w'] assms by simp
    next
      case (SC_Batch tok a n m)
      with assms have "distribute_revenue_batch tok a n m s = Inr s'" by (simp add: st_lift_Inr)
      then show ?thesis by (rule batch_epochs) simp
    next
      case SC_Migrate
      with assms migrate_same [of s s'] show ?thesis by (simp add: st_lift_Inr)
    next
      case (SC_Snapshot a i)
      with assms have "st_snapshot_state env a i s = Inr s'" by (simp add: st_lift_Inr)
      from snapshot_inv [OF this assms(2)] have "st_core (s'\<lparr>st_snap := st_snap s\<rparr>) = st_core s" by simp
      from st_core_parts(2) [OF this] show ?thesis by simp
    next
      case (SC_Rollback i)
      with assms obtain h where "st_rollback inst i s = Inr (h, s')" by (auto simp: st_lift_Inr st_drop_Inr)
      from st_core_parts(2) [OF rollback_core [OF this assms(2)]] show ?thesis by blast
    qed (use False in simp_all)
  qed
  then consider (same) "st_lockup s' = st_lockup s" | (un) m where "c = SC_Unstake m" | (cl) m tok where "c = SC_Claim m tok" by blast
  then have "(\<forall>l. st_lockup s (a, e) = Some l \<longrightarrow> st_lockup s' (a, e) = Some l \<or>
      st_lockup s' (a, e) = Some (l\<lparr>rl_claimed := True\<rparr>) \<and> lockup_paid env c s a e l) \<and>
     (\<forall>l. st_lockup s (a, e) = None \<longrightarrow> st_lockup s' (a, e) = Some l \<longrightarrow>
      rl_unlocks_at l = sat_u64 (ledger_ts env + REWARD_LOCKUP_SECS) \<and> (c = SC_Unstake a \<or> (\<exists>tok. c = SC_Claim a tok)))"
  proof cases
    case same
    then show ?thesis by simp
  next
    case un
    then have "unstake T P env m (s, w) = Inr (s', w')" using assms(1) by simp
    from unstake_lockups [OF this assms(2), of a e] show ?thesis unfolding un by (auto simp: fresh_lockup_def)
  next
    case cl
    then have run: "claim_rewards T P env m tok (s, w) = Inr (s', w')" using assms(1) by simp
    from claim_lockup_step [OF run assms(2)] claim_lockup_new [OF run assms(2)] show ?thesis unfolding cl by blast
  qed
  then show "\<And>l. st_lockup s (a, e) = Some l \<Longrightarrow> st_lockup s' (a, e) = Some l \<or>
      st_lockup s' (a, e) = Some (l\<lparr>rl_claimed := True\<rparr>) \<and> lockup_paid env c s a e l"
    "\<And>l. st_lockup s (a, e) = None \<Longrightarrow> st_lockup s' (a, e) = Some l \<Longrightarrow>
      rl_unlocks_at l = sat_u64 (ledger_ts env + REWARD_LOCKUP_SECS) \<and> (c = SC_Unstake a \<or> (\<exists>tok. c = SC_Claim a tok))" by blast+
qed


section \<open>Distributions of the treasury\<close>

lemma exec_processed:
  assumes "st_exec T P inst env c (s, w) = Inr (s', w')" "st_inv s" "st_processed s i \<noteq> None"
  shows "st_processed s' i \<noteq> None"
proof (cases "quiet c")
  case True
  from st_core_parts(3) [OF quiet_core [OF assms(1) True]] assms(3) show ?thesis by simp
next
  case False
  show ?thesis
  proof (cases c)
    case (SC_Receive j tr tok a ts)
    with assms(1) treasury_closes [of T env j tr tok a ts s w s' w'] assms(2)
    have "st_processed s' = (st_processed s)(j \<mapsto> True)" by simp
    then show ?thesis using assms(3) by (cases "i = j") simp_all
  next
    case (SC_Distribute tok a)
    then show ?thesis using distribute_revenue_closes [of env tok a s w s' w'] assms by simp
  next
    case (SC_Stake m a d)
    then show ?thesis using stake_epochs [of T P env m a d s w s' w'] assms by simp
  next
    case (SC_Unstake m)
    then show ?thesis using unstake_epochs [of T P env m s w s' w'] assms by simp
  next
    case (SC_Claim a tok)
    then show ?thesis using claim_epochs [of T P env a tok s w s' w'] assms by simp
  next
    case (SC_Batch tok a n m)
    with assms have "distribute_revenue_batch tok a n m s = Inr s'" by (simp add: st_lift_Inr)
    then show ?thesis by (rule batch_epochs) (use assms(3) in simp)
  next
    case SC_Migrate
    with assms migrate_same [of s s'] show ?thesis by (simp add: st_lift_Inr)
  next
    case (SC_Snapshot a j)
    with assms have "st_snapshot_state env a j s = Inr s'" by (simp add: st_lift_Inr)
    from snapshot_inv [OF this assms(2)] have "st_core (s'\<lparr>st_snap := st_snap s\<rparr>) = st_core s" by simp
    from st_core_parts(3) [OF this] show ?thesis using assms(3) by simp
  next
    case (SC_Rollback j)
    with assms obtain h where "st_rollback inst j s = Inr (h, s')" by (auto simp: st_lift_Inr st_drop_Inr)
    from st_core_parts(3) [OF rollback_core [OF this assms(2)]] show ?thesis using assms(3) by simp
  qed (use False in simp_all)
qed

text \<open>Only the batch distribution credits a balance that a claim pays at once.\<close>

lemma exec_pending:
  assumes "st_exec T P inst env c (s, w) = Inr (s', w')" "st_inv s" "\<And>tok x n m. c \<noteq> SC_Batch tok x n m"
    "get_or 0 (st_pending_rewards s a) = 0"
  shows "get_or 0 (st_pending_rewards s' a) = 0"
proof (cases "quiet c")
  case True
  from st_core_parts(7) [OF quiet_core [OF assms(1) True]] assms(4) show ?thesis by simp
next
  case False
  have settle: "settle_epoch_rewards env b t = Inr t' \<Longrightarrow> st_pending_rewards t' = st_pending_rewards t" for b t t'
    by (erule settle_epoch_rewards_Inr) simp
  show ?thesis
  proof (cases c)
    case (SC_Receive i tr tok b ts)
    then show ?thesis using treasury_closes [of T env i tr tok b ts s w s' w'] assms by (simp add: closes_epoch_def)
  next
    case (SC_Distribute tok b)
    then show ?thesis using distribute_revenue_closes [of env tok b s w s' w'] assms by (simp add: closes_epoch_def)
  next
    case (SC_Stake m b d)
    with assms(1) have "stake T P env m b d (s, w) = Inr (s', w')" by simp
    then show ?thesis by (rule stake_Inr) (simp add: assms(4))
  next
    case (SC_Unstake m)
    with assms(1) have "unstake T P env m (s, w) = Inr (s', w')" by simp
    then show ?thesis by (rule unstake_Inr) (drule settle, simp add: assms(4))
  next
    case (SC_Claim b tok)
    with assms(1) have "claim_rewards T P env b tok (s, w) = Inr (s', w')" by simp
    then show ?thesis by (rule claim_Inr) (simp add: assms(4) split: if_splits)
  next
    case SC_Migrate
    with assms migrate_same [of s s'] show ?thesis by (simp add: st_lift_Inr)
  next
    case (SC_Snapshot b j)
    with assms have "st_snapshot_state env b j s = Inr s'" by (simp add: st_lift_Inr)
    from snapshot_inv [OF this assms(2)] have "st_core (s'\<lparr>st_snap := st_snap s\<rparr>) = st_core s" by simp
    from st_core_parts(7) [OF this] show ?thesis using assms(4) by simp
  next
    case (SC_Rollback j)
    with assms obtain h where "st_rollback inst j s = Inr (h, s')" by (auto simp: st_lift_Inr st_drop_Inr)
    from st_core_parts(7) [OF rollback_core [OF this assms(2)]] show ?thesis using assms(4) by simp
  qed (use False assms(3) in simp_all)
qed

text \<open>A claim finds nothing to pay when no lockup is due and nothing is pending.\<close>

lemma claim_nothing:
  assumes "st_inv s" "\<And>e. st_lockup s (a, e) = None" "get_or 0 (st_pending_rewards s a) = 0" "ledger_ts env < u64_max"
  shows "claim_rewards T P env a tok (s, w) \<noteq> Inr (s', w')"
proof
  assume "claim_rewards T P env a tok (s, w) = Inr (s', w')"
  then show False
    using assms(1)
  proof (rule claim_lockups)
    fix lk ds amt
    assume lk: "\<And>b f. lk (b, f) = st_lockup s (b, f) \<or> b = a \<and> (\<exists>l. lk (b, f) = Some l \<and> fresh_lockup env s b f l)"
      and ds: "ds = claim_due (ledger_ts env) MAX_LOCKUPS_PER_CLAIM lk a [0..<get_or 0 (st_epoch s)]"
      and amt: "amt = lockup_sum lk a ds + get_or 0 (st_pending_rewards s a)" "amt \<noteq> 0"
    have "e \<notin> set ds" for e
    proof
      assume "e \<in> set ds"
      then obtain l where l: "lk (a, e) = Some l" "lockup_due (ledger_ts env) l"
        unfolding ds using claim_due_some by blast
      then have "fresh_lockup env s a e l" using lk [of a e] assms(2) [of e] by auto
      then have "rl_unlocks_at l = sat_u64 (ledger_ts env + REWARD_LOCKUP_SECS)" by (simp add: fresh_lockup_def)
      then show False using l(2) assms(4)
        by (simp add: lockup_due_def sat_u64_def REWARD_LOCKUP_SECS_def min_def split: if_splits)
    qed
    then have "ds = []" by (cases ds) auto
    then show False using amt assms(3) by (simp add: lockup_sum_def)
  qed
qed

text \<open>What may follow a state, when all calls satisfy \<open>Q\<close>.\<close>

inductive st_after :: "'t token_ops \<Rightarrow> staking_peers \<Rightarrow> (hash32 \<Rightarrow> bool) \<Rightarrow> (env \<Rightarrow> st_call \<Rightarrow> bool) \<Rightarrow> staking \<Rightarrow> staking \<Rightarrow> bool"
  for T :: "'t token_ops" and P :: staking_peers and inst :: "hash32 \<Rightarrow> bool" and Q :: "env \<Rightarrow> st_call \<Rightarrow> bool" and s0 :: staking where
  Same: "st_after T P inst Q s0 s0"
| Then: "st_after T P inst Q s0 s \<Longrightarrow> Q env c \<Longrightarrow> st_exec T P inst env c (s, w) = Inr (s', w') \<Longrightarrow> st_after T P inst Q s0 s'"

lemma st_after_inv: "st_after T P inst Q s0 s \<Longrightarrow> st_inv s0 \<Longrightarrow> st_inv s"
  by (induction rule: st_after.induct) (simp_all add: st_exec_inv)

text \<open>A property that every such call keeps holds from then on.\<close>

lemma st_after_keeps:
  assumes "st_after T P inst Q s0 s" "st_inv s0" "I s0"
    "\<And>env c s w s' w'. st_exec T P inst env c (s, w) = Inr (s', w') \<Longrightarrow> Q env c \<Longrightarrow> st_inv s \<Longrightarrow> I s \<Longrightarrow> I s'"
  shows "I s"
  using assms(1)
proof (induction rule: st_after.induct)
  case Same
  then show ?case by (rule assms(3))
next
  case (Then s env c w s' w')
  with assms(4) st_after_inv [OF Then(1) assms(2)] show ?case by blast
qed

end
