(* ===== verification/StakingDemo.thy ===== *)
theory StakingDemo
  imports StakingLife
begin

text \<open>Concrete runs of the staking contract: a stake that matures, two epochs, an exit, a claim.\<close>

section \<open>Runs\<close>

fun st_play ::
    "'t token_ops \<Rightarrow> staking_peers \<Rightarrow> (hash32 \<Rightarrow> bool) \<Rightarrow> (env \<times> st_call) list \<Rightarrow> staking \<times> 't \<Rightarrow> (staking \<times> 't) st_res" where
  "st_play T P inst [] x = Inr x"
| "st_play T P inst ((env, c) # cs) x = rbind (st_exec T P inst env c x) (st_play T P inst cs)"

lemma st_play_reach:
  "st_play T P inst cs (s, w) = Inr (s', w') \<Longrightarrow> st_reach T P inst s w \<Longrightarrow> st_reach T P inst s' w'"
proof (induction cs arbitrary: s w)
  case (Cons x cs)
  obtain env c where x: "x = (env, c)" by (cases x)
  with Cons.prems(1) obtain s1 w1 where "st_exec T P inst env c (s, w) = Inr (s1, w1)"
      "st_play T P inst cs (s1, w1) = Inr (s', w')"
    by (auto simp: res_simps)
  from Cons.IH [OF this(2) st_reach.Call [OF Cons.prems(2) this(1)]] show ?case .
qed simp

text \<open>
  Account 2 holds 1000 units of token 50 and stakes them for fourteen days at time 0; two epochs of
  500 units close, at time 0 and when the stake is mature. No other contract is configured.
\<close>

definition st_alone :: staking_peers where
  "st_alone = \<lparr>sk_is_paused = (\<lambda>_. None), sk_check_anomaly = (\<lambda>_ _ _ _. None), sk_mentor_rating = (\<lambda>_ _. None),
     sk_mentor_sessions = (\<lambda>_ _. None), sk_record_metric = (\<lambda>_ _ _. None)\<rparr>"

definition st_tokens :: mnt_world where "st_tokens = mnt_holding 50 2 1000"

definition st_opening :: "(env \<times> st_call) list" where
  "st_opening = [(demo_env 0 [], SC_Initialize 1 50 None), (demo_env 0 [2], SC_Stake 2 1000 14),
     (demo_env 0 [], SC_Distribute 50 500), (demo_env 1209600 [], SC_Distribute 50 500)]"

lemma settle_loop_go: "e < n \<Longrightarrow>
    settle_loop env a ms e n s = rbind (settle_epoch env a ms e s) (settle_loop env a ms (e + 1) n)"
  by (subst settle_loop.simps) simp

lemma settle_loop_stop: "n \<le> e \<Longrightarrow> settle_loop env a ms e n s = Inr s"
  by (subst settle_loop.simps) simp

lemmas st_eval =
  st_opening_def st_alone_def st_tokens_def mnt_holding_def
  st_initialize_def stake_def st_guarded_def guarded_def rg_enter_def rg_enter_raw_def rg_commit_def rg_release_def
  rg_is_paused_def require_not_paused_def require_not_rg_paused_def stake_body_def st_anomaly_gate_def validator_defs
  append_staker_action_def record_stake_snapshot_index_def stakers_add_def stakers_remove_def detect_suspicious_pattern_def
  compute_tier_def mentor_quality_def tier_of_def tier_met_def st_load_tiers_def DEFAULT_TIER_REQUIREMENTS_def
  load_action_log_def report_tvl_def push_snapshot_index_def
  mnt_w_transfer_def mnt_transfer_def mnt_require_not_paused_def mnt_is_paused_def mnt_balance_def mnt_empty_def mnt_w_balance_def
  distribute_revenue_def internal_distribute_revenue_def validate_or_panic_def st_valid_revenue_def snapshot_slot_def
  unstake_def unstake_body_def compute_early_unstake_penalty_def early_unstake_bps_def settle_epoch_rewards_def settle_range_def
  settle_epoch_def settle_multiplier_def add_pending_distribution_def apply_bps_multiplier_def
  compute_reward_multiplier_bps_def penalty_to_pool_def pay_returned_def pay_self_def
  claim_rewards_def claim_body_def remove_pending_distribution_def MAX_LOCKUPS_PER_CLAIM_def MAX_EPOCHS_PER_SETTLE_def
  MAX_STAKERS_PER_SNAPSHOT_def MAX_SNAPSHOTS_def safe_mul_u64_def safe_add_u64_def safe_sub_def
  v_check_def v_validate_def settle_loop_go settle_loop_stop action_stake_def action_unstake_def action_claim_def
  guard_init_def width_defs staking_consts Let_def st_lift_def ST_MAX_FINANCIAL_AMOUNT_def cast_defs


text \<open>The storage after the opening, and after account 2 has left.\<close>

definition st_opened :: staking where
  "st_opened = staking_empty\<lparr>st_admin := Some 1, st_mnt := Some 50,
     st_stake := [2 \<mapsto> \<lparr>sr_mentor = 2, sr_amount = 1000, sr_staked_at = 0, sr_unlock_at = 1209600,
       sr_cooldown_until = None, sr_tier = 2\<rparr>],
     st_slot := [0 \<mapsto> 2], st_index := [2 \<mapsto> 0], st_count := Some 1, st_total := Some 1000,
     st_log := [2 \<mapsto> [\<lparr>sa_action = ''stake'', sa_timestamp = 0, sa_amount = 1000, sa_epoch = 0\<rparr>]],
     st_log_index := [2 \<mapsto> 1], st_epoch := Some 2, st_epoch_total := [0 \<mapsto> 1000, 1 \<mapsto> 1000],
     st_epoch_eligible := [0 \<mapsto> 0, 1 \<mapsto> 1000], st_epoch_reward := [0 \<mapsto> 500, 1 \<mapsto> 500],
     st_epoch_stake := [(0, 2) \<mapsto> 1000, (1, 2) \<mapsto> 1000], st_entry := [2 \<mapsto> 1], st_next_claim := [2 \<mapsto> 1],
     st_snap_index := Some [1], st_next_snap := Some 1\<rparr>"

definition st_held :: mnt_world where
  "st_held = (\<lambda>_. mnt_empty)(50 := mnt_empty\<lparr>m_bal := [2 \<mapsto> 0, 0 \<mapsto> 1000]\<rparr>)"

lemma st_opened_run: "st_play mnt_ops st_alone (\<lambda>_. True) st_opening (staking_empty, st_tokens) = Inr (st_opened, st_held)"
  by (simp add: st_eval staking_empty_def st_opened_def st_held_def)

definition st_demo_lockup :: reward_lockup where
  "st_demo_lockup = \<lparr>rl_epoch = 1, rl_base = 500, rl_scaled = 500, rl_multiplier = 10000, rl_unlocks_at = 3801600, rl_claimed = False\<rparr>"

lemma st_demo_settle:
  "settle_epoch_rewards (demo_env 1209600 [2]) 2 (st_opened\<lparr>st_guard := g\<rparr>) =
   Inr (st_opened\<lparr>st_guard := g, st_lockup := [(2, 1) \<mapsto> st_demo_lockup], st_pend_slot := [0 \<mapsto> (2, 1)], st_pend_pos := [(2, 1) \<mapsto> 0],
     st_pend_count := Some 1, st_settled := [2 \<mapsto> 2], st_next_claim := [2 \<mapsto> 2]\<rparr>)"
proof -
  have range: "settle_range 2 (st_opened\<lparr>st_guard := g\<rparr>) = (1, 1, 1, 2)"
    by (simp add: settle_range_def st_opened_def MAX_EPOCHS_PER_SETTLE_def width_defs Let_def staking_empty_def)
  have mult: "settle_multiplier 1209600 (st_stake st_opened 2) = 10000"
    by (simp add: settle_multiplier_def st_opened_def compute_reward_multiplier_bps_def staking_consts cast_defs width_defs)
  have amt: "apply_bps_multiplier 500 10000 = 500" by (simp add: apply_bps_multiplier_def staking_consts width_defs)
  have e: "settle_epoch (demo_env 1209600 [2]) 2 (st_stake st_opened 2) 1 (st_opened\<lparr>st_guard := g\<rparr>) =
     Inr (st_opened\<lparr>st_guard := g, st_lockup := [(2, 1) \<mapsto> st_demo_lockup], st_pend_slot := [0 \<mapsto> (2, 1)],
       st_pend_pos := [(2, 1) \<mapsto> 0], st_pend_count := Some 1\<rparr>)"
    unfolding settle_epoch_def Let_def demo_env_simps mult
    by (simp add: st_opened_def staking_empty_def cast_defs amt add_pending_distribution_def width_defs st_demo_lockup_def staking_consts)
  have n: "settle_epoch_rewards (demo_env 1209600 [2]) 2 (st_opened\<lparr>st_guard := g\<rparr>) = 
    Inr (st_opened\<lparr>st_guard := g, st_lockup := [(2, 1) \<mapsto> st_demo_lockup], st_pend_slot := [0 \<mapsto> (2, 1)],
       st_pend_pos := [(2, 1) \<mapsto> 0], st_pend_count := Some 1, st_settled := (st_settled st_opened)(2 \<mapsto> 2), st_next_claim := (st_next_claim st_opened)(2 \<mapsto> 2)\<rparr>)"
    unfolding settle_epoch_rewards_def range
    by (simp add: settle_loop_go settle_loop_stop e del: One_nat_def)
  then show ?thesis by (simp add: st_opened_def staking_empty_def)
qed
lemma st_opened_simps:
  "st_admin st_opened = Some 1" "st_mnt st_opened = Some 50" "st_epoch st_opened = Some 2" "st_total st_opened = Some 1000"
  "st_stake st_opened = [2 \<mapsto> \<lparr>sr_mentor = 2, sr_amount = 1000, sr_staked_at = 0, sr_unlock_at = 1209600,
     sr_cooldown_until = None, sr_tier = 2\<rparr>]"
  "st_slot st_opened = [0 \<mapsto> 2]" "st_index st_opened = [2 \<mapsto> 0]" "st_count st_opened = Some 1"
  "st_log st_opened = [2 \<mapsto> [\<lparr>sa_action = ''stake'', sa_timestamp = 0, sa_amount = 1000, sa_epoch = 0\<rparr>]]"
  "st_log_index st_opened = [2 \<mapsto> 1]" "st_entry st_opened = [2 \<mapsto> 1]" "st_next_claim st_opened = [2 \<mapsto> 1]"
  "st_snap_index st_opened = Some [1]" "st_next_snap st_opened = Some 1" "st_dashboard st_opened = None"
  "st_reputation st_opened = None" "st_sessions st_opened = None" "st_tiers st_opened = None" "st_next_dist st_opened = None"
  "st_guard st_opened = guard_init" "st_pause_guardian st_opened = None" "st_penalty_pool st_opened = None"
  "st_pending_rewards st_opened = Map.empty" "st_settled st_opened = Map.empty" "st_lockup st_opened = Map.empty"
  "st_pend_slot st_opened = Map.empty" "st_pend_pos st_opened = Map.empty" "st_pend_count st_opened = None"
  by (simp_all add: st_opened_def staking_empty_def)

definition st_left :: staking where
  "st_left = st_opened\<lparr>st_lockup := [(2, 1) \<mapsto> st_demo_lockup], st_pend_slot := [0 \<mapsto> (2, 1)],
     st_pend_pos := [(2, 1) \<mapsto> 0], st_pend_count := Some 1, st_settled := [2 \<mapsto> 2],
     st_stake := Map.empty, st_entry := Map.empty, st_next_claim := Map.empty, st_slot := Map.empty, st_index := Map.empty,
     st_count := Some 0, st_total := Some 0,
     st_log := [2 \<mapsto> [\<lparr>sa_action = ''stake'', sa_timestamp = 0, sa_amount = 1000, sa_epoch = 0\<rparr>,
       \<lparr>sa_action = ''unstake'', sa_timestamp = 1209600, sa_amount = 1000, sa_epoch = 2\<rparr>]],
     st_log_index := [2 \<mapsto> 2], st_snap_index := Some [1, 2], st_next_snap := Some 2\<rparr>"

definition st_back :: mnt_world where
  "st_back = (\<lambda>_. mnt_empty)(50 := mnt_empty\<lparr>m_bal := [0 \<mapsto> 0, 2 \<mapsto> 1000]\<rparr>)"

lemma st_left_run: "unstake mnt_ops st_alone (demo_env 1209600 [2]) 2 (st_opened, st_held) = Inr (st_left, st_back)"
proof -
  define g where "g = guard_init\<lparr>g_locks := [''unstake'' \<mapsto> True]\<rparr>"
  have pen: "compute_early_unstake_penalty 0 1209600 1209600 1000 =
      (Inr \<lparr>pc_duration = 1209600, pc_bps = 0, pc_penalty = 0, pc_returned = 1000, pc_below_min = False\<rparr> :: penalty_calc st_res)"
    by (simp add: compute_early_unstake_penalty_def staking_consts)
  have enter: "rg_enter ''unstake'' None (st_guard st_opened) = (Inr g :: guard_state st_res)"
    by (simp add: st_opened_def staking_empty_def rg_enter_def rg_enter_raw_def rg_commit_def guard_init_def g_def)
  have body: "unstake_body mnt_ops st_alone (demo_env 1209600 [2]) 2 (st_opened\<lparr>st_guard := g\<rparr>, st_held) =
      Inr (st_left\<lparr>st_guard := g\<rparr>, st_back)"
    unfolding unstake_body_def prod.case Let_def demo_env_simps
    by (simp add: st_demo_settle pen st_opened_simps st_left_def st_held_def st_back_def compute_tier_def mentor_quality_def
      penalty_to_pool_def pay_returned_def pay_self_def stakers_remove_def safe_sub_def append_staker_action_def
      record_stake_snapshot_index_def report_tvl_def detect_suspicious_pattern_def load_action_log_def push_snapshot_index_def
      MAX_SNAPSHOTS_def action_stake_def action_unstake_def staking_consts width_defs Let_def
      mnt_w_transfer_def mnt_transfer_def mnt_require_not_paused_def mnt_is_paused_def mnt_balance_def mnt_empty_def
      mnt_w_balance_def del: One_nat_def)
  show ?thesis
    by (simp add: unstake_def require_not_rg_paused_def st_guarded_def guarded_def enter body)
      (simp add: st_left_def st_opened_simps rg_is_paused_def rg_release_def guard_init_def g_def Let_def)
qed
text \<open>Thirty days later the contract holds other funds of token 50, and account 2 claims.\<close>

lemma st_left_simps:
  "st_admin st_left = Some 1" "st_epoch st_left = Some 2" "st_entry st_left = Map.empty" "st_next_claim st_left = Map.empty"
  "st_settled st_left = [2 \<mapsto> 2]" "st_lockup st_left = [(2, 1) \<mapsto> st_demo_lockup]" "st_pend_slot st_left = [0 \<mapsto> (2, 1)]"
  "st_pend_pos st_left = [(2, 1) \<mapsto> 0]" "st_pend_count st_left = Some 1" "st_pending_rewards st_left = Map.empty"
  "st_log st_left = [2 \<mapsto> [\<lparr>sa_action = ''stake'', sa_timestamp = 0, sa_amount = 1000, sa_epoch = 0\<rparr>,
       \<lparr>sa_action = ''unstake'', sa_timestamp = 1209600, sa_amount = 1000, sa_epoch = 2\<rparr>]]"
  "st_log_index st_left = [2 \<mapsto> 2]" "st_snap_index st_left = Some [1, 2]" "st_next_snap st_left = Some 2"
  "st_guard st_left = guard_init" "st_pause_guardian st_left = None" "st_stake st_left = Map.empty" "st_total st_left = Some 0"
  "st_next_dist st_left = None"
  by (simp_all add: st_left_def st_opened_simps)

definition st_funds :: mnt_world where "st_funds = mnt_holding 50 0 700"

lemma st_claimed:
  "\<exists>s' w'. claim_rewards mnt_ops st_alone (demo_env 3801600 [2]) 2 50 (st_left, st_funds) = Inr (s', w') \<and>
     mnt_w_balance 50 2 w' = 500"
proof -
  define g where "g = guard_init\<lparr>g_locks := [''claim_rewards'' \<mapsto> True]\<rparr>"
  have enter: "rg_enter ''claim_rewards'' None guard_init = (Inr g :: guard_state st_res)"
    by (simp add: rg_enter_def rg_enter_raw_def rg_commit_def guard_init_def g_def)
  have np: "\<not> rg_is_paused (Some ''claim_rewards'') guard_init" by (simp add: rg_is_paused_def guard_init_def)
  have settle: "settle_epoch_rewards (demo_env 3801600 [2]) 2 (st_left\<lparr>st_guard := g\<rparr>) = Inr (st_left\<lparr>st_guard := g\<rparr>)"
    by (simp add: settle_epoch_rewards_def settle_range_def st_left_simps settle_loop_stop MAX_EPOCHS_PER_SETTLE_def Let_def
        width_defs)
  have two: "[0..<2] = [0, Suc 0]" by (simp add: upt_rec)
  have "\<exists>s' w'. claim_body mnt_ops (demo_env 3801600 [2]) 2 50 (st_left\<lparr>st_guard := g\<rparr>, st_funds) = Inr (s', w') \<and>
     mnt_w_balance 50 2 w' = 500"
    unfolding claim_body_def prod.case Let_def demo_env_simps
    by (simp add: settle two st_left_simps st_demo_lockup_def MAX_LOCKUPS_PER_CLAIM_def remove_pending_distribution_def st_funds_def
      mnt_holding_def pay_self_def append_staker_action_def
      record_stake_snapshot_index_def detect_suspicious_pattern_def load_action_log_def push_snapshot_index_def
      MAX_SNAPSHOTS_def action_stake_def action_unstake_def action_claim_def staking_consts width_defs Let_def
      mnt_w_transfer_def mnt_transfer_def mnt_require_not_paused_def mnt_is_paused_def mnt_balance_def mnt_empty_def
      mnt_w_balance_def)
  then show ?thesis
    by (auto simp: claim_rewards_def require_not_paused_def require_not_rg_paused_def st_guarded_def guarded_def enter
        st_left_simps np)
qed

lemma st_opened_reach: "st_reach mnt_ops st_alone (\<lambda>_. True) st_opened st_held"
  using st_play_reach [OF st_opened_run st_reach.Start] .

lemma st_left_reach: "st_reach mnt_ops st_alone (\<lambda>_. True) st_left w"
  by (rule st_reach.Outside [OF st_reach.Call [OF st_opened_reach, of "demo_env 1209600 [2]" "SC_Unstake 2" st_left st_back]])
    (simp add: st_left_run)

end
