(* ===== verification/StakingProps.thy ===== *)
theory StakingProps
  imports StakingDemo
begin

text \<open>The properties of the staking contract.\<close>

section \<open>When a distribution succeeds\<close>

lemma snapshot_loop_total:
  assumes "\<And>i. i \<in> set ks \<Longrightarrow> st_slot s i = Some (f i) \<and> f i \<in> dom (st_stake s)"
    "\<And>a r. st_stake s a = Some r \<Longrightarrow> 0 < sr_amount r" "0 \<le> x"
    "x + sum_list (map (\<lambda>i. sr_amount (the (st_stake s (f i)))) ks) \<le> i128_max"
  shows "\<exists>y s'. snapshot_loop t e ks (x, s) = Inr (y, s')"
  using assms
proof (induction ks arbitrary: x s)
  case (Cons k ks)
  obtain r where r: "st_slot s k = Some (f k)" "st_stake s (f k) = Some r" using Cons.prems(1) [of k] by auto
  have pos: "0 < sr_amount r" by (rule Cons.prems(2) [OF r(2)])
  have rest: "0 \<le> sum_list (map (\<lambda>i. sr_amount (the (st_stake s (f i)))) ks)"
  proof (rule sum_list_nonneg)
    fix z assume "z \<in> set (map (\<lambda>i. sr_amount (the (st_stake s (f i)))) ks)"
    then obtain i where i: "i \<in> set ks" "z = sr_amount (the (st_stake s (f i)))" by auto
    from Cons.prems(1) [of i] i(1) obtain q where "st_stake s (f i) = Some q" by auto
    with Cons.prems(2) [of "f i" q] i(2) show "0 \<le> z" by simp
  qed
  define s1 where "s1 = s\<lparr>st_epoch_stake := (st_epoch_stake s)((e, f k) \<mapsto> sr_amount r)\<rparr>"
  have "in_i128 (x + sr_amount r)"
    using Cons.prems(3,4) pos rest r(2) by (simp add: in_i128_def i128_min_def)
  then obtain x1 where x1: "snapshot_slot t e k (x, s) = Inr (x1, s1)" "x1 = x \<or> x1 = x + sr_amount r"
    using r by (cases "MIN_STAKING_DURATION_SECS \<le> t - sr_staked_at r") (simp_all add: snapshot_slot_def s1_def checked_i128_def Let_def)
  have "\<exists>y s'. snapshot_loop t e ks (x1, s1) = Inr (y, s')"
  proof (rule Cons.IH)
    show "0 \<le> x1" using Cons.prems(3) x1(2) pos by auto
    show "x1 + sum_list (map (\<lambda>i. sr_amount (the (st_stake s1 (f i)))) ks) \<le> i128_max"
      using Cons.prems(4) x1(2) pos r(2) by (auto simp: s1_def)
  qed (use Cons.prems(1,2) in \<open>auto simp: s1_def\<close>)
  with x1(1) show ?case by (auto simp: res_simps)
qed simp

lemma distribute_total:
  assumes "stakers_ok s" "get_or 0 (st_count s) \<le> 500" "get_or 0 (st_total s) \<le> i128_max"
    "get_or 0 (st_epoch s) < u64_max" "0 \<le> a" "0 \<le> get_or 0 (st_penalty_pool s)" "a + get_or 0 (st_penalty_pool s) \<le> i128_max"
  shows "\<exists>s'. internal_distribute_revenue env a s = Inr s' \<and>
    st_epoch_reward s' (get_or 0 (st_epoch s)) = Some (a + get_or 0 (st_penalty_pool s))"
proof -
  obtain xs where xs: "stakers.holds s xs" "set xs = dom (st_stake s)" using assms(1) by (auto simp: stakers_ok_def)
  note rep = xs(1) [unfolded stakers_holds]
  have n: "get_or 0 (st_count s) = length xs" "distinct xs" using dense_repD(1,2) [OF rep] by simp_all
  have mp: "map (\<lambda>i. g (xs ! i)) [0..<length xs] = map g xs" for g :: "addr \<Rightarrow> int"
    by (rule nth_equalityI) simp_all
  have "sum_list (map (\<lambda>i. sr_amount (the (st_stake s (xs ! i)))) [0..<length xs]) = get_or 0 (st_total s)"
    using stakers_okD(2) [OF assms(1)] sum_list_wsum [OF n(2) xs(2), of sr_amount]
      mp [of "\<lambda>b. sr_amount (the (st_stake s b))"] by simp
  then have "\<exists>y s1. snapshot_loop (ledger_ts env) (get_or 0 (st_epoch s)) [0..<length xs] (0, s) = Inr (y, s1)"
    using dense_repD(3) [OF rep] xs(2) nth_mem [of _ xs] stakers_okD(3) [OF assms(1)] assms(3)
    by (intro snapshot_loop_total [of _ _ "\<lambda>i. xs ! i"]) (auto simp: stake_ok_def)
  then obtain y s1 where run: "snapshot_loop (ledger_ts env) (get_or 0 (st_epoch s)) [0..<length xs] (0, s) = Inr (y, s1)" by blast
  from snapshot_loop_frame [OF this] obtain q where "s1 = s\<lparr>st_epoch_stake := q\<rparr>" by blast
  with run assms(2,4-7) n(1) have "\<exists>s'. internal_distribute_revenue env a s = Inr s'"
    by (simp add: internal_distribute_revenue_def Let_def ensure_def expect_def checked_i128_def in_i128_def i128_min_def
        MAX_STAKERS_PER_SNAPSHOT_def safe_add_u64_def checked_u64_def)
  with distribute_exact assms(1) show ?thesis by fastforce
qed


section \<open>The storage\<close>

text \<open>
  C10. The storage of the staking contract is well formed in every reachable state. The stakers sit in
  the slots 0 to n-1 of a dense array without repetition, and are exactly the accounts with a stake
  record; the total is the sum of the recorded amounts; every record belongs to its account, has a
  positive amount within the financial limit, a tier up to 3 and a lock of at least fourteen days; a log of
  actions has at most ten entries; and the closed epochs, those below the current one, are exactly
  the ones with a reward, an eligible total and a staked total, none of them negative. Five tests
  of the source file stake for ten days or for one day and expect such a lock to be recorded;
  \<open>stake\<close> answers \<open>LockPeriodTooShort\<close> to them, and fourteen days is what it documents.
\<close>

theorem staking_wellformed:
  assumes "st_reach T P inst s w"
  shows "(\<exists>xs. distinct xs \<and> set xs = dom (st_stake s) \<and> get_or 0 (st_count s) = length xs \<and>
       (\<forall>i < length xs. st_slot s i = Some (xs ! i) \<and> st_index s (xs ! i) = Some i)) \<and>
    get_or 0 (st_total s) = wsum sr_amount (st_stake s) \<and>
    (\<forall>a r. st_stake s a = Some r \<longrightarrow> sr_mentor r = a \<and> 0 < sr_amount r \<and> sr_amount r \<le> ST_MAX_FINANCIAL_AMOUNT \<and>
       sr_tier r \<le> 3 \<and> sr_staked_at r + MIN_STAKING_DURATION_SECS \<le> sr_unlock_at r) \<and>
    (\<forall>a. length (load_action_log a s) \<le> 10) \<and>
    (\<forall>e. (st_epoch_reward s e \<noteq> None) = (e < get_or 0 (st_epoch s)) \<and>
         (st_epoch_eligible s e \<noteq> None) = (e < get_or 0 (st_epoch s)) \<and>
         (st_epoch_total s e \<noteq> None) = (e < get_or 0 (st_epoch s)) \<and>
         0 \<le> get_or 0 (st_epoch_reward s e) \<and> 0 \<le> get_or 0 (st_epoch_eligible s e))"
proof -
  have inv: "st_inv s" using assms by (rule st_reach_inv)
  note p = st_invD [OF inv]
  obtain xs where xs: "stakers.holds s xs" "set xs = dom (st_stake s)" using p(1) by (auto simp: stakers_ok_def)
  note rep = xs(1) [unfolded stakers_holds]
  have arr: "\<exists>xs. distinct xs \<and> set xs = dom (st_stake s) \<and> get_or 0 (st_count s) = length xs \<and>
       (\<forall>i < length xs. st_slot s i = Some (xs ! i) \<and> st_index s (xs ! i) = Some i)"
    using dense_repD(1-3) [OF rep] dense_rep_index [OF rep] xs(2) by (intro exI [of _ xs]) simp
  have logs: "length (load_action_log a s) \<le> 10" for a
    using logs_okD [OF p(2), of a] by (simp add: load_action_log_def PATTERN_DETECTION_WINDOW_def)
  have pos: "0 \<le> get_or 0 (st_epoch_reward s e)" "0 \<le> get_or 0 (st_epoch_eligible s e)" for e
    using epochs_okD(4,5) [OF p(3), of e]
    by (cases "st_epoch_reward s e"; cases "st_epoch_eligible s e"; simp)+
  show ?thesis
    using arr logs pos stakers_okD(2,3) [OF p(1)] epochs_okD(1-3) [OF p(3)]
    unfolding stake_ok_def by blast
qed

theorem staking_wellformed_witness:
  "get_or 0 (st_total st_opened) = wsum sr_amount (st_stake st_opened)"
  using staking_wellformed [OF st_opened_reach] by blast


section \<open>Leaving\<close>

text \<open>
  C15. Leaving gives back the stake less the penalty of the schedule. In every reachable state a
  successful exit is signed by the staker; after the unlock time there is no penalty, before it the
  penalty is the rate of the schedule, between 10 and 50 percent and decreasing with the time staked; the
  penalty goes to the pool, the rest is transferred to the staker, and the two add up to the stake;
  record, entry epoch and claim pointer of the staker are removed, and no other stake changes.
\<close>

theorem unstake_exact:
  assumes "st_reach T P inst s w" "unstake T P env m (s, w) = Inr (s', w')"
  shows "\<exists>r tok penalty. st_stake s m = Some r \<and> st_mnt s = Some tok \<and> auth_by env m \<and>
    penalty = (if sr_unlock_at r \<le> ledger_ts env then 0
               else sr_amount r * int (penalty_rate (ledger_ts env - sr_staked_at r)) div 10000) \<and>
    0 \<le> penalty \<and> 2 * penalty \<le> sr_amount r \<and>
    tk_transfer T (as_invoker env) tok (self_addr env) m (sr_amount r - penalty) w = Inr w' \<and>
    get_or 0 (st_penalty_pool s') = get_or 0 (st_penalty_pool s) + penalty \<and>
    st_stake s' = (st_stake s)(m := None) \<and> st_entry s' m = None \<and> st_next_claim s' m = None \<and>
    get_or 0 (st_total s') = get_or 0 (st_total s) - sr_amount r"
  using assms(2)
proof (rule unstake_Inr)
  fix g0 s1 g x y z l i u v tok and r :: stake_record and pen :: penalty_calc
  assume f: "st_stake s m = Some r" "auth_by env m"
      "compute_early_unstake_penalty (sr_staked_at r) (ledger_ts env) (sr_unlock_at r) (sr_amount r) = (Inr pen :: penalty_calc st_res)"
      "settle_epoch_rewards env m (s\<lparr>st_guard := g0\<rparr>) = Inr s1" "st_mnt s = Some tok" "pay_returned T env tok m pen w = Inr w'"
    and s': "s' = s1\<lparr>st_guard := g,
       st_penalty_pool := (if 0 < pc_penalty pen then Some (get_or 0 (st_penalty_pool s) + pc_penalty pen)
                           else st_penalty_pool s),
       st_stake := (st_stake s)(m := None), st_entry := (st_entry s)(m := None),
       st_next_claim := (st_next_claim s1)(m := None), st_slot := x, st_index := y, st_count := z,
       st_total := Some (get_or 0 (st_total s) - sr_amount r),
       st_log := l, st_log_index := i, st_snap_index := u, st_next_snap := v\<rparr>"
  have r: "0 < sr_amount r" "in_i128 (sr_amount r)"
    using stakers_okD(3) [OF st_invD(1) [OF st_reach_inv [OF assms(1)]] f(1)]
    by (simp_all add: stake_ok_def in_i128_def i128_min_def i128_max_def ST_MAX_FINANCIAL_AMOUNT_def)
  note split = penalty_split [OF f(3) less_imp_le [OF r(1)] r(2)]
  have ret: "pc_returned pen = sr_amount r - pc_penalty pen" "0 < pc_returned pen"
    using split(1,3) r(1) by simp_all
  have pay: "tk_transfer T (as_invoker env) tok (self_addr env) m (sr_amount r - pc_penalty pen) w = Inr w'"
    using f(6) ret(2) unfolding ret(1) [symmetric] by (simp add: pay_returned_def pay_self_Inr)
  show ?thesis
    using f(1,2,5) split(2,3,5) pay by (intro exI [of _ r] exI [of _ tok] exI [of _ "pc_penalty pen"]) (simp add: s')
qed

theorem unstake_exact_witness:
  "\<exists>r tok penalty. st_stake st_opened 2 = Some r \<and> penalty = (0 :: int) \<and>
     tk_transfer mnt_ops (as_invoker (demo_env 1209600 [2])) tok 0 2 (sr_amount r - penalty) st_held = Inr st_back"
  using unstake_exact [OF st_opened_reach st_left_run] by (auto simp: st_opened_simps)


section \<open>Epochs\<close>

text \<open>
  C11. A closed epoch is final. From a reachable state, a call leaves the data of all epochs as it is,
  or closes the current epoch: then the epoch counter grows by one, the data of the earlier epochs stays,
  the closed epoch records the stake of every live staker, the total of those staked for fourteen days or
  more, and the amount announced plus the whole penalty pool as reward, and the pool is emptied. Only a
  distribution or the message of the treasury closes an epoch, and no token moves then.
\<close>

theorem closed_epochs_final:
  assumes "st_reach T P inst s w" "st_exec T P inst env c (s, w) = Inr (s', w')"
  shows "epoch_data s' = epoch_data s \<or>
    (\<exists>a e. ((\<exists>tok. c = SC_Distribute tok a) \<or> (\<exists>i tr tok t. c = SC_Receive i tr tok a t)) \<and>
      e = get_or 0 (st_epoch s) \<and> get_or 0 (st_epoch s') = e + 1 \<and> w' = w \<and>
      (\<forall>f b. f \<noteq> e \<longrightarrow> st_epoch_reward s' f = st_epoch_reward s f \<and> st_epoch_eligible s' f = st_epoch_eligible s f \<and>
        st_epoch_total s' f = st_epoch_total s f \<and> st_epoch_stake s' (f, b) = st_epoch_stake s (f, b)) \<and>
      (\<forall>b. st_epoch_stake s' (e, b) = map_option sr_amount (st_stake s b)) \<and>
      st_epoch_total s' e = Some (get_or 0 (st_total s)) \<and>
      st_epoch_eligible s' e = Some (wsum (\<lambda>r. if MIN_STAKING_DURATION_SECS \<le> ledger_ts env - sr_staked_at r
         then sr_amount r else 0) (st_stake s)) \<and>
      st_epoch_reward s' e = Some (a + get_or 0 (st_penalty_pool s)) \<and> get_or 0 (st_penalty_pool s') = 0)"
  using assms(2) st_reach_inv [OF assms(1)]
proof (cases rule: exec_epochs)
  case Keep
  then show ?thesis by simp
next
  case (Close a)
  let ?e = "get_or 0 (st_epoch s)"
  have w: "w' = w"
    using Close(2) assms(2)
    by (elim disjE exE) (simp, erule distribute_revenue_Inr, simp, simp, erule treasury_Inr, simp)
  have none: "st_epoch_stake s (?e, b) = None" for b
    using epochs_okD(6) [OF st_invD(3) [OF st_reach_inv [OF assms(1)]], of ?e b] by (cases "st_epoch_stake s (?e, b)") auto
  have d: "get_or 0 (st_epoch s') = ?e + 1" "st_epoch_total s' = (st_epoch_total s)(?e \<mapsto> get_or 0 (st_total s))"
      "st_epoch_eligible s' = (st_epoch_eligible s)(?e \<mapsto> eligible_stake (ledger_ts env) s)"
      "st_epoch_reward s' = (st_epoch_reward s)(?e \<mapsto> a + get_or 0 (st_penalty_pool s))"
      "st_epoch_stake s' = record_stakes ?e (dom (st_stake s)) (st_stake s) (st_epoch_stake s)"
      "get_or 0 (st_penalty_pool s') = 0"
    using Close(1) by (simp_all add: closes_epoch_def epoch_data_def)
  have stk: "st_epoch_stake s' (?e, b) = map_option sr_amount (st_stake s b)" for b
    using none [of b] by (auto simp: d(5) record_stakes_def)
  have el: "eligible_stake (ledger_ts env) s = wsum (\<lambda>r. if MIN_STAKING_DURATION_SECS \<le> ledger_ts env - sr_staked_at r
         then sr_amount r else 0) (st_stake s)"
    unfolding eligible_stake_def by (rule arg_cong [of _ _ "\<lambda>f. wsum f (st_stake s)"]) (simp add: mature_amount_def mature_def fun_eq_iff)
  have old: "\<forall>f b. f \<noteq> ?e \<longrightarrow> st_epoch_reward s' f = st_epoch_reward s f \<and> st_epoch_eligible s' f = st_epoch_eligible s f \<and>
        st_epoch_total s' f = st_epoch_total s f \<and> st_epoch_stake s' (f, b) = st_epoch_stake s (f, b)"
    by (simp add: d record_stakes_def)
  show ?thesis
    by (rule disjI2, intro exI [of _ a] exI [of _ ?e] conjI refl Close(2) d(1,6) w old allI stk) (simp_all add: d el)
qed
lemma st_demo_close:
  "\<exists>s'. distribute_revenue (demo_env 1209600 []) 50 100 (st_left, st_back) = Inr (s', st_back)"
  by (simp add: distribute_revenue_def st_left_simps st_guarded_def guarded_def rg_enter_def rg_enter_raw_def rg_commit_def
      rg_is_paused_def guard_init_def validate_or_panic_def st_valid_revenue_def validator_defs v_check_def v_validate_def
      internal_distribute_revenue_def ST_MAX_FINANCIAL_AMOUNT_def st_left_def st_opened_simps MAX_STAKERS_PER_SNAPSHOT_def
      safe_add_u64_def width_defs Let_def)

theorem closed_epochs_final_witness:
  "\<exists>s'. distribute_revenue (demo_env 1209600 []) 50 100 (st_left, st_back) = Inr (s', st_back) \<and>
     (epoch_data s' = epoch_data st_left \<or> get_or 0 (st_epoch s') = 3)"
proof -
  obtain s' where run: "distribute_revenue (demo_env 1209600 []) 50 100 (st_left, st_back) = Inr (s', st_back)"
    using st_demo_close by blast
  then have "st_exec mnt_ops st_alone (\<lambda>_. True) (demo_env 1209600 []) (SC_Distribute 50 100) (st_left, st_back) = Inr (s', st_back)"
    by simp
  from closed_epochs_final [OF st_left_reach this] run show ?thesis by (auto simp: st_left_simps)
qed


section \<open>Locked rewards\<close>

text \<open>
  C12. A locked reward is fair, made once and paid at most once. In every reachable state a locked
  reward is the staker's recorded share of the epoch's reward, scaled by a multiplier between one and three.
  A later call leaves it as it is, or is a claim signed by the staker, after the unlock time, that marks it
  paid; a new one is locked for thirty days. Over any run: a locked reward that has a hundred others
  of the same staker in earlier epochs, paid or not, is never paid.
\<close>

theorem lockup_lifecycle:
  assumes "st_reach T P inst s w"
  shows "(\<forall>a e l. st_lockup s (a, e) = Some l \<longrightarrow>
      (\<exists>x r d. st_epoch_stake s (e, a) = Some x \<and> st_epoch_reward s e = Some r \<and> st_epoch_eligible s e = Some d \<and>
        rl_base l = x * r div d \<and> 10000 \<le> rl_multiplier l \<and> rl_multiplier l \<le> 30000 \<and>
        rl_scaled l = min i128_max (rl_base l * int (rl_multiplier l) div 10000))) \<and>
    (\<forall>env c w s' w' a e. st_exec T P inst env c (s, w) = Inr (s', w') \<longrightarrow>
      (\<forall>l. st_lockup s (a, e) = Some l \<longrightarrow> st_lockup s' (a, e) = Some l \<or>
         (\<exists>tok. c = SC_Claim a tok) \<and> auth_by env a \<and> \<not> rl_claimed l \<and> rl_unlocks_at l \<le> ledger_ts env \<and>
         st_lockup s' (a, e) = Some (l\<lparr>rl_claimed := True\<rparr>)) \<and>
      (\<forall>l. st_lockup s (a, e) = None \<longrightarrow> st_lockup s' (a, e) = Some l \<longrightarrow>
         rl_unlocks_at l = sat_u64 (ledger_ts env + 2592000))) \<and>
    (\<forall>s' a e l. st_after T P inst (\<lambda>_ _. True) s s' \<longrightarrow> st_lockup s (a, e) = Some l \<longrightarrow> \<not> rl_claimed l \<longrightarrow>
      100 \<le> card {f. f < e \<and> st_lockup s (a, f) \<noteq> None} \<longrightarrow> st_lockup s' (a, e) = Some l)"
proof (intro conjI allI impI)
  fix a e l assume "st_lockup s (a, e) = Some l"
  from lockups_belowD(3) [OF st_invD(4) [OF st_reach_inv [OF assms]] this] have fair: "lockup_fair s a e l" .
  then have "rl_scaled l = apply_bps_multiplier (rl_base l) (rl_multiplier l)" by (auto simp: lockup_fair_def)
  also have "\<dots> = min i128_max (rl_base l * int (rl_multiplier l) div 10000)"
    by (rule apply_bps_exact) (use fair in \<open>auto simp: lockup_fair_def u32_max_def\<close>)
  finally have scaled: "rl_scaled l = min i128_max (rl_base l * int (rl_multiplier l) div 10000)" .
  show "\<exists>x r d. st_epoch_stake s (e, a) = Some x \<and> st_epoch_reward s e = Some r \<and> st_epoch_eligible s e = Some d \<and>
        rl_base l = x * r div d \<and> 10000 \<le> rl_multiplier l \<and> rl_multiplier l \<le> 30000 \<and>
        rl_scaled l = min i128_max (rl_base l * int (rl_multiplier l) div 10000)"
    using fair scaled unfolding lockup_fair_def by blast
next
  fix env c w s' w' a e l
  assume run: "st_exec T P inst env c (s, w) = Inr (s', w')"
  note step = exec_lockups [OF run st_reach_inv [OF assms], of a e]
  show "st_lockup s' (a, e) = Some l \<or> (\<exists>tok. c = SC_Claim a tok) \<and> auth_by env a \<and> \<not> rl_claimed l \<and>
      rl_unlocks_at l \<le> ledger_ts env \<and> st_lockup s' (a, e) = Some (l\<lparr>rl_claimed := True\<rparr>)"
    if "st_lockup s (a, e) = Some l"
    using step(1) [OF that] unfolding lockup_paid_def by blast
  show "rl_unlocks_at l = sat_u64 (ledger_ts env + 2592000)"
    if "st_lockup s (a, e) = None" "st_lockup s' (a, e) = Some l"
    using step(2) [OF that] by (simp add: REWARD_LOCKUP_SECS_def)
next
  fix s' a e l
  assume after: "st_after T P inst (\<lambda>_ _. True) s s'" and l: "st_lockup s (a, e) = Some l" "\<not> rl_claimed l"
    and many: "100 \<le> card {f. f < e \<and> st_lockup s (a, f) \<noteq> None}"
  define earlier where "earlier t = {f. f < e \<and> st_lockup t (a, f) \<noteq> None}" for t :: staking
  have "st_lockup s' (a, e) = Some l \<and> earlier s \<subseteq> earlier s'"
  proof (rule st_after_keeps [OF after st_reach_inv [OF assms]])
    show "st_lockup s (a, e) = Some l \<and> earlier s \<subseteq> earlier s" using l(1) by simp
  next
    fix env c t w t' w'
    assume run: "st_exec T P inst env c (t, w) = Inr (t', w')" and inv: "st_inv t"
      and I: "st_lockup t (a, e) = Some l \<and> earlier s \<subseteq> earlier t"
    have "card (earlier s) \<le> card (earlier t)" using I by (intro card_mono) (simp_all add: earlier_def)
    then have "\<not> card (earlier t) < 100" using many by (simp add: earlier_def)
    then have "\<not> lockup_paid env c t a e l" by (simp add: lockup_paid_def MAX_LOCKUPS_PER_CLAIM_def earlier_def)
    then have "st_lockup t' (a, e) = Some l" using exec_lockups(1) [OF run inv] I by blast
    moreover have "earlier t \<subseteq> earlier t'"
      using exec_lockups(1) [OF run inv, of a] by (fastforce simp: earlier_def)
    ultimately show "st_lockup t' (a, e) = Some l \<and> earlier s \<subseteq> earlier t'" using I by blast
  qed
  then show "st_lockup s' (a, e) = Some l" by blast
qed

theorem lockup_lifecycle_witness:
  "\<exists>x r d. st_epoch_stake st_left (1, 2) = Some x \<and> st_epoch_reward st_left 1 = Some r \<and>
     st_epoch_eligible st_left 1 = Some d \<and> 500 = x * r div d"
proof -
  have "st_lockup st_left (2, 1) = Some st_demo_lockup" by (simp add: st_left_simps)
  with conjunct1 [OF lockup_lifecycle [OF st_left_reach [of st_back]]] have
    "\<exists>x r d. st_epoch_stake st_left (1, 2) = Some x \<and> st_epoch_reward st_left 1 = Some r \<and>
     st_epoch_eligible st_left 1 = Some d \<and> rl_base st_demo_lockup = x * r div d" by blast
  then show ?thesis by (simp add: st_demo_lockup_def)
qed

text \<open>
  C13. A claim pays exactly what it marks. From a reachable state a successful claim of \<open>a\<close> is signed by
  \<open>a\<close>; the amount transferred, in the token that the caller names, is the sum of the rewards
  that the call newly marks as paid plus the balance credited by batch distributions, which it clears; it
  is positive; every reward it marks was past its lock.
\<close>

theorem claim_exact:
  assumes "st_reach T P inst s w" "claim_rewards T P env a tok (s, w) = Inr (s', w')"
  shows "\<exists>es amt. finite es \<and> auth_by env a \<and>
    es = {e. (\<exists>l. st_lockup s' (a, e) = Some l \<and> rl_claimed l) \<and> \<not> (\<exists>l. st_lockup s (a, e) = Some l \<and> rl_claimed l)} \<and>
    amt = (\<Sum>e \<in> es. rl_scaled (the (st_lockup s' (a, e)))) + get_pending_rewards a s \<and> 0 < amt \<and>
    tk_transfer T (as_invoker env) tok (self_addr env) a amt w = Inr w' \<and> get_pending_rewards a s' = 0 \<and>
    (\<forall>e \<in> es. rl_unlocks_at (the (st_lockup s' (a, e))) \<le> ledger_ts env)"
  using assms(2) st_reach_inv [OF assms(1)]
proof (rule claim_lockups)
  fix lk ds amt
  assume lk: "\<And>b f. lk (b, f) = st_lockup s (b, f) \<or> b = a \<and> (\<exists>l. lk (b, f) = Some l \<and> fresh_lockup env s b f l)"
    and ds: "ds = claim_due (ledger_ts env) MAX_LOCKUPS_PER_CLAIM lk a [0..<get_or 0 (st_epoch s)]"
    and s': "st_lockup s' = mark_claimed a (set ds) lk"
    and amt: "amt = lockup_sum lk a ds + get_or 0 (st_pending_rewards s a)" "amt \<noteq> 0"
    and pay: "tk_transfer T (as_invoker env) tok (self_addr env) a amt w = Inr w'" "auth_by env a"
    and clr: "get_or 0 (st_pending_rewards s' a) = 0"
  have due: "\<exists>l. lk (a, e) = Some l \<and> lockup_due (ledger_ts env) l" if "e \<in> set ds" for e
    using that unfolding ds by (rule claim_due_some)
  have new: "set ds = {e. (\<exists>l. st_lockup s' (a, e) = Some l \<and> rl_claimed l) \<and> \<not> (\<exists>l. st_lockup s (a, e) = Some l \<and> rl_claimed l)}"
  proof (intro set_eqI iffI)
    fix e assume e: "e \<in> set ds"
    from due [OF this] obtain l where l: "lk (a, e) = Some l" "\<not> rl_claimed l" by (auto simp: lockup_due_def)
    have "st_lockup s' (a, e) = Some (l\<lparr>rl_claimed := True\<rparr>)" using e l by (simp add: s' mark_claimed_def)
    then show "e \<in> {e. (\<exists>l. st_lockup s' (a, e) = Some l \<and> rl_claimed l) \<and> \<not> (\<exists>l. st_lockup s (a, e) = Some l \<and> rl_claimed l)}"
      using l lk [of a e] by (auto simp: fresh_lockup_def)
  next
    fix e assume "e \<in> {e. (\<exists>l. st_lockup s' (a, e) = Some l \<and> rl_claimed l) \<and> \<not> (\<exists>l. st_lockup s (a, e) = Some l \<and> rl_claimed l)}"
    then show "e \<in> set ds" using lk [of a e] by (auto simp: s' mark_claimed_def fresh_lockup_def split: if_splits)
  qed
  have same: "rl_scaled (the (st_lockup s' (a, e))) = rl_scaled (the (lk (a, e)))"
      "rl_unlocks_at (the (st_lockup s' (a, e))) \<le> ledger_ts env" "0 < rl_scaled (the (lk (a, e)))" if "e \<in> set ds" for e
    using due [OF that] that by (auto simp: s' mark_claimed_def lockup_due_def)
  have "distinct ds" unfolding ds claim_due_def claim_window_def by (intro distinct_filter distinct_take) simp
  then have "lockup_sum lk a ds = (\<Sum>e \<in> set ds. rl_scaled (the (lk (a, e))))"
    by (simp add: lockup_sum_def sum_list_distinct_conv_sum_set)
  also have "\<dots> = (\<Sum>e \<in> set ds. rl_scaled (the (st_lockup s' (a, e))))" by (rule sum.cong) (simp_all add: same)
  finally have sum: "lockup_sum lk a ds = (\<Sum>e \<in> set ds. rl_scaled (the (st_lockup s' (a, e))))" .
  have "0 \<le> lockup_sum lk a ds" unfolding sum by (rule sum_nonneg) (use same in force)
  moreover have "0 \<le> get_or 0 (st_pending_rewards s a)"
    using epochs_okD(8) [OF st_invD(3) [OF st_reach_inv [OF assms(1)]]] by (cases "st_pending_rewards s a") auto
  ultimately have "0 < amt" using amt by linarith
  then show ?thesis using pay clr amt(1) same(2) unfolding sum
    by (intro exI [of _ "set ds"] exI [of _ amt] conjI new) (simp_all add: get_pending_rewards_def)
qed

theorem claim_exact_witness:
  "\<exists>s' w' amt. claim_rewards mnt_ops st_alone (demo_env 3801600 [2]) 2 50 (st_left, st_funds) = Inr (s', w') \<and> 0 < amt \<and>
     tk_transfer mnt_ops (as_invoker (demo_env 3801600 [2])) 50 0 2 amt st_funds = Inr w'"
proof -
  obtain s' w' where run: "claim_rewards mnt_ops st_alone (demo_env 3801600 [2]) 2 50 (st_left, st_funds) = Inr (s', w')"
    using st_claimed by blast
  from claim_exact [OF st_left_reach this] run show ?thesis by auto
qed
text \<open>
  C14. Rewards never start while the stake lasts. Take a reachable state in which account \<open>a\<close> has no
  locked reward and no batch credit, and any run in which \<open>a\<close> does not leave, nobody runs the batch
  distribution, and time stays below the largest timestamp: every claim of \<open>a\<close> fails, then and in every
  later state, whatever has been distributed. The claim itself settles the closed epochs into
  locked rewards, but none of them is due within the call, so it returns \<open>NoClaimableRewards\<close> and the host
  drops the settlement with it.
\<close>

theorem rewards_never_start:
  assumes "st_reach T P inst s w" "\<And>e. st_lockup s (a, e) = None" "get_pending_rewards a s = 0"
    "st_after T P inst (\<lambda>env c. c \<noteq> SC_Unstake a \<and> (\<forall>tok x n m. c \<noteq> SC_Batch tok x n m) \<and> ledger_ts env < u64_max) s s'"
    "ledger_ts env < u64_max"
  shows "\<exists>failure. claim_rewards T P env a tok (s', w') = Inl failure"
proof -
  define idle where "idle t \<longleftrightarrow> (\<forall>e. st_lockup t (a, e) = None) \<and> get_or 0 (st_pending_rewards t a) = 0" for t :: staking
  note inv = st_reach_inv [OF assms(1)]
  have "idle s'"
  proof (rule st_after_keeps [OF assms(4) inv])
    show "idle s" using assms(2,3) by (simp add: idle_def get_pending_rewards_def)
  next
    fix env c t w t' w'
    assume run: "st_exec T P inst env c (t, w) = Inr (t', w')" and tinv: "st_inv t" and i: "idle t"
      and Q: "c \<noteq> SC_Unstake a \<and> (\<forall>tok x n m. c \<noteq> SC_Batch tok x n m) \<and> ledger_ts env < u64_max"
    have pend: "get_or 0 (st_pending_rewards t' a) = 0"
      using exec_pending [OF run tinv] Q i by (simp add: idle_def)
    have "st_lockup t' (a, e) = None" for e
    proof (rule ccontr)
      assume "st_lockup t' (a, e) \<noteq> None"
      with exec_lockups(2) [OF run tinv, of a e] i Q obtain tok where "c = SC_Claim a tok"
        by (auto simp: idle_def)
      with run have "claim_rewards T P env a tok (t, w) = Inr (t', w')" by simp
      with claim_nothing [OF tinv, of a env T P tok w t' w'] i Q show False by (simp add: idle_def)
    qed
    with pend show "idle t'" by (simp add: idle_def)
  qed
  then have "claim_rewards T P env a tok (s', w') \<noteq> Inr x" for x
    using claim_nothing [OF st_after_inv [OF assms(4) inv] _ _ assms(5), of a T P tok w' "fst x" "snd x"] by (simp add: idle_def)
  then show ?thesis by (cases "claim_rewards T P env a tok (s', w')") auto
qed

theorem rewards_never_start_witness:
  "\<exists>failure. claim_rewards mnt_ops st_alone (demo_env 99999999 [2]) 2 50 (st_opened, st_held) = Inl failure"
  by (rule rewards_never_start [OF st_opened_reach _ _ st_after.Same])
    (simp_all add: st_opened_simps get_pending_rewards_def u64_max_def)

text \<open>
  C16. Anyone can announce any reward, without funds. From a reachable state that is below the limits
  (the lock is free, at most 500 stakers, the sums fit), \<open>distribute_revenue\<close> succeeds for every amount
  between zero and the financial limit, in the name of any token, whoever calls and whoever signs; no token
  moves; and the amount becomes the reward of the epoch that it closes, from which
  the stakers are paid out of whatever the contract holds.
\<close>

theorem distribution_unbacked:
  assumes "st_reach T P inst s w" "rg_enter ''distribute_revenue'' None (st_guard s) = (Inr g :: guard_state st_res)"
    "get_or 0 (st_count s) \<le> 500" "get_or 0 (st_total s) \<le> i128_max" "get_or 0 (st_epoch s) < u64_max"
    "0 \<le> a" "a \<le> ST_MAX_FINANCIAL_AMOUNT" "a + get_or 0 (st_penalty_pool s) \<le> i128_max"
  shows "\<exists>s'. st_epoch_reward s' (get_or 0 (st_epoch s)) = Some (a + get_or 0 (st_penalty_pool s)) \<and>
    (\<forall>env' tok'. ledger_ts env' = now \<longrightarrow> distribute_revenue env' tok' a (s, w) = Inr (s', w))"
proof -
  define env where "env = demo_env now []"
  note p = st_invD [OF st_reach_inv [OF assms(1)]]
  obtain s' where s': "internal_distribute_revenue env a (s\<lparr>st_guard := g\<rparr>) = Inr s'"
    "st_epoch_reward s' (get_or 0 (st_epoch s)) = Some (a + get_or 0 (st_penalty_pool s))"
    using distribute_total [of "s\<lparr>st_guard := g\<rparr>" a env] stakers_ok_cong [of "s\<lparr>st_guard := g\<rparr>" s] p(1)
      epochs_okD(7) [OF p(3)] assms(3-6,8) by auto
  have free: "\<not> rg_is_paused (Some ''distribute_revenue'') (st_guard s)"
    using rg_enter_Inr [OF assms(2)] by (simp add: rg_is_paused_def)
  have val: "validate_or_panic (st_valid_revenue a ''amount'') = (Inr () :: unit st_res)"
    using assms(6,7) by (simp add: validate_or_panic_def st_valid_revenue_def validator_defs v_check_def v_validate_def)
  have "distribute_revenue env' tok' a (s, w) =
      Inr (s'\<lparr>st_guard := rg_release ''distribute_revenue'' None (st_guard s')\<rparr>, w)"
    if "ledger_ts env' = now" for env' tok'
  proof -
    have "internal_distribute_revenue env' a (s\<lparr>st_guard := g\<rparr>) = Inr s'"
      using s'(1) that by (simp add: internal_distribute_revenue_def env_def)
    then show ?thesis using free val assms(2) by (simp add: distribute_revenue_def ensure_def st_guarded_def guarded_def)
  qed
  then show ?thesis using s'(2) by (intro exI [of _ "s'\<lparr>st_guard := rg_release ''distribute_revenue'' None (st_guard s')\<rparr>"]) simp
qed
theorem distribution_unbacked_witness:
  "\<exists>s'. st_epoch_reward s' 2 = Some 1000000 \<and>
     distribute_revenue (demo_env 5 []) 77 1000000 (st_opened, st_held) = Inr (s', st_held)"
proof -
  have g: "rg_enter ''distribute_revenue'' None (st_guard st_opened) =
      (Inr (guard_init\<lparr>g_locks := [''distribute_revenue'' \<mapsto> True]\<rparr>) :: guard_state st_res)"
    by (simp add: st_opened_simps rg_enter_def rg_enter_raw_def rg_commit_def guard_init_def)
  from distribution_unbacked [OF st_opened_reach g, of 1000000 5] show ?thesis
    by (auto simp: st_opened_simps width_defs ST_MAX_FINANCIAL_AMOUNT_def)
qed


section \<open>Messages of the treasury\<close>

text \<open>
  C17. What a message of the treasury answers. When the lock is free, the first failing check decides:
  the signature of the named treasury, the configuration, the caller, the identifier, the amount. An
  identifier that was processed once is refused in every later state; so is a caller other than the
  configured treasury.
\<close>

theorem treasury_answers:
  assumes "st_reach T P inst s w" "st_after T P inst (\<lambda>_ _. True) s s'"
    "rg_enter ''treasury_dist'' None (st_guard s') = (Inr g :: guard_state st_res)"
  shows "(\<not> auth_by env tr \<longrightarrow> receive_treasury_distribution T env i tr tok a ts (s', w') = Inl AuthDenied) \<and>
    (auth_by env tr \<longrightarrow> st_treasury s' = None \<longrightarrow>
       receive_treasury_distribution T env i tr tok a ts (s', w') = Inl (Err StTreasuryNotConfigured)) \<and>
    (auth_by env tr \<longrightarrow> st_treasury s' \<noteq> None \<longrightarrow> st_treasury s' \<noteq> Some tr \<longrightarrow>
       receive_treasury_distribution T env i tr tok a ts (s', w') = Inl (Err StCallerNotTreasury)) \<and>
    (auth_by env tr \<longrightarrow> st_treasury s' = Some tr \<longrightarrow> st_processed s i \<noteq> None \<longrightarrow>
       receive_treasury_distribution T env i tr tok a ts (s', w') = Inl (Err StDistributionAlreadyProcessed)) \<and>
    (auth_by env tr \<longrightarrow> st_treasury s' = Some tr \<longrightarrow> st_processed s' i = None \<longrightarrow> a < 0 \<or> ST_MAX_FINANCIAL_AMOUNT < a \<longrightarrow>
       receive_treasury_distribution T env i tr tok a ts (s', w') = Inl (Err StInvalidAmount))"
proof -
  have np: "\<not> rg_is_paused (Some ''treasury_dist'') (st_guard s')"
    using rg_enter_Inr [OF assms(3)] by (simp add: rg_is_paused_def)
  have run: "receive_treasury_distribution T env i tr tok a ts (s', w') = Inl err"
    if "treasury_body T env i tr tok a ts (s'\<lparr>st_guard := g\<rparr>, w') = Inl err" for err
    using that assms(3) np
    by (simp add: receive_treasury_distribution_def require_not_rg_paused_def ensure_def st_guarded_def guarded_def)
  have kept: "st_processed s' i \<noteq> None" if "st_processed s i \<noteq> None"
    using assms(2) st_reach_inv [OF assms(1)] that by (rule st_after_keeps) (rule exec_processed)
  show ?thesis
    using kept
    by (intro conjI impI; intro run)
      (auto simp: treasury_body_def ensure_def expect_def st_valid_revenue_def validator_defs v_check_def v_validate_def)
qed

theorem treasury_answers_witness:
  "receive_treasury_distribution mnt_ops (demo_env 5 []) 1 7 50 100 0 (st_opened, st_held) = Inl AuthDenied"
proof -
  have g: "rg_enter ''treasury_dist'' None (st_guard st_opened) =
      (Inr (guard_init\<lparr>g_locks := [''treasury_dist'' \<mapsto> True]\<rparr>) :: guard_state st_res)"
    by (simp add: st_opened_simps rg_enter_def rg_enter_raw_def rg_commit_def guard_init_def)
  from treasury_answers [OF st_opened_reach st_after.Same g, of "demo_env 5 []" 7 1 50 100 0 st_held] show ?thesis by simp
qed


section \<open>Monitoring and recovery\<close>

text \<open>
  The monitors of the staking contract see nothing. In every reachable state the detector of
  extraction attacks answers no for every staker and amount, no coordinated exit is ever found, and a run of the
  stability monitor always reports no distribution, an extraction rate of zero and full health:
  they read entries that no function writes, or the reward of the epoch that is still open.
\<close>

theorem staking_monitors_blind:
  assumes "st_reach T P inst s w"
  shows "detect_extraction_attack env a x s = Inr False \<and>
    (detect_exit_coordination env e s = Inr b \<longrightarrow> \<not> b) \<and>
    (monitor_tokenomics_stability env s = Inr (m, s') \<longrightarrow>
       su_total_distributed m = 0 \<and> su_extraction_bps m = 0 \<and> su_ratio m = 1000 \<and> su_health m = 100)"
proof -
  note p = st_invD [OF st_reach_inv [OF assms]]
  have "st_epoch_reward s (get_or 0 (st_epoch s)) = None"
    using epochs_okD(1) [OF p(3), of "get_or 0 (st_epoch s)"] by simp
  then have none: "get_or 0 (st_epoch_reward s (get_or 0 (st_epoch s))) = 0" by simp
  have zero: "ratio_or 0 10000 t 10000 = 0" if "0 < t" for t
    by (simp add: ratio_or_def cast_defs)
  have "su_total_distributed m = 0 \<and> su_extraction_bps m = 0 \<and> su_ratio m = 1000 \<and> su_health m = 100"
    if "monitor_tokenomics_stability env s = Inr (m, s')"
    using that unfolding monitor_tokenomics_stability_def none Let_def
    by (auto simp: st_as_signed_admin_def res_simps zero ST_MIN_SUSTAINABILITY_RATIO_def)
  then show ?thesis using p(5)
    by (auto simp: detect_extraction_attack_def detect_exit_coordination_def unused_ok_def st_as_signed_admin_def res_simps
        EXIT_COORDINATION_THRESHOLD_def)
qed

theorem staking_monitors_blind_witness:
  "detect_extraction_attack (demo_env 5 []) 2 999999 st_opened = Inr False"
  using staking_monitors_blind [OF st_opened_reach] by blast

text \<open>
  The snapshots of the staking contract are empty. The snapshot function walks the list that the
  migration has abolished, so in every reachable state each stored snapshot has no entry; a successful
  rollback, which needs the approvals of the emergency signers, changes no stake, total, epoch or reward;
  and the check after an upgrade compares no stake, only the recorded count against the number of stakers.
\<close>

theorem staking_snapshots_empty:
  assumes "st_reach T P inst s w"
  shows "(st_snap s i = Some snaps \<longrightarrow> snaps = []) \<and>
    (st_rollback inst j s = Inr (h, s') \<longrightarrow> st_stake s' = st_stake s \<and> st_total s' = st_total s \<and>
       epoch_data s' = epoch_data s \<and> st_lockup s' = st_lockup s) \<and>
    (st_verify_post_upgrade i s = Inr v \<longrightarrow> vr_fields_checked v = 1)"
proof -
  note inv = st_reach_inv [OF assms]
  have empty: "snaps = []" if "st_snap s i = Some snaps" for snaps
    using st_invD(5) [OF inv] that by (simp add: unused_ok_def)
  have "vr_fields_checked v = 1" if "st_verify_post_upgrade i s = Inr v"
    using that empty by (auto simp: st_verify_post_upgrade_def Let_def res_simps)
  moreover have "st_stake s' = st_stake s \<and> st_total s' = st_total s \<and> epoch_data s' = epoch_data s \<and> st_lockup s' = st_lockup s"
    if "st_rollback inst j s = Inr (h, s')"
    using st_core_parts [OF rollback_core [OF that inv]] by simp
  ultimately show ?thesis using empty by simp
qed

theorem staking_snapshots_empty_witness:
  "\<exists>s'. st_snapshot_state (demo_env 5 [1]) 1 1 st_opened = Inr s' \<and> st_stake s' 2 \<noteq> None \<and> st_snap s' 1 = Some []"
proof -
  have "\<exists>s'. st_snapshot_state (demo_env 5 [1]) 1 1 st_opened = Inr s' \<and> st_stake s' 2 \<noteq> None \<and> st_snap s' 1 \<noteq> None"
    by (simp add: st_snapshot_state_def ensure_def st_opened_simps Let_def push_snapshot_index_def MAX_SNAPSHOTS_def)
  then obtain s' snaps where run: "st_snapshot_state (demo_env 5 [1]) 1 1 st_opened = Inr s'" "st_stake s' 2 \<noteq> None"
      "st_snap s' 1 = Some snaps" by auto
  then have "st_exec mnt_ops st_alone (\<lambda>_. True) (demo_env 5 [1]) (SC_Snapshot 1 1) (st_opened, st_held) = Inr (s', st_held)"
    by (simp add: st_lift_Inr)
  from staking_snapshots_empty [OF st_reach.Call [OF st_opened_reach this]] run show ?thesis by blast
qed

end
