(* ===== verification/EconChecks.thy ===== *)
theory EconChecks
  imports StakingMath "HOL-Library.Multiset"
begin

text \<open>
  Stateless checks of \<open>contracts/shared/src\<close> that the treasury and the market contracts call: load and
  rate limits (\<open>resource_management.rs\<close>), interactions in one ledger (\<open>mev_protection.rs\<close>), conservation
  and market observations (\<open>economic_verification.rs\<close>) and prices (\<open>pricing_protection.rs\<close>).

  The bubble sort of the market observations is shown to be the library's stable sort, and the price it
  selects to be a weighted median.
\<close>

section \<open>Load and rate limits\<close>

definition DEFAULT_MAX_REQUESTS_PER_MINUTE :: nat where "DEFAULT_MAX_REQUESTS_PER_MINUTE = 30"
definition ABUSE_PATTERN_THRESHOLD_BPS :: nat where "ABUSE_PATTERN_THRESHOLD_BPS = 8000"
definition EMERGENCY_THROTTLE_RATE :: nat where "EMERGENCY_THROTTLE_RATE = 5"
definition RESOURCE_QUOTA_MAX_SESSIONS :: nat where "RESOURCE_QUOTA_MAX_SESSIONS = 100"

record rate_limit_status =
  rl_allowed :: bool
  rl_current :: nat
  rl_emergency :: bool

record resource_allocation =
  ra_granted :: bool
  ra_remaining :: nat

record abuse_result =
  ab_abusive :: bool
  ab_score :: nat

definition allocate_system_resources :: "nat \<Rightarrow> nat \<Rightarrow> resource_allocation" where
  "allocate_system_resources current_active requested =
    (let new_total = sat_u32 (current_active + requested) in
     if RESOURCE_QUOTA_MAX_SESSIONS < new_total
     then \<lparr>ra_granted = False, ra_remaining = RESOURCE_QUOTA_MAX_SESSIONS - current_active\<rparr>
     else \<lparr>ra_granted = True, ra_remaining = RESOURCE_QUOTA_MAX_SESSIONS - new_total\<rparr>)"

definition manage_session_load :: "nat \<Rightarrow> bool \<Rightarrow> rate_limit_status" where
  "manage_session_load recent_requests is_emergency =
    (let limit = (if is_emergency then EMERGENCY_THROTTLE_RATE else DEFAULT_MAX_REQUESTS_PER_MINUTE) in
     \<lparr>rl_allowed = (recent_requests < limit), rl_current = recent_requests, rl_emergency = is_emergency\<rparr>)"

definition detect_abuse_patterns :: "nat \<Rightarrow> nat \<Rightarrow> abuse_result" where
  "detect_abuse_patterns total_requests failed_requests =
    (if total_requests < 5 then \<lparr>ab_abusive = False, ab_score = 0\<rparr>
     else let fail_rate_bps = sat_u32 (failed_requests * 10000) div total_requests in
       \<lparr>ab_abusive = (ABUSE_PATTERN_THRESHOLD_BPS \<le> fail_rate_bps), ab_score = fail_rate_bps\<rparr>)"

definition check_emergency_trigger :: "nat \<Rightarrow> bool" where
  "check_emergency_trigger global_requests_rpm \<longleftrightarrow> 500 < global_requests_rpm"


section \<open>Interactions in one ledger\<close>

definition MEV_ARBITRAGE_RISK_THRESHOLD :: nat where "MEV_ARBITRAGE_RISK_THRESHOLD = 75"
definition DEFAULT_MEV_PENALTY_BPS :: nat where "DEFAULT_MEV_PENALTY_BPS = 500"
definition MAX_MEV_PENALTY_BPS :: nat where "MAX_MEV_PENALTY_BPS = 2500"

record mev_flag =
  mf_arbitrage :: bool
  mf_sandwich :: bool
  mf_risk :: nat

record extraction_record =
  ex_amount :: int
  ex_penalty_bps :: nat
  ex_timestamp :: nat

definition detect_atomic_arbitrage :: "nat \<Rightarrow> mev_flag" where
  "detect_atomic_arbitrage recent_interactions_count =
    (let is_arbitrage = 3 \<le> recent_interactions_count; is_sandwich = 5 \<le> recent_interactions_count in
     \<lparr>mf_arbitrage = is_arbitrage, mf_sandwich = is_sandwich,
      mf_risk = (if is_arbitrage then 50 else 0) + (if is_sandwich then 40 else 0)\<rparr>)"

definition enforce_protocol_isolation :: "mev_flag \<Rightarrow> bool" where
  "enforce_protocol_isolation flag \<longleftrightarrow> mf_risk flag < MEV_ARBITRAGE_RISK_THRESHOLD"

definition compute_mev_redistribution :: "env \<Rightarrow> int \<Rightarrow> mev_flag \<Rightarrow> extraction_record" where
  "compute_mev_redistribution env transaction_volume flag =
    (let penalty_bps = (if mf_arbitrage flag then if mf_sandwich flag then MAX_MEV_PENALTY_BPS else DEFAULT_MEV_PENALTY_BPS
                        else 0);
         amt = (if mf_arbitrage flag
                then trunc_div (get_or 0 (checked_i128 (transaction_volume * int penalty_bps))) 10000 else 0) in
     \<lparr>ex_amount = amt, ex_penalty_bps = penalty_bps, ex_timestamp = ledger_ts env\<rparr>)"

text \<open>The fifth interaction of an address with the treasury in one ledger is the first one refused.\<close>

lemma isolation_iff: "enforce_protocol_isolation (detect_atomic_arbitrage n) \<longleftrightarrow> n < 5"
  by (auto simp: enforce_protocol_isolation_def detect_atomic_arbitrage_def MEV_ARBITRAGE_RISK_THRESHOLD_def Let_def)


section \<open>Conservation and allocation\<close>

datatype economic_invariant = EI_FundConservation | EI_RewardDistribution | EI_TemporalProgress | EI_MarketPrice
  | EI_IncentiveCompatibility

record property_validation =
  pv_invariant :: economic_invariant
  pv_valid :: bool
  pv_observed :: int
  pv_expected :: int
  pv_checked_at :: nat

record invariant_record =
  ir_invariant :: economic_invariant
  ir_valid :: bool
  ir_observed :: int
  ir_expected :: int
  ir_timestamp :: nat
  ir_ledger :: nat

record reward_allocation =
  rw_recipient :: addr
  rw_weight :: int
  rw_amount :: int

definition checked_then :: "int option \<Rightarrow> (int \<Rightarrow> int) \<Rightarrow> int option" where
  "checked_then x f = (case x of None \<Rightarrow> None | Some v \<Rightarrow> checked_i128 (f v))"

definition validate_fund_conservation :: "env \<Rightarrow> int \<Rightarrow> int \<Rightarrow> int \<Rightarrow> int \<Rightarrow> int \<Rightarrow> property_validation" where
  "validate_fund_conservation env prior_balance inflows outflows fees current_balance =
    (let expected = checked_then (checked_then (checked_i128 (prior_balance + inflows)) (\<lambda>v. v - outflows)) (\<lambda>v. v - fees);
         (valid, expected_value) = (case expected of Some v \<Rightarrow> (v = current_balance, v) | None \<Rightarrow> (False, i128_max)) in
     \<lparr>pv_invariant = EI_FundConservation, pv_valid = valid, pv_observed = current_balance,
      pv_expected = expected_value, pv_checked_at = ledger_ts env\<rparr>)"

fun reward_scan :: "reward_allocation list \<Rightarrow> int \<times> bool \<Rightarrow> int \<times> bool" where
  "reward_scan [] av = av"
| "reward_scan (r # rs) (allocated, valid) =
    reward_scan rs (sat_i128 (allocated + rw_amount r), valid \<and> \<not> (rw_weight r < 0 \<or> rw_amount r < 0))"

definition validate_reward_distribution :: "env \<Rightarrow> int \<Rightarrow> reward_allocation list \<Rightarrow> 'e fail + property_validation" where
  "validate_reward_distribution env total_reward allocations =
    (let (allocated, valid) = reward_scan allocations (0, 0 \<le> total_reward) in
     rbind (arith_i128 (if total_reward \<le> allocated then allocated - total_reward else total_reward - allocated)) (\<lambda>err.
     Inr \<lparr>pv_invariant = EI_RewardDistribution, pv_valid = (valid \<and> err \<le> 1), pv_observed = allocated,
          pv_expected = total_reward, pv_checked_at = ledger_ts env\<rparr>))"

definition validate_temporal_progress :: "env \<Rightarrow> nat \<Rightarrow> nat \<Rightarrow> nat \<Rightarrow> property_validation" where
  "validate_temporal_progress env previous_timestamp current_timestamp max_age_secs =
    (let elapsed = current_timestamp - previous_timestamp in
     \<lparr>pv_invariant = EI_TemporalProgress, pv_valid = (previous_timestamp \<le> current_timestamp \<and> elapsed \<le> max_age_secs),
      pv_observed = int elapsed, pv_expected = int max_age_secs, pv_checked_at = ledger_ts env\<rparr>)"

lemma conservation_valid:
  "pv_valid (validate_fund_conservation env p i out fees c) \<longleftrightarrow>
   in_i128 (p + i) \<and> in_i128 (p + i - out) \<and> in_i128 (p + i - out - fees) \<and> c = p + i - out - fees"
  by (auto simp: validate_fund_conservation_def checked_then_def checked_i128_def)

lemma reward_scan_sum:
  assumes "\<forall>r \<in> set rs. 0 \<le> rw_amount r \<and> 0 \<le> rw_weight r" "0 \<le> a" "a \<le> i128_max"
  shows "reward_scan rs (a, v) = (min i128_max (a + sum_list (map rw_amount rs)), v)"
  using assms
proof (induction rs arbitrary: a)
  case Nil
  then show ?case by simp
next
  case (Cons r rs)
  have s: "sat_i128 (a + rw_amount r) = min i128_max (a + rw_amount r)"
    using Cons.prems by (auto simp: sat_i128_def i128_min_def)
  have nn: "0 \<le> sum_list (map rw_amount rs)" using Cons.prems by (intro sum_list_nonneg) auto
  have "reward_scan (r # rs) (a, v) = reward_scan rs (min i128_max (a + rw_amount r), v)"
    using Cons.prems(1) by (simp add: s not_less)
  also have "\<dots> = (min i128_max (min i128_max (a + rw_amount r) + sum_list (map rw_amount rs)), v)"
    using Cons.prems by (intro Cons.IH) (auto simp: i128_max_def)
  also have "min i128_max (min i128_max (a + rw_amount r) + sum_list (map rw_amount rs)) =
      min i128_max (a + sum_list (map rw_amount (r # rs)))"
    using nn by simp
  finally show ?case .
qed


section \<open>Market observations\<close>

record market_observation =
  mo_venue :: addr
  mo_price :: int
  mo_liquidity :: int
  mo_observed_at :: nat

record market_validation =
  mv_valid :: bool
  mv_price :: int
  mv_confidence :: nat
  mv_suspicious :: nat

definition nth_or :: "'a \<Rightarrow> 'a list \<Rightarrow> nat \<Rightarrow> 'a" where
  "nth_or d xs i = (if i < length xs then xs ! i else d)"

text \<open>One comparison of the bubble sort, one pass over the first \<open>m\<close> neighbours, all passes.\<close>

definition swap_step :: "nat \<Rightarrow> (int \<times> int) list \<Rightarrow> (int \<times> int) list" where
  "swap_step k xs =
    (if fst (nth_or (0, 0) xs (k + 1)) < fst (nth_or (0, 0) xs k)
     then xs[k := nth_or (0, 0) xs (k + 1), k + 1 := nth_or (0, 0) xs k] else xs)"

definition bubble_pass :: "nat \<Rightarrow> (int \<times> int) list \<Rightarrow> (int \<times> int) list" where
  "bubble_pass m xs = fold swap_step [0..<m] xs"

definition sort_prices :: "(int \<times> int) list \<Rightarrow> (int \<times> int) list" where
  "sort_prices xs = fold (\<lambda>index. bubble_pass (length xs - 1 - index)) [0..<length xs] xs"

fun pick_price :: "int \<Rightarrow> int \<Rightarrow> (int \<times> int) list \<Rightarrow> int \<Rightarrow> int" where
  "pick_price midpoint cumulative [] d = d"
| "pick_price midpoint cumulative (p # ps) d =
    (let cumulative = sat_i128 (cumulative + snd p) in
     if midpoint \<le> cumulative then fst p else pick_price midpoint cumulative ps d)"

fun suspicious_scan :: "int \<Rightarrow> nat \<Rightarrow> market_observation list \<Rightarrow> nat \<Rightarrow> 'e fail + nat" where
  "suspicious_scan agg max_deviation_bps [] n = Inr n"
| "suspicious_scan agg max_deviation_bps (x # xs) n =
    rbind (arith_i128 (if agg < mo_price x then mo_price x - agg else agg - mo_price x)) (\<lambda>difference.
    if agg = 0 \<or> sat_i128 (agg * int max_deviation_bps) < sat_i128 (difference * 10000)
    then rbind (arith_u32 (n + 1)) (suspicious_scan agg max_deviation_bps xs)
    else suspicious_scan agg max_deviation_bps xs n)"

definition usable_prices :: "market_observation list \<Rightarrow> (int \<times> int) list" where
  "usable_prices xs =
    List.map_filter (\<lambda>x. if 0 < mo_price x \<and> 0 < mo_liquidity x then Some (mo_price x, mo_liquidity x) else None) xs"

definition market_price :: "(int \<times> int) list \<Rightarrow> int" where
  "market_price prices =
    (let prices = sort_prices prices;
         total_liquidity = foldl (\<lambda>t p. sat_i128 (t + snd p)) 0 prices;
         midpoint = trunc_div (sat_i128 (total_liquidity + 1)) 2 in
     pick_price midpoint 0 prices (fst (nth_or (0, 0) prices 0)))"

definition validate_market_observations :: "market_observation list \<Rightarrow> nat \<Rightarrow> 'e fail + market_validation" where
  "validate_market_observations observations max_deviation_bps =
    (if observations = [] then Inr \<lparr>mv_valid = False, mv_price = 0, mv_confidence = 0, mv_suspicious = 0\<rparr>
     else let prices = usable_prices observations in
       if prices = [] then Inr \<lparr>mv_valid = False, mv_price = 0, mv_confidence = 0, mv_suspicious = length observations\<rparr>
       else let agg = market_price prices in
         rbind (suspicious_scan agg max_deviation_bps observations 0) (\<lambda>suspicious.
         rbind (arith_u32 (length prices * 10000)) (\<lambda>x.
         let confidence = min (x div length observations) 10000 in
         rbind (if 2 \<le> length prices then rbind (arith_u32 (suspicious * 2)) (\<lambda>y. Inr (y < length observations))
                else Inr False) (\<lambda>valid.
         Inr \<lparr>mv_valid = valid, mv_price = agg, mv_confidence = confidence, mv_suspicious = suspicious\<rparr>))))"

section \<open>The price is a weighted median\<close>

text \<open>What one pass does to a list: the larger of two neighbours moves on.\<close>

fun bub :: "int \<times> int \<Rightarrow> (int \<times> int) list \<Rightarrow> (int \<times> int) list" where
  "bub a [] = [a]"
| "bub a (b # vs) = (if fst b < fst a then b # bub a vs else a # bub b vs)"

lemma swap_step_split:
  "swap_step (length us) (us @ a # b # vs) = us @ (if fst b < fst a then b # a # vs else a # b # vs)"
  by (simp add: swap_step_def nth_or_def nth_append list_update_append)

lemma bubble_fold:
  "fold swap_step [length us..<length us + length vs] (us @ a # vs @ ws) = us @ bub a vs @ ws"
proof (induction vs arbitrary: us a)
  case Nil
  then show ?case by simp
next
  case (Cons b vs)
  have "fold swap_step [length us..<length us + length (b # vs)] (us @ a # (b # vs) @ ws) =
      fold swap_step [Suc (length us)..<Suc (length us) + length vs] (swap_step (length us) (us @ a # b # vs @ ws))"
    by (simp add: upt_conv_Cons del: upt_Suc)
  also have "\<dots> = us @ bub a (b # vs) @ ws"
    unfolding swap_step_split using Cons [of "us @ [b]" a] Cons [of "us @ [a]" b] by (simp del: upt_Suc)
  finally show ?case .
qed

lemma bubble_pass_bub: "bubble_pass (length vs) (a # vs @ ws) = bub a vs @ ws"
  unfolding bubble_pass_def using bubble_fold [of "[]" vs a ws] by simp

lemma bub_mset: "mset (bub a vs) = add_mset a (mset vs)"
  by (induction vs arbitrary: a) auto

lemma bub_stable: "filter (\<lambda>y. fst y = k) (bub a vs) = filter (\<lambda>y. fst y = k) (a # vs)"
  by (induction vs arbitrary: a) auto

lemma bub_last: "\<exists>ys z. bub a vs = ys @ [z] \<and> (\<forall>y \<in> set ys. fst y \<le> fst z)"
proof (induction vs arbitrary: a)
  case Nil
  then show ?case by (intro exI [of _ "[]"]) simp
next
  case (Cons b vs)
  obtain ys z where yz: "bub (if fst b < fst a then a else b) vs = ys @ [z]" "\<forall>y \<in> set ys. fst y \<le> fst z"
    using Cons by blast
  have m: "add_mset (if fst b < fst a then a else b) (mset vs) = add_mset z (mset ys)"
    using bub_mset [of "if fst b < fst a then a else b" vs] yz(1) by simp
  have "(if fst b < fst a then a else b) \<in># add_mset z (mset ys)"
    unfolding m [symmetric] by simp
  then have "fst (if fst b < fst a then a else b) \<le> fst z" using yz(2) by auto
  then show ?case
    using yz by (intro exI [of _ "(if fst b < fst a then b else a) # ys"] exI [of _ z]) (auto split: if_splits)
qed

lemma sort_key_eqI:
  assumes "mset xs = mset ys" "\<And>k. filter (\<lambda>y. f y = k) xs = filter (\<lambda>y. f y = k) ys"
  shows "sort_key f xs = sort_key f ys"
proof (rule properties_for_sort_key)
  show "mset (sort_key f ys) = mset xs" using assms(1) by simp
next
  fix k
  show "filter (\<lambda>x. f k = f x) (sort_key f ys) = filter (\<lambda>x. f k = f x) xs"
    using assms(2) [of "f k"] sort_key_stable [of f "f k" ys] by (simp add: eq_commute)
qed simp

lemma sort_prices_passes:
  assumes "sorted (map fst zs)" "\<forall>y \<in> set ys. \<forall>z \<in> set zs. fst y \<le> fst z"
  shows "fold (\<lambda>k. bubble_pass (length (ys @ zs) - 1 - k)) [length zs..<length (ys @ zs)] (ys @ zs) = sort_key fst (ys @ zs)"
  using assms
proof (induction "length ys" arbitrary: ys zs)
  case 0
  then show ?case by (simp add: sort_key_id_if_sorted)
next
  case (Suc n)
  then obtain a vs where ys: "ys = a # vs" by (cases ys) auto
  obtain us z where uz: "bub a vs = us @ [z]" "\<forall>y \<in> set us. fst y \<le> fst z" using bub_last by blast
  have m: "mset (us @ [z]) = mset ys" using bub_mset [of a vs] uz(1) ys by simp
  have len: "length us = length vs" "set (us @ [z]) = set ys"
    using mset_eq_length [OF m] mset_eq_setD [OF m] ys by simp_all
  have low: "\<forall>y \<in> set (us @ [z]). \<forall>w \<in> set zs. fst y \<le> fst w" unfolding len(2) by (rule Suc.prems(2))
  have IH: "fold (\<lambda>k. bubble_pass (length (us @ z # zs) - 1 - k)) [length (z # zs)..<length (us @ z # zs)] (us @ z # zs) =
      sort_key fst (us @ z # zs)"
    using Suc.prems(1) low Suc.hyps(2) uz(2) len(1) ys by (intro Suc.hyps(1)) auto
  have "fold (\<lambda>k. bubble_pass (length (ys @ zs) - 1 - k)) [length zs..<length (ys @ zs)] (ys @ zs) =
      fold (\<lambda>k. bubble_pass (length (us @ z # zs) - 1 - k)) [length (z # zs)..<length (us @ z # zs)] (bubble_pass (length vs) (a # vs @ zs))"
    by (simp add: ys len(1) upt_conv_Cons del: upt_Suc)
  also have "\<dots> = sort_key fst (us @ z # zs)" using IH by (simp add: bubble_pass_bub uz(1))
  also have "\<dots> = sort_key fst (ys @ zs)"
  proof (rule sort_key_eqI)
    show "mset (us @ z # zs) = mset (ys @ zs)" using m by simp
    fix k
    show "filter (\<lambda>y. fst y = k) (us @ z # zs) = filter (\<lambda>y. fst y = k) (ys @ zs)"
      using bub_stable [of k a vs] by (simp add: uz(1) ys split: if_splits)
  qed
  finally show ?case .
qed

text \<open>The nested loops sort by price, and observations of the same price keep their order.\<close>

lemma sort_prices_sorts: "sort_prices xs = sort_key fst xs"
  using sort_prices_passes [of "[]" xs] by (simp add: sort_prices_def)

lemma liquidity_sum:
  assumes "\<forall>p \<in> set ps. 0 \<le> snd p" "0 \<le> t" "t + sum_list (map snd ps) \<le> i128_max"
  shows "foldl (\<lambda>t p. sat_i128 (t + snd p)) t ps = t + sum_list (map snd ps)"
  using assms
proof (induction ps arbitrary: t)
  case Nil
  then show ?case by simp
next
  case (Cons p ps)
  have "0 \<le> sum_list (map snd ps)" using Cons.prems by (intro sum_list_nonneg) auto
  then have "sat_i128 (t + snd p) = t + snd p" using Cons.prems by (simp add: sat_i128_def i128_min_def)
  then show ?case using Cons by simp
qed

lemma pick_price_splits:
  assumes "\<forall>p \<in> set ps. 0 \<le> snd p" "0 \<le> c" "c < m" "m \<le> c + sum_list (map snd ps)" "c + sum_list (map snd ps) \<le> i128_max"
  shows "\<exists>us p vs. ps = us @ p # vs \<and> pick_price m c ps d = fst p \<and> c + sum_list (map snd us) < m \<and>
    m \<le> c + sum_list (map snd us) + snd p"
  using assms
proof (induction ps arbitrary: c)
  case Nil
  then show ?case by simp
next
  case (Cons p ps)
  have nn: "0 \<le> sum_list (map snd ps)" using Cons.prems by (intro sum_list_nonneg) auto
  then have s: "sat_i128 (c + snd p) = c + snd p" using Cons.prems by (simp add: sat_i128_def i128_min_def)
  show ?case
  proof (cases "m \<le> c + snd p")
    case True
    then show ?thesis using Cons.prems s by (intro exI [of _ "[]"] exI [of _ p] exI [of _ ps]) simp
  next
    case False
    then have "\<exists>us q vs. ps = us @ q # vs \<and> pick_price m (c + snd p) ps d = fst q \<and> (c + snd p) + sum_list (map snd us) < m \<and>
        m \<le> (c + snd p) + sum_list (map snd us) + snd q"
      using Cons.prems by (intro Cons.IH) auto
    then obtain us q vs where "ps = us @ q # vs" "pick_price m (c + snd p) ps d = fst q"
      "(c + snd p) + sum_list (map snd us) < m" "m \<le> (c + snd p) + sum_list (map snd us) + snd q" by blast
    then show ?thesis using False s by (intro exI [of _ "p # us"] exI [of _ q] exI [of _ vs]) auto
  qed
qed

text \<open>The liquidity of the observations whose price satisfies a predicate.\<close>

definition liquidity_where :: "(int \<Rightarrow> bool) \<Rightarrow> (int \<times> int) list \<Rightarrow> int" where
  "liquidity_where Q ps = sum_list (map snd (filter (\<lambda>p. Q (fst p)) ps))"

lemma liquidity_where_mset: "mset ps = mset qs \<Longrightarrow> liquidity_where Q ps = liquidity_where Q qs"
proof -
  assume "mset ps = mset qs"
  then have "mset (map snd (filter (\<lambda>p. Q (fst p)) ps)) = mset (map snd (filter (\<lambda>p. Q (fst p)) qs))" by simp
  then show ?thesis unfolding liquidity_where_def by (simp only: sum_mset_sum_list [symmetric])
qed

lemma liquidity_where_mono:
  "\<forall>p \<in> set ps. 0 \<le> snd p \<Longrightarrow> (\<And>x. Q x \<Longrightarrow> R x) \<Longrightarrow> liquidity_where Q ps \<le> liquidity_where R ps"
  by (induction ps) (auto simp: liquidity_where_def)

lemma liquidity_where_split: "liquidity_where Q ps + liquidity_where (\<lambda>x. \<not> Q x) ps = sum_list (map snd ps)"
  by (induction ps) (auto simp: liquidity_where_def)

lemma liquidity_where_all: "\<forall>p \<in> set ps. Q (fst p) \<Longrightarrow> liquidity_where Q ps = sum_list (map snd ps)"
  by (simp add: liquidity_where_def)

lemma liquidity_where_append: "liquidity_where Q (ps @ qs) = liquidity_where Q ps + liquidity_where Q qs"
  by (simp add: liquidity_where_def)

lemma liquidity_where_nonneg: "\<forall>p \<in> set ps. 0 \<le> snd p \<Longrightarrow> 0 \<le> liquidity_where Q ps"
  by (auto simp: liquidity_where_def intro!: sum_list_nonneg)

text \<open>Both sides of the chosen price: half of the liquidity is not below, and half is not above it.\<close>

lemma market_price_median:
  assumes "ps \<noteq> []" "\<forall>p \<in> set ps. 0 < snd p" "sum_list (map snd ps) < i128_max"
  defines "x \<equiv> market_price ps" and "liq \<equiv> sum_list (map snd ps)"
  shows "x \<in> fst ` set ps \<and> 2 * liquidity_where (\<lambda>y. y < x) ps \<le> liq \<and> liq \<le> 2 * liquidity_where (\<lambda>y. y \<le> x) ps"
proof -
  let ?qs = "sort_key fst ps"
  have mq: "mset ?qs = mset ps" by simp
  have tq: "sum_list (map snd ?qs) = liq"
    using liquidity_where_mset [OF mq, of "\<lambda>_. True"] by (simp add: liquidity_where_def liq_def)
  have nn: "\<forall>p \<in> set ?qs. 0 \<le> snd p" using assms(2) by auto
  obtain p0 rest where "ps = p0 # rest" using assms(1) by (cases ps) auto
  moreover from this assms(2) have "0 \<le> sum_list (map snd rest)" by (intro sum_list_nonneg) auto
  ultimately have tp: "0 < liq" using assms(2) by (auto simp: liq_def)
  have mid: "trunc_div (sat_i128 (liq + 1)) 2 = (liq + 1) div 2"
    using tp assms(3) by (simp add: liq_def sat_i128_def i128_min_def trunc_div_nonneg)
  have px: "x = pick_price ((liq + 1) div 2) 0 ?qs (fst (nth_or (0, 0) ?qs 0))"
    using liquidity_sum [OF nn, of 0] tq assms(3)
    by (simp add: x_def market_price_def sort_prices_sorts mid [unfolded liq_def] liq_def Let_def)
  have "\<exists>us p vs. ?qs = us @ p # vs \<and> x = fst p \<and> 0 + sum_list (map snd us) < (liq + 1) div 2 \<and>
      (liq + 1) div 2 \<le> 0 + sum_list (map snd us) + snd p"
    unfolding px using nn tp tq assms(3) by (intro pick_price_splits) (auto simp: liq_def)
  then obtain us p vs where q: "?qs = us @ p # vs" "x = fst p" "sum_list (map snd us) < (liq + 1) div 2"
    "(liq + 1) div 2 \<le> sum_list (map snd us) + snd p" by auto
  have srt: "sorted (map fst (us @ p # vs))" using sorted_sort_key [of fst ps] q(1) by simp
  have "liquidity_where (\<lambda>y. y < x) (p # vs) = 0"
    using srt q(2) by (auto simp: liquidity_where_def sorted_append not_less filter_empty_conv)
  then have lt: "liquidity_where (\<lambda>y. y < x) ?qs \<le> sum_list (map snd us)"
    using liquidity_where_mono [of us "\<lambda>y. y < x" "\<lambda>_. True"] nn q(1)
    by (simp add: liquidity_where_append liquidity_where_all)
  have "sum_list (map snd (us @ [p])) = liquidity_where (\<lambda>y. y \<le> x) (us @ [p])"
    using srt q(2) by (intro liquidity_where_all [symmetric]) (auto simp: sorted_append)
  moreover have "0 \<le> liquidity_where (\<lambda>y. y \<le> x) vs" using nn q(1) by (intro liquidity_where_nonneg) auto
  ultimately have le: "sum_list (map snd us) + snd p \<le> liquidity_where (\<lambda>y. y \<le> x) ?qs"
    using liquidity_where_append [of "\<lambda>y. y \<le> x" "us @ [p]" vs] q(1) by simp
  have "x \<in> fst ` set ?qs" using q by auto
  then show ?thesis
    using lt le q(3,4) liquidity_where_mset [OF mq, of "\<lambda>y. y < x"] liquidity_where_mset [OF mq, of "\<lambda>y. y \<le> x"] by auto
qed



section \<open>Manipulation of the market price\<close>

lemma usable_prices_filter:
  "usable_prices xs = map (\<lambda>x. (mo_price x, mo_liquidity x)) (filter (\<lambda>x. 0 < mo_price x \<and> 0 < mo_liquidity x) xs)"
  by (induction xs) (simp_all add: usable_prices_def map_filter_simps)

lemma liquidity_where_disjoint:
  assumes "\<forall>p \<in> set ps. 0 \<le> snd p" "\<And>x. Q x \<Longrightarrow> \<not> R x"
  shows "liquidity_where Q ps + liquidity_where R ps \<le> sum_list (map snd ps)"
proof -
  have "liquidity_where R ps \<le> liquidity_where (\<lambda>x. \<not> Q x) ps"
    using assms by (intro liquidity_where_mono) blast+
  then show ?thesis using liquidity_where_split [of Q ps] by simp
qed

lemma median_in_majority:
  assumes "ps \<noteq> []" "\<forall>p \<in> set ps. 0 < snd p" "sum_list (map snd ps) < i128_max"
    "sum_list (map snd ps) < 2 * liquidity_where (\<lambda>y. lo \<le> y \<and> y \<le> hi) ps"
  shows "lo \<le> market_price ps \<and> market_price ps \<le> hi"
proof -
  let ?x = "market_price ps" and ?in = "liquidity_where (\<lambda>y. lo \<le> y \<and> y \<le> hi) ps"
  note m = market_price_median [OF assms(1-3)]
  have nn: "\<forall>p \<in> set ps. 0 \<le> snd p" using assms(2) by auto
  have "lo \<le> ?x"
  proof (rule ccontr)
    assume "\<not> lo \<le> ?x"
    then have "?in + liquidity_where (\<lambda>y. y \<le> ?x) ps \<le> sum_list (map snd ps)"
      by (intro liquidity_where_disjoint [OF nn]) auto
    then show False using m assms(4) by linarith
  qed
  moreover have "?x \<le> hi"
  proof (rule ccontr)
    assume "\<not> ?x \<le> hi"
    then have "?in \<le> liquidity_where (\<lambda>y. y < ?x) ps" by (intro liquidity_where_mono [OF nn]) auto
    then show False using m assms(4) by linarith
  qed
  ultimately show ?thesis by blast
qed

text \<open>
  C40. A minority of the liquidity cannot move the market price. When more than half of the liquidity of the usable
  observations, those with positive price and liquidity, quotes prices between \<open>lo\<close> and \<open>hi\<close>, the
  aggregate price of \<open>validate_market_observations\<close> lies between them and is one of the quoted prices; a
  valid result rests on two usable observations, and less than half of all observations are suspicious.
\<close>

theorem market_price_resists:
  assumes "validate_market_observations obs d = (Inr v :: 'e fail + market_validation)"
    "us = filter (\<lambda>x. 0 < mo_price x \<and> 0 < mo_liquidity x) obs" "sum_list (map mo_liquidity us) < i128_max"
    "sum_list (map mo_liquidity us) < 2 * sum_list (map mo_liquidity (filter (\<lambda>x. lo \<le> mo_price x \<and> mo_price x \<le> hi) us))"
  shows "lo \<le> mv_price v \<and> mv_price v \<le> hi \<and> mv_price v \<in> mo_price ` set us \<and>
    (mv_valid v \<longrightarrow> 2 \<le> length us \<and> 2 * mv_suspicious v < length obs)"
proof -
  let ?ps = "map (\<lambda>x. (mo_price x, mo_liquidity x)) us"
  have ps: "usable_prices obs = ?ps" unfolding assms(2) by (rule usable_prices_filter)
  have ne: "us \<noteq> []" using assms(4) by auto
  then have "obs \<noteq> []" using assms(2) by auto
  then have v: "mv_price v = market_price ?ps \<and> (mv_valid v \<longrightarrow> 2 \<le> length us \<and> 2 * mv_suspicious v < length obs)"
    using assms(1) ne by (auto simp: validate_market_observations_def ps Let_def res_simps mult.commute split: if_splits)
  have pos: "\<forall>p \<in> set ?ps. 0 < snd p" using assms(2) by auto
  have tot: "sum_list (map snd ?ps) = sum_list (map mo_liquidity us)" by (simp add: comp_def)
  have liq: "liquidity_where Q ?ps = sum_list (map mo_liquidity (filter (\<lambda>x. Q (mo_price x)) us))" for Q
    by (simp add: liquidity_where_def filter_map comp_def)
  have "lo \<le> market_price ?ps \<and> market_price ?ps \<le> hi"
  proof (rule median_in_majority)
    show "?ps \<noteq> []" using ne by simp
  qed (use assms(3,4) pos in \<open>simp_all only: tot liq\<close>)
  moreover have "market_price ?ps \<in> fst ` set ?ps"
    using market_price_median [of ?ps] pos ne assms(3) by (simp only: tot) simp
  then have "market_price ?ps \<in> mo_price ` set us" by force
  ultimately show ?thesis using v by simp
qed

definition demo_quote :: "addr \<Rightarrow> int \<Rightarrow> int \<Rightarrow> market_observation" where
  "demo_quote a p l = \<lparr>mo_venue = a, mo_price = p, mo_liquidity = l, mo_observed_at = 0\<rparr>"

theorem market_price_resists_witness:
  "\<exists>v. validate_market_observations [demo_quote 1 9000 40, demo_quote 2 100 30, demo_quote 3 101 30] 500 =
      (Inr v :: unit fail + market_validation) \<and> 100 \<le> mv_price v \<and> mv_price v \<le> 101"
proof -
  let ?obs = "[demo_quote 1 9000 40, demo_quote 2 100 30, demo_quote 3 101 30]"
  have "\<exists>v. validate_market_observations ?obs 500 = (Inr v :: unit fail + market_validation)"
    by (simp add: validate_market_observations_def usable_prices_filter demo_quote_def market_price_def sort_prices_sorts
        width_defs Let_def nth_or_def)
  then obtain v where v: "validate_market_observations ?obs 500 = (Inr v :: unit fail + market_validation)" by blast
  from market_price_resists [OF v refl, of 100 101] v show ?thesis by (simp add: demo_quote_def i128_max_def)
qed

end
