(* ===== verification/Pricing.thy ===== *)
theory Pricing
  imports EconChecks
begin

text \<open>
  \<open>contracts/shared/src/pricing_protection.rs\<close>: coordinated prices, deviation from a benchmark rate, the
  enforced price, authenticity of demand, and the automatic intervention.
\<close>

section \<open>Definitions\<close>

definition PRICE_COORDINATION_WINDOW_SECS :: nat where "PRICE_COORDINATION_WINDOW_SECS = 3600"
definition PRICE_MATCH_TOLERANCE_BPS :: nat where "PRICE_MATCH_TOLERANCE_BPS = 200"
definition PRICING_RISK_THRESHOLD :: nat where "PRICING_RISK_THRESHOLD = 60"
definition DEFAULT_MAX_MARKET_DEVIATION_BPS :: nat where "DEFAULT_MAX_MARKET_DEVIATION_BPS = 3000"
definition MAX_MARKET_DEVIATION_CEILING_BPS :: nat where "MAX_MARKET_DEVIATION_CEILING_BPS = 10000"
definition DEMAND_BURST_WINDOW_SECS :: nat where "DEMAND_BURST_WINDOW_SECS = 900"
definition DEMAND_MIN_DISTINCT_BPS :: nat where "DEMAND_MIN_DISTINCT_BPS = 3000"

record coordination_flag =
  cf_suspicious :: bool
  cf_risk :: nat
  cf_matching :: nat
  cf_clustered :: nat

record market_rate =
  mk_within :: bool
  mk_deviation_bps :: nat
  mk_inflated :: bool

record fair_price =
  fp_price :: int
  fp_adjusted :: bool
  fp_reason :: symbol

record demand_authenticity =
  dm_genuine :: bool
  dm_risk :: nat
  dm_distinct_bps :: nat
  dm_bursts :: nat

record pricing_intervention =
  pi_intervene :: bool
  pi_price :: int
  pi_reason :: symbol

definition prices_match :: "int \<Rightarrow> int \<Rightarrow> nat \<Rightarrow> 'e fail + bool" where
  "prices_match a b tolerance_bps =
    (if a \<le> 0 \<or> b \<le> 0 then Inr False
     else let diff = (if b < a then a - b else b - a) in
       rbind (arith_i128 (max a b * int tolerance_bps)) (\<lambda>x. Inr (diff \<le> trunc_div x 10000)))"

text \<open>The two nested loops over the pairs \<open>i < j < n\<close>, in their order.\<close>

definition index_pairs :: "nat \<Rightarrow> (nat \<times> nat) list" where
  "index_pairs n = concat (map (\<lambda>i. map (Pair i) [i + 1..<n]) [0..<n])"

definition times_clustered :: "nat \<Rightarrow> nat \<Rightarrow> bool" where
  "times_clustered ti tj \<longleftrightarrow> (if tj < ti then ti - tj else tj - ti) < PRICE_COORDINATION_WINDOW_SECS"

fun coordination_scan :: "int list \<Rightarrow> nat list \<Rightarrow> (nat \<times> nat) list \<Rightarrow> nat \<times> nat \<Rightarrow> 'e fail + nat \<times> nat" where
  "coordination_scan prices ts [] mc = Inr mc"
| "coordination_scan prices ts (ij # ps) (matching, clustered) =
    rbind (prices_match (nth_or 0 prices (fst ij)) (nth_or 0 prices (snd ij)) PRICE_MATCH_TOLERANCE_BPS) (\<lambda>b.
    let matching = (if b then sat_u32 (matching + 1) else matching);
        clustered = (if times_clustered (nth_or 0 ts (fst ij)) (nth_or 0 ts (snd ij)) then sat_u32 (clustered + 1)
                     else clustered) in
    coordination_scan prices ts ps (matching, clustered))"

definition detect_price_coordination :: "int list \<Rightarrow> nat list \<Rightarrow> 'e fail + coordination_flag" where
  "detect_price_coordination prices set_timestamps =
    (let n = min (length prices) (length set_timestamps) in
     rbind (coordination_scan prices set_timestamps (index_pairs n) (0, 0)) (\<lambda>(matching, clustered).
     let risk = (if 1 \<le> matching then 35 else 0) + (if 1 \<le> clustered then 25 else 0)
              + (if 2 \<le> matching \<and> 2 \<le> clustered then 30 else 0);
         risk = min risk 100 in
     Inr \<lparr>cf_suspicious = (PRICING_RISK_THRESHOLD \<le> risk), cf_risk = risk, cf_matching = matching,
          cf_clustered = clustered\<rparr>))"

definition validate_market_rate :: "int \<Rightarrow> int \<Rightarrow> nat \<Rightarrow> market_rate" where
  "validate_market_rate proposed_price benchmark_rate max_deviation_bps =
    (if benchmark_rate \<le> 0 \<or> proposed_price \<le> 0
     then \<lparr>mk_within = False, mk_deviation_bps = MAX_MARKET_DEVIATION_CEILING_BPS, mk_inflated = (0 < proposed_price)\<rparr>
     else let cap = min max_deviation_bps MAX_MARKET_DEVIATION_CEILING_BPS;
              diff = (if benchmark_rate < proposed_price then proposed_price - benchmark_rate
                      else benchmark_rate - proposed_price);
              deviation_bps = nat (min (trunc_div (sat_i128 (diff * 10000)) benchmark_rate) (int u32_max)) in
       \<lparr>mk_within = (deviation_bps \<le> cap), mk_deviation_bps = deviation_bps,
        mk_inflated = (benchmark_rate < proposed_price \<and> cap < deviation_bps)\<rparr>)"

definition enforce_fair_pricing :: "int \<Rightarrow> int \<Rightarrow> int \<Rightarrow> market_rate \<Rightarrow> int \<Rightarrow> nat \<Rightarrow> 'e fail + fair_price" where
  "enforce_fair_pricing proposed_price floor_price ceiling_price market benchmark_rate max_deviation_bps =
    (if mk_inflated market \<and> 0 < benchmark_rate then
       let cap = int (min max_deviation_bps MAX_MARKET_DEVIATION_CEILING_BPS) in
       rbind (arith_i128 (benchmark_rate * cap)) (\<lambda>x.
       rbind (arith_i128 (benchmark_rate + trunc_div x 10000)) (\<lambda>max_allowed.
       let clamped = min (max (min proposed_price max_allowed) floor_price) ceiling_price in
       Inr \<lparr>fp_price = clamped, fp_adjusted = (clamped \<noteq> proposed_price), fp_reason = ''market_rate_inflation''\<rparr>))
     else
       let clamped = min (max proposed_price floor_price) ceiling_price in
       Inr \<lparr>fp_price = clamped, fp_adjusted = (clamped \<noteq> proposed_price),
            fp_reason = (if clamped \<noteq> proposed_price then ''bounds_clamped'' else ''unchanged'')\<rparr>)"

definition burst_count :: "nat list \<Rightarrow> nat" where
  "burst_count ts =
    foldl (\<lambda>c i. let prev = nth_or 0 ts (i - 1); cur = nth_or prev ts i in
                 if cur - prev < DEMAND_BURST_WINDOW_SECS then sat_u32 (c + 1) else c) 0 [1..<length ts]"

definition verify_demand_authenticity :: "nat list \<Rightarrow> nat \<Rightarrow> demand_authenticity" where
  "verify_demand_authenticity request_timestamps distinct_requesters =
    (let total_requests = length request_timestamps;
         distinct_bps = (if total_requests = 0 then 10000 else sat_u32 (distinct_requesters * 10000) div total_requests);
         bursts = (if 2 \<le> total_requests then burst_count request_timestamps else 0);
         risk = (if distinct_bps < DEMAND_MIN_DISTINCT_BPS then 50 else 0)
              + (if 3 \<le> bursts then 40 else if 1 \<le> bursts then 15 else 0);
         risk = min risk 100 in
     \<lparr>dm_genuine = (risk < PRICING_RISK_THRESHOLD), dm_risk = risk, dm_distinct_bps = distinct_bps, dm_bursts = bursts\<rparr>)"

definition compute_pricing_intervention ::
    "coordination_flag \<Rightarrow> market_rate \<Rightarrow> demand_authenticity \<Rightarrow> int \<Rightarrow> int \<Rightarrow> int \<Rightarrow> pricing_intervention" where
  "compute_pricing_intervention coordination market demand benchmark_rate floor_price ceiling_price =
    (let (intervene, reason) =
           (if PRICING_RISK_THRESHOLD \<le> cf_risk coordination then (True, ''price_coordination'')
            else if mk_inflated market then (True, ''market_rate_inflation'')
            else if PRICING_RISK_THRESHOLD \<le> dm_risk demand then (True, ''artificial_demand'')
            else (False, ''none'')) in
     \<lparr>pi_intervene = intervene,
      pi_price = (if intervene then min (max benchmark_rate floor_price) ceiling_price else benchmark_rate),
      pi_reason = reason\<rparr>)"


section \<open>The loops count pairs\<close>

lemma index_pairs_set: "set (index_pairs n) = {(i, j). i < j \<and> j < n}"
  by (force simp: index_pairs_def)

definition match_pair :: "int list \<Rightarrow> nat \<times> nat \<Rightarrow> bool" where
  "match_pair prices ij =
    (let a = nth_or 0 prices (fst ij); b = nth_or 0 prices (snd ij) in
     0 < a \<and> 0 < b \<and> 10000 * \<bar>a - b\<bar> \<le> int PRICE_MATCH_TOLERANCE_BPS * max a b)"

lemma prices_match_Inr:
  "prices_match (nth_or 0 prices i) (nth_or 0 prices j) PRICE_MATCH_TOLERANCE_BPS = Inr b \<Longrightarrow> b = match_pair prices (i, j)"
proof -
  let ?a = "nth_or 0 prices i" and ?b = "nth_or 0 prices j"
  assume h: "prices_match ?a ?b PRICE_MATCH_TOLERANCE_BPS = Inr b"
  show ?thesis
  proof (cases "?a \<le> 0 \<or> ?b \<le> 0")
    case True
    then show ?thesis using h by (auto simp: prices_match_def match_pair_def)
  next
    case False
    have "b = ((if ?b < ?a then ?a - ?b else ?b - ?a) \<le> max ?a ?b * int PRICE_MATCH_TOLERANCE_BPS div 10000)"
      using h False by (auto simp: prices_match_def Let_def res_simps trunc_div_nonneg max_def)
    also have "\<dots> = (10000 * \<bar>?a - ?b\<bar> \<le> int PRICE_MATCH_TOLERANCE_BPS * max ?a ?b)"
      by (auto simp: PRICE_MATCH_TOLERANCE_BPS_def)
    finally show ?thesis using False by (auto simp: match_pair_def)
  qed
qed

lemma coordination_scan_counts:
  assumes "coordination_scan prices ts ps (m, c) = (Inr (m', c') :: 'e fail + nat \<times> nat)" "m \<le> u32_max" "c \<le> u32_max"
  shows "m' = sat_u32 (m + length (filter (match_pair prices) ps)) \<and>
    c' = sat_u32 (c + length (filter (\<lambda>ij. times_clustered (nth_or 0 ts (fst ij)) (nth_or 0 ts (snd ij))) ps))"
  using assms
proof (induction ps arbitrary: m c)
  case Nil
  then show ?case by (auto simp: sat_u32_def)
next
  case (Cons ij ps)
  obtain i j where ij: "ij = (i, j)" by force
  obtain b where b: "prices_match (nth_or 0 prices i) (nth_or 0 prices j) PRICE_MATCH_TOLERANCE_BPS = (Inr b :: 'e fail + bool)"
    using Cons.prems(1) by (auto simp: ij res_simps)
  note bm = prices_match_Inr [OF b]
  let ?cl = "times_clustered (nth_or 0 ts i) (nth_or 0 ts j)"
  have "coordination_scan prices ts ps (if b then sat_u32 (m + 1) else m, if ?cl then sat_u32 (c + 1) else c) = (Inr (m', c') :: 'e fail + nat \<times> nat)"
    using Cons.prems(1) b by (simp add: ij Let_def cong: if_cong split: if_splits)
  from Cons.IH [OF this] Cons.prems(2,3) show ?case
    by (auto simp: ij bm sat_u32_def min_def)
qed

lemma div_lt_mult:
  fixes a b c :: int
  assumes "a div b < c" "0 < b"
  shows "a < b * c"
proof -
  have "a = b * (a div b) + a mod b" by simp
  also have "\<dots> < b * (a div b) + b" using assms(2) by (intro add_strict_left_mono) simp
  also have "\<dots> = b * (a div b + 1)" by (simp add: distrib_left)
  also have "\<dots> \<le> b * c" using assms by (intro mult_left_mono) simp_all
  finally show ?thesis .
qed

text \<open>
  The price the market is held to: never outside the bounds, never above the benchmark rate plus the
  admitted deviation unless the floor is higher, and a price inside both is left alone.
\<close>

lemma fair_price_bounds:
  assumes "enforce_fair_pricing p fl ce (validate_market_rate p b d) b d = Inr r" "fl \<le> ce"
  defines "cap \<equiv> int (min d MAX_MARKET_DEVIATION_CEILING_BPS)"
  shows "fl \<le> fp_price r \<and> fp_price r \<le> ce \<and> (fp_adjusted r \<longleftrightarrow> fp_price r \<noteq> p) \<and>
    (0 < b \<longrightarrow> 0 < p \<longrightarrow> p < 2 ^ 100 \<longrightarrow> fp_price r \<le> max fl (b + b * (cap + 1) div 10000))"
proof (cases "mk_inflated (validate_market_rate p b d) \<and> 0 < b")
  case True
  have cap: "0 \<le> cap" unfolding cap_def by simp
  have "b * cap \<le> b * (cap + 1)" using True by (simp add: distrib_left)
  then have le: "b * cap div 10000 \<le> b * (cap + 1) div 10000" by (intro zdiv_mono1) simp_all
  have td: "trunc_div (b * cap) 10000 = b * cap div 10000" using True cap by (intro trunc_div_nonneg) simp_all
  let ?x = "min (max (min p (b + b * cap div 10000)) fl) ce"
  have "r = \<lparr>fp_price = ?x, fp_adjusted = (?x \<noteq> p), fp_reason = ''market_rate_inflation''\<rparr>"
    using assms(1) True by (simp add: enforce_fair_pricing_def Let_def res_simps td cap_def [symmetric])
  then have r: "fp_price r = ?x" "fp_adjusted r \<longleftrightarrow> fp_price r \<noteq> p" by simp_all
  have "fp_price r \<le> max fl (b + b * cap div 10000)" unfolding r(1) by linarith
  then have "fp_price r \<le> max fl (b + b * (cap + 1) div 10000)" using le by linarith
  moreover have "fl \<le> fp_price r" "fp_price r \<le> ce" unfolding r(1) using assms(2) by linarith+
  ultimately show ?thesis using r(2) by blast
next
  case False
  let ?x = "min (max p fl) ce"
  have "r = \<lparr>fp_price = ?x, fp_adjusted = (?x \<noteq> p), fp_reason = (if ?x \<noteq> p then ''bounds_clamped'' else ''unchanged'')\<rparr>"
    using assms(1) by (simp add: enforce_fair_pricing_def Let_def False)
  then have r: "fp_price r = ?x" "fp_adjusted r = (?x \<noteq> p)" by simp_all
  have "p \<le> b + b * (cap + 1) div 10000" if yes: "0 < b" "0 < p" "p < 2 ^ 100"
  proof (cases "b < p")
    case True
    define D where "D = p - b"
    have D: "D * 10000 \<le> i128_max" "0 \<le> D * 10000" using yes True by (auto simp: i128_max_def D_def)
    then have "trunc_div (sat_i128 (D * 10000)) b = D * 10000 div b"
      using yes by (simp add: sat_i128_def i128_min_def trunc_div_nonneg)
    then have "\<not> min d MAX_MARKET_DEVIATION_CEILING_BPS < nat (min (D * 10000 div b) (int u32_max))"
      using False yes True by (simp add: validate_market_rate_def Let_def D_def [symmetric])
    then have "D * 10000 div b < cap + 1"
      by (auto simp: u32_max_def MAX_MARKET_DEVIATION_CEILING_BPS_def cap_def)
    then have "D * 10000 < b * (cap + 1)" using yes(1) by (rule div_lt_mult)
    then have "p - b \<le> b * (cap + 1) div 10000" unfolding D_def [symmetric] by linarith
    then show ?thesis by simp
  next
    case False
    have "0 \<le> b * (cap + 1) div 10000" using yes by (auto simp: pos_imp_zdiv_nonneg_iff cap_def)
    then show ?thesis using False by simp
  qed
  moreover have "fl \<le> fp_price r" "fp_price r \<le> ce" "fp_price r \<le> max p fl" unfolding r(1) using assms(2) by linarith+
  moreover have "fp_adjusted r \<longleftrightarrow> fp_price r \<noteq> p" unfolding r ..
  moreover have "max p fl \<le> max fl x" if "p \<le> x" for x using that by linarith
  ultimately show ?thesis by (meson order_trans)
qed

end
