(* ===== verification/TreasuryState.thy ===== *)
theory TreasuryState
  imports Pricing Sep41 Reentrancy Recovery
begin

text \<open>
  The treasury contract, \<open>contracts/treasury/src/lib.rs\<close>: its storage, admin and configuration, the
  operation log, the price records and the views.

  The record has the keys of \<open>DataKey\<close> (persistent storage), the guard (instance storage) and the two
  counters of temporary storage; the keys no function touches are left out, and so are events. The
  records that \<open>record_invariant_check\<close> writes are under \<open>ty_inv\<close>. Other contracts are reached through
  \<open>treasury_peers\<close>, functions on a state \<open>'w\<close> that holds all other contracts, tokens included; a peer
  that traps answers \<open>None\<close>, and a call made with \<open>try_invoke_contract\<close> whose result is ignored is a
  total function.
\<close>

section \<open>Data\<close>

datatype treasury_error =
    TrAlreadyInitialized | TrNotInitialized | TrUnauthorized | TrInsufficientBalance | TrOracleUnhealthy
  | TrOracleStale | TrTokenNotApproved | TrInvalidMinOut | TrZeroOutput | TrSlippageExceeded | TrInvalidAmount
  | TrNoPendingAdminChange | TrAdminChangeNotYetEffective | TrInvalidAdminChange | TrCallerNotAuthorized
  | TrAmountExceedsLimit | TrDistributionAlreadyProcessed | TrReentrancyGuardPaused | TrStateValidationFailed
  | TrInvalidState | TrDuplicateEntry | TrOverflow | TrOracleCircuitBreaker | TrCoolingOffPeriod
  | TrTimelockNotExpired | TrSuspendedDuringAdminTransfer

type_synonym 'a tr_res = "treasury_error fail + 'a"

definition TR_MAX_FINANCIAL_AMOUNT :: int where "TR_MAX_FINANCIAL_AMOUNT = 1000000000000000"
definition MAX_PER_TX_ALLOCATE :: int where "MAX_PER_TX_ALLOCATE = 100000000000000"
definition MAX_PER_TX_DISTRIBUTE :: int where "MAX_PER_TX_DISTRIBUTE = 500000000000000"
definition MAX_PER_TX_BUYBACK :: int where "MAX_PER_TX_BUYBACK = 200000000000000"
definition BUYBACK_VELOCITY_WINDOW_SECS :: nat where "BUYBACK_VELOCITY_WINDOW_SECS = 24 * 60 * 60"
definition DISTRIBUTION_MIN_INTERVAL_SECS :: nat where "DISTRIBUTION_MIN_INTERVAL_SECS = 24 * 60 * 60"
definition PRICE_MONITORING_LOG_CAP :: nat where "PRICE_MONITORING_LOG_CAP = 20"
definition SHARED_MAX_FINANCIAL_AMOUNT :: int where "SHARED_MAX_FINANCIAL_AMOUNT = 1000000000000000"

record oracle_health =
  oh_feeders :: nat
  oh_last_update :: nat
  oh_stale :: bool
  oh_tripped :: bool
  oh_override :: bool

record buyback_deferred =
  bd_xlm :: int
  bd_min_out :: int
  bd_window_volume :: int
  bd_velocity_bps :: nat
  bd_concentration_bps :: nat
  bd_health :: nat
  bd_deferred_at :: nat
  bd_retry_after :: nat

record allocation_history =
  ah_token :: addr
  ah_recipient :: addr
  ah_amount :: int
  ah_timestamp :: nat

record allocation_request =
  aq_token :: addr
  aq_recipient :: addr
  aq_amount :: int

record pending_allocation =
  pa_id :: nat
  pa_token :: addr
  pa_recipient :: addr
  pa_amount :: int
  pa_approvals :: nat
  pa_executed :: bool
  pa_created_at :: nat

record distribution_receipt =
  td_id :: nat
  td_token :: addr
  td_total :: int
  td_timestamp :: nat
  td_processed :: bool

record operation_log =
  ol_id :: nat
  ol_type :: symbol
  ol_caller :: addr
  ol_token :: addr
  ol_amount :: int
  ol_recipient :: "addr option"
  ol_timestamp :: nat
  ol_ledger :: nat
  ol_success :: bool


section \<open>Storage\<close>

record tr_config =
  ty_guard :: guard_state
  ty_admin :: "addr option"
  ty_timelock :: "addr option"
  ty_staking :: "addr option"
  ty_pause_guardian :: "addr option"
  ty_self :: "addr option"
  ty_callers :: "addr list option"
  ty_pending_admin :: "admin_transfer option"
  ty_last_admin_change :: "nat option"
  ty_approved :: "addr \<rightharpoonup> bool"
  ty_reporting :: "addr option"
  ty_threshold :: "int option"
  ty_require_sched :: "bool option"
  ty_sched :: "nat option"

record tr_ledgers = tr_config +
  ty_alloc_count :: "nat option"
  ty_alloc :: "nat \<rightharpoonup> allocation_history"
  ty_pending_count :: "nat option"
  ty_pending :: "nat \<rightharpoonup> pending_allocation"
  ty_approval :: "nat \<times> addr \<rightharpoonup> bool"
  ty_last_dist :: "nat option"
  ty_receipt :: "nat \<rightharpoonup> distribution_receipt"
  ty_last_dist_at :: "nat option"
  ty_log_count :: "nat option"
  ty_log :: "nat \<rightharpoonup> operation_log"
  ty_inv_count :: "nat option"
  ty_inv :: "nat \<rightharpoonup> invariant_record"

record tr_market = tr_ledgers +
  ty_benchmark :: "addr \<rightharpoonup> int"
  ty_floor :: "addr \<rightharpoonup> int"
  ty_ceiling :: "addr \<rightharpoonup> int"
  ty_max_dev :: "addr \<rightharpoonup> nat"
  ty_prices :: "addr \<rightharpoonup> int list"
  ty_price_times :: "addr \<rightharpoonup> nat list"
  ty_dep_count :: "addr \<rightharpoonup> nat"
  ty_dep_total :: "addr \<rightharpoonup> int"
  ty_burn_rate :: "nat option"
  ty_burn_queue :: "int option"
  ty_bb_start :: "nat option"
  ty_bb_volume :: "int option"
  ty_bb_lifetime :: "int option"
  ty_deferred :: "buyback_deferred option"

text \<open>Temporary storage expires; these two counters are all the contract keeps there.\<close>

record treasury = tr_market +
  ty_mev :: "addr \<times> nat \<rightharpoonup> nat"
  ty_global :: "nat option"

definition tr_empty :: treasury where
  "tr_empty =
    \<lparr>ty_guard = guard_init, ty_admin = None, ty_timelock = None, ty_staking = None, ty_pause_guardian = None,
     ty_self = None, ty_callers = None, ty_pending_admin = None, ty_last_admin_change = None,
     ty_approved = Map.empty, ty_reporting = None, ty_threshold = None, ty_require_sched = None, ty_sched = None,
     ty_alloc_count = None, ty_alloc = Map.empty, ty_pending_count = None, ty_pending = Map.empty,
     ty_approval = Map.empty, ty_last_dist = None, ty_receipt = Map.empty, ty_last_dist_at = None,
     ty_log_count = None, ty_log = Map.empty, ty_inv_count = None, ty_inv = Map.empty,
     ty_benchmark = Map.empty, ty_floor = Map.empty, ty_ceiling = Map.empty, ty_max_dev = Map.empty,
     ty_prices = Map.empty, ty_price_times = Map.empty, ty_dep_count = Map.empty, ty_dep_total = Map.empty,
     ty_burn_rate = None, ty_burn_queue = None, ty_bb_start = None, ty_bb_volume = None, ty_bb_lifetime = None,
     ty_deferred = None, ty_mev = Map.empty, ty_global = None\<rparr>"

record 'w treasury_peers =
  tp_paused :: "addr \<Rightarrow> 'w \<Rightarrow> bool option"
  tp_record_large_tx :: "env \<Rightarrow> addr \<Rightarrow> symbol \<Rightarrow> addr \<Rightarrow> int \<Rightarrow> 'w \<Rightarrow> 'w"
  tp_set_next_dist :: "env \<Rightarrow> addr \<Rightarrow> addr \<Rightarrow> nat \<Rightarrow> 'w \<Rightarrow> 'w"
  tp_penalty_pool :: "addr \<Rightarrow> 'w \<Rightarrow> int option"
  tp_lp_fund :: "env \<Rightarrow> addr \<Rightarrow> int \<Rightarrow> 'w \<Rightarrow> 'w option"
  tp_receive :: "env \<Rightarrow> addr \<Rightarrow> nat \<Rightarrow> addr \<Rightarrow> addr \<Rightarrow> int \<Rightarrow> nat \<Rightarrow> 'w \<Rightarrow> 'w option"
  tp_oracle :: "addr \<Rightarrow> symbol \<Rightarrow> 'w \<Rightarrow> oracle_health option"
  tp_approve :: "env \<Rightarrow> addr \<Rightarrow> addr \<Rightarrow> addr \<Rightarrow> int \<Rightarrow> nat \<Rightarrow> 'w \<Rightarrow> 'w option"
  tp_swap :: "env \<Rightarrow> addr \<Rightarrow> symbol \<Rightarrow> addr \<Rightarrow> addr \<Rightarrow> int \<Rightarrow> int \<Rightarrow> addr \<Rightarrow> 'w \<Rightarrow> (int \<times> 'w) option"
  tp_burn :: "env \<Rightarrow> addr \<Rightarrow> addr \<Rightarrow> int \<Rightarrow> 'w \<Rightarrow> 'w option"


section \<open>Admin and configuration\<close>

definition tr_get_admin :: "treasury \<Rightarrow> addr tr_res" where
  "tr_get_admin s = expect (ty_admin s) (Err TrNotInitialized) Inr"

definition tr_require_admin :: "env \<Rightarrow> addr \<Rightarrow> treasury \<Rightarrow> 'b tr_res \<Rightarrow> 'b tr_res" where
  "tr_require_admin env admin s k =
    ensure (auth_by env admin) AuthDenied (
    rbind (tr_get_admin s) (\<lambda>stored_admin.
    ensure (\<not> stored_admin \<noteq> admin) (Err TrUnauthorized) (
    ensure (ty_pending_admin s = None) (Err TrSuspendedDuringAdminTransfer) k)))"

text \<open>Setters that read the admin from storage.\<close>

definition tr_as_admin :: "env \<Rightarrow> treasury \<Rightarrow> (addr \<Rightarrow> 'b tr_res) \<Rightarrow> 'b tr_res" where
  "tr_as_admin env s k =
    expect (ty_admin s) (Err TrNotInitialized) (\<lambda>admin. ensure (auth_by env admin) AuthDenied (k admin))"

definition tr_callers_of :: "treasury \<Rightarrow> addr list" where
  "tr_callers_of s = get_or [] (ty_callers s)"

definition validate_caller_is_authorized :: "addr \<Rightarrow> addr list \<Rightarrow> bool" where
  "validate_caller_is_authorized caller authorized_contracts = list_ex (\<lambda>a. a = caller) authorized_contracts"

definition validate_amount_limits :: "int \<Rightarrow> int \<Rightarrow> int \<Rightarrow> bool" where
  "validate_amount_limits amount min_amount max_per_tx \<longleftrightarrow> min_amount \<le> amount \<and> amount \<le> max_per_tx"

definition tr_require_authorized_caller :: "env \<Rightarrow> addr \<Rightarrow> treasury \<Rightarrow> 'b tr_res \<Rightarrow> 'b tr_res" where
  "tr_require_authorized_caller env caller s k =
    ensure (auth_by env caller) AuthDenied (
    rbind (tr_get_admin s) (\<lambda>admin.
    if admin = caller then k
    else ensure (caller \<in> set (tr_callers_of s)) (Err TrUnauthorized) k))"

definition tr_initialize :: "env \<Rightarrow> addr \<Rightarrow> addr \<Rightarrow> addr \<Rightarrow> addr option \<Rightarrow> treasury \<Rightarrow> treasury tr_res" where
  "tr_initialize env admin staking_contract timelock pause_guardian s =
    ensure (ty_admin s = None) (Err TrAlreadyInitialized) (
    let s = s\<lparr>ty_admin := Some admin, ty_staking := Some staking_contract, ty_timelock := Some timelock\<rparr>;
        s = (case pause_guardian of Some g \<Rightarrow> s\<lparr>ty_pause_guardian := Some g\<rparr> | None \<Rightarrow> s) in
    Inr (s\<lparr>ty_alloc_count := Some 0, ty_last_dist := Some 0, ty_log_count := Some 0,
           ty_self := Some (self_addr env), ty_callers := Some [timelock, admin]\<rparr>))"

definition tr_set_auto_burn_rate :: "env \<Rightarrow> addr \<Rightarrow> nat \<Rightarrow> treasury \<Rightarrow> treasury tr_res" where
  "tr_set_auto_burn_rate env admin bps s =
    tr_require_admin env admin s (
    ensure (v_validate (require_valid_bps bps ''bps'' []) = None) (Err TrInvalidAmount) (
    Inr (s\<lparr>ty_burn_rate := Some bps\<rparr>)))"

definition tr_execute_burn_queue :: "treasury \<Rightarrow> int \<times> treasury" where
  "tr_execute_burn_queue s =
    (let queued = get_or 0 (ty_burn_queue s) in
     if queued \<le> 0 then (0, s) else (queued, s\<lparr>ty_burn_queue := Some 0\<rparr>))"

definition tr_propose_admin_change :: "env \<Rightarrow> addr \<Rightarrow> addr \<Rightarrow> treasury \<Rightarrow> treasury tr_res" where
  "tr_propose_admin_change env current_admin new_admin s =
    tr_require_admin env current_admin s (
    let last_change = get_or 0 (ty_last_admin_change s); current_time = ledger_ts env in
    rbind (arith_u64 (last_change + ADMIN_COOLING_OFF_SECS)) (\<lambda>cool.
    ensure (\<not> current_time < cool) (Err TrCoolingOffPeriod) (
    expect (checked_u64 (current_time + MIN_ADMIN_TIMELOCK_SECS)) (Err TrInvalidAdminChange) (\<lambda>effective_at.
    Inr (s\<lparr>ty_pending_admin := Some \<lparr>at_new_admin = new_admin, at_effective_at = effective_at,
                                      at_status = AC_Proposed\<rparr>\<rparr>)))))"

definition tr_accept_admin_change :: "env \<Rightarrow> addr \<Rightarrow> treasury \<Rightarrow> treasury tr_res" where
  "tr_accept_admin_change env new_admin s =
    ensure (auth_by env new_admin) AuthDenied (
    expect (ty_pending_admin s) (Err TrNoPendingAdminChange) (\<lambda>pending.
    ensure (\<not> at_new_admin pending \<noteq> new_admin) (Err TrUnauthorized) (
    ensure (\<not> ledger_ts env < at_effective_at pending) (Err TrTimelockNotExpired) (
    ensure (\<not> at_status pending \<noteq> AC_Proposed) (Err TrInvalidAdminChange) (
    Inr (s\<lparr>ty_admin := Some new_admin, ty_last_admin_change := Some (ledger_ts env),
           ty_pending_admin := None\<rparr>))))))"

definition tr_cancel_admin_change :: "env \<Rightarrow> addr \<Rightarrow> treasury \<Rightarrow> treasury tr_res" where
  "tr_cancel_admin_change env multisig s =
    ensure (auth_by env multisig) AuthDenied (
    ensure (ty_pending_admin s \<noteq> None) (Err TrNoPendingAdminChange) (Inr (s\<lparr>ty_pending_admin := None\<rparr>)))"

definition tr_revoke_admin_emergency :: "env \<Rightarrow> addr \<Rightarrow> treasury \<Rightarrow> treasury tr_res" where
  "tr_revoke_admin_emergency env new_admin s =
    expect (ty_timelock s) (Err TrNotInitialized) (\<lambda>timelock.
    ensure (auth_by env timelock) AuthDenied (
    Inr (s\<lparr>ty_admin := Some new_admin, ty_pending_admin := None\<rparr>)))"

definition tr_get_pending_admin_change :: "treasury \<Rightarrow> admin_transfer option" where
  "tr_get_pending_admin_change s = ty_pending_admin s"

definition tr_set_regulatory_reporting :: "env \<Rightarrow> addr \<Rightarrow> treasury \<Rightarrow> treasury tr_res" where
  "tr_set_regulatory_reporting env reporting_address s =
    rbind (tr_get_admin s) (\<lambda>admin.
    ensure (auth_by env admin) AuthDenied (Inr (s\<lparr>ty_reporting := Some reporting_address\<rparr>)))"

definition tr_add_authorized_caller :: "env \<Rightarrow> addr \<Rightarrow> addr \<Rightarrow> treasury \<Rightarrow> treasury tr_res" where
  "tr_add_authorized_caller env admin new_caller s =
    tr_require_admin env admin s (Inr (s\<lparr>ty_callers := Some (tr_callers_of s @ [new_caller])\<rparr>))"

definition tr_set_approved_token :: "env \<Rightarrow> addr \<Rightarrow> bool \<Rightarrow> treasury \<Rightarrow> treasury tr_res" where
  "tr_set_approved_token env token_address approved s =
    tr_as_admin env s (\<lambda>_. Inr (s\<lparr>ty_approved := (ty_approved s)(token_address \<mapsto> approved)\<rparr>))"

definition tr_set_multisig_threshold :: "env \<Rightarrow> int \<Rightarrow> treasury \<Rightarrow> treasury tr_res" where
  "tr_set_multisig_threshold env threshold s = tr_as_admin env s (\<lambda>_. Inr (s\<lparr>ty_threshold := Some threshold\<rparr>))"

definition tr_set_require_sched_distrib :: "env \<Rightarrow> addr \<Rightarrow> bool \<Rightarrow> treasury \<Rightarrow> treasury tr_res" where
  "tr_set_require_sched_distrib env admin require s =
    tr_require_admin env admin s (Inr (s\<lparr>ty_require_sched := Some require\<rparr>))"

definition tr_admin_resume_rg :: "env \<Rightarrow> addr \<Rightarrow> symbol option \<Rightarrow> treasury \<Rightarrow> treasury tr_res" where
  "tr_admin_resume_rg env admin lock_name s =
    tr_require_admin env admin s (
    rbind (rg_admin_resume env admin lock_name (ty_guard s)) (\<lambda>g. Inr (s\<lparr>ty_guard := g\<rparr>)))"

definition tr_rg_is_paused :: "symbol option \<Rightarrow> treasury \<Rightarrow> bool" where
  "tr_rg_is_paused lock_name s = rg_is_paused lock_name (ty_guard s)"


section \<open>Prices\<close>

definition tr_set_benchmark_rate :: "env \<Rightarrow> addr \<Rightarrow> addr \<Rightarrow> int \<Rightarrow> treasury \<Rightarrow> treasury tr_res" where
  "tr_set_benchmark_rate env admin tok rate s =
    tr_require_admin env admin s (
    ensure (\<not> rate \<le> 0) (Err TrInvalidAmount) (Inr (s\<lparr>ty_benchmark := (ty_benchmark s)(tok \<mapsto> rate)\<rparr>)))"

definition tr_set_pricing_bounds :: "env \<Rightarrow> addr \<Rightarrow> addr \<Rightarrow> int \<Rightarrow> int \<Rightarrow> nat \<Rightarrow> treasury \<Rightarrow> treasury tr_res" where
  "tr_set_pricing_bounds env admin tok floor_price ceiling_price max_deviation_bps s =
    tr_require_admin env admin s (
    ensure (\<not> (floor_price < 0 \<or> ceiling_price < floor_price)) (Err TrInvalidAmount) (
    Inr (s\<lparr>ty_floor := (ty_floor s)(tok \<mapsto> floor_price), ty_ceiling := (ty_ceiling s)(tok \<mapsto> ceiling_price),
           ty_max_dev := (ty_max_dev s)(tok \<mapsto> min max_deviation_bps MAX_MARKET_DEVIATION_CEILING_BPS)\<rparr>)))"

definition tr_validate_market_rates :: "addr \<Rightarrow> int \<Rightarrow> treasury \<Rightarrow> market_rate tr_res" where
  "tr_validate_market_rates tok proposed_price s =
    expect (ty_benchmark s tok) (Err TrNotInitialized) (\<lambda>benchmark.
    Inr (validate_market_rate proposed_price benchmark (get_or DEFAULT_MAX_MARKET_DEVIATION_BPS (ty_max_dev s tok))))"

definition keep_last :: "nat \<Rightarrow> 'a list \<Rightarrow> 'a list" where
  "keep_last n xs = drop (length xs - n) xs"

definition tr_protect_pricing ::
    "env \<Rightarrow> addr \<Rightarrow> addr \<Rightarrow> int \<Rightarrow> treasury \<Rightarrow> (coordination_flag \<times> treasury) tr_res" where
  "tr_protect_pricing env caller tok proposed_price s =
    tr_require_authorized_caller env caller s (
    ensure (\<not> proposed_price \<le> 0) (Err TrInvalidAmount) (
    let prices = keep_last PRICE_MONITORING_LOG_CAP (get_or [] (ty_prices s tok) @ [proposed_price]);
        timestamps = keep_last PRICE_MONITORING_LOG_CAP (get_or [] (ty_price_times s tok) @ [ledger_ts env]);
        s = s\<lparr>ty_prices := (ty_prices s)(tok \<mapsto> prices), ty_price_times := (ty_price_times s)(tok \<mapsto> timestamps)\<rparr> in
    rbind (detect_price_coordination prices timestamps) (\<lambda>flag. Inr (flag, s))))"

definition tr_enforce_fair_pricing :: "addr \<Rightarrow> int \<Rightarrow> treasury \<Rightarrow> fair_price tr_res" where
  "tr_enforce_fair_pricing tok proposed_price s =
    (let benchmark = get_or 0 (ty_benchmark s tok);
         max_dev = get_or DEFAULT_MAX_MARKET_DEVIATION_BPS (ty_max_dev s tok);
         floor_price = get_or 0 (ty_floor s tok);
         ceiling_price = get_or i128_max (ty_ceiling s tok);
         market = validate_market_rate proposed_price benchmark max_dev in
     enforce_fair_pricing proposed_price floor_price ceiling_price market benchmark max_dev)"


section \<open>Records every operation writes\<close>

definition tr_log_operation ::
    "env \<Rightarrow> symbol \<Rightarrow> addr \<Rightarrow> addr \<Rightarrow> int \<Rightarrow> addr option \<Rightarrow> bool \<Rightarrow> treasury \<Rightarrow> treasury" where
  "tr_log_operation env op_type caller tok amount recipient success s =
    (let count = get_or 0 (ty_log_count s);
         log = \<lparr>ol_id = count, ol_type = op_type, ol_caller = caller, ol_token = tok, ol_amount = amount,
                ol_recipient = recipient, ol_timestamp = ledger_ts env, ol_ledger = ledger_seq env,
                ol_success = success\<rparr> in
     s\<lparr>ty_log := (ty_log s)(count \<mapsto> log), ty_log_count := Some (get_or count (checked_u64 (count + 1)))\<rparr>)"

definition record_invariant_check :: "invariant_record \<Rightarrow> treasury \<Rightarrow> treasury" where
  "record_invariant_check r s =
    (let count = get_or 0 (ty_inv_count s) in
     s\<lparr>ty_inv_count := Some (sat_u32 (count + 1)), ty_inv := (ty_inv s)(count \<mapsto> r)\<rparr>)"

definition tr_record_check :: "env \<Rightarrow> property_validation \<Rightarrow> treasury \<Rightarrow> treasury" where
  "tr_record_check env v s =
    record_invariant_check \<lparr>ir_invariant = pv_invariant v, ir_valid = pv_valid v, ir_observed = pv_observed v,
      ir_expected = pv_expected v, ir_timestamp = ledger_ts env, ir_ledger = ledger_seq env\<rparr> s"

definition tr_add_history :: "env \<Rightarrow> addr \<Rightarrow> addr \<Rightarrow> int \<Rightarrow> treasury \<Rightarrow> treasury tr_res" where
  "tr_add_history env tok recipient amount s =
    (let count = get_or 0 (ty_alloc_count s);
         s = s\<lparr>ty_alloc := (ty_alloc s)(count \<mapsto> \<lparr>ah_token = tok, ah_recipient = recipient, ah_amount = amount,
                                               ah_timestamp = ledger_ts env\<rparr>)\<rparr> in
     rbind (arith_u32 (count + 1)) (\<lambda>n. Inr (s\<lparr>ty_alloc_count := Some n\<rparr>)))"

definition tr_track_mev_interaction :: "env \<Rightarrow> addr \<Rightarrow> treasury \<Rightarrow> (nat \<times> treasury) tr_res" where
  "tr_track_mev_interaction env caller s =
    (let key = (caller, ledger_seq env) in
     rbind (arith_u32 (get_or 0 (ty_mev s key) + 1)) (\<lambda>count.
     Inr (count, s\<lparr>ty_mev := (ty_mev s)(key \<mapsto> count)\<rparr>)))"

text \<open>Rate limit of \<open>deposit\<close> and \<open>allocate\<close>: the interactions of the caller and the global counter.\<close>

definition tr_throttle :: "env \<Rightarrow> addr \<Rightarrow> treasury \<Rightarrow> (nat \<times> treasury) tr_res" where
  "tr_throttle env caller s =
    rbind (tr_track_mev_interaction env caller s) (\<lambda>(req_count, s).
    rbind (arith_u32 (get_or 0 (ty_global s) + 1)) (\<lambda>global_reqs.
    let s = s\<lparr>ty_global := Some global_reqs\<rparr>;
        is_emergency = check_emergency_trigger global_reqs;
        limit_status = manage_session_load req_count is_emergency in
    ensure (rl_allowed limit_status) (Err TrReentrancyGuardPaused) (Inr (req_count, s))))"

definition tr_is_token_approved :: "addr \<Rightarrow> treasury \<Rightarrow> bool" where
  "tr_is_token_approved tok s = get_or False (ty_approved s tok)"

definition tr_valid_amount :: "int \<Rightarrow> symbol \<Rightarrow> bool" where
  "tr_valid_amount amount field \<longleftrightarrow>
    v_validate (require_max amount TR_MAX_FINANCIAL_AMOUNT field (require_positive amount field [])) = None"


section \<open>Views\<close>

definition tr_get_pending_allocation :: "nat \<Rightarrow> treasury \<Rightarrow> pending_allocation option" where
  "tr_get_pending_allocation pending_id s = ty_pending s pending_id"

definition tr_pending_allocation_count :: "treasury \<Rightarrow> nat" where
  "tr_pending_allocation_count s = get_or 0 (ty_pending_count s)"

definition tr_get_scheduled_distribution_at :: "treasury \<Rightarrow> nat option" where
  "tr_get_scheduled_distribution_at s = ty_sched s"

definition tr_get_require_sched_distrib :: "treasury \<Rightarrow> bool" where
  "tr_get_require_sched_distrib s = get_or False (ty_require_sched s)"

definition tr_get_last_distribution_at :: "treasury \<Rightarrow> nat option" where
  "tr_get_last_distribution_at s = ty_last_dist_at s"

definition tr_get_distribution_receipt :: "nat \<Rightarrow> treasury \<Rightarrow> distribution_receipt option" where
  "tr_get_distribution_receipt distribution_id s = ty_receipt s distribution_id"

definition tr_get_operation_log :: "nat \<Rightarrow> treasury \<Rightarrow> operation_log option" where
  "tr_get_operation_log op_id s = ty_log s op_id"

definition tr_get_operation_log_count :: "treasury \<Rightarrow> nat" where
  "tr_get_operation_log_count s = get_or 0 (ty_log_count s)"

definition tr_get_last_deferred_buyback :: "treasury \<Rightarrow> buyback_deferred option" where
  "tr_get_last_deferred_buyback s = ty_deferred s"

definition tr_get_history_page :: "nat \<Rightarrow> nat \<Rightarrow> treasury \<Rightarrow> allocation_history list" where
  "tr_get_history_page offset limit s =
    (let total_count = get_or 0 (ty_alloc_count s);
         fin = min (sat_u32 (offset + limit)) total_count in
     List.map_filter (ty_alloc s) [offset..<fin])"

definition tr_get_timelock :: "treasury \<Rightarrow> addr tr_res" where
  "tr_get_timelock s = expect (ty_timelock s) (Panic ''not initialized'') Inr"

definition tr_get_staking_contract :: "treasury \<Rightarrow> addr tr_res" where
  "tr_get_staking_contract s = expect (ty_staking s) (Err TrNotInitialized) Inr"

definition tr_monitor_token_flows :: "nat \<Rightarrow> treasury \<Rightarrow> bool" where
  "tr_monitor_token_flows distribution_id s =
    (case ty_receipt s distribution_id of
       None \<Rightarrow> False
     | Some r \<Rightarrow>
         (case tr_get_staking_contract s of
            Inl _ \<Rightarrow> False
          | Inr _ \<Rightarrow> 0 < td_total r \<and> td_total r \<le> MAX_PER_TX_DISTRIBUTE))"

definition tr_audit_distribution_fairness :: "nat \<Rightarrow> treasury \<Rightarrow> bool" where
  "tr_audit_distribution_fairness distribution_id s =
    (case ty_receipt s distribution_id of
       None \<Rightarrow> False
     | Some r \<Rightarrow> 0 < td_total r \<and> td_total r \<le> MAX_PER_TX_DISTRIBUTE \<and> td_total r \<le> SHARED_MAX_FINANCIAL_AMOUNT)"

definition tr_correct_distribution :: "nat \<Rightarrow> treasury \<Rightarrow> bool \<times> treasury" where
  "tr_correct_distribution distribution_id s =
    (if \<not> tr_audit_distribution_fairness distribution_id s then
       (True, case ty_receipt s distribution_id of
          Some r \<Rightarrow> s\<lparr>ty_receipt := (ty_receipt s)(distribution_id \<mapsto> r\<lparr>td_processed := False\<rparr>)\<rparr>
        | None \<Rightarrow> s)
     else (False, s))"

definition tr_verify_reward_allocation ::
    "env \<Rightarrow> int \<Rightarrow> reward_allocation list \<Rightarrow> treasury \<Rightarrow> (bool \<times> treasury) tr_res" where
  "tr_verify_reward_allocation env total_reward allocations s =
    rbind (validate_reward_distribution env total_reward allocations) (\<lambda>result.
    Inr (pv_valid result, tr_record_check env result s))"

definition tr_calculate_platform_fees :: "int \<Rightarrow> nat \<Rightarrow> nat \<Rightarrow> int" where
  "tr_calculate_platform_fees amount system_load reputation =
    trunc_div (sat_i128 (amount * int (df_fee_bps (calculate_dynamic_fee system_load reputation)))) 10000"

end
