(* ===== verification/Treasury.thy ===== *)
theory Treasury
  imports TreasuryState
begin

text \<open>
  The operations of the treasury contract that move funds: deposits and fees, allocations alone and in
  batches, allocations that wait for a second approval, distributions to the staking contract, and
  buybacks. They work on the storage and the state \<open>'w\<close> of the other contracts; \<open>T\<close> are the token
  contracts in it.
\<close>

section \<open>Guards and batches\<close>

definition tr_guarded ::
    "symbol \<Rightarrow> treasury \<times> 'w \<Rightarrow> (treasury \<times> 'w \<Rightarrow> (treasury \<times> 'w) tr_res) \<Rightarrow> (treasury \<times> 'w) tr_res" where
  "tr_guarded lock sw body =
    rbind (guarded (\<lambda>(s, w). ty_guard s) (\<lambda>g (s, w). (s\<lparr>ty_guard := g\<rparr>, w)) lock None sw
      (\<lambda>sw. rbind (body sw) (\<lambda>sw. Inr ((), sw)))) (\<lambda>(u, sw). Inr sw)"

definition tr_not_rg_paused :: "symbol \<Rightarrow> treasury \<Rightarrow> 'b tr_res \<Rightarrow> 'b tr_res" where
  "tr_not_rg_paused lock_name s k =
    ensure (\<not> rg_is_paused (Some lock_name) (ty_guard s)) (Err TrReentrancyGuardPaused) k"

definition tr_not_paused :: "'w treasury_peers \<Rightarrow> treasury \<times> 'w \<Rightarrow> 'b tr_res \<Rightarrow> 'b tr_res" where
  "tr_not_paused P sw k =
    (case ty_pause_guardian (fst sw) of
       None \<Rightarrow> k
     | Some guardian \<Rightarrow>
         expect (tp_paused P guardian (snd sw)) CalleeTrapped (\<lambda>paused.
         ensure (\<not> paused) (Panic ''Contract is paused'') k))"

text \<open>A batch of operations with the executor's state; \<open>BO_Invoke\<close> carries no arguments.\<close>

datatype batch_op = BO_Transfer addr addr addr int bool | BO_Invoke addr symbol bool

definition MAX_BATCH_SIZE :: nat where "MAX_BATCH_SIZE = 100"

definition batch_add_transfer :: "addr \<Rightarrow> addr \<Rightarrow> addr \<Rightarrow> int \<Rightarrow> batch_op list \<Rightarrow> batch_op list" where
  "batch_add_transfer tok from_addr to_addr amount ops = ops @ [BO_Transfer tok from_addr to_addr amount False]"

definition batch_add_invoke :: "addr \<Rightarrow> symbol \<Rightarrow> batch_op list \<Rightarrow> batch_op list" where
  "batch_add_invoke contract fun_name ops = ops @ [BO_Invoke contract fun_name False]"

datatype batch_error = BatchEmpty | BatchTooLarge

definition batch_validate :: "batch_op list \<Rightarrow> batch_error option" where
  "batch_validate ops =
    (if ops = [] then Some BatchEmpty else if MAX_BATCH_SIZE < length ops then Some BatchTooLarge else None)"

fun execute_all :: "(batch_op \<Rightarrow> 'w \<Rightarrow> 'e + 'w) \<Rightarrow> batch_op list \<Rightarrow> 'w \<Rightarrow> 'e + 'w" where
  "execute_all executor [] w = Inr w"
| "execute_all executor (op # ops) w = rbind (executor op w) (execute_all executor ops)"

text \<open>The executor of the allocations: transfers only.\<close>

definition exec_transfer :: "'w token_ops \<Rightarrow> env \<Rightarrow> batch_op \<Rightarrow> 'w \<Rightarrow> 'w tr_res" where
  "exec_transfer T env op w =
    (case op of
       BO_Transfer tok from_addr to_addr amount _ \<Rightarrow>
         call_ext (tk_transfer T (as_invoker env) tok from_addr to_addr amount w)
     | BO_Invoke _ _ _ \<Rightarrow> Inr w)"

definition peer :: "'a option \<Rightarrow> ('a \<Rightarrow> 'e fail + 'b) \<Rightarrow> 'e fail + 'b" where
  "peer x k = expect x CalleeTrapped k"

lemma peer_Inr [res_simps]: "peer x k = Inr y \<longleftrightarrow> (\<exists>a. x = Some a \<and> k a = Inr y)"
  by (simp add: peer_def res_simps)

lemma tr_not_rg_paused_Inr [res_simps]:
  "tr_not_rg_paused l s k = Inr x \<longleftrightarrow> \<not> rg_is_paused (Some l) (ty_guard s) \<and> k = Inr x"
  by (simp add: tr_not_rg_paused_def res_simps)

lemma tr_not_paused_Inr [res_simps]:
  "tr_not_paused P (s, w) k = Inr x \<longleftrightarrow>
   (\<forall>g. ty_pause_guardian s = Some g \<longrightarrow> tp_paused P g w = Some False) \<and> k = Inr x"
  by (auto simp: tr_not_paused_def res_simps split: option.splits)

lemma tr_guarded_Inr [res_simps]:
  "tr_guarded l (s, w) body = Inr (s', w') \<longleftrightarrow>
    (\<exists>g s1. rg_enter l None (ty_guard s) = (Inr g :: guard_state tr_res) \<and>
       body (s\<lparr>ty_guard := g\<rparr>, w) = Inr (s1, w') \<and>
       s' = s1\<lparr>ty_guard := rg_release l None (ty_guard s1)\<rparr>)"
  by (auto simp: tr_guarded_def guarded_def res_simps split: prod.splits)


section \<open>Deposits and fees\<close>

definition tr_deposit_body ::
    "'w token_ops \<Rightarrow> env \<Rightarrow> addr \<Rightarrow> addr \<Rightarrow> int \<Rightarrow> treasury \<times> 'w \<Rightarrow> (treasury \<times> 'w) tr_res" where
  "tr_deposit_body T env from_addr tok amount = (\<lambda>(s, w).
    ensure (auth_by env from_addr) AuthDenied (
    rbind (tr_throttle env from_addr s) (\<lambda>(req_count, s).
    ensure (tr_valid_amount amount ''amount'') (Err TrInvalidAmount) (
    ensure (tr_is_token_approved tok s) (Err TrTokenNotApproved) (
    let balance_before = tk_balance T tok (self_addr env) w in
    rbind (call_ext (tk_transfer T env tok from_addr (self_addr env) amount w)) (\<lambda>w.
    let balance_after = tk_balance T tok (self_addr env) w in
    rbind (arith_u32 (get_or 0 (ty_dep_count s from_addr) + 1)) (\<lambda>count.
    rbind (arith_i128 (get_or 0 (ty_dep_total s from_addr) + amount)) (\<lambda>total_deposits.
    let s = s\<lparr>ty_dep_count := (ty_dep_count s)(from_addr \<mapsto> count),
              ty_dep_total := (ty_dep_total s)(from_addr \<mapsto> total_deposits)\<rparr>;
        actual_avg = trunc_div total_deposits (int count) in
    rbind (detect_fee_evasion 100000 actual_avg) (\<lambda>audit.
    ensure (\<not> (ec_penalty_tier audit = PT_PermanentBan \<or> ec_penalty_tier audit = PT_TemporarySuspension))
      (Err TrCallerNotAuthorized) (
    ensure (checked_i128 (balance_after - balance_before) = Some amount) (Err TrInsufficientBalance) (
    Inr (tr_log_operation env ''deposit'' from_addr tok amount (Some (self_addr env)) True s, w))))))))))))"

definition tr_deposit ::
    "'w token_ops \<Rightarrow> 'w treasury_peers \<Rightarrow> env \<Rightarrow> addr \<Rightarrow> addr \<Rightarrow> int \<Rightarrow> treasury \<times> 'w \<Rightarrow> (treasury \<times> 'w) tr_res" where
  "tr_deposit T P env from_addr tok amount sw =
    tr_not_paused P sw (tr_guarded ''deposit'' sw (tr_deposit_body T env from_addr tok amount))"

definition tr_collect_fees ::
    "'w token_ops \<Rightarrow> 'w treasury_peers \<Rightarrow> env \<Rightarrow> addr \<Rightarrow> addr \<Rightarrow> int \<Rightarrow> nat \<Rightarrow> nat \<Rightarrow> treasury \<times> 'w \<Rightarrow>
     (int \<times> treasury \<times> 'w) tr_res" where
  "tr_collect_fees T P env from_addr tok amount system_load reputation sw =
    ensure (auth_by env from_addr) AuthDenied (
    let fee = tr_calculate_platform_fees amount system_load reputation;
        recent_tx = get_or 0 (ty_dep_count (fst sw) from_addr);
        total_vol = get_or 0 (ty_dep_total (fst sw) from_addr) in
    ensure (\<not> fe_is_evading (detect_fee_gaming recent_tx total_vol)) (Err TrCallerNotAuthorized) (
    rbind (tr_deposit T P env from_addr tok fee sw) (\<lambda>sw. Inr (fee, sw))))"

definition tr_distribute_fee_revenue ::
    "'w token_ops \<Rightarrow> env \<Rightarrow> addr \<Rightarrow> addr \<Rightarrow> int \<Rightarrow> addr \<Rightarrow> treasury \<times> 'w \<Rightarrow> (treasury \<times> 'w) tr_res" where
  "tr_distribute_fee_revenue T env admin tok amount destination = (\<lambda>(s, w).
    ensure (validate_caller_is_authorized admin (tr_callers_of s)) (Err TrCallerNotAuthorized) (
    ensure (auth_by env admin) AuthDenied (
    rbind (pay_self T env tok destination amount w) (\<lambda>w. Inr (s, w)))))"


section \<open>Allocations\<close>

definition tr_report_large_tx ::
    "'w treasury_peers \<Rightarrow> env \<Rightarrow> symbol \<Rightarrow> addr \<Rightarrow> int \<Rightarrow> treasury \<Rightarrow> 'w \<Rightarrow> 'w" where
  "tr_report_large_tx P env fun_name address amount_usd s w =
    (if amount_usd \<le> 10000 then w
     else case ty_reporting s of
       None \<Rightarrow> w
     | Some reporting_addr \<Rightarrow> tp_record_large_tx P (as_invoker env) reporting_addr fun_name address amount_usd w)"

definition tr_queue_pending ::
    "env \<Rightarrow> addr \<Rightarrow> addr \<Rightarrow> addr \<Rightarrow> int \<Rightarrow> treasury \<Rightarrow> treasury tr_res" where
  "tr_queue_pending env admin tok recipient amount s =
    (let pending_count = get_or 0 (ty_pending_count s);
         pending = \<lparr>pa_id = pending_count, pa_token = tok, pa_recipient = recipient, pa_amount = amount,
                    pa_approvals = 1, pa_executed = False, pa_created_at = ledger_ts env\<rparr>;
         s = s\<lparr>ty_pending := (ty_pending s)(pending_count \<mapsto> pending),
               ty_approval := (ty_approval s)((pending_count, admin) \<mapsto> True)\<rparr> in
     rbind (arith_u32 (pending_count + 1)) (\<lambda>n.
     Inr (tr_log_operation env ''allocate_pending'' admin tok amount (Some recipient) True
            (s\<lparr>ty_pending_count := Some n\<rparr>))))"

definition tr_pay_now ::
    "'w token_ops \<Rightarrow> env \<Rightarrow> addr \<Rightarrow> addr \<Rightarrow> addr \<Rightarrow> int \<Rightarrow> int \<Rightarrow> treasury \<times> 'w \<Rightarrow> (treasury \<times> 'w) tr_res" where
  "tr_pay_now T env admin tok recipient amount balance_before = (\<lambda>(s, w).
    let batch = batch_add_transfer tok (self_addr env) recipient amount [] in
    ensure (batch_validate batch = None) (Err TrInvalidAmount) (
    rbind (execute_all (exec_transfer T env) batch w) (\<lambda>w.
    let balance_after = tk_balance T tok (self_addr env) w in
    ensure (checked_i128 (balance_before - balance_after) = Some amount) (Err TrStateValidationFailed) (
    ensure (\<not> tk_balance T tok recipient w < amount) (Err TrStateValidationFailed) (
    let conservation = validate_fund_conservation env balance_before 0 amount 0 balance_after;
        s = tr_record_check env conservation s in
    ensure (pv_valid conservation) (Err TrStateValidationFailed) (
    rbind (tr_add_history env tok recipient amount s) (\<lambda>s.
    Inr (tr_log_operation env ''allocate'' admin tok amount (Some recipient) True s, w))))))))"

definition tr_allocate_body ::
    "'w token_ops \<Rightarrow> 'w treasury_peers \<Rightarrow> env \<Rightarrow> addr \<Rightarrow> addr \<Rightarrow> int \<Rightarrow> treasury \<times> 'w \<Rightarrow> (treasury \<times> 'w) tr_res" where
  "tr_allocate_body T P env tok recipient amount = (\<lambda>(s, w).
    tr_as_admin env s (\<lambda>admin.
    ensure (tr_is_token_approved tok s) (Err TrTokenNotApproved) (
    ensure (tr_valid_amount amount ''amount'') (Err TrInvalidAmount) (
    ensure (validate_amount_limits amount 1 MAX_PER_TX_ALLOCATE) (Err TrAmountExceedsLimit) (
    ensure (validate_caller_is_authorized admin (tr_callers_of s)) (Err TrCallerNotAuthorized) (
    rbind (tr_throttle env admin s) (\<lambda>(interactions, s).
    ensure (enforce_protocol_isolation (detect_atomic_arbitrage interactions)) (Err TrReentrancyGuardPaused) (
    let balance_before = tk_balance T tok (self_addr env) w in
    ensure (\<not> balance_before < amount) (Err TrInsufficientBalance) (
    let w = tr_report_large_tx P env ''allocate'' recipient amount s w;
        threshold = get_or 50000 (ty_threshold s) in
    if threshold < amount
    then rbind (tr_queue_pending env admin tok recipient amount s) (\<lambda>s. Inr (s, w))
    else tr_pay_now T env admin tok recipient amount balance_before (s, w))))))))))"

definition tr_allocate ::
    "'w token_ops \<Rightarrow> 'w treasury_peers \<Rightarrow> env \<Rightarrow> addr \<Rightarrow> addr \<Rightarrow> int \<Rightarrow> treasury \<times> 'w \<Rightarrow> (treasury \<times> 'w) tr_res" where
  "tr_allocate T P env tok recipient amount sw =
    tr_not_paused P sw (
    tr_not_rg_paused ''allocate'' (fst sw) (
    tr_guarded ''allocate'' sw (tr_allocate_body T P env tok recipient amount)))"

text \<open>The running totals of a batch, one entry per token in the order of first use.\<close>

fun add_to_totals :: "addr \<Rightarrow> int \<Rightarrow> (addr \<times> int) list \<Rightarrow> ((addr \<times> int) list) tr_res" where
  "add_to_totals tok amount [] = Inr [(tok, amount)]"
| "add_to_totals tok amount (t # ts) =
    (if fst t = tok
     then expect (checked_i128 (snd t + amount)) (Err TrInvalidAmount) (\<lambda>x. Inr ((tok, x) # ts))
     else rbind (add_to_totals tok amount ts) (\<lambda>ts. Inr (t # ts)))"

fun batch_totals :: "treasury \<Rightarrow> int \<Rightarrow> allocation_request list \<Rightarrow> (addr \<times> int) list \<Rightarrow> ((addr \<times> int) list) tr_res" where
  "batch_totals s threshold [] totals = Inr totals"
| "batch_totals s threshold (req # reqs) totals =
    ensure (tr_is_token_approved (aq_token req) s) (Err TrTokenNotApproved) (
    ensure (tr_valid_amount (aq_amount req) ''amount'') (Err TrInvalidAmount) (
    ensure (validate_amount_limits (aq_amount req) 1 MAX_PER_TX_ALLOCATE) (Err TrAmountExceedsLimit) (
    ensure (\<not> threshold < aq_amount req) (Err TrAmountExceedsLimit) (
    rbind (add_to_totals (aq_token req) (aq_amount req) totals) (\<lambda>totals.
    batch_totals s threshold reqs totals)))))"

fun batch_record :: "env \<Rightarrow> addr \<Rightarrow> allocation_request list \<Rightarrow> treasury \<Rightarrow> treasury tr_res" where
  "batch_record env admin [] s = Inr s"
| "batch_record env admin (req # reqs) s =
    rbind (tr_add_history env (aq_token req) (aq_recipient req) (aq_amount req) s) (\<lambda>s.
    batch_record env admin reqs
      (tr_log_operation env ''batch_allocate'' admin (aq_token req) (aq_amount req) (Some (aq_recipient req)) True s))"

definition tr_batch_body ::
    "'w token_ops \<Rightarrow> env \<Rightarrow> allocation_request list \<Rightarrow> treasury \<times> 'w \<Rightarrow> (treasury \<times> 'w) tr_res" where
  "tr_batch_body T env requests = (\<lambda>(s, w).
    tr_as_admin env s (\<lambda>admin.
    ensure (\<not> (requests = [] \<or> MAX_BATCH_SIZE < length requests)) (Err TrInvalidAmount) (
    let threshold = get_or 50000 (ty_threshold s) in
    rbind (batch_totals s threshold requests []) (\<lambda>totals.
    ensure (list_all (\<lambda>t. \<not> tk_balance T (fst t) (self_addr env) w < snd t) totals) (Err TrInsufficientBalance) (
    let batch = fold (\<lambda>req. batch_add_transfer (aq_token req) (self_addr env) (aq_recipient req) (aq_amount req))
                  requests [] in
    ensure (batch_validate batch = None) (Err TrInvalidAmount) (
    rbind (execute_all (exec_transfer T env) batch w) (\<lambda>w.
    rbind (batch_record env admin requests s) (\<lambda>s. Inr (s, w)))))))))"

definition tr_batch_allocate ::
    "'w token_ops \<Rightarrow> 'w treasury_peers \<Rightarrow> env \<Rightarrow> allocation_request list \<Rightarrow> treasury \<times> 'w \<Rightarrow> (treasury \<times> 'w) tr_res" where
  "tr_batch_allocate T P env requests sw =
    tr_not_paused P sw (
    tr_not_rg_paused ''batch_allocate'' (fst sw) (
    tr_guarded ''batch_allocate'' sw (tr_batch_body T env requests)))"

text \<open>The second approval pays.\<close>

definition tr_execute_pending ::
    "'w token_ops \<Rightarrow> env \<Rightarrow> addr \<Rightarrow> pending_allocation \<Rightarrow> treasury \<times> 'w \<Rightarrow>
     (pending_allocation \<times> treasury \<times> 'w) tr_res" where
  "tr_execute_pending T env approver pending = (\<lambda>(s, w).
    let balance_before = tk_balance T (pa_token pending) (self_addr env) w in
    ensure (\<not> balance_before < pa_amount pending) (Err TrInsufficientBalance) (
    rbind (pay_self T env (pa_token pending) (pa_recipient pending) (pa_amount pending) w) (\<lambda>w.
    let balance_after = tk_balance T (pa_token pending) (self_addr env) w in
    ensure (checked_i128 (balance_before - balance_after) = Some (pa_amount pending)) (Err TrStateValidationFailed) (
    let pending = pending\<lparr>pa_executed := True\<rparr> in
    rbind (tr_add_history env (pa_token pending) (pa_recipient pending) (pa_amount pending) s) (\<lambda>s.
    Inr (pending, tr_log_operation env ''allocate_executed'' approver (pa_token pending) (pa_amount pending)
                    (Some (pa_recipient pending)) True s, w))))))"

definition tr_approve_body ::
    "'w token_ops \<Rightarrow> env \<Rightarrow> addr \<Rightarrow> nat \<Rightarrow> treasury \<times> 'w \<Rightarrow> (treasury \<times> 'w) tr_res" where
  "tr_approve_body T env approver pending_id = (\<lambda>(s, w).
    ensure (auth_by env approver) AuthDenied (
    expect (ty_pending s pending_id) (Err TrNotInitialized) (\<lambda>pending.
    ensure (\<not> pa_executed pending) (Err TrInvalidState) (
    ensure (ty_approval s (pending_id, approver) = None) (Err TrDuplicateEntry) (
    let s = s\<lparr>ty_approval := (ty_approval s)((pending_id, approver) \<mapsto> True)\<rparr> in
    rbind (arith_u32 (pa_approvals pending + 1)) (\<lambda>n.
    let pending = pending\<lparr>pa_approvals := n\<rparr> in
    rbind (if 2 \<le> pa_approvals pending then tr_execute_pending T env approver pending (s, w)
           else Inr (pending, s, w)) (\<lambda>(pending, s, w).
    Inr (s\<lparr>ty_pending := (ty_pending s)(pending_id \<mapsto> pending)\<rparr>, w))))))))"

definition tr_approve_pending_allocation ::
    "'w token_ops \<Rightarrow> env \<Rightarrow> addr \<Rightarrow> nat \<Rightarrow> treasury \<times> 'w \<Rightarrow> (treasury \<times> 'w) tr_res" where
  "tr_approve_pending_allocation T env approver pending_id sw =
    tr_not_rg_paused ''approve_alloc'' (fst sw) (
    tr_guarded ''approve_alloc'' sw (tr_approve_body T env approver pending_id))"


section \<open>Distributions\<close>

definition tr_schedule_staker_distribution ::
    "'w treasury_peers \<Rightarrow> env \<Rightarrow> addr \<Rightarrow> nat \<Rightarrow> treasury \<times> 'w \<Rightarrow> (treasury \<times> 'w) tr_res" where
  "tr_schedule_staker_distribution P env admin distribution_at = (\<lambda>(s, w).
    tr_require_admin env admin s (
    ensure (\<not> distribution_at \<le> ledger_ts env) (Err TrInvalidState) (
    let s = s\<lparr>ty_sched := Some distribution_at\<rparr> in
    expect (ty_staking s) (Err TrNotInitialized) (\<lambda>staking.
    Inr (s, tp_set_next_dist P (as_invoker env) staking admin distribution_at w)))))"

text \<open>The gates on the time: the minimum interval, the announced time.\<close>

definition tr_distribution_due :: "env \<Rightarrow> treasury \<Rightarrow> 'b tr_res \<Rightarrow> 'b tr_res" where
  "tr_distribution_due env s k =
    (let now = ledger_ts env in
     ensure (\<not> (case ty_last_dist_at s of Some last_at \<Rightarrow> now - last_at < DISTRIBUTION_MIN_INTERVAL_SECS | None \<Rightarrow> False))
       (Err TrInvalidState) (
     if get_or False (ty_require_sched s)
     then expect (ty_sched s) (Err TrInvalidState) (\<lambda>scheduled. ensure (\<not> now < scheduled) (Err TrInvalidState) k)
     else case ty_sched s of Some scheduled \<Rightarrow> ensure (\<not> now < scheduled) (Err TrInvalidState) k | None \<Rightarrow> k))"

definition tr_open_receipt :: "env \<Rightarrow> addr \<Rightarrow> int \<Rightarrow> nat \<Rightarrow> treasury \<Rightarrow> treasury" where
  "tr_open_receipt env tok total_amount distribution_id s =
    s\<lparr>ty_receipt := (ty_receipt s)(distribution_id \<mapsto> \<lparr>td_id = distribution_id, td_token = tok,
         td_total = total_amount, td_timestamp = ledger_ts env, td_processed = False\<rparr>),
      ty_last_dist := Some distribution_id, ty_last_dist_at := Some (ledger_ts env), ty_sched := None\<rparr>"

text \<open>The executor of a distribution: the transfer, then one tenth to the pool of the liquidity
  providers and the rest to the stakers.\<close>

definition exec_distribution ::
    "'w token_ops \<Rightarrow> 'w treasury_peers \<Rightarrow> env \<Rightarrow> nat \<Rightarrow> addr \<Rightarrow> int \<Rightarrow> batch_op \<Rightarrow> 'w \<Rightarrow> 'w tr_res" where
  "exec_distribution T P env distribution_id tok total_amount op w =
    (case op of
       BO_Transfer t from_addr to_addr amount _ \<Rightarrow>
         call_ext (tk_transfer T (as_invoker env) t from_addr to_addr amount w)
     | BO_Invoke contract _ _ \<Rightarrow>
         let lp_amount = trunc_div total_amount 10; staker_amount = total_amount - lp_amount in
         rbind (if 0 < lp_amount then peer (tp_lp_fund P (as_invoker env) contract lp_amount w) Inr else Inr w) (\<lambda>w.
         peer (tp_receive P (as_invoker env) contract distribution_id (self_addr env) tok staker_amount
                (ledger_ts env) w) Inr))"

definition tr_distribute_body ::
    "'w token_ops \<Rightarrow> 'w treasury_peers \<Rightarrow> env \<Rightarrow> addr \<Rightarrow> int \<Rightarrow> treasury \<times> 'w \<Rightarrow> (treasury \<times> 'w) tr_res" where
  "tr_distribute_body T P env tok total_amount = (\<lambda>(s, w).
    tr_as_admin env s (\<lambda>admin.
    ensure (tr_is_token_approved tok s) (Err TrTokenNotApproved) (
    ensure (tr_valid_amount total_amount ''total_amount'') (Err TrInvalidAmount) (
    ensure (validate_amount_limits total_amount 1 MAX_PER_TX_DISTRIBUTE) (Err TrAmountExceedsLimit) (
    expect (ty_staking s) (Err TrNotInitialized) (\<lambda>staking_contract.
    ensure (validate_caller_is_authorized admin (tr_callers_of s)) (Err TrCallerNotAuthorized) (
    rbind (tr_track_mev_interaction env admin s) (\<lambda>(interactions, s).
    ensure (enforce_protocol_isolation (detect_atomic_arbitrage interactions)) (Err TrReentrancyGuardPaused) (
    tr_distribution_due env s (
    peer (tp_penalty_pool P staking_contract w) (\<lambda>penalty_pool_before.
    let balance_before = tk_balance T tok (self_addr env) w in
    ensure (\<not> balance_before < total_amount) (Err TrInsufficientBalance) (
    expect (checked_u64 (get_or 0 (ty_last_dist s) + 1)) (Err TrOverflow) (\<lambda>distribution_id.
    ensure (ty_receipt s distribution_id = None) (Err TrDistributionAlreadyProcessed) (
    let s = tr_open_receipt env tok total_amount distribution_id s;
        batch = batch_add_invoke staking_contract ''receive_treasury_distribution''
                  (batch_add_transfer tok (self_addr env) staking_contract total_amount []) in
    ensure (batch_validate batch = None) (Err TrInvalidAmount) (
    rbind (execute_all (exec_distribution T P env distribution_id tok total_amount) batch w) (\<lambda>w.
    let balance_after = tk_balance T tok (self_addr env) w in
    ensure (checked_i128 (balance_before - balance_after) = Some total_amount) (Err TrStateValidationFailed) (
    ensure (\<not> tk_balance T tok staking_contract w < total_amount) (Err TrStateValidationFailed) (
    let conservation = validate_fund_conservation env balance_before 0 total_amount 0 balance_after;
        s = tr_record_check env conservation s in
    ensure (pv_valid conservation) (Err TrStateValidationFailed) (
    expect (ty_receipt s distribution_id) (Panic ''unwrap'') (\<lambda>receipt.
    let s = s\<lparr>ty_receipt := (ty_receipt s)(distribution_id \<mapsto> receipt\<lparr>td_processed := True\<rparr>)\<rparr> in
    Inr (tr_log_operation env ''distribute'' admin tok total_amount (Some staking_contract) True s, w)))))))))))))))))))))"

definition tr_distribute_to_stakers ::
    "'w token_ops \<Rightarrow> 'w treasury_peers \<Rightarrow> env \<Rightarrow> addr \<Rightarrow> int \<Rightarrow> treasury \<times> 'w \<Rightarrow> (treasury \<times> 'w) tr_res" where
  "tr_distribute_to_stakers T P env tok total_amount sw =
    tr_not_paused P sw (
    tr_not_rg_paused ''distribute'' (fst sw) (
    tr_guarded ''distribute'' sw (tr_distribute_body T P env tok total_amount)))"

end
