(* ===== verification/TreasuryBuyback.thy ===== *)
theory TreasuryBuyback
  imports Treasury
begin

text \<open>
  Buybacks of the treasury contract: the rolling volume, the deferral of large or rapid buybacks, the
  swap on an exchange chosen by the caller, the burn of what the exchange reports, and the burn queue.
  Failing branches that first reset the allowance do so in the model as well, since the reset can trap.
\<close>

section \<open>The rolling volume\<close>

definition tr_buyback_window_volume :: "env \<Rightarrow> treasury \<Rightarrow> int" where
  "tr_buyback_window_volume env s =
    (case ty_bb_start s of
       Some start \<Rightarrow> if ledger_ts env < sat_u64 (start + BUYBACK_VELOCITY_WINDOW_SECS) then get_or 0 (ty_bb_volume s) else 0
     | None \<Rightarrow> 0)"

definition tr_assess_buyback_velocity :: "env \<Rightarrow> int \<Rightarrow> int \<Rightarrow> treasury \<Rightarrow> velocity_report" where
  "tr_assess_buyback_velocity env xlm_amount xlm_reserve s =
    (let window_volume = sat_i128 (tr_buyback_window_volume env s + xlm_amount);
         lifetime_volume = sat_i128 (get_or 0 (ty_bb_lifetime s) + xlm_amount);
         concentration_bps = (if 0 < lifetime_volume \<and> 0 < window_volume
            then as_u32 (min (min (2 ^ 128 - 1) (as_u128 window_volume * 10000) div as_u128 lifetime_volume) 10000) else 0) in
     assess_token_velocity xlm_reserve window_volume concentration_bps)"

definition tr_record_buyback_volume :: "env \<Rightarrow> int \<Rightarrow> treasury \<Rightarrow> treasury" where
  "tr_record_buyback_volume env xlm_amount s =
    (let now = ledger_ts env;
         (window_start, window_volume) =
           (case ty_bb_start s of
              Some start \<Rightarrow> if now < sat_u64 (start + BUYBACK_VELOCITY_WINDOW_SECS) then (start, get_or 0 (ty_bb_volume s))
                          else (now, 0)
            | None \<Rightarrow> (now, 0));
         lifetime_volume = get_or 0 (ty_bb_lifetime s) in
     s\<lparr>ty_bb_start := Some window_start, ty_bb_volume := Some (sat_i128 (window_volume + xlm_amount)),
       ty_bb_lifetime := Some (sat_i128 (lifetime_volume + xlm_amount))\<rparr>)"


section \<open>The buyback\<close>

definition tr_oracle_gate :: "'w treasury_peers \<Rightarrow> addr option \<Rightarrow> symbol option \<Rightarrow> 'w \<Rightarrow> 'b tr_res \<Rightarrow> 'b tr_res" where
  "tr_oracle_gate P oracle_contract mnt_asset_symbol w k =
    (case (oracle_contract, mnt_asset_symbol) of
       (Some oracle, Some asset_sym) \<Rightarrow>
         peer (tp_oracle P oracle asset_sym w) (\<lambda>health.
         ensure (\<not> oh_stale health) (Err TrOracleStale) (
         ensure (\<not> oh_feeders health < 3) (Err TrOracleUnhealthy) (
         ensure (\<not> oh_tripped health) (Err TrOracleCircuitBreaker) k)))
     | _ \<Rightarrow> k)"

definition tr_defer_buyback ::
    "env \<Rightarrow> addr \<Rightarrow> addr \<Rightarrow> int \<Rightarrow> int \<Rightarrow> velocity_report \<Rightarrow> treasury \<Rightarrow> treasury" where
  "tr_defer_buyback env timelock xlm_token xlm_amount min_mnt_out velocity s =
    (let now = ledger_ts env;
         fallback = sat_u64 (now + BUYBACK_VELOCITY_WINDOW_SECS);
         window_end = (case ty_bb_start s of
             Some start \<Rightarrow> let e = sat_u64 (start + BUYBACK_VELOCITY_WINDOW_SECS) in if now < e then e else fallback
           | None \<Rightarrow> fallback) in
     tr_log_operation env ''buyback_def'' timelock xlm_token xlm_amount None False
       (s\<lparr>ty_deferred := Some \<lparr>bd_xlm = xlm_amount, bd_min_out = min_mnt_out, bd_window_volume = vl_volume velocity,
            bd_velocity_bps = vl_velocity_bps velocity, bd_concentration_bps = vl_concentration_bps velocity,
            bd_health = vl_health velocity, bd_deferred_at = now, bd_retry_after = window_end\<rparr>\<rparr>))"

definition tr_queue_burn :: "int option \<Rightarrow> treasury \<Rightarrow> treasury" where
  "tr_queue_burn mnt_net s =
    (case mnt_net of
       None \<Rightarrow> s
     | Some net \<Rightarrow>
         if 0 < net \<and> ty_burn_rate s = None
         then let queued = get_or 0 (ty_burn_queue s) in
           s\<lparr>ty_burn_queue := Some (get_or queued (checked_i128 (queued + net)))\<rparr>
         else s)"

definition tr_swap_and_burn ::
    "'w token_ops \<Rightarrow> 'w treasury_peers \<Rightarrow> env \<Rightarrow> addr \<Rightarrow> addr \<Rightarrow> addr \<Rightarrow> addr \<Rightarrow> int \<Rightarrow> int \<Rightarrow> symbol \<Rightarrow> int \<Rightarrow>
     treasury \<times> 'w \<Rightarrow> (treasury \<times> 'w) tr_res" where
  "tr_swap_and_burn T P env timelock xlm_token mnt_token dex_contract xlm_amount min_mnt_out swap_fn xlm_balance_before =
    (\<lambda>(s, w).
    let me = self_addr env; inv = as_invoker env; mnt_balance_before = tk_balance T mnt_token me w in
    rbind (arith_u32 (ledger_seq env + 1)) (\<lambda>expiration_ledger.
    peer (tp_approve P inv xlm_token me dex_contract xlm_amount expiration_ledger w) (\<lambda>w.
    peer (tp_swap P inv dex_contract swap_fn xlm_token mnt_token xlm_amount min_mnt_out me w) (\<lambda>(mnt_received, w).
    if mnt_received = 0
    then peer (tp_approve P inv xlm_token me dex_contract 0 expiration_ledger w) (\<lambda>_. Inl (Err TrZeroOutput))
    else if mnt_received < min_mnt_out
    then peer (tp_approve P inv xlm_token me dex_contract 0 expiration_ledger w) (\<lambda>_. Inl (Err TrSlippageExceeded))
    else
    peer (tp_burn P inv mnt_token me mnt_received w) (\<lambda>w.
    let xlm_balance_after = tk_balance T xlm_token me w; mnt_balance_after = tk_balance T mnt_token me w in
    ensure (case checked_i128 (xlm_balance_before - xlm_balance_after) of None \<Rightarrow> False | Some xlm_spent \<Rightarrow> xlm_spent \<le> xlm_amount)
      (Err TrStateValidationFailed) (
    let s = tr_queue_burn (checked_i128 (mnt_balance_after - mnt_balance_before)) s;
        s = tr_record_buyback_volume env xlm_amount s in
    Inr (tr_log_operation env ''buyback'' timelock xlm_token xlm_amount (Some mnt_token) True s, w)))))))"

definition tr_buyback_body ::
    "'w token_ops \<Rightarrow> 'w treasury_peers \<Rightarrow> env \<Rightarrow> addr \<Rightarrow> addr \<Rightarrow> addr \<Rightarrow> int \<Rightarrow> int \<Rightarrow> symbol \<Rightarrow> addr option \<Rightarrow>
     symbol option \<Rightarrow> treasury \<times> 'w \<Rightarrow> (treasury \<times> 'w) tr_res" where
  "tr_buyback_body T P env xlm_token mnt_token dex_contract xlm_amount min_mnt_out swap_fn oracle_contract mnt_asset_symbol =
    (\<lambda>(s, w).
    expect (ty_timelock s) (Err TrNotInitialized) (\<lambda>timelock.
    ensure (auth_by env timelock) AuthDenied (
    ensure (\<not> swap_fn = []) (Panic ''DexInterface: swap_fn must not be empty'') (
    ensure (tr_valid_amount xlm_amount ''xlm_amount'') (Err TrInvalidAmount) (
    ensure (validate_amount_limits xlm_amount 1 MAX_PER_TX_BUYBACK) (Err TrAmountExceedsLimit) (
    ensure (\<not> min_mnt_out \<le> 0) (Err TrInvalidMinOut) (
    ensure (tr_is_token_approved xlm_token s) (Err TrTokenNotApproved) (
    ensure (tr_is_token_approved mnt_token s) (Err TrTokenNotApproved) (
    tr_oracle_gate P oracle_contract mnt_asset_symbol w (
    let xlm_balance_before = tk_balance T xlm_token (self_addr env) w in
    ensure (\<not> xlm_balance_before < xlm_amount) (Err TrInsufficientBalance) (
    let velocity = tr_assess_buyback_velocity env xlm_amount xlm_balance_before s in
    if vl_stabilize velocity
    then Inr (tr_defer_buyback env timelock xlm_token xlm_amount min_mnt_out velocity s, w)
    else tr_swap_and_burn T P env timelock xlm_token mnt_token dex_contract xlm_amount min_mnt_out swap_fn
           xlm_balance_before (s, w))))))))))))"

definition tr_buyback_and_burn ::
    "'w token_ops \<Rightarrow> 'w treasury_peers \<Rightarrow> env \<Rightarrow> addr \<Rightarrow> addr \<Rightarrow> addr \<Rightarrow> int \<Rightarrow> int \<Rightarrow> symbol \<Rightarrow> addr option \<Rightarrow>
     symbol option \<Rightarrow> treasury \<times> 'w \<Rightarrow> (treasury \<times> 'w) tr_res" where
  "tr_buyback_and_burn T P env xlm_token mnt_token dex_contract xlm_amount min_mnt_out swap_fn oracle_contract mnt_asset_symbol sw =
    tr_not_rg_paused ''buyback'' (fst sw) (
    tr_guarded ''buyback'' sw
      (tr_buyback_body T P env xlm_token mnt_token dex_contract xlm_amount min_mnt_out swap_fn oracle_contract mnt_asset_symbol))"


section \<open>Entry points as calls\<close>

datatype tr_call =
    TC_Init addr addr addr "addr option" | TC_Burn_Rate addr nat | TC_Burn_Queue | TC_Propose addr addr | TC_Accept addr
  | TC_Cancel addr | TC_Revoke addr | TC_Reporting addr | TC_Add_Caller addr addr | TC_Approve_Token addr bool
  | TC_Threshold int | TC_Require_Sched addr bool | TC_Resume addr "symbol option" | TC_Benchmark addr addr int
  | TC_Bounds addr addr int int nat | TC_Price addr addr int | TC_Correct nat | TC_Verify int "reward_allocation list"
  | TC_Schedule addr nat | TC_Deposit addr addr int | TC_Collect addr addr int nat nat
  | TC_Fee_Revenue addr addr int addr | TC_Allocate addr addr int | TC_Batch "allocation_request list"
  | TC_Approve addr nat | TC_Distribute addr int
  | TC_Buyback addr addr addr int int symbol "addr option" "symbol option"

definition tr_lift :: "'w \<Rightarrow> treasury tr_res \<Rightarrow> (treasury \<times> 'w) tr_res" where
  "tr_lift w r = rbind r (\<lambda>s. Inr (s, w))"

lemma tr_lift_Inr [res_simps]: "tr_lift w r = Inr (s', w') \<longleftrightarrow> r = Inr s' \<and> w' = w"
  by (auto simp: tr_lift_def res_simps)

fun tr_exec ::
    "'w token_ops \<Rightarrow> 'w treasury_peers \<Rightarrow> env \<Rightarrow> tr_call \<Rightarrow> treasury \<times> 'w \<Rightarrow> (treasury \<times> 'w) tr_res" where
  "tr_exec T P env (TC_Init a st lock g) (s, w) = tr_lift w (tr_initialize env a st lock g s)"
| "tr_exec T P env (TC_Burn_Rate a n) (s, w) = tr_lift w (tr_set_auto_burn_rate env a n s)"
| "tr_exec T P env TC_Burn_Queue (s, w) = tr_lift w (Inr (snd (tr_execute_burn_queue s)))"
| "tr_exec T P env (TC_Propose a b) (s, w) = tr_lift w (tr_propose_admin_change env a b s)"
| "tr_exec T P env (TC_Accept a) (s, w) = tr_lift w (tr_accept_admin_change env a s)"
| "tr_exec T P env (TC_Cancel a) (s, w) = tr_lift w (tr_cancel_admin_change env a s)"
| "tr_exec T P env (TC_Revoke a) (s, w) = tr_lift w (tr_revoke_admin_emergency env a s)"
| "tr_exec T P env (TC_Reporting a) (s, w) = tr_lift w (tr_set_regulatory_reporting env a s)"
| "tr_exec T P env (TC_Add_Caller a b) (s, w) = tr_lift w (tr_add_authorized_caller env a b s)"
| "tr_exec T P env (TC_Approve_Token t b) (s, w) = tr_lift w (tr_set_approved_token env t b s)"
| "tr_exec T P env (TC_Threshold x) (s, w) = tr_lift w (tr_set_multisig_threshold env x s)"
| "tr_exec T P env (TC_Require_Sched a b) (s, w) = tr_lift w (tr_set_require_sched_distrib env a b s)"
| "tr_exec T P env (TC_Resume a l) (s, w) = tr_lift w (tr_admin_resume_rg env a l s)"
| "tr_exec T P env (TC_Benchmark a t x) (s, w) = tr_lift w (tr_set_benchmark_rate env a t x s)"
| "tr_exec T P env (TC_Bounds a t x y n) (s, w) = tr_lift w (tr_set_pricing_bounds env a t x y n s)"
| "tr_exec T P env (TC_Price a t x) (s, w) = tr_lift w (rbind (tr_protect_pricing env a t x s) (\<lambda>(flag, s). Inr s))"
| "tr_exec T P env (TC_Correct i) (s, w) = tr_lift w (Inr (snd (tr_correct_distribution i s)))"
| "tr_exec T P env (TC_Verify x rs) (s, w) = tr_lift w (rbind (tr_verify_reward_allocation env x rs s) (\<lambda>(b, s). Inr s))"
| "tr_exec T P env (TC_Schedule a t) (s, w) = tr_schedule_staker_distribution P env a t (s, w)"
| "tr_exec T P env (TC_Deposit a t x) (s, w) = tr_deposit T P env a t x (s, w)"
| "tr_exec T P env (TC_Collect a t x n m) (s, w) = rbind (tr_collect_fees T P env a t x n m (s, w)) (\<lambda>(fee, sw). Inr sw)"
| "tr_exec T P env (TC_Fee_Revenue a t x d) (s, w) = tr_distribute_fee_revenue T env a t x d (s, w)"
| "tr_exec T P env (TC_Allocate t a x) (s, w) = tr_allocate T P env t a x (s, w)"
| "tr_exec T P env (TC_Batch rs) (s, w) = tr_batch_allocate T P env rs (s, w)"
| "tr_exec T P env (TC_Approve a i) (s, w) = tr_approve_pending_allocation T env a i (s, w)"
| "tr_exec T P env (TC_Distribute t x) (s, w) = tr_distribute_to_stakers T P env t x (s, w)"
| "tr_exec T P env (TC_Buyback x m d a b f oc sy) (s, w) = tr_buyback_and_burn T P env x m d a b f oc sy (s, w)"

end
