(* ===== verification/TreasuryRules.thy ===== *)
theory TreasuryRules
  imports TreasuryBuyback DenseIndex
begin

text \<open>
  What each operation of the treasury does when it succeeds. The money operations write four journals
  (operation log, allocation history, receipts, invariant records), each a map with a counter that stands
  for a list; every rule gives the new storage by the updates of these journals.
\<close>

section \<open>Journals\<close>

text \<open>A map and a counter that represent a list.\<close>

definition seq_rep :: "(nat \<rightharpoonup> 'a) \<Rightarrow> nat \<Rightarrow> 'a list \<Rightarrow> bool" where
  "seq_rep m n xs \<longleftrightarrow> n = length xs \<and> m = (\<lambda>i. if i < length xs then Some (xs ! i) else None)"

lemma seq_rep_empty [simp]: "seq_rep Map.empty 0 []"
  by (simp add: seq_rep_def)

lemma seq_rep_snoc: "seq_rep m n xs \<Longrightarrow> seq_rep (m(n \<mapsto> x)) (Suc n) (xs @ [x])"
  by (auto simp: seq_rep_def nth_append fun_eq_iff)

lemma seq_rep_nth: "seq_rep m n xs \<Longrightarrow> m i = Some x \<longleftrightarrow> i < n \<and> x = xs ! i"
  by (auto simp: seq_rep_def)

lemma seq_rep_None: "seq_rep m n xs \<Longrightarrow> m i = None \<longleftrightarrow> n \<le> i"
  by (auto simp: seq_rep_def)

lemma seq_rep_unique: "seq_rep m n xs \<Longrightarrow> seq_rep m n ys \<Longrightarrow> xs = ys"
  by (auto simp: seq_rep_def fun_eq_iff intro!: nth_equalityI split: if_splits)

lemma seq_rep_page:
  assumes "seq_rep m n xs"
  shows "List.map_filter m [a..<min b n] = take (b - a) (drop a xs)"
proof -
  have "List.map_filter m [a..<min b n] = map (nth xs) [a..<min b n]"
    using assms by (intro map_filter_total) (auto simp: seq_rep_def)
  also have "\<dots> = take (b - a) (drop a xs)"
    using assms by (intro nth_equalityI) (auto simp: seq_rep_def min_def split: if_splits)
  finally show ?thesis .
qed


section \<open>Small steps\<close>

lemmas tr_consts =
  TR_MAX_FINANCIAL_AMOUNT_def MAX_PER_TX_ALLOCATE_def MAX_PER_TX_DISTRIBUTE_def MAX_PER_TX_BUYBACK_def
  SHARED_MAX_FINANCIAL_AMOUNT_def

lemma tr_valid_amount_iff: "tr_valid_amount x f \<longleftrightarrow> 0 < x \<and> x \<le> TR_MAX_FINANCIAL_AMOUNT"
  by (auto simp: tr_valid_amount_def validator_defs v_check_def v_validate_def TR_MAX_FINANCIAL_AMOUNT_def)

lemma tr_caller_iff [simp]: "validate_caller_is_authorized a xs \<longleftrightarrow> a \<in> set xs"
  by (auto simp: validate_caller_is_authorized_def list_ex_iff)

lemma tr_as_admin_Inr [res_simps]:
  "tr_as_admin env s k = Inr x \<longleftrightarrow> (\<exists>a. ty_admin s = Some a \<and> auth_by env a \<and> k a = Inr x)"
  by (auto simp: tr_as_admin_def res_simps)

lemma tr_require_admin_Inr [res_simps]:
  "tr_require_admin env a s k = Inr x \<longleftrightarrow>
   auth_by env a \<and> ty_admin s = Some a \<and> ty_pending_admin s = None \<and> k = Inr x"
  by (auto simp: tr_require_admin_def tr_get_admin_def res_simps)

lemma tr_throttle_Inr:
  "tr_throttle env a s = Inr (n, s') \<Longrightarrow>
   \<exists>m g. n < 30 \<and> n = Suc (get_or 0 (ty_mev s (a, ledger_seq env))) \<and> s' = s\<lparr>ty_mev := m, ty_global := g\<rparr>"
  by (auto simp: tr_throttle_def tr_track_mev_interaction_def Let_def res_simps manage_session_load_def
      EMERGENCY_THROTTLE_RATE_def DEFAULT_MAX_REQUESTS_PER_MINUTE_def split: if_splits)

lemma tr_track_Inr:
  "tr_track_mev_interaction env a s = Inr (n, s') \<Longrightarrow>
   \<exists>m. n = Suc (get_or 0 (ty_mev s (a, ledger_seq env))) \<and> s' = s\<lparr>ty_mev := m\<rparr>"
  by (auto simp: tr_track_mev_interaction_def Let_def res_simps)

text \<open>The entry the operation log gets.\<close>

definition log_entry :: "env \<Rightarrow> symbol \<Rightarrow> addr \<Rightarrow> addr \<Rightarrow> int \<Rightarrow> addr option \<Rightarrow> bool \<Rightarrow> nat \<Rightarrow> operation_log" where
  "log_entry env op_type caller tok amount recipient success n =
    \<lparr>ol_id = n, ol_type = op_type, ol_caller = caller, ol_token = tok, ol_amount = amount,
     ol_recipient = recipient, ol_timestamp = ledger_ts env, ol_ledger = ledger_seq env, ol_success = success\<rparr>"

definition push_log :: "(nat \<Rightarrow> operation_log) \<Rightarrow> treasury \<Rightarrow> treasury" where
  "push_log e s = s\<lparr>ty_log := (ty_log s)(get_or 0 (ty_log_count s) \<mapsto> e (get_or 0 (ty_log_count s))),
     ty_log_count := Some (min u64_max (get_or 0 (ty_log_count s) + 1))\<rparr>"

definition push_history :: "allocation_history \<Rightarrow> treasury \<Rightarrow> treasury" where
  "push_history h s = s\<lparr>ty_alloc := (ty_alloc s)(get_or 0 (ty_alloc_count s) \<mapsto> h),
     ty_alloc_count := Some (get_or 0 (ty_alloc_count s) + 1)\<rparr>"

lemma tr_log_push:
  "get_or 0 (ty_log_count s) \<le> u64_max \<Longrightarrow>
   tr_log_operation env op a t x r b s = push_log (log_entry env op a t x r b) s"
  by (auto simp: tr_log_operation_def push_log_def log_entry_def Let_def checked_u64_def)

lemma tr_history_push:
  "tr_add_history env t r x s = Inr s' \<longleftrightarrow>
   get_or 0 (ty_alloc_count s) < u32_max \<and>
   s' = push_history \<lparr>ah_token = t, ah_recipient = r, ah_amount = x, ah_timestamp = ledger_ts env\<rparr> s"
  by (auto simp: tr_add_history_def push_history_def Let_def res_simps)

text \<open>The guard is untouched by the updates of an operation, and free again when it is over.\<close>

definition guard_free :: "treasury \<Rightarrow> bool" where
  "guard_free s \<longleftrightarrow> ty_guard s = guard_init"

lemma guard_cycle:
  assumes "rg_enter l None guard_init = (Inr g :: guard_state tr_res)"
  shows "rg_release l None g = guard_init"
  using rg_enter_Inr [OF assms] by (auto simp: guard_init_def rg_release_def Let_def)

lemma tr_guarded_body:
  assumes "tr_guarded l (s, w) body = Inr (s', w')"
  obtains g s1 where "body (s\<lparr>ty_guard := g\<rparr>, w) = Inr (s1, w')" "s' = s1\<lparr>ty_guard := rg_release l None (ty_guard s1)\<rparr>"
    "guard_free s \<Longrightarrow> rg_release l None g = guard_init"
proof -
  from assms obtain g s1 where g: "rg_enter l None (ty_guard s) = (Inr g :: guard_state tr_res)"
      "body (s\<lparr>ty_guard := g\<rparr>, w) = Inr (s1, w')" "s' = s1\<lparr>ty_guard := rg_release l None (ty_guard s1)\<rparr>"
    unfolding tr_guarded_Inr by blast
  show thesis by (rule that [OF g(2,3)]) (use g(1) guard_cycle in \<open>simp add: guard_free_def\<close>)
qed


section \<open>Deposits\<close>

definition evasion_ok :: "nat \<Rightarrow> int \<Rightarrow> bool" where
  "evasion_ok n total_deposits \<longleftrightarrow> (let avg = total_deposits div int n in 49991 \<le> avg \<or> avg \<le> 20000)"

lemma fee_evasion_passes:
  assumes "0 \<le> avg" "avg \<le> i128_max"
  shows "(\<exists>audit. detect_fee_evasion 100000 avg = (Inr audit :: economic_audit_result tr_res) \<and>
     \<not> (ec_penalty_tier audit = PT_PermanentBan \<or> ec_penalty_tier audit = PT_TemporarySuspension)) \<longleftrightarrow>
   49991 \<le> avg \<or> avg \<le> 20000"
proof (cases "100000 \<le> avg")
  case True
  then show ?thesis by (auto simp: detect_fee_evasion_def)
next
  case False
  define dev where "dev = (100000 - avg) * 10000 div 100000"
  have dev: "0 \<le> dev" "dev \<le> 10000" "dev = (100000 - avg) div 10" using assms False by (simp_all add: dev_def)
  have "detect_fee_evasion 100000 avg = (Inr \<lparr>ec_is_evading = FEE_EVASION_TOLERANCE_BPS < nat dev, ec_deviation_bps = nat dev,
      ec_penalty_tier = (if 8000 \<le> nat dev then PT_Permanent else if 5000 < nat dev then PT_TemporarySuspension
        else if FEE_EVASION_TOLERANCE_BPS < nat dev then PT_Warning else PT_None)\<rparr> :: economic_audit_result tr_res)"
    using assms False dev
    by (simp add: detect_fee_evasion_def arith_i128_def in_i128_def i128_min_def i128_max_def sat_i128_def trunc_div_nonneg
        dev_def Let_def)
  moreover have "8000 \<le> dev \<longleftrightarrow> avg \<le> 20000" "5000 < dev \<longleftrightarrow> avg < 49991" unfolding dev(3) by linarith+
  then have "8000 \<le> nat dev \<longleftrightarrow> avg \<le> 20000" "5000 < nat dev \<longleftrightarrow> avg < 49991" by linarith+
  ultimately show ?thesis by (auto simp: not_less)
qed

text \<open>The audit of the deposits lets an account pass.\<close>

definition audit_passes :: "int \<Rightarrow> bool" where
  "audit_passes avg \<longleftrightarrow> (\<exists>audit. detect_fee_evasion 100000 avg = (Inr audit :: economic_audit_result tr_res) \<and>
     \<not> (ec_penalty_tier audit = PT_PermanentBan \<or> ec_penalty_tier audit = PT_TemporarySuspension))"

lemma deposit_Inr:
  assumes "tr_deposit T P env a tok x (s, w) = Inr (s', w')" "get_or 0 (ty_log_count s) \<le> u64_max"
  obtains g m gl where
    "auth_by env a" "0 < x" "x \<le> TR_MAX_FINANCIAL_AMOUNT" "get_or False (ty_approved s tok)"
    "tk_transfer T env tok a (self_addr env) x w = Inr w'"
    "tk_balance T tok (self_addr env) w' = tk_balance T tok (self_addr env) w + x"
    "in_i128 (get_or 0 (ty_dep_total s a) + x)" "get_or 0 (ty_dep_count s a) < u32_max"
    "audit_passes (trunc_div (get_or 0 (ty_dep_total s a) + x) (int (get_or 0 (ty_dep_count s a) + 1)))"
    "s' = push_log (log_entry env ''deposit'' a tok x (Some (self_addr env)) True)
       (s\<lparr>ty_guard := g, ty_dep_count := (ty_dep_count s)(a \<mapsto> get_or 0 (ty_dep_count s a) + 1),
          ty_dep_total := (ty_dep_total s)(a \<mapsto> get_or 0 (ty_dep_total s a) + x), ty_mev := m, ty_global := gl\<rparr>)"
    "guard_free s \<Longrightarrow> g = guard_init"
proof -
  have "tr_guarded ''deposit'' (s, w) (tr_deposit_body T env a tok x) = Inr (s', w')"
    using assms(1) by (simp add: tr_deposit_def res_simps)
  then obtain g s1 where b: "tr_deposit_body T env a tok x (s\<lparr>ty_guard := g\<rparr>, w) = Inr (s1, w')"
      and s': "s' = s1\<lparr>ty_guard := rg_release ''deposit'' None (ty_guard s1)\<rparr>"
      and gf: "guard_free s \<Longrightarrow> rg_release ''deposit'' None g = guard_init"
    by (rule tr_guarded_body) blast
  from b obtain n s2 where t: "tr_throttle env a (s\<lparr>ty_guard := g\<rparr>) = Inr (n, s2)"
    unfolding tr_deposit_body_def prod.case by (auto simp: res_simps)
  from tr_throttle_Inr [OF t] obtain m gl where s2: "s2 = s\<lparr>ty_guard := g, ty_mev := m, ty_global := gl\<rparr>" by auto
  let ?c = "get_or 0 (ty_dep_count s a) + 1" and ?t = "get_or 0 (ty_dep_total s a) + x"
  let ?s3 = "s2\<lparr>ty_dep_count := (ty_dep_count s2)(a \<mapsto> ?c), ty_dep_total := (ty_dep_total s2)(a \<mapsto> ?t)\<rparr>"
  from b t have f: "auth_by env a \<and> tr_valid_amount x ''amount'' \<and> tr_is_token_approved tok s2 \<and>
      tk_transfer T env tok a (self_addr env) x w = Inr w' \<and> ?c \<le> u32_max \<and> in_i128 ?t \<and>
      audit_passes (trunc_div ?t (int ?c)) \<and>
      checked_i128 (tk_balance T tok (self_addr env) w' - tk_balance T tok (self_addr env) w) = Some x \<and>
      s1 = tr_log_operation env ''deposit'' a tok x (Some (self_addr env)) True ?s3"
    unfolding tr_deposit_body_def prod.case Let_def audit_passes_def
    by (clarsimp simp: res_simps s2)
  have s1: "s1 = push_log (log_entry env ''deposit'' a tok x (Some (self_addr env)) True) ?s3"
    using f assms(2) by (simp add: tr_log_push s2)
  have bal: "tk_balance T tok (self_addr env) w' = tk_balance T tok (self_addr env) w + x"
    using f by (auto simp: res_simps)
  have f': "auth_by env a" "tr_valid_amount x ''amount''" "tr_is_token_approved tok s2"
      "tk_transfer T env tok a (self_addr env) x w = Inr w'" "?c \<le> u32_max" "in_i128 ?t" "audit_passes (trunc_div ?t (int ?c))"
    using f by blast+
  show thesis
    by (rule that [where g = "rg_release ''deposit'' None g" and m = m and gl = gl])
      (use f' bal gf in \<open>simp_all add: tr_valid_amount_iff tr_is_token_approved_def s2 s' s1 push_log_def Suc_le_eq\<close>)
qed


section \<open>Allocations\<close>

definition history_entry :: "env \<Rightarrow> addr \<Rightarrow> addr \<Rightarrow> int \<Rightarrow> allocation_history" where
  "history_entry env tok r x = \<lparr>ah_token = tok, ah_recipient = r, ah_amount = x, ah_timestamp = ledger_ts env\<rparr>"

definition conservation_record :: "env \<Rightarrow> int \<Rightarrow> invariant_record" where
  "conservation_record env rest = \<lparr>ir_invariant = EI_FundConservation, ir_valid = True, ir_observed = rest, ir_expected = rest,
     ir_timestamp = ledger_ts env, ir_ledger = ledger_seq env\<rparr>"

definition new_pending :: "env \<Rightarrow> addr \<Rightarrow> addr \<Rightarrow> int \<Rightarrow> nat \<Rightarrow> pending_allocation" where
  "new_pending env tok r x i = \<lparr>pa_id = i, pa_token = tok, pa_recipient = r, pa_amount = x, pa_approvals = 1,
     pa_executed = False, pa_created_at = ledger_ts env\<rparr>"

lemma batch_validate_single [simp]: "batch_validate (batch_add_transfer t f r x []) = None"
  by (simp add: batch_validate_def batch_add_transfer_def MAX_BATCH_SIZE_def)

lemma pay_now_Inr:
  assumes "tr_pay_now T env adm tok r x bal (s, w) = Inr (s', w')" "get_or 0 (ty_log_count s) \<le> u64_max" "0 < x"
  shows "tk_transfer T (as_invoker env) tok (self_addr env) r x w = Inr w' \<and>
    tk_balance T tok (self_addr env) w' = bal - x \<and> x \<le> tk_balance T tok r w' \<and>
    get_or 0 (ty_alloc_count s) < u32_max \<and>
    s' = push_log (log_entry env ''allocate'' adm tok x (Some r) True)
      (push_history (history_entry env tok r x) (record_invariant_check (conservation_record env (bal - x)) s))"
proof -
  let ?v = "\<lambda>u. validate_fund_conservation env bal 0 x 0 (tk_balance T tok (self_addr env) u)"
  have *: "tk_transfer T (as_invoker env) tok (self_addr env) r x w = Inr w' \<and>
      checked_i128 (bal - tk_balance T tok (self_addr env) w') = Some x \<and> \<not> tk_balance T tok r w' < x \<and> pv_valid (?v w') \<and>
      get_or 0 (ty_alloc_count s) < u32_max \<and>
      s' = tr_log_operation env ''allocate'' adm tok x (Some r) True
        (push_history (history_entry env tok r x) (tr_record_check env (?v w') s))"
    using assms(1) unfolding tr_pay_now_def prod.case Let_def history_entry_def
    by (clarsimp simp: res_simps tr_history_push batch_add_transfer_def exec_transfer_def tr_record_check_def
        record_invariant_check_def Let_def)
  then have bal: "tk_balance T tok (self_addr env) w' = bal - x" by (auto simp: res_simps)
  have v: "pv_valid (?v w') \<and> pv_observed (?v w') = bal - x \<and> pv_expected (?v w') = bal - x \<and> pv_invariant (?v w') = EI_FundConservation"
    using * by (auto simp: validate_fund_conservation_def checked_then_def checked_i128_def bal split: if_splits)
  have r: "tr_record_check env (?v w') s = record_invariant_check (conservation_record env (bal - x)) s"
    using v by (simp add: tr_record_check_def conservation_record_def)
  let ?s = "push_history (history_entry env tok r x) (record_invariant_check (conservation_record env (bal - x)) s)"
  have "get_or 0 (ty_log_count ?s) \<le> u64_max"
    using assms(2) by (simp add: push_history_def record_invariant_check_def Let_def)
  from tr_log_push [OF this] * bal show ?thesis unfolding r by auto
qed

lemma queue_Inr:
  assumes "tr_queue_pending env adm tok r x s = Inr s'" "get_or 0 (ty_log_count s) \<le> u64_max"
  shows "get_or 0 (ty_pending_count s) < u32_max \<and>
    s' = push_log (log_entry env ''allocate_pending'' adm tok x (Some r) True)
      (s\<lparr>ty_pending_count := Some (get_or 0 (ty_pending_count s) + 1),
         ty_pending := (ty_pending s)(get_or 0 (ty_pending_count s) \<mapsto> new_pending env tok r x (get_or 0 (ty_pending_count s))),
         ty_approval := (ty_approval s)((get_or 0 (ty_pending_count s), adm) \<mapsto> True)\<rparr>)"
  using assms by (auto simp: tr_queue_pending_def Let_def res_simps tr_log_push new_pending_def push_log_def)

text \<open>What the other contracts see of an allocation: the report of a large amount, then the transfer.\<close>

lemma allocate_Inr:
  assumes "tr_allocate T P env tok r x (s, w) = Inr (s', w')" "get_or 0 (ty_log_count s) \<le> u64_max"
  obtains g m gl adm w1 where
    "ty_admin s = Some adm" "auth_by env adm" "adm \<in> set (tr_callers_of s)" "get_or False (ty_approved s tok)"
    "0 < x" "x \<le> MAX_PER_TX_ALLOCATE" "x \<le> tk_balance T tok (self_addr env) w"
    "get_or 0 (ty_mev s (adm, ledger_seq env)) < 4" "w1 = tr_report_large_tx P env ''allocate'' r x s w"
    "get_or 50000 (ty_threshold s) < x \<and> w' = w1 \<and> get_or 0 (ty_pending_count s) < u32_max \<and>
       s' = push_log (log_entry env ''allocate_pending'' adm tok x (Some r) True)
         (s\<lparr>ty_guard := g, ty_pending_count := Some (get_or 0 (ty_pending_count s) + 1),
            ty_pending := (ty_pending s)(get_or 0 (ty_pending_count s) \<mapsto> new_pending env tok r x (get_or 0 (ty_pending_count s))),
            ty_approval := (ty_approval s)((get_or 0 (ty_pending_count s), adm) \<mapsto> True), ty_mev := m, ty_global := gl\<rparr>) \<or>
     x \<le> get_or 50000 (ty_threshold s) \<and> tk_transfer T (as_invoker env) tok (self_addr env) r x w1 = Inr w' \<and>
       tk_balance T tok (self_addr env) w' = tk_balance T tok (self_addr env) w - x \<and> x \<le> tk_balance T tok r w' \<and>
       get_or 0 (ty_alloc_count s) < u32_max \<and>
       s' = push_log (log_entry env ''allocate'' adm tok x (Some r) True)
         (push_history (history_entry env tok r x)
           (record_invariant_check (conservation_record env (tk_balance T tok (self_addr env) w - x))
             (s\<lparr>ty_guard := g, ty_mev := m, ty_global := gl\<rparr>)))"
    "guard_free s \<Longrightarrow> g = guard_init"
proof -
  have "tr_guarded ''allocate'' (s, w) (tr_allocate_body T P env tok r x) = Inr (s', w')"
    using assms(1) by (simp add: tr_allocate_def res_simps)
  then obtain g s1 where b: "tr_allocate_body T P env tok r x (s\<lparr>ty_guard := g\<rparr>, w) = Inr (s1, w')"
      and s': "s' = s1\<lparr>ty_guard := rg_release ''allocate'' None (ty_guard s1)\<rparr>"
      and gf: "guard_free s \<Longrightarrow> rg_release ''allocate'' None g = guard_init"
    by (rule tr_guarded_body) blast
  from b obtain adm n s2 where t: "ty_admin s = Some adm" "tr_throttle env adm (s\<lparr>ty_guard := g\<rparr>) = Inr (n, s2)"
    unfolding tr_allocate_body_def prod.case by (auto simp: res_simps)
  from tr_throttle_Inr [OF t(2)] obtain m gl where s2: "s2 = s\<lparr>ty_guard := g, ty_mev := m, ty_global := gl\<rparr>"
    and n: "n = Suc (get_or 0 (ty_mev s (adm, ledger_seq env)))" by auto
  let ?bal = "tk_balance T tok (self_addr env) w"
  let ?w = "tr_report_large_tx P env ''allocate'' r x s w"
  have wr: "tr_report_large_tx P env ''allocate'' r x s2 w = ?w" by (simp add: tr_report_large_tx_def s2)
  from b t have f: "auth_by env adm" "tr_is_token_approved tok s" "tr_valid_amount x ''amount''"
      "validate_amount_limits x 1 MAX_PER_TX_ALLOCATE" "adm \<in> set (tr_callers_of s)"
      "enforce_protocol_isolation (detect_atomic_arbitrage n)" "x \<le> ?bal"
    and k: "(if get_or 50000 (ty_threshold s) < x then rbind (tr_queue_pending env adm tok r x s2) (\<lambda>s. Inr (s, ?w))
      else tr_pay_now T env adm tok r x ?bal (s2, ?w)) = Inr (s1, w')"
    unfolding tr_allocate_body_def prod.case Let_def
    by (auto simp: res_simps wr [unfolded s2] tr_is_token_approved_def tr_callers_of_def s2)
  have lc: "get_or 0 (ty_log_count s2) \<le> u64_max" using assms(2) by (simp add: s2)
  note defs = push_log_def push_history_def record_invariant_check_def s2 s' Let_def
  show thesis
  proof (rule that [where adm = adm and ?w1.0 = ?w and g = "rg_release ''allocate'' None g" and m = m and gl = gl])
    show "get_or 50000 (ty_threshold s) < x \<and> w' = ?w \<and> get_or 0 (ty_pending_count s) < u32_max \<and>
       s' = push_log (log_entry env ''allocate_pending'' adm tok x (Some r) True)
         (s\<lparr>ty_guard := rg_release ''allocate'' None g, ty_pending_count := Some (get_or 0 (ty_pending_count s) + 1),
            ty_pending := (ty_pending s)(get_or 0 (ty_pending_count s) \<mapsto> new_pending env tok r x (get_or 0 (ty_pending_count s))),
            ty_approval := (ty_approval s)((get_or 0 (ty_pending_count s), adm) \<mapsto> True), ty_mev := m, ty_global := gl\<rparr>) \<or>
     x \<le> get_or 50000 (ty_threshold s) \<and> tk_transfer T (as_invoker env) tok (self_addr env) r x ?w = Inr w' \<and>
       tk_balance T tok (self_addr env) w' = ?bal - x \<and> x \<le> tk_balance T tok r w' \<and>
       get_or 0 (ty_alloc_count s) < u32_max \<and>
       s' = push_log (log_entry env ''allocate'' adm tok x (Some r) True)
         (push_history (history_entry env tok r x)
           (record_invariant_check (conservation_record env (?bal - x))
             (s\<lparr>ty_guard := rg_release ''allocate'' None g, ty_mev := m, ty_global := gl\<rparr>)))"
    proof (cases "get_or 50000 (ty_threshold s) < x")
      case True
      then have "tr_queue_pending env adm tok r x s2 = Inr s1" "w' = ?w" using k by (auto simp: res_simps)
      from queue_Inr [OF this(1) lc] this(2) True show ?thesis by (simp add: defs)
    next
      case False
      then have "tr_pay_now T env adm tok r x ?bal (s2, ?w) = Inr (s1, w')" using k by simp
      from pay_now_Inr [OF this lc] f(3) False show ?thesis by (simp add: tr_valid_amount_iff defs)
    qed
  qed (use t f n gf in \<open>simp_all add: tr_is_token_approved_def tr_valid_amount_iff validate_amount_limits_def isolation_iff\<close>)
qed


text \<open>A batch is a list of payments, each with its history and log entry.\<close>

fun pay_all :: "'w token_ops \<Rightarrow> env \<Rightarrow> allocation_request list \<Rightarrow> 'w \<Rightarrow> 'w tr_res" where
  "pay_all T env [] w = Inr w"
| "pay_all T env (q # qs) w =
    rbind (call_ext (tk_transfer T (as_invoker env) (aq_token q) (self_addr env) (aq_recipient q) (aq_amount q) w))
      (pay_all T env qs)"

fun batch_books :: "env \<Rightarrow> addr \<Rightarrow> allocation_request list \<Rightarrow> treasury \<Rightarrow> treasury" where
  "batch_books env adm [] s = s"
| "batch_books env adm (q # qs) s = batch_books env adm qs
     (push_log (log_entry env ''batch_allocate'' adm (aq_token q) (aq_amount q) (Some (aq_recipient q)) True)
       (push_history (history_entry env (aq_token q) (aq_recipient q) (aq_amount q)) s))"

lemma push_guard [simp]:
  "(push_log e s)\<lparr>ty_guard := g\<rparr> = push_log e (s\<lparr>ty_guard := g\<rparr>)" "ty_guard (push_log e s) = ty_guard s"
  "(push_history h s)\<lparr>ty_guard := g\<rparr> = push_history h (s\<lparr>ty_guard := g\<rparr>)" "ty_guard (push_history h s) = ty_guard s"
  by (simp_all add: push_log_def push_history_def)

lemma batch_books_guard [simp]:
  "(batch_books env adm qs s)\<lparr>ty_guard := g\<rparr> = batch_books env adm qs (s\<lparr>ty_guard := g\<rparr>)"
  "ty_guard (batch_books env adm qs s) = ty_guard s"
  by (induction qs arbitrary: s) simp_all

lemma batch_fold:
  "fold (\<lambda>req. batch_add_transfer (aq_token req) me (aq_recipient req) (aq_amount req)) reqs ops =
   ops @ map (\<lambda>q. BO_Transfer (aq_token q) me (aq_recipient q) (aq_amount q) False) reqs"
  by (induction reqs arbitrary: ops) (simp_all add: batch_add_transfer_def)

lemma execute_transfers:
  "execute_all (exec_transfer T env) (map (\<lambda>q. BO_Transfer (aq_token q) (self_addr env) (aq_recipient q) (aq_amount q) False) reqs) =
   pay_all T env reqs"
  by (induction reqs; rule ext) (simp_all add: exec_transfer_def [of T env "BO_Transfer _ _ _ _ _"])

lemma batch_record_Inr:
  assumes "batch_record env adm reqs s = Inr s'" "get_or 0 (ty_log_count s) \<le> u64_max"
  shows "get_or 0 (ty_alloc_count s) + length reqs \<le> max u32_max (get_or 0 (ty_alloc_count s)) \<and> s' = batch_books env adm reqs s"
  using assms
proof (induction reqs arbitrary: s)
  case Nil
  then show ?case by simp
next
  case (Cons q qs)
  let ?h = "push_history (history_entry env (aq_token q) (aq_recipient q) (aq_amount q)) s"
  let ?s = "push_log (log_entry env ''batch_allocate'' adm (aq_token q) (aq_amount q) (Some (aq_recipient q)) True) ?h"
  have lc: "get_or 0 (ty_log_count ?h) \<le> u64_max" using Cons.prems(2) by (simp add: push_history_def)
  have "get_or 0 (ty_alloc_count s) < u32_max" "batch_record env adm qs ?s = Inr s'"
    using Cons.prems(1) tr_log_push [OF lc] by (auto simp: res_simps tr_history_push history_entry_def)
  moreover from Cons.IH [OF this(2)] have "get_or 0 (ty_alloc_count ?s) + length qs \<le> max u32_max (get_or 0 (ty_alloc_count ?s)) \<and>
      s' = batch_books env adm qs ?s"
    by (simp add: push_log_def)
  moreover have "get_or 0 (ty_alloc_count ?s) = Suc (get_or 0 (ty_alloc_count s))"
    by (simp add: push_log_def push_history_def)
  ultimately show ?case by auto
qed

lemma batch_totals_valid:
  "batch_totals s th reqs ts = Inr ts' \<Longrightarrow>
   \<forall>q \<in> set reqs. get_or False (ty_approved s (aq_token q)) \<and> 0 < aq_amount q \<and> aq_amount q \<le> MAX_PER_TX_ALLOCATE \<and> aq_amount q \<le> th"
  by (induction reqs arbitrary: ts)
    (auto simp: res_simps tr_is_token_approved_def tr_valid_amount_iff validate_amount_limits_def)

lemma batch_Inr:
  assumes "tr_batch_allocate T P env reqs (s, w) = Inr (s', w')" "get_or 0 (ty_log_count s) \<le> u64_max"
  obtains g adm ts where
    "ty_admin s = Some adm" "auth_by env adm" "reqs \<noteq> []" "length reqs \<le> 100"
    "batch_totals s (get_or 50000 (ty_threshold s)) reqs [] = Inr ts"
    "\<forall>t \<in> set ts. snd t \<le> tk_balance T (fst t) (self_addr env) w"
    "pay_all T env reqs w = Inr w'" "get_or 0 (ty_alloc_count s) + length reqs \<le> max u32_max (get_or 0 (ty_alloc_count s))"
    "s' = batch_books env adm reqs (s\<lparr>ty_guard := g\<rparr>)" "guard_free s \<Longrightarrow> g = guard_init"
proof -
  have "tr_guarded ''batch_allocate'' (s, w) (tr_batch_body T env reqs) = Inr (s', w')"
    using assms(1) by (simp add: tr_batch_allocate_def res_simps)
  then obtain g s1 where b: "tr_batch_body T env reqs (s\<lparr>ty_guard := g\<rparr>, w) = Inr (s1, w')"
      and s': "s' = s1\<lparr>ty_guard := rg_release ''batch_allocate'' None (ty_guard s1)\<rparr>"
      and gf: "guard_free s \<Longrightarrow> rg_release ''batch_allocate'' None g = guard_init"
    by (rule tr_guarded_body) blast
  have tot: "batch_totals (s\<lparr>ty_guard := g\<rparr>) th rs = batch_totals s th rs" for th rs
    by (induction rs; rule ext) (simp_all add: tr_is_token_approved_def)
  from b obtain adm ts where f: "ty_admin s = Some adm" "auth_by env adm" "reqs \<noteq> []" "length reqs \<le> MAX_BATCH_SIZE"
      "batch_totals s (get_or 50000 (ty_threshold s)) reqs [] = Inr ts"
      "\<forall>t \<in> set ts. snd t \<le> tk_balance T (fst t) (self_addr env) w"
      "pay_all T env reqs w = Inr w'" "batch_record env adm reqs (s\<lparr>ty_guard := g\<rparr>) = Inr s1"
    unfolding tr_batch_body_def prod.case Let_def
    by (auto simp: res_simps tot batch_fold execute_transfers list_all_iff not_less)
  from batch_record_Inr [OF f(8)] assms(2) have r: "get_or 0 (ty_alloc_count s) + length reqs \<le> max u32_max (get_or 0 (ty_alloc_count s))"
      "s1 = batch_books env adm reqs (s\<lparr>ty_guard := g\<rparr>)" by simp_all
  show thesis
    by (rule that [where g = "rg_release ''batch_allocate'' None g" and adm = adm and ts = ts])
      (use f r gf in \<open>simp_all add: s' MAX_BATCH_SIZE_def\<close>)
qed


section \<open>Second approvals\<close>

text \<open>An approval is recorded; with the second one the allocation is paid, once.\<close>

lemma approve_Inr:
  assumes "tr_approve_pending_allocation T env a i (s, w) = Inr (s', w')" "get_or 0 (ty_log_count s) \<le> u64_max"
  obtains g p where
    "auth_by env a" "ty_pending s i = Some p" "\<not> pa_executed p" "ty_approval s (i, a) = None"
    "pa_approvals p = 0 \<and> w' = w \<and>
       s' = s\<lparr>ty_guard := g, ty_approval := (ty_approval s)((i, a) \<mapsto> True), ty_pending := (ty_pending s)(i \<mapsto> p\<lparr>pa_approvals := 1\<rparr>)\<rparr> \<or>
     1 \<le> pa_approvals p \<and> pa_amount p \<le> tk_balance T (pa_token p) (self_addr env) w \<and>
       tk_transfer T (as_invoker env) (pa_token p) (self_addr env) (pa_recipient p) (pa_amount p) w = Inr w' \<and>
       tk_balance T (pa_token p) (self_addr env) w' = tk_balance T (pa_token p) (self_addr env) w - pa_amount p \<and>
       get_or 0 (ty_alloc_count s) < u32_max \<and>
       s' = push_log (log_entry env ''allocate_executed'' a (pa_token p) (pa_amount p) (Some (pa_recipient p)) True)
         (push_history (history_entry env (pa_token p) (pa_recipient p) (pa_amount p))
           (s\<lparr>ty_guard := g, ty_approval := (ty_approval s)((i, a) \<mapsto> True),
              ty_pending := (ty_pending s)(i \<mapsto> p\<lparr>pa_approvals := pa_approvals p + 1, pa_executed := True\<rparr>)\<rparr>))"
    "guard_free s \<Longrightarrow> g = guard_init"
proof -
  have "tr_guarded ''approve_alloc'' (s, w) (tr_approve_body T env a i) = Inr (s', w')"
    using assms(1) by (simp add: tr_approve_pending_allocation_def res_simps)
  then obtain g s1 where b: "tr_approve_body T env a i (s\<lparr>ty_guard := g\<rparr>, w) = Inr (s1, w')"
      and s': "s' = s1\<lparr>ty_guard := rg_release ''approve_alloc'' None (ty_guard s1)\<rparr>"
      and gf: "guard_free s \<Longrightarrow> rg_release ''approve_alloc'' None g = guard_init"
    by (rule tr_guarded_body) blast
  let ?s = "s\<lparr>ty_guard := g, ty_approval := (ty_approval s)((i, a) \<mapsto> True)\<rparr>"
  from b obtain p q s2 where f: "auth_by env a" "ty_pending s i = Some p" "\<not> pa_executed p" "ty_approval s (i, a) = None"
    and s1: "s1 = s2\<lparr>ty_pending := (ty_pending s2)(i \<mapsto> q)\<rparr>"
    and k: "(if 2 \<le> pa_approvals p + 1 then tr_execute_pending T env a (p\<lparr>pa_approvals := pa_approvals p + 1\<rparr>) (?s, w)
      else Inr (p\<lparr>pa_approvals := pa_approvals p + 1\<rparr>, ?s, w)) = Inr (q, s2, w')"
    unfolding tr_approve_body_def prod.case Let_def by (auto simp: res_simps cong: if_cong)
  show thesis
  proof (cases "1 \<le> pa_approvals p")
    case False
    then have "pa_approvals p = 0" by simp
    with k have "q = p\<lparr>pa_approvals := 1\<rparr>" "s2 = ?s" "w' = w" by auto
    then show thesis
      by (intro that [where g = "rg_release ''approve_alloc'' None g" and p = p]) (use False f gf in \<open>simp_all add: s' s1\<close>)
  next
    case True
    then have "tr_execute_pending T env a (p\<lparr>pa_approvals := pa_approvals p + 1\<rparr>) (?s, w) = Inr (q, s2, w')" using k by simp
    then have x: "pa_amount p \<le> tk_balance T (pa_token p) (self_addr env) w"
      "tk_transfer T (as_invoker env) (pa_token p) (self_addr env) (pa_recipient p) (pa_amount p) w = Inr w'"
      "checked_i128 (tk_balance T (pa_token p) (self_addr env) w - tk_balance T (pa_token p) (self_addr env) w') = Some (pa_amount p)"
      "get_or 0 (ty_alloc_count s) < u32_max" "q = p\<lparr>pa_approvals := pa_approvals p + 1, pa_executed := True\<rparr>"
      "s2 = tr_log_operation env ''allocate_executed'' a (pa_token p) (pa_amount p) (Some (pa_recipient p)) True
         (push_history (history_entry env (pa_token p) (pa_recipient p) (pa_amount p)) ?s)"
      unfolding tr_execute_pending_def prod.case Let_def history_entry_def
      by (auto simp: res_simps tr_history_push not_less)
    have bal: "tk_balance T (pa_token p) (self_addr env) w' = tk_balance T (pa_token p) (self_addr env) w - pa_amount p"
      using x(3) by (auto simp: res_simps)
    have s2: "s2 = push_log (log_entry env ''allocate_executed'' a (pa_token p) (pa_amount p) (Some (pa_recipient p)) True)
         (push_history (history_entry env (pa_token p) (pa_recipient p) (pa_amount p)) ?s)"
      using x(6) assms(2) by (simp add: tr_log_push push_history_def)
    show thesis
      by (rule that [where g = "rg_release ''approve_alloc'' None g" and p = p])
        (use True f gf x(1,2,4) bal in \<open>simp_all add: s' s1 x(5) s2 push_log_def push_history_def\<close>)
  qed
qed


section \<open>Distributions\<close>

definition closed_receipt :: "env \<Rightarrow> addr \<Rightarrow> int \<Rightarrow> nat \<Rightarrow> distribution_receipt" where
  "closed_receipt env tok x i = \<lparr>td_id = i, td_token = tok, td_total = x, td_timestamp = ledger_ts env, td_processed = True\<rparr>"

text \<open>What a distribution asks of the other contracts.\<close>

definition distribution_calls ::
    "'w token_ops \<Rightarrow> 'w treasury_peers \<Rightarrow> env \<Rightarrow> addr \<Rightarrow> nat \<Rightarrow> addr \<Rightarrow> int \<Rightarrow> 'w \<Rightarrow> 'w \<Rightarrow> bool" where
  "distribution_calls T P env sc i tok x w w' \<longleftrightarrow>
    (\<exists>w1 w2. tk_transfer T (as_invoker env) tok (self_addr env) sc x w = Inr w1 \<and>
       (if 0 < x div 10 then tp_lp_fund P (as_invoker env) sc (x div 10) w1 = Some w2 else w2 = w1) \<and>
       tp_receive P (as_invoker env) sc i (self_addr env) tok (x - x div 10) (ledger_ts env) w2 = Some w')"

lemma distribution_due_Inr:
  "tr_distribution_due env s k = Inr y \<longleftrightarrow>
   (\<forall>l. ty_last_dist_at s = Some l \<longrightarrow> l + DISTRIBUTION_MIN_INTERVAL_SECS \<le> ledger_ts env) \<and>
   (\<forall>t. ty_sched s = Some t \<longrightarrow> t \<le> ledger_ts env) \<and> (get_or False (ty_require_sched s) \<longrightarrow> ty_sched s \<noteq> None) \<and> k = Inr y"
  by (cases "ty_last_dist_at s"; cases "ty_sched s")
    (auto simp: tr_distribution_due_def Let_def res_simps DISTRIBUTION_MIN_INTERVAL_SECS_def not_less)

lemma execute_distribution:
  assumes "execute_all (exec_distribution T P env i tok x)
     (batch_add_invoke sc f (batch_add_transfer tok (self_addr env) sc x [])) w = Inr w'" "0 < x"
  shows "distribution_calls T P env sc i tok x w w'"
proof -
  have d: "trunc_div x 10 = x div 10" using assms(2) by (simp add: trunc_div_nonneg)
  show ?thesis using assms(1) unfolding distribution_calls_def batch_add_invoke_def batch_add_transfer_def
    by (auto simp: exec_distribution_def d res_simps Let_def split: if_splits)
qed

lemma batch_validate_pair [simp]: "batch_validate (batch_add_invoke c f (batch_add_transfer t a r x [])) = None"
  by (simp add: batch_validate_def batch_add_invoke_def batch_add_transfer_def MAX_BATCH_SIZE_def)

lemma distribute_to_stakers_Inr:
  assumes "tr_distribute_to_stakers T P env tok x (s, w) = Inr (s', w')" "get_or 0 (ty_log_count s) \<le> u64_max"
  obtains g m adm sc i where
    "ty_admin s = Some adm" "auth_by env adm" "adm \<in> set (tr_callers_of s)" "ty_staking s = Some sc"
    "get_or False (ty_approved s tok)" "0 < x" "x \<le> MAX_PER_TX_DISTRIBUTE" "i = get_or 0 (ty_last_dist s) + 1" "i \<le> u64_max"
    "ty_receipt s i = None"
    "\<forall>l. ty_last_dist_at s = Some l \<longrightarrow> l + DISTRIBUTION_MIN_INTERVAL_SECS \<le> ledger_ts env"
    "\<forall>t. ty_sched s = Some t \<longrightarrow> t \<le> ledger_ts env" "get_or False (ty_require_sched s) \<longrightarrow> ty_sched s \<noteq> None"
    "x \<le> tk_balance T tok (self_addr env) w" "distribution_calls T P env sc i tok x w w'"
    "tk_balance T tok (self_addr env) w' = tk_balance T tok (self_addr env) w - x" "x \<le> tk_balance T tok sc w'"
    "s' = push_log (log_entry env ''distribute'' adm tok x (Some sc) True)
       (record_invariant_check (conservation_record env (tk_balance T tok (self_addr env) w - x))
         (s\<lparr>ty_guard := g, ty_sched := None, ty_last_dist := Some i, ty_receipt := (ty_receipt s)(i \<mapsto> closed_receipt env tok x i),
            ty_last_dist_at := Some (ledger_ts env), ty_mev := m\<rparr>))"
    "guard_free s \<Longrightarrow> g = guard_init"
proof -
  have "tr_guarded ''distribute'' (s, w) (tr_distribute_body T P env tok x) = Inr (s', w')"
    using assms(1) by (simp add: tr_distribute_to_stakers_def res_simps)
  then obtain g s1 where b: "tr_distribute_body T P env tok x (s\<lparr>ty_guard := g\<rparr>, w) = Inr (s1, w')"
      and s': "s' = s1\<lparr>ty_guard := rg_release ''distribute'' None (ty_guard s1)\<rparr>"
      and gf: "guard_free s \<Longrightarrow> rg_release ''distribute'' None g = guard_init"
    by (rule tr_guarded_body) blast
  from b obtain adm n s2 where t: "ty_admin s = Some adm" "tr_track_mev_interaction env adm (s\<lparr>ty_guard := g\<rparr>) = Inr (n, s2)"
    unfolding tr_distribute_body_def prod.case by (auto simp: res_simps)
  from tr_track_Inr [OF t(2)] obtain m where s2: "s2 = s\<lparr>ty_guard := g, ty_mev := m\<rparr>" by auto
  let ?bal = "tk_balance T tok (self_addr env) w" and ?i = "get_or 0 (ty_last_dist s) + 1"
  let ?v = "\<lambda>u. validate_fund_conservation env ?bal 0 x 0 (tk_balance T tok (self_addr env) u)"
  let ?rec = "\<lambda>u. tr_record_check env (?v u) (tr_open_receipt env tok x ?i s2)"
  from b t obtain sc r where f: "auth_by env adm" "tr_is_token_approved tok s" "tr_valid_amount x ''total_amount''"
      "validate_amount_limits x 1 MAX_PER_TX_DISTRIBUTE" "ty_staking s = Some sc" "adm \<in> set (tr_callers_of s)"
      "x \<le> ?bal" "?i \<le> u64_max" "ty_receipt s ?i = None"
    and ex: "execute_all (exec_distribution T P env ?i tok x)
       (batch_add_invoke sc ''receive_treasury_distribution'' (batch_add_transfer tok (self_addr env) sc x [])) w = Inr w'"
    and due: "tr_distribution_due env s2 (Inr ()) = Inr ()"
    and c: "checked_i128 (?bal - tk_balance T tok (self_addr env) w') = Some x" "x \<le> tk_balance T tok sc w'" "pv_valid (?v w')"
      "ty_receipt (?rec w') ?i = Some r"
      "s1 = tr_log_operation env ''distribute'' adm tok x (Some sc) True
         (?rec w'\<lparr>ty_receipt := (ty_receipt (?rec w'))(?i \<mapsto> r\<lparr>td_processed := True\<rparr>)\<rparr>)"
    unfolding tr_distribute_body_def prod.case Let_def
    by (clarsimp simp: res_simps distribution_due_Inr tr_is_token_approved_def tr_callers_of_def s2 not_less)
  have x: "0 < x" "x \<le> MAX_PER_TX_DISTRIBUTE" using f(3,4) by (simp_all add: tr_valid_amount_iff validate_amount_limits_def)
  have bal: "tk_balance T tok (self_addr env) w' = ?bal - x" using c(1) by (auto simp: res_simps)
  have v: "pv_observed (?v w') = ?bal - x \<and> pv_expected (?v w') = ?bal - x \<and> pv_invariant (?v w') = EI_FundConservation"
    using c(3) bal by (auto simp: validate_fund_conservation_def checked_then_def checked_i128_def split: if_splits)
  have rec: "?rec w' = record_invariant_check (conservation_record env (?bal - x)) (tr_open_receipt env tok x ?i s2)"
    using v c(3) by (simp add: tr_record_check_def conservation_record_def)
  have r: "r\<lparr>td_processed := True\<rparr> = closed_receipt env tok x ?i"
    using c(4) unfolding rec by (auto simp: record_invariant_check_def tr_open_receipt_def closed_receipt_def Let_def)
  let ?s = "record_invariant_check (conservation_record env (?bal - x))
    (s2\<lparr>ty_sched := None, ty_last_dist := Some ?i, ty_receipt := (ty_receipt s2)(?i \<mapsto> closed_receipt env tok x ?i),
        ty_last_dist_at := Some (ledger_ts env)\<rparr>)"
  have "?rec w'\<lparr>ty_receipt := (ty_receipt (?rec w'))(?i \<mapsto> r\<lparr>td_processed := True\<rparr>)\<rparr> = ?s"
    unfolding r unfolding rec by (simp add: record_invariant_check_def tr_open_receipt_def Let_def)
  then have s1: "s1 = push_log (log_entry env ''distribute'' adm tok x (Some sc) True) ?s"
    using c(5) assms(2) by (simp add: tr_log_push record_invariant_check_def Let_def s2)
  show thesis
    by (rule that [where g = "rg_release ''distribute'' None g" and m = m and adm = adm and sc = sc and i = ?i])
      (use t f x c(2) bal gf due execute_distribution [OF ex x(1)] in
        \<open>simp_all add: s' s1 s2 push_log_def record_invariant_check_def Let_def tr_is_token_approved_def distribution_due_Inr\<close>)
qed


section \<open>Buybacks\<close>

lemma queue_burn_frame: "\<exists>q. tr_queue_burn n s = s\<lparr>ty_burn_queue := q\<rparr> \<and> (0 \<le> get_or 0 (ty_burn_queue s) \<longrightarrow> 0 \<le> get_or 0 q)"
  by (rule exI [of _ "ty_burn_queue (tr_queue_burn n s)"])
    (auto simp: tr_queue_burn_def Let_def checked_i128_def split: option.splits)

text \<open>The window a successful buyback counts in: the running one, or a new one.\<close>

definition buyback_window :: "env \<Rightarrow> treasury \<Rightarrow> nat" where
  "buyback_window env s = (case ty_bb_start s of
     Some t \<Rightarrow> if ledger_ts env < sat_u64 (t + BUYBACK_VELOCITY_WINDOW_SECS) then t else ledger_ts env
   | None \<Rightarrow> ledger_ts env)"

lemma record_volume_form:
  "tr_record_buyback_volume env x s = s\<lparr>ty_bb_start := Some (buyback_window env s),
     ty_bb_volume := Some (sat_i128 (tr_buyback_window_volume env s + x)),
     ty_bb_lifetime := Some (sat_i128 (get_or 0 (ty_bb_lifetime s) + x))\<rparr>"
  by (cases "ty_bb_start s")
    (simp_all add: tr_record_buyback_volume_def tr_buyback_window_volume_def buyback_window_def Let_def)

lemma record_volume_guard [simp]:
  "(tr_record_buyback_volume env x s)\<lparr>ty_guard := g\<rparr> = tr_record_buyback_volume env x (s\<lparr>ty_guard := g\<rparr>)"
  "ty_guard (tr_record_buyback_volume env x s) = ty_guard s"
  "ty_log_count (tr_record_buyback_volume env x s) = ty_log_count s"
  by (cases "ty_bb_start s"; simp add: record_volume_form tr_buyback_window_volume_def buyback_window_def)+

lemma defer_Inr:
  assumes "get_or 0 (ty_log_count s) \<le> u64_max"
  obtains d where "tr_defer_buyback env lk xt x mo v s =
      push_log (log_entry env ''buyback_def'' lk xt x None False) (s\<lparr>ty_deferred := Some d\<rparr>)"
    "bd_xlm d = x" "bd_deferred_at d = ledger_ts env"
  by (rule that [of "the (ty_deferred (tr_defer_buyback env lk xt x mo v s))"])
    (use assms in \<open>simp_all add: tr_defer_buyback_def Let_def tr_log_push push_log_def\<close>)

lemma buyback_Inr:
  assumes "tr_buyback_and_burn T P env xt mt dex x mo f oc sy (s, w) = Inr (s', w')" "get_or 0 (ty_log_count s) \<le> u64_max"
  obtains g lk where
    "ty_timelock s = Some lk" "auth_by env lk" "0 < x" "x \<le> MAX_PER_TX_BUYBACK" "0 < mo" "get_or False (ty_approved s xt)"
    "get_or False (ty_approved s mt)" "x \<le> tk_balance T xt (self_addr env) w" "guard_free s \<Longrightarrow> g = guard_init"
    "(vl_stabilize (tr_assess_buyback_velocity env x (tk_balance T xt (self_addr env) w) s) \<and> w' = w \<and>
       (\<exists>d. s' = push_log (log_entry env ''buyback_def'' lk xt x None False) (s\<lparr>ty_guard := g, ty_deferred := Some d\<rparr>) \<and>
          bd_xlm d = x \<and> bd_deferred_at d = ledger_ts env)) \<or>
     (\<not> vl_stabilize (tr_assess_buyback_velocity env x (tk_balance T xt (self_addr env) w) s) \<and>
       tk_balance T xt (self_addr env) w - x \<le> tk_balance T xt (self_addr env) w' \<and>
       (\<exists>w1 w2 m. tp_approve P (as_invoker env) xt (self_addr env) dex x (ledger_seq env + 1) w = Some w1 \<and>
          tp_swap P (as_invoker env) dex f xt mt x mo (self_addr env) w1 = Some (m, w2) \<and> mo \<le> m \<and>
          tp_burn P (as_invoker env) mt (self_addr env) m w2 = Some w') \<and>
       (\<exists>q. (0 \<le> get_or 0 (ty_burn_queue s) \<longrightarrow> 0 \<le> get_or 0 q) \<and>
          s' = push_log (log_entry env ''buyback'' lk xt x (Some mt) True)
            (tr_record_buyback_volume env x (s\<lparr>ty_guard := g, ty_burn_queue := q\<rparr>))))"
proof -
  have "tr_guarded ''buyback'' (s, w) (tr_buyback_body T P env xt mt dex x mo f oc sy) = Inr (s', w')"
    using assms(1) by (simp add: tr_buyback_and_burn_def res_simps)
  then obtain g s1 where b: "tr_buyback_body T P env xt mt dex x mo f oc sy (s\<lparr>ty_guard := g\<rparr>, w) = Inr (s1, w')"
      and s': "s' = s1\<lparr>ty_guard := rg_release ''buyback'' None (ty_guard s1)\<rparr>"
      and gf: "guard_free s \<Longrightarrow> rg_release ''buyback'' None g = guard_init"
    by (rule tr_guarded_body) blast
  let ?s = "s\<lparr>ty_guard := g\<rparr>" and ?bal = "tk_balance T xt (self_addr env) w"
  let ?v = "tr_assess_buyback_velocity env x ?bal s"
  have og: "tr_oracle_gate P oc sy w k = Inr y \<Longrightarrow> k = Inr y" for k :: "(treasury \<times> 'a) tr_res" and y
    by (auto simp: tr_oracle_gate_def res_simps split: option.splits)
  have vs: "tr_assess_buyback_velocity env x ?bal ?s = ?v"
    by (cases "ty_bb_start s") (simp_all add: tr_assess_buyback_velocity_def tr_buyback_window_volume_def)
  from b obtain lk where h: "ty_timelock s = Some lk" "auth_by env lk" "tr_valid_amount x ''xlm_amount''"
      "validate_amount_limits x 1 MAX_PER_TX_BUYBACK" "0 < mo" "tr_is_token_approved xt s" "tr_is_token_approved mt s" "x \<le> ?bal"
    and k: "(if vl_stabilize ?v then Inr (tr_defer_buyback env lk xt x mo ?v ?s, w)
      else tr_swap_and_burn T P env lk xt mt dex x mo f ?bal (?s, w)) = Inr (s1, w')"
    unfolding tr_buyback_body_def prod.case Let_def
    by (clarsimp simp: res_simps tr_is_token_approved_def vs dest!: og) (auto simp: not_less res_simps vs cong: if_cong)
  show thesis
  proof (rule that [where g = "rg_release ''buyback'' None g" and lk = lk])
    show "(vl_stabilize ?v \<and> w' = w \<and>
       (\<exists>d. s' = push_log (log_entry env ''buyback_def'' lk xt x None False) (s\<lparr>ty_guard := rg_release ''buyback'' None g, ty_deferred := Some d\<rparr>) \<and>
          bd_xlm d = x \<and> bd_deferred_at d = ledger_ts env)) \<or>
     (\<not> vl_stabilize ?v \<and> ?bal - x \<le> tk_balance T xt (self_addr env) w' \<and>
       (\<exists>w1 w2 m. tp_approve P (as_invoker env) xt (self_addr env) dex x (ledger_seq env + 1) w = Some w1 \<and>
          tp_swap P (as_invoker env) dex f xt mt x mo (self_addr env) w1 = Some (m, w2) \<and> mo \<le> m \<and>
          tp_burn P (as_invoker env) mt (self_addr env) m w2 = Some w') \<and>
       (\<exists>q. (0 \<le> get_or 0 (ty_burn_queue s) \<longrightarrow> 0 \<le> get_or 0 q) \<and>
          s' = push_log (log_entry env ''buyback'' lk xt x (Some mt) True)
            (tr_record_buyback_volume env x (s\<lparr>ty_guard := rg_release ''buyback'' None g, ty_burn_queue := q\<rparr>))))"
    proof (cases "vl_stabilize ?v")
      case True
      then have "s1 = tr_defer_buyback env lk xt x mo ?v ?s" "w' = w" using k by auto
      moreover obtain d where "tr_defer_buyback env lk xt x mo ?v ?s =
          push_log (log_entry env ''buyback_def'' lk xt x None False) (?s\<lparr>ty_deferred := Some d\<rparr>)"
          "bd_xlm d = x" "bd_deferred_at d = ledger_ts env"
        by (rule defer_Inr [of ?s]) (use assms(2) in simp_all)
      ultimately show ?thesis using True by (auto simp: s' push_log_def intro!: exI [of _ d])
    next
      case False
      then have "tr_swap_and_burn T P env lk xt mt dex x mo f ?bal (?s, w) = Inr (s1, w')" using k by simp
      then obtain w1 w2 m n where sw: "tp_approve P (as_invoker env) xt (self_addr env) dex x (ledger_seq env + 1) w = Some w1"
          "tp_swap P (as_invoker env) dex f xt mt x mo (self_addr env) w1 = Some (m, w2)" "mo \<le> m"
          "tp_burn P (as_invoker env) mt (self_addr env) m w2 = Some w'" "?bal - x \<le> tk_balance T xt (self_addr env) w'"
          "s1 = tr_log_operation env ''buyback'' lk xt x (Some mt) True (tr_record_buyback_volume env x (tr_queue_burn n ?s))"
        unfolding tr_swap_and_burn_def prod.case Let_def
        by (clarsimp simp: res_simps split: if_splits option.splits)
      obtain q where q: "tr_queue_burn n ?s = ?s\<lparr>ty_burn_queue := q\<rparr>" "0 \<le> get_or 0 (ty_burn_queue s) \<longrightarrow> 0 \<le> get_or 0 q"
        using queue_burn_frame [of n ?s] by auto
      have "s1 = push_log (log_entry env ''buyback'' lk xt x (Some mt) True) (tr_record_buyback_volume env x (?s\<lparr>ty_burn_queue := q\<rparr>))"
        using sw(6) assms(2) unfolding q(1) by (simp add: tr_log_push)
      then have "s' = push_log (log_entry env ''buyback'' lk xt x (Some mt) True)
          (tr_record_buyback_volume env x (?s\<lparr>ty_burn_queue := q, ty_guard := rg_release ''buyback'' None g\<rparr>))"
        unfolding s' by simp
      also have "?s\<lparr>ty_burn_queue := q, ty_guard := rg_release ''buyback'' None g\<rparr> =
          s\<lparr>ty_guard := rg_release ''buyback'' None g, ty_burn_queue := q\<rparr>" by simp
      finally have "s' = push_log (log_entry env ''buyback'' lk xt x (Some mt) True)
          (tr_record_buyback_volume env x (s\<lparr>ty_guard := rg_release ''buyback'' None g, ty_burn_queue := q\<rparr>))" .
      with sw(1-5) q(2) False show ?thesis by blast
    qed
  qed (use h gf in \<open>simp_all add: tr_is_token_approved_def validate_amount_limits_def tr_valid_amount_iff\<close>)
qed

end
