(* ===== verification/TreasuryInv.thy ===== *)
theory TreasuryInv
  imports TreasuryRules
begin

text \<open>
  The states the treasury can reach, and the invariant they satisfy: the guard is free, the four journals
  are dense and hold what the limits of the operations admit, pending allocations agree with the recorded
  approvals, receipts are at least a day apart, and the deposits of every account pass the audit.

  Between two calls the other contracts may change in any way, and the entries of temporary storage may
  expire.
\<close>

section \<open>The parts of the invariant\<close>

definition entry_ok :: "operation_log \<Rightarrow> bool" where
  "entry_ok l \<longleftrightarrow> ol_success l \<or> ol_type l = ''buyback_def''"

text \<open>The counter of the operation log stops at the largest number; up to there the log is a list.\<close>

definition log_ok :: "nat \<Rightarrow> (nat \<rightharpoonup> operation_log) \<Rightarrow> bool" where
  "log_ok n m \<longleftrightarrow> n \<le> u64_max \<and> (\<forall>i l. m i = Some l \<longrightarrow> entry_ok l) \<and>
    (n < u64_max \<longrightarrow> (\<exists>xs. seq_rep m n xs \<and> map ol_id xs = [0..<n]))"

definition history_ok :: "nat \<Rightarrow> (nat \<rightharpoonup> allocation_history) \<Rightarrow> bool" where
  "history_ok n m \<longleftrightarrow> (\<exists>hs. seq_rep m n hs \<and> (\<forall>h \<in> set hs. 0 < ah_amount h \<and> ah_amount h \<le> MAX_PER_TX_ALLOCATE))"

definition approvers :: "(nat \<times> addr \<rightharpoonup> bool) \<Rightarrow> nat \<Rightarrow> addr set" where
  "approvers ap i = {a. ap (i, a) \<noteq> None}"

definition pending_ok :: "(nat \<times> addr \<rightharpoonup> bool) \<Rightarrow> nat \<Rightarrow> pending_allocation \<Rightarrow> bool" where
  "pending_ok ap i p \<longleftrightarrow> pa_id p = i \<and> 0 < pa_amount p \<and> pa_amount p \<le> MAX_PER_TX_ALLOCATE \<and>
    finite (approvers ap i) \<and> pa_approvals p = card (approvers ap i) \<and>
    pa_approvals p = (if pa_executed p then 2 else 1)"

definition pendings_ok :: "nat \<Rightarrow> (nat \<rightharpoonup> pending_allocation) \<Rightarrow> (nat \<times> addr \<rightharpoonup> bool) \<Rightarrow> bool" where
  "pendings_ok n m ap \<longleftrightarrow> (\<forall>i. m i \<noteq> None \<longleftrightarrow> i < n) \<and> (\<forall>i p. m i = Some p \<longrightarrow> pending_ok ap i p) \<and>
    (\<forall>i a. ap (i, a) \<noteq> None \<longrightarrow> i < n)"

definition receipt_ok :: "nat \<Rightarrow> distribution_receipt \<Rightarrow> bool" where
  "receipt_ok i r \<longleftrightarrow> td_id r = Suc i \<and> td_processed r \<and> 0 < td_total r \<and> td_total r \<le> MAX_PER_TX_DISTRIBUTE"

text \<open>Any two receipts are as many days apart as their numbers differ.\<close>

definition spaced :: "distribution_receipt list \<Rightarrow> bool" where
  "spaced rs \<longleftrightarrow> (\<forall>i < length rs. \<forall>j < i.
     td_timestamp (rs ! j) + (i - j) * DISTRIBUTION_MIN_INTERVAL_SECS \<le> td_timestamp (rs ! i))"

definition receipts_ok :: "nat \<Rightarrow> (nat \<rightharpoonup> distribution_receipt) \<Rightarrow> nat option \<Rightarrow> bool" where
  "receipts_ok n m at_time \<longleftrightarrow> (\<exists>rs. seq_rep (\<lambda>i. m (Suc i)) n rs \<and> m 0 = None \<and> (\<forall>i < n. receipt_ok i (rs ! i)) \<and> spaced rs \<and>
     at_time = (if rs = [] then None else Some (td_timestamp (last rs))))"

definition records_ok :: "(nat \<rightharpoonup> invariant_record) \<Rightarrow> bool" where
  "records_ok m \<longleftrightarrow> (\<forall>i r. m i = Some r \<longrightarrow> ir_invariant r = EI_FundConservation \<longrightarrow> ir_valid r)"

definition deposits_ok :: "(addr \<rightharpoonup> nat) \<Rightarrow> (addr \<rightharpoonup> int) \<Rightarrow> bool" where
  "deposits_ok c t \<longleftrightarrow> (\<forall>a. case c a of None \<Rightarrow> t a = None
     | Some n \<Rightarrow> 1 \<le> n \<and> (\<exists>x. t a = Some x \<and> int n \<le> x \<and> x \<le> i128_max \<and> evasion_ok n x))"

definition buybacks_ok :: "nat option \<Rightarrow> int option \<Rightarrow> int option \<Rightarrow> int option \<Rightarrow> bool" where
  "buybacks_ok st v l q \<longleftrightarrow> 0 \<le> get_or 0 v \<and> get_or 0 v \<le> get_or 0 l \<and> get_or 0 l \<le> i128_max \<and> (st = None \<longrightarrow> v = None) \<and>
    0 \<le> get_or 0 q"

definition config_ok :: "addr \<Rightarrow> treasury \<Rightarrow> bool" where
  "config_ok me s \<longleftrightarrow>
    (case ty_admin s of
       None \<Rightarrow> ty_timelock s = None \<and> ty_callers s = None \<and> ty_approved s = Map.empty \<and> ty_staking s = None \<and>
         ty_pending_admin s = None \<and> ty_pending s = Map.empty \<and>
         ty_log s = Map.empty \<and> ty_log_count s = None \<and> ty_alloc s = Map.empty \<and> ty_alloc_count s = None \<and>
         ty_receipt s = Map.empty \<and> ty_last_dist s = None \<and> ty_last_dist_at s = None
     | Some _ \<Rightarrow> (\<exists>t cs. ty_timelock s = Some t \<and> ty_callers s = Some cs \<and> t \<in> set cs) \<and> ty_staking s \<noteq> None \<and>
         ty_self s = Some me)"

definition tr_inv :: "addr \<Rightarrow> treasury \<Rightarrow> bool" where
  "tr_inv me s \<longleftrightarrow> guard_free s \<and> config_ok me s \<and> log_ok (get_or 0 (ty_log_count s)) (ty_log s) \<and>
    history_ok (get_or 0 (ty_alloc_count s)) (ty_alloc s) \<and>
    pendings_ok (get_or 0 (ty_pending_count s)) (ty_pending s) (ty_approval s) \<and>
    receipts_ok (get_or 0 (ty_last_dist s)) (ty_receipt s) (ty_last_dist_at s) \<and> records_ok (ty_inv s) \<and>
    deposits_ok (ty_dep_count s) (ty_dep_total s) \<and>
    buybacks_ok (ty_bb_start s) (ty_bb_volume s) (ty_bb_lifetime s) (ty_burn_queue s)"

inductive tr_step :: "'w token_ops \<Rightarrow> 'w treasury_peers \<Rightarrow> addr \<Rightarrow> treasury \<times> 'w \<Rightarrow> treasury \<times> 'w \<Rightarrow> bool" for T P me where
  Call: "self_addr env = me \<Longrightarrow> tr_exec T P env c (s, w) = Inr (s', w') \<Longrightarrow> tr_step T P me (s, w) (s', w')"
| Others: "tr_step T P me (s, w) (s, w')"
| Expire: "(\<And>k. m k = ty_mev s k \<or> m k = None) \<Longrightarrow> g = ty_global s \<or> g = None \<Longrightarrow>
    tr_step T P me (s, w) (s\<lparr>ty_mev := m, ty_global := g\<rparr>, w)"

definition tr_reach :: "'w token_ops \<Rightarrow> 'w treasury_peers \<Rightarrow> addr \<Rightarrow> treasury \<Rightarrow> 'w \<Rightarrow> bool" where
  "tr_reach T P me s w \<longleftrightarrow> (\<exists>w0. (tr_step T P me)\<^sup>*\<^sup>* (tr_empty, w0) (s, w))"


section \<open>One step on each part\<close>

lemma log_ok_push:
  assumes "log_ok n m" "entry_ok (e n)" "ol_id (e n) = n"
  shows "log_ok (min u64_max (n + 1)) (m(n \<mapsto> e n))"
proof -
  have "\<exists>xs. seq_rep (m(n \<mapsto> e n)) (Suc n) xs \<and> map ol_id xs = [0..<Suc n]" if h: "Suc n < u64_max"
  proof -
    obtain xs where "seq_rep m n xs" "map ol_id xs = [0..<n]" using assms(1) h by (auto simp: log_ok_def)
    with assms(3) show ?thesis by (intro exI [of _ "xs @ [e n]"]) (simp add: seq_rep_snoc)
  qed
  then show ?thesis using assms by (auto simp: log_ok_def min_def)
qed

lemma history_ok_push:
  assumes "history_ok n m" "0 < ah_amount h" "ah_amount h \<le> MAX_PER_TX_ALLOCATE"
  shows "history_ok (Suc n) (m(n \<mapsto> h))"
proof -
  obtain hs where "seq_rep m n hs" "\<forall>h \<in> set hs. 0 < ah_amount h \<and> ah_amount h \<le> MAX_PER_TX_ALLOCATE"
    using assms(1) by (auto simp: history_ok_def)
  with assms(2,3) show ?thesis unfolding history_ok_def
    by (intro exI [of _ "hs @ [h]"]) (auto simp: seq_rep_snoc)
qed

lemma pendings_okD: "pendings_ok n m ap \<Longrightarrow> m i = Some p \<Longrightarrow> pending_ok ap i p" "pendings_ok n m ap \<Longrightarrow> m i \<noteq> None \<longleftrightarrow> i < n"
    "pendings_ok n m ap \<Longrightarrow> ap (i, a) \<noteq> None \<Longrightarrow> i < n"
  unfolding pendings_ok_def by blast+

lemma pendings_okI:
  "(\<And>i. m i \<noteq> None \<longleftrightarrow> i < n) \<Longrightarrow> (\<And>i p. m i = Some p \<Longrightarrow> pending_ok ap i p) \<Longrightarrow> (\<And>i a. ap (i, a) \<noteq> None \<Longrightarrow> i < n) \<Longrightarrow>
   pendings_ok n m ap"
  unfolding pendings_ok_def by blast

lemma approvers_upd: "approvers (ap((i, a) \<mapsto> b)) j = (if j = i then insert a (approvers ap i) else approvers ap j)"
  by (auto simp: approvers_def)

lemma pendings_ok_new:
  assumes "pendings_ok n m ap" "pa_id p = n" "0 < pa_amount p" "pa_amount p \<le> MAX_PER_TX_ALLOCATE" "pa_approvals p = 1"
    "\<not> pa_executed p"
  shows "pendings_ok (Suc n) (m(n \<mapsto> p)) (ap((n, a) \<mapsto> True))"
proof (rule pendings_okI)
  fix i
  show "(m(n \<mapsto> p)) i \<noteq> None \<longleftrightarrow> i < Suc n" using pendings_okD(2) [OF assms(1), of i] by auto
next
  fix i q
  assume q: "(m(n \<mapsto> p)) i = Some q"
  have "ap (n, b) = None" for b using pendings_okD(3) [OF assms(1), of n b] by (cases "ap (n, b)") auto
  then have "approvers ap n = {}" by (simp add: approvers_def)
  then show "pending_ok (ap((n, a) \<mapsto> True)) i q"
    using q assms(2-6) pendings_okD(1) [OF assms(1), of i q]
    by (cases "i = n") (simp_all add: pending_ok_def approvers_upd)
next
  fix i b
  assume "(ap((n, a) \<mapsto> True)) (i, b) \<noteq> None"
  then show "i < Suc n" using pendings_okD(3) [OF assms(1), of i b] by (cases "i = n") auto
qed

text \<open>A further approval of an allocation that is not executed is the second one.\<close>

lemma pendings_ok_approve:
  assumes "pendings_ok n m ap" "m i = Some p" "\<not> pa_executed p" "ap (i, a) = None"
  shows "pa_approvals p = 1 \<and>
    pendings_ok n (m(i \<mapsto> p\<lparr>pa_approvals := pa_approvals p + 1, pa_executed := True\<rparr>)) (ap((i, a) \<mapsto> True))"
proof (rule conjI)
  have p: "pending_ok ap i p" using pendings_okD(1) [OF assms(1,2)] .
  show "pa_approvals p = 1" using p assms(3) by (simp add: pending_ok_def)
  let ?ap = "ap((i, a) \<mapsto> True)" and ?p = "p\<lparr>pa_approvals := pa_approvals p + 1, pa_executed := True\<rparr>"
  show "pendings_ok n (m(i \<mapsto> ?p)) ?ap"
  proof (rule pendings_okI)
    fix j
    show "(m(i \<mapsto> ?p)) j \<noteq> None \<longleftrightarrow> j < n" using pendings_okD(2) [OF assms(1), of j] assms(2) by (cases "j = i") auto
  next
    fix j q
    assume q: "(m(i \<mapsto> ?p)) j = Some q"
    have "a \<notin> approvers ap i" using assms(4) by (simp add: approvers_def)
    then have "pending_ok ?ap i ?p" using p assms(3) by (simp add: pending_ok_def approvers_upd)
    moreover have "pending_ok ?ap j q" if "j \<noteq> i"
      using that q pendings_okD(1) [OF assms(1), of j q] by (simp add: pending_ok_def approvers_upd)
    ultimately show "pending_ok ?ap j q" using q by (cases "j = i") simp_all
  next
    fix j b
    assume "?ap (j, b) \<noteq> None"
    then show "j < n" using pendings_okD(3) [OF assms(1), of j b] pendings_okD(2) [OF assms(1), of i] assms(2)
      by (cases "j = i") auto
  qed
qed

lemma receipts_ok_push:
  assumes "receipts_ok n m l" "receipt_ok n r" "\<forall>t. l = Some t \<longrightarrow> t + DISTRIBUTION_MIN_INTERVAL_SECS \<le> td_timestamp r"
  shows "receipts_ok (Suc n) (m(Suc n \<mapsto> r)) (Some (td_timestamp r))"
proof -
  obtain rs where rs: "seq_rep (\<lambda>i. m (Suc i)) n rs" "m 0 = None" "\<forall>i < n. receipt_ok i (rs ! i)" "spaced rs"
    "l = (if rs = [] then None else Some (td_timestamp (last rs)))"
    using assms(1) by (auto simp: receipts_ok_def)
  have n: "n = length rs" using rs(1) by (simp add: seq_rep_def)
  have "(\<lambda>i. (m(Suc n \<mapsto> r)) (Suc i)) = (\<lambda>i. m (Suc i))(n \<mapsto> r)" by auto
  then have "seq_rep (\<lambda>i. (m(Suc n \<mapsto> r)) (Suc i)) (Suc n) (rs @ [r])" using seq_rep_snoc [OF rs(1)] by simp
  moreover have "spaced (rs @ [r])"
    unfolding spaced_def
  proof (intro allI impI)
    fix i j
    assume i: "i < length (rs @ [r])" and j: "j < i"
    show "td_timestamp ((rs @ [r]) ! j) + (i - j) * DISTRIBUTION_MIN_INTERVAL_SECS \<le> td_timestamp ((rs @ [r]) ! i)"
    proof (cases "i = length rs")
      case False
      then show ?thesis using i j rs(4) by (simp add: spaced_def nth_append)
    next
      case True
      then have ne: "rs \<noteq> []" using j by auto
      let ?k = "length rs - 1"
      have l: "last rs = rs ! ?k" using ne by (rule last_conv_nth)
      have "td_timestamp (rs ! j) + (?k - j) * DISTRIBUTION_MIN_INTERVAL_SECS \<le> td_timestamp (rs ! ?k)"
      proof (cases "j = ?k")
        case False
        then have "?k < length rs" "j < ?k" using True j ne by auto
        then show ?thesis using rs(4) unfolding spaced_def by blast
      qed simp
      moreover have "td_timestamp (rs ! ?k) + DISTRIBUTION_MIN_INTERVAL_SECS \<le> td_timestamp r"
        using assms(3) rs(5) ne l by simp
      moreover have "(i - j) * DISTRIBUTION_MIN_INTERVAL_SECS = (?k - j) * DISTRIBUTION_MIN_INTERVAL_SECS + DISTRIBUTION_MIN_INTERVAL_SECS"
      proof -
        have "i - j = Suc (?k - j)" using True j by simp
        then show ?thesis by simp
      qed
      ultimately show ?thesis using True j by (simp add: nth_append)
    qed
  qed
  ultimately show ?thesis using rs assms(2) n unfolding receipts_ok_def
    by (intro exI [of _ "rs @ [r]"]) (auto simp: nth_append less_Suc_eq)
qed

lemma records_ok_push: "records_ok m \<Longrightarrow> (ir_invariant r = EI_FundConservation \<Longrightarrow> ir_valid r) \<Longrightarrow> records_ok (m(n \<mapsto> r))"
  by (auto simp: records_ok_def split: if_splits)

lemma audit_passes_iff: "0 \<le> avg \<Longrightarrow> avg \<le> i128_max \<Longrightarrow> audit_passes avg \<longleftrightarrow> 49991 \<le> avg \<or> avg \<le> 20000"
  unfolding audit_passes_def by (rule fee_evasion_passes)

lemma average_bounds: "0 < n \<Longrightarrow> 0 \<le> x \<Longrightarrow> x \<le> i128_max \<Longrightarrow> 0 \<le> x div int n \<and> x div int n \<le> i128_max"
  by (simp add: pos_imp_zdiv_nonneg_iff) (metis int_one_le_iff_zero_less div_by_1 of_nat_0_less_iff order_trans zdiv_mono2 zero_less_one)

lemma deposits_okD: "deposits_ok c t \<Longrightarrow> (case c a of None \<Rightarrow> t a = None
     | Some n \<Rightarrow> 1 \<le> n \<and> (\<exists>x. t a = Some x \<and> int n \<le> x \<and> x \<le> i128_max \<and> evasion_ok n x))"
  unfolding deposits_ok_def by blast

lemma deposits_ok_push:
  assumes "deposits_ok c t" "0 < x" "in_i128 (get_or 0 (t a) + x)"
    "audit_passes (trunc_div (get_or 0 (t a) + x) (int (get_or 0 (c a) + 1)))"
  shows "deposits_ok (c(a \<mapsto> get_or 0 (c a) + 1)) (t(a \<mapsto> get_or 0 (t a) + x))"
proof -
  let ?n = "get_or 0 (c a) + 1" and ?x = "get_or 0 (t a) + x"
  have "int (get_or 0 (c a)) \<le> get_or 0 (t a)" using deposits_okD [OF assms(1), of a] by (auto split: option.splits)
  then have b: "int ?n \<le> ?x" "?x \<le> i128_max" using assms(2,3) by (auto simp: in_i128_def)
  then have d: "trunc_div ?x (int ?n) = ?x div int ?n" by (intro trunc_div_nonneg) simp_all
  from average_bounds [of ?n ?x] b have "0 \<le> ?x div int ?n \<and> ?x div int ?n \<le> i128_max" by simp
  with assms(4) have "evasion_ok ?n ?x" unfolding d by (simp add: audit_passes_iff evasion_ok_def Let_def)
  then have "case (c(a \<mapsto> ?n)) b of None \<Rightarrow> (t(a \<mapsto> ?x)) b = None
     | Some n \<Rightarrow> 1 \<le> n \<and> (\<exists>x. (t(a \<mapsto> ?x)) b = Some x \<and> int n \<le> x \<and> x \<le> i128_max \<and> evasion_ok n x)" for b
    using deposits_okD [OF assms(1), of b] b by (cases "b = a"; cases "c b") simp_all
  then show ?thesis unfolding deposits_ok_def by blast
qed

lemma tr_emptyI: "tr_inv me tr_empty"
  by (auto simp: tr_inv_def tr_empty_def guard_free_def config_ok_def log_ok_def history_ok_def pendings_ok_def
      receipts_ok_def records_ok_def deposits_ok_def buybacks_ok_def spaced_def i128_max_def intro!: exI [of _ "[]"])


section \<open>Every call keeps the invariant\<close>

lemmas tr_inv_parts = push_log_def push_history_def record_invariant_check_def Let_def

lemma tr_invD:
  assumes "tr_inv me s"
  shows "guard_free s" "config_ok me s" "log_ok (get_or 0 (ty_log_count s)) (ty_log s)"
    "history_ok (get_or 0 (ty_alloc_count s)) (ty_alloc s)"
    "pendings_ok (get_or 0 (ty_pending_count s)) (ty_pending s) (ty_approval s)"
    "receipts_ok (get_or 0 (ty_last_dist s)) (ty_receipt s) (ty_last_dist_at s)" "records_ok (ty_inv s)"
    "deposits_ok (ty_dep_count s) (ty_dep_total s)"
    "buybacks_ok (ty_bb_start s) (ty_bb_volume s) (ty_bb_lifetime s) (ty_burn_queue s)"
    "get_or 0 (ty_log_count s) \<le> u64_max"
  using assms by (simp_all add: tr_inv_def log_ok_def)

lemma config_started:
  assumes "config_ok me s" "get_or False (ty_approved s t) \<or> ty_pending s i = Some p \<or> ty_timelock s = Some l"
  shows "ty_admin s \<noteq> None"
  using assms by (cases "ty_admin s") (auto simp: config_ok_def)

lemma history_amount [simp]: "ah_amount (history_entry env t r x) = x"
  by (simp add: history_entry_def)

lemma inv_log:
  assumes "tr_inv me s" "ty_admin s \<noteq> None" "\<And>n. entry_ok (e n) \<and> ol_id (e n) = n"
  shows "tr_inv me (push_log e s)"
  using assms log_ok_push [of "get_or 0 (ty_log_count s)" "ty_log s" e]
  by (auto simp: tr_inv_def guard_free_def config_ok_def push_log_def)

lemma inv_history:
  assumes "tr_inv me s" "ty_admin s \<noteq> None" "0 < ah_amount h" "ah_amount h \<le> MAX_PER_TX_ALLOCATE"
  shows "tr_inv me (push_history h s)"
  using assms history_ok_push [of "get_or 0 (ty_alloc_count s)" "ty_alloc s" h]
  by (auto simp: tr_inv_def guard_free_def config_ok_def push_history_def)

lemma inv_record:
  assumes "tr_inv me s" "ir_invariant r = EI_FundConservation \<Longrightarrow> ir_valid r"
  shows "tr_inv me (record_invariant_check r s)"
  using assms records_ok_push [of "ty_inv s" r]
  by (auto simp: tr_inv_def guard_free_def config_ok_def record_invariant_check_def Let_def split: option.splits)

lemma inv_guard: "tr_inv me s \<Longrightarrow> tr_inv me (s\<lparr>ty_guard := guard_init\<rparr>)"
  by (simp add: tr_inv_def guard_free_def config_ok_def cong: option.case_cong)

lemma inv_temporary: "tr_inv me (s\<lparr>ty_mev := m, ty_global := g\<rparr>) = tr_inv me s" "tr_inv me (s\<lparr>ty_mev := m\<rparr>) = tr_inv me s"
  by (simp_all add: tr_inv_def guard_free_def config_ok_def cong: option.case_cong)

lemma started_simps [simp]:
  "ty_admin (push_log e s) = ty_admin s" "ty_admin (push_history h s) = ty_admin s"
  "ty_admin (record_invariant_check r s) = ty_admin s"
  by (simp_all add: tr_inv_parts)

lemma log_entry_ok: "b \<or> t = ''buyback_def'' \<Longrightarrow> entry_ok (log_entry env t a k x r b n) \<and> ol_id (log_entry env t a k x r b n) = n"
  by (auto simp: entry_ok_def log_entry_def)

lemma deposit_inv:
  assumes "tr_deposit T P env a tok x (s, w) = Inr (s', w')" "tr_inv me s"
  shows "tr_inv me s'"
proof -
  note D = tr_invD [OF assms(2)]
  from assms(1) D(10) show ?thesis
  proof (rule deposit_Inr)
    fix g m gl
    assume app: "get_or False (ty_approved s tok)" and x: "0 < x" and b: "in_i128 (get_or 0 (ty_dep_total s a) + x)"
      and au: "audit_passes (trunc_div (get_or 0 (ty_dep_total s a) + x) (int (get_or 0 (ty_dep_count s a) + 1)))"
      and g: "guard_free s \<Longrightarrow> g = guard_init"
      and s': "s' = push_log (log_entry env ''deposit'' a tok x (Some (self_addr env)) True)
       (s\<lparr>ty_guard := g, ty_dep_count := (ty_dep_count s)(a \<mapsto> get_or 0 (ty_dep_count s a) + 1),
          ty_dep_total := (ty_dep_total s)(a \<mapsto> get_or 0 (ty_dep_total s a) + x), ty_mev := m, ty_global := gl\<rparr>)"
    have st: "ty_admin s \<noteq> None" using config_started [OF D(2)] app by blast
    show ?thesis unfolding s'
    proof (rule inv_log)
      show "tr_inv me (s\<lparr>ty_guard := g, ty_dep_count := (ty_dep_count s)(a \<mapsto> get_or 0 (ty_dep_count s a) + 1),
          ty_dep_total := (ty_dep_total s)(a \<mapsto> get_or 0 (ty_dep_total s a) + x), ty_mev := m, ty_global := gl\<rparr>)"
        using assms(2) g deposits_ok_push [OF D(8) x b au]
        by (simp add: tr_inv_def guard_free_def config_ok_def cong: option.case_cong)
    qed (use st log_entry_ok in simp_all)
  qed
qed

lemma allocate_inv:
  assumes "tr_allocate T P env tok r x (s, w) = Inr (s', w')" "tr_inv me s"
  shows "tr_inv me s'"
proof -
  note D = tr_invD [OF assms(2)]
  from assms(1) D(10) show ?thesis
  proof (rule allocate_Inr)
    fix g m gl adm w1
    assume a: "ty_admin s = Some adm" and x: "0 < x" "x \<le> MAX_PER_TX_ALLOCATE" and g: "guard_free s \<Longrightarrow> g = guard_init"
      and cases: "get_or 50000 (ty_threshold s) < x \<and> w' = w1 \<and> get_or 0 (ty_pending_count s) < u32_max \<and>
       s' = push_log (log_entry env ''allocate_pending'' adm tok x (Some r) True)
         (s\<lparr>ty_guard := g, ty_pending_count := Some (get_or 0 (ty_pending_count s) + 1),
            ty_pending := (ty_pending s)(get_or 0 (ty_pending_count s) \<mapsto> new_pending env tok r x (get_or 0 (ty_pending_count s))),
            ty_approval := (ty_approval s)((get_or 0 (ty_pending_count s), adm) \<mapsto> True), ty_mev := m, ty_global := gl\<rparr>) \<or>
     x \<le> get_or 50000 (ty_threshold s) \<and> tk_transfer T (as_invoker env) tok (self_addr env) r x w1 = Inr w' \<and>
       tk_balance T tok (self_addr env) w' = tk_balance T tok (self_addr env) w - x \<and> x \<le> tk_balance T tok r w' \<and>
       get_or 0 (ty_alloc_count s) < u32_max \<and>
       s' = push_log (log_entry env ''allocate'' adm tok x (Some r) True)
         (push_history (history_entry env tok r x)
           (record_invariant_check (conservation_record env (tk_balance T tok (self_addr env) w - x))
             (s\<lparr>ty_guard := g, ty_mev := m, ty_global := gl\<rparr>)))"
    let ?n = "get_or 0 (ty_pending_count s)"
    have g': "g = guard_init" using g D(1) by simp
    have new: "pa_id (new_pending env tok r x ?n) = ?n" "pa_amount (new_pending env tok r x ?n) = x"
      "pa_approvals (new_pending env tok r x ?n) = 1" "\<not> pa_executed (new_pending env tok r x ?n)"
      by (simp_all add: new_pending_def)
    from pendings_ok_new [OF D(5) new(1) _ _ new(3,4)] new(2) x
    have "tr_inv me (s\<lparr>ty_guard := g, ty_pending_count := Some (?n + 1), ty_pending := (ty_pending s)(?n \<mapsto> new_pending env tok r x ?n),
        ty_approval := (ty_approval s)((?n, adm) \<mapsto> True), ty_mev := m, ty_global := gl\<rparr>)"
      using assms(2) a g' by (simp add: tr_inv_def guard_free_def config_ok_def)
    moreover have "tr_inv me (s\<lparr>ty_guard := g, ty_mev := m, ty_global := gl\<rparr>)"
      unfolding g' inv_temporary by (rule inv_guard [OF assms(2)])
    ultimately show ?thesis using cases a x
      by (auto intro!: inv_log inv_history inv_record log_entry_ok simp: conservation_record_def)
  qed
qed

lemma batch_books_inv:
  assumes "tr_inv me s" "ty_admin s \<noteq> None" "\<forall>q \<in> set qs. 0 < aq_amount q \<and> aq_amount q \<le> MAX_PER_TX_ALLOCATE"
  shows "tr_inv me (batch_books env adm qs s)"
  using assms
proof (induction qs arbitrary: s)
  case (Cons q qs)
  show ?case unfolding batch_books.simps
    by (rule Cons.IH) (use Cons.prems in \<open>auto intro!: inv_log inv_history log_entry_ok\<close>)
qed simp

lemma tr_batch_inv:
  assumes "tr_batch_allocate T P env reqs (s, w) = Inr (s', w')" "tr_inv me s"
  shows "tr_inv me s'"
proof -
  note D = tr_invD [OF assms(2)]
  from assms(1) D(10) show ?thesis
  proof (rule batch_Inr)
    fix g adm ts
    assume *: "ty_admin s = Some adm" "batch_totals s (get_or 50000 (ty_threshold s)) reqs [] = Inr ts"
      "s' = batch_books env adm reqs (s\<lparr>ty_guard := g\<rparr>)" "guard_free s \<Longrightarrow> g = guard_init"
    have "g = guard_init" using *(4) D(1) by simp
    then show ?thesis unfolding *(3)
      using batch_totals_valid [OF *(2)] *(1) inv_guard [OF assms(2)] by (intro batch_books_inv) auto
  qed
qed

lemma approve_inv:
  assumes "tr_approve_pending_allocation T env a i (s, w) = Inr (s', w')" "tr_inv me s"
  shows "tr_inv me s'"
proof -
  note D = tr_invD [OF assms(2)]
  from assms(1) D(10) show ?thesis
  proof (rule approve_Inr)
    fix g p
    assume p: "ty_pending s i = Some p" "\<not> pa_executed p" "ty_approval s (i, a) = None" and g: "guard_free s \<Longrightarrow> g = guard_init"
      and cases: "pa_approvals p = 0 \<and> w' = w \<and>
       s' = s\<lparr>ty_guard := g, ty_approval := (ty_approval s)((i, a) \<mapsto> True), ty_pending := (ty_pending s)(i \<mapsto> p\<lparr>pa_approvals := 1\<rparr>)\<rparr> \<or>
     1 \<le> pa_approvals p \<and> pa_amount p \<le> tk_balance T (pa_token p) (self_addr env) w \<and>
       tk_transfer T (as_invoker env) (pa_token p) (self_addr env) (pa_recipient p) (pa_amount p) w = Inr w' \<and>
       tk_balance T (pa_token p) (self_addr env) w' = tk_balance T (pa_token p) (self_addr env) w - pa_amount p \<and>
       get_or 0 (ty_alloc_count s) < u32_max \<and>
       s' = push_log (log_entry env ''allocate_executed'' a (pa_token p) (pa_amount p) (Some (pa_recipient p)) True)
         (push_history (history_entry env (pa_token p) (pa_recipient p) (pa_amount p))
           (s\<lparr>ty_guard := g, ty_approval := (ty_approval s)((i, a) \<mapsto> True),
              ty_pending := (ty_pending s)(i \<mapsto> p\<lparr>pa_approvals := pa_approvals p + 1, pa_executed := True\<rparr>)\<rparr>))"
    note ok = pendings_ok_approve [OF D(5) p]
    have st: "ty_admin s \<noteq> None" using config_started [OF D(2)] p(1) by blast
    have amt: "0 < pa_amount p" "pa_amount p \<le> MAX_PER_TX_ALLOCATE"
      using pendings_okD(1) [OF D(5) p(1)] by (simp_all add: pending_ok_def)
    have "tr_inv me (s\<lparr>ty_guard := g, ty_approval := (ty_approval s)((i, a) \<mapsto> True),
              ty_pending := (ty_pending s)(i \<mapsto> p\<lparr>pa_approvals := pa_approvals p + 1, pa_executed := True\<rparr>)\<rparr>)"
      using assms(2) ok st g D(1) by (auto simp: tr_inv_def guard_free_def config_ok_def)
    then show ?thesis using cases ok st amt
      by (auto intro!: inv_log inv_history log_entry_ok)
  qed
qed

lemma tr_distribute_inv:
  assumes "tr_distribute_to_stakers T P env tok x (s, w) = Inr (s', w')" "tr_inv me s"
  shows "tr_inv me s'"
proof -
  note D = tr_invD [OF assms(2)]
  from assms(1) D(10) show ?thesis
  proof (rule distribute_to_stakers_Inr)
    fix g m adm sc i
    assume a: "ty_admin s = Some adm" and x: "0 < x" "x \<le> MAX_PER_TX_DISTRIBUTE" and i: "i = get_or 0 (ty_last_dist s) + 1"
      and due: "\<forall>l. ty_last_dist_at s = Some l \<longrightarrow> l + DISTRIBUTION_MIN_INTERVAL_SECS \<le> ledger_ts env"
      and g: "guard_free s \<Longrightarrow> g = guard_init"
      and s': "s' = push_log (log_entry env ''distribute'' adm tok x (Some sc) True)
       (record_invariant_check (conservation_record env (tk_balance T tok (self_addr env) w - x))
         (s\<lparr>ty_guard := g, ty_sched := None, ty_last_dist := Some i, ty_receipt := (ty_receipt s)(i \<mapsto> closed_receipt env tok x i),
            ty_last_dist_at := Some (ledger_ts env), ty_mev := m\<rparr>))"
    have "receipts_ok (Suc (get_or 0 (ty_last_dist s)))
        ((ty_receipt s)(Suc (get_or 0 (ty_last_dist s)) \<mapsto> closed_receipt env tok x i)) (Some (td_timestamp (closed_receipt env tok x i)))"
      using due x by (intro receipts_ok_push [OF D(6)]) (simp_all add: closed_receipt_def receipt_ok_def i)
    then have "tr_inv me (s\<lparr>ty_guard := g, ty_sched := None, ty_last_dist := Some i,
        ty_receipt := (ty_receipt s)(i \<mapsto> closed_receipt env tok x i), ty_last_dist_at := Some (ledger_ts env), ty_mev := m\<rparr>)"
      using assms(2) a g D(1) by (simp add: tr_inv_def guard_free_def config_ok_def i closed_receipt_def)
    then show ?thesis using a
      by (auto intro!: inv_log inv_record log_entry_ok simp: s' conservation_record_def)
  qed
qed

lemma window_volume_bounds:
  assumes "buybacks_ok st v l q" "st = ty_bb_start s" "v = ty_bb_volume s"
  shows "0 \<le> tr_buyback_window_volume env s \<and> tr_buyback_window_volume env s \<le> get_or 0 l"
  using assms by (auto simp: buybacks_ok_def tr_buyback_window_volume_def split: option.splits)

lemma buyback_inv:
  assumes "tr_buyback_and_burn T P env xt mt dex x mo f oc sy (s, w) = Inr (s', w')" "tr_inv me s"
  shows "tr_inv me s'"
proof -
  note D = tr_invD [OF assms(2)]
  from assms(1) D(10) show ?thesis
  proof (rule buyback_Inr)
    fix g lk
    assume k: "ty_timelock s = Some lk" and x: "0 < x" and g: "guard_free s \<Longrightarrow> g = guard_init"
      and cases: "(vl_stabilize (tr_assess_buyback_velocity env x (tk_balance T xt (self_addr env) w) s) \<and> w' = w \<and>
       (\<exists>d. s' = push_log (log_entry env ''buyback_def'' lk xt x None False) (s\<lparr>ty_guard := g, ty_deferred := Some d\<rparr>) \<and>
          bd_xlm d = x \<and> bd_deferred_at d = ledger_ts env)) \<or>
     (\<not> vl_stabilize (tr_assess_buyback_velocity env x (tk_balance T xt (self_addr env) w) s) \<and>
       tk_balance T xt (self_addr env) w - x \<le> tk_balance T xt (self_addr env) w' \<and>
       (\<exists>w1 w2 m. tp_approve P (as_invoker env) xt (self_addr env) dex x (ledger_seq env + 1) w = Some w1 \<and>
          tp_swap P (as_invoker env) dex f xt mt x mo (self_addr env) w1 = Some (m, w2) \<and> mo \<le> m \<and>
          tp_burn P (as_invoker env) mt (self_addr env) m w2 = Some w') \<and>
       (\<exists>q. (0 \<le> get_or 0 (ty_burn_queue s) \<longrightarrow> 0 \<le> get_or 0 q) \<and>
          s' = push_log (log_entry env ''buyback'' lk xt x (Some mt) True)
            (tr_record_buyback_volume env x (s\<lparr>ty_guard := g, ty_burn_queue := q\<rparr>))))"
    have st: "ty_admin s \<noteq> None" using config_started [OF D(2)] k by blast
    have g': "g = guard_init" using g D(1) by simp
    have deferred: "tr_inv me (s\<lparr>ty_guard := g, ty_deferred := Some d\<rparr>)" for d
      using assms(2) st g' by (auto simp: tr_inv_def guard_free_def config_ok_def)
    have recorded: "tr_inv me (tr_record_buyback_volume env x (s\<lparr>ty_guard := g, ty_burn_queue := q\<rparr>))" if q: "0 \<le> get_or 0 q" for q
    proof -
      let ?s = "s\<lparr>ty_guard := g, ty_burn_queue := q\<rparr>"
      have v: "tr_buyback_window_volume env ?s = tr_buyback_window_volume env s"
        by (cases "ty_bb_start s") (simp_all add: tr_buyback_window_volume_def)
      note b = window_volume_bounds [OF D(9) refl refl, of env]
      have "buybacks_ok (Some (buyback_window env ?s)) (Some (sat_i128 (tr_buyback_window_volume env s + x)))
          (Some (sat_i128 (get_or 0 (ty_bb_lifetime s) + x))) q"
        using b q x D(9) by (auto simp: buybacks_ok_def sat_i128_def i128_min_def i128_max_def)
      then show ?thesis using assms(2) st g' by (auto simp: tr_inv_def guard_free_def config_ok_def record_volume_form v [unfolded g'])
    qed
    have q0: "0 \<le> get_or 0 (ty_burn_queue s)" using D(9) by (simp add: buybacks_ok_def)
    have adm: "ty_admin (tr_record_buyback_volume env x (s\<lparr>ty_guard := g, ty_burn_queue := q\<rparr>)) = ty_admin s" for q
      by (simp add: record_volume_form)
    show ?thesis using cases
    proof (elim disjE conjE exE)
      fix d
      assume "s' = push_log (log_entry env ''buyback_def'' lk xt x None False) (s\<lparr>ty_guard := g, ty_deferred := Some d\<rparr>)"
      then show ?thesis using st deferred [of d] by (auto intro!: inv_log log_entry_ok)
    next
      fix q
      assume "0 \<le> get_or 0 (ty_burn_queue s) \<longrightarrow> 0 \<le> get_or 0 q"
        "s' = push_log (log_entry env ''buyback'' lk xt x (Some mt) True) (tr_record_buyback_volume env x (s\<lparr>ty_guard := g, ty_burn_queue := q\<rparr>))"
      then show ?thesis using st recorded [of q] q0 adm [of q] by (auto intro!: inv_log log_entry_ok)
    qed
  qed
qed


section \<open>Reachable states\<close>

text \<open>The fields an administrative call may not touch once the contract is initialized.\<close>

definition tr_kept :: "treasury \<Rightarrow> treasury \<Rightarrow> bool" where
  "tr_kept s s' \<longleftrightarrow> ty_guard s' = ty_guard s \<and> (ty_admin s = None \<longleftrightarrow> ty_admin s' = None) \<and> ty_timelock s' = ty_timelock s \<and>
    ty_self s' = ty_self s \<and> ty_staking s' = ty_staking s \<and> set (tr_callers_of s) \<subseteq> set (tr_callers_of s') \<and>
    (ty_callers s' = None \<longleftrightarrow> ty_callers s = None) \<and> (ty_admin s = None \<longrightarrow> ty_approved s' = ty_approved s \<and> ty_pending_admin s' = ty_pending_admin s) \<and>
    ty_log_count s' = ty_log_count s \<and> ty_log s' = ty_log s \<and> ty_alloc_count s' = ty_alloc_count s \<and> ty_alloc s' = ty_alloc s \<and>
    ty_pending_count s' = ty_pending_count s \<and> ty_pending s' = ty_pending s \<and> ty_approval s' = ty_approval s \<and>
    ty_last_dist s' = ty_last_dist s \<and> ty_receipt s' = ty_receipt s \<and> ty_last_dist_at s' = ty_last_dist_at s \<and>
    ty_inv s' = ty_inv s \<and> ty_dep_count s' = ty_dep_count s \<and> ty_dep_total s' = ty_dep_total s \<and>
    ty_bb_start s' = ty_bb_start s \<and> ty_bb_volume s' = ty_bb_volume s \<and> ty_bb_lifetime s' = ty_bb_lifetime s \<and>
    (0 \<le> get_or 0 (ty_burn_queue s) \<longrightarrow> 0 \<le> get_or 0 (ty_burn_queue s'))"

lemma kept_inv:
  assumes "tr_inv me s" "tr_kept s s'"
  shows "tr_inv me s'"
proof -
  have "config_ok me s'"
  proof (cases "ty_admin s")
    case None
    then show ?thesis using assms by (simp add: tr_inv_def config_ok_def tr_kept_def)
  next
    case (Some a)
    then obtain t cs where c: "ty_timelock s = Some t" "ty_callers s = Some cs" "t \<in> set cs" "ty_staking s \<noteq> None" "ty_self s = Some me"
      using tr_invD(2) [OF assms(1)] by (auto simp: config_ok_def)
    moreover obtain cs' where "ty_callers s' = Some cs'" "set cs \<subseteq> set cs'"
      using assms(2) c(2) by (cases "ty_callers s'") (auto simp: tr_kept_def tr_callers_of_def)
    ultimately show ?thesis using assms(2) Some by (cases "ty_admin s'") (auto simp: tr_kept_def config_ok_def)
  qed
  then show ?thesis using assms by (simp add: tr_inv_def tr_kept_def guard_free_def buybacks_ok_def)
qed

lemmas admin_defs =
  tr_set_auto_burn_rate_def tr_propose_admin_change_def tr_accept_admin_change_def tr_cancel_admin_change_def
  tr_revoke_admin_emergency_def tr_set_regulatory_reporting_def tr_add_authorized_caller_def tr_set_approved_token_def
  tr_set_multisig_threshold_def tr_set_require_sched_distrib_def tr_set_benchmark_rate_def tr_set_pricing_bounds_def
  tr_protect_pricing_def tr_require_authorized_caller_def tr_get_admin_def

text \<open>The administrative calls, without \<open>initialize\<close>.\<close>

fun tr_admin_call :: "tr_call \<Rightarrow> bool" where
  "tr_admin_call (TC_Burn_Rate a n) = True"
| "tr_admin_call TC_Burn_Queue = True"
| "tr_admin_call (TC_Propose a b) = True"
| "tr_admin_call (TC_Accept a) = True"
| "tr_admin_call (TC_Cancel a) = True"
| "tr_admin_call (TC_Revoke a) = True"
| "tr_admin_call (TC_Reporting a) = True"
| "tr_admin_call (TC_Add_Caller a b) = True"
| "tr_admin_call (TC_Approve_Token t b) = True"
| "tr_admin_call (TC_Threshold x) = True"
| "tr_admin_call (TC_Require_Sched a b) = True"
| "tr_admin_call (TC_Resume a l) = True"
| "tr_admin_call (TC_Benchmark a t x) = True"
| "tr_admin_call (TC_Bounds a t x y n) = True"
| "tr_admin_call (TC_Price a t x) = True"
| "tr_admin_call (TC_Correct i) = True"
| "tr_admin_call (TC_Schedule a t) = True"
| "tr_admin_call (TC_Fee_Revenue a t x d) = True"
| "tr_admin_call _ = False"

lemma resume_noop: "rg_admin_resume env a l guard_init = (Inr g :: guard_state tr_res) \<Longrightarrow> g = guard_init"
  by (auto simp: rg_admin_resume_def guard_init_def res_simps)

text \<open>Every receipt is fair, so no correction ever marks one.\<close>

lemma receipts_fair:
  assumes "tr_inv me s"
  shows "tr_audit_distribution_fairness i s \<longleftrightarrow> ty_receipt s i \<noteq> None"
proof (cases "ty_receipt s i")
  case None
  then show ?thesis by (simp add: tr_audit_distribution_fairness_def)
next
  case (Some r)
  obtain rs where rs: "seq_rep (\<lambda>i. ty_receipt s (Suc i)) (get_or 0 (ty_last_dist s)) rs" "ty_receipt s 0 = None"
      "\<forall>j < get_or 0 (ty_last_dist s). receipt_ok j (rs ! j)"
    using tr_invD(6) [OF assms] by (auto simp: receipts_ok_def)
  obtain j where j: "i = Suc j" using Some rs(2) by (cases i) auto
  have "j < get_or 0 (ty_last_dist s) \<and> r = rs ! j" using seq_rep_nth [OF rs(1), of j r] Some j by simp
  then have "receipt_ok j r" using rs(3) by simp
  then show ?thesis using Some by (simp add: tr_audit_distribution_fairness_def receipt_ok_def tr_consts)
qed

lemma tr_admin_call_kept:
  assumes "tr_exec T P env c (s, w) = Inr (s', w')" "tr_inv me s" "tr_admin_call c"
  shows "tr_kept s s'"
proof -
  note D = tr_invD [OF assms(2)]
  have pend: "ty_pending_admin s = Some p \<Longrightarrow> ty_admin s \<noteq> None" for p using D(2) by (cases "ty_admin s") (auto simp: config_ok_def)
  have lock: "ty_timelock s = Some p \<Longrightarrow> ty_admin s \<noteq> None" for p using D(2) by (cases "ty_admin s") (auto simp: config_ok_def)
  have callers: "ty_admin s = Some a \<Longrightarrow> ty_callers s \<noteq> None" for a using D(2) by (auto simp: config_ok_def)
  show ?thesis
  proof (cases c)
    case (TC_Resume a l)
    obtain g where g: "rg_admin_resume env a l (ty_guard s) = (Inr g :: guard_state tr_res)" "s' = s\<lparr>ty_guard := g\<rparr>"
      using assms(1) by (auto simp: TC_Resume tr_admin_resume_rg_def res_simps)
    then have "g = guard_init" using resume_noop D(1) by (simp add: guard_free_def)
    then show ?thesis using g(2) D(1) by (simp add: tr_kept_def guard_free_def tr_callers_of_def)
  next
    case (TC_Correct i)
    then have "s' = s" using assms(1) receipts_fair [OF assms(2), of i]
      by (auto simp: tr_correct_distribution_def res_simps split: if_splits option.splits)
    then show ?thesis by (simp add: tr_kept_def)
  next
    case TC_Burn_Queue
    then show ?thesis using assms(1) by (auto simp: tr_execute_burn_queue_def res_simps Let_def tr_kept_def tr_callers_of_def split: if_splits)
  next
    case (TC_Schedule a t)
    then show ?thesis using assms(1) by (auto simp: tr_schedule_staker_distribution_def res_simps tr_kept_def tr_callers_of_def)
  next
    case (TC_Fee_Revenue a t x d)
    then show ?thesis using assms(1) by (auto simp: tr_distribute_fee_revenue_def res_simps tr_kept_def)
  next
    case (TC_Accept a)
    then show ?thesis using assms(1) pend by (auto simp: admin_defs res_simps tr_kept_def tr_callers_of_def)
  next
    case (TC_Cancel a)
    then show ?thesis using assms(1) pend by (auto simp: admin_defs res_simps tr_kept_def tr_callers_of_def)
  next
    case (TC_Revoke a)
    then show ?thesis using assms(1) lock by (auto simp: admin_defs res_simps tr_kept_def tr_callers_of_def)
  next
    case (TC_Add_Caller a b)
    then show ?thesis using assms(1) callers by (auto simp: admin_defs res_simps tr_kept_def tr_callers_of_def)
  qed (use assms(1,3) in \<open>auto simp: admin_defs res_simps tr_kept_def tr_callers_of_def Let_def split: if_splits\<close>)
qed

lemma init_inv:
  assumes "tr_initialize env a st l g s = Inr s'" "tr_inv me s" "self_addr env = me"
  shows "tr_inv me s'"
proof -
  have "ty_admin s = None" using assms(1) by (auto simp: tr_initialize_def res_simps)
  then have f: "ty_log s = Map.empty" "ty_alloc s = Map.empty" "ty_receipt s = Map.empty" "ty_last_dist_at s = None"
    using tr_invD(2) [OF assms(2)] by (simp_all add: config_ok_def)
  have "log_ok 0 Map.empty \<and> history_ok 0 Map.empty \<and> receipts_ok 0 Map.empty None"
    by (auto simp: log_ok_def history_ok_def receipts_ok_def spaced_def intro!: exI [of _ "[]"])
  then show ?thesis using assms f
    by (auto simp: tr_initialize_def res_simps Let_def tr_inv_def guard_free_def config_ok_def split: option.splits)
qed

lemma verify_inv:
  assumes "tr_verify_reward_allocation env x rs s = Inr (b, s')" "tr_inv me s"
  shows "tr_inv me s'"
proof -
  obtain v where "validate_reward_distribution env x rs = (Inr v :: property_validation tr_res)" "s' = tr_record_check env v s"
    using assms(1) by (auto simp: tr_verify_reward_allocation_def res_simps)
  moreover from this(1) have "pv_invariant v = EI_RewardDistribution"
    by (auto simp: validate_reward_distribution_def Let_def res_simps split: prod.splits)
  ultimately show ?thesis using assms(2) by (auto simp: tr_record_check_def intro!: inv_record)
qed

lemma tr_exec_inv:
  assumes "tr_exec T P env c (s, w) = Inr (s', w')" "tr_inv me s" "self_addr env = me"
  shows "tr_inv me s'"
proof (cases "tr_admin_call c")
  case True
  from kept_inv [OF assms(2) tr_admin_call_kept [OF assms(1,2) True]] show ?thesis .
next
  case False
  show ?thesis
  proof (cases c)
    case (TC_Init a st l g)
    then show ?thesis using assms init_inv by (auto simp: res_simps)
  next
    case (TC_Verify x rs)
    then show ?thesis using assms verify_inv by (auto simp: res_simps)
  next
    case (TC_Deposit a t x)
    then show ?thesis using assms deposit_inv by auto
  next
    case (TC_Collect a t x n m)
    then show ?thesis using assms deposit_inv by (auto simp: tr_collect_fees_def res_simps Let_def)
  next
    case (TC_Allocate t a x)
    then show ?thesis using assms allocate_inv by auto
  next
    case (TC_Batch rs)
    then show ?thesis using assms tr_batch_inv by auto
  next
    case (TC_Approve a i)
    then show ?thesis using assms approve_inv by auto
  next
    case (TC_Distribute t x)
    then show ?thesis using assms tr_distribute_inv by auto
  next
    case (TC_Buyback x m d a b f oc sy)
    then show ?thesis using assms buyback_inv by auto
  qed (use False in simp_all)
qed

lemma tr_step_inv: "tr_step T P me sw sw' \<Longrightarrow> tr_inv me (fst sw) \<Longrightarrow> tr_inv me (fst sw')"
  by (induction rule: tr_step.induct) (auto simp: inv_temporary intro: tr_exec_inv)

lemma tr_steps_inv: "(tr_step T P me)\<^sup>*\<^sup>* sw sw' \<Longrightarrow> tr_inv me (fst sw) \<Longrightarrow> tr_inv me (fst sw')"
  by (induction rule: rtranclp_induct) (auto intro: tr_step_inv)

lemma tr_reach_inv: "tr_reach T P me s w \<Longrightarrow> tr_inv me s"
  using tr_steps_inv [of T P me "(tr_empty, _)" "(s, w)"] tr_emptyI by (auto simp: tr_reach_def)

end
