(* ===== verification/TreasuryHistory.thy ===== *)
theory TreasuryHistory
  imports TreasuryInv
begin

text \<open>
  What no call of the treasury undoes: journals, receipts, approvals and executed allocations stay, the
  list of callers grows, and the addresses set by \<open>initialize\<close> are final.
\<close>

section \<open>Growth\<close>

definition pending_grows :: "(nat \<rightharpoonup> pending_allocation) \<Rightarrow> (nat \<rightharpoonup> pending_allocation) \<Rightarrow> bool" where
  "pending_grows m m' \<longleftrightarrow> (\<forall>i p. m i = Some p \<longrightarrow> m' i = Some p \<or>
     \<not> pa_executed p \<and> m' i = Some (p\<lparr>pa_approvals := 2, pa_executed := True\<rparr>))"

definition log_grows :: "nat \<Rightarrow> (nat \<rightharpoonup> operation_log) \<Rightarrow> nat \<Rightarrow> (nat \<rightharpoonup> operation_log) \<Rightarrow> bool" where
  "log_grows n m n' m' \<longleftrightarrow> n \<le> n' \<and> (n' < u64_max \<longrightarrow> m \<subseteq>\<^sub>m m')"

definition tr_grows :: "treasury \<Rightarrow> treasury \<Rightarrow> bool" where
  "tr_grows s s' \<longleftrightarrow> log_grows (get_or 0 (ty_log_count s)) (ty_log s) (get_or 0 (ty_log_count s')) (ty_log s') \<and>
    ty_alloc s \<subseteq>\<^sub>m ty_alloc s' \<and> ty_receipt s \<subseteq>\<^sub>m ty_receipt s' \<and> get_or 0 (ty_last_dist s) \<le> get_or 0 (ty_last_dist s') \<and>
    ty_approval s \<subseteq>\<^sub>m ty_approval s' \<and> pending_grows (ty_pending s) (ty_pending s') \<and>
    set (tr_callers_of s) \<subseteq> set (tr_callers_of s') \<and>
    (ty_admin s \<noteq> None \<longrightarrow> ty_admin s' \<noteq> None \<and> ty_timelock s' = ty_timelock s \<and> ty_staking s' = ty_staking s \<and>
       ty_self s' = ty_self s)"

lemma pending_grows_refl [simp]: "pending_grows m m"
  by (simp add: pending_grows_def)

lemma pending_grows_trans: "pending_grows m m' \<Longrightarrow> pending_grows m' m'' \<Longrightarrow> pending_grows m m''"
  by (fastforce simp: pending_grows_def)

lemma tr_grows_refl [simp]: "tr_grows s s"
  by (simp add: tr_grows_def log_grows_def)

lemma tr_grows_trans:
  assumes "tr_grows s s'" "tr_grows s' s''"
  shows "tr_grows s s''"
proof -
  have "log_grows (get_or 0 (ty_log_count s)) (ty_log s) (get_or 0 (ty_log_count s'')) (ty_log s'')"
    using assms by (auto simp: tr_grows_def log_grows_def intro: map_le_trans)
  moreover have "pending_grows (ty_pending s) (ty_pending s'')"
    using assms pending_grows_trans by (simp add: tr_grows_def) blast
  ultimately show ?thesis using assms by (auto simp: tr_grows_def intro: map_le_trans)
qed

text \<open>The entries an operation adds.\<close>

lemma fresh_upd: "m k = None \<Longrightarrow> m \<subseteq>\<^sub>m m(k \<mapsto> v)"
  by (auto simp: map_le_def)

lemma log_fresh: "log_ok n m \<Longrightarrow> n < u64_max \<Longrightarrow> m n = None"
  by (auto simp: log_ok_def seq_rep_def)

lemma grows_log:
  assumes "log_ok (get_or 0 (ty_log_count s)) (ty_log s)"
  shows "tr_grows s (push_log e s)"
  using assms log_fresh [OF assms]
  by (auto simp: tr_grows_def log_grows_def push_log_def tr_callers_of_def min_def log_ok_def fresh_upd split: if_splits)

lemma grows_history:
  assumes "history_ok (get_or 0 (ty_alloc_count s)) (ty_alloc s)"
  shows "tr_grows s (push_history h s)"
  using assms by (auto simp: tr_grows_def log_grows_def push_history_def tr_callers_of_def history_ok_def seq_rep_def fresh_upd)

lemma grows_record: "tr_grows s (record_invariant_check r s)"
  by (simp add: tr_grows_def log_grows_def record_invariant_check_def Let_def tr_callers_of_def)

lemma grows_push:
  assumes "tr_grows s0 s" "log_ok (get_or 0 (ty_log_count s)) (ty_log s)"
  shows "tr_grows s0 (push_log e s)"
  using tr_grows_trans [OF assms(1) grows_log [OF assms(2)]] .

lemma grows_push_history:
  assumes "tr_grows s0 s" "history_ok (get_or 0 (ty_alloc_count s)) (ty_alloc s)"
  shows "tr_grows s0 (push_history h s)"
  using tr_grows_trans [OF assms(1) grows_history [OF assms(2)]] .

lemma grows_push_record: "tr_grows s0 s \<Longrightarrow> tr_grows s0 (record_invariant_check r s)"
  using tr_grows_trans grows_record by blast

text \<open>The journals are untouched by each other's entries.\<close>

lemma journal_frame [simp]:
  "ty_log_count (push_history h s) = ty_log_count s" "ty_log (push_history h s) = ty_log s"
  "ty_log_count (record_invariant_check r s) = ty_log_count s" "ty_log (record_invariant_check r s) = ty_log s"
  "ty_alloc_count (record_invariant_check r s) = ty_alloc_count s" "ty_alloc (record_invariant_check r s) = ty_alloc s"
  "ty_alloc_count (push_log e s) = ty_alloc_count s" "ty_alloc (push_log e s) = ty_alloc s"
  by (simp_all add: tr_inv_parts)

lemma kept_grows: "tr_kept s s' \<Longrightarrow> tr_grows s s'"
  by (auto simp: tr_kept_def tr_grows_def log_grows_def)


section \<open>Every call\<close>

lemma deposit_grows:
  assumes "tr_deposit T P env a tok x (s, w) = Inr (s', w')" "tr_inv me s"
  shows "tr_grows s s'"
proof -
  note D = tr_invD [OF assms(2)]
  from assms(1) D(10) show ?thesis
  proof (rule deposit_Inr)
    fix g m gl
    assume s': "s' = push_log (log_entry env ''deposit'' a tok x (Some (self_addr env)) True)
       (s\<lparr>ty_guard := g, ty_dep_count := (ty_dep_count s)(a \<mapsto> get_or 0 (ty_dep_count s a) + 1),
          ty_dep_total := (ty_dep_total s)(a \<mapsto> get_or 0 (ty_dep_total s a) + x), ty_mev := m, ty_global := gl\<rparr>)"
    show ?thesis unfolding s' by (rule grows_push) (use D(3) in \<open>simp_all add: tr_grows_def log_grows_def tr_callers_of_def\<close>)
  qed
qed

lemma allocate_grows:
  assumes "tr_allocate T P env tok r x (s, w) = Inr (s', w')" "tr_inv me s"
  shows "tr_grows s s'"
proof -
  note D = tr_invD [OF assms(2)]
  from assms(1) D(10) show ?thesis
  proof (rule allocate_Inr)
    fix g m gl adm w1
    let ?n = "get_or 0 (ty_pending_count s)"
    let ?q = "s\<lparr>ty_guard := g, ty_pending_count := Some (?n + 1),
            ty_pending := (ty_pending s)(?n \<mapsto> new_pending env tok r x ?n),
            ty_approval := (ty_approval s)((?n, adm) \<mapsto> True), ty_mev := m, ty_global := gl\<rparr>"
    let ?b = "s\<lparr>ty_guard := g, ty_mev := m, ty_global := gl\<rparr>"
    assume cases: "get_or 50000 (ty_threshold s) < x \<and> w' = w1 \<and> ?n < u32_max \<and>
       s' = push_log (log_entry env ''allocate_pending'' adm tok x (Some r) True) ?q \<or>
     x \<le> get_or 50000 (ty_threshold s) \<and> tk_transfer T (as_invoker env) tok (self_addr env) r x w1 = Inr w' \<and>
       tk_balance T tok (self_addr env) w' = tk_balance T tok (self_addr env) w - x \<and> x \<le> tk_balance T tok r w' \<and>
       get_or 0 (ty_alloc_count s) < u32_max \<and>
       s' = push_log (log_entry env ''allocate'' adm tok x (Some r) True)
         (push_history (history_entry env tok r x)
           (record_invariant_check (conservation_record env (tk_balance T tok (self_addr env) w - x)) ?b))"
    have f: "ty_pending s ?n = None" "ty_approval s (?n, adm) = None"
      using pendings_okD(2) [OF D(5), of ?n] pendings_okD(3) [OF D(5), of ?n adm] by (cases "ty_approval s (?n, adm)"; auto)+
    have "tr_grows s ?q" using f
      by (auto simp: tr_grows_def log_grows_def tr_callers_of_def pending_grows_def intro: fresh_upd)
    moreover have "tr_grows s ?b" by (simp add: tr_grows_def log_grows_def tr_callers_of_def)
    ultimately show ?thesis using cases D(3,4)
      by (auto intro!: grows_push grows_push_history grows_push_record)
  qed
qed

lemma batch_books_grows:
  assumes "tr_inv me s" "ty_admin s \<noteq> None" "\<forall>q \<in> set qs. 0 < aq_amount q \<and> aq_amount q \<le> MAX_PER_TX_ALLOCATE"
  shows "tr_grows s (batch_books env adm qs s)"
  using assms
proof (induction qs arbitrary: s)
  case (Cons q qs)
  let ?h = "push_history (history_entry env (aq_token q) (aq_recipient q) (aq_amount q)) s"
  let ?s = "push_log (log_entry env ''batch_allocate'' adm (aq_token q) (aq_amount q) (Some (aq_recipient q)) True) ?h"
  note D = tr_invD [OF Cons.prems(1)]
  have "tr_inv me ?s" using Cons.prems by (auto intro!: inv_log inv_history log_entry_ok)
  then have "tr_grows ?s (batch_books env adm qs ?s)" using Cons.prems by (intro Cons.IH) auto
  moreover have "tr_grows s ?s" using D(3,4) by (auto intro!: grows_push grows_push_history)
  ultimately show ?case using tr_grows_trans by simp
qed simp

lemma batch_grows:
  assumes "tr_batch_allocate T P env reqs (s, w) = Inr (s', w')" "tr_inv me s"
  shows "tr_grows s s'"
proof -
  note D = tr_invD [OF assms(2)]
  from assms(1) D(10) show ?thesis
  proof (rule batch_Inr)
    fix g adm ts
    assume *: "ty_admin s = Some adm" "batch_totals s (get_or 50000 (ty_threshold s)) reqs [] = Inr ts"
      "s' = batch_books env adm reqs (s\<lparr>ty_guard := g\<rparr>)" "guard_free s \<Longrightarrow> g = guard_init"
    have "g = guard_init" using *(4) D(1) by simp
    then have "tr_grows (s\<lparr>ty_guard := g\<rparr>) s'" unfolding *(3)
      using batch_totals_valid [OF *(2)] *(1) inv_guard [OF assms(2)] by (intro batch_books_grows) auto
    moreover have "tr_grows s (s\<lparr>ty_guard := g\<rparr>)" by (simp add: tr_grows_def log_grows_def tr_callers_of_def)
    ultimately show ?thesis by (metis tr_grows_trans)
  qed
qed

lemma approve_grows:
  assumes "tr_approve_pending_allocation T env a i (s, w) = Inr (s', w')" "tr_inv me s"
  shows "tr_grows s s'"
proof -
  note D = tr_invD [OF assms(2)]
  from assms(1) D(10) show ?thesis
  proof (rule approve_Inr)
    fix g p
    assume p: "ty_pending s i = Some p" "\<not> pa_executed p" "ty_approval s (i, a) = None"
      and cases: "pa_approvals p = 0 \<and> w' = w \<and>
       s' = s\<lparr>ty_guard := g, ty_approval := (ty_approval s)((i, a) \<mapsto> True), ty_pending := (ty_pending s)(i \<mapsto> p\<lparr>pa_approvals := 1\<rparr>)\<rparr> \<or>
     1 \<le> pa_approvals p \<and> pa_amount p \<le> tk_balance T (pa_token p) (self_addr env) w \<and>
       tk_transfer T (as_invoker env) (pa_token p) (self_addr env) (pa_recipient p) (pa_amount p) w = Inr w' \<and>
       tk_balance T (pa_token p) (self_addr env) w' = tk_balance T (pa_token p) (self_addr env) w - pa_amount p \<and>
       get_or 0 (ty_alloc_count s) < u32_max \<and>
       s' = push_log (log_entry env ''allocate_executed'' a (pa_token p) (pa_amount p) (Some (pa_recipient p)) True)
         (push_history (history_entry env (pa_token p) (pa_recipient p) (pa_amount p))
           (s\<lparr>ty_guard := g, ty_approval := (ty_approval s)((i, a) \<mapsto> True),
              ty_pending := (ty_pending s)(i \<mapsto> p\<lparr>pa_approvals := pa_approvals p + 1, pa_executed := True\<rparr>)\<rparr>))"
    have one: "pa_approvals p = 1" using pendings_ok_approve [OF D(5) p] by simp
    have "tr_grows s (s\<lparr>ty_guard := g, ty_approval := (ty_approval s)((i, a) \<mapsto> True),
              ty_pending := (ty_pending s)(i \<mapsto> p\<lparr>pa_approvals := pa_approvals p + 1, pa_executed := True\<rparr>)\<rparr>)"
      using p one by (auto simp: tr_grows_def log_grows_def tr_callers_of_def pending_grows_def intro: fresh_upd)
    then show ?thesis using cases one D(3,4) by (auto intro!: grows_push grows_push_history)
  qed
qed

lemma distribute_grows:
  assumes "tr_distribute_to_stakers T P env tok x (s, w) = Inr (s', w')" "tr_inv me s"
  shows "tr_grows s s'"
proof -
  note D = tr_invD [OF assms(2)]
  from assms(1) D(10) show ?thesis
  proof (rule distribute_to_stakers_Inr)
    fix g m adm sc i
    assume i: "i = get_or 0 (ty_last_dist s) + 1" "ty_receipt s i = None"
      and s': "s' = push_log (log_entry env ''distribute'' adm tok x (Some sc) True)
       (record_invariant_check (conservation_record env (tk_balance T tok (self_addr env) w - x))
         (s\<lparr>ty_guard := g, ty_sched := None, ty_last_dist := Some i, ty_receipt := (ty_receipt s)(i \<mapsto> closed_receipt env tok x i),
            ty_last_dist_at := Some (ledger_ts env), ty_mev := m\<rparr>))"
    have "tr_grows s (s\<lparr>ty_guard := g, ty_sched := None, ty_last_dist := Some i, ty_receipt := (ty_receipt s)(i \<mapsto> closed_receipt env tok x i),
            ty_last_dist_at := Some (ledger_ts env), ty_mev := m\<rparr>)"
      using i by (auto simp: tr_grows_def log_grows_def tr_callers_of_def intro: fresh_upd)
    then show ?thesis unfolding s' using D(3) by (auto intro!: grows_push grows_push_record)
  qed
qed

lemma buyback_grows:
  assumes "tr_buyback_and_burn T P env xt mt dex x mo f oc sy (s, w) = Inr (s', w')" "tr_inv me s"
  shows "tr_grows s s'"
proof -
  note D = tr_invD [OF assms(2)]
  from assms(1) D(10) show ?thesis
  proof (rule buyback_Inr)
    fix g lk
    assume cases: "(vl_stabilize (tr_assess_buyback_velocity env x (tk_balance T xt (self_addr env) w) s) \<and> w' = w \<and>
       (\<exists>d. s' = push_log (log_entry env ''buyback_def'' lk xt x None False) (s\<lparr>ty_guard := g, ty_deferred := Some d\<rparr>) \<and>
          bd_xlm d = x \<and> bd_deferred_at d = ledger_ts env)) \<or>
     (\<not> vl_stabilize (tr_assess_buyback_velocity env x (tk_balance T xt (self_addr env) w) s) \<and>
       tk_balance T xt (self_addr env) w - x \<le> tk_balance T xt (self_addr env) w' \<and>
       (\<exists>w1 w2 m. tp_approve P (as_invoker env) xt (self_addr env) dex x (ledger_seq env + 1) w = Some w1 \<and>
          tp_swap P (as_invoker env) dex f xt mt x mo (self_addr env) w1 = Some (m, w2) \<and> mo \<le> m \<and>
          tp_burn P (as_invoker env) mt (self_addr env) m w2 = Some w') \<and>
       (\<exists>q. (0 \<le> get_or 0 (ty_burn_queue s) \<longrightarrow> 0 \<le> get_or 0 q) \<and>
          s' = push_log (log_entry env ''buyback'' lk xt x (Some mt) True)
            (tr_record_buyback_volume env x (s\<lparr>ty_guard := g, ty_burn_queue := q\<rparr>))))"
    have "tr_grows s (s\<lparr>ty_guard := g, ty_deferred := Some d\<rparr>)" for d
      by (simp add: tr_grows_def log_grows_def tr_callers_of_def)
    moreover have "tr_grows s (tr_record_buyback_volume env x (s\<lparr>ty_guard := g, ty_burn_queue := q\<rparr>))" for q
      by (simp add: tr_grows_def log_grows_def tr_callers_of_def record_volume_form)
    moreover have "ty_log (tr_record_buyback_volume env x (s\<lparr>ty_guard := g, ty_burn_queue := q\<rparr>)) = ty_log s" for q
      by (simp add: record_volume_form)
    ultimately show ?thesis using cases D(3) by (auto intro!: grows_push)
  qed
qed

lemma tr_exec_grows:
  assumes "tr_exec T P env c (s, w) = Inr (s', w')" "tr_inv me s"
  shows "tr_grows s s'"
proof (cases "tr_admin_call c")
  case True
  from kept_grows [OF tr_admin_call_kept [OF assms True]] show ?thesis
    using True assms by blast
next
  case False
  show ?thesis
  proof (cases c)
    case (TC_Init a st l g)
    then have i: "tr_initialize env a st l g s = Inr s'" using assms(1) by (simp add: res_simps)
    then have "ty_admin s = None" by (auto simp: tr_initialize_def res_simps)
    then show ?thesis using i tr_invD(2) [OF assms(2)]
      by (auto simp: tr_initialize_def res_simps Let_def tr_grows_def log_grows_def config_ok_def tr_callers_of_def split: option.splits)
  next
    case (TC_Verify x rs)
    then obtain b where "tr_verify_reward_allocation env x rs s = Inr (b, s')" using assms(1) by (auto simp: res_simps)
    then show ?thesis by (auto simp: tr_verify_reward_allocation_def tr_record_check_def res_simps grows_record)
  next
    case (TC_Deposit a t x)
    then show ?thesis using assms deposit_grows by auto
  next
    case (TC_Collect a t x n m)
    then show ?thesis using assms deposit_grows by (auto simp: tr_collect_fees_def res_simps Let_def)
  next
    case (TC_Allocate t a x)
    then show ?thesis using assms allocate_grows by auto
  next
    case (TC_Batch rs)
    then show ?thesis using assms batch_grows by auto
  next
    case (TC_Approve a i)
    then show ?thesis using assms approve_grows by auto
  next
    case (TC_Distribute t x)
    then show ?thesis using assms distribute_grows by auto
  next
    case (TC_Buyback x m d a b f oc sy)
    then show ?thesis using assms buyback_grows by auto
  qed (use False in simp_all)
qed

lemma tr_step_grows: "tr_step T P me sw sw' \<Longrightarrow> tr_inv me (fst sw) \<Longrightarrow> tr_grows (fst sw) (fst sw')"
proof (induction rule: tr_step.induct)
  case (Call env c s w s' w')
  then show ?case using tr_exec_grows by simp
next
  case (Expire m s g w)
  show ?case by (simp add: tr_grows_def log_grows_def tr_callers_of_def)
qed simp

lemma tr_steps_grow: "(tr_step T P me)\<^sup>*\<^sup>* sw sw' \<Longrightarrow> tr_inv me (fst sw) \<Longrightarrow> tr_grows (fst sw) (fst sw')"
proof (induction rule: rtranclp_induct)
  case (step y z)
  from tr_step_grows [OF step.hyps(2)] tr_steps_inv [OF step.hyps(1) step.prems] step.IH [OF step.prems]
  show ?case using tr_grows_trans by blast
qed simp

end
