(* ===== verification/TreasuryStaking.thy ===== *)
theory TreasuryStaking
  imports TreasuryHistory StakingLife
begin

text \<open>
  The treasury and the staking contract together. The treasury reaches the staking contract by the calls
  of a distribution, \<open>get_penalty_pool\<close>, \<open>add_to_lp_reward_pool\<close> and \<open>receive_treasury_distribution\<close>, and
  by the announcement of the next one, \<open>set_next_distribution_at\<close>. A locale states what the treasury
  relies on; the staking contract of this repository provides it.
\<close>

section \<open>Receipts of the staking contract\<close>

definition receipts_processed :: "staking \<Rightarrow> bool" where
  "receipts_processed ss \<longleftrightarrow> (\<forall>i. st_receipt ss i \<noteq> None \<longrightarrow> st_processed ss i \<noteq> None)"

text \<open>What the staking contract has recorded for the treasury \<open>me\<close>.\<close>

definition taken_from :: "addr \<Rightarrow> staking \<Rightarrow> nat \<Rightarrow> (addr \<times> int) option" where
  "taken_from me ss i = (case st_receipt ss i of
     Some r \<Rightarrow> if tr_treasury r = me then Some (tr_token r, tr_amount r) else None
   | None \<Rightarrow> None)"

lemma receive_records:
  assumes "receive_treasury_distribution T env i tr tok a ts (s, w) = Inr (s', w')" "st_inv s"
  shows "w' = w \<and> auth_by env tr \<and> st_treasury s = Some tr \<and> st_processed s i = None \<and>
    st_processed s' = (st_processed s)(i \<mapsto> True) \<and>
    (\<exists>r. st_receipt s' = (st_receipt s)(i \<mapsto> r) \<and> tr_treasury r = tr \<and> tr_token r = tok \<and> tr_amount r = a \<and> tr_processed r)"
proof -
  from assms(1) have "st_guarded ''treasury_dist'' (s, w) (treasury_body T env i tr tok a ts) = Inr (s', w')"
    by (simp add: receive_treasury_distribution_def require_not_rg_paused_Inr)
  from st_guarded_guard [OF this] obtain g0 t g where
    t: "treasury_body T env i tr tok a ts (s\<lparr>st_guard := g0\<rparr>, w) = Inr (t, w')" "s' = t\<lparr>st_guard := g\<rparr>" by blast
  define rc where "rc = \<lparr>tr_id = i, tr_treasury = tr, tr_token = tok, tr_amount = a,
                   tr_timestamp = ts, tr_received_at = ledger_ts env, tr_processed = False\<rparr>"
  define dc where "dc = Some (get_or (get_or 0 (st_dist_count s)) (checked_u64 (get_or 0 (st_dist_count s) + 1)))"
  define s0 where "s0 = s\<lparr>st_guard := g0, st_processed := (st_processed s)(i \<mapsto> True),
       st_receipt := (st_receipt s)(i \<mapsto> rc), st_dist_count := dc\<rparr>"
  from t(1) have f: "auth_by env tr" "st_treasury s = Some tr" "st_processed s i = None"
    and r: "rbind (internal_distribute_revenue env a s0) (\<lambda>s. ensure (\<not> tk_balance T tok (self_addr env) w < tk_balance T tok (self_addr env) w) (Err StStateValidationFailed) (
      expect (st_receipt s i) (Panic ''unwrap'') (\<lambda>final_receipt.
      Inr (s\<lparr>st_receipt := (st_receipt s)(i \<mapsto> final_receipt\<lparr>tr_processed := True\<rparr>)\<rparr>, w)))) = Inr (t, w')"
    unfolding treasury_body_def Let_def prod.case ensure_Inr expect_Inr s0_def rc_def dc_def by auto
  from r obtain s1 q where s1: "internal_distribute_revenue env a s0 = Inr s1" "st_receipt s1 i = Some q"
      "t = s1\<lparr>st_receipt := (st_receipt s1)(i \<mapsto> q\<lparr>tr_processed := True\<rparr>)\<rparr>" "w' = w"
    by (auto simp: rbind_Inr ensure_Inr expect_Inr)
  have "stakers_ok s0" using stakers_ok_cong [of s0 s] st_invD(1) [OF assms(2)] by (simp add: s0_def)
  note e = distribute_exact [OF s1(1) this]
  have k: "st_receipt s1 = (st_receipt s)(i \<mapsto> rc)" "st_processed s1 = (st_processed s)(i \<mapsto> True)"
    using e by (auto simp: s0_def)
  have "q = rc" using s1(2) k(1) by simp
  then have "st_receipt s' = (st_receipt s)(i \<mapsto> rc\<lparr>tr_processed := True\<rparr>)" "st_processed s' = (st_processed s)(i \<mapsto> True)"
    using s1(3) k by (simp_all add: t(2))
  moreover have "tr_treasury (rc\<lparr>tr_processed := True\<rparr>) = tr \<and> tr_token (rc\<lparr>tr_processed := True\<rparr>) = tok \<and>
      tr_amount (rc\<lparr>tr_processed := True\<rparr>) = a \<and> tr_processed (rc\<lparr>tr_processed := True\<rparr>)" by (simp add: rc_def)
  ultimately show ?thesis using f s1(4) by blast
qed

lemma exec_receipts:
  assumes "st_exec T P inst env c (s, w) = Inr (s', w')" "st_inv s" "\<And>i tr tok a t. c \<noteq> SC_Receive i tr tok a t"
  shows "st_receipt s' = st_receipt s \<and> st_processed s' = st_processed s"
proof (cases "quiet c")
  case True
  from quiet_core [OF assms(1) True] show ?thesis by (simp add: st_core_def)
next
  case False
  have settle: "settle_epoch_rewards env b t = Inr t' \<Longrightarrow> st_receipt t' = st_receipt t \<and> st_processed t' = st_processed t" for b t t'
    by (erule settle_epoch_rewards_Inr) simp
  show ?thesis
  proof (cases c)
    case (SC_Distribute tok a)
    with assms(1) have "distribute_revenue env tok a (s, w) = Inr (s', w')" by simp
    then show ?thesis
    proof (rule distribute_revenue_Inr)
      fix g0 g s1
      assume d: "internal_distribute_revenue env a (s\<lparr>st_guard := g0\<rparr>) = Inr s1" "s' = s1\<lparr>st_guard := g\<rparr>"
      have "stakers_ok (s\<lparr>st_guard := g0\<rparr>)"
        using stakers_ok_cong [of "s\<lparr>st_guard := g0\<rparr>" s] st_invD(1) [OF assms(2)] by simp
      from distribute_exact [OF d(1) this] d(2) show ?thesis by (auto)
    qed
  next
    case (SC_Stake m a d)
    then have "stake T P env m a d (s, w) = Inr (s', w')" using assms(1) by simp
    then show ?thesis by (rule stake_Inr) simp
  next
    case (SC_Unstake m)
    then have "unstake T P env m (s, w) = Inr (s', w')" using assms(1) by simp
    then show ?thesis by (rule unstake_Inr) (drule settle, simp)
  next
    case (SC_Claim a tok)
    then have "claim_rewards T P env a tok (s, w) = Inr (s', w')" using assms(1) by simp
    then show ?thesis
    proof (rule claim_Inr)
      fix g0 s1 x s2 g l i u v and pr :: "addr \<rightharpoonup> int"
      assume se: "settle_epoch_rewards env a (s\<lparr>st_guard := g0\<rparr>) = Inr s1"
        and sc: "claim_scan (ledger_ts env) a [0..<get_or 0 (st_epoch s)] 0 0 s1 = Inr (x, s2)"
        and s': "s' = s2\<lparr>st_guard := g, st_pending_rewards := pr, st_log := l, st_log_index := i,
           st_snap_index := u, st_next_snap := v\<rparr>"
      from claim_scan_only [OF sc] obtain k px py pz where
        e2: "s2 = s1\<lparr>st_lockup := k, st_pend_slot := px, st_pend_pos := py, st_pend_count := pz\<rparr>"
        by (rule lockups_onlyE)
      show ?thesis using settle [OF se] by (simp add: s' e2)
    qed
  next
    case (SC_Batch tok a n m)
    with assms have "distribute_revenue_batch tok a n m s = Inr s'" by (simp add: st_lift_Inr)
    then show ?thesis by (rule batch_epochs) simp
  next
    case SC_Migrate
    with assms migrate_same [of s s'] show ?thesis by (simp add: st_lift_Inr)
  next
    case (SC_Snapshot a j)
    with assms have "st_snapshot_state env a j s = Inr s'" by (simp add: st_lift_Inr)
    from snapshot_inv [OF this assms(2)] have "st_core (s'\<lparr>st_snap := st_snap s\<rparr>) = st_core s" by simp
    then show ?thesis by (simp add: st_core_def)
  next
    case (SC_Rollback j)
    with assms obtain h where "st_rollback inst j s = Inr (h, s')" by (auto simp: st_lift_Inr st_drop_Inr)
    from rollback_core [OF this assms(2)] show ?thesis by (simp add: st_core_def)
  next
    case (SC_Receive i tr tok a t)
    then show ?thesis using assms(3) by blast
  qed (use False in simp_all)
qed

text \<open>Calls that the treasury does not sign leave its receipts alone.\<close>

lemma exec_taken:
  assumes "st_exec T P inst env c (s, w) = Inr (s', w')" "st_inv s" "receipts_processed s" "\<not> auth_by env me"
  shows "receipts_processed s' \<and> taken_from me s' = taken_from me s"
proof (cases "\<exists>i tr tok a t. c = SC_Receive i tr tok a t")
  case False
  then have "st_receipt s' = st_receipt s \<and> st_processed s' = st_processed s" using exec_receipts [OF assms(1,2)] by blast
  then show ?thesis using assms(3) by (simp add: receipts_processed_def taken_from_def fun_eq_iff)
next
  case True
  then obtain i tr tok a t where c: "c = SC_Receive i tr tok a t" by blast
  with assms(1) have "receive_treasury_distribution T env i tr tok a t (s, w) = Inr (s', w')" by simp
  from receive_records [OF this assms(2)] obtain r where r: "auth_by env tr" "st_processed s i = None"
      "st_processed s' = (st_processed s)(i \<mapsto> True)" "st_receipt s' = (st_receipt s)(i \<mapsto> r)" "tr_treasury r = tr" by blast
  have "st_receipt s i = None" using assms(3) r(2) unfolding receipts_processed_def by blast
  then show ?thesis using assms(3,4) r by (auto simp: receipts_processed_def taken_from_def fun_eq_iff)
qed


section \<open>What the treasury relies on\<close>

text \<open>
  A receiver of distributions at address \<open>sc\<close>: \<open>book w\<close> is what it has recorded, token and amount of each
  distribution of the treasury \<open>me\<close>, and the numbers it will not take again; \<open>ok\<close> is its invariant. It takes
  a number once, and no other call of the treasury touches its book.
\<close>

locale distribution_receiver =
  fixes T :: "'w token_ops" and P :: "'w treasury_peers" and me sc :: addr
    and ok :: "'w \<Rightarrow> bool" and book :: "'w \<Rightarrow> (nat \<Rightarrow> (addr \<times> int) option) \<times> nat set"
  assumes receive_takes: "ok w \<Longrightarrow> tp_receive P env c i me tok x t w = Some w' \<Longrightarrow>
      ok w' \<and> book w' = (if c = sc then ((fst (book w))(i \<mapsto> (tok, x)), insert i (snd (book w))) else book w) \<and>
      (c = sc \<longrightarrow> i \<notin> snd (book w))"
    and fund_keeps: "ok w \<Longrightarrow> tp_lp_fund P env c x w = Some w' \<Longrightarrow> ok w' \<and> book w' = book w"
    and sched_keeps: "ok w \<Longrightarrow> ok (tp_set_next_dist P env c a d w) \<and> book (tp_set_next_dist P env c a d w) = book w"
    and report_keeps: "ok w \<Longrightarrow> ok (tp_record_large_tx P env c f a x w) \<and> book (tp_record_large_tx P env c f a x w) = book w"
    and transfer_keeps: "ok w \<Longrightarrow> tk_transfer T env tok a b x w = Inr w' \<Longrightarrow> ok w' \<and> book w' = book w"
    and approve_keeps: "ok w \<Longrightarrow> tp_approve P env tok a b x l w = Some w' \<Longrightarrow> ok w' \<and> book w' = book w"
    and swap_keeps: "ok w \<Longrightarrow> tp_swap P env d f t1 t2 x y a w = Some (m, w') \<Longrightarrow> ok w' \<and> book w' = book w"
    and burn_keeps: "ok w \<Longrightarrow> tp_burn P env tok a x w = Some w' \<Longrightarrow> ok w' \<and> book w' = book w"

text \<open>The share of the stakers in a receipt of the treasury.\<close>

definition staker_share :: "distribution_receipt \<Rightarrow> addr \<times> int" where
  "staker_share r = (td_token r, td_total r - td_total r div 10)"

text \<open>The books agree: the receiver holds exactly the distributions the treasury has closed.\<close>

definition books_agree :: "addr \<Rightarrow> (nat \<Rightarrow> (addr \<times> int) option) \<Rightarrow> treasury \<Rightarrow> bool" where
  "books_agree sc tk s \<longleftrightarrow> tk = (\<lambda>i. if ty_staking s = Some sc then map_option staker_share (ty_receipt s i) else None)"

lemma books_agree_cong:
  "ty_staking s' = ty_staking s \<Longrightarrow> ty_receipt s' = ty_receipt s \<Longrightarrow> books_agree sc tk s' = books_agree sc tk s"
  by (simp only: books_agree_def)

lemma batch_books_frame:
  "ty_staking (batch_books env adm qs s) = ty_staking s \<and> ty_receipt (batch_books env adm qs s) = ty_receipt s"
  by (induction qs arbitrary: s) (simp_all add: push_log_def push_history_def)

text \<open>The receipts determine the number of the last distribution.\<close>

lemma receipts_last:
  assumes "receipts_ok n m l" "receipts_ok n' m l'"
  shows "n = n'"
proof -
  obtain rs rs' where "seq_rep (\<lambda>i. m (Suc i)) n rs" "seq_rep (\<lambda>i. m (Suc i)) n' rs'"
    using assms by (auto simp: receipts_ok_def)
  then have "m (Suc i) = None \<longleftrightarrow> n \<le> i" "m (Suc i) = None \<longleftrightarrow> n' \<le> i" for i
    using seq_rep_None by fastforce+
  then show ?thesis by (metis le_antisym order_refl)
qed

context distribution_receiver begin

lemma pay_all_keeps: "ok w \<Longrightarrow> pay_all T env qs w = Inr w' \<Longrightarrow> ok w' \<and> book w' = book w"
proof (induction qs arbitrary: w)
  case (Cons q qs)
  then obtain w1 where w1: "tk_transfer T (as_invoker env) (aq_token q) (self_addr env) (aq_recipient q) (aq_amount q) w = Inr w1"
      "pay_all T env qs w1 = Inr w'" by (auto simp: res_simps)
  from transfer_keeps [OF Cons.prems(1) w1(1)] Cons.IH [OF _ w1(2)] show ?case by simp
qed simp

lemma distribution_takes:
  assumes "ok w" "distribution_calls T P env c i tok x w w'" "self_addr env = me"
  shows "ok w' \<and> book w' = (if c = sc then ((fst (book w))(i \<mapsto> (tok, x - x div 10)), insert i (snd (book w))) else book w) \<and>
    (c = sc \<longrightarrow> i \<notin> snd (book w))"
proof -
  obtain w1 w2 where w: "tk_transfer T (as_invoker env) tok me c x w = Inr w1"
      "if 0 < x div 10 then tp_lp_fund P (as_invoker env) c (x div 10) w1 = Some w2 else w2 = w1"
      "tp_receive P (as_invoker env) c i me tok (x - x div 10) (ledger_ts env) w2 = Some w'"
    using assms(2,3) unfolding distribution_calls_def by blast
  have 1: "ok w1 \<and> book w1 = book w" using transfer_keeps [OF assms(1) w(1)] .
  have 2: "ok w2 \<and> book w2 = book w" using w(2) 1 fund_keeps [of w1] by (auto split: if_splits)
  from receive_takes [of w2, OF _ w(3)] 2 show ?thesis by simp
qed

lemma distribute_agrees:
  assumes "tr_distribute_to_stakers T P env tok x (s, w) = Inr (s', w')" "self_addr env = me" "tr_inv me s"
    "ok w" "books_agree sc (fst (book w)) s"
  shows "ok w' \<and> books_agree sc (fst (book w')) s'"
  using assms(1) tr_invD(10) [OF assms(3)]
proof (rule distribute_to_stakers_Inr)
  fix g m adm c i
  assume c: "ty_staking s = Some c" and i: "ty_receipt s i = None"
    and calls: "distribution_calls T P env c i tok x w w'"
    and s': "s' = push_log (log_entry env ''distribute'' adm tok x (Some c) True)
       (record_invariant_check (conservation_record env (tk_balance T tok (self_addr env) w - x))
         (s\<lparr>ty_guard := g, ty_sched := None, ty_last_dist := Some i, ty_receipt := (ty_receipt s)(i \<mapsto> closed_receipt env tok x i),
            ty_last_dist_at := Some (ledger_ts env), ty_mev := m\<rparr>))"
  have r: "ty_staking s' = Some c" "ty_receipt s' = (ty_receipt s)(i \<mapsto> closed_receipt env tok x i)"
    unfolding s' using c by (simp_all add: push_log_def record_invariant_check_def Let_def)
  have sh: "staker_share (closed_receipt env tok x i) = (tok, x - x div 10)" by (simp add: staker_share_def closed_receipt_def)
  from distribution_takes [OF assms(4) calls assms(2)] assms(5) c r sh show ?thesis
    by (auto simp: books_agree_def fun_eq_iff)
qed

lemma allocate_agrees:
  assumes "tr_allocate T P env tok r x (s, w) = Inr (s', w')" "tr_inv me s" "ok w"
  shows "ok w' \<and> book w' = book w \<and> ty_staking s' = ty_staking s \<and> ty_receipt s' = ty_receipt s"
  using assms(1) tr_invD(10) [OF assms(2)]
proof (rule allocate_Inr)
  fix g m gl adm w1
  let ?n = "get_or 0 (ty_pending_count s)"
  assume w1: "w1 = tr_report_large_tx P env ''allocate'' r x s w"
    and cases: "get_or 50000 (ty_threshold s) < x \<and> w' = w1 \<and> ?n < u32_max \<and>
       s' = push_log (log_entry env ''allocate_pending'' adm tok x (Some r) True)
         (s\<lparr>ty_guard := g, ty_pending_count := Some (?n + 1),
            ty_pending := (ty_pending s)(?n \<mapsto> new_pending env tok r x ?n),
            ty_approval := (ty_approval s)((?n, adm) \<mapsto> True), ty_mev := m, ty_global := gl\<rparr>) \<or>
     x \<le> get_or 50000 (ty_threshold s) \<and> tk_transfer T (as_invoker env) tok (self_addr env) r x w1 = Inr w' \<and>
       tk_balance T tok (self_addr env) w' = tk_balance T tok (self_addr env) w - x \<and> x \<le> tk_balance T tok r w' \<and>
       get_or 0 (ty_alloc_count s) < u32_max \<and>
       s' = push_log (log_entry env ''allocate'' adm tok x (Some r) True)
         (push_history (history_entry env tok r x)
           (record_invariant_check (conservation_record env (tk_balance T tok (self_addr env) w - x))
             (s\<lparr>ty_guard := g, ty_mev := m, ty_global := gl\<rparr>)))"
  have "ok w1 \<and> book w1 = book w"
    using assms(3) report_keeps [OF assms(3)] by (auto simp: w1 tr_report_large_tx_def split: option.splits)
  then have "ok w' \<and> book w' = book w" using cases transfer_keeps by auto
  then show ?thesis using cases by (auto simp: push_log_def push_history_def record_invariant_check_def Let_def)
qed

lemma approve_agrees:
  assumes "tr_approve_pending_allocation T env a i (s, w) = Inr (s', w')" "tr_inv me s" "ok w"
  shows "ok w' \<and> book w' = book w \<and> ty_staking s' = ty_staking s \<and> ty_receipt s' = ty_receipt s"
  using assms(1) tr_invD(10) [OF assms(2)]
proof (rule approve_Inr, goal_cases)
  case (1 g p)
  then show ?case using assms(3) transfer_keeps [OF assms(3)] by (auto simp: push_log_def push_history_def)
qed

lemma buyback_agrees:
  assumes "tr_buyback_and_burn T P env xt mt dex x mo f oc sy (s, w) = Inr (s', w')" "tr_inv me s" "ok w"
  shows "ok w' \<and> book w' = book w \<and> ty_staking s' = ty_staking s \<and> ty_receipt s' = ty_receipt s"
  using assms(1) tr_invD(10) [OF assms(2)]
proof (rule buyback_Inr, goal_cases)
  case (1 g lk)
  have "ok w' \<and> book w' = book w"
    using 1(10) assms(3) approve_keeps swap_keeps burn_keeps by metis
  then show ?case using 1(10) by (auto simp: push_log_def record_volume_form)
qed


text \<open>Every call but the first \<open>initialize\<close> and a distribution.\<close>

lemma exec_quiet:
  assumes "tr_exec T P env c (s, w) = Inr (s', w')" "tr_inv me s" "ok w"
    "\<And>tok x. c \<noteq> TC_Distribute tok x" "\<And>a st l g. c \<noteq> TC_Init a st l g"
  shows "ok w' \<and> book w' = book w \<and> ty_staking s' = ty_staking s \<and> ty_receipt s' = ty_receipt s"
proof (cases "tr_admin_call c")
  case True
  have "ok w' \<and> book w' = book w"
  proof (cases c)
    case (TC_Schedule a t)
    then show ?thesis using assms(1,3) sched_keeps by (auto simp: tr_schedule_staker_distribution_def res_simps)
  next
    case (TC_Fee_Revenue a t x d)
    then show ?thesis using assms(1,3) transfer_keeps by (auto simp: tr_distribute_fee_revenue_def res_simps)
  qed (use assms(1,3) True in \<open>auto simp: tr_lift_Inr\<close>)
  then show ?thesis using tr_admin_call_kept [OF assms(1,2) True] by (simp add: tr_kept_def)
next
  case False
  show ?thesis
  proof (cases c)
    case (TC_Verify x rs)
    then show ?thesis using assms(1,3)
      by (auto simp: tr_lift_Inr tr_verify_reward_allocation_def tr_record_check_def record_invariant_check_def Let_def res_simps)
  next
    case (TC_Deposit a t x)
    then have "tr_deposit T P env a t x (s, w) = Inr (s', w')" using assms(1) by simp
    then show ?thesis using tr_invD(10) [OF assms(2)]
      by (rule deposit_Inr) (use transfer_keeps [OF assms(3)] in \<open>auto simp: push_log_def\<close>)
  next
    case (TC_Collect a t x k l)
    then obtain fee where "tr_deposit T P env a t fee (s, w) = Inr (s', w')"
      using assms(1) by (auto simp: tr_collect_fees_def res_simps Let_def)
    then show ?thesis using tr_invD(10) [OF assms(2)]
      by (rule deposit_Inr) (use transfer_keeps [OF assms(3)] in \<open>auto simp: push_log_def\<close>)
  next
    case (TC_Allocate t a x)
    then show ?thesis using assms(1) allocate_agrees [OF _ assms(2,3)] by simp
  next
    case (TC_Batch rs)
    then have "tr_batch_allocate T P env rs (s, w) = Inr (s', w')" using assms(1) by simp
    then show ?thesis using tr_invD(10) [OF assms(2)]
    proof (rule batch_Inr)
      fix g adm ts
      assume "pay_all T env rs w = Inr w'" "s' = batch_books env adm rs (s\<lparr>ty_guard := g\<rparr>)"
      then show ?thesis using pay_all_keeps [OF assms(3)] by (simp add: batch_books_frame)
    qed
  next
    case (TC_Approve a i)
    then show ?thesis using assms(1) approve_agrees [OF _ assms(2,3)] by simp
  next
    case (TC_Buyback x m d a b f oc sy)
    then show ?thesis using assms(1) buyback_agrees [OF _ assms(2,3)] by simp
  qed (use False assms(4,5) in simp_all)
qed

lemma exec_agrees:
  assumes "tr_exec T P env c (s, w) = Inr (s', w')" "self_addr env = me" "tr_inv me s" "ok w" "books_agree sc (fst (book w)) s"
  shows "ok w' \<and> books_agree sc (fst (book w')) s'"
proof -
  have "ok w' \<and> books_agree sc (fst (book w')) s'" if "c = TC_Init a st l g" for a st l g
  proof -
    have i: "tr_initialize env a st l g s = Inr s'" "w' = w" using assms(1) that by (simp_all add: tr_lift_Inr)
    then have "ty_admin s = None" by (auto simp: tr_initialize_def res_simps)
    then have "ty_receipt s = Map.empty" "ty_staking s = None" using tr_invD(2) [OF assms(3)] by (simp_all add: config_ok_def)
    moreover from this have "ty_receipt s' = Map.empty" using i
      by (auto simp: tr_initialize_def res_simps Let_def split: option.splits)
    ultimately show ?thesis using assms(4,5) i(2) by (simp add: books_agree_def fun_eq_iff)
  qed
  moreover have "ok w' \<and> books_agree sc (fst (book w')) s'" if "c = TC_Distribute tok x" for tok x
    using distribute_agrees [OF _ assms(2-5)] assms(1) that by simp
  moreover have "ok w' \<and> books_agree sc (fst (book w')) s'"
    if "\<And>tok x. c \<noteq> TC_Distribute tok x" "\<And>a st l g. c \<noteq> TC_Init a st l g"
    using exec_quiet [OF assms(1,3,4) that] assms(5) books_agree_cong [of s' s sc] by simp
  ultimately show ?thesis by blast
qed

text \<open>A treasury whose next number the receiver has already taken is stuck there.\<close>

lemma distribute_fresh:
  assumes "tr_distribute_to_stakers T P env tok x (s, w) = Inr (s', w')" "self_addr env = me" "tr_inv me s" "ok w"
    "ty_staking s = Some sc"
  shows "Suc (get_or 0 (ty_last_dist s)) \<notin> snd (book w)"
  using assms(1) tr_invD(10) [OF assms(3)]
proof (rule distribute_to_stakers_Inr)
  fix c i
  assume "ty_staking s = Some c" "i = get_or 0 (ty_last_dist s) + 1" "distribution_calls T P env c i tok x w w'"
  with distribution_takes [OF assms(4) _ assms(2)] assms(5) show ?thesis by fastforce
qed

lemma exec_stuck:
  assumes "tr_exec T P env c (s, w) = Inr (s', w')" "self_addr env = me" "tr_inv me s" "ok w"
    "ty_staking s = Some sc" "Suc (get_or 0 (ty_last_dist s)) \<in> snd (book w)"
  shows "ty_staking s' = Some sc \<and> Suc (get_or 0 (ty_last_dist s')) \<in> snd (book w')"
proof -
  have "c \<noteq> TC_Distribute tok x" for tok x using distribute_fresh [OF _ assms(2-5)] assms(1,6) by auto
  moreover have "ty_admin s \<noteq> None" using tr_invD(2) [OF assms(3)] assms(5) by (auto simp: config_ok_def split: option.splits)
  then have "c \<noteq> TC_Init a st l g" for a st l g using assms(1) by (auto simp: tr_lift_Inr tr_initialize_def res_simps)
  ultimately have q: "book w' = book w" "ty_staking s' = ty_staking s" "ty_receipt s' = ty_receipt s"
    using exec_quiet [OF assms(1,3,4)] by blast+
  from receipts_last [OF tr_invD(6) [OF tr_exec_inv [OF assms(1,3,2)]] tr_invD(6) [OF assms(3), folded q(3)]]
  show ?thesis using q assms(5,6) by simp
qed

end

section \<open>The staking contract as the receiver\<close>

text \<open>The storage of the staking contract at \<open>sc\<close> beside the tokens and all other contracts.\<close>

definition ts_tokens :: "'t token_ops \<Rightarrow> (staking \<times> 't) token_ops" where
  "ts_tokens T = \<lparr>tk_balance = (\<lambda>tok a (ss, t). tk_balance T tok a t),
     tk_transfer = (\<lambda>env tok a b x (ss, t). rbind (tk_transfer T env tok a b x t) (\<lambda>t. Inr (ss, t)))\<rparr>"

definition ok_option :: "'e + 'a \<Rightarrow> 'a option" where
  "ok_option r = (case r of Inl _ \<Rightarrow> None | Inr x \<Rightarrow> Some x)"

lemma ok_option_Some [simp]: "ok_option r = Some x \<longleftrightarrow> r = Inr x"
  by (cases r) (simp_all add: ok_option_def)

definition beside :: "staking \<Rightarrow> 't option \<Rightarrow> (staking \<times> 't) option" where
  "beside ss r = map_option (Pair ss) r"

text \<open>A call at \<open>sc\<close> is a call of the staking contract, by the treasury; any other one goes to \<open>Q\<close>.\<close>

definition ts_peers :: "'t token_ops \<Rightarrow> 't treasury_peers \<Rightarrow> addr \<Rightarrow> (staking \<times> 't) treasury_peers" where
  "ts_peers T Q sc =
    \<lparr>tp_paused = (\<lambda>a (ss, t). tp_paused Q a t),
     tp_record_large_tx = (\<lambda>env a f b x (ss, t). (ss, tp_record_large_tx Q env a f b x t)),
     tp_set_next_dist = (\<lambda>env a adm d (ss, t).
       if a = sc then (case st_set_next_distribution_at (env\<lparr>self_addr := sc\<rparr>) adm d ss of Inl _ \<Rightarrow> (ss, t) | Inr ss' \<Rightarrow> (ss', t))
       else (ss, tp_set_next_dist Q env a adm d t)),
     tp_penalty_pool = (\<lambda>a (ss, t). if a = sc then Some (get_or 0 (st_penalty_pool ss)) else tp_penalty_pool Q a t),
     tp_lp_fund = (\<lambda>env a x (ss, t).
       if a = sc then ok_option (add_to_lp_reward_pool (env\<lparr>self_addr := sc\<rparr>) x (ss, t))
       else beside ss (tp_lp_fund Q env a x t)),
     tp_receive = (\<lambda>env a i tr tok x d (ss, t).
       if a = sc then ok_option (receive_treasury_distribution T (env\<lparr>self_addr := sc\<rparr>) i tr tok x d (ss, t))
       else beside ss (tp_receive Q env a i tr tok x d t)),
     tp_oracle = (\<lambda>a f (ss, t). tp_oracle Q a f t),
     tp_approve = (\<lambda>env tok a b x l (ss, t). beside ss (tp_approve Q env tok a b x l t)),
     tp_swap = (\<lambda>env d f t1 t2 x y a (ss, t). map_option (\<lambda>(m, t). (m, ss, t)) (tp_swap Q env d f t1 t2 x y a t)),
     tp_burn = (\<lambda>env tok a x (ss, t). beside ss (tp_burn Q env tok a x t))\<rparr>"

definition staking_ok :: "staking \<times> 't \<Rightarrow> bool" where
  "staking_ok sw \<longleftrightarrow> st_inv (fst sw) \<and> receipts_processed (fst sw)"

definition staking_book :: "addr \<Rightarrow> staking \<Rightarrow> (nat \<Rightarrow> (addr \<times> int) option) \<times> nat set" where
  "staking_book me ss = (taken_from me ss, dom (st_processed ss))"

lemma staking_receives:
  assumes "receive_treasury_distribution T env i me tok x d (ss, t) = Inr (ss', t')" "staking_ok (ss, t)"
  shows "staking_ok (ss', t') \<and> taken_from me ss' = (taken_from me ss)(i \<mapsto> (tok, x)) \<and>
    dom (st_processed ss') = insert i (dom (st_processed ss)) \<and> i \<notin> dom (st_processed ss)"
  using receive_records [OF assms(1)] treasury_inv [OF assms(1)] assms(2)
  by (auto simp: staking_ok_def receipts_processed_def taken_from_def fun_eq_iff)

lemma staking_core_ok: "st_core ss' = st_core ss \<Longrightarrow> staking_ok (ss', t') = staking_ok (ss, t) \<and> staking_book me ss' = staking_book me ss"
proof -
  assume c: "st_core ss' = st_core ss"
  have "st_receipt ss' = st_receipt ss" "st_processed ss' = st_processed ss" using c by (simp_all add: st_core_def)
  moreover from this have "taken_from me ss' = taken_from me ss" by (simp add: taken_from_def fun_eq_iff)
  ultimately show ?thesis using st_core_inv [OF c] by (simp add: staking_ok_def staking_book_def receipts_processed_def)
qed

text \<open>The calls of the joint state, one equation for each.\<close>

lemma ts_calls:
  "tk_balance (ts_tokens T) tok a (ss, t) = tk_balance T tok a t"
  "tk_transfer (ts_tokens T) env tok a b x (ss, t) = rbind (tk_transfer T env tok a b x t) (\<lambda>t. Inr (ss, t))"
  "tp_receive (ts_peers T Q sc) env c i tr tok x d (ss, t) =
    (if c = sc then ok_option (receive_treasury_distribution T (env\<lparr>self_addr := sc\<rparr>) i tr tok x d (ss, t))
     else beside ss (tp_receive Q env c i tr tok x d t))"
  "tp_lp_fund (ts_peers T Q sc) env c x (ss, t) =
    (if c = sc then ok_option (add_to_lp_reward_pool (env\<lparr>self_addr := sc\<rparr>) x (ss, t)) else beside ss (tp_lp_fund Q env c x t))"
  "tp_set_next_dist (ts_peers T Q sc) env c adm d (ss, t) =
    (if c = sc then (case st_set_next_distribution_at (env\<lparr>self_addr := sc\<rparr>) adm d ss of Inl _ \<Rightarrow> (ss, t) | Inr ss' \<Rightarrow> (ss', t))
     else (ss, tp_set_next_dist Q env c adm d t))"
  "tp_record_large_tx (ts_peers T Q sc) env c f b x (ss, t) = (ss, tp_record_large_tx Q env c f b x t)"
  "tp_approve (ts_peers T Q sc) env tok a b x l (ss, t) = beside ss (tp_approve Q env tok a b x l t)"
  "tp_swap (ts_peers T Q sc) env d' f t1 t2 x y a (ss, t) = map_option (\<lambda>(m, t). (m, ss, t)) (tp_swap Q env d' f t1 t2 x y a t)"
  "tp_burn (ts_peers T Q sc) env tok a x (ss, t) = beside ss (tp_burn Q env tok a x t)"
  "tp_penalty_pool (ts_peers T Q sc) c (ss, t) = (if c = sc then Some (get_or 0 (st_penalty_pool ss)) else tp_penalty_pool Q c t)"
  "tp_paused (ts_peers T Q sc) c (ss, t) = tp_paused Q c t"
  by (simp_all add: ts_peers_def ts_tokens_def)

lemma beside_Some [simp]: "beside ss r = Some x \<longleftrightarrow> (\<exists>t. r = Some t \<and> x = (ss, t))"
  by (auto simp: beside_def)

lemma staking_ok_any: "staking_ok (ss, t) \<Longrightarrow> staking_ok (ss, t')"
  by (simp add: staking_ok_def)

lemma ts_receive_takes:
  assumes "staking_ok (ss, t)" "tp_receive (ts_peers T Q sc) env c i me tok x d (ss, t) = Some (ss', t')"
  shows "staking_ok (ss', t') \<and> staking_book me ss' =
    (if c = sc then ((fst (staking_book me ss))(i \<mapsto> (tok, x)), insert i (snd (staking_book me ss))) else staking_book me ss) \<and>
    (c = sc \<longrightarrow> i \<notin> snd (staking_book me ss))"
proof (cases "c = sc")
  case True
  then show ?thesis using assms(2) staking_receives [OF _ assms(1)] by (simp add: ts_calls staking_book_def)
next
  case False
  then show ?thesis using assms staking_ok_any by (auto simp: ts_calls)
qed

lemma ts_fund_keeps:
  assumes "staking_ok (ss, t)" "tp_lp_fund (ts_peers T Q sc) env c x (ss, t) = Some (ss', t')"
  shows "staking_ok (ss', t') \<and> staking_book me ss' = staking_book me ss"
proof (cases "c = sc")
  case True
  then have "add_to_lp_reward_pool (env\<lparr>self_addr := sc\<rparr>) x (ss, t) = Inr (ss', t')" using assms(2) by (simp add: ts_calls)
  from lp_fund_core [OF this] assms(1) staking_core_ok [of ss' ss t' t me] show ?thesis by blast
next
  case False
  then show ?thesis using assms staking_ok_any by (auto simp: ts_calls)
qed

lemma ts_sched_keeps:
  assumes "staking_ok (ss, t)"
  shows "\<exists>ss' t'. tp_set_next_dist (ts_peers T Q sc) env c a d (ss, t) = (ss', t') \<and> staking_ok (ss', t') \<and>
    staking_book me ss' = staking_book me ss"
proof (cases "st_set_next_distribution_at (env\<lparr>self_addr := sc\<rparr>) a d ss")
  case (Inl e)
  then show ?thesis using assms by (simp add: ts_calls staking_ok_def)
next
  case (Inr ss')
  then have "st_core ss' = st_core ss"
    by (auto simp: st_set_next_distribution_at_def st_require_admin_def st_core_def res_simps)
  from staking_core_ok [OF this, of t t me] assms Inr show ?thesis by (simp add: ts_calls staking_ok_def)
qed

interpretation staking_receiver: distribution_receiver "ts_tokens T" "ts_peers T Q sc" me sc staking_ok "\<lambda>sw. staking_book me (fst sw)"
  for T :: "'t token_ops" and Q me sc
proof (unfold_locales, goal_cases)
  case (1 w env c i tok x d w')
  then show ?case using ts_receive_takes [of "fst w" "snd w" T Q sc env c i me tok x d "fst w'" "snd w'"] by simp
next
  case (2 w env c x w')
  then show ?case using ts_fund_keeps [of "fst w" "snd w" T Q sc env c x "fst w'" "snd w'"] by simp
next
  case (3 w env c a d)
  then show ?case using ts_sched_keeps [of "fst w" "snd w" T Q sc env c a d me] by (metis prod.collapse fst_conv)
next
  case (4 w env c f a x)
  then show ?case by (cases w) (simp add: ts_calls staking_ok_def)
next
  case (5 w env tok a b x w')
  then show ?case by (cases w) (auto simp: ts_calls staking_ok_def res_simps)
next
  case (6 w env tok a b x l w')
  then show ?case by (cases w) (auto simp: ts_calls staking_ok_def)
next
  case (7 w env d f t1 t2 x y a m w')
  then show ?case by (cases w) (auto simp: ts_calls staking_ok_def)
next
  case (8 w env tok a x w')
  then show ?case by (cases w) (auto simp: ts_calls staking_ok_def)
qed


section \<open>Both contracts\<close>

text \<open>
  The two contracts in one state. A call from outside to the staking contract is not signed by the
  treasury contract: a contract signs only the calls it makes itself, and those are in the treasury's step.
\<close>

type_synonym 't joint = "treasury \<times> staking \<times> 't"

inductive ts_step ::
    "'t token_ops \<Rightarrow> 't treasury_peers \<Rightarrow> staking_peers \<Rightarrow> (hash32 \<Rightarrow> bool) \<Rightarrow> addr \<Rightarrow> addr \<Rightarrow> 't joint \<Rightarrow> 't joint \<Rightarrow> bool"
  for T Q SP inst me sc where
  Treasury: "self_addr env = me \<Longrightarrow> tr_exec (ts_tokens T) (ts_peers T Q sc) env c (s, ss, t) = Inr (s', ss', t') \<Longrightarrow>
    ts_step T Q SP inst me sc (s, ss, t) (s', ss', t')"
| Staking: "self_addr env = sc \<Longrightarrow> \<not> auth_by env me \<Longrightarrow> st_exec T SP inst env c (ss, t) = Inr (ss', t') \<Longrightarrow>
    ts_step T Q SP inst me sc (s, ss, t) (s, ss', t')"
| Outside: "ts_step T Q SP inst me sc (s, ss, t) (s, ss, t')"
| Lapse: "(\<And>k. m k = ty_mev s k \<or> m k = None) \<Longrightarrow> g = ty_global s \<or> g = None \<Longrightarrow>
    ts_step T Q SP inst me sc (s, ss, t) (s\<lparr>ty_mev := m, ty_global := g\<rparr>, ss, t)"

definition ts_start :: "'t \<Rightarrow> 't joint" where "ts_start t = (tr_empty, staking_empty, t)"

definition joint_ok :: "addr \<Rightarrow> addr \<Rightarrow> 't joint \<Rightarrow> bool" where
  "joint_ok me sc x \<longleftrightarrow> tr_inv me (fst x) \<and> staking_ok (snd x) \<and> books_agree sc (taken_from me (fst (snd x))) (fst x)"

lemma joint_start: "joint_ok me sc (ts_start t)"
proof -
  have "receipts_processed staking_empty" "books_agree sc (taken_from me staking_empty) tr_empty"
    by (auto simp: receipts_processed_def staking_empty_def books_agree_def taken_from_def tr_empty_def)
  then show ?thesis by (simp add: joint_ok_def ts_start_def tr_emptyI staking_ok_def st_inv_empty)
qed

lemma ts_step_ok: "ts_step T Q SP inst me sc x y \<Longrightarrow> joint_ok me sc x \<Longrightarrow> joint_ok me sc y"
proof (induction rule: ts_step.induct)
  case (Treasury env c s ss t s' ss' t')
  then show ?case
    using tr_exec_inv [OF Treasury.hyps(2)] staking_receiver.exec_agrees [OF Treasury.hyps(2,1)] by (simp add: joint_ok_def staking_book_def)
next
  case (Staking env c ss t ss' t' s)
  then have h: "st_inv ss" "receipts_processed ss" by (simp_all add: joint_ok_def staking_ok_def)
  from exec_taken [OF Staking.hyps(3) h Staking.hyps(2)] st_exec_inv [OF Staking.hyps(3) h(1)] Staking.prems
  show ?case by (simp add: joint_ok_def staking_ok_def)
next
  case (Lapse m s g ss t)
  then show ?case using books_agree_cong [of "s\<lparr>ty_mev := m, ty_global := g\<rparr>" s] by (simp add: joint_ok_def inv_temporary)
qed (simp add: joint_ok_def staking_ok_def)

lemma ts_steps_ok: "(ts_step T Q SP inst me sc)\<^sup>*\<^sup>* x y \<Longrightarrow> joint_ok me sc x \<Longrightarrow> joint_ok me sc y"
proof (induction rule: rtranclp_induct)
  case (step y z)
  from ts_step_ok [OF step.hyps(2) step.IH [OF step.prems]] show ?case .
qed

lemma ts_reach_ok:
  assumes "(ts_step T Q SP inst me sc)\<^sup>*\<^sup>* (ts_start t0) y"
  shows "joint_ok me sc y"
  by (rule ts_steps_ok [OF assms joint_start])



section \<open>A treasury that follows another one\<close>

text \<open>
  The numbers of the staking contract are not kept apart by treasury, and a treasury counts from 1. When the
  number of its next distribution has been processed already, every further distribution fails.
\<close>

definition joint_stuck :: "addr \<Rightarrow> addr \<Rightarrow> 't joint \<Rightarrow> bool" where
  "joint_stuck me sc x \<longleftrightarrow> ty_staking (fst x) = Some sc \<and> st_processed (fst (snd x)) (Suc (get_or 0 (ty_last_dist (fst x)))) \<noteq> None"

lemma ts_step_stuck:
  "ts_step T Q SP inst me sc x y \<Longrightarrow> joint_ok me sc x \<Longrightarrow> joint_stuck me sc x \<Longrightarrow> joint_stuck me sc y"
proof (induction rule: ts_step.induct)
  case (Treasury env c s ss t s' ss' t')
  then show ?case
    using staking_receiver.exec_stuck [OF Treasury.hyps(2,1)] by (auto simp: joint_ok_def joint_stuck_def staking_book_def)
next
  case (Staking env c ss t ss' t' s)
  then have "st_inv ss" by (simp add: joint_ok_def staking_ok_def)
  from exec_processed [OF Staking.hyps(3) this] Staking.prems(2) show ?case by (simp add: joint_stuck_def)
qed (simp_all add: joint_stuck_def)

lemma ts_steps_stuck:
  "(ts_step T Q SP inst me sc)\<^sup>*\<^sup>* x y \<Longrightarrow> joint_ok me sc x \<Longrightarrow> joint_stuck me sc x \<Longrightarrow> joint_ok me sc y \<and> joint_stuck me sc y"
proof (induction rule: rtranclp_induct)
  case (step y z)
  then show ?case using ts_step_ok [OF step.hyps(2)] ts_step_stuck [OF step.hyps(2)] by simp
qed simp


section \<open>The funds of a distribution\<close>

lemma fund_effect:
  "add_to_lp_reward_pool env x (s, w) = Inr (s', w') \<Longrightarrow>
   w' = w \<and> get_or 0 (st_lp_pool s') = get_or 0 (st_lp_pool s) + x \<and> st_core s' = st_core s"
  by (auto simp: add_to_lp_reward_pool_def st_core_def Let_def res_simps)

lemma receive_lp_pool:
  assumes "receive_treasury_distribution T env i tr tok a ts (s, w) = Inr (s', w')" "st_inv s"
  shows "st_lp_pool s' = st_lp_pool s"
  using assms(1)
proof (rule treasury_Inr)
  fix g0 g s1 rc rc' dc
  let ?s0 = "s\<lparr>st_guard := g0, st_processed := (st_processed s)(i \<mapsto> True), st_receipt := (st_receipt s)(i \<mapsto> rc), st_dist_count := dc\<rparr>"
  assume a: "internal_distribute_revenue env a ?s0 = Inr s1"
    and s': "s' = s1\<lparr>st_guard := g, st_receipt := (st_receipt s1)(i \<mapsto> rc')\<rparr>"
  have "stakers_ok ?s0" using stakers_ok_cong [of ?s0 s] st_invD(1) [OF assms(2)] by simp
  from distribute_exact [OF a this] show ?thesis by (auto simp: s')
qed

text \<open>What one distribution does to the staking contract and to the tokens.\<close>

lemma distribution_effect:
  assumes "distribution_calls (ts_tokens T) (ts_peers T Q sc) env sc i tok x (ss, t) (ss', t')" "st_inv ss" "0 < x"
  shows "tk_transfer T (as_invoker env) tok (self_addr env) sc x t = Inr t' \<and>
    get_or 0 (st_lp_pool ss') = get_or 0 (st_lp_pool ss) + x div 10 \<and>
    closes_epoch ((as_invoker env)\<lparr>self_addr := sc\<rparr>) (x - x div 10) ss ss'"
proof -
  let ?e = "(as_invoker env)\<lparr>self_addr := sc\<rparr>"
  obtain w1 w2 where w: "tk_transfer (ts_tokens T) (as_invoker env) tok (self_addr env) sc x (ss, t) = Inr w1"
      "if 0 < x div 10 then tp_lp_fund (ts_peers T Q sc) (as_invoker env) sc (x div 10) w1 = Some w2 else w2 = w1"
      "tp_receive (ts_peers T Q sc) (as_invoker env) sc i (self_addr env) tok (x - x div 10) (ledger_ts env) w2 = Some (ss', t')"
    using assms(1) unfolding distribution_calls_def by blast
  obtain t1 where 1: "tk_transfer T (as_invoker env) tok (self_addr env) sc x t = Inr t1" "w1 = (ss, t1)"
    using w(1) by (auto simp: ts_calls res_simps)
  obtain ss2 t2 where w2: "w2 = (ss2, t2)" by (cases w2)
  have 2: "if 0 < x div 10 then add_to_lp_reward_pool ?e (x div 10) (ss, t1) = Inr (ss2, t2) else ss2 = ss \<and> t2 = t1"
    using w(2) by (cases "0 < x div 10") (simp_all add: 1 w2 ts_calls)
  have 3: "receive_treasury_distribution T ?e i (self_addr env) tok (x - x div 10) (ledger_ts env) (ss2, t2) = Inr (ss', t')"
    using w(3) by (simp add: w2 ts_calls)
  have f: "t2 = t1" "get_or 0 (st_lp_pool ss2) = get_or 0 (st_lp_pool ss) + x div 10" "st_core ss2 = st_core ss"
    using 2 fund_effect [of ?e "x div 10" ss t1 ss2 t2] assms(3) by (auto split: if_splits)
  have inv: "st_inv ss2" using st_core_inv [OF f(3)] assms(2) by simp
  have c: "closes_epoch ?e (x - x div 10) ss2 ss'" using treasury_closes [OF 3 inv] by blast
  have "closes_epoch ?e (x - x div 10) ss ss'"
    using c st_core_parts [OF f(3)] by (simp add: closes_epoch_def epoch_data_def eligible_stake_def)
  then show ?thesis using 1 f receive_lp_pool [OF 3 inv] receive_records [OF 3 inv] by simp
qed

end
