(* ===== verification/TreasuryDemo.thy ===== *)
theory TreasuryDemo
  imports TreasuryStaking StakingDemo
begin

text \<open>Concrete runs of the treasury: an allocation that waits for its second signature, a distribution.\<close>

section \<open>An allocation\<close>

text \<open>No other contract answers, and tokens are MNT instances; the treasury is account 0.\<close>

definition tr_alone :: "'w treasury_peers" where
  "tr_alone = \<lparr>tp_paused = (\<lambda>_ _. None), tp_record_large_tx = (\<lambda>_ _ _ _ _ w. w), tp_set_next_dist = (\<lambda>_ _ _ _ w. w),
     tp_penalty_pool = (\<lambda>_ _. None), tp_lp_fund = (\<lambda>_ _ _ _. None), tp_receive = (\<lambda>_ _ _ _ _ _ _ _. None),
     tp_oracle = (\<lambda>_ _ _. None), tp_approve = (\<lambda>_ _ _ _ _ _ _. None), tp_swap = (\<lambda>_ _ _ _ _ _ _ _ _. None),
     tp_burn = (\<lambda>_ _ _ _ _. None)\<rparr>"

definition tr_funds :: mnt_world where "tr_funds = mnt_holding 50 0 100000"

lemmas tr_eval =
  tr_initialize_def tr_set_approved_token_def tr_as_admin_def tr_lift_def tr_allocate_def tr_allocate_body_def
  tr_not_paused_def tr_not_rg_paused_def tr_guarded_def guarded_def rg_enter_def rg_enter_raw_def rg_commit_def rg_release_def
  rg_is_paused_def guard_init_def tr_is_token_approved_def tr_valid_amount_iff tr_consts validate_amount_limits_def
  validate_caller_is_authorized_def tr_callers_of_def tr_throttle_def tr_track_mev_interaction_def manage_session_load_def
  check_emergency_trigger_def DEFAULT_MAX_REQUESTS_PER_MINUTE_def isolation_iff tr_report_large_tx_def tr_queue_pending_def
  tr_log_operation_def tr_empty_def width_defs Let_def mnt_w_balance_def mnt_balance_def mnt_holding_def tr_funds_def
  mnt_empty_def

definition tr_ready :: treasury where
  "tr_ready = tr_empty\<lparr>ty_admin := Some 1, ty_staking := Some 9, ty_timelock := Some 3, ty_alloc_count := Some 0,
     ty_last_dist := Some 0, ty_log_count := Some 0, ty_self := Some 0, ty_callers := Some [3, 1], ty_approved := [50 \<mapsto> True]\<rparr>"

definition tr_queued :: treasury where
  "tr_queued = tr_ready\<lparr>ty_mev := [(1, 0) \<mapsto> 1], ty_global := Some 1, ty_pending_count := Some 1,
     ty_pending := [0 \<mapsto> \<lparr>pa_id = 0, pa_token = 50, pa_recipient = 4, pa_amount = 60000, pa_approvals = 1,
       pa_executed = False, pa_created_at = 10\<rparr>],
     ty_approval := [(0, 1) \<mapsto> True],
     ty_log := [0 \<mapsto> \<lparr>ol_id = 0, ol_type = ''allocate_pending'', ol_caller = 1, ol_token = 50, ol_amount = 60000,
       ol_recipient = Some 4, ol_timestamp = 10, ol_ledger = 0, ol_success = True\<rparr>],
     ty_log_count := Some 1\<rparr>"

lemma tr_ready_run:
  "tr_exec mnt_ops tr_alone (demo_env 0 []) (TC_Init 1 9 3 None) (tr_empty, w) = Inr (tr_ready\<lparr>ty_approved := Map.empty\<rparr>, w)"
  "tr_exec mnt_ops tr_alone (demo_env 0 [1]) (TC_Approve_Token 50 True) (tr_ready\<lparr>ty_approved := Map.empty\<rparr>, w) = Inr (tr_ready, w)"
  by (simp_all add: tr_eval tr_ready_def)

lemma tr_queued_run: "tr_exec mnt_ops tr_alone (demo_env 10 [1]) (TC_Allocate 50 4 60000) (tr_ready, tr_funds) = Inr (tr_queued, tr_funds)"
  by (simp add: tr_eval tr_ready_def tr_queued_def)


lemmas tr_pay_eval =
  tr_approve_pending_allocation_def tr_approve_body_def tr_execute_pending_def tr_add_history_def pay_self_def
  mnt_w_transfer_def mnt_transfer_def mnt_require_not_paused_def mnt_is_paused_def

lemma tr_paid_run: "\<exists>s' w'. tr_approve_pending_allocation mnt_ops (demo_env 20 [5]) 5 0 (tr_queued, tr_funds) = Inr (s', w') \<and>
    mnt_w_balance 50 4 w' = 60000"
  by (simp add: tr_eval tr_pay_eval tr_ready_def tr_queued_def)

lemma tr_queued_steps: "(tr_step mnt_ops tr_alone 0)\<^sup>*\<^sup>* (tr_empty, tr_funds) (tr_queued, tr_funds)"
proof -
  have 1: "tr_step mnt_ops tr_alone 0 (tr_empty, tr_funds) (tr_ready\<lparr>ty_approved := Map.empty\<rparr>, tr_funds)"
    by (rule tr_step.Call [OF _ tr_ready_run(1)]) simp
  have 2: "tr_step mnt_ops tr_alone 0 (tr_ready\<lparr>ty_approved := Map.empty\<rparr>, tr_funds) (tr_ready, tr_funds)"
    by (rule tr_step.Call [OF _ tr_ready_run(2)]) simp
  have 3: "tr_step mnt_ops tr_alone 0 (tr_ready, tr_funds) (tr_queued, tr_funds)"
    by (rule tr_step.Call [OF _ tr_queued_run]) simp
  show ?thesis using 1 2 3 by (meson rtranclp.rtrancl_refl rtranclp.rtrancl_into_rtrancl)
qed

lemma tr_queued_reach: "tr_reach mnt_ops tr_alone 0 tr_queued tr_funds"
  using tr_queued_steps by (auto simp: tr_reach_def)



section \<open>A distribution\<close>

text \<open>The staking contract is account 9; 1000 units go to it, 100 of them to the liquidity providers.\<close>

definition sc_env :: "nat \<Rightarrow> addr list \<Rightarrow> env" where
  "sc_env t g = (demo_env t g)\<lparr>self_addr := 9\<rparr>"

definition st_set_up :: "addr \<Rightarrow> staking" where
  "st_set_up tr = staking_empty\<lparr>st_admin := Some 1, st_mnt := Some 50, st_treasury := Some tr\<rparr>"

lemmas ts_eval =
  tr_distribute_to_stakers_def tr_distribute_body_def tr_distribution_due_def tr_open_receipt_def exec_distribution_def
  batch_add_invoke_def batch_add_transfer_def batch_validate_def MAX_BATCH_SIZE_def peer_def ts_calls tr_alone_def
  validate_fund_conservation_def checked_then_def tr_record_check_def record_invariant_check_def
  add_to_lp_reward_pool_def receive_treasury_distribution_def treasury_body_def require_not_rg_paused_def st_guarded_def
  internal_distribute_revenue_def st_valid_revenue_def validator_defs v_check_def v_validate_def MAX_STAKERS_PER_SNAPSHOT_def
  safe_add_u64_def st_set_up_def staking_empty_def ST_MAX_FINANCIAL_AMOUNT_def staking_consts beside_def trunc_div_nonneg
  ok_option_def

lemma ts_distributed_run:
  "\<exists>s' ss' t'. tr_distribute_to_stakers (ts_tokens mnt_ops) (ts_peers mnt_ops tr_alone 9) (demo_env 86400 [1]) 50 1000
     (tr_ready, st_set_up 0, tr_funds) = Inr (s', ss', t')"
  by (simp add: tr_eval tr_pay_eval ts_eval tr_ready_def)

lemma st_set_up_run:
  "st_exec mnt_ops st_alone (\<lambda>_. True) (sc_env 0 []) (SC_Initialize 1 50 None) (staking_empty, w) =
     Inr (staking_empty\<lparr>st_admin := Some 1, st_mnt := Some 50\<rparr>, w)"
  "st_admin s = Some 1 \<Longrightarrow>
   st_exec mnt_ops st_alone (\<lambda>_. True) (sc_env t [1]) (SC_Treasury 1 tr) (s, w) = Inr (s\<lparr>st_treasury := Some tr\<rparr>, w)"
  by (simp_all add: st_initialize_def st_set_treasury_def st_require_admin_def st_get_admin_def st_lift_def sc_env_def
      staking_empty_def Let_def)

abbreviation demo_step :: "mnt_world joint \<Rightarrow> mnt_world joint \<Rightarrow> bool" where
  "demo_step \<equiv> ts_step mnt_ops tr_alone st_alone (\<lambda>_. True) 0 9"

lemma demo_sc_step:
  "0 \<notin> set g \<Longrightarrow> st_exec mnt_ops st_alone (\<lambda>_. True) (sc_env t g) c (ss, w) = Inr (ss', w') \<Longrightarrow> demo_step (s, ss, w) (s, ss', w')"
  by (rule ts_step.Staking) (simp_all add: sc_env_def)

lemma demo_tr_ready: "demo_step\<^sup>*\<^sup>* (tr_empty, ss, w) (tr_ready, ss, w)"
proof -
  have 1: "demo_step (tr_empty, ss, w) (tr_ready\<lparr>ty_approved := Map.empty\<rparr>, ss, w)"
    by (rule ts_step.Treasury [where env = "demo_env 0 []" and c = "TC_Init 1 9 3 None"]) (simp_all add: tr_eval tr_ready_def)
  have 2: "demo_step (tr_ready\<lparr>ty_approved := Map.empty\<rparr>, ss, w) (tr_ready, ss, w)"
    by (rule ts_step.Treasury [where env = "demo_env 0 [1]" and c = "TC_Approve_Token 50 True"]) (simp_all add: tr_eval tr_ready_def)
  show ?thesis using 1 2 by (meson rtranclp.rtrancl_refl rtranclp.rtrancl_into_rtrancl)
qed

lemma demo_set_up:
  assumes "demo_step\<^sup>*\<^sup>* (ts_start w) (s, ss, v)" "st_admin ss = Some 1"
  shows "demo_step\<^sup>*\<^sup>* (ts_start w) (s, ss\<lparr>st_treasury := Some tr\<rparr>, v)"
proof -
  have "demo_step (s, ss, v) (s, ss\<lparr>st_treasury := Some tr\<rparr>, v)"
    by (rule demo_sc_step [OF _ st_set_up_run(2) [OF assms(2), of 0]]) simp
  with assms(1) show ?thesis by (rule rtranclp.rtrancl_into_rtrancl)
qed

lemma demo_initialized: "demo_step\<^sup>*\<^sup>* (ts_start w) (tr_empty, staking_empty\<lparr>st_admin := Some 1, st_mnt := Some 50\<rparr>, w)"
  unfolding ts_start_def by (rule r_into_rtranclp, rule demo_sc_step [OF _ st_set_up_run(1)]) simp

lemma ts_ready_reach: "demo_step\<^sup>*\<^sup>* (ts_start w) (tr_ready, st_set_up 0, w)"
proof -
  have "demo_step\<^sup>*\<^sup>* (ts_start w) (tr_empty, st_set_up 0, w)"
    using demo_set_up [OF demo_initialized, where tr = 0] by (simp add: st_set_up_def)
  then show ?thesis using demo_tr_ready by (rule rtranclp_trans)
qed

text \<open>The same, after treasury 8 has made a first distribution to the staking contract.\<close>

lemma st_first_run:
  "\<exists>ss'. st_exec mnt_ops st_alone (\<lambda>_. True) (sc_env 0 [8]) (SC_Receive 1 8 50 900 0) (st_set_up 8, w) = Inr (ss', w) \<and>
     st_admin ss' = Some 1 \<and> st_processed ss' 1 = Some True"
  by (simp add: tr_eval ts_eval sc_env_def)

lemma ts_follower_reach: "\<exists>ss. demo_step\<^sup>*\<^sup>* (ts_start w) (tr_ready, ss, w) \<and> st_processed ss 1 \<noteq> None"
proof -
  obtain ss where ss: "st_exec mnt_ops st_alone (\<lambda>_. True) (sc_env 0 [8]) (SC_Receive 1 8 50 900 0) (st_set_up 8, w) = Inr (ss, w)"
    "st_admin ss = Some 1" "st_processed ss 1 = Some True" using st_first_run by blast
  have 1: "demo_step\<^sup>*\<^sup>* (ts_start w) (tr_empty, st_set_up 8, w)"
    using demo_set_up [OF demo_initialized, where tr = 8] by (simp add: st_set_up_def)
  have 2: "demo_step (tr_empty, st_set_up 8, w) (tr_empty, ss, w)" by (rule demo_sc_step [OF _ ss(1)]) simp
  have 3: "demo_step\<^sup>*\<^sup>* (ts_start w) (tr_empty, ss\<lparr>st_treasury := Some 0\<rparr>, w)"
    by (rule demo_set_up) (use 1 2 ss(2) in \<open>auto intro: rtranclp.rtrancl_into_rtrancl\<close>)
  from rtranclp_trans [OF this demo_tr_ready] ss(3) show ?thesis by fastforce
qed

end
