(* ===== verification/TreasuryProps.thy ===== *)
theory TreasuryProps
  imports TreasuryDemo
begin

text \<open>The properties of the treasury contract, alone and with the staking contract.\<close>

section \<open>The records\<close>

lemma history_list: "history_ok n m \<Longrightarrow> \<exists>hs. n = length hs \<and> (\<forall>i. m i = (if i < length hs then Some (hs ! i) else None)) \<and>
    (\<forall>h \<in> set hs. 0 < ah_amount h \<and> ah_amount h \<le> MAX_PER_TX_ALLOCATE)"
  unfolding history_ok_def seq_rep_def by blast

lemma receipt_entry:
  assumes "receipts_ok n m l" "m i = Some r"
  shows "1 \<le> i \<and> i \<le> n \<and> td_id r = i \<and> td_processed r \<and> 0 < td_total r \<and> td_total r \<le> MAX_PER_TX_DISTRIBUTE"
proof -
  obtain rs where rs: "seq_rep (\<lambda>i. m (Suc i)) n rs" "m 0 = None" "\<forall>j < n. receipt_ok j (rs ! j)"
    using assms(1) by (auto simp: receipts_ok_def)
  obtain j where j: "i = Suc j" using assms(2) rs(2) by (cases i) auto
  have "j < n \<and> r = rs ! j" using seq_rep_nth [OF rs(1), of j r] assms(2) j by simp
  with rs(3) show ?thesis by (auto simp: receipt_ok_def j)
qed

lemma receipt_gap:
  assumes "receipts_ok n m l" "m i = Some r" "m j = Some q" "j < i"
  shows "td_timestamp q + (i - j) * DISTRIBUTION_MIN_INTERVAL_SECS \<le> td_timestamp r"
proof -
  obtain rs where rs: "seq_rep (\<lambda>i. m (Suc i)) n rs" "m 0 = None" "spaced rs"
    using assms(1) by (auto simp: receipts_ok_def)
  obtain i' j' where ij: "i = Suc i'" "j = Suc j'" using assms(2,3) rs(2) by (cases i; cases j) auto
  have "i' < length rs" "r = rs ! i'" "q = rs ! j'"
    using seq_rep_nth [OF rs(1), of i' r] seq_rep_nth [OF rs(1), of j' q] assms(2,3) rs(1) by (auto simp: ij seq_rep_def)
  with rs(3) assms(4) show ?thesis by (simp add: spaced_def ij)
qed

lemma receipts_all: "receipts_ok n m l \<Longrightarrow> m i \<noteq> None \<longleftrightarrow> 1 \<le> i \<and> i \<le> n"
proof -
  assume "receipts_ok n m l"
  then obtain rs where rs: "seq_rep (\<lambda>i. m (Suc i)) n rs" "m 0 = None" by (auto simp: receipts_ok_def)
  show ?thesis using seq_rep_None [OF rs(1)] rs(2) by (cases i) (auto simp: not_le Suc_le_eq)
qed

lemma correct_nothing: "tr_inv me s \<Longrightarrow> snd (tr_correct_distribution i s) = s"
  using receipts_fair [of me s i] by (auto simp: tr_correct_distribution_def split: option.splits)

text \<open>
  C18. The records of the treasury are well formed in every reachable state. The allocation history is a
  list of payments within the limit. Below the largest counter the operation log is a list in which every
  entry carries its number. Every entry records success, except for deferred buybacks. The receipts
  carry the numbers 1 to n, each is processed and within the limit, and two of them are as many days
  apart as their numbers differ. A pending allocation has as many approvals as approvers, two when it is
  executed and one otherwise. Every recorded conservation check is valid, the fairness audit accepts
  exactly the existing receipts, and the public correction of a distribution changes nothing.
\<close>

theorem treasury_records:
  assumes "tr_reach T P me s w"
  shows "(\<exists>hs. get_or 0 (ty_alloc_count s) = length hs \<and> (\<forall>i. ty_alloc s i = (if i < length hs then Some (hs ! i) else None)) \<and>
       (\<forall>h \<in> set hs. 0 < ah_amount h \<and> ah_amount h \<le> MAX_PER_TX_ALLOCATE)) \<and>
    (get_or 0 (ty_log_count s) < u64_max \<longrightarrow>
       (\<forall>i. if i < get_or 0 (ty_log_count s) then \<exists>l. ty_log s i = Some l \<and> ol_id l = i else ty_log s i = None)) \<and>
    (\<forall>i l. ty_log s i = Some l \<longrightarrow> ol_success l \<or> ol_type l = ''buyback_def'') \<and>
    (\<forall>i. (ty_receipt s i \<noteq> None) = (1 \<le> i \<and> i \<le> get_or 0 (ty_last_dist s))) \<and>
    (\<forall>i r. ty_receipt s i = Some r \<longrightarrow> td_id r = i \<and> td_processed r \<and> 0 < td_total r \<and> td_total r \<le> MAX_PER_TX_DISTRIBUTE \<and>
       (\<forall>j q. ty_receipt s j = Some q \<longrightarrow> j < i \<longrightarrow> td_timestamp q + (i - j) * (24 * 60 * 60) \<le> td_timestamp r)) \<and>
    (\<forall>i p. ty_pending s i = Some p \<longrightarrow> finite {a. ty_approval s (i, a) \<noteq> None} \<and>
       pa_approvals p = card {a. ty_approval s (i, a) \<noteq> None} \<and> pa_approvals p = (if pa_executed p then 2 else 1)) \<and>
    (\<forall>i r. ty_inv s i = Some r \<longrightarrow> ir_invariant r = EI_FundConservation \<longrightarrow> ir_valid r) \<and>
    (\<forall>i. tr_audit_distribution_fairness i s = (ty_receipt s i \<noteq> None) \<and> snd (tr_correct_distribution i s) = s)"
proof -
  note inv = tr_reach_inv [OF assms]
  note D = tr_invD [OF inv]
  have log: "if i < get_or 0 (ty_log_count s) then \<exists>l. ty_log s i = Some l \<and> ol_id l = i else ty_log s i = None"
    if h: "get_or 0 (ty_log_count s) < u64_max" for i
  proof -
    obtain xs where xs: "seq_rep (ty_log s) (get_or 0 (ty_log_count s)) xs" "map ol_id xs = [0..<get_or 0 (ty_log_count s)]"
      using D(3) h by (auto simp: log_ok_def)
    have "ol_id (xs ! i) = i" if "i < length xs"
      using arg_cong [OF xs(2), of "\<lambda>ys. ys ! i"] that xs(1) by (simp add: seq_rep_def)
    then show ?thesis using xs(1) by (simp add: seq_rep_def)
  qed
  have entries: "ty_log s i = Some l \<Longrightarrow> ol_success l \<or> ol_type l = ''buyback_def''" for i l
    using D(3) by (auto simp: log_ok_def entry_ok_def)
  have pend: "ty_pending s i = Some p \<Longrightarrow> finite {a. ty_approval s (i, a) \<noteq> None} \<and>
      pa_approvals p = card {a. ty_approval s (i, a) \<noteq> None} \<and> pa_approvals p = (if pa_executed p then 2 else 1)" for i p
    using pendings_okD(1) [OF D(5), of i p] by (simp add: pending_ok_def approvers_def)
  have gap: "ty_receipt s i = Some r \<Longrightarrow> ty_receipt s j = Some q \<Longrightarrow> j < i \<Longrightarrow> td_timestamp q + (i - j) * (24 * 60 * 60) \<le> td_timestamp r"
    for i j r q using receipt_gap [OF D(6), of i r j q] by (simp add: DISTRIBUTION_MIN_INTERVAL_SECS_def)
  have rec: "ty_inv s i = Some r \<Longrightarrow> ir_invariant r = EI_FundConservation \<Longrightarrow> ir_valid r" for i r
    using D(7) by (auto simp: records_ok_def)
  have ids: "ty_receipt s i = Some r \<Longrightarrow> td_id r = i \<and> td_processed r \<and> 0 < td_total r \<and> td_total r \<le> MAX_PER_TX_DISTRIBUTE" for i r
    using receipt_entry [OF D(6), of i r] by simp
  show ?thesis
    by (intro conjI allI impI history_list [OF D(4)] log entries receipts_all [OF D(6)] ids [THEN conjunct1]
        ids [THEN conjunct2, THEN conjunct1] ids [THEN conjunct2, THEN conjunct2, THEN conjunct1]
        ids [THEN conjunct2, THEN conjunct2, THEN conjunct2] gap pend [THEN conjunct1] pend [THEN conjunct2, THEN conjunct1]
        pend [THEN conjunct2, THEN conjunct2] rec receipts_fair [OF inv] correct_nothing [OF inv]) assumption+
qed

theorem treasury_records_witness:
  "card {a. ty_approval tr_queued (0, a) \<noteq> None} = 1 \<and> (\<exists>l. ty_log tr_queued 0 = Some l \<and> ol_id l = 0) \<and>
    ty_receipt tr_queued 1 = None \<and> snd (tr_correct_distribution 1 tr_queued) = tr_queued"
proof -
  note h = treasury_records [OF tr_queued_reach]
  obtain p where p: "ty_pending tr_queued 0 = Some p" "pa_approvals p = 1" by (simp add: tr_queued_def)
  have "card {a. ty_approval tr_queued (0, a) \<noteq> None} = 1" using h p by metis
  moreover have "get_or 0 (ty_log_count tr_queued) = 1" by (simp add: tr_queued_def)
  then have "\<exists>l. ty_log tr_queued 0 = Some l \<and> ol_id l = 0" using h by (simp add: u64_max_def)
  moreover have "get_or 0 (ty_last_dist tr_queued) = 0" by (simp add: tr_queued_def tr_ready_def)
  then have "ty_receipt tr_queued 1 = None" using h by (metis not_one_le_zero)
  ultimately show ?thesis using h by blast
qed


section \<open>What stays\<close>

lemma tr_reach_steps: "tr_reach T P me s w \<Longrightarrow> (tr_step T P me)\<^sup>*\<^sup>* (s, w) (s', w') \<Longrightarrow> tr_reach T P me s' w'"
  unfolding tr_reach_def by (meson rtranclp_trans)

lemma map_le_Some: "m \<subseteq>\<^sub>m m' \<Longrightarrow> m i = Some x \<Longrightarrow> m' i = Some x"
  by (metis domI map_le_def)

text \<open>
  C19. Nothing the treasury has recorded is changed later. Along every run from a reachable state the
  allocation history, the receipts and the approvals keep all their entries, the operation log does as
  long as its counter is below the largest number, an executed allocation stays as it is and a waiting one
  can only become executed, no caller is ever taken off the list, and once the contract is initialized its
  timelock, its staking contract and its own address are final.
\<close>

theorem treasury_history_final:
  assumes "tr_reach T P me s w" "(tr_step T P me)\<^sup>*\<^sup>* (s, w) (s', w')"
  shows "(\<forall>i h. ty_alloc s i = Some h \<longrightarrow> ty_alloc s' i = Some h) \<and> (\<forall>i r. ty_receipt s i = Some r \<longrightarrow> ty_receipt s' i = Some r) \<and>
    (\<forall>i a. ty_approval s (i, a) \<noteq> None \<longrightarrow> ty_approval s' (i, a) \<noteq> None) \<and>
    (get_or 0 (ty_log_count s') < u64_max \<longrightarrow> (\<forall>i l. ty_log s i = Some l \<longrightarrow> ty_log s' i = Some l)) \<and>
    (\<forall>i p. ty_pending s i = Some p \<longrightarrow> ty_pending s' i = Some p \<or>
       \<not> pa_executed p \<and> ty_pending s' i = Some (p\<lparr>pa_approvals := 2, pa_executed := True\<rparr>)) \<and>
    set (tr_callers_of s) \<subseteq> set (tr_callers_of s') \<and>
    (ty_admin s \<noteq> None \<longrightarrow> ty_admin s' \<noteq> None \<and> ty_timelock s' = ty_timelock s \<and> ty_staking s' = ty_staking s \<and> ty_self s' = Some me)"
proof -
  have inv: "tr_inv me s" "tr_inv me s'" using tr_reach_inv [OF assms(1)] tr_reach_inv [OF tr_reach_steps [OF assms]] .
  from tr_steps_grow [OF assms(2)] inv(1) have g: "tr_grows s s'" by simp
  have le: "ty_alloc s i = Some h \<Longrightarrow> ty_alloc s' i = Some h" "ty_receipt s i = Some r \<Longrightarrow> ty_receipt s' i = Some r"
    "get_or 0 (ty_log_count s') < u64_max \<Longrightarrow> ty_log s i = Some l \<Longrightarrow> ty_log s' i = Some l"
    "ty_approval s (i, a) = Some b \<Longrightarrow> ty_approval s' (i, a) = Some b" for i h r l a b
    using g by (auto simp: tr_grows_def log_grows_def dest: map_le_Some)
  have me: "ty_admin s' \<noteq> None \<Longrightarrow> ty_self s' = Some me"
    using tr_invD(2) [OF inv(2)] by (auto simp: config_ok_def)
  have ap: "ty_approval s (i, a) \<noteq> None \<Longrightarrow> ty_approval s' (i, a) \<noteq> None" for i a
    using le(4) by auto
  have fixed: "ty_admin s \<noteq> None \<Longrightarrow> ty_admin s' \<noteq> None \<and> ty_timelock s' = ty_timelock s \<and> ty_staking s' = ty_staking s"
    using g by (simp add: tr_grows_def)
  have pend: "ty_pending s i = Some p \<Longrightarrow> ty_pending s' i = Some p \<or>
       \<not> pa_executed p \<and> ty_pending s' i = Some (p\<lparr>pa_approvals := 2, pa_executed := True\<rparr>)" for i p
    using g by (simp add: tr_grows_def pending_grows_def)
  have callers: "set (tr_callers_of s) \<subseteq> set (tr_callers_of s')" using g by (simp add: tr_grows_def)
  show ?thesis using le(1-3) ap me fixed pend callers by blast
qed

theorem treasury_history_final_witness:
  "\<exists>s' w'. tr_approve_pending_allocation mnt_ops (demo_env 20 [5]) 5 0 (tr_queued, tr_funds) = Inr (s', w') \<and>
    ty_approval s' (0, 1) \<noteq> None \<and> 3 \<in> set (tr_callers_of s')"
proof -
  obtain s' w' where run: "tr_approve_pending_allocation mnt_ops (demo_env 20 [5]) 5 0 (tr_queued, tr_funds) = Inr (s', w')"
    using tr_paid_run by blast
  have "(tr_step mnt_ops tr_alone 0)\<^sup>*\<^sup>* (tr_queued, tr_funds) (s', w')"
    by (rule r_into_rtranclp, rule tr_step.Call [where env = "demo_env 20 [5]" and c = "TC_Approve 5 0"]) (use run in simp_all)
  note h = treasury_history_final [OF tr_queued_reach this]
  have "ty_approval tr_queued (0, 1) \<noteq> None" "3 \<in> set (tr_callers_of tr_queued)"
    by (simp_all add: tr_queued_def tr_ready_def tr_callers_of_def)
  with h have "ty_approval s' (0, 1) \<noteq> None" "3 \<in> set (tr_callers_of s')" by blast+
  with run show ?thesis by blast
qed


section \<open>The second signature\<close>

text \<open>
  C20. A large allocation is paid once, with a second signature. In every reachable state an approval of
  a waiting allocation that succeeds is signed by an account that is not the one approver on record; it
  transfers exactly the recorded amount of the recorded token to the recorded recipient, marks the
  allocation executed with two approvals, and no approval of that allocation succeeds in any later state.
\<close>

theorem second_signature_pays_once:
  assumes "tr_reach T P me s w" "self_addr env = me" "tr_approve_pending_allocation T env a i (s, w) = Inr (s', w')"
  shows "\<exists>p b. ty_pending s i = Some p \<and> \<not> pa_executed p \<and> {c. ty_approval s (i, c) \<noteq> None} = {b} \<and> a \<noteq> b \<and> auth_by env a \<and>
    tk_transfer T (as_invoker env) (pa_token p) me (pa_recipient p) (pa_amount p) w = Inr w' \<and>
    tk_balance T (pa_token p) me w' = tk_balance T (pa_token p) me w - pa_amount p \<and>
    ty_pending s' i = Some (p\<lparr>pa_approvals := 2, pa_executed := True\<rparr>) \<and> {c. ty_approval s' (i, c) \<noteq> None} = {a, b} \<and>
    (\<forall>s2 w2 env2 c x. (tr_step T P me)\<^sup>*\<^sup>* (s', w') (s2, w2) \<longrightarrow> tr_approve_pending_allocation T env2 c i (s2, w2) \<noteq> Inr x)"
proof -
  note inv = tr_reach_inv [OF assms(1)]
  note D = tr_invD [OF inv]
  from assms(3) D(10) show ?thesis
  proof (rule approve_Inr)
    fix g p
    assume p: "auth_by env a" "ty_pending s i = Some p" "\<not> pa_executed p" "ty_approval s (i, a) = None"
      and cases: "pa_approvals p = 0 \<and> w' = w \<and>
       s' = s\<lparr>ty_guard := g, ty_approval := (ty_approval s)((i, a) \<mapsto> True), ty_pending := (ty_pending s)(i \<mapsto> p\<lparr>pa_approvals := 1\<rparr>)\<rparr> \<or>
     1 \<le> pa_approvals p \<and> pa_amount p \<le> tk_balance T (pa_token p) (self_addr env) w \<and>
       tk_transfer T (as_invoker env) (pa_token p) (self_addr env) (pa_recipient p) (pa_amount p) w = Inr w' \<and>
       tk_balance T (pa_token p) (self_addr env) w' = tk_balance T (pa_token p) (self_addr env) w - pa_amount p \<and>
       get_or 0 (ty_alloc_count s) < u32_max \<and>
       s' = push_log (log_entry env ''allocate_executed'' a (pa_token p) (pa_amount p) (Some (pa_recipient p)) True)
         (push_history (history_entry env (pa_token p) (pa_recipient p) (pa_amount p))
           (s\<lparr>ty_guard := g, ty_approval := (ty_approval s)((i, a) \<mapsto> True),
              ty_pending := (ty_pending s)(i \<mapsto> p\<lparr>pa_approvals := pa_approvals p + 1, pa_executed := True\<rparr>)\<rparr>))"
    have ok: "pending_ok (ty_approval s) i p" using pendings_okD(1) [OF D(5) p(2)] .
    then have one: "pa_approvals p = 1" "card (approvers (ty_approval s) i) = 1" using p(3) by (simp_all add: pending_ok_def)
    then obtain b where b: "approvers (ty_approval s) i = {b}" by (auto simp: card_1_singleton_iff)
    have "b \<in> approvers (ty_approval s) i" using b by simp
    then have ab: "a \<noteq> b" using p(4) by (auto simp: approvers_def)
    have f: "tk_transfer T (as_invoker env) (pa_token p) me (pa_recipient p) (pa_amount p) w = Inr w'"
        "tk_balance T (pa_token p) me w' = tk_balance T (pa_token p) me w - pa_amount p"
        "ty_pending s' i = Some (p\<lparr>pa_approvals := 2, pa_executed := True\<rparr>)" "ty_approval s' = (ty_approval s)((i, a) \<mapsto> True)"
      using cases one assms(2) by (auto simp: push_log_def push_history_def numeral_2_eq_2)
    have ap: "{c. ty_approval s' (i, c) \<noteq> None} = {a, b}" using b f(4) by (auto simp: approvers_def)
    have late: "tr_approve_pending_allocation T env2 c i (s2, w2) \<noteq> Inr x"
      if "(tr_step T P me)\<^sup>*\<^sup>* (s', w') (s2, w2)" for s2 w2 env2 c x
    proof -
      have inv': "tr_inv me s'" using approve_inv [OF assms(3) inv] .
      from tr_steps_inv [OF that] inv' have inv2: "tr_inv me s2" by simp
      from tr_steps_grow [OF that] inv' f(3) have "ty_pending s2 i = Some (p\<lparr>pa_approvals := 2, pa_executed := True\<rparr>)"
        by (fastforce simp: tr_grows_def pending_grows_def)
      then show ?thesis
      proof -
        obtain s3 w3 where x: "x = (s3, w3)" by (cases x)
        have "\<not> pa_executed (p\<lparr>pa_approvals := 2, pa_executed := True\<rparr>)"
          if "tr_approve_pending_allocation T env2 c i (s2, w2) = Inr (s3, w3)"
          using that tr_invD(10) [OF inv2] by (rule approve_Inr) (use \<open>ty_pending s2 i = _\<close> in auto)
        then show ?thesis by (auto simp: x)
      qed
    qed
    show ?thesis using p f ap ab late b by (intro exI [of _ p] exI [of _ b]) (simp add: approvers_def)
  qed
qed

theorem second_signature_pays_once_witness:
  "\<exists>s' w'. tr_approve_pending_allocation mnt_ops (demo_env 20 [5]) 5 0 (tr_queued, tr_funds) = Inr (s', w') \<and>
    (\<forall>env c x. tr_approve_pending_allocation mnt_ops env c 0 (s', w') \<noteq> Inr x)"
proof -
  obtain s' w' where run: "tr_approve_pending_allocation mnt_ops (demo_env 20 [5]) 5 0 (tr_queued, tr_funds) = Inr (s', w')"
    using tr_paid_run by blast
  from second_signature_pays_once [OF tr_queued_reach _ this] run show ?thesis by auto
qed



section \<open>The list of callers\<close>

text \<open>
  C24. Once an account is on the list of authorised callers it can take any funds of the treasury for
  ever. In every later state its call of \<open>distribute_fee_revenue\<close> succeeds whenever the token contract makes
  the transfer: the pause, the reentrancy pause, the approved tokens, the limits and the second signature
  are not consulted, and nothing is recorded, the storage is the same before and after.
\<close>

theorem authorised_caller_withdraws:
  assumes "tr_reach T P me s w" "a \<in> set (tr_callers_of s)" "(tr_step T P me)\<^sup>*\<^sup>* (s, w) (s', w')"
    "auth_by env a" "tk_transfer T (as_invoker env) tok (self_addr env) d x w' = Inr w''"
  shows "tr_distribute_fee_revenue T env a tok x d (s', w') = Inr (s', w'')"
proof -
  from tr_steps_grow [OF assms(3)] tr_reach_inv [OF assms(1)] have "tr_grows s s'" by simp
  then have "a \<in> set (tr_callers_of s')" using assms(2) by (auto simp: tr_grows_def)
  then show ?thesis using assms(4,5) by (simp add: tr_distribute_fee_revenue_def pay_self_def)
qed

theorem authorised_caller_withdraws_witness:
  "\<exists>w. tr_distribute_fee_revenue mnt_ops (demo_env 20 [1]) 1 50 100000 7 (tr_queued, tr_funds) = Inr (tr_queued, w) \<and>
    mnt_w_balance 50 7 w = 100000"
proof -
  obtain w where w: "tk_transfer mnt_ops (as_invoker (demo_env 20 [1])) 50 (self_addr (demo_env 20 [1])) 7 100000 tr_funds = Inr w"
      "mnt_w_balance 50 7 w = 100000"
    by (simp add: tr_eval tr_pay_eval)
  have "1 \<in> set (tr_callers_of tr_queued)" by (simp add: tr_queued_def tr_ready_def tr_callers_of_def)
  from authorised_caller_withdraws [OF tr_queued_reach this rtranclp.rtrancl_refl _ w(1)] w(2) show ?thesis by simp
qed

text \<open>
  The list is not the admin: an admin who comes by \<open>accept_admin_change\<close> is not put on it, and until then
  allocations and distributions to stakers are refused, while those on the list keep their right.
\<close>

lemma new_admin_locked_out:
  assumes "tr_accept_admin_change env0 b s0 = Inr s" "b \<notin> set (tr_callers_of s0)" "get_or 0 (ty_log_count s0) \<le> u64_max"
  shows "tr_allocate T P env tok r x (s, w) \<noteq> Inr y" "tr_distribute_to_stakers T P env tok x (s, w) \<noteq> Inr y"
proof -
  have s: "ty_admin s = Some b" "b \<notin> set (tr_callers_of s)" "get_or 0 (ty_log_count s) \<le> u64_max"
    using assms by (auto simp: tr_accept_admin_change_def tr_callers_of_def res_simps)
  obtain s' w' where y: "y = (s', w')" by (cases y)
  show "tr_allocate T P env tok r x (s, w) \<noteq> Inr y"
  proof
    assume "tr_allocate T P env tok r x (s, w) = Inr y"
    then have "tr_allocate T P env tok r x (s, w) = Inr (s', w')" by (simp add: y)
    then show False using s(3) by (rule allocate_Inr) (use s in auto)
  qed
  show "tr_distribute_to_stakers T P env tok x (s, w) \<noteq> Inr y"
  proof
    assume "tr_distribute_to_stakers T P env tok x (s, w) = Inr y"
    then have "tr_distribute_to_stakers T P env tok x (s, w) = Inr (s', w')" by (simp add: y)
    then show False using s(3) by (rule distribute_to_stakers_Inr) (use s in auto)
  qed
qed


section \<open>Deposits\<close>

text \<open>
  The audit of the deposits is on the average of an account: a deposit that makes it lie above 20000 and
  below 49991 is refused, a smaller and a larger average pass. The tier of the worst evaders,
  \<open>PT_Permanent\<close>, is not the one the treasury tests for.
\<close>

theorem deposit_average:
  assumes "tr_reach T P me s w" "self_addr env = me" "tr_deposit T P env a tok x (s, w) = Inr (s', w')"
  shows "auth_by env a \<and> tk_transfer T env tok a me x w = Inr w' \<and> tk_balance T tok me w' = tk_balance T tok me w + x \<and>
    (\<exists>n t. ty_dep_count s' = (ty_dep_count s)(a \<mapsto> n) \<and> ty_dep_total s' = (ty_dep_total s)(a \<mapsto> t) \<and>
       n = get_or 0 (ty_dep_count s a) + 1 \<and> t = get_or 0 (ty_dep_total s a) + x \<and> (t div int n \<le> 20000 \<or> 49991 \<le> t div int n))"
proof -
  note D = tr_invD [OF tr_reach_inv [OF assms(1)]]
  have inv': "tr_inv me s'" using deposit_inv [OF assms(3) tr_reach_inv [OF assms(1)]] .
  from assms(3) D(10) show ?thesis
  proof (rule deposit_Inr)
    fix g m gl
    let ?n = "get_or 0 (ty_dep_count s a) + 1" and ?t = "get_or 0 (ty_dep_total s a) + x"
    assume f: "auth_by env a" "tk_transfer T env tok a (self_addr env) x w = Inr w'"
        "tk_balance T tok (self_addr env) w' = tk_balance T tok (self_addr env) w + x"
      and s': "s' = push_log (log_entry env ''deposit'' a tok x (Some (self_addr env)) True)
       (s\<lparr>ty_guard := g, ty_dep_count := (ty_dep_count s)(a \<mapsto> ?n),
          ty_dep_total := (ty_dep_total s)(a \<mapsto> ?t), ty_mev := m, ty_global := gl\<rparr>)"
    have d: "ty_dep_count s' = (ty_dep_count s)(a \<mapsto> ?n)" "ty_dep_total s' = (ty_dep_total s)(a \<mapsto> ?t)"
      unfolding s' by (simp_all add: push_log_def)
    have "evasion_ok ?n ?t" using deposits_okD [OF tr_invD(8) [OF inv'], of a] d by simp
    then show ?thesis using f d assms(2) by (auto simp: evasion_ok_def Let_def)
  qed
qed


section \<open>Distributions to the staking contract\<close>

text \<open>
  C22. A distribution moves its amount and closes one epoch. With the staking contract of this repository
  as the receiver, another account than the treasury, and token contracts that keep the token
  interface, a successful distribution of \<open>x\<close> in a reachable state takes exactly \<open>x\<close> from the
  treasury and gives it to the staking contract; one tenth, rounded down, is added to the pool of the liquidity
  providers, and the rest with the collected penalties is the reward of the epoch it closes, no
  other epoch changes; the penalty pool is empty afterwards and no stake changes.
\<close>

theorem distribution_funds_epoch:
  assumes "token_client T" "(ts_step T Q SP inst me sc)\<^sup>*\<^sup>* (ts_start t0) (s, ss, t)" "ty_staking s = Some sc" "self_addr env = me" "sc \<noteq> me"
    "tr_distribute_to_stakers (ts_tokens T) (ts_peers T Q sc) env tok x (s, ss, t) = Inr (s', ss', t')"
  shows "tk_balance T tok me t' = tk_balance T tok me t - x \<and> tk_balance T tok sc t' = tk_balance T tok sc t + x \<and>
    get_or 0 (st_lp_pool ss') = get_or 0 (st_lp_pool ss) + x div 10 \<and>
    get_or 0 (st_epoch ss') = get_or 0 (st_epoch ss) + 1 \<and>
    st_epoch_reward ss' = (st_epoch_reward ss)(get_or 0 (st_epoch ss) \<mapsto> x - x div 10 + get_or 0 (st_penalty_pool ss)) \<and>
    get_or 0 (st_penalty_pool ss') = 0 \<and> st_stake ss' = st_stake ss"
proof -
  have ok: "joint_ok me sc (s, ss, t)" using ts_reach_ok [OF assms(2)] .
  then have inv: "tr_inv me s" "st_inv ss" by (simp_all add: joint_ok_def staking_ok_def)
  from assms(6) tr_invD(10) [OF inv(1)] show ?thesis
  proof (rule distribute_to_stakers_Inr)
    fix c i
    assume "ty_staking s = Some c" "0 < x" "distribution_calls (ts_tokens T) (ts_peers T Q sc) env c i tok x (ss, t) (ss', t')"
    then have e: "tk_transfer T (as_invoker env) tok me sc x t = Inr t'"
        "get_or 0 (st_lp_pool ss') = get_or 0 (st_lp_pool ss) + x div 10"
        "closes_epoch ((as_invoker env)\<lparr>self_addr := sc\<rparr>) (x - x div 10) ss ss'"
      using distribution_effect [of T Q sc env i tok x ss t ss' t'] inv(2) assms(3,4) by auto
    have sep: "sep41 (tk_balance T) (tk_transfer T)" using assms(1) by (simp add: token_client_def)
    note b = sep41.xfer_from [OF sep e(1) assms(5) [symmetric]] sep41.xfer_to [OF sep e(1) assms(5) [symmetric]]
    show ?thesis using b e(2,3) by (simp add: closes_epoch_def epoch_data_def)
  qed
qed

theorem distribution_funds_epoch_witness:
  "\<exists>s' ss' t'. tr_distribute_to_stakers (ts_tokens mnt_ops) (ts_peers mnt_ops tr_alone 9) (demo_env 86400 [1]) 50 1000
     (tr_ready, st_set_up 0, tr_funds) = Inr (s', ss', t') \<and> st_epoch_reward ss' 0 = Some 900"
proof -
  obtain s' ss' t' where run: "tr_distribute_to_stakers (ts_tokens mnt_ops) (ts_peers mnt_ops tr_alone 9) (demo_env 86400 [1]) 50 1000
     (tr_ready, st_set_up 0, tr_funds) = Inr (s', ss', t')" using ts_distributed_run by blast
  have "ty_staking tr_ready = Some 9" by (simp add: tr_ready_def)
  from distribution_funds_epoch [OF token_client_mnt ts_ready_reach this _ _ run] run
  show ?thesis by (simp add: st_set_up_def staking_empty_def)
qed

text \<open>
  C21. The books of the treasury and of the staking contract agree. In every state the two contracts can
  reach together, under any calls of either one that the treasury contract does not itself sign, the staking
  contract has recorded exactly the distributions the treasury has closed: the receipt of number \<open>i\<close> from
  this treasury exists just when the treasury has one, with the same token and with the total less
  its tenth as the amount, and its number is spent.
\<close>

theorem treasury_staking_books:
  assumes "(ts_step T Q SP inst me sc)\<^sup>*\<^sup>* (ts_start t0) (s, ss, t)" "ty_staking s = Some sc"
  shows "(case ty_receipt s i of
      None \<Rightarrow> (\<forall>r. st_receipt ss i = Some r \<longrightarrow> tr_treasury r \<noteq> me)
    | Some d \<Rightarrow> (\<exists>r. st_receipt ss i = Some r \<and> tr_treasury r = me \<and> tr_token r = td_token d \<and>
         tr_amount r = td_total d - td_total d div 10)) \<and>
    (st_receipt ss i \<noteq> None \<longrightarrow> st_processed ss i \<noteq> None)"
proof -
  have ok: "joint_ok me sc (s, ss, t)" using ts_reach_ok [OF assms(1)] .
  then have b: "taken_from me ss i = map_option staker_share (ty_receipt s i)"
    using assms(2) by (simp add: joint_ok_def books_agree_def)
  have "receipts_processed ss" using ok by (simp add: joint_ok_def staking_ok_def)
  then show ?thesis using b
    by (cases "ty_receipt s i"; cases "st_receipt ss i")
      (auto simp: taken_from_def staker_share_def receipts_processed_def split: if_splits)
qed

theorem treasury_staking_books_witness:
  "\<exists>s ss. ts_step mnt_ops tr_alone st_alone (\<lambda>_. True) 0 9 (tr_ready, st_set_up 0, tr_funds) (s, ss) \<and>
     ty_receipt s 1 \<noteq> None \<and> (\<exists>r. st_receipt (fst ss) 1 = Some r \<and> tr_treasury r = 0)"
proof -
  obtain s ss t where run: "tr_distribute_to_stakers (ts_tokens mnt_ops) (ts_peers mnt_ops tr_alone 9) (demo_env 86400 [1]) 50 1000
     (tr_ready, st_set_up 0, tr_funds) = Inr (s, ss, t)" using ts_distributed_run by blast
  have st: "demo_step (tr_ready, st_set_up 0, tr_funds) (s, ss, t)"
    by (rule ts_step.Treasury [where env = "demo_env 86400 [1]" and c = "TC_Distribute 50 1000"]) (use run in simp_all)
  have r: "ty_staking s = Some 9 \<and> ty_receipt s 1 \<noteq> None"
    using run
  proof (rule distribute_to_stakers_Inr, goal_cases)
    case 1
    then show ?case by (simp add: tr_ready_def u64_max_def)
  next
    case 2
    then show ?case by (simp add: tr_ready_def push_log_def record_invariant_check_def Let_def)
  qed
  from treasury_staking_books [OF rtranclp.rtrancl_into_rtrancl [OF ts_ready_reach st], of 1] r st
  show ?thesis by (fastforce split: option.splits)
qed

text \<open>
  C23. A treasury that replaces another one cannot distribute. If the staking contract has processed the
  number of the next distribution of the treasury, from whatever treasury it came, then in no later
  state does a distribution of this treasury to stakers succeed, whatever either contract is asked to
  do in between.
\<close>

theorem follower_never_distributes:
  assumes "(ts_step T Q SP inst me sc)\<^sup>*\<^sup>* (ts_start t0) (s, ss, t)" "ty_staking s = Some sc"
    "st_processed ss (Suc (get_or 0 (ty_last_dist s))) \<noteq> None"
    "(ts_step T Q SP inst me sc)\<^sup>*\<^sup>* (s, ss, t) (s', ss', t')" "self_addr env = me"
  shows "tr_distribute_to_stakers (ts_tokens T) (ts_peers T Q sc) env tok x (s', ss', t') \<noteq> Inr y"
proof
  assume run: "tr_distribute_to_stakers (ts_tokens T) (ts_peers T Q sc) env tok x (s', ss', t') = Inr y"
  have "joint_stuck me sc (s, ss, t)" using assms(2,3) by (simp add: joint_stuck_def)
  from ts_steps_stuck [OF assms(4) ts_reach_ok [OF assms(1)] this]
  have k: "joint_ok me sc (s', ss', t')" "joint_stuck me sc (s', ss', t')" by simp_all
  obtain s2 w2 where "y = (s2, w2)" by (cases y)
  then have "Suc (get_or 0 (ty_last_dist s')) \<notin> dom (st_processed ss')"
    using staking_receiver.distribute_fresh [where me = me and sc = sc and w = "(ss', t')"] run assms(5) k
    by (simp add: joint_ok_def joint_stuck_def staking_book_def)
  then show False using k(2) by (auto simp: joint_stuck_def)
qed

theorem follower_never_distributes_witness:
  "\<exists>ss. demo_step\<^sup>*\<^sup>* (ts_start tr_funds) (tr_ready, ss, tr_funds) \<and>
    (\<forall>t tok x y. tr_distribute_to_stakers (ts_tokens mnt_ops) (ts_peers mnt_ops tr_alone 9) (demo_env t [1]) tok x
       (tr_ready, ss, tr_funds) \<noteq> Inr y)"
proof -
  obtain ss where ss: "demo_step\<^sup>*\<^sup>* (ts_start tr_funds) (tr_ready, ss, tr_funds)" "st_processed ss 1 \<noteq> None"
    using ts_follower_reach by blast
  have "ty_staking tr_ready = Some 9" "st_processed ss (Suc (get_or 0 (ty_last_dist tr_ready))) \<noteq> None"
    using ss(2) by (simp_all add: tr_ready_def)
  from follower_never_distributes [OF ss(1) this rtranclp.rtrancl_refl] ss(1) show ?thesis by fastforce
qed

end
