(* ===== verification/Spec2Isabelle.thy ===== *)
theory Spec2Isabelle
  imports EscrowLimits MultisigProps TimelockProps LendingProps VestingProps RollbackReview StakingProps TreasuryProps
begin

text \<open>
  MentorsMind contracts: a model of the core of the Soroban workspace and its correctness.

  Parts and how they interact. The escrow contract (\<open>escrow/src/lib.rs\<close>) holds the tokens of
  learners until sessions are delivered. It calls a SEP-41 token to move them, uses the shared
  library (\<open>contracts/shared/src\<close>) for checked arithmetic, validation, state machines, the
  reentrancy guard, failure tracking and the emergency multisig, and optionally asks a staking,
  a reputation, an insurance, an oracle and a registry contract. The MNT token
  (\<open>contracts/mnt-token/src/lib.rs\<close>) is the token of the suite. The multisig wallet
  (\<open>contracts/multisig_admin\<close>) executes the proposals of its signers and is the guardian of the
  timelock (\<open>contracts/timelock\<close>), which delays the operations of its admin. Roles
  (\<open>contracts/rbac\<close>) gate the protocol parameters (\<open>contracts/shared/src/params.rs\<close>), from which the
  lending pool (\<open>contracts/lending_pool\<close>) reads its fee. Governance (\<open>contracts/governance\<close>)
  decides proposals by time-weighted votes, queues calls in the timelock and reports approved
  rollbacks to the escrow. Vesting (\<open>contracts/vesting\<close>) pays out token grants over time. Staking
  (\<open>contracts/staking\<close>) locks tokens of mentors, closes epochs of revenue, by the message of a
  treasury among others, and pays locked rewards to its stakers. The treasury
  (\<open>contracts/treasury\<close>) collects deposits and fees, pays allocations, buys back tokens, and sends
  distributions to the staking contract.

  Theories.
  \<^item> \<open>Prelude\<close>: the host environment, failures, the result combinators, integers with the
    checks of \<open>overflow-checks = true\<close>, sums over maps. \<open>SafeMath\<close>: \<open>safe_math.rs\<close>, and its
    agreement with machine words.
  \<^item> \<open>MntToken\<close>: all entry points of the token as functions on one record; conservation of the
    supply up to self-transfers, authorisation of every debit. \<open>Sep41\<close>: the token interface as
    the locale \<open>sep41\<close>, interpreted on the MNT token.
  \<^item> \<open>Emergency\<close>, \<open>FailureTracking\<close>, \<open>Protections\<close>, \<open>Reentrancy\<close>: the shared modules
    \<open>emergency.rs\<close>, \<open>failure_tracking.rs\<close>, \<open>state_machine.rs\<close>, \<open>payment_integrity.rs\<close>,
    \<open>session_uniqueness.rs\<close>, \<open>platform_authenticity.rs\<close>, \<open>dynamic_fees.rs\<close>, \<open>pagination.rs\<close>,
    \<open>validation.rs\<close>, \<open>reentrancy_guard.rs\<close>.
  \<^item> \<open>EscrowState\<close>, \<open>EscrowFees\<close>, \<open>EscrowLifecycle\<close>, \<open>EscrowAdmin\<close>, \<open>EscrowMonitor\<close>: storage,
    fees and entry points of the escrow, one definition per entry point, on a record with one
    field per storage key and a token state of any type.
  \<^item> \<open>EscrowInv\<close>, \<open>EscrowSafety\<close>, \<open>EscrowFunding\<close>, \<open>EscrowGovern\<close>: what a call preserves, proved
    for every entry point in the locale \<open>token_client\<close>. \<open>EscrowSystem\<close>, \<open>EscrowReach\<close>: one
    datatype of calls, the step relation, reachable states, the invariant.
  \<^item> \<open>EscrowProps\<close>, \<open>EscrowRules\<close>, \<open>EscrowLimits\<close>: the properties of the escrow with concrete runs;
    what a release, a partial release or a resolution pays is stated on the token balances, beside the record.
  \<^item> \<open>EscrowRollback\<close>: disaster recovery, with its own storage beside the escrow's.
    \<open>EscrowRecovery\<close>: what its calls keep; \<open>EscrowDrProps\<close>: the conditions of a rollback, the round
    trip, solvency until the first rollback. \<open>RollbackReview\<close>: escrow and governance together,
    governance acting on the escrow through its record of peers: a rollback needs a vote.

  \<^item> \<open>Recovery\<close>: the types and rules of \<open>admin.rs\<close>, \<open>disaster_recovery.rs\<close>, \<open>emergency_rollback.rs\<close>. \<open>Multisig\<close>: the wallet, one
    definition per entry point and one datatype of calls, the proposals it makes of itself
    included; \<open>MultisigRules\<close>: what a call changes and keeps of configuration, votes and rollback
    records; \<open>MultisigProps\<close>: quorum and what is then dispatched, configuration,
    the signers can always act, rollbacks.
  \<^item> \<open>Timelock\<close>, \<open>TimelockRules\<close>, \<open>TimelockProps\<close>: schedule, execute, cancel, the guardian's
    emergency cancel and its weekly limit, paging through all operations. The guardian is the
    locale \<open>guardian_contract\<close>, interpreted on the multisig wallet.
  \<^item> \<open>Rbac\<close>: roles with their enumeration, refined to a set of grants. \<open>Params\<close>: the protocol
    parameters. \<open>LendingPool\<close>, \<open>LendingRules\<close>, \<open>LendingProps\<close>: deposits, loans, auctions, yield;
    the pool's books against its records, the fee, the auction that outlives its loan.
  \<^item> \<open>Vesting\<close>, \<open>VestingProps\<close>: schedules, claims, revocation, Merkle claims; a claim pays exactly what
    has vested, and everything is paid at the end.
  \<^item> \<open>GovShared\<close>: the rules of the shared library that governance applies (market control, dispute
    independence, holding period, coordinated timing). \<open>GovArbitrators\<close>: the admin and the
    arbitrator registry, refined to a list. \<open>Governance\<close>: proposals, votes, execution,
    cancellation. \<open>GovernanceRules\<close>: calls, reachable states, what each call changes;
    \<open>GovernanceInv\<close>: the invariant (votes, counters, outcomes); \<open>GovernanceProps\<close>: the properties.

  \<^item> \<open>DenseIndex\<close>: an array in storage slots with a reverse index, where removal moves the last
    entry into the gap (\<open>StakerAt\<close>/\<open>StakerIndex\<close>, the queue of pending rewards, the arbitrators). \<open>StakingMath\<close>:
    \<open>staking.rs\<close> with its casts. \<open>StakingState\<close>, \<open>Staking\<close>, \<open>StakingWatch\<close>: storage, stakes, exits, epochs, settlement,
    claims, liquidity providers; recovery and monitoring. \<open>StakingRules\<close>: the effect of a successful call as a
    record update. \<open>StakingInv\<close>, \<open>StakingSafety\<close>, \<open>StakingReach\<close>: calls, the invariant, its preservation, the closed forms of a
    claim and of a distribution. \<open>StakingLife\<close>: how a call changes epochs and locked rewards. \<open>StakingDemo\<close>,
    \<open>StakingProps\<close>: a run, the properties.

  \<^item> \<open>EconChecks\<close>, \<open>Pricing\<close>: \<open>resource_management.rs\<close>, \<open>mev_protection.rs\<close>, \<open>economic_verification.rs\<close>,
    \<open>pricing_protection.rs\<close>; the bubble sort of the market observations is the stable sort of the library,
    and the price it selects a weighted median. \<open>TreasuryState\<close>, \<open>Treasury\<close>, \<open>TreasuryBuyback\<close>: storage,
    administration and views of the treasury; deposits, allocations, approvals, distributions; buybacks and one
    datatype of calls. \<open>TreasuryRules\<close>: journals (a map with a counter) as lists, the effect of a successful
    call. \<open>TreasuryInv\<close>, \<open>TreasuryHistory\<close>: the invariant of the reachable states, what no call undoes.
    \<open>TreasuryStaking\<close>: treasury and staking contract in one state, calls from one to the other included.
    \<open>TreasuryDemo\<close>, \<open>TreasuryProps\<close>: runs of both, the properties.

  Interfaces. \<open>distribution_receiver\<close> in \<open>TreasuryStaking\<close>, what the treasury relies on in a distribution, interpreted on the
  staking contract; \<open>dense_array\<close> in \<open>DenseIndex\<close>, interpreted on the stakers and on the pending rewards; \<open>sep41\<close> (laws of a token) and \<open>token_client\<close> (a contract that holds tokens) in
  \<open>Sep41\<close>, \<open>guardian_contract\<close> in \<open>TimelockRules\<close>; each is interpreted on the modelled contract
  that provides it, the MNT token and the multisig wallet.

  Conventions. A failing call is rolled back by the host, so a failure carries no state. An
  address, symbol or hash is compared for equality only (the Merkle path of \<open>Vesting\<close> also orders hashes). Contracts that are not modelled are
  the records \<open>peers\<close>, \<open>gov_peers\<close>, \<open>staking_peers\<close> and \<open>treasury_peers\<close> of functions of their arguments; the token is the record \<open>token_ops\<close> under
  the laws of \<open>sep41\<close>. Recursion is structural or has a measure (the paging loops
  of \<open>Timelock\<close>, whose cursor grows; the settlement of \<open>Staking\<close>, at most 50 epochs), but for \<open>select_arbitrator\<close>, whose cyclic search takes at most
  as many steps as there are entries and never runs out in a reachable state. Not modelled: events,
  time-to-live of storage entries (except that extending a missing entry traps), instruction
  budgets, XDR encodings (a hash is a function of the list of encoded items).

  Where a document or a test of the repository disagrees with the code, the theorems state what the
  code does. The text of the property says so in the cases that change its meaning: a rollback needs a
  quorum of 50 percent and not the 30 of the README of governance (\<open>gov_outcome\<close>,
  \<open>rollback_needs_vote\<close>), and no stake is locked for less than fourteen days although five tests of
  the staking contract try to (\<open>staking_wellformed\<close>).
\<close>

end
